(* ===== verification/Prelude.thy ===== *)
theory Prelude
  imports Complex_Main
begin

text \<open>
  Shared vocabulary of the development: the Python exceptions the services raise, database
  tables as key-indexed lists of rows in insertion order, conditional UPDATE statements that
  return the number of rows they touched, and the contract every status transition of the
  repositories obeys (the locale \<open>guarded_transition\<close>).

  A Python \<open>Decimal\<close> is a rational: the programs only add, subtract, multiply by fixed rates
  and compare, and \<open>quantize\<close> is written out where it is called. A moment in time is an \<open>int\<close>
  counting microseconds, the resolution of \<open>datetime\<close>. Identifiers (UUIDs) are natural numbers.
\<close>

named_theorems ledger_simps \<open>effect of the balance operations on balances and totals\<close>
named_theorems table_simps \<open>effect of insertions and updates on lookups, keys and sums\<close>

section \<open>Types of the model\<close>

type_synonym ident = nat
type_synonym decimal = rat
type_synonym moment = int
type_synonym token = string

datatype py_error =
    ValueError string
  | LookupError string
  | PermissionError string
  | RuntimeError string
  | TypeError string
  | AttributeError string

text \<open>A handler raises (\<open>Inl\<close>) or returns (\<open>Inr\<close>); a raise rolls the session back.\<close>

type_synonym 'a outcome = "py_error + 'a"

definition microsecond_per_second :: int where
  "microsecond_per_second = 1000000"

definition hours :: "int \<Rightarrow> int" where
  "hours h = h * 3600 * microsecond_per_second"

definition seconds :: "int \<Rightarrow> int" where
  "seconds n = n * microsecond_per_second"

lemma hours_mono: "0 \<le> h \<Longrightarrow> 0 \<le> hours h"
  by (simp add: hours_def microsecond_per_second_def)

section \<open>Tables\<close>

type_synonym ('k, 'v) table = "('k \<times> 'v) list"

definition row_of :: "('k, 'v) table \<Rightarrow> 'k \<Rightarrow> 'v option" where
  "row_of t k = map_of t k"

definition insert_row :: "'k \<Rightarrow> 'v \<Rightarrow> ('k, 'v) table \<Rightarrow> ('k, 'v) table" where
  "insert_row k v t = t @ [(k, v)]"

text \<open>UPDATE \<open>t\<close> SET \<open>f\<close> WHERE \<open>P\<close>, and its row count.\<close>

definition update_where :: "('k \<Rightarrow> 'v \<Rightarrow> bool) \<Rightarrow> ('v \<Rightarrow> 'v) \<Rightarrow> ('k, 'v) table \<Rightarrow> ('k, 'v) table" where
  "update_where P f t = map (\<lambda>(k, v). (k, if P k v then f v else v)) t"

definition rows_where :: "('k \<Rightarrow> 'v \<Rightarrow> bool) \<Rightarrow> ('k, 'v) table \<Rightarrow> nat" where
  "rows_where P t = length (filter (\<lambda>(k, v). P k v) t)"

text \<open>UPDATE one row by primary key when its guard holds: the shape of every repository transition.\<close>

definition update_row :: "('v \<Rightarrow> bool) \<Rightarrow> ('v \<Rightarrow> 'v) \<Rightarrow> 'k \<Rightarrow> ('k, 'v) table \<Rightarrow> nat \<times> ('k, 'v) table" where
  "update_row g f k t =
     (rows_where (\<lambda>k' v. k' = k \<and> g v) t, update_where (\<lambda>k' v. k' = k \<and> g v) f t)"

text \<open>Mutating the attributes of one loaded row.\<close>

definition modify_row :: "'k \<Rightarrow> ('v \<Rightarrow> 'v) \<Rightarrow> ('k, 'v) table \<Rightarrow> ('k, 'v) table" where
  "modify_row k f t = update_where (\<lambda>k' v. k' = k) f t"

definition keys_of :: "('k, 'v) table \<Rightarrow> 'k list" where
  "keys_of t = map fst t"

text \<open>Primary keys are unique.\<close>

definition table_ok :: "('k, 'v) table \<Rightarrow> bool" where
  "table_ok t \<longleftrightarrow> distinct (keys_of t)"

definition table_sum :: "('k \<Rightarrow> 'v \<Rightarrow> decimal) \<Rightarrow> ('k, 'v) table \<Rightarrow> decimal" where
  "table_sum h t = sum_list (map (\<lambda>(k, v). h k v) t)"

definition select_where :: "('v \<Rightarrow> bool) \<Rightarrow> ('k, 'v) table \<Rightarrow> ('k \<times> 'v) list" where
  "select_where P t = filter (\<lambda>(k, v). P v) t"

text \<open>\<open>query.filter(P).first()\<close> and \<open>query.filter(P).delete()\<close>.\<close>

definition first_row :: "('v \<Rightarrow> bool) \<Rightarrow> ('k, 'v) table \<Rightarrow> ('k \<times> 'v) option" where
  "first_row P t = find (\<lambda>(k, v). P v) t"

definition delete_where :: "('k \<Rightarrow> 'v \<Rightarrow> bool) \<Rightarrow> ('k, 'v) table \<Rightarrow> ('k, 'v) table" where
  "delete_where P t = filter (\<lambda>(k, v). \<not> P k v) t"

subsection \<open>Lookups\<close>

lemma row_of_Nil [simp]: "row_of [] k = None"
  by (simp add: row_of_def)

lemma row_of_Cons [simp]: "row_of ((k', v) # t) k = (if k = k' then Some v else row_of t k)"
  by (simp add: row_of_def)

lemma row_of_insert [table_simps]:
  "row_of (insert_row k v t) k' =
     (case row_of t k' of Some w \<Rightarrow> Some w | None \<Rightarrow> if k' = k then Some v else None)"
  by (induction t) (auto simp: insert_row_def)

lemma row_of_update_where [table_simps]:
  "row_of (update_where P f t) k = map_option (\<lambda>v. if P k v then f v else v) (row_of t k)"
  by (induction t) (auto simp: update_where_def)

lemma row_of_update_row [table_simps]:
  "row_of (snd (update_row g f k t)) k' =
     map_option (\<lambda>v. if k' = k \<and> g v then f v else v) (row_of t k')"
  by (simp add: update_row_def row_of_update_where)

lemma row_of_modify_row [table_simps]:
  "row_of (modify_row k f t) k' = map_option (\<lambda>v. if k' = k then f v else v) (row_of t k')"
  by (simp add: modify_row_def row_of_update_where)

lemma row_of_None_iff: "row_of t k = None \<longleftrightarrow> k \<notin> set (keys_of t)"
proof (induction t)
  case Nil
  then show ?case by (simp add: keys_of_def)
next
  case (Cons kv t)
  then show ?case by (cases kv) (simp add: keys_of_def)
qed

lemma row_of_Some_mem: "row_of t k = Some v \<Longrightarrow> (k, v) \<in> set t"
  by (induction t) (auto split: if_splits)

lemma mem_row_of: "table_ok t \<Longrightarrow> (k, v) \<in> set t \<Longrightarrow> row_of t k = Some v"
proof (induction t)
  case Nil
  then show ?case by simp
next
  case (Cons kv t)
  obtain k0 v0 where kv: "kv = (k0, v0)" by (cases kv)
  show ?case
  proof (cases "k0 = k")
    case True
    with Cons.prems have "(k, v) \<notin> set t"
      by (force simp: kv table_ok_def keys_of_def)
    with True Cons.prems show ?thesis by (simp add: kv)
  next
    case False
    with Cons show ?thesis by (auto simp: kv table_ok_def keys_of_def)
  qed
qed

lemma first_row_mem: "first_row P t = Some (k, v) \<Longrightarrow> (k, v) \<in> set t \<and> P v"
  by (induction t) (auto simp: first_row_def split: if_splits)

lemma first_row_Some:
  "table_ok t \<Longrightarrow> first_row P t = Some (k, v) \<Longrightarrow> row_of t k = Some v \<and> P v"
  by (simp add: first_row_mem mem_row_of)

lemma first_row_None: "first_row P t = None \<longleftrightarrow> (\<forall>(k, v) \<in> set t. \<not> P v)"
  by (auto simp: first_row_def find_None_iff)

lemma row_of_delete_where:
  "row_of (delete_where P t) k = (case row_of t k of None \<Rightarrow> None | Some v \<Rightarrow> if P k v then None else Some v)"
  if "table_ok t"
  using that
proof (induction t)
  case Nil
  then show ?case by (simp add: delete_where_def)
next
  case (Cons kv t)
  obtain k0 v0 where kv: "kv = (k0, v0)" by (cases kv)
  from Cons.prems have ok: "table_ok t" and fresh: "row_of t k0 = None"
    by (auto simp: kv table_ok_def keys_of_def row_of_None_iff)
  have step: "delete_where P ((k0, v0) # t) =
      (if P k0 v0 then delete_where P t else (k0, v0) # delete_where P t)"
    by (simp add: delete_where_def)
  show ?case
    using Cons.IH [OF ok] fresh by (auto simp: kv step split: option.splits)
qed

subsection \<open>Keys\<close>

lemma keys_update_where [simp]: "keys_of (update_where P f t) = keys_of t"
  by (induction t) (auto simp: keys_of_def update_where_def)

lemma keys_update_row [simp]: "keys_of (snd (update_row g f k t)) = keys_of t"
  by (simp add: update_row_def)

lemma keys_modify_row [simp]: "keys_of (modify_row k f t) = keys_of t"
  by (simp add: modify_row_def)

lemma keys_insert [simp]: "keys_of (insert_row k v t) = keys_of t @ [k]"
  by (simp add: keys_of_def insert_row_def)

lemma table_ok_Nil [simp]: "table_ok []"
  by (simp add: table_ok_def keys_of_def)

lemma table_ok_update_where [simp]: "table_ok (update_where P f t) = table_ok t"
  by (simp add: table_ok_def)

lemma table_ok_update_row [simp]: "table_ok (snd (update_row g f k t)) = table_ok t"
  by (simp add: table_ok_def)

lemma table_ok_modify_row [simp]: "table_ok (modify_row k f t) = table_ok t"
  by (simp add: modify_row_def)

lemma table_ok_insert [simp]: "table_ok (insert_row k v t) \<longleftrightarrow> table_ok t \<and> row_of t k = None"
  by (auto simp: table_ok_def row_of_None_iff)

subsection \<open>Row counts and sums\<close>

lemma rows_where_absent: "row_of t k = None \<Longrightarrow> rows_where (\<lambda>k' v. k' = k \<and> g v) t = 0"
  by (induction t) (auto simp: rows_where_def split: if_splits)

lemma rows_update_row:
  "table_ok t \<Longrightarrow>
     fst (update_row g f k t) = (case row_of t k of Some v \<Rightarrow> if g v then 1 else 0 | None \<Rightarrow> 0)"
proof (induction t)
  case Nil
  then show ?case by (simp add: update_row_def rows_where_def)
next
  case (Cons kv t)
  obtain k0 v0 where kv: "kv = (k0, v0)" by (cases kv)
  from Cons.prems have ok: "table_ok t" and fresh: "row_of t k0 = None"
    by (auto simp: kv table_ok_def keys_of_def row_of_None_iff)
  have count: "fst (update_row g f k ((k0, v0) # t)) =
      (if k0 = k \<and> g v0 then 1 else 0) + fst (update_row g f k t)"
    by (simp add: update_row_def rows_where_def)
  show ?case
    using Cons.IH [OF ok] fresh by (auto simp: count kv)
qed

lemma table_sum_Nil [simp]: "table_sum h [] = 0"
  by (simp add: table_sum_def)

lemma table_sum_Cons [simp]: "table_sum h ((k, v) # t) = h k v + table_sum h t"
  by (simp add: table_sum_def)

lemma table_sum_insert [table_simps]: "table_sum h (insert_row k v t) = table_sum h t + h k v"
  by (simp add: table_sum_def insert_row_def)

lemma update_row_id:
  "row_of t k = None \<or> (\<exists>v. row_of t k = Some v \<and> \<not> g v) \<Longrightarrow> table_ok t \<Longrightarrow> snd (update_row g f k t) = t"
proof (induction t)
  case Nil
  then show ?case by (simp add: update_row_def update_where_def)
next
  case (Cons kv t)
  obtain k0 v0 where kv: "kv = (k0, v0)" by (cases kv)
  from Cons.prems have ok: "table_ok t" and fresh: "row_of t k0 = None"
    by (auto simp: kv table_ok_def keys_of_def row_of_None_iff)
  have "snd (update_row g f k t) = t"
    using Cons.IH [OF _ ok] Cons.prems(1) fresh by (cases "k0 = k") (auto simp: kv)
  moreover have "\<not> (k0 = k \<and> g v0)"
    using Cons.prems(1) by (auto simp: kv)
  ultimately show ?case
    by (auto simp: update_row_def update_where_def kv)
qed

lemma table_sum_update_row:
  "table_ok t \<Longrightarrow> row_of t k = Some v \<Longrightarrow>
     table_sum h (snd (update_row g f k t)) =
     (if g v then table_sum h t - h k v + h k (f v) else table_sum h t)"
proof (induction t)
  case Nil
  then show ?case by simp
next
  case (Cons kv t)
  obtain k0 v0 where kv: "kv = (k0, v0)" by (cases kv)
  from Cons.prems have ok: "table_ok t" and fresh: "row_of t k0 = None"
    by (auto simp: kv table_ok_def keys_of_def row_of_None_iff)
  have step: "snd (update_row g f k ((k0, v0) # t)) =
      (k0, if k0 = k \<and> g v0 then f v0 else v0) # snd (update_row g f k t)"
    by (simp add: update_row_def update_where_def)
  show ?case
  proof (cases "k0 = k")
    case True
    with fresh ok have "snd (update_row g f k t) = t" by (simp add: update_row_id)
    with True Cons.prems step show ?thesis by (simp add: kv)
  next
    case False
    with Cons.prems have "row_of t k = Some v" by (simp add: kv)
    with Cons.IH [OF ok] False show ?thesis by (simp add: step kv)
  qed
qed

lemma modify_row_is_update: "modify_row k f t = snd (update_row (\<lambda>_. True) f k t)"
  by (simp add: modify_row_def update_row_def)

lemma table_sum_modify_row:
  "table_ok t \<Longrightarrow> row_of t k = Some v \<Longrightarrow>
     table_sum h (modify_row k f t) = table_sum h t - h k v + h k (f v)"
  by (simp add: modify_row_is_update table_sum_update_row)

lemma modify_row_cong:
  assumes "table_ok t" and "row_of t k = Some v" and "f v = g v"
  shows "modify_row k f t = modify_row k g t"
  unfolding modify_row_def update_where_def
proof (rule map_cong [OF refl])
  fix kv
  assume "kv \<in> set t"
  moreover obtain k' v' where "kv = (k', v')" by (cases kv)
  ultimately show "(case kv of (k', v') \<Rightarrow> (k', if k' = k then f v' else v')) =
      (case kv of (k', v') \<Rightarrow> (k', if k' = k then g v' else v'))"
    using mem_row_of [OF assms(1)] assms(2,3) by fastforce
qed

text \<open>A table is its keys and its lookups; one row of it replaced.\<close>

lemma table_eqI:
  "keys_of t = keys_of t' \<Longrightarrow> table_ok t \<Longrightarrow> row_of t = row_of t' \<Longrightarrow> t = t'"
proof (induction t arbitrary: t')
  case Nil
  then show ?case by (simp add: keys_of_def)
next
  case (Cons kv t)
  obtain k v where kv: "kv = (k, v)" by (cases kv)
  obtain v' s where t': "t' = (k, v') # s" and keys: "keys_of t = keys_of s"
    using Cons.prems(1) by (cases t') (auto simp: keys_of_def kv)
  have ok: "table_ok t" and fresh: "k \<notin> set (keys_of t)"
    using Cons.prems(2) by (auto simp: kv table_ok_def keys_of_def)
  have "row_of t x = row_of s x" for x
  proof (cases "x = k")
    case True
    with fresh keys show ?thesis by (metis row_of_None_iff)
  next
    case False
    with fun_cong [OF Cons.prems(3), of x] show ?thesis by (simp add: kv t')
  qed
  moreover have "v = v'"
    using fun_cong [OF Cons.prems(3), of k] by (simp add: kv t')
  ultimately show ?case
    using Cons.IH [OF keys ok] by (auto simp: kv t')
qed

definition row_step :: "'k \<Rightarrow> 'v \<Rightarrow> 'v \<Rightarrow> ('k, 'v) table \<Rightarrow> ('k, 'v) table \<Rightarrow> bool" where
  "row_step k r r' t t' \<longleftrightarrow> table_ok t \<and> row_of t k = Some r \<and> t' = modify_row k (\<lambda>_. r') t"

lemma row_step_modify:
  "table_ok t \<Longrightarrow> row_of t k = Some r \<Longrightarrow> row_step k r (f r) t (modify_row k f t)"
  by (auto simp: row_step_def intro: modify_row_cong)

lemma row_step_ok: "row_step k r r' t t' \<Longrightarrow> table_ok t'"
  by (simp add: row_step_def)

lemma row_step_row_of:
  "row_step k r r' t t' \<Longrightarrow> row_of t' x = (if x = k then Some r' else row_of t x)"
  by (cases "row_of t x") (auto simp: row_step_def row_of_modify_row)

lemma modify_row_twice:
  "modify_row k (\<lambda>_. r2) (modify_row k (\<lambda>_. r1) t) = modify_row k (\<lambda>_. r2) t"
  by (induction t) (auto simp: modify_row_def update_where_def)

lemma row_step_trans:
  "row_step k r r1 t t1 \<Longrightarrow> row_step k r1 r2 t1 t2 \<Longrightarrow> row_step k r r2 t t2"
  by (simp add: row_step_def modify_row_twice)

lemma row_step_sum:
  assumes "row_step k r r' t t'" and "\<And>k' v. k' \<noteq> k \<Longrightarrow> row_of t k' = Some v \<Longrightarrow> h' k' v = h k' v"
  shows "table_sum h' t' = table_sum h t - h k r + h' k r'"
proof -
  have ok: "table_ok t" and row: "row_of t k = Some r" and t': "t' = modify_row k (\<lambda>_. r') t"
    using assms(1) by (simp_all add: row_step_def)
  have "table_sum h' t = table_sum h t - h k r + h' k r"
    using ok row assms(2)
  proof (induction t)
    case Nil
    then show ?case by simp
  next
    case (Cons kv t)
    obtain k0 v0 where kv: "kv = (k0, v0)" by (cases kv)
    have ok: "table_ok t" and fresh: "row_of t k0 = None"
      using Cons.prems(1) by (auto simp: kv table_ok_def keys_of_def row_of_None_iff)
    have rest: "h' k' v = h k' v" if "k' \<noteq> k" "row_of t k' = Some v" for k' v
      using that Cons.prems(3) [of k' v] fresh by (cases "k' = k0") (auto simp: kv)
    show ?case
    proof (cases "k0 = k")
      case True
      have "table_sum h' t = table_sum h t"
        using ok fresh True rest
      proof (induction t)
        case Nil
        then show ?case by simp
      next
        case (Cons kv t)
        obtain k1 v1 where kv: "kv = (k1, v1)" by (cases kv)
        have "table_ok t" and fresh1: "row_of t k1 = None"
          using Cons.prems(1) by (auto simp: kv table_ok_def keys_of_def row_of_None_iff)
        moreover have "row_of t k0 = None" and "k1 \<noteq> k"
          using Cons.prems(2,3) by (auto simp: kv split: if_splits)
        moreover have "h' k' v = h k' v" if "k' \<noteq> k" "row_of t k' = Some v" for k' v
          using that Cons.prems(4) [of k' v] fresh1 by (cases "k' = k1") (auto simp: kv)
        ultimately show ?case
          using Cons.IH Cons.prems(3) Cons.prems(4) [of k1 v1] by (simp add: kv)
      qed
      with True Cons.prems(2) show ?thesis by (simp add: kv)
    next
      case False
      then have "row_of t k = Some r" and "h' k0 v0 = h k0 v0"
        using Cons.prems(2) Cons.prems(3) [of k0 v0] by (simp_all add: kv)
      with Cons.IH [OF ok] rest show ?thesis by (simp add: kv)
    qed
  qed
  then show ?thesis
    using table_sum_modify_row [OF ok row, of h' "\<lambda>_. r'"] by (simp add: t')
qed

lemma table_sum_zero: "(\<And>k v. (k, v) \<in> set t \<Longrightarrow> h k v = 0) \<Longrightarrow> table_sum h t = 0"
proof (induction t)
  case Nil
  then show ?case by simp
next
  case (Cons kv t)
  obtain k v where kv: "kv = (k, v)" by (cases kv)
  have "h k v = 0" and "table_sum h t = 0"
    using Cons.IH Cons.prems by (auto simp: kv)
  then show ?case by (simp add: kv)
qed

lemma table_sum_cong: "(\<And>k v. (k, v) \<in> set t \<Longrightarrow> h k v = g k v) \<Longrightarrow> table_sum h t = table_sum g t"
proof (induction t)
  case Nil
  then show ?case by simp
next
  case (Cons kv t)
  obtain k v where kv: "kv = (k, v)" by (cases kv)
  have "h k v = g k v" and "table_sum h t = table_sum g t"
    using Cons.IH Cons.prems by (auto simp: kv)
  then show ?case by (simp add: kv)
qed

lemma table_sum_nonneg: "(\<And>k v. (k, v) \<in> set t \<Longrightarrow> 0 \<le> h k v) \<Longrightarrow> 0 \<le> table_sum h t"
proof (induction t)
  case Nil
  then show ?case by simp
next
  case (Cons kv t)
  obtain k v where kv: "kv = (k, v)" by (cases kv)
  have "0 \<le> h k v" and "0 \<le> table_sum h t"
    using Cons.IH Cons.prems by (auto simp: kv)
  then show ?case by (simp add: kv)
qed

subsection \<open>Fresh identifiers\<close>

text \<open>
  Primary keys are \<open>uuid4\<close> values, which the programs take to be new. The model draws a key that
  the table does not hold.
\<close>

definition new_id :: "(ident, 'v) table \<Rightarrow> ident" where
  "new_id t = Suc (foldr max (keys_of t) 0)"

definition add_row :: "'v \<Rightarrow> (ident, 'v) table \<Rightarrow> (ident, 'v) table" where
  "add_row v t = insert_row (new_id t) v t"

lemma foldr_max_ge: "x \<in> set xs \<Longrightarrow> x \<le> foldr max xs (0::nat)"
  by (induction xs) auto

lemma row_of_new_id [simp]: "row_of t (new_id t) = None"
  using foldr_max_ge [of "new_id t" "keys_of t"]
  by (auto simp: row_of_None_iff new_id_def)

lemma row_of_add_row [table_simps]:
  "row_of (add_row v t) k = (if k = new_id t then Some v else row_of t k)"
  by (cases "row_of t k") (auto simp: add_row_def row_of_insert)

lemma row_of_add_row_new [simp]: "row_of (add_row v t) (new_id t) = Some v"
  by (simp add: row_of_add_row)

lemma table_ok_add_row [simp]: "table_ok (add_row v t) = table_ok t"
  by (simp add: add_row_def)

lemma table_sum_add_row [table_simps]: "table_sum h (add_row v t) = table_sum h t + h (new_id t) v"
  by (simp add: add_row_def table_sum_insert)

section \<open>The contract of a guarded status transition\<close>

text \<open>
  Every state change of a repository is one conditional UPDATE: it names a row, fires only when
  the row's status allows it, moves the status out of that guard and reports how many rows it
  changed. The services rely on exactly this to detect a transition that has already happened.
\<close>

locale guarded_transition =
  fixes upd :: "'k \<Rightarrow> ('k, 'v) table \<Rightarrow> nat \<times> ('k, 'v) table"
    and guard :: "'v \<Rightarrow> bool"
    and eff :: "'v \<Rightarrow> 'v"
  assumes upd_rows: "table_ok t \<Longrightarrow>
      fst (upd k t) = (case row_of t k of Some v \<Rightarrow> if guard v then 1 else 0 | None \<Rightarrow> 0)"
    and upd_row_of: "row_of (snd (upd k t)) k' =
      map_option (\<lambda>v. if k' = k \<and> guard v then eff v else v) (row_of t k')"
    and upd_keys: "keys_of (snd (upd k t)) = keys_of t"
    and upd_leaves: "guard v \<Longrightarrow> \<not> guard (eff v)"
begin

lemma upd_ok: "table_ok (snd (upd k t)) = table_ok t"
  by (simp add: table_ok_def upd_keys)

lemma rows_at_most_one: "table_ok t \<Longrightarrow> fst (upd k t) \<le> 1"
  by (simp add: upd_rows split: option.splits)

lemma rows_one_iff:
  "table_ok t \<Longrightarrow> fst (upd k t) = 1 \<longleftrightarrow> (\<exists>v. row_of t k = Some v \<and> guard v)"
  by (auto simp: upd_rows split: option.splits)

lemma rows_zero_iff:
  "table_ok t \<Longrightarrow> fst (upd k t) = 0 \<longleftrightarrow> (\<forall>v. row_of t k = Some v \<longrightarrow> \<not> guard v)"
  by (auto simp: upd_rows split: option.splits)

text \<open>A transition that fired cannot fire again: the second attempt touches no row.\<close>

lemma second_attempt_misses: "table_ok t \<Longrightarrow> fst (upd k (snd (upd k t))) = 0"
  by (auto simp: upd_rows upd_ok upd_row_of upd_leaves split: option.splits)

lemma other_rows_kept: "k' \<noteq> k \<Longrightarrow> row_of (snd (upd k t)) k' = row_of t k'"
  by (cases "row_of t k'") (simp_all add: upd_row_of)

lemma miss_keeps_row: "table_ok t \<Longrightarrow> fst (upd k t) = 0 \<Longrightarrow> row_of (snd (upd k t)) = row_of t"
  by (rule ext, rename_tac x, case_tac "row_of t x") (auto simp: rows_zero_iff upd_row_of)

lemma miss_keeps_table: "table_ok t \<Longrightarrow> fst (upd k t) = 0 \<Longrightarrow> snd (upd k t) = t"
  by (rule table_eqI) (simp_all add: upd_ok upd_keys miss_keeps_row)

lemma hit_steps:
  assumes "table_ok t" and "row_of t k = Some v" and "guard v"
  shows "row_step k v (eff v) t (snd (upd k t))"
proof -
  have "snd (upd k t) = modify_row k (\<lambda>_. eff v) t"
  proof (rule table_eqI)
    show "row_of (snd (upd k t)) = row_of (modify_row k (\<lambda>_. eff v) t)"
    proof
      fix x
      show "row_of (snd (upd k t)) x = row_of (modify_row k (\<lambda>_. eff v) t) x"
        using assms by (cases "row_of t x") (auto simp: upd_row_of row_of_modify_row)
    qed
  qed (simp_all add: upd_ok upd_keys assms)
  then show ?thesis using assms by (simp add: row_step_def)
qed

lemma hit_rows: "table_ok t \<Longrightarrow> row_of t k = Some v \<Longrightarrow> guard v \<Longrightarrow> fst (upd k t) = 1"
  by (simp add: upd_rows)

end

text \<open>The generic statement implements the contract for every guard its effect leaves.\<close>

lemma update_row_guarded:
  "(\<And>v. g v \<Longrightarrow> \<not> g (f v)) \<Longrightarrow> guarded_transition (update_row g f) g f"
  by unfold_locales (auto simp: rows_update_row row_of_update_row)

end
