(* ===== verification/Schema.thy ===== *)
theory Schema
  imports Prelude
begin

text \<open>
  The rows and enumerations of \<open>sthrip/db/models.py\<close> and \<open>sthrip/db/enums.py\<close>, and the state of
  a session: one table per model class. A nullable column is an \<open>option\<close>. Columns that no modelled
  operation reads or decides on (descriptions, hashes, encrypted envelopes, free-form metadata)
  are left out.
\<close>

section \<open>Enumerations\<close>

datatype agent_tier = TierFree | TierVerified | TierPremium | TierEnterprise

fun tier_value :: "agent_tier \<Rightarrow> string" where
  "tier_value TierFree = ''free''"
| "tier_value TierVerified = ''verified''"
| "tier_value TierPremium = ''premium''"
| "tier_value TierEnterprise = ''enterprise''"

datatype escrow_status =
    EscrowCreated | EscrowAccepted | EscrowDelivered | EscrowCompleted
  | EscrowCancelled | EscrowExpired | EscrowPartiallyCompleted

fun escrow_status_value :: "escrow_status \<Rightarrow> string" where
  "escrow_status_value EscrowCreated = ''created''"
| "escrow_status_value EscrowAccepted = ''accepted''"
| "escrow_status_value EscrowDelivered = ''delivered''"
| "escrow_status_value EscrowCompleted = ''completed''"
| "escrow_status_value EscrowCancelled = ''cancelled''"
| "escrow_status_value EscrowExpired = ''expired''"
| "escrow_status_value EscrowPartiallyCompleted = ''partially_completed''"

datatype milestone_status =
    MilestonePending | MilestoneActive | MilestoneDelivered
  | MilestoneCompleted | MilestoneExpired | MilestoneCancelled

datatype channel_status =
    ChannelPending | ChannelOpen | ChannelClosing
  | ChannelSettled | ChannelClosed | ChannelDisputed

datatype stream_status = StreamActive | StreamPaused | StreamStopped

datatype hub_route_status = RoutePending | RouteConfirmed | RouteSettled | RouteFailed

fun hub_route_status_value :: "hub_route_status \<Rightarrow> string" where
  "hub_route_status_value RoutePending = ''pending''"
| "hub_route_status_value RouteConfirmed = ''confirmed''"
| "hub_route_status_value RouteSettled = ''settled''"
| "hub_route_status_value RouteFailed = ''failed''"

datatype fee_collection_status = FeePending | FeeCollected | FeeWithdrawn

datatype transaction_status = TxPending | TxConfirmed | TxFailed | TxOrphaned

datatype payment_type =
    PtP2P | PtHubRouting | PtDeposit | PtWithdrawal | PtEscrowDeposit | PtEscrowRelease
  | PtChannelOpen | PtChannelClose | PtFeeCollection

datatype sla_status =
    SlaProposed | SlaAccepted | SlaActive | SlaDelivered | SlaCompleted | SlaBreached | SlaDisputed

datatype recurring_interval = Hourly | Daily | Weekly | Monthly

datatype loan_status =
    LoanRequested | LoanActive | LoanRepaid | LoanDefaulted | LoanLiquidated | LoanCancelled

datatype swap_status = SwapCreated | SwapLocked | SwapCompleted | SwapRefunded | SwapExpired

datatype conditional_state =
    CondPending | CondTriggered | CondExecuted | CondExpired | CondCancelled

datatype multi_party_state =
    MultiPending | MultiAccepted | MultiCompleted | MultiRejected | MultiExpired

text \<open>The states of a channel and of a hub route are ordered as their lifecycles run.\<close>

fun channel_rank :: "channel_status \<Rightarrow> nat" where
  "channel_rank ChannelPending = 0"
| "channel_rank ChannelOpen = 1"
| "channel_rank ChannelClosing = 2"
| "channel_rank ChannelSettled = 3"
| "channel_rank ChannelClosed = 4"
| "channel_rank ChannelDisputed = 5"

lemma channel_rank_inj: "channel_rank a = channel_rank b \<Longrightarrow> a = b"
  by (cases a; cases b) simp_all

instantiation channel_status :: linorder
begin

definition less_eq_channel_status :: "channel_status \<Rightarrow> channel_status \<Rightarrow> bool" where
  "less_eq_channel_status a b \<longleftrightarrow> channel_rank a \<le> channel_rank b"

definition less_channel_status :: "channel_status \<Rightarrow> channel_status \<Rightarrow> bool" where
  "less_channel_status a b \<longleftrightarrow> channel_rank a < channel_rank b"

instance
  by intro_classes
    (auto simp: less_eq_channel_status_def less_channel_status_def intro: channel_rank_inj)

end

fun hub_route_rank :: "hub_route_status \<Rightarrow> nat" where
  "hub_route_rank RoutePending = 0"
| "hub_route_rank RouteConfirmed = 1"
| "hub_route_rank RouteSettled = 2"
| "hub_route_rank RouteFailed = 3"

lemma hub_route_rank_inj: "hub_route_rank a = hub_route_rank b \<Longrightarrow> a = b"
  by (cases a; cases b) simp_all

instantiation hub_route_status :: linorder
begin

definition less_eq_hub_route_status :: "hub_route_status \<Rightarrow> hub_route_status \<Rightarrow> bool" where
  "less_eq_hub_route_status a b \<longleftrightarrow> hub_route_rank a \<le> hub_route_rank b"

definition less_hub_route_status :: "hub_route_status \<Rightarrow> hub_route_status \<Rightarrow> bool" where
  "less_hub_route_status a b \<longleftrightarrow> hub_route_rank a < hub_route_rank b"

instance
  by intro_classes
    (auto simp: less_eq_hub_route_status_def less_hub_route_status_def intro: hub_route_rank_inj)

end

section \<open>Rows\<close>

record agent =
  ag_name :: string
  ag_is_active :: bool
  ag_tier :: agent_tier
  ag_tier_grace_until :: "moment option"
  ag_xmr_address :: "string option"
  ag_created_at :: moment

record agent_reputation =
  rep_trust_score :: int
  rep_total_transactions :: int
  rep_calculated_at :: moment

record agent_balance =
  bal_available :: decimal
  bal_pending :: decimal
  bal_total_deposited :: decimal
  bal_total_withdrawn :: decimal
  bal_deposit_address :: "string option"
  bal_updated_at :: moment

record transaction =
  tx_hash :: string
  tx_network :: string
  tx_token :: token
  tx_from_agent_id :: "ident option"
  tx_to_agent_id :: "ident option"
  tx_amount :: decimal
  tx_fee :: decimal
  tx_fee_collected :: decimal
  tx_payment_type :: payment_type
  tx_status :: transaction_status
  tx_block_number :: "int option"
  tx_confirmations :: int
  tx_confirmed_at :: "moment option"
  tx_created_at :: moment

record agent_monthly_stats =
  ams_transaction_count :: int
  ams_last_updated :: moment

record fee_collection =
  fc_source_type :: string
  fc_source_id :: "ident option"
  fc_amount :: decimal
  fc_token :: token
  fc_status :: fee_collection_status
  fc_collection_tx_hash :: "string option"
  fc_withdrawn_at :: "moment option"
  fc_created_at :: moment
  fc_payer_agent_id :: "ident option"
  fc_amount_piconero :: "int option"
  fc_rate_applied_bps :: "int option"
  fc_transaction_ref :: "string option"
  fc_collected_at :: "moment option"


record hub_route =
  hr_payment_id :: string
  hr_from_agent_id :: ident
  hr_to_agent_id :: ident
  hr_amount :: decimal
  hr_token :: token
  hr_fee_percent :: decimal
  hr_fee_amount :: decimal
  hr_fee_collected :: bool
  hr_fee_collected_at :: "moment option"
  hr_instant_confirmation :: bool
  hr_status :: hub_route_status
  hr_settlement_tx_hash :: "string option"
  hr_created_at :: moment
  hr_confirmed_at :: "moment option"
  hr_settled_at :: "moment option"

record escrow_deal =
  deal_buyer_id :: ident
  deal_seller_id :: ident
  deal_amount :: decimal
  deal_token :: "token option"
  deal_fee_percent :: decimal
  deal_fee_amount :: decimal
  deal_accept_timeout_hours :: int
  deal_delivery_timeout_hours :: int
  deal_review_timeout_hours :: int
  deal_accept_deadline :: "moment option"
  deal_delivery_deadline :: "moment option"
  deal_review_deadline :: "moment option"
  deal_release_amount :: "decimal option"
  deal_is_multi_milestone :: bool
  deal_milestone_count :: int
  deal_current_milestone :: int
  deal_total_released :: decimal
  deal_total_fees :: decimal
  deal_status :: escrow_status
  deal_created_at :: moment
  deal_accepted_at :: "moment option"
  deal_delivered_at :: "moment option"
  deal_completed_at :: "moment option"
  deal_cancelled_at :: "moment option"
  deal_expires_at :: "moment option"

record escrow_milestone =
  ms_escrow_id :: ident
  ms_sequence :: int
  ms_description :: string
  ms_amount :: decimal
  ms_delivery_timeout_hours :: int
  ms_review_timeout_hours :: int
  ms_delivery_deadline :: "moment option"
  ms_review_deadline :: "moment option"
  ms_release_amount :: "decimal option"
  ms_fee_amount :: decimal
  ms_status :: milestone_status
  ms_activated_at :: "moment option"
  ms_delivered_at :: "moment option"
  ms_completed_at :: "moment option"
  ms_cancelled_at :: "moment option"
  ms_expires_at :: "moment option"

record payment_channel =
  ch_agent_a_id :: ident
  ch_agent_b_id :: ident
  ch_capacity :: decimal
  ch_status :: channel_status
  ch_deposit_a :: decimal
  ch_deposit_b :: decimal
  ch_balance_a :: decimal
  ch_balance_b :: decimal
  ch_nonce :: int
  ch_last_update_sig_a :: "string option"
  ch_last_update_sig_b :: "string option"
  ch_settlement_period :: int
  ch_settled_at :: "moment option"
  ch_closes_at :: "moment option"
  ch_closed_at :: "moment option"
  ch_created_at :: moment

record channel_update =
  cu_channel_id :: ident
  cu_nonce :: int
  cu_balance_a :: decimal
  cu_balance_b :: decimal
  cu_signature_a :: string
  cu_signature_b :: string

record payment_stream =
  st_channel_id :: ident
  st_from_agent_id :: ident
  st_to_agent_id :: ident
  st_rate_per_second :: decimal
  st_started_at :: "moment option"
  st_paused_at :: "moment option"
  st_stopped_at :: "moment option"
  st_total_streamed :: decimal
  st_state :: stream_status

text \<open>
  The JSON values a condition can hold: a text, a number, null, or anything else (a list, an object).
\<close>

datatype config_value = CfgText string | CfgNumber decimal | CfgNull | CfgOther

record conditional_payment =
  cp_from_agent_id :: ident
  cp_to_agent_id :: ident
  cp_amount :: decimal
  cp_currency :: token
  cp_condition_type :: string
  cp_condition_config :: "(string \<times> config_value) list"
  cp_locked_amount :: decimal
  cp_state :: conditional_state
  cp_expires_at :: moment
  cp_created_at :: moment
  cp_triggered_at :: "moment option"
  cp_executed_at :: "moment option"

record multi_party_payment =
  mp_sender_id :: ident
  mp_total_amount :: decimal
  mp_currency :: token
  mp_require_all_accept :: bool
  mp_state :: multi_party_state
  mp_accept_deadline :: moment
  mp_created_at :: moment
  mp_completed_at :: "moment option"

text \<open>A recipient row: \<open>accepted\<close> is null while pending, then true or false.\<close>

record multi_party_recipient =
  mr_payment_id :: ident
  mr_recipient_id :: ident
  mr_amount :: decimal
  mr_accepted :: "bool option"
  mr_accepted_at :: "moment option"

record sla_template =
  tpl_provider_id :: ident
  tpl_response_time_secs :: int
  tpl_delivery_time_secs :: int
  tpl_base_price :: decimal
  tpl_currency :: token
  tpl_penalty_percent :: int
  tpl_is_active :: bool
  tpl_created_at :: moment

record sla_contract =
  sla_provider_id :: ident
  sla_consumer_id :: ident
  sla_template_id :: "ident option"
  sla_response_time_secs :: int
  sla_delivery_time_secs :: int
  sla_price :: decimal
  sla_currency :: token
  sla_penalty_percent :: int
  sla_state :: sla_status
  sla_escrow_deal_id :: "ident option"
  sla_started_at :: "moment option"
  sla_delivered_at :: "moment option"
  sla_delivery_time_actual :: "int option"
  sla_met :: "bool option"
  sla_result_hash :: "string option"
  sla_created_at :: moment

record recurring_payment =
  rec_from_agent_id :: ident
  rec_to_agent_id :: ident
  rec_amount :: decimal
  rec_interval :: recurring_interval
  rec_next_payment_at :: moment
  rec_last_payment_at :: "moment option"
  rec_total_paid :: decimal
  rec_max_payments :: "int option"
  rec_payments_made :: int
  rec_is_active :: bool
  rec_created_at :: moment
  rec_cancelled_at :: "moment option"

text \<open>\<open>agent_credit_scores\<close> is keyed by its agent.\<close>

record agent_credit_score =
  crs_credit_score :: int
  crs_total_loans_taken :: int
  crs_total_loans_repaid :: int
  crs_total_loans_defaulted :: int
  crs_total_borrowed_volume :: decimal
  crs_avg_repayment_time_secs :: "int option"
  crs_longest_default_secs :: "int option"
  crs_max_borrow_amount :: decimal
  crs_max_concurrent_loans :: int
  crs_calculated_at :: moment

record agent_loan =
  ln_lender_id :: ident
  ln_borrower_id :: ident
  ln_principal :: decimal
  ln_currency :: token
  ln_interest_rate_bps :: int
  ln_duration_secs :: int
  ln_collateral_amount :: decimal
  ln_collateral_currency :: "token option"
  ln_repayment_amount :: decimal
  ln_repaid_amount :: decimal
  ln_state :: loan_status
  ln_expires_at :: moment
  ln_grace_period_secs :: int
  ln_requested_at :: moment
  ln_funded_at :: "moment option"
  ln_repaid_at :: "moment option"
  ln_defaulted_at :: "moment option"
  ln_platform_fee :: decimal

record lending_offer =
  lo_lender_id :: ident
  lo_max_amount :: decimal
  lo_currency :: token
  lo_interest_rate_bps :: int
  lo_max_duration_secs :: int
  lo_min_borrower_credit_score :: int
  lo_require_collateral :: bool
  lo_collateral_ratio_pct :: int
  lo_is_active :: bool
  lo_remaining_amount :: decimal
  lo_expires_at :: moment

record swap_order =
  so_from_agent_id :: ident
  so_from_currency :: token
  so_from_amount :: decimal
  so_to_currency :: token
  so_to_amount :: decimal
  so_exchange_rate :: decimal
  so_fee_amount :: decimal
  so_state :: swap_status
  so_htlc_hash :: string
  so_htlc_secret :: "string option"
  so_btc_tx_hash :: "string option"
  so_xmr_tx_hash :: "string option"
  so_lock_expiry :: moment
  so_external_order_id :: "string option"
  so_deposit_address :: "string option"
  so_provider_name :: "string option"
  so_created_at :: moment

record currency_conversion =
  cc_agent_id :: ident
  cc_from_currency :: token
  cc_from_amount :: decimal
  cc_to_currency :: token
  cc_to_amount :: decimal
  cc_rate :: decimal
  cc_fee_amount :: decimal
  cc_created_at :: moment

text \<open>\<open>treasury_policies\<close> has a unique agent and is keyed by it; a null or absent number reads as
  zero, which the service replaces by its own default in the same way.\<close>

record treasury_policy =
  tp_target_allocation :: "(token \<times> int) list"
  tp_rebalance_threshold_pct :: int
  tp_rebalance_cooldown_secs :: int
  tp_min_liquid_xmr :: "decimal option"
  tp_min_liquid_xusd :: "decimal option"
  tp_emergency_reserve_pct :: int
  tp_auto_lend_enabled :: bool
  tp_max_lend_pct :: int
  tp_min_borrower_trust_score :: int
  tp_max_loan_duration_secs :: int
  tp_is_active :: bool
  tp_last_rebalance_at :: "moment option"

record treasury_forecast =
  tf_agent_id :: ident
  tf_forecast_type :: string
  tf_source_id :: ident
  tf_expected_amount :: decimal
  tf_expected_currency :: token
  tf_direction :: string
  tf_expected_at :: moment
  tf_confidence :: decimal

text \<open>An entry of the JSON column \<open>conversions\<close>: the result of one conversion.\<close>

record conversion_result =
  cv_from_currency :: token
  cv_from_amount :: decimal
  cv_to_currency :: token
  cv_gross_to_amount :: decimal
  cv_fee_amount :: decimal
  cv_net_to_amount :: decimal
  cv_rate :: decimal

record rebalance_log =
  rl_agent_id :: ident
  rl_trigger :: string
  rl_conversions :: "conversion_result list"
  rl_pre_allocation :: "(token \<times> int) list"
  rl_post_allocation :: "(token \<times> int) list"
  rl_total_value_xusd :: decimal
  rl_created_at :: moment

record audit_entry =
  au_action :: string
  au_agent_id :: "ident option"
  au_resource_type :: "string option"
  au_resource_id :: "ident option"

record webhook_event =
  wh_agent_id :: ident
  wh_event_type :: string

section \<open>The session\<close>

record db =
  agents :: "(ident, agent) table"
  reputations :: "(ident, agent_reputation) table"
  balances :: "(ident \<times> token, agent_balance) table"
  transactions :: "(ident, transaction) table"
  monthly_stats :: "(ident \<times> int \<times> int, agent_monthly_stats) table"
  fee_collections :: "(ident, fee_collection) table"
  hub_routes :: "(ident, hub_route) table"
  escrow_deals :: "(ident, escrow_deal) table"
  escrow_milestones :: "(ident, escrow_milestone) table"
  payment_channels :: "(ident, payment_channel) table"
  channel_updates :: "(ident, channel_update) table"
  payment_streams :: "(ident, payment_stream) table"
  conditional_payments :: "(ident, conditional_payment) table"
  multi_party_payments :: "(ident, multi_party_payment) table"
  multi_party_recipients :: "(ident, multi_party_recipient) table"
  sla_templates :: "(ident, sla_template) table"
  sla_contracts :: "(ident, sla_contract) table"
  recurring_payments :: "(ident, recurring_payment) table"
  agent_credit_scores :: "(ident, agent_credit_score) table"
  agent_loans :: "(ident, agent_loan) table"
  lending_offers :: "(ident, lending_offer) table"
  swap_orders :: "(ident, swap_order) table"
  currency_conversions :: "(ident, currency_conversion) table"
  treasury_policies :: "(ident, treasury_policy) table"
  treasury_forecasts :: "(ident, treasury_forecast) table"
  rebalance_logs :: "(ident, rebalance_log) table"
  audit_log :: "audit_entry list"
  webhook_events :: "webhook_event list"

definition empty_db :: db where
  "empty_db = \<lparr>agents = [], reputations = [], balances = [], transactions = [],
     monthly_stats = [], fee_collections = [], hub_routes = [],
     escrow_deals = [], escrow_milestones = [], payment_channels = [], channel_updates = [],
     payment_streams = [], conditional_payments = [], multi_party_payments = [],
     multi_party_recipients = [], sla_templates = [], sla_contracts = [], recurring_payments = [],
     agent_credit_scores = [], agent_loans = [], lending_offers = [], swap_orders = [],
     currency_conversions = [], treasury_policies = [], treasury_forecasts = [], rebalance_logs = [], audit_log = [], webhook_events = []\<rparr>"

text \<open>\<open>value or "XMR"\<close>: null and the empty string fall back.\<close>

definition token_or_xmr :: "token option \<Rightarrow> token" where
  "token_or_xmr t = (case t of None \<Rightarrow> ''XMR'' | Some u \<Rightarrow> if u = '''' then ''XMR'' else u)"

end
