(* ===== verification/Events.thy ===== *)
theory Events
  imports Schema
begin

text \<open>
  The side records of a handler: the audit trail (\<open>sthrip/services/audit_logger.py\<close>,
  \<open>log_event\<close>) and the webhook queue (\<open>sthrip/services/webhook_service.py\<close>, \<open>queue_webhook\<close>). Both
  are called with different argument lists all over the services, and Python checks an argument
  list only when the call runs: a call that does not bind raises \<open>TypeError\<close> and the request is
  rolled back. The binding is therefore part of the model: each call names how many positional
  arguments it passes and which keywords, and \<open>py_bind\<close> is the language's rule.

  A failure to write the audit row is swallowed by \<open>log_event\<close>; the model lets the write succeed.
  \<open>queue_webhook\<close> writes through a session of its own. No modelled handler raises after it, so the
  event and the handler's writes stand or fall together.
\<close>

section \<open>Argument binding\<close>

definition py_bind :: "string list \<Rightarrow> string list \<Rightarrow> nat \<Rightarrow> string list \<Rightarrow> bool" where
  "py_bind params required npos kws \<longleftrightarrow>
     npos \<le> length params
     \<and> list_all (\<lambda>k. k \<in> set (drop npos params)) kws
     \<and> distinct kws
     \<and> list_all (\<lambda>p. p \<in> set (take npos params) \<or> p \<in> set kws) required"

section \<open>The audit trail\<close>

definition log_event_params :: "string list" where
  "log_event_params =
     [''action'', ''agent_id'', ''ip_address'', ''request_method'', ''request_path'',
      ''resource_type'', ''resource_id'', ''details'', ''success'', ''error_message'', ''db'']"

definition log_event :: "nat \<Rightarrow> string list \<Rightarrow> audit_entry \<Rightarrow> db \<Rightarrow> db outcome" where
  "log_event npos kws e d =
     (if py_bind log_event_params [''action''] npos kws
      then Inr (d\<lparr>audit_log := audit_log d @ [e]\<rparr>)
      else Inl (TypeError ''log_event''))"

definition audit_of :: "string \<Rightarrow> ident option \<Rightarrow> string \<Rightarrow> ident \<Rightarrow> audit_entry" where
  "audit_of action a rtype rid =
     \<lparr>au_action = action, au_agent_id = a, au_resource_type = Some rtype, au_resource_id = Some rid\<rparr>"

text \<open>The keyword call most services make.\<close>

abbreviation audit_keywords :: "string list" where
  "audit_keywords \<equiv>
     [''action'', ''agent_id'', ''resource_type'', ''resource_id'', ''details'', ''db'']"

section \<open>The webhook queue\<close>

definition queue_webhook_params :: "string list" where
  "queue_webhook_params = [''agent_id'', ''event_type'', ''payload'']"

definition queue_webhook :: "nat \<Rightarrow> string list \<Rightarrow> ident \<Rightarrow> string \<Rightarrow> db \<Rightarrow> db outcome" where
  "queue_webhook npos kws a ev d =
     (if py_bind queue_webhook_params queue_webhook_params npos kws
      then Inr (d\<lparr>webhook_events := webhook_events d @ [\<lparr>wh_agent_id = a, wh_event_type = ev\<rparr>]\<rparr>)
      else Inl (TypeError ''queue_webhook''))"

section \<open>Sequencing\<close>

text \<open>A step that may raise, followed by the rest of the handler.\<close>

definition and_then :: "'a outcome \<Rightarrow> ('a \<Rightarrow> 'b outcome) \<Rightarrow> 'b outcome" where
  "and_then r f = (case r of Inl e \<Rightarrow> Inl e | Inr x \<Rightarrow> f x)"

lemma and_then_simps [simp]: "and_then (Inl e) f = Inl e" "and_then (Inr x) f = f x"
  by (simp_all add: and_then_def)

lemma and_then_Inr_iff: "and_then r f = Inr y \<longleftrightarrow> (\<exists>x. r = Inr x \<and> f x = Inr y)"
  by (cases r) auto

lemma and_then_InrE:
  assumes "and_then r f = Inr y"
  obtains x where "r = Inr x" and "f x = Inr y"
  using assms by (cases r) auto

text \<open>The state component of a handler's result.\<close>

lemma map_sum_fst_Inr: "map_sum id fst x = Inr d \<longleftrightarrow> (\<exists>y. x = Inr (d, y))"
  by (cases x) auto

section \<open>Calls that bind and calls that do not\<close>

lemma log_event_binds:
  "log_event 1 [''agent_id'', ''resource_type'', ''resource_id'', ''details'', ''db''] e d =
     Inr (d\<lparr>audit_log := audit_log d @ [e]\<rparr>)"
  by (simp add: log_event_def py_bind_def log_event_params_def)

lemma log_event_keywords_bind:
  "log_event 0 [''action'', ''agent_id'', ''resource_type'', ''resource_id'', ''details'', ''db''] e d =
     Inr (d\<lparr>audit_log := audit_log d @ [e]\<rparr>)"
  by (simp add: log_event_def py_bind_def log_event_params_def)

text \<open>\<open>log_event\<close> has no parameter \<open>new_values\<close>.\<close>

lemma log_event_new_values:
  "''new_values'' \<in> set kws \<Longrightarrow> log_event npos kws e d = Inl (TypeError ''log_event'')"
proof -
  assume kw: "''new_values'' \<in> set kws"
  have "''new_values'' \<notin> set log_event_params" by (simp add: log_event_params_def)
  then have "''new_values'' \<notin> set (drop npos log_event_params)" by (blast dest: in_set_dropD)
  with kw have "\<not> py_bind log_event_params [''action''] npos kws"
    by (auto simp: py_bind_def list_all_iff)
  then show ?thesis by (simp add: log_event_def)
qed

lemma queue_webhook_binds:
  "queue_webhook 3 [] a ev d =
     Inr (d\<lparr>webhook_events := webhook_events d @ [\<lparr>wh_agent_id = a, wh_event_type = ev\<rparr>]\<rparr>)"
  by (simp add: queue_webhook_def py_bind_def queue_webhook_params_def)

lemma queue_webhook_four_positional: "queue_webhook 4 kws a ev d = Inl (TypeError ''queue_webhook'')"
  by (simp add: queue_webhook_def py_bind_def queue_webhook_params_def)

lemma queue_webhook_db_keyword:
  "''db'' \<in> set kws \<Longrightarrow> queue_webhook npos kws a ev d = Inl (TypeError ''queue_webhook'')"
proof -
  assume kw: "''db'' \<in> set kws"
  have "''db'' \<notin> set queue_webhook_params" by (simp add: queue_webhook_params_def)
  then have "''db'' \<notin> set (drop npos queue_webhook_params)" by (blast dest: in_set_dropD)
  with kw have "\<not> py_bind queue_webhook_params queue_webhook_params npos kws"
    by (auto simp: py_bind_def list_all_iff)
  then show ?thesis by (simp add: queue_webhook_def)
qed

end
