(* ===== verification/Fees.thy ===== *)
theory Fees
  imports Events
begin

text \<open>
  \<open>sthrip/services/fee_calculator.py\<close> (the commission on a transfer, in integer piconero) and
  \<open>sthrip/services/fee_collector.py\<close> (the hub-routing and escrow fee schedules, the life of a hub
  route, and the withdrawal of collected fees).

  The Decimal product of an amount and a rate is exact in the default context of 28 digits for
  every amount below \<open>10 ^ 26\<close> (\<open>commission_product_fits\<close>), so the rational product is the program's.
\<close>

section \<open>Commission on a transfer\<close>

definition FREE_TIER_RATE_BPS :: int where "FREE_TIER_RATE_BPS = 30"
definition PRO_TIER_RATE_BPS :: int where "PRO_TIER_RATE_BPS = 10"
definition BPS_DENOMINATOR :: int where "BPS_DENOMINATOR = 10000"
definition MIN_FEE_PICONERO :: int where "MIN_FEE_PICONERO = 1"

lemmas rate_defs = FREE_TIER_RATE_BPS_def PRO_TIER_RATE_BPS_def BPS_DENOMINATOR_def
  MIN_FEE_PICONERO_def

definition rate_bps_for_tier :: "agent_tier \<Rightarrow> int" where
  "rate_bps_for_tier tier = (if tier = TierFree then FREE_TIER_RATE_BPS else PRO_TIER_RATE_BPS)"

text \<open>\<open>Decimal.quantize(Decimal("1"), rounding=ROUND_HALF_UP)\<close>: ties go away from zero.\<close>

definition quantize_half_up :: "rat \<Rightarrow> int" where
  "quantize_half_up x = (if 0 \<le> x then \<lfloor>x + 1 / 2\<rfloor> else - \<lfloor>1 / 2 - x\<rfloor>)"

definition compute_fee :: "int \<Rightarrow> agent_tier \<Rightarrow> int outcome" where
  "compute_fee amount tier =
     (if amount < 0 then Inl (ValueError ''amount must be non-negative'')
      else let rate_bps = rate_bps_for_tier tier;
               raw = quantize_half_up (of_int amount * of_int rate_bps / of_int BPS_DENOMINATOR)
           in Inr (if raw < MIN_FEE_PICONERO then MIN_FEE_PICONERO else raw))"

lemma rate_cases: "rate_bps_for_tier tier = 30 \<or> rate_bps_for_tier tier = 10"
  by (simp add: rate_bps_for_tier_def rate_defs)

lemma commission_product_fits:
  "0 \<le> amount \<Longrightarrow> amount < 10 ^ 26 \<Longrightarrow> amount * rate_bps_for_tier tier < 10 ^ 28"
  using rate_cases [of tier] by auto

text \<open>Half-up rounding of a fraction of integers is one integer division.\<close>

lemma quantize_half_up_fraction:
  assumes "0 \<le> n" and "0 < d"
  shows "quantize_half_up (of_int n / of_int d) = (2 * n + d) div (2 * d)"
proof -
  have "(of_int n / of_int d :: rat) + 1 / 2 = of_int (2 * n + d) / of_int (2 * d)"
    using assms by (simp add: field_simps)
  moreover have "(0 :: rat) \<le> of_int n / of_int d"
    using assms by simp
  ultimately show ?thesis
    by (simp only: quantize_half_up_def if_True floor_divide_of_int_eq)
qed

lemma halve_fraction: "(2 * n + 10000) div (2 * 10000) = (n + 5000) div (10000 :: int)"
proof -
  have "2 * n + 10000 = 2 * (n + 5000)" by simp
  then show ?thesis by (simp only: div_mult_mult1 [of 2])
qed

lemma compute_fee_int:
  "0 \<le> amount \<Longrightarrow>
     compute_fee amount tier = Inr (max 1 ((amount * rate_bps_for_tier tier + 5000) div 10000))"
proof -
  assume amount: "0 \<le> amount"
  let ?n = "amount * rate_bps_for_tier tier"
  have n: "0 \<le> ?n" using amount rate_cases [of tier] by auto
  have "(of_int amount * of_int (rate_bps_for_tier tier) / of_int BPS_DENOMINATOR :: rat) =
      of_int ?n / of_int 10000"
    by (simp add: BPS_DENOMINATOR_def)
  then have "quantize_half_up (of_int amount * of_int (rate_bps_for_tier tier) / of_int BPS_DENOMINATOR) =
      (2 * ?n + 10000) div (2 * 10000)"
    by (simp only: quantize_half_up_fraction [OF n])
  also have "\<dots> = (?n + 5000) div 10000"
    by (rule halve_fraction)
  finally show ?thesis
    using amount by (simp add: compute_fee_def rate_defs Let_def max_def)
qed


section \<open>Fee schedules\<close>

datatype fee_type =
    FtHubRouting | FtEscrow | FtCrossChain | FtVerifiedBadge | FtPremiumDiscovery | FtApiCalls

fun fee_type_value :: "fee_type \<Rightarrow> string" where
  "fee_type_value FtHubRouting = ''hub_routing''"
| "fee_type_value FtEscrow = ''escrow''"
| "fee_type_value FtCrossChain = ''cross_chain''"
| "fee_type_value FtVerifiedBadge = ''verified_badge''"
| "fee_type_value FtPremiumDiscovery = ''premium_discovery''"
| "fee_type_value FtApiCalls = ''api_calls''"

record fee_config =
  cfg_percent :: decimal
  cfg_fixed_amount :: decimal
  cfg_min_fee :: decimal
  cfg_max_fee :: decimal

text \<open>The dictionary has no entry for the two subscriptions.\<close>

fun DEFAULT_FEES :: "fee_type \<Rightarrow> fee_config option" where
  "DEFAULT_FEES FtHubRouting = Some \<lparr>cfg_percent = 1 / 100, cfg_fixed_amount = 0,
     cfg_min_fee = 1 / 10000, cfg_max_fee = 999999999\<rparr>"
| "DEFAULT_FEES FtEscrow = Some \<lparr>cfg_percent = 1 / 100, cfg_fixed_amount = 0,
     cfg_min_fee = 1 / 10000, cfg_max_fee = 999999999\<rparr>"
| "DEFAULT_FEES FtCrossChain = Some \<lparr>cfg_percent = 1 / 100, cfg_fixed_amount = 0,
     cfg_min_fee = 1 / 10000, cfg_max_fee = 5\<rparr>"
| "DEFAULT_FEES FtApiCalls = Some \<lparr>cfg_percent = 0, cfg_fixed_amount = 1 / 1000,
     cfg_min_fee = 1 / 1000, cfg_max_fee = 1 / 1000\<rparr>"
| "DEFAULT_FEES FtVerifiedBadge = None"
| "DEFAULT_FEES FtPremiumDiscovery = None"

record hub_fee_breakdown =
  hf_base_amount :: decimal
  hf_fee_amount :: decimal
  hf_fee_percent :: decimal
  hf_tier_discount :: string
  hf_urgency :: string
  hf_total_deduction :: decimal
  hf_recipient_receives :: decimal

definition calculate_hub_routing_fee :: "decimal \<Rightarrow> string \<Rightarrow> string \<Rightarrow> hub_fee_breakdown outcome" where
  "calculate_hub_routing_fee amount from_agent_tier urgency =
     (case DEFAULT_FEES FtHubRouting of
        None \<Rightarrow> Inl (LookupError ''KeyError'')
      | Some config \<Rightarrow>
          let fee_percent = cfg_percent config;
              fee_amount = amount * fee_percent;
              fee_amount = max fee_amount (cfg_min_fee config);
              fee_amount = min fee_amount (cfg_max_fee config);
              fee_amount = min fee_amount amount
          in Inr \<lparr>hf_base_amount = amount, hf_fee_amount = fee_amount, hf_fee_percent = fee_percent,
                  hf_tier_discount = from_agent_tier, hf_urgency = urgency,
                  hf_total_deduction = amount + fee_amount, hf_recipient_receives = amount\<rparr>)"

record escrow_fee_breakdown =
  ef_escrow_amount :: decimal
  ef_fee_amount :: decimal
  ef_fee_percent :: decimal
  ef_tier_discount :: string
  ef_seller_receives :: decimal

definition calculate_escrow_fee :: "decimal \<Rightarrow> string \<Rightarrow> escrow_fee_breakdown outcome" where
  "calculate_escrow_fee amount from_agent_tier =
     (case DEFAULT_FEES FtEscrow of
        None \<Rightarrow> Inl (LookupError ''KeyError'')
      | Some config \<Rightarrow>
          let fee_percent = cfg_percent config;
              fee_amount = amount * fee_percent;
              fee_amount = max fee_amount (cfg_min_fee config);
              fee_amount = min fee_amount (cfg_max_fee config);
              fee_amount = min fee_amount amount
          in Inr \<lparr>ef_escrow_amount = amount, ef_fee_amount = fee_amount, ef_fee_percent = fee_percent,
                  ef_tier_discount = from_agent_tier, ef_seller_receives = amount - fee_amount\<rparr>)"

text \<open>The clamp both schedules share: at least the minimum, never more than the amount.\<close>

definition clamped_fee :: "decimal \<Rightarrow> decimal" where
  "clamped_fee x = min (min (max (x / 100) (1 / 10000)) 999999999) x"

lemma hub_fee_Inr: "calculate_hub_routing_fee x tier urg = Inr \<lparr>hf_base_amount = x,
    hf_fee_amount = clamped_fee x, hf_fee_percent = 1 / 100, hf_tier_discount = tier,
    hf_urgency = urg, hf_total_deduction = x + clamped_fee x, hf_recipient_receives = x\<rparr>"
  by (simp add: calculate_hub_routing_fee_def clamped_fee_def Let_def)

lemma escrow_fee_Inr: "calculate_escrow_fee x tier = Inr \<lparr>ef_escrow_amount = x,
    ef_fee_amount = clamped_fee x, ef_fee_percent = 1 / 100, ef_tier_discount = tier,
    ef_seller_receives = x - clamped_fee x\<rparr>"
  by (simp add: calculate_escrow_fee_def clamped_fee_def Let_def)

lemma clamped_fee_bounds:
  assumes "0 \<le> x"
  shows "0 \<le> clamped_fee x" and "clamped_fee x \<le> x"
  using assms by (auto simp: clamped_fee_def)

lemma clamped_fee_cases:
  assumes "0 \<le> x" and "x \<le> 99999999900"
  shows "clamped_fee x = (if x \<le> 1 / 10000 then x else if x \<le> 1 / 100 then 1 / 10000 else x / 100)"
  using assms by (auto simp: clamped_fee_def min_def max_def field_simps)

section \<open>Hub routes\<close>

text \<open>
  The payment id of a request with an idempotency key is the digest of sender, recipient, amount and
  key (\<open>digest\<close> stands for the formatted SHA-256); without one it is a random token.
\<close>

definition hub_payment_id ::
  "(ident \<Rightarrow> ident \<Rightarrow> decimal \<Rightarrow> string \<Rightarrow> string) \<Rightarrow> string \<Rightarrow> ident \<Rightarrow> ident \<Rightarrow> decimal \<Rightarrow> string option \<Rightarrow> string"
where
  "hub_payment_id digest token_hex from_agent to_agent amount key =
     (case key of
        None \<Rightarrow> ''hp_'' @ token_hex
      | Some k \<Rightarrow> if k = '''' then ''hp_'' @ token_hex
                  else ''hp_'' @ take 32 (digest from_agent to_agent amount k))"

record hub_route_result =
  rr_route_id :: ident
  rr_payment_id :: string
  rr_amount :: decimal
  rr_token :: token
  rr_fee :: hub_fee_breakdown
  rr_status :: hub_route_status
  rr_duplicate :: bool

definition new_hub_route ::
  "moment \<Rightarrow> string \<Rightarrow> ident \<Rightarrow> ident \<Rightarrow> decimal \<Rightarrow> token \<Rightarrow> string \<Rightarrow> hub_fee_breakdown \<Rightarrow> hub_route"
where
  "new_hub_route now pid from_agent to_agent amount tok urgency fee =
     \<lparr>hr_payment_id = pid, hr_from_agent_id = from_agent, hr_to_agent_id = to_agent,
      hr_amount = amount, hr_token = tok, hr_fee_percent = hf_fee_percent fee,
      hr_fee_amount = hf_fee_amount fee, hr_fee_collected = False, hr_fee_collected_at = None,
      hr_instant_confirmation = (urgency = ''urgent''), hr_status = RoutePending,
      hr_settlement_tx_hash = None, hr_created_at = now, hr_confirmed_at = None,
      hr_settled_at = None\<rparr>"

definition create_hub_route ::
  "moment \<Rightarrow> string \<Rightarrow> ident \<Rightarrow> ident \<Rightarrow> decimal \<Rightarrow> token \<Rightarrow> string \<Rightarrow> string \<Rightarrow> db \<Rightarrow> (db \<times> hub_route_result) outcome"
where
  "create_hub_route now pid from_agent to_agent amount tok tier urgency d =
     and_then (calculate_hub_routing_fee amount tier urgency) (\<lambda>fee.
       case first_row (\<lambda>r. hr_payment_id r = pid) (hub_routes d) of
         Some (rid, existing) \<Rightarrow>
           Inr (d, \<lparr>rr_route_id = rid, rr_payment_id = pid, rr_amount = hr_amount existing,
                    rr_token = hr_token existing, rr_fee = fee, rr_status = hr_status existing,
                    rr_duplicate = True\<rparr>)
       | None \<Rightarrow>
           let route = new_hub_route now pid from_agent to_agent amount tok urgency fee
           in Inr (d\<lparr>hub_routes := add_row route (hub_routes d)\<rparr>,
                   \<lparr>rr_route_id = new_id (hub_routes d), rr_payment_id = pid, rr_amount = amount,
                    rr_token = tok, rr_fee = fee, rr_status = RoutePending, rr_duplicate = False\<rparr>))"

definition hub_fee_row :: "moment \<Rightarrow> ident \<Rightarrow> hub_route \<Rightarrow> fee_collection" where
  "hub_fee_row now rid r =
     \<lparr>fc_source_type = fee_type_value FtHubRouting, fc_source_id = Some rid,
      fc_amount = hr_fee_amount r, fc_token = hr_token r, fc_status = FeePending,
      fc_collection_tx_hash = None, fc_withdrawn_at = None, fc_created_at = now,
      fc_payer_agent_id = None, fc_amount_piconero = None, fc_rate_applied_bps = None,
      fc_transaction_ref = None, fc_collected_at = None\<rparr>"

definition confirm_hub_route :: "moment \<Rightarrow> string \<Rightarrow> string option \<Rightarrow> db \<Rightarrow> (db \<times> decimal) outcome" where
  "confirm_hub_route now pid tx d =
     (case first_row (\<lambda>r. hr_payment_id r = pid) (hub_routes d) of
        None \<Rightarrow> Inl (ValueError ''Route not found'')
      | Some (rid, route) \<Rightarrow>
          if hr_status route \<noteq> RoutePending then Inl (ValueError ''Route already'')
          else Inr
            (d\<lparr>hub_routes := modify_row rid
                 (\<lambda>r. r\<lparr>hr_status := RouteConfirmed, hr_confirmed_at := Some now,
                        hr_settlement_tx_hash := tx, hr_fee_collected := True,
                        hr_fee_collected_at := Some now\<rparr>) (hub_routes d),
               fee_collections := add_row (hub_fee_row now rid route) (fee_collections d)\<rparr>,
             hr_fee_amount route))"

definition settle_hub_route :: "moment \<Rightarrow> string \<Rightarrow> string \<Rightarrow> db \<Rightarrow> db outcome" where
  "settle_hub_route now pid tx d =
     (case first_row (\<lambda>r. hr_payment_id r = pid) (hub_routes d) of
        None \<Rightarrow> Inl (ValueError ''Route not found'')
      | Some (rid, route) \<Rightarrow>
          if hr_status route = RouteSettled then Inl (ValueError ''Route already settled'')
          else if hr_status route \<noteq> RouteConfirmed
          then Inl (ValueError ''Route must be confirmed before settlement'')
          else Inr (d\<lparr>hub_routes := modify_row rid
                 (\<lambda>r. r\<lparr>hr_status := RouteSettled, hr_settled_at := Some now,
                        hr_settlement_tx_hash := Some tx\<rparr>) (hub_routes d)\<rparr>))"

text \<open>Revenue over the last \<open>days\<close> days.\<close>

record revenue_stats =
  rv_hub_routing :: decimal
  rv_escrow :: decimal
  rv_api_calls :: decimal
  rv_total_routes :: nat
  rv_average_fee_per_route :: decimal

definition get_revenue_stats :: "moment \<Rightarrow> int \<Rightarrow> db \<Rightarrow> revenue_stats" where
  "get_revenue_stats now days d =
     (let since = now - hours (24 * days);
          hub = table_sum (\<lambda>k r. if hr_fee_collected r
                  \<and> (case hr_fee_collected_at r of None \<Rightarrow> False | Some m \<Rightarrow> since \<le> m)
                  then hr_fee_amount r else 0) (hub_routes d);
          revenue = (\<lambda>src. table_sum (\<lambda>k f. if fc_source_type f = src \<and> since \<le> fc_created_at f
                  then fc_amount f else 0) (fee_collections d));
          total = rows_where (\<lambda>k r. since \<le> hr_created_at r) (hub_routes d)
      in \<lparr>rv_hub_routing = hub, rv_escrow = revenue (fee_type_value FtEscrow),
          rv_api_calls = revenue (fee_type_value FtApiCalls), rv_total_routes = total,
          rv_average_fee_per_route = (if total > 0 then hub / of_nat total else 0)\<rparr>)"

definition get_pending_fees :: "token \<Rightarrow> db \<Rightarrow> (ident \<times> fee_collection) list" where
  "get_pending_fees tok d =
     select_where (\<lambda>f. fc_status f = FeePending \<and> fc_token f = tok) (fee_collections d)"

definition withdraw_fees :: "moment \<Rightarrow> ident list \<Rightarrow> string \<Rightarrow> db \<Rightarrow> db \<times> nat \<times> decimal" where
  "withdraw_fees now fee_ids tx d =
     (let locked = (\<lambda>k f. k \<in> set fee_ids \<and> fc_status f = FeePending)
      in (d\<lparr>fee_collections := update_where locked
              (\<lambda>f. f\<lparr>fc_status := FeeWithdrawn, fc_collection_tx_hash := Some tx,
                     fc_withdrawn_at := Some now\<rparr>) (fee_collections d)\<rparr>,
          rows_where locked (fee_collections d),
          table_sum (\<lambda>k f. if locked k f then fc_amount f else 0) (fee_collections d)))"

end
