(* ===== verification/Hub_Routes.thy ===== *)
theory Hub_Routes
  imports Fees
begin

text \<open>
  The life of a hub route as a step relation over the four operations of \<open>FeeCollector\<close>, and the
  invariant of its reachable states: payment ids are unique, a route's fee is recorded exactly when
  the route is confirmed, once, with the amount fixed at creation, and withdrawing collected fees
  changes neither.
\<close>

inductive hub_step :: "db \<Rightarrow> db \<Rightarrow> bool" where
  step_create: "create_hub_route now pid from_agent to_agent amount tok tier urgency d = Inr (d', res)
     \<Longrightarrow> hub_step d d'"
| step_confirm: "confirm_hub_route now pid tx d = Inr (d', fee) \<Longrightarrow> hub_step d d'"
| step_settle: "settle_hub_route now pid tx' d = Inr d' \<Longrightarrow> hub_step d d'"
| step_withdraw: "withdraw_fees now ids tx' d = (d', n, amt) \<Longrightarrow> hub_step d d'"

inductive_cases hub_stepE: "hub_step d d'"

text \<open>The amounts recorded as hub-routing fees of one route.\<close>

definition route_fees :: "ident \<Rightarrow> db \<Rightarrow> decimal list" where
  "route_fees rid d =
     map (\<lambda>(k, f). fc_amount f)
       (filter (\<lambda>(k, f). fc_source_type f = ''hub_routing'' \<and> fc_source_id f = Some rid)
          (fee_collections d))"

inductive hub_reachable :: "db \<Rightarrow> bool" where
  hub_start: "hub_routes d = [] \<Longrightarrow> table_ok (fee_collections d) \<Longrightarrow> (\<And>rid. route_fees rid d = [])
     \<Longrightarrow> hub_reachable d"
| hub_next: "hub_reachable d \<Longrightarrow> hub_step d d' \<Longrightarrow> hub_reachable d'"

definition route_charged :: "hub_route \<Rightarrow> bool" where
  "route_charged r \<longleftrightarrow> hr_status r = RouteConfirmed \<or> hr_status r = RouteSettled"

definition route_inv :: "db \<Rightarrow> ident \<Rightarrow> bool" where
  "route_inv d rid \<longleftrightarrow>
     (case row_of (hub_routes d) rid of
        None \<Rightarrow> route_fees rid d = []
      | Some r \<Rightarrow> hr_status r \<noteq> RouteFailed \<and> hr_fee_collected r = route_charged r
          \<and> route_fees rid d = (if route_charged r then [hr_fee_amount r] else []))"

definition pids_unique :: "db \<Rightarrow> bool" where
  "pids_unique d \<longleftrightarrow> (\<forall>k1 k2 r1 r2. row_of (hub_routes d) k1 = Some r1 \<longrightarrow>
     row_of (hub_routes d) k2 = Some r2 \<longrightarrow> hr_payment_id r1 = hr_payment_id r2 \<longrightarrow> k1 = k2)"

definition hub_inv :: "db \<Rightarrow> bool" where
  "hub_inv d \<longleftrightarrow> table_ok (hub_routes d) \<and> table_ok (fee_collections d) \<and> pids_unique d
     \<and> (\<forall>rid. route_inv d rid)"

section \<open>Each operation on the abstraction\<close>

lemma route_fees_cong: "fee_collections d = fee_collections d' \<Longrightarrow> route_fees rid d = route_fees rid d'"
  by (simp add: route_fees_def)

lemma filter_update_where:
  assumes "\<And>f. P (g f) = P f" and "\<And>f. h (g f) = h f"
  shows "map (\<lambda>(k, f). h f) (filter (\<lambda>(k, f). P f) (update_where Q g t)) =
    map (\<lambda>(k, f). h f) (filter (\<lambda>(k, f). P f) t)"
proof (induction t)
  case Nil
  then show ?case by (simp add: update_where_def)
next
  case (Cons kv t)
  obtain k v where kv: "kv = (k, v)" by (cases kv)
  have "update_where Q g (kv # t) = (k, if Q k v then g v else v) # update_where Q g t"
    by (simp add: update_where_def kv)
  with Cons.IH show ?case by (simp add: kv assms)
qed

lemma route_fees_withdraw: "withdraw_fees now ids tx d = (d', n, x) \<Longrightarrow> route_fees rid d' = route_fees rid d"
  unfolding withdraw_fees_def Let_def
  by (auto simp: route_fees_def intro!: filter_update_where)

lemma route_fees_add: "route_fees rid (d\<lparr>fee_collections := add_row f (fee_collections d)\<rparr>) =
    route_fees rid d @ (if fc_source_type f = ''hub_routing'' \<and> fc_source_id f = Some rid
      then [fc_amount f] else [])"
  by (simp add: route_fees_def add_row_def insert_row_def)

lemma route_fees_routes [simp]: "route_fees rid (d\<lparr>hub_routes := t\<rparr>) = route_fees rid d"
  by (simp add: route_fees_def)

lemma confirm_hub_route_Inr:
  assumes "confirm_hub_route now pid tx d = Inr (d', fee)" and "table_ok (hub_routes d)"
  obtains rid r where "row_of (hub_routes d) rid = Some r" and "hr_payment_id r = pid"
    and "hr_status r = RoutePending" and "fee = hr_fee_amount r"
    and "hub_routes d' = modify_row rid
          (\<lambda>r. r\<lparr>hr_status := RouteConfirmed, hr_confirmed_at := Some now,
                 hr_settlement_tx_hash := tx, hr_fee_collected := True,
                 hr_fee_collected_at := Some now\<rparr>) (hub_routes d)"
    and "fee_collections d' = add_row (hub_fee_row now rid r) (fee_collections d)"
proof -
  obtain rid r where f: "first_row (\<lambda>r. hr_payment_id r = pid) (hub_routes d) = Some (rid, r)"
    using assms(1) by (auto simp: confirm_hub_route_def split: option.splits)
  with assms(1) have pending: "hr_status r = RoutePending"
    by (auto simp: confirm_hub_route_def split: if_splits)
  show ?thesis
    using assms(1) first_row_Some [OF assms(2) f] that [of rid r] pending
    by (auto simp: confirm_hub_route_def f)
qed

lemma settle_hub_route_Inr:
  assumes "settle_hub_route now pid tx d = Inr d'" and "table_ok (hub_routes d)"
  obtains rid r where "row_of (hub_routes d) rid = Some r" and "hr_payment_id r = pid"
    and "hr_status r = RouteConfirmed"
    and "hub_routes d' = modify_row rid
          (\<lambda>r. r\<lparr>hr_status := RouteSettled, hr_settled_at := Some now,
                 hr_settlement_tx_hash := Some tx\<rparr>) (hub_routes d)"
    and "fee_collections d' = fee_collections d"
proof -
  obtain rid r where f: "first_row (\<lambda>r. hr_payment_id r = pid) (hub_routes d) = Some (rid, r)"
    using assms(1) by (auto simp: settle_hub_route_def split: option.splits)
  with assms(1) have confirmed: "hr_status r = RouteConfirmed"
    by (auto simp: settle_hub_route_def split: if_splits)
  show ?thesis
    using assms(1) first_row_Some [OF assms(2) f] that [of rid r] confirmed
    by (auto simp: settle_hub_route_def f)
qed

lemma create_hub_route_Inr:
  assumes "create_hub_route now pid from_agent to_agent amount tok tier urgency d = Inr (d', res)"
  shows "d' = d \<or> (\<exists>r. d' = d\<lparr>hub_routes := add_row r (hub_routes d)\<rparr>
      \<and> hr_payment_id r = pid \<and> hr_status r = RoutePending \<and> \<not> hr_fee_collected r
      \<and> hr_fee_amount r = clamped_fee amount \<and> hr_amount r = amount
      \<and> (\<forall>(k, r) \<in> set (hub_routes d). hr_payment_id r \<noteq> pid))"
proof (cases "first_row (\<lambda>r. hr_payment_id r = pid) (hub_routes d)")
  case None
  obtain fee where fee: "calculate_hub_routing_fee amount tier urgency = Inr fee"
    and amt: "hf_fee_amount fee = clamped_fee amount"
    by (simp add: hub_fee_Inr)
  from assms None have "d' = d\<lparr>hub_routes :=
      add_row (new_hub_route now pid from_agent to_agent amount tok urgency fee) (hub_routes d)\<rparr>"
    by (simp add: create_hub_route_def fee Let_def)
  moreover have "\<forall>(k, r) \<in> set (hub_routes d). hr_payment_id r \<noteq> pid"
    using None by (simp add: first_row_None)
  moreover have "hr_payment_id (new_hub_route now pid from_agent to_agent amount tok urgency fee) = pid"
    "hr_status (new_hub_route now pid from_agent to_agent amount tok urgency fee) = RoutePending"
    "\<not> hr_fee_collected (new_hub_route now pid from_agent to_agent amount tok urgency fee)"
    "hr_fee_amount (new_hub_route now pid from_agent to_agent amount tok urgency fee) = hf_fee_amount fee"
    "hr_amount (new_hub_route now pid from_agent to_agent amount tok urgency fee) = amount" for fee
    by (simp_all add: new_hub_route_def)
  ultimately show ?thesis using amt by metis
next
  case (Some kr)
  obtain k r where kr: "kr = (k, r)" by (cases kr)
  from assms Some show ?thesis by (simp add: create_hub_route_def hub_fee_Inr kr)
qed

section \<open>The invariant\<close>

lemma pids_unique_modify:
  assumes "hub_routes d' = modify_row rid f (hub_routes d)" and "\<And>r. hr_payment_id (f r) = hr_payment_id r"
    and "pids_unique d"
  shows "pids_unique d'"
proof -
  have same: "map_option hr_payment_id (row_of (hub_routes d') k) = map_option hr_payment_id (row_of (hub_routes d) k)" for k
    by (simp add: assms row_of_modify_row option.map_comp comp_def) (simp add: assms if_distrib cong: if_cong)
  show ?thesis
    unfolding pids_unique_def
  proof (intro allI impI)
    fix k1 k2 r1 r2
    assume r: "row_of (hub_routes d') k1 = Some r1" "row_of (hub_routes d') k2 = Some r2"
      and p: "hr_payment_id r1 = hr_payment_id r2"
    obtain s1 where s1: "row_of (hub_routes d) k1 = Some s1" "hr_payment_id s1 = hr_payment_id r1"
      using same [of k1] r(1) by (cases "row_of (hub_routes d) k1") auto
    obtain s2 where s2: "row_of (hub_routes d) k2 = Some s2" "hr_payment_id s2 = hr_payment_id r2"
      using same [of k2] r(2) by (cases "row_of (hub_routes d) k2") auto
    show "k1 = k2"
      using assms(3) s1 s2 p unfolding pids_unique_def by metis
  qed
qed

lemma hub_inv_step:
  assumes "hub_step d d'" and "hub_inv d"
  shows "hub_inv d'"
  using assms(1)
proof (cases rule: hub_step.cases)
  case (step_create now pid from_agent to_agent amount tok tier urgency res)
  from create_hub_route_Inr [OF step_create] show ?thesis
  proof (elim disjE exE conjE)
    assume "d' = d"
    with assms(2) show ?thesis by simp
  next
    fix r
    assume d': "d' = d\<lparr>hub_routes := add_row r (hub_routes d)\<rparr>" and pid: "hr_payment_id r = pid"
      and st: "hr_status r = RoutePending" "\<not> hr_fee_collected r"
      and fresh: "\<forall>(k, r) \<in> set (hub_routes d). hr_payment_id r \<noteq> pid"
    have "\<forall>k s. row_of (hub_routes d) k = Some s \<longrightarrow> hr_payment_id s \<noteq> pid"
      using row_of_Some_mem [of "hub_routes d"] fresh by fastforce
    with assms(2) pid have "pids_unique d'"
      by (auto simp: hub_inv_def pids_unique_def d' row_of_add_row split: if_splits) blast
    moreover have "route_inv d' rid" for rid
    proof -
      have "route_inv d rid" using assms(2) by (simp add: hub_inv_def)
      with st show ?thesis
        by (auto simp: route_inv_def d' row_of_add_row route_charged_def split: option.splits)
    qed
    ultimately show ?thesis
      using assms(2) by (simp add: hub_inv_def d')
  qed
next
  case (step_confirm now pid tx fee)
  have ok: "table_ok (hub_routes d)" using assms(2) by (simp add: hub_inv_def)
  from step_confirm ok obtain rid r where r: "row_of (hub_routes d) rid = Some r"
    and st: "hr_status r = RoutePending"
    and routes: "hub_routes d' = modify_row rid
          (\<lambda>r. r\<lparr>hr_status := RouteConfirmed, hr_confirmed_at := Some now,
                 hr_settlement_tx_hash := tx, hr_fee_collected := True,
                 hr_fee_collected_at := Some now\<rparr>) (hub_routes d)"
    and fees: "fee_collections d' = add_row (hub_fee_row now rid r) (fee_collections d)"
    by (rule confirm_hub_route_Inr)
  have fees_of: "route_fees k d' = route_fees k d @ (if k = rid then [hr_fee_amount r] else [])" for k
  proof -
    have "route_fees k d' = route_fees k (d\<lparr>fee_collections := add_row (hub_fee_row now rid r) (fee_collections d)\<rparr>)"
      by (rule route_fees_cong) (simp add: fees)
    then show ?thesis by (auto simp: route_fees_add hub_fee_row_def)
  qed
  have "route_inv d' k" for k
  proof -
    have "route_inv d k" using assms(2) by (simp add: hub_inv_def)
    then show ?thesis
      using r st by (auto simp: route_inv_def routes row_of_modify_row fees_of route_charged_def
          split: option.splits)
  qed
  moreover have "pids_unique d'"
    using assms(2) by (intro pids_unique_modify [OF routes]) (simp_all add: hub_inv_def)
  ultimately show ?thesis using assms(2) by (simp add: hub_inv_def routes fees)
next
  case (step_settle now pid tx)
  have ok: "table_ok (hub_routes d)" using assms(2) by (simp add: hub_inv_def)
  from step_settle ok obtain rid r where r: "row_of (hub_routes d) rid = Some r"
    and st: "hr_status r = RouteConfirmed"
    and routes: "hub_routes d' = modify_row rid
          (\<lambda>r. r\<lparr>hr_status := RouteSettled, hr_settled_at := Some now,
                 hr_settlement_tx_hash := Some tx\<rparr>) (hub_routes d)"
    and fees: "fee_collections d' = fee_collections d"
    by (rule settle_hub_route_Inr)
  have "route_inv d' k" for k
  proof -
    have "route_inv d k" using assms(2) by (simp add: hub_inv_def)
    then show ?thesis
      using r st route_fees_cong [OF fees, of k]
      by (auto simp: route_inv_def routes row_of_modify_row route_charged_def split: option.splits)
  qed
  moreover have "pids_unique d'"
    using assms(2) by (intro pids_unique_modify [OF routes]) (simp_all add: hub_inv_def)
  ultimately show ?thesis using assms(2) by (simp add: hub_inv_def routes fees)
next
  case (step_withdraw now ids tx n amt)
  have routes: "hub_routes d' = hub_routes d"
    and fees: "table_ok (fee_collections d') = table_ok (fee_collections d)"
    using step_withdraw by (auto simp: withdraw_fees_def Let_def)
  have "route_inv d' rid = route_inv d rid" for rid
    by (simp add: route_inv_def routes route_fees_withdraw [OF step_withdraw] split: option.split)
  with assms(2) show ?thesis
    by (simp add: hub_inv_def pids_unique_def routes fees)
qed

lemma hub_reachable_inv: "hub_reachable d \<Longrightarrow> hub_inv d"
proof (induction rule: hub_reachable.induct)
  case (hub_start d)
  then show ?case by (simp add: hub_inv_def pids_unique_def route_inv_def)
next
  case (hub_next d d')
  then show ?case by (blast intro: hub_inv_step)
qed

section \<open>Properties\<close>

text \<open>In every state reachable by creating, confirming and settling routes and withdrawing fees,
  each route's fee has been recorded exactly once if the route is confirmed or settled and never
  otherwise, and the recorded amount is the fee fixed when the route was created; no route is ever
  FAILED.\<close>

lemma hub_fee_recorded_once:
  assumes "hub_reachable d" and "row_of (hub_routes d) rid = Some r"
  shows "route_fees rid d =
      (if hr_status r = RouteConfirmed \<or> hr_status r = RouteSettled then [hr_fee_amount r] else [])
    \<and> hr_status r \<noteq> RouteFailed"
  using hub_reachable_inv [OF assms(1)] assms(2)
  by (auto simp: hub_inv_def route_inv_def route_charged_def dest: spec [of _ rid])

lemma hub_fee_recorded_once_witness:
  "\<exists>d r. hub_reachable d \<and> row_of (hub_routes d) 1 = Some r \<and> hr_status r = RouteConfirmed
     \<and> route_fees 1 d = [1 / 10]"
proof -
  let ?d1 = "case create_hub_route 5 ''hp_1'' 1 2 10 ''XMR'' ''free'' ''normal'' empty_db of Inr (d, _) \<Rightarrow> d"
  let ?d2 = "case confirm_hub_route 6 ''hp_1'' None ?d1 of Inr (d, _) \<Rightarrow> d"
  have start: "hub_reachable empty_db"
    by (rule hub_start) (simp_all add: empty_db_def route_fees_def)
  have "\<exists>res. create_hub_route 5 ''hp_1'' 1 2 10 ''XMR'' ''free'' ''normal'' empty_db = Inr (?d1, res)"
    by (simp add: create_hub_route_def hub_fee_Inr empty_db_def first_row_def Let_def)
  then have d1: "hub_reachable ?d1" by (blast intro: hub_next [OF start] step_create)
  have "\<exists>fee. confirm_hub_route 6 ''hp_1'' None ?d1 = Inr (?d2, fee)"
    by (simp add: create_hub_route_def hub_fee_Inr empty_db_def first_row_def Let_def
        confirm_hub_route_def add_row_def insert_row_def new_hub_route_def)
  then have d2: "hub_reachable ?d2" by (blast intro: hub_next [OF d1] step_confirm)
  have r: "\<exists>r. row_of (hub_routes ?d2) 1 = Some r \<and> hr_status r = RouteConfirmed \<and> hr_fee_amount r = 1 / 10"
    by (simp add: create_hub_route_def hub_fee_Inr empty_db_def first_row_def Let_def
        confirm_hub_route_def add_row_def insert_row_def new_hub_route_def modify_row_def
        update_where_def new_id_def keys_of_def clamped_fee_def)
  then show ?thesis using hub_fee_recorded_once [OF d2, of 1] d2 by fastforce
qed

text \<open>The hub-routing fee is never negative and never exceeds the payment, the sender pays exactly
  what the recipient receives plus the fee, and below 10^11 XMR the fee is one percent with a floor
  of 0.0001 XMR capped by the payment itself.\<close>

lemma hub_fee_schedule:
  assumes "0 \<le> x"
  shows "\<exists>fb. calculate_hub_routing_fee x tier urgency = Inr fb
    \<and> 0 \<le> hf_fee_amount fb \<and> hf_fee_amount fb \<le> x
    \<and> hf_total_deduction fb = hf_recipient_receives fb + hf_fee_amount fb
    \<and> (x \<le> 99999999900 \<longrightarrow> hf_fee_amount fb =
         (if x \<le> 1 / 10000 then x else if x \<le> 1 / 100 then 1 / 10000 else x / 100))"
  using clamped_fee_bounds [OF assms] clamped_fee_cases [OF assms]
  by (simp add: hub_fee_Inr)

lemma hub_fee_schedule_witness:
  "\<exists>fb. calculate_hub_routing_fee 250 ''premium'' ''urgent'' = Inr fb \<and> hf_fee_amount fb = 5 / 2"
  using hub_fee_schedule [of 250 "''premium''" "''urgent''"] by auto

text \<open>The escrow schedule splits the deal amount into fee and seller's share without loss, with
  neither part negative, and charges every tier alike.\<close>

lemma escrow_fee_splits:
  assumes "0 \<le> x"
  shows "\<exists>fb. calculate_escrow_fee x tier = Inr fb
    \<and> ef_seller_receives fb + ef_fee_amount fb = x
    \<and> 0 \<le> ef_seller_receives fb \<and> 0 \<le> ef_fee_amount fb
    \<and> (\<forall>tier' fb'. calculate_escrow_fee x tier' = Inr fb' \<longrightarrow> ef_fee_amount fb' = ef_fee_amount fb)"
  using clamped_fee_bounds [OF assms] by (simp add: escrow_fee_Inr)

lemma escrow_fee_splits_witness:
  "\<exists>fb. calculate_escrow_fee 50 ''free'' = Inr fb \<and> ef_seller_receives fb + ef_fee_amount fb = 50"
  using escrow_fee_splits [of 50 "''free''"] by auto

text \<open>The Decimal computation of the transfer commission is integer half-up rounding of
  \<open>amount * rate / 10000\<close> with a floor of one piconero; it is monotone in the amount, a paid tier
  never pays more than the free tier, and a negative amount is refused.\<close>

lemma commission_correct:
  assumes "0 \<le> m" and "m \<le> n"
  shows "\<exists>f g. compute_fee m tier = Inr f \<and> compute_fee n tier = Inr g \<and> f \<le> g \<and> 1 \<le> f
    \<and> g = max 1 ((n * rate_bps_for_tier tier + 5000) div 10000)
    \<and> (\<exists>h. compute_fee n TierFree = Inr h \<and> g \<le> h)"
proof -
  have rate: "0 \<le> rate_bps_for_tier tier" "rate_bps_for_tier tier \<le> rate_bps_for_tier TierFree"
    by (simp_all add: rate_bps_for_tier_def rate_defs)
  have "m * rate_bps_for_tier tier \<le> n * rate_bps_for_tier tier"
    and "n * rate_bps_for_tier tier \<le> n * rate_bps_for_tier TierFree"
    using assms rate by (simp_all add: mult_left_mono mult_right_mono)
  then have "(m * rate_bps_for_tier tier + 5000) div 10000 \<le> (n * rate_bps_for_tier tier + 5000) div 10000"
    and "(n * rate_bps_for_tier tier + 5000) div 10000 \<le> (n * rate_bps_for_tier TierFree + 5000) div 10000"
    by (simp_all add: zdiv_mono1)
  then show ?thesis
    using assms by (simp add: compute_fee_int max_def)
qed

lemma commission_correct_witness:
  "\<exists>g. compute_fee 100000000 TierFree = Inr g \<and> g = 300000"
  using commission_correct [of 0 100000000 TierFree]
  by (auto simp: rate_bps_for_tier_def rate_defs)

text \<open>Withdrawing collected fees pays each fee out once: the reported total is the sum of the rows
  that were pending, and repeating the call with the same ids finds nothing more.\<close>

lemma fees_withdrawn_once:
  "fst (snd (withdraw_fees now' ids tx' (fst (withdraw_fees now ids tx d)))) = 0
   \<and> snd (snd (withdraw_fees now' ids tx' (fst (withdraw_fees now ids tx d)))) = 0
   \<and> snd (snd (withdraw_fees now ids tx d)) =
       sum_list (map (\<lambda>(k, f). fc_amount f)
         (filter (\<lambda>(k, f). k \<in> set ids \<and> fc_status f = FeePending) (fee_collections d)))"
proof -
  let ?P = "\<lambda>k f. k \<in> set ids \<and> fc_status f = FeePending"
  let ?w = "\<lambda>f. f\<lparr>fc_status := FeeWithdrawn, fc_collection_tx_hash := Some tx, fc_withdrawn_at := Some now\<rparr>"
  have none: "rows_where ?P (update_where ?P ?w t) = 0"
    "table_sum (\<lambda>k f. if ?P k f then fc_amount f else 0) (update_where ?P ?w t) = 0" for t
    by (induction t) (simp_all add: rows_where_def update_where_def table_sum_def split_def)
  have sums: "table_sum (\<lambda>k f. if ?P k f then fc_amount f else 0) t =
      sum_list (map (\<lambda>(k, f). fc_amount f) (filter (\<lambda>(k, f). ?P k f) t))" for t
    by (induction t) (simp_all add: table_sum_def split_def)
  show ?thesis by (simp add: withdraw_fees_def Let_def none flip: sums)
qed

end
