(* ===== verification/Calendar.thy ===== *)
theory Calendar
  imports Prelude
begin

text \<open>
  The proleptic Gregorian calendar of Python's \<open>datetime\<close>, as far as the services use it: the UTC
  year, month and day of a moment (microseconds since 1970-01-01T00:00:00Z), the length of a month
  (\<open>calendar.monthrange\<close>) and durations in days. The civil date is computed in eras of 400 years
  whose years start in March.
\<close>

definition is_leap :: "int \<Rightarrow> bool" where
  "is_leap y \<longleftrightarrow> y mod 4 = 0 \<and> (y mod 100 \<noteq> 0 \<or> y mod 400 = 0)"

definition days_in_month :: "int \<Rightarrow> int \<Rightarrow> int" where
  "days_in_month y m =
     (if m = 2 then (if is_leap y then 29 else 28)
      else if m \<in> {4, 6, 9, 11} then 30 else 31)"

definition days :: "int \<Rightarrow> int" where
  "days n = hours (24 * n)"

definition day_number :: "moment \<Rightarrow> int" where
  "day_number t = t div days 1"

definition civil_of_day :: "int \<Rightarrow> int \<times> int \<times> int" where
  "civil_of_day n =
     (let z = n + 719468;
          era = z div 146097;
          doe = z mod 146097;
          yoe = (doe - doe div 1460 + doe div 36524 - doe div 146096) div 365;
          doy = doe - (365 * yoe + yoe div 4 - yoe div 100);
          mp = (5 * doy + 2) div 153;
          d = doy - (153 * mp + 2) div 5 + 1;
          m = (if mp < 10 then mp + 3 else mp - 9);
          y = yoe + era * 400 + (if m \<le> 2 then 1 else 0)
      in (y, m, d))"

definition date_of :: "moment \<Rightarrow> int \<times> int \<times> int" where
  "date_of t = civil_of_day (day_number t)"

text \<open>\<open>date(now.year, now.month, 1)\<close>, as the year and month that identify it.\<close>

definition month_of :: "moment \<Rightarrow> int \<times> int" where
  "month_of t = (case date_of t of (y, m, d) \<Rightarrow> (y, m))"

lemma days_pos: "0 < n \<Longrightarrow> 0 < days n"
  by (simp add: days_def hours_def microsecond_per_second_def)

lemma day_number_days [simp]: "day_number (days n) = n"
  by (simp add: day_number_def days_def hours_def microsecond_per_second_def)

lemma month_lengths:
  "28 \<le> days_in_month y m \<and> days_in_month y m \<le> 31"
  by (simp add: days_in_month_def)

text \<open>Known dates: the epoch, a leap day, the last day of a century that is not leap, and a day in 2026.\<close>

lemma known_dates:
  "civil_of_day 0 = (1970, 1, 1)" "civil_of_day 11016 = (2000, 2, 29)"
  "civil_of_day (- 25509) = (1900, 2, 28)" "civil_of_day (- 25508) = (1900, 3, 1)"
  "civil_of_day 20605 = (2026, 6, 1)"
  by code_simp+

end
