(* ===== verification/Balances.thy ===== *)
theory Balances
  imports Schema
begin

text \<open>
  \<open>sthrip/db/balance_repo.py\<close>: the balance rows, one per agent and token, and the operations every
  service moves money with. The two abstractions are \<open>available_of\<close> (what an agent can spend) and
  \<open>token_total\<close> (the sum over all agents); the locale \<open>funds\<close> is the contract the services use, and
  the repository is its implementation.

  A lost race on the first insertion for an agent needs a second session; within one session the
  row is always found or created (\<open>get_for_update_finds\<close>), so the \<open>RuntimeError\<close> of
  \<open>_get_for_update\<close> has no branch in the callers.
\<close>

type_synonym balance_table = "(ident \<times> token, agent_balance) table"

section \<open>The repository\<close>

definition new_balance :: "moment \<Rightarrow> agent_balance" where
  "new_balance now = \<lparr>bal_available = 0, bal_pending = 0, bal_total_deposited = 0,
     bal_total_withdrawn = 0, bal_deposit_address = None, bal_updated_at = now\<rparr>"

definition get_or_create :: "moment \<Rightarrow> ident \<Rightarrow> token \<Rightarrow> balance_table \<Rightarrow> balance_table" where
  "get_or_create now a tok t =
     (case row_of t (a, tok) of
        Some b \<Rightarrow> t
      | None \<Rightarrow> insert_row (a, tok) (new_balance now) t)"

definition get_for_update :: "moment \<Rightarrow> ident \<Rightarrow> token \<Rightarrow> balance_table \<Rightarrow> (agent_balance \<times> balance_table) outcome" where
  "get_for_update now a tok t =
     (let t1 = (case row_of t (a, tok) of
                  Some b \<Rightarrow> t
                | None \<Rightarrow> insert_row (a, tok) (new_balance now) t)
      in case row_of t1 (a, tok) of
           None \<Rightarrow> Inl (RuntimeError ''Balance record could not be created or found'')
         | Some b \<Rightarrow> Inr (b, t1))"

definition get_available :: "moment \<Rightarrow> ident \<Rightarrow> token \<Rightarrow> balance_table \<Rightarrow> decimal \<times> balance_table" where
  "get_available now a tok t =
     (let t1 = get_or_create now a tok t
      in (case row_of t1 (a, tok) of None \<Rightarrow> 0 | Some b \<Rightarrow> bal_available b, t1))"

definition locked_row :: "moment \<Rightarrow> ident \<Rightarrow> token \<Rightarrow> balance_table \<Rightarrow> balance_table" where
  "locked_row now a tok t = (case get_for_update now a tok t of Inl e \<Rightarrow> t | Inr (b, t1) \<Rightarrow> t1)"

definition deposit :: "moment \<Rightarrow> ident \<Rightarrow> decimal \<Rightarrow> token \<Rightarrow> balance_table \<Rightarrow> balance_table" where
  "deposit now a x tok t =
     modify_row (a, tok)
       (\<lambda>b. b\<lparr>bal_available := bal_available b + x,
              bal_total_deposited := bal_total_deposited b + x,
              bal_updated_at := now\<rparr>)
       (locked_row now a tok t)"

definition deduct :: "moment \<Rightarrow> ident \<Rightarrow> decimal \<Rightarrow> token \<Rightarrow> balance_table \<Rightarrow> balance_table outcome" where
  "deduct now a x tok t =
     (case get_for_update now a tok t of
        Inl e \<Rightarrow> Inl e
      | Inr (b, t1) \<Rightarrow>
          if bal_available b < x then Inl (ValueError ''Insufficient balance'')
          else Inr (modify_row (a, tok)
                 (\<lambda>b. b\<lparr>bal_available := bal_available b - x, bal_updated_at := now\<rparr>) t1))"

definition withdraw :: "moment \<Rightarrow> ident \<Rightarrow> decimal \<Rightarrow> token \<Rightarrow> balance_table \<Rightarrow> balance_table outcome" where
  "withdraw now a x tok t =
     (case get_for_update now a tok t of
        Inl e \<Rightarrow> Inl e
      | Inr (b, t1) \<Rightarrow>
          if bal_available b < x then Inl (ValueError ''Insufficient balance'')
          else Inr (modify_row (a, tok)
                 (\<lambda>b. b\<lparr>bal_available := bal_available b - x,
                        bal_total_withdrawn := bal_total_withdrawn b + x,
                        bal_updated_at := now\<rparr>) t1))"

definition credit :: "moment \<Rightarrow> ident \<Rightarrow> decimal \<Rightarrow> token \<Rightarrow> balance_table \<Rightarrow> balance_table" where
  "credit now a x tok t =
     modify_row (a, tok) (\<lambda>b. b\<lparr>bal_available := bal_available b + x, bal_updated_at := now\<rparr>)
       (locked_row now a tok t)"

definition add_pending :: "moment \<Rightarrow> ident \<Rightarrow> decimal \<Rightarrow> token \<Rightarrow> balance_table \<Rightarrow> balance_table" where
  "add_pending now a x tok t =
     modify_row (a, tok) (\<lambda>b. b\<lparr>bal_pending := bal_pending b + x, bal_updated_at := now\<rparr>)
       (locked_row now a tok t)"

definition clear_pending_on_confirm :: "moment \<Rightarrow> ident \<Rightarrow> decimal \<Rightarrow> token \<Rightarrow> balance_table \<Rightarrow> balance_table" where
  "clear_pending_on_confirm now a x tok t =
     modify_row (a, tok) (\<lambda>b. b\<lparr>bal_pending := max (bal_pending b - x) 0, bal_updated_at := now\<rparr>)
       (locked_row now a tok t)"

definition set_deposit_address :: "moment \<Rightarrow> ident \<Rightarrow> string \<Rightarrow> token \<Rightarrow> balance_table \<Rightarrow> balance_table" where
  "set_deposit_address now a addr tok t =
     modify_row (a, tok) (\<lambda>b. b\<lparr>bal_deposit_address := Some addr\<rparr>) (get_or_create now a tok t)"

section \<open>Abstractions\<close>

definition available_of :: "ident \<Rightarrow> token \<Rightarrow> balance_table \<Rightarrow> decimal" where
  "available_of a tok t = (case row_of t (a, tok) of None \<Rightarrow> 0 | Some b \<Rightarrow> bal_available b)"

definition pending_of :: "ident \<Rightarrow> token \<Rightarrow> balance_table \<Rightarrow> decimal" where
  "pending_of a tok t = (case row_of t (a, tok) of None \<Rightarrow> 0 | Some b \<Rightarrow> bal_pending b)"

definition token_total :: "token \<Rightarrow> balance_table \<Rightarrow> decimal" where
  "token_total tok t = table_sum (\<lambda>k b. if snd k = tok then bal_available b else 0) t"

text \<open>The CHECK constraints of \<open>agent_balances\<close>.\<close>

definition solvent :: "balance_table \<Rightarrow> bool" where
  "solvent t \<longleftrightarrow> (\<forall>a tok. 0 \<le> available_of a tok t \<and> 0 \<le> pending_of a tok t)"

section \<open>Row level lemmas\<close>

lemma get_for_update_finds:
  "\<exists>b t1. get_for_update now a tok t = Inr (b, t1) \<and> row_of t1 (a, tok) = Some b"
  by (auto simp: get_for_update_def Let_def row_of_insert split: option.splits)

lemma get_for_update_Inr:
  "get_for_update now a tok t = Inr (b, t1) \<longleftrightarrow>
     t1 = get_or_create now a tok t \<and> row_of (get_or_create now a tok t) (a, tok) = Some b"
  by (auto simp: get_for_update_def get_or_create_def Let_def row_of_insert split: option.splits)

lemma row_of_get_or_create:
  "row_of (get_or_create now a tok t) k =
     (case row_of t k of Some b \<Rightarrow> Some b | None \<Rightarrow> if k = (a, tok) then Some (new_balance now) else None)"
  by (auto simp: get_or_create_def row_of_insert split: option.splits)

lemma locked_row_eq: "locked_row now a tok t = get_or_create now a tok t"
proof -
  obtain b t1 where found: "get_for_update now a tok t = Inr (b, t1)"
    using get_for_update_finds by blast
  then have "t1 = get_or_create now a tok t" by (simp add: get_for_update_Inr)
  then show ?thesis by (simp add: locked_row_def found)
qed

lemma table_ok_get_or_create [simp]: "table_ok (get_or_create now a tok t) = table_ok t"
  by (simp add: get_or_create_def split: option.splits)

lemma available_get_or_create [ledger_simps]:
  "available_of b u (get_or_create now a tok t) = available_of b u t"
  by (auto simp: available_of_def row_of_get_or_create new_balance_def split: option.splits)

lemma pending_get_or_create [ledger_simps]:
  "pending_of b u (get_or_create now a tok t) = pending_of b u t"
  by (auto simp: pending_of_def row_of_get_or_create new_balance_def split: option.splits)

lemma total_get_or_create [ledger_simps]:
  "token_total u (get_or_create now a tok t) = token_total u t"
  by (simp add: token_total_def get_or_create_def table_sum_insert new_balance_def split: option.splits)

lemma get_or_create_row: "\<exists>b. row_of (get_or_create now a tok t) (a, tok) = Some b"
  by (simp add: row_of_get_or_create split: option.splits)

text \<open>What changing one agent's row does to the abstractions.\<close>

lemma available_modify:
  "row_of t (a, tok) = Some r \<Longrightarrow>
     available_of b u (modify_row (a, tok) f t) =
     (if b = a \<and> u = tok then bal_available (f r) else available_of b u t)"
  by (auto simp: available_of_def row_of_modify_row split: option.splits)

lemma pending_modify:
  "row_of t (a, tok) = Some r \<Longrightarrow>
     pending_of b u (modify_row (a, tok) f t) =
     (if b = a \<and> u = tok then bal_pending (f r) else pending_of b u t)"
  by (auto simp: pending_of_def row_of_modify_row split: option.splits)

lemma total_modify:
  "table_ok t \<Longrightarrow> row_of t (a, tok) = Some r \<Longrightarrow>
     token_total u (modify_row (a, tok) f t) =
     token_total u t + (if u = tok then bal_available (f r) - bal_available r else 0)"
  by (auto simp: token_total_def table_sum_modify_row)

lemma available_row: "row_of t (a, tok) = Some r \<Longrightarrow> available_of a tok t = bal_available r"
  by (simp add: available_of_def)

lemma pending_row: "row_of t (a, tok) = Some r \<Longrightarrow> pending_of a tok t = bal_pending r"
  by (simp add: pending_of_def)

lemma empty_ledger [simp]:
  "available_of a tok [] = 0" "pending_of a tok [] = 0" "token_total tok [] = 0"
  by (simp_all add: available_of_def pending_of_def token_total_def)

section \<open>Effect of the operations\<close>

text \<open>The read that fills in a missing row.\<close>

lemma get_available_eq:
  "get_available now a tok t = (available_of a tok t, get_or_create now a tok t)"
proof -
  have "fst (get_available now a tok t) = available_of a tok (get_or_create now a tok t)"
    by (simp add: get_available_def Let_def available_of_def)
  then have "fst (get_available now a tok t) = available_of a tok t" by (simp add: available_get_or_create)
  moreover have "snd (get_available now a tok t) = get_or_create now a tok t"
    by (simp add: get_available_def Let_def)
  ultimately show ?thesis by (simp add: prod_eq_iff)
qed

lemma available_credit [ledger_simps]:
  "available_of b u (credit now a x tok t) =
     available_of b u t + (if b = a \<and> u = tok then x else 0)"
proof -
  obtain r where r: "row_of (get_or_create now a tok t) (a, tok) = Some r"
    using get_or_create_row by blast
  then have "bal_available r = available_of a tok t"
    by (simp add: available_row [symmetric] available_get_or_create)
  then show ?thesis
    by (simp add: credit_def locked_row_eq available_modify [OF r] available_get_or_create)
qed

lemma pending_credit [ledger_simps]: "pending_of b u (credit now a x tok t) = pending_of b u t"
proof -
  obtain r where r: "row_of (get_or_create now a tok t) (a, tok) = Some r"
    using get_or_create_row by blast
  then have "bal_pending r = pending_of a tok t"
    by (simp add: pending_row [symmetric] pending_get_or_create)
  then show ?thesis
    by (simp add: credit_def locked_row_eq pending_modify [OF r] pending_get_or_create)
qed

lemma total_credit [ledger_simps]:
  assumes "table_ok t"
  shows "token_total u (credit now a x tok t) = token_total u t + (if u = tok then x else 0)"
proof -
  obtain r where r: "row_of (get_or_create now a tok t) (a, tok) = Some r"
    using get_or_create_row by blast
  show ?thesis
    by (simp add: credit_def locked_row_eq total_modify [OF _ r] assms total_get_or_create)
qed

lemma table_ok_credit [simp]: "table_ok (credit now a x tok t) = table_ok t"
  by (simp add: credit_def locked_row_eq)

lemma deduct_cases:
  "deduct now a x tok t =
     (if available_of a tok t < x then Inl (ValueError ''Insufficient balance'')
      else Inr (modify_row (a, tok)
        (\<lambda>b. b\<lparr>bal_available := bal_available b - x, bal_updated_at := now\<rparr>)
        (get_or_create now a tok t)))"
proof -
  obtain b t1 where found: "get_for_update now a tok t = Inr (b, t1)"
    using get_for_update_finds by blast
  then have t1: "t1 = get_or_create now a tok t" and b: "row_of t1 (a, tok) = Some b"
    by (auto simp: get_for_update_Inr)
  then have "bal_available b = available_of a tok t"
    by (metis available_get_or_create available_row)
  then show ?thesis by (simp add: deduct_def found t1)
qed

lemma deduct_Inl_iff: "deduct now a x tok t = Inl e \<longleftrightarrow>
    available_of a tok t < x \<and> e = ValueError ''Insufficient balance''"
  by (auto simp: deduct_cases)

lemma deduct_Inr:
  assumes "deduct now a x tok t = Inr t'"
  shows "x \<le> available_of a tok t"
    and "available_of b u t' = available_of b u t - (if b = a \<and> u = tok then x else 0)"
    and "pending_of b u t' = pending_of b u t"
    and "table_ok t' = table_ok t"
    and "table_ok t \<Longrightarrow> token_total u t' = token_total u t - (if u = tok then x else 0)"
proof -
  obtain r where r: "row_of (get_or_create now a tok t) (a, tok) = Some r"
    using get_or_create_row by blast
  have avail: "bal_available r = available_of a tok t" and pend: "bal_pending r = pending_of a tok t"
    using r by (simp_all add: available_row [symmetric] pending_row [symmetric] ledger_simps)
  from assms have enough: "x \<le> available_of a tok t"
    and t': "t' = modify_row (a, tok)
        (\<lambda>b. b\<lparr>bal_available := bal_available b - x, bal_updated_at := now\<rparr>)
        (get_or_create now a tok t)"
    by (auto simp: deduct_cases split: if_splits)
  show "x \<le> available_of a tok t" by (rule enough)
  show "available_of b u t' = available_of b u t - (if b = a \<and> u = tok then x else 0)"
    by (simp add: t' available_modify [OF r] avail available_get_or_create)
  show "pending_of b u t' = pending_of b u t"
    by (simp add: t' pending_modify [OF r] pend pending_get_or_create)
  show "table_ok t' = table_ok t" by (simp add: t')
  show "table_ok t \<Longrightarrow> token_total u t' = token_total u t - (if u = tok then x else 0)"
    by (simp add: t' total_modify [OF _ r] total_get_or_create)
qed

section \<open>The contract of a ledger\<close>

text \<open>
  What every service relies on: credits and deductions move exactly the amount asked for, touch no
  other agent or token, and a deduction is refused exactly when the funds are short.
\<close>

locale funds =
  fixes avail :: "ident \<Rightarrow> token \<Rightarrow> 's \<Rightarrow> decimal"
    and total :: "token \<Rightarrow> 's \<Rightarrow> decimal"
    and ok :: "'s \<Rightarrow> bool"
    and pay_in :: "ident \<Rightarrow> decimal \<Rightarrow> token \<Rightarrow> 's \<Rightarrow> 's"
    and pay_out :: "ident \<Rightarrow> decimal \<Rightarrow> token \<Rightarrow> 's \<Rightarrow> 's outcome"
  assumes avail_pay_in: "avail b u (pay_in a x tok s) = avail b u s + (if b = a \<and> u = tok then x else 0)"
    and total_pay_in: "ok s \<Longrightarrow> total u (pay_in a x tok s) = total u s + (if u = tok then x else 0)"
    and ok_pay_in: "ok (pay_in a x tok s) = ok s"
    and pay_out_short: "(\<exists>e. pay_out a x tok s = Inl e) \<longleftrightarrow> avail a tok s < x"
    and avail_pay_out: "pay_out a x tok s = Inr s' \<Longrightarrow>
        avail b u s' = avail b u s - (if b = a \<and> u = tok then x else 0)"
    and total_pay_out: "pay_out a x tok s = Inr s' \<Longrightarrow> ok s \<Longrightarrow>
        total u s' = total u s - (if u = tok then x else 0)"
    and ok_pay_out: "pay_out a x tok s = Inr s' \<Longrightarrow> ok s' = ok s"
begin

lemma pay_out_covers: "pay_out a x tok s = Inr s' \<Longrightarrow> x \<le> avail a tok s"
  using pay_out_short [of a x tok s] by force

lemma pay_out_succeeds: "x \<le> avail a tok s \<Longrightarrow> \<exists>s'. pay_out a x tok s = Inr s'"
  using pay_out_short [of a x tok s] by (cases "pay_out a x tok s") auto

lemma ok_payments: "ok (fold (\<lambda>(b, x). pay_in b x tok) ps s) = ok s"
  by (induction ps arbitrary: s) (simp_all add: ok_pay_in split_def)

lemma total_payments:
  "ok s \<Longrightarrow> total u (fold (\<lambda>(b, x). pay_in b x tok) ps s) =
     total u s + (if u = tok then sum_list (map snd ps) else 0)"
  by (induction ps arbitrary: s) (simp_all add: total_pay_in ok_pay_in split_def)

lemma avail_payments:
  "avail b u (fold (\<lambda>(b, x). pay_in b x tok) ps s) =
     avail b u s + (if u = tok then sum_list (map snd (filter (\<lambda>p. fst p = b) ps)) else 0)"
  by (induction ps arbitrary: s) (simp_all add: avail_pay_in split_def)

text \<open>Taking a sum from one agent and paying it out in parts neither creates nor destroys money.\<close>

lemma distribution_conserves:
  assumes "pay_out a x tok s = Inr s'" and "ok s" and "sum_list (map snd ps) = x"
  shows "total u (fold (\<lambda>(b, y). pay_in b y tok) ps s') = total u s"
proof -
  have "ok s'" using assms by (simp add: ok_pay_out)
  then show ?thesis
    using assms by (simp add: total_payments total_pay_out)
qed

lemma pay_in_nonneg: "0 \<le> x \<Longrightarrow> 0 \<le> avail b u s \<Longrightarrow> 0 \<le> avail b u (pay_in a x tok s)"
  by (simp add: avail_pay_in)

lemma pay_out_nonneg: "pay_out a x tok s = Inr s' \<Longrightarrow> 0 \<le> avail b u s \<Longrightarrow> 0 \<le> avail b u s'"
  using pay_out_covers [of a x tok s s'] by (auto simp: avail_pay_out)

lemma payments_nonneg:
  "(\<And>p. p \<in> set ps \<Longrightarrow> 0 \<le> snd p) \<Longrightarrow> 0 \<le> avail b u s \<Longrightarrow>
     0 \<le> avail b u (fold (\<lambda>(b, x). pay_in b x tok) ps s)"
  by (auto simp: avail_payments intro!: add_nonneg_nonneg sum_list_nonneg)

end

interpretation bank: funds available_of token_total table_ok "credit now" "deduct now" for now
proof unfold_locales
  fix a x tok s b u
  show "available_of b u (credit now a x tok s) =
      available_of b u s + (if b = a \<and> u = tok then x else 0)"
    by (rule available_credit)
  show "table_ok s \<Longrightarrow>
      token_total u (credit now a x tok s) = token_total u s + (if u = tok then x else 0)"
    by (rule total_credit)
  show "table_ok (credit now a x tok s) = table_ok s"
    by (rule table_ok_credit)
  show "(\<exists>e. deduct now a x tok s = Inl e) \<longleftrightarrow> available_of a tok s < x"
    by (simp add: deduct_Inl_iff)
  fix s'
  assume paid: "deduct now a x tok s = Inr s'"
  show "available_of b u s' = available_of b u s - (if b = a \<and> u = tok then x else 0)"
    by (rule deduct_Inr(2) [OF paid])
  show "table_ok s \<Longrightarrow> token_total u s' = token_total u s - (if u = tok then x else 0)"
    by (rule deduct_Inr(5) [OF paid])
  show "table_ok s' = table_ok s"
    by (rule deduct_Inr(4) [OF paid])
qed

end
