(* ===== verification/Ledger.thy ===== *)
theory Ledger
  imports Balances
begin

text \<open>
  Sequences of balance operations. One request is one operation in its own transaction: an operation
  that raises leaves the table as it was. The lemmas show that no sequence of requests overdraws an
  account or a pending balance, and that the total of a token is the sum of the flows that
  succeeded.
\<close>

datatype ledger_op =
    Deposit ident decimal token
  | Deduct ident decimal token
  | Withdraw ident decimal token
  | Credit ident decimal token
  | AddPending ident decimal token
  | ClearPending ident decimal token

fun ledger_step :: "moment \<Rightarrow> ledger_op \<Rightarrow> balance_table \<Rightarrow> balance_table outcome" where
  "ledger_step now (Deposit a x tok) t = Inr (deposit now a x tok t)"
| "ledger_step now (Deduct a x tok) t = deduct now a x tok t"
| "ledger_step now (Withdraw a x tok) t = withdraw now a x tok t"
| "ledger_step now (Credit a x tok) t = Inr (credit now a x tok t)"
| "ledger_step now (AddPending a x tok) t = Inr (add_pending now a x tok t)"
| "ledger_step now (ClearPending a x tok) t = Inr (clear_pending_on_confirm now a x tok t)"

text \<open>A run of timed requests; a request that raises is rolled back.\<close>

fun ledger_run :: "(moment \<times> ledger_op) list \<Rightarrow> balance_table \<Rightarrow> balance_table" where
  "ledger_run [] t = t"
| "ledger_run ((now, p) # ps) t =
     ledger_run ps (case ledger_step now p t of Inl e \<Rightarrow> t | Inr t' \<Rightarrow> t')"

fun op_amount :: "ledger_op \<Rightarrow> decimal" where
  "op_amount (Deposit a x tok) = x"
| "op_amount (Deduct a x tok) = x"
| "op_amount (Withdraw a x tok) = x"
| "op_amount (Credit a x tok) = x"
| "op_amount (AddPending a x tok) = x"
| "op_amount (ClearPending a x tok) = x"

text \<open>What a request that succeeds adds to the total of a token.\<close>

fun op_flow :: "token \<Rightarrow> ledger_op \<Rightarrow> decimal" where
  "op_flow u (Deposit a x tok) = (if tok = u then x else 0)"
| "op_flow u (Deduct a x tok) = (if tok = u then - x else 0)"
| "op_flow u (Withdraw a x tok) = (if tok = u then - x else 0)"
| "op_flow u (Credit a x tok) = (if tok = u then x else 0)"
| "op_flow u (AddPending a x tok) = 0"
| "op_flow u (ClearPending a x tok) = 0"

fun run_flow :: "token \<Rightarrow> (moment \<times> ledger_op) list \<Rightarrow> balance_table \<Rightarrow> decimal" where
  "run_flow u [] t = 0"
| "run_flow u ((now, p) # ps) t =
     (case ledger_step now p t of
        Inl e \<Rightarrow> run_flow u ps t
      | Inr t' \<Rightarrow> op_flow u p + run_flow u ps t')"

section \<open>One operation\<close>

text \<open>Each successful operation rewrites the row of one agent and token, found or created.\<close>

definition row_edit :: "balance_table \<Rightarrow> balance_table \<Rightarrow> ident \<Rightarrow> token \<Rightarrow> (agent_balance \<Rightarrow> agent_balance) \<Rightarrow> moment \<Rightarrow> bool" where
  "row_edit t t' a tok f now \<longleftrightarrow> t' = modify_row (a, tok) f (get_or_create now a tok t)"

lemma row_edit_available:
  assumes "row_edit t t' a tok f now" and "\<And>r. bal_available (f r) = bal_available r + d"
  shows "available_of b u t' = available_of b u t + (if b = a \<and> u = tok then d else 0)"
proof -
  obtain r where r: "row_of (get_or_create now a tok t) (a, tok) = Some r"
    using get_or_create_row by blast
  have "bal_available r = available_of a tok t"
    using r by (simp add: available_row [symmetric] ledger_simps)
  then show ?thesis
    using assms by (simp add: row_edit_def available_modify [OF r] ledger_simps)
qed

lemma row_edit_pending:
  assumes "row_edit t t' a tok f now" and "\<And>r. bal_pending (f r) = g (bal_pending r)"
  shows "pending_of b u t' = (if b = a \<and> u = tok then g (pending_of b u t) else pending_of b u t)"
proof -
  obtain r where r: "row_of (get_or_create now a tok t) (a, tok) = Some r"
    using get_or_create_row by blast
  have "bal_pending r = pending_of a tok t"
    using r by (simp add: pending_row [symmetric] ledger_simps)
  then show ?thesis
    using assms by (simp add: row_edit_def pending_modify [OF r] ledger_simps)
qed

lemma row_edit_total:
  assumes "row_edit t t' a tok f now" and "\<And>r. bal_available (f r) = bal_available r + d"
    and "table_ok t"
  shows "token_total u t' = token_total u t + (if u = tok then d else 0)"
proof -
  obtain r where r: "row_of (get_or_create now a tok t) (a, tok) = Some r"
    using get_or_create_row by blast
  show ?thesis
    using assms by (simp add: row_edit_def total_modify [OF _ r] ledger_simps)
qed

lemma row_edit_ok: "row_edit t t' a tok f now \<Longrightarrow> table_ok t' = table_ok t"
  by (simp add: row_edit_def)

lemma deposit_edit: "row_edit t (deposit now a x tok t) a tok
    (\<lambda>b. b\<lparr>bal_available := bal_available b + x, bal_total_deposited := bal_total_deposited b + x,
           bal_updated_at := now\<rparr>) now"
  by (simp add: row_edit_def deposit_def locked_row_eq)

lemma add_pending_edit: "row_edit t (add_pending now a x tok t) a tok
    (\<lambda>b. b\<lparr>bal_pending := bal_pending b + x, bal_updated_at := now\<rparr>) now"
  by (simp add: row_edit_def add_pending_def locked_row_eq)

lemma clear_pending_edit: "row_edit t (clear_pending_on_confirm now a x tok t) a tok
    (\<lambda>b. b\<lparr>bal_pending := max (bal_pending b - x) 0, bal_updated_at := now\<rparr>) now"
  by (simp add: row_edit_def clear_pending_on_confirm_def locked_row_eq)

lemma withdraw_cases:
  "withdraw now a x tok t =
     (if available_of a tok t < x then Inl (ValueError ''Insufficient balance'')
      else Inr (modify_row (a, tok)
        (\<lambda>b. b\<lparr>bal_available := bal_available b - x,
               bal_total_withdrawn := bal_total_withdrawn b + x, bal_updated_at := now\<rparr>)
        (get_or_create now a tok t)))"
proof -
  obtain b t1 where found: "get_for_update now a tok t = Inr (b, t1)"
    using get_for_update_finds by blast
  then have t1: "t1 = get_or_create now a tok t" and b: "row_of t1 (a, tok) = Some b"
    by (auto simp: get_for_update_Inr)
  then have "bal_available b = available_of a tok t"
    by (metis available_get_or_create available_row)
  then show ?thesis by (simp add: withdraw_def found t1)
qed

lemma withdraw_edit:
  assumes "withdraw now a x tok t = Inr t'"
  shows "x \<le> available_of a tok t"
    and "row_edit t t' a tok (\<lambda>b. b\<lparr>bal_available := bal_available b - x,
           bal_total_withdrawn := bal_total_withdrawn b + x, bal_updated_at := now\<rparr>) now"
  using assms by (auto simp: withdraw_cases row_edit_def split: if_splits)

lemma ledger_step_flow:
  assumes "ledger_step now p t = Inr t'" and "table_ok t"
  shows "token_total u t' = token_total u t + op_flow u p"
proof (cases p)
  case (Deposit a x tok)
  then show ?thesis
    using assms row_edit_total [OF deposit_edit, where d = x and u = u] by auto
next
  case (Deduct a x tok)
  with assms have "deduct now a x tok t = Inr t'" by simp
  from deduct_Inr(5) [OF this] show ?thesis using assms Deduct by auto
next
  case (Withdraw a x tok)
  with assms have "withdraw now a x tok t = Inr t'" by simp
  from row_edit_total [OF withdraw_edit(2) [OF this], where d = "- x" and u = u]
  show ?thesis using assms Withdraw by auto
next
  case (Credit a x tok)
  then show ?thesis using assms by (auto simp: total_credit)
next
  case (AddPending a x tok)
  then show ?thesis
    using assms row_edit_total [OF add_pending_edit, where d = 0 and u = u] by auto
next
  case (ClearPending a x tok)
  then show ?thesis
    using assms row_edit_total [OF clear_pending_edit, where d = 0 and u = u] by auto
qed

lemma ledger_step_ok:
  assumes "ledger_step now p t = Inr t'"
  shows "table_ok t' = table_ok t"
proof (cases p)
  case (Deposit a x tok)
  with assms show ?thesis using row_edit_ok [OF deposit_edit] by auto
next
  case (Deduct a x tok)
  with assms show ?thesis by (auto dest: deduct_Inr(4))
next
  case (Withdraw a x tok)
  with assms show ?thesis using row_edit_ok [OF withdraw_edit(2)] by auto
next
  case (Credit a x tok)
  with assms show ?thesis by auto
next
  case (AddPending a x tok)
  with assms show ?thesis using row_edit_ok [OF add_pending_edit] by auto
next
  case (ClearPending a x tok)
  with assms show ?thesis using row_edit_ok [OF clear_pending_edit] by auto
qed

lemma ledger_step_available:
  assumes "ledger_step now p t = Inr t'" and "0 \<le> op_amount p" and "0 \<le> available_of b u t"
  shows "0 \<le> available_of b u t'"
proof (cases p)
  case (Deposit a x tok)
  then show ?thesis
    using assms row_edit_available [OF deposit_edit, where d = x and b = b and u = u] by auto
next
  case (Deduct a x tok)
  with assms have "deduct now a x tok t = Inr t'" by simp
  then show ?thesis using assms(3) by (rule bank.pay_out_nonneg)
next
  case (Withdraw a x tok)
  with assms have w: "withdraw now a x tok t = Inr t'" by simp
  from row_edit_available [OF withdraw_edit(2) [OF w], where d = "- x" and b = b and u = u] withdraw_edit(1) [OF w]
  show ?thesis using assms by auto
next
  case (Credit a x tok)
  then show ?thesis using assms by (auto intro: bank.pay_in_nonneg)
next
  case (AddPending a x tok)
  then show ?thesis
    using assms row_edit_available [OF add_pending_edit, where d = 0 and b = b and u = u] by auto
next
  case (ClearPending a x tok)
  then show ?thesis
    using assms row_edit_available [OF clear_pending_edit, where d = 0 and b = b and u = u] by auto
qed

lemma ledger_step_pending:
  assumes "ledger_step now p t = Inr t'" and "0 \<le> op_amount p" and "0 \<le> pending_of b u t"
  shows "0 \<le> pending_of b u t'"
proof (cases p)
  case (Deposit a x tok)
  then show ?thesis
    using assms row_edit_pending [OF deposit_edit, where g = "\<lambda>y. y" and b = b and u = u] by auto
next
  case (Deduct a x tok)
  with assms have "deduct now a x tok t = Inr t'" by simp
  from deduct_Inr(3) [OF this] show ?thesis using assms(3) by simp
next
  case (Withdraw a x tok)
  with assms have "withdraw now a x tok t = Inr t'" by simp
  from row_edit_pending [OF withdraw_edit(2) [OF this], where g = "\<lambda>y. y" and b = b and u = u]
  show ?thesis using assms(3) by auto
next
  case (Credit a x tok)
  then show ?thesis using assms by (auto simp: pending_credit)
next
  case (AddPending a x tok)
  then show ?thesis
    using assms row_edit_pending [OF add_pending_edit, where g = "\<lambda>y. y + x" and b = b and u = u] by auto
next
  case (ClearPending a x tok)
  then show ?thesis
    using assms row_edit_pending [OF clear_pending_edit, where g = "\<lambda>y. max (y - x) 0" and b = b and u = u] by auto
qed

section \<open>Sequences of operations\<close>

lemma ledger_run_solvent:
  "\<forall>q \<in> set ps. 0 \<le> op_amount (snd q) \<Longrightarrow> solvent t \<Longrightarrow> solvent (ledger_run ps t)"
proof (induction ps arbitrary: t)
  case Nil
  then show ?case by simp
next
  case (Cons q ps)
  obtain now p where q: "q = (now, p)" by (cases q)
  have "0 \<le> op_amount p" using Cons.prems(1) by (simp add: q)
  then have "solvent (case ledger_step now p t of Inl e \<Rightarrow> t | Inr t' \<Rightarrow> t')"
    using Cons.prems(2) by (auto simp: solvent_def split: sum.splits
        intro: ledger_step_available ledger_step_pending)
  then show ?case
    using Cons.IH Cons.prems(1) by (simp add: q)
qed

lemma ledger_run_total:
  "table_ok t \<Longrightarrow> token_total u (ledger_run ps t) = token_total u t + run_flow u ps t"
proof (induction ps arbitrary: t)
  case Nil
  then show ?case by simp
next
  case (Cons q ps)
  obtain now p where q: "q = (now, p)" by (cases q)
  show ?case
  proof (cases "ledger_step now p t")
    case (Inl e)
    with Cons show ?thesis by (simp add: q)
  next
    case (Inr t')
    with Cons.prems have "table_ok t'" by (simp add: ledger_step_ok)
    with Cons Inr show ?thesis by (simp add: q ledger_step_flow)
  qed
qed

section \<open>Properties\<close>

text \<open>C1. Solvency: whatever sequence of deposits, deductions, withdrawals, credits and pending
  movements with non-negative amounts runs on an empty ledger, in any order and at any times, no
  available balance and no pending balance is ever negative (the CHECK constraints of
  \<open>agent_balances\<close> hold by the repository's own guards).\<close>

theorem ledger_never_overdrawn:
  assumes "\<forall>q \<in> set ps. 0 \<le> op_amount (snd q)"
  shows "solvent (ledger_run ps [])"
proof (rule ledger_run_solvent [OF assms])
  show "solvent []" by (simp add: solvent_def available_of_def pending_of_def)
qed

theorem ledger_never_overdrawn_witness:
  "solvent (ledger_run [(0, Deposit 1 5 ''XMR''), (1, Deduct 1 9 ''XMR''), (2, Withdraw 1 3 ''XMR'')] [])"
  using ledger_never_overdrawn
    [of "[(0, Deposit 1 5 ''XMR''), (1, Deduct 1 9 ''XMR''), (2, Withdraw 1 3 ''XMR'')]"]
  by simp

text \<open>C2. Books balance: after any sequence of requests the sum of all available balances of a token
  is the opening sum plus the inflows minus the outflows of exactly the requests that succeeded;
  rejected deductions and withdrawals, and pending movements, contribute nothing.\<close>

theorem ledger_books_balance:
  assumes "table_ok t"
  shows "token_total u (ledger_run ps t) = token_total u t + run_flow u ps t
    \<and> table_ok (ledger_run ps t)"
proof -
  have "table_ok (ledger_run ps t)"
    using assms
  proof (induction ps arbitrary: t)
    case Nil
    then show ?case by simp
  next
    case (Cons q ps)
    obtain now p where q: "q = (now, p)" by (cases q)
    have "table_ok (case ledger_step now p t of Inl e \<Rightarrow> t | Inr t' \<Rightarrow> t')"
      using Cons.prems by (auto simp: ledger_step_ok split: sum.splits)
    then show ?case using Cons.IH by (simp add: q)
  qed
  with assms show ?thesis by (simp add: ledger_run_total)
qed

theorem ledger_books_balance_witness:
  "token_total ''XMR'' (ledger_run [(0, Deposit 1 5 ''XMR''), (1, Deduct 1 9 ''XMR'')] []) =
     token_total ''XMR'' [] + run_flow ''XMR'' [(0, Deposit 1 5 ''XMR''), (1, Deduct 1 9 ''XMR'')] []"
  using ledger_books_balance
    [of "[]" "''XMR''" "[(0, Deposit 1 5 ''XMR''), (1, Deduct 1 9 ''XMR'')]"]
  by simp

end
