(* ===== verification/Transfers.thy ===== *)
theory Transfers
  imports Calendar Ledger Fees
begin

text \<open>
  A commission-bearing transfer: \<open>sthrip/services/tier_cache.py\<close>,
  \<open>sthrip/services/agent_stats_service.py\<close>, \<open>sthrip/db/transaction_repo.py\<close> and the monthly limit
  of the free tier in \<open>api/middleware/tier_limit.py\<close>.

  The encrypted participant envelope a transaction row also carries is not modelled: it is written
  next to the plaintext columns and read by nothing here.
\<close>

section \<open>The tier cache of a request\<close>

type_synonym tier_cache = "(ident \<times> agent_tier) list option"

definition begin_request :: tier_cache where
  "begin_request = Some []"

definition get_tier :: "ident \<Rightarrow> db \<Rightarrow> tier_cache \<Rightarrow> agent_tier \<times> tier_cache" where
  "get_tier a d cache =
     (case (case cache of None \<Rightarrow> None | Some c \<Rightarrow> map_of c a) of
        Some tier \<Rightarrow> (tier, cache)
      | None \<Rightarrow>
          let tier = (case row_of (agents d) a of None \<Rightarrow> TierFree | Some ag \<Rightarrow> ag_tier ag)
          in (tier, case cache of None \<Rightarrow> None | Some c \<Rightarrow> Some ((a, tier) # c)))"

definition clear_for_agent :: "ident \<Rightarrow> tier_cache \<Rightarrow> tier_cache" where
  "clear_for_agent a cache = map_option (filter (\<lambda>(k, tier). k \<noteq> a)) cache"

section \<open>The monthly counter\<close>

type_synonym stats_table = "(ident \<times> int \<times> int, agent_monthly_stats) table"

text \<open>PostgreSQL: one upsert. Other dialects: seed the row, then update it.\<close>

definition record_transaction_pg :: "moment \<Rightarrow> ident \<Rightarrow> stats_table \<Rightarrow> stats_table" where
  "record_transaction_pg now a t =
     (case row_of t (a, month_of now) of
        None \<Rightarrow> insert_row (a, month_of now) \<lparr>ams_transaction_count = 1, ams_last_updated = now\<rparr> t
      | Some s \<Rightarrow> modify_row (a, month_of now)
          (\<lambda>s. s\<lparr>ams_transaction_count := ams_transaction_count s + 1, ams_last_updated := now\<rparr>) t)"

definition record_transaction_seeded :: "moment \<Rightarrow> ident \<Rightarrow> stats_table \<Rightarrow> stats_table" where
  "record_transaction_seeded now a t =
     (let t1 = (case row_of t (a, month_of now) of
                  None \<Rightarrow> insert_row (a, month_of now) \<lparr>ams_transaction_count = 0, ams_last_updated = now\<rparr> t
                | Some s \<Rightarrow> t)
      in modify_row (a, month_of now)
           (\<lambda>s. s\<lparr>ams_transaction_count := ams_transaction_count s + 1, ams_last_updated := now\<rparr>) t1)"

definition record_transaction :: "string \<Rightarrow> moment \<Rightarrow> ident \<Rightarrow> stats_table \<Rightarrow> stats_table" where
  "record_transaction dialect now a t =
     (if dialect = ''postgresql'' then record_transaction_pg now a t
      else record_transaction_seeded now a t)"

definition get_current_month_count :: "moment \<Rightarrow> ident \<Rightarrow> stats_table \<Rightarrow> int" where
  "get_current_month_count now a t =
     (case row_of t (a, month_of now) of None \<Rightarrow> 0 | Some s \<Rightarrow> ams_transaction_count s)"

definition reset_for_month :: "int \<times> int \<Rightarrow> stats_table \<Rightarrow> nat \<times> stats_table" where
  "reset_for_month month t =
     (rows_where (\<lambda>(a, m) s. m = month) t, delete_where (\<lambda>(a, m) s. m = month) t)"

section \<open>The transaction repository\<close>

definition MAX_QUERY_LIMIT :: nat where
  "MAX_QUERY_LIMIT = 500"

text \<open>\<open>tx_hash\<close> is unique: a second insert fails when the session is flushed.\<close>

definition insert_transaction :: "transaction \<Rightarrow> db \<Rightarrow> db outcome" where
  "insert_transaction tx d =
     (case first_row (\<lambda>t. tx_hash t = tx_hash tx) (transactions d) of
        Some _ \<Rightarrow> Inl (RuntimeError ''IntegrityError'')
      | None \<Rightarrow> Inr (d\<lparr>transactions := add_row tx (transactions d)\<rparr>))"

definition create_transaction ::
  "moment \<Rightarrow> string \<Rightarrow> string \<Rightarrow> ident option \<Rightarrow> ident option \<Rightarrow> decimal \<Rightarrow> token \<Rightarrow> payment_type
    \<Rightarrow> transaction_status \<Rightarrow> decimal \<Rightarrow> decimal \<Rightarrow> transaction"
where
  "create_transaction now hash network from_agent to_agent amount tok ptype status fee fee_collected =
     \<lparr>tx_hash = hash, tx_network = network, tx_token = tok, tx_from_agent_id = from_agent,
      tx_to_agent_id = to_agent, tx_amount = amount, tx_fee = fee, tx_fee_collected = fee_collected,
      tx_payment_type = ptype, tx_status = status, tx_block_number = None, tx_confirmations = 0,
      tx_confirmed_at = None, tx_created_at = now\<rparr>"

definition PICO :: decimal where
  "PICO = 10 ^ 12"

definition commission_row ::
  "moment \<Rightarrow> ident \<Rightarrow> ident \<Rightarrow> decimal \<Rightarrow> int \<Rightarrow> int \<Rightarrow> token \<Rightarrow> string \<Rightarrow> fee_collection"
where
  "commission_row now tx_id payer fee_xmr fee_pico bps tok hash =
     \<lparr>fc_source_type = ''fee_collection'', fc_source_id = Some tx_id, fc_amount = fee_xmr,
      fc_token = tok, fc_status = FeePending, fc_collection_tx_hash = None, fc_withdrawn_at = None,
      fc_created_at = now, fc_payer_agent_id = Some payer, fc_amount_piconero = Some fee_pico,
      fc_rate_applied_bps = Some bps, fc_transaction_ref = Some hash, fc_collected_at = Some now\<rparr>"

definition debit_sender :: "moment \<Rightarrow> ident \<Rightarrow> decimal \<Rightarrow> token \<Rightarrow> balance_table \<Rightarrow> balance_table outcome" where
  "debit_sender now a total_xmr tok t =
     (case get_for_update now a tok t of
        Inl e \<Rightarrow> Inl e
      | Inr (sender_balance, t1) \<Rightarrow>
          let available = bal_available sender_balance
          in if available < total_xmr then Inl (ValueError ''Insufficient balance'')
             else Inr (modify_row (a, tok)
               (\<lambda>b. b\<lparr>bal_available := available - total_xmr, bal_updated_at := now\<rparr>) t1))"

text \<open>
  The whole transfer: replay check, tier, commission, debit, credit, transaction row, fee row,
  counter. The result is the transaction's id.
\<close>

definition create_with_commission ::
  "string \<Rightarrow> moment \<Rightarrow> tier_cache \<Rightarrow> string \<Rightarrow> string \<Rightarrow> ident \<Rightarrow> ident \<Rightarrow> int \<Rightarrow> token \<Rightarrow> payment_type
    \<Rightarrow> transaction_status \<Rightarrow> string option \<Rightarrow> db \<Rightarrow> (db \<times> tier_cache \<times> ident) outcome"
where
  "create_with_commission dialect now cache hash network from_agent to_agent amount_piconero tok ptype
     status idempotency_key d =
     (if amount_piconero < 0 then Inl (ValueError ''amount_piconero must be non-negative'')
      else case (if idempotency_key = None then None
                 else first_row (\<lambda>t. tx_hash t = hash) (transactions d)) of
        Some (tx_id, existing) \<Rightarrow> Inr (d, cache, tx_id)
      | None \<Rightarrow>
          let (tier, cache') = get_tier from_agent d cache in
          and_then (compute_fee amount_piconero tier) (\<lambda>fee_piconero.
            let amount_xmr = of_int amount_piconero / PICO;
                fee_xmr = of_int fee_piconero / PICO;
                total_xmr = amount_xmr + fee_xmr
            in and_then (debit_sender now from_agent total_xmr tok (balances d)) (\<lambda>t1.
              let tx_id = new_id (transactions d);
                  tx = create_transaction now hash network (Some from_agent) (Some to_agent)
                         amount_xmr tok ptype status fee_xmr fee_xmr
              in and_then (insert_transaction tx (d\<lparr>balances := credit now to_agent amount_xmr tok t1\<rparr>)) (\<lambda>d1.
                Inr (d1\<lparr>fee_collections := add_row (commission_row now tx_id from_agent fee_xmr
                            fee_piconero (rate_bps_for_tier tier) tok hash) (fee_collections d1),
                        monthly_stats := record_transaction dialect now from_agent (monthly_stats d1)\<rparr>,
                     cache', tx_id)))))"

section \<open>Queries\<close>

definition get_by_hash :: "string \<Rightarrow> db \<Rightarrow> (ident \<times> transaction) option" where
  "get_by_hash hash d = first_row (\<lambda>t. tx_hash t = hash) (transactions d)"

definition agent_direction :: "ident \<Rightarrow> string option \<Rightarrow> transaction \<Rightarrow> bool" where
  "agent_direction a direction t \<longleftrightarrow>
     (if direction = Some ''in'' then tx_to_agent_id t = Some a
      else if direction = Some ''out'' then tx_from_agent_id t = Some a
      else tx_from_agent_id t = Some a \<or> tx_to_agent_id t = Some a)"

definition count_by_agent :: "ident \<Rightarrow> string option \<Rightarrow> db \<Rightarrow> nat" where
  "count_by_agent a direction d = rows_where (\<lambda>k t. agent_direction a direction t) (transactions d)"

definition list_by_agent :: "ident \<Rightarrow> string option \<Rightarrow> nat \<Rightarrow> nat \<Rightarrow> db \<Rightarrow> (ident \<times> transaction) list" where
  "list_by_agent a direction limit offset d =
     take (min limit MAX_QUERY_LIMIT) (drop offset
       (sort_key (\<lambda>(k, t). - tx_created_at t) (select_where (agent_direction a direction) (transactions d))))"

definition confirm_transaction :: "moment \<Rightarrow> string \<Rightarrow> int \<Rightarrow> int \<Rightarrow> db \<Rightarrow> db" where
  "confirm_transaction now hash block confirmations d =
     d\<lparr>transactions := update_where (\<lambda>k t. tx_hash t = hash)
         (\<lambda>t. t\<lparr>tx_status := TxConfirmed, tx_block_number := Some block,
                tx_confirmations := confirmations, tx_confirmed_at := Some now\<rparr>) (transactions d)\<rparr>"

definition get_volume_by_agent :: "moment \<Rightarrow> ident \<Rightarrow> int \<Rightarrow> db \<Rightarrow> decimal" where
  "get_volume_by_agent now a n d =
     table_sum (\<lambda>k t. if agent_direction a None t \<and> tx_status t = TxConfirmed
         \<and> now - days n \<le> tx_created_at t then tx_amount t else 0) (transactions d)"

section \<open>The free tier's monthly limit\<close>

definition FREE_TIER_MONTHLY_LIMIT :: int where
  "FREE_TIER_MONTHLY_LIMIT = 100"

definition is_gated :: "string \<Rightarrow> string \<Rightarrow> bool" where
  "is_gated http_method path \<longleftrightarrow> http_method = ''POST''
     \<and> (path = ''/v2/payments/hub-routing'' \<or> path = ''/v2/payments/internal-transfer'')"

definition effective_tier_is_free :: "agent \<Rightarrow> moment \<Rightarrow> bool" where
  "effective_tier_is_free ag now =
     (if ag_tier ag = TierFree then True
      else case ag_tier_grace_until ag of None \<Rightarrow> False | Some grace \<Rightarrow> \<not> now < grace)"

text \<open>The middleware's decision: \<open>True\<close> lets the request through, \<open>False\<close> answers 429. \<open>count\<close> is
  \<open>None\<close> when the counter cannot be read, and the middleware then fails open.\<close>

definition enforce_tier_limit :: "moment \<Rightarrow> string \<Rightarrow> string \<Rightarrow> agent option \<Rightarrow> int option \<Rightarrow> bool" where
  "enforce_tier_limit now http_method path ag cnt =
     (if \<not> is_gated http_method path then True
      else case ag of
        None \<Rightarrow> True
      | Some a \<Rightarrow>
          if \<not> effective_tier_is_free a now then True
          else let c = (case cnt of None \<Rightarrow> 0 | Some n \<Rightarrow> n)
               in \<not> FREE_TIER_MONTHLY_LIMIT \<le> c)"

section \<open>Lemmas\<close>

lemma debit_sender_is_deduct:
  assumes "table_ok t"
  shows "debit_sender now a x tok t = deduct now a x tok t"
proof -
  obtain b t1 where found: "get_for_update now a tok t = Inr (b, t1)"
    using get_for_update_finds by blast
  then have t1: "t1 = get_or_create now a tok t" and b: "row_of t1 (a, tok) = Some b"
    by (auto simp: get_for_update_Inr)
  have "modify_row (a, tok) (\<lambda>r. r\<lparr>bal_available := bal_available b - x, bal_updated_at := now\<rparr>) t1 =
      modify_row (a, tok) (\<lambda>r. r\<lparr>bal_available := bal_available r - x, bal_updated_at := now\<rparr>) t1"
    by (rule modify_row_cong [OF _ b]) (simp_all add: t1 assms)
  then show ?thesis
    by (simp add: debit_sender_def deduct_def found Let_def)
qed

lemma create_with_commission_Inr:
  assumes "create_with_commission dialect now cache hash network fr to n tok ptype status key d =
      Inr (d', cache', tx_id)" and "table_ok (balances d)"
    and "key = None \<or> first_row (\<lambda>t. tx_hash t = hash) (transactions d) = None"
  obtains fee t1 where "compute_fee n (fst (get_tier fr d cache)) = Inr fee"
    and "deduct now fr (of_int n / PICO + of_int fee / PICO) tok (balances d) = Inr t1"
    and "balances d' = credit now to (of_int n / PICO) tok t1"
    and "fee_collections d' = add_row (commission_row now tx_id fr (of_int fee / PICO) fee
           (rate_bps_for_tier (fst (get_tier fr d cache))) tok hash) (fee_collections d)"
    and "monthly_stats d' = record_transaction dialect now fr (monthly_stats d)"
    and "row_of (transactions d') tx_id = Some (create_transaction now hash network (Some fr) (Some to)
           (of_int n / PICO) tok ptype status (of_int fee / PICO) (of_int fee / PICO))"
proof -
  obtain tier c where tc: "get_tier fr d cache = (tier, c)" by (cases "get_tier fr d cache")
  have new: "(if key = None then None else first_row (\<lambda>t. tx_hash t = hash) (transactions d)) = None"
    using assms(3) by auto
  from assms(1) obtain fee t1 where fee: "compute_fee n tier = Inr fee"
    and t1: "deduct now fr (of_int n / PICO + of_int fee / PICO) tok (balances d) = Inr t1"
    by (auto simp: create_with_commission_def new tc Let_def and_then_Inr_iff
        debit_sender_is_deduct [OF assms(2)] split: if_splits)
  show ?thesis
    using assms(1) that [of fee t1] fee t1
    by (auto simp: create_with_commission_def new tc Let_def and_then_Inr_iff insert_transaction_def
        debit_sender_is_deduct [OF assms(2)] row_of_add_row split: if_splits option.splits)
qed

text \<open>The two dialects count alike.\<close>

lemma modify_after_insert:
  "row_of t k = None \<Longrightarrow> modify_row k f (insert_row k v t) = insert_row k (f v) t"
proof (induction t)
  case Nil
  then show ?case by (simp add: modify_row_def update_where_def insert_row_def)
next
  case (Cons kv t)
  obtain k0 v0 where kv: "kv = (k0, v0)" by (cases kv)
  with Cons.prems have "k0 \<noteq> k" and "row_of t k = None" by (auto split: if_splits)
  with Cons.IH show ?case by (simp add: kv modify_row_def update_where_def insert_row_def)
qed

lemma month_count_record:
  "get_current_month_count now a (record_transaction dialect now' b t) =
     get_current_month_count now a t + (if a = b \<and> month_of now = month_of now' then 1 else 0)"
  by (auto simp: get_current_month_count_def record_transaction_def record_transaction_pg_def
      record_transaction_seeded_def modify_after_insert row_of_insert row_of_modify_row
      split: option.splits)

lemma get_tier_fresh: "get_tier a d begin_request =
    (case row_of (agents d) a of None \<Rightarrow> TierFree | Some ag \<Rightarrow> ag_tier ag,
     Some [(a, case row_of (agents d) a of None \<Rightarrow> TierFree | Some ag \<Rightarrow> ag_tier ag)])"
  by (simp add: get_tier_def begin_request_def Let_def)

text \<open>The effect of a transfer that is not a replay.\<close>

lemma transfer_effect:
  assumes "create_with_commission dialect now cache hash network fr to n tok ptype status key d =
      Inr (d', cache', tx_id)" and "table_ok (balances d)"
    and "key = None \<or> first_row (\<lambda>t. tx_hash t = hash) (transactions d) = None"
  shows "\<exists>fee. compute_fee n (fst (get_tier fr d cache)) = Inr fee
    \<and> (of_int n + of_int fee) / PICO \<le> available_of fr tok (balances d)
    \<and> (\<forall>b u. available_of b u (balances d') = available_of b u (balances d)
         - (if b = fr \<and> u = tok then (of_int n + of_int fee) / PICO else 0)
         + (if b = to \<and> u = tok then of_int n / PICO else 0))
    \<and> token_total tok (balances d') = token_total tok (balances d) - of_int fee / PICO
    \<and> (\<exists>f. fee_collections d' = add_row f (fee_collections d) \<and> fc_amount f = of_int fee / PICO
         \<and> fc_token f = tok \<and> fc_source_id f = Some tx_id)
    \<and> get_current_month_count now fr (monthly_stats d') = get_current_month_count now fr (monthly_stats d) + 1"
proof -
  from assms obtain fee t1 where fee: "compute_fee n (fst (get_tier fr d cache)) = Inr fee"
    and t1: "deduct now fr (of_int n / PICO + of_int fee / PICO) tok (balances d) = Inr t1"
    and bal: "balances d' = credit now to (of_int n / PICO) tok t1"
    and fees: "fee_collections d' = add_row (commission_row now tx_id fr (of_int fee / PICO) fee
           (rate_bps_for_tier (fst (get_tier fr d cache))) tok hash) (fee_collections d)"
    and stats: "monthly_stats d' = record_transaction dialect now fr (monthly_stats d)"
    by (rule create_with_commission_Inr)
  have sum: "(of_int n :: rat) / PICO + of_int fee / PICO = (of_int n + of_int fee) / PICO"
    by (simp add: add_divide_distrib)
  note t1 = t1 [unfolded sum]
  have "table_ok t1" using bank.ok_pay_out [OF t1] assms(2) by simp
  then have "token_total tok (balances d') = token_total tok (balances d) - of_int fee / PICO"
    by (simp add: bal bank.total_pay_in bank.total_pay_out [OF t1 assms(2)] add_divide_distrib)
  moreover have "available_of b u (balances d') = available_of b u (balances d)
         - (if b = fr \<and> u = tok then (of_int n + of_int fee) / PICO else 0)
         + (if b = to \<and> u = tok then of_int n / PICO else 0)" for b u
    by (simp add: bal bank.avail_pay_in bank.avail_pay_out [OF t1])
  moreover have "fc_amount (commission_row now tx_id fr (of_int fee / PICO) fee r tok hash) = of_int fee / PICO"
    "fc_token (commission_row now tx_id fr (of_int fee / PICO) fee r tok hash) = tok"
    "fc_source_id (commission_row now tx_id fr (of_int fee / PICO) fee r tok hash) = Some tx_id" for r
    by (simp_all add: commission_row_def)
  ultimately show ?thesis
    using fee fees bank.pay_out_covers [OF t1] by (intro exI [of _ fee]) (auto simp: stats month_count_record)
qed

section \<open>Properties\<close>

text \<open>A transfer that succeeds takes amount plus commission from the sender, gives the whole
  amount to the receiver, touches no other balance, and moves exactly the commission out of the
  agents' balances into one new fee row; the sender had the money, and the sender's monthly counter
  grows by one.\<close>

lemma transfer_moves_money:
  assumes "create_with_commission dialect now cache hash network fr to n tok ptype status None d =
      Inr (d', cache', tx_id)" and "table_ok (balances d)"
  shows "\<exists>fee. compute_fee n (fst (get_tier fr d cache)) = Inr fee
    \<and> (of_int n + of_int fee) / PICO \<le> available_of fr tok (balances d)
    \<and> (\<forall>b u. available_of b u (balances d') = available_of b u (balances d)
         - (if b = fr \<and> u = tok then (of_int n + of_int fee) / PICO else 0)
         + (if b = to \<and> u = tok then of_int n / PICO else 0))
    \<and> token_total tok (balances d') = token_total tok (balances d) - of_int fee / PICO
    \<and> (\<exists>f. fee_collections d' = add_row f (fee_collections d) \<and> fc_amount f = of_int fee / PICO
         \<and> fc_token f = tok \<and> fc_source_id f = Some tx_id)
    \<and> get_current_month_count now fr (monthly_stats d') = get_current_month_count now fr (monthly_stats d) + 1"
  by (rule transfer_effect [OF assms]) simp

lemma transfer_moves_money_witness:
  "\<exists>d' c tx. create_with_commission ''postgresql'' 0 begin_request ''h'' ''hub'' 1 2 1000000000000 ''XMR''
      PtHubRouting TxConfirmed None (empty_db\<lparr>balances := credit 0 1 5 ''XMR'' []\<rparr>) = Inr (d', c, tx)
    \<and> available_of 2 ''XMR'' (balances d') = 1"
proof -
  let ?d = "empty_db\<lparr>balances := credit 0 1 5 ''XMR'' []\<rparr>"
  let ?r = "create_with_commission ''postgresql'' 0 begin_request ''h'' ''hub'' 1 2 1000000000000 ''XMR''
      PtHubRouting TxConfirmed None ?d"
  have "\<exists>d' c tx. ?r = Inr (d', c, tx)"
    by (simp add: create_with_commission_def get_tier_fresh empty_db_def compute_fee_int
        rate_bps_for_tier_def rate_defs PICO_def debit_sender_is_deduct deduct_cases available_credit
        insert_transaction_def first_row_def Let_def)
  then obtain d' c tx where r: "?r = Inr (d', c, tx)" by blast
  have "available_of 2 ''XMR'' (balances ?d) = 0"
    by (simp add: available_credit)
  then have "available_of 2 ''XMR'' (balances d') = 1"
    using transfer_moves_money [OF r] by (auto simp: PICO_def)
  with r show ?thesis by blast
qed

text \<open>A client retry costs nothing: once a transfer under a hash has succeeded, a second call with an
  idempotency key and that hash returns the same transaction and leaves every table as it is,
  whatever amount it names and whatever the sender's balance is by then.\<close>

lemma transfer_replay_is_free:
  assumes "create_with_commission dialect now cache hash network fr to n tok ptype status key d =
      Inr (d', cache', tx_id)" and "table_ok (balances d)"
    and "first_row (\<lambda>t. tx_hash t = hash) (transactions d) = None" and "0 \<le> n'"
  shows "create_with_commission dialect' now' cache'' hash network' fr' to' n' tok' ptype' status' (Some k) d' =
      Inr (d', cache'', tx_id)"
proof -
  from assms(1,3) obtain tx where "transactions d' = add_row tx (transactions d)" and "tx_hash tx = hash"
    and "tx_id = new_id (transactions d)"
    by (cases "get_tier fr d cache") (auto simp: create_with_commission_def Let_def and_then_Inr_iff
        insert_transaction_def create_transaction_def split: if_splits option.splits)
  moreover have "first_row P (insert_row i v t) = Some (i, v)" if "first_row P t = None" "P v"
    for P i and v :: transaction and t :: "(ident, transaction) table"
    using that by (induction t) (auto simp: first_row_def insert_row_def split: if_splits)
  ultimately have "first_row (\<lambda>t. tx_hash t = hash) (transactions d') = Some (tx_id, tx)"
    using assms(3) by (simp add: add_row_def)
  then show ?thesis using assms(4) by (simp add: create_with_commission_def)
qed

lemma transfer_replay_is_free_witness:
  "\<exists>d' c tx. create_with_commission ''sqlite'' 9 None ''h'' ''hub'' 1 2 77 ''XMR''
      PtHubRouting TxConfirmed (Some ''k'') d' = Inr (d', c, tx)"
proof -
  let ?d = "empty_db\<lparr>balances := credit 0 1 5 ''XMR'' []\<rparr>"
  let ?r = "create_with_commission ''sqlite'' 0 begin_request ''h'' ''hub'' 1 2 1000000000000 ''XMR''
      PtHubRouting TxConfirmed (Some ''k'') ?d"
  have "\<exists>d' c tx. ?r = Inr (d', c, tx)"
    by (simp add: create_with_commission_def get_tier_fresh empty_db_def compute_fee_int
        rate_bps_for_tier_def rate_defs PICO_def debit_sender_is_deduct deduct_cases available_credit
        insert_transaction_def first_row_def Let_def)
  then obtain d' c tx where r: "?r = Inr (d', c, tx)" by blast
  have none: "first_row (\<lambda>t. tx_hash t = ''h'') (transactions ?d) = None"
    by (simp add: empty_db_def first_row_def)
  show ?thesis
    using transfer_replay_is_free [OF r _ none, of 77 "''sqlite''" 9 None "''hub''" 1 2 "''XMR''"
        PtHubRouting TxConfirmed "''k''"] by (simp, blast)
qed

text \<open>The two SQL dialects of the monthly counter agree: the upsert of PostgreSQL and the
  seed-then-update of the others leave the same table, and both add one to the month of the request
  and to no other month or agent.\<close>

lemma counter_dialects_agree:
  "record_transaction_pg now a t = record_transaction_seeded now a t
   \<and> get_current_month_count now' b (record_transaction dialect now a t) =
       get_current_month_count now' b t + (if b = a \<and> month_of now' = month_of now then 1 else 0)"
  by (simp add: month_count_record record_transaction_pg_def record_transaction_seeded_def
      modify_after_insert split: option.split)

section \<open>The cap of the free tier\<close>

text \<open>Serial requests of one agent through the middleware; a request that passes and succeeds is counted.\<close>

fun gated_requests :: "string \<Rightarrow> ident \<Rightarrow> agent \<Rightarrow> moment list \<Rightarrow> stats_table \<Rightarrow> stats_table" where
  "gated_requests dialect a ag [] t = t"
| "gated_requests dialect a ag (now # ts) t =
     gated_requests dialect a ag ts
       (if enforce_tier_limit now ''POST'' ''/v2/payments/hub-routing'' (Some ag)
             (Some (get_current_month_count now a t))
        then record_transaction dialect now a t else t)"

lemma month_count_cong:
  "month_of m = month_of now \<Longrightarrow> get_current_month_count m a t = get_current_month_count now a t"
  by (simp add: get_current_month_count_def)

lemma gated_requests_capped:
  assumes "\<forall>m. get_current_month_count m a t \<le> 100"
    and "\<forall>now \<in> set ts. effective_tier_is_free ag now"
  shows "get_current_month_count m a (gated_requests dialect a ag ts t) \<le> 100"
  using assms
proof (induction ts arbitrary: t)
  case Nil
  then show ?case by simp
next
  case (Cons now ts)
  let ?t = "if enforce_tier_limit now ''POST'' ''/v2/payments/hub-routing'' (Some ag)
             (Some (get_current_month_count now a t))
        then record_transaction dialect now a t else t"
  have free: "effective_tier_is_free ag now" using Cons.prems(2) by simp
  have "get_current_month_count m' a ?t \<le> 100" for m'
  proof (cases "month_of m' = month_of now \<and> get_current_month_count now a t < 100")
    case True
    then show ?thesis
      using month_count_cong [of m' now a t] by (simp add: month_count_record)
  next
    case False
    have "get_current_month_count m' a t \<le> 100" using Cons.prems(1) by simp
    with False free show ?thesis
      by (auto simp: month_count_record enforce_tier_limit_def is_gated_def FREE_TIER_MONTHLY_LIMIT_def)
  qed
  then show ?case using Cons.IH [of ?t] Cons.prems(2) by simp
qed

text \<open>A free agent (declared free, or paid with its grace period over) never gets more than 100
  transfers counted in any calendar month, however many requests it sends and when; a paid agent
  without a grace marker, or inside its grace period, is never refused.\<close>

lemma free_tier_capped:
  assumes "\<forall>now \<in> set ts. effective_tier_is_free ag now"
  shows "get_current_month_count m a (gated_requests dialect a ag ts []) \<le> 100
    \<and> (\<forall>now cnt g. ag_tier ag' \<noteq> TierFree \<and> (ag_tier_grace_until ag' = None
          \<or> ag_tier_grace_until ag' = Some g \<and> now < g)
        \<longrightarrow> enforce_tier_limit now ''POST'' path (Some ag') cnt)"
proof -
  have "\<forall>m. get_current_month_count m a [] \<le> 100"
    by (simp add: get_current_month_count_def)
  from gated_requests_capped [OF this assms] show ?thesis
    by (auto simp: enforce_tier_limit_def effective_tier_is_free_def)
qed

lemma free_tier_capped_witness:
  "get_current_month_count 0 7 (gated_requests ''sqlite'' 7
      \<lparr>ag_name = ''a'', ag_is_active = True, ag_tier = TierFree, ag_tier_grace_until = None, ag_xmr_address = None, ag_created_at = 0\<rparr>
      (replicate 250 0) []) \<le> 100"
  using free_tier_capped [of "replicate 250 0"
      "\<lparr>ag_name = ''a'', ag_is_active = True, ag_tier = TierFree, ag_tier_grace_until = None, ag_xmr_address = None, ag_created_at = 0\<rparr>" 0 7 "''sqlite''"]
  by (simp add: effective_tier_is_free_def)

end
