(* ===== verification/Escrow_Repo.thy ===== *)
theory Escrow_Repo
  imports Transfers
begin

text \<open>
  \<open>sthrip/db/escrow_repo.py\<close> and \<open>sthrip/db/milestone_repo.py\<close>: creation of deals and milestones,
  their status transitions and the expiry queries. Each transition is a conditional UPDATE; all of
  them are interpretations of \<open>guarded_transition\<close>.
\<close>

type_synonym deal_table = "(ident, escrow_deal) table"
type_synonym milestone_table = "(ident, escrow_milestone) table"

section \<open>Deals\<close>

definition escrow_create ::
  "moment \<Rightarrow> ident \<Rightarrow> ident \<Rightarrow> decimal \<Rightarrow> int \<Rightarrow> int \<Rightarrow> int \<Rightarrow> decimal \<Rightarrow> escrow_deal"
where
  "escrow_create now buyer_id seller_id amount accept_h delivery_h review_h fee_percent =
     \<lparr>deal_buyer_id = buyer_id, deal_seller_id = seller_id, deal_amount = amount,
      deal_token = Some ''XMR'', deal_fee_percent = fee_percent, deal_fee_amount = 0,
      deal_accept_timeout_hours = accept_h, deal_delivery_timeout_hours = delivery_h,
      deal_review_timeout_hours = review_h, deal_accept_deadline = Some (now + hours accept_h),
      deal_delivery_deadline = None, deal_review_deadline = None, deal_release_amount = None,
      deal_is_multi_milestone = False, deal_milestone_count = 1, deal_current_milestone = 1,
      deal_total_released = 0, deal_total_fees = 0, deal_status = EscrowCreated,
      deal_created_at = now, deal_accepted_at = None, deal_delivered_at = None,
      deal_completed_at = None, deal_cancelled_at = None,
      deal_expires_at = Some (now + hours accept_h)\<rparr>"

definition escrow_accept :: "moment \<Rightarrow> int \<Rightarrow> ident \<Rightarrow> deal_table \<Rightarrow> nat \<times> deal_table" where
  "escrow_accept now delivery_h =
     update_row (\<lambda>r. deal_status r = EscrowCreated)
       (\<lambda>r. r\<lparr>deal_status := EscrowAccepted, deal_accepted_at := Some now,
              deal_delivery_deadline := Some (now + hours delivery_h),
              deal_expires_at := Some (now + hours delivery_h)\<rparr>)"

definition escrow_deliver :: "moment \<Rightarrow> int \<Rightarrow> ident \<Rightarrow> deal_table \<Rightarrow> nat \<times> deal_table" where
  "escrow_deliver now review_h =
     update_row (\<lambda>r. deal_status r = EscrowAccepted)
       (\<lambda>r. r\<lparr>deal_status := EscrowDelivered, deal_delivered_at := Some now,
              deal_review_deadline := Some (now + hours review_h),
              deal_expires_at := Some (now + hours review_h)\<rparr>)"

definition escrow_release :: "moment \<Rightarrow> decimal \<Rightarrow> decimal \<Rightarrow> ident \<Rightarrow> deal_table \<Rightarrow> nat \<times> deal_table" where
  "escrow_release now release_amount fee_amount =
     update_row (\<lambda>r. deal_status r = EscrowDelivered)
       (\<lambda>r. r\<lparr>deal_status := EscrowCompleted, deal_release_amount := Some release_amount,
              deal_fee_amount := fee_amount, deal_completed_at := Some now\<rparr>)"

definition escrow_cancel :: "moment \<Rightarrow> ident \<Rightarrow> deal_table \<Rightarrow> nat \<times> deal_table" where
  "escrow_cancel now =
     update_row (\<lambda>r. deal_status r = EscrowCreated)
       (\<lambda>r. r\<lparr>deal_status := EscrowCancelled, deal_cancelled_at := Some now\<rparr>)"

definition escrow_expire :: "moment \<Rightarrow> ident \<Rightarrow> deal_table \<Rightarrow> nat \<times> deal_table" where
  "escrow_expire now =
     update_row (\<lambda>r. deal_status r = EscrowCreated \<or> deal_status r = EscrowAccepted)
       (\<lambda>r. r\<lparr>deal_status := EscrowExpired, deal_completed_at := Some now\<rparr>)"

definition get_pending_expiry :: "moment \<Rightarrow> deal_table \<Rightarrow> (ident \<times> escrow_deal) list" where
  "get_pending_expiry now t =
     select_where (\<lambda>r. deal_status r \<in> {EscrowCreated, EscrowAccepted, EscrowDelivered}
       \<and> (case deal_expires_at r of None \<Rightarrow> False | Some e \<Rightarrow> e \<le> now)) t"

definition escrow_role :: "ident \<Rightarrow> string option \<Rightarrow> escrow_status option \<Rightarrow> escrow_deal \<Rightarrow> bool" where
  "escrow_role a role st r \<longleftrightarrow>
     (if role = Some ''buyer'' then deal_buyer_id r = a
      else if role = Some ''seller'' then deal_seller_id r = a
      else deal_buyer_id r = a \<or> deal_seller_id r = a)
     \<and> (case st of None \<Rightarrow> True | Some s \<Rightarrow> deal_status r = s)"

definition escrow_list_by_agent ::
  "ident \<Rightarrow> string option \<Rightarrow> escrow_status option \<Rightarrow> nat \<Rightarrow> nat \<Rightarrow> deal_table
    \<Rightarrow> (ident \<times> escrow_deal) list \<times> nat"
where
  "escrow_list_by_agent a role st limit offset t =
     (let q = select_where (escrow_role a role st) t
      in (take (min limit MAX_QUERY_LIMIT)
            (drop offset (sort_key (\<lambda>(k, r). - deal_created_at r) q)), length q))"

section \<open>Milestones\<close>

record milestone_input =
  mi_description :: string
  mi_amount :: decimal
  mi_delivery_timeout_hours :: int
  mi_review_timeout_hours :: int

text \<open>\<open>MilestoneDefinition\<close> of \<open>api/schemas.py\<close>: what the endpoint admits.\<close>

definition valid_milestone :: "milestone_input \<Rightarrow> bool" where
  "valid_milestone mi \<longleftrightarrow>
     1 \<le> length (mi_description mi) \<and> length (mi_description mi) \<le> 500
     \<and> 0 < mi_amount mi \<and> mi_amount mi \<le> 10000
     \<and> 1 \<le> mi_delivery_timeout_hours mi \<and> mi_delivery_timeout_hours mi \<le> 720
     \<and> 1 \<le> mi_review_timeout_hours mi \<and> mi_review_timeout_hours mi \<le> 168"

definition new_milestone :: "ident \<Rightarrow> int \<Rightarrow> milestone_input \<Rightarrow> escrow_milestone" where
  "new_milestone escrow_id idx mi =
     \<lparr>ms_escrow_id = escrow_id, ms_sequence = idx, ms_description = mi_description mi,
      ms_amount = mi_amount mi, ms_delivery_timeout_hours = mi_delivery_timeout_hours mi,
      ms_review_timeout_hours = mi_review_timeout_hours mi, ms_delivery_deadline = None,
      ms_review_deadline = None, ms_release_amount = None, ms_fee_amount = 0,
      ms_status = MilestonePending, ms_activated_at = None, ms_delivered_at = None,
      ms_completed_at = None, ms_cancelled_at = None, ms_expires_at = None\<rparr>"

fun create_milestones_from :: "ident \<Rightarrow> int \<Rightarrow> milestone_input list \<Rightarrow> milestone_table \<Rightarrow> milestone_table" where
  "create_milestones_from escrow_id idx [] t = t"
| "create_milestones_from escrow_id idx (mi # mis) t =
     create_milestones_from escrow_id (idx + 1) mis (add_row (new_milestone escrow_id idx mi) t)"

definition create_milestones :: "ident \<Rightarrow> milestone_input list \<Rightarrow> milestone_table \<Rightarrow> milestone_table" where
  "create_milestones escrow_id mis t = create_milestones_from escrow_id 1 mis t"

definition get_by_escrow_and_sequence :: "ident \<Rightarrow> int \<Rightarrow> milestone_table \<Rightarrow> (ident \<times> escrow_milestone) option" where
  "get_by_escrow_and_sequence escrow_id sequence t =
     first_row (\<lambda>m. ms_escrow_id m = escrow_id \<and> ms_sequence m = sequence) t"

definition get_by_escrow :: "ident \<Rightarrow> milestone_table \<Rightarrow> (ident \<times> escrow_milestone) list" where
  "get_by_escrow escrow_id t =
     sort_key (\<lambda>(i, m). ms_sequence m) (select_where (\<lambda>m. ms_escrow_id m = escrow_id) t)"

definition milestone_activate :: "moment \<Rightarrow> int \<Rightarrow> ident \<Rightarrow> milestone_table \<Rightarrow> nat \<times> milestone_table" where
  "milestone_activate now delivery_h =
     update_row (\<lambda>m. ms_status m = MilestonePending)
       (\<lambda>m. m\<lparr>ms_status := MilestoneActive, ms_activated_at := Some now,
              ms_delivery_deadline := Some (now + hours delivery_h),
              ms_expires_at := Some (now + hours delivery_h)\<rparr>)"

definition milestone_deliver :: "moment \<Rightarrow> int \<Rightarrow> ident \<Rightarrow> milestone_table \<Rightarrow> nat \<times> milestone_table" where
  "milestone_deliver now review_h =
     update_row (\<lambda>m. ms_status m = MilestoneActive)
       (\<lambda>m. m\<lparr>ms_status := MilestoneDelivered, ms_delivered_at := Some now,
              ms_review_deadline := Some (now + hours review_h),
              ms_expires_at := Some (now + hours review_h)\<rparr>)"

definition milestone_release :: "moment \<Rightarrow> decimal \<Rightarrow> decimal \<Rightarrow> ident \<Rightarrow> milestone_table \<Rightarrow> nat \<times> milestone_table" where
  "milestone_release now release_amount fee_amount =
     update_row (\<lambda>m. ms_status m = MilestoneDelivered)
       (\<lambda>m. m\<lparr>ms_status := MilestoneCompleted, ms_release_amount := Some release_amount,
              ms_fee_amount := fee_amount, ms_completed_at := Some now\<rparr>)"

definition milestone_expire :: "moment \<Rightarrow> ident \<Rightarrow> milestone_table \<Rightarrow> nat \<times> milestone_table" where
  "milestone_expire now =
     update_row (\<lambda>m. ms_status m = MilestoneActive)
       (\<lambda>m. m\<lparr>ms_status := MilestoneExpired, ms_expires_at := Some now\<rparr>)"

definition cancel_pending :: "moment \<Rightarrow> ident \<Rightarrow> milestone_table \<Rightarrow> nat \<times> milestone_table" where
  "cancel_pending now escrow_id t =
     (let pending = (\<lambda>i m. ms_escrow_id m = escrow_id \<and> ms_status m = MilestonePending)
      in (rows_where pending t,
          update_where pending (\<lambda>m. m\<lparr>ms_status := MilestoneCancelled, ms_cancelled_at := Some now\<rparr>) t))"

definition get_pending_milestone_expiry :: "moment \<Rightarrow> milestone_table \<Rightarrow> (ident \<times> escrow_milestone) list" where
  "get_pending_milestone_expiry now t =
     select_where (\<lambda>m. (case ms_expires_at m of None \<Rightarrow> False | Some e \<Rightarrow> e \<le> now)
       \<and> ms_status m \<in> {MilestoneActive, MilestoneDelivered}) t"

section \<open>The transitions obey the contract\<close>

interpretation accept: guarded_transition "escrow_accept now h" "\<lambda>r. deal_status r = EscrowCreated"
    "\<lambda>r. r\<lparr>deal_status := EscrowAccepted, deal_accepted_at := Some now,
              deal_delivery_deadline := Some (now + hours h),
              deal_expires_at := Some (now + hours h)\<rparr>" for now h
  unfolding escrow_accept_def by (rule update_row_guarded) simp

interpretation deliver: guarded_transition "escrow_deliver now h" "\<lambda>r. deal_status r = EscrowAccepted"
    "\<lambda>r. r\<lparr>deal_status := EscrowDelivered, deal_delivered_at := Some now,
              deal_review_deadline := Some (now + hours h),
              deal_expires_at := Some (now + hours h)\<rparr>" for now h
  unfolding escrow_deliver_def by (rule update_row_guarded) simp

interpretation release: guarded_transition "escrow_release now x fee" "\<lambda>r. deal_status r = EscrowDelivered"
    "\<lambda>r. r\<lparr>deal_status := EscrowCompleted, deal_release_amount := Some x,
              deal_fee_amount := fee, deal_completed_at := Some now\<rparr>" for now x fee
  unfolding escrow_release_def by (rule update_row_guarded) simp

interpretation cancel: guarded_transition "escrow_cancel now" "\<lambda>r. deal_status r = EscrowCreated"
    "\<lambda>r. r\<lparr>deal_status := EscrowCancelled, deal_cancelled_at := Some now\<rparr>" for now
  unfolding escrow_cancel_def by (rule update_row_guarded) simp

interpretation expire: guarded_transition "escrow_expire now"
    "\<lambda>r. deal_status r = EscrowCreated \<or> deal_status r = EscrowAccepted"
    "\<lambda>r. r\<lparr>deal_status := EscrowExpired, deal_completed_at := Some now\<rparr>" for now
  unfolding escrow_expire_def by (rule update_row_guarded) simp

interpretation ms_activate: guarded_transition "milestone_activate now h"
    "\<lambda>m. ms_status m = MilestonePending"
    "\<lambda>m. m\<lparr>ms_status := MilestoneActive, ms_activated_at := Some now,
              ms_delivery_deadline := Some (now + hours h),
              ms_expires_at := Some (now + hours h)\<rparr>" for now h
  unfolding milestone_activate_def by (rule update_row_guarded) simp

interpretation ms_deliver: guarded_transition "milestone_deliver now h"
    "\<lambda>m. ms_status m = MilestoneActive"
    "\<lambda>m. m\<lparr>ms_status := MilestoneDelivered, ms_delivered_at := Some now,
              ms_review_deadline := Some (now + hours h),
              ms_expires_at := Some (now + hours h)\<rparr>" for now h
  unfolding milestone_deliver_def by (rule update_row_guarded) simp

interpretation ms_release: guarded_transition "milestone_release now x fee"
    "\<lambda>m. ms_status m = MilestoneDelivered"
    "\<lambda>m. m\<lparr>ms_status := MilestoneCompleted, ms_release_amount := Some x,
              ms_fee_amount := fee, ms_completed_at := Some now\<rparr>" for now x fee
  unfolding milestone_release_def by (rule update_row_guarded) simp

interpretation ms_expire: guarded_transition "milestone_expire now"
    "\<lambda>m. ms_status m = MilestoneActive"
    "\<lambda>m. m\<lparr>ms_status := MilestoneExpired, ms_expires_at := Some now\<rparr>" for now
  unfolding milestone_expire_def by (rule update_row_guarded) simp

end
