(* ===== verification/Escrow.thy ===== *)
theory Escrow
  imports Escrow_Repo
begin

text \<open>
  \<open>sthrip/services/escrow_service.py\<close>: the handlers of hub-held escrow, single deals and deals with
  milestones, and the resolution of expired ones. A handler either raises, and the session is rolled
  back, or returns the new state with the refreshed deal.
\<close>

section \<open>Helpers\<close>

definition DEFAULT_FEE_PERCENT :: decimal where
  "DEFAULT_FEE_PERCENT = 1 / 100"

definition compute_fee_percent :: "string \<Rightarrow> decimal" where
  "compute_fee_percent buyer_tier = DEFAULT_FEE_PERCENT"

text \<open>\<open>deal.fee_percent if deal.fee_percent else _DEFAULT_FEE_PERCENT\<close>: zero falls back.\<close>

definition fee_percent_of :: "escrow_deal \<Rightarrow> decimal" where
  "fee_percent_of r = (if deal_fee_percent r = 0 then DEFAULT_FEE_PERCENT else deal_fee_percent r)"

definition clamp_trust :: "int \<Rightarrow> int" where
  "clamp_trust n = (if n < 0 then 0 else if n > 100 then 100 else n)"

definition adjust_trust :: "moment \<Rightarrow> ident \<Rightarrow> int \<Rightarrow> db \<Rightarrow> db" where
  "adjust_trust now a delta d =
     (if delta = 0 then d
      else d\<lparr>reputations := update_where (\<lambda>k r. k = a)
             (\<lambda>r. r\<lparr>rep_trust_score := clamp_trust (rep_trust_score r + delta), rep_calculated_at := now\<rparr>)
             (reputations d)\<rparr>)"

definition apply_completion_trust :: "moment \<Rightarrow> ident \<Rightarrow> ident \<Rightarrow> decimal \<Rightarrow> decimal \<Rightarrow> db \<Rightarrow> db" where
  "apply_completion_trust now buyer_id seller_id release_amount escrow_amount d =
     (if escrow_amount \<le> 0 then d
      else if release_amount = escrow_amount
      then adjust_trust now buyer_id 1 (adjust_trust now seller_id 1 d)
      else if release_amount = 0 then adjust_trust now seller_id (- 2) d
      else if release_amount / escrow_amount > 1 / 2 then adjust_trust now seller_id 1 d
      else adjust_trust now seller_id (- 1) d)"

definition escrow_fee_row :: "moment \<Rightarrow> ident \<Rightarrow> token \<Rightarrow> decimal \<Rightarrow> fee_collection" where
  "escrow_fee_row now deal_id tok fee =
     \<lparr>fc_source_type = ''escrow'', fc_source_id = Some deal_id, fc_amount = fee, fc_token = tok,
      fc_status = FeePending, fc_collection_tx_hash = None, fc_withdrawn_at = None,
      fc_created_at = now, fc_payer_agent_id = None, fc_amount_piconero = None,
      fc_rate_applied_bps = None, fc_transaction_ref = None, fc_collected_at = None\<rparr>"

definition record_fee :: "moment \<Rightarrow> ident \<Rightarrow> token \<Rightarrow> decimal \<Rightarrow> db \<Rightarrow> db" where
  "record_fee now deal_id tok fee d =
     (if fee \<le> 0 then d
      else d\<lparr>fee_collections := add_row (escrow_fee_row now deal_id tok fee) (fee_collections d)\<rparr>)"

text \<open>\<open>if x > 0: credit(agent, x)\<close>.\<close>

definition credit_if_positive :: "moment \<Rightarrow> ident \<Rightarrow> decimal \<Rightarrow> token \<Rightarrow> db \<Rightarrow> db" where
  "credit_if_positive now a x tok d =
     (if x > 0 then d\<lparr>balances := credit now a x tok (balances d)\<rparr> else d)"

definition refetch :: "ident \<Rightarrow> db \<Rightarrow> (db \<times> escrow_deal) outcome" where
  "refetch deal_id d =
     (case row_of (escrow_deals d) deal_id of
        None \<Rightarrow> Inl (RuntimeError ''Escrow vanished after state transition'')
      | Some r \<Rightarrow> Inr (d, r))"

definition notify_both :: "ident \<Rightarrow> ident \<Rightarrow> string \<Rightarrow> db \<Rightarrow> db outcome" where
  "notify_both buyer_id seller_id event d =
     and_then (queue_webhook 3 [] buyer_id event d) (queue_webhook 3 [] seller_id event)"

abbreviation audit_kws :: "string list" where
  "audit_kws \<equiv> [''action'', ''agent_id'', ''resource_type'', ''resource_id'', ''db'']"

abbreviation audit_kws_details :: "string list" where
  "audit_kws_details \<equiv> [''action'', ''agent_id'', ''resource_type'', ''resource_id'', ''details'', ''db'']"

abbreviation audit_kws_system :: "string list" where
  "audit_kws_system \<equiv> [''action'', ''resource_type'', ''resource_id'', ''details'', ''db'']"

section \<open>Single deals\<close>

definition create_escrow ::
  "moment \<Rightarrow> ident \<Rightarrow> ident \<Rightarrow> decimal \<Rightarrow> int \<Rightarrow> int \<Rightarrow> int \<Rightarrow> string \<Rightarrow> milestone_input list option \<Rightarrow> db
    \<Rightarrow> (db \<times> ident) outcome"
where
  "create_escrow now buyer_id seller_id amount accept_h delivery_h review_h buyer_tier milestones d =
     (if buyer_id = seller_id then Inl (ValueError ''Buyer and seller must be different agents'')
      else if amount \<le> 0 then Inl (ValueError ''Amount must be positive'')
      else if (case milestones of None \<Rightarrow> False
               | Some mis \<Rightarrow> sum_list (map mi_amount mis) \<noteq> amount)
      then Inl (ValueError ''Sum of milestone amounts must equal deal amount'')
      else case row_of (agents d) seller_id of
        None \<Rightarrow> Inl (LookupError ''Seller not found'')
      | Some seller \<Rightarrow>
          if \<not> ag_is_active seller then Inl (ValueError ''Seller is not active'')
          else and_then (deduct now buyer_id amount ''XMR'' (balances d)) (\<lambda>t1.
            let fee_percent = compute_fee_percent buyer_tier;
                deal = escrow_create now buyer_id seller_id amount accept_h delivery_h review_h fee_percent;
                deal_id = new_id (escrow_deals d);
                d1 = d\<lparr>balances := t1, escrow_deals := add_row deal (escrow_deals d)\<rparr>;
                d2 = (case milestones of None \<Rightarrow> d1
                      | Some mis \<Rightarrow>
                          d1\<lparr>escrow_deals := modify_row deal_id
                               (\<lambda>r. r\<lparr>deal_is_multi_milestone := True,
                                      deal_milestone_count := int (length mis),
                                      deal_current_milestone := 1, deal_total_released := 0,
                                      deal_total_fees := 0\<rparr>) (escrow_deals d1),
                             escrow_milestones := create_milestones deal_id mis (escrow_milestones d1)\<rparr>)
            in and_then (log_event 0 audit_kws_details
                  (audit_of ''escrow.created'' (Some buyer_id) ''escrow'' deal_id) d2) (\<lambda>d3.
                 Inr (d3, deal_id))))"

definition accept_escrow :: "moment \<Rightarrow> ident \<Rightarrow> ident \<Rightarrow> db \<Rightarrow> (db \<times> escrow_deal) outcome" where
  "accept_escrow now escrow_id seller_id d =
     (case row_of (escrow_deals d) escrow_id of
        None \<Rightarrow> Inl (LookupError ''Escrow not found'')
      | Some deal \<Rightarrow>
          if deal_seller_id deal \<noteq> seller_id
          then Inl (PermissionError ''Only the seller can accept this escrow'')
          else if deal_status deal \<noteq> EscrowCreated then Inl (ValueError ''Cannot accept escrow'')
          else if (case deal_accept_deadline deal of None \<Rightarrow> False | Some t \<Rightarrow> now > t)
          then Inl (ValueError ''Accept deadline has passed'')
          else if (case row_of (agents d) seller_id of None \<Rightarrow> False | Some s \<Rightarrow> \<not> ag_is_active s)
          then Inl (ValueError ''Seller agent has been deactivated'')
          else
            let d1 = d\<lparr>escrow_deals :=
                  snd (escrow_accept now (deal_delivery_timeout_hours deal) escrow_id (escrow_deals d))\<rparr>;
                d2 = (if deal_is_multi_milestone deal
                      then case get_by_escrow_and_sequence escrow_id 1 (escrow_milestones d1) of
                          None \<Rightarrow> d1
                        | Some (mid, first_ms) \<Rightarrow>
                            if ms_status first_ms = MilestonePending
                            then d1\<lparr>escrow_milestones := snd (milestone_activate now
                                   (ms_delivery_timeout_hours first_ms) mid (escrow_milestones d1))\<rparr>
                            else d1
                      else d1)
            in and_then (log_event 0 audit_kws
                  (audit_of ''escrow.accepted'' (Some seller_id) ''escrow'' escrow_id) d2) (refetch escrow_id))"

definition deliver_escrow :: "moment \<Rightarrow> ident \<Rightarrow> ident \<Rightarrow> db \<Rightarrow> (db \<times> escrow_deal) outcome" where
  "deliver_escrow now escrow_id seller_id d =
     (case row_of (escrow_deals d) escrow_id of
        None \<Rightarrow> Inl (LookupError ''Escrow not found'')
      | Some deal \<Rightarrow>
          if deal_is_multi_milestone deal then Inl (ValueError ''Use /milestones/{n}/deliver'')
          else if deal_seller_id deal \<noteq> seller_id
          then Inl (PermissionError ''Only the seller can mark delivery'')
          else if deal_status deal \<noteq> EscrowAccepted then Inl (ValueError ''Cannot deliver escrow'')
          else
            let d1 = d\<lparr>escrow_deals :=
                  snd (escrow_deliver now (deal_review_timeout_hours deal) escrow_id (escrow_deals d))\<rparr>
            in and_then (log_event 0 audit_kws
                  (audit_of ''escrow.delivered'' (Some seller_id) ''escrow'' escrow_id) d1) (refetch escrow_id))"

definition release_escrow :: "moment \<Rightarrow> ident \<Rightarrow> ident \<Rightarrow> decimal \<Rightarrow> db \<Rightarrow> (db \<times> escrow_deal) outcome" where
  "release_escrow now escrow_id buyer_id release_amount d =
     (case row_of (escrow_deals d) escrow_id of
        None \<Rightarrow> Inl (LookupError ''Escrow not found'')
      | Some deal \<Rightarrow>
          if deal_is_multi_milestone deal then Inl (ValueError ''Use /milestones/{n}/release'')
          else if deal_buyer_id deal \<noteq> buyer_id
          then Inl (PermissionError ''Only the buyer can release escrow'')
          else if deal_status deal \<noteq> EscrowDelivered then Inl (ValueError ''Cannot release escrow'')
          else if release_amount < 0 \<or> release_amount > deal_amount deal
          then Inl (ValueError ''Release amount must be between 0 and the escrow amount'')
          else
            let escrow_amount = deal_amount deal;
                fee_amount = release_amount * fee_percent_of deal;
                seller_receives = release_amount - fee_amount;
                refund_amount = escrow_amount - release_amount;
                tok = token_or_xmr (deal_token deal);
                d1 = credit_if_positive now (deal_seller_id deal) seller_receives tok d;
                d2 = credit_if_positive now (deal_buyer_id deal) refund_amount tok d1;
                d3 = record_fee now escrow_id tok fee_amount d2;
                d4 = d3\<lparr>escrow_deals :=
                  snd (escrow_release now release_amount fee_amount escrow_id (escrow_deals d3))\<rparr>;
                d5 = apply_completion_trust now (deal_buyer_id deal) (deal_seller_id deal)
                  release_amount escrow_amount d4
            in and_then (log_event 0 audit_kws_details
                  (audit_of ''escrow.completed'' (Some buyer_id) ''escrow'' escrow_id) d5) (refetch escrow_id))"

definition cancel_escrow :: "moment \<Rightarrow> ident \<Rightarrow> ident \<Rightarrow> db \<Rightarrow> (db \<times> escrow_deal) outcome" where
  "cancel_escrow now escrow_id buyer_id d =
     (case row_of (escrow_deals d) escrow_id of
        None \<Rightarrow> Inl (LookupError ''Escrow not found'')
      | Some deal \<Rightarrow>
          if deal_buyer_id deal \<noteq> buyer_id
          then Inl (PermissionError ''Only the buyer can cancel this escrow'')
          else if deal_status deal \<noteq> EscrowCreated then Inl (ValueError ''Cannot cancel escrow'')
          else
            let d1 = d\<lparr>balances := credit now (deal_buyer_id deal) (deal_amount deal)
                       (token_or_xmr (deal_token deal)) (balances d)\<rparr>;
                d2 = d1\<lparr>escrow_deals := snd (escrow_cancel now escrow_id (escrow_deals d1))\<rparr>
            in and_then (log_event 0 audit_kws
                  (audit_of ''escrow.cancelled'' (Some buyer_id) ''escrow'' escrow_id) d2) (refetch escrow_id))"

definition get_escrow :: "ident \<Rightarrow> ident \<Rightarrow> db \<Rightarrow> escrow_deal outcome" where
  "get_escrow escrow_id a d =
     (case row_of (escrow_deals d) escrow_id of
        None \<Rightarrow> Inl (LookupError ''Escrow not found'')
      | Some deal \<Rightarrow>
          if deal_buyer_id deal \<noteq> a \<and> deal_seller_id deal \<noteq> a
          then Inl (LookupError ''Escrow not found'') else Inr deal)"

definition get_milestones :: "ident \<Rightarrow> ident \<Rightarrow> db \<Rightarrow> (ident \<times> escrow_milestone) list outcome" where
  "get_milestones escrow_id a d =
     (case row_of (escrow_deals d) escrow_id of
        None \<Rightarrow> Inl (LookupError ''Escrow not found'')
      | Some deal \<Rightarrow>
          if deal_buyer_id deal \<noteq> a \<and> deal_seller_id deal \<noteq> a
          then Inl (LookupError ''Escrow not found'')
          else if \<not> deal_is_multi_milestone deal
          then Inl (ValueError ''This escrow does not have milestones'')
          else Inr (get_by_escrow escrow_id (escrow_milestones d)))"

end
