(* ===== verification/Milestones.thy ===== *)
theory Milestones
  imports Escrow
begin

text \<open>
  The milestone handlers of \<open>sthrip/services/escrow_service.py\<close> and the resolution of expired deals
  and milestones (\<open>resolve_expired\<close> and the functions it calls).
\<close>

section \<open>Delivery and release of a milestone\<close>

definition deliver_milestone :: "moment \<Rightarrow> ident \<Rightarrow> int \<Rightarrow> ident \<Rightarrow> db \<Rightarrow> (db \<times> escrow_milestone) outcome" where
  "deliver_milestone now escrow_id seq seller_id d =
     (case row_of (escrow_deals d) escrow_id of
        None \<Rightarrow> Inl (LookupError ''Escrow not found'')
      | Some deal \<Rightarrow>
          if \<not> deal_is_multi_milestone deal then Inl (ValueError ''This escrow does not have milestones'')
          else if deal_seller_id deal \<noteq> seller_id
          then Inl (PermissionError ''Only the seller can deliver milestones'')
          else if deal_status deal \<noteq> EscrowAccepted then Inl (ValueError ''Cannot deliver milestone'')
          else case get_by_escrow_and_sequence escrow_id seq (escrow_milestones d) of
            None \<Rightarrow> Inl (LookupError ''Milestone not found'')
          | Some (mid, ms) \<Rightarrow>
              if ms_status ms \<noteq> MilestoneActive then Inl (ValueError ''Cannot deliver milestone'')
              else
                let (rows, t) = milestone_deliver now (ms_review_timeout_hours ms) mid (escrow_milestones d)
                in if rows = 0 then Inl (ValueError ''Milestone state transition failed'')
                   else and_then (log_event 0 audit_kws_details
                       (audit_of ''milestone.delivered'' (Some seller_id) ''escrow'' escrow_id)
                       (d\<lparr>escrow_milestones := t\<rparr>)) (\<lambda>d1.
                     case get_by_escrow_and_sequence escrow_id seq (escrow_milestones d1) of
                       None \<Rightarrow> Inl (TypeError ''NoneType'')
                     | Some (_, fresh) \<Rightarrow>
                         and_then (notify_both (deal_buyer_id deal) (deal_seller_id deal)
                             ''milestone.delivered'' d1) (\<lambda>d2. Inr (d2, fresh))))"

text \<open>How many milestones of the deal are completed, the one at hand included.\<close>

definition completed_count :: "ident \<Rightarrow> ident \<Rightarrow> milestone_table \<Rightarrow> nat" where
  "completed_count escrow_id mid t =
     length (filter (\<lambda>(i, m). ms_status m = MilestoneCompleted \<or> i = mid) (get_by_escrow escrow_id t))"

text \<open>The last step of a release, manual or automatic: complete the deal or activate the next milestone.\<close>

definition finish_deal :: "moment \<Rightarrow> ident \<Rightarrow> escrow_deal \<Rightarrow> decimal \<Rightarrow> decimal \<Rightarrow> db \<Rightarrow> db" where
  "finish_deal now escrow_id deal new_released new_fees d =
     (let d1 = d\<lparr>escrow_deals := modify_row escrow_id
            (\<lambda>r. r\<lparr>deal_status := EscrowCompleted, deal_total_released := new_released,
                   deal_total_fees := new_fees, deal_release_amount := Some new_released,
                   deal_fee_amount := new_fees, deal_completed_at := Some now\<rparr>) (escrow_deals d)\<rparr>;
          d2 = apply_completion_trust now (deal_buyer_id deal) (deal_seller_id deal) new_released
            (deal_amount deal) d1
      in d2\<lparr>escrow_milestones := snd (cancel_pending now escrow_id (escrow_milestones d2))\<rparr>)"

definition next_milestone :: "moment \<Rightarrow> ident \<Rightarrow> int \<Rightarrow> decimal \<Rightarrow> decimal \<Rightarrow> db \<Rightarrow> db" where
  "next_milestone now escrow_id next_seq new_released new_fees d =
     (let d1 = d\<lparr>escrow_deals := modify_row escrow_id
            (\<lambda>r. r\<lparr>deal_total_released := new_released, deal_total_fees := new_fees,
                   deal_current_milestone := next_seq\<rparr>) (escrow_deals d)\<rparr>
      in case get_by_escrow_and_sequence escrow_id next_seq (escrow_milestones d1) of
           None \<Rightarrow> d1
         | Some (nid, next_ms) \<Rightarrow>
             if ms_status next_ms = MilestonePending
             then d1\<lparr>escrow_milestones := snd (milestone_activate now
                    (ms_delivery_timeout_hours next_ms) nid (escrow_milestones d1))\<rparr>
             else d1)"

definition release_milestone ::
  "moment \<Rightarrow> ident \<Rightarrow> int \<Rightarrow> ident \<Rightarrow> decimal \<Rightarrow> db \<Rightarrow> (db \<times> escrow_deal) outcome"
where
  "release_milestone now escrow_id seq buyer_id release_amount d =
     (case row_of (escrow_deals d) escrow_id of
        None \<Rightarrow> Inl (LookupError ''Escrow not found'')
      | Some deal \<Rightarrow>
          if \<not> deal_is_multi_milestone deal then Inl (ValueError ''This escrow does not have milestones'')
          else if deal_buyer_id deal \<noteq> buyer_id
          then Inl (PermissionError ''Only the buyer can release milestones'')
          else if deal_status deal \<noteq> EscrowAccepted then Inl (ValueError ''Cannot release milestone'')
          else case get_by_escrow_and_sequence escrow_id seq (escrow_milestones d) of
            None \<Rightarrow> Inl (LookupError ''Milestone not found'')
          | Some (mid, ms) \<Rightarrow>
              if ms_status ms \<noteq> MilestoneDelivered then Inl (ValueError ''Cannot release milestone'')
              else if release_amount < 0 \<or> release_amount > ms_amount ms
              then Inl (ValueError ''Release amount must be between 0 and the milestone amount'')
              else
                let fee_amount = release_amount * fee_percent_of deal;
                    seller_receives = release_amount - fee_amount;
                    refund_amount = ms_amount ms - release_amount;
                    tok = token_or_xmr (deal_token deal);
                    d1 = credit_if_positive now (deal_seller_id deal) seller_receives tok d;
                    d2 = credit_if_positive now (deal_buyer_id deal) refund_amount tok d1;
                    d3 = record_fee now escrow_id tok fee_amount d2;
                    (rows, t) = milestone_release now release_amount fee_amount mid (escrow_milestones d3)
                in if rows = 0 then Inl (ValueError ''Milestone state transition failed'')
                   else
                     let d4 = d3\<lparr>escrow_milestones := t\<rparr>;
                         new_released = deal_total_released deal + release_amount;
                         new_fees = deal_total_fees deal + fee_amount;
                         is_last = deal_milestone_count deal \<le> int (completed_count escrow_id mid (escrow_milestones d4));
                         d5 = (if is_last then finish_deal now escrow_id deal new_released new_fees d4
                               else next_milestone now escrow_id (seq + 1) new_released new_fees d4)
                     in and_then (log_event 0 audit_kws_details
                           (audit_of ''milestone.released'' (Some buyer_id) ''escrow'' escrow_id) d5) (\<lambda>d6.
                        and_then (refetch escrow_id d6) (\<lambda>(d7, fresh).
                        and_then (notify_both (deal_buyer_id deal) (deal_seller_id deal)
                            (if is_last then ''escrow.completed'' else ''milestone.released'') d7) (\<lambda>d8.
                          Inr (d8, fresh)))))"

section \<open>Expired deals\<close>

definition expire_not_accepted :: "moment \<Rightarrow> ident \<Rightarrow> escrow_deal \<Rightarrow> db \<Rightarrow> (db \<times> bool) outcome" where
  "expire_not_accepted now deal_id deal d =
     (let (rows, t) = escrow_expire now deal_id (escrow_deals d)
      in if rows = 0 then Inr (d\<lparr>escrow_deals := t\<rparr>, False)
         else
           let d1 = d\<lparr>escrow_deals := t\<rparr>;
               d2 = d1\<lparr>balances := credit now (deal_buyer_id deal) (deal_amount deal)
                          (token_or_xmr (deal_token deal)) (balances d1)\<rparr>
           in and_then (refetch deal_id d2) (\<lambda>(d3, _).
              and_then (notify_both (deal_buyer_id deal) (deal_seller_id deal) ''escrow.expired'' d3) (\<lambda>d4.
              and_then (log_event 0 audit_kws_system (audit_of ''escrow.expired'' None ''escrow'' deal_id) d4) (\<lambda>d5.
                Inr (d5, True)))))"

definition expire_not_delivered :: "moment \<Rightarrow> ident \<Rightarrow> escrow_deal \<Rightarrow> db \<Rightarrow> (db \<times> bool) outcome" where
  "expire_not_delivered now deal_id deal d =
     (let (rows, t) = escrow_expire now deal_id (escrow_deals d)
      in if rows = 0 then Inr (d\<lparr>escrow_deals := t\<rparr>, False)
         else
           let d1 = d\<lparr>escrow_deals := t\<rparr>;
               d2 = d1\<lparr>balances := credit now (deal_buyer_id deal) (deal_amount deal)
                          (token_or_xmr (deal_token deal)) (balances d1)\<rparr>;
               d3 = adjust_trust now (deal_seller_id deal) (- 3) d2
           in and_then (refetch deal_id d3) (\<lambda>(d4, _).
              and_then (notify_both (deal_buyer_id deal) (deal_seller_id deal) ''escrow.expired'' d4) (\<lambda>d5.
              and_then (log_event 0 audit_kws_system (audit_of ''escrow.expired'' None ''escrow'' deal_id) d5) (\<lambda>d6.
                Inr (d6, True)))))"

definition auto_release_full :: "moment \<Rightarrow> ident \<Rightarrow> escrow_deal \<Rightarrow> db \<Rightarrow> (db \<times> bool) outcome" where
  "auto_release_full now deal_id deal d =
     (let amount = deal_amount deal;
          fee_amount = amount * fee_percent_of deal;
          seller_receives = amount - fee_amount;
          tok = token_or_xmr (deal_token deal);
          (rows, t) = escrow_release now amount fee_amount deal_id (escrow_deals d)
      in if rows = 0 then Inr (d\<lparr>escrow_deals := t\<rparr>, False)
         else
           let d1 = credit_if_positive now (deal_seller_id deal) seller_receives tok (d\<lparr>escrow_deals := t\<rparr>);
               d2 = record_fee now deal_id tok fee_amount d1;
               d3 = apply_completion_trust now (deal_buyer_id deal) (deal_seller_id deal) amount amount d2
           in and_then (refetch deal_id d3) (\<lambda>(d4, _).
              and_then (notify_both (deal_buyer_id deal) (deal_seller_id deal) ''escrow.completed'' d4) (\<lambda>d5.
              and_then (log_event 0 audit_kws_system (audit_of ''escrow.auto_released'' None ''escrow'' deal_id) d5) (\<lambda>d6.
                Inr (d6, True)))))"

definition resolve_single :: "moment \<Rightarrow> ident \<Rightarrow> db \<Rightarrow> (db \<times> bool) outcome" where
  "resolve_single now deal_id d =
     (case row_of (escrow_deals d) deal_id of
        None \<Rightarrow> Inr (d, False)
      | Some locked \<Rightarrow>
          if deal_status locked = EscrowCreated then expire_not_accepted now deal_id locked d
          else if deal_status locked = EscrowAccepted then expire_not_delivered now deal_id locked d
          else if deal_status locked = EscrowDelivered then auto_release_full now deal_id locked d
          else Inr (d, False))"

section \<open>Expired milestones\<close>

definition expire_active_milestone ::
  "moment \<Rightarrow> ident \<Rightarrow> escrow_deal \<Rightarrow> ident \<Rightarrow> escrow_milestone \<Rightarrow> db \<Rightarrow> (db \<times> bool) outcome"
where
  "expire_active_milestone now deal_id deal mid ms d =
     (let (rows, t) = milestone_expire now mid (escrow_milestones d)
      in if rows = 0 then Inr (d\<lparr>escrow_milestones := t\<rparr>, False)
         else
           let d1 = d\<lparr>escrow_milestones := snd (cancel_pending now deal_id t)\<rparr>;
               remaining = deal_amount deal - deal_total_released deal - deal_total_fees deal;
               d2 = credit_if_positive now (deal_buyer_id deal) remaining (token_or_xmr (deal_token deal)) d1;
               end_status = (if ms_sequence ms = 1 then EscrowExpired else EscrowPartiallyCompleted);
               d3 = d2\<lparr>escrow_deals := modify_row deal_id
                     (\<lambda>r. r\<lparr>deal_status := end_status, deal_completed_at := Some now\<rparr>) (escrow_deals d2)\<rparr>;
               d4 = adjust_trust now (deal_seller_id deal) (- 3) d3
           in and_then (refetch deal_id d4) (\<lambda>(d5, _).
              and_then (notify_both (deal_buyer_id deal) (deal_seller_id deal) ''escrow.expired'' d5) (\<lambda>d6.
              and_then (log_event 0 audit_kws_system (audit_of ''milestone.expired'' None ''escrow'' deal_id) d6) (\<lambda>d7.
                Inr (d7, True)))))"

definition auto_release_milestone ::
  "moment \<Rightarrow> ident \<Rightarrow> escrow_deal \<Rightarrow> ident \<Rightarrow> escrow_milestone \<Rightarrow> db \<Rightarrow> (db \<times> bool) outcome"
where
  "auto_release_milestone now deal_id deal mid ms d =
     (let amount = ms_amount ms;
          fee_amount = amount * fee_percent_of deal;
          seller_receives = amount - fee_amount;
          tok = token_or_xmr (deal_token deal);
          (rows, t) = milestone_release now amount fee_amount mid (escrow_milestones d)
      in if rows = 0 then Inr (d\<lparr>escrow_milestones := t\<rparr>, False)
         else
           let d1 = credit_if_positive now (deal_seller_id deal) seller_receives tok (d\<lparr>escrow_milestones := t\<rparr>);
               d2 = record_fee now deal_id tok fee_amount d1;
               new_released = deal_total_released deal + amount;
               new_fees = deal_total_fees deal + fee_amount;
               is_last = deal_milestone_count deal \<le> int (completed_count deal_id mid (escrow_milestones d2));
               d3 = (if is_last then finish_deal now deal_id deal new_released new_fees d2
                     else next_milestone now deal_id (ms_sequence ms + 1) new_released new_fees d2)
           in and_then (refetch deal_id d3) (\<lambda>(d4, _).
              and_then (notify_both (deal_buyer_id deal) (deal_seller_id deal)
                  (if is_last then ''escrow.completed'' else ''milestone.auto_released'') d4) (\<lambda>d5.
              and_then (log_event 0 audit_kws_system
                  (audit_of ''milestone.auto_released'' None ''escrow'' deal_id) d5) (\<lambda>d6.
                Inr (d6, True)))))"

definition resolve_milestone_expiry :: "moment \<Rightarrow> escrow_milestone \<Rightarrow> db \<Rightarrow> (db \<times> bool) outcome" where
  "resolve_milestone_expiry now ms d =
     (case row_of (escrow_deals d) (ms_escrow_id ms) of
        None \<Rightarrow> Inr (d, False)
      | Some deal \<Rightarrow>
          if deal_status deal \<noteq> EscrowAccepted then Inr (d, False)
          else case get_by_escrow_and_sequence (ms_escrow_id ms) (ms_sequence ms) (escrow_milestones d) of
            None \<Rightarrow> Inr (d, False)
          | Some (mid, locked_ms) \<Rightarrow>
              if ms_status locked_ms = MilestoneActive
              then expire_active_milestone now (ms_escrow_id ms) deal mid locked_ms d
              else if ms_status locked_ms = MilestoneDelivered
              then auto_release_milestone now (ms_escrow_id ms) deal mid locked_ms d
              else Inr (d, False))"

text \<open>
  The sweep: deals first, then milestones, each list read before its loop. An exception is logged
  and the loop goes on; no step raises (\<open>resolve_single_returns\<close> and
  \<open>resolve_milestone_returns\<close> in the theory of the invariants).
\<close>

fun sweep :: "('a \<Rightarrow> db \<Rightarrow> (db \<times> bool) outcome) \<Rightarrow> 'a list \<Rightarrow> db \<times> nat \<Rightarrow> db \<times> nat" where
  "sweep step [] s = s"
| "sweep step (x # xs) (d, n) =
     sweep step xs (case step x d of Inl e \<Rightarrow> (d, n) | Inr (d', done) \<Rightarrow> (d', if done then n + 1 else n))"

definition resolve_expired :: "moment \<Rightarrow> db \<Rightarrow> db \<times> nat" where
  "resolve_expired now d =
     (let (d1, n1) = sweep (\<lambda>(k, deal). resolve_single now k) (get_pending_expiry now (escrow_deals d)) (d, 0)
      in sweep (\<lambda>(i, ms). resolve_milestone_expiry now ms)
           (get_pending_milestone_expiry now (escrow_milestones d1)) (d1, n1))"

end
