(* ===== verification/Escrow_Custody.thy ===== *)
theory Escrow_Custody
  imports Milestones
begin

text \<open>
  What the hub holds for its escrows. \<open>custody\<close> is the part of a deal's amount that has been taken
  from the buyer and not yet been paid out; \<open>escrow_wealth\<close> adds the agents' balances, the custody
  of all deals and the recorded fees. The lemmas follow each handler through these quantities and
  through the well-formedness of deals and milestones (\<open>escrow_ok\<close>).
\<close>

section \<open>Effect of the helpers on the tables\<close>

named_theorems escrow_frame \<open>tables the helpers of the escrow service leave alone or change\<close>

lemma log_event_audit [escrow_frame]:
  "log_event 0 audit_kws e d = Inr (d\<lparr>audit_log := audit_log d @ [e]\<rparr>)"
  "log_event 0 audit_kws_details e d = Inr (d\<lparr>audit_log := audit_log d @ [e]\<rparr>)"
  "log_event 0 audit_kws_system e d = Inr (d\<lparr>audit_log := audit_log d @ [e]\<rparr>)"
  by (simp_all add: log_event_def py_bind_def log_event_params_def)

lemma notify_both_Inr [escrow_frame]:
  "notify_both b s ev d = Inr (d\<lparr>webhook_events := webhook_events d @
     [\<lparr>wh_agent_id = b, wh_event_type = ev\<rparr>, \<lparr>wh_agent_id = s, wh_event_type = ev\<rparr>]\<rparr>)"
  by (simp add: notify_both_def queue_webhook_binds)

lemma adjust_trust_frame [escrow_frame]:
  "balances (adjust_trust now a x d) = balances d"
  "escrow_deals (adjust_trust now a x d) = escrow_deals d"
  "escrow_milestones (adjust_trust now a x d) = escrow_milestones d"
  "fee_collections (adjust_trust now a x d) = fee_collections d"
  by (simp_all add: adjust_trust_def)

lemma completion_trust_frame [escrow_frame]:
  "balances (apply_completion_trust now b s x y d) = balances d"
  "escrow_deals (apply_completion_trust now b s x y d) = escrow_deals d"
  "escrow_milestones (apply_completion_trust now b s x y d) = escrow_milestones d"
  "fee_collections (apply_completion_trust now b s x y d) = fee_collections d"
  by (simp_all add: apply_completion_trust_def escrow_frame)

lemma record_fee_frame [escrow_frame]:
  "balances (record_fee now k tok x d) = balances d"
  "escrow_deals (record_fee now k tok x d) = escrow_deals d"
  "escrow_milestones (record_fee now k tok x d) = escrow_milestones d"
  by (simp_all add: record_fee_def)

lemma credit_if_positive_frame [escrow_frame]:
  "escrow_deals (credit_if_positive now a x tok d) = escrow_deals d"
  "escrow_milestones (credit_if_positive now a x tok d) = escrow_milestones d"
  "fee_collections (credit_if_positive now a x tok d) = fee_collections d"
  by (simp_all add: credit_if_positive_def)

section \<open>Money\<close>

definition fee_total :: "token \<Rightarrow> (ident, fee_collection) table \<Rightarrow> decimal" where
  "fee_total tok t = table_sum (\<lambda>k f. if fc_token f = tok then fc_amount f else 0) t"

lemma fee_total_record [escrow_frame]:
  "fee_total u (fee_collections (record_fee now k tok x d)) =
     fee_total u (fee_collections d) + (if tok = u then max x 0 else 0)"
  by (simp add: record_fee_def fee_total_def table_sum_add_row escrow_fee_row_def)

lemma credit_if_positive_balances [escrow_frame]:
  assumes "table_ok (balances d)"
  shows "table_ok (balances (credit_if_positive now a x tok d))"
    and "token_total u (balances (credit_if_positive now a x tok d)) =
      token_total u (balances d) + (if u = tok then max x 0 else 0)"
  using assms by (simp_all add: credit_if_positive_def bank.total_pay_in)

lemma credit_if_positive_available [escrow_frame]:
  "available_of b u (balances (credit_if_positive now a x tok d)) =
     available_of b u (balances d) + (if b = a \<and> u = tok then max x 0 else 0)"
  by (simp add: credit_if_positive_def available_credit)

section \<open>Milestones of a deal\<close>

definition ms_all :: "ident \<Rightarrow> milestone_table \<Rightarrow> decimal" where
  "ms_all k t = table_sum (\<lambda>i m. if ms_escrow_id m = k then ms_amount m else 0) t"

definition ms_open :: "ident \<Rightarrow> milestone_table \<Rightarrow> decimal" where
  "ms_open k t =
     table_sum (\<lambda>i m. if ms_escrow_id m = k \<and> ms_status m \<noteq> MilestoneCompleted then ms_amount m else 0) t"

definition ms_count :: "ident \<Rightarrow> milestone_table \<Rightarrow> nat" where
  "ms_count k t = rows_where (\<lambda>i m. ms_escrow_id m = k) t"

text \<open>A change to the milestones of one deal that keeps their terms.\<close>

definition ms_kept :: "ident \<Rightarrow> ident \<times> escrow_milestone \<Rightarrow> ident \<times> escrow_milestone \<Rightarrow> bool" where
  "ms_kept k p p' \<longleftrightarrow> fst p' = fst p \<and> ms_escrow_id (snd p') = ms_escrow_id (snd p)
     \<and> ms_sequence (snd p') = ms_sequence (snd p) \<and> ms_amount (snd p') = ms_amount (snd p)
     \<and> (ms_escrow_id (snd p) \<noteq> k \<longrightarrow> snd p' = snd p)"

definition ms_step :: "ident \<Rightarrow> milestone_table \<Rightarrow> milestone_table \<Rightarrow> bool" where
  "ms_step k t t' \<longleftrightarrow> list_all2 (ms_kept k) t t'"

lemma ms_step_refl: "ms_step k t t"
  by (simp add: ms_step_def ms_kept_def list_all2_same)

lemma ms_kept_trans: "ms_kept k p q \<Longrightarrow> ms_kept k q r \<Longrightarrow> ms_kept k p r"
  by (auto simp: ms_kept_def)

lemma ms_step_trans: "ms_step k t t' \<Longrightarrow> ms_step k t' t'' \<Longrightarrow> ms_step k t t''"
  unfolding ms_step_def by (rule list_all2_trans [OF ms_kept_trans])

lemma ms_step_update_where:
  assumes "\<And>i m. (i, m) \<in> set t \<Longrightarrow> P i m \<Longrightarrow> ms_escrow_id m = k"
    and "\<And>m. ms_escrow_id (f m) = ms_escrow_id m \<and> ms_sequence (f m) = ms_sequence m
      \<and> ms_amount (f m) = ms_amount m"
  shows "ms_step k t (update_where P f t)"
  using assms(1)
proof (induction t)
  case Nil
  then show ?case by (simp add: ms_step_def update_where_def)
next
  case (Cons p t)
  obtain i m where p: "p = (i, m)" by (cases p)
  have "ms_step k t (update_where P f t)"
    by (rule Cons.IH) (use Cons.prems in auto)
  moreover have "P i m \<Longrightarrow> ms_escrow_id m = k" using Cons.prems [of i m] by (simp add: p)
  ultimately show ?case
    using assms(2) [of m] by (auto simp: ms_step_def update_where_def p ms_kept_def)
qed

lemma ms_step_facts:
  assumes "ms_step k t t'"
  shows "ms_all x t' = ms_all x t" and "ms_count x t' = ms_count x t" and "keys_of t' = keys_of t"
    and "x \<noteq> k \<Longrightarrow> ms_open x t' = ms_open x t"
  using assms unfolding ms_step_def
proof (induction rule: list_all2_induct)
  case Nil
  {
    case 1 then show ?case by simp
  next
    case 2 then show ?case by simp
  next
    case 3 then show ?case by simp
  next
    case 4 then show ?case by simp
  }
next
  case (Cons p t q t')
  {
    case 1 then show ?case using Cons by (cases p; cases q) (auto simp: ms_all_def ms_kept_def)
  next
    case 2 then show ?case using Cons by (cases p; cases q) (auto simp: ms_count_def rows_where_def ms_kept_def)
  next
    case 3 then show ?case using Cons by (cases p; cases q) (auto simp: keys_of_def ms_kept_def)
  next
    case 4 then show ?case using Cons by (cases p; cases q) (auto simp: ms_open_def ms_kept_def)
  }
qed

lemma ms_step_ok: "ms_step k t t' \<Longrightarrow> table_ok t' = table_ok t"
  by (simp add: table_ok_def ms_step_facts(3))

lemma ms_step_member:
  "ms_step k t t' \<Longrightarrow> (i, m') \<in> set t' \<Longrightarrow>
     \<exists>m. (i, m) \<in> set t \<and> ms_escrow_id m' = ms_escrow_id m \<and> ms_amount m' = ms_amount m
       \<and> (ms_escrow_id m \<noteq> k \<longrightarrow> m' = m)"
  unfolding ms_step_def
proof (induction rule: list_all2_induct)
  case Nil
  then show ?case by simp
next
  case (Cons p t q t')
  then show ?case by (cases p; cases q) (fastforce simp: ms_kept_def)
qed

lemma update_row_eq_step: "row_step i m m' t (modify_row i (\<lambda>_. m') t) \<longleftrightarrow> table_ok t \<and> row_of t i = Some m"
  by (simp add: row_step_def)

lemma ms_step_row:
  assumes "row_step i m m' t t'" and "ms_escrow_id m = k" and "ms_kept k (i, m) (i, m')"
  shows "ms_step k t t'"
proof -
  have t': "t' = modify_row i (\<lambda>x. if x = m then m' else x) t"
    using assms(1) modify_row_cong [of t i m "\<lambda>_. m'" "\<lambda>x. if x = m then m' else x"]
    by (simp add: row_step_def)
  have "x = m" if "(i, x) \<in> set t" for x
    using that assms(1) mem_row_of [of t i x] by (simp add: row_step_def)
  then show ?thesis
    unfolding t' modify_row_def
    using assms(2,3) by (intro ms_step_update_where) (auto simp: ms_kept_def)
qed

lemma ms_open_row:
  assumes "row_step i m m' t t'" and "ms_escrow_id m' = ms_escrow_id m" and "ms_amount m' = ms_amount m"
  shows "ms_open x t' = ms_open x t
    + (if ms_escrow_id m = x \<and> ms_status m = MilestoneCompleted then ms_amount m else 0)
    - (if ms_escrow_id m = x \<and> ms_status m' = MilestoneCompleted then ms_amount m else 0)"
  unfolding ms_open_def using assms by (subst row_step_sum [OF assms(1)]) auto

lemma ms_open_cancel_pending: "ms_open x (snd (cancel_pending now k t)) = ms_open x t"
proof (induction t)
  case Nil
  then show ?case by (simp add: cancel_pending_def update_where_def)
next
  case (Cons p t)
  then show ?case
    by (cases p) (auto simp: cancel_pending_def update_where_def ms_open_def Let_def)
qed

lemma ms_step_cancel_pending: "ms_step k t (snd (cancel_pending now k t))"
  by (simp add: cancel_pending_def Let_def) (rule ms_step_update_where, auto)

section \<open>Custody and well-formedness\<close>

definition deal_live :: "escrow_deal \<Rightarrow> bool" where
  "deal_live r \<longleftrightarrow> deal_status r \<in> {EscrowCreated, EscrowAccepted, EscrowDelivered}"

definition custody :: "milestone_table \<Rightarrow> ident \<Rightarrow> escrow_deal \<Rightarrow> decimal" where
  "custody ms k r =
     (if \<not> deal_live r then 0 else if deal_is_multi_milestone r then ms_open k ms else deal_amount r)"

definition custody_in :: "token \<Rightarrow> milestone_table \<Rightarrow> ident \<Rightarrow> escrow_deal \<Rightarrow> decimal" where
  "custody_in tok ms k r = (if token_or_xmr (deal_token r) = tok then custody ms k r else 0)"

definition escrow_custody :: "token \<Rightarrow> db \<Rightarrow> decimal" where
  "escrow_custody tok d = table_sum (custody_in tok (escrow_milestones d)) (escrow_deals d)"

definition escrow_wealth :: "token \<Rightarrow> db \<Rightarrow> decimal" where
  "escrow_wealth tok d =
     token_total tok (balances d) + escrow_custody tok d + fee_total tok (fee_collections d)"

text \<open>The terms of a deal with milestones: their number and sum, none touched before acceptance.\<close>

definition deal_ok :: "milestone_table \<Rightarrow> ident \<Rightarrow> escrow_deal \<Rightarrow> bool" where
  "deal_ok ms k r \<longleftrightarrow> 0 \<le> deal_fee_percent r \<and> deal_fee_percent r \<le> 1 \<and> 0 < deal_amount r
     \<and> (\<forall>(i, m) \<in> set ms. ms_escrow_id m = k \<longrightarrow> 0 \<le> ms_amount m)
     \<and> (\<not> deal_is_multi_milestone r \<longrightarrow> ms_count k ms = 0)
     \<and> (deal_is_multi_milestone r \<longrightarrow>
     deal_status r \<noteq> EscrowDelivered
     \<and> deal_milestone_count r = int (ms_count k ms) \<and> deal_amount r = ms_all k ms
     \<and> (deal_status r = EscrowCreated \<longrightarrow>
          (\<forall>(i, m) \<in> set ms. ms_escrow_id m = k \<longrightarrow> ms_status m = MilestonePending)))"

definition escrow_ok :: "db \<Rightarrow> bool" where
  "escrow_ok d \<longleftrightarrow> table_ok (balances d) \<and> table_ok (escrow_deals d) \<and> table_ok (escrow_milestones d)
     \<and> (\<forall>(i, m) \<in> set (escrow_milestones d). row_of (escrow_deals d) (ms_escrow_id m) \<noteq> None)
     \<and> (\<forall>k r. row_of (escrow_deals d) k = Some r \<longrightarrow> deal_ok (escrow_milestones d) k r)"

lemma escrow_okD:
  assumes "escrow_ok d"
  shows "table_ok (balances d)" and "table_ok (escrow_deals d)" and "table_ok (escrow_milestones d)"
    and "row_of (escrow_deals d) k = Some r \<Longrightarrow> deal_ok (escrow_milestones d) k r"
  using assms by (simp_all add: escrow_ok_def)

lemma deal_ok_cong:
  "deal_ok ms k r \<Longrightarrow> \<forall>(i, m) \<in> set ms'. ms_escrow_id m = k \<longrightarrow> (i, m) \<in> set ms \<Longrightarrow>
     ms_all k ms' = ms_all k ms \<Longrightarrow> ms_count k ms' = ms_count k ms \<Longrightarrow> deal_ok ms' k r"
  by (fastforce simp: deal_ok_def)

text \<open>One deal and its milestones change; everything else of the escrow tables stays.\<close>

definition deal_step :: "ident \<Rightarrow> escrow_deal \<Rightarrow> escrow_deal \<Rightarrow> db \<Rightarrow> db \<Rightarrow> bool" where
  "deal_step k r r' d d' \<longleftrightarrow>
     row_step k r r' (escrow_deals d) (escrow_deals d')
     \<and> ms_step k (escrow_milestones d) (escrow_milestones d')
     \<and> table_ok (balances d')
     \<and> deal_amount r' = deal_amount r \<and> deal_token r' = deal_token r
     \<and> deal_fee_percent r' = deal_fee_percent r
     \<and> deal_buyer_id r' = deal_buyer_id r \<and> deal_seller_id r' = deal_seller_id r
     \<and> deal_is_multi_milestone r' = deal_is_multi_milestone r
     \<and> deal_milestone_count r' = deal_milestone_count r
     \<and> deal_status r' \<noteq> EscrowCreated
     \<and> (deal_status r' = deal_status r \<longrightarrow> deal_expires_at r' = deal_expires_at r)
     \<and> (deal_is_multi_milestone r \<longrightarrow> deal_status r' \<noteq> EscrowDelivered)"

lemma deal_step_custody:
  assumes "deal_step k r r' d d'"
  shows "escrow_custody tok d' = escrow_custody tok d
    + (if token_or_xmr (deal_token r) = tok
       then custody (escrow_milestones d') k r' - custody (escrow_milestones d) k r else 0)"
proof -
  have row: "row_step k r r' (escrow_deals d) (escrow_deals d')"
    and ms: "ms_step k (escrow_milestones d) (escrow_milestones d')"
    and tok: "deal_token r' = deal_token r"
    using assms by (simp_all add: deal_step_def)
  have "custody_in tok (escrow_milestones d') x v = custody_in tok (escrow_milestones d) x v" if "x \<noteq> k" for x v
    using ms_step_facts(4) [OF ms that] by (simp add: custody_in_def custody_def)
  from row_step_sum [OF row, of "custody_in tok (escrow_milestones d')" "custody_in tok (escrow_milestones d)", OF this]
  show ?thesis
    by (simp add: escrow_custody_def custody_in_def tok)
qed

lemma deal_step_ok:
  assumes "deal_step k r r' d d'" and "escrow_ok d"
  shows "escrow_ok d'"
proof -
  have row: "row_step k r r' (escrow_deals d) (escrow_deals d')"
    and ms: "ms_step k (escrow_milestones d) (escrow_milestones d')"
    using assms by (simp_all add: deal_step_def)
  have rk: "row_of (escrow_deals d) k = Some r" using row by (simp add: row_step_def)
  have "row_of (escrow_deals d') (ms_escrow_id m) \<noteq> None" if mem: "(i, m) \<in> set (escrow_milestones d')" for i m
  proof -
    obtain m0 where "(i, m0) \<in> set (escrow_milestones d)" and "ms_escrow_id m = ms_escrow_id m0"
      using ms_step_member [OF ms mem] by blast
    then show ?thesis
      using assms(2) by (auto simp: escrow_ok_def row_step_row_of [OF row])
  qed
  moreover have "deal_ok (escrow_milestones d') x v" if v: "row_of (escrow_deals d') x = Some v" for x v
  proof (cases "x = k")
    case True
    with v have "v = r'" by (simp add: row_step_row_of [OF row])
    moreover have "0 \<le> ms_amount m" if mem: "(i, m) \<in> set (escrow_milestones d')" and k: "ms_escrow_id m = k" for i m
    proof -
      obtain m0 where "(i, m0) \<in> set (escrow_milestones d)" "ms_escrow_id m = ms_escrow_id m0"
        "ms_amount m = ms_amount m0"
        using ms_step_member [OF ms mem] by blast
      then show ?thesis
        using escrow_okD(4) [OF assms(2) rk] k by (auto simp: deal_ok_def)
    qed
    ultimately show ?thesis
      using True escrow_okD(4) [OF assms(2) rk] assms(1)
      by (auto simp: deal_ok_def deal_step_def ms_step_facts(1,2) [OF ms])
  next
    case False
    with v have old: "deal_ok (escrow_milestones d) x v"
      using escrow_okD(4) [OF assms(2)] by (simp add: row_step_row_of [OF row])
    have "(i, m) \<in> set (escrow_milestones d)"
      if mem: "(i, m) \<in> set (escrow_milestones d')" and x: "ms_escrow_id m = x" for i m
    proof -
      obtain m0 where "(i, m0) \<in> set (escrow_milestones d)" "ms_escrow_id m = ms_escrow_id m0"
        "ms_escrow_id m0 \<noteq> k \<longrightarrow> m = m0"
        using ms_step_member [OF ms mem] by blast
      then show ?thesis using x False by auto
    qed
    then have "\<forall>(i, m) \<in> set (escrow_milestones d'). ms_escrow_id m = x \<longrightarrow> (i, m) \<in> set (escrow_milestones d)"
      by blast
    then show ?thesis
      by (rule deal_ok_cong [OF old]) (simp_all add: ms_step_facts(1,2) [OF ms])
  qed
  ultimately show ?thesis
    using assms row_step_ok [OF row] ms_step_ok [OF ms]
    by (auto simp: escrow_ok_def deal_step_def split_def)
qed

lemma deal_step_wealth:
  assumes "deal_step k r r' d d'"
    and "token_total u (balances d') = token_total u (balances d) + (if u = token_or_xmr (deal_token r) then b else 0)"
    and "fee_total u (fee_collections d') = fee_total u (fee_collections d) + (if u = token_or_xmr (deal_token r) then f else 0)"
  shows "escrow_wealth u d' = escrow_wealth u d + (if u = token_or_xmr (deal_token r)
    then b + f + custody (escrow_milestones d') k r' - custody (escrow_milestones d) k r else 0)"
  using assms by (auto simp: escrow_wealth_def deal_step_custody)

text \<open>Before acceptance the whole amount is in custody.\<close>

lemma ms_open_pending:
  assumes "\<forall>(i, m) \<in> set t. ms_escrow_id m = k \<longrightarrow> ms_status m = MilestonePending"
  shows "ms_open k t = ms_all k t"
  unfolding ms_open_def ms_all_def using assms by (intro table_sum_cong) auto

lemma custody_created:
  "deal_ok ms k r \<Longrightarrow> deal_status r = EscrowCreated \<Longrightarrow> custody ms k r = deal_amount r"
  by (auto simp: custody_def deal_live_def deal_ok_def intro!: ms_open_pending)

section \<open>Single deals\<close>

lemma activate_milestone:
  assumes "table_ok t" and "get_by_escrow_and_sequence k s t = Some (mid, m)" and "ms_status m = MilestonePending"
  shows "ms_step k t (snd (milestone_activate now h mid t))"
    and "ms_open x (snd (milestone_activate now h mid t)) = ms_open x t"
proof -
  have m: "row_of t mid = Some m" "ms_escrow_id m = k"
    using first_row_Some [OF assms(1)] assms(2) by (auto simp: get_by_escrow_and_sequence_def)
  note step = ms_activate.hit_steps [OF assms(1) m(1) assms(3), of now h]
  show "ms_step k t (snd (milestone_activate now h mid t))"
    by (rule ms_step_row [OF step m(2)]) (simp add: ms_kept_def m(2))
  show "ms_open x (snd (milestone_activate now h mid t)) = ms_open x t"
    using assms(3) by (subst ms_open_row [OF step]) auto
qed

lemma refetch_Inr: "refetch k d = Inr (d', r) \<longleftrightarrow> d' = d \<and> row_of (escrow_deals d) k = Some r"
  by (auto simp: refetch_def split: option.splits)

lemma accept_escrow_effect:
  assumes "accept_escrow now k seller d = Inr (d', r')" and "escrow_ok d"
  obtains r where "row_of (escrow_deals d) k = Some r" and "deal_status r = EscrowCreated"
    and "deal_seller_id r = seller" and "deal_step k r r' d d'" and "balances d' = balances d"
    and "fee_collections d' = fee_collections d" and "deal_status r' = EscrowAccepted"
    and "ms_open k (escrow_milestones d') = ms_open k (escrow_milestones d)"
proof -
  obtain r where r: "row_of (escrow_deals d) k = Some r"
    using assms(1) by (auto simp: accept_escrow_def split: option.splits)
  have st: "deal_status r = EscrowCreated" and seller: "deal_seller_id r = seller"
    using assms(1) by (auto simp: accept_escrow_def r Let_def split: if_splits)
  note ok = escrow_okD [OF assms(2)]
  let ?deals = "snd (escrow_accept now (deal_delivery_timeout_hours r) k (escrow_deals d))"
  note step = accept.hit_steps [OF ok(2) r st, of now "deal_delivery_timeout_hours r"]
  have d': "escrow_deals d' = ?deals" "balances d' = balances d" "fee_collections d' = fee_collections d"
    and r': "row_of ?deals k = Some r'"
    and ms: "escrow_milestones d' = escrow_milestones d \<or>
      (\<exists>s mid m h. get_by_escrow_and_sequence k s (escrow_milestones d) = Some (mid, m)
        \<and> ms_status m = MilestonePending
        \<and> escrow_milestones d' = snd (milestone_activate now h mid (escrow_milestones d)))"
    using assms(1)
    by (auto simp: accept_escrow_def r Let_def and_then_Inr_iff escrow_frame refetch_Inr
        split: if_splits option.splits)
  have ms': "ms_step k (escrow_milestones d) (escrow_milestones d')"
    "ms_open k (escrow_milestones d') = ms_open k (escrow_milestones d)"
    using ms activate_milestone [OF ok(3)] by (auto simp: ms_step_refl)
  have "deal_step k r r' d d'" and "deal_status r' = EscrowAccepted"
    using step r' ms' ok(1) st
    by (auto simp: deal_step_def d' row_step_row_of [OF step])
  then show ?thesis
    using that [OF r st seller] d' ms' by simp
qed

lemma deliver_escrow_effect:
  assumes "deliver_escrow now k seller d = Inr (d', r')" and "escrow_ok d"
  obtains r where "row_of (escrow_deals d) k = Some r" and "deal_status r = EscrowAccepted"
    and "deal_seller_id r = seller" and "\<not> deal_is_multi_milestone r"
    and "deal_step k r r' d d'" and "balances d' = balances d"
    and "fee_collections d' = fee_collections d" and "deal_status r' = EscrowDelivered"
proof -
  obtain r where r: "row_of (escrow_deals d) k = Some r"
    using assms(1) by (auto simp: deliver_escrow_def split: option.splits)
  have st: "deal_status r = EscrowAccepted" and seller: "deal_seller_id r = seller"
    and single: "\<not> deal_is_multi_milestone r"
    using assms(1) by (auto simp: deliver_escrow_def r Let_def split: if_splits)
  note ok = escrow_okD [OF assms(2)]
  note step = deliver.hit_steps [OF ok(2) r st, of now "deal_review_timeout_hours r"]
  have d': "escrow_deals d' = snd (escrow_deliver now (deal_review_timeout_hours r) k (escrow_deals d))"
    "balances d' = balances d" "fee_collections d' = fee_collections d"
    "escrow_milestones d' = escrow_milestones d"
    and r': "row_of (escrow_deals d') k = Some r'"
    using assms(1)
    by (auto simp: deliver_escrow_def r Let_def and_then_Inr_iff escrow_frame refetch_Inr
        split: if_splits)
  have "deal_step k r r' d d'" and "deal_status r' = EscrowDelivered"
    using step r' ok(1) single st
    by (auto simp: deal_step_def d' row_step_row_of [OF step] ms_step_refl)
  then show ?thesis
    using that [OF r st seller single] d' by simp
qed

lemma cancel_escrow_effect:
  assumes "cancel_escrow now k buyer d = Inr (d', r')" and "escrow_ok d"
  obtains r where "row_of (escrow_deals d) k = Some r" and "deal_status r = EscrowCreated"
    and "deal_buyer_id r = buyer" and "deal_step k r r' d d'"
    and "balances d' = credit now buyer (deal_amount r) (token_or_xmr (deal_token r)) (balances d)"
    and "fee_collections d' = fee_collections d" and "deal_status r' = EscrowCancelled"
    and "escrow_milestones d' = escrow_milestones d"
proof -
  obtain r where r: "row_of (escrow_deals d) k = Some r"
    using assms(1) by (auto simp: cancel_escrow_def split: option.splits)
  have st: "deal_status r = EscrowCreated" and buyer: "deal_buyer_id r = buyer"
    using assms(1) by (auto simp: cancel_escrow_def r Let_def split: if_splits)
  note ok = escrow_okD [OF assms(2)]
  note step = cancel.hit_steps [OF ok(2) r st, of now]
  have d': "escrow_deals d' = snd (escrow_cancel now k (escrow_deals d))"
    "balances d' = credit now buyer (deal_amount r) (token_or_xmr (deal_token r)) (balances d)"
    "fee_collections d' = fee_collections d" "escrow_milestones d' = escrow_milestones d"
    and r': "row_of (escrow_deals d') k = Some r'"
    using assms(1)
    by (auto simp: cancel_escrow_def r Let_def and_then_Inr_iff escrow_frame refetch_Inr
        split: if_splits)
  have "deal_step k r r' d d'" and "deal_status r' = EscrowCancelled"
    using step r' ok(1) st
    by (auto simp: deal_step_def d' row_step_row_of [OF step] ms_step_refl)
  then show ?thesis
    using that [OF r st buyer] d' by simp
qed

text \<open>Paying out \<open>x\<close> with its fee, and the rest to the buyer.\<close>

lemma fee_percent_range:
  assumes "deal_ok ms k r"
  shows "0 \<le> fee_percent_of r" and "fee_percent_of r \<le> 1"
  using assms by (simp_all add: fee_percent_of_def deal_ok_def DEFAULT_FEE_PERCENT_def)

lemma payout_split:
  assumes "0 \<le> x" and "0 \<le> p" and "p \<le> 1"
  shows "max (x - x * p) 0 + max (x * p) 0 = (x :: rat)"
proof -
  have "0 \<le> x * p" and "x * p \<le> x"
    using assms mult_left_mono [of p 1 x] by simp_all
  then have "max (x - x * p) 0 = x - x * p" and "max (x * p) 0 = x * p"
    by (simp_all only: max_absorb1 le_diff_eq add_0)
  then show ?thesis by simp
qed

lemma release_escrow_effect:
  assumes "release_escrow now k buyer x d = Inr (d', r')" and "escrow_ok d"
  obtains r where "row_of (escrow_deals d) k = Some r" and "deal_status r = EscrowDelivered"
    and "deal_buyer_id r = buyer" and "\<not> deal_is_multi_milestone r" and "0 \<le> x" and "x \<le> deal_amount r"
    and "deal_step k r r' d d'" and "deal_status r' = EscrowCompleted"
    and "escrow_milestones d' = escrow_milestones d"
    and "\<forall>u. token_total u (balances d') = token_total u (balances d) + (if u = token_or_xmr (deal_token r)
           then max (x - x * fee_percent_of r) 0 + max (deal_amount r - x) 0 else 0)"
    and "\<forall>u. fee_total u (fee_collections d') = fee_total u (fee_collections d)
           + (if u = token_or_xmr (deal_token r) then max (x * fee_percent_of r) 0 else 0)"
    and "\<forall>b u. available_of b u (balances d') = available_of b u (balances d)
           + (if b = deal_seller_id r \<and> u = token_or_xmr (deal_token r) then max (x - x * fee_percent_of r) 0 else 0)
           + (if b = deal_buyer_id r \<and> u = token_or_xmr (deal_token r) then max (deal_amount r - x) 0 else 0)"
proof -
  obtain r where r: "row_of (escrow_deals d) k = Some r"
    using assms(1) by (auto simp: release_escrow_def split: option.splits)
  have st: "deal_status r = EscrowDelivered" and buyer: "deal_buyer_id r = buyer"
    and single: "\<not> deal_is_multi_milestone r" and x: "0 \<le> x" "x \<le> deal_amount r"
    using assms(1) by (auto simp: release_escrow_def r Let_def split: if_splits)
  note ok = escrow_okD [OF assms(2)]
  note step = release.hit_steps [OF ok(2) r st, where now = now and x = x and fee = "x * fee_percent_of r"]
  let ?tok = "token_or_xmr (deal_token r)"
  let ?d2 = "credit_if_positive now (deal_buyer_id r) (deal_amount r - x) ?tok
      (credit_if_positive now (deal_seller_id r) (x - x * fee_percent_of r) ?tok d)"
  have d': "escrow_deals d' = snd (escrow_release now x (x * fee_percent_of r) k (escrow_deals d))"
    "balances d' = balances ?d2"
    "fee_collections d' = fee_collections (record_fee now k ?tok (x * fee_percent_of r) ?d2)"
    "escrow_milestones d' = escrow_milestones d"
    and r': "row_of (escrow_deals d') k = Some r'"
    using assms(1)
    by (auto simp: release_escrow_def r Let_def and_then_Inr_iff escrow_frame refetch_Inr
        split: if_splits)
  have bal: "table_ok (balances d')" using ok(1) by (simp add: d' escrow_frame)
  have "deal_step k r r' d d'" and "deal_status r' = EscrowCompleted"
    using step r' bal single st
    by (auto simp: deal_step_def d' row_step_row_of [OF step] ms_step_refl)
  then show ?thesis
    using that [OF r st buyer single x] d' ok(1) by (simp add: escrow_frame)
qed

section \<open>Expired deals\<close>

lemma expire_not_accepted_effect:
  assumes "expire_not_accepted now k r d = Inr (d', b)" and "escrow_ok d"
    and "row_of (escrow_deals d) k = Some r" and "deal_status r = EscrowCreated"
  obtains r' where "b" and "deal_step k r r' d d'"
    and "balances d' = credit now (deal_buyer_id r) (deal_amount r) (token_or_xmr (deal_token r)) (balances d)"
    and "fee_collections d' = fee_collections d" and "deal_status r' = EscrowExpired"
    and "escrow_milestones d' = escrow_milestones d"
proof -
  note ok = escrow_okD [OF assms(2)]
  have live: "deal_status r = EscrowCreated \<or> deal_status r = EscrowAccepted" using assms(4) by simp
  note step = expire.hit_steps [OF ok(2) assms(3) live, of now]
  obtain n t where t: "escrow_expire now k (escrow_deals d) = (n, t)" by fastforce
  have n: "n = 1" using expire.hit_rows [OF ok(2) assms(3) live, of now] t by simp
  have d': "escrow_deals d' = t"
    "balances d' = credit now (deal_buyer_id r) (deal_amount r) (token_or_xmr (deal_token r)) (balances d)"
    "fee_collections d' = fee_collections d" "escrow_milestones d' = escrow_milestones d" "b"
    using assms(1) n
    by (auto simp: expire_not_accepted_def t Let_def and_then_Inr_iff escrow_frame refetch_Inr)
  have "deal_step k r (r\<lparr>deal_status := EscrowExpired, deal_completed_at := Some now\<rparr>) d d'"
    using step d' ok(1) assms(4) by (simp add: deal_step_def t ms_step_refl)
  then show ?thesis
    using that d' by simp
qed

lemma expire_not_delivered_effect:
  assumes "expire_not_delivered now k r d = Inr (d', b)" and "escrow_ok d"
    and "row_of (escrow_deals d) k = Some r" and "deal_status r = EscrowAccepted"
  obtains r' where "b" and "deal_step k r r' d d'"
    and "balances d' = credit now (deal_buyer_id r) (deal_amount r) (token_or_xmr (deal_token r)) (balances d)"
    and "fee_collections d' = fee_collections d" and "deal_status r' = EscrowExpired"
    and "escrow_milestones d' = escrow_milestones d"
proof -
  note ok = escrow_okD [OF assms(2)]
  have live: "deal_status r = EscrowCreated \<or> deal_status r = EscrowAccepted" using assms(4) by simp
  note step = expire.hit_steps [OF ok(2) assms(3) live, of now]
  obtain n t where t: "escrow_expire now k (escrow_deals d) = (n, t)" by fastforce
  have n: "n = 1" using expire.hit_rows [OF ok(2) assms(3) live, of now] t by simp
  have d': "escrow_deals d' = t"
    "balances d' = credit now (deal_buyer_id r) (deal_amount r) (token_or_xmr (deal_token r)) (balances d)"
    "fee_collections d' = fee_collections d" "escrow_milestones d' = escrow_milestones d" "b"
    using assms(1) n
    by (auto simp: expire_not_delivered_def t Let_def and_then_Inr_iff escrow_frame refetch_Inr)
  have "deal_step k r (r\<lparr>deal_status := EscrowExpired, deal_completed_at := Some now\<rparr>) d d'"
    using step d' ok(1) assms(4) by (simp add: deal_step_def t ms_step_refl)
  then show ?thesis
    using that d' by simp
qed

lemma auto_release_full_effect:
  assumes "auto_release_full now k r d = Inr (d', b)" and "escrow_ok d"
    and "row_of (escrow_deals d) k = Some r" and "deal_status r = EscrowDelivered"
  obtains r' where "b" and "deal_step k r r' d d'" and "deal_status r' = EscrowCompleted"
    and "escrow_milestones d' = escrow_milestones d"
    and "\<forall>u. token_total u (balances d') = token_total u (balances d) + (if u = token_or_xmr (deal_token r)
           then max (deal_amount r - deal_amount r * fee_percent_of r) 0 else 0)"
    and "\<forall>u. fee_total u (fee_collections d') = fee_total u (fee_collections d)
           + (if u = token_or_xmr (deal_token r) then max (deal_amount r * fee_percent_of r) 0 else 0)"
proof -
  note ok = escrow_okD [OF assms(2)]
  note step = release.hit_steps [OF ok(2) assms(3,4), where now = now and x = "deal_amount r" and fee = "deal_amount r * fee_percent_of r"]
  obtain n t where t: "escrow_release now (deal_amount r) (deal_amount r * fee_percent_of r) k (escrow_deals d) = (n, t)"
    by fastforce
  have n: "n = 1"
    using release.hit_rows [OF ok(2) assms(3,4), where now = now and x = "deal_amount r" and fee = "deal_amount r * fee_percent_of r"] t by simp
  let ?tok = "token_or_xmr (deal_token r)"
  let ?d1 = "credit_if_positive now (deal_seller_id r) (deal_amount r - deal_amount r * fee_percent_of r) ?tok
      (d\<lparr>escrow_deals := t\<rparr>)"
  have d': "escrow_deals d' = t" "balances d' = balances ?d1"
    "fee_collections d' = fee_collections (record_fee now k ?tok (deal_amount r * fee_percent_of r) ?d1)"
    "escrow_milestones d' = escrow_milestones d" "b"
    using assms(1) n
    by (auto simp: auto_release_full_def t Let_def and_then_Inr_iff escrow_frame refetch_Inr)
  have "\<not> deal_is_multi_milestone r"
    using ok(4) [OF assms(3)] assms(4) by (auto simp: deal_ok_def)
  then have "deal_step k r (r\<lparr>deal_status := EscrowCompleted, deal_release_amount := Some (deal_amount r),
      deal_fee_amount := deal_amount r * fee_percent_of r, deal_completed_at := Some now\<rparr>) d d'"
    using step d' ok(1) assms(4) by (simp add: deal_step_def t ms_step_refl escrow_frame)
  then show ?thesis
    using that d' ok(1) by (simp add: escrow_frame)
qed

end
