(* ===== verification/Milestone_Custody.thy ===== *)
theory Milestone_Custody
  imports Escrow_Custody
begin

text \<open>
  The milestone handlers followed through custody: each release pays out exactly the milestone's
  amount, the last one leaves nothing in custody, and the two expiry paths are measured against
  what custody holds.
\<close>

section \<open>One milestone\<close>

lemma milestone_found:
  assumes "table_ok t" and "get_by_escrow_and_sequence k s t = Some (mid, m)"
  shows "row_of t mid = Some m" and "ms_escrow_id m = k" and "ms_sequence m = s"
  using first_row_Some [OF assms(1)] assms(2) by (auto simp: get_by_escrow_and_sequence_def)

lemma release_milestone_row:
  assumes "table_ok t" and "get_by_escrow_and_sequence k s t = Some (mid, m)"
    and "ms_status m = MilestoneDelivered"
  shows "fst (milestone_release now x fee mid t) = 1"
    and "ms_step k t (snd (milestone_release now x fee mid t))"
    and "ms_open k (snd (milestone_release now x fee mid t)) = ms_open k t - ms_amount m"
    and "row_of (snd (milestone_release now x fee mid t)) mid =
      Some (m\<lparr>ms_status := MilestoneCompleted, ms_release_amount := Some x,
              ms_fee_amount := fee, ms_completed_at := Some now\<rparr>)"
proof -
  note m = milestone_found [OF assms(1,2)]
  note step = ms_release.hit_steps [OF assms(1) m(1) assms(3), where now = now and x = x and fee = fee]
  show "fst (milestone_release now x fee mid t) = 1"
    by (rule ms_release.hit_rows [OF assms(1) m(1) assms(3)])
  show "ms_step k t (snd (milestone_release now x fee mid t))"
    by (rule ms_step_row [OF step m(2)]) (simp add: ms_kept_def m(2))
  show "ms_open k (snd (milestone_release now x fee mid t)) = ms_open k t - ms_amount m"
    using assms(3) m(2) by (subst ms_open_row [OF step]) auto
  show "row_of (snd (milestone_release now x fee mid t)) mid =
      Some (m\<lparr>ms_status := MilestoneCompleted, ms_release_amount := Some x,
              ms_fee_amount := fee, ms_completed_at := Some now\<rparr>)"
    by (simp add: row_step_row_of [OF step])
qed

text \<open>When as many milestones are completed as the deal has, none is open.\<close>

lemma completed_count_le: "completed_count k mid t \<le> ms_count k t"
proof -
  have "completed_count k mid t \<le> length (get_by_escrow k t)"
    by (simp add: completed_count_def)
  then show ?thesis
    by (simp add: get_by_escrow_def select_where_def ms_count_def rows_where_def)
qed

lemma all_completed:
  assumes "ms_count k t \<le> completed_count k mid t" and "(i, m) \<in> set t" and "ms_escrow_id m = k"
  shows "ms_status m = MilestoneCompleted \<or> i = mid"
proof -
  let ?xs = "get_by_escrow k t"
  let ?P = "\<lambda>(i, m). ms_status m = MilestoneCompleted \<or> i = mid"
  have "length ?xs = ms_count k t"
    by (simp add: get_by_escrow_def select_where_def ms_count_def rows_where_def)
  then have "length ?xs \<le> length (filter ?P ?xs)"
    using assms(1) by (simp add: completed_count_def)
  then have "length (filter ?P ?xs) = length ?xs"
    by (intro antisym length_filter_le)
  then have "filter ?P ?xs = ?xs"
    by (metis filter_True length_filter_less nless_le)
  then have "\<forall>p \<in> set ?xs. ?P p"
    by (metis filter_eq_ConsD filter_id_conv)
  moreover have "(i, m) \<in> set ?xs"
    using assms(2,3) by (simp add: get_by_escrow_def select_where_def)
  ultimately show ?thesis by auto
qed

lemma nothing_open:
  assumes "table_ok t" and "ms_count k t \<le> completed_count k mid t" and "row_of t mid = Some m"
    and "ms_status m = MilestoneCompleted"
  shows "ms_open k t = 0"
proof -
  have "ms_status m' = MilestoneCompleted" if mem: "(i, m') \<in> set t" and k: "ms_escrow_id m' = k" for i m'
    using all_completed [OF assms(2) mem k] mem_row_of [OF assms(1) mem] assms(3,4) by auto
  then show ?thesis
    unfolding ms_open_def by (intro table_sum_zero) auto
qed

section \<open>After a release\<close>

lemma finish_deal_frame:
  "balances (finish_deal now k r x y d) = balances d"
  "fee_collections (finish_deal now k r x y d) = fee_collections d"
  "escrow_milestones (finish_deal now k r x y d) = snd (cancel_pending now k (escrow_milestones d))"
  "escrow_deals (finish_deal now k r x y d) = modify_row k
     (\<lambda>r. r\<lparr>deal_status := EscrowCompleted, deal_total_released := x, deal_total_fees := y,
            deal_release_amount := Some x, deal_fee_amount := y, deal_completed_at := Some now\<rparr>) (escrow_deals d)"
  by (simp_all add: finish_deal_def Let_def escrow_frame)

lemma next_milestone_frame:
  "balances (next_milestone now k s x y d) = balances d"
  "fee_collections (next_milestone now k s x y d) = fee_collections d"
  "escrow_deals (next_milestone now k s x y d) = modify_row k
     (\<lambda>r. r\<lparr>deal_total_released := x, deal_total_fees := y, deal_current_milestone := s\<rparr>) (escrow_deals d)"
  by (simp_all add: next_milestone_def Let_def split: option.split)

lemma next_milestone_ms:
  assumes "table_ok (escrow_milestones d)"
  shows "ms_step k (escrow_milestones d) (escrow_milestones (next_milestone now k s x y d))"
    and "ms_open z (escrow_milestones (next_milestone now k s x y d)) = ms_open z (escrow_milestones d)"
  using activate_milestone [OF assms]
  by (auto simp: next_milestone_def Let_def ms_step_refl split: option.split)

text \<open>
  Both releases end the same way: the milestone \<open>mid\<close> is completed, then the deal is finished or
  the next milestone is activated. Custody loses exactly what was open for it.
\<close>

definition after_release ::
  "moment \<Rightarrow> ident \<Rightarrow> escrow_deal \<Rightarrow> ident \<Rightarrow> int \<Rightarrow> decimal \<Rightarrow> decimal \<Rightarrow> db \<Rightarrow> db"
where
  "after_release now k r mid s x y d =
     (if deal_milestone_count r \<le> int (completed_count k mid (escrow_milestones d))
      then finish_deal now k r x y d else next_milestone now k s x y d)"

lemma after_release_effect:
  assumes ok: "table_ok (escrow_deals d)" "table_ok (escrow_milestones d)" "table_ok (balances d)"
    and r: "row_of (escrow_deals d) k = Some r" and multi: "deal_is_multi_milestone r"
    and st: "deal_status r = EscrowAccepted"
    and cnt: "deal_milestone_count r = int (ms_count k (escrow_milestones d))"
    and m: "row_of (escrow_milestones d) mid = Some m" "ms_status m = MilestoneCompleted"
  shows "\<exists>r'. deal_step k r r' d (after_release now k r mid s x y d)
      \<and> custody (escrow_milestones (after_release now k r mid s x y d)) k r' = ms_open k (escrow_milestones d)
      \<and> deal_total_released r' = x \<and> deal_total_fees r' = y
      \<and> (deal_status r' = EscrowCompleted
         \<or> deal_status r' = EscrowAccepted \<and> completed_count k mid (escrow_milestones d) < ms_count k (escrow_milestones d))"
proof (cases "deal_milestone_count r \<le> int (completed_count k mid (escrow_milestones d))")
  case True
  then have "ms_open k (escrow_milestones d) = 0"
    using cnt by (intro nothing_open [OF ok(2) _ m]) simp
  with True show ?thesis
    using row_step_modify [OF ok(1) r, of "\<lambda>r. r\<lparr>deal_status := EscrowCompleted, deal_total_released := x,
        deal_total_fees := y, deal_release_amount := Some x, deal_fee_amount := y, deal_completed_at := Some now\<rparr>"]
      ok(3) multi st
    by (intro exI [of _ "r\<lparr>deal_status := EscrowCompleted, deal_total_released := x,
        deal_total_fees := y, deal_release_amount := Some x, deal_fee_amount := y, deal_completed_at := Some now\<rparr>"])
      (auto simp: after_release_def finish_deal_frame deal_step_def ms_step_cancel_pending
        custody_def deal_live_def)
next
  case False
  then show ?thesis
    using row_step_modify [OF ok(1) r, of "\<lambda>r. r\<lparr>deal_total_released := x, deal_total_fees := y,
        deal_current_milestone := s\<rparr>"] ok(3) multi st cnt next_milestone_ms [OF ok(2)]
    by (intro exI [of _ "r\<lparr>deal_total_released := x, deal_total_fees := y, deal_current_milestone := s\<rparr>"])
      (auto simp: after_release_def next_milestone_frame deal_step_def custody_def deal_live_def)
qed

lemma deal_step_cong:
  assumes "deal_step k r r' d1 d2" and "escrow_deals d = escrow_deals d1"
    and "ms_step k (escrow_milestones d) (escrow_milestones d1)" and "escrow_deals d' = escrow_deals d2"
    and "escrow_milestones d' = escrow_milestones d2" and "balances d' = balances d2"
  shows "deal_step k r r' d d'"
  using assms ms_step_trans by (fastforce simp: deal_step_def)

section \<open>The handlers\<close>

lemma deliver_milestone_effect:
  assumes "deliver_milestone now k s seller d = Inr (d', fresh)" and "escrow_ok d"
  obtains r mid m where "row_of (escrow_deals d) k = Some r" and "deal_status r = EscrowAccepted"
    and "deal_seller_id r = seller" and "deal_is_multi_milestone r"
    and "get_by_escrow_and_sequence k s (escrow_milestones d) = Some (mid, m)"
    and "ms_status m = MilestoneActive" and "escrow_deals d' = escrow_deals d"
    and "balances d' = balances d" and "fee_collections d' = fee_collections d"
    and "ms_step k (escrow_milestones d) (escrow_milestones d')"
    and "ms_open k (escrow_milestones d') = ms_open k (escrow_milestones d)"
proof -
  obtain r where r: "row_of (escrow_deals d) k = Some r"
    using assms(1) by (auto simp: deliver_milestone_def split: option.splits)
  have st: "deal_status r = EscrowAccepted" and seller: "deal_seller_id r = seller"
    and multi: "deal_is_multi_milestone r"
    using assms(1) by (auto simp: deliver_milestone_def r split: if_splits)
  obtain mid m where f: "get_by_escrow_and_sequence k s (escrow_milestones d) = Some (mid, m)"
    using assms(1) st seller multi by (auto simp: deliver_milestone_def r split: option.splits)
  have active: "ms_status m = MilestoneActive"
    using assms(1) st seller multi by (auto simp: deliver_milestone_def r f split: if_splits)
  have ok: "table_ok (escrow_milestones d)" using assms(2) by (rule escrow_okD)
  note m = milestone_found [OF ok f]
  note step = ms_deliver.hit_steps [OF ok m(1) active, where now = now and h = "ms_review_timeout_hours m"]
  obtain n t where t: "milestone_deliver now (ms_review_timeout_hours m) mid (escrow_milestones d) = (n, t)"
    by fastforce
  have d': "escrow_milestones d' = t" "escrow_deals d' = escrow_deals d" "balances d' = balances d"
    "fee_collections d' = fee_collections d"
    using assms(1) st seller multi active
    by (auto simp: deliver_milestone_def r f t Let_def and_then_Inr_iff escrow_frame
        split: if_splits option.splits)
  have "ms_step k (escrow_milestones d) t"
    using ms_step_row [OF step m(2)] by (simp add: ms_kept_def m(2) t)
  moreover have "ms_open k t = ms_open k (escrow_milestones d)"
    using ms_open_row [OF step, of k] active by (simp add: t)
  ultimately show ?thesis
    using that [OF r st seller multi f active] d' by simp
qed

lemma release_milestone_effect:
  assumes "release_milestone now k s buyer x d = Inr (d', fresh)" and "escrow_ok d"
  obtains r mid m r' where "row_of (escrow_deals d) k = Some r" and "deal_status r = EscrowAccepted"
    and "deal_buyer_id r = buyer" and "deal_is_multi_milestone r"
    and "get_by_escrow_and_sequence k s (escrow_milestones d) = Some (mid, m)"
    and "ms_status m = MilestoneDelivered" and "0 \<le> x" and "x \<le> ms_amount m"
    and "deal_step k r r' d d'"
    and "custody (escrow_milestones d') k r' = ms_open k (escrow_milestones d) - ms_amount m"
    and "deal_total_released r' = deal_total_released r + x"
    and "deal_total_fees r' = deal_total_fees r + x * fee_percent_of r"
    and "deal_status r' = EscrowCompleted \<or> deal_status r' = EscrowAccepted"
    and "\<forall>u. token_total u (balances d') = token_total u (balances d) + (if u = token_or_xmr (deal_token r)
           then max (x - x * fee_percent_of r) 0 + max (ms_amount m - x) 0 else 0)"
    and "\<forall>u. fee_total u (fee_collections d') = fee_total u (fee_collections d)
           + (if u = token_or_xmr (deal_token r) then max (x * fee_percent_of r) 0 else 0)"
proof -
  obtain r where r: "row_of (escrow_deals d) k = Some r"
    using assms(1) by (auto simp: release_milestone_def split: option.splits)
  have st: "deal_status r = EscrowAccepted" and buyer: "deal_buyer_id r = buyer"
    and multi: "deal_is_multi_milestone r"
    using assms(1) by (auto simp: release_milestone_def r split: if_splits)
  obtain mid m where f: "get_by_escrow_and_sequence k s (escrow_milestones d) = Some (mid, m)"
    using assms(1) st buyer multi by (auto simp: release_milestone_def r split: option.splits)
  have delivered: "ms_status m = MilestoneDelivered" and x: "0 \<le> x" "x \<le> ms_amount m"
    using assms(1) st buyer multi by (auto simp: release_milestone_def r f split: if_splits)
  note ok = escrow_okD [OF assms(2)]
  let ?fee = "x * fee_percent_of r" and ?tok = "token_or_xmr (deal_token r)"
  note rel = release_milestone_row [OF ok(3) f delivered, where now = now and x = x and fee = ?fee]
  obtain n t where t: "milestone_release now x ?fee mid (escrow_milestones d) = (n, t)"
    by fastforce
  with rel have n: "n = 1" and rel': "ms_step k (escrow_milestones d) t"
    "ms_open k t = ms_open k (escrow_milestones d) - ms_amount m" by simp_all
  have completed: "\<exists>m'. row_of t mid = Some m' \<and> ms_status m' = MilestoneCompleted"
    using rel(4) t by simp
  let ?d3 = "record_fee now k ?tok ?fee (credit_if_positive now (deal_buyer_id r) (ms_amount m - x) ?tok
      (credit_if_positive now (deal_seller_id r) (x - ?fee) ?tok d))"
  let ?d4 = "?d3\<lparr>escrow_milestones := t\<rparr>"
  let ?d5 = "after_release now k r mid (s + 1) (deal_total_released r + x) (deal_total_fees r + ?fee) ?d4"
  have fields: "escrow_deals ?d4 = escrow_deals d" "escrow_milestones ?d4 = t"
    by (simp_all add: escrow_frame)
  have bal4: "table_ok (balances ?d4)" using ok(1) by (simp add: escrow_frame)
  have "deal_milestone_count r = int (ms_count k t)"
    using ok(4) [OF r] multi by (simp add: deal_ok_def ms_step_facts(2) [OF rel'(1)])
  moreover have "table_ok t" using ok(3) ms_step_ok [OF rel'(1)] by simp
  ultimately obtain r' where r': "deal_step k r r' ?d4 ?d5"
    "custody (escrow_milestones ?d5) k r' = ms_open k t"
    "deal_total_released r' = deal_total_released r + x" "deal_total_fees r' = deal_total_fees r + ?fee"
    "deal_status r' = EscrowCompleted \<or> deal_status r' = EscrowAccepted"
    using after_release_effect [of ?d4 k r mid _ now "s + 1" "deal_total_released r + x" "deal_total_fees r + ?fee"]
      r multi st bal4 completed ok(2) by (fastforce simp: fields)
  have d': "escrow_deals d' = escrow_deals ?d5" "escrow_milestones d' = escrow_milestones ?d5"
    "balances d' = balances ?d5" "fee_collections d' = fee_collections ?d5"
    using assms(1) st buyer multi delivered x
    by (auto simp: release_milestone_def r f t n Let_def and_then_Inr_iff escrow_frame refetch_Inr
        after_release_def split: if_splits)
  have frame: "balances ?d5 = balances ?d4" "fee_collections ?d5 = fee_collections ?d4"
    by (simp_all add: after_release_def finish_deal_frame next_milestone_frame)
  have step: "deal_step k r r' d d'"
    by (rule deal_step_cong [OF r'(1) fields(1) [symmetric] _ d'(1-3)]) (simp add: fields rel')
  show ?thesis
    by (rule that [OF r st buyer multi f delivered x step])
      (use r' d' rel' frame ok(1) in \<open>simp_all add: escrow_frame\<close>)
qed

lemma auto_release_milestone_effect:
  assumes "auto_release_milestone now k r mid m d = Inr (d', b)" and "escrow_ok d"
    and r: "row_of (escrow_deals d) k = Some r" and st: "deal_status r = EscrowAccepted"
    and multi: "deal_is_multi_milestone r"
    and f: "get_by_escrow_and_sequence k s (escrow_milestones d) = Some (mid, m)"
    and delivered: "ms_status m = MilestoneDelivered"
  obtains r' where "b" and "deal_step k r r' d d'"
    and "custody (escrow_milestones d') k r' = ms_open k (escrow_milestones d) - ms_amount m"
    and "deal_status r' = EscrowCompleted \<or> deal_status r' = EscrowAccepted"
    and "\<forall>u. token_total u (balances d') = token_total u (balances d) + (if u = token_or_xmr (deal_token r)
           then max (ms_amount m - ms_amount m * fee_percent_of r) 0 else 0)"
    and "\<forall>u. fee_total u (fee_collections d') = fee_total u (fee_collections d)
           + (if u = token_or_xmr (deal_token r) then max (ms_amount m * fee_percent_of r) 0 else 0)"
proof -
  note ok = escrow_okD [OF assms(2)]
  let ?x = "ms_amount m" and ?tok = "token_or_xmr (deal_token r)"
  let ?fee = "?x * fee_percent_of r"
  note rel = release_milestone_row [OF ok(3) f delivered, where now = now and x = ?x and fee = ?fee]
  obtain n t where t: "milestone_release now ?x ?fee mid (escrow_milestones d) = (n, t)"
    by fastforce
  with rel have n: "n = 1" and rel': "ms_step k (escrow_milestones d) t"
    "ms_open k t = ms_open k (escrow_milestones d) - ms_amount m" by simp_all
  have completed: "\<exists>m'. row_of t mid = Some m' \<and> ms_status m' = MilestoneCompleted"
    using rel(4) t by simp
  let ?d2 = "record_fee now k ?tok ?fee
      (credit_if_positive now (deal_seller_id r) (?x - ?fee) ?tok (d\<lparr>escrow_milestones := t\<rparr>))"
  let ?d3 = "after_release now k r mid (ms_sequence m + 1) (deal_total_released r + ?x) (deal_total_fees r + ?fee) ?d2"
  have fields: "escrow_deals ?d2 = escrow_deals d" "escrow_milestones ?d2 = t"
    by (simp_all add: escrow_frame)
  have bal2: "table_ok (balances ?d2)" using ok(1) by (simp add: escrow_frame)
  have "deal_milestone_count r = int (ms_count k t)"
    using ok(4) [OF r] multi by (simp add: deal_ok_def ms_step_facts(2) [OF rel'(1)])
  moreover have "table_ok t" using ok(3) ms_step_ok [OF rel'(1)] by simp
  ultimately obtain r' where r': "deal_step k r r' ?d2 ?d3"
    "custody (escrow_milestones ?d3) k r' = ms_open k t"
    "deal_status r' = EscrowCompleted \<or> deal_status r' = EscrowAccepted"
    using after_release_effect [of ?d2 k r mid _ now "ms_sequence m + 1" "deal_total_released r + ?x"
        "deal_total_fees r + ?fee"]
      r multi st bal2 completed ok(2) by (fastforce simp: fields)
  have d': "escrow_deals d' = escrow_deals ?d3" "escrow_milestones d' = escrow_milestones ?d3"
    "balances d' = balances ?d3" "fee_collections d' = fee_collections ?d3" "b"
    using assms(1) n
    by (auto simp: auto_release_milestone_def t Let_def and_then_Inr_iff escrow_frame refetch_Inr
        after_release_def split: if_splits)
  have frame: "balances ?d3 = balances ?d2" "fee_collections ?d3 = fee_collections ?d2"
    by (simp_all add: after_release_def finish_deal_frame next_milestone_frame)
  have step: "deal_step k r r' d d'"
    by (rule deal_step_cong [OF r'(1) fields(1) [symmetric] _ d'(1-3)]) (simp add: fields rel')
  show ?thesis
    by (rule that [OF d'(5) step])
      (use r' d' rel' frame ok(1) in \<open>simp_all add: escrow_frame\<close>)
qed

lemma expire_active_milestone_effect:
  assumes "expire_active_milestone now k r mid m d = Inr (d', b)" and "escrow_ok d"
    and r: "row_of (escrow_deals d) k = Some r" and st: "deal_status r = EscrowAccepted"
    and f: "get_by_escrow_and_sequence k s (escrow_milestones d) = Some (mid, m)"
    and active: "ms_status m = MilestoneActive"
  obtains r' where "b" and "deal_step k r r' d d'" and "deal_status r' = (if ms_sequence m = 1
      then EscrowExpired else EscrowPartiallyCompleted)"
    and "fee_collections d' = fee_collections d"
    and "\<forall>u. token_total u (balances d') = token_total u (balances d) + (if u = token_or_xmr (deal_token r)
           then max (deal_amount r - deal_total_released r - deal_total_fees r) 0 else 0)"
    and "\<forall>b u. available_of b u (balances d') = available_of b u (balances d)
           + (if b = deal_buyer_id r \<and> u = token_or_xmr (deal_token r)
              then max (deal_amount r - deal_total_released r - deal_total_fees r) 0 else 0)"
proof -
  note ok = escrow_okD [OF assms(2)]
  note m = milestone_found [OF ok(3) f]
  note ms = ms_expire.hit_steps [OF ok(3) m(1) active, where now = now]
  obtain n t where t: "milestone_expire now mid (escrow_milestones d) = (n, t)" by fastforce
  have n: "n = 1" using ms_expire.hit_rows [OF ok(3) m(1) active, of now] t by simp
  have "ms_step k (escrow_milestones d) t"
    using ms_step_row [OF ms m(2)] by (simp add: ms_kept_def m(2) t)
  then have ms': "ms_step k (escrow_milestones d) (snd (cancel_pending now k t))"
    using ms_step_cancel_pending ms_step_trans by blast
  let ?fin = "if ms_sequence m = 1 then EscrowExpired else EscrowPartiallyCompleted"
  let ?f = "\<lambda>r. r\<lparr>deal_status := ?fin, deal_completed_at := Some now\<rparr>"
  let ?d2 = "credit_if_positive now (deal_buyer_id r) (deal_amount r - deal_total_released r - deal_total_fees r)
      (token_or_xmr (deal_token r)) (d\<lparr>escrow_milestones := snd (cancel_pending now k t)\<rparr>)"
  have d': "escrow_deals d' = modify_row k ?f (escrow_deals d)" "balances d' = balances ?d2"
    "escrow_milestones d' = snd (cancel_pending now k t)" "fee_collections d' = fee_collections d" "b"
    using assms(1) n
    by (auto simp: expire_active_milestone_def t Let_def and_then_Inr_iff escrow_frame refetch_Inr)
  have "deal_step k r (?f r) d d'"
    using row_step_modify [OF ok(2) r, of ?f] ms' ok(1) st
    by (simp add: deal_step_def d' escrow_frame)
  then show ?thesis
    using that [of "?f r"] d' ok(1) by (simp add: escrow_frame)
qed

section \<open>Creation\<close>

lemma create_milestones_from_effect:
  "table_ok t \<Longrightarrow> table_ok (create_milestones_from k i mis t)
   \<and> ms_all x (create_milestones_from k i mis t) = ms_all x t + (if x = k then sum_list (map mi_amount mis) else 0)
   \<and> ms_count x (create_milestones_from k i mis t) = ms_count x t + (if x = k then length mis else 0)
   \<and> ms_open x (create_milestones_from k i mis t) = ms_open x t + (if x = k then sum_list (map mi_amount mis) else 0)
   \<and> (\<forall>(j, m) \<in> set (create_milestones_from k i mis t). (j, m) \<in> set t
        \<or> ms_escrow_id m = k \<and> ms_status m = MilestonePending \<and> ms_amount m \<in> set (map mi_amount mis))"
proof (induction mis arbitrary: i t)
  case Nil
  then show ?case by simp
next
  case (Cons mi mis)
  let ?t = "add_row (new_milestone k i mi) t"
  have "ms_all x ?t = ms_all x t + (if x = k then mi_amount mi else 0)"
    and "ms_open x ?t = ms_open x t + (if x = k then mi_amount mi else 0)"
    by (simp_all add: ms_all_def ms_open_def table_sum_add_row new_milestone_def)
  moreover have "ms_count x ?t = ms_count x t + (if x = k then 1 else 0)"
    by (simp add: ms_count_def rows_where_def add_row_def insert_row_def new_milestone_def)
  moreover have "set ?t = insert (new_id t, new_milestone k i mi) (set t)"
    by (simp add: add_row_def insert_row_def)
  ultimately show ?case
    using Cons.IH [of ?t "i + 1"] Cons.prems by (auto simp: new_milestone_def)
qed

lemma create_escrow_Inr:
  assumes "create_escrow now buyer seller x ah dh rh tier mis d = Inr (d', k)"
  obtains t1 where "deduct now buyer x ''XMR'' (balances d) = Inr t1" and "0 < x" and "buyer \<noteq> seller"
    and "k = new_id (escrow_deals d)" and "balances d' = t1" and "fee_collections d' = fee_collections d"
    and "\<And>l. mis = Some l \<Longrightarrow> sum_list (map mi_amount l) = x"
    and "escrow_milestones d' = (case mis of None \<Rightarrow> escrow_milestones d
           | Some l \<Rightarrow> create_milestones k l (escrow_milestones d))"
    and "escrow_deals d' = add_row (case mis of
           None \<Rightarrow> escrow_create now buyer seller x ah dh rh (1 / 100)
         | Some l \<Rightarrow> (escrow_create now buyer seller x ah dh rh (1 / 100))\<lparr>deal_is_multi_milestone := True,
             deal_milestone_count := int (length l), deal_current_milestone := 1,
             deal_total_released := 0, deal_total_fees := 0\<rparr>) (escrow_deals d)"
proof -
  obtain t1 where t1: "deduct now buyer x ''XMR'' (balances d) = Inr t1"
    using assms by (auto simp: create_escrow_def and_then_Inr_iff split: if_splits option.splits)
  note modify = modify_after_insert [where k = "new_id (escrow_deals d)", folded add_row_def]
  show ?thesis
    by (rule that [OF t1])
      (use assms in \<open>auto simp: create_escrow_def t1 Let_def escrow_frame compute_fee_percent_def
          DEFAULT_FEE_PERCENT_def add_row_def modify_after_insert split: if_splits option.splits\<close>)
qed

lemma create_escrow_effect:
  assumes "create_escrow now buyer seller x ah dh rh tier mis d = Inr (d', k)" and "escrow_ok d"
    and valid: "\<And>l mi. mis = Some l \<Longrightarrow> mi \<in> set l \<Longrightarrow> valid_milestone mi"
  shows "escrow_ok d'" and "escrow_wealth u d' = escrow_wealth u d"
proof -
  from assms(1) obtain t1 where t1: "deduct now buyer x ''XMR'' (balances d) = Inr t1" and x: "0 < x"
    and k: "k = new_id (escrow_deals d)" and bal: "balances d' = t1"
    and fees: "fee_collections d' = fee_collections d"
    and total: "\<And>l. mis = Some l \<Longrightarrow> sum_list (map mi_amount l) = x"
    and ms: "escrow_milestones d' = (case mis of None \<Rightarrow> escrow_milestones d
           | Some l \<Rightarrow> create_milestones k l (escrow_milestones d))"
    and deals: "escrow_deals d' = add_row (case mis of
           None \<Rightarrow> escrow_create now buyer seller x ah dh rh (1 / 100)
         | Some l \<Rightarrow> (escrow_create now buyer seller x ah dh rh (1 / 100))\<lparr>deal_is_multi_milestone := True,
             deal_milestone_count := int (length l), deal_current_milestone := 1,
             deal_total_released := 0, deal_total_fees := 0\<rparr>) (escrow_deals d)"
    by (rule create_escrow_Inr) blast
  let ?r = "case mis of None \<Rightarrow> escrow_create now buyer seller x ah dh rh (1 / 100)
         | Some l \<Rightarrow> (escrow_create now buyer seller x ah dh rh (1 / 100))\<lparr>deal_is_multi_milestone := True,
             deal_milestone_count := int (length l), deal_current_milestone := 1,
             deal_total_released := 0, deal_total_fees := 0\<rparr>"
  note ok = escrow_okD [OF assms(2)]
  have unused: "ms_escrow_id m \<noteq> k" if "(i, m) \<in> set (escrow_milestones d)" for i m
  proof -
    have "row_of (escrow_deals d) (ms_escrow_id m) \<noteq> None"
      using assms(2) that by (auto simp: escrow_ok_def split_def)
    then show ?thesis by (metis k row_of_new_id)
  qed
  have zero: "ms_all k (escrow_milestones d) = 0" "ms_open k (escrow_milestones d) = 0"
    "ms_count k (escrow_milestones d) = 0"
    unfolding ms_all_def ms_open_def ms_count_def rows_where_def
    using unused by (auto intro!: table_sum_zero simp: filter_empty_conv)
  have eff: "table_ok (escrow_milestones d')"
    "ms_all z (escrow_milestones d') = ms_all z (escrow_milestones d) + (if z = k \<and> mis \<noteq> None then x else 0)"
    "ms_open z (escrow_milestones d') = ms_open z (escrow_milestones d) + (if z = k \<and> mis \<noteq> None then x else 0)"
    "int (ms_count z (escrow_milestones d')) = int (ms_count z (escrow_milestones d))
      + (case mis of None \<Rightarrow> 0 | Some l \<Rightarrow> if z = k then int (length l) else 0)" for z
    using create_milestones_from_effect [OF ok(3), of k 1 _ z] total ok(3)
    by (auto simp: ms create_milestones_def split: option.splits)
  have rows: "(i, m) \<in> set (escrow_milestones d) \<or> ms_escrow_id m = k \<and> ms_status m = MilestonePending \<and> 0 \<le> ms_amount m"
    if "(i, m) \<in> set (escrow_milestones d')" for i m
    using create_milestones_from_effect [OF ok(3), of k 1] that valid
    by (fastforce simp: ms create_milestones_def valid_milestone_def split: option.splits)
  have new: "0 \<le> ms_amount m \<and> ms_status m = MilestonePending"
    if "(i, m) \<in> set (escrow_milestones d')" "ms_escrow_id m = k" for i m
    using rows [OF that(1)] unused that(2) by blast
  have "deal_ok (escrow_milestones d') k ?r"
  proof (cases mis)
    case None
    then show ?thesis
      using new x zero(3) by (auto simp: deal_ok_def escrow_create_def ms)
  next
    case (Some l)
    then show ?thesis
      using new x zero eff(2,4) [of k] by (auto simp: deal_ok_def escrow_create_def)
  qed
  moreover have "deal_ok (escrow_milestones d') z v" if v: "row_of (escrow_deals d) z = Some v" for z v
  proof -
    have z: "z \<noteq> k" using v row_of_new_id [of "escrow_deals d"] by (auto simp: k)
    have "(i, m) \<in> set (escrow_milestones d)" if "(i, m) \<in> set (escrow_milestones d')" "ms_escrow_id m = z" for i m
      using rows [OF that(1)] that(2) z by auto
    then have "\<forall>(i, m) \<in> set (escrow_milestones d'). ms_escrow_id m = z \<longrightarrow> (i, m) \<in> set (escrow_milestones d)"
      by blast
    moreover have "ms_all z (escrow_milestones d') = ms_all z (escrow_milestones d)"
      and "ms_count z (escrow_milestones d') = ms_count z (escrow_milestones d)"
      using eff(2,4) [of z] z by (simp_all split: option.splits)
    ultimately show ?thesis by (rule deal_ok_cong [OF ok(4) [OF v]])
  qed
  ultimately have deals_ok: "\<forall>z v. row_of (escrow_deals d') z = Some v \<longrightarrow> deal_ok (escrow_milestones d') z v"
    by (simp add: deals row_of_add_row k)
  have "row_of (escrow_deals d') (ms_escrow_id m) \<noteq> None" if "(i, m) \<in> set (escrow_milestones d')" for i m
    using rows [OF that] assms(2) by (auto simp: escrow_ok_def deals row_of_add_row k split_def)
  then have parents: "\<forall>(i, m) \<in> set (escrow_milestones d'). row_of (escrow_deals d') (ms_escrow_id m) \<noteq> None"
    by blast
  have "table_ok (balances d')" using bank.ok_pay_out [OF t1] ok(1) by (simp add: bal)
  moreover have "table_ok (escrow_deals d')" using ok(2) by (simp add: deals)
  ultimately show "escrow_ok d'"
    using deals_ok parents eff(1) unfolding escrow_ok_def by blast
  have "table_sum (custody_in u (escrow_milestones d')) (escrow_deals d) = escrow_custody u d"
    unfolding escrow_custody_def
  proof (rule table_sum_cong)
    fix z v
    assume "(z, v) \<in> set (escrow_deals d)"
    then have "z \<noteq> k" by (metis k mem_row_of [OF ok(2)] option.distinct(1) row_of_new_id)
    then show "custody_in u (escrow_milestones d') z v = custody_in u (escrow_milestones d) z v"
      by (simp add: custody_in_def custody_def eff)
  qed
  moreover have "custody_in u (escrow_milestones d') k ?r = (if u = ''XMR'' then x else 0)"
    using zero by (auto simp: custody_in_def custody_def deal_live_def escrow_create_def token_or_xmr_def eff
        split: option.splits)
  ultimately have "escrow_custody u d' = escrow_custody u d + (if u = ''XMR'' then x else 0)"
    by (simp add: escrow_custody_def deals table_sum_add_row k)
  then show "escrow_wealth u d' = escrow_wealth u d"
    by (simp add: escrow_wealth_def bal fees bank.total_pay_out [OF t1 ok(1)])
qed

end
