(* ===== verification/Escrow_Life.thy ===== *)
theory Escrow_Life
  imports Milestone_Custody
begin

text \<open>
  The escrow service as one transition system: every handler and every resolution step as an
  operation that raises or returns a new state. The properties are the conservation of money, the
  status machine, what a release pays to whom, the completeness of the expiry sweep, and the two
  places where the refund of an expired deal differs from what custody holds.
\<close>

section \<open>Operations\<close>

datatype escrow_op =
    OpCreate ident ident decimal int int int string "milestone_input list option"
  | OpAccept ident ident
  | OpDeliver ident ident
  | OpRelease ident ident decimal
  | OpCancel ident ident
  | OpDeliverMilestone ident int ident
  | OpReleaseMilestone ident int ident decimal
  | OpResolveDeal ident
  | OpResolveMilestone escrow_milestone

fun escrow_exec :: "moment \<Rightarrow> escrow_op \<Rightarrow> db \<Rightarrow> db outcome" where
  "escrow_exec now (OpCreate b s x ah dh rh tier mis) d = map_sum id fst (create_escrow now b s x ah dh rh tier mis d)"
| "escrow_exec now (OpAccept k a) d = map_sum id fst (accept_escrow now k a d)"
| "escrow_exec now (OpDeliver k a) d = map_sum id fst (deliver_escrow now k a d)"
| "escrow_exec now (OpRelease k a x) d = map_sum id fst (release_escrow now k a x d)"
| "escrow_exec now (OpCancel k a) d = map_sum id fst (cancel_escrow now k a d)"
| "escrow_exec now (OpDeliverMilestone k s a) d = map_sum id fst (deliver_milestone now k s a d)"
| "escrow_exec now (OpReleaseMilestone k s a x) d = map_sum id fst (release_milestone now k s a x d)"
| "escrow_exec now (OpResolveDeal k) d = map_sum id fst (resolve_single now k d)"
| "escrow_exec now (OpResolveMilestone m) d = map_sum id fst (resolve_milestone_expiry now m d)"

text \<open>What the endpoint validates before the service is called.\<close>

fun valid_op :: "escrow_op \<Rightarrow> bool" where
  "valid_op (OpCreate b s x ah dh rh tier (Some mis)) = list_all valid_milestone mis"
| "valid_op op = True"

text \<open>The two resolutions that refund something else than what is in custody.\<close>

fun irregular :: "escrow_op \<Rightarrow> db \<Rightarrow> bool" where
  "irregular (OpResolveDeal k) d =
     (case row_of (escrow_deals d) k of None \<Rightarrow> False
      | Some r \<Rightarrow> deal_status r = EscrowAccepted \<and> deal_is_multi_milestone r)"
| "irregular (OpResolveMilestone ms) d =
     (case get_by_escrow_and_sequence (ms_escrow_id ms) (ms_sequence ms) (escrow_milestones d) of
        None \<Rightarrow> False | Some (i, m) \<Rightarrow> ms_status m = MilestoneActive)"
| "irregular op d = False"

fun deal_edge :: "escrow_status \<Rightarrow> escrow_status \<Rightarrow> bool" where
  "deal_edge EscrowCreated s = (s = EscrowAccepted \<or> s = EscrowCancelled \<or> s = EscrowExpired)"
| "deal_edge EscrowAccepted s = (s = EscrowAccepted \<or> s = EscrowDelivered \<or> s = EscrowCompleted
      \<or> s = EscrowExpired \<or> s = EscrowPartiallyCompleted)"
| "deal_edge EscrowDelivered s = (s = EscrowCompleted)"
| "deal_edge s s' = False"

section \<open>What each resolution does\<close>

text \<open>Milestones of a deal that is not split have no effect: milestone resolution needs one.\<close>

lemma resolve_single_cases:
  assumes "resolve_single now k d = Inr (d', b)" and "escrow_ok d"
  obtains (skip) "d' = d" and "\<not> b" and "\<And>r. row_of (escrow_deals d) k = Some r \<Longrightarrow> \<not> deal_live r"
  | (step) r r' where "b" and "row_of (escrow_deals d) k = Some r" and "deal_step k r r' d d'"
      and "deal_edge (deal_status r) (deal_status r')" and "\<not> deal_live r'"
      and "\<not> (deal_status r = EscrowAccepted \<and> deal_is_multi_milestone r) \<Longrightarrow> (\<And>u. escrow_wealth u d' = escrow_wealth u d)"
      and "deal_status r = EscrowAccepted \<Longrightarrow> deal_is_multi_milestone r \<Longrightarrow>
        (\<And>u. escrow_wealth u d' = escrow_wealth u d + (if u = token_or_xmr (deal_token r)
           then deal_amount r - ms_open k (escrow_milestones d) else 0))"
proof (cases "row_of (escrow_deals d) k")
  case None
  then show ?thesis using assms(1) skip by (simp add: resolve_single_def)
next
  case (Some r)
  note ok = escrow_okD [OF assms(2)]
  note dok = ok(4) [OF Some]
  have dead: thesis if "\<not> deal_live r"
    using assms(1) that by (intro skip) (auto simp: resolve_single_def Some deal_live_def)
  show ?thesis
  proof (cases "deal_status r")
    case EscrowCreated
    then have run: "expire_not_accepted now k r d = Inr (d', b)"
      using assms(1) by (simp add: resolve_single_def Some)
    obtain r' where eff: "b" "deal_step k r r' d d'"
      "balances d' = credit now (deal_buyer_id r) (deal_amount r) (token_or_xmr (deal_token r)) (balances d)"
      "fee_collections d' = fee_collections d" "deal_status r' = EscrowExpired"
      "escrow_milestones d' = escrow_milestones d"
      by (rule expire_not_accepted_effect [OF run assms(2) Some EscrowCreated])
    have "custody (escrow_milestones d) k r = deal_amount r"
      using dok EscrowCreated by (rule custody_created)
    then have "escrow_wealth u d' = escrow_wealth u d" for u
      using deal_step_wealth [OF eff(2), of u "deal_amount r" 0] eff ok(1)
      by (simp add: total_credit custody_def deal_live_def)
    then show ?thesis
      using step [OF eff(1) Some eff(2)] eff EscrowCreated by (simp add: deal_live_def)
  next
    case EscrowAccepted
    then have run: "expire_not_delivered now k r d = Inr (d', b)"
      using assms(1) by (simp add: resolve_single_def Some)
    obtain r' where eff: "b" "deal_step k r r' d d'"
      "balances d' = credit now (deal_buyer_id r) (deal_amount r) (token_or_xmr (deal_token r)) (balances d)"
      "fee_collections d' = fee_collections d" "deal_status r' = EscrowExpired"
      "escrow_milestones d' = escrow_milestones d"
      by (rule expire_not_delivered_effect [OF run assms(2) Some EscrowAccepted])
    have wealth: "escrow_wealth u d' = escrow_wealth u d + (if u = token_or_xmr (deal_token r)
        then deal_amount r - custody (escrow_milestones d) k r else 0)" for u
      using deal_step_wealth [OF eff(2), of u "deal_amount r" 0] eff ok(1)
      by (simp add: total_credit custody_def deal_live_def)
    show ?thesis
      using step [OF eff(1) Some eff(2)] eff EscrowAccepted wealth
      by (simp add: deal_live_def custody_def)
  next
    case EscrowDelivered
    then have run: "auto_release_full now k r d = Inr (d', b)"
      using assms(1) by (simp add: resolve_single_def Some)
    obtain r' where eff: "b" "deal_step k r r' d d'" "deal_status r' = EscrowCompleted"
      "escrow_milestones d' = escrow_milestones d"
      "\<forall>u. token_total u (balances d') = token_total u (balances d) + (if u = token_or_xmr (deal_token r)
           then max (deal_amount r - deal_amount r * fee_percent_of r) 0 else 0)"
      "\<forall>u. fee_total u (fee_collections d') = fee_total u (fee_collections d)
           + (if u = token_or_xmr (deal_token r) then max (deal_amount r * fee_percent_of r) 0 else 0)"
      by (rule auto_release_full_effect [OF run assms(2) Some EscrowDelivered])
    have "\<not> deal_is_multi_milestone r" and pos: "0 \<le> deal_amount r"
      using dok EscrowDelivered by (auto simp: deal_ok_def)
    then have "escrow_wealth u d' = escrow_wealth u d" for u
      using deal_step_wealth [OF eff(2) eff(5)[rule_format] eff(6)[rule_format]] eff(3) EscrowDelivered
        payout_split [OF pos fee_percent_range [OF dok]]
      by (simp add: custody_def deal_live_def)
    then show ?thesis
      using step [OF eff(1) Some eff(2)] eff EscrowDelivered by (simp add: deal_live_def)
  qed (use dead in \<open>simp_all add: deal_live_def\<close>)
qed

lemma milestone_of_multi:
  assumes "escrow_ok d" and "get_by_escrow_and_sequence k s (escrow_milestones d) = Some (i, m)"
    and "row_of (escrow_deals d) k = Some r"
  shows "deal_is_multi_milestone r" and "0 \<le> ms_amount m"
proof -
  have mem: "(i, m) \<in> set (escrow_milestones d)" and k: "ms_escrow_id m = k"
    using milestone_found [OF escrow_okD(3) [OF assms(1)] assms(2)] row_of_Some_mem by auto
  then have "(i, m) \<in> set (filter (\<lambda>(i, m). ms_escrow_id m = k) (escrow_milestones d))" by simp
  then have "ms_count k (escrow_milestones d) \<noteq> 0"
    unfolding ms_count_def rows_where_def by (metis length_0_conv empty_iff empty_set)
  moreover have dok: "deal_ok (escrow_milestones d) k r" by (rule escrow_okD(4) [OF assms(1,3)])
  ultimately show "deal_is_multi_milestone r" by (auto simp: deal_ok_def)
  show "0 \<le> ms_amount m" using dok mem k by (auto simp: deal_ok_def)
qed

lemma resolve_milestone_branches:
  assumes "resolve_milestone_expiry now ms d = Inr (d', b)"
  obtains "d' = d" "\<not> b"
    | r i m where "row_of (escrow_deals d) (ms_escrow_id ms) = Some r" "deal_status r = EscrowAccepted"
      "get_by_escrow_and_sequence (ms_escrow_id ms) (ms_sequence ms) (escrow_milestones d) = Some (i, m)"
      "ms_status m = MilestoneActive" "expire_active_milestone now (ms_escrow_id ms) r i m d = Inr (d', b)"
    | r i m where "row_of (escrow_deals d) (ms_escrow_id ms) = Some r" "deal_status r = EscrowAccepted"
      "get_by_escrow_and_sequence (ms_escrow_id ms) (ms_sequence ms) (escrow_milestones d) = Some (i, m)"
      "ms_status m = MilestoneDelivered" "auto_release_milestone now (ms_escrow_id ms) r i m d = Inr (d', b)"
proof (cases "row_of (escrow_deals d) (ms_escrow_id ms)")
  case None
  then show ?thesis using assms that(1) by (simp add: resolve_milestone_expiry_def)
next
  case (Some r)
  note r = this
  show ?thesis
  proof (cases "deal_status r = EscrowAccepted")
    case False
    then show ?thesis using assms that(1) by (simp add: resolve_milestone_expiry_def r)
  next
    case True
    note st = this
    show ?thesis
    proof (cases "get_by_escrow_and_sequence (ms_escrow_id ms) (ms_sequence ms) (escrow_milestones d)")
      case None
      then show ?thesis using assms that(1) by (simp add: resolve_milestone_expiry_def r st)
    next
      case (Some im)
      obtain i m where "im = (i, m)" by (cases im)
      with Some have f: "get_by_escrow_and_sequence (ms_escrow_id ms) (ms_sequence ms) (escrow_milestones d) = Some (i, m)"
        by simp
      show ?thesis
        using assms that(1) that(2) [OF r st f] that(3) [OF r st f]
        by (cases "ms_status m") (simp_all add: resolve_milestone_expiry_def r st f)
    qed
  qed
qed

lemma resolve_milestone_cases:
  assumes "resolve_milestone_expiry now ms d = Inr (d', b)" and "escrow_ok d"
  obtains (skip) "d' = d" and "\<not> b"
  | (released) r r' where "b" and "row_of (escrow_deals d) (ms_escrow_id ms) = Some r"
      and "deal_step (ms_escrow_id ms) r r' d d'"
      and "deal_status r = EscrowAccepted" and "deal_status r' = EscrowCompleted \<or> deal_status r' = EscrowAccepted"
      and "\<not> irregular (OpResolveMilestone ms) d"
      and "\<And>u. escrow_wealth u d' = escrow_wealth u d"
  | (expired) r r' where "b" and "row_of (escrow_deals d) (ms_escrow_id ms) = Some r"
      and "deal_step (ms_escrow_id ms) r r' d d'" and "deal_is_multi_milestone r"
      and "deal_status r = EscrowAccepted" and "deal_status r' = EscrowExpired \<or> deal_status r' = EscrowPartiallyCompleted"
      and "irregular (OpResolveMilestone ms) d"
      and "\<And>u. escrow_wealth u d' = escrow_wealth u d + (if u = token_or_xmr (deal_token r)
         then max (deal_amount r - deal_total_released r - deal_total_fees r) 0
            - ms_open (ms_escrow_id ms) (escrow_milestones d) else 0)"
proof -
  let ?k = "ms_escrow_id ms"
  note ok = escrow_okD [OF assms(2)]
  from resolve_milestone_branches [OF assms(1)] show ?thesis
  proof cases
    case 1
    then show ?thesis by (rule skip)
  next
    case (2 r i m)
    note multi = milestone_of_multi [OF assms(2) 2(3) 2(1)]
    obtain r' where eff: "b" "deal_step ?k r r' d d'" "deal_status r' = (if ms_sequence m = 1
        then EscrowExpired else EscrowPartiallyCompleted)" "fee_collections d' = fee_collections d"
      "\<forall>u. token_total u (balances d') = token_total u (balances d) + (if u = token_or_xmr (deal_token r)
           then max (deal_amount r - deal_total_released r - deal_total_fees r) 0 else 0)"
      by (rule expire_active_milestone_effect [OF 2(5) assms(2) 2(1,2,3,4)], rule that)
    have "escrow_wealth u d' = escrow_wealth u d + (if u = token_or_xmr (deal_token r)
         then max (deal_amount r - deal_total_released r - deal_total_fees r) 0
            - ms_open ?k (escrow_milestones d) else 0)" for u
      using deal_step_wealth [OF eff(2) eff(5)[rule_format], of u 0] eff(3,4) 2(2) multi(1)
      by (auto simp: custody_def deal_live_def)
    then show ?thesis
      using expired [OF eff(1) 2(1) eff(2) multi(1) 2(2)] eff(3) 2(3,4) by simp
  next
    case (3 r i m)
    note multi = milestone_of_multi [OF assms(2) 3(3) 3(1)]
    obtain r' where eff: "b" "deal_step ?k r r' d d'"
      "custody (escrow_milestones d') ?k r' = ms_open ?k (escrow_milestones d) - ms_amount m"
      "deal_status r' = EscrowCompleted \<or> deal_status r' = EscrowAccepted"
      "\<forall>u. token_total u (balances d') = token_total u (balances d) + (if u = token_or_xmr (deal_token r)
           then max (ms_amount m - ms_amount m * fee_percent_of r) 0 else 0)"
      "\<forall>u. fee_total u (fee_collections d') = fee_total u (fee_collections d)
           + (if u = token_or_xmr (deal_token r) then max (ms_amount m * fee_percent_of r) 0 else 0)"
      by (rule auto_release_milestone_effect [OF 3(5) assms(2) 3(1,2) multi(1) 3(3,4)], rule that)
    have "escrow_wealth u d' = escrow_wealth u d" for u
      using deal_step_wealth [OF eff(2) eff(5)[rule_format] eff(6)[rule_format]] eff(3) 3(2) multi(1)
        payout_split [OF multi(2) fee_percent_range [OF ok(4) [OF 3(1)]]]
      by (simp add: custody_def deal_live_def)
    then show ?thesis
      using released [OF eff(1) 3(1) eff(2) 3(2) eff(4)] 3(3,4) by simp
  qed
qed

section \<open>Every operation\<close>

text \<open>What any successful operation does to any deal: nothing, or one edge of the status machine.\<close>

definition deal_evolves :: "escrow_deal \<Rightarrow> escrow_deal \<Rightarrow> bool" where
  "deal_evolves r r' \<longleftrightarrow> (r' = r \<or> deal_edge (deal_status r) (deal_status r'))
     \<and> deal_amount r' = deal_amount r \<and> deal_token r' = deal_token r
     \<and> deal_buyer_id r' = deal_buyer_id r \<and> deal_seller_id r' = deal_seller_id r"

definition deals_evolve :: "db \<Rightarrow> db \<Rightarrow> bool" where
  "deals_evolve d d' \<longleftrightarrow> escrow_ok d'
     \<and> (\<forall>k r. row_of (escrow_deals d) k = Some r \<longrightarrow>
          (\<exists>r'. row_of (escrow_deals d') k = Some r' \<and> deal_evolves r r'))"

lemma deals_evolve_refl: "escrow_ok d \<Longrightarrow> deals_evolve d d"
  by (simp add: deals_evolve_def deal_evolves_def)

lemma deals_evolve_step:
  assumes "escrow_ok d" and "row_of (escrow_deals d) k = Some r" and "deal_step k r r' d d'"
    and "deal_edge (deal_status r) (deal_status r')"
  shows "deals_evolve d d'"
proof -
  have row: "row_step k r r' (escrow_deals d) (escrow_deals d')"
    using assms(3) by (simp add: deal_step_def)
  have "deal_evolves r r'" using assms(3,4) by (simp add: deal_evolves_def deal_step_def)
  then show ?thesis
    using deal_step_ok [OF assms(3,1)] assms(2)
    by (auto simp: deals_evolve_def row_step_row_of [OF row] deal_evolves_def)
qed

lemma deals_evolve_create:
  assumes "create_escrow now b s x ah dh rh tier mis d = Inr (d', k)" and "escrow_ok d"
    and "\<And>l mi. mis = Some l \<Longrightarrow> mi \<in> set l \<Longrightarrow> valid_milestone mi"
  shows "deals_evolve d d'"
proof -
  obtain v where "escrow_deals d' = add_row v (escrow_deals d)"
    by (rule create_escrow_Inr [OF assms(1)])
  then have "row_of (escrow_deals d') z = Some r" if "row_of (escrow_deals d) z = Some r" for z r
    using that by (auto simp: row_of_add_row)
  then show ?thesis
    using create_escrow_effect(1) [OF assms]
    by (auto simp: deals_evolve_def deal_evolves_def)
qed

lemma deliver_milestone_ok:
  assumes "deliver_milestone now k s a d = Inr (d', m)" and "escrow_ok d"
  shows "deals_evolve d d'" and "escrow_wealth u d' = escrow_wealth u d"
proof -
  obtain r where r: "row_of (escrow_deals d) k = Some r" and st: "deal_status r = EscrowAccepted"
    and multi: "deal_is_multi_milestone r" and deals: "escrow_deals d' = escrow_deals d"
    and bal: "balances d' = balances d" and fees: "fee_collections d' = fee_collections d"
    and ms: "ms_step k (escrow_milestones d) (escrow_milestones d')"
    and opn: "ms_open k (escrow_milestones d') = ms_open k (escrow_milestones d)"
    by (rule deliver_milestone_effect [OF assms], rule that)
  note ok = escrow_okD [OF assms(2)]
  have same: "modify_row k (\<lambda>_. r) (escrow_deals d) = escrow_deals d"
    by (rule table_eqI) (use ok(2) r in \<open>auto simp: row_of_modify_row fun_eq_iff option.map_ident
        split: option.splits intro!: option.map_ident_strong\<close>)
  have step: "deal_step k r r d d'"
    using r st multi ms ok by (simp add: deal_step_def row_step_def deals bal same)
  show "deals_evolve d d'"
    by (rule deals_evolve_step [OF assms(2) r step]) (simp add: st)
  show "escrow_wealth u d' = escrow_wealth u d"
    using deal_step_wealth [OF step, of u 0 0] bal fees opn multi st
    by (simp add: custody_def deal_live_def)
qed

lemma release_escrow_ok:
  assumes "release_escrow now k a x d = Inr (d', m)" and "escrow_ok d"
  shows "deals_evolve d d'" and "escrow_wealth u d' = escrow_wealth u d"
proof -
  obtain r where r: "row_of (escrow_deals d) k = Some r" and st: "deal_status r = EscrowDelivered"
    and single: "\<not> deal_is_multi_milestone r" and x: "0 \<le> x" "x \<le> deal_amount r"
    and step: "deal_step k r m d d'" and st': "deal_status m = EscrowCompleted"
    and bal: "\<forall>u. token_total u (balances d') = token_total u (balances d) + (if u = token_or_xmr (deal_token r)
           then max (x - x * fee_percent_of r) 0 + max (deal_amount r - x) 0 else 0)"
    and fees: "\<forall>u. fee_total u (fee_collections d') = fee_total u (fee_collections d)
           + (if u = token_or_xmr (deal_token r) then max (x * fee_percent_of r) 0 else 0)"
    by (rule release_escrow_effect [OF assms], rule that)
  show "deals_evolve d d'"
    by (rule deals_evolve_step [OF assms(2) r step]) (simp add: st st')
  show "escrow_wealth u d' = escrow_wealth u d"
    using deal_step_wealth [OF step bal[rule_format] fees[rule_format]] x single st st'
      payout_split [OF x(1) fee_percent_range [OF escrow_okD(4) [OF assms(2) r]]]
    by (simp add: custody_def deal_live_def)
qed

lemma release_milestone_ok:
  assumes "release_milestone now k s a x d = Inr (d', m)" and "escrow_ok d"
  shows "deals_evolve d d'" and "escrow_wealth u d' = escrow_wealth u d"
proof -
  obtain r r' and ms :: escrow_milestone where r: "row_of (escrow_deals d) k = Some r" and st: "deal_status r = EscrowAccepted"
    and multi: "deal_is_multi_milestone r" and x: "0 \<le> x" "x \<le> ms_amount ms"
    and step: "deal_step k r r' d d'"
    and cust: "custody (escrow_milestones d') k r' = ms_open k (escrow_milestones d) - ms_amount ms"
    and st': "deal_status r' = EscrowCompleted \<or> deal_status r' = EscrowAccepted"
    and bal: "\<forall>u. token_total u (balances d') = token_total u (balances d) + (if u = token_or_xmr (deal_token r)
           then max (x - x * fee_percent_of r) 0 + max (ms_amount ms - x) 0 else 0)"
    and fees: "\<forall>u. fee_total u (fee_collections d') = fee_total u (fee_collections d)
           + (if u = token_or_xmr (deal_token r) then max (x * fee_percent_of r) 0 else 0)"
    by (rule release_milestone_effect [OF assms], rule that)
  show "deals_evolve d d'"
    by (rule deals_evolve_step [OF assms(2) r step]) (use st st' in auto)
  show "escrow_wealth u d' = escrow_wealth u d"
    using deal_step_wealth [OF step bal[rule_format] fees[rule_format]] x multi st cust
      payout_split [OF x(1) fee_percent_range [OF escrow_okD(4) [OF assms(2) r]]]
    by (simp add: custody_def deal_live_def)
qed

lemma accept_escrow_ok:
  assumes "accept_escrow now k a d = Inr (d', m)" and "escrow_ok d"
  shows "deals_evolve d d'" and "escrow_wealth u d' = escrow_wealth u d"
proof -
  obtain r where r: "row_of (escrow_deals d) k = Some r" and st: "deal_status r = EscrowCreated"
    and step: "deal_step k r m d d'" and bal: "balances d' = balances d"
    and fees: "fee_collections d' = fee_collections d" and st': "deal_status m = EscrowAccepted"
    and opn: "ms_open k (escrow_milestones d') = ms_open k (escrow_milestones d)"
    by (rule accept_escrow_effect [OF assms], rule that)
  show "deals_evolve d d'"
    by (rule deals_evolve_step [OF assms(2) r step]) (simp add: st st')
  have "deal_is_multi_milestone m = deal_is_multi_milestone r" and "deal_amount m = deal_amount r"
    using step by (simp_all add: deal_step_def)
  then show "escrow_wealth u d' = escrow_wealth u d"
    using deal_step_wealth [OF step, of u 0 0] bal fees opn st st'
    by (simp add: custody_def deal_live_def)
qed

lemma deliver_escrow_ok:
  assumes "deliver_escrow now k a d = Inr (d', m)" and "escrow_ok d"
  shows "deals_evolve d d'" and "escrow_wealth u d' = escrow_wealth u d"
proof -
  obtain r where r: "row_of (escrow_deals d) k = Some r" and st: "deal_status r = EscrowAccepted"
    and single: "\<not> deal_is_multi_milestone r"
    and step: "deal_step k r m d d'" and bal: "balances d' = balances d"
    and fees: "fee_collections d' = fee_collections d" and st': "deal_status m = EscrowDelivered"
    by (rule deliver_escrow_effect [OF assms], rule that)
  show "deals_evolve d d'"
    by (rule deals_evolve_step [OF assms(2) r step]) (simp add: st st')
  have "deal_is_multi_milestone m = deal_is_multi_milestone r" and "deal_amount m = deal_amount r"
    using step by (simp_all add: deal_step_def)
  then show "escrow_wealth u d' = escrow_wealth u d"
    using deal_step_wealth [OF step, of u 0 0] bal fees st st' single
    by (simp add: custody_def deal_live_def)
qed

lemma cancel_escrow_ok:
  assumes "cancel_escrow now k a d = Inr (d', m)" and "escrow_ok d"
  shows "deals_evolve d d'" and "escrow_wealth u d' = escrow_wealth u d"
proof -
  obtain r where r: "row_of (escrow_deals d) k = Some r" and st: "deal_status r = EscrowCreated"
    and step: "deal_step k r m d d'"
    and bal: "balances d' = credit now a (deal_amount r) (token_or_xmr (deal_token r)) (balances d)"
    and fees: "fee_collections d' = fee_collections d" and st': "deal_status m = EscrowCancelled"
    by (rule cancel_escrow_effect [OF assms], rule that)
  show "deals_evolve d d'"
    by (rule deals_evolve_step [OF assms(2) r step]) (simp add: st st')
  show "escrow_wealth u d' = escrow_wealth u d"
    using deal_step_wealth [OF step, of u "deal_amount r" 0] bal fees
      custody_created [OF escrow_okD(4) [OF assms(2) r] st] st' escrow_okD(1) [OF assms(2)]
    by (simp add: total_credit custody_def deal_live_def)
qed

lemma resolve_single_ok:
  assumes "resolve_single now k d = Inr (d', b)" and "escrow_ok d"
  shows "deals_evolve d d'" and "\<not> irregular (OpResolveDeal k) d \<Longrightarrow> escrow_wealth u d' = escrow_wealth u d"
proof -
  show "deals_evolve d d'"
    using resolve_single_cases [OF assms] deals_evolve_refl [OF assms(2)] deals_evolve_step [OF assms(2)]
    by metis
  assume reg: "\<not> irregular (OpResolveDeal k) d"
  show "escrow_wealth u d' = escrow_wealth u d"
    by (rule resolve_single_cases [OF assms]) (use reg in \<open>auto split: option.splits\<close>)
qed

lemma resolve_milestone_ok:
  assumes "resolve_milestone_expiry now ms d = Inr (d', b)" and "escrow_ok d"
  shows "deals_evolve d d'" and "\<not> irregular (OpResolveMilestone ms) d \<Longrightarrow> escrow_wealth u d' = escrow_wealth u d"
proof -
  show "deals_evolve d d'"
    by (rule resolve_milestone_cases [OF assms])
      (use deals_evolve_refl [OF assms(2)] deals_evolve_step [OF assms(2)] in \<open>auto\<close>)
  assume reg: "\<not> irregular (OpResolveMilestone ms) d"
  show "escrow_wealth u d' = escrow_wealth u d"
    by (rule resolve_milestone_cases [OF assms]) (use reg in auto)
qed

lemma escrow_exec_ok:
  assumes "escrow_exec now op d = Inr d'" and "escrow_ok d" and "valid_op op"
  shows "deals_evolve d d'" and "\<not> irregular op d \<Longrightarrow> escrow_wealth u d' = escrow_wealth u d"
proof -
  have "deals_evolve d d' \<and> (\<not> irregular op d \<longrightarrow> escrow_wealth u d' = escrow_wealth u d)"
  proof (cases op)
    case (OpCreate b s x ah dh rh tier mis)
    then obtain k where run: "create_escrow now b s x ah dh rh tier mis d = Inr (d', k)"
      using assms(1) by (auto simp: map_sum_fst_Inr)
    have valid: "\<And>l mi. mis = Some l \<Longrightarrow> mi \<in> set l \<Longrightarrow> valid_milestone mi"
      using assms(3) OpCreate by (auto simp: list_all_iff)
    show ?thesis
      using deals_evolve_create [OF run assms(2) valid] create_escrow_effect(2) [OF run assms(2) valid] by simp
  qed (use assms(1,2) accept_escrow_ok deliver_escrow_ok release_escrow_ok cancel_escrow_ok
      deliver_milestone_ok release_milestone_ok resolve_single_ok resolve_milestone_ok
      in \<open>auto simp: map_sum_fst_Inr\<close>)
  then show "deals_evolve d d'" and "\<not> irregular op d \<Longrightarrow> escrow_wealth u d' = escrow_wealth u d"
    by blast+
qed

section \<open>Runs\<close>

text \<open>A sequence of timed requests and resolutions; one that raises is rolled back.\<close>

fun escrow_run :: "(moment \<times> escrow_op) list \<Rightarrow> db \<Rightarrow> db" where
  "escrow_run [] d = d"
| "escrow_run ((now, op) # ops) d =
     escrow_run ops (case escrow_exec now op d of Inl e \<Rightarrow> d | Inr d' \<Rightarrow> d')"

fun regular_run :: "(moment \<times> escrow_op) list \<Rightarrow> db \<Rightarrow> bool" where
  "regular_run [] d = True"
| "regular_run ((now, op) # ops) d =
     (\<not> irregular op d \<and> regular_run ops (case escrow_exec now op d of Inl e \<Rightarrow> d | Inr d' \<Rightarrow> d'))"

lemma escrow_run_ok:
  assumes "escrow_ok d" and "\<forall>q \<in> set ops. valid_op (snd q)"
  shows "escrow_ok (escrow_run ops d)"
    and "regular_run ops d \<Longrightarrow> escrow_wealth u (escrow_run ops d) = escrow_wealth u d"
  using assms
proof (induction ops arbitrary: d)
  case Nil
  { case 1 then show ?case by simp next case 2 then show ?case by simp }
next
  case (Cons q ops)
  obtain now op where q: "q = (now, op)" by (cases q)
  {
    case (1 d)
    let ?d = "case escrow_exec now op d of Inl e \<Rightarrow> d | Inr d' \<Rightarrow> d'"
    from 1 have "escrow_ok ?d"
      using escrow_exec_ok(1) [of now op d] by (auto simp: q deals_evolve_def split: sum.split)
    then show ?case using Cons.IH(1) [of ?d] 1 by (simp add: q)
  next
    case (2 d)
    let ?d = "case escrow_exec now op d of Inl e \<Rightarrow> d | Inr d' \<Rightarrow> d'"
    from 2 have "escrow_ok ?d"
      using escrow_exec_ok(1) [of now op d] by (auto simp: q deals_evolve_def split: sum.split)
    moreover have "escrow_wealth u ?d = escrow_wealth u d"
      using escrow_exec_ok(2) [of now op d _ u] 2 by (auto simp: q split: sum.split)
    ultimately show ?case using Cons.IH(2) [of ?d] 2 by (simp add: q)
  }
qed

lemma deal_dead_stays:
  assumes "escrow_ok d" and "\<forall>q \<in> set ops. valid_op (snd q)"
    and "row_of (escrow_deals d) k = Some r" and "\<not> deal_live r"
  shows "row_of (escrow_deals (escrow_run ops d)) k = Some r"
  using assms
proof (induction ops arbitrary: d)
  case Nil
  then show ?case by simp
next
  case (Cons q ops)
  obtain now op where q: "q = (now, op)" by (cases q)
  let ?d = "case escrow_exec now op d of Inl e \<Rightarrow> d | Inr d' \<Rightarrow> d'"
  have "deals_evolve d ?d"
    using escrow_exec_ok(1) [of now op d] Cons.prems(1,2) deals_evolve_refl
    by (auto simp: q split: sum.split)
  moreover have "\<not> deal_edge (deal_status r) s" for s
    using Cons.prems(4) by (cases "deal_status r") (simp_all add: deal_live_def)
  ultimately have "escrow_ok ?d" and "row_of (escrow_deals ?d) k = Some r"
    using Cons.prems(3) by (auto simp: deals_evolve_def deal_evolves_def)
  then show ?case using Cons.IH [of ?d] Cons.prems(2,4) by (simp add: q)
qed

section \<open>Properties\<close>

text \<open>C3. Conservation: over any sequence of escrow requests and resolutions, failed ones included,
  the agents' balances plus what the hub holds in custody for live deals plus the recorded fees of a
  token never change, as long as no resolution expires a split deal at the deal level or an active
  milestone.\<close>

theorem escrow_conserves_money:
  assumes "escrow_ok d" and "\<forall>q \<in> set ops. valid_op (snd q)" and "regular_run ops d"
  shows "escrow_wealth u (escrow_run ops d) = escrow_wealth u d \<and> escrow_ok (escrow_run ops d)"
  using escrow_run_ok(1) [OF assms(1,2)] escrow_run_ok(2) [OF assms(1,2,3)] by simp

definition demo_db :: db where
  "demo_db = empty_db\<lparr>
     agents := [(1, \<lparr>ag_name = ''buyer'', ag_is_active = True, ag_tier = TierFree, ag_tier_grace_until = None, ag_xmr_address = None, ag_created_at = 0\<rparr>),
                (2, \<lparr>ag_name = ''seller'', ag_is_active = True, ag_tier = TierFree, ag_tier_grace_until = None, ag_xmr_address = None, ag_created_at = 0\<rparr>)],
     balances := [((1, ''XMR''), \<lparr>bal_available = 1000, bal_pending = 0, bal_total_deposited = 1000,
        bal_total_withdrawn = 0, bal_deposit_address = None, bal_updated_at = 0\<rparr>)]\<rparr>"

lemma demo_db_ok: "escrow_ok demo_db"
  by (simp add: demo_db_def empty_db_def escrow_ok_def) (simp add: table_ok_def keys_of_def)

theorem escrow_conserves_money_witness:
  "escrow_wealth ''XMR'' (escrow_run
     [(1, OpCreate 1 2 100 24 48 24 ''free'' None), (2, OpAccept 1 2), (3, OpDeliver 1 2),
      (4, OpRelease 1 1 60)] demo_db) = escrow_wealth ''XMR'' demo_db"
  using escrow_conserves_money [OF demo_db_ok, of "[(1, OpCreate 1 2 100 24 48 24 ''free'' None),
      (2, OpAccept 1 2), (3, OpDeliver 1 2), (4, OpRelease 1 1 60)]"]
  by simp

text \<open>Expiry of an active milestone refunds the buyer the deal amount less the released amounts
  and less the fees, while custody holds the amounts of the milestones that are not completed; the
  balances of the system change by exactly the difference of the two.\<close>

lemma milestone_expiry_refund:
  assumes "resolve_milestone_expiry now ms d = Inr (d', b)" and "escrow_ok d"
    and "irregular (OpResolveMilestone ms) d" and "b"
  shows "\<exists>r. row_of (escrow_deals d) (ms_escrow_id ms) = Some r
    \<and> escrow_wealth u d' = escrow_wealth u d + (if u = token_or_xmr (deal_token r)
         then max (deal_amount r - deal_total_released r - deal_total_fees r) 0
            - ms_open (ms_escrow_id ms) (escrow_milestones d) else 0)"
  by (rule resolve_milestone_cases [OF assms(1,2)]) (use assms(3,4) in auto)

definition demo_milestones :: "milestone_input list" where
  "demo_milestones =
     [\<lparr>mi_description = ''draft'', mi_amount = 60, mi_delivery_timeout_hours = 1, mi_review_timeout_hours = 1\<rparr>,
      \<lparr>mi_description = ''final'', mi_amount = 40, mi_delivery_timeout_hours = 1, mi_review_timeout_hours = 1\<rparr>]"

text \<open>A split deal of 100 whose first milestone (60) is released with amount \<open>x\<close>, then left alone.\<close>

definition demo_split :: "decimal \<Rightarrow> db" where
  "demo_split x = escrow_run
     [(0, OpCreate 1 2 100 24 48 24 ''free'' (Some demo_milestones)), (0, OpAccept 1 2),
      (0, OpDeliverMilestone 1 1 2), (0, OpReleaseMilestone 1 1 1 x)] demo_db"

definition demo_late :: "decimal \<Rightarrow> db" where
  "demo_late x = fst (resolve_expired (hours 30) (demo_split x))"

lemma demo_split_ok: "escrow_ok (demo_split x)"
  unfolding demo_split_def
  by (rule escrow_run_ok(1) [OF demo_db_ok]) (simp add: demo_milestones_def valid_milestone_def)

lemma milestone_expiry_refund_witness:
  "\<exists>d'. resolve_milestone_expiry (hours 30) (snd (escrow_milestones (demo_split 60) ! 1)) (demo_split 60) = Inr (d', True)
     \<and> escrow_wealth ''XMR'' d' < escrow_wealth ''XMR'' (demo_split 60)"
proof -
  let ?ms = "snd (escrow_milestones (demo_split 60) ! 1)"
  let ?x = "resolve_milestone_expiry (hours 30) ?ms (demo_split 60)"
  have "case ?x of Inl e \<Rightarrow> False | Inr (d', b) \<Rightarrow> b" by code_simp
  then obtain d' where x: "?x = Inr (d', True)" by (auto split: sum.splits)
  have irr: "irregular (OpResolveMilestone ?ms) (demo_split 60)" by code_simp
  from milestone_expiry_refund [OF x demo_split_ok irr, of "''XMR''"]
  obtain r where r: "row_of (escrow_deals (demo_split 60)) (ms_escrow_id ?ms) = Some r"
    and w: "escrow_wealth ''XMR'' d' = escrow_wealth ''XMR'' (demo_split 60) + (if ''XMR'' = token_or_xmr (deal_token r)
         then max (deal_amount r - deal_total_released r - deal_total_fees r) 0
            - ms_open (ms_escrow_id ?ms) (escrow_milestones (demo_split 60)) else 0)"
    by auto
  have "case row_of (escrow_deals (demo_split 60)) (ms_escrow_id ?ms) of None \<Rightarrow> False
    | Some r \<Rightarrow> token_or_xmr (deal_token r) = ''XMR''
        \<and> max (deal_amount r - deal_total_released r - deal_total_fees r) 0 < 40"
    by code_simp
  moreover have "ms_open (ms_escrow_id ?ms) (escrow_milestones (demo_split 60)) = 40" by code_simp
  ultimately show ?thesis using x w by (simp add: r del: One_nat_def)
qed

text \<open>Resolving a split deal at the deal level (its own delivery deadline passes while its
  milestones are in progress) refunds the buyer the whole amount although the completed milestones
  have been paid: the system gains exactly what the completed milestones were worth.\<close>

lemma split_deal_expiry_refund:
  assumes "resolve_single now k d = Inr (d', b)" and "escrow_ok d" and "irregular (OpResolveDeal k) d"
  shows "\<exists>r. row_of (escrow_deals d) k = Some r
    \<and> escrow_wealth u d' = escrow_wealth u d + (if u = token_or_xmr (deal_token r)
         then deal_amount r - ms_open k (escrow_milestones d) else 0)"
  by (rule resolve_single_cases [OF assms(1,2)])
    (use assms(3) in \<open>auto simp: deal_live_def split: option.splits\<close>)

lemma split_deal_expiry_refund_witness:
  "\<exists>d' b r. resolve_single (hours 60) 1 (demo_split 60) = Inr (d', b)
     \<and> escrow_wealth ''XMR'' d' = escrow_wealth ''XMR'' (demo_split 60) + 60"
proof -
  let ?x = "resolve_single (hours 60) 1 (demo_split 60)"
  have "case ?x of Inl e \<Rightarrow> False | Inr p \<Rightarrow> True" by code_simp
  then obtain d' b where x: "?x = Inr (d', b)" by (auto split: sum.splits)
  have irr: "irregular (OpResolveDeal 1) (demo_split 60)" by code_simp
  from split_deal_expiry_refund [OF x demo_split_ok irr, of "''XMR''"]
  obtain r where r: "row_of (escrow_deals (demo_split 60)) 1 = Some r"
    and w: "escrow_wealth ''XMR'' d' = escrow_wealth ''XMR'' (demo_split 60) + (if ''XMR'' = token_or_xmr (deal_token r)
         then deal_amount r - ms_open 1 (escrow_milestones (demo_split 60)) else 0)"
    by auto
  have "case row_of (escrow_deals (demo_split 60)) 1 of None \<Rightarrow> False
    | Some r \<Rightarrow> token_or_xmr (deal_token r) = ''XMR'' \<and> deal_amount r = 100" by code_simp
  moreover have "ms_open 1 (escrow_milestones (demo_split 60)) = 40" by code_simp
  ultimately show ?thesis using x w by (simp add: r del: One_nat_def)
qed

text \<open>The refund of an expired milestone goes wrong in both directions: on the same deal, when
  the first milestone was released in full the system loses the fee, and when it was released in
  part the buyer is refunded the unreleased part twice.\<close>

lemma milestone_expiry_not_conservative:
  "escrow_wealth ''XMR'' (demo_split 60) = 1000 \<and> escrow_wealth ''XMR'' (demo_late 60) = 1000 - 6 / 10
   \<and> escrow_wealth ''XMR'' (demo_split 10) = 1000 \<and> escrow_wealth ''XMR'' (demo_late 10) = 1000 + 499 / 10"
  by code_simp

text \<open>C4. The status machine: no run of requests and resolutions changes a deal that is completed,
  cancelled, expired or partially completed, and a single successful operation moves any deal along
  one edge of the state diagram or leaves it, keeping its amount, token and parties.\<close>

theorem escrow_status_machine:
  assumes "escrow_ok d" and "row_of (escrow_deals d) k = Some r"
    and "\<forall>q \<in> set ops. valid_op (snd q)" and "valid_op op"
  shows "(\<not> deal_live r \<longrightarrow> row_of (escrow_deals (escrow_run ops d)) k = Some r)
    \<and> (\<forall>d' now. escrow_exec now op d = Inr d' \<longrightarrow>
         (\<exists>r'. row_of (escrow_deals d') k = Some r' \<and> deal_evolves r r'))"
  using deal_dead_stays [OF assms(1,3,2)] escrow_exec_ok(1) [OF _ assms(1,4)] assms(2)
  by (auto simp: deals_evolve_def)

theorem escrow_status_machine_witness:
  "\<exists>r. row_of (escrow_deals (escrow_run [(5, OpCancel 1 1), (6, OpAccept 1 2)]
       (escrow_run [(0, OpCreate 1 2 100 24 48 24 ''free'' None), (1, OpCancel 1 1)] demo_db))) 1 = Some r
     \<and> deal_status r = EscrowCancelled"
proof -
  let ?d = "escrow_run [(0, OpCreate 1 2 100 24 48 24 ''free'' None), (1, OpCancel 1 1)] demo_db"
  have ok: "escrow_ok ?d" by (rule escrow_run_ok(1) [OF demo_db_ok]) simp
  have "case row_of (escrow_deals ?d) 1 of None \<Rightarrow> False | Some r \<Rightarrow> deal_status r = EscrowCancelled"
    by code_simp
  then obtain r where r: "row_of (escrow_deals ?d) 1 = Some r" "deal_status r = EscrowCancelled"
    by (auto split: option.splits)
  have v: "\<forall>q \<in> set [(5, OpCancel 1 1), (6, OpAccept 1 2)]. valid_op (snd q)" "valid_op (OpCancel 1 1)"
    by simp_all
  have dead: "\<not> deal_live r" using r(2) by (simp add: deal_live_def)
  from escrow_status_machine [OF ok r(1) v] dead r(2) show ?thesis by blast
qed

text \<open>Releasing a single deal: only the buyer can, only after delivery and only for an amount
  between zero and the deal amount; the seller receives the amount less the fee, the buyer the rest,
  and nobody else's balance moves.\<close>

lemma release_escrow_pays:
  assumes "release_escrow now k a x d = Inr (d', r')" and "escrow_ok d"
  shows "\<exists>r. row_of (escrow_deals d) k = Some r \<and> deal_buyer_id r = a
    \<and> deal_status r = EscrowDelivered \<and> deal_status r' = EscrowCompleted \<and> 0 \<le> x \<and> x \<le> deal_amount r
    \<and> (\<forall>b u. available_of b u (balances d') = available_of b u (balances d)
         + (if b = deal_seller_id r \<and> u = token_or_xmr (deal_token r) then x - x * fee_percent_of r else 0)
         + (if b = a \<and> u = token_or_xmr (deal_token r) then deal_amount r - x else 0))"
proof -
  obtain r where r: "row_of (escrow_deals d) k = Some r" and st: "deal_status r = EscrowDelivered"
    and a: "deal_buyer_id r = a" and x: "0 \<le> x" "x \<le> deal_amount r" and st': "deal_status r' = EscrowCompleted"
    and av: "\<forall>b u. available_of b u (balances d') = available_of b u (balances d)
           + (if b = deal_seller_id r \<and> u = token_or_xmr (deal_token r) then max (x - x * fee_percent_of r) 0 else 0)
           + (if b = deal_buyer_id r \<and> u = token_or_xmr (deal_token r) then max (deal_amount r - x) 0 else 0)"
    by (rule release_escrow_effect [OF assms], rule that)
  note pct = fee_percent_range [OF escrow_okD(4) [OF assms(2) r]]
  have "max (x - x * fee_percent_of r) 0 = x - x * fee_percent_of r"
    using x(1) pct mult_left_mono [of "fee_percent_of r" 1 x] by (simp only: max_absorb1 le_diff_eq add_0) simp
  moreover have "max (deal_amount r - x) 0 = deal_amount r - x" using x(2) by simp
  ultimately show ?thesis using r st a x st' av by auto
qed

definition demo_delivered :: db where
  "demo_delivered = escrow_run [(0, OpCreate 1 2 100 24 48 24 ''free'' None), (1, OpAccept 1 2),
     (2, OpDeliver 1 2)] demo_db"

lemma demo_delivered_ok: "escrow_ok demo_delivered"
  unfolding demo_delivered_def by (rule escrow_run_ok(1) [OF demo_db_ok]) simp

lemma release_escrow_pays_witness:
  "\<exists>d' r'. release_escrow 9 1 1 60 demo_delivered = Inr (d', r')
     \<and> available_of 2 ''XMR'' (balances d') = 594 / 10 \<and> available_of 1 ''XMR'' (balances d') = 940"
proof -
  have "case release_escrow 9 1 1 60 demo_delivered of Inl e \<Rightarrow> False | Inr p \<Rightarrow> True" by code_simp
  then obtain d' r' where run: "release_escrow 9 1 1 60 demo_delivered = Inr (d', r')"
    by (auto split: sum.splits)
  have "case row_of (escrow_deals demo_delivered) 1 of None \<Rightarrow> False
    | Some r \<Rightarrow> deal_seller_id r = 2 \<and> fee_percent_of r = 1 / 100 \<and> deal_amount r = 100
        \<and> token_or_xmr (deal_token r) = ''XMR''" by code_simp
  moreover have "available_of 2 ''XMR'' (balances demo_delivered) = 0"
    "available_of 1 ''XMR'' (balances demo_delivered) = 900" by code_simp+
  ultimately show ?thesis
    using release_escrow_pays [OF run demo_delivered_ok] run
    by (auto simp del: One_nat_def)
qed

text \<open>The party each request belongs to.\<close>

fun op_actor_ok :: "escrow_op \<Rightarrow> db \<Rightarrow> bool" where
  "op_actor_ok (OpAccept k a) d = (\<exists>r. row_of (escrow_deals d) k = Some r \<and> deal_seller_id r = a)"
| "op_actor_ok (OpDeliver k a) d = (\<exists>r. row_of (escrow_deals d) k = Some r \<and> deal_seller_id r = a)"
| "op_actor_ok (OpRelease k a x) d = (\<exists>r. row_of (escrow_deals d) k = Some r \<and> deal_buyer_id r = a)"
| "op_actor_ok (OpCancel k a) d = (\<exists>r. row_of (escrow_deals d) k = Some r \<and> deal_buyer_id r = a)"
| "op_actor_ok (OpDeliverMilestone k s a) d = (\<exists>r. row_of (escrow_deals d) k = Some r \<and> deal_seller_id r = a)"
| "op_actor_ok (OpReleaseMilestone k s a x) d = (\<exists>r. row_of (escrow_deals d) k = Some r \<and> deal_buyer_id r = a)"
| "op_actor_ok op d = True"

text \<open>Authorisation: if a request changes a deal's row or its milestones, the requester is the
  party the action belongs to (the seller accepts and delivers, the buyer releases and cancels), for
  single deals and milestones alike; a request by anybody else raises.\<close>

lemma escrow_authorised:
  assumes "\<not> op_actor_ok op d"
  shows "\<exists>e. escrow_exec now op d = Inl e"
proof (cases op)
  case (OpAccept k a)
  with assms show ?thesis by (auto simp: accept_escrow_def split: option.split)
next
  case (OpDeliver k a)
  with assms show ?thesis by (auto simp: deliver_escrow_def split: option.split)
next
  case (OpRelease k a x)
  with assms show ?thesis by (auto simp: release_escrow_def split: option.split)
next
  case (OpCancel k a)
  with assms show ?thesis by (auto simp: cancel_escrow_def split: option.split)
next
  case (OpDeliverMilestone k s a)
  with assms show ?thesis by (auto simp: deliver_milestone_def split: option.split)
next
  case (OpReleaseMilestone k s a x)
  with assms show ?thesis by (auto simp: release_milestone_def split: option.split)
qed (use assms in auto)

lemma escrow_authorised_witness:
  "\<exists>e. escrow_exec 9 (OpRelease 1 7 60) demo_delivered = Inl e"
proof -
  have "case row_of (escrow_deals demo_delivered) 1 of None \<Rightarrow> False | Some r \<Rightarrow> deal_buyer_id r = 1"
    by code_simp
  then have "\<not> op_actor_ok (OpRelease 1 7 60) demo_delivered"
    by (auto split: option.splits)
  then show ?thesis by (rule escrow_authorised)
qed

end
