(* ===== verification/Escrow_Sweep.thy ===== *)
theory Escrow_Sweep
  imports Escrow_Life
begin

text \<open>
  The expiry sweep (\<open>resolve_expired\<close>): no resolution step raises, every deal whose deadline has
  passed is settled by one sweep, and a second sweep at the same time finds no deal to settle. The
  trust scores the handlers adjust stay between 0 and 100.
\<close>

section \<open>Resolution steps return\<close>

lemma row_of_update_Some: "row_of t k = Some r \<Longrightarrow> \<exists>r'. row_of (snd (update_row g f x t)) k = Some r'"
  by (simp add: row_of_update_row)

lemma resolve_single_returns: "\<exists>d' b. resolve_single now k d = Inr (d', b)"
proof (cases "row_of (escrow_deals d) k")
  case None
  then have "resolve_single now k d = Inr (d, False)" by (simp add: resolve_single_def)
  then show ?thesis by blast
next
  case (Some r)
  obtain n t where e: "escrow_expire now k (escrow_deals d) = (n, t)" by fastforce
  obtain n' t' where f: "escrow_release now (deal_amount r) (deal_amount r * fee_percent_of r) k (escrow_deals d) = (n', t')"
    by fastforce
  have "\<exists>r'. row_of t k = Some r'" and "\<exists>r'. row_of t' k = Some r'"
    using e f row_of_update_Some [OF Some] by (auto simp: escrow_expire_def escrow_release_def dest: sym arg_cong [where f = snd])
      (metis snd_conv)+
  then show ?thesis
    by (auto simp: resolve_single_def Some expire_not_accepted_def expire_not_delivered_def
        auto_release_full_def e f Let_def refetch_def escrow_frame)
qed

lemma resolve_milestone_returns: "\<exists>d' b. resolve_milestone_expiry now ms d = Inr (d', b)"
proof (cases "row_of (escrow_deals d) (ms_escrow_id ms)")
  case None
  then have "resolve_milestone_expiry now ms d = Inr (d, False)" by (simp add: resolve_milestone_expiry_def)
  then show ?thesis by blast
next
  case (Some r)
  have expire: "\<exists>d' b. expire_active_milestone now (ms_escrow_id ms) r i m d = Inr (d', b)" for i m
    by (cases "milestone_expire now i (escrow_milestones d)")
      (auto simp: expire_active_milestone_def Let_def refetch_def escrow_frame row_of_modify_row Some)
  have release: "\<exists>d' b. auto_release_milestone now (ms_escrow_id ms) r i m d = Inr (d', b)" for i m
    by (cases "milestone_release now (ms_amount m) (ms_amount m * fee_percent_of r) i (escrow_milestones d)")
      (auto simp: auto_release_milestone_def Let_def refetch_def escrow_frame row_of_modify_row Some
        finish_deal_frame next_milestone_frame)
  show ?thesis
    using expire release by (auto simp: resolve_milestone_expiry_def Some split: option.split)
qed

section \<open>The sweep settles every overdue deal\<close>

definition overdue :: "moment \<Rightarrow> escrow_deal \<Rightarrow> bool" where
  "overdue now r \<longleftrightarrow> deal_live r \<and> (case deal_expires_at r of None \<Rightarrow> False | Some e \<Rightarrow> e \<le> now)"

lemma get_pending_expiry_overdue:
  "table_ok t \<Longrightarrow> (k, r) \<in> set (get_pending_expiry now t) \<longleftrightarrow> row_of t k = Some r \<and> overdue now r"
proof -
  assume ok: "table_ok t"
  have "(k, r) \<in> set (get_pending_expiry now t) \<longleftrightarrow> (k, r) \<in> set t \<and> overdue now r"
    by (auto simp: get_pending_expiry_def select_where_def overdue_def deal_live_def split: option.split)
  then show ?thesis using mem_row_of [OF ok] row_of_Some_mem by metis
qed

definition overdue_ids :: "moment \<Rightarrow> db \<Rightarrow> ident set" where
  "overdue_ids now d = {k. \<exists>r. row_of (escrow_deals d) k = Some r \<and> overdue now r}"

lemma overdue_ids_step:
  assumes "deal_step k r r' d d'" and "overdue now r' \<Longrightarrow> overdue now r"
  shows "overdue_ids now d' \<subseteq> overdue_ids now d"
    and "\<not> overdue now r' \<Longrightarrow> k \<notin> overdue_ids now d'"
proof -
  have row: "row_step k r r' (escrow_deals d) (escrow_deals d')"
    using assms(1) by (simp add: deal_step_def)
  then have "row_of (escrow_deals d) k = Some r" by (simp add: row_step_def)
  then show "overdue_ids now d' \<subseteq> overdue_ids now d"
    using assms(2) by (auto simp: overdue_ids_def row_step_row_of [OF row] split: if_splits)
  show "\<not> overdue now r' \<Longrightarrow> k \<notin> overdue_ids now d'"
    by (simp add: overdue_ids_def row_step_row_of [OF row])
qed

lemma resolve_single_overdue:
  assumes "resolve_single now k d = Inr (d', b)" and "escrow_ok d"
  shows "overdue_ids now d' \<subseteq> overdue_ids now d - {k}" and "escrow_ok d'"
proof -
  show "overdue_ids now d' \<subseteq> overdue_ids now d - {k}"
  proof (rule resolve_single_cases [OF assms])
    assume "d' = d" and "\<And>r. row_of (escrow_deals d) k = Some r \<Longrightarrow> \<not> deal_live r"
    then show ?thesis by (auto simp: overdue_ids_def overdue_def)
  next
    fix r r'
    assume "deal_step k r r' d d'" and "\<not> deal_live r'"
    then show ?thesis
      using overdue_ids_step [of k r r' d d' now] by (auto simp: overdue_def)
  qed
  show "escrow_ok d'"
    using resolve_single_ok(1) [OF assms] by (simp add: deals_evolve_def)
qed

lemma resolve_milestone_overdue:
  assumes "resolve_milestone_expiry now ms d = Inr (d', b)" and "escrow_ok d"
  shows "overdue_ids now d' \<subseteq> overdue_ids now d" and "escrow_ok d'"
proof -
  show "overdue_ids now d' \<subseteq> overdue_ids now d"
  proof (rule resolve_milestone_cases [OF assms])
    assume "d' = d"
    then show ?thesis by simp
  next
    fix r r'
    assume step: "deal_step (ms_escrow_id ms) r r' d d'" and st: "deal_status r = EscrowAccepted"
      and st': "deal_status r' = EscrowCompleted \<or> deal_status r' = EscrowAccepted"
    have "deal_status r' = EscrowAccepted \<Longrightarrow> deal_expires_at r' = deal_expires_at r"
      using step st by (simp add: deal_step_def)
    then show ?thesis
      using st st' by (intro overdue_ids_step(1) [OF step]) (auto simp: overdue_def deal_live_def)
  next
    fix r r'
    assume step: "deal_step (ms_escrow_id ms) r r' d d'"
      and "deal_status r' = EscrowExpired \<or> deal_status r' = EscrowPartiallyCompleted"
    then show ?thesis
      by (intro overdue_ids_step(1) [OF step]) (auto simp: overdue_def deal_live_def)
  qed
  show "escrow_ok d'"
    using resolve_milestone_ok(1) [OF assms] by (simp add: deals_evolve_def)
qed

lemma sweep_deals:
  assumes "escrow_ok d" and "sweep (\<lambda>(k, deal). resolve_single now k) ks (d, n) = (d', n')"
  shows "escrow_ok d' \<and> overdue_ids now d' \<subseteq> overdue_ids now d - set (map fst ks)"
  using assms
proof (induction ks arbitrary: d n)
  case Nil
  then show ?case by simp
next
  case (Cons q ks)
  obtain k r where q: "q = (k, r)" by (cases q)
  obtain d1 b where run: "resolve_single now k d = Inr (d1, b)"
    using resolve_single_returns by blast
  from Cons.IH [OF resolve_single_overdue(2) [OF run Cons.prems(1)]] Cons.prems(2)
    resolve_single_overdue(1) [OF run Cons.prems(1)]
  show ?case by (fastforce simp: q run)
qed

lemma sweep_milestones:
  assumes "escrow_ok d" and "sweep (\<lambda>(i, ms). resolve_milestone_expiry now ms) ks (d, n) = (d', n')"
  shows "escrow_ok d' \<and> overdue_ids now d' \<subseteq> overdue_ids now d"
  using assms
proof (induction ks arbitrary: d n)
  case Nil
  then show ?case by simp
next
  case (Cons q ks)
  obtain i ms where q: "q = (i, ms)" by (cases q)
  obtain d1 b where run: "resolve_milestone_expiry now ms d = Inr (d1, b)"
    using resolve_milestone_returns by blast
  from Cons.IH [OF resolve_milestone_overdue(2) [OF run Cons.prems(1)]] Cons.prems(2)
    resolve_milestone_overdue(1) [OF run Cons.prems(1)]
  show ?case by (fastforce simp: q run)
qed

text \<open>The expiry sweep is complete and idempotent on deals: after one call, no deal is left whose
  deadline has passed (each has been refunded, released or found settled), and none of the steps it
  takes raises, so the count it returns covers every one of them.\<close>

lemma sweep_settles_overdue:
  assumes "escrow_ok d"
  shows "get_pending_expiry now (escrow_deals (fst (resolve_expired now d))) = []
    \<and> escrow_ok (fst (resolve_expired now d))"
proof -
  obtain d1 n1 where s1: "sweep (\<lambda>(k, deal). resolve_single now k)
      (get_pending_expiry now (escrow_deals d)) (d, 0) = (d1, n1)" by fastforce
  obtain d2 n2 where s2: "sweep (\<lambda>(i, ms). resolve_milestone_expiry now ms)
      (get_pending_milestone_expiry now (escrow_milestones d1)) (d1, n1) = (d2, n2)" by fastforce
  have r: "resolve_expired now d = (d2, n2)"
    by (simp add: resolve_expired_def s1 s2)
  have ok1: "escrow_ok d1" and left: "overdue_ids now d1 \<subseteq> overdue_ids now d -
      set (map fst (get_pending_expiry now (escrow_deals d)))"
    using sweep_deals [OF assms s1] by blast+
  have "overdue_ids now d \<subseteq> set (map fst (get_pending_expiry now (escrow_deals d)))"
    using get_pending_expiry_overdue [OF escrow_okD(2) [OF assms]] by (force simp: overdue_ids_def)
  with left have "overdue_ids now d1 = {}" by blast
  with sweep_milestones [OF ok1 s2] have none: "overdue_ids now d2 = {}" and ok2: "escrow_ok d2"
    by blast+
  have "(k, r) \<notin> set (get_pending_expiry now (escrow_deals d2))" for k r
    using none get_pending_expiry_overdue [OF escrow_okD(2) [OF ok2]] by (auto simp: overdue_ids_def)
  then have "get_pending_expiry now (escrow_deals d2) = []"
    by (metis list.set_intros(1) neq_Nil_conv surj_pair)
  with ok2 show ?thesis by (simp add: r)
qed

lemma sweep_settles_overdue_witness:
  "get_pending_expiry (hours 60) (escrow_deals (fst (resolve_expired (hours 60) demo_delivered))) = []
   \<and> get_pending_expiry (hours 60) (escrow_deals demo_delivered) \<noteq> []"
proof -
  have "get_pending_expiry (hours 60) (escrow_deals demo_delivered) \<noteq> []" by code_simp
  then show ?thesis using sweep_settles_overdue [OF demo_delivered_ok, of "hours 60"] by blast
qed
section \<open>Trust scores\<close>

definition trust_ok :: "db \<Rightarrow> bool" where
  "trust_ok d \<longleftrightarrow> (\<forall>a r. row_of (reputations d) a = Some r \<longrightarrow> 0 \<le> rep_trust_score r \<and> rep_trust_score r \<le> 100)"

lemma trust_frame:
  "reputations (credit_if_positive now a x tok d) = reputations d"
  "reputations (record_fee now k tok x d) = reputations d"
  by (simp_all add: credit_if_positive_def record_fee_def)

lemma trust_ok_cong: "reputations d' = reputations d \<Longrightarrow> trust_ok d' = trust_ok d"
  by (simp add: trust_ok_def)

lemma trust_ok_adjust [simp]: "trust_ok d \<Longrightarrow> trust_ok (adjust_trust now a x d)"
  by (auto simp: trust_ok_def adjust_trust_def clamp_trust_def row_of_update_where)

lemma trust_ok_completion [simp]: "trust_ok d \<Longrightarrow> trust_ok (apply_completion_trust now b s x y d)"
  by (simp add: apply_completion_trust_def)

lemma trust_ok_fields [simp]:
  "trust_ok (d\<lparr>balances := t1\<rparr>) = trust_ok d" "trust_ok (d\<lparr>escrow_deals := t2\<rparr>) = trust_ok d"
  "trust_ok (d\<lparr>escrow_milestones := t3\<rparr>) = trust_ok d" "trust_ok (d\<lparr>audit_log := l\<rparr>) = trust_ok d"
  "trust_ok (d\<lparr>webhook_events := w\<rparr>) = trust_ok d"
  "trust_ok (credit_if_positive now a x tok d) = trust_ok d"
  "trust_ok (record_fee now k tok x d) = trust_ok d"
  by (simp_all add: trust_ok_def trust_frame)

lemma trust_ok_finish [simp]: "trust_ok d \<Longrightarrow> trust_ok (finish_deal now k r x y d)"
  by (simp add: finish_deal_def Let_def)

lemma trust_ok_next [simp]: "trust_ok d \<Longrightarrow> trust_ok (next_milestone now k s x y d)"
  by (simp add: next_milestone_def Let_def split: option.split)

lemma create_trust: "create_escrow now b s x ah dh rh tier mis d = Inr (d', k) \<Longrightarrow> trust_ok d \<Longrightarrow> trust_ok d'"
  by (auto simp: create_escrow_def Let_def and_then_Inr_iff escrow_frame split: if_splits option.splits)

lemma accept_trust: "accept_escrow now k a d = Inr (d', r) \<Longrightarrow> trust_ok d \<Longrightarrow> trust_ok d'"
  by (auto simp: accept_escrow_def Let_def and_then_Inr_iff escrow_frame refetch_Inr
      split: if_splits option.splits)

lemma deliver_trust: "deliver_escrow now k a d = Inr (d', r) \<Longrightarrow> trust_ok d \<Longrightarrow> trust_ok d'"
  by (auto simp: deliver_escrow_def Let_def and_then_Inr_iff escrow_frame refetch_Inr
      split: if_splits option.splits)

lemma release_trust: "release_escrow now k a x d = Inr (d', r) \<Longrightarrow> trust_ok d \<Longrightarrow> trust_ok d'"
  by (auto simp: release_escrow_def Let_def and_then_Inr_iff escrow_frame refetch_Inr
      split: if_splits option.splits)

lemma cancel_trust: "cancel_escrow now k a d = Inr (d', r) \<Longrightarrow> trust_ok d \<Longrightarrow> trust_ok d'"
  by (auto simp: cancel_escrow_def Let_def and_then_Inr_iff escrow_frame refetch_Inr
      split: if_splits option.splits)

lemma deliver_milestone_trust: "deliver_milestone now k s a d = Inr (d', r) \<Longrightarrow> trust_ok d \<Longrightarrow> trust_ok d'"
  by (auto simp: deliver_milestone_def Let_def and_then_Inr_iff escrow_frame
      split: if_splits option.splits prod.splits)

lemma release_milestone_trust:
  assumes "release_milestone now k s a x d = Inr (d', fresh)" and "escrow_ok d" and "trust_ok d"
  shows "trust_ok d'"
proof -
  have "\<exists>r mid m. row_of (escrow_deals d) k = Some r \<and> get_by_escrow_and_sequence k s (escrow_milestones d) = Some (mid, m)"
    by (rule release_milestone_effect [OF assms(1,2)]) blast
  then obtain r mid and m :: escrow_milestone where r: "row_of (escrow_deals d) k = Some r"
    and f: "get_by_escrow_and_sequence k s (escrow_milestones d) = Some (mid, m)" by blast
  let ?m = "milestone_release now x (x * fee_percent_of r) mid (escrow_milestones d)"
  show ?thesis
    using assms(1,3)
    by (cases ?m) (auto simp: release_milestone_def r f Let_def and_then_Inr_iff escrow_frame refetch_Inr
        split: if_splits)
qed

lemma resolve_single_trust:
  assumes "resolve_single now k d = Inr (d', b)" and "trust_ok d"
  shows "trust_ok d'"
proof (cases "row_of (escrow_deals d) k")
  case None
  then show ?thesis using assms by (simp add: resolve_single_def)
next
  case (Some r)
  obtain n t where e: "escrow_expire now k (escrow_deals d) = (n, t)" by fastforce
  obtain n' t' where f: "escrow_release now (deal_amount r) (deal_amount r * fee_percent_of r) k (escrow_deals d) = (n', t')"
    by fastforce
  show ?thesis
    using assms
    by (auto simp: resolve_single_def Some expire_not_accepted_def expire_not_delivered_def
        auto_release_full_def e f Let_def and_then_Inr_iff refetch_Inr escrow_frame split: if_splits)
qed

lemma resolve_milestone_trust:
  assumes "resolve_milestone_expiry now ms d = Inr (d', b)" and "trust_ok d"
  shows "trust_ok d'"
  using resolve_milestone_branches [OF assms(1)]
proof cases
  case 1
  then show ?thesis using assms(2) by simp
next
  case (2 r i m)
  obtain n t where t: "milestone_expire now i (escrow_milestones d) = (n, t)" by fastforce
  show ?thesis
    using 2(5) assms(2)
    by (auto simp: expire_active_milestone_def t Let_def and_then_Inr_iff refetch_Inr escrow_frame
        split: if_splits)
next
  case (3 r i m)
  obtain n t where t: "milestone_release now (ms_amount m) (ms_amount m * fee_percent_of r) i (escrow_milestones d) = (n, t)"
    by fastforce
  show ?thesis
    using 3(5) assms(2)
    by (auto simp: auto_release_milestone_def t Let_def and_then_Inr_iff refetch_Inr escrow_frame
        split: if_splits)
qed

lemmas handler_trust = create_trust accept_trust deliver_trust release_trust cancel_trust
  deliver_milestone_trust release_milestone_trust resolve_single_trust resolve_milestone_trust

lemma escrow_exec_trust:
  assumes "escrow_exec now op d = Inr d'" and "escrow_ok d" and "trust_ok d"
  shows "trust_ok d'"
  using assms by (cases op) (auto simp: map_sum_fst_Inr dest: handler_trust)

text \<open>Trust scores stay in range: every successful escrow operation, whatever bonus or penalty it
  applies, leaves all trust scores between 0 and 100.\<close>


lemma trust_stays_in_range:
  assumes "\<forall>a r. row_of (reputations d) a = Some r \<longrightarrow> 0 \<le> rep_trust_score r \<and> rep_trust_score r \<le> 100"
    and "escrow_ok d" and "\<forall>q \<in> set ops. valid_op (snd q)"
    and "row_of (reputations (escrow_run ops d)) a = Some r"
  shows "0 \<le> rep_trust_score r \<and> rep_trust_score r \<le> 100"
proof -
  have "trust_ok (escrow_run ops d)" if "trust_ok d"
    using that assms(2,3)
  proof (induction ops arbitrary: d)
    case Nil
    then show ?case by simp
  next
    case (Cons q ops)
    obtain now op where q: "q = (now, op)" by (cases q)
    let ?d = "case escrow_exec now op d of Inl e \<Rightarrow> d | Inr d' \<Rightarrow> d'"
    have "trust_ok ?d" and "escrow_ok ?d"
      using Cons.prems escrow_exec_trust [of now op d] escrow_exec_ok(1) [of now op d]
      by (auto simp: q deals_evolve_def split: sum.splits)
    then show ?case using Cons.IH [of ?d] Cons.prems(3) by (simp add: q)
  qed
  with assms(1,4) show ?thesis by (simp add: trust_ok_def)
qed

lemma trust_stays_in_range_witness:
  "\<exists>r. row_of (reputations (escrow_run [(3, OpRelease 1 1 100)]
      (demo_delivered\<lparr>reputations := [(2, \<lparr>rep_trust_score = 100, rep_total_transactions = 0, rep_calculated_at = 0\<rparr>)]\<rparr>))) 2 = Some r
    \<and> rep_trust_score r \<le> 100"
proof -
  let ?d = "demo_delivered\<lparr>reputations := [(2, \<lparr>rep_trust_score = 100, rep_total_transactions = 0, rep_calculated_at = 0\<rparr>)]\<rparr>"
  let ?t = "reputations (escrow_run [(3, OpRelease 1 1 100)] ?d)"
  have "row_of ?t 2 \<noteq> None" by code_simp
  then obtain r where r: "row_of ?t 2 = Some r" by auto
  have start: "\<forall>a r. row_of (reputations ?d) a = Some r \<longrightarrow> 0 \<le> rep_trust_score r \<and> rep_trust_score r \<le> 100"
    by auto
  have ok: "escrow_ok ?d" using demo_delivered_ok by (simp add: escrow_ok_def)
  from trust_stays_in_range [OF start ok _ r] r show ?thesis by auto
qed

end
