(* ===== verification/Channel.thy ===== *)
theory Channel
  imports Escrow_Custody
begin

text \<open>
  Payment channels: the deposit-backed half of \<open>sthrip/db/channel_repo.py\<close> (transitions
  OPEN, CLOSING, SETTLED, CLOSED, interpretations of \<open>guarded_transition\<close>) and the handlers of
  \<open>sthrip/services/channel_service.py\<close>. \<open>open_channel\<close>, \<open>settle\<close> and \<open>dispute\<close> end in an audit call
  that does not bind; each is the sequence of its writes (\<open>..._writes\<close>) and that call.
\<close>

type_synonym channel_table = "(ident, payment_channel) table"

section \<open>The repository\<close>

definition open_with_deposit ::
  "moment \<Rightarrow> ident \<Rightarrow> ident \<Rightarrow> decimal \<Rightarrow> decimal \<Rightarrow> int \<Rightarrow> payment_channel"
where
  "open_with_deposit now a b deposit_a deposit_b period =
     \<lparr>ch_agent_a_id = a, ch_agent_b_id = b, ch_capacity = deposit_a + deposit_b,
      ch_status = ChannelOpen, ch_deposit_a = deposit_a, ch_deposit_b = deposit_b,
      ch_balance_a = deposit_a, ch_balance_b = deposit_b, ch_nonce = 0,
      ch_last_update_sig_a = None, ch_last_update_sig_b = None, ch_settlement_period = period,
      ch_settled_at = None, ch_closes_at = None, ch_closed_at = None, ch_created_at = now\<rparr>"

text \<open>The unique constraint on channel and nonce is checked by the flush.\<close>

definition repo_submit_update ::
  "ident \<Rightarrow> int \<Rightarrow> decimal \<Rightarrow> decimal \<Rightarrow> string \<Rightarrow> string \<Rightarrow> (ident, channel_update) table
    \<Rightarrow> (channel_update \<times> (ident, channel_update) table) outcome"
where
  "repo_submit_update c nonce bal_a bal_b sig_a sig_b t =
     (if select_where (\<lambda>u. cu_channel_id u = c \<and> cu_nonce u = nonce) t \<noteq> []
      then Inl (RuntimeError ''IntegrityError'')
      else let u = \<lparr>cu_channel_id = c, cu_nonce = nonce, cu_balance_a = bal_a, cu_balance_b = bal_b,
                    cu_signature_a = sig_a, cu_signature_b = sig_b\<rparr>
           in Inr (u, add_row u t))"

definition get_latest_update :: "ident \<Rightarrow> (ident, channel_update) table \<Rightarrow> channel_update option" where
  "get_latest_update c t =
     (case sort_key (\<lambda>(k, u). - cu_nonce u) (select_where (\<lambda>u. cu_channel_id u = c) t) of
        [] \<Rightarrow> None
      | (k, u) # q \<Rightarrow> Some u)"

definition initiate_settlement ::
  "moment \<Rightarrow> int \<Rightarrow> decimal \<Rightarrow> decimal \<Rightarrow> string \<Rightarrow> string \<Rightarrow> ident \<Rightarrow> channel_table \<Rightarrow> nat \<times> channel_table"
where
  "initiate_settlement now nonce bal_a bal_b sig_a sig_b c t =
     (let closes_at = now + seconds (case row_of t c of None \<Rightarrow> 3600
                                     | Some ch \<Rightarrow> ch_settlement_period ch)
      in update_row (\<lambda>ch. ch_status ch = ChannelOpen)
           (\<lambda>ch. ch\<lparr>ch_status := ChannelClosing, ch_nonce := nonce, ch_balance_a := bal_a,
                    ch_balance_b := bal_b, ch_last_update_sig_a := Some sig_a,
                    ch_last_update_sig_b := Some sig_b, ch_closes_at := Some closes_at\<rparr>) c t)"

definition channel_settle :: "moment \<Rightarrow> ident \<Rightarrow> channel_table \<Rightarrow> nat \<times> channel_table" where
  "channel_settle now =
     update_row (\<lambda>ch. ch_status ch = ChannelClosing)
       (\<lambda>ch. ch\<lparr>ch_status := ChannelSettled, ch_settled_at := Some now\<rparr>)"

definition finalize_close :: "moment \<Rightarrow> ident \<Rightarrow> channel_table \<Rightarrow> nat \<times> channel_table" where
  "finalize_close now =
     update_row (\<lambda>ch. ch_status ch = ChannelSettled)
       (\<lambda>ch. ch\<lparr>ch_status := ChannelClosed, ch_closed_at := Some now\<rparr>)"

text \<open>A dispute replaces the closing state and stays in CLOSING.\<close>

definition repo_dispute ::
  "int \<Rightarrow> decimal \<Rightarrow> decimal \<Rightarrow> string \<Rightarrow> string \<Rightarrow> ident \<Rightarrow> channel_table \<Rightarrow> nat \<times> channel_table"
where
  "repo_dispute nonce bal_a bal_b sig_a sig_b =
     update_row (\<lambda>ch. ch_status ch = ChannelClosing)
       (\<lambda>ch. ch\<lparr>ch_nonce := nonce, ch_balance_a := bal_a, ch_balance_b := bal_b,
                ch_last_update_sig_a := Some sig_a, ch_last_update_sig_b := Some sig_b\<rparr>)"

definition get_channels_ready_to_settle :: "moment \<Rightarrow> channel_table \<Rightarrow> (ident \<times> payment_channel) list" where
  "get_channels_ready_to_settle now t =
     select_where (\<lambda>ch. ch_status ch = ChannelClosing
       \<and> (case ch_closes_at ch of None \<Rightarrow> False | Some e \<Rightarrow> e \<le> now)) t"

definition channel_list_by_agent ::
  "ident \<Rightarrow> channel_status option \<Rightarrow> nat \<Rightarrow> channel_table \<Rightarrow> (ident \<times> payment_channel) list"
where
  "channel_list_by_agent a st limit t =
     take (min limit MAX_QUERY_LIMIT)
       (sort_key (\<lambda>(k, ch). - ch_created_at ch)
         (select_where (\<lambda>ch. (ch_agent_a_id ch = a \<or> ch_agent_b_id ch = a)
            \<and> (case st of None \<Rightarrow> True | Some s \<Rightarrow> ch_status ch = s)) t))"

section \<open>The service\<close>

definition CHANNEL_FEE_PERCENT :: decimal where
  "CHANNEL_FEE_PERCENT = 1 / 100"

text \<open>\<open>Decimal.quantize\<close> with the default rounding: ties go to the even neighbour.\<close>

definition quantize_half_even :: "nat \<Rightarrow> decimal \<Rightarrow> decimal" where
  "quantize_half_even places x =
     (let y = x * 10 ^ places; n = \<lfloor>y\<rfloor>; r = y - of_int n
      in of_int (if r < 1 / 2 \<or> (r = 1 / 2 \<and> even n) then n else n + 1) / 10 ^ places)"

definition channel_fee :: "decimal \<Rightarrow> decimal \<Rightarrow> decimal" where
  "channel_fee bal_a deposit_a = quantize_half_even 8 (\<bar>bal_a - deposit_a\<bar> * CHANNEL_FEE_PERCENT)"

definition record_channel_fee :: "moment \<Rightarrow> ident \<Rightarrow> token \<Rightarrow> decimal \<Rightarrow> db \<Rightarrow> db" where
  "record_channel_fee now c tok fee d =
     (if fee \<le> 0 then d
      else d\<lparr>fee_collections := add_row
        \<lparr>fc_source_type = ''channel'', fc_source_id = Some c, fc_amount = fee, fc_token = tok,
         fc_status = FeePending, fc_collection_tx_hash = None, fc_withdrawn_at = None,
         fc_created_at = now, fc_payer_agent_id = None, fc_amount_piconero = None,
         fc_rate_applied_bps = None, fc_transaction_ref = None, fc_collected_at = None\<rparr>
        (fee_collections d)\<rparr>)"

definition is_participant :: "payment_channel \<Rightarrow> ident \<Rightarrow> bool" where
  "is_participant ch a \<longleftrightarrow> a = ch_agent_a_id ch \<or> a = ch_agent_b_id ch"

text \<open>\<open>repo.get_by_id\<close>, the \<open>LookupError\<close> and \<open>_verify_participant\<close>, the head of every handler.\<close>

definition channel_for :: "ident \<Rightarrow> ident \<Rightarrow> db \<Rightarrow> payment_channel outcome" where
  "channel_for c a d =
     (case row_of (payment_channels d) c of
        None \<Rightarrow> Inl (LookupError ''Channel not found'')
      | Some ch \<Rightarrow> if is_participant ch a then Inr ch
                   else Inl (PermissionError ''not a participant in this channel''))"

definition deduct_if_positive :: "moment \<Rightarrow> ident \<Rightarrow> decimal \<Rightarrow> token \<Rightarrow> balance_table \<Rightarrow> balance_table outcome" where
  "deduct_if_positive now a x tok t = (if x > 0 then deduct now a x tok t else Inr t)"

abbreviation channel_audit_kws :: "string list" where
  "channel_audit_kws \<equiv> [''db'', ''action'', ''resource_type'', ''resource_id'', ''agent_id'']"

abbreviation channel_audit_kws_values :: "string list" where
  "channel_audit_kws_values \<equiv>
     [''db'', ''action'', ''resource_type'', ''resource_id'', ''agent_id'', ''new_values'']"

definition open_channel_writes ::
  "moment \<Rightarrow> ident \<Rightarrow> ident \<Rightarrow> decimal \<Rightarrow> decimal \<Rightarrow> int \<Rightarrow> db \<Rightarrow> (db \<times> ident) outcome"
where
  "open_channel_writes now a b deposit_a deposit_b period d =
     (if a = b then Inl (ValueError ''Cannot open a channel with yourself'')
      else if deposit_a \<le> 0 \<and> deposit_b \<le> 0
      then Inl (ValueError ''At least one deposit must be positive'')
      else and_then (deduct_if_positive now a deposit_a ''XMR'' (balances d)) (\<lambda>t1.
        and_then (deduct_if_positive now b deposit_b ''XMR'' t1) (\<lambda>t2.
          Inr (d\<lparr>balances := t2,
                 payment_channels := add_row (open_with_deposit now a b deposit_a deposit_b period)
                                       (payment_channels d)\<rparr>,
               new_id (payment_channels d)))))"

definition open_channel ::
  "moment \<Rightarrow> ident \<Rightarrow> ident \<Rightarrow> decimal \<Rightarrow> decimal \<Rightarrow> int \<Rightarrow> db \<Rightarrow> (db \<times> ident) outcome"
where
  "open_channel now a b deposit_a deposit_b period d =
     and_then (open_channel_writes now a b deposit_a deposit_b period d) (\<lambda>(d1, c).
       and_then (log_event 0 channel_audit_kws_values (audit_of ''channel.opened'' (Some a) ''channel'' c) d1)
         (\<lambda>d2. and_then (queue_webhook 3 [] b ''channel.opened'' d2) (\<lambda>d3. Inr (d3, c))))"

definition submit_update ::
  "ident \<Rightarrow> ident \<Rightarrow> int \<Rightarrow> decimal \<Rightarrow> decimal \<Rightarrow> string \<Rightarrow> string \<Rightarrow> db \<Rightarrow> (db \<times> channel_update) outcome"
where
  "submit_update c a nonce bal_a bal_b sig_a sig_b d =
     and_then (channel_for c a d) (\<lambda>ch.
       let current_nonce = (case get_latest_update c (channel_updates d) of
                              None \<Rightarrow> ch_nonce ch
                            | Some u \<Rightarrow> max (ch_nonce ch) (cu_nonce u))
       in if nonce \<le> current_nonce then Inl (ValueError ''Nonce must be greater than current nonce'')
          else if bal_a + bal_b \<noteq> ch_deposit_a ch + ch_deposit_b ch
          then Inl (ValueError ''Balance conservation violated'')
          else and_then (repo_submit_update c nonce bal_a bal_b sig_a sig_b (channel_updates d))
                 (\<lambda>(u, t). Inr (d\<lparr>channel_updates := t\<rparr>, u)))"

definition settle_writes ::
  "moment \<Rightarrow> ident \<Rightarrow> ident \<Rightarrow> int \<Rightarrow> decimal \<Rightarrow> decimal \<Rightarrow> string \<Rightarrow> string \<Rightarrow> db \<Rightarrow> (db \<times> decimal) outcome"
where
  "settle_writes now c a nonce bal_a bal_b sig_a sig_b d =
     (if sig_a = '''' \<or> sig_b = '''' then Inl (ValueError ''Both signatures are required'')
      else and_then (channel_for c a d) (\<lambda>ch.
        if ch_status ch \<noteq> ChannelOpen then Inl (ValueError ''Channel must be OPEN to settle'')
        else let fee = channel_fee bal_a (ch_deposit_a ch);
                 (rows, t) = initiate_settlement now nonce bal_a bal_b sig_a sig_b c (payment_channels d)
             in if rows = 0 then Inl (ValueError ''Settlement initiation failed'')
                else Inr (record_channel_fee now c ''XMR'' fee (d\<lparr>payment_channels := t\<rparr>), fee)))"

definition settle ::
  "moment \<Rightarrow> ident \<Rightarrow> ident \<Rightarrow> int \<Rightarrow> decimal \<Rightarrow> decimal \<Rightarrow> string \<Rightarrow> string \<Rightarrow> db \<Rightarrow> (db \<times> decimal) outcome"
where
  "settle now c a nonce bal_a bal_b sig_a sig_b d =
     and_then (settle_writes now c a nonce bal_a bal_b sig_a sig_b d) (\<lambda>(d1, fee).
       and_then (log_event 0 channel_audit_kws_values (audit_of ''channel.settling'' (Some a) ''channel'' c) d1)
         (\<lambda>d2. Inr (d2, fee)))"

text \<open>A CLOSING channel whose settlement period is over is settled by \<open>close\<close> itself.\<close>

definition settle_if_due :: "moment \<Rightarrow> ident \<Rightarrow> payment_channel \<Rightarrow> channel_table \<Rightarrow> channel_table outcome" where
  "settle_if_due now c ch t =
     (if ch_status ch = ChannelClosing
      then if (case ch_closes_at ch of None \<Rightarrow> False | Some e \<Rightarrow> now < e)
           then Inl (ValueError ''Settlement period has not elapsed yet'')
           else Inr (snd (channel_settle now c t))
      else Inr t)"

definition close_channel :: "moment \<Rightarrow> ident \<Rightarrow> ident \<Rightarrow> db \<Rightarrow> (db \<times> payment_channel) outcome" where
  "close_channel now c a d =
     and_then (channel_for c a d) (\<lambda>ch0.
     and_then (settle_if_due now c ch0 (payment_channels d)) (\<lambda>t1.
     case row_of t1 c of
       None \<Rightarrow> Inl (RuntimeError ''AttributeError'')
     | Some ch \<Rightarrow>
         if ch_status ch \<noteq> ChannelSettled then Inl (ValueError ''Channel must be SETTLED to close'')
         else
           let d1 = d\<lparr>payment_channels := t1\<rparr>;
               d2 = credit_if_positive now (ch_agent_a_id ch) (ch_balance_a ch) ''XMR'' d1;
               d3 = credit_if_positive now (ch_agent_b_id ch) (ch_balance_b ch) ''XMR'' d2;
               (rows, t2) = finalize_close now c (payment_channels d3)
           in if rows = 0 then Inl (ValueError ''Close failed'')
              else case row_of t2 c of
                None \<Rightarrow> Inl (RuntimeError ''AttributeError'')
              | Some ch2 \<Rightarrow>
                  and_then (log_event 0 channel_audit_kws (audit_of ''channel.closed'' (Some a) ''channel'' c)
                              (d3\<lparr>payment_channels := t2\<rparr>)) (\<lambda>d4.
                  and_then (queue_webhook 3 [] (if a = ch_agent_a_id ch2 then ch_agent_b_id ch2
                                                else ch_agent_a_id ch2) ''channel.closed'' d4)
                    (\<lambda>d5. Inr (d5, ch2)))))"

definition dispute_writes ::
  "ident \<Rightarrow> ident \<Rightarrow> int \<Rightarrow> decimal \<Rightarrow> decimal \<Rightarrow> string \<Rightarrow> string \<Rightarrow> db \<Rightarrow> db outcome"
where
  "dispute_writes c a nonce bal_a bal_b sig_a sig_b d =
     and_then (channel_for c a d) (\<lambda>ch.
       if ch_status ch \<noteq> ChannelClosing then Inl (ValueError ''Dispute only valid during CLOSING'')
       else if nonce \<le> ch_nonce ch then Inl (ValueError ''Dispute nonce must exceed current nonce'')
       else let (rows, t) = repo_dispute nonce bal_a bal_b sig_a sig_b c (payment_channels d)
            in if rows = 0 then Inl (ValueError ''Dispute update failed'')
               else Inr (d\<lparr>payment_channels := t\<rparr>))"

definition dispute ::
  "ident \<Rightarrow> ident \<Rightarrow> int \<Rightarrow> decimal \<Rightarrow> decimal \<Rightarrow> string \<Rightarrow> string \<Rightarrow> db \<Rightarrow> db outcome"
where
  "dispute c a nonce bal_a bal_b sig_a sig_b d =
     and_then (dispute_writes c a nonce bal_a bal_b sig_a sig_b d)
       (log_event 0 channel_audit_kws_values (audit_of ''channel.disputed'' (Some a) ''channel'' c))"

definition get_channel :: "ident \<Rightarrow> ident \<Rightarrow> db \<Rightarrow> payment_channel outcome" where
  "get_channel c a d = channel_for c a d"

definition list_channels :: "ident \<Rightarrow> nat \<Rightarrow> nat \<Rightarrow> db \<Rightarrow> nat \<times> (ident \<times> payment_channel) list" where
  "list_channels a limit offset d =
     (let channels = channel_list_by_agent a None (limit + offset) (payment_channels d)
      in (length channels, take limit (drop offset channels)))"

fun settle_each :: "moment \<Rightarrow> (ident \<times> payment_channel) list \<Rightarrow> channel_table \<Rightarrow> nat \<times> channel_table" where
  "settle_each now [] t = (0, t)"
| "settle_each now ((c, ch) # q) t =
     (let (rows, t1) = channel_settle now c t; (n, t2) = settle_each now q t1
      in (if rows > 0 then n + 1 else n, t2))"

definition auto_settle_expired :: "moment \<Rightarrow> db \<Rightarrow> db \<times> nat" where
  "auto_settle_expired now d =
     (let (n, t) = settle_each now (get_channels_ready_to_settle now (payment_channels d))
                     (payment_channels d)
      in (d\<lparr>payment_channels := t\<rparr>, n))"

section \<open>The transitions obey the contract\<close>

lemma initiate_settlement_row:
  "row_of (snd (initiate_settlement now nonce bal_a bal_b sig_a sig_b c t)) c' =
     map_option (\<lambda>ch. if c' = c \<and> ch_status ch = ChannelOpen
       then ch\<lparr>ch_status := ChannelClosing, ch_nonce := nonce, ch_balance_a := bal_a,
               ch_balance_b := bal_b, ch_last_update_sig_a := Some sig_a,
               ch_last_update_sig_b := Some sig_b,
               ch_closes_at := Some (now + seconds (ch_settlement_period ch))\<rparr>
       else ch) (row_of t c')"
proof (cases "c' = c")
  case True
  then show ?thesis
    by (cases "row_of t c") (simp_all add: initiate_settlement_def Let_def row_of_update_row)
next
  case False
  then show ?thesis by (simp add: initiate_settlement_def Let_def row_of_update_row)
qed

interpretation ch_settling: guarded_transition
  "initiate_settlement now nonce bal_a bal_b sig_a sig_b" "\<lambda>ch. ch_status ch = ChannelOpen"
  "\<lambda>ch. ch\<lparr>ch_status := ChannelClosing, ch_nonce := nonce, ch_balance_a := bal_a,
           ch_balance_b := bal_b, ch_last_update_sig_a := Some sig_a,
           ch_last_update_sig_b := Some sig_b,
           ch_closes_at := Some (now + seconds (ch_settlement_period ch))\<rparr>"
  for now nonce bal_a bal_b sig_a sig_b
proof (unfold_locales, goal_cases)
  case (1 t k)
  then show ?case by (simp add: initiate_settlement_def Let_def rows_update_row)
next
  case (2 k t k')
  show ?case by (rule initiate_settlement_row)
next
  case (3 k t)
  show ?case by (simp add: initiate_settlement_def Let_def)
next
  case (4 v)
  show ?case by simp
qed

interpretation ch_settle: guarded_transition "channel_settle now"
  "\<lambda>ch. ch_status ch = ChannelClosing"
  "\<lambda>ch. ch\<lparr>ch_status := ChannelSettled, ch_settled_at := Some now\<rparr>" for now
  unfolding channel_settle_def by (rule update_row_guarded) simp

interpretation ch_finalize: guarded_transition "finalize_close now"
  "\<lambda>ch. ch_status ch = ChannelSettled"
  "\<lambda>ch. ch\<lparr>ch_status := ChannelClosed, ch_closed_at := Some now\<rparr>" for now
  unfolding finalize_close_def by (rule update_row_guarded) simp

lemma repo_dispute_steps:
  assumes "table_ok t" and "row_of t c = Some ch" and "ch_status ch = ChannelClosing"
  shows "row_step c ch (ch\<lparr>ch_nonce := nonce, ch_balance_a := bal_a, ch_balance_b := bal_b,
      ch_last_update_sig_a := Some sig_a, ch_last_update_sig_b := Some sig_b\<rparr>) t
      (snd (repo_dispute nonce bal_a bal_b sig_a sig_b c t))"
    and "fst (repo_dispute nonce bal_a bal_b sig_a sig_b c t) = 1"
proof -
  let ?f = "\<lambda>ch. ch\<lparr>ch_nonce := nonce, ch_balance_a := bal_a, ch_balance_b := bal_b,
      ch_last_update_sig_a := Some sig_a, ch_last_update_sig_b := Some sig_b\<rparr>"
  have "snd (repo_dispute nonce bal_a bal_b sig_a sig_b c t) = modify_row c (\<lambda>_. ?f ch) t"
  proof (rule table_eqI)
    show "row_of (snd (repo_dispute nonce bal_a bal_b sig_a sig_b c t)) = row_of (modify_row c (\<lambda>_. ?f ch) t)"
    proof
      fix x
      show "row_of (snd (repo_dispute nonce bal_a bal_b sig_a sig_b c t)) x =
          row_of (modify_row c (\<lambda>_. ?f ch) t) x"
        using assms by (cases "row_of t x") (auto simp: repo_dispute_def row_of_update_row row_of_modify_row)
    qed
  qed (simp_all add: repo_dispute_def assms)
  then show "row_step c ch (?f ch) t (snd (repo_dispute nonce bal_a bal_b sig_a sig_b c t))"
    using assms by (simp add: row_step_def)
  show "fst (repo_dispute nonce bal_a bal_b sig_a sig_b c t) = 1"
    using assms by (simp add: repo_dispute_def rows_update_row)
qed

section \<open>Effects of the handlers\<close>

lemma channel_for_Inr:
  "channel_for c a d = Inr ch \<longleftrightarrow> row_of (payment_channels d) c = Some ch \<and> is_participant ch a"
  by (auto simp: channel_for_def split: option.splits)

lemma credit_keeps_channels [simp]:
  "payment_channels (credit_if_positive now a x tok d) = payment_channels d"
  "channel_updates (credit_if_positive now a x tok d) = channel_updates d"
  by (simp_all add: credit_if_positive_def)

lemma channel_audit [simp]:
  "log_event 0 channel_audit_kws e d = Inr (d\<lparr>audit_log := audit_log d @ [e]\<rparr>)"
  by (simp add: log_event_def py_bind_def log_event_params_def)

lemma channel_audit_values [simp]:
  "log_event 0 channel_audit_kws_values e d = Inl (TypeError ''log_event'')"
  by (simp add: log_event_new_values)

text \<open>A channel can be closed when it is settled, or closing and past its settlement period.\<close>

definition closable :: "moment \<Rightarrow> payment_channel \<Rightarrow> bool" where
  "closable now ch \<longleftrightarrow> ch_status ch = ChannelSettled
     \<or> (ch_status ch = ChannelClosing \<and> (case ch_closes_at ch of None \<Rightarrow> True | Some e \<Rightarrow> e \<le> now))"

definition closed_row :: "moment \<Rightarrow> payment_channel \<Rightarrow> payment_channel" where
  "closed_row now ch =
     (if ch_status ch = ChannelClosing then ch\<lparr>ch_settled_at := Some now\<rparr> else ch)
       \<lparr>ch_status := ChannelClosed, ch_closed_at := Some now\<rparr>"

lemma settle_if_due_cases:
  assumes "table_ok t" and "row_of t c = Some ch"
  shows "settle_if_due now c ch t =
    (if ch_status ch = ChannelClosing
     then if closable now ch
          then Inr (modify_row c (\<lambda>_. ch\<lparr>ch_status := ChannelSettled, ch_settled_at := Some now\<rparr>) t)
          else Inl (ValueError ''Settlement period has not elapsed yet'')
     else Inr t)"
  using ch_settle.hit_steps [OF assms, where now = now]
  by (auto simp: settle_if_due_def closable_def row_step_def split: option.splits)

definition closed_db :: "moment \<Rightarrow> ident \<Rightarrow> ident \<Rightarrow> payment_channel \<Rightarrow> db \<Rightarrow> db" where
  "closed_db now c a ch d =
     (credit_if_positive now (ch_agent_b_id ch) (ch_balance_b ch) ''XMR''
       (credit_if_positive now (ch_agent_a_id ch) (ch_balance_a ch) ''XMR'' d))
     \<lparr>payment_channels := modify_row c (\<lambda>_. closed_row now ch) (payment_channels d),
      audit_log := audit_log d @ [audit_of ''channel.closed'' (Some a) ''channel'' c],
      webhook_events := webhook_events d @
        [\<lparr>wh_agent_id = (if a = ch_agent_a_id ch then ch_agent_b_id ch else ch_agent_a_id ch),
          wh_event_type = ''channel.closed''\<rparr>]\<rparr>"

text \<open>A settled row, once loaded, is paid out and closed.\<close>

lemma finalize_settled:
  assumes "table_ok t" and "row_of t c = Some ch" and "ch_status ch = ChannelSettled"
  shows "finalize_close now c t =
    (1, modify_row c (\<lambda>_. ch\<lparr>ch_status := ChannelClosed, ch_closed_at := Some now\<rparr>) t)"
  using ch_finalize.hit_steps [OF assms, where now = now] ch_finalize.hit_rows [OF assms, where now = now]
  by (simp add: row_step_def prod_eq_iff)

lemma close_channel_eq:
  assumes "table_ok (payment_channels d)" and "row_of (payment_channels d) c = Some ch"
    and "is_participant ch a"
  shows "close_channel now c a d =
    (if closable now ch then Inr (closed_db now c a ch d, closed_row now ch)
     else if ch_status ch = ChannelClosing
     then Inl (ValueError ''Settlement period has not elapsed yet'')
     else Inl (ValueError ''Channel must be SETTLED to close''))"
proof (cases "ch_status ch = ChannelClosing \<and> closable now ch")
  case True
  let ?s = "ch\<lparr>ch_status := ChannelSettled, ch_settled_at := Some now\<rparr>"
  let ?t1 = "modify_row c (\<lambda>_. ?s) (payment_channels d)"
  have row: "row_of ?t1 c = Some ?s" using assms(2) by (simp add: row_of_modify_row)
  have fin: "finalize_close now c ?t1 =
      (1, modify_row c (\<lambda>_. closed_row now ch) (payment_channels d))"
    using finalize_settled [OF _ row, of now] True assms(1)
    by (simp add: modify_row_twice closed_row_def)
  show ?thesis
    using True assms row fin
    by (simp add: close_channel_def channel_for_def settle_if_due_cases closed_db_def
        row_of_modify_row closed_row_def queue_webhook_binds credit_if_positive_def)
next
  case False
  show ?thesis
  proof (cases "ch_status ch = ChannelSettled")
    case True
    have fin: "finalize_close now c (payment_channels d) =
        (1, modify_row c (\<lambda>_. closed_row now ch) (payment_channels d))"
      using finalize_settled [OF assms(1,2) True, of now] True by (simp add: closed_row_def)
    show ?thesis
      using True assms fin
      by (simp add: close_channel_def channel_for_def settle_if_due_cases closed_db_def closable_def
          row_of_modify_row closed_row_def queue_webhook_binds credit_if_positive_def)
  next
    case other: False
    with False assms show ?thesis
      by (auto simp: close_channel_def channel_for_def settle_if_due_cases closable_def)
  qed
qed

lemma closed_db_frame:
  "payment_channels (closed_db now c a ch d) = modify_row c (\<lambda>_. closed_row now ch) (payment_channels d)"
  "channel_updates (closed_db now c a ch d) = channel_updates d"
  "fee_collections (closed_db now c a ch d) = fee_collections d"
  "table_ok (balances (closed_db now c a ch d)) = table_ok (balances d)"
  "available_of b u (balances (closed_db now c a ch d)) = available_of b u (balances d)
     + (if u = ''XMR'' then (if b = ch_agent_a_id ch then max (ch_balance_a ch) 0 else 0)
                          + (if b = ch_agent_b_id ch then max (ch_balance_b ch) 0 else 0) else 0)"
  "table_ok (balances d) \<Longrightarrow> token_total u (balances (closed_db now c a ch d)) = token_total u (balances d)
     + (if u = ''XMR'' then max (ch_balance_a ch) 0 + max (ch_balance_b ch) 0 else 0)"
  by (simp_all add: closed_db_def escrow_frame credit_if_positive_def bank.ok_pay_in
      bank.total_pay_in bank.avail_pay_in)

end
