(* ===== verification/Channel_Life.thy ===== *)
theory Channel_Life
  imports Channel
begin

text \<open>
  The life of payment channels. First what the endpoints do as they stand: opening, settling and
  disputing raise at their audit call, so no channel ever exists. Then what their writes do, as a
  step relation (the behaviour once the audit calls bind): custody, the order of the statuses, the
  nonces of the updates, and what a settlement pays.
\<close>

section \<open>The endpoints\<close>

datatype channel_op =
    OpenChannel ident ident decimal decimal int
  | SubmitUpdate ident ident int decimal decimal string string
  | SettleChannel ident ident int decimal decimal string string
  | CloseChannel ident ident
  | DisputeChannel ident ident int decimal decimal string string
  | AutoSettle

fun channel_exec :: "moment \<Rightarrow> channel_op \<Rightarrow> db \<Rightarrow> db outcome" where
  "channel_exec now (OpenChannel a b x y p) d = map_sum id fst (open_channel now a b x y p d)"
| "channel_exec now (SubmitUpdate c a n x y s1 s2) d = map_sum id fst (submit_update c a n x y s1 s2 d)"
| "channel_exec now (SettleChannel c a n x y s1 s2) d = map_sum id fst (settle now c a n x y s1 s2 d)"
| "channel_exec now (CloseChannel c a) d = map_sum id fst (close_channel now c a d)"
| "channel_exec now (DisputeChannel c a n x y s1 s2) d = dispute c a n x y s1 s2 d"
| "channel_exec now AutoSettle d = Inr (fst (auto_settle_expired now d))"

fun channel_run :: "(moment \<times> channel_op) list \<Rightarrow> db \<Rightarrow> db" where
  "channel_run [] d = d"
| "channel_run ((now, p) # ps) d =
     channel_run ps (case channel_exec now p d of Inl e \<Rightarrow> d | Inr d' \<Rightarrow> d')"

lemma open_channel_raises:
  "open_channel now a b x y p d =
     (case open_channel_writes now a b x y p d of
        Inl e \<Rightarrow> Inl e | Inr r \<Rightarrow> Inl (TypeError ''log_event''))"
  by (auto simp: open_channel_def and_then_def split: sum.split)

lemma settle_raises:
  "settle now c a n x y s1 s2 d =
     (case settle_writes now c a n x y s1 s2 d of
        Inl e \<Rightarrow> Inl e | Inr r \<Rightarrow> Inl (TypeError ''log_event''))"
  by (auto simp: settle_def and_then_def split: sum.split)

lemma dispute_raises:
  "dispute c a n x y s1 s2 d =
     (case dispute_writes c a n x y s1 s2 d of
        Inl e \<Rightarrow> Inl e | Inr r \<Rightarrow> Inl (TypeError ''log_event''))"
  by (auto simp: dispute_def and_then_def split: sum.split)

lemma no_channel_exec:
  assumes "payment_channels d = []"
  shows "(case channel_exec now p d of Inl e \<Rightarrow> d | Inr d' \<Rightarrow> d') = d"
proof (cases p)
  case (OpenChannel a b x y q)
  then show ?thesis by (simp add: open_channel_raises split: sum.split)
next
  case (SubmitUpdate c a n x y s1 s2)
  then show ?thesis using assms by (simp add: submit_update_def channel_for_def)
next
  case (SettleChannel c a n x y s1 s2)
  then show ?thesis by (simp add: settle_raises split: sum.split)
next
  case (CloseChannel c a)
  then show ?thesis using assms by (simp add: close_channel_def channel_for_def)
next
  case (DisputeChannel c a n x y s1 s2)
  then show ?thesis by (simp add: dispute_raises split: sum.split)
next
  case AutoSettle
  then show ?thesis
    using assms by (simp add: auto_settle_expired_def get_channels_ready_to_settle_def select_where_def)
qed

lemma no_channel_run: "payment_channels d = [] \<Longrightarrow> channel_run ps d = d"
  by (induction ps) (auto simp del: channel_exec.simps simp: no_channel_exec)

section \<open>The writes as steps\<close>

text \<open>
  \<open>agreed\<close> asks of a settlement and of a dispute what \<open>submit_update\<close> checks and they do not: the
  two balances add up to the deposits. The bounds are those of the endpoint's schema.
\<close>

definition adds_up :: "db \<Rightarrow> ident \<Rightarrow> decimal \<Rightarrow> decimal \<Rightarrow> bool" where
  "adds_up d c bal_a bal_b \<longleftrightarrow> (case row_of (payment_channels d) c of None \<Rightarrow> False
     | Some ch \<Rightarrow> bal_a + bal_b = ch_deposit_a ch + ch_deposit_b ch)"

inductive chan_step :: "bool \<Rightarrow> db \<Rightarrow> db \<Rightarrow> bool" for agreed :: bool where
  opened: "open_channel_writes now a b x y p d = Inr (d', c) \<Longrightarrow> 0 \<le> x \<Longrightarrow> 0 \<le> y \<Longrightarrow> chan_step agreed d d'"
| updated: "submit_update c a n x y s1 s2 d = Inr (d', u) \<Longrightarrow> chan_step agreed d d'"
| settling: "settle_writes now c a n x y s1 s2 d = Inr (d', fee) \<Longrightarrow> 0 \<le> x \<Longrightarrow> 0 \<le> y \<Longrightarrow>
     agreed \<longrightarrow> adds_up d c x y \<Longrightarrow> chan_step agreed d d'"
| disputed: "dispute_writes c a n x y s1 s2 d = Inr d' \<Longrightarrow> 0 \<le> x \<Longrightarrow> 0 \<le> y \<Longrightarrow>
     agreed \<longrightarrow> adds_up d c x y \<Longrightarrow> chan_step agreed d d'"
| closed: "close_channel now c a d = Inr (d', ch) \<Longrightarrow> chan_step agreed d d'"
| swept: "auto_settle_expired now d = (d', k) \<Longrightarrow> chan_step agreed d d'"

inductive_cases chan_stepE [consumes 1, case_names opened updated settling disputed closed swept]:
  "chan_step agreed d d'"

section \<open>What each step does to the tables\<close>

lemma deduct_if_positive_effect:
  assumes "deduct_if_positive now a x tok t = Inr t'"
  shows "table_ok t' = table_ok t"
    and "table_ok t \<Longrightarrow> token_total u t' = token_total u t - (if u = tok then max x 0 else 0)"
  using assms by (auto simp: deduct_if_positive_def bank.ok_pay_out bank.total_pay_out split: if_splits)

lemma open_writes_effect:
  assumes "open_channel_writes now a b x y p d = Inr (d', c)"
  shows "payment_channels d' = add_row (open_with_deposit now a b x y p) (payment_channels d)"
    and "channel_updates d' = channel_updates d"
    and "table_ok (balances d') = table_ok (balances d)"
    and "table_ok (balances d) \<Longrightarrow> token_total u (balances d') =
      token_total u (balances d) - (if u = ''XMR'' then max x 0 + max y 0 else 0)"
proof -
  obtain t1 t2 where t: "deduct_if_positive now a x ''XMR'' (balances d) = Inr t1"
    "deduct_if_positive now b y ''XMR'' t1 = Inr t2"
    and d': "d' = d\<lparr>balances := t2,
      payment_channels := add_row (open_with_deposit now a b x y p) (payment_channels d)\<rparr>"
    using assms by (auto simp: open_channel_writes_def and_then_Inr_iff split: if_splits)
  show "payment_channels d' = add_row (open_with_deposit now a b x y p) (payment_channels d)"
    and "channel_updates d' = channel_updates d"
    by (simp_all add: d')
  show "table_ok (balances d') = table_ok (balances d)"
    using deduct_if_positive_effect(1) [OF t(1)] deduct_if_positive_effect(1) [OF t(2)]
    by (simp add: d')
  show "table_ok (balances d) \<Longrightarrow> token_total u (balances d') =
      token_total u (balances d) - (if u = ''XMR'' then max x 0 + max y 0 else 0)"
    using deduct_if_positive_effect [OF t(1)] deduct_if_positive_effect [OF t(2)]
    by (simp add: d')
qed

lemma submit_update_effect:
  assumes "submit_update c a n x y s1 s2 d = Inr (d', u)"
  shows "\<exists>ch. row_of (payment_channels d) c = Some ch \<and> is_participant ch a
      \<and> x + y = ch_deposit_a ch + ch_deposit_b ch \<and> ch_nonce ch < n
      \<and> (\<forall>w. get_latest_update c (channel_updates d) = Some w \<longrightarrow> cu_nonce w < n)"
    and "d' = d\<lparr>channel_updates := add_row u (channel_updates d)\<rparr>"
    and "u = \<lparr>cu_channel_id = c, cu_nonce = n, cu_balance_a = x, cu_balance_b = y,
              cu_signature_a = s1, cu_signature_b = s2\<rparr>"
  using assms
  by (auto simp: submit_update_def and_then_Inr_iff channel_for_Inr Let_def repo_submit_update_def
      split: if_splits option.splits)

text \<open>The row a settlement leaves.\<close>

definition closing_row ::
  "moment \<Rightarrow> int \<Rightarrow> decimal \<Rightarrow> decimal \<Rightarrow> string \<Rightarrow> string \<Rightarrow> payment_channel \<Rightarrow> payment_channel"
where
  "closing_row now n x y s1 s2 ch =
     ch\<lparr>ch_status := ChannelClosing, ch_nonce := n, ch_balance_a := x, ch_balance_b := y,
        ch_last_update_sig_a := Some s1, ch_last_update_sig_b := Some s2,
        ch_closes_at := Some (now + seconds (ch_settlement_period ch))\<rparr>"

lemma settle_writes_eq:
  assumes "table_ok (payment_channels d)" and "row_of (payment_channels d) c = Some ch"
    and "is_participant ch a" and "ch_status ch = ChannelOpen" and "s1 \<noteq> ''''" and "s2 \<noteq> ''''"
  shows "settle_writes now c a n x y s1 s2 d =
    Inr (record_channel_fee now c ''XMR'' (channel_fee x (ch_deposit_a ch))
           (d\<lparr>payment_channels := modify_row c (\<lambda>_. closing_row now n x y s1 s2 ch) (payment_channels d)\<rparr>),
         channel_fee x (ch_deposit_a ch))"
proof -
  note step = ch_settling.hit_steps [OF assms(1,2,4), where now = now and nonce = n and bal_a = x
      and bal_b = y and sig_a = s1 and sig_b = s2]
  note hit = ch_settling.hit_rows [OF assms(1,2,4), where now = now and nonce = n and bal_a = x
      and bal_b = y and sig_a = s1 and sig_b = s2]
  obtain k t where kt: "initiate_settlement now n x y s1 s2 c (payment_channels d) = (k, t)" by fastforce
  then show ?thesis
    using step hit assms
    by (simp add: settle_writes_def channel_for_def row_step_def closing_row_def Let_def)
qed

lemma settle_writes_effect:
  assumes "settle_writes now c a n x y s1 s2 d = Inr (d', fee)" and "table_ok (payment_channels d)"
  shows "\<exists>ch. row_of (payment_channels d) c = Some ch \<and> is_participant ch a \<and> ch_status ch = ChannelOpen
      \<and> fee = channel_fee x (ch_deposit_a ch)
      \<and> row_step c ch (closing_row now n x y s1 s2 ch) (payment_channels d) (payment_channels d')"
    and "balances d' = balances d" and "channel_updates d' = channel_updates d"
proof -
  obtain ch where ch: "row_of (payment_channels d) c = Some ch" "is_participant ch a"
    "ch_status ch = ChannelOpen" and s: "s1 \<noteq> ''''" "s2 \<noteq> ''''"
    using assms(1) by (auto simp: settle_writes_def and_then_Inr_iff channel_for_Inr split: if_splits)
  note eq = assms(1) [unfolded settle_writes_eq [OF assms(2) ch s]]
  show "\<exists>ch. row_of (payment_channels d) c = Some ch \<and> is_participant ch a \<and> ch_status ch = ChannelOpen
      \<and> fee = channel_fee x (ch_deposit_a ch)
      \<and> row_step c ch (closing_row now n x y s1 s2 ch) (payment_channels d) (payment_channels d')"
    using eq ch assms(2) by (auto simp: row_step_def record_channel_fee_def)
  show "balances d' = balances d" and "channel_updates d' = channel_updates d"
    using eq by (auto simp: record_channel_fee_def)
qed

lemma dispute_writes_effect:
  assumes "dispute_writes c a n x y s1 s2 d = Inr d'" and "table_ok (payment_channels d)"
  shows "\<exists>ch. row_of (payment_channels d) c = Some ch \<and> is_participant ch a \<and> ch_status ch = ChannelClosing
      \<and> ch_nonce ch < n
      \<and> row_step c ch (ch\<lparr>ch_nonce := n, ch_balance_a := x, ch_balance_b := y,
          ch_last_update_sig_a := Some s1, ch_last_update_sig_b := Some s2\<rparr>)
          (payment_channels d) (payment_channels d')"
    and "balances d' = balances d" and "channel_updates d' = channel_updates d"
proof -
  obtain ch where ch: "row_of (payment_channels d) c = Some ch" "is_participant ch a"
    "ch_status ch = ChannelClosing" "ch_nonce ch < n"
    using assms(1) by (auto simp: dispute_writes_def and_then_Inr_iff channel_for_Inr split: if_splits)
  have d': "d' = d\<lparr>payment_channels := snd (repo_dispute n x y s1 s2 c (payment_channels d))\<rparr>"
    using assms(1) ch
    by (auto simp: dispute_writes_def channel_for_def split: if_splits prod.splits)
  show "\<exists>ch. row_of (payment_channels d) c = Some ch \<and> is_participant ch a \<and> ch_status ch = ChannelClosing
      \<and> ch_nonce ch < n
      \<and> row_step c ch (ch\<lparr>ch_nonce := n, ch_balance_a := x, ch_balance_b := y,
          ch_last_update_sig_a := Some s1, ch_last_update_sig_b := Some s2\<rparr>)
          (payment_channels d) (payment_channels d')"
    using ch repo_dispute_steps(1) [OF assms(2) ch(1,3)] by (simp add: d')
  show "balances d' = balances d" and "channel_updates d' = channel_updates d"
    by (simp_all add: d')
qed

lemma close_channel_effect:
  assumes "close_channel now c a d = Inr (d', ch')" and "table_ok (payment_channels d)"
  shows "\<exists>ch. row_of (payment_channels d) c = Some ch \<and> is_participant ch a \<and> closable now ch
      \<and> ch' = closed_row now ch \<and> d' = closed_db now c a ch d"
proof -
  obtain ch where ch: "row_of (payment_channels d) c = Some ch" "is_participant ch a"
    using assms(1) by (auto simp: close_channel_def and_then_Inr_iff channel_for_Inr)
  then show ?thesis
    using assms by (auto simp: close_channel_eq split: if_splits)
qed
lemma channel_settle_step:
  assumes "table_ok t"
  shows "snd (channel_settle now c t) = t \<or> (\<exists>ch. ch_status ch = ChannelClosing
    \<and> row_step c ch (ch\<lparr>ch_status := ChannelSettled, ch_settled_at := Some now\<rparr>) t (snd (channel_settle now c t)))"
proof (cases "fst (channel_settle now c t) = 0")
  case True
  then show ?thesis using ch_settle.miss_keeps_table [OF assms] by blast
next
  case False
  then obtain ch where "row_of t c = Some ch" "ch_status ch = ChannelClosing"
    by (auto simp: ch_settle.rows_zero_iff [OF assms])
  then show ?thesis using ch_settle.hit_steps [OF assms] by blast
qed

text \<open>Whatever holds of one settlement and composes holds of the sweep.\<close>

lemma settle_each_induct:
  assumes "table_ok t" and refl: "\<And>s. P s s" and trans: "\<And>s1 s2 s3. P s1 s2 \<Longrightarrow> P s2 s3 \<Longrightarrow> P s1 s3"
    and step: "\<And>c ch s s'. ch_status ch = ChannelClosing \<Longrightarrow>
      row_step c ch (ch\<lparr>ch_status := ChannelSettled, ch_settled_at := Some now\<rparr>) s s' \<Longrightarrow> P s s'"
  shows "P t (snd (settle_each now q t)) \<and> table_ok (snd (settle_each now q t))"
  using assms(1)
proof (induction q arbitrary: t)
  case Nil
  then show ?case using refl by simp
next
  case (Cons e q)
  obtain c ch where e: "e = (c, ch)" by (cases e)
  obtain k t1 where t1: "channel_settle now c t = (k, t1)" by fastforce
  have "P t t1" and ok: "table_ok t1"
    using channel_settle_step [OF Cons.prems, of now c] refl step row_step_ok Cons.prems
    by (auto simp: t1)
  with Cons.IH [OF ok] show ?case
    by (auto simp: e t1 split_def Let_def intro: trans)
qed

section \<open>The order of the statuses\<close>

definition channel_evolves :: "payment_channel \<Rightarrow> payment_channel \<Rightarrow> bool" where
  "channel_evolves ch ch' \<longleftrightarrow>
     ch_status ch \<le> ch_status ch'
     \<and> (ch_status ch = ChannelClosed \<longrightarrow> ch' = ch)
     \<and> ch_agent_a_id ch' = ch_agent_a_id ch \<and> ch_agent_b_id ch' = ch_agent_b_id ch
     \<and> ch_deposit_a ch' = ch_deposit_a ch \<and> ch_deposit_b ch' = ch_deposit_b ch"

definition channels_evolve :: "channel_table \<Rightarrow> channel_table \<Rightarrow> bool" where
  "channels_evolve t t' \<longleftrightarrow> (\<forall>c ch. row_of t c = Some ch \<longrightarrow>
     (\<exists>ch'. row_of t' c = Some ch' \<and> channel_evolves ch ch'))"

lemma channel_evolves_trans: "channel_evolves r s \<Longrightarrow> channel_evolves s u \<Longrightarrow> channel_evolves r u"
  by (auto simp: channel_evolves_def)

lemma channels_evolve_refl [simp]: "channels_evolve t t"
  by (auto simp: channels_evolve_def channel_evolves_def)

lemma channels_evolve_trans:
  assumes "channels_evolve t1 t2" and "channels_evolve t2 t3"
  shows "channels_evolve t1 t3"
  unfolding channels_evolve_def
proof (intro allI impI)
  fix c ch
  assume "row_of t1 c = Some ch"
  with assms(1) obtain ch1 where ch1: "row_of t2 c = Some ch1" "channel_evolves ch ch1"
    unfolding channels_evolve_def by blast
  with assms(2) obtain ch2 where "row_of t3 c = Some ch2" "channel_evolves ch1 ch2"
    unfolding channels_evolve_def by blast
  with ch1 show "\<exists>ch'. row_of t3 c = Some ch' \<and> channel_evolves ch ch'"
    using channel_evolves_trans by blast
qed

lemma channels_evolve_step:
  assumes "row_step c ch ch' t t'" and "channel_evolves ch ch'"
  shows "channels_evolve t t'"
  using assms row_step_row_of [OF assms(1)]
  by (auto simp: channels_evolve_def row_step_def channel_evolves_def)

lemma channels_evolve_add: "channels_evolve t (add_row ch t)"
  unfolding channels_evolve_def
proof (intro allI impI)
  fix c r
  assume r: "row_of t c = Some r"
  then have "c \<noteq> new_id t" by auto
  then show "\<exists>ch'. row_of (add_row ch t) c = Some ch' \<and> channel_evolves r ch'"
    using r by (simp add: row_of_add_row channel_evolves_def)
qed

lemmas status_order = less_eq_channel_status_def less_channel_status_def

lemma chan_step_evolves:
  assumes "chan_step agreed d d'" and "table_ok (payment_channels d)"
  shows "channels_evolve (payment_channels d) (payment_channels d') \<and> table_ok (payment_channels d')"
  using assms(1)
proof (cases rule: chan_stepE)
  case (opened now a b x y p c)
  then show ?thesis
    using assms(2) channels_evolve_add by (simp add: open_writes_effect(1) [OF opened(1)])
next
  case (updated c a n x y s1 s2 u)
  then show ?thesis
    using assms(2) by (simp add: submit_update_effect(2) [OF updated(1)])
next
  case (settling now c a n x y s1 s2 fee)
  from settle_writes_effect(1) [OF settling(1) assms(2)] show ?thesis
    by (auto intro!: channels_evolve_step row_step_ok
        simp: channel_evolves_def closing_row_def status_order)
next
  case (disputed c a n x y s1 s2)
  from dispute_writes_effect(1) [OF disputed(1) assms(2)] show ?thesis
    by (auto intro!: channels_evolve_step row_step_ok simp: channel_evolves_def status_order)
next
  case (closed now c a ch')
  from close_channel_effect [OF closed(1) assms(2)] obtain ch where
    ch: "row_of (payment_channels d) c = Some ch" "closable now ch" "d' = closed_db now c a ch d"
    by blast
  have "row_step c ch (closed_row now ch) (payment_channels d) (payment_channels d')"
    using ch assms(2) by (simp add: row_step_def closed_db_frame)
  moreover have "channel_evolves ch (closed_row now ch)"
    using ch(2) by (auto simp: channel_evolves_def closed_row_def closable_def status_order)
  ultimately show ?thesis by (simp add: channels_evolve_step row_step_ok)
next
  case (swept now k)
  have "channels_evolve (payment_channels d) (snd (settle_each now q (payment_channels d)))
      \<and> table_ok (snd (settle_each now q (payment_channels d)))" for q
    by (rule settle_each_induct [OF assms(2)])
      (auto intro: channels_evolve_trans channels_evolve_step simp: channel_evolves_def status_order)
  then show ?thesis using swept by (auto simp: auto_settle_expired_def split_def Let_def)
qed

section \<open>Custody\<close>

definition channel_held :: "payment_channel \<Rightarrow> decimal" where
  "channel_held ch = (if ch_status ch = ChannelClosed then 0 else ch_balance_a ch + ch_balance_b ch)"

definition channel_custody :: "channel_table \<Rightarrow> decimal" where
  "channel_custody t = table_sum (\<lambda>c ch. channel_held ch) t"

definition channel_wealth :: "token \<Rightarrow> db \<Rightarrow> decimal" where
  "channel_wealth u d =
     token_total u (balances d) + (if u = ''XMR'' then channel_custody (payment_channels d) else 0)"

definition channel_row_ok :: "payment_channel \<Rightarrow> bool" where
  "channel_row_ok ch \<longleftrightarrow> 0 \<le> ch_balance_a ch \<and> 0 \<le> ch_balance_b ch
     \<and> ch_balance_a ch + ch_balance_b ch = ch_deposit_a ch + ch_deposit_b ch"

definition channels_ok :: "db \<Rightarrow> bool" where
  "channels_ok d \<longleftrightarrow> table_ok (balances d) \<and> table_ok (payment_channels d)
     \<and> (\<forall>c ch. row_of (payment_channels d) c = Some ch \<longrightarrow> channel_row_ok ch)"

lemma custody_step:
  "row_step c ch ch' t t' \<Longrightarrow> channel_custody t' = channel_custody t - channel_held ch + channel_held ch'"
  unfolding channel_custody_def by (rule row_step_sum) simp_all

lemma rows_ok_step:
  assumes "row_step c ch ch' t t'" and "channel_row_ok ch'"
    and "\<forall>k r. row_of t k = Some r \<longrightarrow> channel_row_ok r"
  shows "\<forall>k r. row_of t' k = Some r \<longrightarrow> channel_row_ok r"
  using assms(2,3) row_step_row_of [OF assms(1)] by auto

lemma sweep_custody:
  assumes "table_ok t" and "\<forall>k r. row_of t k = Some r \<longrightarrow> channel_row_ok r"
  shows "channel_custody (snd (settle_each now q t)) = channel_custody t
    \<and> (\<forall>k r. row_of (snd (settle_each now q t)) k = Some r \<longrightarrow> channel_row_ok r)"
proof -
  let ?P = "\<lambda>s s'. channel_custody s' = channel_custody s
      \<and> ((\<forall>k r. row_of s k = Some r \<longrightarrow> channel_row_ok r) \<longrightarrow> (\<forall>k r. row_of s' k = Some r \<longrightarrow> channel_row_ok r))"
  have "?P t (snd (settle_each now q t)) \<and> table_ok (snd (settle_each now q t))"
  proof (rule settle_each_induct [OF assms(1), where P = ?P])
    fix c ch and s s' :: channel_table
    assume closing: "ch_status ch = ChannelClosing"
      and step: "row_step c ch (ch\<lparr>ch_status := ChannelSettled, ch_settled_at := Some now\<rparr>) s s'"
    have "\<forall>k r. row_of s' k = Some r \<longrightarrow> channel_row_ok r"
      if "\<forall>k r. row_of s k = Some r \<longrightarrow> channel_row_ok r"
      using that step by (intro rows_ok_step [OF step]) (auto simp: channel_row_ok_def row_step_def)
    then show "?P s s'" using custody_step [OF step] closing by (simp add: channel_held_def)
  next
    fix s1 s2 s3 :: channel_table
    assume "?P s1 s2" and "?P s2 s3"
    then show "?P s1 s3" by presburger
  next
    fix s :: channel_table
    show "?P s s" by blast
  qed
  then show ?thesis using assms(2) by blast
qed

text \<open>A step that changes one row and moves the difference to balances.\<close>

lemma channel_step_wealth:
  assumes "channels_ok d" and "row_step c ch ch' (payment_channels d) (payment_channels d')"
    and "channel_row_ok ch'" and "table_ok (balances d')"
    and "\<And>u. token_total u (balances d') =
      token_total u (balances d) + (if u = ''XMR'' then channel_held ch - channel_held ch' else 0)"
  shows "channels_ok d' \<and> channel_wealth u d' = channel_wealth u d"
proof
  show "channels_ok d'"
    using assms(1,3,4) rows_ok_step [OF assms(2,3)] row_step_ok [OF assms(2)] by (simp add: channels_ok_def)
  show "channel_wealth u d' = channel_wealth u d"
    using custody_step [OF assms(2)] assms(5) by (simp add: channel_wealth_def)
qed

lemma chan_step_wealth:
  assumes "chan_step True d d'" and "channels_ok d"
  shows "channels_ok d' \<and> channel_wealth u d' = channel_wealth u d"
proof -
  have ok: "table_ok (balances d)" "table_ok (payment_channels d)"
    and rows: "\<And>c ch. row_of (payment_channels d) c = Some ch \<Longrightarrow> channel_row_ok ch"
    using assms(2) by (simp_all add: channels_ok_def)
  show ?thesis
    using assms(1)
  proof (cases rule: chan_stepE)
    case (opened now a b x y p c)
    note eff = open_writes_effect [OF opened(1)]
    have "channel_row_ok (open_with_deposit now a b x y p)"
      using opened(2,3) by (simp add: channel_row_ok_def open_with_deposit_def)
    then have "channels_ok d'"
      using eff(3) ok rows by (auto simp: channels_ok_def eff(1) row_of_add_row split: if_splits)
    moreover have "channel_wealth u d' = channel_wealth u d"
      using eff(4) [OF ok(1), of u] opened(2,3)
      by (simp add: channel_wealth_def channel_custody_def eff(1) table_sum_add_row channel_held_def
          open_with_deposit_def)
    ultimately show ?thesis ..
  next
    case (updated c a n x y s1 s2 w)
    then show ?thesis
      using assms(2) by (simp add: submit_update_effect(2) [OF updated] channels_ok_def channel_wealth_def)
  next
    case (settling now c a n x y s1 s2 fee)
    note eff = settle_writes_effect [OF settling(1) ok(2)]
    obtain ch where ch: "row_of (payment_channels d) c = Some ch" "ch_status ch = ChannelOpen"
      and step: "row_step c ch (closing_row now n x y s1 s2 ch) (payment_channels d) (payment_channels d')"
      using eff(1) by blast
    have sum: "x + y = ch_deposit_a ch + ch_deposit_b ch"
      using settling(4) ch(1) by (simp add: adds_up_def)
    show ?thesis
      using settling(2,3) sum ch(2) rows [OF ch(1)] ok(1)
      by (intro channel_step_wealth [OF assms(2) step])
        (auto simp: eff(2) channel_row_ok_def closing_row_def channel_held_def)
  next
    case (disputed c a n x y s1 s2)
    note eff = dispute_writes_effect [OF disputed(1) ok(2)]
    obtain ch where ch: "row_of (payment_channels d) c = Some ch" "ch_status ch = ChannelClosing"
      and step: "row_step c ch (ch\<lparr>ch_nonce := n, ch_balance_a := x, ch_balance_b := y,
          ch_last_update_sig_a := Some s1, ch_last_update_sig_b := Some s2\<rparr>)
          (payment_channels d) (payment_channels d')"
      using eff(1) by blast
    have sum: "x + y = ch_deposit_a ch + ch_deposit_b ch"
      using disputed(4) ch(1) by (simp add: adds_up_def)
    show ?thesis
      using disputed(2,3) sum ch(2) rows [OF ch(1)] ok(1)
      by (intro channel_step_wealth [OF assms(2) step])
        (auto simp: eff(2) channel_row_ok_def channel_held_def)
  next
    case (closed now c a ch')
    from close_channel_effect [OF closed(1) ok(2)] obtain ch where
      ch: "row_of (payment_channels d) c = Some ch" "closable now ch" and d': "d' = closed_db now c a ch d"
      by blast
    have step: "row_step c ch (closed_row now ch) (payment_channels d) (payment_channels d')"
      using ch(1) ok(2) by (simp add: row_step_def d' closed_db_frame)
    show ?thesis
      using rows [OF ch(1)] ok(1) ch(2)
      by (intro channel_step_wealth [OF assms(2) step])
        (auto simp: d' closed_db_frame channel_row_ok_def closed_row_def channel_held_def closable_def)
  next
    case (swept now k)
    let ?q = "get_channels_ready_to_settle now (payment_channels d)"
    have "payment_channels d' = snd (settle_each now ?q (payment_channels d))" "balances d' = balances d"
      using swept by (auto simp: auto_settle_expired_def split_def Let_def)
    moreover have "table_ok (snd (settle_each now ?q (payment_channels d)))"
      using settle_each_induct [OF ok(2), where P = "\<lambda>_ _. True"] by blast
    ultimately show ?thesis
      using sweep_custody [OF ok(2)] rows ok(1) by (auto simp: channels_ok_def channel_wealth_def)
  qed
qed

section \<open>Nonces\<close>

lemma latest_update_max:
  assumes "(k, u) \<in> set t" and "cu_channel_id u = c"
  shows "\<exists>w. get_latest_update c t = Some w \<and> cu_nonce u \<le> cu_nonce w"
proof -
  let ?f = "\<lambda>(k, u). - cu_nonce u"
  let ?s = "sort_key ?f (select_where (\<lambda>u. cu_channel_id u = c) t)"
  have mem: "(k, u) \<in> set ?s" using assms by (simp add: select_where_def)
  then obtain e q where s: "?s = e # q" by (cases ?s) auto
  obtain i w where e: "e = (i, w)" by (cases e)
  have "sorted (map ?f ?s)" by (rule sorted_sort_key)
  then have "\<forall>y \<in> set ?s. ?f e \<le> ?f y" by (auto simp: s)
  with mem have "cu_nonce u \<le> cu_nonce w" by (force simp: e)
  then show ?thesis by (simp add: get_latest_update_def s e)
qed

definition updates_ok :: "db \<Rightarrow> bool" where
  "updates_ok d \<longleftrightarrow>
     sorted_wrt (\<lambda>(k, u) (k', u'). cu_channel_id u = cu_channel_id u' \<longrightarrow> cu_nonce u < cu_nonce u')
       (channel_updates d)
     \<and> (\<forall>(k, u) \<in> set (channel_updates d). \<exists>ch. row_of (payment_channels d) (cu_channel_id u) = Some ch
          \<and> cu_balance_a u + cu_balance_b u = ch_deposit_a ch + ch_deposit_b ch)"

lemma updates_ok_evolve:
  assumes "updates_ok d" and "channel_updates d' = channel_updates d"
    and "channels_evolve (payment_channels d) (payment_channels d')"
  shows "updates_ok d'"
  unfolding updates_ok_def
proof
  show "sorted_wrt (\<lambda>(k, u) (k', u'). cu_channel_id u = cu_channel_id u' \<longrightarrow> cu_nonce u < cu_nonce u')
      (channel_updates d')"
    using assms(1,2) by (simp add: updates_ok_def)
  show "\<forall>(k, u) \<in> set (channel_updates d'). \<exists>ch. row_of (payment_channels d') (cu_channel_id u) = Some ch
      \<and> cu_balance_a u + cu_balance_b u = ch_deposit_a ch + ch_deposit_b ch"
  proof clarify
    fix k and u :: channel_update
    assume "(k, u) \<in> set (channel_updates d')"
    then obtain ch where ch: "row_of (payment_channels d) (cu_channel_id u) = Some ch"
      "cu_balance_a u + cu_balance_b u = ch_deposit_a ch + ch_deposit_b ch"
      using assms(1,2) by (auto simp: updates_ok_def)
    then obtain ch' where "row_of (payment_channels d') (cu_channel_id u) = Some ch'" "channel_evolves ch ch'"
      using assms(3) unfolding channels_evolve_def by blast
    with ch(2) show "\<exists>ch. row_of (payment_channels d') (cu_channel_id u) = Some ch
        \<and> cu_balance_a u + cu_balance_b u = ch_deposit_a ch + ch_deposit_b ch"
      by (auto simp: channel_evolves_def)
  qed
qed

lemma submit_update_ok:
  assumes "submit_update c a n x y s1 s2 d = Inr (d', u)" and "updates_ok d"
  shows "updates_ok d'"
proof -
  note eff = submit_update_effect [OF assms(1)]
  have earlier: "cu_nonce w < n" if "(k, w) \<in> set (channel_updates d)" "cu_channel_id w = c" for k w
    using latest_update_max [OF that] eff(1) by force
  show ?thesis
    using assms(2) eff(1) earlier
    by (auto simp: updates_ok_def eff(2,3) add_row_def insert_row_def sorted_wrt_append split_def)
qed

lemma chan_step_updates:
  assumes "chan_step agreed d d'" and "table_ok (payment_channels d)" and "updates_ok d"
  shows "updates_ok d'"
proof -
  note ev = chan_step_evolves [OF assms(1,2), THEN conjunct1]
  from assms(1) show ?thesis
  proof (cases rule: chan_stepE)
    case (opened now a b x y p c)
    then show ?thesis using updates_ok_evolve [OF assms(3) _ ev] open_writes_effect(2) by blast
  next
    case (updated c a n x y s1 s2 u)
    then show ?thesis using submit_update_ok assms(3) by blast
  next
    case (settling now c a n x y s1 s2 fee)
    then show ?thesis using updates_ok_evolve [OF assms(3) _ ev] settle_writes_effect(3) assms(2) by blast
  next
    case (disputed c a n x y s1 s2)
    then show ?thesis using updates_ok_evolve [OF assms(3) _ ev] dispute_writes_effect(3) assms(2) by blast
  next
    case (closed now c a ch)
    then obtain r where "d' = closed_db now c a r d" using close_channel_effect assms(2) by blast
    then show ?thesis using updates_ok_evolve [OF assms(3) _ ev] by (simp add: closed_db_frame)
  next
    case (swept now k)
    then have "channel_updates d' = channel_updates d"
      by (auto simp: auto_settle_expired_def split_def Let_def)
    then show ?thesis using updates_ok_evolve [OF assms(3) _ ev] by blast
  qed
qed

section \<open>Sequences of steps\<close>

lemma chan_run_ok:
  assumes "(chan_step agreed)\<^sup>*\<^sup>* d d'" and "table_ok (payment_channels d)"
  shows "channels_evolve (payment_channels d) (payment_channels d') \<and> table_ok (payment_channels d')
    \<and> (updates_ok d \<longrightarrow> updates_ok d')"
  using assms(1)
proof (induction rule: rtranclp_induct)
  case base
  then show ?case using assms(2) by simp
next
  case (step d1 d2)
  then have "channels_evolve (payment_channels d1) (payment_channels d2) \<and> table_ok (payment_channels d2)"
    and "updates_ok d1 \<longrightarrow> updates_ok d2"
    using chan_step_evolves chan_step_updates by blast+
  then show ?case using step.IH channels_evolve_trans by blast
qed

lemma chan_run_wealth:
  assumes "(chan_step True)\<^sup>*\<^sup>* d d'" and "channels_ok d"
  shows "channels_ok d' \<and> channel_wealth u d' = channel_wealth u d"
  using assms(1)
proof (induction rule: rtranclp_induct)
  case base
  then show ?case using assms(2) by simp
next
  case (step d1 d2)
  then show ?case using chan_step_wealth [of d1 d2 u] by simp
qed

section \<open>What a settlement pays\<close>

lemma settle_then_close:
  fixes x y :: decimal and n :: int
  assumes "table_ok (payment_channels d)" and "row_of (payment_channels d) c = Some ch"
    and "ch_status ch = ChannelOpen" and "is_participant ch a" and "s1 \<noteq> ''''" and "s2 \<noteq> ''''"
    and "now + seconds (ch_settlement_period ch) \<le> later"
  defines "d1 \<equiv> record_channel_fee now c ''XMR'' (channel_fee x (ch_deposit_a ch))
           (d\<lparr>payment_channels := modify_row c (\<lambda>_. closing_row now n x y s1 s2 ch) (payment_channels d)\<rparr>)"
  shows "settle_writes now c a n x y s1 s2 d = Inr (d1, channel_fee x (ch_deposit_a ch))"
    and "close_channel later c a d1 = Inr (closed_db later c a (closing_row now n x y s1 s2 ch) d1,
           closed_row later (closing_row now n x y s1 s2 ch))"
proof -
  show "settle_writes now c a n x y s1 s2 d = Inr (d1, channel_fee x (ch_deposit_a ch))"
    unfolding d1_def by (rule settle_writes_eq [OF assms(1,2,4,3,5,6)])
  have "payment_channels d1 = modify_row c (\<lambda>_. closing_row now n x y s1 s2 ch) (payment_channels d)"
    by (simp add: d1_def record_channel_fee_def)
  then show "close_channel later c a d1 = Inr (closed_db later c a (closing_row now n x y s1 s2 ch) d1,
           closed_row later (closing_row now n x y s1 s2 ch))"
    using assms(1-4,7)
    by (simp add: close_channel_eq row_of_modify_row closing_row_def is_participant_def closable_def)
qed

lemma record_channel_fee_frame:
  "balances (record_channel_fee now c tok fee d) = balances d"
  "fee_total u (fee_collections (record_channel_fee now c tok fee d)) =
     fee_total u (fee_collections d) + (if tok = u then max fee 0 else 0)"
  by (simp_all add: record_channel_fee_def fee_total_def table_sum_add_row)

section \<open>Properties\<close>

text \<open>C5. Opening, settling and disputing a channel always raise: when their own checks pass and their
  writes are done, the audit call does not bind and the \<open>TypeError\<close> rolls everything back. From a
  database without channels no sequence of channel requests and sweeps changes anything.\<close>

theorem channels_never_open:
  "open_channel now a b x y p d =
     (case open_channel_writes now a b x y p d of Inl e \<Rightarrow> Inl e | Inr r \<Rightarrow> Inl (TypeError ''log_event''))
   \<and> settle now c a n x y s1 s2 d =
     (case settle_writes now c a n x y s1 s2 d of Inl e \<Rightarrow> Inl e | Inr r \<Rightarrow> Inl (TypeError ''log_event''))
   \<and> dispute c a n x y s1 s2 d =
     (case dispute_writes c a n x y s1 s2 d of Inl e \<Rightarrow> Inl e | Inr r \<Rightarrow> Inl (TypeError ''log_event''))
   \<and> channel_run ps (d\<lparr>payment_channels := []\<rparr>) = d\<lparr>payment_channels := []\<rparr>"
  by (simp add: open_channel_raises settle_raises dispute_raises no_channel_run)

definition demo_purse :: db where
  "demo_purse = empty_db\<lparr>balances := credit 0 1 50 ''XMR'' []\<rparr>"

definition demo_channel :: db where
  "demo_channel = (case open_channel_writes 0 1 2 50 0 3600 demo_purse of Inl e \<Rightarrow> demo_purse | Inr (d, c) \<Rightarrow> d)"

lemma demo_channel_opened: "chan_step True demo_purse demo_channel"
proof -
  have "case open_channel_writes 0 1 2 50 0 3600 demo_purse of Inl e \<Rightarrow> False | Inr (d, c) \<Rightarrow> True"
    by code_simp
  then obtain c where "open_channel_writes 0 1 2 50 0 3600 demo_purse = Inr (demo_channel, c)"
    by (auto simp: demo_channel_def split: sum.splits)
  then show ?thesis by (rule chan_step.opened) simp_all
qed

lemma demo_channel_run: "(chan_step True)\<^sup>*\<^sup>* demo_purse demo_channel"
  using demo_channel_opened by (rule r_into_rtranclp)

lemma demo_purse_ok: "channels_ok demo_purse" "table_ok (payment_channels demo_purse)" "updates_ok demo_purse"
  by (simp_all add: channels_ok_def demo_purse_def updates_ok_def empty_db_def)

text \<open>The channel lifecycle: over any sequence of the channel writes the status of a channel never
  goes back in the order PENDING, OPEN, CLOSING, SETTLED, CLOSED, its agents and deposits are fixed, and
  a closed channel never changes again, so its balances are paid out once.\<close>

lemma channel_lifecycle:
  assumes "(chan_step agreed)\<^sup>*\<^sup>* d d'" and "table_ok (payment_channels d)"
    and "row_of (payment_channels d) c = Some ch"
  shows "\<exists>ch'. row_of (payment_channels d') c = Some ch' \<and> ch_status ch \<le> ch_status ch'
    \<and> (ch_status ch = ChannelClosed \<longrightarrow> ch' = ch \<and> close_channel now c a d' =
         (if is_participant ch a then Inl (ValueError ''Channel must be SETTLED to close'')
          else Inl (PermissionError ''not a participant in this channel'')))
    \<and> ch_deposit_a ch' = ch_deposit_a ch \<and> ch_deposit_b ch' = ch_deposit_b ch
    \<and> ch_agent_a_id ch' = ch_agent_a_id ch \<and> ch_agent_b_id ch' = ch_agent_b_id ch"
proof -
  have run: "channels_evolve (payment_channels d) (payment_channels d')" "table_ok (payment_channels d')"
    using chan_run_ok [OF assms(1,2)] by simp_all
  then obtain ch' where ch': "row_of (payment_channels d') c = Some ch'" "channel_evolves ch ch'"
    using assms(3) unfolding channels_evolve_def by blast
  have "close_channel now c a d' =
         (if is_participant ch a then Inl (ValueError ''Channel must be SETTLED to close'')
          else Inl (PermissionError ''not a participant in this channel''))" if "ch_status ch = ChannelClosed"
  proof -
    have "ch' = ch" using ch'(2) that by (simp add: channel_evolves_def)
    then show ?thesis
      using close_channel_eq [OF run(2) ch'(1)] ch'(1) that
      by (auto simp: closable_def close_channel_def channel_for_def)
  qed
  with ch' show ?thesis by (auto simp: channel_evolves_def)
qed

lemma channel_lifecycle_witness:
  "\<exists>ch ch'. row_of (payment_channels demo_channel) 1 = Some ch
     \<and> row_of (payment_channels (fst (auto_settle_expired 5 demo_channel))) 1 = Some ch' \<and> ch_status ch \<le> ch_status ch'"
proof -
  have ok: "table_ok (payment_channels demo_channel)"
    using chan_step_evolves [OF demo_channel_opened demo_purse_ok(2)] by simp
  have "case row_of (payment_channels demo_channel) 1 of None \<Rightarrow> False | Some ch \<Rightarrow> True" by code_simp
  then obtain ch where ch: "row_of (payment_channels demo_channel) 1 = Some ch" by (auto split: option.splits)
  have "chan_step True demo_channel (fst (auto_settle_expired 5 demo_channel))"
    by (rule chan_step.swept) (simp add: prod_eq_iff)
  with channel_lifecycle [OF r_into_rtranclp ok ch] ch show ?thesis by blast
qed

text \<open>C6. Custody: as long as every settlement and every dispute distributes exactly the deposits, the
  XMR balances together with what open, closing and settled channels hold are constant over any
  sequence of channel writes, no other token moves, and every channel keeps a non-negative split of its
  deposits.\<close>

theorem channel_custody_conserved:
  assumes "(chan_step True)\<^sup>*\<^sup>* d d'" and "channels_ok d"
  shows "channel_wealth u d' = channel_wealth u d \<and> channels_ok d'"
  using chan_run_wealth [OF assms, of u] by simp

theorem channel_custody_conserved_witness:
  "channel_wealth ''XMR'' demo_channel = channel_wealth ''XMR'' demo_purse \<and> channels_ok demo_channel"
  by (rule channel_custody_conserved [OF demo_channel_run demo_purse_ok(1)])

text \<open>Updates: over any sequence of channel writes the recorded updates of a channel have strictly
  increasing nonces in the order they were accepted and each distributes exactly the deposits of its
  channel; an update that the handler refuses is refused by a check of its own, never by the unique
  constraint of the table.\<close>

lemma update_nonces_increase:
  assumes "(chan_step agreed)\<^sup>*\<^sup>* d d'" and "table_ok (payment_channels d)" and "updates_ok d"
  shows "updates_ok d' \<and> submit_update c a n x y s1 s2 d' \<noteq> Inl (RuntimeError e)"
proof
  show "updates_ok d'" using chan_run_ok [OF assms(1,2)] assms(3) by blast
  show "submit_update c a n x y s1 s2 d' \<noteq> Inl (RuntimeError e)"
  proof
    assume raised: "submit_update c a n x y s1 s2 d' = Inl (RuntimeError e)"
    then have "\<exists>ch. channel_for c a d' = Inr ch"
      by (auto simp: submit_update_def and_then_def channel_for_def split: sum.splits option.splits if_splits)
    then have "select_where (\<lambda>u. cu_channel_id u = c \<and> cu_nonce u = n) (channel_updates d') \<noteq> []"
      and fresh: "\<forall>w. get_latest_update c (channel_updates d') = Some w \<longrightarrow> cu_nonce w < n"
      using raised by (auto simp: submit_update_def Let_def repo_submit_update_def split: if_splits option.splits)
    then obtain k u where "(k, u) \<in> set (channel_updates d')" "cu_channel_id u = c" "cu_nonce u = n"
      by (auto simp: select_where_def filter_empty_conv)
    with latest_update_max fresh show False by fastforce
  qed
qed

lemma update_nonces_increase_witness:
  "updates_ok demo_channel \<and> submit_update 1 1 4 20 30 ''a'' ''b'' demo_channel \<noteq> Inl (RuntimeError ''IntegrityError'')"
  by (rule update_nonces_increase [OF demo_channel_run demo_purse_ok(2,3)])

text \<open>A settlement pays what its caller claims: for any open channel, any participant, any two
  non-empty signatures and any two non-negative balances the writes of \<open>settle\<close> go through, and once
  the settlement period is over \<open>close\<close> credits exactly the two claimed balances, whatever was
  deposited. The fee of one percent of the net transfer is booked as revenue and withheld from nobody.\<close>

lemma settlement_pays_claim:
  assumes "table_ok (payment_channels d)" and "row_of (payment_channels d) c = Some ch"
    and "ch_status ch = ChannelOpen" and "is_participant ch a" and "s1 \<noteq> ''''" and "s2 \<noteq> ''''"
    and "now + seconds (ch_settlement_period ch) \<le> later" and "0 \<le> x" and "0 \<le> y"
  shows "\<exists>d1 fee d2 ch2. settle_writes now c a n x y s1 s2 d = Inr (d1, fee)
    \<and> fee = quantize_half_even 8 (\<bar>x - ch_deposit_a ch\<bar> * (1 / 100))
    \<and> close_channel later c a d1 = Inr (d2, ch2)
    \<and> (\<forall>b u. available_of b u (balances d2) = available_of b u (balances d)
         + (if u = ''XMR'' then (if b = ch_agent_a_id ch then x else 0)
              + (if b = ch_agent_b_id ch then y else 0) else 0))
    \<and> fee_total ''XMR'' (fee_collections d2) = fee_total ''XMR'' (fee_collections d) + max fee 0"
proof -
  note run = settle_then_close [OF assms(1-7), where x = x and y = y and n = n]
  show ?thesis
  proof (intro exI conjI)
    let ?fee = "channel_fee x (ch_deposit_a ch)"
    let ?d1 = "record_channel_fee now c ''XMR'' ?fee
      (d\<lparr>payment_channels := modify_row c (\<lambda>_. closing_row now n x y s1 s2 ch) (payment_channels d)\<rparr>)"
    let ?ch1 = "closing_row now n x y s1 s2 ch"
    let ?d2 = "closed_db later c a ?ch1 ?d1"
    show "settle_writes now c a n x y s1 s2 d = Inr (?d1, ?fee)" by (rule run(1))
    show "close_channel later c a ?d1 = Inr (?d2, closed_row later ?ch1)" by (rule run(2))
    show "?fee = quantize_half_even 8 (\<bar>x - ch_deposit_a ch\<bar> * (1 / 100))"
      by (simp add: channel_fee_def CHANNEL_FEE_PERCENT_def)
    show "\<forall>b u. available_of b u (balances ?d2) = available_of b u (balances d)
         + (if u = ''XMR'' then (if b = ch_agent_a_id ch then x else 0)
              + (if b = ch_agent_b_id ch then y else 0) else 0)"
      using assms(8,9) by (simp add: closed_db_frame record_channel_fee_frame closing_row_def)
    show "fee_total ''XMR'' (fee_collections ?d2) = fee_total ''XMR'' (fee_collections d) + max ?fee 0"
      by (simp add: closed_db_frame record_channel_fee_frame)
  qed
qed

lemma settlement_pays_claim_witness:
  "\<exists>d1 fee d2 ch2. settle_writes 10 1 1 1 1000 2000 ''a'' ''b'' demo_channel = Inr (d1, fee)
     \<and> close_channel 3600000010 1 1 d1 = Inr (d2, ch2)
     \<and> available_of 1 ''XMR'' (balances d2) = 1000 \<and> available_of 2 ''XMR'' (balances d2) = 2000"
proof -
  have ok: "table_ok (payment_channels demo_channel)"
    using chan_step_evolves [OF demo_channel_opened demo_purse_ok(2)] by simp
  have "case row_of (payment_channels demo_channel) 1 of None \<Rightarrow> False
      | Some ch \<Rightarrow> ch_status ch = ChannelOpen \<and> is_participant ch 1 \<and> ch_agent_a_id ch = 1
          \<and> ch_agent_b_id ch = 2 \<and> 10 + seconds (ch_settlement_period ch) \<le> 3600000010" by code_simp
  then obtain ch where ch: "row_of (payment_channels demo_channel) 1 = Some ch" "ch_status ch = ChannelOpen"
    "is_participant ch 1" "ch_agent_a_id ch = 1" "ch_agent_b_id ch = 2"
    "10 + seconds (ch_settlement_period ch) \<le> 3600000010"
    by (auto split: option.splits)
  have zero: "available_of 1 ''XMR'' (balances demo_channel) = 0" "available_of 2 ''XMR'' (balances demo_channel) = 0"
    by code_simp+
  have "\<exists>d1 fee d2 ch2. settle_writes 10 1 1 1 1000 2000 ''a'' ''b'' demo_channel = Inr (d1, fee)
      \<and> fee = quantize_half_even 8 (\<bar>1000 - ch_deposit_a ch\<bar> * (1 / 100))
      \<and> close_channel 3600000010 1 1 d1 = Inr (d2, ch2)
      \<and> (\<forall>b u. available_of b u (balances d2) = available_of b u (balances demo_channel)
         + (if u = ''XMR'' then (if b = ch_agent_a_id ch then 1000 else 0)
              + (if b = ch_agent_b_id ch then 2000 else 0) else 0))
      \<and> fee_total ''XMR'' (fee_collections d2) = fee_total ''XMR'' (fee_collections demo_channel) + max fee 0"
    by (rule settlement_pays_claim [OF ok ch(1,2,3) _ _ ch(6)]) simp_all
  then show ?thesis using zero ch(4,5) by auto
qed

end
