(* ===== verification/Text_Encoding.thy ===== *)
theory Text_Encoding
  imports Calendar "HOL-Library.List_Lexorder" "HOL-Library.Char_ord"
begin

text \<open>
  The texts Python produces from values, as far as the services feed them to a hash: decimal and
  hexadecimal numbers, \<open>str(uuid)\<close>, \<open>datetime.isoformat()\<close> of a naive UTC time and
  \<open>json.dumps(obj, sort_keys=True, separators=(",", ":"))\<close> with its ASCII escapes. All of them
  consist of printable ASCII characters, so a NUL never occurs in them.
\<close>

definition printable :: "char \<Rightarrow> bool" where
  "printable c \<longleftrightarrow> 32 \<le> (of_char c :: nat) \<and> (of_char c :: nat) \<le> 126"

abbreviation printable_text :: "string \<Rightarrow> bool" where
  "printable_text s \<equiv> list_all printable s"

abbreviation NUL :: char where
  "NUL \<equiv> CHR 0x00"

lemma printable_no_nul: "printable_text s \<Longrightarrow> NUL \<notin> set s"
  by (auto simp: list_all_iff printable_def)

section \<open>Numbers\<close>

definition digit :: "int \<Rightarrow> char" where
  "digit d = (if d < 10 then char_of (48 + d) else char_of (87 + d))"

text \<open>The last \<open>w\<close> digits of a number in base \<open>b\<close>, padded with zeros.\<close>

fun padded :: "int \<Rightarrow> nat \<Rightarrow> int \<Rightarrow> string" where
  "padded b 0 n = []"
| "padded b (Suc w) n = padded b w (n div b) @ [digit (n mod b)]"

function nat_text :: "int \<Rightarrow> string" where
  "nat_text n = (if n < 10 then [digit n] else nat_text (n div 10) @ [digit (n mod 10)])"
  by pat_completeness auto
termination
  by (relation "measure nat") auto

declare nat_text.simps [simp del]

definition int_text :: "int \<Rightarrow> string" where
  "int_text i = (if i < 0 then ''-'' @ nat_text (- i) else nat_text i)"

definition hex_byte :: "int \<Rightarrow> string" where
  "hex_byte b = padded 16 2 b"

definition bytes_hex :: "int list \<Rightarrow> string" where
  "bytes_hex bs = concat (map hex_byte bs)"

text \<open>\<open>str(uuid)\<close>: 32 hexadecimal digits in groups of 8, 4, 4, 4 and 12.\<close>

definition uuid_text :: "ident \<Rightarrow> string" where
  "uuid_text k =
     (let n = int k
      in padded 16 8 (n div 2 ^ 96) @ ''-'' @ padded 16 4 (n div 2 ^ 80) @ ''-'' @
         padded 16 4 (n div 2 ^ 64) @ ''-'' @ padded 16 4 (n div 2 ^ 48) @ ''-'' @ padded 16 12 n)"

lemma printable_marks [simp]:
  "printable CHR ''-''" "printable CHR ''T''" "printable CHR '':''" "printable CHR ''.''"
  "printable CHR ''[''" "printable CHR '']''" "printable CHR ''{''" "printable CHR ''}''"
  "printable CHR '',''" "printable CHR ''n''" "printable CHR ''r''" "printable CHR ''t''"
  "printable CHR ''b''" "printable CHR ''f''" "printable CHR ''u''" "printable CHR ''l''"
  "printable CHR ''e''" "printable CHR ''a''" "printable CHR ''s''"
  "printable (char_of (34 :: nat))" "printable (char_of (92 :: nat))"
  by (simp_all add: printable_def)

lemma printable_of_char: "32 \<le> (of_char c :: int) \<Longrightarrow> (of_char c :: int) \<le> 126 \<Longrightarrow> printable c"
  by (metis of_nat_le_iff of_nat_numeral of_nat_of_char printable_def)

lemma digit_printable:
  assumes "0 \<le> d" and "d < 16"
  shows "printable (digit d)"
proof -
  have "(of_char (digit d) :: int) = (if d < 10 then 48 + d else 87 + d)"
    using assms by (simp add: digit_def)
  then show ?thesis using assms by (intro printable_of_char) (auto split: if_splits)
qed

lemma nat_text_printable: "0 \<le> n \<Longrightarrow> printable_text (nat_text n)"
proof (induction n rule: nat_text.induct)
  case (1 n)
  then show ?case by (subst nat_text.simps) (auto simp: digit_printable)
qed

lemma int_text_printable: "printable_text (int_text i)"
  by (simp add: int_text_def nat_text_printable)

lemma padded_printable: "0 < b \<Longrightarrow> b \<le> 16 \<Longrightarrow> printable_text (padded b w n)"
  by (induction w arbitrary: n) (auto intro!: digit_printable less_le_trans [OF pos_mod_bound])

lemma bytes_hex_printable: "printable_text (bytes_hex bs)"
  by (induction bs) (simp_all add: bytes_hex_def hex_byte_def padded_printable del: padded.simps)

lemma uuid_text_printable: "printable_text (uuid_text n)"
  by (simp add: uuid_text_def Let_def padded_printable del: padded.simps)

section \<open>Times\<close>

definition time_text :: "moment \<Rightarrow> string" where
  "time_text t =
     (let (y, m, d) = date_of t; us = t mod days 1; s = us div 1000000
      in padded 10 4 y @ ''-'' @ padded 10 2 m @ ''-'' @ padded 10 2 d @ ''T'' @
         padded 10 2 (s div 3600) @ '':'' @ padded 10 2 (s div 60 mod 60) @ '':'' @
         padded 10 2 (s mod 60) @
         (if us mod 1000000 = 0 then [] else ''.'' @ padded 10 6 (us mod 1000000)))"

lemma time_text_printable: "printable_text (time_text t)"
  by (simp add: time_text_def Let_def split_def padded_printable del: padded.simps)

section \<open>JSON\<close>

datatype json =
    JNull
  | JBool bool
  | JInt int
  | JStr string
  | JList "json list"
  | JObj "(string \<times> json) list"

definition escape_char :: "char \<Rightarrow> string" where
  "escape_char c =
     (let n = (of_char c :: int) in
      if n = 34 then [char_of (92::nat), char_of (34::nat)]
      else if n = 92 then [char_of (92::nat), char_of (92::nat)]
      else if n = 10 then [char_of (92::nat), CHR ''n'']
      else if n = 13 then [char_of (92::nat), CHR ''r'']
      else if n = 9 then [char_of (92::nat), CHR ''t'']
      else if n = 8 then [char_of (92::nat), CHR ''b'']
      else if n = 12 then [char_of (92::nat), CHR ''f'']
      else if 32 \<le> n \<and> n \<le> 126 then [c]
      else [char_of (92::nat), CHR ''u''] @ padded 16 4 n)"

definition json_string :: "string \<Rightarrow> string" where
  "json_string s = [char_of (34::nat)] @ concat (map escape_char s) @ [char_of (34::nat)]"

fun join :: "string \<Rightarrow> string list \<Rightarrow> string" where
  "join sep [] = []"
| "join sep [x] = x"
| "join sep (x # y # q) = x @ sep @ join sep (y # q)"

fun dumps :: "json \<Rightarrow> string"
  and dumps_items :: "json list \<Rightarrow> string list"
  and dumps_fields :: "(string \<times> json) list \<Rightarrow> (string \<times> string) list" where
  "dumps JNull = ''null''"
| "dumps (JBool b) = (if b then ''true'' else ''false'')"
| "dumps (JInt i) = int_text i"
| "dumps (JStr s) = json_string s"
| "dumps (JList vs) = ''['' @ join '','' (dumps_items vs) @ '']''"
| "dumps (JObj fs) = ''{'' @ join '','' (map snd (sort_key fst (dumps_fields fs))) @ ''}''"
| "dumps_items [] = []"
| "dumps_items (v # vs) = dumps v # dumps_items vs"
| "dumps_fields [] = []"
| "dumps_fields ((k, v) # fs) = (k, json_string k @ '':'' @ dumps v) # dumps_fields fs"

lemma escape_printable: "printable_text (escape_char c)"
  by (simp add: escape_char_def Let_def printable_of_char padded_printable del: padded.simps)

lemma json_string_printable: "printable_text (json_string s)"
  by (induction s) (simp_all add: json_string_def escape_printable)

lemma join_printable: "printable_text sep \<Longrightarrow> list_all printable_text xs \<Longrightarrow> printable_text (join sep xs)"
  by (induction sep xs rule: join.induct) simp_all

lemma dumps_printable:
  "printable_text (dumps v)"
  "list_all printable_text (dumps_items vs)"
  "\<forall>p \<in> set (dumps_fields fs). printable_text (snd p)"
proof (induction v and vs and fs rule: dumps_dumps_items_dumps_fields.induct)
  case (6 fs)
  then have "list_all printable_text (map snd (sort_key fst (dumps_fields fs)))"
    by (simp add: list_all_iff)
  then show ?case by (simp add: join_printable)
qed (simp_all add: json_string_printable int_text_printable join_printable)

lemma known_texts:
  "nat_text 1500 = ''1500''" "uuid_text 255 = ''00000000-0000-0000-0000-0000000000ff''"
  "time_text 1000001 = ''1970-01-01T00:00:01.000001''" "time_text 0 = ''1970-01-01T00:00:00''"
  "dumps (JObj [(''b'', JInt 2), (''a'', JList [JNull, JBool True])]) =
     concat [''{'', [char_of (34::nat)], ''a'', [char_of (34::nat)], '':[null,true],'',
       [char_of (34::nat)], ''b'', [char_of (34::nat)], '':2}'']"
  by code_simp+

end
