(* ===== verification/Audit_Chain.thy ===== *)
theory Audit_Chain
  imports Text_Encoding "HOL-Library.Product_Lexorder"
begin

text \<open>
  The tamper-evident audit log of \<open>sthrip/services/audit_logger.py\<close>: the filtering of the details
  (\<open>_sanitize\<close>, \<open>_apply_allowlist\<close>), the chain link (\<open>_hash_chain_link\<close>), the write under the chain
  lock (\<open>_write_with_chain\<close>) and \<open>verify_chain\<close>.

  HMAC-SHA256 is the parameter \<open>mac\<close> of every definition that uses it (key and message to the hex
  digest). Where a theorem needs something of it, it is that a digest is not empty; a tampering
  theorem exhibits the collision instead of assuming there is none. The digest of the client address
  comes from the salt service and is an argument. The clock reading of each write is an argument.
\<close>

section \<open>What is stored of the details\<close>

type_synonym json_object = "(string \<times> json) list"

definition lower_char :: "char \<Rightarrow> char" where
  "lower_char c = (let n = (of_char c :: int) in if 65 \<le> n \<and> n \<le> 90 then char_of (n + 32) else c)"

definition SENSITIVE_KEYS :: "string list" where
  "SENSITIVE_KEYS = [''api_key'', ''password'', ''secret'', ''mnemonic'', ''seed'',
     ''webhook_secret'', ''admin_key'', ''token'', ''credentials'']"

definition sensitive :: "string \<Rightarrow> bool" where
  "sensitive k \<longleftrightarrow> map lower_char k \<in> set SENSITIVE_KEYS"

fun sanitize :: "json_object \<Rightarrow> json_object"
  and sanitize_value :: "json \<Rightarrow> json"
  and sanitize_items :: "json list \<Rightarrow> json list" where
  "sanitize [] = []"
| "sanitize ((k, v) # q) = (k, if sensitive k then JStr ''***'' else sanitize_value v) # sanitize q"
| "sanitize_value (JObj o') = JObj (sanitize o')"
| "sanitize_value (JList l) = JList (sanitize_items l)"
| "sanitize_value v = v"
| "sanitize_items [] = []"
| "sanitize_items (JObj o' # l) = JObj (sanitize o') # sanitize_items l"
| "sanitize_items (v # l) = v # sanitize_items l"

definition AUDIT_ALLOWLIST :: "(string \<times> string list) list" where
  "AUDIT_ALLOWLIST =
     [(''agent.registered'', [''agent_name'']),
      (''agent.verified'', [''agent_name'']),
      (''agent.disabled'', [''agent_name'']),
      (''agent.settings_updated'', [''old'', ''new'']),
      (''agent.key_rotated'', []),
      (''auth.failed'', [''reason'']),
      (''payment.hub_routing'', [''payment_id'', ''to_agent'', ''amount'']),
      (''balance.deposit'', [''mode'', ''amount'']),
      (''balance.withdraw'', [''amount'', ''to_address'', ''mode'']),
      (''admin.stats_viewed'', []),
      (''admin.action'', [''target'', ''result'']),
      (''test.action'', [''action'']),
      (''verify.action'', [''action''])]"

definition apply_allowlist :: "string \<Rightarrow> json_object option \<Rightarrow> json_object option" where
  "apply_allowlist action details =
     (case details of
        None \<Rightarrow> None
      | Some o' \<Rightarrow>
          (case map_of AUDIT_ALLOWLIST action of
             None \<Rightarrow> None
           | Some allowed \<Rightarrow>
               if allowed = [] then None
               else let filtered = filter (\<lambda>(k, v). k \<in> set allowed) o'
                    in if filtered = [] then None else Some (sanitize filtered)))"

section \<open>The chain\<close>

definition GENESIS_HMAC :: string where
  "GENESIS_HMAC = ''aeebad4a796fcc2e15dc4c6061b45ed9b373f26adfc798ca7d2d8cc58182718e''"

text \<open>The two HMAC columns of a row are null before the migration that introduced the chain.\<close>

record audit_row =
  al_agent_id :: "ident option"
  al_action :: string
  al_resource_type :: "string option"
  al_resource_id :: "ident option"
  al_ip_hmac :: "int list option"
  al_request_method :: "string option"
  al_request_path :: "string option"
  al_request_body :: "json_object option"
  al_success :: bool
  al_error_message :: "string option"
  al_created_at :: moment
  al_prev_hmac :: "string option"
  al_entry_hmac :: "string option"

type_synonym audit_table = "(ident, audit_row) table"

type_synonym mac_fun = "string \<Rightarrow> string \<Rightarrow> string"

definition canonical_json :: "json_object option \<Rightarrow> string" where
  "canonical_json b = (case b of None \<Rightarrow> ''null'' | Some o' \<Rightarrow> dumps (JObj o'))"

definition link_message :: "string list \<Rightarrow> string" where
  "link_message parts = join [NUL] parts"

definition hash_chain_link ::
  "mac_fun \<Rightarrow> string \<Rightarrow> string \<Rightarrow> string \<Rightarrow> string \<Rightarrow> string \<Rightarrow> string \<Rightarrow> string \<Rightarrow> string"
where
  "hash_chain_link mac key prev_hmac action agent_id ip ts_iso details_json =
     mac key (link_message [prev_hmac, action, agent_id, ip, ts_iso, details_json])"

definition text_or_empty :: "('a \<Rightarrow> string) \<Rightarrow> 'a option \<Rightarrow> string" where
  "text_or_empty f x = (case x of None \<Rightarrow> '''' | Some y \<Rightarrow> f y)"

text \<open>The newest row: \<open>ORDER BY created_at DESC, id DESC\<close>, first.\<close>

definition get_prev_hmac :: "audit_table \<Rightarrow> string" where
  "get_prev_hmac t =
     (case rev (sort_key (\<lambda>(k, r). (al_created_at r, k)) t) of
        [] \<Rightarrow> GENESIS_HMAC
      | (k, r) # q \<Rightarrow> (case al_entry_hmac r of None \<Rightarrow> GENESIS_HMAC | Some h \<Rightarrow> h))"

text \<open>The arguments of a write: the columns the caller gives, the sanitized body and the address digest.\<close>

record audit_write =
  aw_action :: string
  aw_agent_id :: "ident option"
  aw_ip_hmac :: "int list option"
  aw_request_method :: "string option"
  aw_request_path :: "string option"
  aw_resource_type :: "string option"
  aw_resource_id :: "ident option"
  aw_sanitized :: "json_object option"
  aw_success :: bool
  aw_error_message :: "string option"

definition write_with_chain ::
  "mac_fun \<Rightarrow> string \<Rightarrow> moment \<Rightarrow> ident \<Rightarrow> audit_write \<Rightarrow> audit_table \<Rightarrow> audit_table"
where
  "write_with_chain mac key now k w t =
     (let prev = get_prev_hmac t;
          entry = hash_chain_link mac key prev (aw_action w) (text_or_empty uuid_text (aw_agent_id w))
                    (text_or_empty bytes_hex (aw_ip_hmac w)) (time_text now) (canonical_json (aw_sanitized w))
      in insert_row k
           \<lparr>al_agent_id = aw_agent_id w, al_action = aw_action w, al_resource_type = aw_resource_type w,
            al_resource_id = aw_resource_id w, al_ip_hmac = aw_ip_hmac w,
            al_request_method = aw_request_method w, al_request_path = aw_request_path w,
            al_request_body = aw_sanitized w, al_success = aw_success w,
            al_error_message = aw_error_message w, al_created_at = now,
            al_prev_hmac = Some prev, al_entry_hmac = Some entry\<rparr> t)"

section \<open>Verification\<close>

record chain_status =
  cs_ok :: bool
  cs_first_bad_id :: "ident option"
  cs_total_checked :: nat

text \<open>\<open>str or default\<close> on a nullable text column.\<close>

definition truthy :: "string option \<Rightarrow> bool" where
  "truthy s \<longleftrightarrow> s \<noteq> None \<and> s \<noteq> Some ''''"

definition or_else :: "string option \<Rightarrow> string \<Rightarrow> string" where
  "or_else s x = (case s of None \<Rightarrow> x | Some y \<Rightarrow> if y = '''' then x else y)"

definition recompute :: "mac_fun \<Rightarrow> string \<Rightarrow> audit_row \<Rightarrow> string" where
  "recompute mac key r =
     hash_chain_link mac key (or_else (al_prev_hmac r) '''') (al_action r)
       (text_or_empty uuid_text (al_agent_id r))
       (case al_ip_hmac r of None \<Rightarrow> '''' | Some b \<Rightarrow> bytes_hex b)
       (time_text (al_created_at r)) (canonical_json (al_request_body r))"

fun check_rows ::
  "mac_fun \<Rightarrow> string \<Rightarrow> string \<Rightarrow> bool \<Rightarrow> ident option \<Rightarrow> (ident \<times> audit_row) list \<Rightarrow> bool \<times> ident option"
where
  "check_rows mac key expected ok bad [] = (ok, bad)"
| "check_rows mac key expected ok bad ((k, r) # q) =
     (if al_prev_hmac r \<noteq> Some expected
      then check_rows mac key (or_else (al_entry_hmac r) '''') False (if ok then Some k else bad) q
      else if al_entry_hmac r \<noteq> Some (recompute mac key r)
      then check_rows mac key (or_else (al_entry_hmac r) (recompute mac key r)) False
             (if ok then Some k else bad) q
      else check_rows mac key (or_else (al_entry_hmac r) (recompute mac key r)) ok bad q)"

text \<open>The rows after the anchor and the HMAC expected of the first; all rows when it is not found.\<close>

fun after_anchor :: "ident \<Rightarrow> (ident \<times> audit_row) list \<Rightarrow> (string \<times> (ident \<times> audit_row) list) option" where
  "after_anchor a [] = None"
| "after_anchor a ((k, r) # q) =
     (if k = a then Some (or_else (al_entry_hmac r) GENESIS_HMAC, q) else after_anchor a q)"

definition chained_rows :: "audit_table \<Rightarrow> (ident \<times> audit_row) list" where
  "chained_rows t =
     filter (\<lambda>(k, r). truthy (al_entry_hmac r)) (sort_key (\<lambda>(k, r). (al_created_at r, k)) t)"

definition verify_chain :: "mac_fun \<Rightarrow> string \<Rightarrow> ident option \<Rightarrow> audit_table \<Rightarrow> chain_status" where
  "verify_chain mac key since t =
     (let rows = chained_rows t;
          (expected, q) = (case since of
              None \<Rightarrow> (GENESIS_HMAC, rows)
            | Some a \<Rightarrow> (case after_anchor a rows of None \<Rightarrow> (GENESIS_HMAC, rows) | Some p \<Rightarrow> p));
          (ok, bad) = check_rows mac key expected True None q
      in \<lparr>cs_ok = ok, cs_first_bad_id = bad, cs_total_checked = length q\<rparr>)"

end
