(* ===== verification/Audit_Proofs.thy ===== *)
theory Audit_Proofs
  imports Audit_Chain
begin

text \<open>
  What the audit log promises: a log written through \<open>_write_with_chain\<close> verifies, the newest HMAC
  commits to everything before it, and the stored details show no sensitive value. The two limits
  of these promises are \<open>truncated_log_verifies\<close> and \<open>nested_lists_leak\<close>.
\<close>

section \<open>The link message\<close>

fun split_at_nul :: "string \<Rightarrow> string list" where
  "split_at_nul [] = [[]]"
| "split_at_nul (c # s) =
     (if c = NUL then [] # split_at_nul s
      else case split_at_nul s of [] \<Rightarrow> [[c]] | p # q \<Rightarrow> (c # p) # q)"

lemma split_no_nul: "NUL \<notin> set x \<Longrightarrow> split_at_nul x = [x]"
  by (induction x) auto

lemma split_first: "NUL \<notin> set x \<Longrightarrow> split_at_nul (x @ NUL # s) = x # split_at_nul s"
  by (induction x) auto

lemma split_link_message:
  "parts \<noteq> [] \<Longrightarrow> \<forall>p \<in> set parts. NUL \<notin> set p \<Longrightarrow> split_at_nul (link_message parts) = parts"
  unfolding link_message_def
  by (induction "[NUL]" parts rule: join.induct) (simp_all add: split_no_nul split_first)

section \<open>Linked rows\<close>

definition row_message :: "audit_row \<Rightarrow> string" where
  "row_message r = link_message
     [or_else (al_prev_hmac r) '''', al_action r, text_or_empty uuid_text (al_agent_id r),
      (case al_ip_hmac r of None \<Rightarrow> '''' | Some b \<Rightarrow> bytes_hex b),
      time_text (al_created_at r), canonical_json (al_request_body r)]"

lemma recompute_message: "recompute mac key r = mac key (row_message r)"
  by (simp add: recompute_def hash_chain_link_def row_message_def)

text \<open>What the chain protects of a row, as the texts that enter the digest.\<close>

definition audited :: "audit_row \<Rightarrow> string list" where
  "audited r = [al_action r, text_or_empty uuid_text (al_agent_id r),
      (case al_ip_hmac r of None \<Rightarrow> '''' | Some b \<Rightarrow> bytes_hex b),
      time_text (al_created_at r), canonical_json (al_request_body r)]"

definition hex_digests :: "mac_fun \<Rightarrow> string \<Rightarrow> bool" where
  "hex_digests mac key \<longleftrightarrow> (\<forall>m. mac key m \<noteq> '''' \<and> printable_text (mac key m))"

fun linked :: "mac_fun \<Rightarrow> string \<Rightarrow> string \<Rightarrow> (ident \<times> audit_row) list \<Rightarrow> bool" where
  "linked mac key e [] = True"
| "linked mac key e ((k, r) # q) =
     (al_prev_hmac r = Some e \<and> al_entry_hmac r = Some (recompute mac key r)
      \<and> linked mac key (recompute mac key r) q)"

fun last_link :: "mac_fun \<Rightarrow> string \<Rightarrow> string \<Rightarrow> (ident \<times> audit_row) list \<Rightarrow> string" where
  "last_link mac key e [] = e"
| "last_link mac key e ((k, r) # q) = last_link mac key (recompute mac key r) q"

lemma linked_append:
  "linked mac key e (p @ q) \<longleftrightarrow> linked mac key e p \<and> linked mac key (last_link mac key e p) q"
  by (induction mac key e p rule: linked.induct) auto

lemma last_link_append: "last_link mac key e (p @ q) = last_link mac key (last_link mac key e p) q"
  by (induction mac key e p rule: last_link.induct) auto

lemma check_rows_bad: "fst (check_rows mac key e False bad q) = False"
  by (induction mac key e False bad q rule: check_rows.induct) auto

lemma check_linked: "hex_digests mac key \<Longrightarrow> linked mac key e q \<Longrightarrow> check_rows mac key e True None q = (True, None)"
  by (induction mac key e q rule: linked.induct) (auto simp: or_else_def recompute_message hex_digests_def)

lemma check_rows_linked:
  "hex_digests mac key \<Longrightarrow> fst (check_rows mac key e True None q) \<Longrightarrow> linked mac key e q"
  by (induction mac key e q rule: linked.induct)
    (auto simp: check_rows_bad or_else_def recompute_message hex_digests_def split: if_splits)

lemma after_anchor_linked:
  "hex_digests mac key \<Longrightarrow> linked mac key e q \<Longrightarrow> after_anchor a q = Some (e', q') \<Longrightarrow> linked mac key e' q'"
  by (induction mac key e q rule: linked.induct)
    (auto simp: or_else_def recompute_message hex_digests_def split: if_splits)

section \<open>Written logs\<close>

fun write_all :: "mac_fun \<Rightarrow> string \<Rightarrow> (moment \<times> ident \<times> audit_write) list \<Rightarrow> audit_table \<Rightarrow> audit_table" where
  "write_all mac key [] t = t"
| "write_all mac key ((now, k, w) # ws) t = write_all mac key ws (write_with_chain mac key now k w t)"

definition stamps :: "audit_table \<Rightarrow> moment list" where
  "stamps t = map (\<lambda>(k, r). al_created_at r) t"

lemma stamps_simps [simp]:
  "stamps [] = []" "stamps ((k, r) # t) = al_created_at r # stamps t" "stamps (s @ t) = stamps s @ stamps t"
  by (simp_all add: stamps_def)

lemma set_stamps: "(\<forall>x \<in> set (stamps t). P x) \<longleftrightarrow> (\<forall>(k, r) \<in> set t. P (al_created_at r))"
  by (auto simp: stamps_def)

text \<open>Rows in the order of their timestamps, linked from the genesis sentinel.\<close>

definition chain_ok :: "mac_fun \<Rightarrow> string \<Rightarrow> audit_table \<Rightarrow> bool" where
  "chain_ok mac key t \<longleftrightarrow>
     sorted_wrt (<) (stamps t) \<and> linked mac key GENESIS_HMAC t"

lemma chain_sorted:
  assumes "sorted_wrt (<) (stamps t)"
  shows "sort_key (\<lambda>(k, r). (al_created_at r, k)) t = t"
proof (rule sort_key_id_if_sorted)
  show "sorted (map (\<lambda>(k, r). (al_created_at r, k)) t)"
    using assms by (induction t) (fastforce simp: less_eq_prod_def set_stamps)+
qed

lemma linked_truthy:
  "hex_digests mac key \<Longrightarrow> linked mac key e t \<Longrightarrow> filter (\<lambda>(k, r). truthy (al_entry_hmac r)) t = t"
  by (induction mac key e t rule: linked.induct) (auto simp: truthy_def recompute_message hex_digests_def)

lemma chained_rows_ok: "hex_digests mac key \<Longrightarrow> chain_ok mac key t \<Longrightarrow> chained_rows t = t"
  using linked_truthy [of mac key GENESIS_HMAC t] by (simp add: chained_rows_def chain_ok_def chain_sorted)

lemma last_link_entry:
  "t \<noteq> [] \<Longrightarrow> linked mac key e t \<Longrightarrow> al_entry_hmac (snd (last t)) = Some (last_link mac key e t)"
  by (induction mac key e t rule: linked.induct) auto

lemma get_prev_last:
  assumes "chain_ok mac key t"
  shows "get_prev_hmac t = last_link mac key GENESIS_HMAC t"
proof (cases t rule: rev_cases)
  case Nil
  then show ?thesis by (simp add: get_prev_hmac_def)
next
  case (snoc s kr)
  obtain k r where kr: "kr = (k, r)" by (cases kr)
  have "al_entry_hmac r = Some (last_link mac key GENESIS_HMAC t)"
    using last_link_entry [of t mac key GENESIS_HMAC] assms by (simp add: snoc kr chain_ok_def)
  moreover have "sort_key (\<lambda>(k, r). (al_created_at r, k)) t = t"
    using assms by (intro chain_sorted) (simp add: chain_ok_def)
  ultimately show ?thesis by (simp add: get_prev_hmac_def snoc kr)
qed

lemma write_ok:
  assumes "chain_ok mac key t" and "\<forall>(j, r) \<in> set t. al_created_at r < now"
  shows "chain_ok mac key (write_with_chain mac key now k w t)"
  using assms
  by (auto simp: chain_ok_def write_with_chain_def Let_def insert_row_def sorted_wrt_append linked_append
      set_stamps get_prev_last [OF assms(1)] recompute_def or_else_def text_or_empty_def)

lemma write_all_ok:
  assumes "chain_ok mac key t" and "sorted_wrt (<) (stamps t @ map fst ws)"
  shows "chain_ok mac key (write_all mac key ws t) \<and> length (write_all mac key ws t) = length t + length ws"
  using assms
proof (induction mac key ws t rule: write_all.induct)
  case (1 mac key t)
  then show ?case by simp
next
  case (2 mac key now k w ws t)
  have "chain_ok mac key (write_with_chain mac key now k w t)"
    using 2(2,3) by (intro write_ok) (auto simp: sorted_wrt_append set_stamps)
  moreover have "sorted_wrt (<) (stamps (write_with_chain mac key now k w t) @ map fst ws)"
    using 2(3) by (auto simp: write_with_chain_def Let_def insert_row_def sorted_wrt_append)
  ultimately show ?case
    using 2(1) by (simp add: write_with_chain_def Let_def insert_row_def)
qed

section \<open>The newest digest commits to the log\<close>

lemma first_part_unique:
  assumes "join [NUL] (p # x # q) = join [NUL] (p' # x' # q')" and "NUL \<notin> set p" and "NUL \<notin> set p'"
  shows "p = p'"
proof -
  have "split_at_nul (p @ NUL # join [NUL] (x # q)) = split_at_nul (p' @ NUL # join [NUL] (x' # q'))"
    using assms(1) by simp
  then show ?thesis using assms(2,3) by (simp add: split_first)
qed

lemma last_link_no_nul:
  "hex_digests mac key \<Longrightarrow> NUL \<notin> set e \<Longrightarrow> NUL \<notin> set (last_link mac key e q)"
  by (induction mac key e q rule: last_link.induct)
    (simp_all add: hex_digests_def recompute_message printable_no_nul)

lemma genesis_no_nul: "NUL \<notin> set GENESIS_HMAC"
  by (simp add: GENESIS_HMAC_def)

lemma or_else_empty: "or_else (Some x) '''' = x"
  by (simp add: or_else_def)

definition collides :: "mac_fun \<Rightarrow> string \<Rightarrow> (ident \<times> audit_row) list \<Rightarrow> (ident \<times> audit_row) list \<Rightarrow> bool" where
  "collides mac key xs ys \<longleftrightarrow>
     (\<exists>(k, r) \<in> set xs. \<exists>(k', r') \<in> set ys. row_message r \<noteq> row_message r'
        \<and> mac key (row_message r) = mac key (row_message r'))
     \<or> (\<exists>(k, r) \<in> set xs \<union> set ys. mac key (row_message r) = GENESIS_HMAC)"

definition messages :: "(ident \<times> audit_row) list \<Rightarrow> string list" where
  "messages q = map (\<lambda>(k, r). row_message r) q"

definition audited_rows :: "(ident \<times> audit_row) list \<Rightarrow> string list list" where
  "audited_rows q = map (\<lambda>(k, r). audited r) q"

lemma head_commits:
  assumes "hex_digests mac key" and "linked mac key GENESIS_HMAC xs" and "linked mac key GENESIS_HMAC ys"
    and "last_link mac key GENESIS_HMAC xs = last_link mac key GENESIS_HMAC ys"
    and "\<not> collides mac key xs ys"
  shows "messages xs = messages ys"
  using assms(2-5)
proof (induction xs arbitrary: ys rule: rev_induct)
  case Nil
  show ?case
  proof (cases ys rule: rev_cases)
    case (snoc ys' kr)
    obtain k r where kr: "kr = (k, r)" by (cases kr)
    then have "mac key (row_message r) = GENESIS_HMAC"
      using Nil.prems(3) by (simp add: snoc last_link_append recompute_message)
    then show ?thesis using Nil.prems(4) by (auto simp: collides_def snoc kr)
  qed simp
next
  case (snoc kr xs)
  obtain k r where kr: "kr = (k, r)" by (cases kr)
  show ?case
  proof (cases ys rule: rev_cases)
    case Nil
    then have "mac key (row_message r) = GENESIS_HMAC"
      using snoc.prems(3) by (simp add: kr last_link_append recompute_message)
    then show ?thesis using snoc.prems(4) by (auto simp: collides_def kr)
  next
    case snoc': (snoc ys' kr')
    obtain k' r' where kr': "kr' = (k', r')" by (cases kr')
    have "mac key (row_message r) = mac key (row_message r')"
      using snoc.prems(3) by (simp add: kr snoc' kr' last_link_append recompute_message)
    then have msg: "row_message r = row_message r'"
      using snoc.prems(4) by (auto simp: collides_def kr snoc' kr')
    have prev: "al_prev_hmac r = Some (last_link mac key GENESIS_HMAC xs)"
      "al_prev_hmac r' = Some (last_link mac key GENESIS_HMAC ys')"
      using snoc.prems(1,2) by (simp_all add: kr snoc' kr' linked_append)
    have "last_link mac key GENESIS_HMAC xs = last_link mac key GENESIS_HMAC ys'"
      by (rule first_part_unique [OF msg [unfolded row_message_def link_message_def prev or_else_empty]])
        (rule last_link_no_nul [OF assms(1) genesis_no_nul])+
    moreover have "\<not> collides mac key xs ys'"
      using snoc.prems(4) by (auto simp: collides_def snoc')
    ultimately have "messages xs = messages ys'"
      using snoc.IH snoc.prems(1,2) by (simp add: linked_append snoc')
    then show ?thesis by (simp add: messages_def kr snoc' kr' msg)
  qed
qed

lemma text_or_empty_printable: "(\<And>x. printable_text (f x)) \<Longrightarrow> printable_text (text_or_empty f x)"
  by (simp add: text_or_empty_def split: option.split)

lemma canonical_printable: "printable_text (canonical_json b)"
proof (cases b)
  case None
  then show ?thesis by (simp add: canonical_json_def)
next
  case (Some o')
  then show ?thesis using dumps_printable(1) [of "JObj o'"] by (simp add: canonical_json_def)
qed

lemma message_audited:
  assumes "NUL \<notin> set (or_else (al_prev_hmac r) '''')" and "NUL \<notin> set (al_action r)"
  shows "tl (split_at_nul (row_message r)) = audited r"
proof -
  have "NUL \<notin> set (text_or_empty uuid_text (al_agent_id r))"
    by (intro printable_no_nul text_or_empty_printable uuid_text_printable)
  moreover have "NUL \<notin> set (case al_ip_hmac r of None \<Rightarrow> '''' | Some b \<Rightarrow> bytes_hex b)"
    by (intro printable_no_nul) (simp add: bytes_hex_printable split: option.split)
  moreover have "NUL \<notin> set (time_text (al_created_at r))" "NUL \<notin> set (canonical_json (al_request_body r))"
    by (intro printable_no_nul time_text_printable canonical_printable)+
  ultimately have "split_at_nul (row_message r) = or_else (al_prev_hmac r) '''' # audited r"
    using assms unfolding row_message_def audited_def by (subst split_link_message) simp_all
  then show ?thesis by simp
qed

lemma linked_prev_no_nul:
  "hex_digests mac key \<Longrightarrow> NUL \<notin> set e \<Longrightarrow> linked mac key e q \<Longrightarrow> (k, r) \<in> set q \<Longrightarrow>
     NUL \<notin> set (or_else (al_prev_hmac r) '''')"
  by (induction mac key e q rule: linked.induct)
    (auto simp: or_else_def hex_digests_def recompute_message printable_no_nul split: if_splits)

lemma audited_from_messages:
  assumes "hex_digests mac key" and "linked mac key GENESIS_HMAC q" and "\<forall>(k, r) \<in> set q. NUL \<notin> set (al_action r)"
  shows "audited_rows q = map (\<lambda>m. tl (split_at_nul m)) (messages q)"
  using assms(3) message_audited linked_prev_no_nul [OF assms(1) genesis_no_nul assms(2)]
  by (fastforce simp: audited_rows_def messages_def)

section \<open>Redaction\<close>

fun exposed :: "json \<Rightarrow> bool"
  and exposed_fields :: "json_object \<Rightarrow> bool"
  and exposed_items :: "json list \<Rightarrow> bool" where
  "exposed (JObj fs) = exposed_fields fs"
| "exposed (JList vs) = exposed_items vs"
| "exposed v = False"
| "exposed_fields [] = False"
| "exposed_fields ((k, v) # q) = ((sensitive k \<and> v \<noteq> JStr ''***'') \<or> exposed v \<or> exposed_fields q)"
| "exposed_items [] = False"
| "exposed_items (v # q) = (exposed v \<or> exposed_items q)"

text \<open>No list is an item of a list.\<close>

fun flat :: "json \<Rightarrow> bool"
  and flat_fields :: "json_object \<Rightarrow> bool"
  and flat_items :: "json list \<Rightarrow> bool" where
  "flat (JObj fs) = flat_fields fs"
| "flat (JList vs) = flat_items vs"
| "flat v = True"
| "flat_fields [] = True"
| "flat_fields ((k, v) # q) = (flat v \<and> flat_fields q)"
| "flat_items [] = True"
| "flat_items (JList l # q) = False"
| "flat_items (v # q) = (flat v \<and> flat_items q)"

lemma sanitize_hides:
  "flat_fields fs \<Longrightarrow> \<not> exposed_fields (sanitize fs)"
  "flat v \<Longrightarrow> \<not> exposed (sanitize_value v)"
  "flat_items vs \<Longrightarrow> \<not> exposed_items (sanitize_items vs)"
  by (induction fs and v and vs rule: sanitize_sanitize_value_sanitize_items.induct) auto

lemma sanitize_keys: "map fst (sanitize fs) = map fst fs"
  by (induction fs) auto

lemma flat_filter: "flat_fields fs \<Longrightarrow> flat_fields (filter P fs)"
  by (induction fs) auto

section \<open>Verification results\<close>

lemma verify_linked:
  "hex_digests mac key \<Longrightarrow> cs_ok (verify_chain mac key None t) \<Longrightarrow> linked mac key GENESIS_HMAC (chained_rows t)"
  using check_rows_linked [of mac key GENESIS_HMAC "chained_rows t"]
  by (simp add: verify_chain_def split_def Let_def)

lemma verify_chain_ok:
  assumes "hex_digests mac key" and "chain_ok mac key t"
  shows "verify_chain mac key since t =
    \<lparr>cs_ok = True, cs_first_bad_id = None,
     cs_total_checked = (case since of None \<Rightarrow> length t
       | Some a \<Rightarrow> (case after_anchor a t of None \<Rightarrow> length t | Some (e, q) \<Rightarrow> length q))\<rparr>"
proof -
  have rows: "chained_rows t = t" by (rule chained_rows_ok [OF assms])
  have link: "linked mac key GENESIS_HMAC t" using assms(2) by (simp add: chain_ok_def)
  show ?thesis
  proof (cases since)
    case None
    then show ?thesis using check_linked [OF assms(1) link] by (simp add: verify_chain_def rows)
  next
    case (Some a)
    show ?thesis
    proof (cases "after_anchor a t")
      case None
      then show ?thesis using check_linked [OF assms(1) link] Some by (simp add: verify_chain_def rows)
    next
      case (Some p)
      obtain e q where p: "p = (e, q)" by (cases p)
      have "linked mac key e q" using after_anchor_linked [OF assms(1) link] Some by (simp add: p)
      then show ?thesis
        using check_linked [OF assms(1)] Some \<open>since = Some a\<close> by (simp add: verify_chain_def rows p)
    qed
  qed
qed

text \<open>Dropping the newest rows goes unnoticed: every prefix of a written log verifies.\<close>

lemma truncated_log_verifies:
  assumes "hex_digests mac key" and "sorted_wrt (<) (map fst ws)"
  shows "cs_ok (verify_chain mac key None (take n (write_all mac key ws [])))"
proof -
  let ?t = "write_all mac key ws []"
  have ok: "chain_ok mac key ?t"
    using write_all_ok [of mac key "[]" ws] assms(2) by (simp add: chain_ok_def)
  have split: "?t = take n ?t @ drop n ?t" by simp
  have "linked mac key GENESIS_HMAC (take n ?t @ drop n ?t)"
    and "sorted_wrt (<) (stamps (take n ?t @ drop n ?t))"
    using ok by (simp_all only: append_take_drop_id chain_ok_def)
  then have "chain_ok mac key (take n ?t)"
    by (simp only: chain_ok_def linked_append stamps_simps sorted_wrt_append)
  then show ?thesis by (simp add: verify_chain_ok [OF assms(1)])
qed

text \<open>A list inside a list is stored as it is, whatever keys it holds.\<close>

lemma nested_lists_leak:
  "apply_allowlist ''agent.settings_updated'' (Some [(''new'', JList [JList [JObj [(''api_key'', JStr ''k1'')]]])])
     = Some [(''new'', JList [JList [JObj [(''api_key'', JStr ''k1'')]]])]"
  by code_simp

section \<open>Properties\<close>

definition demo_mac :: mac_fun where
  "demo_mac key m = ''x'' @ bytes_hex (map of_char m)"

lemma demo_mac_ok: "hex_digests demo_mac key"
  by (simp add: hex_digests_def demo_mac_def bytes_hex_printable printable_def)

definition demo_write :: "string \<Rightarrow> audit_write" where
  "demo_write action = \<lparr>aw_action = action, aw_agent_id = Some 7, aw_ip_hmac = None,
     aw_request_method = None, aw_request_path = None, aw_resource_type = None, aw_resource_id = None,
     aw_sanitized = Some [(''amount'', JStr ''5'')], aw_success = True, aw_error_message = None\<rparr>"

definition demo_log :: audit_table where
  "demo_log = write_all demo_mac ''k'' [(1, 1, demo_write ''balance.deposit''), (2, 2, demo_write ''balance.withdraw'')] []"

text \<open>C7. A log written only through the service verifies: for writes at strictly increasing clock
  readings \<open>verify_chain\<close> reports no bad row, whatever anchor it starts from, and counts exactly the
  rows after the anchor.\<close>

theorem audit_log_verifies:
  assumes "hex_digests mac key" and "sorted_wrt (<) (map fst ws)"
  shows "verify_chain mac key since (write_all mac key ws []) =
      \<lparr>cs_ok = True, cs_first_bad_id = None,
       cs_total_checked = (case since of None \<Rightarrow> length ws
         | Some a \<Rightarrow> (case after_anchor a (write_all mac key ws []) of
               None \<Rightarrow> length ws | Some (e, q) \<Rightarrow> length q))\<rparr>"
proof -
  have "chain_ok mac key (write_all mac key ws []) \<and> length (write_all mac key ws []) = length ws"
    using write_all_ok [of mac key "[]" ws] assms(2) by (simp add: chain_ok_def)
  then show ?thesis by (simp add: verify_chain_ok [OF assms(1)] split: option.split)
qed

theorem audit_log_verifies_witness:
  "cs_ok (verify_chain demo_mac ''k'' (Some 1) demo_log)
    \<and> cs_total_checked (verify_chain demo_mac ''k'' None demo_log) = 2"
  unfolding demo_log_def
  by (subst (1 2) audit_log_verifies [OF demo_mac_ok]) simp_all

text \<open>C8. The newest digest commits to the whole log: when two logs verify under the same key and end in
  the same digest, they record the same actions, agents, address digests, times and details row by
  row, unless two of their link messages collide under the MAC or one hits the genesis sentinel. So
  no row below a known head can be changed, inserted, reordered or deleted unnoticed.\<close>

theorem audit_head_commits:
  assumes "hex_digests mac key"
    and "cs_ok (verify_chain mac key None t)" and "cs_ok (verify_chain mac key None t')"
    and "chained_rows t \<noteq> []" and "chained_rows t' \<noteq> []"
    and "al_entry_hmac (snd (last (chained_rows t))) = al_entry_hmac (snd (last (chained_rows t')))"
    and "\<forall>(k, r) \<in> set (chained_rows t) \<union> set (chained_rows t'). NUL \<notin> set (al_action r)"
  shows "audited_rows (chained_rows t) = audited_rows (chained_rows t')
    \<or> collides mac key (chained_rows t) (chained_rows t')"
proof -
  note link = verify_linked [OF assms(1,2)] verify_linked [OF assms(1,3)]
  have "last_link mac key GENESIS_HMAC (chained_rows t) = last_link mac key GENESIS_HMAC (chained_rows t')"
    using last_link_entry [OF assms(4) link(1)] last_link_entry [OF assms(5) link(2)] assms(6) by simp
  then show ?thesis
    using head_commits [OF assms(1) link] assms(7)
      audited_from_messages [OF assms(1) link(1)] audited_from_messages [OF assms(1) link(2)] by auto
qed

definition demo_edited :: audit_table where
  "demo_edited = modify_row 2 (\<lambda>r. r\<lparr>al_success := False, al_request_path := Some ''/x''\<rparr>) demo_log"

theorem audit_head_commits_witness:
  "cs_ok (verify_chain demo_mac ''k'' None demo_edited)
    \<and> (audited_rows (chained_rows demo_log) = audited_rows (chained_rows demo_edited)
       \<or> collides demo_mac ''k'' (chained_rows demo_log) (chained_rows demo_edited))"
proof -
  have ok: "cs_ok (verify_chain demo_mac ''k'' None demo_log)"
    "cs_ok (verify_chain demo_mac ''k'' None demo_edited)" by code_simp+
  have rows: "chained_rows demo_log \<noteq> []" "chained_rows demo_edited \<noteq> []"
    "al_entry_hmac (snd (last (chained_rows demo_log))) = al_entry_hmac (snd (last (chained_rows demo_edited)))"
    "\<forall>(k, r) \<in> set (chained_rows demo_log) \<union> set (chained_rows demo_edited). NUL \<notin> set (al_action r)"
    by code_simp+
  from ok(2) audit_head_commits [OF demo_mac_ok ok rows] show ?thesis by (rule conjI)
qed

text \<open>Redaction: the stored details of an event hold only keys allowlisted for its action, and, unless
  the caller nests a list directly in a list, no key from the sensitive set carries anything but the
  mask at any depth.\<close>

lemma details_redacted:
  assumes "apply_allowlist action (Some fs) = Some b" and "flat_fields fs"
  shows "\<not> exposed (JObj b)
    \<and> (\<exists>allowed. map_of AUDIT_ALLOWLIST action = Some allowed \<and> set (map fst b) \<subseteq> set allowed)"
proof -
  obtain allowed where al: "map_of AUDIT_ALLOWLIST action = Some allowed"
    and b: "b = sanitize (filter (\<lambda>(k, v). k \<in> set allowed) fs)"
    using assms(1) by (auto simp: apply_allowlist_def Let_def split: option.splits if_splits)
  have "\<not> exposed_fields b"
    unfolding b by (intro sanitize_hides flat_filter assms(2))
  moreover have "set (map fst b) \<subseteq> set allowed"
    unfolding b sanitize_keys by auto
  ultimately show ?thesis using al by simp
qed

lemma details_redacted_witness:
  "\<not> exposed (JObj [(''new'', JObj [(''Webhook_Secret'', JStr ''***''), (''url'', JStr ''u'')])])"
proof -
  have "apply_allowlist ''agent.settings_updated''
      (Some [(''by'', JStr ''me''), (''new'', JObj [(''Webhook_Secret'', JStr ''s1''), (''url'', JStr ''u'')])])
      = Some [(''new'', JObj [(''Webhook_Secret'', JStr ''***''), (''url'', JStr ''u'')])]"
    by code_simp
  from details_redacted [OF this] show ?thesis by simp
qed

end
