(* ===== verification/Proof_Of_Work.thy ===== *)
theory Proof_Of_Work
  imports Text_Encoding
begin

text \<open>
  The registration puzzle of \<open>sthrip/services/pow_service.py\<close> and its check by the registration
  endpoint (\<open>api/routers/agents.py\<close>). SHA-256 is the parameter \<open>sha\<close>, from the hashed text to the
  digest as a number. \<open>solve\<close> searches without a bound, so it is a partial function: not returning is
  the value \<open>None\<close>.

  An expiry that does not parse as a date makes \<open>verify\<close> return false, and so does a missing one;
  both are \<open>None\<close> in the record. Solutions are texts, read by Python's \<open>int\<close>.
\<close>

record pow_challenge =
  pc_nonce :: string
  pc_difficulty_bits :: "int option"
  pc_expires_at :: "moment option"

section \<open>The hash check\<close>

fun binary_text :: "nat \<Rightarrow> string" where
  "binary_text n = (if n < 2 then [digit (int n)] else binary_text (n div 2) @ [digit (int (n mod 2))])"

declare binary_text.simps [simp del]

definition zfill :: "nat \<Rightarrow> string \<Rightarrow> string" where
  "zfill w s = replicate (w - length s) CHR ''0'' @ s"

text \<open>\<open>s[:d]\<close> with a negative \<open>d\<close> drops from the end, and \<open>"0" * d\<close> is then empty.\<close>

definition py_prefix :: "int \<Rightarrow> string \<Rightarrow> string" where
  "py_prefix d s = (if 0 \<le> d then take (nat d) s else take (nat (int (length s) + d)) s)"

definition candidate :: "string \<Rightarrow> int \<Rightarrow> string" where
  "candidate nonce counter = nonce @ '':'' @ int_text counter"

definition check_hash :: "(string \<Rightarrow> nat) \<Rightarrow> string \<Rightarrow> int \<Rightarrow> int \<Rightarrow> bool" where
  "check_hash sha nonce counter difficulty_bits \<longleftrightarrow>
     py_prefix difficulty_bits (zfill 256 (binary_text (sha (candidate nonce counter))))
       = replicate (nat difficulty_bits) CHR ''0''"

section \<open>Solving\<close>

partial_function (option) solve_from :: "(string \<Rightarrow> nat) \<Rightarrow> string \<Rightarrow> int \<Rightarrow> int \<Rightarrow> int option" where
  "solve_from sha nonce target_bits counter =
     (if check_hash sha nonce counter target_bits then Some counter
      else solve_from sha nonce target_bits (counter + 1))"

definition solve :: "(string \<Rightarrow> nat) \<Rightarrow> string \<Rightarrow> int \<Rightarrow> string option" where
  "solve sha nonce target_bits = map_option int_text (solve_from sha nonce target_bits 0)"

section \<open>Verification\<close>

text \<open>
  \<open>int(s)\<close> on ASCII text: surrounding whitespace, one sign, decimal digits with single underscores
  between them.
\<close>

definition is_space :: "char \<Rightarrow> bool" where
  "is_space c \<longleftrightarrow> (let n = (of_char c :: int) in n = 32 \<or> (9 \<le> n \<and> n \<le> 13) \<or> (28 \<le> n \<and> n \<le> 31))"

definition strip :: "string \<Rightarrow> string" where
  "strip s = rev (dropWhile is_space (rev (dropWhile is_space s)))"

definition digit_value :: "char \<Rightarrow> int option" where
  "digit_value c = (let n = (of_char c :: int) in if 48 \<le> n \<and> n \<le> 57 then Some (n - 48) else None)"

fun digits_value :: "int \<Rightarrow> string \<Rightarrow> int option" where
  "digits_value acc [] = None"
| "digits_value acc [c] = map_option (\<lambda>d. 10 * acc + d) (digit_value c)"
| "digits_value acc (c # c' # s) =
     (case digit_value c of
        None \<Rightarrow> None
      | Some d \<Rightarrow> if c' = CHR ''_'' then digits_value (10 * acc + d) s
                  else digits_value (10 * acc + d) (c' # s))"

definition py_int :: "string \<Rightarrow> int option" where
  "py_int s =
     (case strip s of
        [] \<Rightarrow> None
      | c # q \<Rightarrow> if c = CHR ''-'' then map_option uminus (digits_value 0 q)
                  else if c = CHR ''+'' then digits_value 0 q
                  else digits_value 0 (c # q))"

definition verify :: "(string \<Rightarrow> nat) \<Rightarrow> moment \<Rightarrow> pow_challenge \<Rightarrow> string \<Rightarrow> bool" where
  "verify sha now challenge solution =
     (case pc_expires_at challenge of
        None \<Rightarrow> False
      | Some expires_at \<Rightarrow>
          if expires_at < now then False
          else (case pc_difficulty_bits challenge of
              None \<Rightarrow> False
            | Some difficulty_bits \<Rightarrow>
                (case py_int solution of
                   None \<Rightarrow> False
                 | Some counter \<Rightarrow> check_hash sha (pc_nonce challenge) counter difficulty_bits)))"

definition create_challenge :: "moment \<Rightarrow> string \<Rightarrow> int \<Rightarrow> int \<Rightarrow> pow_challenge outcome" where
  "create_challenge now nonce difficulty_bits ttl_minutes =
     (if ttl_minutes < 1 then Inl (ValueError ''ttl_minutes must be >= 1'')
      else Inr \<lparr>pc_nonce = nonce, pc_difficulty_bits = Some difficulty_bits,
                pc_expires_at = Some (now + seconds (60 * ttl_minutes))\<rparr>)"

text \<open>The puzzle as the endpoint applies it: only when the request carries one.\<close>

definition registration_admits :: "(string \<Rightarrow> nat) \<Rightarrow> moment \<Rightarrow> (pow_challenge \<times> string) option \<Rightarrow> bool" where
  "registration_admits sha now submitted =
     (case submitted of None \<Rightarrow> True | Some (challenge, solution) \<Rightarrow> verify sha now challenge solution)"

section \<open>What the check means\<close>

lemma binary_text_length: "length (binary_text n) \<le> w \<longleftrightarrow> n < 2 ^ w" if "0 < w"
  using that
proof (induction n arbitrary: w rule: binary_text.induct)
  case (1 n)
  show ?case
  proof (cases "n < 2")
    case True
    have "(2::nat) ^ 1 \<le> 2 ^ w" using "1.prems" by (intro power_increasing) auto
    then show ?thesis using True "1.prems" by (simp add: binary_text.simps [of n])
  next
    case False
    have len: "length (binary_text n) = Suc (length (binary_text (n div 2)))"
      using False by (simp add: binary_text.simps [of n])
    show ?thesis
    proof (cases "w = 1")
      case True
      have "binary_text (n div 2) \<noteq> []" by (subst binary_text.simps) auto
      then show ?thesis using False True by (auto simp: len Suc_le_eq)
    next
      case w: False
      then obtain v where v: "w = Suc v" "0 < v" using "1.prems" by (cases w) auto
      have "length (binary_text (n div 2)) \<le> v \<longleftrightarrow> n div 2 < 2 ^ v"
        using "1.IH" [OF False v(2)] .
      then show ?thesis by (simp add: len v(1)) linarith
    qed
  qed
qed

lemma digit_zero_one: "digit 0 = CHR ''0''" "digit 1 \<noteq> CHR ''0''"
  by code_simp+

lemma binary_text_leading: "binary_text n = CHR ''0'' # s \<Longrightarrow> n = 0 \<and> s = []"
proof (induction n arbitrary: s rule: binary_text.induct)
  case (1 n)
  show ?case
  proof (cases "n < 2")
    case True
    then have "n = 0 \<or> n = 1" by auto
    with 1(2) digit_zero_one show ?thesis by (auto simp: binary_text.simps [of n])
  next
    case False
    then have split: "binary_text n = binary_text (n div 2) @ [digit (int (n mod 2))]"
      by (simp add: binary_text.simps [of n])
    have "binary_text (n div 2) \<noteq> []" by (subst binary_text.simps) auto
    then obtain t where "binary_text (n div 2) = CHR ''0'' # t"
      using 1(2) split by (cases "binary_text (n div 2)") auto
    from 1(1) [OF False this] False show ?thesis by auto
  qed
qed

lemma binary_text_zero: "binary_text 0 = [CHR ''0'']"
  using digit_zero_one by (simp add: binary_text.simps)

lemma zero_prefix:
  assumes "n < 2 ^ 256" and "d \<le> 256"
  shows "take d (zfill 256 (binary_text n)) = replicate d CHR ''0'' \<longleftrightarrow> n < 2 ^ (256 - d)"
proof -
  let ?b = "binary_text n"
  have ne: "?b \<noteq> []" by (subst binary_text.simps) auto
  have len: "length ?b \<le> 256" using binary_text_length [of 256 n] assms(1) by simp
  show ?thesis
  proof (cases "d \<le> 256 - length ?b")
    case True
    then have "0 < 256 - d" and "length ?b \<le> 256 - d" using ne len by (cases ?b, auto)+
    then have "n < 2 ^ (256 - d)" using binary_text_length [of "256 - d" n] by simp
    moreover have "take d (zfill 256 ?b) = replicate d CHR ''0''"
      using True by (simp add: zfill_def min_def)
    ultimately show ?thesis by simp
  next
    case False
    then obtain k where k: "d = (256 - length ?b) + Suc k"
      by (metis add_Suc_right less_natE not_le)
    obtain c s where b: "?b = c # s" using ne by (cases ?b) auto
    have tk: "take d (zfill 256 ?b) = replicate (256 - length ?b) CHR ''0'' @ c # take k s"
      by (simp add: zfill_def k b)
    have rep: "replicate d CHR ''0'' = replicate (256 - length ?b) CHR ''0'' @ CHR ''0'' # replicate k CHR ''0''"
      by (simp only: k replicate_add replicate_Suc)
    show ?thesis
    proof
      assume "take d (zfill 256 ?b) = replicate d CHR ''0''"
      then have "c = CHR ''0''" unfolding tk rep by simp
      then have "n = 0" using binary_text_leading [of n s] b by simp
      then show "n < 2 ^ (256 - d)" by simp
    next
      assume small: "n < 2 ^ (256 - d)"
      show "take d (zfill 256 ?b) = replicate d CHR ''0''"
      proof (cases "d = 256")
        case True
        with small have "n = 0" by simp
        then show ?thesis
          using replicate_Suc [of 255 "CHR ''0''"]
          by (simp add: binary_text_zero zfill_def True replicate_append_same)
      next
        case False
        then have "length ?b \<le> 256 - d" using binary_text_length [of "256 - d" n] small assms(2) by simp
        with k assms(2) show ?thesis by linarith
      qed
    qed
  qed
qed

lemma check_hash_meaning:
  assumes "sha (candidate nonce counter) < 2 ^ 256" and "0 \<le> d" and "d \<le> 256"
  shows "check_hash sha nonce counter d \<longleftrightarrow> sha (candidate nonce counter) < 2 ^ (256 - nat d)"
  using zero_prefix [OF assms(1), of "nat d"] assms(2,3)
  by (simp add: check_hash_def py_prefix_def)

section \<open>Reading back a solution\<close>

lemma digit_value_digit: "0 \<le> d \<Longrightarrow> d < 10 \<Longrightarrow> digit_value (digit d) = Some d"
  by (simp add: digit_value_def digit_def Let_def)

lemma digit_not_mark:
  assumes "0 \<le> d" and "d < 10"
  shows "digit d \<noteq> CHR ''_''" "digit d \<noteq> CHR ''-''" "digit d \<noteq> CHR ''+''" "\<not> is_space (digit d)"
proof -
  have n: "(of_char (digit d) :: int) = 48 + d" using assms by (simp add: digit_def)
  have "(of_char CHR ''_'' :: int) = 95" "(of_char CHR ''-'' :: int) = 45" "(of_char CHR ''+'' :: int) = 43"
    by simp_all
  then show "digit d \<noteq> CHR ''_''" "digit d \<noteq> CHR ''-''" "digit d \<noteq> CHR ''+''"
    using n assms by auto
  show "\<not> is_space (digit d)" using n assms by (simp add: is_space_def Let_def)
qed

fun from_digits :: "int \<Rightarrow> int list \<Rightarrow> int" where
  "from_digits acc [] = acc"
| "from_digits acc (d # ds) = from_digits (10 * acc + d) ds"

lemma digits_value_digits:
  "ds \<noteq> [] \<Longrightarrow> \<forall>d \<in> set ds. 0 \<le> d \<and> d < 10 \<Longrightarrow> digits_value acc (map digit ds) = Some (from_digits acc ds)"
proof (induction ds arbitrary: acc)
  case (Cons d ds)
  then show ?case
    by (cases ds) (simp_all add: digit_value_digit digit_not_mark)
qed simp

lemma from_digits_append: "from_digits acc (ds @ [d]) = 10 * from_digits acc ds + d"
  by (induction ds arbitrary: acc) auto

lemma nat_text_digits:
  "0 \<le> n \<Longrightarrow> \<exists>ds. nat_text n = map digit ds \<and> ds \<noteq> [] \<and> (\<forall>d \<in> set ds. 0 \<le> d \<and> d < 10) \<and> from_digits 0 ds = n"
proof (induction n rule: nat_text.induct)
  case (1 n)
  show ?case
  proof (cases "n < 10")
    case True
    with 1(2) show ?thesis by (intro exI [of _ "[n]"]) (simp add: nat_text.simps [of n])
  next
    case False
    then have "0 \<le> n div 10" by simp
    from 1(1) [OF False this] obtain ds where ds: "nat_text (n div 10) = map digit ds" "ds \<noteq> []"
      "\<forall>d \<in> set ds. 0 \<le> d \<and> d < 10" "from_digits 0 ds = n div 10" by blast
    have "nat_text n = map digit (ds @ [n mod 10])" using False ds(1) by (simp add: nat_text.simps [of n])
    moreover have "from_digits 0 (ds @ [n mod 10]) = n" by (simp add: from_digits_append ds(4))
    ultimately show ?thesis using ds(3) by (intro exI [of _ "ds @ [n mod 10]"]) auto
  qed
qed

lemma strip_no_space: "s \<noteq> [] \<Longrightarrow> \<not> is_space (hd s) \<Longrightarrow> \<not> is_space (last s) \<Longrightarrow> strip s = s"
  by (simp add: strip_def dropWhile_eq_self_iff [THEN iffD2] hd_rev)

lemma py_int_text:
  assumes "0 \<le> n"
  shows "py_int (int_text n) = Some n"
proof -
  obtain ds where ds: "nat_text n = map digit ds" "ds \<noteq> []" "\<forall>d \<in> set ds. 0 \<le> d \<and> d < 10" "from_digits 0 ds = n"
    using nat_text_digits [OF assms] by blast
  have ends: "0 \<le> hd ds \<and> hd ds < 10" "0 \<le> last ds \<and> last ds < 10" using ds(2,3) by auto
  have "strip (map digit ds) = map digit ds"
    using ds(2) ends digit_not_mark(4) by (intro strip_no_space) (auto simp: hd_map last_map)
  moreover obtain e es where "ds = e # es" using ds(2) by (cases ds) auto
  ultimately show ?thesis
    using digits_value_digits [OF ds(2,3), of 0] ds digit_not_mark [of e] ends assms
    by (simp add: py_int_def int_text_def)
qed

section \<open>The search\<close>

lemma solve_from_hit:
  assumes "check_hash sha nonce (start + int k) bits" and "\<forall>j < k. \<not> check_hash sha nonce (start + int j) bits"
  shows "solve_from sha nonce bits start = Some (start + int k)"
  using assms
proof (induction k arbitrary: start)
  case 0
  then show ?case by (simp add: solve_from.simps)
next
  case (Suc k)
  have "\<not> check_hash sha nonce start bits" using Suc.prems(2) by (auto dest: spec [of _ 0])
  moreover have "solve_from sha nonce bits (start + 1) = Some (start + 1 + int k)"
  proof (rule Suc.IH)
    show "check_hash sha nonce (start + 1 + int k) bits" using Suc.prems(1) by (simp add: algebra_simps)
    show "\<forall>j < k. \<not> check_hash sha nonce (start + 1 + int j) bits"
    proof (intro allI impI)
      fix j
      assume "j < k"
      with Suc.prems(2) have "\<not> check_hash sha nonce (start + int (Suc j)) bits" by blast
      then show "\<not> check_hash sha nonce (start + 1 + int j) bits" by (simp add: algebra_simps)
    qed
  qed
  ultimately show ?case by (simp add: solve_from.simps [of sha nonce bits start] algebra_simps)
qed

lemma solve_from_sound:
  "solve_from sha nonce bits start = Some c \<Longrightarrow> start \<le> c \<and> check_hash sha nonce c bits"
proof (rule solve_from.raw_induct [where P = "\<lambda>sha nonce bits start c. start \<le> c \<and> check_hash sha nonce c bits"])
  fix f :: "(string \<Rightarrow> nat) \<Rightarrow> string \<Rightarrow> int \<Rightarrow> int \<Rightarrow> int option" and sha nonce bits start c
  assume "\<And>sha nonce bits start c. f sha nonce bits start = Some c \<Longrightarrow> start \<le> c \<and> check_hash sha nonce c bits"
    and "(if check_hash sha nonce start bits then Some start else f sha nonce bits (start + 1)) = Some c"
  then show "start \<le> c \<and> check_hash sha nonce c bits" by (force split: if_splits)
qed

section \<open>Properties\<close>

text \<open>C9. Solving terminates exactly when a solution exists: if any counter passes the check, \<open>solve\<close>
  returns the least one, as a text that \<open>verify\<close> accepts until the challenge expires; and whatever
  \<open>solve\<close> returns passes the check.\<close>

theorem solve_terminates:
  assumes "0 \<le> k" and "check_hash sha nonce k bits"
  shows "\<exists>c. solve sha nonce bits = Some (int_text c) \<and> 0 \<le> c \<and> c \<le> k
    \<and> check_hash sha nonce c bits \<and> (\<forall>j. 0 \<le> j \<and> j < c \<longrightarrow> \<not> check_hash sha nonce j bits)
    \<and> (\<forall>now e. verify sha now \<lparr>pc_nonce = nonce, pc_difficulty_bits = Some bits, pc_expires_at = Some e\<rparr>
         (int_text c) = (now \<le> e))"
proof -
  define P where "P j = check_hash sha nonce (int j) bits" for j
  have "P (nat k)" using assms by (simp add: P_def)
  then obtain m where hit: "P m" and least: "m \<le> nat k" and below: "\<forall>j < m. \<not> P j"
    by (metis LeastI Least_le not_less_Least)
  have "solve sha nonce bits = Some (int_text (int m))"
    using solve_from_hit [of sha nonce 0 m bits] hit below by (simp add: solve_def P_def)
  moreover have "\<forall>j. 0 \<le> j \<and> j < int m \<longrightarrow> \<not> check_hash sha nonce j bits"
    using below by (metis P_def nat_less_iff int_nat_eq)
  moreover have "\<forall>now e. verify sha now
      \<lparr>pc_nonce = nonce, pc_difficulty_bits = Some bits, pc_expires_at = Some e\<rparr> (int_text (int m)) = (now \<le> e)"
    using hit by (auto simp: verify_def py_int_text P_def)
  moreover have "int m \<le> k" and "check_hash sha nonce (int m) bits" and "0 \<le> int m"
    using least assms(1) hit by (auto simp: P_def)
  ultimately show ?thesis by blast
qed

theorem solve_terminates_witness:
  "\<exists>c. solve (\<lambda>s. if s = ''n:3'' then 5 else 2 ^ 255) ''n'' 8 = Some (int_text c) \<and> c \<le> 3"
proof -
  have "candidate ''n'' 3 = ''n:3''" by code_simp
  then have "check_hash (\<lambda>s. if s = ''n:3'' then 5 else 2 ^ 255) ''n'' 3 8"
    by (subst check_hash_meaning) simp_all
  from solve_terminates [OF _ this] show ?thesis by auto
qed

text \<open>What registration checks: a submitted puzzle passes exactly when it has not expired, the
  solution reads as an integer and the digest has the leading zero bits the submission itself asks
  for. The difficulty is the client's: a submission of difficulty zero passes with every integer, and
  a request without a puzzle is admitted.\<close>

lemma pow_admission:
  assumes "\<forall>m. sha m < 2 ^ 256" and "0 \<le> d" and "d \<le> 256"
  shows "registration_admits sha now
        (Some (\<lparr>pc_nonce = nonce, pc_difficulty_bits = Some d, pc_expires_at = Some e\<rparr>, solution))
      = (now \<le> e \<and> (\<exists>counter. py_int solution = Some counter
           \<and> sha (candidate nonce counter) < 2 ^ (256 - nat d)))
    \<and> registration_admits sha now
        (Some (\<lparr>pc_nonce = nonce, pc_difficulty_bits = Some 0, pc_expires_at = Some now\<rparr>, ''0''))
    \<and> registration_admits sha now None"
proof -
  have "check_hash sha nonce counter d = (sha (candidate nonce counter) < 2 ^ (256 - nat d))" for counter
    using assms by (intro check_hash_meaning) auto
  moreover have "py_int ''0'' = Some 0" by code_simp
  ultimately show ?thesis
    by (auto simp: registration_admits_def verify_def check_hash_def py_prefix_def split: option.splits)
qed

lemma pow_admission_witness:
  "registration_admits (\<lambda>m. 2 ^ 256 - 1) 10
     (Some (\<lparr>pc_nonce = ''n'', pc_difficulty_bits = Some 0, pc_expires_at = Some 10\<rparr>, ''0''))
   \<and> \<not> registration_admits (\<lambda>m. 2 ^ 256 - 1) 10
     (Some (\<lparr>pc_nonce = ''n'', pc_difficulty_bits = Some 20, pc_expires_at = Some 10\<rparr>, ''0''))"
  using pow_admission [of "\<lambda>m. 2 ^ 256 - 1" 20 10 "''n''" 10 "''0''"] by simp

end
