(* ===== verification/Idempotency.thy ===== *)
theory Idempotency
  imports Text_Encoding
begin

text \<open>
  Idempotency keys: \<open>sthrip/db/idempotency_repo.py\<close> (the authoritative rows) and
  \<open>sthrip/services/idempotency.py\<close> with its in-process cache, the store used when no Redis is
  configured. The cache belongs to the process: it is not rolled back when a request raises, so
  every operation returns it next to its outcome. SHA-256 of the client's key is the parameter
  \<open>sha\<close>. The Redis path talks to a server that is not part of the repository and is not modelled.
\<close>

section \<open>The repository\<close>

record idem_row =
  ik_request_hash :: string
  ik_response_status :: int
  ik_response_body :: json

type_synonym idem_key = "string \<times> string \<times> string"
type_synonym idem_table = "(idem_key, idem_row) table"

definition idem_get :: "string \<Rightarrow> string \<Rightarrow> string \<Rightarrow> idem_table \<Rightarrow> idem_row option" where
  "idem_get agent_id endpoint key t = row_of t (agent_id, endpoint, key)"

text \<open>A violated unique constraint gives back the row that is there.\<close>

definition idem_create ::
  "string \<Rightarrow> string \<Rightarrow> string \<Rightarrow> string \<Rightarrow> int \<Rightarrow> json \<Rightarrow> idem_table \<Rightarrow> idem_table"
where
  "idem_create agent_id endpoint key request_hash status body t =
     (case row_of t (agent_id, endpoint, key) of
        Some r \<Rightarrow> t
      | None \<Rightarrow> insert_row (agent_id, endpoint, key)
          \<lparr>ik_request_hash = request_hash, ik_response_status = status, ik_response_body = body\<rparr> t)"

definition idem_upsert ::
  "string \<Rightarrow> string \<Rightarrow> string \<Rightarrow> string \<Rightarrow> int \<Rightarrow> json \<Rightarrow> idem_table \<Rightarrow> idem_table"
where
  "idem_upsert agent_id endpoint key request_hash status body t =
     (case idem_get agent_id endpoint key t of
        Some r \<Rightarrow> modify_row (agent_id, endpoint, key)
          (\<lambda>r. r\<lparr>ik_request_hash := request_hash, ik_response_status := status, ik_response_body := body\<rparr>) t
      | None \<Rightarrow> idem_create agent_id endpoint key request_hash status body t)"

section \<open>The store\<close>

datatype http_error = HTTPException int string

datatype cache_entry = Processing | Cached json moment

record idem_store =
  is_cache :: "string \<Rightarrow> cache_entry option"
  is_last_eviction :: moment

definition new_store :: idem_store where
  "new_store = \<lparr>is_cache = (\<lambda>k. None), is_last_eviction = 0\<rparr>"

definition REDIS_TTL_SECONDS :: int where
  "REDIS_TTL_SECONDS = 3600"

definition EVICTION_INTERVAL :: int where
  "EVICTION_INTERVAL = 300"

definition full_key :: "(string \<Rightarrow> string) \<Rightarrow> string \<Rightarrow> string \<Rightarrow> string \<Rightarrow> string" where
  "full_key sha agent_id endpoint key =
     ''idempotency:'' @ agent_id @ '':'' @ endpoint @ '':'' @ sha key"

definition evict_expired :: "moment \<Rightarrow> idem_store \<Rightarrow> idem_store" where
  "evict_expired now s = s\<lparr>is_cache := (\<lambda>k. case is_cache s k of
     Some (Cached r e) \<Rightarrow> if e < now then None else Some (Cached r e) | x \<Rightarrow> x)\<rparr>"

definition maybe_evict :: "moment \<Rightarrow> idem_store \<Rightarrow> idem_store" where
  "maybe_evict now s =
     (if seconds EVICTION_INTERVAL < now - is_last_eviction s
      then (evict_expired now s)\<lparr>is_last_eviction := now\<rparr> else s)"

definition put_entry :: "string \<Rightarrow> cache_entry \<Rightarrow> idem_store \<Rightarrow> idem_store" where
  "put_entry fk c s = s\<lparr>is_cache := (is_cache s)(fk := Some c)\<rparr>"

text \<open>Two hashes differ when both are given and non-empty and are not the same text.\<close>

definition hash_mismatch :: "string option \<Rightarrow> idem_row \<Rightarrow> bool" where
  "hash_mismatch request_hash r \<longleftrightarrow>
     (case request_hash of None \<Rightarrow> False
      | Some h \<Rightarrow> h \<noteq> '''' \<and> ik_request_hash r \<noteq> '''' \<and> ik_request_hash r \<noteq> h)"

text \<open>After the sentinel is set, the rows are consulted when the caller has a session.\<close>

definition check_db ::
  "moment \<Rightarrow> string \<Rightarrow> idem_table option \<Rightarrow> string \<Rightarrow> string \<Rightarrow> string \<Rightarrow> string option
    \<Rightarrow> idem_store \<Rightarrow> (http_error + json option) \<times> idem_store"
where
  "check_db now fk db agent_id endpoint key request_hash s =
     (case db of
        None \<Rightarrow> (Inr None, s)
      | Some t \<Rightarrow>
          (case idem_get agent_id endpoint key t of
             None \<Rightarrow> (Inr None, s)
           | Some r \<Rightarrow>
               if hash_mismatch request_hash r
               then (Inl (HTTPException 422 ''Idempotency key reused with a different request body''), s)
               else (Inr (Some (ik_response_body r)),
                     put_entry fk (Cached (ik_response_body r) (now + seconds REDIS_TTL_SECONDS)) s)))"

definition try_reserve_local ::
  "moment \<Rightarrow> string \<Rightarrow> idem_table option \<Rightarrow> string \<Rightarrow> string \<Rightarrow> string \<Rightarrow> string option
    \<Rightarrow> idem_store \<Rightarrow> (http_error + json option) \<times> idem_store"
where
  "try_reserve_local now fk db agent_id endpoint key request_hash s0 =
     (let s = maybe_evict now s0
      in case is_cache s fk of
           Some Processing \<Rightarrow> (Inl (HTTPException 409 ''Request is being processed''), s)
         | Some (Cached r e) \<Rightarrow>
             if now < e then (Inr (Some r), s)
             else check_db now fk db agent_id endpoint key request_hash (put_entry fk Processing s)
         | None \<Rightarrow> check_db now fk db agent_id endpoint key request_hash (put_entry fk Processing s))"

definition try_reserve ::
  "(string \<Rightarrow> string) \<Rightarrow> moment \<Rightarrow> string \<Rightarrow> string \<Rightarrow> string \<Rightarrow> idem_table option \<Rightarrow> string option
    \<Rightarrow> idem_store \<Rightarrow> (http_error + json option) \<times> idem_store"
where
  "try_reserve sha now agent_id endpoint key db request_hash s =
     try_reserve_local now (full_key sha agent_id endpoint key) db agent_id endpoint key request_hash s"

definition store_response ::
  "(string \<Rightarrow> string) \<Rightarrow> moment \<Rightarrow> string \<Rightarrow> string \<Rightarrow> string \<Rightarrow> json \<Rightarrow> idem_table option \<Rightarrow> string option
    \<Rightarrow> int \<Rightarrow> idem_store \<Rightarrow> idem_table option \<times> idem_store"
where
  "store_response sha now agent_id endpoint key response db request_hash status s =
     (map_option (idem_upsert agent_id endpoint key
        (case request_hash of None \<Rightarrow> '''' | Some h \<Rightarrow> h) status response) db,
      put_entry (full_key sha agent_id endpoint key)
        (Cached response (now + seconds REDIS_TTL_SECONDS)) s)"

definition release :: "(string \<Rightarrow> string) \<Rightarrow> string \<Rightarrow> string \<Rightarrow> string \<Rightarrow> idem_store \<Rightarrow> idem_store" where
  "release sha agent_id endpoint key s =
     (let fk = full_key sha agent_id endpoint key
      in if is_cache s fk = Some Processing then s\<lparr>is_cache := (is_cache s)(fk := None)\<rparr> else s)"

definition get_cached_response ::
  "(string \<Rightarrow> string) \<Rightarrow> moment \<Rightarrow> string \<Rightarrow> string \<Rightarrow> string \<Rightarrow> idem_table option \<Rightarrow> idem_store \<Rightarrow> json option"
where
  "get_cached_response sha now key endpoint agent_id db s =
     (let from_db = (case db of None \<Rightarrow> None
            | Some t \<Rightarrow> map_option ik_response_body (idem_get agent_id endpoint key t))
      in case is_cache s (full_key sha agent_id endpoint key) of
           Some (Cached r e) \<Rightarrow> if now < e then Some r else from_db
         | x \<Rightarrow> from_db)"

section \<open>Lemmas\<close>

lemma idem_upsert_row:
  "row_of (idem_upsert a e k h st b t) (a, e, k) =
     Some \<lparr>ik_request_hash = h, ik_response_status = st, ik_response_body = b\<rparr>"
  by (auto simp: idem_upsert_def idem_get_def idem_create_def row_of_modify_row row_of_insert
      split: option.split)

lemma idem_upsert_other:
  "q \<noteq> (a, e, k) \<Longrightarrow> row_of (idem_upsert a e k h st b t) q = row_of t q"
  by (cases "row_of t q")
    (auto simp: idem_upsert_def idem_get_def idem_create_def row_of_modify_row row_of_insert
      split: option.split)

lemma evict_cases:
  "is_cache (maybe_evict now s) fk = is_cache s fk
   \<or> (\<exists>r e. is_cache s fk = Some (Cached r e) \<and> e < now \<and> is_cache (maybe_evict now s) fk = None)"
  by (auto simp: maybe_evict_def evict_expired_def split: option.split cache_entry.split)

lemma maybe_evict_keeps_sentinel:
  "is_cache (maybe_evict now s) fk = Some Processing \<longleftrightarrow> is_cache s fk = Some Processing"
  using evict_cases [of now s fk] by auto

lemma put_entry_at [simp]: "is_cache (put_entry fk c s) fk = Some c"
  by (simp add: put_entry_def)

text \<open>What a key answers once its row is written and no request holds its sentinel.\<close>

definition answered :: "string \<Rightarrow> idem_key \<Rightarrow> json \<Rightarrow> string \<Rightarrow> idem_table \<Rightarrow> idem_store \<Rightarrow> bool" where
  "answered fk q body h t s \<longleftrightarrow>
     (\<exists>st. row_of t q = Some \<lparr>ik_request_hash = h, ik_response_status = st, ik_response_body = body\<rparr>)
     \<and> (is_cache s fk = None \<or> (\<exists>e. is_cache s fk = Some (Cached body e)))"

definition cache_live :: "moment \<Rightarrow> string \<Rightarrow> idem_store \<Rightarrow> bool" where
  "cache_live now fk s \<longleftrightarrow> (case is_cache s fk of Some (Cached r e) \<Rightarrow> now < e | x \<Rightarrow> False)"

lemma store_then_answered:
  "store_response sha now a e k body (Some t) (Some h) st s = (Some t', s') \<Longrightarrow>
     answered (full_key sha a e k) (a, e, k) body h t' s' \<and> cache_live now (full_key sha a e k) s'"
  by (auto simp: store_response_def answered_def idem_upsert_row cache_live_def seconds_def
      microsecond_per_second_def REDIS_TTL_SECONDS_def)

lemma answered_reserve:
  assumes "answered (full_key sha a e k) (a, e, k) body h t s" and "h \<noteq> ''''" and "h' \<noteq> ''''"
    and "try_reserve sha now a e k (Some t) (Some h') s = (res, s')"
  shows "res = (if cache_live now (full_key sha a e k) s \<or> h' = h then Inr (Some body)
      else Inl (HTTPException 422 ''Idempotency key reused with a different request body''))"
    and "answered (full_key sha a e k) (a, e, k) body h t (release sha a e k s')"
    and "\<exists>x. res = Inr (Some x) \<Longrightarrow> answered (full_key sha a e k) (a, e, k) body h t s'"
proof -
  let ?fk = "full_key sha a e k"
  obtain st where row: "row_of t (a, e, k) = Some \<lparr>ik_request_hash = h, ik_response_status = st, ik_response_body = body\<rparr>"
    using assms(1) by (auto simp: answered_def)
  have miss: "hash_mismatch (Some h') \<lparr>ik_request_hash = h, ik_response_status = st, ik_response_body = body\<rparr> \<longleftrightarrow> h' \<noteq> h"
    using assms(2,3) by (auto simp: hash_mismatch_def)
  have entry: "is_cache (maybe_evict now s) ?fk = None \<and> \<not> cache_live now ?fk s
      \<or> (\<exists>x. is_cache (maybe_evict now s) ?fk = Some (Cached body x) \<and> cache_live now ?fk s = (now < x))"
    using assms(1) evict_cases [of now s ?fk] by (auto simp: answered_def cache_live_def)
  show "res = (if cache_live now ?fk s \<or> h' = h then Inr (Some body)
      else Inl (HTTPException 422 ''Idempotency key reused with a different request body''))"
    using assms(4) entry row miss
    by (auto simp: try_reserve_def try_reserve_local_def Let_def check_db_def idem_get_def split: if_splits)
  show "answered ?fk (a, e, k) body h t (release sha a e k s')"
    using assms(4) entry row miss
    by (auto simp: try_reserve_def try_reserve_local_def Let_def check_db_def idem_get_def answered_def
        release_def put_entry_def split: if_splits)
  show "\<exists>x. res = Inr (Some x) \<Longrightarrow> answered ?fk (a, e, k) body h t s'"
    using assms(4) entry row miss
    by (auto simp: try_reserve_def try_reserve_local_def Let_def check_db_def idem_get_def answered_def
        put_entry_def split: if_splits)
qed

end
