(* ===== verification/Balance_Routes.thy ===== *)
theory Balance_Routes
  imports Transfers Idempotency Events
begin

text \<open>
  Deposits and withdrawals as the endpoints run them (\<open>api/routers/balance.py\<close>): the balance
  repository, the saga journal of withdrawals (\<open>sthrip/db/pending_withdrawal_repo.py\<close>) and the
  idempotency store together. Each \<open>with get_db()\<close> block commits on its own; a request that raises
  keeps the blocks it has committed and releases its key.

  What the environment decides is the record \<open>route_env\<close>: the hub mode, the deployment, the wallet
  (a service behind RPC), SHA-256 and the text of a \<open>Decimal\<close>. The amounts of a request come with the text the client
  sent, which is what its hash is taken of.
\<close>

section \<open>State and environment\<close>

datatype withdrawal_status = WdPending | WdCompleted | WdFailed | WdNeedsReview

record pending_withdrawal =
  pw_agent_id :: ident
  pw_amount :: decimal
  pw_address :: string
  pw_status :: withdrawal_status
  pw_tx_hash :: "string option"
  pw_error :: "string option"
  pw_created_at :: moment
  pw_completed_at :: "moment option"

type_synonym pending_table = "(ident, pending_withdrawal) table"

record route_db =
  rd_db :: db
  rd_pending :: pending_table
  rd_idem :: idem_table

datatype wallet_reply = WalletTimeout | WalletError string | WalletSent string decimal

record route_env =
  env_hub_mode :: string
  env_environment :: string
  env_network :: string
  env_sha :: "string \<Rightarrow> string"
  env_decimal_text :: "decimal \<Rightarrow> string"
  env_wallet :: "string \<Rightarrow> decimal \<Rightarrow> wallet_reply"
  env_deposit_address :: "ident \<Rightarrow> string"
  env_min_confirmations :: int

datatype route_error = Http http_error | Crash py_error

type_synonym 'a route_result = "(route_error + 'a) \<times> route_db \<times> idem_store"

section \<open>The saga journal\<close>

definition pending_create :: "moment \<Rightarrow> ident \<Rightarrow> decimal \<Rightarrow> string \<Rightarrow> pending_withdrawal" where
  "pending_create now a amount address =
     \<lparr>pw_agent_id = a, pw_amount = amount, pw_address = address, pw_status = WdPending,
      pw_tx_hash = None, pw_error = None, pw_created_at = now, pw_completed_at = None\<rparr>"

definition get_stale_pending :: "moment \<Rightarrow> int \<Rightarrow> pending_table \<Rightarrow> (ident \<times> pending_withdrawal) list" where
  "get_stale_pending now max_age_minutes t =
     select_where (\<lambda>p. pw_status p = WdPending \<and> pw_created_at p < now - seconds (60 * max_age_minutes)) t"

definition mark_completed :: "moment \<Rightarrow> ident \<Rightarrow> string \<Rightarrow> pending_table \<Rightarrow> pending_table outcome" where
  "mark_completed now pid hash t =
     (let (rows, t') = update_row (\<lambda>p. True)
            (\<lambda>p. p\<lparr>pw_status := WdCompleted, pw_tx_hash := Some hash, pw_completed_at := Some now\<rparr>) pid t
      in if rows \<noteq> 1 then Inl (RuntimeError ''mark_completed: expected 1 row'') else Inr t')"

definition mark_failed :: "moment \<Rightarrow> ident \<Rightarrow> string \<Rightarrow> pending_table \<Rightarrow> pending_table" where
  "mark_failed now pid err t =
     snd (update_row (\<lambda>p. True)
       (\<lambda>p. p\<lparr>pw_status := WdFailed, pw_error := Some err, pw_completed_at := Some now\<rparr>) pid t)"

definition mark_needs_review :: "ident \<Rightarrow> string \<Rightarrow> pending_table \<Rightarrow> pending_table outcome" where
  "mark_needs_review pid reason t =
     (let (rows, t') = update_row (\<lambda>p. True)
            (\<lambda>p. p\<lparr>pw_status := WdNeedsReview, pw_error := Some reason\<rparr>) pid t
      in if rows \<noteq> 1 then Inl (RuntimeError ''mark_needs_review: expected 1 row'') else Inr t')"

section \<open>Requests\<close>

text \<open>An amount with the text it came as.\<close>

type_synonym amount_arg = "decimal \<times> string"

definition deposit_hash :: "route_env \<Rightarrow> amount_arg option option \<Rightarrow> string" where
  "deposit_hash env req =
     env_sha env (dumps (JObj (case req of None \<Rightarrow> []
       | Some None \<Rightarrow> [(''amount'', JNull)] | Some (Some (x, s)) \<Rightarrow> [(''amount'', JStr s)])))"

definition withdraw_hash :: "route_env \<Rightarrow> amount_arg \<Rightarrow> string \<Rightarrow> string" where
  "withdraw_hash env amount address =
     env_sha env (dumps (JObj [(''amount'', JStr (snd amount)), (''address'', JStr address)]))"

text \<open>The \<open>except\<close> clause of both endpoints.\<close>

definition fail ::
  "route_env \<Rightarrow> ident \<Rightarrow> string \<Rightarrow> string option \<Rightarrow> route_error \<Rightarrow> route_db \<Rightarrow> idem_store \<Rightarrow> 'a route_result"
where
  "fail env a endpoint key e rd st =
     (Inl e, rd, case key of None \<Rightarrow> st | Some k \<Rightarrow> release (env_sha env) (uuid_text a) endpoint k st)"

definition reserve_key ::
  "route_env \<Rightarrow> moment \<Rightarrow> ident \<Rightarrow> string \<Rightarrow> string option \<Rightarrow> string \<Rightarrow> route_db \<Rightarrow> idem_store
    \<Rightarrow> (http_error + json option) \<times> idem_store"
where
  "reserve_key env now a endpoint key req_hash rd st =
     (case key of None \<Rightarrow> (Inr None, st)
      | Some k \<Rightarrow> try_reserve (env_sha env) now (uuid_text a) endpoint k (Some (rd_idem rd)) (Some req_hash) st)"

definition remember ::
  "route_env \<Rightarrow> moment \<Rightarrow> ident \<Rightarrow> string \<Rightarrow> string option \<Rightarrow> string \<Rightarrow> int \<Rightarrow> json \<Rightarrow> route_db \<Rightarrow> idem_store
    \<Rightarrow> route_db \<times> idem_store"
where
  "remember env now a endpoint key req_hash status body rd st =
     (case key of None \<Rightarrow> (rd, st)
      | Some k \<Rightarrow>
          (case store_response (env_sha env) now (uuid_text a) endpoint k body (Some (rd_idem rd))
                  (Some req_hash) status st of
             (None, st') \<Rightarrow> (rd, st')
           | (Some t, st') \<Rightarrow> (rd\<lparr>rd_idem := t\<rparr>, st')))"

definition audit_request :: "string \<Rightarrow> ident \<Rightarrow> db \<Rightarrow> db outcome" where
  "audit_request action a =
     log_event 1 [''agent_id'', ''request_method'', ''request_path'', ''details'']
       \<lparr>au_action = action, au_agent_id = Some a, au_resource_type = None, au_resource_id = None\<rparr>"

section \<open>Deposit\<close>

definition ledger_deposit_body :: "route_env \<Rightarrow> amount_arg \<Rightarrow> decimal \<Rightarrow> json" where
  "ledger_deposit_body env amount balance_after =
     JObj [(''status'', JStr ''deposited''), (''amount'', JStr (snd amount)),
           (''new_balance'', JStr (env_decimal_text env balance_after)), (''token'', JStr ''XMR'')]"

definition onchain_deposit_body :: "route_env \<Rightarrow> ident \<Rightarrow> json" where
  "onchain_deposit_body env a =
     JObj [(''deposit_address'', JStr (env_deposit_address env a)), (''token'', JStr ''XMR''),
           (''network'', JStr (env_network env)), (''min_confirmations'', JInt (env_min_confirmations env)),
           (''message'', JStr ''Send XMR to this address.'')]"

definition deposit_balance ::
  "route_env \<Rightarrow> moment \<Rightarrow> ident \<Rightarrow> amount_arg option option \<Rightarrow> string option \<Rightarrow> route_db \<Rightarrow> idem_store
    \<Rightarrow> json route_result"
where
  "deposit_balance env now a req key rd st =
     (let h = deposit_hash env req;
          finish = (\<lambda>body rd1 st1.
            case audit_request ''balance.deposit'' a (rd_db rd1) of
              Inl e \<Rightarrow> fail env a ''deposit'' key (Crash e) rd1 st1
            | Inr d \<Rightarrow> (Inr body, rd1\<lparr>rd_db := d\<rparr>, st1))
      in if env_hub_mode env = ''onchain''
         then (case reserve_key env now a ''deposit'' key h rd st of
                 (Inl e, st1) \<Rightarrow> fail env a ''deposit'' key (Http e) rd st1
               | (Inr (Some cached), st1) \<Rightarrow> (Inr cached, rd, st1)
               | (Inr None, st1) \<Rightarrow>
                   let body = onchain_deposit_body env a;
                       (rd2, st2) = remember env now a ''deposit'' key h 200 body rd st1
                   in finish body rd2 st2)
         else if env_environment env \<noteq> ''dev''
         then fail env a ''deposit'' key
                (Http (HTTPException 403 ''Ledger deposit is only available in dev environment'')) rd st
         else case (case req of None \<Rightarrow> None | Some r \<Rightarrow> r) of
           None \<Rightarrow> fail env a ''deposit'' key (Http (HTTPException 422 ''amount is required in ledger mode'')) rd st
         | Some amount \<Rightarrow>
             (case reserve_key env now a ''deposit'' key h rd st of
                (Inl e, st1) \<Rightarrow> fail env a ''deposit'' key (Http e) rd st1
              | (Inr (Some cached), st1) \<Rightarrow> (Inr cached, rd, st1)
              | (Inr None, st1) \<Rightarrow>
                  let t = deposit now a (fst amount) ''XMR'' (balances (rd_db rd));
                      body = ledger_deposit_body env amount (available_of a ''XMR'' t);
                      (rd2, st2) = remember env now a ''deposit'' key h 200 body
                                     (rd\<lparr>rd_db := (rd_db rd)\<lparr>balances := t\<rparr>\<rparr>) st1
                  in finish body rd2 st2))"

section \<open>Withdrawal\<close>

definition short_address :: "string \<Rightarrow> string" where
  "short_address address = take 8 address @ ''...''"

definition in_progress_body :: "ident \<Rightarrow> amount_arg \<Rightarrow> string \<Rightarrow> json" where
  "in_progress_body pid amount address =
     JObj [(''status'', JStr ''in_progress''), (''pending_id'', JStr (uuid_text pid)),
           (''amount'', JStr (snd amount)), (''to_address'', JStr (short_address address))]"

definition self_send :: "ident \<Rightarrow> string \<Rightarrow> balance_table \<Rightarrow> bool" where
  "self_send a address t =
     (case row_of t (a, ''XMR'') of
        None \<Rightarrow> False
      | Some b \<Rightarrow> (case bal_deposit_address b of None \<Rightarrow> False | Some own \<Rightarrow> own \<noteq> '''' \<and> own = address))"

definition deduct_and_create_pending ::
  "route_env \<Rightarrow> moment \<Rightarrow> ident \<Rightarrow> amount_arg \<Rightarrow> string \<Rightarrow> string option \<Rightarrow> string \<Rightarrow> route_db \<Rightarrow> idem_store
    \<Rightarrow> (route_error + ident) \<times> route_db \<times> idem_store"
where
  "deduct_and_create_pending env now a amount address key req_hash rd st =
     (let t0 = get_or_create now a ''XMR'' (balances (rd_db rd))
      in if self_send a address t0
         then (Inl (Http (HTTPException 400 ''Cannot withdraw to your own deposit address'')), rd, st)
         else case withdraw now a (fst amount) ''XMR'' t0 of
           Inl (ValueError m) \<Rightarrow> (Inl (Http (HTTPException 400 ''Insufficient balance for this withdrawal'')), rd, st)
         | Inl e \<Rightarrow> (Inl (Crash e), rd, st)
         | Inr t1 \<Rightarrow>
             let pid = new_id (rd_pending rd);
                 rd1 = rd\<lparr>rd_db := (rd_db rd)\<lparr>balances := t1\<rparr>,
                          rd_pending := add_row (pending_create now a (fst amount) address) (rd_pending rd)\<rparr>;
                 (rd2, st2) = remember env now a ''withdraw'' key req_hash 202
                                (in_progress_body pid amount address) rd1 st
             in (Inr pid, rd2, st2))"

definition process_ledger_withdrawal ::
  "route_env \<Rightarrow> moment \<Rightarrow> ident \<Rightarrow> ident \<Rightarrow> amount_arg \<Rightarrow> string \<Rightarrow> route_db \<Rightarrow> (route_error + json) \<times> route_db"
where
  "process_ledger_withdrawal env now a pid amount address rd =
     (case mark_completed now pid ''ledger-mode'' (rd_pending rd) of
        Inl e \<Rightarrow> (Inl (Crash e), rd)
      | Inr t \<Rightarrow>
          let b = get_or_create now a ''XMR'' (balances (rd_db rd));
              remaining = env_decimal_text env (available_of a ''XMR'' b)
          in (Inr (JObj [(''status'', JStr ''withdrawn''), (''amount'', JStr (snd amount)),
                         (''to_address'', JStr (short_address address)),
                         (''remaining_balance'', JStr remaining), (''token'', JStr ''XMR'')]),
              rd\<lparr>rd_pending := t, rd_db := (rd_db rd)\<lparr>balances := b\<rparr>\<rparr>))"

definition review_withdrawal :: "ident \<Rightarrow> string \<Rightarrow> http_error \<Rightarrow> route_db \<Rightarrow> (route_error + json) \<times> route_db" where
  "review_withdrawal pid reason err rd =
     (case mark_needs_review pid reason (rd_pending rd) of
        Inl e \<Rightarrow> (Inl (Crash e), rd)
      | Inr t \<Rightarrow> (Inl (Http err), rd\<lparr>rd_pending := t\<rparr>))"

definition process_onchain_withdrawal ::
  "route_env \<Rightarrow> moment \<Rightarrow> ident \<Rightarrow> ident \<Rightarrow> amount_arg \<Rightarrow> string \<Rightarrow> route_db \<Rightarrow> (route_error + json) \<times> route_db"
where
  "process_onchain_withdrawal env now a pid amount address rd =
     (case env_wallet env address (fst amount) of
        WalletTimeout \<Rightarrow> review_withdrawal pid ''RPC timeout'' (HTTPException 504 ''Withdrawal timed out'') rd
      | WalletError name \<Rightarrow> review_withdrawal pid name (HTTPException 502 ''Withdrawal processing failed'') rd
      | WalletSent hash fee \<Rightarrow>
          (case and_then (mark_completed now pid hash (rd_pending rd)) (\<lambda>t.
                  and_then (insert_transaction
                      (create_transaction now hash (env_network env) (Some a) None (fst amount) ''XMR''
                         PtWithdrawal TxPending fee 0) (rd_db rd)) (\<lambda>d.
                    let b = get_or_create now a ''XMR'' (balances d);
                        rd1 = rd\<lparr>rd_pending := t, rd_db := d\<lparr>balances := b\<rparr>\<rparr>
                    in and_then (queue_webhook 3 [] a ''payment.withdrawal_sent'' (d\<lparr>balances := b\<rparr>)) (\<lambda>d2.
                      Inr (rd1\<lparr>rd_db := d2\<rparr>, env_decimal_text env (available_of a ''XMR'' b))))) of
             Inl e \<Rightarrow> (Inl (Crash e), rd)
           | Inr (rd1, remaining) \<Rightarrow>
               (Inr (JObj [(''status'', JStr ''sent''), (''tx_hash'', JStr hash), (''amount'', JStr (snd amount)),
                           (''fee'', JStr (env_decimal_text env fee)),
                           (''to_address'', JStr (short_address address)),
                           (''remaining_balance'', JStr remaining), (''token'', JStr ''XMR'')]), rd1)))"

definition withdraw_balance ::
  "route_env \<Rightarrow> moment \<Rightarrow> ident \<Rightarrow> amount_arg \<Rightarrow> string \<Rightarrow> string option \<Rightarrow> route_db \<Rightarrow> idem_store
    \<Rightarrow> json route_result"
where
  "withdraw_balance env now a amount address key rd st =
     (let h = withdraw_hash env amount address
      in case reserve_key env now a ''withdraw'' key h rd st of
           (Inl e, st1) \<Rightarrow> fail env a ''withdraw'' key (Http e) rd st1
         | (Inr (Some cached), st1) \<Rightarrow> (Inr cached, rd, st1)
         | (Inr None, st1) \<Rightarrow>
             (case deduct_and_create_pending env now a amount address key h rd st1 of
                (Inl e, rd1, st2) \<Rightarrow> fail env a ''withdraw'' key e rd1 st2
              | (Inr pid, rd1, st2) \<Rightarrow>
                  (case (if env_hub_mode env = ''onchain''
                         then process_onchain_withdrawal env now a pid amount address rd1
                         else process_ledger_withdrawal env now a pid amount address rd1) of
                     (Inl e, rd2) \<Rightarrow> fail env a ''withdraw'' key e rd2 st2
                   | (Inr body, rd2) \<Rightarrow>
                       (case audit_request ''balance.withdraw'' a (rd_db rd2) of
                          Inl e \<Rightarrow> fail env a ''withdraw'' key (Crash e) rd2 st2
                        | Inr d \<Rightarrow>
                            let (rd3, st3) = remember env now a ''withdraw'' key h 200 body (rd2\<lparr>rd_db := d\<rparr>) st2
                            in (Inr body, rd3, st3)))))"

end
