(* ===== verification/Keys.thy ===== *)
theory Keys
  imports Balance_Routes
begin

text \<open>
  The life of an idempotency key at an endpoint, for the requests that use it: unused until a request
  writes its row, used from then on. An unused key may be held by the sentinel of a request in flight.
\<close>

abbreviation endpoint_key :: "route_env \<Rightarrow> ident \<Rightarrow> string \<Rightarrow> string \<Rightarrow> string" where
  "endpoint_key env a ep k \<equiv> full_key (env_sha env) (uuid_text a) ep k"

definition hashes_text :: "route_env \<Rightarrow> bool" where
  "hashes_text env \<longleftrightarrow> (\<forall>m. env_sha env m \<noteq> '''')"

definition key_unused :: "route_env \<Rightarrow> ident \<Rightarrow> string \<Rightarrow> string \<Rightarrow> route_db \<Rightarrow> idem_store \<Rightarrow> bool" where
  "key_unused env a ep k rd st \<longleftrightarrow>
     row_of (rd_idem rd) (uuid_text a, ep, k) = None \<and> is_cache st (endpoint_key env a ep k) = None"

definition key_used :: "route_env \<Rightarrow> ident \<Rightarrow> string \<Rightarrow> string \<Rightarrow> route_db \<Rightarrow> idem_store \<Rightarrow> bool" where
  "key_used env a ep k rd st \<longleftrightarrow> (\<exists>body h. h \<noteq> ''''
     \<and> answered (endpoint_key env a ep k) (uuid_text a, ep, k) body h (rd_idem rd) st)"

lemma remember_some:
  "remember env now a ep (Some k) h status body rd st =
     (rd\<lparr>rd_idem := idem_upsert (uuid_text a) ep k h status body (rd_idem rd)\<rparr>,
      put_entry (full_key (env_sha env) (uuid_text a) ep k)
        (Cached body (now + seconds REDIS_TTL_SECONDS)) st)"
  by (simp add: remember_def store_response_def)

lemma remember_used:
  "remember env now a ep (Some k) h status body rd st = (rd', st') \<Longrightarrow> h \<noteq> '''' \<Longrightarrow>
     key_used env a ep k rd' st' \<and> rd_db rd' = rd_db rd \<and> rd_pending rd' = rd_pending rd"
  by (auto simp: remember_some key_used_def answered_def idem_upsert_row)

lemma reserve_unused:
  assumes "key_unused env a ep k rd st"
  shows "\<exists>st1. reserve_key env now a ep (Some k) h rd st = (Inr None, st1)
    \<and> is_cache st1 (endpoint_key env a ep k) = Some Processing"
  using assms evict_cases [of now st "endpoint_key env a ep k"]
  by (auto simp: key_unused_def reserve_key_def try_reserve_def try_reserve_local_def Let_def check_db_def
      idem_get_def)

lemma key_used_tables:
  "key_used env a ep k rd st \<Longrightarrow> rd_idem rd' = rd_idem rd \<Longrightarrow> key_used env a ep k rd' st"
  by (simp add: key_used_def)

lemma release_used: "key_used env a ep k rd st \<Longrightarrow> release (env_sha env) (uuid_text a) ep k st = st"
  by (auto simp: key_used_def answered_def release_def Let_def)

lemma fail_unused:
  assumes "row_of (rd_idem rd) (uuid_text a, ep, k) = None" and "is_cache st (endpoint_key env a ep k) = Some Processing"
    and "(res, rd', st') = fail env a ep (Some k) e rd st"
  shows "res = Inl e \<and> rd' = rd \<and> key_unused env a ep k rd' st'"
  using assms by (simp add: fail_def key_unused_def release_def Let_def)

text \<open>A used key answers with its row, or refuses another body; it stays used either way.\<close>

lemma reserve_used:
  assumes "key_used env a ep k rd st" and "h \<noteq> ''''" and "reserve_key env now a ep (Some k) h rd st = (r1, st1)"
  obtains body where "r1 = Inr (Some body)" and "key_used env a ep k rd st1"
    | m where "r1 = Inl (HTTPException 422 m)" and "key_used env a ep k rd (release (env_sha env) (uuid_text a) ep k st1)"
proof -
  obtain body h' where h': "h' \<noteq> ''''"
    and ans: "answered (endpoint_key env a ep k) (uuid_text a, ep, k) body h' (rd_idem rd) st"
    using assms(1) by (auto simp: key_used_def)
  have "try_reserve (env_sha env) now (uuid_text a) ep k (Some (rd_idem rd)) (Some h) st = (r1, st1)"
    using assms(3) by (simp add: reserve_key_def)
  note eff = answered_reserve [OF ans h' assms(2) this]
  show ?thesis
  proof (cases "cache_live now (endpoint_key env a ep k) st \<or> h = h'")
    case True
    then have "r1 = Inr (Some body)" using eff(1) by simp
    moreover from this have "key_used env a ep k rd st1" using eff(3) h' by (auto simp: key_used_def)
    ultimately show ?thesis by (rule that(1))
  next
    case False
    then have "r1 = Inl (HTTPException 422 ''Idempotency key reused with a different request body'')" using eff(1) by simp
    moreover have "key_used env a ep k rd (release (env_sha env) (uuid_text a) ep k st1)"
      using eff(2) h' by (auto simp: key_used_def)
    ultimately show ?thesis by (rule that(2))
  qed
qed

end
