(* ===== verification/Withdraw_Once.thy ===== *)
theory Withdraw_Once
  imports Keys
begin

text \<open>
  What an idempotency key buys a withdrawal: however often and whenever requests with one key come
  in, one after the other, the balance is debited at most once. And what it does not: a request
  refused because another one holds the key frees that key for a third.
\<close>

text \<open>What a request may do to the money: debit one agent by an amount it covers.\<close>

definition debited :: "ident \<Rightarrow> decimal \<Rightarrow> route_db \<Rightarrow> route_db \<Rightarrow> bool" where
  "debited a x rd rd' \<longleftrightarrow>
     (\<forall>b u. available_of b u (balances (rd_db rd')) = available_of b u (balances (rd_db rd))
        - (if b = a \<and> u = ''XMR'' then x else 0))"

lemma debited_zero [simp]: "debited a 0 rd rd"
  by (simp add: debited_def)

lemma debited_same_money:
  "debited a x rd rd1 \<Longrightarrow> (\<And>b u. available_of b u (balances (rd_db rd2)) = available_of b u (balances (rd_db rd1)))
     \<Longrightarrow> debited a x rd rd2"
  by (simp add: debited_def)

section \<open>The parts of a withdrawal\<close>

lemma audit_request_Inr:
  "audit_request action a d = Inr (d\<lparr>audit_log := audit_log d @
     [\<lparr>au_action = action, au_agent_id = Some a, au_resource_type = None, au_resource_id = None\<rparr>]\<rparr>)"
  by (simp add: audit_request_def log_event_def py_bind_def log_event_params_def)

lemma withdraw_money:
  assumes "withdraw now a x tok (get_or_create now a tok t) = Inr t'"
  shows "x \<le> available_of a tok t"
    and "available_of b u t' = available_of b u t - (if b = a \<and> u = tok then x else 0)"
  using withdraw_edit [OF assms] row_edit_available [OF withdraw_edit(2) [OF assms], where d = "- x" and b = b and u = u]
  by (auto simp: ledger_simps)

lemma deduct_part:
  assumes "deduct_and_create_pending env now a amount address (Some k) h rd st = (res, rd1, st2)" and "h \<noteq> ''''"
  shows "(\<exists>e. res = Inl e) \<and> rd1 = rd \<and> st2 = st
    \<or> (\<exists>pid. res = Inr pid) \<and> key_used env a ''withdraw'' k rd1 st2 \<and> debited a (fst amount) rd rd1
      \<and> fst amount \<le> available_of a ''XMR'' (balances (rd_db rd))"
proof -
  let ?t0 = "get_or_create now a ''XMR'' (balances (rd_db rd))"
  show ?thesis
  proof (cases "self_send a address ?t0")
    case True
    then show ?thesis using assms(1) by (auto simp: deduct_and_create_pending_def Let_def)
  next
    case False
    show ?thesis
    proof (cases "withdraw now a (fst amount) ''XMR'' ?t0")
      case (Inl e)
      then have "\<exists>e'. (res, rd1, st2) = (Inl e', rd, st)"
        using False assms(1) by (cases e) (auto simp: deduct_and_create_pending_def Let_def)
      then show ?thesis by auto
    next
      case (Inr t1)
      let ?rd1 = "rd\<lparr>rd_db := (rd_db rd)\<lparr>balances := t1\<rparr>,
          rd_pending := add_row (pending_create now a (fst amount) address) (rd_pending rd)\<rparr>"
      let ?body = "in_progress_body (new_id (rd_pending rd)) amount address"
      obtain rd2 st3 where rem: "remember env now a ''withdraw'' (Some k) h 202 ?body ?rd1 st = (rd2, st3)"
        by fastforce
      have eq: "(res, rd1, st2) = (Inr (new_id (rd_pending rd)), rd2, st3)"
        using assms(1) Inr rem False by (simp add: deduct_and_create_pending_def Let_def)
      have "debited a (fst amount) rd rd2"
        using remember_used [OF rem assms(2)] withdraw_money(2) [OF Inr] by (simp add: debited_def)
      then show ?thesis
        using eq remember_used [OF rem assms(2)] withdraw_money(1) [OF Inr] by simp
    qed
  qed
qed

lemma process_ledger_part:
  assumes "process_ledger_withdrawal env now a pid amount address rd = (res, rd')"
  shows "rd_idem rd' = rd_idem rd"
    and "available_of b u (balances (rd_db rd')) = available_of b u (balances (rd_db rd))"
  using assms by (auto simp: process_ledger_withdrawal_def Let_def available_get_or_create split: sum.splits)

lemma insert_transaction_frame:
  "insert_transaction tx d = Inr d' \<Longrightarrow> balances d' = balances d"
  by (auto simp: insert_transaction_def split: option.splits)

lemma process_onchain_part:
  assumes "process_onchain_withdrawal env now a pid amount address rd = (res, rd')"
  shows "rd_idem rd' = rd_idem rd \<and>
    available_of b u (balances (rd_db rd')) = available_of b u (balances (rd_db rd))"
proof (cases "env_wallet env address (fst amount)")
  case WalletTimeout
  then show ?thesis
    using assms by (auto simp: process_onchain_withdrawal_def review_withdrawal_def split: sum.splits)
next
  case (WalletError e)
  then show ?thesis
    using assms by (auto simp: process_onchain_withdrawal_def review_withdrawal_def split: sum.splits)
next
  case (WalletSent hash fee)
  then show ?thesis
    using assms
    by (auto simp: process_onchain_withdrawal_def Let_def and_then_Inr_iff queue_webhook_binds
        available_get_or_create dest!: insert_transaction_frame split: sum.splits)
qed

section \<open>Whole requests\<close>

lemma withdraw_unused:
  assumes "hashes_text env" and "key_unused env a ''withdraw'' k rd st"
    and "withdraw_balance env now a amount address (Some k) rd st = (res, rd', st')"
  shows "(\<exists>e. res = Inl e) \<and> rd' = rd \<and> key_unused env a ''withdraw'' k rd' st'
    \<or> key_used env a ''withdraw'' k rd' st' \<and> debited a (fst amount) rd rd'
      \<and> fst amount \<le> available_of a ''XMR'' (balances (rd_db rd))"
proof -
  let ?h = "withdraw_hash env amount address"
  have h: "?h \<noteq> ''''" using assms(1) by (simp add: hashes_text_def withdraw_hash_def)
  obtain st1 where res: "reserve_key env now a ''withdraw'' (Some k) ?h rd st = (Inr None, st1)"
    and lock: "is_cache st1 (endpoint_key env a ''withdraw'' k) = Some Processing"
    using reserve_unused [OF assms(2)] by blast
  obtain r1 rd1 st2 where ded: "deduct_and_create_pending env now a amount address (Some k) ?h rd st1 = (r1, rd1, st2)"
    by (metis prod_cases3)
  show ?thesis
  proof (cases r1)
    case (Inl e)
    then have same: "rd1 = rd" "st2 = st1" using deduct_part [OF ded h] by auto
    then have "(res, rd', st') = fail env a ''withdraw'' (Some k) e rd st1"
      using assms(3) by (simp add: withdraw_balance_def Let_def res ded Inl)
    then show ?thesis
      using assms(2) lock by (simp add: fail_def key_unused_def release_def Let_def)
  next
    case (Inr pid)
    have used: "key_used env a ''withdraw'' k rd1 st2" and deb: "debited a (fst amount) rd rd1"
      and enough: "fst amount \<le> available_of a ''XMR'' (balances (rd_db rd))"
      using deduct_part [OF ded h] Inr by auto
    obtain r2 rd2 where proc: "(if env_hub_mode env = ''onchain''
        then process_onchain_withdrawal env now a pid amount address rd1
        else process_ledger_withdrawal env now a pid amount address rd1) = (r2, rd2)" by fastforce
    have idem: "rd_idem rd2 = rd_idem rd1"
      and money: "\<And>b u. available_of b u (balances (rd_db rd2)) = available_of b u (balances (rd_db rd1))"
      using process_onchain_part [of env now a pid amount address rd1 r2 rd2]
        process_ledger_part [of env now a pid amount address rd1 r2 rd2] proc by (auto split: if_splits)
    have used2: "key_used env a ''withdraw'' k rd2 st2" by (rule key_used_tables [OF used idem])
    have deb2: "debited a (fst amount) rd rd2" by (rule debited_same_money [OF deb money])
    show ?thesis
    proof (cases r2)
      case (Inl e)
      have "(res, rd', st') = fail env a ''withdraw'' (Some k) e rd2 st2"
        using assms(3) by (simp add: withdraw_balance_def Let_def res ded Inr proc Inl)
      then show ?thesis using used2 deb2 enough by (simp add: fail_def release_used)
    next
      case body: (Inr body)
      let ?d = "(rd_db rd2)\<lparr>audit_log := audit_log (rd_db rd2) @
        [\<lparr>au_action = ''balance.withdraw'', au_agent_id = Some a, au_resource_type = None, au_resource_id = None\<rparr>]\<rparr>"
      obtain rd3 st3 where rem: "remember env now a ''withdraw'' (Some k) ?h 200 body (rd2\<lparr>rd_db := ?d\<rparr>) st2 = (rd3, st3)"
        by fastforce
      have "(res, rd', st') = (Inr body, rd3, st3)"
        using assms(3) rem by (simp add: withdraw_balance_def Let_def res ded Inr proc body audit_request_Inr)
      moreover have "debited a (fst amount) rd rd3"
        using deb2 remember_used [OF rem h] by (simp add: debited_def)
      ultimately show ?thesis using remember_used [OF rem h] enough by simp
    qed
  qed
qed

lemma withdraw_used:
  assumes "hashes_text env" and "key_used env a ''withdraw'' k rd st"
    and "withdraw_balance env now a amount address (Some k) rd st = (res, rd', st')"
  shows "rd' = rd \<and> key_used env a ''withdraw'' k rd' st'
    \<and> ((\<exists>body. res = Inr body) \<or> (\<exists>m. res = Inl (Http (HTTPException 422 m))))"
proof -
  let ?h = "withdraw_hash env amount address"
  have h: "?h \<noteq> ''''" using assms(1) by (simp add: hashes_text_def withdraw_hash_def)
  obtain r1 st1 where r: "reserve_key env now a ''withdraw'' (Some k) ?h rd st = (r1, st1)" by fastforce
  from assms(2) h r show ?thesis
    by (cases rule: reserve_used)
      (use assms(3) r in \<open>auto simp: withdraw_balance_def fail_def Let_def\<close>)
qed

text \<open>Requests with one key, one after the other.\<close>

fun withdraw_run ::
  "route_env \<Rightarrow> ident \<Rightarrow> string \<Rightarrow> (moment \<times> amount_arg \<times> string) list \<Rightarrow> route_db \<Rightarrow> idem_store \<Rightarrow> route_db \<times> idem_store"
where
  "withdraw_run env a k [] rd st = (rd, st)"
| "withdraw_run env a k ((now, amount, address) # q) rd st =
     (case withdraw_balance env now a amount address (Some k) rd st of
        (res, rd', st') \<Rightarrow> withdraw_run env a k q rd' st')"

lemma withdraw_run_used:
  "hashes_text env \<Longrightarrow> key_used env a ''withdraw'' k rd st \<Longrightarrow> fst (withdraw_run env a k q rd st) = rd"
proof (induction env a k q rd st rule: withdraw_run.induct)
  case (2 env a k now amount address q rd st)
  obtain res rd' st' where step: "withdraw_balance env now a amount address (Some k) rd st = (res, rd', st')"
    by (metis prod_cases3)
  have same: "rd' = rd" and used: "key_used env a ''withdraw'' k rd' st'" using withdraw_used [OF 2(2,3) step] by blast+
  show ?case using 2(1) [OF step [symmetric] refl 2(2) used] by (simp add: step same)
qed simp

lemma withdraw_run_once:
  "hashes_text env \<Longrightarrow> key_unused env a ''withdraw'' k rd st \<Longrightarrow>
     fst (withdraw_run env a k q rd st) = rd
     \<or> (\<exists>(now, amount, address) \<in> set q. debited a (fst amount) rd (fst (withdraw_run env a k q rd st))
          \<and> fst amount \<le> available_of a ''XMR'' (balances (rd_db rd)))"
proof (induction env a k q rd st rule: withdraw_run.induct)
  case (2 env a k now amount address q rd st)
  obtain res rd' st' where step: "withdraw_balance env now a amount address (Some k) rd st = (res, rd', st')"
    by (metis prod_cases3)
  from withdraw_unused [OF 2(2,3) step] show ?case
  proof
    assume "(\<exists>e. res = Inl e) \<and> rd' = rd \<and> key_unused env a ''withdraw'' k rd' st'"
    then have same: "rd' = rd" and unused: "key_unused env a ''withdraw'' k rd' st'" by blast+
    show ?case using 2(1) [OF step [symmetric] refl 2(2) unused] by (auto simp: step same)
  next
    assume "key_used env a ''withdraw'' k rd' st' \<and> debited a (fst amount) rd rd'
      \<and> fst amount \<le> available_of a ''XMR'' (balances (rd_db rd))"
    then show ?case using withdraw_run_used [OF 2(2)] by (auto simp: step)
  qed
qed simp

section \<open>Properties\<close>

definition demo_env :: route_env where
  "demo_env = \<lparr>env_hub_mode = ''ledger'', env_environment = ''dev'', env_network = ''stagenet'',
     env_sha = (\<lambda>m. ''h'' @ m), env_decimal_text = (\<lambda>x. ''n''), env_wallet = (\<lambda>ad x. WalletTimeout),
     env_deposit_address = (\<lambda>a. ''5''), env_min_confirmations = 10\<rparr>"

definition demo_tables :: route_db where
  "demo_tables = \<lparr>rd_db = empty_db\<lparr>balances := credit 0 1 50 ''XMR'' []\<rparr>, rd_pending = [], rd_idem = []\<rparr>"

lemma demo_env_ok: "hashes_text demo_env"
  by (simp add: hashes_text_def demo_env_def)

lemma demo_unused: "key_unused demo_env 1 ''withdraw'' ''key-0001'' demo_tables new_store"
  by (simp add: key_unused_def demo_tables_def new_store_def)

text \<open>C10. One key, one debit: from an unused key, any number of withdrawal requests of an agent with that
  key, one after the other at any times, in ledger or on-chain mode, with the same or with different
  bodies and whatever the wallet answers, leaves every balance as it was or debits the agent by the
  amount of one of the requests, an amount it could cover.\<close>

theorem withdraw_key_debits_once:
  assumes "hashes_text env" and "key_unused env a ''withdraw'' k rd st"
  shows "(\<forall>b u. available_of b u (balances (rd_db (fst (withdraw_run env a k q rd st))))
           = available_of b u (balances (rd_db rd)))
    \<or> (\<exists>(now, amount, address) \<in> set q. fst amount \<le> available_of a ''XMR'' (balances (rd_db rd))
         \<and> (\<forall>b u. available_of b u (balances (rd_db (fst (withdraw_run env a k q rd st))))
              = available_of b u (balances (rd_db rd)) - (if b = a \<and> u = ''XMR'' then fst amount else 0)))"
  using withdraw_run_once [OF assms, of q] unfolding debited_def by force

theorem withdraw_key_debits_once_witness:
  "\<exists>rd. rd = fst (withdraw_run demo_env 1 ''key-0001''
        [(1, (20, ''20''), ''4A''), (2, (20, ''20''), ''4A''), (7200000001, (30, ''30''), ''4A'')] demo_tables new_store)
     \<and> (available_of 1 ''XMR'' (balances (rd_db rd)) = 50 \<or> available_of 1 ''XMR'' (balances (rd_db rd)) = 30
        \<or> available_of 1 ''XMR'' (balances (rd_db rd)) = 20)"
proof -
  have "available_of 1 ''XMR'' (balances (rd_db demo_tables)) = 50" by code_simp
  then show ?thesis
    using withdraw_key_debits_once [OF demo_env_ok demo_unused,
      where q = "[(1, (20, ''20''), ''4A''), (2, (20, ''20''), ''4A''), (7200000001, (30, ''30''), ''4A'')]"]
    by auto
qed

text \<open>A refused duplicate frees the key: while a first request holds the sentinel, a second one with
  the same key is refused with 409 and its \<open>except\<close> clause releases the key, so a third one is let
  through as if the key were new, before the first has written its row.\<close>

lemma conflict_frees_key:
  assumes "try_reserve (env_sha env) now1 (uuid_text a) ''withdraw'' k (Some (rd_idem rd)) h1 st = (Inr None, st1)"
  shows "\<exists>st2 m st3. withdraw_balance env now2 a amount address (Some k) rd st1 =
        (Inl (Http (HTTPException 409 m)), rd, st2)
    \<and> try_reserve (env_sha env) now3 (uuid_text a) ''withdraw'' k (Some (rd_idem rd)) h3 st2 = (Inr None, st3)"
proof -
  let ?fk = "endpoint_key env a ''withdraw'' k"
  have lock: "is_cache st1 ?fk = Some Processing" and row: "idem_get (uuid_text a) ''withdraw'' k (rd_idem rd) = None"
    using assms by (auto simp: try_reserve_def try_reserve_local_def check_db_def Let_def
        split: option.splits cache_entry.splits if_splits)
  let ?h = "withdraw_hash env amount address"
  let ?st2 = "release (env_sha env) (uuid_text a) ''withdraw'' k (maybe_evict now2 st1)"
  have "is_cache (maybe_evict now2 st1) ?fk = Some Processing" using lock by (simp add: maybe_evict_keeps_sentinel)
  then have refused: "withdraw_balance env now2 a amount address (Some k) rd st1 =
      (Inl (Http (HTTPException 409 ''Request is being processed'')), rd, ?st2)"
    by (simp add: withdraw_balance_def reserve_key_def try_reserve_def try_reserve_local_def Let_def fail_def)
  have "is_cache ?st2 ?fk = None"
    using lock by (simp add: release_def Let_def maybe_evict_keeps_sentinel)
  then have "is_cache (maybe_evict now3 ?st2) ?fk = None" using evict_cases [of now3 ?st2 ?fk] by auto
  then have "\<exists>st3. try_reserve (env_sha env) now3 (uuid_text a) ''withdraw'' k (Some (rd_idem rd)) h3 ?st2 = (Inr None, st3)"
    using row by (simp add: try_reserve_def try_reserve_local_def check_db_def Let_def)
  with refused show ?thesis by blast
qed

lemma conflict_frees_key_witness:
  "\<exists>st2 m. withdraw_balance demo_env 2 1 (20, ''20'') ''4A'' (Some ''key-0001'') demo_tables
      (snd (try_reserve (env_sha demo_env) 1 (uuid_text 1) ''withdraw'' ''key-0001'' (Some []) None new_store))
    = (Inl (Http (HTTPException 409 m)), demo_tables, st2)"
proof -
  have "fst (try_reserve (env_sha demo_env) 1 (uuid_text 1) ''withdraw'' ''key-0001'' (Some (rd_idem demo_tables)) None new_store) = Inr None"
    by (simp add: try_reserve_def try_reserve_local_def check_db_def Let_def maybe_evict_def new_store_def
        idem_get_def demo_tables_def seconds_def EVICTION_INTERVAL_def microsecond_per_second_def)
  then have "try_reserve (env_sha demo_env) 1 (uuid_text 1) ''withdraw'' ''key-0001'' (Some (rd_idem demo_tables)) None new_store
      = (Inr None, snd (try_reserve (env_sha demo_env) 1 (uuid_text 1) ''withdraw'' ''key-0001'' (Some []) None new_store))"
    by (simp add: prod_eq_iff demo_tables_def)
  from conflict_frees_key [OF this] show ?thesis by blast
qed

end
