(* ===== verification/Rate_Limiter.thy ===== *)
theory Rate_Limiter
  imports Idempotency
begin

text \<open>
  \<open>sthrip/services/rate_limiter.py\<close> on its in-process counters, the path taken when no Redis answers
  and the limiter is configured to stay open: the fixed windows per agent, the per-address and global
  windows of unauthenticated endpoints, and the counter of failed authentications.

  The abstract specification is \<open>window_step\<close>, one counter of one key: \<open>check_local\<close> refines it for
  every key at once, eviction included, and the bounds are proved on it.
\<close>

section \<open>Configuration\<close>

datatype rate_limit_tier = TierLow | TierStandard | TierHigh | TierUnlimited

record rate_limit_config =
  rl_requests_per_minute :: int
  rl_burst_size :: int

fun DEFAULT_LIMITS :: "rate_limit_tier \<Rightarrow> rate_limit_config" where
  "DEFAULT_LIMITS TierLow = \<lparr>rl_requests_per_minute = 10, rl_burst_size = 5\<rparr>"
| "DEFAULT_LIMITS TierStandard = \<lparr>rl_requests_per_minute = 100, rl_burst_size = 20\<rparr>"
| "DEFAULT_LIMITS TierHigh = \<lparr>rl_requests_per_minute = 1000, rl_burst_size = 100\<rparr>"
| "DEFAULT_LIMITS TierUnlimited = \<lparr>rl_requests_per_minute = 1000000, rl_burst_size = 100000\<rparr>"

definition ascii_lower :: "string \<Rightarrow> string" where
  "ascii_lower = map (\<lambda>c. let n = (of_char c :: int) in if 65 \<le> n \<and> n \<le> 90 then char_of (n + 32) else c)"

definition tier_of_name :: "string \<Rightarrow> rate_limit_tier option" where
  "tier_of_name s =
     map_of [(''low'', TierLow), (''standard'', TierStandard), (''high'', TierHigh),
             (''unlimited'', TierUnlimited)] s"

definition get_limit_config :: "rate_limit_tier \<Rightarrow> string \<Rightarrow> rate_limit_config" where
  "get_limit_config default_tier tier =
     DEFAULT_LIMITS (case tier_of_name (ascii_lower tier) of None \<Rightarrow> default_tier | Some t \<Rightarrow> t)"

definition rate_key :: "string \<Rightarrow> string option \<Rightarrow> string" where
  "rate_key agent_id endpoint =
     (case endpoint of
        None \<Rightarrow> ''ratelimit:'' @ agent_id
      | Some e \<Rightarrow> if e = '''' then ''ratelimit:'' @ agent_id else ''ratelimit:'' @ agent_id @ '':'' @ e)"

section \<open>The counters\<close>

record rate_entry =
  re_count :: int
  re_reset_at :: moment

record limiter =
  li_cache :: "string \<Rightarrow> rate_entry option"
  li_last_eviction :: moment
  li_reject_requests :: bool

datatype rate_error = RateLimitExceeded int moment | Unavailable http_error

record rate_status =
  rs_remaining :: int
  rs_reset_at :: moment
  rs_limit :: int

definition limiter_evict :: "moment \<Rightarrow> limiter \<Rightarrow> limiter" where
  "limiter_evict now s = s\<lparr>li_cache := (\<lambda>k. case li_cache s k of
     None \<Rightarrow> None | Some e \<Rightarrow> if re_reset_at e < now then None else Some e)\<rparr>"

definition limiter_maybe_evict :: "moment \<Rightarrow> limiter \<Rightarrow> limiter" where
  "limiter_maybe_evict now s =
     (if seconds 300 < now - li_last_eviction s
      then (limiter_evict now s)\<lparr>li_last_eviction := now\<rparr> else s)"

definition put_rate :: "string \<Rightarrow> rate_entry \<Rightarrow> limiter \<Rightarrow> limiter" where
  "put_rate k e s = s\<lparr>li_cache := (li_cache s)(k := Some e)\<rparr>"

definition WINDOW :: int where
  "WINDOW = seconds 60"

definition check_local ::
  "moment \<Rightarrow> string \<Rightarrow> int \<Rightarrow> int \<Rightarrow> limiter \<Rightarrow> (rate_error + rate_status) \<times> limiter"
where
  "check_local now key limit cost s0 =
     (let s = limiter_maybe_evict now s0;
          admit = (\<lambda>e. (Inr \<lparr>rs_remaining = max 0 (limit - re_count e), rs_reset_at = re_reset_at e,
                             rs_limit = limit\<rparr>, put_rate key e s))
      in case li_cache s key of
           None \<Rightarrow> admit \<lparr>re_count = cost, re_reset_at = now + WINDOW\<rparr>
         | Some e \<Rightarrow>
             if re_reset_at e < now then admit \<lparr>re_count = cost, re_reset_at = now + WINDOW\<rparr>
             else if re_count e + cost > limit then (Inl (RateLimitExceeded limit (re_reset_at e)), s)
             else admit \<lparr>re_count = re_count e + cost, re_reset_at = re_reset_at e\<rparr>)"

definition check_rate_limit ::
  "rate_limit_tier \<Rightarrow> moment \<Rightarrow> string \<Rightarrow> string \<Rightarrow> string option \<Rightarrow> int \<Rightarrow> limiter
    \<Rightarrow> (rate_error + rate_status) \<times> limiter"
where
  "check_rate_limit default_tier now agent_id tier endpoint cost s =
     (let config = get_limit_config default_tier tier; key = rate_key agent_id endpoint
      in if li_reject_requests s
         then (Inl (Unavailable (HTTPException 503 ''Rate limiting service unavailable'')), s)
         else check_local now key (rl_requests_per_minute config) cost s)"

definition get_limit_status :: "rate_limit_tier \<Rightarrow> moment \<Rightarrow> string \<Rightarrow> string \<Rightarrow> limiter \<Rightarrow> rate_status \<times> int" where
  "get_limit_status default_tier now agent_id tier s =
     (let limit = rl_requests_per_minute (get_limit_config default_tier tier);
          (count, reset_at) = (case li_cache s (rate_key agent_id None) of
              None \<Rightarrow> (0, now + WINDOW) | Some e \<Rightarrow> (re_count e, re_reset_at e))
      in (\<lparr>rs_remaining = max 0 (limit - count), rs_reset_at = reset_at, rs_limit = limit\<rparr>, count))"

definition reset_limit :: "string \<Rightarrow> string option \<Rightarrow> limiter \<Rightarrow> limiter" where
  "reset_limit agent_id endpoint s = s\<lparr>li_cache := (li_cache s)(rate_key agent_id endpoint := None)\<rparr>"

section \<open>Unauthenticated endpoints\<close>

text \<open>The count and the end of the window of a key, a fresh window when it has none or it is over.\<close>

definition window_of :: "moment \<Rightarrow> int \<Rightarrow> string \<Rightarrow> limiter \<Rightarrow> int \<times> moment" where
  "window_of now window k s =
     (case li_cache s k of
        None \<Rightarrow> (0, now + window)
      | Some e \<Rightarrow> if re_reset_at e < now then (0, now + window) else (re_count e, re_reset_at e))"

definition check_ip_local ::
  "string \<Rightarrow> string \<Rightarrow> int \<Rightarrow> int \<Rightarrow> int \<Rightarrow> moment \<Rightarrow> limiter \<Rightarrow> (rate_error + int \<times> int) \<times> limiter"
where
  "check_ip_local ip_key global_key per_ip_limit global_limit window now s =
     (let (ip_count, ip_reset) = window_of now window ip_key s;
          (g_count, g_reset) = window_of now window global_key s
      in if ip_count + 1 > per_ip_limit then (Inl (RateLimitExceeded per_ip_limit ip_reset), s)
         else if g_count + 1 > global_limit then (Inl (RateLimitExceeded global_limit g_reset), s)
         else (Inr (per_ip_limit - (ip_count + 1), global_limit - (g_count + 1)),
               put_rate global_key \<lparr>re_count = g_count + 1, re_reset_at = g_reset\<rparr>
                 (put_rate ip_key \<lparr>re_count = ip_count + 1, re_reset_at = ip_reset\<rparr> s)))"

definition peek_ip_limit ::
  "string \<Rightarrow> string \<Rightarrow> int \<Rightarrow> int \<Rightarrow> moment \<Rightarrow> limiter \<Rightarrow> rate_error + int \<times> int"
where
  "peek_ip_limit ip_key global_key per_ip_limit global_limit now s =
     (let (ip_count, ip_reset) = window_of now 0 ip_key s;
          (g_count, g_reset) = window_of now 0 global_key s
      in if ip_count \<ge> per_ip_limit then Inl (RateLimitExceeded per_ip_limit ip_reset)
         else if (case li_cache s global_key of None \<Rightarrow> False | Some e \<Rightarrow> now \<le> re_reset_at e) \<and> g_count \<ge> global_limit
         then Inl (RateLimitExceeded global_limit g_reset)
         else Inr (per_ip_limit - ip_count, global_limit - g_count))"

definition check_ip_rate_limit ::
  "string \<Rightarrow> string \<Rightarrow> int \<Rightarrow> int \<Rightarrow> int \<Rightarrow> bool \<Rightarrow> moment \<Rightarrow> limiter \<Rightarrow> (rate_error + int \<times> int) \<times> limiter"
where
  "check_ip_rate_limit ip_address action per_ip_limit global_limit window_seconds check_only now s =
     (let ip_key = ''ratelimit:ip:'' @ action @ '':'' @ ip_address; global_key = ''ratelimit:global:'' @ action
      in if check_only then (peek_ip_limit ip_key global_key per_ip_limit global_limit now s, s)
         else check_ip_local ip_key global_key per_ip_limit global_limit (seconds window_seconds) now s)"

definition check_failed_auth :: "string \<Rightarrow> int \<Rightarrow> moment \<Rightarrow> limiter \<Rightarrow> rate_error + unit" where
  "check_failed_auth ip limit now s =
     (case li_cache s (''ratelimit:ip:failed_auth:'' @ ip) of
        None \<Rightarrow> Inr ()
      | Some e \<Rightarrow> if now \<le> re_reset_at e \<and> re_count e \<ge> limit
                  then Inl (RateLimitExceeded limit (re_reset_at e)) else Inr ())"

definition record_failed_auth :: "string \<Rightarrow> int \<Rightarrow> moment \<Rightarrow> limiter \<Rightarrow> int \<times> limiter" where
  "record_failed_auth ip window now s =
     (let key = ''ratelimit:ip:failed_auth:'' @ ip;
          (count, reset_at) = window_of now (seconds window) key s
      in (count + 1, put_rate key \<lparr>re_count = count + 1, re_reset_at = reset_at\<rparr> s))"

section \<open>The specification of one key\<close>

text \<open>The window that counts at a moment; what a request does to it.\<close>

definition live :: "moment \<Rightarrow> rate_entry option \<Rightarrow> rate_entry option" where
  "live now x = (case x of None \<Rightarrow> None | Some e \<Rightarrow> if re_reset_at e < now then None else Some e)"

definition window_step :: "int \<Rightarrow> int \<Rightarrow> moment \<Rightarrow> rate_entry option \<Rightarrow> bool \<times> rate_entry option" where
  "window_step limit cost now x =
     (case live now x of
        None \<Rightarrow> (True, Some \<lparr>re_count = cost, re_reset_at = now + WINDOW\<rparr>)
      | Some e \<Rightarrow> if re_count e + cost > limit then (False, Some e)
                  else (True, Some (e\<lparr>re_count := re_count e + cost\<rparr>)))"

definition admitted :: "(rate_error + rate_status) \<Rightarrow> bool" where
  "admitted r \<longleftrightarrow> (case r of Inl e \<Rightarrow> False | Inr x \<Rightarrow> True)"

lemma live_evict: "now \<le> later \<Longrightarrow> live later (li_cache (limiter_maybe_evict now s) k) = live later (li_cache s k)"
  by (auto simp: live_def limiter_maybe_evict_def limiter_evict_def split: option.splits)

lemma check_local_step:
  assumes "check_local now key limit cost s = (res, s')"
  shows "admitted res = fst (window_step limit cost now (li_cache s key))"
    and "now \<le> later \<Longrightarrow> live later (li_cache s' key) = live later (snd (window_step limit cost now (li_cache s key)))"
    and "now \<le> later \<Longrightarrow> k \<noteq> key \<Longrightarrow> live later (li_cache s' k) = live later (li_cache s k)"
    and "res = Inl e \<Longrightarrow> \<exists>r. e = RateLimitExceeded limit r"
    and "res = Inr st \<Longrightarrow> \<exists>r. snd (window_step limit cost now (li_cache s key)) = Some r
          \<and> rs_remaining st = max 0 (limit - re_count r) \<and> rs_reset_at st = re_reset_at r"
proof -
  let ?s = "limiter_maybe_evict now s"
  have at: "live now (li_cache ?s key) = live now (li_cache s key)" by (rule live_evict) simp
  have keep: "live later (li_cache ?s k) = live later (li_cache s k)" if "now \<le> later" for k later
    by (rule live_evict [OF that])
  consider "live now (li_cache s key) = None" | e where "live now (li_cache s key) = Some e" by (cases "live now (li_cache s key)") auto
  note cases = this
  have step: "check_local now key limit cost s =
      (case live now (li_cache s key) of
         None \<Rightarrow> (Inr \<lparr>rs_remaining = max 0 (limit - cost), rs_reset_at = now + WINDOW, rs_limit = limit\<rparr>,
                  put_rate key \<lparr>re_count = cost, re_reset_at = now + WINDOW\<rparr> ?s)
       | Some e \<Rightarrow> if re_count e + cost > limit then (Inl (RateLimitExceeded limit (re_reset_at e)), ?s)
                   else (Inr \<lparr>rs_remaining = max 0 (limit - (re_count e + cost)), rs_reset_at = re_reset_at e,
                              rs_limit = limit\<rparr>,
                         put_rate key \<lparr>re_count = re_count e + cost, re_reset_at = re_reset_at e\<rparr> ?s))"
    unfolding at [symmetric] by (auto simp: check_local_def Let_def live_def split: option.split)
  show "admitted res = fst (window_step limit cost now (li_cache s key))"
    using assms unfolding step window_step_def admitted_def by (auto split: option.splits if_splits)
  show "live later (li_cache s' k) = live later (li_cache s k)" if "now \<le> later" "k \<noteq> key"
    using assms that unfolding step by (auto simp: put_rate_def keep split: option.splits if_splits)
  show "\<exists>r. e = RateLimitExceeded limit r" if "res = Inl e"
    using assms that unfolding step by (auto split: option.splits if_splits)
  show "live later (li_cache s' key) = live later (snd (window_step limit cost now (li_cache s key)))" if "now \<le> later"
  proof (cases rule: cases)
    case 1
    then show ?thesis using assms unfolding step window_step_def by (auto simp: put_rate_def)
  next
    case (2 e)
    then have "li_cache s key = Some e" by (auto simp: live_def split: option.splits if_splits)
    then show ?thesis using 2 assms keep [OF that, of key] unfolding step window_step_def
      by (cases e) (auto simp: put_rate_def split: if_splits)
  qed
  show "\<exists>r. snd (window_step limit cost now (li_cache s key)) = Some r
      \<and> rs_remaining st = max 0 (limit - re_count r) \<and> rs_reset_at st = re_reset_at r" if "res = Inr st"
    using assms that unfolding step window_step_def by (auto split: option.splits if_splits)
qed

section \<open>Runs\<close>

text \<open>A request: when, on which key, under which limit and at which cost.\<close>

type_synonym rate_request = "moment \<times> string \<times> int \<times> int"

text \<open>What is admitted on one key between two moments.\<close>

fun spent :: "string \<Rightarrow> moment \<Rightarrow> moment \<Rightarrow> rate_request list \<Rightarrow> limiter \<Rightarrow> int" where
  "spent key lo hi [] s = 0"
| "spent key lo hi ((now, k, limit, cost) # q) s =
     (case check_local now k limit cost s of
        (res, s') \<Rightarrow> (if k = key \<and> lo \<le> now \<and> now \<le> hi \<and> admitted res then cost else 0) + spent key lo hi q s')"

fun window_spent :: "moment \<Rightarrow> moment \<Rightarrow> (moment \<times> int \<times> int) list \<Rightarrow> rate_entry option \<Rightarrow> int" where
  "window_spent lo hi [] x = 0"
| "window_spent lo hi ((now, limit, cost) # q) x =
     (case window_step limit cost now x of
        (ok, x') \<Rightarrow> (if lo \<le> now \<and> now \<le> hi \<and> ok then cost else 0) + window_spent lo hi q x')"

definition requests_on :: "string \<Rightarrow> rate_request list \<Rightarrow> (moment \<times> int \<times> int) list" where
  "requests_on key q = map (\<lambda>(now, k, r). (now, r)) (filter (\<lambda>(now, k, r). k = key) q)"

definition in_order :: "rate_request list \<Rightarrow> bool" where
  "in_order q \<longleftrightarrow> sorted (map fst q)"

lemma window_step_live:
  "live now x = live now y \<Longrightarrow> fst (window_step limit cost now x) = fst (window_step limit cost now y)
     \<and> (\<forall>later \<ge> now. live later (snd (window_step limit cost now x)) = live later (snd (window_step limit cost now y)))"
  by (simp add: window_step_def)

text \<open>The limiter refines the one-key counters, whatever other keys do in between.\<close>

lemma limiter_refines:
  assumes "in_order q" and "\<forall>r \<in> set q. t \<le> fst r" and "\<forall>later \<ge> t. live later (li_cache s key) = live later x"
  shows "spent key lo hi q s = window_spent lo hi (requests_on key q) x"
  using assms
proof (induction q arbitrary: t s x)
  case Nil
  then show ?case by (simp add: requests_on_def)
next
  case (Cons r q)
  obtain now k limit cost where r: "r = (now, k, limit, cost)" by (cases r) auto
  obtain res s' where res: "check_local now k limit cost s = (res, s')" by fastforce
  have order: "in_order q" "\<forall>r \<in> set q. now \<le> fst r" using Cons.prems(1) by (auto simp: in_order_def r)
  have now: "t \<le> now" using Cons.prems(2) by (simp add: r)
  note eff = check_local_step [OF res]
  show ?case
  proof (cases "k = key")
    case True
    obtain ok x' where x': "window_step limit cost now x = (ok, x')" by fastforce
    have "live now (li_cache s key) = live now x" using Cons.prems(3) now by simp
    note ws = window_step_live [OF this, of limit cost]
    have "admitted res = ok" using eff(1) ws x' True by simp
    moreover have "\<forall>later \<ge> now. live later (li_cache s' key) = live later x'"
      using eff(2) ws x' True by simp
    ultimately show ?thesis
      using Cons.IH [OF order, of s' x'] res unfolding r True by (simp add: x' requests_on_def)
  next
    case False
    have "\<forall>later \<ge> now. live later (li_cache s' key) = live later x"
      using eff(3) [of _ key] Cons.prems(3) now False by auto
    then show ?thesis
      using Cons.IH [OF order] False by (simp add: r res requests_on_def)
  qed
qed

lemma spent_on_key:
  assumes "in_order q"
  shows "spent key lo hi q s = window_spent lo hi (requests_on key q) (li_cache s key)"
proof (cases q)
  case Nil
  then show ?thesis by (simp add: requests_on_def)
next
  case (Cons r q')
  then have "\<forall>x \<in> set q. fst r \<le> fst x" using assms by (auto simp: in_order_def)
  then show ?thesis using limiter_refines [OF assms, of "fst r" s key "li_cache s key"] by simp
qed

section \<open>Bounds of one key\<close>

definition fair :: "int \<Rightarrow> (moment \<times> int \<times> int) list \<Rightarrow> bool" where
  "fair limit q \<longleftrightarrow> sorted (map fst q) \<and> (\<forall>(now, l, cost) \<in> set q. l = limit \<and> 0 \<le> cost \<and> cost \<le> limit)"

lemma fair_Cons: "fair limit ((now, l, cost) # q) \<longleftrightarrow>
    l = limit \<and> 0 \<le> cost \<and> cost \<le> limit \<and> (\<forall>r \<in> set q. now \<le> fst r) \<and> fair limit q"
  by (auto simp: fair_def)

text \<open>Within the current window at most what is left of it; up to one window length ahead at most one
  limit more.\<close>

lemma window_spent_late:
  "\<forall>r \<in> set q. hi < fst r \<Longrightarrow> window_spent lo hi q x = 0"
  by (induction lo hi q x rule: window_spent.induct) (auto split: prod.split)

lemma current_window:
  "fair limit q \<Longrightarrow> re_count e \<le> limit \<Longrightarrow> hi \<le> re_reset_at e \<Longrightarrow>
     window_spent lo hi q (Some e) \<le> limit - re_count e"
proof (induction q arbitrary: e)
  case Nil
  then show ?case by simp
next
  case (Cons r q)
  obtain now l cost where r: "r = (now, l, cost)" by (cases r) auto
  have f: "l = limit" "0 \<le> cost" "cost \<le> limit" "\<forall>r \<in> set q. now \<le> fst r" "fair limit q"
    using Cons.prems(1) by (simp_all add: fair_Cons r)
  show ?case
  proof (cases "hi < now")
    case True
    then have "window_spent lo hi q x = 0" for x using f(4) by (intro window_spent_late) force
    then show ?thesis using True Cons.prems(2) by (simp add: r split: prod.split)
  next
    case False
    then have live: "live now (Some e) = Some e" using Cons.prems(3) by (simp add: live_def)
    let ?e = "e\<lparr>re_count := re_count e + cost\<rparr>"
    show ?thesis
    proof (cases "re_count e + cost > limit")
      case True
      then have "window_step l cost now (Some e) = (False, Some e)"
        by (simp add: window_step_def live f(1))
      then show ?thesis using Cons.IH [OF f(5) Cons.prems(2,3)] by (simp add: r)
    next
      case False
      then have "window_step l cost now (Some e) = (True, Some ?e)"
        by (simp add: window_step_def live f(1))
      moreover have "window_spent lo hi q (Some ?e) \<le> limit - re_count ?e"
        using False Cons.prems(3) by (intro Cons.IH [OF f(5)]) simp_all
      ultimately show ?thesis using f(2) by (simp add: r)
    qed
  qed
qed

text \<open>A request that opens a window: the rest of the interval lies in that window.\<close>

lemma fresh_window:
  assumes "fair limit ((now, l, cost) # q)" and "live now x = None" and "hi \<le> now + WINDOW"
  shows "window_spent lo hi ((now, l, cost) # q) x \<le> limit"
proof -
  have f: "l = limit" "0 \<le> cost" "cost \<le> limit" "fair limit q" using assms(1) by (simp_all add: fair_Cons)
  have "window_spent lo hi q (Some \<lparr>re_count = cost, re_reset_at = now + WINDOW\<rparr>) \<le> limit - cost"
    using current_window [OF f(4), of "\<lparr>re_count = cost, re_reset_at = now + WINDOW\<rparr>" hi lo] f(3) assms(3) by simp
  then show ?thesis using f by (simp add: window_step_def assms(2))
qed

text \<open>One window ahead: what is left of the window that counts, and one more limit.\<close>

lemma one_window_ahead:
  "fair limit q \<Longrightarrow> 0 \<le> re_count e \<Longrightarrow> re_count e \<le> limit \<Longrightarrow> \<forall>r \<in> set q. lo \<le> fst r \<Longrightarrow> hi \<le> lo + WINDOW \<Longrightarrow>
     window_spent lo hi q (Some e) \<le> (limit - re_count e) + limit"
proof (induction q arbitrary: e)
  case Nil
  then show ?case by simp
next
  case (Cons r q)
  obtain now l cost where r: "r = (now, l, cost)" by (cases r) auto
  have f: "l = limit" "0 \<le> cost" "cost \<le> limit" "fair limit q" "lo \<le> now" "\<forall>r \<in> set q. lo \<le> fst r"
    using Cons.prems(1,4) by (simp_all add: fair_Cons r)
  let ?e = "e\<lparr>re_count := re_count e + cost\<rparr>"
  consider (over) "live now (Some e) = None" | (full) "live now (Some e) = Some e" "limit < re_count e + cost"
    | (room) "live now (Some e) = Some e" "re_count e + cost \<le> limit"
    by (cases "re_reset_at e < now"; cases "limit < re_count e + cost") (auto simp: live_def)
  then show ?case
  proof cases
    case over
    then show ?thesis
      using fresh_window [of limit now l cost q "Some e" hi lo] Cons.prems f(5) by (simp add: r)
  next
    case full
    then have "window_step l cost now (Some e) = (False, Some e)" by (simp add: window_step_def f(1))
    then show ?thesis using Cons.IH [OF f(4) Cons.prems(2,3) f(6) Cons.prems(5)] by (simp add: r)
  next
    case room
    then have "window_step l cost now (Some e) = (True, Some ?e)" by (simp add: window_step_def f(1))
    moreover have "window_spent lo hi q (Some ?e) \<le> (limit - re_count ?e) + limit"
      using room f Cons.prems(2,5) by (intro Cons.IH) simp_all
    ultimately show ?thesis using f(2) by (simp add: r)
  qed
qed

definition kept :: "int \<Rightarrow> rate_entry option \<Rightarrow> bool" where
  "kept limit x \<longleftrightarrow> (case x of None \<Rightarrow> True | Some e \<Rightarrow> 0 \<le> re_count e \<and> re_count e \<le> limit)"

lemma window_step_kept:
  "kept limit x \<Longrightarrow> 0 \<le> cost \<Longrightarrow> cost \<le> limit \<Longrightarrow> kept limit (snd (window_step limit cost now x))"
  by (auto simp: window_step_def kept_def live_def split: option.splits if_splits)

text \<open>An interval of one window's length, wherever it starts: at most twice the limit.\<close>

lemma any_interval:
  "fair limit q \<Longrightarrow> kept limit x \<Longrightarrow> 0 \<le> limit \<Longrightarrow> window_spent lo (lo + WINDOW) q x \<le> 2 * limit"
proof (induction q arbitrary: x)
  case Nil
  then show ?case by simp
next
  case (Cons r q)
  obtain now l cost where r: "r = (now, l, cost)" by (cases r) auto
  have f: "l = limit" "0 \<le> cost" "cost \<le> limit" "fair limit q" "\<forall>r \<in> set q. now \<le> fst r"
    using Cons.prems(1) by (simp_all add: fair_Cons r)
  show ?case
  proof (cases "now < lo")
    case True
    have "window_spent lo (lo + WINDOW) q (snd (window_step limit cost now x)) \<le> 2 * limit"
      using window_step_kept Cons.prems f by (intro Cons.IH) simp_all
    then show ?thesis using True f(1) by (cases "window_step limit cost now x") (simp add: r)
  next
    case False
    then have late: "\<forall>r \<in> set (r # q). lo \<le> fst r" using f(5) by (auto simp: r)
    show ?thesis
    proof (cases x)
      case None
      then have "window_spent lo (lo + WINDOW) (r # q) x \<le> limit"
        using fresh_window [of limit now l cost q x "lo + WINDOW" lo] Cons.prems(1) False by (simp add: r live_def)
      then show ?thesis using Cons.prems(3) by simp
    next
      case (Some e)
      then show ?thesis
        using one_window_ahead [OF Cons.prems(1) _ _ late, of e "lo + WINDOW"] Cons.prems(2) by (simp add: kept_def)
    qed
  qed
qed

section \<open>Properties\<close>

text \<open>C11. Refinement: on any sequence of requests in time order, whatever agents and endpoints they come from
  and however often stale entries are evicted in between, what \<open>_check_rate_limit_local\<close> admits on a key in
  an interval is what the one-counter specification admits from that key's requests alone. One agent cannot
  use up, or be charged for, the budget of another.\<close>

theorem limiter_isolates_keys:
  assumes "in_order q"
  shows "spent key lo hi q s = window_spent lo hi (requests_on key q) (li_cache s key)"
  by (rule spent_on_key [OF assms])

definition busy_minute :: "rate_request list" where
  "busy_minute = [(0, ''a'', 2, 1), (10, ''b'', 2, 2), (59000000, ''a'', 2, 1), (60000000, ''a'', 2, 1),
     (60000001, ''a'', 2, 1), (400000000, ''b'', 2, 1), (400000000, ''a'', 2, 1)]"

definition empty_limiter :: limiter where
  "empty_limiter = \<lparr>li_cache = (\<lambda>k. None), li_last_eviction = 0, li_reject_requests = False\<rparr>"

theorem limiter_isolates_keys_witness:
  "spent ''a'' 0 400000000 busy_minute empty_limiter = 4"
proof -
  have order: "in_order busy_minute" by code_simp
  have alone: "window_spent 0 400000000 (requests_on ''a'' busy_minute) (li_cache empty_limiter ''a'') = 4"
    by code_simp
  show ?thesis using limiter_isolates_keys [OF order] alone by simp
qed

text \<open>Bounds: when the requests on a key all carry the limit of its tier and no request costs more than it,
  every interval of one window's length, aligned with the windows or not, admits at most twice the limit on
  that key. (Twice is reached: the windows are
  fixed, and a burst at the end of one may be followed by a burst at the start of the next.)\<close>

lemma limiter_bounds_interval:
  assumes "in_order q" and "\<forall>(now, k, l, cost) \<in> set q. k = key \<longrightarrow> l = limit \<and> 0 \<le> cost \<and> cost \<le> limit"
    and "0 \<le> limit" and "kept limit (li_cache s key)"
  shows "spent key t (t + WINDOW) q s \<le> 2 * limit"
proof -
  have "sorted (map fst (requests_on key q))"
    using assms(1) by (induction q) (auto simp: in_order_def requests_on_def)
  then have "fair limit (requests_on key q)"
    using assms(2) by (auto simp: fair_def requests_on_def)
  then show ?thesis
    using any_interval [of limit "requests_on key q" "li_cache s key" t] assms(3,4)
      spent_on_key [OF assms(1)] by simp
qed

definition burst :: "rate_request list" where
  "burst = [(0, ''a'', 2, 1), (59000000, ''a'', 2, 1), (60000001, ''a'', 2, 2), (61000000, ''a'', 2, 1)]"

lemma limiter_bounds_interval_witness:
  "spent ''a'' 59000000 (59000000 + WINDOW) burst empty_limiter \<le> 4
    \<and> spent ''a'' 1 (1 + WINDOW) burst empty_limiter = 3"
proof
  show "spent ''a'' 59000000 (59000000 + WINDOW) burst empty_limiter \<le> 4"
    using limiter_bounds_interval [of burst "''a''" 2 empty_limiter 59000000]
    by (simp add: in_order_def burst_def kept_def empty_limiter_def)
  show "spent ''a'' 1 (1 + WINDOW) burst empty_limiter = 3" by code_simp
qed

end
