(* ===== verification/Glob.thy ===== *)
theory Glob
  imports Prelude
begin

text \<open>
  Shell-style patterns as \<open>fnmatch.fnmatch\<close> of the Python standard library matches them on a POSIX
  system: the services use them for the recipients of spending policies and for the event filters of
  webhook endpoints. The matcher is executable; \<open>glob_language\<close> says what it accepts.
\<close>

section \<open>Patterns\<close>

datatype class_item = Single char | Range char char

datatype glob_token = AnySeq | AnyChar | Literal char | CharClass bool "class_item list"

text \<open>The text between the brackets: a character followed by a hyphen and a character is a range.\<close>

fun class_items :: "string \<Rightarrow> class_item list" where
  "class_items [] = []"
| "class_items [c] = [Single c]"
| "class_items [c, d] = [Single c, Single d]"
| "class_items (c # h # d # q) =
     (if h = CHR ''-'' then Range c d # class_items q else Single c # class_items (h # d # q))"

text \<open>
  After an opening bracket: negation, the text of the class and what follows the closing bracket, when
  there is one. A closing bracket that comes first belongs to the class.
\<close>

definition split_class :: "string \<Rightarrow> (bool \<times> string \<times> string) option" where
  "split_class p =
     (let (neg, q) = (case p of [] \<Rightarrow> (False, []) | c # p' \<Rightarrow> if c = CHR ''!'' then (True, p') else (False, p));
          (first, q') = (case q of [] \<Rightarrow> ([], []) | c # q1 \<Rightarrow> if c = CHR '']'' then ([c], q1) else ([], q))
      in case dropWhile (\<lambda>c. c \<noteq> CHR '']'') q' of
           [] \<Rightarrow> None
         | c # r \<Rightarrow> Some (neg, first @ takeWhile (\<lambda>c. c \<noteq> CHR '']'') q', r))"

lemma split_class_shorter: "split_class p = Some (neg, body, r) \<Longrightarrow> length r < length p"
proof -
  assume some: "split_class p = Some (neg, body, r)"
  have drop: "dropWhile P q = c # r \<Longrightarrow> length r < length q" for P q and c :: char
    using length_dropWhile_le [of P q] by simp
  show ?thesis using some drop
    by (auto simp: split_class_def Let_def split: list.splits if_splits prod.splits) (fastforce dest: drop)+
qed

function parse_glob :: "string \<Rightarrow> glob_token list" where
  "parse_glob [] = []"
| "parse_glob (c # p) =
     (if c = CHR ''*'' then AnySeq # parse_glob p
      else if c = CHR ''?'' then AnyChar # parse_glob p
      else if c = CHR ''['' then
        (case split_class p of
           None \<Rightarrow> Literal c # parse_glob p
         | Some (neg, body, r) \<Rightarrow> CharClass neg (class_items body) # parse_glob r)
      else Literal c # parse_glob p)"
  by pat_completeness auto

termination
  by (relation "measure length") (auto dest: split_class_shorter)

section \<open>Matching\<close>

definition item_matches :: "char \<Rightarrow> class_item \<Rightarrow> bool" where
  "item_matches c i = (case i of Single d \<Rightarrow> c = d
     | Range lo hi \<Rightarrow> (of_char lo :: int) \<le> of_char c \<and> (of_char c :: int) \<le> of_char hi)"

definition token_matches :: "glob_token \<Rightarrow> char \<Rightarrow> bool" where
  "token_matches t c = (case t of AnySeq \<Rightarrow> False | AnyChar \<Rightarrow> True | Literal d \<Rightarrow> c = d
     | CharClass neg items \<Rightarrow> list_ex (item_matches c) items \<noteq> neg)"

fun glob_match :: "glob_token list \<Rightarrow> string \<Rightarrow> bool" where
  "glob_match [] s \<longleftrightarrow> s = []"
| "glob_match (t # p) [] \<longleftrightarrow> t = AnySeq \<and> glob_match p []"
| "glob_match (t # p) (c # s) \<longleftrightarrow>
     (if t = AnySeq then glob_match p (c # s) \<or> glob_match (t # p) s
      else token_matches t c \<and> glob_match p s)"

definition fnmatch :: "string \<Rightarrow> string \<Rightarrow> bool" where
  "fnmatch name pat \<longleftrightarrow> glob_match (parse_glob pat) name"

section \<open>The language of a pattern\<close>

fun glob_language :: "glob_token list \<Rightarrow> string set" where
  "glob_language [] = {[]}"
| "glob_language (t # p) =
     (if t = AnySeq then {u @ v | u v. v \<in> glob_language p}
      else {c # v | c v. token_matches t c \<and> v \<in> glob_language p})"

lemma glob_match_language: "glob_match p s \<longleftrightarrow> s \<in> glob_language p"
proof (induction p s rule: glob_match.induct)
  case (3 t p c s)
  show ?case
  proof (cases "t = AnySeq")
    case True
    have "(c # s \<in> glob_language p \<or> (\<exists>u v. s = u @ v \<and> v \<in> glob_language p))
        \<longleftrightarrow> (\<exists>u v. c # s = u @ v \<and> v \<in> glob_language p)"
      by (metis Cons_eq_append_conv append_Cons append_Nil)
    then show ?thesis using True 3 by auto
  next
    case False
    then show ?thesis using 3 by auto
  qed
qed auto

definition plain :: "string \<Rightarrow> bool" where
  "plain p \<longleftrightarrow> set p \<inter> {CHR ''*'', CHR ''?'', CHR ''[''} = {}"

lemma plain_pattern: "plain p \<Longrightarrow> fnmatch name p \<longleftrightarrow> name = p"
proof (induction p arbitrary: name)
  case Nil
  then show ?case by (simp add: fnmatch_def)
next
  case (Cons c p)
  then have "plain p" and "c \<noteq> CHR ''*''" "c \<noteq> CHR ''?''" "c \<noteq> CHR ''[''" by (auto simp: plain_def)
  then show ?case using Cons.IH by (cases name) (auto simp: fnmatch_def token_matches_def)
qed

lemma plain_prefix:
  assumes "plain p"
  shows "fnmatch name (p @ ''*'') \<longleftrightarrow> (\<exists>q. name = p @ q)"
  using assms
proof (induction p arbitrary: name)
  case Nil
  then show ?case by (simp add: fnmatch_def glob_match_language)
next
  case (Cons c p)
  then have "plain p" and "c \<noteq> CHR ''*''" "c \<noteq> CHR ''?''" "c \<noteq> CHR ''[''" by (auto simp: plain_def)
  then show ?case using Cons.IH by (cases name) (auto simp: fnmatch_def token_matches_def)
qed

lemma known_matches:
  "fnmatch ''research-7'' ''research-[0-9]''" "\<not> fnmatch ''research-x'' ''research-[0-9]''"
  "fnmatch ''bot-a'' ''*-[!b]''" "fnmatch ''[x'' ''[x''" "\<not> fnmatch ''ab'' ''a?b''" "fnmatch '']'' ''[]]''"
  by code_simp+

end
