(* ===== verification/Spending_Policy.thy ===== *)
theory Spending_Policy
  imports Glob "HOL-Library.Multiset"
begin

text \<open>
  Spending policies: \<open>sthrip/db/spending_policy_repo.py\<close> and
  \<open>sthrip/services/spending_policy_service.py\<close>, with the two Lua scripts the service runs inside Redis.

  Redis is a service: its commands are the record \<open>redis\<close> over an opaque state, and what the scripts
  rely on is the predicate \<open>redis_laws\<close>, the documented behaviour of the commands. Amounts are exact
  where the service converts them to floats.
\<close>

section \<open>Policies\<close>

record spending_policy =
  sp_max_per_tx :: "decimal option"
  sp_max_per_session :: "decimal option"
  sp_daily_limit :: "decimal option"
  sp_allowed_agents :: "string list option"
  sp_blocked_agents :: "string list option"
  sp_require_escrow_above :: "decimal option"
  sp_is_active :: bool

type_synonym policy_table = "(ident, spending_policy) table"

definition get_policy :: "ident \<Rightarrow> policy_table \<Rightarrow> spending_policy option" where
  "get_policy a t = row_of t a"

definition upsert_policy :: "ident \<Rightarrow> spending_policy \<Rightarrow> policy_table \<Rightarrow> policy_table" where
  "upsert_policy a p t =
     (case get_policy a t of
        Some existing \<Rightarrow> modify_row a (\<lambda>e. p\<lparr>sp_is_active := sp_is_active e\<rparr>) t
      | None \<Rightarrow> insert_row a (p\<lparr>sp_is_active := True\<rparr>) t)"

section \<open>Redis\<close>

text \<open>\<open>redis_at\<close> is the passage of time: the server drops keys whose time to live is over. The observers
  \<open>hgetall\<close>, \<open>redis_time\<close> and \<open>expiretime\<close> are the commands HGETALL, TIME and PEXPIRETIME.\<close>

record 'r redis =
  redis_at :: "moment \<Rightarrow> 'r \<Rightarrow> 'r"
  redis_time :: "'r \<Rightarrow> moment"
  expiretime :: "string \<Rightarrow> 'r \<Rightarrow> moment option"
  zremrangebyscore :: "string \<Rightarrow> moment \<Rightarrow> 'r \<Rightarrow> 'r"
  zrangebyscore :: "string \<Rightarrow> moment \<Rightarrow> 'r \<Rightarrow> string list"
  zadd :: "string \<Rightarrow> moment \<Rightarrow> string \<Rightarrow> 'r \<Rightarrow> 'r"
  hdel :: "string \<Rightarrow> string \<Rightarrow> 'r \<Rightarrow> 'r"
  hgetall :: "string \<Rightarrow> 'r \<Rightarrow> (string \<times> decimal) list"
  hset :: "string \<Rightarrow> string \<Rightarrow> decimal \<Rightarrow> 'r \<Rightarrow> 'r"
  expire_key :: "string \<Rightarrow> int \<Rightarrow> 'r \<Rightarrow> 'r"
  get_number :: "string \<Rightarrow> 'r \<Rightarrow> decimal option"
  incrbyfloat :: "string \<Rightarrow> decimal \<Rightarrow> 'r \<Rightarrow> 'r"

definition DAY_WINDOW :: int where
  "DAY_WINDOW = 86400"

definition daily_limit_script ::
  "'r redis \<Rightarrow> string \<Rightarrow> decimal \<Rightarrow> decimal \<Rightarrow> moment \<Rightarrow> string \<Rightarrow> 'r \<Rightarrow> (bool \<times> decimal) \<times> 'r"
where
  "daily_limit_script R key limit amount now tx_id r0 =
     (let amounts_key = key @ '':amounts'';
          r1 = zremrangebyscore R key (now - seconds DAY_WINDOW) r0;
          old_members = zrangebyscore R key (now - seconds DAY_WINDOW) r1;
          r2 = fold (\<lambda>m r. hdel R amounts_key m r) old_members r1;
          r3 = zremrangebyscore R key (now - seconds DAY_WINDOW) r2;
          day_total = sum_list (map snd (hgetall R amounts_key r3))
      in if day_total + amount > limit then ((False, day_total), r3)
         else ((True, day_total + amount),
               expire_key R amounts_key (DAY_WINDOW + 60)
                 (expire_key R key (DAY_WINDOW + 60)
                   (hset R amounts_key tx_id amount (zadd R key now tx_id r3)))))"

definition session_limit_script ::
  "'r redis \<Rightarrow> string \<Rightarrow> decimal \<Rightarrow> decimal \<Rightarrow> 'r \<Rightarrow> (bool \<times> decimal) \<times> 'r"
where
  "session_limit_script R key limit amount r =
     (let current = (case get_number R key r of None \<Rightarrow> 0 | Some x \<Rightarrow> x)
      in if current + amount > limit then ((False, current), r)
         else ((True, current + amount), expire_key R key 3600 (incrbyfloat R key amount r)))"

section \<open>The checks\<close>

datatype policy_violation = PolicyViolation string

definition check_max_per_tx :: "spending_policy \<Rightarrow> decimal \<Rightarrow> bool" where
  "check_max_per_tx p amount \<longleftrightarrow>
     \<not> (case sp_max_per_tx p of None \<Rightarrow> False | Some m \<Rightarrow> amount > m)"

definition check_allowed_agents :: "spending_policy \<Rightarrow> string \<Rightarrow> bool" where
  "check_allowed_agents p recipient_name \<longleftrightarrow>
     (case sp_allowed_agents p of
        None \<Rightarrow> True
      | Some patterns \<Rightarrow> patterns = [] \<or> list_ex (fnmatch recipient_name) patterns)"

definition check_blocked_agents :: "spending_policy \<Rightarrow> string \<Rightarrow> bool" where
  "check_blocked_agents p recipient_name \<longleftrightarrow>
     (case sp_blocked_agents p of
        None \<Rightarrow> True
      | Some patterns \<Rightarrow> \<not> list_ex (fnmatch recipient_name) patterns)"

definition daily_key :: "string \<Rightarrow> string" where
  "daily_key agent_id = ''spending:daily:'' @ agent_id"

definition session_key :: "string \<Rightarrow> string \<Rightarrow> string" where
  "session_key agent_id session_id = ''spending:session:'' @ agent_id @ '':'' @ session_id"

text \<open>The client of a Redis that is not there, or fails, skips the two tracked limits.\<close>

type_synonym 'r redis_client = "('r redis \<times> 'r) option"

definition check_daily_limit ::
  "moment \<Rightarrow> string \<Rightarrow> spending_policy \<Rightarrow> decimal \<Rightarrow> string \<Rightarrow> 'r redis_client \<Rightarrow> bool \<times> 'r redis_client"
where
  "check_daily_limit now agent_id p amount tx_id c =
     (case (sp_daily_limit p, c) of
        (Some limit, Some (R, r)) \<Rightarrow>
          (case daily_limit_script R (daily_key agent_id) limit amount now tx_id (redis_at R now r) of
             ((allowed, current_total), r') \<Rightarrow> (allowed, Some (R, r')))
      | _ \<Rightarrow> (True, c))"

definition check_session_limit ::
  "moment \<Rightarrow> string \<Rightarrow> spending_policy \<Rightarrow> decimal \<Rightarrow> string \<Rightarrow> 'r redis_client \<Rightarrow> bool \<times> 'r redis_client"
where
  "check_session_limit now agent_id p amount session_id c =
     (case (sp_max_per_session p, c) of
        (Some limit, Some (R, r)) \<Rightarrow>
          (case session_limit_script R (session_key agent_id session_id) limit amount (redis_at R now r) of
             ((allowed, current_total), r') \<Rightarrow> (allowed, Some (R, r')))
      | _ \<Rightarrow> (True, c))"

definition check_require_escrow_above :: "spending_policy \<Rightarrow> decimal \<Rightarrow> bool \<Rightarrow> bool" where
  "check_require_escrow_above p amount is_escrow \<longleftrightarrow>
     (case sp_require_escrow_above p of None \<Rightarrow> True | Some m \<Rightarrow> \<not> (amount > m \<and> \<not> is_escrow))"

definition validate_payment ::
  "moment \<Rightarrow> string \<Rightarrow> spending_policy \<Rightarrow> decimal \<Rightarrow> string \<Rightarrow> string \<Rightarrow> bool \<Rightarrow> string \<Rightarrow> 'r redis_client
    \<Rightarrow> (policy_violation + unit) \<times> 'r redis_client"
where
  "validate_payment now agent_id p amount recipient_name session_id is_escrow tx_id c =
     (if \<not> sp_is_active p then (Inr (), c)
      else if \<not> check_max_per_tx p amount then (Inl (PolicyViolation ''max_per_tx''), c)
      else if \<not> check_allowed_agents p recipient_name then (Inl (PolicyViolation ''allowed_agents''), c)
      else if \<not> check_blocked_agents p recipient_name then (Inl (PolicyViolation ''blocked_agents''), c)
      else case check_daily_limit now agent_id p amount tx_id c of
        (False, c1) \<Rightarrow> (Inl (PolicyViolation ''daily_limit''), c1)
      | (True, c1) \<Rightarrow>
          (case check_session_limit now agent_id p amount session_id c1 of
             (False, c2) \<Rightarrow> (Inl (PolicyViolation ''max_per_session''), c2)
           | (True, c2) \<Rightarrow>
               if check_require_escrow_above p amount is_escrow then (Inr (), c2)
               else (Inl (PolicyViolation ''require_escrow_above''), c2)))"

end
