(* ===== verification/Spending_Limits.thy ===== *)
theory Spending_Limits
  imports Spending_Policy
begin

text \<open>
  What the tracked daily limit of a spending policy enforces, over any Redis whose commands behave as
  documented: never more than the limit in any 24 hours, and, because the script empties the sorted set
  before it asks which members it has to forget, often much less.
\<close>

section \<open>The documented behaviour of the commands\<close>

definition redis_laws :: "'r redis \<Rightarrow> bool" where
  "redis_laws R \<longleftrightarrow>
     (\<forall>now r. redis_time R (redis_at R now r) = now)
     \<and> (\<forall>k m r. redis_time R (zremrangebyscore R k m r) = redis_time R r)
     \<and> (\<forall>k m f r. redis_time R (zadd R k m f r) = redis_time R r)
     \<and> (\<forall>k f v r. redis_time R (hset R k f v r) = redis_time R r)
     \<and> (\<forall>k n r. redis_time R (expire_key R k n r) = redis_time R r)
     \<and> (\<forall>k m r. zrangebyscore R k m (zremrangebyscore R k m r) = [])
     \<and> (\<forall>h k m r. h \<noteq> k \<longrightarrow> hgetall R h (zremrangebyscore R k m r) = hgetall R h r
          \<and> expiretime R h (zremrangebyscore R k m r) = expiretime R h r)
     \<and> (\<forall>h k m f r. h \<noteq> k \<longrightarrow> hgetall R h (zadd R k m f r) = hgetall R h r
          \<and> expiretime R h (zadd R k m f r) = expiretime R h r)
     \<and> (\<forall>h f v r. f \<notin> fst ` set (hgetall R h r)
          \<longrightarrow> mset (hgetall R h (hset R h f v r)) = add_mset (f, v) (mset (hgetall R h r)))
     \<and> (\<forall>h k n r. hgetall R h (expire_key R k n r) = hgetall R h r)
     \<and> (\<forall>k n r. hgetall R k r \<noteq> [] \<longrightarrow> expiretime R k (expire_key R k n r) = Some (redis_time R r + seconds n))
     \<and> (\<forall>h now r. hgetall R h (redis_at R now r) =
          (case expiretime R h r of Some d \<Rightarrow> if d \<le> now then [] else hgetall R h r | None \<Rightarrow> hgetall R h r))
     \<and> (\<forall>h now r. expiretime R h (redis_at R now r) =
          (case expiretime R h r of Some d \<Rightarrow> if d \<le> now then None else Some d | None \<Rightarrow> None))"

lemma redis_lawsD:
  assumes "redis_laws R"
  shows "redis_time R (redis_at R now r) = now"
    and "redis_time R (zremrangebyscore R k m r) = redis_time R r"
    and "redis_time R (zadd R k m f r) = redis_time R r"
    and "redis_time R (hset R k f v r) = redis_time R r"
    and "redis_time R (expire_key R k n r) = redis_time R r"
    and "zrangebyscore R k m (zremrangebyscore R k m r) = []"
    and "h \<noteq> k \<Longrightarrow> hgetall R h (zremrangebyscore R k m r) = hgetall R h r"
    and "h \<noteq> k \<Longrightarrow> expiretime R h (zremrangebyscore R k m r) = expiretime R h r"
    and "h \<noteq> k \<Longrightarrow> hgetall R h (zadd R k m f r) = hgetall R h r"
    and "f \<notin> fst ` set (hgetall R h r) \<Longrightarrow> mset (hgetall R h (hset R h f v r)) = add_mset (f, v) (mset (hgetall R h r))"
    and "hgetall R h (expire_key R k n r) = hgetall R h r"
    and "hgetall R k r \<noteq> [] \<Longrightarrow> expiretime R k (expire_key R k n r) = Some (redis_time R r + seconds n)"
    and "hgetall R h (redis_at R now r) =
          (case expiretime R h r of Some d \<Rightarrow> if d \<le> now then [] else hgetall R h r | None \<Rightarrow> hgetall R h r)"
    and "expiretime R h (redis_at R now r) =
          (case expiretime R h r of Some d \<Rightarrow> if d \<le> now then None else Some d | None \<Rightarrow> None)"
  using assms unfolding redis_laws_def by presburger+

definition held :: "'r redis \<Rightarrow> string \<Rightarrow> 'r \<Rightarrow> decimal" where
  "held R h r = sum_list (map snd (hgetall R h r))"

lemma held_mset: "held R h r = sum_mset (image_mset snd (mset (hgetall R h r)))"
  by (simp add: held_def sum_mset_sum_list flip: mset_map)

abbreviation amounts_of :: "string \<Rightarrow> string" where
  "amounts_of k \<equiv> k @ '':amounts''"

lemma daily_script_effect:
  assumes laws: "redis_laws R" and new: "tx \<notin> fst ` set (hgetall R (amounts_of k) r)"
    and run: "daily_limit_script R k limit amount now tx r = ((ok, s), r')"
  shows "ok \<longleftrightarrow> held R (amounts_of k) r + amount \<le> limit"
    and "\<not> ok \<Longrightarrow> hgetall R (amounts_of k) r' = hgetall R (amounts_of k) r
           \<and> expiretime R (amounts_of k) r' = expiretime R (amounts_of k) r"
    and "ok \<Longrightarrow> mset (hgetall R (amounts_of k) r') = add_mset (tx, amount) (mset (hgetall R (amounts_of k) r))
           \<and> expiretime R (amounts_of k) r' = Some (redis_time R r + seconds (DAY_WINDOW + 60))"
proof -
  let ?h = "amounts_of k" and ?m = "now - seconds DAY_WINDOW"
  let ?r3 = "zremrangebyscore R k ?m (zremrangebyscore R k ?m r)"
  let ?r4 = "hset R ?h tx amount (zadd R k now tx ?r3)"
  have ne: "?h \<noteq> k" by simp
  note law = redis_lawsD [OF laws]
  have gone: "zrangebyscore R k ?m (zremrangebyscore R k ?m r) = []" by (rule law)
  have r3: "hgetall R ?h ?r3 = hgetall R ?h r" "expiretime R ?h ?r3 = expiretime R ?h r" "redis_time R ?r3 = redis_time R r"
    by (simp_all add: law)
  have r4: "mset (hgetall R ?h ?r4) = add_mset (tx, amount) (mset (hgetall R ?h r))" "redis_time R ?r4 = redis_time R r"
  proof -
    have same: "hgetall R ?h (zadd R k now tx ?r3) = hgetall R ?h r"
      by (simp add: law)
    then show "mset (hgetall R ?h ?r4) = add_mset (tx, amount) (mset (hgetall R ?h r))"
      using law(10) [of tx ?h "zadd R k now tx ?r3" amount] new by simp
    show "redis_time R ?r4 = redis_time R r" by (simp add: law)
  qed
  let ?r5 = "expire_key R k (DAY_WINDOW + 60) ?r4"
  have r5: "hgetall R ?h ?r5 = hgetall R ?h ?r4" "redis_time R ?r5 = redis_time R r"
    using r4(2) by (simp_all add: law(11) law(5))
  have "hgetall R ?h ?r5 \<noteq> []" using r4(1) r5(1) by auto
  then have r6: "hgetall R ?h (expire_key R ?h (DAY_WINDOW + 60) ?r5) = hgetall R ?h ?r4"
      "expiretime R ?h (expire_key R ?h (DAY_WINDOW + 60) ?r5) = Some (redis_time R r + seconds (DAY_WINDOW + 60))"
    using r5 law(12) [of ?h ?r5 "DAY_WINDOW + 60"] by (simp_all add: law(11))
  have sc: "daily_limit_script R k limit amount now tx r =
      (if held R ?h r + amount > limit then ((False, held R ?h r), ?r3)
       else ((True, held R ?h r + amount), expire_key R ?h (DAY_WINDOW + 60) ?r5))"
    by (simp add: daily_limit_script_def gone r3(1) held_def Let_def)
  show "ok \<longleftrightarrow> held R ?h r + amount \<le> limit"
    using run unfolding sc by (auto split: if_splits)
  show "\<not> ok \<Longrightarrow> hgetall R ?h r' = hgetall R ?h r \<and> expiretime R ?h r' = expiretime R ?h r"
    using run r3 unfolding sc by (auto split: if_splits)
  show "ok \<Longrightarrow> mset (hgetall R ?h r') = add_mset (tx, amount) (mset (hgetall R ?h r))
      \<and> expiretime R ?h r' = Some (redis_time R r + seconds (DAY_WINDOW + 60))"
    using run r4(1) r6 unfolding sc by (auto split: if_splits)
qed

section \<open>Runs of tracked payments\<close>

text \<open>The payments the check lets through, of requests at given times with their tracking ids.\<close>

type_synonym tracked = "moment \<times> decimal \<times> string"

fun daily_run :: "string \<Rightarrow> spending_policy \<Rightarrow> tracked list \<Rightarrow> 'r redis_client \<Rightarrow> (moment \<times> decimal) list" where
  "daily_run agent_id p [] c = []"
| "daily_run agent_id p ((now, amount, tx) # q) c =
     (case check_daily_limit now agent_id p amount tx c of
        (ok, c') \<Rightarrow> (if ok then [(now, amount)] else []) @ daily_run agent_id p q c')"

definition day_of :: "moment \<Rightarrow> (moment \<times> decimal) list \<Rightarrow> decimal" where
  "day_of lo xs = sum_list (map (\<lambda>(t, x). if lo \<le> t \<and> t \<le> lo + seconds DAY_WINDOW then x else 0) xs)"

lemma day_of_simps [simp]:
  "day_of lo [] = 0"
  "day_of lo ((t, x) # xs) = (if lo \<le> t \<and> t \<le> lo + seconds DAY_WINDOW then x else 0) + day_of lo xs"
  by (simp_all add: day_of_def)

text \<open>The state between two requests: the amounts are not negative, stay under the limit, and the tracking
  ids of later requests are new.\<close>

definition tracked_ok :: "'r redis \<Rightarrow> string \<Rightarrow> decimal \<Rightarrow> tracked list \<Rightarrow> 'r \<Rightarrow> bool" where
  "tracked_ok R h limit q r \<longleftrightarrow>
     sorted (map fst q) \<and> distinct (map (snd \<circ> snd) q) \<and> (\<forall>(now, amount, tx) \<in> set q. 0 \<le> amount)
     \<and> (\<forall>x \<in> snd ` set (hgetall R h r). 0 \<le> x) \<and> held R h r \<le> limit
     \<and> (snd \<circ> snd) ` set q \<inter> fst ` set (hgetall R h r) = {}"

lemma held_nonneg: "(\<forall>x \<in> snd ` set (hgetall R h r). 0 \<le> x) \<Longrightarrow> 0 \<le> held R h r"
  by (auto simp: held_def intro!: sum_list_nonneg)

lemma mset_cong:
  assumes "mset (hgetall R h r') = add_mset (tx, x) (mset (hgetall R h r))"
  shows "held R h r' = held R h r + x" and "set (hgetall R h r') = insert (tx, x) (set (hgetall R h r))"
proof -
  show "held R h r' = held R h r + x" using assms by (simp add: held_mset)
  have "set_mset (mset (hgetall R h r')) = set_mset (add_mset (tx, x) (mset (hgetall R h r)))" using assms by simp
  then show "set (hgetall R h r') = insert (tx, x) (set (hgetall R h r))" by simp
qed

lemma check_daily_step:
  assumes laws: "redis_laws R" and limit: "sp_daily_limit p = Some limit"
    and ok: "tracked_ok R (amounts_of (daily_key a)) limit ((now, x, tx) # q) r" and "0 \<le> limit"
    and step: "check_daily_limit now a p x tx (Some (R, r)) = (res, c')"
  obtains r' where "c' = Some (R, r')" and "tracked_ok R (amounts_of (daily_key a)) limit q r'"
    and "res \<longleftrightarrow> held R (amounts_of (daily_key a)) (redis_at R now r) + x \<le> limit"
    and "res \<Longrightarrow> held R (amounts_of (daily_key a)) r' = held R (amounts_of (daily_key a)) (redis_at R now r) + x
           \<and> expiretime R (amounts_of (daily_key a)) r' = Some (now + seconds (DAY_WINDOW + 60))"
    and "\<not> res \<Longrightarrow> held R (amounts_of (daily_key a)) r' = held R (amounts_of (daily_key a)) (redis_at R now r)
           \<and> expiretime R (amounts_of (daily_key a)) r' = expiretime R (amounts_of (daily_key a)) (redis_at R now r)"
proof -
  let ?h = "amounts_of (daily_key a)" and ?r = "redis_at R now r"
  note law = redis_lawsD [OF laws]
  have "hgetall R ?h ?r = hgetall R ?h r \<or> hgetall R ?h ?r = []"
    unfolding law(13) [of ?h now r] by (simp split: option.split)
  then have sub: "set (hgetall R ?h ?r) \<subseteq> set (hgetall R ?h r)" and "held R ?h ?r = held R ?h r \<or> held R ?h ?r = 0"
    unfolding held_def by (elim disjE; simp)+
  moreover have "held R ?h r \<le> limit" using ok by (simp only: tracked_ok_def)
  ultimately have heldle: "held R ?h ?r \<le> limit" using \<open>0 \<le> limit\<close> by presburger
  have "tx \<notin> fst ` set (hgetall R ?h r)" using ok by (simp add: tracked_ok_def)
  then have new: "tx \<notin> fst ` set (hgetall R ?h ?r)" using sub by blast
  obtain s r' where run: "daily_limit_script R (daily_key a) limit x now tx ?r = ((res, s), r')" and c': "c' = Some (R, r')"
    using step limit by (auto simp: check_daily_limit_def split: prod.splits)
  note eff = daily_script_effect [OF laws new run]
  have q: "sorted (map fst q)" "distinct (map (snd \<circ> snd) q)" "\<forall>(now, amount, tx) \<in> set q. 0 \<le> amount" "0 \<le> x"
      "tx \<notin> (snd \<circ> snd) ` set q" "\<forall>x \<in> snd ` set (hgetall R ?h ?r). 0 \<le> x"
    using ok sub by (auto simp: tracked_ok_def)
  have "(snd \<circ> snd) ` set q \<inter> fst ` set (hgetall R ?h r) = {}" using ok by (auto simp: tracked_ok_def)
  then have fresh: "(snd \<circ> snd) ` set q \<inter> fst ` set (hgetall R ?h ?r) = {}" using image_mono [OF sub, of fst] by blast
  have yes: "held R ?h r' = held R ?h ?r + x \<and> set (hgetall R ?h r') = insert (tx, x) (set (hgetall R ?h ?r))" if res
    by (intro conjI mset_cong [OF conjunct1 [OF eff(3) [OF that]]])
  have no: "\<not> res \<Longrightarrow> held R ?h r' = held R ?h ?r \<and> set (hgetall R ?h r') = set (hgetall R ?h ?r)"
    using eff(2) by (simp add: held_def)
  have keep: "tracked_ok R ?h limit q r'"
  proof (cases res)
    case True
    then show ?thesis using yes q fresh eff(1) by (auto simp: tracked_ok_def)
  next
    case False
    then show ?thesis using no q fresh heldle by (auto simp: tracked_ok_def)
  qed
  show ?thesis
    using that [OF c' keep eff(1)] yes no eff(2,3) by (simp add: law(1))
qed

section \<open>Any 24 hours\<close>

text \<open>What the tracker still holds against the payments of a window that starts at \<open>lo\<close>.\<close>

definition carry :: "'r redis \<Rightarrow> string \<Rightarrow> moment \<Rightarrow> 'r \<Rightarrow> decimal" where
  "carry R h lo r =
     (case expiretime R h r of
        None \<Rightarrow> held R h r
      | Some d \<Rightarrow> if d < lo + seconds (DAY_WINDOW + 60) then 0 else held R h r)"

lemma held_at:
  "redis_laws R \<Longrightarrow> held R h (redis_at R now r) =
     (case expiretime R h r of Some d \<Rightarrow> if d \<le> now then 0 else held R h r | None \<Rightarrow> held R h r)"
  by (simp add: held_def redis_lawsD(13) split: option.split)

lemma carry_at:
  assumes "redis_laws R" and "now \<le> lo + seconds DAY_WINDOW" and "0 \<le> held R h r"
  shows "carry R h lo (redis_at R now r) = carry R h lo r" and "carry R h lo r \<le> held R h (redis_at R now r)"
proof -
  have "seconds DAY_WINDOW < seconds (DAY_WINDOW + 60)" by (simp add: seconds_def microsecond_per_second_def)
  then show "carry R h lo (redis_at R now r) = carry R h lo r" "carry R h lo r \<le> held R h (redis_at R now r)"
    using assms(2,3) by (auto simp: carry_def held_at [OF assms(1)] redis_lawsD(14) [OF assms(1)] split: option.split)
qed

lemma daily_run_times: "x \<in> set (daily_run a p q c) \<Longrightarrow> fst x \<in> fst ` set q"
  by (induction a p q c rule: daily_run.induct) (auto split: prod.splits if_splits)

lemma day_of_late: "\<forall>x \<in> set xs. lo + seconds DAY_WINDOW < fst x \<Longrightarrow> day_of lo xs = 0"
  by (induction xs) auto

lemma held_ok: "tracked_ok R h limit q r \<Longrightarrow> 0 \<le> held R h r \<and> held R h r \<le> limit"
  using held_nonneg by (auto simp: tracked_ok_def)

lemma carry_le: "0 \<le> held R h r \<Longrightarrow> carry R h lo r \<le> held R h r"
  by (simp add: carry_def split: option.split)

lemma window_and_carry:
  assumes laws: "redis_laws R" and limit: "sp_daily_limit p = Some limit" "0 \<le> limit"
  shows "tracked_ok R (amounts_of (daily_key a)) limit q r \<Longrightarrow> \<forall>x \<in> set q. lo \<le> fst x \<Longrightarrow>
    day_of lo (daily_run a p q (Some (R, r))) + carry R (amounts_of (daily_key a)) lo r \<le> limit"
proof (induction q arbitrary: r)
  case Nil
  let ?h = "amounts_of (daily_key a)"
  have "0 \<le> held R ?h r" "held R ?h r \<le> limit" using held_ok [OF Nil(1)] by blast+
  then show ?case using carry_le [of R ?h r lo] by simp
next
  case (Cons t q)
  let ?h = "amounts_of (daily_key a)"
  obtain now x tx where t: "t = (now, x, tx)" by (cases t) auto
  obtain res c' where step: "check_daily_limit now a p x tx (Some (R, r)) = (res, c')" by fastforce
  from check_daily_step [OF laws limit(1) Cons.prems(1) [unfolded t] limit(2) step]
  obtain r' where c': "c' = Some (R, r')" and ok: "tracked_ok R ?h limit q r'"
    and yes: "res \<Longrightarrow> held R ?h r' = held R ?h (redis_at R now r) + x
           \<and> expiretime R ?h r' = Some (now + seconds (DAY_WINDOW + 60))"
    and no: "\<not> res \<Longrightarrow> held R ?h r' = held R ?h (redis_at R now r)
           \<and> expiretime R ?h r' = expiretime R ?h (redis_at R now r)" by blast
  have held: "0 \<le> held R ?h r" "held R ?h r \<le> limit" using held_ok [OF Cons.prems(1)] by blast+
  have later: "\<forall>y \<in> set q. now \<le> fst y" "lo \<le> now" "\<forall>y \<in> set q. lo \<le> fst y"
    using Cons.prems by (auto simp: tracked_ok_def t)
  show ?case
  proof (cases "now \<le> lo + seconds DAY_WINDOW")
    case True
    note near = True and at = carry_at [OF laws True held(1)]
    have IH: "day_of lo (daily_run a p q (Some (R, r'))) + carry R ?h lo r' \<le> limit"
      by (rule Cons.IH [OF ok later(3)])
    show ?thesis
    proof (cases res)
      case True
      then have "carry R ?h lo r' = held R ?h (redis_at R now r) + x" using yes later(2) by (simp add: carry_def)
      then show ?thesis using IH at(2) True near later(2) by (simp add: t step c')
    next
      case False
      have "carry R ?h lo r' = carry R ?h lo (redis_at R now r)"
        unfolding carry_def conjunct1 [OF no [OF False]] conjunct2 [OF no [OF False]] ..
      with False show ?thesis using IH at(1) by (simp add: t step c')
    qed
  next
    case False
    have "\<forall>y \<in> set (daily_run a p (t # q) (Some (R, r))). now \<le> fst y"
      using daily_run_times [of _ a p "t # q"] later(1) by (fastforce simp: t)
    then have "day_of lo (daily_run a p (t # q) (Some (R, r))) = 0" using False by (intro day_of_late) fastforce
    then show ?thesis using held carry_le [of R ?h r lo] by simp
  qed
qed

lemma any_day:
  assumes laws: "redis_laws R" and limit: "sp_daily_limit p = Some limit" "0 \<le> limit"
  shows "tracked_ok R (amounts_of (daily_key a)) limit q r \<Longrightarrow> day_of lo (daily_run a p q (Some (R, r))) \<le> limit"
proof (induction q arbitrary: r)
  case Nil
  then show ?case using limit(2) by simp
next
  case (Cons t q)
  let ?h = "amounts_of (daily_key a)"
  obtain now x tx where t: "t = (now, x, tx)" by (cases t) auto
  show ?case
  proof (cases "now < lo")
    case True
    obtain res c' where step: "check_daily_limit now a p x tx (Some (R, r)) = (res, c')" by fastforce
    from check_daily_step [OF laws limit(1) Cons.prems [unfolded t] limit(2) step]
    obtain r' where c': "c' = Some (R, r')" and ok: "tracked_ok R ?h limit q r'" by blast
    then show ?thesis using Cons.IH [OF ok] True by (simp add: t step)
  next
    case False
    then have "\<forall>y \<in> set (t # q). lo \<le> fst y" using Cons.prems by (auto simp: t tracked_ok_def)
    from window_and_carry [OF laws limit Cons.prems this]
    have "day_of lo (daily_run a p (t # q) (Some (R, r))) + carry R ?h lo r \<le> limit" .
    moreover have "0 \<le> carry R ?h lo r"
      using held_ok [OF Cons.prems] by (auto simp: carry_def split: option.split)
    ultimately show ?thesis by simp
  qed
qed

section \<open>Nothing is ever forgotten\<close>

text \<open>Requests less than the keys' time to live apart, the first before \<open>dl\<close>.\<close>

fun steady :: "moment \<Rightarrow> tracked list \<Rightarrow> bool" where
  "steady dl [] \<longleftrightarrow> True"
| "steady dl ((now, x, tx) # q) \<longleftrightarrow> now < dl \<and> steady (now + seconds (DAY_WINDOW + 60)) q"

fun asked :: "tracked list \<Rightarrow> decimal" where
  "asked [] = 0"
| "asked ((now, x, tx) # q) = x + asked q"

lemma steady_total:
  assumes laws: "redis_laws R" and limit: "sp_daily_limit p = Some limit" "0 \<le> limit"
  shows "tracked_ok R (amounts_of (daily_key a)) limit q r \<Longrightarrow>
    length (daily_run a p q (Some (R, r))) = length q \<Longrightarrow>
    (case expiretime R (amounts_of (daily_key a)) r of None \<Rightarrow> \<exists>dl. steady dl q | Some dl \<Rightarrow> steady dl q) \<Longrightarrow>
    held R (amounts_of (daily_key a)) r + asked q \<le> limit"
proof (induction q arbitrary: r)
  case Nil
  then show ?case using held_ok by fastforce
next
  case (Cons t q)
  let ?h = "amounts_of (daily_key a)"
  obtain now x tx where t: "t = (now, x, tx)" by (cases t) auto
  obtain res c' where step: "check_daily_limit now a p x tx (Some (R, r)) = (res, c')" by fastforce
  from check_daily_step [OF laws limit(1) Cons.prems(1) [unfolded t] limit(2) step]
  obtain r' where c': "c' = Some (R, r')" and ok: "tracked_ok R ?h limit q r'"
    and yes: "res \<Longrightarrow> held R ?h r' = held R ?h (redis_at R now r) + x
           \<and> expiretime R ?h r' = Some (now + seconds (DAY_WINDOW + 60))" by blast
  have short: "length (daily_run a p q c) \<le> length q" for c :: "'r redis_client"
  proof (induction a p q c rule: daily_run.induct)
    case (2 a p now amount tx q c)
    obtain ok c' where step: "check_daily_limit now a p amount tx c = (ok, c')" by fastforce
    then show ?case using 2 [OF step [symmetric]] by simp
  qed simp
  have res: "res" and all: "length (daily_run a p q (Some (R, r'))) = length q"
    using Cons.prems(2) short [of "Some (R, r')"] by (auto simp: t step c' split: if_splits)
  have alive: "held R ?h (redis_at R now r) = held R ?h r" and rest: "steady (now + seconds (DAY_WINDOW + 60)) q"
    using Cons.prems(3) by (auto simp: held_at [OF laws] t split: option.splits)
  have "held R ?h r' + asked q \<le> limit"
    using yes [OF res] rest by (intro Cons.IH [OF ok all]) simp
  then show ?case using yes [OF res] alive by (simp add: t)
qed

text \<open>A payment refused because it needs escrow has already been counted: that check comes last.\<close>

lemma refused_payment_counts:
  assumes laws: "redis_laws R" and limit: "sp_daily_limit p = Some limit" and session: "sp_max_per_session p = None"
    and new: "tx \<notin> fst ` set (hgetall R (amounts_of (daily_key a)) (redis_at R now r))"
    and refused: "validate_payment now a p x name sid esc tx (Some (R, r)) =
      (Inl (PolicyViolation ''require_escrow_above''), c')"
  shows "\<exists>r'. c' = Some (R, r') \<and> held R (amounts_of (daily_key a)) r'
    = held R (amounts_of (daily_key a)) (redis_at R now r) + x"
proof -
  obtain ok s r' where run: "daily_limit_script R (daily_key a) limit x now tx (redis_at R now r) = ((ok, s), r')"
    by (metis surj_pair)
  have checked: "check_daily_limit now a p x tx (Some (R, r)) = (ok, Some (R, r'))"
    by (simp add: check_daily_limit_def limit run)
  have yes: ok and c': "c' = Some (R, r')"
    using refused by (auto simp: validate_payment_def checked check_session_limit_def session split: if_splits bool.splits)
  show ?thesis using c' mset_cong(1) [OF conjunct1 [OF daily_script_effect(3) [OF laws new run yes]]] by blast
qed

section \<open>A concrete store\<close>

text \<open>A store on which the commands have their documented effect, for the witnesses.\<close>

record mem_store =
  mem_time :: moment
  mem_sets :: "string \<Rightarrow> (string \<times> moment) list"
  mem_hashes :: "string \<Rightarrow> (string \<times> decimal) list"
  mem_numbers :: "string \<Rightarrow> decimal option"
  mem_expiry :: "string \<Rightarrow> moment option"

definition mem_gone :: "moment \<Rightarrow> mem_store \<Rightarrow> string \<Rightarrow> bool" where
  "mem_gone now r k \<longleftrightarrow> (case mem_expiry r k of None \<Rightarrow> False | Some d \<Rightarrow> d \<le> now)"

definition mem_redis :: "mem_store redis" where
  "mem_redis =
     \<lparr>redis_at = (\<lambda>now r. \<lparr>mem_time = now,
          mem_sets = (\<lambda>k. if mem_gone now r k then [] else mem_sets r k),
          mem_hashes = (\<lambda>k. if mem_gone now r k then [] else mem_hashes r k),
          mem_numbers = (\<lambda>k. if mem_gone now r k then None else mem_numbers r k),
          mem_expiry = (\<lambda>k. if mem_gone now r k then None else mem_expiry r k)\<rparr>),
      redis_time = mem_time,
      expiretime = (\<lambda>k r. mem_expiry r k),
      zremrangebyscore = (\<lambda>k m r. r\<lparr>mem_sets := (mem_sets r)(k := filter (\<lambda>(f, s). m < s) (mem_sets r k))\<rparr>),
      zrangebyscore = (\<lambda>k m r. map fst (filter (\<lambda>(f, s). s \<le> m) (mem_sets r k))),
      zadd = (\<lambda>k m f r. r\<lparr>mem_sets := (mem_sets r)(k := (f, m) # filter (\<lambda>(g, s). g \<noteq> f) (mem_sets r k))\<rparr>),
      hdel = (\<lambda>k f r. r\<lparr>mem_hashes := (mem_hashes r)(k := filter (\<lambda>(g, v). g \<noteq> f) (mem_hashes r k))\<rparr>),
      hgetall = (\<lambda>k r. mem_hashes r k),
      hset = (\<lambda>k f v r. r\<lparr>mem_hashes := (mem_hashes r)(k := (f, v) # filter (\<lambda>(g, w). g \<noteq> f) (mem_hashes r k))\<rparr>),
      expire_key = (\<lambda>k n r. r\<lparr>mem_expiry := (mem_expiry r)(k := Some (mem_time r + seconds n))\<rparr>),
      get_number = (\<lambda>k r. mem_numbers r k),
      incrbyfloat = (\<lambda>k x r. r\<lparr>mem_numbers := (mem_numbers r)(k :=
          Some ((case mem_numbers r k of None \<Rightarrow> 0 | Some y \<Rightarrow> y) + x))\<rparr>)\<rparr>"

definition mem_empty :: mem_store where
  "mem_empty = \<lparr>mem_time = 0, mem_sets = (\<lambda>k. []), mem_hashes = (\<lambda>k. []), mem_numbers = (\<lambda>k. None),
     mem_expiry = (\<lambda>k. None)\<rparr>"

lemma filter_absent: "f \<notin> fst ` set xs \<Longrightarrow> filter (\<lambda>(g, w). g \<noteq> f) xs = xs"
  by (induction xs) auto

lemma mem_redis_laws: "redis_laws mem_redis"
  by (auto simp: redis_laws_def mem_redis_def mem_gone_def filter_absent filter_empty_conv split: option.split)

definition ten_a_day :: spending_policy where
  "ten_a_day = \<lparr>sp_max_per_tx = Some 8, sp_max_per_session = None, sp_daily_limit = Some 10,
     sp_allowed_agents = Some [''shop-*''], sp_blocked_agents = None, sp_require_escrow_above = None,
     sp_is_active = True\<rparr>"

section \<open>Properties\<close>

text \<open>C12. Safety: with a Redis whose commands behave as documented and tracking ids that are not reused, the
  payments a daily limit lets through never add up to more than the limit in any 24 hours, whatever the
  times of the requests and however often keys expire in between.\<close>

theorem daily_limit_holds:
  assumes "redis_laws R" and "sp_daily_limit p = Some limit" and "0 \<le> limit"
    and "hgetall R (amounts_of (daily_key a)) r = []"
    and "sorted (map fst q)" and "distinct (map (snd \<circ> snd) q)" and "\<forall>(now, amount, tx) \<in> set q. 0 \<le> amount"
  shows "day_of t (daily_run a p q (Some (R, r))) \<le> limit"
proof -
  have "tracked_ok R (amounts_of (daily_key a)) limit q r" using assms by (simp add: tracked_ok_def held_def)
  then show ?thesis using any_day [OF assms(1-3)] by blast
qed

definition shopping :: "tracked list" where
  "shopping = [(hours 1, 5, ''tx1''), (hours 24, 5, ''tx2''), (hours 47, 5, ''tx3'')]"

theorem daily_limit_holds_witness:
  "day_of (hours 24) (daily_run ''a'' ten_a_day shopping (Some (mem_redis, mem_empty))) \<le> 10"
  using daily_limit_holds [OF mem_redis_laws, of ten_a_day 10 "''a''" mem_empty shopping]
  by (simp add: ten_a_day_def mem_redis_def mem_empty_def shopping_def hours_def microsecond_per_second_def)

text \<open>The window does not roll: the script removes the members older than a day from the sorted set before
  it asks which members those are, so their amounts stay in the hash. As long as an agent pays at least once
  every 24 hours (and a minute), everything it has ever paid counts against its daily limit.\<close>

lemma daily_limit_never_rolls:
  assumes "redis_laws R" and "sp_daily_limit p = Some limit" and "0 \<le> limit"
    and "hgetall R (amounts_of (daily_key a)) r = []" and "expiretime R (amounts_of (daily_key a)) r = None"
    and "sorted (map fst q)" and "distinct (map (snd \<circ> snd) q)" and "\<forall>(now, amount, tx) \<in> set q. 0 \<le> amount"
    and "steady dl q" and "length (daily_run a p q (Some (R, r))) = length q"
  shows "asked q \<le> limit"
proof -
  have "tracked_ok R (amounts_of (daily_key a)) limit q r" using assms by (simp add: tracked_ok_def held_def)
  then show ?thesis using steady_total [OF assms(1-3) _ assms(10)] assms(4,5,9) by (auto simp: held_def)
qed

lemma daily_limit_never_rolls_witness:
  "length (daily_run ''a'' ten_a_day shopping (Some (mem_redis, mem_empty))) \<noteq> 3"
proof
  assume "length (daily_run ''a'' ten_a_day shopping (Some (mem_redis, mem_empty))) = 3"
  moreover have "steady (hours 2) shopping" by code_simp
  ultimately have "asked shopping \<le> (10::rat)"
    using daily_limit_never_rolls [OF mem_redis_laws, of ten_a_day 10 "''a''" mem_empty shopping "hours 2"]
    by (simp add: ten_a_day_def mem_redis_def mem_empty_def shopping_def hours_def microsecond_per_second_def)
  then show False by (simp add: shopping_def)
qed

end
