(* ===== verification/Hub_Payment.thy ===== *)
theory Hub_Payment
  imports Balance_Routes Spending_Policy Hub_Routes
begin

text \<open>
  The payment endpoint, \<open>POST /v2/payments/hub-routing\<close> (\<open>api/routers/payments.py\<close>), with the dispatcher
  between the local handler and the payment service in the trusted execution environment
  (\<open>sthrip/services/payment_dispatch.py\<close>, \<open>sthrip/services/payment_tee_client.py\<close>). It puts together
  the idempotency store, the spending policy, the fee schedule, the hub route and the commission-bearing
  transfer.

  The remote service (\<open>gcp/payment_tee_deploy/payment_service.py\<close>) writes to the same database in a transaction
  of its own, which is committed before its reply travels back; what the connection does at a moment is the
  parameter \<open>pe_link\<close>. So a step that may call it returns, besides the result of the session it runs in, the
  database as the service left it, which is what remains when that session rolls back. Hashing, random tokens
  and the conversion of decimals to and from text are parameters as well.
\<close>

section \<open>Environment and requests\<close>

text \<open>The request never arrives, it is served and the reply is lost, or both arrive.\<close>

datatype tee_link = LinkDown | ReplyLost | LinkUp

record pay_env =
  pe_route :: route_env
  pe_dialect :: string
  pe_digest :: "ident \<Rightarrow> ident \<Rightarrow> decimal \<Rightarrow> string \<Rightarrow> string"
  pe_token_hex :: string
  pe_decimal_of :: "string \<Rightarrow> decimal option"
  pe_tee_enabled :: bool
  pe_link :: "moment \<Rightarrow> tee_link"
  pe_proxy_token :: "string option"
  pe_service_token :: "string option"

record hub_payment_request =
  hp_to_agent_name :: string
  hp_amount :: amount_arg
  hp_memo :: "string option"
  hp_urgency :: string

text \<open>The agent the request is authenticated as: its id and the tier it had then.\<close>

record sender =
  sn_id :: ident
  sn_tier :: agent_tier

definition json_text :: "string option \<Rightarrow> json" where
  "json_text s = (case s of None \<Rightarrow> JNull | Some x \<Rightarrow> JStr x)"

definition payment_hash :: "pay_env \<Rightarrow> hub_payment_request \<Rightarrow> string" where
  "payment_hash env req =
     env_sha (pe_route env) (dumps (JObj [(''to_agent_name'', JStr (hp_to_agent_name req)),
       (''amount'', JStr (snd (hp_amount req))), (''memo'', json_text (hp_memo req)),
       (''urgency'', JStr (hp_urgency req))]))"

text \<open>Sequencing of steps that raise HTTP errors as well as Python exceptions.\<close>

definition bind_route :: "(route_error + 'a) \<Rightarrow> ('a \<Rightarrow> route_error + 'b) \<Rightarrow> route_error + 'b" where
  "bind_route r f = (case r of Inl e \<Rightarrow> Inl e | Inr x \<Rightarrow> f x)"

definition lift_route :: "'a outcome \<Rightarrow> route_error + 'a" where
  "lift_route r = (case r of Inl e \<Rightarrow> Inl (Crash e) | Inr x \<Rightarrow> Inr x)"

lemma bind_route_simps [simp]: "bind_route (Inl e) f = Inl e" "bind_route (Inr x) f = f x"
  by (simp_all add: bind_route_def)

lemma lift_route_simps [simp]: "lift_route (Inl e) = Inl (Crash e)" "lift_route (Inr x) = Inr x"
  by (simp_all add: lift_route_def)

lemma bind_route_InrE:
  assumes "bind_route r f = Inr y"
  obtains x where "r = Inr x" and "f x = Inr y"
  using assms by (cases r) auto

section \<open>The recipient\<close>

definition validate_recipient_in_session :: "string \<Rightarrow> db \<Rightarrow> route_error + (ident \<times> agent)" where
  "validate_recipient_in_session to_agent_name d =
     (case first_row (\<lambda>g. ag_name g = to_agent_name) (agents d) of
        None \<Rightarrow> Inl (Http (HTTPException 404 ''Recipient agent not found''))
      | Some (k, g) \<Rightarrow>
          if \<not> ag_is_active g then Inl (Http (HTTPException 400 ''Recipient agent is not active''))
          else if (case ag_xmr_address g of None \<Rightarrow> True | Some x \<Rightarrow> x = '''')
          then Inl (Http (HTTPException 400 ''Recipient has no XMR address configured''))
          else Inr (k, g))"

definition check_not_self_payment :: "ident \<Rightarrow> ident \<Rightarrow> route_error + unit" where
  "check_not_self_payment sender_id recipient_id =
     (if uuid_text sender_id = uuid_text recipient_id
      then Inl (Http (HTTPException 400 ''Cannot send payment to yourself'')) else Inr ())"

record recipient_profile =
  rp_id :: ident
  rp_agent_name :: string
  rp_xmr_address :: "string option"
  rp_trust_score :: int

definition build_recipient_profile :: "ident \<Rightarrow> agent \<Rightarrow> db \<Rightarrow> recipient_profile" where
  "build_recipient_profile k g d =
     \<lparr>rp_id = k, rp_agent_name = ag_name g, rp_xmr_address = ag_xmr_address g,
      rp_trust_score = (case row_of (reputations d) k of None \<Rightarrow> 0 | Some r \<Rightarrow> rep_trust_score r)\<rparr>"

section \<open>The local handler\<close>

text \<open>The dictionary a dispatcher returns: the payment id, the duplicate mark, and the whole of it as JSON.\<close>

record route_dict =
  rt_payment_id :: string
  rt_duplicate :: bool
  rt_body :: json

definition fee_json :: "pay_env \<Rightarrow> hub_fee_breakdown \<Rightarrow> json" where
  "fee_json env f =
     (let n = (\<lambda>x. JStr (env_decimal_text (pe_route env) x)) in
      JObj [(''base_amount'', n (hf_base_amount f)), (''fee_amount'', n (hf_fee_amount f)),
            (''fee_percent'', n (hf_fee_percent f)), (''tier_discount'', JStr (hf_tier_discount f)),
            (''urgency'', JStr (hf_urgency f)), (''total_deduction'', n (hf_total_deduction f)),
            (''recipient_receives'', n (hf_recipient_receives f))])"

definition route_body :: "pay_env \<Rightarrow> moment \<Rightarrow> ident \<Rightarrow> ident \<Rightarrow> hub_route_result \<Rightarrow> db \<Rightarrow> json" where
  "route_body env now from_agent to_agent r d =
     (let created = (case row_of (hub_routes d) (rr_route_id r) of None \<Rightarrow> now | Some h \<Rightarrow> hr_created_at h) in
      JObj ([(''route_id'', JStr (uuid_text (rr_route_id r))), (''payment_id'', JStr (rr_payment_id r)),
             (''from_agent_id'', JStr (uuid_text from_agent)), (''to_agent_id'', JStr (uuid_text to_agent)),
             (''amount'', JStr (env_decimal_text (pe_route env) (rr_amount r))), (''token'', JStr (rr_token r)),
             (''fee'', fee_json env (rr_fee r)), (''status'', JStr (hub_route_status_value (rr_status r))),
             (''created_at'', JStr (time_text created))]
            @ (if rr_duplicate r then [(''duplicate'', JBool True)] else [])))"

text \<open>\<open>int(Decimal)\<close> truncates towards zero.\<close>

definition int_of_decimal :: "decimal \<Rightarrow> int" where
  "int_of_decimal x = (if x < 0 then - \<lfloor>- x\<rfloor> else \<lfloor>x\<rfloor>)"

definition confirm_route_row :: "moment \<Rightarrow> string \<Rightarrow> decimal \<Rightarrow> db \<Rightarrow> db" where
  "confirm_route_row now pid fee d =
     (case first_row (\<lambda>r. hr_payment_id r = pid) (hub_routes d) of
        None \<Rightarrow> d
      | Some (rid, r) \<Rightarrow>
          if hr_status r = RoutePending
          then d\<lparr>hub_routes := modify_row rid (\<lambda>r. r\<lparr>hr_status := RouteConfirmed, hr_confirmed_at := Some now,
                  hr_fee_amount := fee, hr_fee_collected := True, hr_fee_collected_at := Some now\<rparr>) (hub_routes d)\<rparr>
          else d)"

definition execute_hub_transfer ::
  "pay_env \<Rightarrow> moment \<Rightarrow> tier_cache \<Rightarrow> sender \<Rightarrow> recipient_profile \<Rightarrow> decimal \<Rightarrow> string \<Rightarrow> string option
    \<Rightarrow> hub_fee_breakdown \<Rightarrow> db \<Rightarrow> route_error + (db \<times> route_dict \<times> hub_fee_breakdown)"
where
  "execute_hub_transfer env now cache s rcp amount urgency key fee_info d =
     (let pid = hub_payment_id (pe_digest env) (pe_token_hex env) (sn_id s) (rp_id rcp) amount key
      in bind_route (lift_route (create_hub_route now pid (sn_id s) (rp_id rcp) amount ''XMR''
             (tier_value (sn_tier s)) urgency d)) (\<lambda>(d1, r).
           let route = \<lparr>rt_payment_id = rr_payment_id r, rt_duplicate = rr_duplicate r,
                        rt_body = route_body env now (sn_id s) (rp_id rcp) r d1\<rparr>
           in if rr_duplicate r then Inr (d1, route, fee_info)
              else let amount_piconero = int_of_decimal (amount * PICO)
                in case create_with_commission (pe_dialect env) now cache (rr_payment_id r) ''hub'' (sn_id s)
                     (rp_id rcp) amount_piconero ''XMR'' PtHubRouting TxConfirmed key d1 of
                  Inl e \<Rightarrow> Inl (if e = ValueError ''Insufficient balance''
                              then Http (HTTPException 400 ''Insufficient balance'') else Crash e)
                | Inr (d2, cache', tx_id) \<Rightarrow>
                    let fee = (case row_of (transactions d2) tx_id of None \<Rightarrow> 0 | Some t \<Rightarrow> tx_fee t);
                        info = fee_info\<lparr>hf_fee_amount := fee,
                          hf_fee_percent := (if sn_tier s = TierFree then 3 / 1000 else 1 / 1000),
                          hf_total_deduction := amount + fee\<rparr>
                    in Inr (confirm_route_row now (rr_payment_id r) fee d2, route, info)))"

section \<open>The remote service\<close>

text \<open>The envelope the proxy builds; the idempotency key travels beside it.\<close>

record tee_envelope =
  te_from_agent_id :: ident
  te_to_agent_id :: ident
  te_to_agent_name :: string
  te_to_xmr_address :: "string option"
  te_amount :: string
  te_urgency :: string
  te_memo :: "string option"

datatype tee_reply = TeeNoReply | TeeReply int "json option"

definition detail_reply :: "int \<Rightarrow> string \<Rightarrow> tee_reply" where
  "detail_reply status detail = TeeReply status (Some (JObj [(''detail'', JStr detail)]))"

text \<open>The validation of the model \<open>HubPaymentEnvelope\<close>: the amount of an envelope that passes.\<close>

definition validate_envelope :: "pay_env \<Rightarrow> tee_envelope \<Rightarrow> string \<Rightarrow> decimal option" where
  "validate_envelope env e key =
     (case pe_decimal_of env (te_amount e) of
        None \<Rightarrow> None
      | Some amount \<Rightarrow>
          if 1 \<le> length (te_to_agent_name e) \<and> length (te_to_agent_name e) \<le> 128
             \<and> (case te_to_xmr_address e of None \<Rightarrow> False | Some x \<Rightarrow> 1 \<le> length x \<and> length x \<le> 128)
             \<and> 0 < amount \<and> te_urgency e \<in> {''low'', ''normal'', ''high''}
             \<and> (case te_memo e of None \<Rightarrow> True | Some m \<Rightarrow> length m \<le> 512)
             \<and> 8 \<le> length key \<and> length key \<le> 255
          then Some amount else None)"

text \<open>The header \<open>X-Proxy-Token\<close>, sent when the proxy has one and compared when the service has one.\<close>

definition proxy_token_ok :: "pay_env \<Rightarrow> bool" where
  "proxy_token_ok env \<longleftrightarrow>
     (case pe_service_token env of None \<Rightarrow> True | Some t \<Rightarrow> t = '''' \<or> pe_proxy_token env = Some t)"

text \<open>The endpoint of the service. The reply is made before the session is committed; outside the application
  the tier is read from the database.\<close>

definition hub_routing :: "pay_env \<Rightarrow> moment \<Rightarrow> tee_envelope \<Rightarrow> string \<Rightarrow> db \<Rightarrow> db \<times> tee_reply" where
  "hub_routing env now e key d =
     (case validate_envelope env e key of
        None \<Rightarrow> (d, detail_reply 422 ''validation error'')
      | Some amount \<Rightarrow>
          if \<not> proxy_token_ok env then (d, detail_reply 401 ''invalid proxy token'')
          else let amount_piconero = int_of_decimal (amount * PICO) in
            if amount_piconero \<le> 0 then (d, detail_reply 400 ''amount must be > 0'')
            else if (case row_of (agents d) (te_from_agent_id e) of None \<Rightarrow> True | Some g \<Rightarrow> \<not> ag_is_active g)
            then (d, detail_reply 404 ''sender not found'')
            else case create_with_commission (pe_dialect env) now None (''hub:'' @ key) ''hub'' (te_from_agent_id e)
                (te_to_agent_id e) amount_piconero ''XMR'' PtHubRouting TxConfirmed (Some key) d of
              Inl err \<Rightarrow> (d, if err = ValueError ''Insufficient balance'' then detail_reply 400 ''Insufficient balance''
                           else detail_reply 500 ''internal error'')
            | Inr (d', cache, tx_id) \<Rightarrow>
                let n = (\<lambda>x. JStr (env_decimal_text (pe_route env) x));
                    fee = (case row_of (transactions d') tx_id of None \<Rightarrow> 0 | Some t \<Rightarrow> tx_fee t);
                    hash = (case row_of (transactions d') tx_id of None \<Rightarrow> '''' | Some t \<Rightarrow> tx_hash t);
                    rate_bps = rate_bps_for_tier (fst (get_tier (te_from_agent_id e) d' None))
                in (d', TeeReply 200 (Some (JObj [(''payment_id'', JStr hash), (''status'', JStr ''confirmed''),
                     (''amount'', JStr (te_amount e)), (''fee'', n fee), (''fee_percent'', n (of_int rate_bps / 10000))]))))"

section \<open>The client of the remote service\<close>

text \<open>A call, with the database the service leaves.\<close>

definition call_service :: "pay_env \<Rightarrow> moment \<Rightarrow> tee_envelope \<Rightarrow> string \<Rightarrow> db \<Rightarrow> db \<times> tee_reply" where
  "call_service env now e key d =
     (case pe_link env now of
        LinkDown \<Rightarrow> (d, TeeNoReply)
      | ReplyLost \<Rightarrow> (fst (hub_routing env now e key d), TeeNoReply)
      | LinkUp \<Rightarrow> hub_routing env now e key d)"

datatype tee_result =
    TeeUnreachable
  | TeeServerError
  | TeeUserError int string
  | TeeBody "(string \<times> json) list"
  | TeeNotADict

definition read_reply :: "tee_reply \<Rightarrow> tee_result" where
  "read_reply reply =
     (case reply of
        TeeNoReply \<Rightarrow> TeeUnreachable
      | TeeReply status body \<Rightarrow>
          if status \<ge> 500 then TeeServerError
          else (case body of
             None \<Rightarrow> TeeServerError
           | Some parsed \<Rightarrow>
               if 400 \<le> status
               then (case parsed of
                       JObj fs \<Rightarrow> TeeBody ((''_status_code'', JInt status) # filter (\<lambda>(k, v). k \<noteq> ''_status_code'') fs)
                     | JStr s \<Rightarrow> TeeUserError status s
                     | j \<Rightarrow> TeeUserError status (take 200 (dumps j)))
               else (case parsed of JObj fs \<Rightarrow> TeeBody fs | j \<Rightarrow> TeeNotADict)))"

definition tee_client :: "pay_env \<Rightarrow> moment \<Rightarrow> tee_envelope \<Rightarrow> string \<Rightarrow> db \<Rightarrow> db \<times> tee_result" where
  "tee_client env now envelope key d = apsnd read_reply (call_service env now envelope key d)"

definition build_envelope :: "sender \<Rightarrow> recipient_profile \<Rightarrow> amount_arg \<Rightarrow> hub_payment_request \<Rightarrow> tee_envelope" where
  "build_envelope s rcp amount req =
     \<lparr>te_from_agent_id = sn_id s, te_to_agent_id = rp_id rcp, te_to_agent_name = rp_agent_name rcp,
      te_to_xmr_address = rp_xmr_address rcp, te_amount = snd amount, te_urgency = hp_urgency req,
      te_memo = hp_memo req\<rparr>"

text \<open>\<open>Decimal(response.get(field, "0"))\<close>.\<close>

definition decimal_field :: "pay_env \<Rightarrow> string \<Rightarrow> (string \<times> json) list \<Rightarrow> decimal outcome" where
  "decimal_field env f body =
     (case map_of body f of
        None \<Rightarrow> Inr 0
      | Some (JStr t) \<Rightarrow> (case pe_decimal_of env t of None \<Rightarrow> Inl (ValueError ''InvalidOperation'') | Some x \<Rightarrow> Inr x)
      | Some (JInt i) \<Rightarrow> Inr (of_int i)
      | Some (JBool b) \<Rightarrow> Inr (if b then 1 else 0)
      | Some j \<Rightarrow> Inl (TypeError ''Decimal''))"

section \<open>The dispatcher\<close>

definition write_hub_route_after_tee ::
  "moment \<Rightarrow> string \<Rightarrow> ident \<Rightarrow> ident \<Rightarrow> decimal \<Rightarrow> decimal \<Rightarrow> decimal \<Rightarrow> string \<Rightarrow> db \<Rightarrow> db"
where
  "write_hub_route_after_tee now pid from_agent to_agent amount fee_amount fee_percent urgency d =
     (case first_row (\<lambda>r. hr_payment_id r = pid) (hub_routes d) of
        Some (rid, existing) \<Rightarrow> confirm_route_row now pid fee_amount d
      | None \<Rightarrow> d\<lparr>hub_routes := add_row
          \<lparr>hr_payment_id = pid, hr_from_agent_id = from_agent, hr_to_agent_id = to_agent, hr_amount = amount,
           hr_token = ''XMR'', hr_fee_percent = fee_percent, hr_fee_amount = fee_amount,
           hr_fee_collected = True, hr_fee_collected_at = Some now,
           hr_instant_confirmation = (urgency = ''urgent''), hr_status = RouteConfirmed,
           hr_settlement_tx_hash = None, hr_created_at = now, hr_confirmed_at = Some now,
           hr_settled_at = None\<rparr> (hub_routes d)\<rparr>)"

definition auto_key :: "pay_env \<Rightarrow> sender \<Rightarrow> recipient_profile \<Rightarrow> amount_arg \<Rightarrow> string \<Rightarrow> string" where
  "auto_key env s rcp amount urgency =
     ''auto_'' @ take 24 (env_sha (pe_route env) (uuid_text (sn_id s) @ '':'' @ uuid_text (rp_id rcp) @ '':''
        @ snd amount @ '':'' @ urgency))"

definition tee_accepted ::
  "pay_env \<Rightarrow> moment \<Rightarrow> sender \<Rightarrow> recipient_profile \<Rightarrow> decimal \<Rightarrow> string \<Rightarrow> hub_fee_breakdown
    \<Rightarrow> (string \<times> json) list \<Rightarrow> db \<Rightarrow> route_error + (db \<times> route_dict \<times> hub_fee_breakdown)"
where
  "tee_accepted env now s rcp amount urgency fee_info body d =
     (case map_of body ''payment_id'' of
        Some (JStr pid) \<Rightarrow>
          bind_route (lift_route (decimal_field env ''fee'' body)) (\<lambda>fee.
          bind_route (lift_route (decimal_field env ''fee_percent'' body)) (\<lambda>percent.
            Inr (write_hub_route_after_tee now pid (sn_id s) (rp_id rcp) amount fee percent urgency d,
                 \<lparr>rt_payment_id = pid, rt_duplicate = False, rt_body = JObj body\<rparr>,
                 fee_info\<lparr>hf_fee_amount := fee, hf_fee_percent := percent, hf_total_deduction := amount + fee\<rparr>)))
      | None \<Rightarrow> Inl (Crash (LookupError ''payment_id''))
      | Some j \<Rightarrow> Inl (Crash (TypeError ''payment_id'')))"

definition tee_key :: "pay_env \<Rightarrow> sender \<Rightarrow> recipient_profile \<Rightarrow> hub_payment_request \<Rightarrow> string option \<Rightarrow> string" where
  "tee_key env s rcp req idempotency_key =
     (case idempotency_key of
        None \<Rightarrow> auto_key env s rcp (hp_amount req) (hp_urgency req)
      | Some k \<Rightarrow> if k = '''' then auto_key env s rcp (hp_amount req) (hp_urgency req) else k)"

text \<open>What the dispatcher makes of the reply, on the database the service left.\<close>

definition tee_settle ::
  "pay_env \<Rightarrow> moment \<Rightarrow> tier_cache \<Rightarrow> sender \<Rightarrow> recipient_profile \<Rightarrow> hub_payment_request \<Rightarrow> string
    \<Rightarrow> hub_fee_breakdown \<Rightarrow> tee_result \<Rightarrow> db \<Rightarrow> route_error + (db \<times> route_dict \<times> hub_fee_breakdown)"
where
  "tee_settle env now cache s rcp req key fee_info reply d =
     (let amount = fst (hp_amount req);
          fallback = execute_hub_transfer env now cache s rcp amount (hp_urgency req) (Some key) fee_info d
      in case reply of
           TeeUnreachable \<Rightarrow> fallback
         | TeeServerError \<Rightarrow> fallback
         | TeeUserError status detail \<Rightarrow> Inl (Http (HTTPException status detail))
         | TeeNotADict \<Rightarrow> Inl (Crash (TypeError ''get''))
         | TeeBody body \<Rightarrow>
             (case map_of body ''_status_code'' of
                Some (JInt status) \<Rightarrow>
                  if 400 \<le> status \<and> status < 500
                  then Inl (Http (HTTPException status
                         (case map_of body ''detail'' of None \<Rightarrow> ''TEE rejected the request''
                            | Some (JStr m) \<Rightarrow> m | Some j \<Rightarrow> dumps j)))
                  else tee_accepted env now s rcp amount (hp_urgency req) fee_info body d
              | x \<Rightarrow> tee_accepted env now s rcp amount (hp_urgency req) fee_info body d))"

definition tee_dispatch ::
  "pay_env \<Rightarrow> moment \<Rightarrow> tier_cache \<Rightarrow> sender \<Rightarrow> recipient_profile \<Rightarrow> hub_payment_request \<Rightarrow> string option
    \<Rightarrow> hub_fee_breakdown \<Rightarrow> db \<Rightarrow> db \<times> (route_error + (db \<times> route_dict \<times> hub_fee_breakdown))"
where
  "tee_dispatch env now cache s rcp req idempotency_key fee_info d =
     (let key = tee_key env s rcp req idempotency_key;
          (d0, reply) = tee_client env now (build_envelope s rcp (hp_amount req) req) key d
      in (d0, tee_settle env now cache s rcp req key fee_info reply d0))"

definition dispatch_hub_routing ::
  "pay_env \<Rightarrow> moment \<Rightarrow> tier_cache \<Rightarrow> sender \<Rightarrow> recipient_profile \<Rightarrow> hub_payment_request \<Rightarrow> string option
    \<Rightarrow> hub_fee_breakdown \<Rightarrow> db \<Rightarrow> db \<times> (route_error + (db \<times> route_dict \<times> hub_fee_breakdown))"
where
  "dispatch_hub_routing env now cache s rcp req key fee_info d =
     (if pe_tee_enabled env then tee_dispatch env now cache s rcp req key fee_info d
      else (d, execute_hub_transfer env now cache s rcp (fst (hp_amount req)) (hp_urgency req) key fee_info d))"

section \<open>The endpoint\<close>

definition hub_payment_body ::
  "pay_env \<Rightarrow> moment \<Rightarrow> route_dict \<Rightarrow> recipient_profile \<Rightarrow> amount_arg \<Rightarrow> hub_fee_breakdown \<Rightarrow> json"
where
  "hub_payment_body env now route rcp amount info =
     (let n = (\<lambda>x. JStr (env_decimal_text (pe_route env) x)) in
      JObj [(''payment_id'', JStr (rt_payment_id route)), (''status'', JStr ''confirmed''),
            (''payment_type'', JStr ''hub_routing''),
            (''recipient'', JObj [(''agent_name'', JStr (rp_agent_name rcp)),
               (''address'', json_text (rp_xmr_address rcp)), (''trust_score'', JInt (rp_trust_score rcp))]),
            (''amount'', JStr (snd amount)), (''fee'', n (hf_fee_amount info)),
            (''fee_percent'', n (hf_fee_percent info)), (''total_deducted'', n (hf_total_deduction info)),
            (''confirmed_at'', JStr (time_text now @ ''+00:00''))])"

text \<open>The policy check of the request, on the Redis of the rate limiter.\<close>

definition enforce_policy ::
  "moment \<Rightarrow> policy_table \<Rightarrow> sender \<Rightarrow> hub_payment_request \<Rightarrow> string option \<Rightarrow> string \<Rightarrow> 'r redis_client
    \<Rightarrow> (route_error + unit) \<times> 'r redis_client"
where
  "enforce_policy now policies s req session_header tx_id c =
     (case get_policy (sn_id s) policies of
        None \<Rightarrow> (Inr (), c)
      | Some p \<Rightarrow>
          (case validate_payment now (uuid_text (sn_id s)) p (fst (hp_amount req)) (hp_to_agent_name req)
                 (case session_header of None \<Rightarrow> ''default'' | Some x \<Rightarrow> if x = '''' then ''default'' else x)
                 False tx_id c of
             (Inl (PolicyViolation f), c') \<Rightarrow>
               (Inl (Http (HTTPException 400 (''spending_policy_violation: '' @ f))), c')
           | (Inr u, c') \<Rightarrow> (Inr (), c')))"

text \<open>The checks of the session before the dispatcher.\<close>

definition prepare_payment ::
  "sender \<Rightarrow> hub_payment_request \<Rightarrow> db \<Rightarrow> route_error + (recipient_profile \<times> hub_fee_breakdown)"
where
  "prepare_payment s req d =
     bind_route (validate_recipient_in_session (hp_to_agent_name req) d) (\<lambda>(k, g).
     bind_route (check_not_self_payment (sn_id s) k) (\<lambda>_.
     bind_route (lift_route (calculate_hub_routing_fee (fst (hp_amount req)) (tier_value (sn_tier s)) (hp_urgency req))) (\<lambda>fee_info.
       Inr (build_recipient_profile k g d, fee_info))))"

text \<open>The session: the database the remote service left, and the result.\<close>

definition pay_in_session ::
  "pay_env \<Rightarrow> moment \<Rightarrow> sender \<Rightarrow> hub_payment_request \<Rightarrow> string option \<Rightarrow> db
    \<Rightarrow> db \<times> (route_error + (db \<times> route_dict \<times> recipient_profile \<times> hub_fee_breakdown))"
where
  "pay_in_session env now s req key d =
     (case prepare_payment s req d of
        Inl e \<Rightarrow> (d, Inl e)
      | Inr (rcp, fee_info) \<Rightarrow>
          (case dispatch_hub_routing env now begin_request s rcp req key fee_info d of
             (d0, Inl e) \<Rightarrow> (d0, Inl e)
           | (d0, Inr (d', route, info)) \<Rightarrow> (d0, Inr (d', route, rcp, info))))"

definition log_hub_payment :: "sender \<Rightarrow> db \<Rightarrow> db outcome" where
  "log_hub_payment s =
     log_event 1 [''agent_id'', ''request_method'', ''request_path'', ''details'']
       \<lparr>au_action = ''payment.hub_routing'', au_agent_id = Some (sn_id s), au_resource_type = None,
        au_resource_id = None\<rparr>"

text \<open>
  The response is returned, and the idempotency row written, in the session of the payment; a duplicate
  returns without either. An error rolls the session back, to the database the remote service left. The webhook
  is queued by a background task after the response.
\<close>

definition send_hub_routed_payment ::
  "pay_env \<Rightarrow> moment \<Rightarrow> policy_table \<Rightarrow> sender \<Rightarrow> hub_payment_request \<Rightarrow> string option \<Rightarrow> string option \<Rightarrow> string
    \<Rightarrow> 'r redis_client \<Rightarrow> route_db \<Rightarrow> idem_store \<Rightarrow> json route_result \<times> 'r redis_client"
where
  "send_hub_routed_payment env now policies s req key session_header tx_id c rd st =
     (let h = payment_hash env req; a = sn_id s; renv = pe_route env
      in case reserve_key renv now a ''hub-routing'' key h rd st of
           (Inl e, st1) \<Rightarrow> (fail renv a ''hub-routing'' key (Http e) rd st1, c)
         | (Inr (Some cached), st1) \<Rightarrow> ((Inr cached, rd, st1), c)
         | (Inr None, st1) \<Rightarrow>
             (case enforce_policy now policies s req session_header tx_id c of
                (Inl e, c1) \<Rightarrow> (fail renv a ''hub-routing'' key e rd st1, c1)
              | (Inr u, c1) \<Rightarrow>
                  (case pay_in_session env now s req key (rd_db rd) of
                     (d0, Inl e) \<Rightarrow> (fail renv a ''hub-routing'' key e (rd\<lparr>rd_db := d0\<rparr>) st1, c1)
                   | (d0, Inr (d, route, rcp, info)) \<Rightarrow>
                       if rt_duplicate route then ((Inr (rt_body route), rd\<lparr>rd_db := d\<rparr>, st1), c1)
                       else let body = hub_payment_body env now route rcp (hp_amount req) info;
                                (rd2, st2) = remember renv now a ''hub-routing'' key h 200 body (rd\<lparr>rd_db := d\<rparr>) st1
                            in (case and_then (log_hub_payment s (rd_db rd2))
                                       (queue_webhook 3 [] a ''payment.sent'') of
                                  Inl e \<Rightarrow> (fail renv a ''hub-routing'' key (Crash e) rd2 st2, c1)
                                | Inr d2 \<Rightarrow> ((Inr body, rd2\<lparr>rd_db := d2\<rparr>, st2), c1)))))"

section \<open>Lookup\<close>

definition get_payment :: "ident \<Rightarrow> string \<Rightarrow> db \<Rightarrow> http_error + (ident \<times> hub_route)" where
  "get_payment a payment_id d =
     (case first_row (\<lambda>r. hr_payment_id r = payment_id) (hub_routes d) of
        None \<Rightarrow> Inl (HTTPException 404 ''Payment not found'')
      | Some (rid, r) \<Rightarrow>
          if hr_from_agent_id r \<noteq> a \<and> hr_to_agent_id r \<noteq> a then Inl (HTTPException 404 ''Payment not found'')
          else Inr (rid, r))"

definition get_payment_history :: "ident \<Rightarrow> string option \<Rightarrow> nat \<Rightarrow> nat \<Rightarrow> db \<Rightarrow> (ident \<times> transaction) list \<times> nat" where
  "get_payment_history a direction page_size offset d =
     (list_by_agent a direction page_size offset d, count_by_agent a direction d)"

end
