(* ===== verification/Hub_Payment_Proofs.thy ===== *)
theory Hub_Payment_Proofs
  imports Hub_Payment Keys
begin

text \<open>
  What a hub payment does: all or nothing, the transfer with its commission and one confirmed route, and
  with an idempotency key at most once, as long as no reply of the remote service is lost; when one is, the
  local handler pays a second time. The remote service in turn knows a payment by its key alone, whoever sent
  it: a payment under a key somebody else has used is confirmed without being made.
\<close>

section \<open>The local handler\<close>

lemma confirm_route_frame:
  "balances (confirm_route_row now pid fee d) = balances d"
  "fee_collections (confirm_route_row now pid fee d) = fee_collections d"
  "monthly_stats (confirm_route_row now pid fee d) = monthly_stats d"
  "transactions (confirm_route_row now pid fee d) = transactions d"
  by (simp_all add: confirm_route_row_def split: option.split)

lemma create_hub_route_new:
  assumes "create_hub_route now pid a b x tok tier urg d = Inr (d1, r)" and "\<not> rr_duplicate r"
  obtains fee where "d1 = d\<lparr>hub_routes := add_row (new_hub_route now pid a b x tok urg fee) (hub_routes d)\<rparr>"
    and "rr_payment_id r = pid" and "\<forall>(k, v) \<in> set (hub_routes d). hr_payment_id v \<noteq> pid"
proof -
  obtain fee where fee: "calculate_hub_routing_fee x tier urg = Inr fee" using hub_fee_Inr by blast
  have none: "first_row (\<lambda>v. hr_payment_id v = pid) (hub_routes d) = None"
    using assms by (auto simp: create_hub_route_def fee split: option.splits)
  then have "\<forall>(k, v) \<in> set (hub_routes d). hr_payment_id v \<noteq> pid" by (simp add: first_row_None)
  then show ?thesis using assms none that by (auto simp: create_hub_route_def fee Let_def)
qed

lemma create_with_commission_routes:
  "create_with_commission dialect now cache hash network fr to n tok ptype status key d = Inr (d', cache', tx_id)
     \<Longrightarrow> hub_routes d' = hub_routes d"
  by (auto simp: create_with_commission_def and_then_Inr_iff insert_transaction_def Let_def
      split: if_splits option.splits prod.splits)

lemma create_hub_route_total: "\<exists>d1 r. create_hub_route now pid a b x tok tier urg d = Inr (d1, r)"
  by (auto simp: create_hub_route_def hub_fee_Inr Let_def split: option.split)

lemma find_append: "find P t = None \<Longrightarrow> find P (t @ u) = find P u"
  by (induction t) (auto split: if_splits)

lemma first_row_added:
  assumes "\<forall>(k, v) \<in> set t. \<not> P v" and "P v"
  shows "first_row P (add_row v t) = Some (new_id t, v)"
proof -
  have "find (\<lambda>(k, v). P v) t = None" using assms(1) by (auto simp: find_None_iff)
  then show ?thesis using assms(2) by (simp add: first_row_def add_row_def insert_row_def find_append)
qed

lemma first_row_added_modified:
  assumes "\<forall>(k, v) \<in> set t. \<not> P v" and "P (f v)"
  shows "first_row P (modify_row (new_id t) f (add_row v t)) = Some (new_id t, f v)"
proof -
  have "modify_row (new_id t) f (add_row v t) = t @ [(new_id t, f v)]"
    using row_of_new_id [of t] unfolding row_of_None_iff
    by (force simp: modify_row_def update_where_def add_row_def insert_row_def keys_of_def intro!: map_idI)
  moreover have "find (\<lambda>(k, v). P v) t = None" using assms(1) by (auto simp: find_None_iff)
  ultimately show ?thesis using assms(2) by (simp add: first_row_def find_append)
qed

text \<open>A payment that goes through, as the repositories see it.\<close>

lemma execute_parts:
  assumes "execute_hub_transfer env now cache s rcp x urg key info d = Inr (d', route, info')"
    and "\<not> rt_duplicate route"
  obtains d1 d2 tx_id cache' pid fee0
  where "pid = hub_payment_id (pe_digest env) (pe_token_hex env) (sn_id s) (rp_id rcp) x key"
    and "d1 = d\<lparr>hub_routes := add_row (new_hub_route now pid (sn_id s) (rp_id rcp) x ''XMR'' urg fee0) (hub_routes d)\<rparr>"
    and "\<forall>(k, v) \<in> set (hub_routes d). hr_payment_id v \<noteq> pid"
    and "create_with_commission (pe_dialect env) now cache pid ''hub'' (sn_id s) (rp_id rcp)
           (int_of_decimal (x * PICO)) ''XMR'' PtHubRouting TxConfirmed key d1 = Inr (d2, cache', tx_id)"
    and "d' = confirm_route_row now pid (hf_fee_amount info') d2" and "rt_payment_id route = pid"
    and "hf_fee_amount info' = (case row_of (transactions d2) tx_id of None \<Rightarrow> 0 | Some t \<Rightarrow> tx_fee t)"
    and "hf_total_deduction info' = x + hf_fee_amount info'"
proof -
  let ?pid = "hub_payment_id (pe_digest env) (pe_token_hex env) (sn_id s) (rp_id rcp) x key"
  obtain d1 r where route: "create_hub_route now ?pid (sn_id s) (rp_id rcp) x ''XMR'' (tier_value (sn_tier s)) urg d = Inr (d1, r)"
    using create_hub_route_total by blast
  have new: "\<not> rr_duplicate r"
    using assms by (auto simp: execute_hub_transfer_def route Let_def split: if_splits sum.splits)
  obtain fee0 where d1: "d1 = d\<lparr>hub_routes := add_row (new_hub_route now ?pid (sn_id s) (rp_id rcp) x ''XMR'' urg fee0) (hub_routes d)\<rparr>"
    and pid: "rr_payment_id r = ?pid" and fresh: "\<forall>(k, v) \<in> set (hub_routes d). hr_payment_id v \<noteq> ?pid"
    using create_hub_route_new [OF route new] by blast
  obtain d2 cache' tx_id where tx: "create_with_commission (pe_dialect env) now cache ?pid ''hub'' (sn_id s) (rp_id rcp)
           (int_of_decimal (x * PICO)) ''XMR'' PtHubRouting TxConfirmed key d1 = Inr (d2, cache', tx_id)"
    using assms(1) new by (auto simp: execute_hub_transfer_def route pid Let_def split: sum.splits)
  show ?thesis
    using assms(1) new by (intro that [OF refl d1 fresh tx]) (auto simp: execute_hub_transfer_def route pid tx Let_def)
qed

section \<open>The session\<close>

lemma prepare_parts:
  assumes "prepare_payment s req d = Inr (rcp, fee_info)"
  obtains g where "validate_recipient_in_session (hp_to_agent_name req) d = Inr (rp_id rcp, g)"
    and "rp_id rcp \<noteq> sn_id s" and "rcp = build_recipient_profile (rp_id rcp) g d"
proof -
  from assms obtain k g where v: "validate_recipient_in_session (hp_to_agent_name req) d = Inr (k, g)"
    by (auto simp: prepare_payment_def elim!: bind_route_InrE)
  have "check_not_self_payment (sn_id s) k = Inr ()" and rcp: "rcp = build_recipient_profile k g d"
    using assms by (auto simp: prepare_payment_def v elim!: bind_route_InrE)
  then have "k \<noteq> sn_id s" and "rp_id rcp = k" by (auto simp: check_not_self_payment_def build_recipient_profile_def)
  then show ?thesis using v rcp that by simp
qed

lemma session_parts:
  assumes "pay_in_session env now s req key d = (d0, Inr (d', route, rcp, info))"
  obtains g fee_info where "validate_recipient_in_session (hp_to_agent_name req) d = Inr (rp_id rcp, g)"
    and "rp_id rcp \<noteq> sn_id s" and "rcp = build_recipient_profile (rp_id rcp) g d"
    and "dispatch_hub_routing env now begin_request s rcp req key fee_info d = (d0, Inr (d', route, info))"
proof -
  from assms obtain fee_info where prep: "prepare_payment s req d = Inr (rcp, fee_info)"
    and disp: "dispatch_hub_routing env now begin_request s rcp req key fee_info d = (d0, Inr (d', route, info))"
    by (auto simp: pay_in_session_def split: sum.splits prod.splits)
  from prepare_parts [OF prep] obtain g where "validate_recipient_in_session (hp_to_agent_name req) d = Inr (rp_id rcp, g)"
    "rp_id rcp \<noteq> sn_id s" "rcp = build_recipient_profile (rp_id rcp) g d" by metis
  with disp that show ?thesis by blast
qed

lemma validated_recipient:
  "validate_recipient_in_session name d = Inr (k, g) \<Longrightarrow>
     (k, g) \<in> set (agents d) \<and> ag_name g = name \<and> ag_is_active g \<and> (\<exists>x. ag_xmr_address g = Some x \<and> x \<noteq> '''')"
  by (auto simp: validate_recipient_in_session_def dest: first_row_mem split: option.splits if_splits prod.splits)

lemma get_tier_agents:
  assumes "agents d1 = agents d"
  shows "get_tier a d1 c = get_tier a d c"
  unfolding get_tier_def assms ..

lemma get_tier_routes [simp]: "get_tier a (d\<lparr>hub_routes := t\<rparr>) c = get_tier a d c"
  by (rule get_tier_agents) simp

text \<open>The route of a payment after it went through.\<close>

definition settled_route :: "moment \<Rightarrow> sender \<Rightarrow> recipient_profile \<Rightarrow> decimal \<Rightarrow> decimal \<Rightarrow> hub_route \<Rightarrow> bool" where
  "settled_route now s rcp x fee r \<longleftrightarrow>
     hr_from_agent_id r = sn_id s \<and> hr_to_agent_id r = rp_id rcp \<and> hr_amount r = x \<and> hr_token r = ''XMR''
     \<and> hr_status r = RouteConfirmed \<and> hr_fee_collected r \<and> hr_fee_amount r = fee \<and> hr_confirmed_at r = Some now"

lemma execute_effect:
  assumes "execute_hub_transfer env now cache s rcp x urg key info d = Inr (d', route, info')"
    and "\<not> rt_duplicate route" and "table_ok (balances d)"
    and "\<forall>(k, t) \<in> set (transactions d). tx_hash t \<noteq> rt_payment_id route"
  obtains fee r where "compute_fee (int_of_decimal (x * PICO)) (fst (get_tier (sn_id s) d cache)) = Inr fee"
    and "(of_int (int_of_decimal (x * PICO)) + of_int fee) / PICO \<le> available_of (sn_id s) ''XMR'' (balances d)"
    and "\<And>b u. available_of b u (balances d') = available_of b u (balances d)
         - (if b = sn_id s \<and> u = ''XMR'' then (of_int (int_of_decimal (x * PICO)) + of_int fee) / PICO else 0)
         + (if b = rp_id rcp \<and> u = ''XMR'' then of_int (int_of_decimal (x * PICO)) / PICO else 0)"
    and "\<exists>f. fee_collections d' = add_row f (fee_collections d) \<and> fc_amount f = of_int fee / PICO"
    and "first_row (\<lambda>r. hr_payment_id r = rt_payment_id route) (hub_routes d') = Some (new_id (hub_routes d), r)"
    and "settled_route now s rcp x (of_int fee / PICO) r"
    and "hf_fee_amount info' = of_int fee / PICO" and "hf_total_deduction info' = x + of_int fee / PICO"
    and "get_current_month_count now (sn_id s) (monthly_stats d') = get_current_month_count now (sn_id s) (monthly_stats d) + 1"
proof -
  let ?n = "int_of_decimal (x * PICO)"
  obtain d1 d2 tx_id cache' pid fee0
    where pid_def: "pid = hub_payment_id (pe_digest env) (pe_token_hex env) (sn_id s) (rp_id rcp) x key"
    and d1: "d1 = d\<lparr>hub_routes := add_row (new_hub_route now pid (sn_id s) (rp_id rcp) x ''XMR'' urg fee0) (hub_routes d)\<rparr>"
    and fresh: "\<forall>(k, v) \<in> set (hub_routes d). hr_payment_id v \<noteq> pid"
    and tx: "create_with_commission (pe_dialect env) now cache pid ''hub'' (sn_id s) (rp_id rcp) ?n ''XMR'' PtHubRouting
           TxConfirmed key d1 = Inr (d2, cache', tx_id)"
    and d': "d' = confirm_route_row now pid (hf_fee_amount info') d2" and pid: "rt_payment_id route = pid"
    and fee': "hf_fee_amount info' = (case row_of (transactions d2) tx_id of None \<Rightarrow> 0 | Some t \<Rightarrow> tx_fee t)"
    and tot: "hf_total_deduction info' = x + hf_fee_amount info'"
    by (rule execute_parts [OF assms(1,2)])
  have same: "balances d1 = balances d" "fee_collections d1 = fee_collections d" "monthly_stats d1 = monthly_stats d"
      "transactions d1 = transactions d" "get_tier (sn_id s) d1 cache = get_tier (sn_id s) d cache"
    by (simp_all add: d1)
  have ok: "table_ok (balances d1)" using assms(3) same(1) by simp
  have none: "key = None \<or> first_row (\<lambda>t. tx_hash t = pid) (transactions d1) = None"
    using assms(4) by (simp add: first_row_None pid same(4))
  from transfer_effect [OF tx ok none] obtain fee where
    fee: "compute_fee ?n (fst (get_tier (sn_id s) d cache)) = Inr fee"
    and enough: "(of_int ?n + of_int fee) / PICO \<le> available_of (sn_id s) ''XMR'' (balances d)"
    and money: "\<And>b u. available_of b u (balances d2) = available_of b u (balances d)
         - (if b = sn_id s \<and> u = ''XMR'' then (of_int ?n + of_int fee) / PICO else 0)
         + (if b = rp_id rcp \<and> u = ''XMR'' then of_int ?n / PICO else 0)"
    and row: "\<exists>f. fee_collections d2 = add_row f (fee_collections d) \<and> fc_amount f = of_int fee / PICO"
    and month: "get_current_month_count now (sn_id s) (monthly_stats d2) = get_current_month_count now (sn_id s) (monthly_stats d) + 1"
    unfolding same by blast
  obtain fee2 where "compute_fee ?n (fst (get_tier (sn_id s) d1 cache)) = Inr fee2"
    and "row_of (transactions d2) tx_id = Some (create_transaction now pid ''hub'' (Some (sn_id s)) (Some (rp_id rcp))
           (of_int ?n / PICO) ''XMR'' PtHubRouting TxConfirmed (of_int fee2 / PICO) (of_int fee2 / PICO))"
    by (rule create_with_commission_Inr [OF tx ok none]) (rule that)
  then have info: "hf_fee_amount info' = of_int fee / PICO" using fee fee' unfolding same
    by (simp add: create_transaction_def)
  let ?r0 = "new_hub_route now pid (sn_id s) (rp_id rcp) x ''XMR'' urg fee0"
  let ?f = "\<lambda>r. r\<lparr>hr_status := RouteConfirmed, hr_confirmed_at := Some now,
      hr_fee_amount := of_int fee / PICO, hr_fee_collected := True, hr_fee_collected_at := Some now\<rparr>"
  have routes2: "hub_routes d2 = add_row ?r0 (hub_routes d)"
    using create_with_commission_routes [OF tx] by (simp add: d1)
  have "hr_payment_id ?r0 = pid" "hr_status ?r0 = RoutePending" by (simp_all add: new_hub_route_def)
  then have "first_row (\<lambda>r. hr_payment_id r = pid) (hub_routes d2) = Some (new_id (hub_routes d), ?r0)"
    unfolding routes2 using fresh by (intro first_row_added) auto
  then have routes': "hub_routes d' = modify_row (new_id (hub_routes d)) ?f (hub_routes d2)"
    using \<open>hr_status ?r0 = RoutePending\<close> by (simp add: d' confirm_route_row_def info)
  have found: "first_row (\<lambda>r. hr_payment_id r = pid) (hub_routes d') = Some (new_id (hub_routes d), ?f ?r0)"
    unfolding routes' routes2
    using first_row_added_modified [of "hub_routes d" "\<lambda>r. hr_payment_id r = pid" ?f ?r0] fresh
    by (simp add: new_hub_route_def)
  show ?thesis
    by (rule that [OF fee enough _ _ _ _ info])
      (use money row month found tot in \<open>auto simp: d' confirm_route_frame pid settled_route_def new_hub_route_def info\<close>)
qed

section \<open>Whole requests\<close>

abbreviation hub_ep :: string where
  "hub_ep \<equiv> ''hub-routing''"

text \<open>The books of a payment: everything but the audit trail and the webhook queue.\<close>

definition same_books :: "db \<Rightarrow> db \<Rightarrow> bool" where
  "same_books d d' \<longleftrightarrow> d' = d\<lparr>audit_log := audit_log d', webhook_events := webhook_events d'\<rparr>"

lemma same_books_fields:
  assumes "same_books d d'"
  shows "balances d' = balances d" "transactions d' = transactions d" "fee_collections d' = fee_collections d"
  using arg_cong [OF assms [unfolded same_books_def], of balances] arg_cong [OF assms [unfolded same_books_def], of transactions]
    arg_cong [OF assms [unfolded same_books_def], of fee_collections] by simp_all

lemma log_and_queue:
  "\<exists>d2. and_then (log_hub_payment s d) (queue_webhook 3 [] a ev) = Inr d2 \<and> same_books d d2"
  by (simp add: log_hub_payment_def log_event_def py_bind_def log_event_params_def queue_webhook_binds same_books_def)

lemma send_cases:
  assumes "send_hub_routed_payment env now policies s req key hdr tx c rd st = ((res, rd', st'), c')"
  obtains (refused) e r st1 rd0 where "reserve_key (pe_route env) now (sn_id s) hub_ep key (payment_hash env req) rd st = (r, st1)"
      and "(res, rd', st') = fail (pe_route env) (sn_id s) hub_ep key e rd0 st1"
      and "r = Inr None \<or> (\<exists>m. r = Inl m \<and> e = Http m)"
      and "rd0 = rd \<or> (\<exists>d0. pay_in_session env now s req key (rd_db rd) = (d0, Inl e) \<and> rd0 = rd\<lparr>rd_db := d0\<rparr>)"
    | (replayed) body st1 where "reserve_key (pe_route env) now (sn_id s) hub_ep key (payment_hash env req) rd st = (Inr (Some body), st1)"
      and "(res, rd', st') = (Inr body, rd, st1)"
    | (duplicate) d0 d route rcp info st1 where
      "reserve_key (pe_route env) now (sn_id s) hub_ep key (payment_hash env req) rd st = (Inr None, st1)"
      and "pay_in_session env now s req key (rd_db rd) = (d0, Inr (d, route, rcp, info))" and "rt_duplicate route"
      and "(res, rd', st') = (Inr (rt_body route), rd\<lparr>rd_db := d\<rparr>, st1)"
    | (paid) d0 d route rcp info st1 body rd2 d2 where
      "reserve_key (pe_route env) now (sn_id s) hub_ep key (payment_hash env req) rd st = (Inr None, st1)"
      and "pay_in_session env now s req key (rd_db rd) = (d0, Inr (d, route, rcp, info))" and "\<not> rt_duplicate route"
      and "body = hub_payment_body env now route rcp (hp_amount req) info"
      and "remember (pe_route env) now (sn_id s) hub_ep key (payment_hash env req) 200 body (rd\<lparr>rd_db := d\<rparr>) st1 = (rd2, st')"
      and "same_books (rd_db rd2) d2" and "(res, rd') = (Inr body, rd2\<lparr>rd_db := d2\<rparr>)"
proof -
  obtain r st1 where r: "reserve_key (pe_route env) now (sn_id s) hub_ep key (payment_hash env req) rd st = (r, st1)"
    by fastforce
  show ?thesis
  proof (cases r)
    case (Inl e)
    then show ?thesis using assms r refused [OF r, of "Http e" rd]
      by (simp add: send_hub_routed_payment_def Let_def)
  next
    case (Inr x)
    show ?thesis
    proof (cases x)
      case (Some body)
      then show ?thesis using assms r Inr replayed [of body st1] by (simp add: send_hub_routed_payment_def Let_def)
    next
      case None
      note r = r [unfolded Inr None]
      obtain pol c1 where pol: "enforce_policy now policies s req hdr tx c = (pol, c1)" by fastforce
      show ?thesis
      proof (cases pol)
        case (Inl e)
        then show ?thesis using assms r pol refused [OF r, of e rd]
          by (simp add: send_hub_routed_payment_def Let_def)
      next
        case (Inr u)
        note pol = pol [unfolded Inr]
        obtain d0 z0 where z0: "pay_in_session env now s req key (rd_db rd) = (d0, z0)" by (rule prod.exhaust)
        show ?thesis
        proof (cases z0)
          case (Inl e)
          then show ?thesis using assms r pol z0 refused [OF r, of e "rd\<lparr>rd_db := d0\<rparr>"]
            by (simp add: send_hub_routed_payment_def Let_def)
        next
          case (Inr z)
          obtain d route rcp info where z: "z = (d, route, rcp, info)" by (metis prod_cases4)
          note p = z0 [unfolded Inr z]
          show ?thesis
          proof (cases "rt_duplicate route")
            case True
            then show ?thesis using assms r pol p duplicate [OF r p]
              by (simp add: send_hub_routed_payment_def Let_def)
          next
            case False
            let ?body = "hub_payment_body env now route rcp (hp_amount req) info"
            obtain rd2 st2 where rem: "remember (pe_route env) now (sn_id s) hub_ep key (payment_hash env req) 200 ?body
                (rd\<lparr>rd_db := d\<rparr>) st1 = (rd2, st2)" by fastforce
            obtain d2 where d2: "and_then (log_hub_payment s (rd_db rd2)) (queue_webhook 3 [] (sn_id s) ''payment.sent'') = Inr d2"
              and same: "same_books (rd_db rd2) d2" using log_and_queue by blast
            have "(res, rd', st') = (Inr ?body, rd2\<lparr>rd_db := d2\<rparr>, st2)"
              using assms r pol p False rem d2 by (simp add: send_hub_routed_payment_def Let_def)
            then show ?thesis using paid [OF r p False refl _ same] rem by simp
          qed
        qed
      qed
    qed
  qed
qed

section \<open>The remote service\<close>

lemma hub_routing_cases:
  assumes "hub_routing env now e key d = (d0, reply)"
  obtains (refused) status detail where "d0 = d" "reply = detail_reply status detail" "400 \<le> status"
  | (paid) x cache tx_id where "validate_envelope env e key = Some x" "0 < int_of_decimal (x * PICO)"
      "create_with_commission (pe_dialect env) now None (''hub:'' @ key) ''hub'' (te_from_agent_id e)
         (te_to_agent_id e) (int_of_decimal (x * PICO)) ''XMR'' PtHubRouting TxConfirmed (Some key) d = Inr (d0, cache, tx_id)"
      "reply = TeeReply 200 (Some (JObj [
         (''payment_id'', JStr (case row_of (transactions d0) tx_id of None \<Rightarrow> '''' | Some t \<Rightarrow> tx_hash t)),
         (''status'', JStr ''confirmed''), (''amount'', JStr (te_amount e)),
         (''fee'', JStr (env_decimal_text (pe_route env) (case row_of (transactions d0) tx_id of None \<Rightarrow> 0 | Some t \<Rightarrow> tx_fee t))),
         (''fee_percent'', JStr (env_decimal_text (pe_route env)
            (of_int (rate_bps_for_tier (fst (get_tier (te_from_agent_id e) d0 None))) / 10000)))]))"
  using assms
  by (auto simp: hub_routing_def Let_def split: option.splits sum.splits if_splits)

text \<open>What the dispatcher makes of the answers.\<close>

lemma settle_detail:
  "400 \<le> status \<Longrightarrow> tee_settle env now cache s rcp req key info (read_reply (detail_reply status detail)) d =
     (if status < 500 then Inl (Http (HTTPException status detail))
      else execute_hub_transfer env now cache s rcp (fst (hp_amount req)) (hp_urgency req) (Some key) info d)"
  by (simp add: tee_settle_def read_reply_def detail_reply_def)

text \<open>Decimals written by \<open>str\<close> read back.\<close>

definition decimals_read_back :: "pay_env \<Rightarrow> bool" where
  "decimals_read_back env \<longleftrightarrow> (\<forall>x. pe_decimal_of env (env_decimal_text (pe_route env) x) = Some x)"

lemma settle_accepted:
  assumes "decimals_read_back env"
  shows "tee_settle env now cache s rcp req key info (read_reply (TeeReply 200 (Some (JObj [(''payment_id'', JStr pid),
      (''status'', JStr st), (''amount'', JStr am), (''fee'', JStr (env_decimal_text (pe_route env) fee)),
      (''fee_percent'', JStr (env_decimal_text (pe_route env) percent))])))) d
    = Inr (write_hub_route_after_tee now pid (sn_id s) (rp_id rcp) (fst (hp_amount req)) fee percent (hp_urgency req) d,
           \<lparr>rt_payment_id = pid, rt_duplicate = False, rt_body = JObj [(''payment_id'', JStr pid), (''status'', JStr st),
              (''amount'', JStr am), (''fee'', JStr (env_decimal_text (pe_route env) fee)),
              (''fee_percent'', JStr (env_decimal_text (pe_route env) percent))]\<rparr>,
           info\<lparr>hf_fee_amount := fee, hf_fee_percent := percent, hf_total_deduction := fst (hp_amount req) + fee\<rparr>)"
  using assms by (simp add: tee_settle_def read_reply_def tee_accepted_def decimal_field_def decimals_read_back_def Let_def)

text \<open>A connection that answers what it serves: the hypothesis for the mode with the remote service.\<close>

definition reliable_link :: "pay_env \<Rightarrow> bool" where
  "reliable_link env \<longleftrightarrow> \<not> pe_tee_enabled env \<or> (\<forall>t. pe_link env t \<noteq> ReplyLost) \<and> decimals_read_back env"

text \<open>A step that fails or finds a duplicate leaves the database as it was, also the part of the remote service.\<close>

lemma execute_duplicate:
  assumes "execute_hub_transfer env now cache s rcp x urg key info0 d = Inr (d', route, info1)" and "rt_duplicate route"
  shows "d' = d"
proof -
  let ?pid = "hub_payment_id (pe_digest env) (pe_token_hex env) (sn_id s) (rp_id rcp) x key"
  obtain d1 r where r: "create_hub_route now ?pid (sn_id s) (rp_id rcp) x ''XMR'' (tier_value (sn_tier s)) urg d = Inr (d1, r)"
    using create_hub_route_total by blast
  have "rr_duplicate r" and "d' = d1"
    using assms by (auto simp: execute_hub_transfer_def r Let_def split: if_splits sum.splits)
  then show ?thesis using r by (auto simp: create_hub_route_def hub_fee_Inr Let_def split: option.splits)
qed

lemma dispatch_tee:
  assumes "pe_tee_enabled env" and "dispatch_hub_routing env now cache s rcp req key info d = (d0, r)"
  obtains reply where "call_service env now (build_envelope s rcp (hp_amount req) req) (tee_key env s rcp req key) d = (d0, reply)"
    and "r = tee_settle env now cache s rcp req (tee_key env s rcp req key) info (read_reply reply) d0"
proof -
  obtain d1 reply where "call_service env now (build_envelope s rcp (hp_amount req) req) (tee_key env s rcp req key) d = (d1, reply)"
    by (rule prod.exhaust)
  with assms that [of reply] show ?thesis
    by (auto simp: dispatch_hub_routing_def tee_dispatch_def tee_client_def Let_def)
qed

lemma dispatch_unchanged:
  assumes "reliable_link env" and "dispatch_hub_routing env now cache s rcp req key info d = (d0, r)"
    and "(\<exists>e. r = Inl e) \<or> (\<exists>d' route info'. r = Inr (d', route, info') \<and> rt_duplicate route)"
  shows "d0 = d \<and> (\<forall>d' route info'. r = Inr (d', route, info') \<longrightarrow> d' = d)"
proof (cases "pe_tee_enabled env")
  case False
  with assms(2,3) execute_duplicate show ?thesis by (auto simp: dispatch_hub_routing_def)
next
  case True
  let ?key = "tee_key env s rcp req key"
  obtain reply where call: "call_service env now (build_envelope s rcp (hp_amount req) req) ?key d = (d0, reply)"
    and r: "r = tee_settle env now cache s rcp req ?key info (read_reply reply) d0"
    by (rule dispatch_tee [OF True assms(2)])
  have "pe_link env now \<noteq> ReplyLost" and reads: "decimals_read_back env"
    using assms(1) True by (simp_all add: reliable_link_def)
  then have "pe_link env now = LinkDown \<or> pe_link env now = LinkUp" using tee_link.exhaust by blast
  then show ?thesis
  proof
    assume "pe_link env now = LinkDown"
    then have "d0 = d" "reply = TeeNoReply" using call by (simp_all add: call_service_def)
    then show ?thesis using r assms(3) execute_duplicate by (auto simp: tee_settle_def read_reply_def Let_def)
  next
    assume "pe_link env now = LinkUp"
    then have "hub_routing env now (build_envelope s rcp (hp_amount req) req) ?key d = (d0, reply)"
      using call by (simp add: call_service_def)
    then show ?thesis
    proof (cases rule: hub_routing_cases)
      case (refused status detail)
      then show ?thesis using r assms(3) execute_duplicate by (auto simp: settle_detail split: if_splits)
    next
      case (paid x c tx_id)
      then show ?thesis using r assms(3) by (simp add: settle_accepted [OF reads])
    qed
  qed
qed

lemma session_unchanged:
  assumes "reliable_link env" and "pay_in_session env now s req key d = (d0, r)"
    and "(\<exists>e. r = Inl e) \<or> (\<exists>d' route rcp info. r = Inr (d', route, rcp, info) \<and> rt_duplicate route)"
  shows "d0 = d \<and> (\<forall>d' route rcp info. r = Inr (d', route, rcp, info) \<longrightarrow> d' = d)"
proof (cases "prepare_payment s req d")
  case (Inl e)
  with assms(2) show ?thesis by (auto simp: pay_in_session_def)
next
  case (Inr p)
  obtain rcp fee_info where p: "p = (rcp, fee_info)" by (rule prod.exhaust)
  obtain d1 r1 where disp: "dispatch_hub_routing env now begin_request s rcp req key fee_info d = (d1, r1)" by (rule prod.exhaust)
  show ?thesis
    using assms(2,3) dispatch_unchanged [OF assms(1) disp]
    by (cases r1) (auto simp: pay_in_session_def Inr p disp)
qed

section \<open>Runs of requests\<close>




lemma same_books_refl [simp]: "same_books d d"
  by (simp add: same_books_def)







definition route_ids :: "db \<Rightarrow> string set" where
  "route_ids d = (\<lambda>(k, r). hr_payment_id r) ` set (hub_routes d)"

lemma route_ids_confirm: "route_ids (confirm_route_row now pid fee d) = route_ids d"
proof -
  have upd: "(\<lambda>(k, r). hr_payment_id r) ` set (modify_row rid (\<lambda>r. r\<lparr>hr_status := RouteConfirmed, hr_confirmed_at := Some now,
      hr_fee_amount := fee, hr_fee_collected := True, hr_fee_collected_at := Some now\<rparr>) t)
      = (\<lambda>(k, r). hr_payment_id r) ` set t" for rid t
    unfolding modify_row_def update_where_def set_map image_image by (rule image_cong) auto
  show ?thesis
  proof (cases "first_row (\<lambda>r. hr_payment_id r = pid) (hub_routes d)")
    case (Some p)
    then show ?thesis using upd [of "fst p" "hub_routes d"] by (cases p) (simp add: route_ids_def confirm_route_row_def)
  qed (simp add: confirm_route_row_def)
qed

text \<open>Without a key of its own, a request in TEE mode is given one made of its content: while the service
  does not answer, a second payment of the same amount to the same recipient is taken for a retry.\<close>

lemma repeated_payment_swallowed:
  assumes "pe_tee_enabled env" and "pe_link env now = LinkDown" and "pe_link env later = LinkDown"
    and "dispatch_hub_routing env now cache s rcp req None info d = (d, Inr (d', route, info'))"
  shows "\<exists>route' info''. dispatch_hub_routing env later cache' s rcp req None info d' = (d', Inr (d', route', info''))
    \<and> rt_duplicate route' \<and> rt_payment_id route' = rt_payment_id route"
proof -
  let ?key = "auto_key env s rcp (hp_amount req) (hp_urgency req)" and ?x = "fst (hp_amount req)" and ?urg = "hp_urgency req"
  let ?pid = "hub_payment_id (pe_digest env) (pe_token_hex env) (sn_id s) (rp_id rcp) ?x (Some ?key)"
  have disp: "dispatch_hub_routing env t cache s rcp req None info d =
      (d, execute_hub_transfer env t cache s rcp ?x ?urg (Some ?key) info d)" if "t = now \<or> t = later" for t cache d
    using that assms(1-3)
    by (auto simp: dispatch_hub_routing_def tee_dispatch_def tee_client_def call_service_def read_reply_def tee_settle_def tee_key_def Let_def)
  obtain d1 r where r: "create_hub_route now ?pid (sn_id s) (rp_id rcp) ?x ''XMR'' (tier_value (sn_tier s)) ?urg d = Inr (d1, r)"
    using create_hub_route_total by blast
  have exec: "execute_hub_transfer env now cache s rcp ?x ?urg (Some ?key) info d = Inr (d', route, info')"
    using assms(4) by (simp add: disp)
  have pid: "rr_payment_id r = ?pid" using r by (auto simp: create_hub_route_def hub_fee_Inr Let_def split: option.splits)
  have "\<exists>k v. (k, v) \<in> set (hub_routes d') \<and> hr_payment_id v = ?pid" and same: "rt_payment_id route = ?pid"
  proof -
    show "rt_payment_id route = ?pid"
      using exec by (auto simp: execute_hub_transfer_def r pid Let_def split: if_splits sum.splits)
    show "\<exists>k v. (k, v) \<in> set (hub_routes d') \<and> hr_payment_id v = ?pid"
    proof (cases "rr_duplicate r")
      case True
      then obtain k v where "d1 = d" and f: "first_row (\<lambda>v. hr_payment_id v = ?pid) (hub_routes d) = Some (k, v)"
        using r by (auto simp: create_hub_route_def hub_fee_Inr Let_def split: option.splits)
      moreover have "d' = d1" using exec True by (simp add: execute_hub_transfer_def r Let_def)
      ultimately show ?thesis using first_row_mem [OF f] by blast
    next
      case False
      then have paid: "\<not> rt_duplicate route"
        using exec by (auto simp: execute_hub_transfer_def r Let_def split: sum.splits)
      obtain d1 d2 tx_id cache'' pid fee0
        where pid': "pid = ?pid"
        and d1': "d1 = d\<lparr>hub_routes := add_row (new_hub_route now pid (sn_id s) (rp_id rcp) ?x ''XMR'' ?urg fee0) (hub_routes d)\<rparr>"
        and "\<forall>(k, v) \<in> set (hub_routes d). hr_payment_id v \<noteq> pid"
        and tx: "create_with_commission (pe_dialect env) now cache pid ''hub'' (sn_id s) (rp_id rcp)
           (int_of_decimal (?x * PICO)) ''XMR'' PtHubRouting TxConfirmed (Some ?key) d1 = Inr (d2, cache'', tx_id)"
        and d': "d' = confirm_route_row now pid (hf_fee_amount info') d2" and "rt_payment_id route = pid"
        and "hf_fee_amount info' = (case row_of (transactions d2) tx_id of None \<Rightarrow> 0 | Some t \<Rightarrow> tx_fee t)"
        and "hf_total_deduction info' = ?x + hf_fee_amount info'"
        by (rule execute_parts [OF exec paid])
      have "?pid \<in> route_ids d2"
        using create_with_commission_routes [OF tx]
        by (simp add: route_ids_def d1' pid' add_row_def insert_row_def new_hub_route_def)
      then have "?pid \<in> route_ids d'" by (simp add: d' route_ids_confirm)
      then obtain p where "p \<in> set (hub_routes d')" and "hr_payment_id (snd p) = ?pid"
        unfolding route_ids_def by (metis (mono_tags) imageE split_def)
      then show ?thesis by (metis prod.collapse)
    qed
  qed
  then have "first_row (\<lambda>v. hr_payment_id v = ?pid) (hub_routes d') \<noteq> None" by (auto simp: first_row_None)
  then obtain k v where "first_row (\<lambda>v. hr_payment_id v = ?pid) (hub_routes d') = Some (k, v)" by auto
  then show ?thesis unfolding same
    by (simp add: disp execute_hub_transfer_def create_hub_route_def hub_fee_Inr Let_def)
qed

section \<open>Properties\<close>

definition demo_pay_env :: pay_env where
  "demo_pay_env = \<lparr>pe_route = \<lparr>env_hub_mode = ''ledger'', env_environment = ''dev'', env_network = ''stagenet'',
       env_sha = (\<lambda>m. ''h'' @ m), env_decimal_text = (\<lambda>x. ''n''), env_wallet = (\<lambda>ad x. WalletTimeout),
       env_deposit_address = (\<lambda>a. ''5''), env_min_confirmations = 10\<rparr>,
     pe_dialect = ''sqlite'', pe_digest = (\<lambda>a b x k. k), pe_token_hex = ''00'',
     pe_decimal_of = (\<lambda>s. None), pe_tee_enabled = False, pe_link = (\<lambda>t. LinkDown), pe_proxy_token = None,
     pe_service_token = None\<rparr>"

definition demo_pay_db :: db where
  "demo_pay_db = empty_db\<lparr>balances := credit 0 1 50 ''XMR'' [],
     agents := [(1, \<lparr>ag_name = ''a'', ag_is_active = True, ag_tier = TierFree, ag_tier_grace_until = None, ag_xmr_address = Some ''4a'', ag_created_at = 0\<rparr>),
                (2, \<lparr>ag_name = ''b'', ag_is_active = True, ag_tier = TierFree, ag_tier_grace_until = None, ag_xmr_address = Some ''4b'', ag_created_at = 0\<rparr>)]\<rparr>"

definition demo_request :: hub_payment_request where
  "demo_request = \<lparr>hp_to_agent_name = ''b'', hp_amount = (20, ''20''), hp_memo = None, hp_urgency = ''normal''\<rparr>"

definition demo_sender :: sender where
  "demo_sender = \<lparr>sn_id = 1, sn_tier = TierFree\<rparr>"

text \<open>C13. What a payment does: with the local handler, a payment that is not a replay has an active recipient
  of the given name with an address, who is not the sender; it debits the sender amount and commission, which
  it can cover, credits the recipient the whole amount in piconero, touches no other balance, records one fee
  row of exactly the commission, leaves one confirmed hub route under the returned payment id with that fee on
  it, counts once for the month, and tells the client the fee that was really taken.\<close>

theorem hub_payment_settles:
  assumes "pay_in_session env now s req key d = (d0, Inr (d', route, rcp, info))" and "\<not> pe_tee_enabled env"
    and "\<not> rt_duplicate route" and "table_ok (balances d)"
    and "\<forall>(k, t) \<in> set (transactions d). tx_hash t \<noteq> rt_payment_id route"
  shows "\<exists>fee g r. let pico = int_of_decimal (fst (hp_amount req) * PICO) in
    (rp_id rcp, g) \<in> set (agents d) \<and> ag_name g = hp_to_agent_name req \<and> ag_is_active g \<and> ag_xmr_address g \<noteq> None
    \<and> rp_id rcp \<noteq> sn_id s
    \<and> compute_fee pico (fst (get_tier (sn_id s) d begin_request)) = Inr fee
    \<and> (of_int pico + of_int fee) / PICO \<le> available_of (sn_id s) ''XMR'' (balances d)
    \<and> (\<forall>b u. available_of b u (balances d') = available_of b u (balances d)
         - (if b = sn_id s \<and> u = ''XMR'' then (of_int pico + of_int fee) / PICO else 0)
         + (if b = rp_id rcp \<and> u = ''XMR'' then of_int pico / PICO else 0))
    \<and> (\<exists>f. fee_collections d' = add_row f (fee_collections d) \<and> fc_amount f = of_int fee / PICO)
    \<and> first_row (\<lambda>r. hr_payment_id r = rt_payment_id route) (hub_routes d') = Some (new_id (hub_routes d), r)
    \<and> settled_route now s rcp (fst (hp_amount req)) (of_int fee / PICO) r
    \<and> hf_fee_amount info = of_int fee / PICO \<and> hf_total_deduction info = fst (hp_amount req) + of_int fee / PICO
    \<and> get_current_month_count now (sn_id s) (monthly_stats d') = get_current_month_count now (sn_id s) (monthly_stats d) + 1"
proof -
  obtain g fee_info where v: "validate_recipient_in_session (hp_to_agent_name req) d = Inr (rp_id rcp, g)"
    and ne: "rp_id rcp \<noteq> sn_id s" and "rcp = build_recipient_profile (rp_id rcp) g d"
    and disp: "dispatch_hub_routing env now begin_request s rcp req key fee_info d = (d0, Inr (d', route, info))"
    by (rule session_parts [OF assms(1)])
  have exec: "execute_hub_transfer env now begin_request s rcp (fst (hp_amount req)) (hp_urgency req) key fee_info d = Inr (d', route, info)"
    using disp assms(2) by (auto simp: dispatch_hub_routing_def)
  have "ag_xmr_address g \<noteq> None" using validated_recipient [OF v] by auto
  with validated_recipient [OF v] ne show ?thesis
    unfolding Let_def by (elim conjE) (rule execute_effect [OF exec assms(3-5)], metis)
qed

theorem hub_payment_settles_witness:
  "\<exists>d0 d' route rcp info. pay_in_session demo_pay_env 7 demo_sender demo_request None demo_pay_db = (d0, Inr (d', route, rcp, info))
     \<and> available_of 2 ''XMR'' (balances d') = 20"
proof -
  have run: "case pay_in_session demo_pay_env 7 demo_sender demo_request None demo_pay_db of
      (d0, Inl e) \<Rightarrow> False | (d0, Inr (d', route, rcp, info)) \<Rightarrow> \<not> rt_duplicate route \<and> rp_id rcp = 2"
    by code_simp
  obtain d0 z where z: "pay_in_session demo_pay_env 7 demo_sender demo_request None demo_pay_db = (d0, z)" by (rule prod.exhaust)
  with run obtain d' route rcp info where zi: "z = Inr (d', route, rcp, info)" and new: "\<not> rt_duplicate route"
    and two: "rp_id rcp = 2" by (cases z) auto
  note ok = z [unfolded zi]
  have tables: "table_ok (balances demo_pay_db)" "transactions demo_pay_db = []" "\<not> pe_tee_enabled demo_pay_env"
      "available_of 2 ''XMR'' (balances demo_pay_db) = 0" "sn_id demo_sender = 1"
      "int_of_decimal (fst (hp_amount demo_request) * PICO) = 20000000000000"
    by code_simp+
  then have "\<exists>fee. \<forall>b u. available_of b u (balances d') = available_of b u (balances demo_pay_db)
         - (if b = 1 \<and> u = ''XMR'' then (of_int 20000000000000 + of_int fee) / PICO else 0)
         + (if b = 2 \<and> u = ''XMR'' then of_int 20000000000000 / PICO else 0)"
    using hub_payment_settles [OF ok _ new] by (auto simp: two Let_def)
  then show ?thesis using ok tables(4) by (auto simp: PICO_def)
qed

text \<open>All or nothing: a payment request that is answered with an error leaves the database as it was,
  idempotency rows included, and does not leave its key locked, wherever in the handler, the dispatcher or
  the remote service the error comes from, unless the reply of the remote service is lost.\<close>

lemma hub_payment_all_or_nothing:
  assumes "send_hub_routed_payment env now policies s req key hdr tx c rd st = ((Inl e, rd', st'), c')"
    and "reliable_link env"
  shows "rd' = rd \<and> (\<forall>k. key = Some k \<longrightarrow>
    is_cache st' (endpoint_key (pe_route env) (sn_id s) ''hub-routing'' k) \<noteq> Some Processing)"
  using assms(1)
proof (cases rule: send_cases)
  case (refused e' r st1 rd0)
  have "rd0 = rd" using refused(4) session_unchanged [OF assms(2)] by fastforce
  with refused show ?thesis by (auto simp: fail_def release_def Let_def split: option.splits)
qed auto

lemma hub_payment_all_or_nothing_witness:
  "\<exists>e st' c'. send_hub_routed_payment demo_pay_env 7 [] demo_sender (demo_request\<lparr>hp_amount := (70, ''70'')\<rparr>)
      (Some ''key-0001'') None ''tx'' (None :: unit redis_client)
      \<lparr>rd_db = demo_pay_db, rd_pending = [], rd_idem = []\<rparr> new_store
    = ((Inl e, \<lparr>rd_db = demo_pay_db, rd_pending = [], rd_idem = []\<rparr>, st'), c')"
proof -
  let ?send = "send_hub_routed_payment demo_pay_env 7 [] demo_sender (demo_request\<lparr>hp_amount := (70, ''70'')\<rparr>)
      (Some ''key-0001'') None ''tx'' (None :: unit redis_client)
      \<lparr>rd_db = demo_pay_db, rd_pending = [], rd_idem = []\<rparr> new_store"
  have "case ?send of ((Inl e, rd', st'), c') \<Rightarrow> True | _ \<Rightarrow> False" by code_simp
  then obtain e rd' st' c' where "?send = ((Inl e, rd', st'), c')" by (auto split: prod.splits sum.splits)
  moreover have "reliable_link demo_pay_env" by (simp add: reliable_link_def demo_pay_env_def)
  ultimately show ?thesis using hub_payment_all_or_nothing by blast
qed


text \<open>The remote service, with decimals written as a numerator and a denominator in binary.\<close>

fun bits_text :: "nat \<Rightarrow> string" where
  "bits_text n = (if n = 0 then '''' else (if odd n then CHR ''1'' else CHR ''0'') # bits_text (n div 2))"

fun bits_value :: "string \<Rightarrow> nat" where
  "bits_value [] = 0"
| "bits_value (c # s) = (if c = CHR ''1'' then 1 else 0) + 2 * bits_value s"

declare bits_text.simps [simp del]

lemma bits_round_trip: "bits_value (bits_text n) = n"
proof (induction n rule: bits_text.induct)
  case (1 n)
  show ?case
  proof (cases "n = 0")
    case True
    then show ?thesis by (simp add: bits_text.simps)
  next
    case False
    then have "bits_value (bits_text n) = (if odd n then 1 else 0) + 2 * (n div 2)"
      using 1 by (simp add: bits_text.simps [of n])
    then show ?thesis by (simp add: odd_two_times_div_two_succ split: if_split)
  qed
qed

lemma bits_no_slash: "c \<in> set (bits_text n) \<Longrightarrow> c \<noteq> CHR ''/''"
proof (induction n rule: bits_text.induct)
  case (1 n)
  show ?case
  proof (cases "n = 0")
    case True
    then show ?thesis using 1(2) by (simp add: bits_text.simps)
  next
    case False
    then have "bits_text n = (if odd n then CHR ''1'' else CHR ''0'') # bits_text (n div 2)" by (simp add: bits_text.simps [of n])
    with 1 False show ?thesis by (auto split: if_split_asm)
  qed
qed

definition fraction_text :: "decimal \<Rightarrow> string" where
  "fraction_text x = (case quotient_of x of (a, b) \<Rightarrow>
     (if a < 0 then CHR ''-'' else CHR ''+'') # bits_text (nat \<bar>a\<bar>) @ ''/'' @ bits_text (nat b))"

definition fraction_value :: "string \<Rightarrow> decimal option" where
  "fraction_value s =
     (let q = takeWhile (\<lambda>c. c \<noteq> CHR ''/'') (tl s); r = drop 1 (dropWhile (\<lambda>c. c \<noteq> CHR ''/'') (tl s));
          x = of_nat (bits_value q) / of_nat (bits_value r)
      in Some (if hd s = CHR ''-'' then - x else x))"

lemma fraction_round_trip: "fraction_value (fraction_text x) = Some x"
proof -
  obtain a b where q: "quotient_of x = (a, b)" by (rule prod.exhaust)
  then have x: "x = of_int a / of_int b" and b: "0 < b" by (simp_all add: quotient_of_div quotient_of_denom_pos)
  let ?s = "bits_text (nat \<bar>a\<bar>) @ ''/'' @ bits_text (nat b)"
  have "takeWhile (\<lambda>c. c \<noteq> CHR ''/'') ?s = bits_text (nat \<bar>a\<bar>)" "dropWhile (\<lambda>c. c \<noteq> CHR ''/'') ?s = ''/'' @ bits_text (nat b)"
    by (simp_all add: bits_no_slash takeWhile_append2 dropWhile_append2)
  then have "fraction_value (fraction_text x) = Some (of_int a / of_int b)"
    using b by (simp add: fraction_value_def fraction_text_def q bits_round_trip Let_def)
  with x show ?thesis by simp
qed

definition demo_tee_env :: pay_env where
  "demo_tee_env = demo_pay_env\<lparr>pe_route := (pe_route demo_pay_env)\<lparr>env_decimal_text := fraction_text\<rparr>,
     pe_decimal_of := fraction_value, pe_tee_enabled := True, pe_link := (\<lambda>t. LinkUp)\<rparr>"

lemma demo_tee_reliable: "reliable_link demo_tee_env"
  by (simp add: reliable_link_def demo_tee_env_def decimals_read_back_def fraction_round_trip)

definition fraction_request :: "decimal \<Rightarrow> hub_payment_request" where
  "fraction_request x = demo_request\<lparr>hp_amount := (x, fraction_text x)\<rparr>"


definition demo_rd :: route_db where
  "demo_rd = \<lparr>rd_db = demo_pay_db, rd_pending = [], rd_idem = []\<rparr>"



section \<open>Keys at the remote service\<close>

text \<open>A key the service knows: it answers with the transaction it has, whoever asks and for whatever amount.\<close>

lemma hub_routing_replay:
  assumes "first_row (\<lambda>t. tx_hash t = ''hub:'' @ key) (transactions d) \<noteq> None"
    and "hub_routing env now e key d = (d0, reply)"
  shows "d0 = d \<and> ((\<exists>status detail. reply = detail_reply status detail \<and> 400 \<le> status \<and> status < 500)
    \<or> (\<exists>pid st am fee percent. reply = TeeReply 200 (Some (JObj [(''payment_id'', JStr pid),
      (''status'', JStr st), (''amount'', JStr am), (''fee'', JStr (env_decimal_text (pe_route env) fee)),
      (''fee_percent'', JStr (env_decimal_text (pe_route env) percent))]))))"
proof -
  obtain tx_id t where "first_row (\<lambda>t. tx_hash t = ''hub:'' @ key) (transactions d) = Some (tx_id, t)" using assms(1) by auto
  then have replay: "create_with_commission (pe_dialect env) now None (''hub:'' @ key) ''hub'' (te_from_agent_id e)
      (te_to_agent_id e) n ''XMR'' PtHubRouting TxConfirmed (Some key) d = Inr (d, None, tx_id)" if "\<not> n \<le> 0" for n
    using that by (simp add: create_with_commission_def)
  show ?thesis
    using assms(2) by (auto simp: hub_routing_def Let_def replay [simplified] split: option.splits if_split_asm)
qed

lemma after_tee_frame:
  "balances (write_hub_route_after_tee now pid a b x fee percent urg d) = balances d"
  "transactions (write_hub_route_after_tee now pid a b x fee percent urg d) = transactions d"
  "fee_collections (write_hub_route_after_tee now pid a b x fee percent urg d) = fee_collections d"
  by (simp_all add: write_hub_route_after_tee_def confirm_route_frame split: option.split)

lemma remember_books: "remember env now a ep key h status body rd st = (rd', st') \<Longrightarrow> rd_db rd' = rd_db rd"
  by (auto simp: remember_def split: option.splits prod.splits)

lemma known_key_moves_nothing:
  assumes "pe_tee_enabled env" and "pe_link env now = LinkUp" and "decimals_read_back env" and "k \<noteq> ''''"
    and "first_row (\<lambda>t. tx_hash t = ''hub:'' @ k) (transactions d) \<noteq> None"
    and "pay_in_session env now s req (Some k) d = (d0, Inr (d', route, rcp, info))"
  shows "balances d' = balances d \<and> transactions d' = transactions d \<and> fee_collections d' = fee_collections d
    \<and> \<not> rt_duplicate route"
proof -
  obtain fee_info where "dispatch_hub_routing env now begin_request s rcp req (Some k) fee_info d = (d0, Inr (d', route, info))"
    using session_parts [OF assms(6)] by metis
  then obtain reply where call: "call_service env now (build_envelope s rcp (hp_amount req) req) k d = (d0, reply)"
    and r: "Inr (d', route, info) = tee_settle env now begin_request s rcp req k fee_info (read_reply reply) d0"
    by (rule dispatch_tee [OF assms(1)]) (simp add: tee_key_def assms(4))
  have "hub_routing env now (build_envelope s rcp (hp_amount req) req) k d = (d0, reply)"
    using call by (simp add: call_service_def assms(2))
  from hub_routing_replay [OF assms(5) this] show ?thesis
    using r by (auto simp: settle_detail settle_accepted [OF assms(3)] after_tee_frame)
qed

text \<open>A payment that goes through in the session is answered with its body.\<close>

lemma send_succeeds:
  assumes "reserve_key (pe_route env) now (sn_id s) ''hub-routing'' key (payment_hash env req) rd st = (Inr None, st1)"
    and "get_policy (sn_id s) policies = None" and "pay_in_session env now s req key (rd_db rd) = (d0, Inr x)"
  shows "\<exists>body rd' st' c'. send_hub_routed_payment env now policies s req key hdr tx c rd st = ((Inr body, rd', st'), c')"
proof -
  obtain res rd' st' c' where fields: "send_hub_routed_payment env now policies s req key hdr tx c rd st = ((res, rd', st'), c')"
    by (metis prod_cases4 surj_pair)
  obtain body where "res = Inr body"
  proof (cases res)
    case (Inl e)
    obtain d route rcp info where x: "x = (d, route, rcp, info)" by (metis prod_cases4)
    obtain rd2 st2 where rem: "remember (pe_route env) now (sn_id s) hub_ep key (payment_hash env req) 200
        (hub_payment_body env now route rcp (hp_amount req) info) (rd\<lparr>rd_db := d\<rparr>) st1 = (rd2, st2)" by (rule prod.exhaust)
    obtain d2 where "and_then (log_hub_payment s (rd_db rd2)) (queue_webhook 3 [] (sn_id s) ''payment.sent'') = Inr d2"
      using log_and_queue by blast
    with assms fields x rem Inl have False
      by (auto simp: send_hub_routed_payment_def enforce_policy_def Let_def split: if_split_asm)
    then show ?thesis ..
  qed
  with fields show ?thesis by blast
qed

text \<open>Agent 1 has paid agent 2, which has nothing else, twenty under a key; agent 2 pays thirty under the same key.\<close>

definition demo_second :: sender where
  "demo_second = \<lparr>sn_id = 2, sn_tier = TierFree\<rparr>"

definition demo_back_request :: hub_payment_request where
  "demo_back_request = (fraction_request 30)\<lparr>hp_to_agent_name := ''a''\<rparr>"

definition demo_paid_rd :: route_db where
  "demo_paid_rd = demo_rd\<lparr>rd_db := demo_pay_db\<lparr>balances := credit 0 2 20 ''XMR'' [],
     transactions := [(1, create_transaction 7 ''hub:key-0001'' ''hub'' (Some 1) (Some 2) 20 ''XMR'' PtHubRouting TxConfirmed
       (3 / 50) (3 / 50))]\<rparr>\<rparr>"

text \<open>C22. With the remote service an idempotency key belongs to whoever used it first: once any agent has paid under
  a key there, a payment another agent makes under the same key, however large, is answered as confirmed, and no
  balance moves, no transaction and no fee is recorded.\<close>

theorem borrowed_key_pays_nothing:
  assumes "pe_tee_enabled env" and "pe_link env now = LinkUp" and "decimals_read_back env" and "k \<noteq> ''''"
    and "first_row (\<lambda>t. tx_hash t = ''hub:'' @ k) (transactions (rd_db rd)) \<noteq> None"
    and "reserve_key (pe_route env) now (sn_id s) ''hub-routing'' (Some k) (payment_hash env req) rd st = (Inr None, st1)"
    and "send_hub_routed_payment env now policies s req (Some k) hdr tx c rd st = ((Inr body, rd', st'), c')"
  shows "balances (rd_db rd') = balances (rd_db rd) \<and> transactions (rd_db rd') = transactions (rd_db rd)
    \<and> fee_collections (rd_db rd') = fee_collections (rd_db rd)
    \<and> (\<exists>route rcp info. body = hub_payment_body env now route rcp (hp_amount req) info)"
  using assms(7)
proof (cases rule: send_cases)
  case (refused e r st1' rd0)
  then show ?thesis by (auto simp: fail_def)
next
  case (replayed body' st1')
  then show ?thesis using assms(6) by simp
next
  case (duplicate d0 d route rcp info st1')
  then show ?thesis using known_key_moves_nothing [OF assms(1-5)] by blast
next
  case (paid d0 d route rcp info st1' body' rd2 d2)
  have "rd_db rd2 = d" using remember_books [OF paid(5)] by simp
  with known_key_moves_nothing [OF assms(1-5) paid(2)] paid(4,7) same_books_fields [OF paid(6)] show ?thesis
    by auto
qed

theorem borrowed_key_pays_nothing_witness:
  "\<exists>body rd' st' c'. send_hub_routed_payment demo_tee_env 8 [] demo_second demo_back_request (Some ''key-0001'') None ''tx''
      (None :: unit redis_client) demo_paid_rd new_store = ((Inr body, rd', st'), c')
    \<and> available_of 2 ''XMR'' (balances (rd_db demo_paid_rd)) = 20 \<and> balances (rd_db rd') = balances (rd_db demo_paid_rd)"
proof -
  let ?send = "send_hub_routed_payment demo_tee_env 8 [] demo_second demo_back_request (Some ''key-0001'') None ''tx''
      (None :: unit redis_client) demo_paid_rd new_store"
  have known: "first_row (\<lambda>t. tx_hash t = ''hub:'' @ ''key-0001'') (transactions (rd_db demo_paid_rd)) \<noteq> None"
    and twenty: "available_of 2 ''XMR'' (balances (rd_db demo_paid_rd)) = 20" by code_simp+
  have "fst (reserve_key (pe_route demo_tee_env) 8 (sn_id demo_second) ''hub-routing'' (Some ''key-0001'')
      (payment_hash demo_tee_env demo_back_request) demo_paid_rd new_store) = Inr None" by code_simp
  then obtain st1 where fresh: "reserve_key (pe_route demo_tee_env) 8 (sn_id demo_second) ''hub-routing'' (Some ''key-0001'')
      (payment_hash demo_tee_env demo_back_request) demo_paid_rd new_store = (Inr None, st1)" by (metis prod.collapse)
  obtain d0 z where z: "pay_in_session demo_tee_env 8 demo_second demo_back_request (Some ''key-0001'') (rd_db demo_paid_rd) = (d0, z)"
    by (rule prod.exhaust)
  have "case pay_in_session demo_tee_env 8 demo_second demo_back_request (Some ''key-0001'') (rd_db demo_paid_rd) of
      (d0, Inl e) \<Rightarrow> False | (d0, Inr x) \<Rightarrow> True" by code_simp
  then obtain x where "z = Inr x" by (cases z) (simp_all add: z)
  have "get_policy (sn_id demo_second) [] = None" by (simp add: get_policy_def first_row_def)
  from send_succeeds [OF fresh this z [unfolded \<open>z = Inr x\<close>]] obtain body rd' st' c'
    where run: "?send = ((Inr body, rd', st'), c')" by metis
  from borrowed_key_pays_nothing [OF _ _ _ _ known fresh run] have "balances (rd_db rd') = balances (rd_db demo_paid_rd)"
    using demo_tee_reliable by (simp add: demo_tee_env_def reliable_link_def)
  with run twenty show ?thesis by blast
qed

text \<open>A payment the service committed and whose reply was lost is made a second time by the local handler, under a
  payment id of its own: one request, one key, and the sender pays amount and commission twice.\<close>

lemma commission_rows:
  assumes "create_with_commission dialect now cache hash network fr to n tok ptype status key d = Inr (d', cache', tx_id)"
    and "table_ok (balances d)" and "key = None \<or> first_row (\<lambda>t. tx_hash t = hash) (transactions d) = None"
  shows "table_ok (balances d')" and "agents d' = agents d" and "hub_routes d' = hub_routes d"
    and "\<exists>tx. transactions d' = add_row tx (transactions d) \<and> tx_hash tx = hash"
proof -
  obtain fee t1 where t1: "deduct now fr (of_int n / PICO + of_int fee / PICO) tok (balances d) = Inr t1"
    and b: "balances d' = credit now to (of_int n / PICO) tok t1"
    by (rule create_with_commission_Inr [OF assms])
  have "table_ok t1" using t1 assms(2) by (auto simp: deduct_def Let_def get_for_update_Inr split: sum.splits prod.splits if_split_asm)
  then show "table_ok (balances d')" by (simp add: b)
  show "agents d' = agents d" "hub_routes d' = hub_routes d" "\<exists>tx. transactions d' = add_row tx (transactions d) \<and> tx_hash tx = hash"
    using assms(1,3)
    by (auto simp: create_with_commission_def and_then_Inr_iff insert_transaction_def create_transaction_def Let_def
        split: if_split_asm option.splits prod.splits)
qed

lemma get_tier_no_cache: "fst (get_tier a d None) = fst (get_tier a d begin_request)"
  by (simp add: get_tier_def begin_request_def Let_def)

lemma lost_reply_pays_twice:
  assumes "pe_tee_enabled env" and "pe_link env now = ReplyLost" and "k \<noteq> ''''"
    and "pe_decimal_of env (snd (hp_amount req)) = Some (fst (hp_amount req))" and "table_ok (balances d)"
    and "pay_in_session env now s req (Some k) d = (d0, Inr (d', route, rcp, info))" and "\<not> rt_duplicate route"
    and "\<forall>(i, t) \<in> set (transactions d). tx_hash t \<noteq> rt_payment_id route" and "d0 \<noteq> d"
  shows "\<exists>fee. let pico = int_of_decimal (fst (hp_amount req) * PICO) in
    compute_fee pico (fst (get_tier (sn_id s) d begin_request)) = Inr fee
    \<and> available_of (sn_id s) ''XMR'' (balances d') = available_of (sn_id s) ''XMR'' (balances d) - 2 * (of_int pico + of_int fee) / PICO
    \<and> available_of (rp_id rcp) ''XMR'' (balances d') = available_of (rp_id rcp) ''XMR'' (balances d) + 2 * of_int pico / PICO"
proof -
  let ?n = "int_of_decimal (fst (hp_amount req) * PICO)"
  obtain g fee_info where ne: "rp_id rcp \<noteq> sn_id s"
    and disp: "dispatch_hub_routing env now begin_request s rcp req (Some k) fee_info d = (d0, Inr (d', route, info))"
    by (rule session_parts [OF assms(6)])
  let ?e = "build_envelope s rcp (hp_amount req) req"
  obtain reply where call: "call_service env now ?e k d = (d0, reply)"
    and r: "Inr (d', route, info) = tee_settle env now begin_request s rcp req k fee_info (read_reply reply) d0"
    by (rule dispatch_tee [OF assms(1) disp]) (simp add: tee_key_def assms(3))
  obtain ans where served: "hub_routing env now ?e k d = (d0, ans)" and lost: "reply = TeeNoReply"
    using call assms(2) by (cases "hub_routing env now ?e k d") (simp add: call_service_def)
  have local: "execute_hub_transfer env now begin_request s rcp (fst (hp_amount req)) (hp_urgency req) (Some k) fee_info d0
      = Inr (d', route, info)"
    using r by (simp add: lost read_reply_def tee_settle_def Let_def)
  from served assms(9) obtain x c tx_id where valid: "validate_envelope env ?e k = Some x" and pos: "0 < int_of_decimal (x * PICO)"
    and tx: "create_with_commission (pe_dialect env) now None (''hub:'' @ k) ''hub'' (te_from_agent_id ?e)
         (te_to_agent_id ?e) (int_of_decimal (x * PICO)) ''XMR'' PtHubRouting TxConfirmed (Some k) d = Inr (d0, c, tx_id)"
    by (cases rule: hub_routing_cases) blast+
  have x: "x = fst (hp_amount req)"
    using valid assms(4) by (auto simp: validate_envelope_def build_envelope_def split: option.splits if_split_asm)
  have new: "Some k = None \<or> first_row (\<lambda>t. tx_hash t = ''hub:'' @ k) (transactions d) = None"
  proof (rule ccontr)
    assume "\<not> ?thesis"
    then obtain i t where "first_row (\<lambda>t. tx_hash t = ''hub:'' @ k) (transactions d) = Some (i, t)" by auto
    with tx pos assms(9) show False by (simp add: create_with_commission_def)
  qed
  note tx = tx [unfolded x, unfolded build_envelope_def, simplified tee_envelope.simps]
  note rows = commission_rows [OF tx assms(5) new]
  obtain d1 d2 where pid: "rt_payment_id route = hub_payment_id (pe_digest env) (pe_token_hex env) (sn_id s) (rp_id rcp)
      (fst (hp_amount req)) (Some k)"
    by (rule execute_parts [OF local assms(7)]) metis
  have "rt_payment_id route \<noteq> ''hub:'' @ k" unfolding pid by (simp add: hub_payment_id_def)
  then have fresh: "\<forall>(i, t) \<in> set (transactions d0). tx_hash t \<noteq> rt_payment_id route"
    using rows(4) assms(8) by (auto simp: add_row_def insert_row_def)
  have tier: "fst (get_tier (sn_id s) d0 begin_request) = fst (get_tier (sn_id s) d begin_request)"
    using get_tier_agents [OF rows(2)] by simp
  from transfer_effect [OF tx assms(5) new] obtain fee where fee: "compute_fee ?n (fst (get_tier (sn_id s) d begin_request)) = Inr fee"
    and first: "\<And>b u. available_of b u (balances d0) = available_of b u (balances d)
         - (if b = sn_id s \<and> u = ''XMR'' then (of_int ?n + of_int fee) / PICO else 0)
         + (if b = rp_id rcp \<and> u = ''XMR'' then of_int ?n / PICO else 0)"
    unfolding get_tier_no_cache by blast
  obtain fee' where "compute_fee ?n (fst (get_tier (sn_id s) d0 begin_request)) = Inr fee'"
    and second: "\<And>b u. available_of b u (balances d') = available_of b u (balances d0)
         - (if b = sn_id s \<and> u = ''XMR'' then (of_int ?n + of_int fee') / PICO else 0)
         + (if b = rp_id rcp \<and> u = ''XMR'' then of_int ?n / PICO else 0)"
    by (rule execute_effect [OF local assms(7) rows(1) fresh]) (rule that, assumption+)
  then have "fee' = fee" using fee tier by simp
  then show ?thesis
    using fee ne by (auto simp: Let_def first second add_divide_distrib)
qed

text \<open>So it is on the demonstration: one payment of twenty takes forty and two commissions.\<close>

lemma lost_reply_witness:
  "case pay_in_session (demo_tee_env\<lparr>pe_link := (\<lambda>t. ReplyLost)\<rparr>) 7 demo_sender (fraction_request 20) (Some ''key-0001'') demo_pay_db of
     (d0, Inr (d', route, rcp, info)) \<Rightarrow> available_of 2 ''XMR'' (balances d') = 40
        \<and> available_of 1 ''XMR'' (balances d') = 50 - 2 * (20 + hf_fee_amount info)
   | _ \<Rightarrow> False"
  by code_simp

text \<open>An urgent payment the local handler takes is refused by the service, whose envelope knows no such urgency.\<close>

lemma urgent_refused_remotely:
  assumes "te_urgency e = ''urgent''"
  shows "hub_routing env now e key d = (d, detail_reply 422 ''validation error'')"
  using assms by (auto simp: hub_routing_def validate_envelope_def split: option.split)

end
