(* ===== verification/Conditional.thy ===== *)
theory Conditional
  imports Transfers Events
begin

text \<open>
  Conditional payments: \<open>sthrip/db/conditional_payment_repo.py\<close>,
  \<open>sthrip/services/conditional_payment_service.py\<close> and the background cycle of
  \<open>api/main_v2.py\<close> that evaluates and expires them. The sender's funds are locked when a payment
  is created; it leaves PENDING once, to the recipient or back to the sender.

  The values of a condition come from the request as free JSON. The three library readers the
  evaluation applies to them are arguments of the model (\<open>readers\<close>): \<open>datetime.fromisoformat\<close> with a
  text without offset read as UTC, \<open>UUID\<close> and \<open>Decimal\<close>, each \<open>None\<close> where the library raises one of
  the exceptions the evaluation catches. \<open>UUID\<close> of a value that is neither text nor null raises
  \<open>AttributeError\<close>, which it does not catch. A payment row stands for the response dictionary.
\<close>

type_synonym conditional_table = "(ident, conditional_payment) table"

section \<open>The repository\<close>

definition conditional_create ::
  "moment \<Rightarrow> ident \<Rightarrow> ident \<Rightarrow> decimal \<Rightarrow> string \<Rightarrow> (string \<times> config_value) list \<Rightarrow> decimal \<Rightarrow> moment
     \<Rightarrow> token \<Rightarrow> conditional_payment"
where
  "conditional_create now from_agent to_agent amount ctype config locked expires_at currency =
     \<lparr>cp_from_agent_id = from_agent, cp_to_agent_id = to_agent, cp_amount = amount,
      cp_currency = currency, cp_condition_type = ctype, cp_condition_config = config,
      cp_locked_amount = locked, cp_state = CondPending, cp_expires_at = expires_at,
      cp_created_at = now, cp_triggered_at = None, cp_executed_at = None\<rparr>"

definition repo_trigger :: "moment \<Rightarrow> ident \<Rightarrow> conditional_table \<Rightarrow> nat \<times> conditional_table" where
  "repo_trigger now =
     update_row (\<lambda>p. cp_state p = CondPending)
       (\<lambda>p. p\<lparr>cp_state := CondTriggered, cp_triggered_at := Some now\<rparr>)"

definition repo_execute :: "moment \<Rightarrow> ident \<Rightarrow> conditional_table \<Rightarrow> nat \<times> conditional_table" where
  "repo_execute now =
     update_row (\<lambda>p. cp_state p = CondTriggered)
       (\<lambda>p. p\<lparr>cp_state := CondExecuted, cp_executed_at := Some now\<rparr>)"

definition repo_expire :: "ident \<Rightarrow> conditional_table \<Rightarrow> nat \<times> conditional_table" where
  "repo_expire = update_row (\<lambda>p. cp_state p = CondPending) (\<lambda>p. p\<lparr>cp_state := CondExpired\<rparr>)"

definition repo_cancel :: "ident \<Rightarrow> conditional_table \<Rightarrow> nat \<times> conditional_table" where
  "repo_cancel = update_row (\<lambda>p. cp_state p = CondPending) (\<lambda>p. p\<lparr>cp_state := CondCancelled\<rparr>)"

definition conditional_list_by_agent ::
  "ident \<Rightarrow> string option \<Rightarrow> conditional_state option \<Rightarrow> nat \<Rightarrow> nat \<Rightarrow> conditional_table
     \<Rightarrow> (ident \<times> conditional_payment) list \<times> nat"
where
  "conditional_list_by_agent a role st limit offset t =
     (let mine = select_where (\<lambda>p.
            (if role = Some ''sender'' then cp_from_agent_id p = a
             else if role = Some ''recipient'' then cp_to_agent_id p = a
             else cp_from_agent_id p = a \<or> cp_to_agent_id p = a)
            \<and> (case st of None \<Rightarrow> True | Some s \<Rightarrow> cp_state p = s)) t
      in (take (min limit MAX_QUERY_LIMIT) (drop offset (sort_key (\<lambda>(k, p). - cp_created_at p) mine)),
          length mine))"

definition get_conditional_expired :: "moment \<Rightarrow> conditional_table \<Rightarrow> (ident \<times> conditional_payment) list" where
  "get_conditional_expired now t =
     select_where (\<lambda>p. cp_state p = CondPending \<and> cp_expires_at p \<le> now) t"

section \<open>Conditions\<close>

record readers =
  read_moment :: "string \<Rightarrow> moment option"
  read_uuid :: "string \<Rightarrow> ident option"
  read_decimal :: "string \<Rightarrow> decimal option"

definition VALID_CONDITION_TYPES :: "string list" where
  "VALID_CONDITION_TYPES =
     [''time_lock'', ''escrow_completed'', ''balance_threshold'', ''webhook'']"

definition REQUIRED_CONFIG_FIELDS :: "(string \<times> string list) list" where
  "REQUIRED_CONFIG_FIELDS =
     [(''time_lock'', [''release_at'']),
      (''escrow_completed'', [''escrow_id'', ''required_status'']),
      (''balance_threshold'', [''agent_id'', ''threshold'']),
      (''webhook'', [''callback_url''])]"

definition validate_condition_config :: "string \<Rightarrow> (string \<times> config_value) list \<Rightarrow> unit outcome" where
  "validate_condition_config ctype config =
     (let required = (case map_of REQUIRED_CONFIG_FIELDS ctype of None \<Rightarrow> [] | Some fs \<Rightarrow> fs)
      in if list_all (\<lambda>f. map_of config f \<noteq> None) required then Inr ()
         else Inl (ValueError ''condition_config missing required field''))"

definition config_get :: "(string \<times> config_value) list \<Rightarrow> string \<Rightarrow> string \<Rightarrow> config_value" where
  "config_get config k fallback = (case map_of config k of None \<Rightarrow> CfgText fallback | Some v \<Rightarrow> v)"

text \<open>\<open>UUID(v)\<close>: \<open>None\<close> for the exceptions that are caught, \<open>AttributeError\<close> otherwise.\<close>

definition uuid_of_config :: "readers \<Rightarrow> config_value \<Rightarrow> ident option outcome" where
  "uuid_of_config rd v =
     (case v of
        CfgText s \<Rightarrow> Inr (read_uuid rd s)
      | CfgNull \<Rightarrow> Inr None
      | CfgNumber x \<Rightarrow> Inl (AttributeError ''replace'')
      | CfgOther \<Rightarrow> Inl (AttributeError ''replace''))"

definition decimal_of_config :: "readers \<Rightarrow> config_value \<Rightarrow> decimal option" where
  "decimal_of_config rd v =
     (case v of CfgText s \<Rightarrow> read_decimal rd s | CfgNumber x \<Rightarrow> Some x | CfgNull \<Rightarrow> None | CfgOther \<Rightarrow> None)"

definition time_lock_met :: "readers \<Rightarrow> moment \<Rightarrow> (string \<times> config_value) list \<Rightarrow> bool" where
  "time_lock_met rd now config =
     (case config_get config ''release_at'' '''' of
        CfgText s \<Rightarrow> (case read_moment rd s of None \<Rightarrow> False | Some release_at \<Rightarrow> release_at \<le> now)
      | _ \<Rightarrow> False)"

definition escrow_status_met :: "readers \<Rightarrow> (string \<times> config_value) list \<Rightarrow> db \<Rightarrow> bool outcome" where
  "escrow_status_met rd config d =
     and_then (uuid_of_config rd (config_get config ''escrow_id'' '''')) (\<lambda>escrow_id.
       Inr (case escrow_id of
              None \<Rightarrow> False
            | Some e \<Rightarrow> (case row_of (escrow_deals d) e of
                None \<Rightarrow> False
              | Some deal \<Rightarrow> CfgText (escrow_status_value (deal_status deal))
                  = config_get config ''required_status'' ''completed'')))"

definition balance_threshold_met ::
  "readers \<Rightarrow> moment \<Rightarrow> token \<Rightarrow> (string \<times> config_value) list \<Rightarrow> db \<Rightarrow> (bool \<times> db) outcome"
where
  "balance_threshold_met rd now currency config d =
     and_then (uuid_of_config rd (config_get config ''agent_id'' '''')) (\<lambda>agent_id.
       Inr (case (agent_id, decimal_of_config rd (config_get config ''threshold'' ''0'')) of
              (Some a, Some threshold) \<Rightarrow>
                let (balance, t) = get_available now a currency (balances d)
                in (balance < threshold, d\<lparr>balances := t\<rparr>)
            | _ \<Rightarrow> (False, d)))"

definition condition_met ::
  "readers \<Rightarrow> moment \<Rightarrow> conditional_payment \<Rightarrow> db \<Rightarrow> (bool \<times> db) outcome"
where
  "condition_met rd now p d =
     (let ctype = cp_condition_type p; config = cp_condition_config p
      in if ctype = ''time_lock'' then Inr (time_lock_met rd now config, d)
         else if ctype = ''escrow_completed''
         then and_then (escrow_status_met rd config d) (\<lambda>met. Inr (met, d))
         else if ctype = ''balance_threshold''
         then balance_threshold_met rd now (cp_currency p) config d
         else Inr (False, d))"

section \<open>The service\<close>

definition create_conditional ::
  "moment \<Rightarrow> ident \<Rightarrow> ident \<Rightarrow> decimal \<Rightarrow> token \<Rightarrow> string \<Rightarrow> (string \<times> config_value) list \<Rightarrow> int \<Rightarrow> db
     \<Rightarrow> (db \<times> ident) outcome"
where
  "create_conditional now from_agent to_agent amount currency ctype config expires_hours d =
     (if from_agent = to_agent then Inl (ValueError ''Sender and recipient must be different agents'')
      else if ctype \<notin> set VALID_CONDITION_TYPES then Inl (ValueError ''Invalid condition_type'')
      else and_then (validate_condition_config ctype config) (\<lambda>_.
        and_then (deduct now from_agent amount currency (balances d)) (\<lambda>t.
          let expires_at = now + hours (max expires_hours 0);
              p = new_id (conditional_payments d);
              d1 = d\<lparr>balances := t,
                     conditional_payments := add_row
                       (conditional_create now from_agent to_agent amount ctype config amount expires_at currency)
                       (conditional_payments d)\<rparr>
          in and_then (log_event 0 audit_keywords
                 (audit_of ''conditional_payment.created'' (Some from_agent) ''conditional_payment'' p) d1)
               (\<lambda>d2. Inr (d2, p)))))"

definition execute_payment :: "moment \<Rightarrow> ident \<Rightarrow> db \<Rightarrow> db outcome" where
  "execute_payment now p d =
     (case row_of (conditional_payments d) p of
        None \<Rightarrow> Inl (LookupError ''Conditional payment not found'')
      | Some pay \<Rightarrow>
          let t = credit now (cp_to_agent_id pay) (cp_locked_amount pay) (cp_currency pay) (balances d);
              (executed, c) = repo_execute now p (conditional_payments d)
          in if executed = 0 then Inl (ValueError ''Failed to execute payment (state conflict)'')
             else log_event 0 audit_keywords
               (audit_of ''conditional_payment.executed'' (Some (cp_from_agent_id pay)) ''conditional_payment'' p)
               (d\<lparr>balances := t, conditional_payments := c\<rparr>))"

definition trigger_webhook :: "moment \<Rightarrow> ident \<Rightarrow> ident \<Rightarrow> db \<Rightarrow> db outcome" where
  "trigger_webhook now p agent d =
     (case row_of (conditional_payments d) p of
        None \<Rightarrow> Inl (LookupError ''Conditional payment not found'')
      | Some pay \<Rightarrow>
          if cp_from_agent_id pay \<noteq> agent
          then Inl (PermissionError ''Only the sender can trigger this payment'')
          else if cp_state pay \<noteq> CondPending then Inl (ValueError ''Cannot trigger payment in state'')
          else let (triggered, c) = repo_trigger now p (conditional_payments d)
               in if triggered = 0 then Inl (ValueError ''Failed to trigger payment (state conflict)'')
                  else execute_payment now p (d\<lparr>conditional_payments := c\<rparr>))"

definition cancel_conditional :: "moment \<Rightarrow> ident \<Rightarrow> ident \<Rightarrow> db \<Rightarrow> db outcome" where
  "cancel_conditional now agent p d =
     (case row_of (conditional_payments d) p of
        None \<Rightarrow> Inl (LookupError ''Conditional payment not found'')
      | Some pay \<Rightarrow>
          if cp_from_agent_id pay \<noteq> agent
          then Inl (PermissionError ''Only the sender can cancel this payment'')
          else if cp_state pay \<noteq> CondPending then Inl (ValueError ''Cannot cancel payment in state'')
          else let t = credit now (cp_from_agent_id pay) (cp_locked_amount pay) (cp_currency pay) (balances d);
                   (cancelled, c) = repo_cancel p (conditional_payments d)
               in if cancelled = 0 then Inl (ValueError ''Failed to cancel payment (state conflict)'')
                  else log_event 0 audit_keywords
                    (audit_of ''conditional_payment.cancelled'' (Some agent) ''conditional_payment'' p)
                    (d\<lparr>balances := t, conditional_payments := c\<rparr>))"

text \<open>The body of the evaluation loop for one of the payments read as PENDING when it started.\<close>

definition evaluate_one ::
  "readers \<Rightarrow> moment \<Rightarrow> ident \<times> conditional_payment \<Rightarrow> db \<Rightarrow> (db \<times> nat) outcome"
where
  "evaluate_one rd now e d =
     (let (p, pay) = e
      in if cp_condition_type pay = ''webhook'' then Inr (d, 0)
         else and_then (condition_met rd now pay d) (\<lambda>(met, d1).
           if \<not> met then Inr (d1, 0)
           else let (triggered, c) = repo_trigger now p (conditional_payments d1)
                in if triggered = 0 then Inr (d1\<lparr>conditional_payments := c\<rparr>, 0)
                   else and_then (execute_payment now p (d1\<lparr>conditional_payments := c\<rparr>)) (\<lambda>d2. Inr (d2, 1))))"

fun evaluate_each ::
  "readers \<Rightarrow> moment \<Rightarrow> (ident \<times> conditional_payment) list \<Rightarrow> db \<Rightarrow> (db \<times> nat) outcome"
where
  "evaluate_each rd now [] d = Inr (d, 0)"
| "evaluate_each rd now (e # es) d =
     and_then (evaluate_one rd now e d) (\<lambda>(d1, k).
       and_then (evaluate_each rd now es d1) (\<lambda>(d2, n). Inr (d2, k + n)))"

definition evaluate_conditions :: "readers \<Rightarrow> moment \<Rightarrow> db \<Rightarrow> (db \<times> nat) outcome" where
  "evaluate_conditions rd now d =
     evaluate_each rd now (select_where (\<lambda>p. cp_state p = CondPending) (conditional_payments d)) d"

definition expire_one :: "moment \<Rightarrow> ident \<times> conditional_payment \<Rightarrow> db \<Rightarrow> (db \<times> nat) outcome" where
  "expire_one now e d =
     (let (p, pay) = e;
          t = credit now (cp_from_agent_id pay) (cp_locked_amount pay) (cp_currency pay) (balances d);
          (expired, c) = repo_expire p (conditional_payments d);
          d1 = d\<lparr>balances := t, conditional_payments := c\<rparr>
      in if expired = 0 then Inr (d1, 0)
         else and_then (log_event 0 audit_keywords
             (audit_of ''conditional_payment.expired'' (Some (cp_from_agent_id pay)) ''conditional_payment'' p) d1)
           (\<lambda>d2. Inr (d2, 1)))"

fun expire_each :: "moment \<Rightarrow> (ident \<times> conditional_payment) list \<Rightarrow> db \<Rightarrow> (db \<times> nat) outcome" where
  "expire_each now [] d = Inr (d, 0)"
| "expire_each now (e # es) d =
     and_then (expire_one now e d) (\<lambda>(d1, k).
       and_then (expire_each now es d1) (\<lambda>(d2, n). Inr (d2, k + n)))"

definition expire_conditional :: "moment \<Rightarrow> db \<Rightarrow> (db \<times> nat) outcome" where
  "expire_conditional now d =
     expire_each now (get_conditional_expired now (conditional_payments d)) d"

text \<open>
  One turn of \<open>_conditional_payment_loop\<close>: both sweeps in one session; an exception is logged and
  rolls the session back.
\<close>

definition conditional_cycle :: "readers \<Rightarrow> moment \<Rightarrow> db \<Rightarrow> db" where
  "conditional_cycle rd now d =
     (case and_then (evaluate_conditions rd now d) (\<lambda>(d1, executed). expire_conditional now d1) of
        Inl e \<Rightarrow> d
      | Inr (d2, expired) \<Rightarrow> d2)"

end
