(* ===== verification/Conditional_Life.thy ===== *)
theory Conditional_Life
  imports Conditional
begin

text \<open>
  The life of conditional payments: each locked sum leaves PENDING once and goes to exactly one of
  the two parties, per agent and token; and what one condition that the evaluation cannot read does
  to the background cycle.
\<close>

section \<open>Transitions\<close>

interpretation cond_trigger: guarded_transition "repo_trigger now" "\<lambda>p. cp_state p = CondPending"
  "\<lambda>p. p\<lparr>cp_state := CondTriggered, cp_triggered_at := Some now\<rparr>" for now
  unfolding repo_trigger_def by (rule update_row_guarded) simp

interpretation cond_execute: guarded_transition "repo_execute now" "\<lambda>p. cp_state p = CondTriggered"
  "\<lambda>p. p\<lparr>cp_state := CondExecuted, cp_executed_at := Some now\<rparr>" for now
  unfolding repo_execute_def by (rule update_row_guarded) simp

interpretation cond_expire: guarded_transition repo_expire "\<lambda>p. cp_state p = CondPending"
  "\<lambda>p. p\<lparr>cp_state := CondExpired\<rparr>"
  unfolding repo_expire_def by (rule update_row_guarded) simp

interpretation cond_cancel: guarded_transition repo_cancel "\<lambda>p. cp_state p = CondPending"
  "\<lambda>p. p\<lparr>cp_state := CondCancelled\<rparr>"
  unfolding repo_cancel_def by (rule update_row_guarded) simp

section \<open>Accounts\<close>

text \<open>
  What the payments account for in the balance of agent \<open>b\<close>: minus the sums it locked and did not
  get back, plus the sums it was paid.
\<close>

definition cond_position :: "ident \<Rightarrow> token \<Rightarrow> conditional_payment \<Rightarrow> decimal" where
  "cond_position b u p =
     (if cp_currency p = u
      then (if cp_to_agent_id p = b \<and> cp_state p = CondExecuted then cp_locked_amount p else 0)
         - (if cp_from_agent_id p = b \<and> cp_state p \<in> {CondPending, CondTriggered, CondExecuted}
            then cp_locked_amount p else 0)
      else 0)"

definition cond_account :: "ident \<Rightarrow> token \<Rightarrow> db \<Rightarrow> decimal" where
  "cond_account b u d = available_of b u (balances d)
     - table_sum (\<lambda>k. cond_position b u) (conditional_payments d)"

definition cond_ok :: "db \<Rightarrow> bool" where
  "cond_ok d \<longleftrightarrow> table_ok (conditional_payments d)
     \<and> (\<forall>k p. row_of (conditional_payments d) k = Some p \<longrightarrow> cp_state p \<noteq> CondTriggered)"

definition cond_kept :: "conditional_payment \<Rightarrow> conditional_payment \<Rightarrow> bool" where
  "cond_kept p p' \<longleftrightarrow> (cp_state p \<noteq> CondPending \<longrightarrow> p' = p)
     \<and> cp_from_agent_id p' = cp_from_agent_id p \<and> cp_to_agent_id p' = cp_to_agent_id p
     \<and> cp_locked_amount p' = cp_locked_amount p \<and> cp_currency p' = cp_currency p"

definition cond_evolves :: "db \<Rightarrow> db \<Rightarrow> bool" where
  "cond_evolves d d' \<longleftrightarrow> (\<forall>k p. row_of (conditional_payments d) k = Some p \<longrightarrow>
     (\<exists>p'. row_of (conditional_payments d') k = Some p' \<and> cond_kept p p'))"

definition cond_step :: "db \<Rightarrow> db \<Rightarrow> bool" where
  "cond_step d d' \<longleftrightarrow> cond_ok d' \<and> cond_evolves d d' \<and> (\<forall>b u. cond_account b u d' = cond_account b u d)"

lemma cond_kept_trans: "cond_kept p q \<Longrightarrow> cond_kept q r \<Longrightarrow> cond_kept p r"
  by (auto simp: cond_kept_def)

lemma cond_step_refl: "cond_ok d \<Longrightarrow> cond_step d d"
  by (simp add: cond_step_def cond_evolves_def cond_kept_def)

lemma cond_step_trans: "cond_step d1 d2 \<Longrightarrow> cond_step d2 d3 \<Longrightarrow> cond_step d1 d3"
  unfolding cond_step_def cond_evolves_def by (metis cond_kept_trans)

lemma cond_step_ok: "cond_step d d' \<Longrightarrow> cond_ok d'"
  by (simp add: cond_step_def)

text \<open>What the step relation reads of a session.\<close>

lemma cond_step_cong:
  assumes "conditional_payments d2 = conditional_payments d1"
    and "\<And>b u. available_of b u (balances d2) = available_of b u (balances d1)"
  shows "cond_step d d2 = cond_step d d1"
  by (simp add: cond_step_def cond_ok_def cond_evolves_def cond_account_def assms)

lemma cond_step_audit [simp]: "cond_step d (d'\<lparr>audit_log := x\<rparr>) = cond_step d d'"
  by (rule cond_step_cong) simp_all

text \<open>One pending payment settled in favour of agent \<open>a\<close>.\<close>

lemma cond_step_settle:
  assumes "cond_ok d" and "row_step k p p' (conditional_payments d) c" and "cp_state p = CondPending"
    and "cond_kept p p'"
    and "cp_state p' = CondExecuted \<and> a = cp_to_agent_id p
      \<or> cp_state p' \<in> {CondExpired, CondCancelled} \<and> a = cp_from_agent_id p"
  shows "cond_step d (d\<lparr>balances := credit now a (cp_locked_amount p) (cp_currency p) (balances d),
    conditional_payments := c\<rparr>)"
proof -
  let ?d = "d\<lparr>balances := credit now a (cp_locked_amount p) (cp_currency p) (balances d),
    conditional_payments := c\<rparr>"
  have "cond_ok ?d"
    using assms(1,5) row_step_row_of [OF assms(2)] row_step_ok [OF assms(2)]
    by (auto simp: cond_ok_def)
  moreover have "cond_evolves d ?d"
    using assms(4) row_step_row_of [OF assms(2)] assms(2)
    by (auto simp: cond_evolves_def row_step_def cond_kept_def)
  moreover have "cond_account b u ?d = cond_account b u d" for b u
  proof -
    have "table_sum (\<lambda>k. cond_position b u) c = table_sum (\<lambda>k. cond_position b u) (conditional_payments d)
        - cond_position b u p + cond_position b u p'"
      by (rule row_step_sum [OF assms(2)]) simp
    moreover have "cond_position b u p' - cond_position b u p =
        (if b = a \<and> u = cp_currency p then cp_locked_amount p else 0)"
      using assms(3,4,5) by (auto simp: cond_position_def cond_kept_def)
    ultimately show ?thesis by (simp add: cond_account_def available_credit)
  qed
  ultimately show ?thesis by (simp add: cond_step_def)
qed

section \<open>The operations as steps\<close>

lemma create_conditional_Inr:
  assumes "create_conditional now a b x tok ctype config h d = Inr (d', k)"
  obtains t where "deduct now a x tok (balances d) = Inr t" and "a \<noteq> b"
    and "k = new_id (conditional_payments d)"
    and "d' = d\<lparr>balances := t, conditional_payments := add_row
          (conditional_create now a b x ctype config x (now + hours (max h 0)) tok) (conditional_payments d),
        audit_log := audit_log d @ [audit_of ''conditional_payment.created'' (Some a) ''conditional_payment'' k]\<rparr>"
  using assms that
  by (auto simp: create_conditional_def and_then_Inr_iff Let_def log_event_keywords_bind split: if_splits)

lemma create_conditional_step:
  assumes "create_conditional now a b x tok ctype config h d = Inr (d', k)" and "cond_ok d"
  shows "cond_step d d'"
proof -
  let ?p = "conditional_create now a b x ctype config x (now + hours (max h 0)) tok"
  obtain t where t: "deduct now a x tok (balances d) = Inr t" and ne: "a \<noteq> b"
    and d': "d' = d\<lparr>balances := t, conditional_payments := add_row ?p (conditional_payments d),
      audit_log := audit_log d @ [audit_of ''conditional_payment.created'' (Some a) ''conditional_payment'' k]\<rparr>"
    using create_conditional_Inr [OF assms(1)] by metis
  have "cond_ok d'"
    using assms(2) by (auto simp: cond_ok_def d' row_of_add_row conditional_create_def split: if_splits)
  moreover have "cond_evolves d d'"
    using row_of_new_id [of "conditional_payments d"]
    by (auto simp: cond_evolves_def d' row_of_add_row cond_kept_def)
  moreover have "cond_account b' u d' = cond_account b' u d" for b' u
    using deduct_Inr(2) [OF t, of b' u] ne
    by (auto simp: cond_account_def d' table_sum_add_row cond_position_def conditional_create_def)
  ultimately show ?thesis by (simp add: cond_step_def)
qed

text \<open>Trigger and execution in one session: the row goes from PENDING to EXECUTED.\<close>

definition executed_row :: "moment \<Rightarrow> conditional_payment \<Rightarrow> conditional_payment" where
  "executed_row now p =
     p\<lparr>cp_triggered_at := Some now, cp_state := CondExecuted, cp_executed_at := Some now\<rparr>"

lemma trigger_then_execute:
  assumes "cond_ok d" and "row_of (conditional_payments d) k = Some p" and "cp_state p = CondPending"
  shows "fst (repo_trigger now k (conditional_payments d)) = 1"
    and "\<exists>d'. execute_payment now k
        (d\<lparr>conditional_payments := snd (repo_trigger now k (conditional_payments d))\<rparr>) = Inr d'
      \<and> cond_step d d' \<and> row_of (conditional_payments d') k = Some (executed_row now p)"
proof -
  have ok: "table_ok (conditional_payments d)" using assms(1) by (simp add: cond_ok_def)
  show "fst (repo_trigger now k (conditional_payments d)) = 1"
    by (rule cond_trigger.hit_rows [OF ok assms(2,3)])
  let ?c = "snd (repo_trigger now k (conditional_payments d))"
  let ?q = "p\<lparr>cp_state := CondTriggered, cp_triggered_at := Some now\<rparr>"
  have first: "row_step k p ?q (conditional_payments d) ?c"
    by (rule cond_trigger.hit_steps [OF ok assms(2,3)])
  note ok1 = row_step_ok [OF first]
  have row: "row_of ?c k = Some ?q" by (simp add: row_step_row_of [OF first])
  have "row_step k ?q (executed_row now p) ?c (snd (repo_execute now k ?c))"
    using cond_execute.hit_steps [OF ok1 row, of now] by (simp add: executed_row_def)
  from row_step_trans [OF first this]
  have both: "row_step k p (executed_row now p) (conditional_payments d) (snd (repo_execute now k ?c))" .
  have hit: "fst (repo_execute now k ?c) = 1" by (rule cond_execute.hit_rows [OF ok1 row]) simp
  let ?d = "d\<lparr>balances := credit now (cp_to_agent_id p) (cp_locked_amount p) (cp_currency p) (balances d),
      conditional_payments := snd (repo_execute now k ?c)\<rparr>"
  have "cond_step d ?d"
    by (rule cond_step_settle [OF assms(1) both assms(3)])
      (auto simp: cond_kept_def executed_row_def assms(3))
  moreover have "execute_payment now k (d\<lparr>conditional_payments := ?c\<rparr>) = Inr (?d\<lparr>audit_log := audit_log d @
      [audit_of ''conditional_payment.executed'' (Some (cp_from_agent_id p)) ''conditional_payment'' k]\<rparr>)"
    using row hit by (simp add: execute_payment_def Let_def split_def log_event_keywords_bind)
  ultimately show "\<exists>d'. execute_payment now k (d\<lparr>conditional_payments := ?c\<rparr>) = Inr d'
      \<and> cond_step d d' \<and> row_of (conditional_payments d') k = Some (executed_row now p)"
    by (simp add: row_step_row_of [OF both])
qed

lemma trigger_webhook_step:
  assumes "trigger_webhook now k agent d = Inr d'" and "cond_ok d"
  shows "cond_step d d'"
proof -
  obtain p where p: "row_of (conditional_payments d) k = Some p" "cp_state p = CondPending"
    using assms(1) by (auto simp: trigger_webhook_def split: option.splits if_splits)
  note steps = trigger_then_execute [OF assms(2) p, of now]
  have "execute_payment now k
      (d\<lparr>conditional_payments := snd (repo_trigger now k (conditional_payments d))\<rparr>) = Inr d'"
    using assms(1) p steps(1) by (simp add: trigger_webhook_def split_def split: if_splits)
  then show ?thesis using steps(2) by auto
qed

lemma cancel_conditional_step:
  assumes "cancel_conditional now agent k d = Inr d'" and "cond_ok d"
  shows "cond_step d d'"
proof -
  have ok: "table_ok (conditional_payments d)" using assms(2) by (simp add: cond_ok_def)
  obtain p where p: "row_of (conditional_payments d) k = Some p" "cp_state p = CondPending"
    using assms(1) by (auto simp: cancel_conditional_def split: option.splits if_splits)
  have "row_step k p (p\<lparr>cp_state := CondCancelled\<rparr>) (conditional_payments d)
      (snd (repo_cancel k (conditional_payments d)))"
    by (rule cond_cancel.hit_steps [OF ok p])
  from cond_step_settle [OF assms(2) this p(2), of "cp_from_agent_id p" now]
  show ?thesis
    using assms(1) p
    by (auto simp: cancel_conditional_def cond_kept_def split_def Let_def log_event_keywords_bind
        split: if_splits)
qed

lemma balance_threshold_frame:
  assumes "balance_threshold_met rd now tok config d = Inr (met, d')"
  shows "d' = d \<or> (\<exists>a. d' = d\<lparr>balances := get_or_create now a tok (balances d)\<rparr>)"
proof -
  obtain agent where "(case (agent, decimal_of_config rd (config_get config ''threshold'' ''0'')) of
      (Some a, Some threshold) \<Rightarrow>
        let (balance, t) = get_available now a tok (balances d) in (balance < threshold, d\<lparr>balances := t\<rparr>)
    | _ \<Rightarrow> (False, d)) = (met, d')"
    using assms unfolding balance_threshold_met_def and_then_Inr_iff by blast
  then show ?thesis
    by (cases agent; cases "decimal_of_config rd (config_get config ''threshold'' ''0'')")
      (auto simp: get_available_def Let_def)
qed

lemma condition_met_frame:
  assumes "condition_met rd now p d = Inr (met, d')"
  shows "conditional_payments d' = conditional_payments d"
    and "available_of b u (balances d') = available_of b u (balances d)"
proof -
  have "d' = d \<or> (\<exists>a. d' = d\<lparr>balances := get_or_create now a (cp_currency p) (balances d)\<rparr>)"
    using assms balance_threshold_frame [of rd now "cp_currency p" "cp_condition_config p" d met d']
    unfolding condition_met_def Let_def
    by (auto simp: and_then_Inr_iff simp del: fun_upd_apply split: if_splits)
  then show "conditional_payments d' = conditional_payments d"
    and "available_of b u (balances d') = available_of b u (balances d)"
    by (auto simp: ledger_simps)
qed

lemma evaluate_one_step:
  assumes "evaluate_one rd now e d = Inr (d', n)" and "cond_ok d"
  shows "cond_step d d'"
proof -
  obtain k pay where e: "e = (k, pay)" by (cases e)
  show ?thesis
  proof (cases "cp_condition_type pay = ''webhook''")
    case True
    then show ?thesis using assms by (simp add: evaluate_one_def e cond_step_refl)
  next
    case False
    then obtain met d1 where met: "condition_met rd now pay d = Inr (met, d1)"
      using assms(1) by (auto simp: evaluate_one_def e and_then_Inr_iff)
    note frame = condition_met_frame [OF met]
    have "cond_step d d1 = cond_step d d" by (rule cond_step_cong) (simp_all add: frame)
    then have step1: "cond_step d d1" by (simp add: cond_step_refl assms(2))
    then have ok1: "cond_ok d1" by (rule cond_step_ok)
    then have tok: "table_ok (conditional_payments d1)" by (simp add: cond_ok_def)
    obtain m c where mc: "repo_trigger now k (conditional_payments d1) = (m, c)" by fastforce
    show ?thesis
    proof (cases "met \<and> m \<noteq> 0")
      case True
      then obtain p where p: "row_of (conditional_payments d1) k = Some p" "cp_state p = CondPending"
        using cond_trigger.rows_zero_iff [OF tok, of now k] mc by auto
      have "execute_payment now k (d1\<lparr>conditional_payments := c\<rparr>) = Inr d'"
        using assms(1) False met True mc by (auto simp: evaluate_one_def e and_then_Inr_iff split: if_splits)
      with trigger_then_execute(2) [OF ok1 p, of now] have "cond_step d1 d'" by (auto simp: mc)
      with step1 show ?thesis by (rule cond_step_trans)
    next
      case missed: False
      have "c = conditional_payments d1" if "m = 0"
        using cond_trigger.miss_keeps_table [OF tok, of now k] mc that by simp
      then have "d' = d1"
        using assms(1) False met missed mc by (auto simp: evaluate_one_def e split: if_splits)
      with step1 show ?thesis by simp
    qed
  qed
qed

lemma evaluate_each_step:
  "evaluate_each rd now es d = Inr (d', n) \<Longrightarrow> cond_ok d \<Longrightarrow> cond_step d d'"
proof (induction es arbitrary: d n)
  case Nil
  then show ?case by (simp add: cond_step_refl)
next
  case (Cons e es)
  obtain d1 k m where one: "evaluate_one rd now e d = Inr (d1, k)"
    and rest: "evaluate_each rd now es d1 = Inr (d', m)"
    using Cons.prems(1) by (auto simp: and_then_Inr_iff)
  have step: "cond_step d d1" using evaluate_one_step [OF one] Cons.prems(2) .
  then show ?case using Cons.IH [OF rest cond_step_ok [OF step]] cond_step_trans by blast
qed

text \<open>The expiry sweep refunds what it read, so each element must still be the row it names.\<close>

definition due_rows :: "(ident \<times> conditional_payment) list \<Rightarrow> db \<Rightarrow> bool" where
  "due_rows es d \<longleftrightarrow> distinct (map fst es)
     \<and> (\<forall>(k, p) \<in> set es. row_of (conditional_payments d) k = Some p \<and> cp_state p = CondPending)"

lemma due_rows_expired: "table_ok (conditional_payments d) \<Longrightarrow>
    due_rows (get_conditional_expired now (conditional_payments d)) d"
  by (auto simp: due_rows_def get_conditional_expired_def select_where_def table_ok_def keys_of_def
      mem_row_of distinct_map intro: inj_on_subset)

lemma expire_one_step:
  assumes "cond_ok d" and "due_rows ((k, p) # es) d"
  shows "\<exists>d'. expire_one now (k, p) d = Inr (d', 1) \<and> cond_step d d' \<and> due_rows es d'"
proof -
  have ok: "table_ok (conditional_payments d)" using assms(1) by (simp add: cond_ok_def)
  have p: "row_of (conditional_payments d) k = Some p" "cp_state p = CondPending"
    using assms(2) by (auto simp: due_rows_def)
  let ?c = "snd (repo_expire k (conditional_payments d))"
  have step: "row_step k p (p\<lparr>cp_state := CondExpired\<rparr>) (conditional_payments d) ?c"
    by (rule cond_expire.hit_steps [OF ok p])
  have hit: "fst (repo_expire k (conditional_payments d)) = 1" by (rule cond_expire.hit_rows [OF ok p])
  let ?d = "d\<lparr>balances := credit now (cp_from_agent_id p) (cp_locked_amount p) (cp_currency p) (balances d),
      conditional_payments := ?c\<rparr>"
  have "cond_step d ?d"
    by (rule cond_step_settle [OF assms(1) step p(2)]) (auto simp: cond_kept_def p(2))
  moreover have "expire_one now (k, p) d = Inr (?d\<lparr>audit_log := audit_log d @
      [audit_of ''conditional_payment.expired'' (Some (cp_from_agent_id p)) ''conditional_payment'' k]\<rparr>, 1)"
    using hit by (simp add: expire_one_def split_def Let_def log_event_keywords_bind)
  moreover have "due_rows es (?d\<lparr>audit_log := x\<rparr>)" for x
  proof -
    have rest: "row_of (conditional_payments d) i = Some q \<and> cp_state q = CondPending \<and> i \<noteq> k"
      if "(i, q) \<in> set es" for i q
      using assms(2) that by (force simp: due_rows_def)
    then have "row_of ?c i = Some q" if "(i, q) \<in> set es" for i q
      using that by (simp add: row_step_row_of [OF step])
    then show ?thesis using assms(2) rest by (auto simp: due_rows_def)
  qed
  ultimately show ?thesis by simp
qed

lemma expire_each_step:
  "cond_ok d \<Longrightarrow> due_rows es d \<Longrightarrow> \<exists>d'. expire_each now es d = Inr (d', length es) \<and> cond_step d d'"
proof (induction es arbitrary: d)
  case Nil
  then show ?case by (simp add: cond_step_refl)
next
  case (Cons e es)
  obtain k p where e: "e = (k, p)" by (cases e)
  obtain d1 where one: "expire_one now (k, p) d = Inr (d1, 1)" "cond_step d d1" "due_rows es d1"
    using expire_one_step [OF Cons.prems [unfolded e]] by blast
  then obtain d2 where "expire_each now es d1 = Inr (d2, length es)" "cond_step d1 d2"
    using Cons.IH cond_step_ok by blast
  then show ?case using one cond_step_trans [OF one(2)] by (simp add: e)
qed

lemma conditional_cycle_step:
  assumes "cond_ok d"
  shows "cond_step d (conditional_cycle rd now d)"
proof (cases "evaluate_conditions rd now d")
  case (Inl e)
  then show ?thesis using assms by (simp add: conditional_cycle_def cond_step_refl)
next
  case (Inr r)
  obtain d1 n where r: "r = (d1, n)" by (cases r)
  have step1: "cond_step d d1"
    using Inr assms by (auto simp: r evaluate_conditions_def intro: evaluate_each_step)
  then have ok1: "cond_ok d1" by (rule cond_step_ok)
  then obtain d2 m where "expire_conditional now d1 = Inr (d2, m)" "cond_step d1 d2"
    using expire_each_step [OF ok1 due_rows_expired, of now] unfolding expire_conditional_def cond_ok_def
    by blast
  then show ?thesis using Inr cond_step_trans [OF step1] by (simp add: r conditional_cycle_def)
qed

section \<open>Runs\<close>

datatype conditional_op =
    CreateConditional ident ident decimal token string "(string \<times> config_value) list" int
  | TriggerConditional ident ident
  | CancelConditional ident ident
  | ConditionalCycle

fun conditional_exec :: "readers \<Rightarrow> moment \<Rightarrow> conditional_op \<Rightarrow> db \<Rightarrow> db outcome" where
  "conditional_exec rd now (CreateConditional a b x tok ctype config h) d =
     map_sum id fst (create_conditional now a b x tok ctype config h d)"
| "conditional_exec rd now (TriggerConditional k a) d = trigger_webhook now k a d"
| "conditional_exec rd now (CancelConditional k a) d = cancel_conditional now a k d"
| "conditional_exec rd now ConditionalCycle d = Inr (conditional_cycle rd now d)"

fun conditional_run :: "readers \<Rightarrow> (moment \<times> conditional_op) list \<Rightarrow> db \<Rightarrow> db" where
  "conditional_run rd [] d = d"
| "conditional_run rd ((now, p) # ps) d =
     conditional_run rd ps (case conditional_exec rd now p d of Inl e \<Rightarrow> d | Inr d' \<Rightarrow> d')"

lemma conditional_exec_step:
  assumes "conditional_exec rd now p d = Inr d'" and "cond_ok d"
  shows "cond_step d d'"
proof (cases p)
  case (CreateConditional a b x tok ctype config h)
  then obtain k where "create_conditional now a b x tok ctype config h d = Inr (d', k)"
    using assms(1) by (auto simp: map_sum_def split: sum.splits)
  then show ?thesis using assms(2) by (rule create_conditional_step)
next
  case (TriggerConditional k a)
  then show ?thesis using assms by (auto intro: trigger_webhook_step)
next
  case (CancelConditional k a)
  then show ?thesis using assms by (auto intro: cancel_conditional_step)
next
  case ConditionalCycle
  then show ?thesis using assms by (auto intro: conditional_cycle_step)
qed

lemma conditional_run_step: "cond_ok d \<Longrightarrow> cond_step d (conditional_run rd ps d)"
proof (induction ps arbitrary: d)
  case Nil
  then show ?case by (simp add: cond_step_refl)
next
  case (Cons q ps)
  obtain now p where q: "q = (now, p)" by (cases q)
  have "cond_step d (case conditional_exec rd now p d of Inl e \<Rightarrow> d | Inr d' \<Rightarrow> d')"
    using Cons.prems conditional_exec_step [of rd now p d] by (auto simp: cond_step_refl split: sum.split)
  then show ?case using Cons.IH cond_step_ok cond_step_trans by (auto simp: q)
qed

section \<open>A condition the evaluation cannot read\<close>

definition unreadable :: "config_value \<Rightarrow> bool" where
  "unreadable v \<longleftrightarrow> (case v of CfgText s \<Rightarrow> False | CfgNumber x \<Rightarrow> True | CfgNull \<Rightarrow> False | CfgOther \<Rightarrow> True)"

lemma unreadable_raises: "unreadable v \<Longrightarrow> uuid_of_config rd v = Inl (AttributeError ''replace'')"
  by (cases v) (simp_all add: unreadable_def uuid_of_config_def)

lemma evaluate_each_poisoned:
  assumes "(k, p) \<in> set es" and "cp_condition_type p = ''escrow_completed''"
    and "map_of (cp_condition_config p) ''escrow_id'' = Some v" and "unreadable v"
  shows "\<exists>e. evaluate_each rd now es d = Inl e"
  using assms(1)
proof (induction es arbitrary: d)
  case Nil
  then show ?case by simp
next
  case (Cons e es)
  have raises: "evaluate_one rd now (k, p) d = Inl (AttributeError ''replace'')"
    using assms(2-4)
    by (simp add: evaluate_one_def condition_met_def escrow_status_met_def config_get_def unreadable_raises)
  show ?case
  proof (cases "evaluate_one rd now e d")
    case (Inl x)
    then show ?thesis by simp
  next
    case (Inr r)
    obtain d1 n where r: "r = (d1, n)" by (cases r)
    have "(k, p) \<in> set es" using Inr Cons.prems raises by auto
    then obtain x where "evaluate_each rd now es d1 = Inl x" using Cons.IH by blast
    then show ?thesis by (simp add: Inr r)
  qed
qed

lemma poisoned_cycle:
  assumes "row_of (conditional_payments d) k = Some p" and "cp_state p = CondPending"
    and "cp_condition_type p = ''escrow_completed''"
    and "map_of (cp_condition_config p) ''escrow_id'' = Some v" and "unreadable v"
  shows "conditional_cycle rd now d = d"
proof -
  have "(k, p) \<in> set (select_where (\<lambda>p. cp_state p = CondPending) (conditional_payments d))"
    using assms(1,2) by (auto simp: select_where_def dest: row_of_Some_mem)
  then obtain e where "evaluate_conditions rd now d = Inl e"
    using evaluate_each_poisoned [OF _ assms(3-5)] unfolding evaluate_conditions_def by blast
  then show ?thesis by (simp add: conditional_cycle_def)
qed

section \<open>Properties\<close>

text \<open>C15. A locked sum is settled once: after any run of creations, triggers, cancellations and
  background cycles, whatever the conditions say and the readers read, the balance of every agent in
  every token has moved by exactly what the payments account for: minus the sums it locked in
  payments that are pending or executed, plus the sums of the payments executed in its favour. A
  payment that left PENDING never changes again and none is left TRIGGERED.\<close>

theorem conditional_settles_once:
  assumes "cond_ok d"
  shows "(\<forall>b u. available_of b u (balances (conditional_run rd ps d))
        - table_sum (\<lambda>k. cond_position b u) (conditional_payments (conditional_run rd ps d))
      = available_of b u (balances d) - table_sum (\<lambda>k. cond_position b u) (conditional_payments d))
    \<and> (\<forall>k p. row_of (conditional_payments d) k = Some p \<longrightarrow>
        (\<exists>p'. row_of (conditional_payments (conditional_run rd ps d)) k = Some p' \<and> cond_kept p p'))
    \<and> (\<forall>k p. row_of (conditional_payments (conditional_run rd ps d)) k = Some p
        \<longrightarrow> cp_state p \<noteq> CondTriggered)"
  using conditional_run_step [OF assms, of rd ps]
  by (simp add: cond_step_def cond_account_def cond_evolves_def cond_ok_def)

text \<open>One unreadable condition stops every conditional payment: a creation accepts an
  \<open>escrow_completed\<close> condition whose escrow identifier is a number or an object, and as long as that
  payment is pending every background cycle raises and changes nothing, so no condition is evaluated
  and no payment expires, its own included.\<close>

lemma unreadable_condition_blocks_cycle:
  assumes "a \<noteq> b" and "x \<le> available_of a tok (balances d)"
    and "map_of config ''escrow_id'' = Some v" and "unreadable v"
    and "map_of config ''required_status'' = Some w"
  shows "\<exists>d' k p. create_conditional now a b x tok ''escrow_completed'' config h d = Inr (d', k)
      \<and> row_of (conditional_payments d') k = Some p
      \<and> (\<forall>d'' rd m. row_of (conditional_payments d'') k = Some p \<longrightarrow> conditional_cycle rd m d'' = d'')"
proof -
  let ?p = "conditional_create now a b x ''escrow_completed'' config x (now + hours (max h 0)) tok"
  let ?k = "new_id (conditional_payments d)"
  obtain t where t: "deduct now a x tok (balances d) = Inr t"
    using assms(2) deduct_Inl_iff by (metis not_less sum.exhaust)
  have "validate_condition_config ''escrow_completed'' config = Inr ()"
    using assms(3,5) by (simp add: validate_condition_config_def REQUIRED_CONFIG_FIELDS_def)
  then have "create_conditional now a b x tok ''escrow_completed'' config h d =
      Inr (d\<lparr>balances := t, conditional_payments := add_row ?p (conditional_payments d),
        audit_log := audit_log d @ [audit_of ''conditional_payment.created'' (Some a) ''conditional_payment'' ?k]\<rparr>, ?k)"
    using assms(1) t
    by (simp add: create_conditional_def VALID_CONDITION_TYPES_def Let_def log_event_keywords_bind)
  moreover have "conditional_cycle rd m d'' = d''" if "row_of (conditional_payments d'') ?k = Some ?p" for d'' rd m
    using assms(3,4) by (intro poisoned_cycle [OF that]) (simp_all add: conditional_create_def)
  ultimately show ?thesis by simp
qed

definition demo_readers :: readers where
  "demo_readers = \<lparr>read_moment = \<lambda>s. if s = ''2026-01-01T00:00:00'' then Some 1000 else None,
     read_uuid = \<lambda>s. None, read_decimal = \<lambda>s. None\<rparr>"

definition demo_conditional_db :: db where
  "demo_conditional_db = empty_db\<lparr>balances := deposit 0 1 10 ''XMR'' []\<rparr>"

definition demo_conditional_ops :: "(moment \<times> conditional_op) list" where
  "demo_conditional_ops =
     [(0, CreateConditional 1 2 4 ''XMR'' ''time_lock'' [(''release_at'', CfgText ''2026-01-01T00:00:00'')] 1),
      (0, CreateConditional 1 3 2 ''XMR'' ''webhook'' [(''callback_url'', CfgText ''u'')] 0),
      (500, CancelConditional 1 2), (1000, ConditionalCycle), (1001, CancelConditional 1 1)]"

lemma demo_conditional_result:
  "map (\<lambda>(k, p). (k, cp_state p)) (conditional_payments
       (conditional_run demo_readers demo_conditional_ops demo_conditional_db)) =
     [(1, CondExecuted), (2, CondExpired)]
   \<and> available_of 1 ''XMR'' (balances (conditional_run demo_readers demo_conditional_ops demo_conditional_db)) = 6
   \<and> available_of 2 ''XMR'' (balances (conditional_run demo_readers demo_conditional_ops demo_conditional_db)) = 4"
  by code_simp

theorem conditional_settles_once_witness:
  "available_of 2 ''XMR'' (balances (conditional_run demo_readers demo_conditional_ops demo_conditional_db))
     = table_sum (\<lambda>k. cond_position 2 ''XMR'')
         (conditional_payments (conditional_run demo_readers demo_conditional_ops demo_conditional_db))
   \<and> available_of 2 ''XMR'' (balances (conditional_run demo_readers demo_conditional_ops demo_conditional_db)) = 4"
proof -
  have "cond_ok demo_conditional_db" by (simp add: cond_ok_def demo_conditional_db_def empty_db_def)
  moreover have "conditional_payments demo_conditional_db = []"
    by (simp add: demo_conditional_db_def empty_db_def)
  moreover have "available_of 2 ''XMR'' (balances demo_conditional_db) = 0" by code_simp
  ultimately have "available_of 2 ''XMR'' (balances (conditional_run demo_readers demo_conditional_ops demo_conditional_db))
      - table_sum (\<lambda>k. cond_position 2 ''XMR'')
          (conditional_payments (conditional_run demo_readers demo_conditional_ops demo_conditional_db)) = 0"
    using conditional_settles_once [of demo_conditional_db demo_readers demo_conditional_ops]
    by (metis diff_zero table_sum_Nil)
  then show ?thesis using demo_conditional_result by (simp del: fun_upd_apply)
qed

lemma unreadable_condition_blocks_cycle_witness:
  "\<exists>d' k p. create_conditional 0 1 2 (1/10) ''XMR'' ''escrow_completed''
        [(''escrow_id'', CfgNumber 5), (''required_status'', CfgText ''completed'')] 24 demo_conditional_db = Inr (d', k)
     \<and> row_of (conditional_payments d') k = Some p \<and> conditional_cycle demo_readers 9 d' = d'"
proof -
  have "(1::ident) \<noteq> 2" and "(1/10 :: decimal) \<le> available_of 1 ''XMR'' (balances demo_conditional_db)"
    by code_simp+
  from unreadable_condition_blocks_cycle [OF this,
      of "[(''escrow_id'', CfgNumber 5), (''required_status'', CfgText ''completed'')]" "CfgNumber 5"
        "CfgText ''completed''" 0 24]
  show ?thesis by (fastforce simp: unreadable_def)
qed

end
