(* ===== verification/Multi_Party.thy ===== *)
theory Multi_Party
  imports Transfers Events
begin

text \<open>
  Multi-party payments: \<open>sthrip/db/multi_party_repo.py\<close> and
  \<open>sthrip/services/multi_party_service.py\<close>. The sender's total is taken when the payment is created.
  With \<open>require_all_accept\<close> it is paid out when the last recipient accepts and refunded as a whole
  when one rejects; without it every answer moves that recipient's share at once. Unanswered payments
  expire. \<open>get_recipients\<close> has no ORDER BY; the model reads in insertion order. Response dictionaries
  are the values they are built from.
\<close>

type_synonym payment_table = "(ident, multi_party_payment) table"
type_synonym recipient_table = "(ident, multi_party_recipient) table"

section \<open>The repository\<close>

definition mp_new_payment ::
  "moment \<Rightarrow> ident \<Rightarrow> decimal \<Rightarrow> moment \<Rightarrow> token \<Rightarrow> bool \<Rightarrow> multi_party_payment"
where
  "mp_new_payment now sender total_amount deadline currency require_all =
     \<lparr>mp_sender_id = sender, mp_total_amount = total_amount, mp_currency = currency,
      mp_require_all_accept = require_all, mp_state = MultiPending, mp_accept_deadline = deadline,
      mp_created_at = now, mp_completed_at = None\<rparr>"

definition mp_new_recipient :: "ident \<Rightarrow> ident \<times> decimal \<Rightarrow> multi_party_recipient" where
  "mp_new_recipient p r =
     \<lparr>mr_payment_id = p, mr_recipient_id = fst r, mr_amount = snd r, mr_accepted = None,
      mr_accepted_at = None\<rparr>"

fun mp_add_recipients :: "ident \<Rightarrow> (ident \<times> decimal) list \<Rightarrow> recipient_table \<Rightarrow> recipient_table" where
  "mp_add_recipients p [] t = t"
| "mp_add_recipients p (r # rs) t = mp_add_recipients p rs (add_row (mp_new_recipient p r) t)"

definition mp_create ::
  "moment \<Rightarrow> ident \<Rightarrow> decimal \<Rightarrow> (ident \<times> decimal) list \<Rightarrow> moment \<Rightarrow> token \<Rightarrow> bool \<Rightarrow> db \<Rightarrow> ident \<times> db"
where
  "mp_create now sender total_amount recipients deadline currency require_all d =
     (let p = new_id (multi_party_payments d)
      in (p, d\<lparr>multi_party_payments := add_row
                 (mp_new_payment now sender total_amount deadline currency require_all)
                 (multi_party_payments d),
               multi_party_recipients := mp_add_recipients p recipients (multi_party_recipients d)\<rparr>))"

text \<open>UPDATE of the recipient's row while it is unanswered; the count decides the caller's branch.\<close>

definition unanswered :: "ident \<Rightarrow> ident \<Rightarrow> ident \<Rightarrow> multi_party_recipient \<Rightarrow> bool" where
  "unanswered p a k r \<longleftrightarrow> mr_payment_id r = p \<and> mr_recipient_id r = a \<and> mr_accepted r = None"

definition accept_recipient :: "moment \<Rightarrow> ident \<Rightarrow> ident \<Rightarrow> recipient_table \<Rightarrow> nat \<times> recipient_table" where
  "accept_recipient now p a t =
     (rows_where (unanswered p a) t,
      update_where (unanswered p a) (\<lambda>r. r\<lparr>mr_accepted := Some True, mr_accepted_at := Some now\<rparr>) t)"

definition reject_recipient :: "moment \<Rightarrow> ident \<Rightarrow> ident \<Rightarrow> recipient_table \<Rightarrow> nat \<times> recipient_table" where
  "reject_recipient now p a t =
     (rows_where (unanswered p a) t,
      update_where (unanswered p a) (\<lambda>r. r\<lparr>mr_accepted := Some False, mr_accepted_at := Some now\<rparr>) t)"

definition mp_complete :: "moment \<Rightarrow> ident \<Rightarrow> payment_table \<Rightarrow> nat \<times> payment_table" where
  "mp_complete now = update_row (\<lambda>p. mp_state p = MultiPending)
     (\<lambda>p. p\<lparr>mp_state := MultiCompleted, mp_completed_at := Some now\<rparr>)"

definition mp_reject :: "moment \<Rightarrow> ident \<Rightarrow> payment_table \<Rightarrow> nat \<times> payment_table" where
  "mp_reject now = update_row (\<lambda>p. mp_state p = MultiPending)
     (\<lambda>p. p\<lparr>mp_state := MultiRejected, mp_completed_at := Some now\<rparr>)"

definition mp_expire :: "moment \<Rightarrow> ident \<Rightarrow> payment_table \<Rightarrow> nat \<times> payment_table" where
  "mp_expire now = update_row (\<lambda>p. mp_state p = MultiPending)
     (\<lambda>p. p\<lparr>mp_state := MultiExpired, mp_completed_at := Some now\<rparr>)"

definition get_recipients :: "ident \<Rightarrow> recipient_table \<Rightarrow> multi_party_recipient list" where
  "get_recipients p t = map snd (select_where (\<lambda>r. mr_payment_id r = p) t)"

definition mp_list_by_agent ::
  "ident \<Rightarrow> string option \<Rightarrow> multi_party_state option \<Rightarrow> nat \<Rightarrow> nat \<Rightarrow> db
     \<Rightarrow> (ident \<times> multi_party_payment) list \<times> nat"
where
  "mp_list_by_agent a role st limit offset d =
     (let received = map (\<lambda>(k, r). mr_payment_id r)
            (select_where (\<lambda>r. mr_recipient_id r = a) (multi_party_recipients d));
          mine = filter (\<lambda>(k, p).
            (if role = Some ''sender'' then mp_sender_id p = a
             else if role = Some ''recipient'' then k \<in> set received
             else mp_sender_id p = a \<or> k \<in> set received)
            \<and> (case st of None \<Rightarrow> True | Some s \<Rightarrow> mp_state p = s)) (multi_party_payments d)
      in (take (min limit MAX_QUERY_LIMIT) (drop offset (sort_key (\<lambda>(k, p). - mp_created_at p) mine)),
          length mine))"

definition get_pending_expired_payments :: "moment \<Rightarrow> payment_table \<Rightarrow> (ident \<times> multi_party_payment) list" where
  "get_pending_expired_payments now t =
     select_where (\<lambda>p. mp_state p = MultiPending \<and> mp_accept_deadline p \<le> now) t"

section \<open>The service\<close>

fun recipient_status :: "bool option \<Rightarrow> string" where
  "recipient_status (Some True) = ''accepted''"
| "recipient_status (Some False) = ''rejected''"
| "recipient_status None = ''pending''"

type_synonym recipient_view = "ident \<times> decimal \<times> string \<times> moment option"

definition recipient_to_dict :: "multi_party_recipient \<Rightarrow> recipient_view" where
  "recipient_to_dict r =
     (mr_recipient_id r, mr_amount r, recipient_status (mr_accepted r), mr_accepted_at r)"

type_synonym payment_view = "ident \<times> multi_party_payment \<times> recipient_view list"

definition payment_to_dict :: "ident \<Rightarrow> multi_party_payment \<Rightarrow> multi_party_recipient list \<Rightarrow> payment_view" where
  "payment_to_dict p pay rs = (p, pay, map recipient_to_dict rs)"

definition find_recipient :: "multi_party_recipient list \<Rightarrow> ident \<Rightarrow> multi_party_recipient option" where
  "find_recipient rs a = find (\<lambda>r. mr_recipient_id r = a) rs"

fun resolve_recipients :: "(string \<times> decimal) list \<Rightarrow> db \<Rightarrow> (ident \<times> decimal) list outcome" where
  "resolve_recipients [] d = Inr []"
| "resolve_recipients ((name, x) # rs) d =
     (case first_row (\<lambda>g. ag_name g = name) (agents d) of
        None \<Rightarrow> Inl (LookupError ''Recipient agent not found'')
      | Some (a, g) \<Rightarrow>
          if \<not> ag_is_active g then Inl (ValueError ''Recipient agent is not active'')
          else and_then (resolve_recipients rs d) (\<lambda>q. Inr ((a, x) # q)))"

fun queue_each :: "string \<Rightarrow> (ident \<times> decimal) list \<Rightarrow> db \<Rightarrow> db outcome" where
  "queue_each ev [] d = Inr d"
| "queue_each ev ((a, x) # rs) d = and_then (queue_webhook 3 [] a ev d) (queue_each ev rs)"

definition create_multi_party ::
  "moment \<Rightarrow> ident \<Rightarrow> (string \<times> decimal) list \<Rightarrow> token \<Rightarrow> bool \<Rightarrow> int \<Rightarrow> db \<Rightarrow> (db \<times> payment_view) outcome"
where
  "create_multi_party now sender recipients currency require_all accept_hours d =
     (if recipients = [] then Inl (ValueError ''At least 1 recipient is required'')
      else if \<not> distinct (map fst recipients) then Inl (ValueError ''Duplicate recipients are not allowed'')
      else if \<not> list_all (\<lambda>r. 0 < snd r) recipients
      then Inl (ValueError ''All recipient amounts must be positive'')
      else and_then (resolve_recipients recipients d) (\<lambda>resolved.
        if sender \<in> set (map fst resolved) then Inl (ValueError ''Sender cannot be a recipient'')
        else let total_amount = sum_list (map snd resolved)
        in and_then (deduct now sender total_amount currency (balances d)) (\<lambda>t.
          let (p, d1) = mp_create now sender total_amount resolved (now + hours accept_hours) currency
                          require_all (d\<lparr>balances := t\<rparr>)
          in and_then (log_event 0 audit_keywords
                 (audit_of ''multi_party.created'' (Some sender) ''multi_party_payment'' p) d1) (\<lambda>d2.
             and_then (queue_each ''multi_party.created'' resolved d2) (\<lambda>d3.
               Inr (d3, payment_to_dict p
                 (mp_new_payment now sender total_amount (now + hours accept_hours) currency require_all)
                 (get_recipients p (multi_party_recipients d3))))))))"

text \<open>The common head of \<open>accept\<close> and \<open>reject\<close>: the payment is pending and the agent a recipient.\<close>

definition pending_share ::
  "ident \<Rightarrow> ident \<Rightarrow> db \<Rightarrow> (multi_party_payment \<times> multi_party_recipient) outcome"
where
  "pending_share a p d =
     (case row_of (multi_party_payments d) p of
        None \<Rightarrow> Inl (LookupError ''Multi-party payment not found'')
      | Some pay \<Rightarrow>
          if mp_state pay \<noteq> MultiPending then Inl (ValueError ''Payment is not in PENDING state'')
          else (case find_recipient (get_recipients p (multi_party_recipients d)) a of
                  None \<Rightarrow> Inl (PermissionError ''Agent is not a recipient of this payment'')
                | Some r \<Rightarrow> Inr (pay, r)))"

text \<open>Crediting every recipient of a payment.\<close>

definition credit_recipients ::
  "moment \<Rightarrow> token \<Rightarrow> multi_party_recipient list \<Rightarrow> balance_table \<Rightarrow> balance_table"
where
  "credit_recipients now currency rs t =
     fold (\<lambda>(a, x). credit now a x currency) (map (\<lambda>r. (mr_recipient_id r, mr_amount r)) rs) t"

definition complete_if_answered :: "moment \<Rightarrow> ident \<Rightarrow> db \<Rightarrow> db \<times> string" where
  "complete_if_answered now p d =
     (if list_all (\<lambda>r. mr_accepted r \<noteq> None) (get_recipients p (multi_party_recipients d))
      then (d\<lparr>multi_party_payments := snd (mp_complete now p (multi_party_payments d))\<rparr>, ''completed'')
      else (d, ''pending''))"

definition accept_multi_party :: "moment \<Rightarrow> ident \<Rightarrow> ident \<Rightarrow> db \<Rightarrow> (db \<times> string \<times> string) outcome" where
  "accept_multi_party now a p d =
     and_then (pending_share a p d) (\<lambda>(pay, r).
       if mr_accepted r = Some True then Inr (d, ''pending'', ''already_accepted'')
       else let (rows_affected, rt) = accept_recipient now p a (multi_party_recipients d);
                d1 = d\<lparr>multi_party_recipients := rt\<rparr>
       in if rows_affected = 0 then Inr (d1, ''pending'', ''already_accepted'')
          else if mp_require_all_accept pay
          then let updated = get_recipients p rt
               in if list_all (\<lambda>r. mr_accepted r = Some True) updated
                  then and_then (log_event 0 audit_keywords
                      (audit_of ''multi_party.completed'' (Some a) ''multi_party_payment'' p)
                      (d1\<lparr>balances := credit_recipients now (mp_currency pay) updated (balances d1),
                          multi_party_payments := snd (mp_complete now p (multi_party_payments d1))\<rparr>))
                    (\<lambda>d2. Inr (d2, ''completed'', ''accepted''))
                  else Inr (d1, ''pending'', ''accepted'')
          else and_then (log_event 0 audit_keywords
                 (audit_of ''multi_party.recipient_accepted'' (Some a) ''multi_party_payment'' p)
                 (d1\<lparr>balances := credit now a (mr_amount r) (mp_currency pay) (balances d1)\<rparr>))
               (\<lambda>d2. let (d3, state) = complete_if_answered now p d2 in Inr (d3, state, ''accepted'')))"

definition reject_multi_party :: "moment \<Rightarrow> ident \<Rightarrow> ident \<Rightarrow> db \<Rightarrow> (db \<times> string \<times> string) outcome" where
  "reject_multi_party now a p d =
     and_then (pending_share a p d) (\<lambda>(pay, r).
       let (rows_affected, rt) = reject_recipient now p a (multi_party_recipients d);
           d1 = d\<lparr>multi_party_recipients := rt\<rparr>
       in if rows_affected = 0 then Inl (ValueError ''Recipient has already responded to this payment'')
          else if mp_require_all_accept pay
          then and_then (log_event 0 audit_keywords
                 (audit_of ''multi_party.rejected'' (Some a) ''multi_party_payment'' p)
                 (d1\<lparr>balances := credit now (mp_sender_id pay) (mp_total_amount pay) (mp_currency pay) (balances d1),
                     multi_party_payments := snd (mp_reject now p (multi_party_payments d1))\<rparr>))
               (\<lambda>d2. Inr (d2, ''rejected'', ''rejected''))
          else and_then (log_event 0 audit_keywords
                 (audit_of ''multi_party.recipient_rejected'' (Some a) ''multi_party_payment'' p)
                 (d1\<lparr>balances := credit now (mp_sender_id pay) (mr_amount r) (mp_currency pay) (balances d1)\<rparr>))
               (\<lambda>d2. let (d3, state) = complete_if_answered now p d2 in Inr (d3, state, ''rejected'')))"

definition multi_party_status :: "ident \<Rightarrow> ident \<Rightarrow> db \<Rightarrow> payment_view outcome" where
  "multi_party_status p a d =
     (case row_of (multi_party_payments d) p of
        None \<Rightarrow> Inl (LookupError ''Multi-party payment not found'')
      | Some pay \<Rightarrow>
          let rs = get_recipients p (multi_party_recipients d)
          in if mp_sender_id pay \<noteq> a \<and> a \<notin> set (map mr_recipient_id rs)
             then Inl (PermissionError ''Agent is not authorized to view this payment'')
             else Inr (payment_to_dict p pay rs))"

text \<open>The refund of \<open>expire_stale\<close>: every share not accepted, each by a credit of its own.\<close>

definition refund_shares ::
  "moment \<Rightarrow> multi_party_payment \<Rightarrow> multi_party_recipient list \<Rightarrow> balance_table \<Rightarrow> balance_table"
where
  "refund_shares now pay rs t =
     fold (\<lambda>(a, x). credit now a x (mp_currency pay))
       (map (\<lambda>r. (mp_sender_id pay, mr_amount r)) (filter (\<lambda>r. mr_accepted r \<noteq> Some True) rs)) t"

definition expire_payment :: "moment \<Rightarrow> ident \<times> multi_party_payment \<Rightarrow> db \<Rightarrow> db outcome" where
  "expire_payment now e d =
     (let (p, pay) = e;
          t = (if mp_require_all_accept pay
               then credit now (mp_sender_id pay) (mp_total_amount pay) (mp_currency pay) (balances d)
               else refund_shares now pay (get_recipients p (multi_party_recipients d)) (balances d))
      in log_event 0 audit_keywords
           (audit_of ''multi_party.expired'' (Some (mp_sender_id pay)) ''multi_party_payment'' p)
           (d\<lparr>balances := t, multi_party_payments := snd (mp_expire now p (multi_party_payments d))\<rparr>))"

fun expire_payments :: "moment \<Rightarrow> (ident \<times> multi_party_payment) list \<Rightarrow> db \<Rightarrow> (db \<times> nat) outcome" where
  "expire_payments now [] d = Inr (d, 0)"
| "expire_payments now (e # es) d =
     and_then (expire_payment now e d) (\<lambda>d1.
       and_then (expire_payments now es d1) (\<lambda>(d2, n). Inr (d2, Suc n)))"

definition expire_multi_party :: "moment \<Rightarrow> db \<Rightarrow> (db \<times> nat) outcome" where
  "expire_multi_party now d =
     expire_payments now (get_pending_expired_payments now (multi_party_payments d)) d"

definition list_multi_party ::
  "ident \<Rightarrow> string option \<Rightarrow> nat \<Rightarrow> nat \<Rightarrow> db \<Rightarrow> payment_view list \<times> nat"
where
  "list_multi_party a role limit offset d =
     (let (items, n) = mp_list_by_agent a role None limit offset d
      in (map (\<lambda>(p, pay). payment_to_dict p pay (get_recipients p (multi_party_recipients d))) items, n))"

end
