(* ===== verification/Multi_Party_Life.thy ===== *)
theory Multi_Party_Life
  imports Multi_Party
begin

text \<open>
  The life of multi-party payments: where every share is (held, paid, refunded), the accounts of the
  agents over any run, what the state of a payment says of its recipients, and the one operation
  that pays twice.
\<close>

section \<open>Transitions\<close>

interpretation mp_completed: guarded_transition "mp_complete now" "\<lambda>p. mp_state p = MultiPending"
  "\<lambda>p. p\<lparr>mp_state := MultiCompleted, mp_completed_at := Some now\<rparr>" for now
  unfolding mp_complete_def by (rule update_row_guarded) simp

interpretation mp_rejected: guarded_transition "mp_reject now" "\<lambda>p. mp_state p = MultiPending"
  "\<lambda>p. p\<lparr>mp_state := MultiRejected, mp_completed_at := Some now\<rparr>" for now
  unfolding mp_reject_def by (rule update_row_guarded) simp

interpretation mp_expired: guarded_transition "mp_expire now" "\<lambda>p. mp_state p = MultiPending"
  "\<lambda>p. p\<lparr>mp_state := MultiExpired, mp_completed_at := Some now\<rparr>" for now
  unfolding mp_expire_def by (rule update_row_guarded) simp

section \<open>The rows of one payment\<close>

lemma get_recipients_simps [simp]:
  "get_recipients p [] = []"
  "get_recipients p ((k, r) # t) =
     (if mr_payment_id r = p then r # get_recipients p t else get_recipients p t)"
  "get_recipients p (s @ t) = get_recipients p s @ get_recipients p t"
  by (simp_all add: get_recipients_def select_where_def)

lemma get_recipients_add [simp]:
  "get_recipients p (add_row r t) =
     (if mr_payment_id r = p then get_recipients p t @ [r] else get_recipients p t)"
  by (simp add: add_row_def insert_row_def)

lemma mem_get_recipients: "r \<in> set (get_recipients p t) \<longleftrightarrow> mr_payment_id r = p \<and> (\<exists>k. (k, r) \<in> set t)"
  by (force simp: get_recipients_def select_where_def)

lemma row_step_split:
  assumes "row_step k r r' t t'"
  obtains xs ys where "t = xs @ (k, r) # ys" and "t' = xs @ (k, r') # ys"
proof -
  have ok: "table_ok t" and t': "t' = modify_row k (\<lambda>_. r') t" and mem: "(k, r) \<in> set t"
    using assms by (auto simp: row_step_def dest: row_of_Some_mem)
  obtain xs ys where t: "t = xs @ (k, r) # ys" using split_list [OF mem] by blast
  have "k \<notin> fst ` set xs" "k \<notin> fst ` set ys" using ok by (auto simp: t table_ok_def keys_of_def)
  then have "modify_row k (\<lambda>_. r') xs = xs" "modify_row k (\<lambda>_. r') ys = ys"
    by (force simp: modify_row_def update_where_def intro!: map_idI split: prod.splits)+
  then have "t' = xs @ (k, r') # ys" by (simp add: t' t modify_row_def update_where_def)
  with t show thesis by (rule that)
qed

lemma get_recipients_step:
  assumes "row_step k r r' t t'" and "mr_payment_id r = p" and "mr_payment_id r' = p"
  shows "\<exists>xs ys. get_recipients p t = xs @ r # ys \<and> get_recipients p t' = xs @ r' # ys"
    and "q \<noteq> p \<Longrightarrow> get_recipients q t' = get_recipients q t"
  using row_step_split [OF assms(1)] assms(2,3) by (metis get_recipients_simps(2,3))+

lemma add_recipients_frame:
  shows "table_ok (mp_add_recipients p rs t) = table_ok t"
    and "get_recipients q (mp_add_recipients p rs t) =
      get_recipients q t @ (if q = p then map (mp_new_recipient p) rs else [])"
    and "table_sum (\<lambda>k. h) (mp_add_recipients p rs t) =
      table_sum (\<lambda>k. h) t + sum_list (map h (map (mp_new_recipient p) rs))"
    and "snd ` set (mp_add_recipients p rs t) = snd ` set t \<union> mp_new_recipient p ` set rs"
proof (induction rs arbitrary: t)
  case Nil
  {
    case 1
    then show ?case by simp
  next
    case 2
    then show ?case by simp
  next
    case 3
    then show ?case by simp
  next
    case 4
    then show ?case by simp
  }
next
  case (Cons r rs)
  {
    case 1
    then show ?case using Cons.IH(1) by simp
  next
    case 2
    then show ?case using Cons.IH(2) by (simp add: mp_new_recipient_def)
  next
    case 3
    then show ?case using Cons.IH(3) by (simp add: table_sum_add_row)
  next
    case 4
    then show ?case using Cons.IH(4) by (auto simp: add_row_def insert_row_def)
  }
qed

text \<open>Answering: the conditional UPDATE hits the row the service found, or none.\<close>

definition shares_unique :: "ident \<Rightarrow> recipient_table \<Rightarrow> bool" where
  "shares_unique p t \<longleftrightarrow> distinct (map mr_recipient_id (get_recipients p t))"

lemma share_row_unique:
  assumes "shares_unique p t" and "(k, r) \<in> set t" and "(k', r') \<in> set t"
    and "mr_payment_id r = p" and "mr_payment_id r' = p" and "mr_recipient_id r = mr_recipient_id r'"
  shows "(k, r) = (k', r')"
proof -
  let ?q = "select_where (\<lambda>r. mr_payment_id r = p) t"
  have "distinct (map (\<lambda>e. mr_recipient_id (snd e)) ?q)"
    using assms(1) by (simp add: shares_unique_def get_recipients_def comp_def)
  then have inj: "inj_on (\<lambda>e. mr_recipient_id (snd e)) (set ?q)" by (simp add: distinct_map)
  have "(k, r) \<in> set ?q" "(k', r') \<in> set ?q" using assms by (auto simp: select_where_def)
  from inj_onD [OF inj _ this] show ?thesis using assms(6) by simp
qed

lemma answer_share:
  assumes "table_ok t" and "shares_unique p t" and "find_recipient (get_recipients p t) a = Some r"
  shows "mr_payment_id r = p" and "mr_recipient_id r = a"
    and "mr_accepted r \<noteq> None \<Longrightarrow> rows_where (unanswered p a) t = 0"
    and "mr_accepted r = None \<Longrightarrow> rows_where (unanswered p a) t \<noteq> 0"
    and "mr_accepted r = None \<Longrightarrow> \<exists>k. row_step k r (f r) t (update_where (unanswered p a) f t)"
proof -
  have found: "r \<in> set (get_recipients p t)" "mr_recipient_id r = a"
    using assms(3) by (auto simp: find_recipient_def find_Some_iff)
  then obtain k where k: "(k, r) \<in> set t" and p: "mr_payment_id r = p" by (auto simp: mem_get_recipients)
  show "mr_payment_id r = p" and "mr_recipient_id r = a" by (fact p, fact found)
  have only: "k' = k \<and> r' = r" if "(k', r') \<in> set t" "mr_payment_id r' = p" "mr_recipient_id r' = a" for k' r'
    using share_row_unique [OF assms(2) that(1) k] that p found by simp
  show "rows_where (unanswered p a) t = 0" if "mr_accepted r \<noteq> None"
    using only that by (auto simp: rows_where_def unanswered_def filter_empty_conv)
  show "rows_where (unanswered p a) t \<noteq> 0" if "mr_accepted r = None"
    using k that p found by (auto simp: rows_where_def unanswered_def filter_empty_conv)
  show "\<exists>k. row_step k r (f r) t (update_where (unanswered p a) f t)" if "mr_accepted r = None"
  proof
    have "update_where (unanswered p a) f t = modify_row k (\<lambda>_. f r) t"
      unfolding modify_row_def update_where_def
    proof (rule map_cong [OF refl])
      fix e
      assume e: "e \<in> set t"
      obtain k' r' where kr: "e = (k', r')" by (cases e)
      have "unanswered p a k' r' \<longleftrightarrow> k' = k"
        using only [of k' r'] e kr mem_row_of [OF assms(1), of k' r'] mem_row_of [OF assms(1) k] p found that
        by (auto simp: unanswered_def)
      moreover have "k' = k \<Longrightarrow> r' = r"
        using e kr mem_row_of [OF assms(1)] k by (metis option.inject)
      ultimately show "(case e of (k', v) \<Rightarrow> (k', if unanswered p a k' v then f v else v)) =
          (case e of (k', v) \<Rightarrow> (k', if k' = k then f r else v))"
        by (simp add: kr)
    qed
    then show "row_step k r (f r) t (update_where (unanswered p a) f t)"
      using assms(1) mem_row_of [OF assms(1) k] by (simp add: row_step_def)
  qed
qed

section \<open>Where a share is\<close>

datatype fate = Held | Paid | Refunded

definition fate_of :: "multi_party_payment \<Rightarrow> bool option \<Rightarrow> fate" where
  "fate_of pay answer =
     (if mp_require_all_accept pay
      then (case mp_state pay of
              MultiCompleted \<Rightarrow> Paid | MultiRejected \<Rightarrow> Refunded | MultiExpired \<Rightarrow> Refunded
            | MultiPending \<Rightarrow> Held | MultiAccepted \<Rightarrow> Held)
      else (case answer of
              Some True \<Rightarrow> Paid | Some False \<Rightarrow> Refunded
            | None \<Rightarrow> if mp_state pay = MultiExpired then Refunded else Held))"

text \<open>What a share accounts for in the balance of agent \<open>b\<close>.\<close>

definition share_value :: "ident \<Rightarrow> token \<Rightarrow> multi_party_payment \<Rightarrow> multi_party_recipient \<Rightarrow> decimal" where
  "share_value b u pay r =
     (if mp_currency pay = u
      then (if fate_of pay (mr_accepted r) = Paid \<and> mr_recipient_id r = b then mr_amount r else 0)
         - (if fate_of pay (mr_accepted r) \<noteq> Refunded \<and> mp_sender_id pay = b then mr_amount r else 0)
      else 0)"

definition share_position :: "ident \<Rightarrow> token \<Rightarrow> payment_table \<Rightarrow> multi_party_recipient \<Rightarrow> decimal" where
  "share_position b u pays r =
     (case row_of pays (mr_payment_id r) of None \<Rightarrow> 0 | Some pay \<Rightarrow> share_value b u pay r)"

definition mp_account :: "ident \<Rightarrow> token \<Rightarrow> db \<Rightarrow> decimal" where
  "mp_account b u d = available_of b u (balances d)
     - table_sum (\<lambda>k. share_position b u (multi_party_payments d)) (multi_party_recipients d)"

text \<open>A change of one payment moves the positions of its own rows only.\<close>

lemma share_position_step:
  assumes "row_step p pay pay' pays pays'"
  shows "table_sum (\<lambda>k. share_position b u pays') t = table_sum (\<lambda>k. share_position b u pays) t
    + sum_list (map (\<lambda>r. share_value b u pay' r - share_value b u pay r) (get_recipients p t))"
proof (induction t)
  case Nil
  then show ?case by simp
next
  case (Cons e t)
  obtain k r where e: "e = (k, r)" by (cases e)
  have "share_position b u pays' r = share_position b u pays r
      + (if mr_payment_id r = p then share_value b u pay' r - share_value b u pay r else 0)"
    using assms row_step_row_of [OF assms] by (simp add: share_position_def row_step_def)
  with Cons show ?case by (simp add: e)
qed

lemma share_position_answer:
  assumes "row_step k r r' t t'" and "row_of pays p = Some pay"
    and "mr_payment_id r = p" and "mr_payment_id r' = p"
  shows "table_sum (\<lambda>k. share_position b u pays) t' = table_sum (\<lambda>k. share_position b u pays) t
    - share_value b u pay r + share_value b u pay r'"
  using row_step_sum [OF assms(1), of "\<lambda>k. share_position b u pays" "\<lambda>k. share_position b u pays"] assms(2-)
  by (simp add: share_position_def)

lemma sum_list_if:
  "sum_list (map (\<lambda>r. if P r then f r else (0::decimal)) rs) = sum_list (map f (filter P rs))"
  by (induction rs) auto

lemma sum_list_const_if: "sum_list (map (\<lambda>r. if c then f r else (0::decimal)) rs) =
    (if c then sum_list (map f rs) else 0)"
  by (cases c) (simp_all add: sum_list_0)

section \<open>What a state says of the answers\<close>

definition answers_ok :: "multi_party_payment \<Rightarrow> multi_party_recipient list \<Rightarrow> bool" where
  "answers_ok pay rs \<longleftrightarrow>
     (if mp_require_all_accept pay
      then (case mp_state pay of
              MultiPending \<Rightarrow> (\<forall>r \<in> set rs. mr_accepted r \<noteq> Some False) \<and> (\<exists>r \<in> set rs. mr_accepted r = None)
            | MultiCompleted \<Rightarrow> (\<forall>r \<in> set rs. mr_accepted r = Some True)
            | MultiRejected \<Rightarrow> (\<exists>r \<in> set rs. mr_accepted r = Some False)
            | MultiExpired \<Rightarrow> (\<exists>r \<in> set rs. mr_accepted r = None)
            | MultiAccepted \<Rightarrow> False)
      else (case mp_state pay of
              MultiPending \<Rightarrow> (\<exists>r \<in> set rs. mr_accepted r = None)
            | MultiCompleted \<Rightarrow> (\<forall>r \<in> set rs. mr_accepted r \<noteq> None)
            | MultiExpired \<Rightarrow> (\<exists>r \<in> set rs. mr_accepted r = None)
            | MultiRejected \<Rightarrow> False
            | MultiAccepted \<Rightarrow> False))"

definition payment_ok :: "ident \<Rightarrow> multi_party_payment \<Rightarrow> recipient_table \<Rightarrow> bool" where
  "payment_ok p pay t \<longleftrightarrow> shares_unique p t \<and> answers_ok pay (get_recipients p t)
     \<and> mp_total_amount pay = sum_list (map mr_amount (get_recipients p t))"

definition multi_ok :: "db \<Rightarrow> bool" where
  "multi_ok d \<longleftrightarrow> table_ok (agents d) \<and> table_ok (multi_party_payments d) \<and> table_ok (multi_party_recipients d)
     \<and> (\<forall>r \<in> snd ` set (multi_party_recipients d). row_of (multi_party_payments d) (mr_payment_id r) \<noteq> None)
     \<and> (\<forall>p pay. row_of (multi_party_payments d) p = Some pay \<longrightarrow> payment_ok p pay (multi_party_recipients d))"

text \<open>A payment that is no longer pending is final, with the answers of its recipients.\<close>

definition mp_evolves :: "db \<Rightarrow> db \<Rightarrow> bool" where
  "mp_evolves d d' \<longleftrightarrow> (\<forall>p pay. row_of (multi_party_payments d) p = Some pay \<longrightarrow> mp_state pay \<noteq> MultiPending \<longrightarrow>
     row_of (multi_party_payments d') p = Some pay
     \<and> get_recipients p (multi_party_recipients d') = get_recipients p (multi_party_recipients d))"

text \<open>A step, with what it pays beyond the accounts.\<close>

definition multi_step :: "(ident \<Rightarrow> token \<Rightarrow> decimal) \<Rightarrow> db \<Rightarrow> db \<Rightarrow> bool" where
  "multi_step g d d' \<longleftrightarrow> multi_ok d' \<and> mp_evolves d d' \<and> (\<forall>b u. mp_account b u d' = mp_account b u d + g b u)"

abbreviation nothing :: "ident \<Rightarrow> token \<Rightarrow> decimal" where
  "nothing \<equiv> \<lambda>b u. 0"

lemma multi_step_refl: "multi_ok d \<Longrightarrow> multi_step nothing d d"
  by (simp add: multi_step_def mp_evolves_def)

lemma multi_step_trans:
  "multi_step g d1 d2 \<Longrightarrow> multi_step h d2 d3 \<Longrightarrow> multi_step (\<lambda>b u. g b u + h b u) d1 d3"
  by (simp add: multi_step_def mp_evolves_def)

lemma multi_step_ok: "multi_step g d d' \<Longrightarrow> multi_ok d'"
  by (simp add: multi_step_def)

lemma multi_step_records [simp]:
  "multi_step g d (d'\<lparr>audit_log := x\<rparr>) = multi_step g d d'"
  "multi_step g d (d'\<lparr>webhook_events := y\<rparr>) = multi_step g d d'"
  by (simp_all add: multi_step_def multi_ok_def mp_evolves_def mp_account_def)

text \<open>
  The general step: a payment pending before, its row and the answers of its recipients after, and the
  money moved.
\<close>

lemma multi_stepI:
  assumes "multi_ok d" and "row_of (multi_party_payments d) p = Some pay" and "mp_state pay = MultiPending"
    and "agents d' = agents d" and "table_ok (multi_party_payments d')" and "table_ok (multi_party_recipients d')"
    and "\<And>q. row_of (multi_party_payments d') q = (if q = p then Some pay' else row_of (multi_party_payments d) q)"
    and "\<And>q. q \<noteq> p \<Longrightarrow> get_recipients q (multi_party_recipients d') = get_recipients q (multi_party_recipients d)"
    and "payment_ok p pay' (multi_party_recipients d')"
    and "\<And>b u. mp_account b u d' = mp_account b u d + g b u"
  shows "multi_step g d d'"
proof -
  have "row_of (multi_party_payments d') (mr_payment_id r) \<noteq> None"
    if "(k, r) \<in> set (multi_party_recipients d')" for k r
  proof (cases "mr_payment_id r = p")
    case True
    then show ?thesis by (simp add: assms(7))
  next
    case False
    have "r \<in> set (get_recipients (mr_payment_id r) (multi_party_recipients d'))"
      using that by (auto simp: mem_get_recipients)
    then have "r \<in> set (get_recipients (mr_payment_id r) (multi_party_recipients d))"
      by (simp add: assms(8) [OF False])
    then have "r \<in> snd ` set (multi_party_recipients d)" by (force simp: mem_get_recipients)
    then have "row_of (multi_party_payments d) (mr_payment_id r) \<noteq> None"
      using assms(1) unfolding multi_ok_def by blast
    then show ?thesis using False by (simp add: assms(7))
  qed
  moreover have "payment_ok q row (multi_party_recipients d')"
    if "row_of (multi_party_payments d') q = Some row" for q row
    using that assms(1,8,9) by (auto simp: assms(7) multi_ok_def payment_ok_def shares_unique_def split: if_splits)
  ultimately have "multi_ok d'"
    using assms(1,4,5,6) by (auto simp: multi_ok_def)
  moreover have "mp_evolves d d'"
    using assms(2,3,7,8) by (auto simp: mp_evolves_def)
  ultimately show ?thesis using assms(10) by (simp add: multi_step_def)
qed

section \<open>Answers\<close>

lemma pending_share_Inr:
  "pending_share a p d = Inr (pay, r) \<longleftrightarrow>
     row_of (multi_party_payments d) p = Some pay \<and> mp_state pay = MultiPending
     \<and> find_recipient (get_recipients p (multi_party_recipients d)) a = Some r"
  by (auto simp: pending_share_def split: option.splits)

abbreviation answer :: "moment \<Rightarrow> bool \<Rightarrow> multi_party_recipient \<Rightarrow> multi_party_recipient" where
  "answer now v r \<equiv> r\<lparr>mr_accepted := Some v, mr_accepted_at := Some now\<rparr>"

lemma answer_effect:
  assumes "multi_ok d" and "pending_share a p d = Inr (pay, r)" and "mr_accepted r = None"
    and "t' = update_where (unanswered p a) (answer now v) (multi_party_recipients d)"
  shows "mr_recipient_id r = a" and "rows_where (unanswered p a) (multi_party_recipients d) \<noteq> 0"
    and "table_ok t'" and "\<And>q. q \<noteq> p \<Longrightarrow> get_recipients q t' = get_recipients q (multi_party_recipients d)"
    and "\<exists>xs ys. get_recipients p (multi_party_recipients d) = xs @ r # ys
      \<and> get_recipients p t' = xs @ answer now v r # ys"
    and "table_sum (\<lambda>k. share_position b u (multi_party_payments d)) t' =
      table_sum (\<lambda>k. share_position b u (multi_party_payments d)) (multi_party_recipients d)
      - share_value b u pay r + share_value b u pay (answer now v r)"
proof -
  let ?t = "multi_party_recipients d"
  have row: "row_of (multi_party_payments d) p = Some pay"
    and find: "find_recipient (get_recipients p ?t) a = Some r"
    using assms(2) by (simp_all add: pending_share_Inr)
  have ok: "table_ok ?t" and "payment_ok p pay ?t" using assms(1) row by (auto simp: multi_ok_def)
  then have uniq: "shares_unique p ?t" by (simp add: payment_ok_def)
  note found = answer_share [OF ok uniq find]
  show "mr_recipient_id r = a" and "rows_where (unanswered p a) ?t \<noteq> 0"
    using found(2,4) assms(3) by auto
  obtain k where step: "row_step k r (answer now v r) ?t t'"
    using found(5) [OF assms(3), of "answer now v"] unfolding assms(4) by blast
  show "table_ok t'" by (rule row_step_ok [OF step])
  have p: "mr_payment_id r = p" "mr_payment_id (answer now v r) = p" using found(1) by simp_all
  show "get_recipients q t' = get_recipients q ?t" if "q \<noteq> p" for q
    using get_recipients_step(2) [OF step p that] .
  show "\<exists>xs ys. get_recipients p ?t = xs @ r # ys \<and> get_recipients p t' = xs @ answer now v r # ys"
    by (rule get_recipients_step(1) [OF step p])
  show "table_sum (\<lambda>k. share_position b u (multi_party_payments d)) t' =
      table_sum (\<lambda>k. share_position b u (multi_party_payments d)) ?t
      - share_value b u pay r + share_value b u pay (answer now v r)"
    by (rule share_position_answer [OF step row p])
qed

lemma share_value_all:
  "mp_require_all_accept pay \<Longrightarrow> share_value b u pay (answer now v r) = share_value b u pay r"
  by (simp add: share_value_def fate_of_def)

lemma share_value_each:
  "\<not> mp_require_all_accept pay \<Longrightarrow> mp_state pay = MultiPending \<Longrightarrow> mr_accepted r = None \<Longrightarrow>
     share_value b u pay (answer now v r) - share_value b u pay r =
     (if u = mp_currency pay \<and> b = (if v then mr_recipient_id r else mp_sender_id pay) then mr_amount r else 0)"
  by (auto simp: share_value_def fate_of_def)

text \<open>Closing a payment: the difference of the positions is what the shares still held are worth.\<close>

lemma closing_value:
  assumes "mp_require_all_accept pay" and "mp_state pay = MultiPending"
  shows "sum_list (map (\<lambda>r. share_value b u (pay\<lparr>mp_state := MultiCompleted, mp_completed_at := m\<rparr>) r
      - share_value b u pay r) rs) =
      (if u = mp_currency pay then sum_list (map mr_amount (filter (\<lambda>r. mr_recipient_id r = b) rs)) else 0)"
    and "st = MultiRejected \<or> st = MultiExpired \<Longrightarrow>
      sum_list (map (\<lambda>r. share_value b u (pay\<lparr>mp_state := st, mp_completed_at := m\<rparr>) r - share_value b u pay r) rs) =
      (if u = mp_currency pay \<and> b = mp_sender_id pay then sum_list (map mr_amount rs) else 0)"
  using assms by (induction rs) (auto simp: share_value_def fate_of_def)

lemma expiring_value:
  assumes "\<not> mp_require_all_accept pay" and "mp_state pay = MultiPending"
  shows "sum_list (map (\<lambda>r. share_value b u (pay\<lparr>mp_state := MultiExpired, mp_completed_at := m\<rparr>) r
      - share_value b u pay r) rs) =
      (if u = mp_currency pay \<and> b = mp_sender_id pay
       then sum_list (map mr_amount (filter (\<lambda>r. mr_accepted r = None) rs)) else 0)"
  using assms by (induction rs) (auto simp: share_value_def fate_of_def split: option.splits bool.splits)

lemma completing_value:
  assumes "\<not> mp_require_all_accept pay" and "mp_state pay = MultiPending"
  shows "share_value b u (pay\<lparr>mp_state := MultiCompleted, mp_completed_at := m\<rparr>) r = share_value b u pay r"
  using assms by (simp add: share_value_def fate_of_def split: option.splits)

lemma payment_ok_answered:
  assumes "payment_ok p pay t" and "get_recipients p t = xs @ r # ys"
    and "get_recipients p t' = xs @ answer now v r # ys"
    and "mp_total_amount pay' = mp_total_amount pay" and "answers_ok pay' (xs @ answer now v r # ys)"
  shows "payment_ok p pay' t'"
  using assms by (simp add: payment_ok_def shares_unique_def)

text \<open>An answer where every share stands for itself.\<close>

lemma individual_answer_step:
  assumes "multi_ok d" and "pending_share a p d = Inr (pay, r)" and "mr_accepted r = None"
    and "\<not> mp_require_all_accept pay"
    and "t' = update_where (unanswered p a) (answer now v) (multi_party_recipients d)"
    and "complete_if_answered now p (d\<lparr>multi_party_recipients := t',
        balances := credit now (if v then a else mp_sender_id pay) (mr_amount r) (mp_currency pay) (balances d),
        audit_log := x\<rparr>) = (d', state)"
  shows "multi_step nothing d d'"
proof -
  note eff = answer_effect [OF assms(1-3,5)]
  have row: "row_of (multi_party_payments d) p = Some pay" and pending: "mp_state pay = MultiPending"
    using assms(2) by (simp_all add: pending_share_Inr)
  obtain xs ys where rs: "get_recipients p (multi_party_recipients d) = xs @ r # ys"
    "get_recipients p t' = xs @ answer now v r # ys"
    using eff(5) by blast
  have ok: "table_ok (multi_party_payments d)" and pok: "payment_ok p pay (multi_party_recipients d)"
    using assms(1) row by (auto simp: multi_ok_def)
  let ?paid = "credit now (if v then a else mp_sender_id pay) (mr_amount r) (mp_currency pay) (balances d)"
  have each: "share_value b u pay (answer now v r) - share_value b u pay r =
      available_of b u ?paid - available_of b u (balances d)" for b u
    using share_value_each [OF assms(4) pending assms(3)] eff(1) by (auto simp: available_credit)
  show ?thesis
  proof (cases "list_all (\<lambda>r. mr_accepted r \<noteq> None) (xs @ answer now v r # ys)")
    case True
    let ?pay = "pay\<lparr>mp_state := MultiCompleted, mp_completed_at := Some now\<rparr>"
    let ?pays = "snd (mp_complete now p (multi_party_payments d))"
    have d': "d' = d\<lparr>multi_party_recipients := t', balances := ?paid, audit_log := x, multi_party_payments := ?pays\<rparr>"
      using assms(6) True by (simp add: complete_if_answered_def rs(2))
    have step: "row_step p pay ?pay (multi_party_payments d) ?pays"
      by (rule mp_completed.hit_steps [OF ok row pending])
    show ?thesis
    proof (rule multi_stepI [OF assms(1) row pending])
      show "payment_ok p ?pay (multi_party_recipients d')"
        using pok rs True assms(4)
        by (auto simp: d' answers_ok_def list_all_iff intro!: payment_ok_answered [OF pok])
      show "mp_account b u d' = mp_account b u d + nothing b u" for b u
        using eff(6) [of b u] each [of b u] share_position_step [OF step, of b u t']
        by (simp add: d' mp_account_def completing_value [OF assms(4) pending] sum_list_0)
    qed (simp_all add: d' row_step_ok [OF step] row_step_row_of [OF step] eff(3,4))
  next
    case False
    then have d': "d' = d\<lparr>multi_party_recipients := t', balances := ?paid, audit_log := x\<rparr>"
      using assms(6) by (auto simp: complete_if_answered_def rs(2) split: if_splits)
    show ?thesis
    proof (rule multi_stepI [OF assms(1) row pending])
      show "payment_ok p pay (multi_party_recipients d')"
        using pok rs False assms(4) pending
        by (auto simp: d' answers_ok_def list_all_iff intro!: payment_ok_answered [OF pok])
      show "mp_account b u d' = mp_account b u d + nothing b u" for b u
        using eff(6) [of b u] each [of b u] by (simp add: d' mp_account_def)
    qed (simp_all add: d' ok eff(3,4) row)
  qed
qed

text \<open>Closing a payment that stands or falls as a whole, with all its answers given.\<close>

lemma close_all_step:
  assumes "multi_ok d" and "row_of (multi_party_payments d) p = Some pay" and "mp_state pay = MultiPending"
    and "row_step p pay pay' (multi_party_payments d) pays'" and "table_ok t'"
    and "\<And>q. q \<noteq> p \<Longrightarrow> get_recipients q t' = get_recipients q (multi_party_recipients d)"
    and "payment_ok p pay' t'"
    and "\<And>b u. table_sum (\<lambda>k. share_position b u (multi_party_payments d)) t' =
      table_sum (\<lambda>k. share_position b u (multi_party_payments d)) (multi_party_recipients d)"
    and "\<And>b u. available_of b u bal' = available_of b u (balances d) + g b u
      + sum_list (map (\<lambda>r. share_value b u pay' r - share_value b u pay r) (get_recipients p t'))"
  shows "multi_step g d (d\<lparr>multi_party_recipients := t', balances := bal', multi_party_payments := pays'\<rparr>)"
proof (rule multi_stepI [OF assms(1-3)])
  show "mp_account b u (d\<lparr>multi_party_recipients := t', balances := bal', multi_party_payments := pays'\<rparr>) =
      mp_account b u d + g b u" for b u
    using assms(8,9) [of b u] share_position_step [OF assms(4), of b u t'] by (simp add: mp_account_def)
  show "payment_ok p pay' (multi_party_recipients
      (d\<lparr>multi_party_recipients := t', balances := bal', multi_party_payments := pays'\<rparr>))"
    using assms(7) by simp
qed (simp_all add: row_step_ok [OF assms(4)] row_step_row_of [OF assms(4)] assms(5-7))

section \<open>The operations as steps\<close>

lemma update_where_miss: "rows_where P t = 0 \<Longrightarrow> update_where P f t = t"
  by (auto simp: rows_where_def update_where_def filter_empty_conv intro!: map_idI)

lemma credit_recipients_available:
  "available_of b u (credit_recipients now tok rs t) = available_of b u t
     + (if u = tok then sum_list (map mr_amount (filter (\<lambda>r. mr_recipient_id r = b) rs)) else 0)"
  by (induction rs arbitrary: t) (auto simp: credit_recipients_def available_credit)

lemma refund_shares_available:
  "available_of b u (refund_shares now pay rs t) = available_of b u t
     + (if u = mp_currency pay \<and> b = mp_sender_id pay
        then sum_list (map mr_amount (filter (\<lambda>r. mr_accepted r \<noteq> Some True) rs)) else 0)"
  by (induction rs arbitrary: t) (auto simp: refund_shares_def available_credit)

lemma accept_multi_party_step:
  assumes "accept_multi_party now a p d = Inr (d', s, w)" and "multi_ok d"
  shows "multi_step nothing d d'"
proof -
  let ?t = "multi_party_recipients d"
  let ?t' = "update_where (unanswered p a) (answer now True) ?t"
  obtain pay r where share: "pending_share a p d = Inr (pay, r)"
    using assms(1) by (auto simp: accept_multi_party_def and_then_Inr_iff)
  then have row: "row_of (multi_party_payments d) p = Some pay" and pending: "mp_state pay = MultiPending"
    and find: "find_recipient (get_recipients p ?t) a = Some r"
    by (simp_all add: pending_share_Inr)
  have ok: "table_ok ?t" "table_ok (multi_party_payments d)" and pok: "payment_ok p pay ?t"
    using assms(2) row by (auto simp: multi_ok_def)
  show ?thesis
  proof (cases "mr_accepted r")
    case (Some v)
    then have "rows_where (unanswered p a) ?t = 0"
      using answer_share(3) [OF ok(1) _ find] pok by (simp add: payment_ok_def)
    then have "d' = d"
      using assms(1) share by (auto simp: accept_multi_party_def accept_recipient_def update_where_miss split: if_splits)
    then show ?thesis using assms(2) by (simp add: multi_step_refl)
  next
    case None
    note eff = answer_effect [OF assms(2) share None, where t' = ?t' and now = now and v = True, OF refl]
    obtain xs ys where rs: "get_recipients p ?t = xs @ r # ys" "get_recipients p ?t' = xs @ answer now True r # ys"
      using eff(5) by blast
    show ?thesis
    proof (cases "mp_require_all_accept pay")
      case False
      then obtain x where "complete_if_answered now p (d\<lparr>multi_party_recipients := ?t',
          balances := credit now (if True then a else mp_sender_id pay) (mr_amount r) (mp_currency pay) (balances d),
          audit_log := x\<rparr>) = (d', s)"
        using assms(1) share None eff(2)
        by (auto simp: accept_multi_party_def accept_recipient_def log_event_keywords_bind split: prod.splits)
      then show ?thesis using assms(2) share None False by (intro individual_answer_step) auto
    next
      case all: True
      have same: "table_sum (\<lambda>k. share_position b u (multi_party_payments d)) ?t' =
          table_sum (\<lambda>k. share_position b u (multi_party_payments d)) ?t" for b u
        using eff(6) [of b u] by (simp add: share_value_all [OF all])
      show ?thesis
      proof (cases "list_all (\<lambda>r. mr_accepted r = Some True) (get_recipients p ?t')")
        case True
        let ?pays = "snd (mp_complete now p (multi_party_payments d))"
        let ?pay = "pay\<lparr>mp_state := MultiCompleted, mp_completed_at := Some now\<rparr>"
        let ?bal = "credit_recipients now (mp_currency pay) (get_recipients p ?t') (balances d)"
        obtain x where d': "d' = d\<lparr>multi_party_recipients := ?t', balances := ?bal,
            multi_party_payments := ?pays, audit_log := x\<rparr>"
          using assms(1) share None eff(2) all True
          by (auto simp: accept_multi_party_def accept_recipient_def log_event_keywords_bind)
        have step: "row_step p pay ?pay (multi_party_payments d) ?pays"
          by (rule mp_completed.hit_steps [OF ok(2) row pending])
        have "payment_ok p ?pay ?t'"
          using True rs all by (auto simp: answers_ok_def list_all_iff intro!: payment_ok_answered [OF pok])
        then have "multi_step nothing d (d\<lparr>multi_party_recipients := ?t', balances := ?bal, multi_party_payments := ?pays\<rparr>)"
          using eff(3,4) same
          by (intro close_all_step [OF assms(2) row pending step])
            (simp_all add: credit_recipients_available closing_value(1) [OF all pending])
        then show ?thesis by (simp add: d')
      next
        case False
        then have d': "d' = d\<lparr>multi_party_recipients := ?t'\<rparr>"
          using assms(1) share None eff(2) all
          by (auto simp: accept_multi_party_def accept_recipient_def)
        have none_false: "\<forall>x \<in> set (xs @ r # ys). mr_accepted x \<noteq> Some False"
          using pok rs(1) all pending by (auto simp: payment_ok_def answers_ok_def)
        obtain x where x: "x \<in> set (xs @ answer now True r # ys)" "mr_accepted x \<noteq> Some True"
          using False by (auto simp: rs(2) list_all_iff)
        then have "x \<in> set (xs @ ys)" by auto
        moreover from this have "mr_accepted x = None"
        proof (cases "mr_accepted x")
          case (Some v)
          then show ?thesis
            using none_false x(2) \<open>x \<in> set (xs @ ys)\<close> by (cases v) auto
        qed simp
        ultimately have "answers_ok pay (xs @ answer now True r # ys)"
          using none_false all pending by (auto simp: answers_ok_def)
        then have pok': "payment_ok p pay ?t'" using payment_ok_answered [OF pok rs] by simp
        show ?thesis
        proof (rule multi_stepI [OF assms(2) row pending])
          show "payment_ok p pay (multi_party_recipients d')" using pok' by (simp add: d')
          show "mp_account b u d' = mp_account b u d + nothing b u" for b u
            by (simp add: d' mp_account_def same)
        qed (simp_all add: d' ok eff(3,4) row)
      qed
    qed
  qed
qed

lemma reject_multi_party_step:
  assumes "reject_multi_party now a p d = Inr (d', s, w)" and "multi_ok d"
  shows "multi_step nothing d d'"
proof -
  let ?t = "multi_party_recipients d"
  let ?t' = "update_where (unanswered p a) (answer now False) ?t"
  obtain pay r where share: "pending_share a p d = Inr (pay, r)"
    using assms(1) by (auto simp: reject_multi_party_def and_then_Inr_iff)
  then have row: "row_of (multi_party_payments d) p = Some pay" and pending: "mp_state pay = MultiPending"
    and find: "find_recipient (get_recipients p ?t) a = Some r"
    by (simp_all add: pending_share_Inr)
  have ok: "table_ok ?t" "table_ok (multi_party_payments d)" and pok: "payment_ok p pay ?t"
    using assms(2) row by (auto simp: multi_ok_def)
  have "rows_where (unanswered p a) ?t \<noteq> 0"
    using assms(1) share by (auto simp: reject_multi_party_def reject_recipient_def Let_def split: if_splits)
  then have none: "mr_accepted r = None"
    using answer_share(3) [OF ok(1) _ find] pok unfolding payment_ok_def by metis
  note eff = answer_effect [OF assms(2) share none, where t' = ?t' and now = now and v = False, OF refl]
  obtain xs ys where rs: "get_recipients p ?t = xs @ r # ys" "get_recipients p ?t' = xs @ answer now False r # ys"
    using eff(5) by blast
  show ?thesis
  proof (cases "mp_require_all_accept pay")
    case False
    then obtain x where "complete_if_answered now p (d\<lparr>multi_party_recipients := ?t',
        balances := credit now (if False then a else mp_sender_id pay) (mr_amount r) (mp_currency pay) (balances d),
        audit_log := x\<rparr>) = (d', s)"
      using assms(1) share eff(2)
      by (auto simp: reject_multi_party_def reject_recipient_def log_event_keywords_bind split: prod.splits)
    then show ?thesis using assms(2) share none False by (intro individual_answer_step) auto
  next
    case all: True
    let ?pays = "snd (mp_reject now p (multi_party_payments d))"
    let ?pay = "pay\<lparr>mp_state := MultiRejected, mp_completed_at := Some now\<rparr>"
    let ?bal = "credit now (mp_sender_id pay) (mp_total_amount pay) (mp_currency pay) (balances d)"
    obtain x where d': "d' = d\<lparr>multi_party_recipients := ?t', balances := ?bal,
        multi_party_payments := ?pays, audit_log := x\<rparr>"
      using assms(1) share eff(2) all
      by (auto simp: reject_multi_party_def reject_recipient_def log_event_keywords_bind)
    have step: "row_step p pay ?pay (multi_party_payments d) ?pays"
      by (rule mp_rejected.hit_steps [OF ok(2) row pending])
    have same: "table_sum (\<lambda>k. share_position b u (multi_party_payments d)) ?t' =
        table_sum (\<lambda>k. share_position b u (multi_party_payments d)) ?t" for b u
      using eff(6) [of b u] by (simp add: share_value_all [OF all])
    have sum: "sum_list (map mr_amount (get_recipients p ?t')) = mp_total_amount pay"
      using pok rs by (simp add: payment_ok_def)
    have "payment_ok p ?pay ?t'"
      using rs all by (auto simp: answers_ok_def intro!: payment_ok_answered [OF pok])
    then have "multi_step nothing d (d\<lparr>multi_party_recipients := ?t', balances := ?bal, multi_party_payments := ?pays\<rparr>)"
      using eff(3,4) same
      by (intro close_all_step [OF assms(2) row pending step])
        (simp_all add: available_credit closing_value(2) [OF all pending] sum)
    then show ?thesis by (simp add: d')
  qed
qed

subsection \<open>Creation\<close>

lemma queue_each_frame: "\<exists>w. queue_each ev rs d = Inr (d\<lparr>webhook_events := w\<rparr>)"
proof (induction rs arbitrary: d)
  case Nil
  have "d = d\<lparr>webhook_events := webhook_events d\<rparr>" by simp
  then show ?case by (metis queue_each.simps(1))
next
  case (Cons r rs)
  obtain a x where r: "r = (a, x)" by (cases r)
  show ?case
    using Cons.IH [of "d\<lparr>webhook_events := webhook_events d @ [\<lparr>wh_agent_id = a, wh_event_type = ev\<rparr>]\<rparr>"]
    by (auto simp: r queue_webhook_binds)
qed

lemma resolve_recipients_Inr:
  assumes "resolve_recipients rs d = Inr q"
  shows "map snd q = map snd rs"
    and "list_all2 (\<lambda>r e. \<exists>g. first_row (\<lambda>g. ag_name g = fst r) (agents d) = Some (fst e, g) \<and> ag_is_active g) rs q"
  using assms
proof (induction rs arbitrary: q)
  case Nil
  {
    case 1
    then show ?case by simp
  next
    case 2
    then show ?case by simp
  }
next
  case (Cons r rs)
  obtain name x where r: "r = (name, x)" by (cases r)
  {
    case 1
    then show ?case using Cons.IH(1) by (auto simp: r and_then_Inr_iff split: option.splits if_splits)
  next
    case 2
    then show ?case using Cons.IH(2) by (auto simp: r and_then_Inr_iff split: option.splits if_splits)
  }
qed

lemma resolved_distinct:
  assumes "resolve_recipients rs d = Inr q" and "distinct (map fst rs)" and "table_ok (agents d)"
  shows "distinct (map fst q)"
  using resolve_recipients_Inr(2) [OF assms(1)] assms(2)
proof (induction rs q rule: list_all2_induct)
  case Nil
  then show ?case by simp
next
  case (Cons r rs e q)
  have "fst e \<noteq> fst e'" if mem: "e' \<in> set q" for e'
  proof
    assume same: "fst e = fst e'"
    obtain i where i: "i < length q" "q ! i = e'" using mem by (auto simp: in_set_conv_nth)
    obtain g where g: "first_row (\<lambda>g. ag_name g = fst r) (agents d) = Some (fst e, g)" using Cons.hyps by blast
    obtain g' where g': "first_row (\<lambda>g. ag_name g = fst (rs ! i)) (agents d) = Some (fst e', g')"
      using list_all2_nthD2 [OF Cons.hyps(2) i(1)] i(2) by auto
    have "ag_name g = fst r" "ag_name g' = fst (rs ! i)" "g = g'"
      using first_row_Some [OF assms(3) g] first_row_Some [OF assms(3) g'] same by auto
    then have "fst r \<in> fst ` set rs"
      using i(1) list_all2_lengthD [OF Cons.hyps(2)] by (metis image_eqI nth_mem)
    with Cons.prems show False by simp
  qed
  then show ?case using Cons.IH Cons.prems by auto
qed

lemma create_multi_party_Inr:
  assumes "create_multi_party now a recipients tok require_all h d = Inr (d', view)"
  obtains q t x w p where "recipients \<noteq> []" and "distinct (map fst recipients)"
    and "resolve_recipients recipients d = Inr q" and "p = new_id (multi_party_payments d)"
    and "deduct now a (sum_list (map snd q)) tok (balances d) = Inr t"
    and "d' = d\<lparr>balances := t,
          multi_party_payments := add_row
            (mp_new_payment now a (sum_list (map snd q)) (now + hours h) tok require_all) (multi_party_payments d),
          multi_party_recipients := mp_add_recipients p q (multi_party_recipients d),
          audit_log := x, webhook_events := w\<rparr>"
proof -
  obtain q t where start: "recipients \<noteq> []" "distinct (map fst recipients)"
    "resolve_recipients recipients d = Inr q"
    "deduct now a (sum_list (map snd q)) tok (balances d) = Inr t"
    and rest: "\<exists>d3 x. queue_each ''multi_party.created'' q (d\<lparr>balances := t,
          multi_party_payments := add_row
            (mp_new_payment now a (sum_list (map snd q)) (now + hours h) tok require_all) (multi_party_payments d),
          multi_party_recipients := mp_add_recipients (new_id (multi_party_payments d)) q (multi_party_recipients d),
          audit_log := x\<rparr>) = Inr d3 \<and> d' = d3"
    using assms
    by (auto simp: create_multi_party_def and_then_Inr_iff mp_create_def Let_def log_event_keywords_bind
        split: if_splits)
  let ?d = "\<lambda>x. d\<lparr>balances := t,
          multi_party_payments := add_row
            (mp_new_payment now a (sum_list (map snd q)) (now + hours h) tok require_all) (multi_party_payments d),
          multi_party_recipients := mp_add_recipients (new_id (multi_party_payments d)) q (multi_party_recipients d),
          audit_log := x\<rparr>"
  obtain x where x: "queue_each ''multi_party.created'' q (?d x) = Inr d'" using rest by blast
  obtain w where "queue_each ''multi_party.created'' q (?d x) = Inr ((?d x)\<lparr>webhook_events := w\<rparr>)"
    using queue_each_frame [of "''multi_party.created''" q "?d x"] by blast
  with x have "d' = (?d x)\<lparr>webhook_events := w\<rparr>" by (metis sum.inject(2))
  then show thesis using that [OF start(1-3) refl start(4)] by blast
qed

lemma create_multi_party_step:
  assumes "create_multi_party now a recipients tok require_all h d = Inr (d', view)" and "multi_ok d"
  shows "multi_step nothing d d'"
proof -
  obtain q t x w p where start: "recipients \<noteq> []" "distinct (map fst recipients)"
    "resolve_recipients recipients d = Inr q" and p: "p = new_id (multi_party_payments d)"
    and t: "deduct now a (sum_list (map snd q)) tok (balances d) = Inr t"
    and d': "d' = d\<lparr>balances := t,
          multi_party_payments := add_row
            (mp_new_payment now a (sum_list (map snd q)) (now + hours h) tok require_all) (multi_party_payments d),
          multi_party_recipients := mp_add_recipients p q (multi_party_recipients d),
          audit_log := x, webhook_events := w\<rparr>"
    by (rule create_multi_party_Inr [OF assms(1)])
  let ?pay = "mp_new_payment now a (sum_list (map snd q)) (now + hours h) tok require_all"
  let ?pays = "add_row ?pay (multi_party_payments d)"
  let ?t = "mp_add_recipients p q (multi_party_recipients d)"
  note added = add_recipients_frame [where p = p and rs = q and t = "multi_party_recipients d"]
  have fresh: "mr_payment_id r \<noteq> p" if "r \<in> snd ` set (multi_party_recipients d)" for r
    using assms(2) that p row_of_new_id [of "multi_party_payments d"] unfolding multi_ok_def by metis
  then have none: "get_recipients p (multi_party_recipients d) = []"
    by (force simp: get_recipients_def select_where_def filter_empty_conv)
  have q: "q \<noteq> []" "distinct (map fst q)"
    using start resolve_recipients_Inr(2) [OF start(3)] resolved_distinct [OF start(3,2)] assms(2)
    by (auto simp: multi_ok_def)
  have "\<exists>r \<in> mp_new_recipient p ` set q. mr_accepted r = None"
    using q(1) by (cases q) (auto simp: mp_new_recipient_def)
  then have pok: "payment_ok p ?pay ?t"
    using q none added(2) [where q = p]
    by (auto simp: payment_ok_def shares_unique_def answers_ok_def mp_new_payment_def mp_new_recipient_def
        comp_def)
  have "multi_ok d'"
    unfolding multi_ok_def
  proof (intro conjI ballI allI impI)
    show "table_ok (agents d')" "table_ok (multi_party_payments d')" "table_ok (multi_party_recipients d')"
      using assms(2) by (simp_all add: d' multi_ok_def added(1))
    show "row_of (multi_party_payments d') (mr_payment_id r) \<noteq> None"
      if "r \<in> snd ` set (multi_party_recipients d')" for r
    proof -
      have "r \<in> snd ` set (multi_party_recipients d) \<or> mr_payment_id r = p"
        using that added(4) by (auto simp: d' mp_new_recipient_def)
      then show ?thesis
        using assms(2) p by (auto simp: d' row_of_add_row multi_ok_def)
    qed
    show "payment_ok i pay (multi_party_recipients d')"
      if "row_of (multi_party_payments d') i = Some pay" for i pay
    proof (cases "i = p")
      case True
      then show ?thesis using pok that p by (simp add: d')
    next
      case False
      then show ?thesis
        using that assms(2) p added(2) [where q = i]
        by (auto simp: d' row_of_add_row multi_ok_def payment_ok_def shares_unique_def)
    qed
  qed
  moreover have "mp_evolves d d'"
    using p row_of_new_id [of "multi_party_payments d"] added(2)
    by (auto simp: mp_evolves_def d' row_of_add_row)
  moreover have "mp_account b u d' = mp_account b u d" for b u
  proof -
    let ?h = "share_position b u ?pays"
    have "table_sum (\<lambda>k. ?h) (multi_party_recipients d)
        = table_sum (\<lambda>k. share_position b u (multi_party_payments d)) (multi_party_recipients d)"
      using fresh p by (intro table_sum_cong) (force simp: share_position_def row_of_add_row)
    moreover have "sum_list (map ?h (map (mp_new_recipient p) q)) =
        - (if u = tok \<and> b = a then sum_list (map snd q) else 0)"
    proof -
      have "?h (mp_new_recipient p r) = (if u = tok \<and> b = a then - snd r else 0)" for r
        using p by (simp add: share_position_def share_value_def fate_of_def mp_new_recipient_def mp_new_payment_def)
      then have "map ?h (map (mp_new_recipient p) q) = map (\<lambda>r. if u = tok \<and> b = a then - snd r else 0) q"
        by simp
      moreover have "sum_list (map (\<lambda>r. if u = tok \<and> b = a then - snd r else 0) q) =
          - (if u = tok \<and> b = a then sum_list (map snd q) else 0)"
        by (induction q) auto
      ultimately show ?thesis by presburger
    qed
    ultimately show ?thesis
      using deduct_Inr(2) [OF t, of b u] added(3) [where h = ?h] by (auto simp: d' mp_account_def)
  qed
  ultimately show ?thesis by (simp add: multi_step_def)
qed

subsection \<open>Expiry\<close>

text \<open>
  The sweep refunds every share that is not accepted. A share that was rejected has been refunded
  when it was rejected; this is what it pays a second time.
\<close>

definition share_repaid ::
  "recipient_table \<Rightarrow> ident \<times> multi_party_payment \<Rightarrow> ident \<Rightarrow> token \<Rightarrow> decimal"
where
  "share_repaid t e b u =
     (if \<not> mp_require_all_accept (snd e) \<and> u = mp_currency (snd e) \<and> b = mp_sender_id (snd e)
      then sum_list (map mr_amount (filter (\<lambda>r. mr_accepted r = Some False) (get_recipients (fst e) t)))
      else 0)"

lemma refused_and_silent:
  "sum_list (map mr_amount (filter (\<lambda>r. mr_accepted r \<noteq> Some True) rs)) =
     sum_list (map mr_amount (filter (\<lambda>r. mr_accepted r = None) rs))
     + sum_list (map mr_amount (filter (\<lambda>r. mr_accepted r = Some False) rs))"
proof (induction rs)
  case Nil
  then show ?case by simp
next
  case (Cons r rs)
  then show ?case by (cases "mr_accepted r") auto
qed

lemma expire_payment_step:
  assumes "multi_ok d" and "row_of (multi_party_payments d) p = Some pay" and "mp_state pay = MultiPending"
  shows "\<exists>d'. expire_payment now (p, pay) d = Inr d'
    \<and> multi_step (share_repaid (multi_party_recipients d) (p, pay)) d d'
    \<and> multi_party_recipients d' = multi_party_recipients d
    \<and> (\<forall>q. q \<noteq> p \<longrightarrow> row_of (multi_party_payments d') q = row_of (multi_party_payments d) q)"
proof -
  let ?t = "multi_party_recipients d"
  let ?rs = "get_recipients p ?t"
  let ?pays = "snd (mp_expire now p (multi_party_payments d))"
  let ?pay = "pay\<lparr>mp_state := MultiExpired, mp_completed_at := Some now\<rparr>"
  let ?bal = "if mp_require_all_accept pay
      then credit now (mp_sender_id pay) (mp_total_amount pay) (mp_currency pay) (balances d)
      else refund_shares now pay ?rs (balances d)"
  have ok: "table_ok ?t" "table_ok (multi_party_payments d)" and pok: "payment_ok p pay ?t"
    using assms(1,2) by (auto simp: multi_ok_def)
  have step: "row_step p pay ?pay (multi_party_payments d) ?pays"
    by (rule mp_expired.hit_steps [OF ok(2) assms(2,3)])
  have "payment_ok p ?pay ?t"
    using pok assms(3)
    by (cases "mp_require_all_accept pay") (simp_all add: payment_ok_def answers_ok_def)
  moreover have "available_of b u ?bal = available_of b u (balances d) + share_repaid ?t (p, pay) b u
      + sum_list (map (\<lambda>r. share_value b u ?pay r - share_value b u pay r) ?rs)" for b u
  proof (cases "mp_require_all_accept pay")
    case True
    then show ?thesis
      using pok by (simp add: closing_value(2) [OF True assms(3)] share_repaid_def available_credit payment_ok_def)
  next
    case False
    then show ?thesis
      by (simp add: expiring_value [OF False assms(3)] share_repaid_def refund_shares_available refused_and_silent)
  qed
  ultimately have "multi_step (share_repaid ?t (p, pay)) d
      (d\<lparr>multi_party_recipients := ?t, balances := ?bal, multi_party_payments := ?pays\<rparr>)"
    by (intro close_all_step [OF assms step]) (simp_all add: ok)
  moreover have "expire_payment now (p, pay) d = Inr (d\<lparr>balances := ?bal, multi_party_payments := ?pays,
      audit_log := audit_log d @ [audit_of ''multi_party.expired'' (Some (mp_sender_id pay)) ''multi_party_payment'' p]\<rparr>)"
    by (simp add: expire_payment_def Let_def log_event_keywords_bind)
  ultimately show ?thesis by (simp add: row_step_row_of [OF step])
qed

definition due_payments :: "(ident \<times> multi_party_payment) list \<Rightarrow> db \<Rightarrow> bool" where
  "due_payments es d \<longleftrightarrow> distinct (map fst es)
     \<and> (\<forall>(p, pay) \<in> set es. row_of (multi_party_payments d) p = Some pay \<and> mp_state pay = MultiPending)"

definition repaid_by :: "recipient_table \<Rightarrow> (ident \<times> multi_party_payment) list \<Rightarrow> ident \<Rightarrow> token \<Rightarrow> decimal" where
  "repaid_by t es b u = sum_list (map (\<lambda>e. share_repaid t e b u) es)"

lemma expire_payments_step:
  "multi_ok d \<Longrightarrow> due_payments es d \<Longrightarrow> \<exists>d'. expire_payments now es d = Inr (d', length es)
     \<and> multi_step (repaid_by (multi_party_recipients d) es) d d'"
proof (induction es arbitrary: d)
  case Nil
  then show ?case using multi_step_refl [of d] by (simp add: repaid_by_def)
next
  case (Cons e es)
  obtain p pay where e: "e = (p, pay)" by (cases e)
  have p: "row_of (multi_party_payments d) p = Some pay" "mp_state pay = MultiPending"
    using Cons.prems(2) by (auto simp: e due_payments_def)
  obtain d1 where one: "expire_payment now (p, pay) d = Inr d1"
      "multi_step (share_repaid (multi_party_recipients d) (p, pay)) d d1"
      "multi_party_recipients d1 = multi_party_recipients d"
      and others: "\<And>q. q \<noteq> p \<Longrightarrow> row_of (multi_party_payments d1) q = row_of (multi_party_payments d) q"
    using expire_payment_step [OF Cons.prems(1) p, of now] by blast
  have "row_of (multi_party_payments d1) i = Some q \<and> mp_state q = MultiPending" if "(i, q) \<in> set es" for i q
  proof -
    have "i \<noteq> p" and "row_of (multi_party_payments d) i = Some q \<and> mp_state q = MultiPending"
      using Cons.prems(2) that by (force simp: e due_payments_def)+
    then show ?thesis using others by simp
  qed
  then have "due_payments es d1" using Cons.prems(2) by (auto simp: due_payments_def e)
  then obtain d2 where two: "expire_payments now es d1 = Inr (d2, length es)"
    "multi_step (repaid_by (multi_party_recipients d1) es) d1 d2"
    using Cons.IH multi_step_ok [OF one(2)] by blast
  show ?case
    using one(1) two(1) multi_step_trans [OF one(2) two(2)]
    by (simp add: e repaid_by_def one(3))
qed

lemma expire_multi_party_step:
  assumes "multi_ok d"
  shows "\<exists>d' n. expire_multi_party now d = Inr (d', n) \<and> multi_step (repaid_by (multi_party_recipients d)
    (get_pending_expired_payments now (multi_party_payments d))) d d'"
proof -
  have ok: "table_ok (multi_party_payments d)" using assms by (simp add: multi_ok_def)
  then have "due_payments (get_pending_expired_payments now (multi_party_payments d)) d"
    by (auto simp: due_payments_def get_pending_expired_payments_def select_where_def table_ok_def keys_of_def
        mem_row_of distinct_map intro: inj_on_subset)
  then show ?thesis using expire_payments_step [OF assms] unfolding expire_multi_party_def by blast
qed

section \<open>Runs\<close>

datatype multi_op =
    CreateMulti ident "(string \<times> decimal) list" token bool int
  | AcceptMulti ident ident
  | RejectMulti ident ident
  | ExpireMulti

fun multi_exec :: "moment \<Rightarrow> multi_op \<Rightarrow> db \<Rightarrow> db outcome" where
  "multi_exec now (CreateMulti a recipients tok require_all h) d =
     map_sum id fst (create_multi_party now a recipients tok require_all h d)"
| "multi_exec now (AcceptMulti a p) d = map_sum id fst (accept_multi_party now a p d)"
| "multi_exec now (RejectMulti a p) d = map_sum id fst (reject_multi_party now a p d)"
| "multi_exec now ExpireMulti d = map_sum id fst (expire_multi_party now d)"

fun multi_run :: "(moment \<times> multi_op) list \<Rightarrow> db \<Rightarrow> db" where
  "multi_run [] d = d"
| "multi_run ((now, q) # qs) d =
     multi_run qs (case multi_exec now q d of Inl e \<Rightarrow> d | Inr d' \<Rightarrow> d')"

fun repaid_in :: "moment \<Rightarrow> multi_op \<Rightarrow> db \<Rightarrow> ident \<Rightarrow> token \<Rightarrow> decimal" where
  "repaid_in now ExpireMulti d b u = repaid_by (multi_party_recipients d)
     (get_pending_expired_payments now (multi_party_payments d)) b u"
| "repaid_in now q d b u = 0"

text \<open>What the sweeps of a run refund although it had been refunded.\<close>

fun run_repaid :: "(moment \<times> multi_op) list \<Rightarrow> db \<Rightarrow> ident \<Rightarrow> token \<Rightarrow> decimal" where
  "run_repaid [] d b u = 0"
| "run_repaid ((now, q) # qs) d b u =
     repaid_in now q d b u + run_repaid qs (case multi_exec now q d of Inl e \<Rightarrow> d | Inr d' \<Rightarrow> d') b u"

lemma repaid_in_nothing:
  "repaid_in now (CreateMulti a recipients tok require_all h) d = nothing"
  "repaid_in now (AcceptMulti a p) d = nothing" "repaid_in now (RejectMulti a p) d = nothing"
  by (simp_all add: fun_eq_iff)

lemma multi_exec_step:
  assumes "multi_ok d"
  shows "multi_step (repaid_in now q d) d (case multi_exec now q d of Inl e \<Rightarrow> d | Inr d' \<Rightarrow> d')"
proof (cases q)
  case (CreateMulti a recipients tok require_all h)
  then show ?thesis
    using assms create_multi_party_step [of now a recipients tok require_all h d]
    by (auto simp: map_sum_fst_Inr multi_step_refl repaid_in_nothing split: sum.split)
next
  case (AcceptMulti a p)
  then show ?thesis
    using assms accept_multi_party_step [of now a p d]
    by (auto simp: map_sum_fst_Inr multi_step_refl repaid_in_nothing split: sum.split)
next
  case (RejectMulti a p)
  then show ?thesis
    using assms reject_multi_party_step [of now a p d]
    by (auto simp: map_sum_fst_Inr multi_step_refl repaid_in_nothing split: sum.split)
next
  case ExpireMulti
  have "repaid_in now ExpireMulti d = repaid_by (multi_party_recipients d)
      (get_pending_expired_payments now (multi_party_payments d))" by (intro ext) simp
  then show ?thesis using expire_multi_party_step [OF assms, of now] by (auto simp: ExpireMulti)
qed

lemma multi_run_step: "multi_ok d \<Longrightarrow> multi_step (run_repaid qs d) d (multi_run qs d)"
proof (induction qs arbitrary: d)
  case Nil
  have "run_repaid [] d = nothing" by (intro ext) simp
  then show ?case using multi_step_refl [OF Nil] by simp
next
  case (Cons e qs)
  obtain now q where e: "e = (now, q)" by (cases e)
  let ?d = "case multi_exec now q d of Inl e \<Rightarrow> d | Inr d' \<Rightarrow> d'"
  have step: "multi_step (repaid_in now q d) d ?d" by (rule multi_exec_step [OF Cons.prems])
  have "run_repaid (e # qs) d = (\<lambda>b u. repaid_in now q d b u + run_repaid qs ?d b u)"
    by (intro ext) (simp add: e)
  then show ?case using multi_step_trans [OF step Cons.IH [OF multi_step_ok [OF step]]] by (simp add: e)
qed

section \<open>Properties\<close>

text \<open>C16. Where the money of multi-party payments is: after any run of creations, acceptances,
  rejections and expiry sweeps, the balance of every agent in every token has moved by what its shares
  account for (each share is held, paid to its recipient or refunded to the sender, once), plus exactly
  the shares that an expiry sweep refunded although their rejection had refunded them before. Only
  payments whose shares stand for themselves can be refunded twice.\<close>

theorem multi_party_accounts:
  assumes "multi_ok d"
  shows "available_of b u (balances (multi_run qs d))
      - table_sum (\<lambda>k. share_position b u (multi_party_payments (multi_run qs d)))
          (multi_party_recipients (multi_run qs d))
    = available_of b u (balances d)
      - table_sum (\<lambda>k. share_position b u (multi_party_payments d)) (multi_party_recipients d)
      + run_repaid qs d b u"
  using multi_run_step [OF assms, of qs] by (simp add: multi_step_def mp_account_def)

text \<open>All or nothing: in every state that a run reaches, a payment that requires all to accept is
  completed only if every recipient accepted, rejected only if one refused, and expired only if one had
  not answered; while it is pending nobody has refused and someone has not answered. A payment that is
  no longer pending is final, with the answers of its recipients.\<close>

lemma multi_party_all_or_nothing:
  assumes "multi_ok d" and "row_of (multi_party_payments (multi_run qs d)) p = Some pay"
    and "mp_require_all_accept pay"
  shows "(let rs = get_recipients p (multi_party_recipients (multi_run qs d))
      in (mp_state pay = MultiCompleted \<longrightarrow> (\<forall>r \<in> set rs. mr_accepted r = Some True))
       \<and> (mp_state pay = MultiRejected \<longrightarrow> (\<exists>r \<in> set rs. mr_accepted r = Some False))
       \<and> (mp_state pay = MultiExpired \<longrightarrow> (\<exists>r \<in> set rs. mr_accepted r = None))
       \<and> (mp_state pay = MultiPending \<longrightarrow> (\<forall>r \<in> set rs. mr_accepted r \<noteq> Some False)
            \<and> (\<exists>r \<in> set rs. mr_accepted r = None))
       \<and> mp_state pay \<noteq> MultiAccepted)
    \<and> (mp_state pay \<noteq> MultiPending \<longrightarrow> (\<forall>more.
        row_of (multi_party_payments (multi_run more (multi_run qs d))) p = Some pay
        \<and> get_recipients p (multi_party_recipients (multi_run more (multi_run qs d)))
            = get_recipients p (multi_party_recipients (multi_run qs d))))"
proof
  have ok: "multi_ok (multi_run qs d)" by (rule multi_step_ok [OF multi_run_step [OF assms(1)]])
  then have "answers_ok pay (get_recipients p (multi_party_recipients (multi_run qs d)))"
    using assms(2) by (simp add: multi_ok_def payment_ok_def)
  then show "let rs = get_recipients p (multi_party_recipients (multi_run qs d))
      in (mp_state pay = MultiCompleted \<longrightarrow> (\<forall>r \<in> set rs. mr_accepted r = Some True))
       \<and> (mp_state pay = MultiRejected \<longrightarrow> (\<exists>r \<in> set rs. mr_accepted r = Some False))
       \<and> (mp_state pay = MultiExpired \<longrightarrow> (\<exists>r \<in> set rs. mr_accepted r = None))
       \<and> (mp_state pay = MultiPending \<longrightarrow> (\<forall>r \<in> set rs. mr_accepted r \<noteq> Some False)
            \<and> (\<exists>r \<in> set rs. mr_accepted r = None))
       \<and> mp_state pay \<noteq> MultiAccepted"
    using assms(3) by (cases "mp_state pay") (simp_all add: answers_ok_def Let_def)
  show "mp_state pay \<noteq> MultiPending \<longrightarrow> (\<forall>more.
        row_of (multi_party_payments (multi_run more (multi_run qs d))) p = Some pay
        \<and> get_recipients p (multi_party_recipients (multi_run more (multi_run qs d)))
            = get_recipients p (multi_party_recipients (multi_run qs d)))"
    using multi_run_step [OF ok] assms(2) by (auto simp: multi_step_def mp_evolves_def)
qed

definition demo_agent :: "string \<Rightarrow> agent" where
  "demo_agent n = \<lparr>ag_name = n, ag_is_active = True, ag_tier = TierFree, ag_tier_grace_until = None,
     ag_xmr_address = None, ag_created_at = 0\<rparr>"

definition demo_multi_db :: db where
  "demo_multi_db = empty_db\<lparr>agents := [(1, demo_agent ''a''), (2, demo_agent ''b''), (3, demo_agent ''c'')],
     balances := deposit 0 1 10 ''XMR'' []\<rparr>"

text \<open>A sender of two shares of 3: one recipient refuses (refund), the other never answers.\<close>

definition demo_multi_ops :: "(moment \<times> multi_op) list" where
  "demo_multi_ops = [(0, CreateMulti 1 [(''b'', 3), (''c'', 3)] ''XMR'' False 2),
     (1, RejectMulti 2 1), (hours 3, ExpireMulti)]"

definition demo_all_ops :: "(moment \<times> multi_op) list" where
  "demo_all_ops = [(0, CreateMulti 1 [(''b'', 3), (''c'', 3)] ''XMR'' True 2),
     (1, AcceptMulti 2 1), (2, AcceptMulti 3 1), (3, RejectMulti 3 1), (hours 3, ExpireMulti)]"

lemma demo_multi_ok: "multi_ok demo_multi_db"
  by (simp add: multi_ok_def demo_multi_db_def empty_db_def table_ok_def keys_of_def)

lemma demo_multi_result:
  "available_of 1 ''XMR'' (balances (multi_run demo_multi_ops demo_multi_db)) = 13
   \<and> run_repaid demo_multi_ops demo_multi_db 1 ''XMR'' = 3"
  by code_simp

lemma demo_all_result:
  "map_option mp_state (row_of (multi_party_payments (multi_run demo_all_ops demo_multi_db)) 1) = Some MultiCompleted
   \<and> map_option mp_require_all_accept (row_of (multi_party_payments (multi_run demo_all_ops demo_multi_db)) 1) = Some True
   \<and> available_of 1 ''XMR'' (balances (multi_run demo_all_ops demo_multi_db)) = 4
   \<and> available_of 3 ''XMR'' (balances (multi_run demo_all_ops demo_multi_db)) = 3"
  by code_simp

theorem multi_party_accounts_witness:
  "available_of 1 ''XMR'' (balances (multi_run demo_multi_ops demo_multi_db))
     - table_sum (\<lambda>k. share_position 1 ''XMR'' (multi_party_payments (multi_run demo_multi_ops demo_multi_db)))
         (multi_party_recipients (multi_run demo_multi_ops demo_multi_db))
   = 10 + 3"
proof -
  have "available_of 1 ''XMR'' (balances demo_multi_db) = 10" "multi_party_recipients demo_multi_db = []"
    by code_simp+
  then show ?thesis
    using multi_party_accounts [OF demo_multi_ok, of 1 "''XMR''" demo_multi_ops] demo_multi_result by simp
qed

lemma multi_party_all_or_nothing_witness:
  "list_all (\<lambda>r. mr_accepted r = Some True)
     (get_recipients 1 (multi_party_recipients (multi_run demo_all_ops demo_multi_db)))
   \<and> available_of 3 ''XMR'' (balances (multi_run demo_all_ops demo_multi_db)) = 3"
proof -
  obtain pay where "row_of (multi_party_payments (multi_run demo_all_ops demo_multi_db)) 1 = Some pay"
    "mp_require_all_accept pay" "mp_state pay = MultiCompleted"
    using demo_all_result by auto
  then show ?thesis
    using multi_party_all_or_nothing [OF demo_multi_ok, of demo_all_ops 1 pay] demo_all_result
    by (simp add: Let_def list_all_iff)
qed

end
