(* ===== verification/Streams.thy ===== *)
theory Streams
  imports Channel
begin

text \<open>
  Payment streams: \<open>sthrip/db/stream_repo.py\<close> and \<open>sthrip/services/stream_service.py\<close>. A stream is
  a meter on a payment channel: it accrues a rate per second and records what accrued when it stops;
  no balance and no channel changes. The elapsed time \<open>total_seconds()\<close> is an exact number of
  microseconds, as its text is for spans below 285 years.
\<close>

type_synonym stream_table = "(ident, payment_stream) table"

section \<open>The repository\<close>

definition stream_create :: "moment \<Rightarrow> ident \<Rightarrow> ident \<Rightarrow> ident \<Rightarrow> decimal \<Rightarrow> payment_stream" where
  "stream_create now channel_id from_agent to_agent rate =
     \<lparr>st_channel_id = channel_id, st_from_agent_id = from_agent, st_to_agent_id = to_agent,
      st_rate_per_second = rate, st_started_at = Some now, st_paused_at = None,
      st_stopped_at = None, st_total_streamed = 0, st_state = StreamActive\<rparr>"

definition get_by_channel :: "ident \<Rightarrow> stream_table \<Rightarrow> (ident \<times> payment_stream) list" where
  "get_by_channel c = select_where (\<lambda>s. st_channel_id s = c \<and> st_state s = StreamActive)"

definition repo_pause :: "moment \<Rightarrow> ident \<Rightarrow> stream_table \<Rightarrow> nat \<times> stream_table" where
  "repo_pause now = update_row (\<lambda>s. st_state s = StreamActive)
     (\<lambda>s. s\<lparr>st_state := StreamPaused, st_paused_at := Some now\<rparr>)"

definition repo_resume :: "ident \<Rightarrow> stream_table \<Rightarrow> nat \<times> stream_table" where
  "repo_resume = update_row (\<lambda>s. st_state s = StreamPaused)
     (\<lambda>s. s\<lparr>st_state := StreamActive, st_paused_at := None\<rparr>)"

definition repo_stop :: "moment \<Rightarrow> decimal \<Rightarrow> ident \<Rightarrow> stream_table \<Rightarrow> nat \<times> stream_table" where
  "repo_stop now amount = update_row (\<lambda>s. st_state s \<noteq> StreamStopped)
     (\<lambda>s. s\<lparr>st_state := StreamStopped, st_stopped_at := Some now, st_total_streamed := amount\<rparr>)"

definition stream_list_by_agent ::
  "ident \<Rightarrow> nat \<Rightarrow> nat \<Rightarrow> stream_table \<Rightarrow> (ident \<times> payment_stream) list \<times> nat"
where
  "stream_list_by_agent a limit offset t =
     (let mine = select_where (\<lambda>s. st_from_agent_id s = a \<or> st_to_agent_id s = a) t
      in (take (min limit MAX_QUERY_LIMIT) (drop offset
            (sort_key (\<lambda>(k, s). case st_started_at s of None \<Rightarrow> 0 | Some m \<Rightarrow> - m) mine)),
          length mine))"

section \<open>The service\<close>

definition MIN_STREAM_DURATION :: decimal where
  "MIN_STREAM_DURATION = 60"

definition elapsed_seconds :: "moment \<Rightarrow> moment \<Rightarrow> decimal" where
  "elapsed_seconds from until = of_int (max 0 (until - from)) / of_int microsecond_per_second"

definition calculate_accrued :: "moment \<Rightarrow> payment_stream \<Rightarrow> decimal" where
  "calculate_accrued now s =
     (case st_state s of
        StreamStopped \<Rightarrow> st_total_streamed s
      | StreamPaused \<Rightarrow> (case (st_started_at s, st_paused_at s) of
            (Some started, Some paused) \<Rightarrow> st_rate_per_second s * elapsed_seconds started paused
          | _ \<Rightarrow> 0)
      | StreamActive \<Rightarrow> (case st_started_at s of
            None \<Rightarrow> 0
          | Some started \<Rightarrow> st_rate_per_second s * elapsed_seconds started now))"

definition stream_participant :: "payment_stream \<Rightarrow> ident \<Rightarrow> bool" where
  "stream_participant s a \<longleftrightarrow> st_from_agent_id s = a \<or> st_to_agent_id s = a"

definition start_stream :: "moment \<Rightarrow> ident \<Rightarrow> ident \<Rightarrow> decimal \<Rightarrow> db \<Rightarrow> (db \<times> ident) outcome" where
  "start_stream now c from_agent rate d =
     (case row_of (payment_channels d) c of
        None \<Rightarrow> Inl (LookupError ''Channel not found'')
      | Some ch \<Rightarrow>
          if ch_status ch \<noteq> ChannelOpen then Inl (ValueError ''Channel must be OPEN to start a stream'')
          else if ch_agent_a_id ch \<noteq> from_agent
          then Inl (PermissionError ''Only agent_a of the channel can initiate a stream'')
          else if rate * MIN_STREAM_DURATION > ch_balance_a ch
          then Inl (ValueError ''Rate requires more than channel.balance_a'')
          else Inr (d\<lparr>payment_streams :=
                  add_row (stream_create now c from_agent (ch_agent_b_id ch) rate) (payment_streams d)\<rparr>,
                new_id (payment_streams d)))"

definition get_accrued :: "moment \<Rightarrow> ident \<Rightarrow> db \<Rightarrow> (payment_stream \<times> decimal) outcome" where
  "get_accrued now i d =
     (case row_of (payment_streams d) i of
        None \<Rightarrow> Inl (LookupError ''Stream not found'')
      | Some s \<Rightarrow> Inr (s, calculate_accrued now s))"

text \<open>The lookup and \<open>_verify_participant\<close>, the head of the three transitions.\<close>

definition stream_for :: "ident \<Rightarrow> ident \<Rightarrow> db \<Rightarrow> payment_stream outcome" where
  "stream_for i a d =
     (case row_of (payment_streams d) i of
        None \<Rightarrow> Inl (LookupError ''Stream not found'')
      | Some s \<Rightarrow> if stream_participant s a then Inr s
                  else Inl (PermissionError ''not a participant of stream''))"

definition pause_stream :: "moment \<Rightarrow> ident \<Rightarrow> ident \<Rightarrow> db \<Rightarrow> db outcome" where
  "pause_stream now i a d =
     and_then (stream_for i a d) (\<lambda>s.
       let (rows, t) = repo_pause now i (payment_streams d)
       in if rows = 0 then Inl (ValueError ''Stream is not ACTIVE'')
          else Inr (d\<lparr>payment_streams := t\<rparr>))"

definition resume_stream :: "ident \<Rightarrow> ident \<Rightarrow> db \<Rightarrow> db outcome" where
  "resume_stream i a d =
     and_then (stream_for i a d) (\<lambda>s.
       let (rows, t) = repo_resume i (payment_streams d)
       in if rows = 0 then Inl (ValueError ''Stream is not PAUSED'')
          else Inr (d\<lparr>payment_streams := t\<rparr>))"

definition stop_stream :: "moment \<Rightarrow> ident \<Rightarrow> ident \<Rightarrow> db \<Rightarrow> (db \<times> decimal) outcome" where
  "stop_stream now i a d =
     and_then (stream_for i a d) (\<lambda>s.
       if st_state s = StreamStopped then Inl (ValueError ''Stream is already STOPPED'')
       else let amount = calculate_accrued now s;
                (rows, t) = repo_stop now amount i (payment_streams d)
            in if rows = 0 then Inl (ValueError ''Stream could not be stopped'')
               else Inr (d\<lparr>payment_streams := t\<rparr>, amount))"

section \<open>Transitions\<close>

interpretation st_pause: guarded_transition "repo_pause now" "\<lambda>s. st_state s = StreamActive"
  "\<lambda>s. s\<lparr>st_state := StreamPaused, st_paused_at := Some now\<rparr>" for now
  unfolding repo_pause_def by (rule update_row_guarded) simp

interpretation st_resume: guarded_transition repo_resume "\<lambda>s. st_state s = StreamPaused"
  "\<lambda>s. s\<lparr>st_state := StreamActive, st_paused_at := None\<rparr>"
  unfolding repo_resume_def by (rule update_row_guarded) simp

interpretation st_stop: guarded_transition "repo_stop now amount" "\<lambda>s. st_state s \<noteq> StreamStopped"
  "\<lambda>s. s\<lparr>st_state := StreamStopped, st_stopped_at := Some now, st_total_streamed := amount\<rparr>"
  for now amount
  unfolding repo_stop_def by (rule update_row_guarded) simp

lemma stream_for_Inr:
  "stream_for i a d = Inr s \<longleftrightarrow> row_of (payment_streams d) i = Some s \<and> stream_participant s a"
  by (auto simp: stream_for_def split: option.splits)

lemma pause_stream_Inr:
  assumes "pause_stream now i a d = Inr d'" and "table_ok (payment_streams d)"
  obtains s where "stream_participant s a" and "st_state s = StreamActive"
    and "row_step i s (s\<lparr>st_state := StreamPaused, st_paused_at := Some now\<rparr>)
           (payment_streams d) (payment_streams d')"
    and "d' = d\<lparr>payment_streams := payment_streams d'\<rparr>"
proof -
  obtain s where s: "row_of (payment_streams d) i = Some s" "stream_participant s a"
    and hit: "fst (repo_pause now i (payment_streams d)) \<noteq> 0"
    and d': "d' = d\<lparr>payment_streams := snd (repo_pause now i (payment_streams d))\<rparr>"
    using assms(1) by (auto simp: pause_stream_def and_then_Inr_iff stream_for_Inr split: prod.splits if_splits)
  have active: "st_state s = StreamActive"
    using hit s(1) by (simp add: st_pause.rows_zero_iff [OF assms(2)])
  show thesis
    using that [OF s(2) active] st_pause.hit_steps [OF assms(2) s(1) active] by (simp add: d')
qed

lemma resume_stream_Inr:
  assumes "resume_stream i a d = Inr d'" and "table_ok (payment_streams d)"
  obtains s where "stream_participant s a" and "st_state s = StreamPaused"
    and "row_step i s (s\<lparr>st_state := StreamActive, st_paused_at := None\<rparr>)
           (payment_streams d) (payment_streams d')"
    and "d' = d\<lparr>payment_streams := payment_streams d'\<rparr>"
proof -
  obtain s where s: "row_of (payment_streams d) i = Some s" "stream_participant s a"
    and hit: "fst (repo_resume i (payment_streams d)) \<noteq> 0"
    and d': "d' = d\<lparr>payment_streams := snd (repo_resume i (payment_streams d))\<rparr>"
    using assms(1) by (auto simp: resume_stream_def and_then_Inr_iff stream_for_Inr split: prod.splits if_splits)
  have paused: "st_state s = StreamPaused"
    using hit s(1) by (simp add: st_resume.rows_zero_iff [OF assms(2)])
  show thesis
    using that [OF s(2) paused] st_resume.hit_steps [OF assms(2) s(1) paused] by (simp add: d')
qed

lemma stop_stream_Inr:
  assumes "stop_stream now i a d = Inr (d', amount)" and "table_ok (payment_streams d)"
  obtains s where "stream_participant s a" and "st_state s \<noteq> StreamStopped"
    and "amount = calculate_accrued now s"
    and "row_step i s (s\<lparr>st_state := StreamStopped, st_stopped_at := Some now,
           st_total_streamed := calculate_accrued now s\<rparr>) (payment_streams d) (payment_streams d')"
    and "d' = d\<lparr>payment_streams := payment_streams d'\<rparr>"
proof -
  obtain s where s: "row_of (payment_streams d) i = Some s" "stream_participant s a"
    and live: "st_state s \<noteq> StreamStopped" and amount: "amount = calculate_accrued now s"
    and d': "d' = d\<lparr>payment_streams := snd (repo_stop now (calculate_accrued now s) i (payment_streams d))\<rparr>"
    using assms(1)
    by (auto simp: stop_stream_def and_then_Inr_iff stream_for_Inr Let_def split: prod.splits if_splits)
  show thesis
    using that [OF s(2) live amount] st_stop.hit_steps [OF assms(2) s(1) live] by (simp add: d')
qed

section \<open>Runs\<close>

datatype stream_op =
    StartStream ident ident decimal
  | PauseStream ident ident
  | ResumeStream ident ident
  | StopStream ident ident

fun stream_exec :: "moment \<Rightarrow> stream_op \<Rightarrow> db \<Rightarrow> db outcome" where
  "stream_exec now (StartStream c a rate) d = map_sum id fst (start_stream now c a rate d)"
| "stream_exec now (PauseStream i a) d = pause_stream now i a d"
| "stream_exec now (ResumeStream i a) d = resume_stream i a d"
| "stream_exec now (StopStream i a) d = map_sum id fst (stop_stream now i a d)"

fun stream_run :: "(moment \<times> stream_op) list \<Rightarrow> db \<Rightarrow> db" where
  "stream_run [] d = d"
| "stream_run ((now, p) # ps) d =
     stream_run ps (case stream_exec now p d of Inl e \<Rightarrow> d | Inr d' \<Rightarrow> d')"

text \<open>
  The instant up to which a stream bills: the pause in effect, else the stop, else the present.
\<close>

definition billed_until :: "moment \<Rightarrow> payment_stream \<Rightarrow> moment" where
  "billed_until now s =
     (case st_paused_at s of
        Some m \<Rightarrow> m
      | None \<Rightarrow> (case st_stopped_at s of Some q \<Rightarrow> q | None \<Rightarrow> now))"

definition metered :: "moment \<Rightarrow> payment_stream \<Rightarrow> bool" where
  "metered now s \<longleftrightarrow> (case st_started_at s of None \<Rightarrow> False | Some started \<Rightarrow>
     started \<le> billed_until now s \<and> billed_until now s \<le> now
     \<and> (st_state s = StreamActive \<longleftrightarrow> st_paused_at s = None \<and> st_stopped_at s = None)
     \<and> (st_state s = StreamStopped \<longleftrightarrow> st_stopped_at s \<noteq> None)
     \<and> (st_state s = StreamStopped \<longrightarrow> st_total_streamed s
          = st_rate_per_second s * elapsed_seconds started (billed_until now s)))"

definition streams_metered :: "moment \<Rightarrow> db \<Rightarrow> bool" where
  "streams_metered now d \<longleftrightarrow> table_ok (payment_streams d)
     \<and> (\<forall>i s. row_of (payment_streams d) i = Some s \<longrightarrow> metered now s)"

lemma metered_later: "metered now s \<Longrightarrow> now \<le> now' \<Longrightarrow> metered now' s"
  by (auto simp: metered_def billed_until_def split: option.splits)

lemma metered_accrued:
  assumes "metered now s"
  obtains started where "st_started_at s = Some started"
    and "calculate_accrued now s = st_rate_per_second s * elapsed_seconds started (billed_until now s)"
    and "started \<le> billed_until now s" and "billed_until now s \<le> now"
  using assms
  by (cases "st_state s")
    (auto simp: metered_def calculate_accrued_def billed_until_def split: option.splits)

lemma streams_metered_step:
  assumes "streams_metered now d" and "row_step i s s' (payment_streams d) (payment_streams d')"
    and "metered now s \<Longrightarrow> metered now s'"
  shows "streams_metered now d'"
  using assms row_step_row_of [OF assms(2)] row_step_ok [OF assms(2)]
  by (auto simp: streams_metered_def row_step_def)

lemma stream_exec_metered:
  assumes "stream_exec now p d = Inr d'" and "streams_metered now d"
  shows "streams_metered now d' \<and> d' = d\<lparr>payment_streams := payment_streams d'\<rparr>"
proof -
  have ok: "table_ok (payment_streams d)" using assms(2) by (simp add: streams_metered_def)
  show ?thesis
  proof (cases p)
    case (StartStream c a rate)
    then obtain i where started: "start_stream now c a rate d = Inr (d', i)"
      using assms(1) by (auto simp: map_sum_def split: sum.splits)
    then obtain ch where "row_of (payment_channels d) c = Some ch"
      by (auto simp: start_stream_def split: option.splits)
    with started have "d' = d\<lparr>payment_streams :=
        add_row (stream_create now c a (ch_agent_b_id ch) rate) (payment_streams d)\<rparr>"
      by (auto simp: start_stream_def split: if_splits)
    moreover have "metered now (stream_create now c a (ch_agent_b_id ch) rate)"
      by (simp add: metered_def stream_create_def billed_until_def)
    ultimately show ?thesis
      using assms(2) by (auto simp: streams_metered_def row_of_add_row split: if_splits)
  next
    case (PauseStream i a)
    then have "pause_stream now i a d = Inr d'" using assms(1) by simp
    from pause_stream_Inr [OF this ok] obtain s where "st_state s = StreamActive"
      and step: "row_step i s (s\<lparr>st_state := StreamPaused, st_paused_at := Some now\<rparr>)
        (payment_streams d) (payment_streams d')"
      and d': "d' = d\<lparr>payment_streams := payment_streams d'\<rparr>"
      by metis
    then have "metered now s \<Longrightarrow> metered now (s\<lparr>st_state := StreamPaused, st_paused_at := Some now\<rparr>)"
      by (auto simp: metered_def billed_until_def split: option.splits)
    then show ?thesis using streams_metered_step [OF assms(2) step] d' by blast
  next
    case (ResumeStream i a)
    then have "resume_stream i a d = Inr d'" using assms(1) by simp
    from resume_stream_Inr [OF this ok] obtain s where "st_state s = StreamPaused"
      and step: "row_step i s (s\<lparr>st_state := StreamActive, st_paused_at := None\<rparr>)
        (payment_streams d) (payment_streams d')"
      and d': "d' = d\<lparr>payment_streams := payment_streams d'\<rparr>"
      by metis
    then have "metered now s \<Longrightarrow> metered now (s\<lparr>st_state := StreamActive, st_paused_at := None\<rparr>)"
      by (auto simp: metered_def billed_until_def split: option.splits)
    then show ?thesis using streams_metered_step [OF assms(2) step] d' by blast
  next
    case (StopStream i a)
    then obtain amount where "stop_stream now i a d = Inr (d', amount)"
      using assms(1) by (auto simp: map_sum_def split: sum.splits)
    from stop_stream_Inr [OF this ok] obtain s where live: "st_state s \<noteq> StreamStopped"
      and step: "row_step i s (s\<lparr>st_state := StreamStopped, st_stopped_at := Some now,
        st_total_streamed := calculate_accrued now s\<rparr>) (payment_streams d) (payment_streams d')"
      and d': "d' = d\<lparr>payment_streams := payment_streams d'\<rparr>"
      by metis
    have "metered now (s\<lparr>st_state := StreamStopped, st_stopped_at := Some now,
        st_total_streamed := calculate_accrued now s\<rparr>)" if "metered now s"
      using metered_accrued [OF that] that live
      by (auto simp: metered_def billed_until_def split: option.splits)
    then show ?thesis using streams_metered_step [OF assms(2) step] d' by blast
  qed
qed

lemma streams_metered_later: "streams_metered now d \<Longrightarrow> now \<le> now' \<Longrightarrow> streams_metered now' d"
  by (auto simp: streams_metered_def intro: metered_later)

lemma stream_run_metered:
  assumes "sorted (map fst ps)" and "\<forall>q \<in> set ps. since \<le> fst q \<and> fst q \<le> now" and "since \<le> now"
    and "streams_metered since d"
  shows "streams_metered now (stream_run ps d)
    \<and> stream_run ps d = d\<lparr>payment_streams := payment_streams (stream_run ps d)\<rparr>"
  using assms
proof (induction ps arbitrary: d since)
  case Nil
  then show ?case by (auto intro: streams_metered_later)
next
  case (Cons q ps)
  obtain m p where q: "q = (m, p)" by (cases q)
  let ?d = "case stream_exec m p d of Inl e \<Rightarrow> d | Inr d' \<Rightarrow> d'"
  have "streams_metered m d" using Cons.prems by (auto simp: q intro: streams_metered_later)
  then have step: "streams_metered m ?d" "?d = d\<lparr>payment_streams := payment_streams ?d\<rparr>"
    using stream_exec_metered [of m p d] by (auto split: sum.split)
  have "streams_metered now (stream_run ps ?d)
      \<and> stream_run ps ?d = ?d\<lparr>payment_streams := payment_streams (stream_run ps ?d)\<rparr>"
    using Cons.prems by (intro Cons.IH [OF _ _ _ step(1)]) (auto simp: q)
  moreover have "?d\<lparr>payment_streams := x\<rparr> = d\<lparr>payment_streams := x\<rparr>" for x
    by (subst step(2)) simp
  ultimately show ?case by (simp add: q)
qed

section \<open>Properties\<close>

text \<open>C17. A stream bills the wall clock: after any chronological run of starts, pauses, resumes and
  stops, every stream's accrued amount is its rate times the seconds from its start to the pause in
  effect, or else to its stop, or else to the present. A pause that was resumed is not taken out, so
  the paused time is billed. Nothing but the streams themselves has changed.\<close>

theorem stream_bills_wall_clock:
  assumes "payment_streams d = []" and "sorted (map fst ps)" and "\<forall>q \<in> set ps. fst q \<le> now"
    and "row_of (payment_streams (stream_run ps d)) i = Some s"
  shows "\<exists>started. st_started_at s = Some started \<and> started \<le> billed_until now s \<and> billed_until now s \<le> now
      \<and> calculate_accrued now s = st_rate_per_second s * elapsed_seconds started (billed_until now s)
      \<and> stream_run ps d = d\<lparr>payment_streams := payment_streams (stream_run ps d)\<rparr>"
proof -
  let ?since = "case ps of [] \<Rightarrow> now | q # _ \<Rightarrow> fst q"
  have "streams_metered ?since d" using assms(1) by (simp add: streams_metered_def)
  moreover have "\<forall>q \<in> set ps. ?since \<le> fst q \<and> fst q \<le> now" and "?since \<le> now"
    using assms(2,3) by (force split: list.splits)+
  ultimately have "streams_metered now (stream_run ps d)"
    and frame: "stream_run ps d = d\<lparr>payment_streams := payment_streams (stream_run ps d)\<rparr>"
    using stream_run_metered [OF assms(2)] by blast+
  then have "metered now s" using assms(4) by (simp add: streams_metered_def)
  with frame show ?thesis by (blast elim: metered_accrued)
qed

definition demo_stream_db :: db where
  "demo_stream_db = empty_db\<lparr>payment_channels := [(1, open_with_deposit 0 1 2 100 0 60)]\<rparr>"

definition demo_stream_ops :: "(moment \<times> stream_op) list" where
  "demo_stream_ops =
     [(0, StartStream 1 1 1), (seconds 10, PauseStream 1 2), (seconds 100, ResumeStream 1 2),
      (seconds 101, StopStream 1 1), (seconds 102, PauseStream 1 1)]"

text \<open>Running for 11 seconds and paused for 90, the stream of the witness bills 101.\<close>

lemma demo_stream_result:
  "payment_streams (stream_run demo_stream_ops demo_stream_db) =
     [(1, \<lparr>st_channel_id = 1, st_from_agent_id = 1, st_to_agent_id = 2, st_rate_per_second = 1,
           st_started_at = Some 0, st_paused_at = None, st_stopped_at = Some 101000000,
           st_total_streamed = 101, st_state = StreamStopped\<rparr>)]"
  by code_simp

theorem stream_bills_wall_clock_witness:
  "\<exists>s started. row_of (payment_streams (stream_run demo_stream_ops demo_stream_db)) 1 = Some s
     \<and> st_started_at s = Some started \<and> billed_until (seconds 200) s = seconds 101
     \<and> calculate_accrued (seconds 200) s = 1 * elapsed_seconds started (seconds 101)"
proof -
  obtain s where s: "row_of (payment_streams (stream_run demo_stream_ops demo_stream_db)) 1 = Some s"
    and fields: "billed_until (seconds 200) s = seconds 101" "st_rate_per_second s = 1"
    by (simp add: demo_stream_result billed_until_def seconds_def microsecond_per_second_def)
  have "payment_streams demo_stream_db = []" by (simp add: demo_stream_db_def empty_db_def)
  moreover have "sorted (map fst demo_stream_ops)" "\<forall>q \<in> set demo_stream_ops. fst q \<le> seconds 200"
    by (simp_all add: demo_stream_ops_def seconds_def microsecond_per_second_def)
  ultimately show ?thesis
    using stream_bills_wall_clock [OF _ _ _ s, of "seconds 200"] fields s by auto
qed

end
