(* ===== verification/Split_Payments.thy ===== *)
theory Split_Payments
  imports Transfers Events
begin

text \<open>
  Split payments: \<open>sthrip/services/split_payment_service.py\<close>. One deduction of the total, then a credit
  and a confirmed transaction per entry, in one session. The transaction hash is a SHA-256 over a
  random salt: \<open>gen i\<close> is the hash of the \<open>i\<close>-th entry.
\<close>

record receipt =
  rc_tx_hash :: string
  rc_from :: ident
  rc_to :: ident
  rc_amount :: decimal
  rc_currency :: token

fun resolve_split :: "ident \<Rightarrow> (string \<times> decimal) list \<Rightarrow> db \<Rightarrow> (ident \<times> decimal) list outcome" where
  "resolve_split from_agent [] d = Inr []"
| "resolve_split from_agent ((name, x) # rs) d =
     (case first_row (\<lambda>g. ag_name g = name) (agents d) of
        None \<Rightarrow> Inl (LookupError ''Recipient agent not found'')
      | Some (a, g) \<Rightarrow>
          if a = from_agent then Inl (ValueError ''Cannot send split payment to self'')
          else and_then (resolve_split from_agent rs d) (\<lambda>q. Inr ((a, x) # q)))"

fun pay_each ::
  "moment \<Rightarrow> (nat \<Rightarrow> string) \<Rightarrow> ident \<Rightarrow> token \<Rightarrow> nat \<Rightarrow> (ident \<times> decimal) list \<Rightarrow> db
     \<Rightarrow> (db \<times> receipt list) outcome"
where
  "pay_each now gen from_agent currency i [] d = Inr (d, [])"
| "pay_each now gen from_agent currency i ((a, x) # rs) d =
     and_then (insert_transaction
         (create_transaction now (gen i) ''hub'' (Some from_agent) (Some a) x currency PtHubRouting TxConfirmed 0 0)
         (d\<lparr>balances := credit now a x currency (balances d)\<rparr>))
       (\<lambda>d1. and_then (pay_each now gen from_agent currency (Suc i) rs d1) (\<lambda>(d2, receipts).
          Inr (d2, \<lparr>rc_tx_hash = gen i, rc_from = from_agent, rc_to = a, rc_amount = x,
                    rc_currency = currency\<rparr> # receipts)))"

definition pay_split ::
  "moment \<Rightarrow> (nat \<Rightarrow> string) \<Rightarrow> ident \<Rightarrow> (string \<times> decimal) list \<Rightarrow> token \<Rightarrow> db \<Rightarrow> (db \<times> receipt list) outcome"
where
  "pay_split now gen from_agent recipients currency d =
     (if recipients = [] then Inl (ValueError ''Recipients list must not be empty'')
      else and_then (resolve_split from_agent recipients d) (\<lambda>resolved.
        let total_amount = sum_list (map snd resolved)
        in and_then (deduct now from_agent total_amount currency (balances d)) (\<lambda>t.
          and_then (pay_each now gen from_agent currency 0 resolved (d\<lparr>balances := t\<rparr>)) (\<lambda>(d1, receipts).
            and_then (log_event 0 [''action'', ''agent_id'', ''resource_type'', ''details'', ''db'']
                \<lparr>au_action = ''split_payment.executed'', au_agent_id = Some from_agent,
                 au_resource_type = Some ''split_payment'', au_resource_id = None\<rparr> d1)
              (\<lambda>d2. Inr (d2, receipts))))))"

section \<open>What a split pays\<close>

definition paid_to :: "ident \<Rightarrow> (ident \<times> decimal) list \<Rightarrow> decimal" where
  "paid_to b rs = sum_list (map snd (filter (\<lambda>r. fst r = b) rs))"

lemma resolve_split_Inr:
  "resolve_split from_agent rs d = Inr q \<Longrightarrow> map snd q = map snd rs \<and> from_agent \<notin> set (map fst q)"
  by (induction rs arbitrary: q) (force simp: and_then_Inr_iff split: option.splits if_splits)+

lemma pay_each_effect:
  assumes "pay_each now gen from_agent tok i rs d = Inr (d', receipts)"
  shows "available_of b u (balances d') = available_of b u (balances d) + (if u = tok then paid_to b rs else 0)"
    and "table_ok (balances d') = table_ok (balances d)"
    and "fee_collections d' = fee_collections d"
    and "map (\<lambda>r. (rc_to r, rc_amount r)) receipts = rs"
    and "length (transactions d') = length (transactions d) + length rs"
  using assms
proof (induction rs arbitrary: d i d' receipts)
  case Nil
  {
    case 1
    then show ?case by (simp add: paid_to_def)
  next
    case 2
    then show ?case by simp
  next
    case 3
    then show ?case by simp
  next
    case 4
    then show ?case by simp
  next
    case 5
    then show ?case by simp
  }
next
  case (Cons r rs)
  obtain a x where r: "r = (a, x)" by (cases r)
  have split: "\<exists>d1 more. pay_each now gen from_agent tok (Suc i) rs d1 = Inr (d', more)
      \<and> receipts = \<lparr>rc_tx_hash = gen i, rc_from = from_agent, rc_to = a, rc_amount = x, rc_currency = tok\<rparr> # more
      \<and> (\<exists>tx. d1 = d\<lparr>balances := credit now a x tok (balances d), transactions := add_row tx (transactions d)\<rparr>)"
    if "pay_each now gen from_agent tok i (r # rs) d = Inr (d', receipts)" for d i d' receipts
    using that by (fastforce simp: r and_then_Inr_iff insert_transaction_def split: option.splits)
  {
    case 1
    from split [OF this] show ?case
      using Cons.IH(1) by (fastforce simp: r paid_to_def available_credit)
  next
    case 2
    from split [OF this] show ?case using Cons.IH(2) by fastforce
  next
    case 3
    from split [OF this] show ?case using Cons.IH(3) by fastforce
  next
    case 4
    from split [OF this] show ?case using Cons.IH(4) by (fastforce simp: r)
  next
    case 5
    from split [OF this] show ?case using Cons.IH(5) by (fastforce simp: add_row_def insert_row_def)
  }
qed

text \<open>
  A split that succeeds takes the sum of the entries from the sender, gives every recipient the entries
  that name it, records one confirmed transaction per entry and withholds no fee.
\<close>

lemma pay_split_effect:
  assumes "pay_split now gen a recipients tok d = Inr (d', receipts)"
  shows "\<exists>q. resolve_split a recipients d = Inr q
      \<and> (\<forall>b u. available_of b u (balances d') = available_of b u (balances d)
          + (if u = tok then paid_to b q - (if b = a then sum_list (map snd recipients) else 0) else 0))
      \<and> sum_list (map snd recipients) \<le> available_of a tok (balances d)
      \<and> map (\<lambda>r. (rc_to r, rc_amount r)) receipts = q
      \<and> length (transactions d') = length (transactions d) + length recipients
      \<and> fee_collections d' = fee_collections d"
proof -
  obtain q t d1 where q: "resolve_split a recipients d = Inr q"
    and t: "deduct now a (sum_list (map snd q)) tok (balances d) = Inr t"
    and each: "pay_each now gen a tok 0 q (d\<lparr>balances := t\<rparr>) = Inr (d1, receipts)"
    and d': "\<exists>x. d' = d1\<lparr>audit_log := x\<rparr>"
    using assms
    by (auto simp: pay_split_def and_then_Inr_iff Let_def log_event_def split: if_splits)
  have amounts: "map snd q = map snd recipients" using resolve_split_Inr [OF q] by simp
  then have len: "length q = length recipients" by (metis length_map)
  note eff = pay_each_effect [OF each]
  have "available_of b u (balances d1) = available_of b u (balances d)
      + (if u = tok then paid_to b q - (if b = a then sum_list (map snd recipients) else 0) else 0)" for b u
    using eff(1) [of b u] deduct_Inr(2) [OF t, of b u] by (simp add: amounts)
  then show ?thesis
    using q d' eff(3-5) deduct_Inr(1) [OF t] len by (auto simp: amounts)
qed

end
