(* ===== verification/Durations.thy ===== *)
theory Durations
  imports Prelude
begin

text \<open>
  Time spans: \<open>timedelta.total_seconds()\<close> and its truncation \<open>int(...)\<close>. The span of two instants is
  a whole number of microseconds; as a float it is exact to the second for spans below 272 years,
  so that truncation and comparison with whole seconds are those of the exact quotient.
\<close>

definition total_seconds :: "int \<Rightarrow> decimal" where
  "total_seconds us = of_int us / of_int microsecond_per_second"

text \<open>Python's \<open>int(x)\<close> of a number cuts towards zero.\<close>

definition py_trunc :: "decimal \<Rightarrow> int" where
  "py_trunc q = (if q < 0 then \<lceil>q\<rceil> else \<lfloor>q\<rfloor>)"

lemma py_trunc_nonneg: "0 \<le> q \<Longrightarrow> 0 \<le> py_trunc q"
  by (simp add: py_trunc_def)

definition whole_seconds :: "int \<Rightarrow> int" where
  "whole_seconds us = py_trunc (total_seconds us)"

lemma total_seconds_less: "total_seconds a < of_int n \<longleftrightarrow> a < seconds n"
proof -
  have "(of_int a :: decimal) < of_int n * 1000000 \<longleftrightarrow> (of_int a :: decimal) < of_int (n * 1000000)" by simp
  then show ?thesis
    by (simp add: total_seconds_def seconds_def microsecond_per_second_def field_simps del: of_int_mult)
qed

lemma total_seconds_greater: "of_int n < total_seconds a \<longleftrightarrow> seconds n < a"
proof -
  have "of_int n * 1000000 < (of_int a :: decimal) \<longleftrightarrow> of_int (n * 1000000) < (of_int a :: decimal)" by simp
  then show ?thesis
    by (simp add: total_seconds_def seconds_def microsecond_per_second_def field_simps del: of_int_mult)
qed

text \<open>Truncation grants the running second: \<open>n\<close> whole seconds have elapsed until \<open>n + 1\<close> are full.\<close>

lemma whole_seconds_le:
  assumes "0 \<le> us"
  shows "whole_seconds us \<le> n \<longleftrightarrow> us < seconds (n + 1)"
proof -
  have "\<not> total_seconds us < 0" using assms by (simp add: total_seconds_def microsecond_per_second_def)
  moreover have "\<lfloor>total_seconds us\<rfloor> \<le> n \<longleftrightarrow> total_seconds us < of_int (n + 1)"
    by (simp add: floor_le_iff)
  ultimately show ?thesis by (simp add: whole_seconds_def py_trunc_def total_seconds_less [symmetric])
qed

end
