(* ===== verification/Sla.thy ===== *)
theory Sla
  imports Escrow_Sweep Durations
begin

text \<open>
  Service level agreements: \<open>sthrip/db/sla_repo.py\<close> and \<open>sthrip/services/sla_service.py\<close>. A consumer
  opens a contract with a provider, which opens an escrow deal for its price; provider and consumer
  then move the contract from proposed to completed, either may dispute it, and a background loop
  breaches active contracts that are late. Names, descriptions and deliverables decide nothing and
  are left out. The \<open>state\<close> filter of \<open>list_by_agent\<close> is passed on as text and is not modelled.
\<close>

type_synonym sla_table = "(ident, sla_contract) table"

section \<open>The repositories\<close>

definition template_create ::
  "moment \<Rightarrow> ident \<Rightarrow> int \<Rightarrow> int \<Rightarrow> decimal \<Rightarrow> token \<Rightarrow> int \<Rightarrow> sla_template"
where
  "template_create now provider_id response_secs delivery_secs base_price currency penalty_percent =
     \<lparr>tpl_provider_id = provider_id, tpl_response_time_secs = response_secs,
      tpl_delivery_time_secs = delivery_secs, tpl_base_price = base_price, tpl_currency = currency,
      tpl_penalty_percent = penalty_percent, tpl_is_active = True, tpl_created_at = now\<rparr>"

definition newest_templates ::
  "nat \<Rightarrow> nat \<Rightarrow> (ident \<times> sla_template) list \<Rightarrow> (ident \<times> sla_template) list \<times> nat"
where
  "newest_templates limit offset q =
     (take (min limit MAX_QUERY_LIMIT) (drop offset (sort_key (\<lambda>(k, t). - tpl_created_at t) q)), length q)"

definition list_by_provider ::
  "ident \<Rightarrow> bool \<Rightarrow> nat \<Rightarrow> nat \<Rightarrow> (ident, sla_template) table \<Rightarrow> (ident \<times> sla_template) list \<times> nat"
where
  "list_by_provider p active_only limit offset t =
     newest_templates limit offset
       (select_where (\<lambda>r. tpl_provider_id r = p \<and> (active_only \<longrightarrow> tpl_is_active r)) t)"

definition template_list_active ::
  "nat \<Rightarrow> nat \<Rightarrow> (ident, sla_template) table \<Rightarrow> (ident \<times> sla_template) list \<times> nat"
where
  "template_list_active limit offset t = newest_templates limit offset (select_where tpl_is_active t)"

definition template_deactivate ::
  "ident \<Rightarrow> (ident, sla_template) table \<Rightarrow> nat \<times> (ident, sla_template) table"
where
  "template_deactivate = update_row tpl_is_active (\<lambda>r. r\<lparr>tpl_is_active := False\<rparr>)"

definition contract_create ::
  "moment \<Rightarrow> ident \<Rightarrow> ident \<Rightarrow> ident option \<Rightarrow> int \<Rightarrow> int \<Rightarrow> decimal \<Rightarrow> token \<Rightarrow> int \<Rightarrow> ident option
    \<Rightarrow> sla_contract"
where
  "contract_create now provider_id consumer_id template_id response_secs delivery_secs price currency
     penalty_percent escrow_deal_id =
     \<lparr>sla_provider_id = provider_id, sla_consumer_id = consumer_id, sla_template_id = template_id,
      sla_response_time_secs = response_secs, sla_delivery_time_secs = delivery_secs,
      sla_price = price, sla_currency = currency, sla_penalty_percent = penalty_percent,
      sla_state = SlaProposed, sla_escrow_deal_id = escrow_deal_id, sla_started_at = None,
      sla_delivered_at = None, sla_delivery_time_actual = None, sla_met = None,
      sla_result_hash = None, sla_created_at = now\<rparr>"

definition sla_accept :: "ident \<Rightarrow> sla_table \<Rightarrow> nat \<times> sla_table" where
  "sla_accept = update_row (\<lambda>c. sla_state c = SlaProposed) (\<lambda>c. c\<lparr>sla_state := SlaAccepted\<rparr>)"

definition sla_activate :: "moment \<Rightarrow> ident \<Rightarrow> sla_table \<Rightarrow> nat \<times> sla_table" where
  "sla_activate now = update_row (\<lambda>c. sla_state c = SlaAccepted)
     (\<lambda>c. c\<lparr>sla_state := SlaActive, sla_started_at := Some now\<rparr>)"

definition sla_deliver :: "moment \<Rightarrow> string \<Rightarrow> ident \<Rightarrow> sla_table \<Rightarrow> nat \<times> sla_table" where
  "sla_deliver now result_hash k t =
     (case row_of t k of
        None \<Rightarrow> (0, t)
      | Some c \<Rightarrow>
          if sla_state c \<noteq> SlaActive then (0, t)
          else let actual = map_option (\<lambda>started. whole_seconds (now - started)) (sla_started_at c)
               in update_row (\<lambda>c. sla_state c = SlaActive)
                    (\<lambda>c. c\<lparr>sla_state := SlaDelivered, sla_delivered_at := Some now,
                           sla_result_hash := Some result_hash, sla_delivery_time_actual := actual\<rparr>) k t)"

definition sla_complete :: "bool \<Rightarrow> ident \<Rightarrow> sla_table \<Rightarrow> nat \<times> sla_table" where
  "sla_complete met = update_row (\<lambda>c. sla_state c = SlaDelivered)
     (\<lambda>c. c\<lparr>sla_state := SlaCompleted, sla_met := Some met\<rparr>)"

definition sla_breach :: "ident \<Rightarrow> sla_table \<Rightarrow> nat \<times> sla_table" where
  "sla_breach = update_row (\<lambda>c. sla_state c = SlaActive)
     (\<lambda>c. c\<lparr>sla_state := SlaBreached, sla_met := Some False\<rparr>)"

definition sla_dispute :: "ident \<Rightarrow> sla_table \<Rightarrow> nat \<times> sla_table" where
  "sla_dispute = update_row (\<lambda>c. sla_state c \<in> {SlaActive, SlaDelivered})
     (\<lambda>c. c\<lparr>sla_state := SlaDisputed\<rparr>)"

datatype sla_role = AsProvider | AsConsumer | AsEither

definition list_contracts_by_agent ::
  "ident \<Rightarrow> sla_role \<Rightarrow> nat \<Rightarrow> nat \<Rightarrow> sla_table \<Rightarrow> (ident \<times> sla_contract) list \<times> nat"
where
  "list_contracts_by_agent a role limit offset t =
     (let q = select_where (\<lambda>c. case role of
                 AsProvider \<Rightarrow> sla_provider_id c = a
               | AsConsumer \<Rightarrow> sla_consumer_id c = a
               | AsEither \<Rightarrow> sla_provider_id c = a \<or> sla_consumer_id c = a) t
      in (take (min limit MAX_QUERY_LIMIT) (drop offset (sort_key (\<lambda>(k, c). - sla_created_at c) q)), length q))"

definition past_deadline :: "moment \<Rightarrow> sla_contract \<Rightarrow> bool" where
  "past_deadline now c \<longleftrightarrow> sla_state c = SlaActive \<and> (case sla_started_at c of
        None \<Rightarrow> False
      | Some started \<Rightarrow> let elapsed = total_seconds (now - started)
          in elapsed > of_int (sla_delivery_time_secs c) \<or> elapsed > of_int (sla_response_time_secs c))"

definition get_active_past_deadline :: "moment \<Rightarrow> sla_table \<Rightarrow> (ident \<times> sla_contract) list" where
  "get_active_past_deadline now = select_where (past_deadline now)"

section \<open>The service\<close>

definition sla_create_template ::
  "moment \<Rightarrow> ident \<Rightarrow> int \<Rightarrow> int \<Rightarrow> decimal \<Rightarrow> token \<Rightarrow> int \<Rightarrow> db \<Rightarrow> db \<times> ident"
where
  "sla_create_template now p response_secs delivery_secs base_price currency penalty d =
     (d\<lparr>sla_templates :=
        add_row (template_create now p response_secs delivery_secs base_price currency penalty) (sla_templates d)\<rparr>,
      new_id (sla_templates d))"

text \<open>The audit row and the two notices every contract operation ends with.\<close>

definition sla_notices :: "string \<Rightarrow> ident \<Rightarrow> ident \<Rightarrow> ident \<Rightarrow> ident \<Rightarrow> db \<Rightarrow> db outcome" where
  "sla_notices action actor k first second d =
     and_then (log_event 0 audit_keywords (audit_of action (Some actor) ''sla_contract'' k) d) (\<lambda>d1.
     and_then (queue_webhook 3 [] first action d1) (queue_webhook 3 [] second action))"

definition create_contract ::
  "moment \<Rightarrow> ident \<Rightarrow> ident \<Rightarrow> int \<Rightarrow> int \<Rightarrow> decimal \<Rightarrow> token \<Rightarrow> int \<Rightarrow> ident option \<Rightarrow> db
    \<Rightarrow> (db \<times> ident) outcome"
where
  "create_contract now consumer_id provider_id response_secs delivery_secs price currency penalty template_id d =
     (if consumer_id = provider_id
      then Inl (ValueError ''Consumer and provider must be different agents'')
      else let (available, t) = get_available now consumer_id currency (balances d)
        in if available < price then Inl (ValueError ''Insufficient balance'')
        else and_then (create_escrow now consumer_id provider_id price 24 48 24 ''free'' None (d\<lparr>balances := t\<rparr>))
          (\<lambda>(d1, deal_id).
            let k = new_id (sla_contracts d1);
                d2 = d1\<lparr>sla_contracts := add_row (contract_create now provider_id consumer_id template_id
                       response_secs delivery_secs price currency penalty (Some deal_id)) (sla_contracts d1)\<rparr>
            in and_then (sla_notices ''sla.contract.created'' consumer_id k consumer_id provider_id d2)
                 (\<lambda>d3. Inr (d3, k))))"

text \<open>The lookup and the permission check at the head of the transitions.\<close>

definition contract_for :: "(sla_contract \<Rightarrow> bool) \<Rightarrow> ident \<Rightarrow> db \<Rightarrow> sla_contract outcome" where
  "contract_for allowed k d =
     (case row_of (sla_contracts d) k of
        None \<Rightarrow> Inl (LookupError ''SLA contract not found'')
      | Some c \<Rightarrow> if allowed c then Inr c else Inl (PermissionError ''not allowed''))"

definition accept_contract :: "moment \<Rightarrow> ident \<Rightarrow> ident \<Rightarrow> db \<Rightarrow> db outcome" where
  "accept_contract now k provider_id d =
     and_then (contract_for (\<lambda>c. sla_provider_id c = provider_id) k d) (\<lambda>c.
       sla_notices ''sla.contract.accepted'' provider_id k provider_id (sla_consumer_id c)
         (d\<lparr>sla_contracts := snd (sla_activate now k (snd (sla_accept k (sla_contracts d))))\<rparr>))"

definition deliver_contract :: "moment \<Rightarrow> ident \<Rightarrow> ident \<Rightarrow> string \<Rightarrow> db \<Rightarrow> db outcome" where
  "deliver_contract now k provider_id result_hash d =
     and_then (contract_for (\<lambda>c. sla_provider_id c = provider_id) k d) (\<lambda>c.
       let (rows, t) = sla_deliver now result_hash k (sla_contracts d)
       in if rows = 0 then Inl (ValueError ''Contract is not in ACTIVE state; cannot deliver'')
          else sla_notices ''sla.contract.delivered'' provider_id k provider_id (sla_consumer_id c)
                 (d\<lparr>sla_contracts := t\<rparr>))"

definition verify_contract :: "ident \<Rightarrow> ident \<Rightarrow> db \<Rightarrow> db outcome" where
  "verify_contract k consumer_id d =
     and_then (contract_for (\<lambda>c. sla_consumer_id c = consumer_id) k d) (\<lambda>c.
       let met = (case sla_delivery_time_actual c of
                    Some actual \<Rightarrow> actual \<le> sla_delivery_time_secs c
                  | None \<Rightarrow> True);
           (rows, t) = sla_complete met k (sla_contracts d)
       in if rows = 0 then Inl (ValueError ''Contract is not in DELIVERED state; cannot verify'')
          else sla_notices ''sla.contract.completed'' consumer_id k consumer_id (sla_provider_id c)
                 (d\<lparr>sla_contracts := t\<rparr>))"

definition contract_party :: "ident \<Rightarrow> sla_contract \<Rightarrow> bool" where
  "contract_party a c \<longleftrightarrow> sla_provider_id c = a \<or> sla_consumer_id c = a"

definition get_contract :: "ident \<Rightarrow> ident \<Rightarrow> db \<Rightarrow> sla_contract outcome" where
  "get_contract k a = contract_for (contract_party a) k"

definition dispute_contract :: "ident \<Rightarrow> ident \<Rightarrow> db \<Rightarrow> db outcome" where
  "dispute_contract k a d =
     and_then (contract_for (contract_party a) k d) (\<lambda>c.
       let (rows, t) = sla_dispute k (sla_contracts d)
       in if rows = 0 then Inl (ValueError ''Contract is not in ACTIVE or DELIVERED state; cannot dispute'')
          else sla_notices ''sla.contract.disputed'' a k (sla_provider_id c) (sla_consumer_id c)
                 (d\<lparr>sla_contracts := t\<rparr>))"

text \<open>\<open>enforce_sla\<close>: the overdue contracts are read once, then breached one after the other.\<close>

fun breach_each :: "(ident \<times> sla_contract) list \<Rightarrow> db \<Rightarrow> (db \<times> nat) outcome" where
  "breach_each [] d = Inr (d, 0)"
| "breach_each ((k, c) # q) d =
     (let (rows, t) = sla_breach k (sla_contracts d)
      in if rows = 0 then breach_each q d
         else and_then (sla_notices ''sla.contract.breached'' (sla_provider_id c) k
                  (sla_consumer_id c) (sla_provider_id c) (d\<lparr>sla_contracts := t\<rparr>)) (\<lambda>d1.
              and_then (breach_each q d1) (\<lambda>(d2, n). Inr (d2, Suc n))))"

definition enforce_sla :: "moment \<Rightarrow> db \<Rightarrow> (db \<times> nat) outcome" where
  "enforce_sla now d = breach_each (get_active_past_deadline now (sla_contracts d)) d"

end
