(* ===== verification/Sla_Life.thy ===== *)
theory Sla_Life
  imports Sla
begin

text \<open>
  What the operations of service level agreements do: runs of requests and enforcement cycles, the
  consistency of a contract's clock and verdict, the completeness of enforcement, and what becomes of
  the money held for a contract.
\<close>

section \<open>Transitions\<close>

interpretation sla_accepting: guarded_transition sla_accept "\<lambda>c. sla_state c = SlaProposed"
  "\<lambda>c. c\<lparr>sla_state := SlaAccepted\<rparr>"
  unfolding sla_accept_def by (rule update_row_guarded) simp

interpretation sla_activating: guarded_transition "sla_activate now" "\<lambda>c. sla_state c = SlaAccepted"
  "\<lambda>c. c\<lparr>sla_state := SlaActive, sla_started_at := Some now\<rparr>" for now
  unfolding sla_activate_def by (rule update_row_guarded) simp

interpretation sla_completing: guarded_transition "sla_complete met" "\<lambda>c. sla_state c = SlaDelivered"
  "\<lambda>c. c\<lparr>sla_state := SlaCompleted, sla_met := Some met\<rparr>" for met
  unfolding sla_complete_def by (rule update_row_guarded) simp

interpretation sla_breaching: guarded_transition sla_breach "\<lambda>c. sla_state c = SlaActive"
  "\<lambda>c. c\<lparr>sla_state := SlaBreached, sla_met := Some False\<rparr>"
  unfolding sla_breach_def by (rule update_row_guarded) simp

interpretation sla_disputing: guarded_transition sla_dispute
  "\<lambda>c. sla_state c \<in> {SlaActive, SlaDelivered}" "\<lambda>c. c\<lparr>sla_state := SlaDisputed\<rparr>"
  unfolding sla_dispute_def by (rule update_row_guarded) simp

abbreviation delivered_row :: "moment \<Rightarrow> string \<Rightarrow> sla_contract \<Rightarrow> sla_contract" where
  "delivered_row now h c \<equiv> c\<lparr>sla_state := SlaDelivered, sla_delivered_at := Some now,
     sla_result_hash := Some h,
     sla_delivery_time_actual := map_option (\<lambda>started. whole_seconds (now - started)) (sla_started_at c)\<rparr>"

interpretation sla_delivering: guarded_transition "sla_deliver now h" "\<lambda>c. sla_state c = SlaActive"
  "delivered_row now h" for now h
proof unfold_locales
  fix t :: sla_table and k k'
  show "row_of (snd (sla_deliver now h k t)) k' =
      map_option (\<lambda>v. if k' = k \<and> sla_state v = SlaActive then delivered_row now h v else v) (row_of t k')"
    by (cases "row_of t k'") (auto simp: sla_deliver_def row_of_update_row Let_def split: option.split)
qed (auto simp: sla_deliver_def rows_update_row Let_def split: option.splits)

lemma sla_notices_eq:
  "sla_notices action actor k x y d =
     Inr (d\<lparr>audit_log := audit_log d @ [audit_of action (Some actor) ''sla_contract'' k],
            webhook_events := webhook_events d @ [\<lparr>wh_agent_id = x, wh_event_type = action\<rparr>,
              \<lparr>wh_agent_id = y, wh_event_type = action\<rparr>]\<rparr>)"
  by (simp add: sla_notices_def log_event_keywords_bind queue_webhook_binds)

lemma contract_for_Inr:
  "contract_for allowed k d = Inr c \<longleftrightarrow> row_of (sla_contracts d) k = Some c \<and> allowed c"
  by (auto simp: contract_for_def split: option.splits)

section \<open>Runs\<close>

datatype sla_op =
    CreateTemplate ident int int decimal token int
  | CreateContract ident ident int int decimal token int "ident option"
  | AcceptContract ident ident
  | DeliverContract ident ident string
  | VerifyContract ident ident
  | DisputeContract ident ident
  | EnforceSla

fun sla_exec :: "moment \<Rightarrow> sla_op \<Rightarrow> db \<Rightarrow> db outcome" where
  "sla_exec now (CreateTemplate p rs ds price cur pen) d =
     Inr (fst (sla_create_template now p rs ds price cur pen d))"
| "sla_exec now (CreateContract a p rs ds price cur pen tpl) d =
     map_sum id fst (create_contract now a p rs ds price cur pen tpl d)"
| "sla_exec now (AcceptContract k a) d = accept_contract now k a d"
| "sla_exec now (DeliverContract k a h) d = deliver_contract now k a h d"
| "sla_exec now (VerifyContract k a) d = verify_contract k a d"
| "sla_exec now (DisputeContract k a) d = dispute_contract k a d"
| "sla_exec now EnforceSla d = map_sum id fst (enforce_sla now d)"

fun sla_run :: "(moment \<times> sla_op) list \<Rightarrow> db \<Rightarrow> db" where
  "sla_run [] d = d"
| "sla_run ((now, p) # ps) d = sla_run ps (case sla_exec now p d of Inl e \<Rightarrow> d | Inr d' \<Rightarrow> d')"

text \<open>Whether an operation opens a contract: the only one that touches money.\<close>

fun opens_contract :: "sla_op \<Rightarrow> bool" where
  "opens_contract (CreateContract a p rs ds price cur pen tpl) = True"
| "opens_contract p = False"

text \<open>Two states that differ in the contracts' own tables and the side records only.\<close>

definition sla_only :: "db \<Rightarrow> db \<Rightarrow> bool" where
  "sla_only d d' \<longleftrightarrow> d' = d\<lparr>sla_templates := sla_templates d', sla_contracts := sla_contracts d',
     audit_log := audit_log d', webhook_events := webhook_events d'\<rparr>"

lemma sla_only_refl: "sla_only d d"
  by (simp add: sla_only_def)

lemma sla_only_iff:
  "sla_only d d' \<longleftrightarrow> (\<exists>a b c e. d' = d\<lparr>sla_templates := a, sla_contracts := b, audit_log := c,
     webhook_events := e\<rparr>)"
  unfolding sla_only_def by (rule iffI, blast, force)

lemma sla_only_trans: "sla_only d d1 \<Longrightarrow> sla_only d1 d2 \<Longrightarrow> sla_only d d2"
  unfolding sla_only_iff by (elim exE, simp, (rule exI)+, rule refl)

section \<open>Enforcement\<close>

lemma breach_each_effect:
  assumes "table_ok (sla_contracts d)" and "distinct (map fst q)"
    and "\<forall>(k, c) \<in> set q. row_of (sla_contracts d) k = Some c \<and> sla_state c = SlaActive"
  shows "\<exists>d'. breach_each q d = Inr (d', length q) \<and> sla_only d d'
    \<and> keys_of (sla_contracts d') = keys_of (sla_contracts d)
    \<and> (\<forall>k. row_of (sla_contracts d') k = (if k \<in> fst ` set q
          then map_option (\<lambda>c. c\<lparr>sla_state := SlaBreached, sla_met := Some False\<rparr>) (row_of (sla_contracts d) k)
          else row_of (sla_contracts d) k))"
  using assms
proof (induction q arbitrary: d)
  case Nil
  then show ?case by (simp add: sla_only_refl)
next
  case (Cons x q)
  obtain k c where x: "x = (k, c)" by (cases x)
  have row: "row_of (sla_contracts d) k = Some c" "sla_state c = SlaActive" using Cons.prems(3) x by auto
  let ?t = "snd (sla_breach k (sla_contracts d))"
  have hit: "fst (sla_breach k (sla_contracts d)) = 1"
    by (rule sla_breaching.hit_rows [OF Cons.prems(1) row])
  obtain d1 where d1: "sla_notices ''sla.contract.breached'' (sla_provider_id c) k
      (sla_consumer_id c) (sla_provider_id c) (d\<lparr>sla_contracts := ?t\<rparr>) = Inr d1"
    and only: "sla_only d d1" and t: "sla_contracts d1 = ?t"
    by (simp add: sla_notices_eq sla_only_def)
  have kept: "row_of ?t k' = row_of (sla_contracts d) k'" if "k' \<noteq> k" for k'
    by (rule sla_breaching.other_rows_kept [OF that])
  have new: "row_of ?t k = Some (c\<lparr>sla_state := SlaBreached, sla_met := Some False\<rparr>)"
    by (simp add: sla_breaching.upd_row_of row)
  have "\<exists>d'. breach_each q d1 = Inr (d', length q) \<and> sla_only d1 d'
    \<and> keys_of (sla_contracts d') = keys_of (sla_contracts d1)
    \<and> (\<forall>k. row_of (sla_contracts d') k = (if k \<in> fst ` set q
          then map_option (\<lambda>c. c\<lparr>sla_state := SlaBreached, sla_met := Some False\<rparr>) (row_of (sla_contracts d1) k)
          else row_of (sla_contracts d1) k))"
  proof (rule Cons.IH)
    show "table_ok (sla_contracts d1)" using Cons.prems(1) by (simp add: t sla_breaching.upd_ok)
    show "distinct (map fst q)" using Cons.prems(2) by simp
    show "\<forall>(k, c) \<in> set q. row_of (sla_contracts d1) k = Some c \<and> sla_state c = SlaActive"
      using Cons.prems(2,3) kept by (force simp: t x)
  qed
  then obtain d' where d': "breach_each q d1 = Inr (d', length q)" and only': "sla_only d1 d'"
    and keys: "keys_of (sla_contracts d') = keys_of (sla_contracts d1)"
    and rows: "\<And>k. row_of (sla_contracts d') k = (if k \<in> fst ` set q
          then map_option (\<lambda>c. c\<lparr>sla_state := SlaBreached, sla_met := Some False\<rparr>) (row_of (sla_contracts d1) k)
          else row_of (sla_contracts d1) k)" by blast
  have "breach_each (x # q) d = Inr (d', length (x # q))"
    using hit d1 d' by (simp add: x split_def)
  moreover have "keys_of (sla_contracts d') = keys_of (sla_contracts d)"
    by (simp add: keys t sla_breaching.upd_keys)
  moreover have "row_of (sla_contracts d') z = (if z \<in> fst ` set (x # q)
      then map_option (\<lambda>c. c\<lparr>sla_state := SlaBreached, sla_met := Some False\<rparr>) (row_of (sla_contracts d) z)
      else row_of (sla_contracts d) z)" for z
  proof (cases "z = k")
    case True
    have "k \<notin> fst ` set q" using Cons.prems(2) by (simp add: x)
    then show ?thesis by (simp add: rows t True new row x)
  qed (simp add: rows t kept x)
  ultimately show ?case
    using sla_only_trans [OF only only'] by blast
qed



section \<open>How a contract moves\<close>

inductive sla_move :: "moment \<Rightarrow> sla_contract \<Rightarrow> sla_contract \<Rightarrow> bool" for now where
  stays: "sla_move now c c"
| starts: "sla_state c \<in> {SlaProposed, SlaAccepted} \<Longrightarrow>
     sla_move now c (c\<lparr>sla_state := SlaActive, sla_started_at := Some now\<rparr>)"
| delivers: "sla_state c = SlaActive \<Longrightarrow> sla_move now c (delivered_row now h c)"
| completes: "sla_state c = SlaDelivered \<Longrightarrow>
     met = (case sla_delivery_time_actual c of Some n \<Rightarrow> n \<le> sla_delivery_time_secs c | None \<Rightarrow> True) \<Longrightarrow>
     sla_move now c (c\<lparr>sla_state := SlaCompleted, sla_met := Some met\<rparr>)"
| breaches: "past_deadline now c \<Longrightarrow>
     sla_move now c (c\<lparr>sla_state := SlaBreached, sla_met := Some False\<rparr>)"
| disputes: "sla_state c \<in> {SlaActive, SlaDelivered} \<Longrightarrow>
     sla_move now c (c\<lparr>sla_state := SlaDisputed\<rparr>)"

definition contracts_move :: "moment \<Rightarrow> db \<Rightarrow> db \<Rightarrow> bool" where
  "contracts_move now d d' \<longleftrightarrow> sla_only d d' \<and> keys_of (sla_contracts d') = keys_of (sla_contracts d)
     \<and> (\<forall>k c. row_of (sla_contracts d) k = Some c \<longrightarrow>
          (\<exists>c'. row_of (sla_contracts d') k = Some c' \<and> sla_move now c c'))"

lemma contracts_move_step:
  assumes "row_step k c c' (sla_contracts d) t" and "sla_move now c c'"
  shows "contracts_move now d (d\<lparr>sla_contracts := t, audit_log := a, webhook_events := w\<rparr>)"
proof -
  have t: "t = modify_row k (\<lambda>_. c') (sla_contracts d)" and c: "row_of (sla_contracts d) k = Some c"
    using assms(1) by (simp_all add: row_step_def)
  have "\<exists>v'. row_of t z = Some v' \<and> sla_move now v v'" if "row_of (sla_contracts d) z = Some v" for z v
    using that assms(2) c by (cases "z = k") (auto simp: t row_of_modify_row intro: sla_move.stays)
  then show ?thesis by (simp add: contracts_move_def sla_only_def t keys_modify_row)
qed

lemma accept_contract_moves:
  assumes "accept_contract now k a d = Inr d'" and ok: "table_ok (sla_contracts d)"
  shows "contracts_move now d d'"
proof -
  let ?t = "snd (sla_activate now k (snd (sla_accept k (sla_contracts d))))"
  obtain al w where d': "d' = d\<lparr>sla_contracts := ?t, audit_log := al, webhook_events := w\<rparr>"
    using assms(1) by (auto simp: accept_contract_def and_then_Inr_iff contract_for_Inr sla_notices_eq)
  have "row_of ?t z = map_option (\<lambda>v. if z = k \<and> sla_state v \<in> {SlaProposed, SlaAccepted}
      then v\<lparr>sla_state := SlaActive, sla_started_at := Some now\<rparr> else v) (row_of (sla_contracts d) z)" for z
    by (cases "row_of (sla_contracts d) z")
      (auto simp: sla_activating.upd_row_of sla_accepting.upd_row_of)
  then show ?thesis
    by (auto simp: d' contracts_move_def sla_only_def sla_activating.upd_keys sla_accepting.upd_keys
        intro: sla_move.intros)
qed

lemma deliver_contract_moves:
  assumes "deliver_contract now k a h d = Inr d'" and ok: "table_ok (sla_contracts d)"
  shows "contracts_move now d d'"
proof -
  obtain c al w where c: "row_of (sla_contracts d) k = Some c"
    and hit: "fst (sla_deliver now h k (sla_contracts d)) \<noteq> 0"
    and d': "d' = d\<lparr>sla_contracts := snd (sla_deliver now h k (sla_contracts d)),
        audit_log := al, webhook_events := w\<rparr>"
    using assms(1) by (auto simp: deliver_contract_def and_then_Inr_iff contract_for_Inr sla_notices_eq
        split_def Let_def split: if_splits)
  have active: "sla_state c = SlaActive" using hit c by (simp add: sla_delivering.rows_zero_iff [OF ok])
  show ?thesis unfolding d'
    by (rule contracts_move_step [OF sla_delivering.hit_steps [OF ok c active]],
        rule sla_move.delivers [OF active])
qed

lemma verify_contract_moves:
  assumes "verify_contract k a d = Inr d'" and ok: "table_ok (sla_contracts d)"
  shows "contracts_move now d d'"
proof -
  obtain c met al w where c: "row_of (sla_contracts d) k = Some c"
    and met: "met = (case sla_delivery_time_actual c of Some n \<Rightarrow> n \<le> sla_delivery_time_secs c | None \<Rightarrow> True)"
    and hit: "fst (sla_complete met k (sla_contracts d)) \<noteq> 0"
    and d': "d' = d\<lparr>sla_contracts := snd (sla_complete met k (sla_contracts d)),
        audit_log := al, webhook_events := w\<rparr>"
    using assms(1) by (auto simp: verify_contract_def and_then_Inr_iff contract_for_Inr sla_notices_eq
        split_def Let_def split: if_splits)
  have state: "sla_state c = SlaDelivered" using hit c by (simp add: sla_completing.rows_zero_iff [OF ok])
  show ?thesis unfolding d'
    by (rule contracts_move_step [OF sla_completing.hit_steps [OF ok c state]],
        rule sla_move.completes [OF state met])
qed

lemma dispute_contract_moves:
  assumes "dispute_contract k a d = Inr d'" and ok: "table_ok (sla_contracts d)"
  shows "contracts_move now d d'"
proof -
  obtain c al w where c: "row_of (sla_contracts d) k = Some c"
    and hit: "fst (sla_dispute k (sla_contracts d)) \<noteq> 0"
    and d': "d' = d\<lparr>sla_contracts := snd (sla_dispute k (sla_contracts d)),
        audit_log := al, webhook_events := w\<rparr>"
    using assms(1) by (auto simp: dispute_contract_def and_then_Inr_iff contract_for_Inr sla_notices_eq
        split_def Let_def split: if_splits)
  have state: "sla_state c \<in> {SlaActive, SlaDelivered}"
    using hit c unfolding sla_disputing.rows_zero_iff [OF ok] by auto
  show ?thesis unfolding d'
    by (rule contracts_move_step [OF sla_disputing.hit_steps [OF ok c state]],
        rule sla_move.disputes [OF state])
qed

lemma enforce_sla_effect:
  assumes ok: "table_ok (sla_contracts d)"
  shows "\<exists>d'. enforce_sla now d = Inr (d', length (get_active_past_deadline now (sla_contracts d)))
    \<and> sla_only d d' \<and> keys_of (sla_contracts d') = keys_of (sla_contracts d)
    \<and> (\<forall>k. row_of (sla_contracts d') k = map_option (\<lambda>c. if past_deadline now c
          then c\<lparr>sla_state := SlaBreached, sla_met := Some False\<rparr> else c) (row_of (sla_contracts d) k))"
proof -
  let ?q = "get_active_past_deadline now (sla_contracts d)"
  have mem: "(k, c) \<in> set ?q \<longleftrightarrow> row_of (sla_contracts d) k = Some c \<and> past_deadline now c" for k c
    using row_of_Some_mem mem_row_of [OF ok] by (fastforce simp: get_active_past_deadline_def select_where_def)
  have "distinct (map fst ?q)"
    using ok unfolding get_active_past_deadline_def select_where_def table_ok_def keys_of_def
    by (rule distinct_map_filter)
  then obtain d' where d': "breach_each ?q d = Inr (d', length ?q)" "sla_only d d'"
      "keys_of (sla_contracts d') = keys_of (sla_contracts d)"
    and rows: "\<And>k. row_of (sla_contracts d') k = (if k \<in> fst ` set ?q
          then map_option (\<lambda>c. c\<lparr>sla_state := SlaBreached, sla_met := Some False\<rparr>) (row_of (sla_contracts d) k)
          else row_of (sla_contracts d) k)"
    using breach_each_effect [OF ok, of ?q] mem by (auto simp: past_deadline_def)
  have "row_of (sla_contracts d') k = map_option (\<lambda>c. if past_deadline now c
          then c\<lparr>sla_state := SlaBreached, sla_met := Some False\<rparr> else c) (row_of (sla_contracts d) k)" for k
  proof (cases "row_of (sla_contracts d) k")
    case (Some c)
    then have "k \<in> fst ` set ?q \<longleftrightarrow> past_deadline now c" using mem by force
    then show ?thesis by (simp add: rows Some)
  qed (simp add: rows)
  with d' show ?thesis by (auto simp: enforce_sla_def)
qed

lemma sla_exec_moves:
  assumes "sla_exec now p d = Inr d'" and ok: "table_ok (sla_contracts d)" and "\<not> opens_contract p"
  shows "contracts_move now d d'"
proof (cases p)
  case (CreateTemplate q rs ds price cur pen)
  then show ?thesis
    using assms(1) by (auto simp: sla_create_template_def contracts_move_def sla_only_def intro: sla_move.stays)
next
  case EnforceSla
  obtain x n where run: "enforce_sla now d = Inr (x, n)" "d' = x"
    using assms(1) EnforceSla by (auto simp: map_sum_fst_Inr)
  from enforce_sla_effect [OF ok, of now] have only: "sla_only d x"
      "keys_of (sla_contracts x) = keys_of (sla_contracts d)"
    and rows: "\<And>k. row_of (sla_contracts x) k = map_option (\<lambda>c. if past_deadline now c
          then c\<lparr>sla_state := SlaBreached, sla_met := Some False\<rparr> else c) (row_of (sla_contracts d) k)"
    by (auto simp: run(1))
  have "sla_move now c (if past_deadline now c then c\<lparr>sla_state := SlaBreached, sla_met := Some False\<rparr> else c)" for c
    by (simp add: sla_move.stays sla_move.breaches)
  with only show ?thesis by (simp add: contracts_move_def rows run(2))
qed (use assms accept_contract_moves deliver_contract_moves verify_contract_moves dispute_contract_moves
     in auto)

lemma create_contract_Inr:
  assumes "create_contract now a p rs ds price cur pen tpl d = Inr (d', k)"
  obtains d1 deal al w where "a \<noteq> p" and "price \<le> available_of a cur (balances d)"
    and "create_escrow now a p price 24 48 24 ''free'' None
           (d\<lparr>balances := get_or_create now a cur (balances d)\<rparr>) = Inr (d1, deal)"
    and "k = new_id (sla_contracts d)"
    and "d' = d1\<lparr>sla_contracts := add_row (contract_create now p a tpl rs ds price cur pen (Some deal))
           (sla_contracts d), audit_log := al, webhook_events := w\<rparr>"
proof -
  let ?d = "d\<lparr>balances := get_or_create now a cur (balances d)\<rparr>"
  obtain d1 deal where esc: "create_escrow now a p price 24 48 24 ''free'' None ?d = Inr (d1, deal)"
    using assms by (auto simp: create_contract_def get_available_eq Let_def and_then_Inr_iff split: if_splits)
  have kept: "sla_contracts d1 = sla_contracts d"
    using esc by (auto simp: create_escrow_def and_then_Inr_iff log_event_def Let_def
        split: if_splits option.splits)
  show thesis
    by (rule that [OF _ _ esc])
      (use assms esc kept in \<open>auto simp: create_contract_def get_available_eq Let_def sla_notices_eq
        split: if_splits\<close>)
qed

section \<open>Clocks and verdicts\<close>

text \<open>A delivered contract knows its two instants and the whole seconds between them.\<close>

definition timed :: "moment \<Rightarrow> sla_contract \<Rightarrow> bool" where
  "timed now c \<longleftrightarrow> (case (sla_started_at c, sla_delivered_at c) of
     (Some s, Some t) \<Rightarrow> s \<le> t \<and> t \<le> now \<and> sla_delivery_time_actual c = Some (whole_seconds (t - s))
   | _ \<Rightarrow> False)"

definition running_since :: "moment \<Rightarrow> sla_contract \<Rightarrow> bool" where
  "running_since now c \<longleftrightarrow> sla_delivered_at c = None
     \<and> (case sla_started_at c of Some s \<Rightarrow> s \<le> now | None \<Rightarrow> False)"

definition verdict_ok :: "moment \<Rightarrow> sla_contract \<Rightarrow> bool" where
  "verdict_ok now c = (case sla_state c of
     SlaProposed \<Rightarrow> sla_delivered_at c = None \<and> sla_met c = None
   | SlaAccepted \<Rightarrow> False
   | SlaActive \<Rightarrow> running_since now c \<and> sla_met c = None
   | SlaDelivered \<Rightarrow> timed now c \<and> sla_met c = None
   | SlaCompleted \<Rightarrow> timed now c
       \<and> sla_met c = map_option (\<lambda>n. n \<le> sla_delivery_time_secs c) (sla_delivery_time_actual c)
   | SlaBreached \<Rightarrow> running_since now c \<and> sla_met c = Some False
       \<and> (case sla_started_at c of None \<Rightarrow> False
          | Some s \<Rightarrow> seconds (min (sla_response_time_secs c) (sla_delivery_time_secs c)) < now - s)
   | SlaDisputed \<Rightarrow> sla_met c = None)"

lemma timed_later: "timed now c \<Longrightarrow> now \<le> now' \<Longrightarrow> timed now' c"
  by (auto simp: timed_def split: option.splits)

lemma running_later: "running_since now c \<Longrightarrow> now \<le> now' \<Longrightarrow> running_since now' c"
  by (auto simp: running_since_def split: option.splits)

lemma verdict_later: "verdict_ok now c \<Longrightarrow> now \<le> now' \<Longrightarrow> verdict_ok now' c"
  by (cases "sla_state c")
    (auto simp: verdict_ok_def intro: timed_later running_later split: option.splits)

lemma seconds_min: "seconds (min a b) < x \<longleftrightarrow> seconds a < x \<or> seconds b < x"
  by (auto simp: seconds_def microsecond_per_second_def min_def)

lemma sla_move_verdict:
  assumes "sla_move now c c'" and "verdict_ok now c"
  shows "verdict_ok now c'"
  using assms(1)
proof cases
  case stays
  then show ?thesis using assms(2) by simp
next
  case starts
  then show ?thesis
    using assms(2) by (auto simp: verdict_ok_def running_since_def)
next
  case (delivers h)
  then show ?thesis
    using assms(2) by (auto simp: verdict_ok_def running_since_def timed_def split: option.splits)
next
  case (completes met)
  then show ?thesis
    using assms(2) by (auto simp: verdict_ok_def timed_def split: option.splits)
next
  case breaches
  then show ?thesis
    using assms(2)
    by (auto simp: verdict_ok_def past_deadline_def running_since_def Let_def total_seconds_greater seconds_min
        split: option.splits)
next
  case disputes
  then show ?thesis using assms(2) by (auto simp: verdict_ok_def)
qed

definition contracts_ok :: "moment \<Rightarrow> db \<Rightarrow> bool" where
  "contracts_ok now d \<longleftrightarrow> table_ok (sla_contracts d)
     \<and> (\<forall>k c. row_of (sla_contracts d) k = Some c \<longrightarrow> verdict_ok now c)"

lemma contracts_ok_later: "contracts_ok now d \<Longrightarrow> now \<le> now' \<Longrightarrow> contracts_ok now' d"
  by (auto simp: contracts_ok_def intro: verdict_later)

lemma contracts_ok_moves: "contracts_move now d d' \<Longrightarrow> contracts_ok now d \<Longrightarrow> contracts_ok now d'"
  unfolding contracts_ok_def contracts_move_def table_ok_def
  by (metis (no_types, lifting) option.distinct(1) option.exhaust row_of_None_iff sla_move_verdict
      option.inject)

lemma sla_exec_ok:
  assumes "sla_exec now p d = Inr d'" and "contracts_ok now d"
  shows "contracts_ok now d'"
proof (cases "opens_contract p")
  case False
  have "table_ok (sla_contracts d)" using assms(2) by (simp add: contracts_ok_def)
  then show ?thesis
    by (rule contracts_ok_moves [OF sla_exec_moves [OF assms(1) _ False] assms(2)])
next
  case True
  then obtain a q rs ds price cur pen tpl where p: "p = CreateContract a q rs ds price cur pen tpl"
    by (cases p) auto
  then obtain k where "create_contract now a q rs ds price cur pen tpl d = Inr (d', k)"
    using assms(1) by (auto simp: map_sum_fst_Inr)
  then obtain deal where t: "sla_contracts d' =
      add_row (contract_create now q a tpl rs ds price cur pen (Some deal)) (sla_contracts d)"
    by (rule create_contract_Inr) auto
  have "verdict_ok now (contract_create now q a tpl rs ds price cur pen (Some deal))"
    by (simp add: verdict_ok_def contract_create_def)
  then show ?thesis
    using assms(2) by (auto simp: contracts_ok_def t table_ok_add_row row_of_add_row)
qed

lemma sla_run_ok:
  assumes "sorted (map fst ps)" and "\<forall>q \<in> set ps. since \<le> fst q \<and> fst q \<le> now" and "since \<le> now"
    and "contracts_ok since d"
  shows "contracts_ok now (sla_run ps d)"
  using assms
proof (induction ps arbitrary: since d)
  case Nil
  then show ?case by (auto intro: contracts_ok_later)
next
  case (Cons q ps)
  obtain t p where q: "q = (t, p)" by (cases q)
  have "contracts_ok t d" using Cons.prems(2,4) by (auto simp: q intro: contracts_ok_later)
  then have "contracts_ok t (case sla_exec t p d of Inl e \<Rightarrow> d | Inr d' \<Rightarrow> d')"
    by (auto intro: sla_exec_ok split: sum.split)
  moreover have "\<forall>r \<in> set ps. t \<le> fst r \<and> fst r \<le> now" "t \<le> now" using Cons.prems(1,2) by (auto simp: q)
  ultimately show ?case using Cons.IH [of t] Cons.prems(1) by (simp add: q)
qed

text \<open>Operations that open no contract leave every table but the contracts' own alone.\<close>

lemma sla_run_only:
  assumes "table_ok (sla_contracts d)" and "list_all (\<lambda>q. \<not> opens_contract (snd q)) ps"
  shows "sla_only d (sla_run ps d)"
  using assms
proof (induction ps arbitrary: d)
  case Nil
  then show ?case by (simp add: sla_only_refl)
next
  case (Cons q ps)
  obtain t p where q: "q = (t, p)" by (cases q)
  show ?case
  proof (cases "sla_exec t p d")
    case (Inl e)
    then show ?thesis using Cons by (simp add: q)
  next
    case (Inr d1)
    then have m: "contracts_move t d d1" using sla_exec_moves Cons.prems by (auto simp: q)
    then have "table_ok (sla_contracts d1)" using Cons.prems(1) by (simp add: contracts_move_def table_ok_def)
    then show ?thesis
      using Cons m sla_only_trans by (auto simp: q Inr contracts_move_def)
  qed
qed

text \<open>The terms of a contract never change, and no contract disappears.\<close>

definition same_terms :: "sla_contract \<Rightarrow> sla_contract \<Rightarrow> bool" where
  "same_terms c c' \<longleftrightarrow> sla_escrow_deal_id c' = sla_escrow_deal_id c \<and> sla_price c' = sla_price c
     \<and> sla_provider_id c' = sla_provider_id c \<and> sla_consumer_id c' = sla_consumer_id c"

lemma sla_move_terms: "sla_move now c c' \<Longrightarrow> same_terms c c'"
  by (induction rule: sla_move.induct) (simp_all add: same_terms_def)

lemma sla_run_terms:
  assumes "table_ok (sla_contracts d)" and "list_all (\<lambda>q. \<not> opens_contract (snd q)) ps"
    and "row_of (sla_contracts d) k = Some c"
  shows "\<exists>c'. row_of (sla_contracts (sla_run ps d)) k = Some c' \<and> same_terms c c'"
  using assms
proof (induction ps arbitrary: d c)
  case Nil
  then show ?case by (simp add: same_terms_def)
next
  case (Cons q ps)
  obtain t p where q: "q = (t, p)" by (cases q)
  show ?case
  proof (cases "sla_exec t p d")
    case (Inl e)
    then show ?thesis using Cons by (simp add: q)
  next
    case (Inr d1)
    then have m: "contracts_move t d d1" using sla_exec_moves Cons.prems by (auto simp: q)
    then have "table_ok (sla_contracts d1)" using Cons.prems(1) by (simp add: contracts_move_def table_ok_def)
    moreover obtain c1 where "row_of (sla_contracts d1) k = Some c1" "same_terms c c1"
      using m Cons.prems(3) sla_move_terms unfolding contracts_move_def by blast
    ultimately show ?thesis
      using Cons.IH [of d1 c1] Cons.prems(2) by (auto simp: q Inr same_terms_def)
  qed
qed

lemma escrow_ok_cong:
  assumes "escrow_ok d" and "table_ok (balances d')" and "escrow_deals d' = escrow_deals d"
    and "escrow_milestones d' = escrow_milestones d"
  shows "escrow_ok d'"
  using assms by (simp add: escrow_ok_def)

lemma create_single_Inr:
  assumes "create_escrow now b s x ah dh rh tier None d = Inr (d', k)"
  shows "0 < x \<and> k = new_id (escrow_deals d) \<and> deduct now b x ''XMR'' (balances d) = Inr (balances d')
    \<and> escrow_deals d' = add_row (escrow_create now b s x ah dh rh (1 / 100)) (escrow_deals d)"
  by (rule create_escrow_Inr [OF assms]) simp

section \<open>Properties\<close>

text \<open>The held money ignores the contract: whatever the parties and the enforcement loop do with
  a contract after opening it (including delivering on time and verifying it as met), no balance and
  no escrow deal changes; and when the escrow sweep resolves the contract's deal, every balance is
  back to what it was before the contract was opened: the consumer is refunded in full and the
  provider of a completed contract has received nothing.\<close>

lemma sla_completion_moves_no_money:
  assumes "escrow_ok d" and "table_ok (sla_contracts d)"
    and "create_contract now a p rs ds price cur pen tpl d = Inr (d1, k)"
    and "list_all (\<lambda>q. \<not> opens_contract (snd q)) ps"
  shows "\<exists>c deal d3. row_of (sla_contracts (sla_run ps d1)) k = Some c
    \<and> sla_escrow_deal_id c = Some deal
    \<and> balances (sla_run ps d1) = balances d1 \<and> escrow_deals (sla_run ps d1) = escrow_deals d1
    \<and> (now + hours 24 \<le> later \<longrightarrow>
         deal \<in> fst ` set (get_pending_expiry later (escrow_deals (sla_run ps d1))))
    \<and> resolve_single later deal (sla_run ps d1) = Inr (d3, True)
    \<and> (\<forall>b u. available_of b u (balances d3) = available_of b u (balances d))"
proof -
  let ?d0 = "d\<lparr>balances := get_or_create now a cur (balances d)\<rparr>" and ?d2 = "sla_run ps d1"
  obtain e deal al w where esc: "create_escrow now a p price 24 48 24 ''free'' None ?d0 = Inr (e, deal)"
    and k: "k = new_id (sla_contracts d)"
    and d1: "d1 = e\<lparr>sla_contracts := add_row (contract_create now p a tpl rs ds price cur pen (Some deal))
         (sla_contracts d), audit_log := al, webhook_events := w\<rparr>"
    by (rule create_contract_Inr [OF assms(3)]) (rule that; assumption)
  have ok0: "escrow_ok ?d0" by (rule escrow_ok_cong [OF assms(1)]) (simp_all add: escrow_okD(1) [OF assms(1)])
  have ok1: "escrow_ok e" by (rule create_escrow_effect(1) [OF esc ok0]) simp
  have t1: "deduct now a price ''XMR'' (balances ?d0) = Inr (balances e)"
    and deal: "deal = new_id (escrow_deals ?d0)"
    and deals: "escrow_deals e = add_row (escrow_create now a p price 24 48 24 (1 / 100)) (escrow_deals ?d0)"
    using create_single_Inr [OF esc] by blast+
  have tok: "table_ok (sla_contracts d1)" by (simp add: d1 table_ok_add_row assms(2))
  have e: "balances d1 = balances e" "escrow_deals d1 = escrow_deals e"
      "escrow_milestones d1 = escrow_milestones e" by (simp_all add: d1)
  have only: "sla_only d1 ?d2" by (rule sla_run_only [OF tok assms(4)])
  then have same: "balances ?d2 = balances d1" "escrow_deals ?d2 = escrow_deals d1"
      "escrow_milestones ?d2 = escrow_milestones d1" by (auto simp: sla_only_iff)
  have ok2: "escrow_ok ?d2"
    by (rule escrow_ok_cong [OF ok1]) (simp_all add: same e escrow_okD(1) [OF ok1])
  have row: "row_of (escrow_deals ?d2) deal = Some (escrow_create now a p price 24 48 24 (1 / 100))"
    by (simp add: same e deals deal row_of_add_row)
  obtain d3 b where run: "resolve_single later deal ?d2 = Inr (d3, b)" using resolve_single_returns by blast
  then have exp: "expire_not_accepted later deal (escrow_create now a p price 24 48 24 (1 / 100)) ?d2 = Inr (d3, b)"
    by (simp add: resolve_single_def row) (simp add: escrow_create_def)
  have created: "deal_status (escrow_create now a p price 24 48 24 (1 / 100)) = EscrowCreated"
    by (simp add: escrow_create_def)
  have settled: "b \<and> balances d3 = credit later a price ''XMR'' (balances ?d2)"
    by (rule expire_not_accepted_effect [OF exp ok2 row created])
      (simp add: escrow_create_def token_or_xmr_def)
  have "available_of z u (balances d3) = available_of z u (balances d)" for z u
    by (simp add: settled same e available_credit deduct_Inr(2) [OF t1] available_get_or_create)
  moreover have "deal \<in> fst ` set (get_pending_expiry later (escrow_deals ?d2))" if "now + hours 24 \<le> later"
  proof -
    have "overdue later (escrow_create now a p price 24 48 24 (1 / 100))"
      using that by (simp add: overdue_def deal_live_def escrow_create_def)
    then show ?thesis
      using get_pending_expiry_overdue [OF escrow_okD(2) [OF ok2]] row by (metis fst_conv image_eqI)
  qed
  moreover have row1: "row_of (sla_contracts d1) k = Some (contract_create now p a tpl rs ds price cur pen (Some deal))"
    by (simp add: d1 k row_of_add_row)
  moreover obtain c where "row_of (sla_contracts ?d2) k = Some c" "sla_escrow_deal_id c = Some deal"
    using sla_run_terms [OF tok assms(4) row1] by (auto simp: same_terms_def contract_create_def)
  ultimately show ?thesis
    using run settled same by (intro exI [of _ c] exI [of _ deal] exI [of _ d3]) simp
qed

definition demo_sla_ops :: "(moment \<times> sla_op) list" where
  "demo_sla_ops =
     [(seconds 2, AcceptContract 1 2), (seconds 7, DeliverContract 1 2 ''h''), (seconds 8, VerifyContract 1 1)]"

definition demo_sla_opened :: "(db \<times> ident) outcome" where
  "demo_sla_opened = create_contract 0 1 2 60 3600 50 ''XMR'' 10 None demo_db"

lemma demo_sla_result:
  "case demo_sla_opened of Inl e \<Rightarrow> False | Inr (d1, k) \<Rightarrow> k = 1 \<and> available_of 1 ''XMR'' (balances d1) = 950
     \<and> map (\<lambda>(k, c). (k, sla_state c, sla_met c)) (sla_contracts (sla_run demo_sla_ops d1))
       = [(1, SlaCompleted, Some True)]"
  by code_simp

lemma sla_completion_moves_no_money_witness:
  "\<exists>d1 deal d3. demo_sla_opened = Inr (d1, 1) \<and> available_of 1 ''XMR'' (balances d1) = 950
     \<and> resolve_single (hours 24) deal (sla_run demo_sla_ops d1) = Inr (d3, True)
     \<and> available_of 1 ''XMR'' (balances d3) = 1000 \<and> available_of 2 ''XMR'' (balances d3) = 0"
proof -
  obtain d1 where d1: "demo_sla_opened = Inr (d1, 1)" "available_of 1 ''XMR'' (balances d1) = 950"
    using demo_sla_result by (auto split: sum.splits)
  have "table_ok (sla_contracts demo_db)" by (simp add: demo_db_def empty_db_def)
  moreover have "list_all (\<lambda>q. \<not> opens_contract (snd q)) demo_sla_ops" by (simp add: demo_sla_ops_def)
  moreover have "available_of 1 ''XMR'' (balances demo_db) = 1000"
      "available_of 2 ''XMR'' (balances demo_db) = 0" by code_simp+
  ultimately obtain deal d3 where "resolve_single (hours 24) deal (sla_run demo_sla_ops d1) = Inr (d3, True)"
      "available_of 1 ''XMR'' (balances d3) = 1000" "available_of 2 ''XMR'' (balances d3) = 0"
    using sla_completion_moves_no_money [OF demo_db_ok _ d1(1) [unfolded demo_sla_opened_def],
      of demo_sla_ops "hours 24"] by metis
  with d1 show ?thesis by blast
qed

text \<open>The verdict of a contract: over any chronological run of requests and enforcement cycles, no
  contract rests in the accepted state; a completed contract is marked as met exactly when it was
  delivered before one second past its delivery time (the running second is cut off); a breached one
  was never delivered, is marked as not met and has outlived the shorter of its two times; and a
  contract in any other state carries no verdict.\<close>

lemma sla_verdict:
  assumes "sla_contracts d = []" and "sorted (map fst ps)" and "\<forall>q \<in> set ps. fst q \<le> now"
    and "row_of (sla_contracts (sla_run ps d)) k = Some c"
  shows "sla_state c \<noteq> SlaAccepted
    \<and> (sla_state c = SlaCompleted \<longrightarrow> (\<exists>s t. sla_started_at c = Some s \<and> sla_delivered_at c = Some t
         \<and> s \<le> t \<and> t \<le> now \<and> sla_met c = Some (t - s < seconds (sla_delivery_time_secs c + 1))))
    \<and> (sla_state c = SlaBreached \<longrightarrow> sla_met c = Some False \<and> sla_delivered_at c = None
         \<and> (\<exists>s. sla_started_at c = Some s
              \<and> seconds (min (sla_response_time_secs c) (sla_delivery_time_secs c)) < now - s))
    \<and> (sla_state c \<notin> {SlaCompleted, SlaBreached} \<longrightarrow> sla_met c = None)"
proof -
  let ?since = "case ps of [] \<Rightarrow> now | q # _ \<Rightarrow> fst q"
  have "contracts_ok ?since d" using assms(1) by (simp add: contracts_ok_def)
  moreover have "\<forall>q \<in> set ps. ?since \<le> fst q \<and> fst q \<le> now" and "?since \<le> now"
    using assms(2,3) by (force split: list.splits)+
  ultimately have "contracts_ok now (sla_run ps d)" using sla_run_ok [OF assms(2)] by blast
  then have "verdict_ok now c" using assms(4) by (simp add: contracts_ok_def)
  then show ?thesis
    by (cases "sla_state c")
      (auto simp: verdict_ok_def timed_def running_since_def whole_seconds_le split: option.splits)
qed

lemma sla_verdict_witness:
  "\<exists>d1 c s t. demo_sla_opened = Inr (d1, 1)
     \<and> row_of (sla_contracts (sla_run ((0, CreateContract 1 2 60 3600 50 ''XMR'' 10 None) # demo_sla_ops) demo_db)) 1 = Some c
     \<and> sla_started_at c = Some s \<and> sla_delivered_at c = Some t \<and> sla_met c = Some (t - s < seconds 3601)"
proof -
  let ?ps = "(0, CreateContract 1 2 60 3600 50 ''XMR'' 10 None) # demo_sla_ops"
  obtain d1 where d1: "demo_sla_opened = Inr (d1, 1)" using demo_sla_result by (auto split: sum.splits)
  have "case row_of (sla_contracts (sla_run ?ps demo_db)) 1 of None \<Rightarrow> False
    | Some c \<Rightarrow> sla_state c = SlaCompleted \<and> sla_delivery_time_secs c = 3600" by code_simp
  then obtain c where c: "row_of (sla_contracts (sla_run ?ps demo_db)) 1 = Some c" "sla_state c = SlaCompleted"
      "sla_delivery_time_secs c = 3600" by (auto split: option.splits)
  have "sla_contracts demo_db = []" by (simp add: demo_db_def empty_db_def)
  moreover have "sorted (map fst ?ps)" "\<forall>q \<in> set ?ps. fst q \<le> seconds 9"
    by (simp_all add: demo_sla_ops_def seconds_def microsecond_per_second_def)
  ultimately obtain s t where "sla_started_at c = Some s" "sla_delivered_at c = Some t"
      "sla_met c = Some (t - s < seconds (3600 + 1))"
    using sla_verdict [OF _ _ _ c(1), of "seconds 9"] c(2,3) by auto
  with d1 c(1) show ?thesis by (intro exI [of _ d1] exI [of _ c] exI [of _ s] exI [of _ t]) simp
qed

text \<open>One enforcement cycle always returns and settles every late contract: it breaches exactly the
  active contracts running longer than the shorter of their response and delivery times, reports
  their number, leaves none behind and touches no other row and no money. An accepted contract whose
  response time is shorter than its delivery time is therefore due at the response time.\<close>

lemma sla_enforcement_complete:
  assumes "table_ok (sla_contracts d)"
  shows "\<exists>d'. enforce_sla now d = Inr (d', length (get_active_past_deadline now (sla_contracts d)))
    \<and> get_active_past_deadline now (sla_contracts d') = [] \<and> sla_only d d'
    \<and> (\<forall>k. row_of (sla_contracts d') k = map_option (\<lambda>c.
         if sla_state c = SlaActive \<and> (\<exists>s. sla_started_at c = Some s
              \<and> seconds (min (sla_response_time_secs c) (sla_delivery_time_secs c)) < now - s)
         then c\<lparr>sla_state := SlaBreached, sla_met := Some False\<rparr> else c) (row_of (sla_contracts d) k))"
proof -
  obtain d' where d': "enforce_sla now d = Inr (d', length (get_active_past_deadline now (sla_contracts d)))"
      "sla_only d d'" and keys: "keys_of (sla_contracts d') = keys_of (sla_contracts d)"
    and rows: "\<And>k. row_of (sla_contracts d') k = map_option (\<lambda>c. if past_deadline now c
          then c\<lparr>sla_state := SlaBreached, sla_met := Some False\<rparr> else c) (row_of (sla_contracts d) k)"
    using enforce_sla_effect [OF assms, of now] by blast
  have late: "past_deadline now c \<longleftrightarrow> sla_state c = SlaActive \<and> (\<exists>s. sla_started_at c = Some s
      \<and> seconds (min (sla_response_time_secs c) (sla_delivery_time_secs c)) < now - s)" for c
    by (auto simp: past_deadline_def Let_def total_seconds_greater seconds_min split: option.splits)
  have "table_ok (sla_contracts d')" using assms by (simp add: table_ok_def keys)
  moreover have "\<not> past_deadline now c" if "row_of (sla_contracts d') k = Some c" for k c
  proof -
    have "\<not> past_deadline now (a\<lparr>sla_state := SlaBreached, sla_met := m\<rparr>)" for a m
      by (simp add: past_deadline_def)
    then show ?thesis
      using that by (cases "row_of (sla_contracts d) k") (auto simp: rows split: if_splits)
  qed
  ultimately have "get_active_past_deadline now (sla_contracts d') = []"
    unfolding get_active_past_deadline_def select_where_def filter_empty_conv
    using mem_row_of by fast
  with d' show ?thesis by (auto simp: rows late)
qed

lemma sla_enforcement_complete_witness:
  "\<exists>d1. demo_sla_opened = Inr (d1, 1)
     \<and> (\<exists>d'. enforce_sla (seconds 63) (sla_run [(seconds 2, AcceptContract 1 2)] d1) = Inr (d', 1)
          \<and> get_active_past_deadline (seconds 63) (sla_contracts d') = [])"
proof -
  obtain d1 where d1: "demo_sla_opened = Inr (d1, 1)" using demo_sla_result by (auto split: sum.splits)
  let ?d = "sla_run [(seconds 2, AcceptContract 1 2)] d1"
  have "case demo_sla_opened of Inl e \<Rightarrow> False
    | Inr (d1, k) \<Rightarrow> length (get_active_past_deadline (seconds 63)
        (sla_contracts (sla_run [(seconds 2, AcceptContract 1 2)] d1))) = 1
        \<and> map fst (sla_contracts (sla_run [(seconds 2, AcceptContract 1 2)] d1)) = [1]" by code_simp
  then have late: "length (get_active_past_deadline (seconds 63) (sla_contracts ?d)) = 1"
    and ok: "table_ok (sla_contracts ?d)" by (simp_all add: d1 table_ok_def keys_of_def)
  show ?thesis using sla_enforcement_complete [OF ok, of "seconds 63"] late d1 by auto
qed

end
