(* ===== verification/Apart_Log.thy ===== *)
theory Apart_Log
  imports Events
begin

text \<open>
  Services that call \<open>log_event\<close> without a session: the audit row is written and committed through a
  session of its own and stays when the request is rolled back. A request therefore yields the audit
  rows it has committed on the way besides its outcome.
\<close>

type_synonym 'a logged = "audit_entry list \<times> 'a outcome"

section \<open>Calls with a session of their own\<close>

text \<open>The entry of a call that names only the action, the agent and the details.\<close>

definition brief_audit :: "string \<Rightarrow> ident \<Rightarrow> audit_entry" where
  "brief_audit action a =
     \<lparr>au_action = action, au_agent_id = Some a, au_resource_type = None, au_resource_id = None\<rparr>"

text \<open>\<open>log_event\<close> outside the caller's transaction, followed by the rest of the request.\<close>

definition log_apart :: "nat \<Rightarrow> string list \<Rightarrow> audit_entry \<Rightarrow> 'a outcome \<Rightarrow> 'a logged" where
  "log_apart npos kws e rest =
     (if py_bind log_event_params [''action''] npos kws then ([e], rest)
      else ([], Inl (TypeError ''log_event'')))"

text \<open>The end of a request: \<open>get_db\<close> commits or rolls back, the separate audit rows stay.\<close>

definition conclude :: "db \<Rightarrow> db logged \<Rightarrow> db" where
  "conclude d r =
     (let d' = (case snd r of Inl e \<Rightarrow> d | Inr d' \<Rightarrow> d')
      in d'\<lparr>audit_log := audit_log d' @ fst r\<rparr>)"

text \<open>A logged step followed by the rest of the request.\<close>

definition then_logged :: "'a logged \<Rightarrow> ('a \<Rightarrow> 'b logged) \<Rightarrow> 'b logged" where
  "then_logged r f = (case snd r of
       Inl e \<Rightarrow> (fst r, Inl e)
     | Inr x \<Rightarrow> (fst r @ fst (f x), snd (f x)))"

text \<open>A step without audit rows.\<close>

definition unlogged :: "'a outcome \<Rightarrow> 'a logged" where
  "unlogged r = ([], r)"

text \<open>The call most of these services make binds.\<close>

lemma log_apart_brief [simp]:
  "log_apart 1 [''agent_id'', ''details''] e rest = ([e], rest)"
  "log_apart (Suc 0) [''agent_id'', ''details''] e rest = ([e], rest)"
  by (simp_all add: log_apart_def py_bind_def log_event_params_def)

lemma then_logged_Inr:
  "snd (then_logged r f) = Inr y \<longleftrightarrow> (\<exists>x. snd r = Inr x \<and> snd (f x) = Inr y)"
  by (auto simp: then_logged_def split: sum.split)

lemma then_logged_simps [simp]:
  "then_logged (es, Inl e) f = (es, Inl e)" "then_logged (es, Inr x) f = (es @ fst (f x), snd (f x))"
  by (simp_all add: then_logged_def)

end
