(* ===== verification/Recurring.thy ===== *)
theory Recurring
  imports Channel Apart_Log
begin

text \<open>
  Recurring payments: \<open>sthrip/db/recurring_repo.py\<close> and \<open>sthrip/services/recurring_service.py\<close>. A
  subscriber sets up a schedule, a background loop charges the schedules that are due, and either
  party may cancel.
\<close>

type_synonym recurring_table = "(ident, recurring_payment) table"

section \<open>The repository\<close>

definition recurring_create ::
  "moment \<Rightarrow> ident \<Rightarrow> ident \<Rightarrow> decimal \<Rightarrow> recurring_interval \<Rightarrow> int option \<Rightarrow> moment \<Rightarrow> recurring_payment"
where
  "recurring_create now from_agent to_agent amount interval max_payments next_at =
     \<lparr>rec_from_agent_id = from_agent, rec_to_agent_id = to_agent, rec_amount = amount,
      rec_interval = interval, rec_next_payment_at = next_at, rec_last_payment_at = None,
      rec_total_paid = 0, rec_max_payments = max_payments, rec_payments_made = 0,
      rec_is_active = True, rec_created_at = now, rec_cancelled_at = None\<rparr>"

text \<open>\<open>get_due_payments\<close> and \<open>get_due_payments_for_update\<close> select the same rows; the second locks them.\<close>

definition payment_due :: "moment \<Rightarrow> recurring_payment \<Rightarrow> bool" where
  "payment_due now p \<longleftrightarrow> rec_is_active p \<and> rec_next_payment_at p \<le> now"

definition get_due_payments :: "moment \<Rightarrow> recurring_table \<Rightarrow> (ident \<times> recurring_payment) list" where
  "get_due_payments now = select_where (payment_due now)"

definition recurring_list_by_agent ::
  "ident \<Rightarrow> nat \<Rightarrow> nat \<Rightarrow> recurring_table \<Rightarrow> (ident \<times> recurring_payment) list \<times> nat"
where
  "recurring_list_by_agent a limit offset t =
     (let mine = select_where (\<lambda>p. rec_from_agent_id p = a \<or> rec_to_agent_id p = a) t
      in (take (min limit MAX_QUERY_LIMIT) (drop offset (sort_key (\<lambda>(k, p). - rec_created_at p) mine)),
          length mine))"

definition record_payment :: "moment \<Rightarrow> moment \<Rightarrow> ident \<Rightarrow> recurring_table \<Rightarrow> nat \<times> recurring_table" where
  "record_payment now next_at k t =
     (case row_of t k of
        None \<Rightarrow> (0, t)
      | Some p \<Rightarrow> update_row (\<lambda>_. True)
          (\<lambda>r. r\<lparr>rec_payments_made := rec_payments_made r + 1,
                 rec_total_paid := rec_total_paid r + rec_amount p,
                 rec_last_payment_at := Some now, rec_next_payment_at := next_at\<rparr>) k t)"

definition recurring_cancel :: "moment \<Rightarrow> ident \<Rightarrow> recurring_table \<Rightarrow> nat \<times> recurring_table" where
  "recurring_cancel now = update_row (\<lambda>_. True)
     (\<lambda>r. r\<lparr>rec_is_active := False, rec_cancelled_at := Some now\<rparr>)"

definition recurring_update ::
  "decimal option \<Rightarrow> recurring_interval option \<Rightarrow> ident \<Rightarrow> recurring_table \<Rightarrow> nat \<times> recurring_table"
where
  "recurring_update amount interval k t =
     (if amount = None \<and> interval = None then (0, t)
      else update_row (\<lambda>_. True)
        (\<lambda>r. r\<lparr>rec_amount := (case amount of None \<Rightarrow> rec_amount r | Some x \<Rightarrow> x),
               rec_interval := (case interval of None \<Rightarrow> rec_interval r | Some i \<Rightarrow> i)\<rparr>) k t)"

section \<open>The service\<close>

definition RECURRING_FEE_RATE :: decimal where
  "RECURRING_FEE_RATE = 1 / 100"

fun calculate_next_payment :: "recurring_interval \<Rightarrow> moment \<Rightarrow> moment" where
  "calculate_next_payment Hourly from = from + hours 1"
| "calculate_next_payment Daily from = from + hours 24"
| "calculate_next_payment Weekly from = from + hours (7 * 24)"
| "calculate_next_payment Monthly from = from + hours (30 * 24)"

text \<open>The audit call and the notice the three requests end with: \<open>queue_webhook(db=db, ...)\<close>.\<close>

definition recurring_notice :: "string \<Rightarrow> ident \<Rightarrow> db \<Rightarrow> db logged" where
  "recurring_notice action a d =
     log_apart 1 [''agent_id'', ''details''] (brief_audit action a)
       (queue_webhook 0 [''db'', ''agent_id'', ''event_type'', ''payload''] a action d)"

definition create_subscription ::
  "moment \<Rightarrow> ident \<Rightarrow> ident \<Rightarrow> decimal \<Rightarrow> recurring_interval \<Rightarrow> int option \<Rightarrow> db \<Rightarrow> db logged"
where
  "create_subscription now from_agent to_agent amount interval max_payments d =
     (if from_agent = to_agent then ([], Inl (ValueError ''Agent cannot subscribe to yourself''))
      else if amount \<le> 0 then ([], Inl (ValueError ''Subscription amount must be positive''))
      else recurring_notice ''recurring.created'' from_agent
        (d\<lparr>recurring_payments :=
           add_row (recurring_create now from_agent to_agent amount interval max_payments
             (calculate_next_payment interval now)) (recurring_payments d)\<rparr>))"

definition cancel_subscription :: "moment \<Rightarrow> ident \<Rightarrow> ident \<Rightarrow> db \<Rightarrow> db logged" where
  "cancel_subscription now k a d =
     (case row_of (recurring_payments d) k of
        None \<Rightarrow> ([], Inl (LookupError ''Subscription not found''))
      | Some p \<Rightarrow>
          if \<not> (a = rec_from_agent_id p \<or> a = rec_to_agent_id p)
          then ([], Inl (PermissionError ''Only a participant may cancel this subscription''))
          else recurring_notice ''recurring.cancelled'' a
            (d\<lparr>recurring_payments := snd (recurring_cancel now k (recurring_payments d))\<rparr>))"

definition update_subscription ::
  "ident \<Rightarrow> ident \<Rightarrow> decimal option \<Rightarrow> recurring_interval option \<Rightarrow> db \<Rightarrow> db logged"
where
  "update_subscription k a amount interval d =
     (case row_of (recurring_payments d) k of
        None \<Rightarrow> ([], Inl (LookupError ''Subscription not found''))
      | Some p \<Rightarrow>
          if a \<noteq> rec_from_agent_id p
          then ([], Inl (PermissionError ''Only the sender may update this subscription''))
          else recurring_notice ''recurring.updated'' a
            (d\<lparr>recurring_payments := snd (recurring_update amount interval k (recurring_payments d))\<rparr>))"

text \<open>
  One iteration of \<open>execute_due_payments\<close>. A bulk update also refreshes the object that the session
  already holds, so \<open>payment.payments_made\<close>, which is read after \<open>record_payment\<close>, is the new count.
\<close>

definition execute_one :: "moment \<Rightarrow> ident \<Rightarrow> recurring_payment \<Rightarrow> db \<Rightarrow> (db \<times> bool) outcome" where
  "execute_one now k p d =
     (if \<not> rec_is_active p then Inr (d, False)
      else let amount = rec_amount p;
               (available, t) = get_available now (rec_from_agent_id p) ''XMR'' (balances d)
        in if available < amount then Inr (d\<lparr>balances := t\<rparr>, False)
        else let fee = quantize_half_even 8 (amount * RECURRING_FEE_RATE);
                 net_to_receiver = amount - fee
          in and_then (deduct now (rec_from_agent_id p) amount ''XMR'' t) (\<lambda>t1.
            let next_at = calculate_next_payment (rec_interval p) now;
                paid = snd (record_payment now next_at k (recurring_payments d));
                new_payments_made = (case row_of paid k of None \<Rightarrow> 0 | Some r \<Rightarrow> rec_payments_made r) + 1;
                reached = (case rec_max_payments p of None \<Rightarrow> False | Some m \<Rightarrow> new_payments_made \<ge> m)
            in Inr (d\<lparr>balances := credit now (rec_to_agent_id p) net_to_receiver ''XMR'' t1,
                      recurring_payments := (if reached then snd (recurring_cancel now k paid) else paid)\<rparr>,
                    True)))"

fun execute_each :: "moment \<Rightarrow> (ident \<times> recurring_payment) list \<Rightarrow> db \<Rightarrow> (db \<times> nat) outcome" where
  "execute_each now [] d = Inr (d, 0)"
| "execute_each now ((k, p) # q) d =
     and_then (execute_one now k p d) (\<lambda>(d1, executed).
     and_then (execute_each now q d1) (\<lambda>(d2, n). Inr (d2, if executed then Suc n else n)))"

definition execute_due_payments :: "moment \<Rightarrow> db \<Rightarrow> (db \<times> nat) outcome" where
  "execute_due_payments now d = execute_each now (get_due_payments now (recurring_payments d)) d"

section \<open>Runs\<close>

datatype recurring_op =
    Subscribe ident ident decimal recurring_interval "int option"
  | CancelSubscription ident ident
  | UpdateSubscription ident ident "decimal option" "recurring_interval option"
  | ChargeCycle

fun recurring_exec :: "moment \<Rightarrow> recurring_op \<Rightarrow> db \<Rightarrow> db logged" where
  "recurring_exec now (Subscribe a b x i m) d = create_subscription now a b x i m d"
| "recurring_exec now (CancelSubscription k a) d = cancel_subscription now k a d"
| "recurring_exec now (UpdateSubscription k a x i) d = update_subscription k a x i d"
| "recurring_exec now ChargeCycle d = ([], map_sum id fst (execute_due_payments now d))"

fun recurring_run :: "(moment \<times> recurring_op) list \<Rightarrow> db \<Rightarrow> db" where
  "recurring_run [] d = d"
| "recurring_run ((now, p) # ps) d = recurring_run ps (conclude d (recurring_exec now p d))"

end
