(* ===== verification/Recurring_Life.thy ===== *)
theory Recurring_Life
  imports Recurring
begin

text \<open>
  What runs of recurring payments do: no request ever takes effect, every charge loses its fee, and a
  limited schedule stops one payment short.
\<close>

section \<open>Requests\<close>

text \<open>\<open>queue_webhook\<close> has no parameter \<open>db\<close>: all three requests raise after their audit row is written.\<close>

lemma recurring_notice_raises:
  "recurring_notice action a d = ([brief_audit action a], Inl (TypeError ''queue_webhook''))"
  by (simp add: recurring_notice_def log_apart_def py_bind_def log_event_params_def queue_webhook_db_keyword)

lemma request_raises:
  "p \<noteq> ChargeCycle \<Longrightarrow> \<exists>es e. recurring_exec now p d = (es, Inl e)"
  by (cases p)
    (auto simp: create_subscription_def cancel_subscription_def update_subscription_def
      recurring_notice_raises split: option.split)

lemma request_inert:
  assumes "p \<noteq> ChargeCycle"
  shows "conclude d (recurring_exec now p d) = d\<lparr>audit_log := audit_log d @ fst (recurring_exec now p d)\<rparr>"
  using request_raises [OF assms, of now d] by (auto simp: conclude_def)

section \<open>One charge\<close>

definition recurring_fee :: "recurring_payment \<Rightarrow> decimal" where
  "recurring_fee p = quantize_half_even 8 (rec_amount p * RECURRING_FEE_RATE)"

definition charged :: "moment \<Rightarrow> recurring_payment \<Rightarrow> recurring_payment" where
  "charged now p =
     (let r = p\<lparr>rec_payments_made := rec_payments_made p + 1,
                rec_total_paid := rec_total_paid p + rec_amount p, rec_last_payment_at := Some now,
                rec_next_payment_at := calculate_next_payment (rec_interval p) now\<rparr>
      in case rec_max_payments p of
           None \<Rightarrow> r
         | Some m \<Rightarrow> if rec_payments_made p + 2 \<ge> m
             then r\<lparr>rec_is_active := False, rec_cancelled_at := Some now\<rparr> else r)"

text \<open>The atomic changes of a run: an untouched or filled-in ledger, a charge, audit rows.\<close>

inductive recurring_step :: "db \<Rightarrow> db \<Rightarrow> bool" where
  skip: "table_ok b \<Longrightarrow> (\<And>u. token_total u b = token_total u (balances d)) \<Longrightarrow>
     recurring_step d (d\<lparr>balances := b\<rparr>)"
| charge: "rec_is_active p \<Longrightarrow> row_step k p (charged now p) (recurring_payments d) t \<Longrightarrow> table_ok b \<Longrightarrow>
     (\<And>u. token_total u b = token_total u (balances d) - (if u = ''XMR'' then recurring_fee p else 0)) \<Longrightarrow>
     recurring_step d (d\<lparr>balances := b, recurring_payments := t\<rparr>)"
| audit: "recurring_step d (d\<lparr>audit_log := al\<rparr>)"

lemma charged_row:
  assumes ok: "table_ok t" and row: "row_of t k = Some p"
  shows "row_step k p (charged now p) t
     (let paid = snd (record_payment now (calculate_next_payment (rec_interval p) now) k t)
      in if (case rec_max_payments p of None \<Rightarrow> False
             | Some m \<Rightarrow> (case row_of paid k of None \<Rightarrow> 0 | Some r \<Rightarrow> rec_payments_made r) + 1 \<ge> m)
         then snd (recurring_cancel now k paid) else paid)"
proof -
  let ?paid = "snd (record_payment now (calculate_next_payment (rec_interval p) now) k t)"
  let ?r = "p\<lparr>rec_payments_made := rec_payments_made p + 1,
                rec_total_paid := rec_total_paid p + rec_amount p, rec_last_payment_at := Some now,
                rec_next_payment_at := calculate_next_payment (rec_interval p) now\<rparr>"
  let ?cancel = "\<lambda>r. r\<lparr>rec_is_active := False, rec_cancelled_at := Some now\<rparr>"
  have "?paid = modify_row k (\<lambda>r. r\<lparr>rec_payments_made := rec_payments_made r + 1,
                rec_total_paid := rec_total_paid r + rec_amount p, rec_last_payment_at := Some now,
                rec_next_payment_at := calculate_next_payment (rec_interval p) now\<rparr>) t"
    unfolding record_payment_def row option.case modify_row_is_update ..
  also have "\<dots> = modify_row k (\<lambda>_. ?r) t" by (rule modify_row_cong [OF ok row refl])
  finally have paid: "?paid = modify_row k (\<lambda>_. ?r) t" .
  have ok': "table_ok ?paid" using ok by (simp add: paid)
  have row': "row_of ?paid k = Some ?r" by (simp add: paid row_of_modify_row row)
  have "snd (recurring_cancel now k ?paid) = modify_row k ?cancel ?paid"
    unfolding recurring_cancel_def modify_row_is_update ..
  also have "\<dots> = modify_row k (\<lambda>_. ?cancel ?r) ?paid" by (rule modify_row_cong [OF ok' row' refl])
  also have "\<dots> = modify_row k (\<lambda>_. ?cancel ?r) t" unfolding paid by (rule modify_row_twice)
  finally have cancelled: "snd (recurring_cancel now k ?paid) = modify_row k (\<lambda>_. ?cancel ?r) t" .
  show ?thesis
    unfolding Let_def cancelled row' unfolding paid
    using ok row by (simp add: row_step_def charged_def Let_def add.assoc split: option.split)
qed

lemma execute_one_step:
  assumes ok: "table_ok (balances d)" "table_ok (recurring_payments d)"
    and row: "row_of (recurring_payments d) k = Some p"
  shows "\<exists>d' b. execute_one now k p d = Inr (d', b) \<and> recurring_step d d'
    \<and> (\<forall>k'. k' \<noteq> k \<longrightarrow> row_of (recurring_payments d') k' = row_of (recurring_payments d) k')"
proof -
  let ?t = "get_or_create now (rec_from_agent_id p) ''XMR'' (balances d)"
  have quiet: "recurring_step d (d\<lparr>balances := ?t\<rparr>)" "recurring_step d d"
    using recurring_step.skip [of ?t d] recurring_step.skip [of "balances d" d] ok(1)
    by (simp_all add: total_get_or_create)
  consider (off) "\<not> rec_is_active p"
    | (short) "rec_is_active p" "available_of (rec_from_agent_id p) ''XMR'' (balances d) < rec_amount p"
    | (paid) "rec_is_active p" "rec_amount p \<le> available_of (rec_from_agent_id p) ''XMR'' (balances d)"
    by linarith
  then show ?thesis
  proof cases
    case off
    then have "execute_one now k p d = Inr (d, False)" by (simp add: execute_one_def)
    then show ?thesis using quiet(2) by blast
  next
    case short
    then have "execute_one now k p d = Inr (d\<lparr>balances := ?t\<rparr>, False)"
      by (simp add: execute_one_def get_available_eq)
    then show ?thesis
      using quiet(1) by (intro exI [of _ "d\<lparr>balances := ?t\<rparr>"] exI [of _ False]) simp
  next
    case paid
    let ?net = "rec_amount p - recurring_fee p"
    let ?rows = "let paid = snd (record_payment now (calculate_next_payment (rec_interval p) now) k (recurring_payments d))
      in if (case rec_max_payments p of None \<Rightarrow> False
             | Some m \<Rightarrow> (case row_of paid k of None \<Rightarrow> 0 | Some r \<Rightarrow> rec_payments_made r) + 1 \<ge> m)
         then snd (recurring_cancel now k paid) else paid"
    obtain t1 where t1: "deduct now (rec_from_agent_id p) (rec_amount p) ''XMR'' ?t = Inr t1"
      using paid(2) by (simp add: deduct_cases available_get_or_create)
    let ?b = "credit now (rec_to_agent_id p) ?net ''XMR'' t1"
    have run: "execute_one now k p d = Inr (d\<lparr>balances := ?b, recurring_payments := ?rows\<rparr>, True)"
      using paid by (simp add: execute_one_def get_available_eq t1 recurring_fee_def Let_def)
    note step = charged_row [OF ok(2) row, of now]
    have "recurring_step d (d\<lparr>balances := ?b, recurring_payments := ?rows\<rparr>)"
    proof (rule recurring_step.charge [OF paid(1) step])
      have ok1: "table_ok t1" using deduct_Inr(4) [OF t1] ok(1) by simp
      then show "table_ok ?b" by simp
      show "token_total u ?b = token_total u (balances d) - (if u = ''XMR'' then recurring_fee p else 0)" for u
        using total_credit [OF ok1] deduct_Inr(5) [OF t1] ok(1) by (simp add: total_get_or_create)
    qed
    moreover have "row_of ?rows k' = row_of (recurring_payments d) k'" if "k' \<noteq> k" for k'
      using row_step_row_of [OF step] that by simp
    ultimately show ?thesis
      using run
      by (intro exI [of _ "d\<lparr>balances := ?b, recurring_payments := ?rows\<rparr>"] exI [of _ True]) simp
  qed
qed

lemma recurring_step_ok:
  "recurring_step d d' \<Longrightarrow> table_ok (balances d) \<and> table_ok (recurring_payments d)
     \<Longrightarrow> table_ok (balances d') \<and> table_ok (recurring_payments d')"
  by (induction rule: recurring_step.induct) (auto simp: row_step_ok)

lemma execute_each_steps:
  assumes "table_ok (balances d)" and "table_ok (recurring_payments d)" and "distinct (map fst q)"
    and "\<forall>(k, p) \<in> set q. row_of (recurring_payments d) k = Some p"
  shows "\<exists>d' n. execute_each now q d = Inr (d', n) \<and> recurring_step\<^sup>*\<^sup>* d d'"
  using assms
proof (induction q arbitrary: d)
  case Nil
  then show ?case by simp
next
  case (Cons x q)
  obtain k p where x: "x = (k, p)" by (cases x)
  obtain d1 b where one: "execute_one now k p d = Inr (d1, b)" "recurring_step d d1"
    and kept: "\<And>k'. k' \<noteq> k \<Longrightarrow> row_of (recurring_payments d1) k' = row_of (recurring_payments d) k'"
    using execute_one_step [OF Cons.prems(1,2), of k p now] Cons.prems(4) x by auto
  have "\<exists>d' n. execute_each now q d1 = Inr (d', n) \<and> recurring_step\<^sup>*\<^sup>* d1 d'"
  proof (rule Cons.IH)
    show "table_ok (balances d1)" "table_ok (recurring_payments d1)"
      using recurring_step_ok [OF one(2)] Cons.prems(1,2) by simp_all
    show "distinct (map fst q)" using Cons.prems(3) by simp
    show "\<forall>(k, p) \<in> set q. row_of (recurring_payments d1) k = Some p"
      using Cons.prems(3,4) kept by (force simp: x)
  qed
  then obtain d' n where "execute_each now q d1 = Inr (d', n)" "recurring_step\<^sup>*\<^sup>* d1 d'" by blast
  with one show ?case by (auto simp: x intro: converse_rtranclp_into_rtranclp)
qed

lemma execute_due_steps:
  assumes "table_ok (balances d)" and "table_ok (recurring_payments d)"
  shows "\<exists>d' n. execute_due_payments now d = Inr (d', n) \<and> recurring_step\<^sup>*\<^sup>* d d'"
  unfolding execute_due_payments_def
proof (rule execute_each_steps [OF assms])
  show "distinct (map fst (get_due_payments now (recurring_payments d)))"
    using assms(2) unfolding get_due_payments_def select_where_def table_ok_def keys_of_def
    by (rule distinct_map_filter)
  show "\<forall>(k, p) \<in> set (get_due_payments now (recurring_payments d)). row_of (recurring_payments d) k = Some p"
    using mem_row_of [OF assms(2)] by (auto simp: get_due_payments_def select_where_def)
qed

section \<open>Runs\<close>

lemma recurring_run_steps:
  assumes "table_ok (balances d)" and "table_ok (recurring_payments d)"
  shows "recurring_step\<^sup>*\<^sup>* d (recurring_run ps d)"
  using assms
proof (induction ps arbitrary: d)
  case Nil
  then show ?case by simp
next
  case (Cons q ps)
  obtain now p where q: "q = (now, p)" by (cases q)
  let ?d = "conclude d (recurring_exec now p d)"
  have steps: "recurring_step\<^sup>*\<^sup>* d ?d"
  proof (cases "p = ChargeCycle")
    case True
    obtain d' n where run: "execute_due_payments now d = Inr (d', n)" "recurring_step\<^sup>*\<^sup>* d d'"
      using execute_due_steps [OF Cons.prems] by blast
    then show ?thesis by (simp add: True conclude_def)
  next
    case False
    then show ?thesis by (simp add: request_inert r_into_rtranclp recurring_step.audit)
  qed
  moreover have "table_ok (balances ?d) \<and> table_ok (recurring_payments ?d)"
    using steps by (induction rule: rtranclp_induct) (use Cons.prems recurring_step_ok in blast)+
  ultimately show ?case using Cons.IH [of ?d] rtranclp_trans [of recurring_step d ?d] by (auto simp: q)
qed

text \<open>The fees that the charges of the recorded schedules have taken.\<close>

definition fees_taken :: "db \<Rightarrow> decimal" where
  "fees_taken d = table_sum (\<lambda>_ p. of_int (rec_payments_made p) * recurring_fee p) (recurring_payments d)"

lemma charged_fields [simp]:
  "rec_amount (charged now p) = rec_amount p" "rec_payments_made (charged now p) = rec_payments_made p + 1"
  "rec_total_paid (charged now p) = rec_total_paid p + rec_amount p"
  "rec_max_payments (charged now p) = rec_max_payments p" "recurring_fee (charged now p) = recurring_fee p"
  by (auto simp: charged_def recurring_fee_def Let_def split: option.split)

lemma step_books:
  assumes "recurring_step d d'"
  shows "fee_collections d' = fee_collections d"
    and "token_total u (balances d') + (if u = ''XMR'' then fees_taken d' else 0)
       = token_total u (balances d) + (if u = ''XMR'' then fees_taken d else 0)"
  using assms
proof (induction rule: recurring_step.induct)
  case (charge p k now d t b)
  {
    case 1
    then show ?case by simp
  next
    case 2
    have "fees_taken (d\<lparr>balances := b, recurring_payments := t\<rparr>) = fees_taken d + recurring_fee p"
      using row_step_sum [OF charge(2), of "\<lambda>_ p. of_int (rec_payments_made p) * recurring_fee p"]
      by (simp add: fees_taken_def ring_distribs)
    then show ?case using charge(4) by simp
  }
qed (simp_all add: fees_taken_def)

definition schedule_ok :: "recurring_payment \<Rightarrow> bool" where
  "schedule_ok p \<longleftrightarrow> 0 \<le> rec_payments_made p
     \<and> rec_total_paid p = of_int (rec_payments_made p) * rec_amount p
     \<and> (case rec_max_payments p of
          None \<Rightarrow> rec_is_active p
        | Some m \<Rightarrow> rec_payments_made p \<le> max 1 (m - 1)
            \<and> (rec_is_active p \<longleftrightarrow> rec_payments_made p < max 1 (m - 1)))"

lemma charged_schedule:
  assumes "schedule_ok p" and "rec_is_active p"
  shows "schedule_ok (charged now p)"
proof (cases "rec_max_payments p")
  case None
  then show ?thesis using assms by (simp add: schedule_ok_def charged_def ring_distribs)
next
  case (Some m)
  have "rec_is_active (charged now p) \<longleftrightarrow> rec_payments_made p + 2 < m"
    using assms(2) by (simp add: charged_def Some Let_def)
  then show ?thesis using assms by (auto simp: schedule_ok_def Some ring_distribs)
qed

definition schedules_ok :: "db \<Rightarrow> bool" where
  "schedules_ok d \<longleftrightarrow> table_ok (balances d) \<and> table_ok (recurring_payments d)
     \<and> (\<forall>k p. row_of (recurring_payments d) k = Some p \<longrightarrow> schedule_ok p)"

lemma step_schedules: "recurring_step d d' \<Longrightarrow> schedules_ok d \<Longrightarrow> schedules_ok d'"
proof (induction rule: recurring_step.induct)
  case (charge p k now d t b)
  then have "schedule_ok (charged now p)"
    using charged_schedule by (auto simp: schedules_ok_def row_step_def)
  then show ?case
    using charge row_step_row_of [OF charge(2)] row_step_ok [OF charge(2)]
    by (auto simp: schedules_ok_def split: if_splits)
qed (simp_all add: schedules_ok_def)

lemma recurring_run_invariant:
  assumes "schedules_ok d"
  shows "schedules_ok (recurring_run ps d)"
    and "fee_collections (recurring_run ps d) = fee_collections d"
    and "token_total u (balances (recurring_run ps d)) + (if u = ''XMR'' then fees_taken (recurring_run ps d) else 0)
       = token_total u (balances d) + (if u = ''XMR'' then fees_taken d else 0)"
proof -
  have "recurring_step\<^sup>*\<^sup>* d (recurring_run ps d)"
    using recurring_run_steps assms by (simp add: schedules_ok_def)
  then have "schedules_ok (recurring_run ps d) \<and> fee_collections (recurring_run ps d) = fee_collections d
      \<and> token_total u (balances (recurring_run ps d)) + (if u = ''XMR'' then fees_taken (recurring_run ps d) else 0)
        = token_total u (balances d) + (if u = ''XMR'' then fees_taken d else 0)"
  proof (induction rule: rtranclp_induct)
    case base
    then show ?case using assms by simp
  next
    case (step x y)
    then show ?case using step_schedules [OF step(2)] step_books [OF step(2)] by metis
  qed
  then show "schedules_ok (recurring_run ps d)"
    and "fee_collections (recurring_run ps d) = fee_collections d"
    and "token_total u (balances (recurring_run ps d)) + (if u = ''XMR'' then fees_taken (recurring_run ps d) else 0)
       = token_total u (balances d) + (if u = ''XMR'' then fees_taken d else 0)"
    by blast+
qed

section \<open>Properties\<close>

text \<open>The subscription requests that pass their validation.\<close>

fun valid_request :: "recurring_op \<Rightarrow> bool" where
  "valid_request (Subscribe a b x i m) = (a \<noteq> b \<and> 0 < x)"
| "valid_request p = False"

text \<open>No subscription can ever be made: from a database without schedules, any run of requests and
  charging cycles changes nothing but the audit trail, since every request ends in a call of
  \<open>queue_webhook\<close> with a parameter it does not have; yet each valid subscription request leaves a
  committed \<open>recurring.created\<close> entry behind.\<close>

lemma recurring_requests_inert:
  assumes "recurring_payments d = []"
  shows "\<exists>es. recurring_run ps d = d\<lparr>audit_log := audit_log d @ es\<rparr>
    \<and> length es = length (filter (\<lambda>q. valid_request (snd q)) ps)
    \<and> list_all (\<lambda>e. au_action e = ''recurring.created'') es"
  using assms
proof (induction ps arbitrary: d)
  case Nil
  then show ?case by simp
next
  case (Cons q ps)
  obtain now p where q: "q = (now, p)" by (cases q)
  have "\<exists>es. conclude d (recurring_exec now p d) = d\<lparr>audit_log := audit_log d @ es\<rparr>
      \<and> length es = (if valid_request p then 1 else 0) \<and> list_all (\<lambda>e. au_action e = ''recurring.created'') es"
  proof (cases p)
    case (Subscribe a b x i m)
    then show ?thesis
      by (auto simp: create_subscription_def recurring_notice_raises conclude_def brief_audit_def)
  qed (simp_all add: cancel_subscription_def update_subscription_def execute_due_payments_def
      get_due_payments_def select_where_def conclude_def Cons.prems)
  then obtain es where es: "conclude d (recurring_exec now p d) = d\<lparr>audit_log := audit_log d @ es\<rparr>"
    "length es = (if valid_request p then 1 else 0)" "list_all (\<lambda>e. au_action e = ''recurring.created'') es"
    by blast
  obtain es' where "recurring_run ps (d\<lparr>audit_log := audit_log d @ es\<rparr>) = d\<lparr>audit_log := audit_log d @ es @ es'\<rparr>"
    "length es' = length (filter (\<lambda>q. valid_request (snd q)) ps)"
    "list_all (\<lambda>e. au_action e = ''recurring.created'') es'"
    using Cons.IH [of "d\<lparr>audit_log := audit_log d @ es\<rparr>"] Cons.prems by auto
  with es show ?case by (intro exI [of _ "es @ es'"]) (simp add: q)
qed

definition demo_payer :: db where
  "demo_payer = empty_db\<lparr>balances := credit 0 1 50 ''XMR'' []\<rparr>"

lemma recurring_requests_inert_witness:
  "\<exists>es. recurring_run [(0, Subscribe 1 2 10 Daily None), (5, CancelSubscription 1 1), (hours 30, ChargeCycle)] demo_payer
       = demo_payer\<lparr>audit_log := audit_log demo_payer @ es\<rparr> \<and> length es = 1"
proof -
  have "recurring_payments demo_payer = []" by (simp add: demo_payer_def empty_db_def)
  from recurring_requests_inert [OF this,
      of "[(0, Subscribe 1 2 10 Daily None), (5, CancelSubscription 1 1), (hours 30, ChargeCycle)]"]
  show ?thesis by auto
qed

text \<open>C18. Where schedules exist, a limited one stops one payment short: over any run of requests and
  charging cycles, a schedule for \<open>m \<ge> 2\<close> payments has made at most \<open>m - 1\<close> of them and is switched off
  exactly when it has made \<open>m - 1\<close>; what it has paid in total is its amount times the payments made.\<close>

theorem recurring_stops_one_short:
  assumes "schedules_ok d" and "row_of (recurring_payments (recurring_run ps d)) k = Some p"
    and "rec_max_payments p = Some m" and "2 \<le> m"
  shows "rec_payments_made p \<le> m - 1 \<and> (rec_is_active p \<longleftrightarrow> rec_payments_made p < m - 1)
    \<and> rec_total_paid p = of_int (rec_payments_made p) * rec_amount p"
proof -
  have "schedule_ok p"
    using recurring_run_invariant(1) [OF assms(1), of ps] assms(2) by (simp add: schedules_ok_def)
  then show ?thesis using assms(3,4) by (simp add: schedule_ok_def)
qed

definition demo_schedule :: db where
  "demo_schedule = demo_payer\<lparr>recurring_payments := [(1, recurring_create 0 1 2 10 Daily (Some 3) (hours 24))]\<rparr>"

definition demo_cycles :: "(moment \<times> recurring_op) list" where
  "demo_cycles = map (\<lambda>n. (hours (25 * n), ChargeCycle)) [1, 2, 3, 4, 5]"

lemma demo_schedule_ok: "schedules_ok demo_schedule"
proof -
  have "table_ok (balances demo_schedule)" by (simp add: demo_schedule_def demo_payer_def)
  then show ?thesis
    by (auto simp: schedules_ok_def demo_schedule_def demo_payer_def empty_db_def recurring_create_def
        schedule_ok_def split: if_splits) (simp add: table_ok_def keys_of_def)
qed

text \<open>Five daily cycles over a schedule of three payments of 10: two are made, 0.2 is gone.\<close>

lemma demo_schedule_result:
  "map (\<lambda>(k, p). (k, rec_payments_made p, rec_is_active p, rec_total_paid p, rec_max_payments p, rec_amount p))
     (recurring_payments (recurring_run demo_cycles demo_schedule)) = [(1, 2, False, 20, Some 3, 10)]
   \<and> token_total ''XMR'' (balances (recurring_run demo_cycles demo_schedule)) = 50 - 2 / 10"
  by code_simp

theorem recurring_stops_one_short_witness:
  "\<exists>p. row_of (recurring_payments (recurring_run demo_cycles demo_schedule)) 1 = Some p
     \<and> rec_max_payments p = Some 3 \<and> rec_payments_made p \<le> 3 - 1 \<and> \<not> rec_is_active p
     \<and> rec_total_paid p = 20"
proof -
  have "case row_of (recurring_payments (recurring_run demo_cycles demo_schedule)) 1 of None \<Rightarrow> False
    | Some p \<Rightarrow> rec_max_payments p = Some 3 \<and> rec_payments_made p = 2 \<and> rec_amount p = 10" by code_simp
  then obtain p where p: "row_of (recurring_payments (recurring_run demo_cycles demo_schedule)) 1 = Some p"
    "rec_max_payments p = Some 3" "rec_payments_made p = 2" "rec_amount p = 10" by (auto split: option.splits)
  from recurring_stops_one_short [OF demo_schedule_ok p(1,2)] p show ?thesis by auto
qed

text \<open>The fee of a charge goes nowhere: over any run, the agents' XMR plus one per cent (rounded
  to eight places) of every payment ever made is constant, other tokens never change, and no fee
  collection is recorded.\<close>

lemma recurring_fee_vanishes:
  assumes "schedules_ok d"
  shows "token_total ''XMR'' (balances (recurring_run ps d)) + fees_taken (recurring_run ps d)
      = token_total ''XMR'' (balances d) + fees_taken d
    \<and> (\<forall>u. u \<noteq> ''XMR'' \<longrightarrow> token_total u (balances (recurring_run ps d)) = token_total u (balances d))
    \<and> fee_collections (recurring_run ps d) = fee_collections d"
proof -
  have "token_total u (balances (recurring_run ps d)) = token_total u (balances d)" if "u \<noteq> ''XMR''" for u
    using recurring_run_invariant(3) [OF assms, of u ps] that by simp
  then show ?thesis
    using recurring_run_invariant(2) [OF assms, of ps] recurring_run_invariant(3) [OF assms, of "''XMR''" ps]
    by simp
qed

lemma recurring_fee_vanishes_witness:
  "token_total ''XMR'' (balances (recurring_run demo_cycles demo_schedule)) = 50 - 2 / 10
   \<and> fees_taken (recurring_run demo_cycles demo_schedule) = 2 / 10
   \<and> fee_collections (recurring_run demo_cycles demo_schedule) = []"
proof -
  have "token_total ''XMR'' (balances demo_schedule) = 50" "fees_taken demo_schedule = 0"
    "fee_collections demo_schedule = []" by code_simp+
  with recurring_fee_vanishes [OF demo_schedule_ok, of demo_cycles] demo_schedule_result show ?thesis
    by simp
qed

end
