(* ===== verification/Lending.thy ===== *)
theory Lending
  imports Balances Apart_Log Durations Escrow_Repo
begin

text \<open>
  Credit scores, lending offers and loans: \<open>sthrip/db/credit_repo.py\<close>, \<open>sthrip/db/loan_repo.py\<close> and
  \<open>sthrip/services/credit_service.py\<close>. A borrower asks for a loan; the cheapest matching offer names
  the lender and the collateral is deducted; the lender funds, the borrower repays, and a detector
  hands the collateral of overdue loans to the lender.

  Two factors of the score are computed in floats and cut to an integer: half the days plus a tenth of
  the transactions, and twenty times the XMR balance. Both cuts are exact: whole results are
  computed without error (a tenth and a twentieth times a whole number round back), and any other
  value keeps its distance from the next integer. The filters by state text are not modelled.
\<close>

type_synonym loan_table = "(ident, agent_loan) table"
type_synonym offer_table = "(ident, lending_offer) table"
type_synonym score_table = "(ident, agent_credit_score) table"

section \<open>The credit repository\<close>

definition new_score :: "moment \<Rightarrow> agent_credit_score" where
  "new_score now = \<lparr>crs_credit_score = 0, crs_total_loans_taken = 0, crs_total_loans_repaid = 0,
     crs_total_loans_defaulted = 0, crs_total_borrowed_volume = 0, crs_avg_repayment_time_secs = None,
     crs_longest_default_secs = None, crs_max_borrow_amount = 0, crs_max_concurrent_loans = 0,
     crs_calculated_at = now\<rparr>"

definition score_get_or_create :: "moment \<Rightarrow> ident \<Rightarrow> score_table \<Rightarrow> agent_credit_score \<times> score_table" where
  "score_get_or_create now a t =
     (case row_of t a of
        Some r \<Rightarrow> (r, t)
      | None \<Rightarrow> (new_score now, insert_row a (new_score now) t))"

definition update_score :: "moment \<Rightarrow> ident \<Rightarrow> int \<Rightarrow> decimal \<Rightarrow> int \<Rightarrow> score_table \<Rightarrow> score_table" where
  "update_score now a score max_borrow max_concurrent =
     modify_row a (\<lambda>r. r\<lparr>crs_credit_score := score, crs_max_borrow_amount := max_borrow,
       crs_max_concurrent_loans := max_concurrent, crs_calculated_at := now\<rparr>)"

definition record_loan_taken :: "moment \<Rightarrow> ident \<Rightarrow> decimal \<Rightarrow> score_table \<Rightarrow> score_table" where
  "record_loan_taken now a loaned t =
     modify_row a (\<lambda>r. r\<lparr>crs_total_loans_taken := crs_total_loans_taken r + 1,
       crs_total_borrowed_volume := crs_total_borrowed_volume r + loaned\<rparr>)
       (snd (score_get_or_create now a t))"

definition record_loan_repaid :: "moment \<Rightarrow> ident \<Rightarrow> int \<Rightarrow> score_table \<Rightarrow> score_table" where
  "record_loan_repaid now a secs t =
     modify_row a (\<lambda>r.
       let repaid = crs_total_loans_repaid r + 1;
           prev_avg = (case crs_avg_repayment_time_secs r of None \<Rightarrow> 0 | Some x \<Rightarrow> x);
           prev_count = repaid - 1
       in r\<lparr>crs_total_loans_repaid := repaid,
            crs_avg_repayment_time_secs := Some (if prev_count \<le> 0 then secs
              else py_trunc (of_int (prev_avg * prev_count + secs) / of_int repaid))\<rparr>)
       (snd (score_get_or_create now a t))"

definition record_loan_defaulted :: "moment \<Rightarrow> ident \<Rightarrow> int \<Rightarrow> score_table \<Rightarrow> score_table" where
  "record_loan_defaulted now a secs t =
     modify_row a (\<lambda>r.
       let worst = (case crs_longest_default_secs r of None \<Rightarrow> 0 | Some x \<Rightarrow> x)
       in r\<lparr>crs_total_loans_defaulted := crs_total_loans_defaulted r + 1,
            crs_longest_default_secs := (if secs > worst then Some secs else crs_longest_default_secs r)\<rparr>)
       (snd (score_get_or_create now a t))"

section \<open>The loan repository\<close>

definition loan_create ::
  "moment \<Rightarrow> ident \<Rightarrow> ident \<Rightarrow> decimal \<Rightarrow> int \<Rightarrow> int \<Rightarrow> decimal \<Rightarrow> token \<Rightarrow> decimal \<Rightarrow> token option \<Rightarrow> agent_loan"
where
  "loan_create now lender borrower loaned bps duration_secs repayment currency collateral collateral_currency =
     \<lparr>ln_lender_id = lender, ln_borrower_id = borrower, ln_principal = loaned, ln_currency = currency,
      ln_interest_rate_bps = bps, ln_duration_secs = duration_secs, ln_collateral_amount = collateral,
      ln_collateral_currency = collateral_currency, ln_repayment_amount = repayment,
      ln_repaid_amount = 0, ln_state = LoanRequested, ln_expires_at = now + seconds duration_secs,
      ln_grace_period_secs = 300, ln_requested_at = now, ln_funded_at = None, ln_repaid_at = None,
      ln_defaulted_at = None, ln_platform_fee = 0\<rparr>"

definition loan_fund :: "moment \<Rightarrow> ident \<Rightarrow> loan_table \<Rightarrow> nat \<times> loan_table" where
  "loan_fund now = update_row (\<lambda>l. ln_state l = LoanRequested)
     (\<lambda>l. l\<lparr>ln_state := LoanActive, ln_funded_at := Some now\<rparr>)"

definition loan_repay :: "moment \<Rightarrow> decimal \<Rightarrow> ident \<Rightarrow> loan_table \<Rightarrow> nat \<times> loan_table" where
  "loan_repay now amount = update_row (\<lambda>l. ln_state l = LoanActive)
     (\<lambda>l. l\<lparr>ln_state := LoanRepaid, ln_repaid_amount := amount, ln_repaid_at := Some now\<rparr>)"

definition loan_default :: "moment \<Rightarrow> ident \<Rightarrow> loan_table \<Rightarrow> nat \<times> loan_table" where
  "loan_default now = update_row (\<lambda>l. ln_state l = LoanActive)
     (\<lambda>l. l\<lparr>ln_state := LoanDefaulted, ln_defaulted_at := Some now\<rparr>)"

definition loan_liquidate :: "ident \<Rightarrow> loan_table \<Rightarrow> nat \<times> loan_table" where
  "loan_liquidate = update_row (\<lambda>l. ln_state l = LoanDefaulted) (\<lambda>l. l\<lparr>ln_state := LoanLiquidated\<rparr>)"

definition loan_cancel :: "ident \<Rightarrow> loan_table \<Rightarrow> nat \<times> loan_table" where
  "loan_cancel = update_row (\<lambda>l. ln_state l = LoanRequested) (\<lambda>l. l\<lparr>ln_state := LoanCancelled\<rparr>)"

datatype loan_role = AsLender | AsBorrower | AsParty

definition loan_list_by_agent ::
  "ident \<Rightarrow> loan_role \<Rightarrow> nat \<Rightarrow> nat \<Rightarrow> loan_table \<Rightarrow> (ident \<times> agent_loan) list \<times> nat"
where
  "loan_list_by_agent a role limit offset t =
     (let q = select_where (\<lambda>l. case role of
                 AsLender \<Rightarrow> ln_lender_id l = a
               | AsBorrower \<Rightarrow> ln_borrower_id l = a
               | AsParty \<Rightarrow> ln_lender_id l = a \<or> ln_borrower_id l = a) t
      in (take (min limit MAX_QUERY_LIMIT) (drop offset (sort_key (\<lambda>(k, l). - ln_requested_at l) q)), length q))"

definition loan_overdue :: "moment \<Rightarrow> agent_loan \<Rightarrow> bool" where
  "loan_overdue now l \<longleftrightarrow> ln_state l = LoanActive \<and> ln_expires_at l \<le> now"

definition get_overdue_active_loans :: "moment \<Rightarrow> loan_table \<Rightarrow> (ident \<times> agent_loan) list" where
  "get_overdue_active_loans now = select_where (loan_overdue now)"

definition offer_create ::
  "ident \<Rightarrow> decimal \<Rightarrow> int \<Rightarrow> int \<Rightarrow> moment \<Rightarrow> token \<Rightarrow> int \<Rightarrow> bool \<Rightarrow> int \<Rightarrow> lending_offer"
where
  "offer_create lender max_amount bps max_duration expires_at currency min_score require_collateral ratio =
     \<lparr>lo_lender_id = lender, lo_max_amount = max_amount, lo_currency = currency,
      lo_interest_rate_bps = bps, lo_max_duration_secs = max_duration,
      lo_min_borrower_credit_score = min_score, lo_require_collateral = require_collateral,
      lo_collateral_ratio_pct = ratio, lo_is_active = True, lo_remaining_amount = max_amount,
      lo_expires_at = expires_at\<rparr>"

definition deactivate_offer :: "ident \<Rightarrow> ident \<Rightarrow> offer_table \<Rightarrow> nat \<times> offer_table" where
  "deactivate_offer lender = update_row (\<lambda>f. lo_lender_id f = lender \<and> lo_is_active f)
     (\<lambda>f. f\<lparr>lo_is_active := False\<rparr>)"

definition list_active_offers ::
  "moment \<Rightarrow> token \<Rightarrow> decimal option \<Rightarrow> int option \<Rightarrow> nat \<Rightarrow> offer_table \<Rightarrow> (ident \<times> lending_offer) list"
where
  "list_active_offers now currency min_amount max_duration limit t =
     take (min limit MAX_QUERY_LIMIT) (sort_key (\<lambda>(k, f). lo_interest_rate_bps f)
       (select_where (\<lambda>f. lo_is_active f \<and> lo_currency f = currency \<and> lo_expires_at f > now
          \<and> (case min_amount of None \<Rightarrow> True | Some x \<Rightarrow> lo_remaining_amount f \<ge> x)
          \<and> (case max_duration of None \<Rightarrow> True | Some x \<Rightarrow> lo_max_duration_secs f \<ge> x)) t))"

section \<open>Credit scoring\<close>

definition STALENESS_SECONDS :: int where
  "STALENESS_SECONDS = 300"

definition PLATFORM_FEE_RATE :: decimal where
  "PLATFORM_FEE_RATE = 1 / 100"

definition OFFER_EXPIRY_DAYS :: int where
  "OFFER_EXPIRY_DAYS = 30"

definition max_borrow_amount :: "int \<Rightarrow> decimal \<Rightarrow> decimal" where
  "max_borrow_amount score collateral = of_int score / 200 + collateral * (8 / 10)"

text \<open>\<open>timedelta.days\<close>: the whole days of a span, rounded down.\<close>

definition whole_days :: "int \<Rightarrow> int" where
  "whole_days us = us div hours 24"

definition reputation_factor :: "agent_reputation option \<Rightarrow> int" where
  "reputation_factor rep = min 300 ((case rep of None \<Rightarrow> 0 | Some r \<Rightarrow> rep_trust_score r) * 3)"

definition loan_factor :: "agent_credit_score \<Rightarrow> int" where
  "loan_factor r = max 0 (min 300 (crs_total_loans_repaid r * 50 - crs_total_loans_defaulted r * 100))"

definition activity_factor :: "moment \<Rightarrow> agent \<Rightarrow> agent_reputation option \<Rightarrow> int" where
  "activity_factor now g rep =
     (let days_old = whole_days (now - ag_created_at g);
          total_tx = (case rep of None \<Rightarrow> 0 | Some r \<Rightarrow> rep_total_transactions r)
      in min 200 (py_trunc (of_int days_old * (1 / 2) + of_int total_tx * (1 / 10))))"

definition balance_factor :: "decimal \<Rightarrow> int" where
  "balance_factor balance_xmr = min 200 (py_trunc (balance_xmr * 20))"

definition calculate_credit_score :: "moment \<Rightarrow> ident \<Rightarrow> db \<Rightarrow> (db \<times> int) logged" where
  "calculate_credit_score now a d =
     (case row_of (agents d) a of
        None \<Rightarrow> ([], Inl (LookupError ''Agent not found''))
      | Some g \<Rightarrow>
          let rep = row_of (reputations d) a;
              (record, t) = score_get_or_create now a (agent_credit_scores d);
              (balance_xmr, bt) = get_available now a ''XMR'' (balances d);
              sum = min 1000 (reputation_factor rep + loan_factor record + activity_factor now g rep
                      + balance_factor balance_xmr);
              d1 = d\<lparr>balances := bt, agent_credit_scores :=
                     update_score now a sum (max_borrow_amount sum 0) (max 1 (sum div 200)) t\<rparr>
          in log_apart 1 [''agent_id'', ''details''] (brief_audit ''credit.score_calculated'' a)
               (Inr (d1, sum)))"

text \<open>\<open>get_credit_score\<close>: the cached score, or a new one after five minutes.\<close>

definition get_credit_score :: "moment \<Rightarrow> ident \<Rightarrow> db \<Rightarrow> (db \<times> int) logged" where
  "get_credit_score now a d =
     (let fresh = (case row_of (agent_credit_scores d) a of
             None \<Rightarrow> False
           | Some r \<Rightarrow> total_seconds (now - crs_calculated_at r) < of_int STALENESS_SECONDS);
          cached = (\<lambda>d. case row_of (agent_credit_scores d) a of None \<Rightarrow> 0 | Some r \<Rightarrow> crs_credit_score r)
      in if fresh then ([], Inr (d, cached d))
         else then_logged (calculate_credit_score now a d) (\<lambda>(d1, _). ([], Inr (d1, cached d1))))"

section \<open>Offers\<close>

definition create_offer ::
  "moment \<Rightarrow> ident \<Rightarrow> decimal \<Rightarrow> token \<Rightarrow> int \<Rightarrow> int \<Rightarrow> int \<Rightarrow> bool \<Rightarrow> int \<Rightarrow> db \<Rightarrow> (db \<times> ident) logged"
where
  "create_offer now lender max_amount currency bps max_duration min_score require_collateral ratio d =
     (let (available, bt) = get_available now lender currency (balances d)
      in if available < max_amount then ([], Inl (ValueError ''Insufficient balance''))
         else let d1 = d\<lparr>balances := bt, lending_offers :=
                    add_row (offer_create lender max_amount bps max_duration
                      (now + OFFER_EXPIRY_DAYS * hours 24) currency min_score require_collateral ratio)
                    (lending_offers d)\<rparr>
              in log_apart 1 [''agent_id'', ''details''] (brief_audit ''lending.offer_created'' lender)
                   (Inr (d1, new_id (lending_offers d))))"

definition withdraw_offer :: "ident \<Rightarrow> ident \<Rightarrow> db \<Rightarrow> db logged" where
  "withdraw_offer lender k d =
     (let (rows, t) = deactivate_offer lender k (lending_offers d)
      in if rows = 0 then ([], Inl (LookupError ''Offer not found or not owned by lender''))
         else log_apart 1 [''agent_id'', ''details''] (brief_audit ''lending.offer_withdrawn'' lender)
                (Inr (d\<lparr>lending_offers := t\<rparr>)))"

section \<open>Loans\<close>

definition offer_matches :: "int \<Rightarrow> ident \<Rightarrow> decimal \<Rightarrow> lending_offer \<Rightarrow> bool" where
  "offer_matches score borrower collateral f \<longleftrightarrow> lo_min_borrower_credit_score f \<le> score
     \<and> lo_lender_id f \<noteq> borrower \<and> (\<not> lo_require_collateral f \<or> collateral > 0)"

definition request_loan ::
  "moment \<Rightarrow> ident \<Rightarrow> decimal \<Rightarrow> token \<Rightarrow> int \<Rightarrow> decimal \<Rightarrow> db \<Rightarrow> (db \<times> ident) logged"
where
  "request_loan now borrower amount currency duration_secs collateral d =
     then_logged (calculate_credit_score now borrower d) (\<lambda>(d1, score).
       case filter (\<lambda>(k, f). offer_matches score borrower collateral f)
              (list_active_offers now currency (Some amount) (Some duration_secs) 50 (lending_offers d1)) of
         [] \<Rightarrow> ([], Inl (ValueError ''No matching offer found for this loan request''))
       | (k, best) # _ \<Rightarrow>
           then_logged (unlogged (if collateral > 0
               then deduct now borrower collateral currency (balances d1) else Inr (balances d1))) (\<lambda>bt.
             let rate = of_int (lo_interest_rate_bps best) / 10000;
                 repayment = amount * (1 + rate);
                 loan = loan_create now (lo_lender_id best) borrower amount (lo_interest_rate_bps best)
                   duration_secs repayment currency collateral (if collateral > 0 then Some currency else None);
                 d2 = d1\<lparr>balances := bt, agent_loans := add_row loan (agent_loans d1)\<rparr>
             in log_apart 1 [''agent_id'', ''details''] (brief_audit ''lending.loan_requested'' borrower)
                  (Inr (d2, new_id (agent_loans d1)))))"

text \<open>\<open>loan.collateral_currency or loan.currency\<close>\<close>

definition collateral_token :: "agent_loan \<Rightarrow> token" where
  "collateral_token l = (case ln_collateral_currency l of
      None \<Rightarrow> ln_currency l | Some u \<Rightarrow> if u = '''' then ln_currency l else u)"

text \<open>What funding writes, up to the audit call; the handler then notifies with four arguments.\<close>

definition fund_loan_writes :: "moment \<Rightarrow> ident \<Rightarrow> ident \<Rightarrow> db \<Rightarrow> db outcome" where
  "fund_loan_writes now lender k d =
     (case row_of (agent_loans d) k of
        None \<Rightarrow> Inl (LookupError ''Loan not found'')
      | Some l \<Rightarrow>
          if ln_state l \<noteq> LoanRequested then Inl (ValueError ''Loan is not in REQUESTED state'')
          else if ln_lender_id l \<noteq> lender
          then Inl (PermissionError ''Only the matched lender can fund this loan'')
          else and_then (deduct now lender (ln_principal l) (ln_currency l) (balances d)) (\<lambda>t1.
            let t2 = credit now (ln_borrower_id l) (ln_principal l) (ln_currency l) t1;
                (rows, lt) = loan_fund now k (agent_loans d)
            in if rows = 0 then Inl (RuntimeError ''Failed to transition loan to ACTIVE'')
               else Inr (d\<lparr>balances := t2, agent_loans := lt, agent_credit_scores :=
                      record_loan_taken now (ln_borrower_id l) (ln_principal l) (agent_credit_scores d)\<rparr>)))"

definition fund_loan :: "moment \<Rightarrow> ident \<Rightarrow> ident \<Rightarrow> db \<Rightarrow> db logged" where
  "fund_loan now lender k d =
     then_logged (unlogged (fund_loan_writes now lender k d)) (\<lambda>d1.
       log_apart 1 [''agent_id'', ''details''] (brief_audit ''lending.loan_funded'' lender)
         (queue_webhook 4 [] (case row_of (agent_loans d1) k of None \<Rightarrow> 0 | Some l \<Rightarrow> ln_borrower_id l)
            ''loan.funded'' d1))"

definition repay_loan_writes :: "moment \<Rightarrow> ident \<Rightarrow> ident \<Rightarrow> db \<Rightarrow> db logged" where
  "repay_loan_writes now borrower k d =
     (case row_of (agent_loans d) k of
        None \<Rightarrow> ([], Inl (LookupError ''Loan not found''))
      | Some l \<Rightarrow>
          if ln_state l \<noteq> LoanActive then ([], Inl (ValueError ''Loan is not ACTIVE''))
          else if ln_borrower_id l \<noteq> borrower
          then ([], Inl (PermissionError ''Only the borrower can repay this loan''))
          else
            let repayment = ln_repayment_amount l;
                interest = repayment - ln_principal l;
                platform_fee = interest * PLATFORM_FEE_RATE;
                lender_payout = repayment - platform_fee;
                collateral = ln_collateral_amount l
            in then_logged (unlogged (deduct now borrower repayment (ln_currency l) (balances d))) (\<lambda>t1.
              let t2 = credit now (ln_lender_id l) lender_payout (ln_currency l) t1;
                  t3 = (if collateral > 0
                        then credit now borrower collateral (collateral_token l) t2
                        else t2);
                  lt1 = modify_row k (\<lambda>l. l\<lparr>ln_platform_fee := platform_fee\<rparr>) (agent_loans d);
                  (rows, lt2) = loan_repay now repayment k lt1;
                  repay_time = (case ln_funded_at l of None \<Rightarrow> 0 | Some m \<Rightarrow> whole_seconds (now - m));
                  d1 = d\<lparr>balances := t3, agent_loans := lt2, agent_credit_scores :=
                         record_loan_repaid now borrower repay_time (agent_credit_scores d)\<rparr>
              in if rows = 0 then ([], Inl (RuntimeError ''Failed to transition loan to REPAID''))
                 else then_logged (calculate_credit_score now borrower d1) (\<lambda>(d2, _). ([], Inr d2))))"

definition repay_loan :: "moment \<Rightarrow> ident \<Rightarrow> ident \<Rightarrow> db \<Rightarrow> db logged" where
  "repay_loan now borrower k d =
     then_logged (repay_loan_writes now borrower k d) (\<lambda>d1.
       log_apart 1 [''agent_id'', ''details''] (brief_audit ''lending.loan_repaid'' borrower)
         (queue_webhook 4 [] (case row_of (agent_loans d1) k of None \<Rightarrow> 0 | Some l \<Rightarrow> ln_lender_id l)
            ''loan.repaid'' d1))"

text \<open>\<open>detect_defaults\<close>: the overdue loans are read once, then handled one after the other.\<close>

definition default_one :: "moment \<Rightarrow> ident \<Rightarrow> agent_loan \<Rightarrow> db \<Rightarrow> (db \<times> bool) logged" where
  "default_one now k l d =
     (let (rows, lt) = loan_default now k (agent_loans d)
      in if rows = 0 then ([], Inr (d, False))
         else let bt = (if ln_collateral_amount l > 0
                  then credit now (ln_lender_id l) (ln_collateral_amount l) (collateral_token l) (balances d)
                  else balances d);
                  default_dur = (case ln_funded_at l of None \<Rightarrow> 0 | Some m \<Rightarrow> whole_seconds (now - m))
              in log_apart 1 [''agent_id'', ''details''] (brief_audit ''lending.loan_defaulted'' (ln_borrower_id l))
                   (Inr (d\<lparr>balances := bt, agent_loans := lt, agent_credit_scores :=
                       record_loan_defaulted now (ln_borrower_id l) default_dur (agent_credit_scores d)\<rparr>, True)))"

fun default_each :: "moment \<Rightarrow> (ident \<times> agent_loan) list \<Rightarrow> db \<Rightarrow> (db \<times> nat) logged" where
  "default_each now [] d = ([], Inr (d, 0))"
| "default_each now ((k, l) # q) d =
     then_logged (default_one now k l d) (\<lambda>(d1, hit).
     then_logged (default_each now q d1) (\<lambda>(d2, n). ([], Inr (d2, if hit then Suc n else n))))"

definition detect_defaults :: "moment \<Rightarrow> db \<Rightarrow> (db \<times> nat) logged" where
  "detect_defaults now d = default_each now (get_overdue_active_loans now (agent_loans d)) d"

section \<open>Queries\<close>

definition get_loan :: "ident \<Rightarrow> ident \<Rightarrow> db \<Rightarrow> agent_loan outcome" where
  "get_loan k a d =
     (case row_of (agent_loans d) k of
        None \<Rightarrow> Inl (LookupError ''Loan not found'')
      | Some l \<Rightarrow> if ln_lender_id l \<noteq> a \<and> ln_borrower_id l \<noteq> a
                  then Inl (PermissionError ''Not a participant in this loan'') else Inr l)"

end
