(* ===== verification/Lending_Life.thy ===== *)
theory Lending_Life
  imports Lending
begin

text \<open>
  What the lending operations do: the bounds of the credit score, the fate of locked collateral under
  the requests the application serves, the conservation of money by all writes, and the completeness
  of default detection.
\<close>

section \<open>Transitions\<close>

interpretation ln_fund: guarded_transition "loan_fund now" "\<lambda>l. ln_state l = LoanRequested"
  "\<lambda>l. l\<lparr>ln_state := LoanActive, ln_funded_at := Some now\<rparr>" for now
  unfolding loan_fund_def by (rule update_row_guarded) simp

interpretation ln_repay: guarded_transition "loan_repay now x" "\<lambda>l. ln_state l = LoanActive"
  "\<lambda>l. l\<lparr>ln_state := LoanRepaid, ln_repaid_amount := x, ln_repaid_at := Some now\<rparr>" for now x
  unfolding loan_repay_def by (rule update_row_guarded) simp

interpretation ln_default: guarded_transition "loan_default now" "\<lambda>l. ln_state l = LoanActive"
  "\<lambda>l. l\<lparr>ln_state := LoanDefaulted, ln_defaulted_at := Some now\<rparr>" for now
  unfolding loan_default_def by (rule update_row_guarded) simp

interpretation ln_liquidate: guarded_transition loan_liquidate "\<lambda>l. ln_state l = LoanDefaulted"
  "\<lambda>l. l\<lparr>ln_state := LoanLiquidated\<rparr>"
  unfolding loan_liquidate_def by (rule update_row_guarded) simp

interpretation ln_cancel: guarded_transition loan_cancel "\<lambda>l. ln_state l = LoanRequested"
  "\<lambda>l. l\<lparr>ln_state := LoanCancelled\<rparr>"
  unfolding loan_cancel_def by (rule update_row_guarded) simp

section \<open>Scores\<close>

text \<open>Scoring writes the score row and fills in a missing balance row.\<close>

lemma calculate_credit_score_Inr:
  assumes "snd (calculate_credit_score now a d) = Inr (d', score)"
  obtains g t where "row_of (agents d) a = Some g"
    and "d' = d\<lparr>balances := get_or_create now a ''XMR'' (balances d), agent_credit_scores := t\<rparr>"
    and "score = min 1000 (reputation_factor (row_of (reputations d) a)
           + loan_factor (fst (score_get_or_create now a (agent_credit_scores d)))
           + activity_factor now g (row_of (reputations d) a)
           + balance_factor (available_of a ''XMR'' (balances d)))"
    and "row_of t a = Some (fst (score_get_or_create now a (agent_credit_scores d))
           \<lparr>crs_credit_score := score, crs_max_borrow_amount := max_borrow_amount score 0,
            crs_max_concurrent_loans := max 1 (score div 200), crs_calculated_at := now\<rparr>)"
proof -
  obtain g where g: "row_of (agents d) a = Some g"
    using assms by (cases "row_of (agents d) a") (auto simp: calculate_credit_score_def)
  obtain r t where r: "score_get_or_create now a (agent_credit_scores d) = (r, t)" by fastforce
  then have "row_of t a = Some r"
    by (auto simp: score_get_or_create_def row_of_insert split: option.splits)
  then show thesis
    using that [OF g] assms
    by (auto simp: calculate_credit_score_def g r get_available_eq log_apart_brief Let_def update_score_def
        row_of_modify_row)
qed

lemma activity_factor_nonneg:
  assumes "ag_created_at g \<le> now" and "case rep of None \<Rightarrow> True | Some r \<Rightarrow> 0 \<le> rep_total_transactions r"
  shows "0 \<le> activity_factor now g rep"
proof -
  have "0 \<le> whole_days (now - ag_created_at g)"
    using assms(1) by (simp add: whole_days_def hours_def microsecond_per_second_def pos_imp_zdiv_nonneg_iff)
  then show ?thesis
    using assms(2) by (auto simp: activity_factor_def Let_def intro!: py_trunc_nonneg split: option.splits)
qed

section \<open>Loans\<close>

text \<open>What a loan holds in a token: locked collateral while it is open, the fee once it is repaid.\<close>

definition loan_holds :: "token \<Rightarrow> agent_loan \<Rightarrow> decimal" where
  "loan_holds u l =
     (if ln_state l \<in> {LoanRequested, LoanActive} \<and> collateral_token l = u
      then max (ln_collateral_amount l) 0 else 0)
     + (if ln_state l = LoanRepaid \<and> ln_currency l = u then ln_platform_fee l else 0)"

definition lending_wealth :: "token \<Rightarrow> db \<Rightarrow> decimal" where
  "lending_wealth u d = token_total u (balances d) + table_sum (\<lambda>_. loan_holds u) (agent_loans d)"

definition lending_ok :: "db \<Rightarrow> bool" where
  "lending_ok d \<longleftrightarrow> table_ok (balances d) \<and> table_ok (agent_loans d)"

lemma calculate_credit_score_books:
  assumes "snd (calculate_credit_score now a d) = Inr (d', score)" and "lending_ok d"
  shows "lending_ok d'" and "lending_wealth u d' = lending_wealth u d" and "agent_loans d' = agent_loans d"
    and "available_of b u (balances d') = available_of b u (balances d)"
    and "lending_offers d' = lending_offers d"
proof -
  obtain t where "d' = d\<lparr>balances := get_or_create now a ''XMR'' (balances d), agent_credit_scores := t\<rparr>"
    by (rule calculate_credit_score_Inr [OF assms(1)]) (rule that)
  then show "lending_ok d'" and "lending_wealth u d' = lending_wealth u d" and "agent_loans d' = agent_loans d"
    and "available_of b u (balances d') = available_of b u (balances d)"
    and "lending_offers d' = lending_offers d"
    using assms(2) by (simp_all add: lending_ok_def lending_wealth_def total_get_or_create available_get_or_create)
qed

lemma request_loan_books:
  assumes "snd (request_loan now a x cur secs coll d) = Inr (d', k)" and "lending_ok d"
  obtains l where "agent_loans d' = add_row l (agent_loans d)" and "ln_state l = LoanRequested"
    and "lending_ok d'" and "\<And>u. lending_wealth u d' = lending_wealth u d"
    and "\<And>b u. available_of b u (balances d') = available_of b u (balances d)
           - (if b = a \<and> u = cur then max coll 0 else 0)"
proof -
  obtain d1 score where s: "snd (calculate_credit_score now a d) = Inr (d1, score)"
    using assms(1) by (auto simp: request_loan_def then_logged_Inr)
  note books = calculate_credit_score_books [OF s assms(2)]
  obtain k0 best rest where best: "filter (\<lambda>(k, f). offer_matches score a coll f)
      (list_active_offers now cur (Some x) (Some secs) 50 (lending_offers d1)) = (k0, best) # rest"
    using assms(1) s by (auto simp: request_loan_def then_logged_Inr split: list.splits)
  let ?l = "loan_create now (lo_lender_id best) a x (lo_interest_rate_bps best) secs
      (x * (1 + of_int (lo_interest_rate_bps best) / 10000)) cur coll (if coll > 0 then Some cur else None)"
  obtain bt where bt: "(if coll > 0 then deduct now a coll cur (balances d1) else Inr (balances d1)) = Inr bt"
    and d': "d' = d1\<lparr>balances := bt, agent_loans := add_row ?l (agent_loans d1)\<rparr>"
    using assms(1) s best by (auto simp: request_loan_def then_logged_Inr unlogged_def Let_def)
  have tok: "collateral_token ?l = cur" by (simp add: collateral_token_def loan_create_def)
  have av: "available_of b u bt = available_of b u (balances d) - (if b = a \<and> u = cur then max coll 0 else 0)" for b u
    using bt books(4) by (auto simp: deduct_Inr(2) max_def split: if_splits)
  have okb: "table_ok (balances d1)" "table_ok (agent_loans d)" using books(1) assms(2) by (auto simp: lending_ok_def)
  have sums: "table_ok bt" "token_total u bt = token_total u (balances d1) - (if u = cur then max coll 0 else 0)" for u
    using bt okb by (auto simp: deduct_Inr(4,5) max_def split: if_splits)
  have ok': "lending_ok d'" using sums(1) okb by (simp add: lending_ok_def d' books(3) table_ok_add_row)
  have "lending_wealth u d' = lending_wealth u d1" for u
    using sums(2) [of u] tok by (simp add: lending_wealth_def d' table_sum_add_row loan_holds_def)
      (simp add: loan_create_def)
  then show thesis
    using that [of ?l] av books ok' d' by (simp add: loan_create_def)
qed

lemma collateral_token_cong:
  "ln_collateral_currency l' = ln_collateral_currency l \<Longrightarrow> ln_currency l' = ln_currency l
     \<Longrightarrow> collateral_token l' = collateral_token l"
  by (cases "ln_collateral_currency l") (simp_all add: collateral_token_def)

lemma loan_step_wealth:
  assumes "row_step k l l' (agent_loans d) (agent_loans d')"
    and "token_total u (balances d') = token_total u (balances d) + loan_holds u l - loan_holds u l'"
  shows "lending_wealth u d' = lending_wealth u d"
  using row_step_sum [OF assms(1), of "\<lambda>_. loan_holds u" "\<lambda>_. loan_holds u"] assms(2)
  by (simp add: lending_wealth_def)

lemma fund_loan_books:
  assumes "fund_loan_writes now a k d = Inr d'" and "lending_ok d"
  shows "lending_ok d'" and "lending_wealth u d' = lending_wealth u d"
proof -
  have ok: "table_ok (balances d)" "table_ok (agent_loans d)" using assms(2) by (simp_all add: lending_ok_def)
  obtain l t1 where l: "row_of (agent_loans d) k = Some l" "ln_state l = LoanRequested"
    and t1: "deduct now a (ln_principal l) (ln_currency l) (balances d) = Inr t1"
    and bal: "balances d' = credit now (ln_borrower_id l) (ln_principal l) (ln_currency l) t1"
    and loans: "agent_loans d' = snd (loan_fund now k (agent_loans d))"
    using assms(1) by (auto simp: fund_loan_writes_def and_then_Inr_iff split_def Let_def split: option.splits if_splits)
  note step = ln_fund.hit_steps [OF ok(2) l, of now]
  have t1ok: "table_ok t1" using deduct_Inr(4) [OF t1] ok(1) by simp
  show "lending_ok d'" using t1ok row_step_ok [OF step] by (simp add: lending_ok_def bal loans)
  have holds: "loan_holds v (l\<lparr>ln_state := LoanActive, ln_funded_at := Some now\<rparr>) = loan_holds v l" for v
    using l(2) collateral_token_cong [of "l\<lparr>ln_state := LoanActive, ln_funded_at := Some now\<rparr>" l]
    by (simp add: loan_holds_def)
  have tot: "token_total u (balances d') = token_total u (balances d)"
    using total_credit [OF t1ok] deduct_Inr(5) [OF t1 ok(1)] by (simp add: bal)
  show "lending_wealth u d' = lending_wealth u d"
    by (rule loan_step_wealth [OF step [folded loans]]) (simp add: tot holds)
qed

lemma repay_loan_books:
  assumes "snd (repay_loan_writes now a k d) = Inr d'" and "lending_ok d"
  shows "lending_ok d'" and "lending_wealth u d' = lending_wealth u d"
proof -
  have ok: "table_ok (balances d)" "table_ok (agent_loans d)" using assms(2) by (simp_all add: lending_ok_def)
  obtain l where l: "row_of (agent_loans d) k = Some l" "ln_state l = LoanActive" "ln_borrower_id l = a"
    using assms(1) by (auto simp: repay_loan_writes_def split: option.splits if_splits)
  define fee where "fee = (ln_repayment_amount l - ln_principal l) * PLATFORM_FEE_RATE"
  define coll where "coll = ln_collateral_amount l"
  let ?lf = "l\<lparr>ln_platform_fee := fee\<rparr>"
  let ?lt1 = "modify_row k (\<lambda>l. l\<lparr>ln_platform_fee := fee\<rparr>) (agent_loans d)"
  let ?lr = "?lf\<lparr>ln_state := LoanRepaid, ln_repaid_amount := ln_repayment_amount l, ln_repaid_at := Some now\<rparr>"
  obtain t1 d1 score sc where t1: "deduct now a (ln_repayment_amount l) (ln_currency l) (balances d) = Inr t1"
    and d1: "d1 = d\<lparr>balances := (let t2 = credit now (ln_lender_id l) (ln_repayment_amount l - fee) (ln_currency l) t1
            in if coll > 0 then credit now a coll (collateral_token l) t2 else t2),
          agent_loans := snd (loan_repay now (ln_repayment_amount l) k ?lt1), agent_credit_scores := sc\<rparr>"
    and s: "snd (calculate_credit_score now a d1) = Inr (d', score)"
    using assms(1) l
    by (auto simp: repay_loan_writes_def then_logged_Inr unlogged_def split_def Let_def fee_def coll_def split: if_splits)
  have lt1: "?lt1 = modify_row k (\<lambda>_. ?lf) (agent_loans d)" by (rule modify_row_cong [OF ok(2) l(1) refl])
  have ok1: "table_ok ?lt1" using ok(2) by simp
  have row1: "row_of ?lt1 k = Some ?lf" by (simp add: lt1 row_of_modify_row l(1))
  have st: "ln_state ?lf = LoanActive" using l(2) by simp
  have "row_step k ?lf ?lr ?lt1 (agent_loans d1)"
    using ln_repay.hit_steps [OF ok1 row1 st, of now "ln_repayment_amount l"] by (simp add: d1)
  then have step: "row_step k l ?lr (agent_loans d) (agent_loans d1)"
    using ok(2) l(1) by (simp add: row_step_def lt1 modify_row_twice)
  have t1ok: "table_ok t1" using deduct_Inr(4) [OF t1] ok(1) by simp
  have ok_d1: "lending_ok d1" using t1ok row_step_ok [OF step] by (simp add: lending_ok_def d1 Let_def)
  have tot: "token_total u (balances d1) = token_total u (balances d) - (if u = ln_currency l then fee else 0)
      + (if u = collateral_token l then max coll 0 else 0)"
    using total_credit t1ok deduct_Inr(5) [OF t1 ok(1)] by (auto simp: d1 Let_def)
  have "lending_wealth u d1 = lending_wealth u d"
    by (rule loan_step_wealth [OF step])
      (use l(2) in \<open>auto simp: tot loan_holds_def collateral_token_def coll_def\<close>)
  with calculate_credit_score_books [OF s ok_d1]
  show "lending_ok d'" and "lending_wealth u d' = lending_wealth u d" by simp_all
qed

section \<open>Default detection\<close>

lemma default_one_effect:
  assumes ok: "lending_ok d" and row: "row_of (agent_loans d) k = Some l" and st: "ln_state l = LoanActive"
  shows "\<exists>d'. snd (default_one now k l d) = Inr (d', True) \<and> lending_ok d'
    \<and> (\<forall>u. lending_wealth u d' = lending_wealth u d)
    \<and> agent_loans d' = snd (loan_default now k (agent_loans d))"
proof -
  have ok': "table_ok (balances d)" "table_ok (agent_loans d)" using ok by (simp_all add: lending_ok_def)
  let ?l = "l\<lparr>ln_state := LoanDefaulted, ln_defaulted_at := Some now\<rparr>"
  let ?bt = "if ln_collateral_amount l > 0
      then credit now (ln_lender_id l) (ln_collateral_amount l) (collateral_token l) (balances d) else balances d"
  note step = ln_default.hit_steps [OF ok'(2) row st, of now]
  obtain d' where run: "snd (default_one now k l d) = Inr (d', True)" and bal: "balances d' = ?bt"
    and loans: "agent_loans d' = snd (loan_default now k (agent_loans d))"
    using ln_default.hit_rows [OF ok'(2) row st, of now]
    by (simp add: default_one_def split_def Let_def)
  have tot: "token_total u (balances d') = token_total u (balances d)
      + (if u = collateral_token l then max (ln_collateral_amount l) 0 else 0)" for u
    using ok'(1) by (auto simp: bal total_credit)
  have "lending_wealth u d' = lending_wealth u d" for u
    by (rule loan_step_wealth [OF step [folded loans]]) (use st in \<open>auto simp: tot loan_holds_def\<close>)
  moreover have "lending_ok d'" using ok'(1) row_step_ok [OF step] by (simp add: lending_ok_def bal loans)
  ultimately show ?thesis using run loans by blast
qed

lemma default_each_effect:
  assumes "lending_ok d" and "distinct (map fst q)"
    and "\<forall>(k, l) \<in> set q. row_of (agent_loans d) k = Some l \<and> ln_state l = LoanActive"
  shows "\<exists>d'. snd (default_each now q d) = Inr (d', length q) \<and> lending_ok d'
    \<and> (\<forall>u. lending_wealth u d' = lending_wealth u d)
    \<and> (\<forall>k. row_of (agent_loans d') k = (if k \<in> fst ` set q
         then map_option (\<lambda>l. l\<lparr>ln_state := LoanDefaulted, ln_defaulted_at := Some now\<rparr>) (row_of (agent_loans d) k)
         else row_of (agent_loans d) k))"
  using assms
proof (induction q arbitrary: d)
  case Nil
  then show ?case by simp
next
  case (Cons x q)
  obtain k l where x: "x = (k, l)" by (cases x)
  have row: "row_of (agent_loans d) k = Some l" "ln_state l = LoanActive" using Cons.prems(3) x by auto
  obtain d1 where one: "snd (default_one now k l d) = Inr (d1, True)" "lending_ok d1"
      "\<And>u. lending_wealth u d1 = lending_wealth u d"
    and t: "agent_loans d1 = snd (loan_default now k (agent_loans d))"
    using default_one_effect [OF Cons.prems(1) row] by blast
  have kept: "row_of (agent_loans d1) z = row_of (agent_loans d) z" if "z \<noteq> k" for z
    unfolding t by (rule ln_default.other_rows_kept [OF that])
  have new: "row_of (agent_loans d1) k = Some (l\<lparr>ln_state := LoanDefaulted, ln_defaulted_at := Some now\<rparr>)"
    by (simp add: t ln_default.upd_row_of row)
  have "\<forall>(k, l) \<in> set q. row_of (agent_loans d1) k = Some l \<and> ln_state l = LoanActive"
    using Cons.prems(2,3) kept by (force simp: x)
  then obtain d' where d': "snd (default_each now q d1) = Inr (d', length q)" "lending_ok d'"
      "\<And>u. lending_wealth u d' = lending_wealth u d1"
    and rows: "\<And>k. row_of (agent_loans d') k = (if k \<in> fst ` set q
         then map_option (\<lambda>l. l\<lparr>ln_state := LoanDefaulted, ln_defaulted_at := Some now\<rparr>) (row_of (agent_loans d1) k)
         else row_of (agent_loans d1) k)"
    using Cons.IH [OF one(2)] Cons.prems(2) by auto
  have "snd (default_each now (x # q) d) = Inr (d', length (x # q))"
    using one(1) d'(1) by (simp add: x then_logged_Inr)
  moreover have "row_of (agent_loans d') z = (if z \<in> fst ` set (x # q)
      then map_option (\<lambda>l. l\<lparr>ln_state := LoanDefaulted, ln_defaulted_at := Some now\<rparr>) (row_of (agent_loans d) z)
      else row_of (agent_loans d) z)" for z
  proof (cases "z = k")
    case True
    have "k \<notin> fst ` set q" using Cons.prems(2) by (simp add: x)
    then show ?thesis by (simp add: rows True new row x)
  qed (simp add: rows kept x)
  moreover have "lending_wealth u d' = lending_wealth u d" for u using d'(3) one(3) by simp
  ultimately show ?case using d'(2) by blast
qed

lemma detect_defaults_effect:
  assumes ok: "lending_ok d"
  shows "\<exists>d'. snd (detect_defaults now d) = Inr (d', length (get_overdue_active_loans now (agent_loans d)))
    \<and> lending_ok d' \<and> (\<forall>u. lending_wealth u d' = lending_wealth u d)
    \<and> (\<forall>k. row_of (agent_loans d') k = map_option (\<lambda>l. if loan_overdue now l
         then l\<lparr>ln_state := LoanDefaulted, ln_defaulted_at := Some now\<rparr> else l) (row_of (agent_loans d) k))"
proof -
  let ?q = "get_overdue_active_loans now (agent_loans d)"
  have tok: "table_ok (agent_loans d)" using ok by (simp add: lending_ok_def)
  have mem: "(k, l) \<in> set ?q \<longleftrightarrow> row_of (agent_loans d) k = Some l \<and> loan_overdue now l" for k l
    using row_of_Some_mem mem_row_of [OF tok] by (fastforce simp: get_overdue_active_loans_def select_where_def)
  have "distinct (map fst ?q)"
    using tok unfolding get_overdue_active_loans_def select_where_def table_ok_def keys_of_def
    by (rule distinct_map_filter)
  moreover have "\<forall>(k, l) \<in> set ?q. row_of (agent_loans d) k = Some l \<and> ln_state l = LoanActive"
    using mem by (auto simp: loan_overdue_def)
  ultimately obtain d' where d': "snd (default_each now ?q d) = Inr (d', length ?q)" "lending_ok d'"
      "\<And>u. lending_wealth u d' = lending_wealth u d"
    and rows: "\<And>k. row_of (agent_loans d') k = (if k \<in> fst ` set ?q
         then map_option (\<lambda>l. l\<lparr>ln_state := LoanDefaulted, ln_defaulted_at := Some now\<rparr>) (row_of (agent_loans d) k)
         else row_of (agent_loans d) k)"
    using default_each_effect [OF ok] by blast
  have "row_of (agent_loans d') k = map_option (\<lambda>l. if loan_overdue now l
         then l\<lparr>ln_state := LoanDefaulted, ln_defaulted_at := Some now\<rparr> else l) (row_of (agent_loans d) k)" for k
  proof (cases "row_of (agent_loans d) k")
    case (Some l)
    then have "k \<in> fst ` set ?q \<longleftrightarrow> loan_overdue now l" using mem by force
    then show ?thesis by (simp add: rows Some)
  qed (simp add: rows)
  with d' show ?thesis by (auto simp: detect_defaults_def)
qed

section \<open>Runs\<close>

datatype lending_op =
    Score ident
  | CreateOffer ident decimal token int int int bool int
  | WithdrawOffer ident ident
  | RequestLoan ident decimal token int decimal
  | FundLoan ident ident
  | RepayLoan ident ident
  | DetectDefaults

text \<open>With \<open>full\<close> the writes of funding and repaying are kept, as if their last call were accepted.\<close>

fun lending_exec :: "bool \<Rightarrow> moment \<Rightarrow> lending_op \<Rightarrow> db \<Rightarrow> db logged" where
  "lending_exec full now (Score a) d = (fst (get_credit_score now a d), map_sum id fst (snd (get_credit_score now a d)))"
| "lending_exec full now (CreateOffer a x cur bps dur sc req ratio) d =
     (let r = create_offer now a x cur bps dur sc req ratio d in (fst r, map_sum id fst (snd r)))"
| "lending_exec full now (WithdrawOffer a k) d = withdraw_offer a k d"
| "lending_exec full now (RequestLoan a x cur secs coll) d =
     (let r = request_loan now a x cur secs coll d in (fst r, map_sum id fst (snd r)))"
| "lending_exec full now (FundLoan a k) d =
     (if full then unlogged (fund_loan_writes now a k d) else fund_loan now a k d)"
| "lending_exec full now (RepayLoan a k) d =
     (if full then repay_loan_writes now a k d else repay_loan now a k d)"
| "lending_exec full now DetectDefaults d =
     (fst (detect_defaults now d), map_sum id fst (snd (detect_defaults now d)))"

fun lending_run :: "bool \<Rightarrow> (moment \<times> lending_op) list \<Rightarrow> db \<Rightarrow> db" where
  "lending_run full [] d = d"
| "lending_run full ((now, p) # ps) d = lending_run full ps (conclude d (lending_exec full now p d))"

text \<open>Funding and repaying pass four arguments to \<open>queue_webhook\<close> and always raise.\<close>

lemma fund_and_repay_raise:
  "\<exists>e. snd (fund_loan now a k d) = Inl e" "\<exists>e. snd (repay_loan now a k d) = Inl e"
  by (auto simp: fund_loan_def repay_loan_def then_logged_def unlogged_def queue_webhook_four_positional
      split: sum.split)

lemma get_credit_score_books:
  assumes "snd (get_credit_score now a d) = Inr (d', s)" and "lending_ok d"
  shows "lending_ok d' \<and> lending_wealth u d' = lending_wealth u d \<and> agent_loans d' = agent_loans d
    \<and> available_of b u (balances d') = available_of b u (balances d)"
proof -
  consider "d' = d" | s' where "snd (calculate_credit_score now a d) = Inr (d', s')"
    using assms(1) by (auto simp: get_credit_score_def Let_def then_logged_Inr split: if_splits)
  then show ?thesis
    using calculate_credit_score_books [OF _ assms(2)] assms(2) by cases auto
qed

lemma create_offer_books:
  assumes "snd (create_offer now a x cur bps dur sc req ratio d) = Inr (d', k)" and "lending_ok d"
  shows "lending_ok d' \<and> lending_wealth u d' = lending_wealth u d \<and> agent_loans d' = agent_loans d
    \<and> available_of b u (balances d') = available_of b u (balances d)"
  using assms
  by (auto simp: create_offer_def get_available_eq Let_def lending_ok_def lending_wealth_def
      total_get_or_create available_get_or_create split: if_splits)

lemma withdraw_offer_books:
  assumes "snd (withdraw_offer a k d) = Inr d'" and "lending_ok d"
  shows "lending_ok d' \<and> lending_wealth u d' = lending_wealth u d \<and> agent_loans d' = agent_loans d
    \<and> available_of b u (balances d') = available_of b u (balances d)"
  using assms
  by (auto simp: withdraw_offer_def split_def Let_def lending_ok_def lending_wealth_def split: if_splits)

text \<open>Every step keeps the books; those of the served requests besides only add requested loans and only
  take money out of balances.\<close>

definition loans_waiting :: "db \<Rightarrow> bool" where
  "loans_waiting d \<longleftrightarrow> (\<forall>(k, l) \<in> set (agent_loans d). ln_state l = LoanRequested)"

lemma lending_exec_step:
  assumes "snd (lending_exec full now p d) = Inr d'" and "lending_ok d"
  shows "lending_ok d' \<and> lending_wealth u d' = lending_wealth u d
    \<and> (\<not> full \<and> p \<noteq> DetectDefaults \<and> loans_waiting d \<longrightarrow>
         loans_waiting d' \<and> available_of b u (balances d') \<le> available_of b u (balances d))"
proof (cases p)
  case (Score a)
  then show ?thesis using assms get_credit_score_books by (fastforce simp: map_sum_fst_Inr loans_waiting_def)
next
  case (CreateOffer a x cur bps dur sc req ratio)
  then show ?thesis
    using assms create_offer_books by (fastforce simp: map_sum_fst_Inr loans_waiting_def Let_def)
next
  case (WithdrawOffer a k)
  then show ?thesis using assms withdraw_offer_books by (fastforce simp: loans_waiting_def)
next
  case (RequestLoan a x cur secs coll)
  then obtain k where run: "snd (request_loan now a x cur secs coll d) = Inr (d', k)"
    using assms(1) by (auto simp: map_sum_fst_Inr Let_def)
  show ?thesis
    by (rule request_loan_books [OF run assms(2)])
      (auto simp: loans_waiting_def add_row_def insert_row_def)
next
  case (FundLoan a k)
  then show ?thesis
    using assms fund_loan_books fund_and_repay_raise(1) [of now a k d]
    by (auto simp: unlogged_def split: if_splits)
next
  case (RepayLoan a k)
  then show ?thesis
    using assms repay_loan_books fund_and_repay_raise(2) [of now a k d]
    by (auto split: if_splits)
next
  case DetectDefaults
  then show ?thesis
    using assms(1) detect_defaults_effect [OF assms(2), of now] by (auto simp: map_sum_fst_Inr)
qed

lemma conclude_books [simp]:
  "balances (conclude d (es, Inl e)) = balances d" "agent_loans (conclude d (es, Inl e)) = agent_loans d"
  "balances (conclude d (es, Inr d')) = balances d'" "agent_loans (conclude d (es, Inr d')) = agent_loans d'"
  by (simp_all add: conclude_def)

lemma lending_step:
  assumes "lending_ok d"
  shows "lending_ok (conclude d (lending_exec full now p d))"
    and "lending_wealth u (conclude d (lending_exec full now p d)) = lending_wealth u d"
    and "\<not> full \<Longrightarrow> p \<noteq> DetectDefaults \<Longrightarrow> loans_waiting d \<Longrightarrow>
      loans_waiting (conclude d (lending_exec full now p d))
      \<and> available_of b u (balances (conclude d (lending_exec full now p d))) \<le> available_of b u (balances d)"
proof -
  obtain es r where r: "lending_exec full now p d = (es, r)" by fastforce
  have "lending_ok (conclude d (es, r)) \<and> lending_wealth u (conclude d (es, r)) = lending_wealth u d
    \<and> (\<not> full \<and> p \<noteq> DetectDefaults \<and> loans_waiting d \<longrightarrow> loans_waiting (conclude d (es, r))
        \<and> available_of b u (balances (conclude d (es, r))) \<le> available_of b u (balances d))"
    using lending_exec_step [of full now p d _ u b] assms
    by (cases r) (auto simp: r lending_ok_def lending_wealth_def loans_waiting_def)
  then show "lending_ok (conclude d (lending_exec full now p d))"
    and "lending_wealth u (conclude d (lending_exec full now p d)) = lending_wealth u d"
    and "\<not> full \<Longrightarrow> p \<noteq> DetectDefaults \<Longrightarrow> loans_waiting d \<Longrightarrow>
      loans_waiting (conclude d (lending_exec full now p d))
      \<and> available_of b u (balances (conclude d (lending_exec full now p d))) \<le> available_of b u (balances d)"
    unfolding r by blast+
qed

lemma lending_run_books:
  "lending_ok d \<Longrightarrow> lending_ok (lending_run full ps d) \<and> lending_wealth u (lending_run full ps d) = lending_wealth u d"
proof (induction ps arbitrary: d)
  case (Cons q ps)
  then show ?case by (cases q) (simp add: lending_step)
qed simp

lemma lending_run_waits:
  assumes "lending_ok d" and "loans_waiting d" and "list_all (\<lambda>q. snd q \<noteq> DetectDefaults) ps"
  shows "loans_waiting (lending_run False ps d)
    \<and> available_of b u (balances (lending_run False ps d)) \<le> available_of b u (balances d)"
  using assms
proof (induction ps arbitrary: d)
  case (Cons q ps)
  obtain now p where q: "q = (now, p)" by (cases q)
  let ?d = "conclude d (lending_exec False now p d)"
  have "loans_waiting ?d \<and> available_of b u (balances ?d) \<le> available_of b u (balances d)"
    by (rule lending_step(3) [OF Cons.prems(1)]) (use Cons.prems(2,3) in \<open>simp_all add: q\<close>)
  moreover have "lending_ok ?d" by (rule lending_step(1) [OF Cons.prems(1)])
  ultimately show ?case using Cons.IH [of ?d] Cons.prems(3) by (auto simp: q)
qed simp

section \<open>Properties\<close>

text \<open>The credit score lies between 0 and 1000: for an agent that was not created in the future and
  whose reputation figures and balance are not negative, scoring stores a score in that range, a
  borrowing limit of a two-hundredth of it (at most 5 XMR) and between one and five concurrent
  loans, and moves no money.\<close>

lemma credit_score_bounds:
  assumes "snd (calculate_credit_score now a d) = Inr (d', score)"
    and "case row_of (agents d) a of None \<Rightarrow> True | Some g \<Rightarrow> ag_created_at g \<le> now"
    and "case row_of (reputations d) a of None \<Rightarrow> True
           | Some r \<Rightarrow> 0 \<le> rep_trust_score r \<and> 0 \<le> rep_total_transactions r"
    and "0 \<le> available_of a ''XMR'' (balances d)"
  shows "0 \<le> score \<and> score \<le> 1000
    \<and> (\<exists>r. row_of (agent_credit_scores d') a = Some r \<and> crs_credit_score r = score
        \<and> crs_max_borrow_amount r = of_int score / 200 \<and> crs_max_borrow_amount r \<le> 5
        \<and> 1 \<le> crs_max_concurrent_loans r \<and> crs_max_concurrent_loans r \<le> 5)
    \<and> (\<forall>b u. available_of b u (balances d') = available_of b u (balances d))"
proof -
  let ?rep = "row_of (reputations d) a"
  obtain g t where g: "row_of (agents d) a = Some g"
    and d': "d' = d\<lparr>balances := get_or_create now a ''XMR'' (balances d), agent_credit_scores := t\<rparr>"
    and score: "score = min 1000 (reputation_factor ?rep
           + loan_factor (fst (score_get_or_create now a (agent_credit_scores d)))
           + activity_factor now g ?rep + balance_factor (available_of a ''XMR'' (balances d)))"
    and row: "row_of t a = Some (fst (score_get_or_create now a (agent_credit_scores d))
           \<lparr>crs_credit_score := score, crs_max_borrow_amount := max_borrow_amount score 0,
            crs_max_concurrent_loans := max 1 (score div 200), crs_calculated_at := now\<rparr>)"
    by (rule calculate_credit_score_Inr [OF assms(1)]) (rule that)
  have "0 \<le> reputation_factor ?rep" using assms(3) by (auto simp: reputation_factor_def split: option.splits)
  moreover have "0 \<le> activity_factor now g ?rep"
    by (rule activity_factor_nonneg) (use assms(2,3) g in \<open>auto split: option.splits\<close>)
  moreover have "0 \<le> balance_factor (available_of a ''XMR'' (balances d))"
    using assms(4) by (simp add: balance_factor_def py_trunc_nonneg)
  ultimately have range: "0 \<le> score" "score \<le> 1000" by (simp_all add: score loan_factor_def)
  then have "(of_int score :: decimal) \<le> of_int 1000" by (simp only: of_int_le_iff)
  moreover have "score div 200 \<le> 5" using range(2) by linarith
  ultimately show ?thesis using range row by (auto simp: d' available_get_or_create max_borrow_amount_def)
qed

definition demo_lending :: db where
  "demo_lending = empty_db\<lparr>
     agents := [(1, \<lparr>ag_name = ''a'', ag_is_active = True, ag_tier = TierFree, ag_tier_grace_until = None,
                  ag_xmr_address = None, ag_created_at = 0\<rparr>),
                (2, \<lparr>ag_name = ''b'', ag_is_active = True, ag_tier = TierFree, ag_tier_grace_until = None,
                  ag_xmr_address = None, ag_created_at = 0\<rparr>)],
     balances := credit 0 2 12 ''XMR'' (credit 0 1 100 ''XMR'' [])\<rparr>"

lemma credit_score_bounds_witness:
  "\<exists>d'. snd (calculate_credit_score (hours 2400) 2 demo_lending) = Inr (d', 250)
     \<and> (\<exists>r. row_of (agent_credit_scores d') 2 = Some r \<and> crs_max_borrow_amount r = 5 / 4
          \<and> crs_max_concurrent_loans r \<le> 5)"
proof -
  have "case snd (calculate_credit_score (hours 2400) 2 demo_lending) of Inl e \<Rightarrow> False
    | Inr (d', s) \<Rightarrow> s = 250" by code_simp
  then obtain d' where run: "snd (calculate_credit_score (hours 2400) 2 demo_lending) = Inr (d', 250)"
    by (auto split: sum.splits)
  have "case row_of (agents demo_lending) 2 of None \<Rightarrow> True | Some g \<Rightarrow> ag_created_at g \<le> hours 2400"
    "case row_of (reputations demo_lending) 2 of None \<Rightarrow> True
           | Some r \<Rightarrow> 0 \<le> rep_trust_score r \<and> 0 \<le> rep_total_transactions r"
    "0 \<le> available_of 2 ''XMR'' (balances demo_lending)" by code_simp+
  from credit_score_bounds [OF run this] run show ?thesis by auto
qed

text \<open>C19. Collateral is never returned: from a database without loans, any run of the served requests
  (scores, offers, loan requests, funding and repaying, which always raise) leaves every loan
  requested, raises no balance of anybody, and what the balances have lost is exactly the collateral
  locked in the loans; nothing ever cancels a request.\<close>

theorem lending_collateral_stays:
  assumes "lending_ok d" and "agent_loans d = []" and "list_all (\<lambda>q. snd q \<noteq> DetectDefaults) ps"
  shows "list_all (\<lambda>(k, l). ln_state l = LoanRequested) (agent_loans (lending_run False ps d))
    \<and> available_of b u (balances (lending_run False ps d)) \<le> available_of b u (balances d)
    \<and> token_total u (balances (lending_run False ps d))
        + table_sum (\<lambda>_ l. if collateral_token l = u then max (ln_collateral_amount l) 0 else 0)
            (agent_loans (lending_run False ps d))
      = token_total u (balances d)"
proof -
  let ?d = "lending_run False ps d"
  have wait: "loans_waiting ?d \<and> available_of b u (balances ?d) \<le> available_of b u (balances d)"
    by (rule lending_run_waits [OF assms(1) _ assms(3)]) (simp add: loans_waiting_def assms(2))
  then have "table_sum (\<lambda>_. loan_holds u) (agent_loans ?d)
      = table_sum (\<lambda>_ l. if collateral_token l = u then max (ln_collateral_amount l) 0 else 0) (agent_loans ?d)"
    by (intro table_sum_cong) (auto simp: loans_waiting_def loan_holds_def)
  then show ?thesis
    using wait lending_run_books [OF assms(1), of False ps u]
    by (auto simp: loans_waiting_def list_all_iff lending_wealth_def assms(2))
qed

definition demo_loan_ops :: "(moment \<times> lending_op) list" where
  "demo_loan_ops =
     [(hours 2400, CreateOffer 1 50 ''XMR'' 500 (3600 * 24) 100 True 100),
      (hours 2401, RequestLoan 2 10 ''XMR'' 3600 4), (hours 2402, FundLoan 1 1),
      (hours 2403, RepayLoan 2 1), (hours 2404, DetectDefaults)]"

lemma demo_lending_ok: "lending_ok demo_lending" "agent_loans demo_lending = []"
  by (simp_all add: lending_ok_def demo_lending_def empty_db_def)

text \<open>As served, the request of the demonstration keeps 4 of the borrower's 12 for good.\<close>

lemma demo_lending_result:
  "available_of 2 ''XMR'' (balances (lending_run False (butlast demo_loan_ops) demo_lending)) = 8
   \<and> map (\<lambda>(k, l). (ln_state l, ln_collateral_amount l))
       (agent_loans (lending_run False (butlast demo_loan_ops) demo_lending)) = [(LoanRequested, 4)]"
  by code_simp

theorem lending_collateral_stays_witness:
  "token_total ''XMR'' (balances (lending_run False (butlast demo_loan_ops) demo_lending))
     + table_sum (\<lambda>_ l. if collateral_token l = ''XMR'' then max (ln_collateral_amount l) 0 else 0)
         (agent_loans (lending_run False (butlast demo_loan_ops) demo_lending)) = 112"
proof -
  have "list_all (\<lambda>q. snd q \<noteq> DetectDefaults) (butlast demo_loan_ops)" by (simp add: demo_loan_ops_def)
  moreover have "token_total ''XMR'' (balances demo_lending) = 112" by code_simp
  ultimately show ?thesis
    using lending_collateral_stays [OF demo_lending_ok, of "butlast demo_loan_ops" _ "''XMR''"] by simp
qed

text \<open>C20. Conservation of money by lending: with the writes of funding and repaying kept, over any run of
  scores, offers, requests, fundings, repayments and default detections, failed ones included, each
  token's balances plus the collateral of the open loans plus the platform fees of the repaid ones
  are constant; the fee is taken from the lender's share and credited to nobody.\<close>

theorem lending_conserves_money:
  assumes "lending_ok d"
  shows "token_total u (balances (lending_run True ps d))
      + table_sum (\<lambda>_ l. (if ln_state l \<in> {LoanRequested, LoanActive} \<and> collateral_token l = u
           then max (ln_collateral_amount l) 0 else 0)
         + (if ln_state l = LoanRepaid \<and> ln_currency l = u then ln_platform_fee l else 0))
          (agent_loans (lending_run True ps d))
    = token_total u (balances d)
      + table_sum (\<lambda>_ l. (if ln_state l \<in> {LoanRequested, LoanActive} \<and> collateral_token l = u
           then max (ln_collateral_amount l) 0 else 0)
         + (if ln_state l = LoanRepaid \<and> ln_currency l = u then ln_platform_fee l else 0)) (agent_loans d)"
  using lending_run_books [OF assms, of True ps u] by (simp add: lending_wealth_def loan_holds_def [abs_def])

lemma demo_repaid_result:
  "map (\<lambda>(k, l). (ln_state l, ln_platform_fee l)) (agent_loans (lending_run True demo_loan_ops demo_lending))
     = [(LoanRepaid, 5 / 1000)]"
  by code_simp

theorem lending_conserves_money_witness:
  "token_total ''XMR'' (balances (lending_run True demo_loan_ops demo_lending)) = 112 - 5 / 1000"
proof -
  have "token_total ''XMR'' (balances demo_lending) = 112" by code_simp
  moreover have "table_sum (\<lambda>_ l. (if ln_state l \<in> {LoanRequested, LoanActive} \<and> collateral_token l = ''XMR''
           then max (ln_collateral_amount l) 0 else 0)
         + (if ln_state l = LoanRepaid \<and> ln_currency l = ''XMR'' then ln_platform_fee l else 0))
          (agent_loans (lending_run True demo_loan_ops demo_lending)) = 5 / 1000" by code_simp
  ultimately show ?thesis
    using lending_conserves_money [OF demo_lending_ok(1), of "''XMR''" demo_loan_ops]
    by (simp add: demo_lending_ok(2))
qed

text \<open>One detection defaults every active loan whose \<open>expires_at\<close> has come: the grace period plays no part.\<close>

lemma defaults_ignore_grace:
  assumes "lending_ok d" and "row_of (agent_loans d) k = Some l"
    and "ln_state l = LoanActive" and "ln_expires_at l \<le> now"
  shows "\<exists>d' n l'. snd (detect_defaults now d) = Inr (d', n) \<and> row_of (agent_loans d') k = Some l'
    \<and> ln_state l' = LoanDefaulted"
  using detect_defaults_effect [OF assms(1), of now] assms(2-4) by (fastforce simp: loan_overdue_def)

end
