(* ===== verification/Conversion.thy ===== *)
theory Conversion
  imports Channel
begin

text \<open>
  Exchange rates and currency conversion: \<open>sthrip/services/rate_service.py\<close>,
  \<open>sthrip/services/conversion_service.py\<close> and \<open>sthrip/db/conversion_repo.py\<close>. The rate service serves
  cached rates of a live feed with a hard-coded fallback; conversions move an agent's balance from
  one token to another against a fee. The answer of the feed is a parameter: nothing when the request
  fails, else the rates it contains. Decimal arithmetic is exact here; the program keeps 28 digits of the quotients
  1/150 and 1/138 and rounds what it stores, balances to twelve places and fees to eight.
\<close>

section \<open>The rate service\<close>

definition SUPPORTED_PAIRS :: "string list" where
  "SUPPORTED_PAIRS = [''BTC_XMR'', ''XMR_BTC'', ''ETH_XMR'', ''SOL_XMR'', ''XMR_USD'', ''XMR_EUR'']"

definition CACHE_TTL_SECONDS :: decimal where
  "CACHE_TTL_SECONDS = 60"

definition SWAP_FEE_PERCENT :: decimal where
  "SWAP_FEE_PERCENT = 1 / 100"

definition SWAP_FALLBACK_RATES :: "(string \<times> decimal) list" where
  "SWAP_FALLBACK_RATES =
     [(''BTC_XMR'', 150), (''XMR_BTC'', 6667 / 1000000), (''ETH_XMR'', 10), (''SOL_XMR'', 234 / 1000),
      (''XMR_USD'', 180), (''XMR_EUR'', 160)]"

text \<open>The module-level cache: each pair's rate and the time it was stored.\<close>

type_synonym rate_cache = "string \<rightharpoonup> decimal \<times> decimal"
type_synonym rate_feed = "(string \<rightharpoonup> decimal) option"

definition fetch_rates :: "rate_feed \<Rightarrow> string \<rightharpoonup> decimal" where
  "fetch_rates live = (case live of
       None \<Rightarrow> map_of SWAP_FALLBACK_RATES
     | Some rates \<Rightarrow> map_of SWAP_FALLBACK_RATES ++ rates)"

definition refresh_cache :: "decimal \<Rightarrow> rate_feed \<Rightarrow> rate_cache \<Rightarrow> rate_cache" where
  "refresh_cache now live cache =
     (case cache ''BTC_XMR'' of
        Some (_, stamp) \<Rightarrow> if now - stamp < CACHE_TTL_SECONDS then cache
          else cache ++ (\<lambda>pair. map_option (\<lambda>rate. (rate, now)) (fetch_rates live pair))
      | None \<Rightarrow> cache ++ (\<lambda>pair. map_option (\<lambda>rate. (rate, now)) (fetch_rates live pair)))"

definition pair_key :: "token \<Rightarrow> token \<Rightarrow> string" where
  "pair_key from_currency to_currency = from_currency @ ''_'' @ to_currency"

definition get_rate ::
  "decimal \<Rightarrow> rate_feed \<Rightarrow> token \<Rightarrow> token \<Rightarrow> rate_cache \<Rightarrow> decimal outcome \<times> rate_cache"
where
  "get_rate now live from_currency to_currency cache =
     (let pair = pair_key from_currency to_currency
      in if pair \<notin> set SUPPORTED_PAIRS then (Inl (ValueError ''Unsupported pair''), cache)
         else let stale = (case cache pair of None \<Rightarrow> True | Some (_, stamp) \<Rightarrow> now - stamp \<ge> CACHE_TTL_SECONDS);
                  cache1 = (if stale then refresh_cache now live cache else cache)
              in (case cache1 pair of
                    Some (rate, _) \<Rightarrow> Inr rate
                  | None \<Rightarrow> (case map_of SWAP_FALLBACK_RATES pair of Some r \<Rightarrow> Inr r | None \<Rightarrow> Inl (LookupError pair)),
                  cache1))"

record swap_quote =
  q_to_currency :: token
  q_rate :: decimal
  q_fee :: decimal
  q_to_amount :: decimal

definition get_quote ::
  "decimal \<Rightarrow> rate_feed \<Rightarrow> token \<Rightarrow> decimal \<Rightarrow> token \<Rightarrow> rate_cache \<Rightarrow> swap_quote outcome \<times> rate_cache"
where
  "get_quote now live from_currency from_amount to_currency cache =
     (if from_amount \<le> 0 then (Inl (ValueError ''from_amount must be greater than zero''), cache)
      else let (r, cache1) = get_rate now live from_currency to_currency cache
        in (and_then r (\<lambda>rate.
              let fee = quantize_half_even 8 (from_amount * SWAP_FEE_PERCENT);
                  net_amount = from_amount - fee
              in Inr \<lparr>q_to_currency = to_currency, q_rate = rate, q_fee = fee,
                      q_to_amount = quantize_half_even 8 (net_amount * rate)\<rparr>), cache1))"

section \<open>Conversion\<close>

definition SUPPORTED_CONVERSIONS :: "string list" where
  "SUPPORTED_CONVERSIONS = [''XMR_xUSD'', ''xUSD_XMR'', ''XMR_xEUR'', ''xEUR_XMR'']"

definition CONVERSION_FEE :: decimal where
  "CONVERSION_FEE = 5 / 1000"

definition RATE_XMR_USD :: decimal where
  "RATE_XMR_USD = 150"

definition RATE_XMR_EUR :: decimal where
  "RATE_XMR_EUR = 138"

definition resolve_rate ::
  "decimal \<Rightarrow> rate_feed \<Rightarrow> token \<Rightarrow> token \<Rightarrow> rate_cache \<Rightarrow> decimal outcome \<times> rate_cache"
where
  "resolve_rate now live from_currency to_currency cache =
     (case get_rate now live from_currency to_currency cache of
        (Inr rate, cache1) \<Rightarrow> (Inr rate, cache1)
      | (Inl e, cache1) \<Rightarrow>
          (if from_currency = ''XMR'' \<and> to_currency \<in> {''xUSD'', ''USD''} then Inr RATE_XMR_USD
           else if from_currency = ''XMR'' \<and> to_currency \<in> {''xEUR'', ''EUR''} then Inr RATE_XMR_EUR
           else if from_currency \<in> {''xUSD'', ''USD''} \<and> to_currency = ''XMR'' then Inr (1 / RATE_XMR_USD)
           else if from_currency \<in> {''xEUR'', ''EUR''} \<and> to_currency = ''XMR'' then Inr (1 / RATE_XMR_EUR)
           else Inl (ValueError ''Unsupported conversion pair''), cache1))"

definition conversion_create ::
  "moment \<Rightarrow> ident \<Rightarrow> token \<Rightarrow> decimal \<Rightarrow> token \<Rightarrow> decimal \<Rightarrow> decimal \<Rightarrow> decimal \<Rightarrow> currency_conversion"
where
  "conversion_create now a from_currency from_amount to_currency to_amount rate fee =
     \<lparr>cc_agent_id = a, cc_from_currency = from_currency, cc_from_amount = from_amount,
      cc_to_currency = to_currency, cc_to_amount = to_amount, cc_rate = rate, cc_fee_amount = fee,
      cc_created_at = now\<rparr>"

text \<open>\<open>list_by_agent\<close> of this repository does not cap the limit.\<close>

definition conversion_list ::
  "ident \<Rightarrow> nat \<Rightarrow> nat \<Rightarrow> (ident, currency_conversion) table \<Rightarrow> (ident \<times> currency_conversion) list \<times> nat"
where
  "conversion_list a limit offset t =
     (let mine = select_where (\<lambda>c. cc_agent_id c = a) t
      in (take limit (drop offset (sort_key (\<lambda>(k, c). - cc_created_at c) mine)), length mine))"

definition convert ::
  "moment \<Rightarrow> decimal \<Rightarrow> rate_feed \<Rightarrow> ident \<Rightarrow> token \<Rightarrow> token \<Rightarrow> decimal \<Rightarrow> rate_cache \<Rightarrow> db
    \<Rightarrow> (conversion_result \<times> db) outcome \<times> rate_cache"
where
  "convert now clock live a from_currency to_currency amount cache d =
     (if pair_key from_currency to_currency \<notin> set SUPPORTED_CONVERSIONS
      then (Inl (ValueError ''Unsupported conversion pair''), cache)
      else if amount \<le> 0 then (Inl (ValueError ''Conversion amount must be greater than zero''), cache)
      else let (r, cache1) = resolve_rate clock live from_currency to_currency cache
        in (and_then r (\<lambda>rate.
              let gross_to = amount * rate;
                  fee = gross_to * CONVERSION_FEE;
                  net_to = gross_to - fee
              in and_then (deduct now a amount from_currency (balances d)) (\<lambda>t1.
                   Inr (\<lparr>cv_from_currency = from_currency, cv_from_amount = amount,
                         cv_to_currency = to_currency, cv_gross_to_amount = gross_to,
                         cv_fee_amount = fee, cv_net_to_amount = net_to, cv_rate = rate\<rparr>,
                     d\<lparr>balances := credit now a net_to to_currency t1,
                       currency_conversions := add_row
                         (conversion_create now a from_currency amount to_currency net_to rate fee)
                         (currency_conversions d)\<rparr>))), cache1))"

text \<open>The rows of one agent: token and available balance.\<close>

definition agent_rows :: "ident \<Rightarrow> balance_table \<Rightarrow> (token \<times> decimal) list" where
  "agent_rows a t = map (\<lambda>(k, b). (snd k, bal_available b)) (filter (\<lambda>(k, b). fst k = a) t)"

definition get_all_balances :: "ident \<Rightarrow> db \<Rightarrow> (token \<times> decimal) list" where
  "get_all_balances a d = agent_rows a (balances d)"

section \<open>The rate of a conversion\<close>

text \<open>
  The tokens of the hub are called \<open>xUSD\<close> and \<open>xEUR\<close>; the pairs of the rate service end in \<open>USD\<close> and
  \<open>EUR\<close>. No supported conversion is a supported pair, so the live rate is never used.
\<close>

lemma pair_key_supported:
  "pair_key f t \<in> set SUPPORTED_CONVERSIONS \<Longrightarrow> pair_key f t \<notin> set SUPPORTED_PAIRS"
  by (auto simp: SUPPORTED_CONVERSIONS_def SUPPORTED_PAIRS_def)

definition fixed_rate :: "token \<Rightarrow> token \<Rightarrow> decimal" where
  "fixed_rate f t = (if f = ''XMR'' then if t = ''xUSD'' then RATE_XMR_USD else RATE_XMR_EUR
     else if f = ''xUSD'' then 1 / RATE_XMR_USD else 1 / RATE_XMR_EUR)"

lemma pair_key_unique:
  assumes "pair_key f t = pair_key x y" and "CHR ''_'' \<notin> set x" and "CHR ''_'' \<notin> set y"
  shows "f = x \<and> t = y"
  using append_Cons_eq_iff [of "CHR ''_''" x y f t] assms by (auto simp: pair_key_def)

lemma supported_conversions_eq:
  "set SUPPORTED_CONVERSIONS = {pair_key ''XMR'' ''xUSD'', pair_key ''xUSD'' ''XMR'',
     pair_key ''XMR'' ''xEUR'', pair_key ''xEUR'' ''XMR''}"
  by (simp add: SUPPORTED_CONVERSIONS_def pair_key_def)

lemma convert_pairs:
  assumes "pair_key f t \<in> set SUPPORTED_CONVERSIONS"
  obtains "f = ''XMR''" "t = ''xUSD''" | "f = ''xUSD''" "t = ''XMR''"
    | "f = ''XMR''" "t = ''xEUR''" | "f = ''xEUR''" "t = ''XMR''"
proof -
  have "\<exists>x y. pair_key f t = pair_key x y \<and> CHR ''_'' \<notin> set x \<and> CHR ''_'' \<notin> set y \<and>
      (x, y) \<in> {(''XMR'', ''xUSD''), (''xUSD'', ''XMR''), (''XMR'', ''xEUR''), (''xEUR'', ''XMR'')}"
  proof -
    consider "pair_key f t = pair_key ''XMR'' ''xUSD''" | "pair_key f t = pair_key ''xUSD'' ''XMR''"
      | "pair_key f t = pair_key ''XMR'' ''xEUR''" | "pair_key f t = pair_key ''xEUR'' ''XMR''"
      using assms by (auto simp: supported_conversions_eq)
    then show ?thesis by cases (rule exI, rule exI, rule conjI, assumption, simp)+
  qed
  then obtain x y where "f = x" "t = y"
    and "(x, y) \<in> {(''XMR'', ''xUSD''), (''xUSD'', ''XMR''), (''XMR'', ''xEUR''), (''xEUR'', ''XMR'')}"
    using pair_key_unique by blast
  then show thesis using that by auto
qed

lemma resolve_rate_fixed:
  assumes "pair_key f t \<in> set SUPPORTED_CONVERSIONS"
  shows "resolve_rate clock live f t cache = (Inr (fixed_rate f t), cache)"
proof -
  have "get_rate clock live f t cache = (Inl (ValueError ''Unsupported pair''), cache)"
    by (simp add: get_rate_def Let_def pair_key_supported [OF assms])
  then show ?thesis
    by (simp add: resolve_rate_def) (rule convert_pairs [OF assms]; simp add: fixed_rate_def)
qed

lemma convert_cases:
  "convert now clock live a f t x cache d =
     (if pair_key f t \<notin> set SUPPORTED_CONVERSIONS then Inl (ValueError ''Unsupported conversion pair'')
      else if x \<le> 0 then Inl (ValueError ''Conversion amount must be greater than zero'')
      else and_then (deduct now a x f (balances d)) (\<lambda>t1.
         let net = x * fixed_rate f t - x * fixed_rate f t * CONVERSION_FEE in
         Inr (\<lparr>cv_from_currency = f, cv_from_amount = x, cv_to_currency = t,
               cv_gross_to_amount = x * fixed_rate f t, cv_fee_amount = x * fixed_rate f t * CONVERSION_FEE,
               cv_net_to_amount = net, cv_rate = fixed_rate f t\<rparr>,
              d\<lparr>balances := credit now a net t t1,
                currency_conversions := add_row (conversion_create now a f x t net (fixed_rate f t)
                  (x * fixed_rate f t * CONVERSION_FEE)) (currency_conversions d)\<rparr>)), cache)"
  by (simp add: convert_def resolve_rate_fixed Let_def)

lemma convert_Inr:
  assumes "fst (convert now clock live a f t x cache d) = Inr (r, d')"
  obtains t1 where "pair_key f t \<in> set SUPPORTED_CONVERSIONS" and "0 < x"
    and "deduct now a x f (balances d) = Inr t1"
    and "r = \<lparr>cv_from_currency = f, cv_from_amount = x, cv_to_currency = t,
               cv_gross_to_amount = x * fixed_rate f t, cv_fee_amount = x * fixed_rate f t * CONVERSION_FEE,
               cv_net_to_amount = x * fixed_rate f t - x * fixed_rate f t * CONVERSION_FEE,
               cv_rate = fixed_rate f t\<rparr>"
    and "d' = d\<lparr>balances := credit now a (x * fixed_rate f t - x * fixed_rate f t * CONVERSION_FEE) t t1,
                currency_conversions := add_row (conversion_create now a f x t
                   (x * fixed_rate f t - x * fixed_rate f t * CONVERSION_FEE) (fixed_rate f t)
                  (x * fixed_rate f t * CONVERSION_FEE)) (currency_conversions d)\<rparr>"
  using assms by (auto simp: convert_cases and_then_Inr_iff Let_def split: if_splits)

end
