(* ===== verification/Treasury.thy ===== *)
theory Treasury
  imports Conversion Durations
begin

text \<open>
  Treasury management: \<open>sthrip/db/treasury_repo.py\<close> and \<open>sthrip/services/treasury_service.py\<close>. An agent
  keeps one policy: a target split of its balances in percent, a drift threshold, a cooldown and an
  XMR reserve. Rebalancing measures the split in fixed dollar values and converts from the tokens
  above their target to those below it. Responses without a reader here are not modelled.
\<close>

type_synonym policy_table = "(ident, treasury_policy) table"

section \<open>The repository\<close>

definition policy_upsert ::
  "ident \<Rightarrow> (token \<times> int) list \<Rightarrow> int \<Rightarrow> int \<Rightarrow> decimal option \<Rightarrow> decimal option \<Rightarrow> int \<Rightarrow> bool \<Rightarrow> int \<Rightarrow> int \<Rightarrow> int
    \<Rightarrow> policy_table \<Rightarrow> policy_table"
where
  "policy_upsert a target threshold_pct cooldown_secs min_xmr min_xusd reserve_pct auto_lend max_lend min_trust max_loan t =
     (case row_of t a of
        None \<Rightarrow> insert_row a \<lparr>tp_target_allocation = target, tp_rebalance_threshold_pct = threshold_pct,
            tp_rebalance_cooldown_secs = cooldown_secs, tp_min_liquid_xmr = min_xmr, tp_min_liquid_xusd = min_xusd,
            tp_emergency_reserve_pct = reserve_pct, tp_auto_lend_enabled = auto_lend, tp_max_lend_pct = max_lend,
            tp_min_borrower_trust_score = min_trust, tp_max_loan_duration_secs = max_loan,
            tp_is_active = True, tp_last_rebalance_at = None\<rparr> t
      | Some p \<Rightarrow> modify_row a (\<lambda>p. p\<lparr>tp_target_allocation := target, tp_rebalance_threshold_pct := threshold_pct,
            tp_rebalance_cooldown_secs := cooldown_secs, tp_min_liquid_xmr := min_xmr, tp_min_liquid_xusd := min_xusd,
            tp_emergency_reserve_pct := reserve_pct, tp_auto_lend_enabled := auto_lend, tp_max_lend_pct := max_lend,
            tp_min_borrower_trust_score := min_trust, tp_max_loan_duration_secs := max_loan\<rparr>) t)"

definition policy_deactivate :: "ident \<Rightarrow> policy_table \<Rightarrow> nat \<times> policy_table" where
  "policy_deactivate = update_row tp_is_active (\<lambda>p. p\<lparr>tp_is_active := False\<rparr>)"

definition get_active_policies :: "policy_table \<Rightarrow> (ident \<times> treasury_policy) list" where
  "get_active_policies = select_where tp_is_active"

definition update_last_rebalance :: "moment \<Rightarrow> ident \<Rightarrow> policy_table \<Rightarrow> policy_table" where
  "update_last_rebalance now a = modify_row a (\<lambda>p. p\<lparr>tp_last_rebalance_at := Some now\<rparr>)"

definition add_forecast ::
  "ident \<Rightarrow> string \<Rightarrow> ident \<Rightarrow> decimal \<Rightarrow> token \<Rightarrow> string \<Rightarrow> moment \<Rightarrow> decimal
    \<Rightarrow> (ident, treasury_forecast) table \<Rightarrow> (ident, treasury_forecast) table"
where
  "add_forecast a kind source expected currency direction expected_at confidence =
     add_row \<lparr>tf_agent_id = a, tf_forecast_type = kind, tf_source_id = source,
       tf_expected_amount = expected, tf_expected_currency = currency, tf_direction = direction,
       tf_expected_at = expected_at, tf_confidence = confidence\<rparr>"

definition list_forecasts ::
  "ident \<Rightarrow> string option \<Rightarrow> nat \<Rightarrow> (ident, treasury_forecast) table \<Rightarrow> (ident \<times> treasury_forecast) list"
where
  "list_forecasts a direction limit t =
     take (min limit MAX_QUERY_LIMIT) (sort_key (\<lambda>(k, f). tf_expected_at f)
       (select_where (\<lambda>f. tf_agent_id f = a
          \<and> (case direction of None \<Rightarrow> True | Some x \<Rightarrow> x = '''' \<or> tf_direction f = x)) t))"

definition delete_forecasts_by_source ::
  "ident \<Rightarrow> (ident, treasury_forecast) table \<Rightarrow> nat \<times> (ident, treasury_forecast) table"
where
  "delete_forecasts_by_source source t =
     (rows_where (\<lambda>_ f. tf_source_id f = source) t, delete_where (\<lambda>_ f. tf_source_id f = source) t)"

definition rebalance_log_create ::
  "moment \<Rightarrow> ident \<Rightarrow> string \<Rightarrow> conversion_result list \<Rightarrow> (token \<times> int) list \<Rightarrow> (token \<times> int) list \<Rightarrow> decimal
    \<Rightarrow> rebalance_log"
where
  "rebalance_log_create now a trigger convs pre post total_value =
     \<lparr>rl_agent_id = a, rl_trigger = trigger, rl_conversions = convs, rl_pre_allocation = pre,
      rl_post_allocation = post, rl_total_value_xusd = total_value, rl_created_at = now\<rparr>"

definition list_rebalance_history ::
  "ident \<Rightarrow> nat \<Rightarrow> nat \<Rightarrow> (ident, rebalance_log) table \<Rightarrow> (ident \<times> rebalance_log) list"
where
  "list_rebalance_history a limit offset t =
     take (min limit MAX_QUERY_LIMIT) (drop offset (sort_key (\<lambda>(k, l). - rl_created_at l)
       (select_where (\<lambda>l. rl_agent_id l = a) t)))"

section \<open>Values and shares\<close>

definition token_usd_value :: "token \<Rightarrow> decimal \<Rightarrow> decimal" where
  "token_usd_value tok amount =
     (if amount = 0 then 0
      else if tok = ''xUSD'' then amount
      else if tok = ''XMR'' then amount * RATE_XMR_USD
      else if tok = ''xEUR'' then
        (if RATE_XMR_EUR > 0 then amount * (RATE_XMR_USD / RATE_XMR_EUR) else amount)
      else 0)"

definition calculate_allocation_pct :: "(token \<times> decimal) list \<Rightarrow> decimal \<Rightarrow> (token \<times> int) list" where
  "calculate_allocation_pct bals total_usd =
     (if total_usd \<le> 0 then []
      else filter (\<lambda>(tok, pct). pct > 0 \<or> (case map_of bals tok of None \<Rightarrow> False | Some x \<Rightarrow> x > 0))
        (map (\<lambda>(tok, amount).
           (tok, py_trunc (quantize_half_even 0 (token_usd_value tok amount / total_usd * 100)))) bals))"

record treasury_status =
  ts_balances :: "(token \<times> decimal) list"
  ts_allocation_pct :: "(token \<times> int) list"
  ts_total_value :: decimal

definition get_status :: "ident \<Rightarrow> db \<Rightarrow> treasury_status" where
  "get_status a d =
     (let bals = filter (\<lambda>(tok, amount). amount > 0) (agent_rows a (balances d));
          total_usd = sum_list (map (\<lambda>(tok, amount). token_usd_value tok amount) bals)
      in \<lparr>ts_balances = bals, ts_allocation_pct = calculate_allocation_pct bals total_usd,
          ts_total_value = total_usd\<rparr>)"

section \<open>Policies\<close>

definition set_policy :: "ident \<Rightarrow> (token \<times> int) list \<Rightarrow> int \<Rightarrow> int \<Rightarrow> int \<Rightarrow> db \<Rightarrow> db outcome" where
  "set_policy a allocation threshold_pct cooldown_minutes reserve_pct d =
     (if allocation = [] then Inl (ValueError ''Allocation must not be empty'')
      else if \<exists>(tok, pct) \<in> set allocation. pct < 0
      then Inl (ValueError ''Allocation must be non-negative'')
      else if sum_list (map snd allocation) \<noteq> 100
      then Inl (ValueError ''Allocation values must sum to 100'')
      else Inr (d\<lparr>treasury_policies := policy_upsert a allocation threshold_pct (cooldown_minutes * 60)
        None None reserve_pct False 20 70 3600 (treasury_policies d)\<rparr>))"

definition deactivate_policy :: "ident \<Rightarrow> db \<Rightarrow> db" where
  "deactivate_policy a d =
     d\<lparr>treasury_policies := snd (policy_deactivate a (treasury_policies d))\<rparr>"

section \<open>Rebalancing\<close>

definition alloc_get :: "(token \<times> int) list \<Rightarrow> token \<Rightarrow> int" where
  "alloc_get pcts tok = (case map_of pcts tok of None \<Rightarrow> 0 | Some x \<Rightarrow> x)"

definition max_drift :: "(token \<times> int) list \<Rightarrow> (token \<times> int) list \<Rightarrow> int" where
  "max_drift target current =
     fold (\<lambda>(tok, pct) m. let drift = \<bar>alloc_get current tok - pct\<bar> in if drift > m then drift else m) target 0"

definition usd_gap :: "(token \<times> int) list \<Rightarrow> decimal \<Rightarrow> token \<times> int \<Rightarrow> decimal" where
  "usd_gap current total_usd p =
     total_usd * of_int (alloc_get current (fst p)) / 100 - total_usd * of_int (snd p) / 100"

definition over_allocated :: "(token \<times> int) list \<Rightarrow> (token \<times> int) list \<Rightarrow> decimal \<Rightarrow> (token \<times> decimal) list" where
  "over_allocated target current total_usd =
     map (\<lambda>p. (fst p, usd_gap current total_usd p)) (filter (\<lambda>p. usd_gap current total_usd p > 1 / 100) target)"

definition under_allocated :: "(token \<times> int) list \<Rightarrow> (token \<times> int) list \<Rightarrow> decimal \<Rightarrow> (token \<times> decimal) list" where
  "under_allocated target current total_usd =
     map (\<lambda>p. (fst p, \<bar>usd_gap current total_usd p\<bar>)) (filter (\<lambda>p. usd_gap current total_usd p < - 1 / 100) target)"

text \<open>The amount of a token that is worth so many dollars; other tokens are skipped.\<close>

definition amount_for_usd :: "token \<Rightarrow> decimal \<Rightarrow> decimal option" where
  "amount_for_usd tok usd =
     (if tok = ''XMR'' then Some (usd / RATE_XMR_USD)
      else if tok = ''xUSD'' then Some usd
      else if tok = ''xEUR'' then Some (if RATE_XMR_USD > 0 then usd * RATE_XMR_EUR / RATE_XMR_USD else usd)
      else None)"

definition direct_pair :: "token \<Rightarrow> token \<Rightarrow> bool" where
  "direct_pair f t \<longleftrightarrow> (f = ''XMR'' \<and> t \<in> {''xUSD'', ''xEUR''}) \<or> (f \<in> {''xUSD'', ''xEUR''} \<and> t = ''XMR'')"

text \<open>One turn of the double loop; a conversion that raises is skipped.\<close>

type_synonym sell_state = "conversion_result list \<times> rate_cache \<times> db"

definition try_convert ::
  "moment \<Rightarrow> decimal \<Rightarrow> rate_feed \<Rightarrow> ident \<Rightarrow> token \<Rightarrow> token \<Rightarrow> decimal \<Rightarrow> sell_state \<Rightarrow> sell_state"
where
  "try_convert now clock live a f t usd s =
     (case s of (convs, cache, d) \<Rightarrow>
        case amount_for_usd f usd of
          None \<Rightarrow> s
        | Some amount \<Rightarrow>
            if amount \<le> 0 then s
            else if \<not> direct_pair f t then s
            else case convert now clock live a f t amount cache d of
                   (Inl e, cache1) \<Rightarrow> (convs, cache1, d)
                 | (Inr (r, d1), cache1) \<Rightarrow> (convs @ [r], cache1, d1))"

definition sell_step ::
  "moment \<Rightarrow> decimal \<Rightarrow> rate_feed \<Rightarrow> ident \<Rightarrow> decimal \<Rightarrow> (token \<times> decimal) \<times> token \<times> decimal \<Rightarrow> sell_state \<Rightarrow> sell_state"
where
  "sell_step now clock live a reserve_usd p s =
     (let ((from_token, excess_usd), (to_token, deficit_usd)) = p;
          convert_usd = min excess_usd deficit_usd
      in if convert_usd < 1 / 100 then s
         else if from_token = ''XMR'' then
           (case s of (convs, cache, d) \<Rightarrow>
              let (xmr_bal, t1) = get_available now a ''XMR'' (balances d);
                  s1 = (convs, cache, d\<lparr>balances := t1\<rparr>);
                  max_sell_usd = xmr_bal * RATE_XMR_USD - reserve_usd
              in if max_sell_usd \<le> 0 then s1
                 else try_convert now clock live a from_token to_token (min convert_usd max_sell_usd) s1)
         else try_convert now clock live a from_token to_token convert_usd s)"

definition sell_all ::
  "moment \<Rightarrow> decimal \<Rightarrow> rate_feed \<Rightarrow> ident \<Rightarrow> decimal \<Rightarrow> (token \<times> decimal) list \<Rightarrow> (token \<times> decimal) list \<Rightarrow> sell_state \<Rightarrow> sell_state"
where
  "sell_all now clock live a reserve_usd overs unders =
     fold (sell_step now clock live a reserve_usd) (List.product overs unders)"

datatype rebalance_result =
    NotRebalanced string
  | Rebalanced "conversion_result list" "(token \<times> int) list" "(token \<times> int) list" decimal

definition or_else :: "int \<Rightarrow> int \<Rightarrow> int" where
  "or_else x fallback = (if x = 0 then fallback else x)"

definition rebalance ::
  "moment \<Rightarrow> decimal \<Rightarrow> rate_feed \<Rightarrow> ident \<Rightarrow> string \<Rightarrow> rate_cache \<Rightarrow> db
    \<Rightarrow> (rebalance_result \<times> db) outcome \<times> rate_cache"
where
  "rebalance now clock live a trigger cache d =
     (case row_of (treasury_policies d) a of
        None \<Rightarrow> (Inl (ValueError ''No active treasury policy found''), cache)
      | Some p \<Rightarrow>
          if \<not> tp_is_active p then (Inl (ValueError ''No active treasury policy found''), cache)
          else let target = tp_target_allocation p;
                   threshold_pct = or_else (tp_rebalance_threshold_pct p) 5;
                   cooldown_secs = or_else (tp_rebalance_cooldown_secs p) 300;
                   reserve_pct = or_else (tp_emergency_reserve_pct p) 10
            in if (case tp_last_rebalance_at p of None \<Rightarrow> False | Some stamp \<Rightarrow> now - stamp < seconds cooldown_secs)
               then (Inr (NotRebalanced ''cooldown'', d), cache)
               else let status = get_status a d;
                        current = ts_allocation_pct status;
                        total_usd = ts_total_value status
                 in if total_usd \<le> 0 then (Inr (NotRebalanced ''no_balance'', d), cache)
                    else if max_drift target current < threshold_pct
                    then (Inr (NotRebalanced ''below_threshold'', d), cache)
                    else let overs = over_allocated target current total_usd;
                             unders = under_allocated target current total_usd;
                             reserve_usd = total_usd * of_int reserve_pct / 100;
                             (convs, cache1, d1) = sell_all now clock live a reserve_usd overs unders ([], cache, d)
                      in if convs = [] then (Inr (NotRebalanced ''no_conversions_needed'', d1), cache1)
                         else let post = get_status a d1;
                                  log = rebalance_log_create now a trigger convs current
                                    (ts_allocation_pct post) (ts_total_value post)
                           in (Inr (Rebalanced convs current (ts_allocation_pct post) (ts_total_value post),
                                 d1\<lparr>rebalance_logs := add_row log (rebalance_logs d1),
                                    treasury_policies := update_last_rebalance now a (treasury_policies d1)\<rparr>), cache1))"

end
