(* ===== verification/Treasury_Life.thy ===== *)
theory Treasury_Life
  imports Treasury
begin

text \<open>
  What conversions and treasury requests do over any sequence of them: the policies on record stay
  well formed, in exact arithmetic the value of a portfolio falls by the conversion fees, and a rebalance keeps
  the XMR reserve and starts its cooldown.
\<close>

section \<open>The value of a portfolio\<close>

text \<open>The dollar value the status reports is the value of the three priced balances.\<close>

definition portfolio_value :: "ident \<Rightarrow> balance_table \<Rightarrow> decimal" where
  "portfolio_value a t = token_usd_value ''XMR'' (available_of a ''XMR'' t)
     + token_usd_value ''xUSD'' (available_of a ''xUSD'' t) + token_usd_value ''xEUR'' (available_of a ''xEUR'' t)"

text \<open>Dollars per unit of a priced token.\<close>

definition usd_price :: "token \<Rightarrow> decimal" where
  "usd_price tok = (if tok = ''xUSD'' then 1 else if tok = ''XMR'' then 150
     else if tok = ''xEUR'' then 150 / 138 else 0)"

lemma token_usd_value_eq: "token_usd_value tok x = x * usd_price tok"
  by (simp add: token_usd_value_def usd_price_def RATE_XMR_USD_def RATE_XMR_EUR_def)

lemma portfolio_value_eq:
  "portfolio_value a t = available_of a ''XMR'' t * 150 + available_of a ''xUSD'' t
     + available_of a ''xEUR'' t * (150 / 138)"
  by (simp add: portfolio_value_def token_usd_value_eq usd_price_def)

lemma agent_rows_value:
  assumes "table_ok t"
  shows "sum_list (map (\<lambda>(tok, x). token_usd_value tok x) (agent_rows a t)) = portfolio_value a t"
  using assms
proof (induction t)
  case Nil
  then show ?case by (simp add: agent_rows_def portfolio_value_eq)
next
  case (Cons kv t)
  obtain b tok r where kv: "kv = ((b, tok), r)" by (cases kv) auto
  from Cons.prems have ok: "table_ok t" and fresh: "row_of t (b, tok) = None"
    by (auto simp: kv table_ok_def keys_of_def row_of_None_iff)
  have none: "available_of b tok t = 0" using fresh by (simp add: available_of_def)
  have avail: "available_of a u (kv # t) = (if b = a \<and> u = tok then bal_available r else available_of a u t)" for u
    by (auto simp: kv available_of_def)
  show ?case
  proof (cases "b = a")
    case False
    then have "portfolio_value a (kv # t) = portfolio_value a t" by (simp add: portfolio_value_eq avail)
    with False Cons.IH [OF ok] show ?thesis by (simp add: agent_rows_def kv)
  next
    case True
    have "portfolio_value a (kv # t) = portfolio_value a t + token_usd_value tok (bal_available r)"
      using none True by (auto simp: portfolio_value_eq avail token_usd_value_eq usd_price_def)
    with True Cons.IH [OF ok] show ?thesis by (simp add: agent_rows_def kv)
  qed
qed

text \<open>No balance of the agent is negative (a CHECK constraint of the table).\<close>

definition rows_nonneg :: "ident \<Rightarrow> balance_table \<Rightarrow> bool" where
  "rows_nonneg a t \<longleftrightarrow> (\<forall>tok. 0 \<le> available_of a tok t)"

lemma agent_rows_nonneg:
  assumes "table_ok t" and "rows_nonneg a t" and "(tok, x) \<in> set (agent_rows a t)"
  shows "0 \<le> x"
proof -
  obtain r where "((a, tok), r) \<in> set t" and x: "x = bal_available r"
    using assms(3) by (auto simp: agent_rows_def)
  then have "row_of t (a, tok) = Some r" using mem_row_of [OF assms(1)] by blast
  then have "available_of a tok t = x" by (simp add: available_of_def x)
  then show ?thesis using assms(2) by (auto simp: rows_nonneg_def)
qed

lemma sum_positive_part:
  fixes ps :: "(token \<times> decimal) list"
  assumes "\<And>tok x. (tok, x) \<in> set ps \<Longrightarrow> 0 \<le> x"
  shows "sum_list (map (\<lambda>(tok, x). token_usd_value tok x) (filter (\<lambda>(tok, x). x > 0) ps))
    = sum_list (map (\<lambda>(tok, x). token_usd_value tok x) ps)"
  using assms
proof (induction ps)
  case (Cons p ps)
  obtain tok x where p: "p = (tok, x)" by (cases p)
  have "0 \<le> x" using Cons.prems p by auto
  moreover have "sum_list (map (\<lambda>(tok, x). token_usd_value tok x) (filter (\<lambda>(tok, x). x > 0) ps))
      = sum_list (map (\<lambda>(tok, x). token_usd_value tok x) ps)"
    using Cons.prems by (intro Cons.IH) auto
  ultimately show ?case by (auto simp: p token_usd_value_eq)
qed simp

lemma status_value:
  assumes "table_ok (balances d)" and "rows_nonneg a (balances d)"
  shows "ts_total_value (get_status a d) = portfolio_value a (balances d)"
  using sum_positive_part [of "agent_rows a (balances d)"] agent_rows_nonneg [OF assms]
    agent_rows_value [OF assms(1)]
  by (simp add: get_status_def Let_def)

section \<open>Conversions\<close>

text \<open>What the conversions on record have cost an agent, in dollars.\<close>

definition fees_paid_usd :: "ident \<Rightarrow> db \<Rightarrow> decimal" where
  "fees_paid_usd a d = table_sum (\<lambda>_ c. if cc_agent_id c = a then token_usd_value (cc_to_currency c) (cc_fee_amount c)
     else 0) (currency_conversions d)"

definition funds_ok :: "db \<Rightarrow> bool" where
  "funds_ok d \<longleftrightarrow> table_ok (balances d) \<and> (\<forall>a. rows_nonneg a (balances d))"

text \<open>The prices at which conversions are valued agree with the rates they use.\<close>

lemma fixed_rate_prices:
  assumes "pair_key f t \<in> set SUPPORTED_CONVERSIONS"
  shows "fixed_rate f t * usd_price t = usd_price f" and "0 < fixed_rate f t" and "f \<noteq> t"
    and "f \<in> {''XMR'', ''xUSD'', ''xEUR''}" and "t \<in> {''XMR'', ''xUSD'', ''xEUR''}"
  by (rule convert_pairs [OF assms];
      simp add: fixed_rate_def usd_price_def RATE_XMR_USD_def RATE_XMR_EUR_def)+

lemma portfolio_value_move:
  assumes "\<And>u. available_of b u t' = available_of b u t - (if u = f then x else 0) + (if u = g then y else 0)"
    and "f \<in> {''XMR'', ''xUSD'', ''xEUR''}" and "g \<in> {''XMR'', ''xUSD'', ''xEUR''}"
  shows "portfolio_value b t' = portfolio_value b t - x * usd_price f + y * usd_price g"
  using assms(2,3) by (auto simp: portfolio_value_eq assms(1) usd_price_def field_simps)

lemma convert_effect:
  assumes "fst (convert now clock live a f t x cache d) = Inr (r, d')" and "funds_ok d"
  shows "funds_ok d'" and "portfolio_value b (balances d') + fees_paid_usd b d'
      = portfolio_value b (balances d) + fees_paid_usd b d"
    and "available_of a f (balances d') = available_of a f (balances d) - x"
    and "u \<noteq> f \<Longrightarrow> available_of a u (balances d) \<le> available_of a u (balances d')"
    and "treasury_policies d' = treasury_policies d" and "rebalance_logs d' = rebalance_logs d"
proof -
  obtain t1 where pair: "pair_key f t \<in> set SUPPORTED_CONVERSIONS" and x: "0 < x"
    and t1: "deduct now a x f (balances d) = Inr t1"
    and d': "d' = d\<lparr>balances := credit now a (x * fixed_rate f t - x * fixed_rate f t * CONVERSION_FEE) t t1,
                currency_conversions := add_row (conversion_create now a f x t
                   (x * fixed_rate f t - x * fixed_rate f t * CONVERSION_FEE) (fixed_rate f t)
                  (x * fixed_rate f t * CONVERSION_FEE)) (currency_conversions d)\<rparr>"
    by (rule convert_Inr [OF assms(1)]) (rule that)
  note prices = fixed_rate_prices [OF pair]
  define net where "net = x * fixed_rate f t - x * fixed_rate f t * CONVERSION_FEE"
  have net: "0 \<le> net" using x prices(2) by (simp add: net_def CONVERSION_FEE_def)
  have av: "available_of b u (balances d') = available_of b u (balances d)
      - (if b = a \<and> u = f then x else 0) + (if b = a \<and> u = t then net else 0)" for b u
    by (simp add: d' net_def available_credit deduct_Inr(2) [OF t1])
  have ok: "table_ok (balances d)" and nn: "0 \<le> available_of b u (balances d)" for b u
    using assms(2) by (simp_all add: funds_ok_def rows_nonneg_def)
  have "table_ok (balances d')" using deduct_Inr(4) [OF t1] ok by (simp add: d')
  moreover have "0 \<le> available_of b u (balances d')" for b u
    using nn [of b u] deduct_Inr(1) [OF t1] net prices(3) by (simp add: av)
  ultimately show "funds_ok d'" by (simp add: funds_ok_def rows_nonneg_def)
  have fees: "fees_paid_usd b d' = fees_paid_usd b d
      + (if b = a then x * fixed_rate f t * CONVERSION_FEE * usd_price t else 0)"
    by (simp add: fees_paid_usd_def d' table_sum_add_row conversion_create_def token_usd_value_eq)
  have fee: "x * fixed_rate f t * CONVERSION_FEE * usd_price t = x * usd_price f * CONVERSION_FEE"
    by (simp add: prices(1) [symmetric])
  show "portfolio_value b (balances d') + fees_paid_usd b d' = portfolio_value b (balances d) + fees_paid_usd b d"
  proof (cases "b = a")
    case True
    have "portfolio_value b (balances d') = portfolio_value b (balances d) - x * usd_price f + net * usd_price t"
      using portfolio_value_move [OF _ prices(4,5), of b "balances d'" "balances d" x net] True by (simp add: av)
    moreover have "net * usd_price t = x * usd_price f - x * usd_price f * CONVERSION_FEE"
      by (simp add: net_def prices(1) [symmetric] algebra_simps)
    ultimately show ?thesis using True fees [unfolded fee] by simp
  next
    case False
    then show ?thesis by (simp add: fees portfolio_value_eq av)
  qed
  show "available_of a f (balances d') = available_of a f (balances d) - x" using prices(3) by (simp add: av)
  show "u \<noteq> f \<Longrightarrow> available_of a u (balances d) \<le> available_of a u (balances d')" using net by (simp add: av)
  show "treasury_policies d' = treasury_policies d" and "rebalance_logs d' = rebalance_logs d" by (simp_all add: d')
qed

section \<open>Rebalancing\<close>

text \<open>What a step of the selling loop keeps: the books, the policies, and the XMR above the reserve.\<close>

definition sells_well :: "ident \<Rightarrow> decimal \<Rightarrow> sell_state \<Rightarrow> sell_state \<Rightarrow> bool" where
  "sells_well a reserve_usd s s' \<longleftrightarrow>
     (let d = snd (snd s); d' = snd (snd s') in
      funds_ok d' \<and> treasury_policies d' = treasury_policies d \<and> rebalance_logs d' = rebalance_logs d
      \<and> (\<forall>b. portfolio_value b (balances d') + fees_paid_usd b d' = portfolio_value b (balances d) + fees_paid_usd b d)
      \<and> min (available_of a ''XMR'' (balances d) * RATE_XMR_USD) reserve_usd
          \<le> available_of a ''XMR'' (balances d') * RATE_XMR_USD)"

lemma sells_well_refl: "funds_ok (snd (snd s)) \<Longrightarrow> sells_well a m s s"
  by (simp add: sells_well_def Let_def min_le_iff_disj)

lemma sells_well_trans: "sells_well a m s s1 \<Longrightarrow> sells_well a m s1 s2 \<Longrightarrow> sells_well a m s s2"
  by (simp add: sells_well_def Let_def) linarith

lemma sells_well_ok: "sells_well a m s s' \<Longrightarrow> funds_ok (snd (snd s'))"
  by (simp add: sells_well_def Let_def)

text \<open>A conversion of at most the XMR above the reserve, or of another token.\<close>

lemma try_convert_well:
  assumes ok: "funds_ok d"
    and room: "f = ''XMR'' \<Longrightarrow> usd \<le> available_of a ''XMR'' (balances d) * RATE_XMR_USD - m"
  shows "sells_well a m (convs, cache, d) (try_convert now clock live a f t usd (convs, cache, d))"
proof (cases "amount_for_usd f usd")
  case None
  then show ?thesis using ok by (simp add: try_convert_def sells_well_refl)
next
  case (Some x)
  show ?thesis
  proof (cases "0 < x \<and> direct_pair f t \<and> (\<exists>r d'. fst (convert now clock live a f t x cache d) = Inr (r, d'))")
    case False
    then have "snd (snd (try_convert now clock live a f t usd (convs, cache, d))) = d"
      by (auto simp: try_convert_def Some split: prod.splits sum.splits)
    then show ?thesis using ok by (simp add: sells_well_def Let_def min_le_iff_disj)
  next
    case True
    then obtain r d' where run: "fst (convert now clock live a f t x cache d) = Inr (r, d')"
      and x: "0 < x" and pair: "direct_pair f t" by blast
    have res: "snd (snd (try_convert now clock live a f t usd (convs, cache, d))) = d'"
      using run x pair by (cases "convert now clock live a f t x cache d") (simp add: try_convert_def Some)
    note effect = convert_effect [OF run ok]
    have "min (available_of a ''XMR'' (balances d) * RATE_XMR_USD) m
        \<le> available_of a ''XMR'' (balances d') * RATE_XMR_USD"
    proof (cases "f = ''XMR''")
      case True
      then have "x * RATE_XMR_USD = usd" using Some by (auto simp: amount_for_usd_def RATE_XMR_USD_def)
      with room [OF True] True effect(3) show ?thesis by (simp add: left_diff_distrib)
    next
      case False
      then have "available_of a ''XMR'' (balances d) \<le> available_of a ''XMR'' (balances d')"
        by (intro effect(4)) simp
      then show ?thesis by (simp add: min_le_iff_disj RATE_XMR_USD_def)
    qed
    then show ?thesis using effect(1,2,5,6) by (simp add: sells_well_def Let_def res)
  qed
qed

lemma fees_paid_balances [simp]: "fees_paid_usd b (d\<lparr>balances := t\<rparr>) = fees_paid_usd b d"
  by (simp add: fees_paid_usd_def)

lemma sell_step_well:
  assumes "funds_ok (snd (snd s))"
  shows "sells_well a m s (sell_step now clock live a m p s)"
proof -
  obtain convs cache d where s: "s = (convs, cache, d)" by (cases s)
  obtain f excess t deficit where p: "p = ((f, excess), t, deficit)" by (cases p) auto
  have ok: "funds_ok d" using assms by (simp add: s)
  let ?d1 = "d\<lparr>balances := get_or_create now a ''XMR'' (balances d)\<rparr>"
  have ok1: "funds_ok ?d1" using ok by (simp add: funds_ok_def rows_nonneg_def available_get_or_create)
  have looked: "sells_well a m s (convs, cache, ?d1)"
    using ok1 by (simp add: sells_well_def Let_def s available_get_or_create portfolio_value_eq min_le_iff_disj)
  show ?thesis
  proof (cases "f = ''XMR'' \<and> 1 / 100 \<le> min excess deficit")
    case False
    then consider "min excess deficit < 1 / 100" | "f \<noteq> ''XMR''" by fastforce
    then show ?thesis
    proof cases
      case 1
      then show ?thesis using ok by (simp add: sell_step_def s p sells_well_refl)
    next
      case 2
      then show ?thesis
        using try_convert_well [OF ok, of f "min excess deficit" a m convs cache now clock live t] ok
        by (simp add: sell_step_def s p Let_def sells_well_refl)
    qed
  next
    case True
    let ?room = "available_of a ''XMR'' (balances d) * RATE_XMR_USD - m"
    show ?thesis
    proof (cases "?room \<le> 0")
      case True2: True
      then show ?thesis
        using True looked by (simp add: sell_step_def s p get_available_eq not_less [symmetric])
    next
      case False
      have "sells_well a m (convs, cache, ?d1)
          (try_convert now clock live a f t (min (min excess deficit) ?room) (convs, cache, ?d1))"
        by (rule try_convert_well [OF ok1]) (simp add: available_get_or_create)
      with looked have "sells_well a m s
          (try_convert now clock live a f t (min (min excess deficit) ?room) (convs, cache, ?d1))"
        by (rule sells_well_trans)
      then show ?thesis
        using True False by (simp add: sell_step_def s p get_available_eq not_less [symmetric])
    qed
  qed
qed

lemma sell_fold_well:
  "funds_ok (snd (snd s)) \<Longrightarrow> sells_well a m s (fold (sell_step now clock live a m) ps s)"
proof (induction ps arbitrary: s)
  case (Cons p ps)
  have step: "sells_well a m s (sell_step now clock live a m p s)" by (rule sell_step_well [OF Cons.prems])
  then have "sells_well a m (sell_step now clock live a m p s)
      (fold (sell_step now clock live a m) ps (sell_step now clock live a m p s))"
    by (intro Cons.IH) (rule sells_well_ok)
  with step show ?case by (simp add: sells_well_trans)
qed (simp add: sells_well_refl)

text \<open>How a request that is not refused ends, given the policy it finds.\<close>

definition reserve_usd :: "ident \<Rightarrow> treasury_policy \<Rightarrow> db \<Rightarrow> decimal" where
  "reserve_usd a p d = ts_total_value (get_status a d) * of_int (or_else (tp_emergency_reserve_pct p) 10) / 100"

definition cooled_down :: "moment \<Rightarrow> treasury_policy \<Rightarrow> bool" where
  "cooled_down now p \<longleftrightarrow> (case tp_last_rebalance_at p of None \<Rightarrow> True
     | Some stamp \<Rightarrow> seconds (or_else (tp_rebalance_cooldown_secs p) 300) \<le> now - stamp)"

inductive rebalance_ends ::
  "moment \<Rightarrow> decimal \<Rightarrow> rate_feed \<Rightarrow> ident \<Rightarrow> treasury_policy \<Rightarrow> rate_cache \<Rightarrow> db \<Rightarrow> rebalance_result \<Rightarrow> db \<Rightarrow> bool"
  for now clock live a p cache d
where
  idle: "rebalance_ends now clock live a p cache d (NotRebalanced reason) d"
| nothing_sold: "cooled_down now p
    \<Longrightarrow> fold (sell_step now clock live a (reserve_usd a p d)) ps ([], cache, d) = ([], cache1, d1)
    \<Longrightarrow> rebalance_ends now clock live a p cache d (NotRebalanced ''no_conversions_needed'') d1"
| sold: "cooled_down now p
    \<Longrightarrow> fold (sell_step now clock live a (reserve_usd a p d)) ps ([], cache, d) = (convs, cache1, d1)
    \<Longrightarrow> rebalance_ends now clock live a p cache d (Rebalanced convs pre post total_value)
        (d1\<lparr>rebalance_logs := add_row entry (rebalance_logs d1),
            treasury_policies := update_last_rebalance now a (treasury_policies d1)\<rparr>)"

lemma rebalance_Inr:
  assumes "fst (rebalance now clock live a trigger cache d) = Inr (r, d')"
  obtains p where "row_of (treasury_policies d) a = Some p" and "tp_is_active p"
    and "rebalance_ends now clock live a p cache d r d'"
proof -
  obtain p where p: "row_of (treasury_policies d) a = Some p" "tp_is_active p"
    using assms by (auto simp: rebalance_def split: option.splits if_splits)
  let ?status = "get_status a d"
  define ps where "ps = List.product
      (over_allocated (tp_target_allocation p) (ts_allocation_pct ?status) (ts_total_value ?status))
      (under_allocated (tp_target_allocation p) (ts_allocation_pct ?status) (ts_total_value ?status))"
  obtain convs cache1 d1 where sold:
    "fold (sell_step now clock live a (reserve_usd a p d)) ps ([], cache, d) = (convs, cache1, d1)"
    by (cases "fold (sell_step now clock live a (reserve_usd a p d)) ps ([], cache, d)")
  have "rebalance_ends now clock live a p cache d r d'"
  proof (cases "\<not> cooled_down now p \<or> ts_total_value ?status \<le> 0
      \<or> max_drift (tp_target_allocation p) (ts_allocation_pct ?status) < or_else (tp_rebalance_threshold_pct p) 5")
    case True
    then have "(\<exists>reason. r = NotRebalanced reason) \<and> d' = d"
      using assms p by (auto simp: rebalance_def Let_def cooled_down_def not_le split: if_splits option.splits)
    then show ?thesis by (auto intro: rebalance_ends.idle)
  next
    case False
    then show ?thesis
      using assms p sold rebalance_ends.nothing_sold [of now p clock live a d ps cache cache1 d1]
        rebalance_ends.sold [of now p clock live a d ps cache convs cache1 d1]
      by (auto simp: rebalance_def Let_def sell_all_def ps_def [symmetric] reserve_usd_def [symmetric]
          cooled_down_def split: if_splits option.splits)
  qed
  with p show thesis by (rule that)
qed

lemma funds_ok_policies [simp]: "funds_ok (d\<lparr>rebalance_logs := l, treasury_policies := t\<rparr>) = funds_ok d"
  by (simp add: funds_ok_def)

lemma fees_paid_policies [simp]:
  "fees_paid_usd b (d\<lparr>rebalance_logs := l, treasury_policies := t\<rparr>) = fees_paid_usd b d"
  by (simp add: fees_paid_usd_def)

lemma rebalance_ends_well:
  assumes "rebalance_ends now clock live a p cache d r d'" and "funds_ok d"
  obtains convs cache1 d1 entry where "sells_well a (reserve_usd a p d) ([], cache, d) (convs, cache1, d1)"
    and "d' = d1 \<or> d' = d1\<lparr>rebalance_logs := add_row entry (rebalance_logs d1),
            treasury_policies := update_last_rebalance now a (treasury_policies d1)\<rparr>"
proof -
  have selling: "sells_well a (reserve_usd a p d) ([], cache, d)
      (fold (sell_step now clock live a (reserve_usd a p d)) ps ([], cache, d))" for ps
    by (rule sell_fold_well) (simp add: assms(2))
  from assms(1) show thesis
  proof cases
    case idle
    have "sells_well a (reserve_usd a p d) ([], cache, d) ([], cache, d)"
      by (rule sells_well_refl) (simp add: assms(2))
    then show thesis by (rule that) (simp add: idle)
  next
    case (nothing_sold ps cache1)
    show thesis by (rule that [OF selling [of ps, unfolded nothing_sold(3)]]) simp
  next
    case (sold ps convs cache1 d1 pre post total_value entry)
    show thesis by (rule that [OF selling [of ps, unfolded sold(4)]]) (rule disjI2, rule sold(2))
  qed
qed

lemma rebalance_effect:
  assumes "fst (rebalance now clock live a trigger cache d) = Inr (r, d')" and "funds_ok d"
  shows "funds_ok d'"
    and "portfolio_value b (balances d') + fees_paid_usd b d' = portfolio_value b (balances d) + fees_paid_usd b d"
    and "treasury_policies d' = treasury_policies d
      \<or> treasury_policies d' = update_last_rebalance now a (treasury_policies d)"
    and "row_of (treasury_policies d) a = Some p \<Longrightarrow>
      min (available_of a ''XMR'' (balances d) * RATE_XMR_USD) (reserve_usd a p d)
        \<le> available_of a ''XMR'' (balances d') * RATE_XMR_USD"
proof -
  obtain q where q: "row_of (treasury_policies d) a = Some q"
    and ends: "rebalance_ends now clock live a q cache d r d'"
    by (rule rebalance_Inr [OF assms(1)]) (rule that)
  obtain convs cache1 d1 entry where well: "sells_well a (reserve_usd a q d) ([], cache, d) (convs, cache1, d1)"
    and d': "d' = d1 \<or> d' = d1\<lparr>rebalance_logs := add_row entry (rebalance_logs d1),
            treasury_policies := update_last_rebalance now a (treasury_policies d1)\<rparr>"
    by (rule rebalance_ends_well [OF ends assms(2)]) (rule that)
  from d' well show "funds_ok d'"
    and "portfolio_value b (balances d') + fees_paid_usd b d' = portfolio_value b (balances d) + fees_paid_usd b d"
    and "treasury_policies d' = treasury_policies d
      \<or> treasury_policies d' = update_last_rebalance now a (treasury_policies d)"
    by (auto simp: sells_well_def Let_def)
  show "row_of (treasury_policies d) a = Some p \<Longrightarrow>
      min (available_of a ''XMR'' (balances d) * RATE_XMR_USD) (reserve_usd a p d)
        \<le> available_of a ''XMR'' (balances d') * RATE_XMR_USD"
    using d' well q by (auto simp: sells_well_def Let_def)
qed

text \<open>The runs of conversions and treasury requests, by anybody and at any time.\<close>

datatype treasury_op =
    SetPolicy ident "(token \<times> int) list" int int int
  | DeactivatePolicy ident
  | Rebalance ident string
  | Convert ident token token decimal

definition keep_db :: "db \<Rightarrow> ('a \<times> db) outcome \<times> rate_cache \<Rightarrow> rate_cache \<times> db" where
  "keep_db d r = (snd r, case fst r of Inl e \<Rightarrow> d | Inr (x, d') \<Rightarrow> d')"

fun treasury_exec :: "moment \<Rightarrow> decimal \<Rightarrow> rate_feed \<Rightarrow> treasury_op \<Rightarrow> rate_cache \<times> db \<Rightarrow> rate_cache \<times> db" where
  "treasury_exec now clock live (SetPolicy a target threshold_pct cooldown reserve_pct) (cache, d) =
     (cache, case set_policy a target threshold_pct cooldown reserve_pct d of Inl e \<Rightarrow> d | Inr d' \<Rightarrow> d')"
| "treasury_exec now clock live (DeactivatePolicy a) (cache, d) = (cache, deactivate_policy a d)"
| "treasury_exec now clock live (Rebalance a trigger) (cache, d) =
     keep_db d (rebalance now clock live a trigger cache d)"
| "treasury_exec now clock live (Convert a f t x) (cache, d) = keep_db d (convert now clock live a f t x cache d)"

definition treasury_run ::
  "(moment \<times> decimal \<times> rate_feed \<times> treasury_op) list \<Rightarrow> rate_cache \<times> db \<Rightarrow> rate_cache \<times> db"
where
  "treasury_run = fold (\<lambda>(now, clock, live, q). treasury_exec now clock live q)"


section \<open>The policies on record\<close>

definition policy_wellformed :: "treasury_policy \<Rightarrow> bool" where
  "policy_wellformed p \<longleftrightarrow> tp_target_allocation p \<noteq> []
     \<and> (\<forall>(tok, pct) \<in> set (tp_target_allocation p). 0 \<le> pct) \<and> sum_list (map snd (tp_target_allocation p)) = 100"

text \<open>One policy per agent, each well formed; a policy once inactive stays inactive.\<close>

definition policies_wellformed :: "policy_table \<Rightarrow> bool" where
  "policies_wellformed t \<longleftrightarrow> table_ok t \<and> (\<forall>a p. row_of t a = Some p \<longrightarrow> policy_wellformed p)"

definition switched_off :: "ident \<Rightarrow> policy_table \<Rightarrow> bool" where
  "switched_off a t \<longleftrightarrow> (case row_of t a of None \<Rightarrow> False | Some p \<Rightarrow> \<not> tp_is_active p)"

lemma policies_update:
  assumes "policies_wellformed t" and "\<And>p. tp_target_allocation (f p) = tp_target_allocation p"
    and "\<And>p. tp_is_active (f p) \<Longrightarrow> tp_is_active p"
  shows "policies_wellformed (modify_row a f t)" and "switched_off b t \<Longrightarrow> switched_off b (modify_row a f t)"
proof -
  have wf: "policy_wellformed (f p) = policy_wellformed p" for p by (simp add: policy_wellformed_def assms(2))
  show "policies_wellformed (modify_row a f t)"
    using assms(1) by (auto simp: policies_wellformed_def row_of_modify_row wf)
  show "switched_off b t \<Longrightarrow> switched_off b (modify_row a f t)"
    using assms(3) by (auto simp: switched_off_def row_of_modify_row split: option.splits)
qed

lemma set_policy_Inr:
  assumes "set_policy a target thr cool res d = Inr d'"
  shows "policy_wellformed p \<or> tp_target_allocation p \<noteq> target"
    and "d' = d\<lparr>treasury_policies := policy_upsert a target thr (cool * 60) None None res False 20 70 3600 (treasury_policies d)\<rparr>"
  using assms by (auto simp: set_policy_def policy_wellformed_def split: if_splits)

lemma policies_upsert:
  assumes "policies_wellformed t" and "\<And>p. policy_wellformed p \<or> tp_target_allocation p \<noteq> target"
  shows "policies_wellformed (policy_upsert a target thr cool mx mu res al ml mt mo t)"
    and "switched_off b t \<Longrightarrow> switched_off b (policy_upsert a target thr cool mx mu res al ml mt mo t)"
proof -
  have wf: "policy_wellformed p" if "tp_target_allocation p = target" for p using assms(2) that by blast
  show "policies_wellformed (policy_upsert a target thr cool mx mu res al ml mt mo t)"
    using assms(1)
    by (cases "row_of t a") (auto simp: policies_wellformed_def policy_upsert_def row_of_modify_row row_of_insert wf
        split: option.splits if_splits)
  show "switched_off b t \<Longrightarrow> switched_off b (policy_upsert a target thr cool mx mu res al ml mt mo t)"
    by (cases "row_of t a") (auto simp: switched_off_def policy_upsert_def row_of_modify_row row_of_insert
        split: option.splits)
qed

lemma policy_deactivate_row:
  "row_of (snd (policy_deactivate a t)) b = map_option (\<lambda>p. if b = a then p\<lparr>tp_is_active := False\<rparr> else p) (row_of t b)"
  by (cases "row_of t b") (simp_all add: policy_deactivate_def row_of_update_row)

lemma policies_deactivate:
  assumes "policies_wellformed t"
  shows "policies_wellformed (snd (policy_deactivate a t))"
    and "switched_off b t \<Longrightarrow> switched_off b (snd (policy_deactivate a t))"
proof -
  have wf: "policy_wellformed (p\<lparr>tp_is_active := False\<rparr>) = policy_wellformed p" for p
    by (simp add: policy_wellformed_def)
  have "table_ok (snd (policy_deactivate a t)) = table_ok t" by (simp add: policy_deactivate_def)
  then show "policies_wellformed (snd (policy_deactivate a t))"
    using assms by (auto simp: policies_wellformed_def policy_deactivate_row wf)
  show "switched_off b t \<Longrightarrow> switched_off b (snd (policy_deactivate a t))"
    by (auto simp: switched_off_def policy_deactivate_row split: option.splits)
qed

definition treasury_state_ok :: "rate_cache \<times> db \<Rightarrow> bool" where
  "treasury_state_ok s \<longleftrightarrow> policies_wellformed (treasury_policies (snd s)) \<and> funds_ok (snd s)"

lemma treasury_exec_step:
  assumes "treasury_state_ok s"
  shows "treasury_state_ok (treasury_exec now clock live q s)"
    and "portfolio_value b (balances (snd (treasury_exec now clock live q s))) + fees_paid_usd b (snd (treasury_exec now clock live q s))
      = portfolio_value b (balances (snd s)) + fees_paid_usd b (snd s)"
    and "switched_off b (treasury_policies (snd s))
      \<Longrightarrow> switched_off b (treasury_policies (snd (treasury_exec now clock live q s)))"
proof -
  obtain cache d where s: "s = (cache, d)" by (cases s)
  let ?s = "treasury_exec now clock live q s"
  have pol: "policies_wellformed (treasury_policies d)" and ok: "funds_ok d"
    using assms by (simp_all add: treasury_state_ok_def s)
  have "treasury_state_ok ?s \<and> portfolio_value b (balances (snd ?s)) + fees_paid_usd b (snd ?s)
      = portfolio_value b (balances d) + fees_paid_usd b d
      \<and> (switched_off b (treasury_policies d) \<longrightarrow> switched_off b (treasury_policies (snd ?s)))"
  proof (cases q)
    case (SetPolicy a target thr cool res)
    show ?thesis
    proof (cases "set_policy a target thr cool res d")
      case (Inr d')
      note facts = set_policy_Inr [OF Inr]
      show ?thesis
        using policies_upsert [OF pol facts(1)] pol ok facts(2)
        by (simp add: s SetPolicy Inr treasury_state_ok_def funds_ok_def fees_paid_usd_def)
    qed (simp add: s SetPolicy treasury_state_ok_def pol ok)
  next
    case (DeactivatePolicy a)
    then show ?thesis
      using policies_deactivate [OF pol] ok
      by (simp add: s deactivate_policy_def treasury_state_ok_def funds_ok_def fees_paid_usd_def)
  next
    case (Rebalance a trigger)
    show ?thesis
    proof (cases "fst (rebalance now clock live a trigger cache d)")
      case (Inr rd)
      obtain r d' where rd: "rd = (r, d')" by (cases rd)
      note effect = rebalance_effect [OF Inr [unfolded rd] ok]
      have "policies_wellformed (treasury_policies d') \<and>
          (switched_off b (treasury_policies d) \<longrightarrow> switched_off b (treasury_policies d'))"
        using effect(3) pol policies_update [OF pol, of "\<lambda>p. p\<lparr>tp_last_rebalance_at := Some now\<rparr>"]
        by (auto simp: update_last_rebalance_def)
      then show ?thesis using effect(1,2)
        by (simp add: s Rebalance keep_db_def Inr rd treasury_state_ok_def)
    qed (simp add: s Rebalance keep_db_def treasury_state_ok_def pol ok)
  next
    case (Convert a f t x)
    show ?thesis
    proof (cases "fst (convert now clock live a f t x cache d)")
      case (Inr rd)
      obtain r d' where rd: "rd = (r, d')" by (cases rd)
      note effect = convert_effect [OF Inr [unfolded rd] ok]
      show ?thesis using effect(1,2,5) pol
        by (simp add: s Convert keep_db_def Inr rd treasury_state_ok_def)
    qed (simp add: s Convert keep_db_def treasury_state_ok_def pol ok)
  qed
  then show "treasury_state_ok ?s"
    and "portfolio_value b (balances (snd ?s)) + fees_paid_usd b (snd ?s)
      = portfolio_value b (balances (snd s)) + fees_paid_usd b (snd s)"
    and "switched_off b (treasury_policies (snd s)) \<Longrightarrow> switched_off b (treasury_policies (snd ?s))"
    by (simp_all add: s)
qed

lemma treasury_run_Cons:
  "treasury_run ((now, clock, live, q) # qs) s = treasury_run qs (treasury_exec now clock live q s)"
  by (simp add: treasury_run_def)

lemma treasury_run_step:
  assumes "treasury_state_ok s"
  shows "treasury_state_ok (treasury_run qs s)
    \<and> portfolio_value b (balances (snd (treasury_run qs s))) + fees_paid_usd b (snd (treasury_run qs s))
      = portfolio_value b (balances (snd s)) + fees_paid_usd b (snd s)
    \<and> (switched_off b (treasury_policies (snd s)) \<longrightarrow> switched_off b (treasury_policies (snd (treasury_run qs s))))"
  using assms
proof (induction qs arbitrary: s)
  case (Cons q qs)
  obtain now clock live op' where q: "q = (now, clock, live, op')" by (cases q) auto
  note step = treasury_exec_step [OF Cons.prems, where now = now and clock = clock and live = live and q = op']
  show ?case using Cons.IH [OF step(1)] step(2,3) by (simp add: treasury_run_Cons q)
qed (simp add: treasury_run_def)

lemma treasury_state_okI:
  "table_ok (treasury_policies d) \<Longrightarrow> (\<And>a p. row_of (treasury_policies d) a = Some p \<Longrightarrow> policy_wellformed p)
    \<Longrightarrow> table_ok (balances d) \<Longrightarrow> (\<And>a tok. 0 \<le> available_of a tok (balances d)) \<Longrightarrow> treasury_state_ok (cache, d)"
  by (simp add: treasury_state_ok_def policies_wellformed_def funds_ok_def rows_nonneg_def)

section \<open>Properties\<close>

text \<open>C21. Starting without policies, after any sequence of policy changes, rebalances and conversions
  by any agents at any times, every policy on record has a target, no negative share in it, and
  shares that sum to one hundred; an agent has at most one policy.\<close>

theorem treasury_policies_wellformed:
  assumes "treasury_policies d = []" and "table_ok (balances d)"
    and "\<And>a tok. 0 \<le> available_of a tok (balances d)"
    and "row_of (treasury_policies (snd (treasury_run qs (cache, d)))) a = Some p"
  shows "tp_target_allocation p \<noteq> []
    \<and> (\<forall>(tok, pct) \<in> set (tp_target_allocation p). 0 \<le> pct)
    \<and> sum_list (map snd (tp_target_allocation p)) = 100
    \<and> distinct (map fst (treasury_policies (snd (treasury_run qs (cache, d)))))"
proof -
  have "treasury_state_ok (cache, d)" using assms(1-3) by (intro treasury_state_okI) simp_all
  then have "policies_wellformed (treasury_policies (snd (treasury_run qs (cache, d))))"
    using treasury_run_step [of "(cache, d)" qs] by (simp add: treasury_state_ok_def)
  then show ?thesis
    using assms(4) by (simp_all add: policies_wellformed_def policy_wellformed_def table_ok_def keys_of_def)
qed

definition demo_treasury :: db where
  "demo_treasury = empty_db\<lparr>balances := credit 0 4 2 ''XMR'' []\<rparr>"

definition demo_policy_op :: treasury_op where
  "demo_policy_op = SetPolicy 4 [(''XMR'', 50), (''xUSD'', 50)] 5 60 10"

lemma demo_treasury_ok:
  "treasury_policies demo_treasury = []" "table_ok (balances demo_treasury)"
  "0 \<le> available_of a tok (balances demo_treasury)"
  by (simp_all add: demo_treasury_def empty_db_def available_credit)

lemma demo_policy_row:
  "row_of (treasury_policies (snd (treasury_run [(0, 0, None, demo_policy_op), (1, 0, None, SetPolicy 4 [(''XMR'', 99)] 5 60 10)]
     (\<lambda>_. None, demo_treasury)))) 4
   = Some \<lparr>tp_target_allocation = [(''XMR'', 50), (''xUSD'', 50)], tp_rebalance_threshold_pct = 5,
       tp_rebalance_cooldown_secs = 3600, tp_min_liquid_xmr = None, tp_min_liquid_xusd = None,
       tp_emergency_reserve_pct = 10, tp_auto_lend_enabled = False, tp_max_lend_pct = 20,
       tp_min_borrower_trust_score = 70, tp_max_loan_duration_secs = 3600, tp_is_active = True,
       tp_last_rebalance_at = None\<rparr>"
  by code_simp

theorem treasury_policies_wellformed_witness: "sum_list (map snd [(''XMR'', 50), (''xUSD'', 50)]) = (100 :: int)"
  using treasury_policies_wellformed [OF demo_treasury_ok demo_policy_row] by simp

text \<open>A policy that was deactivated cannot be used again: whatever its owner and others request
  afterwards, setting a new policy included, a rebalance is refused and changes nothing.\<close>

lemma deactivated_policy_stays_off:
  assumes "treasury_policies d = []" and "table_ok (balances d)"
    and "\<And>a tok. 0 \<le> available_of a tok (balances d)"
    and "row_of (treasury_policies (snd (treasury_run qs (cache, d)))) a \<noteq> None"
  shows "fst (rebalance now clock live a trigger cache'
      (snd (treasury_run rs (treasury_exec t clock' live' (DeactivatePolicy a) (treasury_run qs (cache, d))))))
    = Inl (ValueError ''No active treasury policy found'')"
proof -
  let ?s = "treasury_run qs (cache, d)"
  let ?t = "treasury_exec t clock' live' (DeactivatePolicy a) ?s"
  have "treasury_state_ok (cache, d)" using assms(1-3) by (intro treasury_state_okI) simp_all
  then have ok: "treasury_state_ok ?s" using treasury_run_step by blast
  obtain p where p: "row_of (treasury_policies (snd ?s)) a = Some p" using assms(4) by blast
  have "switched_off a (treasury_policies (snd ?t))"
    by (cases ?s) (use p in \<open>simp add: deactivate_policy_def switched_off_def policy_deactivate_row\<close>)
  moreover have "treasury_state_ok ?t" by (rule treasury_exec_step(1) [OF ok])
  ultimately have "switched_off a (treasury_policies (snd (treasury_run rs ?t)))"
    using treasury_run_step by blast
  then show ?thesis by (auto simp: switched_off_def rebalance_def split: option.splits)
qed

lemma demo_policy_set: "row_of (treasury_policies (snd (treasury_run [(0, 0, None, demo_policy_op)]
     (\<lambda>_. None, demo_treasury)))) 4 \<noteq> None"
  by code_simp

lemma deactivated_policy_stays_off_witness:
  "fst (rebalance 9 0 None 4 ''manual'' (\<lambda>_. None)
      (snd (treasury_run [(8, 0, None, demo_policy_op)]
        (treasury_exec 5 0 None (DeactivatePolicy 4) (treasury_run [(0, 0, None, demo_policy_op)] (\<lambda>_. None, demo_treasury))))))
    = Inl (ValueError ''No active treasury policy found'')"
  by (rule deactivated_policy_stays_off [OF demo_treasury_ok demo_policy_set])

text \<open>In exact arithmetic, over any sequence of conversions, rebalances and policy changes, what an agent's
  portfolio is worth at the fixed prices the status uses, together with the fees of its conversions on record, is
  constant, and no balance becomes negative. The program keeps 28 digits of a quotient and rounds the columns, so
  there both hold up to those roundings only.\<close>

lemma conversions_cost_their_fees:
  assumes "treasury_policies d = []" and "table_ok (balances d)"
    and "\<And>a tok. 0 \<le> available_of a tok (balances d)"
    and "snd (treasury_run qs (cache, d)) = d'"
  shows "ts_total_value (get_status a d')
      + table_sum (\<lambda>_ c. if cc_agent_id c = a then token_usd_value (cc_to_currency c) (cc_fee_amount c) else 0)
          (currency_conversions d')
    = ts_total_value (get_status a d)
      + table_sum (\<lambda>_ c. if cc_agent_id c = a then token_usd_value (cc_to_currency c) (cc_fee_amount c) else 0)
          (currency_conversions d)
    \<and> 0 \<le> available_of a tok (balances d')"
proof -
  have ok: "treasury_state_ok (cache, d)" using assms(1-3) by (intro treasury_state_okI) simp_all
  have run: "funds_ok d'" "portfolio_value a (balances d') + fees_paid_usd a d'
      = portfolio_value a (balances d) + fees_paid_usd a d"
    using treasury_run_step [OF ok, of qs a] assms(4) by (simp_all add: treasury_state_ok_def)
  have "ts_total_value (get_status a d) = portfolio_value a (balances d)"
    and "ts_total_value (get_status a d') = portfolio_value a (balances d')"
    using ok run(1) by (simp_all add: status_value treasury_state_ok_def funds_ok_def)
  with run show ?thesis by (simp add: fees_paid_usd_def funds_ok_def rows_nonneg_def)
qed

definition demo_conversions :: "(moment \<times> decimal \<times> rate_feed \<times> treasury_op) list" where
  "demo_conversions = [(0, 0, None, Convert 4 ''XMR'' ''xUSD'' 1), (1, 0, Some (\<lambda>_. Some 900), Convert 4 ''xUSD'' ''XMR'' 100)]"

lemma demo_conversion_values:
  "ts_total_value (get_status 4 demo_treasury) = 300"
  "table_sum (\<lambda>_ c. if cc_agent_id c = 4 then token_usd_value (cc_to_currency c) (cc_fee_amount c) else 0)
     (currency_conversions demo_treasury) = 0"
  "table_sum (\<lambda>_ c. if cc_agent_id c = 4 then token_usd_value (cc_to_currency c) (cc_fee_amount c) else 0)
     (currency_conversions (snd (treasury_run demo_conversions (\<lambda>_. None, demo_treasury)))) = 5 / 4"
  by code_simp+

lemma conversions_cost_their_fees_witness:
  "ts_total_value (get_status 4 (snd (treasury_run demo_conversions (\<lambda>_. None, demo_treasury)))) = 300 - 5 / 4"
  using conversions_cost_their_fees [OF demo_treasury_ok refl, where qs = demo_conversions and cache = "\<lambda>_. None" and a = 4 and tok = "''XMR''"]
  by (simp add: demo_conversion_values)

text \<open>Rebalancing never sells XMR out of the reserve: afterwards the XMR balance is worth at least
  the reserve share of the portfolio's value before, or as much as before when it was below that. A
  rebalance that converted something starts the cooldown: until it is over, another request of the
  agent reports the cooldown and changes nothing.\<close>

lemma rebalance_reserve_and_cooldown:
  assumes "table_ok (balances d)" and "\<And>b tok. 0 \<le> available_of b tok (balances d)"
    and "row_of (treasury_policies d) a = Some p"
    and "fst (rebalance now clock live a trigger cache d) = Inr (r, d')"
  shows "min (available_of a ''XMR'' (balances d) * RATE_XMR_USD)
        (ts_total_value (get_status a d) * of_int (or_else (tp_emergency_reserve_pct p) 10) / 100)
      \<le> available_of a ''XMR'' (balances d') * RATE_XMR_USD
    \<and> (r = Rebalanced convs pre post total_value
        \<and> now' - now < seconds (or_else (tp_rebalance_cooldown_secs p) 300)
      \<longrightarrow> rebalance now' clock' live' a trigger' cache' d' = (Inr (NotRebalanced ''cooldown'', d'), cache'))"
proof (intro conjI impI)
  have ok: "funds_ok d" using assms(1,2) by (simp add: funds_ok_def rows_nonneg_def)
  show "min (available_of a ''XMR'' (balances d) * RATE_XMR_USD)
        (ts_total_value (get_status a d) * of_int (or_else (tp_emergency_reserve_pct p) 10) / 100)
      \<le> available_of a ''XMR'' (balances d') * RATE_XMR_USD"
    using rebalance_effect(4) [OF assms(4) ok assms(3)] by (simp add: reserve_usd_def)
  obtain q where q: "row_of (treasury_policies d) a = Some q" "tp_is_active q"
    and ends: "rebalance_ends now clock live a q cache d r d'"
    by (rule rebalance_Inr [OF assms(4)]) (rule that)
  assume late: "r = Rebalanced convs pre post total_value
    \<and> now' - now < seconds (or_else (tp_rebalance_cooldown_secs p) 300)"
  have stamped: "treasury_policies d' = update_last_rebalance now a (treasury_policies d)"
    using ends conjunct1 [OF late]
  proof cases
    case (sold ps convs cache1 d1 pre post total_value entry)
    have "sells_well a (reserve_usd a q d) ([], cache, d) (convs, cache1, d1)"
      using sell_fold_well [of "([], cache, d)" a "reserve_usd a q d" now clock live ps] ok
      unfolding sold(4) by simp
    then show ?thesis by (simp add: sells_well_def Let_def sold(2))
  qed simp_all
  show "rebalance now' clock' live' a trigger' cache' d' = (Inr (NotRebalanced ''cooldown'', d'), cache')"
    using stamped conjunct2 [OF late] q assms(3)
    by (auto simp: rebalance_def update_last_rebalance_def row_of_modify_row Let_def)
qed

definition demo_planned :: db where
  "demo_planned = snd (treasury_run [(0, 0, None, demo_policy_op)] (\<lambda>_. None, demo_treasury))"

definition demo_rebalanced :: "rebalance_result \<times> db" where
  "demo_rebalanced = (case fst (rebalance 7 0 None 4 ''manual'' (\<lambda>_. None) demo_planned) of
     Inr x \<Rightarrow> x | Inl _ \<Rightarrow> (NotRebalanced '''', empty_db))"

definition demo_planned_policy :: treasury_policy where
  "demo_planned_policy = the (row_of (treasury_policies demo_planned) 4)"

lemma demo_planned_ok: "table_ok (balances demo_planned)" "0 \<le> available_of b tok (balances demo_planned)"
proof -
  have "treasury_state_ok (\<lambda>_. None, demo_treasury)"
    using demo_treasury_ok by (intro treasury_state_okI) simp_all
  then have "funds_ok demo_planned"
    unfolding demo_planned_def using treasury_run_step treasury_state_ok_def by blast
  then show "table_ok (balances demo_planned)" "0 \<le> available_of b tok (balances demo_planned)"
    by (simp_all add: funds_ok_def rows_nonneg_def)
qed

lemma demo_planned_row: "row_of (treasury_policies demo_planned) 4 = Some demo_planned_policy"
proof -
  have "row_of (treasury_policies demo_planned) 4 \<noteq> None" by code_simp
  then show ?thesis by (auto simp: demo_planned_policy_def)
qed

lemma demo_rebalance_result:
  "fst (rebalance 7 0 None 4 ''manual'' (\<lambda>_. None) demo_planned)
     = Inr (Rebalanced [\<lparr>cv_from_currency = ''XMR'', cv_from_amount = 1, cv_to_currency = ''xUSD'',
         cv_gross_to_amount = 150, cv_fee_amount = 3 / 4, cv_net_to_amount = 597 / 4, cv_rate = 150\<rparr>]
         [(''XMR'', 100)] [(''XMR'', 50), (''xUSD'', 50)] (1197 / 4), snd demo_rebalanced)"
  by code_simp

lemma demo_reserve:
  "ts_total_value (get_status 4 demo_planned) = 300" "tp_emergency_reserve_pct demo_planned_policy = 10"
  "tp_rebalance_cooldown_secs demo_planned_policy = 3600"
  "available_of 4 ''XMR'' (balances demo_planned) = 2"
  by code_simp+

lemma rebalance_reserve_and_cooldown_witness:
  "30 \<le> available_of 4 ''XMR'' (balances (snd demo_rebalanced)) * RATE_XMR_USD
    \<and> rebalance 3000000000 0 None 4 ''manual'' (\<lambda>_. None) (snd demo_rebalanced)
      = (Inr (NotRebalanced ''cooldown'', snd demo_rebalanced), \<lambda>_. None)"
proof -
  note rule = rebalance_reserve_and_cooldown [OF demo_planned_ok demo_planned_row demo_rebalance_result]
  have "(3000000000 :: int) - 7 < seconds (or_else (tp_rebalance_cooldown_secs demo_planned_policy) 300)"
    by (simp add: demo_reserve or_else_def seconds_def microsecond_per_second_def)
  then show ?thesis
    using conjunct1 [OF rule] conjunct2 [OF rule, THEN mp, OF conjI, OF refl]
    by (simp add: demo_reserve or_else_def RATE_XMR_USD_def)
qed

end
