(* ===== verification/Swaps.thy ===== *)
theory Swaps
  imports Conversion Escrow_Repo Text_Encoding
begin

text \<open>
  Cross-chain swap orders: \<open>sthrip/db/swap_repo.py\<close>, \<open>sthrip/services/swap_service.py\<close> and the reading
  of the answers in \<open>sthrip/services/exchange_providers.py\<close>. An order is created from a quote, either
  with an exchange provider behind it or with a hash lock; it pays XMR into the agent's balance when
  its lock is opened or when the provider reports the exchange finished.

  Parameters: the rate feed, the answers of the two providers, the random secret of a new order and the
  hex SHA-256 digest of a byte string. An amount in a provider's answer is classified by how
  \<open>Decimal\<close> reads its text: absent or empty, not a number, or a number.
\<close>

type_synonym swap_table = "(ident, swap_order) table"

section \<open>The repository\<close>

definition swap_create ::
  "moment \<Rightarrow> ident \<Rightarrow> token \<Rightarrow> decimal \<Rightarrow> token \<Rightarrow> decimal \<Rightarrow> decimal \<Rightarrow> decimal \<Rightarrow> string \<Rightarrow> moment \<Rightarrow> string option \<Rightarrow> swap_order"
where
  "swap_create now a from_currency from_amount to_currency to_amount rate fee htlc_hash lock_expiry htlc_secret =
     \<lparr>so_from_agent_id = a, so_from_currency = from_currency, so_from_amount = from_amount,
      so_to_currency = to_currency, so_to_amount = to_amount, so_exchange_rate = rate, so_fee_amount = fee,
      so_state = SwapCreated, so_htlc_hash = htlc_hash, so_htlc_secret = htlc_secret,
      so_btc_tx_hash = None, so_xmr_tx_hash = None, so_lock_expiry = lock_expiry,
      so_external_order_id = None, so_deposit_address = None, so_provider_name = None, so_created_at = now\<rparr>"

definition swap_lock :: "string \<Rightarrow> ident \<Rightarrow> swap_table \<Rightarrow> nat \<times> swap_table" where
  "swap_lock btc_tx_hash = update_row (\<lambda>s. so_state s = SwapCreated)
     (\<lambda>s. s\<lparr>so_state := SwapLocked, so_btc_tx_hash := Some btc_tx_hash\<rparr>)"

definition swap_complete :: "string \<Rightarrow> string option \<Rightarrow> ident \<Rightarrow> swap_table \<Rightarrow> nat \<times> swap_table" where
  "swap_complete htlc_secret xmr_tx_hash = update_row (\<lambda>s. so_state s = SwapLocked)
     (\<lambda>s. s\<lparr>so_state := SwapCompleted, so_htlc_secret := Some htlc_secret,
            so_xmr_tx_hash := (if xmr_tx_hash = None then so_xmr_tx_hash s else xmr_tx_hash)\<rparr>)"

definition swap_refund :: "ident \<Rightarrow> swap_table \<Rightarrow> nat \<times> swap_table" where
  "swap_refund = update_row (\<lambda>s. so_state s = SwapLocked) (\<lambda>s. s\<lparr>so_state := SwapRefunded\<rparr>)"

definition swap_expire :: "ident \<Rightarrow> swap_table \<Rightarrow> nat \<times> swap_table" where
  "swap_expire = update_row (\<lambda>s. so_state s \<in> {SwapCreated, SwapLocked}) (\<lambda>s. s\<lparr>so_state := SwapExpired\<rparr>)"

definition swap_stale :: "moment \<Rightarrow> swap_order \<Rightarrow> bool" where
  "swap_stale now s \<longleftrightarrow> so_state s \<in> {SwapCreated, SwapLocked} \<and> so_lock_expiry s \<le> now"

definition get_expired_swaps :: "moment \<Rightarrow> swap_table \<Rightarrow> (ident \<times> swap_order) list" where
  "get_expired_swaps now = select_where (swap_stale now)"

definition bulk_expire_stale :: "moment \<Rightarrow> swap_table \<Rightarrow> nat \<times> swap_table" where
  "bulk_expire_stale now t =
     (rows_where (\<lambda>_. swap_stale now) t,
      update_where (\<lambda>_. swap_stale now) (\<lambda>s. s\<lparr>so_state := SwapExpired\<rparr>) t)"

definition complete_from_external :: "decimal \<Rightarrow> string option \<Rightarrow> ident \<Rightarrow> swap_table \<Rightarrow> nat \<times> swap_table" where
  "complete_from_external to_amount xmr_tx_hash = update_row (\<lambda>s. so_state s = SwapCreated)
     (\<lambda>s. s\<lparr>so_state := SwapCompleted, so_to_amount := to_amount,
            so_xmr_tx_hash := (if xmr_tx_hash = None then so_xmr_tx_hash s else xmr_tx_hash)\<rparr>)"

definition set_external_order :: "string \<Rightarrow> string \<Rightarrow> string \<Rightarrow> ident \<Rightarrow> swap_table \<Rightarrow> nat \<times> swap_table" where
  "set_external_order external_id deposit_address provider = update_row (\<lambda>s. so_state s = SwapCreated)
     (\<lambda>s. s\<lparr>so_external_order_id := Some external_id, so_deposit_address := Some deposit_address,
            so_provider_name := Some provider\<rparr>)"

definition get_pending_external :: "swap_table \<Rightarrow> (ident \<times> swap_order) list" where
  "get_pending_external = select_where (\<lambda>s. so_state s = SwapCreated \<and> so_external_order_id s \<noteq> None)"

definition swap_list_by_agent :: "ident \<Rightarrow> nat \<Rightarrow> nat \<Rightarrow> swap_table \<Rightarrow> (ident \<times> swap_order) list \<times> nat" where
  "swap_list_by_agent a limit offset t =
     (let q = select_where (\<lambda>s. so_from_agent_id s = a) t
      in (take (min limit MAX_QUERY_LIMIT) (drop offset (sort_key (\<lambda>(k, s). - so_created_at s) q)), length q))"

section \<open>Exchange providers\<close>

datatype exchange_status = ExchangeWaiting | ExchangeConfirming | ExchangeExchanging | ExchangeSending | ExchangeFinished | ExchangeFailed | ExchangeExpired

datatype amount_text = NoAmount | NotANumber | Amount decimal

definition changenow_status :: "string \<Rightarrow> exchange_status" where
  "changenow_status raw =
     (case map_of [(''new'', ExchangeWaiting), (''waiting'', ExchangeWaiting), (''confirming'', ExchangeConfirming),
        (''exchanging'', ExchangeExchanging), (''sending'', ExchangeSending), (''finished'', ExchangeFinished),
        (''failed'', ExchangeFailed), (''refunded'', ExchangeFailed), (''expired'', ExchangeExpired),
        (''verifying'', ExchangeConfirming), (''hold'', ExchangeConfirming)] raw of None \<Rightarrow> ExchangeWaiting | Some s \<Rightarrow> s)"

definition sideshift_status :: "string \<Rightarrow> exchange_status" where
  "sideshift_status raw =
     (case map_of [(''waiting'', ExchangeWaiting), (''pending'', ExchangeWaiting), (''processing'', ExchangeConfirming),
        (''review'', ExchangeConfirming), (''settled'', ExchangeFinished), (''complete'', ExchangeFinished),
        (''refunding'', ExchangeFailed), (''refunded'', ExchangeFailed), (''failed'', ExchangeFailed),
        (''expired'', ExchangeExpired)] raw of None \<Rightarrow> ExchangeWaiting | Some s \<Rightarrow> s)"

text \<open>An HTTP answer as the clients read it: \<open>None\<close> for a network error or a status code that is no
  success, else the fields they look at, with the first present name of each pair of names.\<close>

record order_answer =
  oa_id :: string
  oa_deposit_address :: string

type_synonym order_reply = "order_answer option"
type_synonym status_reply = "(string \<times> amount_text) option"

record provider_result =
  pr_external_order_id :: string
  pr_deposit_address :: string
  pr_provider :: string

definition read_order :: "string \<Rightarrow> order_reply \<Rightarrow> provider_result outcome" where
  "read_order provider reply = (case reply of
       None \<Rightarrow> Inl (RuntimeError ''ExchangeProviderError'')
     | Some r \<Rightarrow> if oa_id r = '''' \<or> oa_deposit_address r = ''''
         then Inl (RuntimeError ''ExchangeProviderError'')
         else Inr \<lparr>pr_external_order_id = oa_id r, pr_deposit_address = oa_deposit_address r,
                   pr_provider = provider\<rparr>)"

text \<open>ChangeNOW needs a key; SideShift is asked when ChangeNOW fails.\<close>

record exchange_setup =
  ex_changenow_key :: string
  ex_hub_address :: string

definition create_order_with_fallback ::
  "exchange_setup \<Rightarrow> order_reply \<Rightarrow> order_reply \<Rightarrow> provider_result outcome"
where
  "create_order_with_fallback cfg changenow sideshift =
     (case (if ex_changenow_key cfg = '''' then Inl (RuntimeError ''ExchangeProviderError'')
            else read_order ''changenow'' changenow) of
        Inr r \<Rightarrow> Inr r
      | Inl e \<Rightarrow> (case read_order ''sideshift'' sideshift of
            Inr r \<Rightarrow> Inr r
          | Inl e \<Rightarrow> Inl (RuntimeError ''All exchange providers failed'')))"

section \<open>Identifiers and secrets\<close>

definition order_id_char :: "char \<Rightarrow> bool" where
  "order_id_char c \<longleftrightarrow> (CHR ''a'' \<le> c \<and> c \<le> CHR ''z'') \<or> (CHR ''A'' \<le> c \<and> c \<le> CHR ''Z'')
     \<or> (CHR ''0'' \<le> c \<and> c \<le> CHR ''9'') \<or> c = CHR ''_'' \<or> c = CHR ''-''"

text \<open>\<open>re.match(r"^[a-zA-Z0-9_\-]{1,128}$", s)\<close>: the dollar also matches before a final newline.\<close>

definition valid_external_id :: "string \<Rightarrow> bool" where
  "valid_external_id s \<longleftrightarrow>
     (let w = takeWhile order_id_char s; r = dropWhile order_id_char s
      in 1 \<le> length w \<and> length w \<le> 128 \<and> (r = [] \<or> r = [CHR 0x0A]))"

definition hex_value :: "char \<Rightarrow> int option" where
  "hex_value c = (if CHR ''0'' \<le> c \<and> c \<le> CHR ''9'' then Some (of_char c - 48)
     else if CHR ''a'' \<le> c \<and> c \<le> CHR ''f'' then Some (of_char c - 87)
     else if CHR ''A'' \<le> c \<and> c \<le> CHR ''F'' then Some (of_char c - 55) else None)"

text \<open>\<open>bytes.fromhex\<close> skips white space between bytes, not inside one.\<close>

fun bytes_fromhex :: "string \<Rightarrow> int list option" where
  "bytes_fromhex [] = Some []"
| "bytes_fromhex (c # cs) =
     (if c \<in> {CHR '' '', CHR 0x09, CHR 0x0A, CHR 0x0B, CHR 0x0C, CHR 0x0D} then bytes_fromhex cs
      else case cs of
             [] \<Rightarrow> None
           | c2 # cs2 \<Rightarrow>
               (case (hex_value c, hex_value c2) of
                  (Some x, Some y) \<Rightarrow> map_option ((#) (16 * x + y)) (bytes_fromhex cs2)
                | _ \<Rightarrow> None))"

section \<open>The service\<close>

definition LOCK_EXPIRY_MINUTES :: int where
  "LOCK_EXPIRY_MINUTES = 30"

definition provider_order :: "exchange_setup \<Rightarrow> order_reply \<Rightarrow> order_reply \<Rightarrow> provider_result option" where
  "provider_order cfg changenow sideshift =
     (if ex_hub_address cfg = '''' then None
      else case create_order_with_fallback cfg changenow sideshift of Inl e \<Rightarrow> None | Inr r \<Rightarrow> Some r)"

definition create_swap ::
  "(int list \<Rightarrow> string) \<Rightarrow> moment \<Rightarrow> decimal \<Rightarrow> rate_feed \<Rightarrow> exchange_setup \<Rightarrow> order_reply \<Rightarrow> order_reply \<Rightarrow> int list
    \<Rightarrow> ident \<Rightarrow> token \<Rightarrow> decimal \<Rightarrow> token \<Rightarrow> rate_cache \<Rightarrow> db \<Rightarrow> (db \<times> ident) outcome \<times> rate_cache"
where
  "create_swap sha256 now clock live cfg changenow sideshift secret a from_currency from_amount to_currency cache d =
     (let (r, cache1) = get_quote clock live from_currency from_amount to_currency cache
      in (and_then r (\<lambda>quote.
            let provider = provider_order cfg changenow sideshift;
                stored = (if provider = None then Some (bytes_hex secret) else None);
                k = new_id (swap_orders d);
                t1 = add_row (swap_create now a from_currency from_amount (q_to_currency quote)
                       (q_to_amount quote) (q_rate quote) (q_fee quote) (sha256 secret)
                       (now + seconds (60 * LOCK_EXPIRY_MINUTES)) stored) (swap_orders d)
            in case provider of
                 None \<Rightarrow> Inr (d\<lparr>swap_orders := t1\<rparr>, k)
               | Some p \<Rightarrow>
                   if \<not> valid_external_id (pr_external_order_id p)
                   then Inl (ValueError ''Invalid external_order_id format from provider'')
                   else Inr (d\<lparr>swap_orders := snd (set_external_order (pr_external_order_id p)
                          (pr_deposit_address p) (pr_provider p) k t1)\<rparr>, k)), cache1))"

definition claim_swap ::
  "(int list \<Rightarrow> string) \<Rightarrow> moment \<Rightarrow> ident \<Rightarrow> ident \<Rightarrow> string \<Rightarrow> db \<Rightarrow> db outcome"
where
  "claim_swap sha256 now k a htlc_secret d =
     (case row_of (swap_orders d) k of
        None \<Rightarrow> Inl (LookupError ''Swap order not found'')
      | Some s \<Rightarrow>
          if so_from_agent_id s \<noteq> a then Inl (PermissionError ''You do not own this swap order'')
          else case bytes_fromhex htlc_secret of
            None \<Rightarrow> Inl (ValueError ''Invalid HTLC secret: must be 64 hex characters'')
          | Some secret_bytes \<Rightarrow>
              if sha256 secret_bytes \<noteq> so_htlc_hash s
              then Inl (ValueError ''Invalid HTLC secret for order'')
              else let (rows, t1) = swap_complete htlc_secret None k (swap_orders d)
                in if rows = 0 then Inl (ValueError ''Cannot claim swap: order must be LOCKED'')
                   else Inr (d\<lparr>swap_orders := t1,
                          balances := credit now a (so_to_amount s) ''XMR'' (balances d)\<rparr>))"

definition get_swap :: "ident \<Rightarrow> ident \<Rightarrow> db \<Rightarrow> swap_order outcome" where
  "get_swap k a d =
     (case row_of (swap_orders d) k of
        None \<Rightarrow> Inl (LookupError ''Swap order not found'')
      | Some s \<Rightarrow> if so_from_agent_id s \<noteq> a then Inl (PermissionError ''You do not own this swap order'') else Inr s)"

text \<open>The poller: the tally counts completed, expired, failed and skipped orders.\<close>

record poll_tally =
  pt_completed :: nat
  pt_expired :: nat
  pt_errors :: nat
  pt_skipped :: nat

definition provider_status :: "string \<Rightarrow> string \<Rightarrow> exchange_status" where
  "provider_status provider raw =
     (if provider = ''changenow'' then changenow_status raw else sideshift_status raw)"

definition poll_one ::
  "moment \<Rightarrow> exchange_setup \<Rightarrow> (string \<Rightarrow> string \<Rightarrow> status_reply) \<Rightarrow> ident \<times> swap_order \<Rightarrow> poll_tally \<times> db \<Rightarrow> poll_tally \<times> db"
where
  "poll_one now cfg replies p st =
     (let (k, s) = p; (n, d) = st
      in case (so_external_order_id s, so_provider_name s) of
           (Some ext, Some provider) \<Rightarrow>
             if ext = '''' \<or> provider = '''' then (n\<lparr>pt_skipped := pt_skipped n + 1\<rparr>, d)
             else if provider \<noteq> ''changenow'' \<and> provider \<noteq> ''sideshift'' then (n\<lparr>pt_errors := pt_errors n + 1\<rparr>, d)
             else if provider = ''changenow'' \<and> ex_changenow_key cfg = '''' then (n\<lparr>pt_errors := pt_errors n + 1\<rparr>, d)
             else (case replies provider ext of
                None \<Rightarrow> (n\<lparr>pt_errors := pt_errors n + 1\<rparr>, d)
              | Some (raw, amount) \<Rightarrow>
                  let status = provider_status provider raw
                  in if status = ExchangeFinished then
                       (case amount of
                          NotANumber \<Rightarrow> (n\<lparr>pt_errors := pt_errors n + 1\<rparr>, d)
                        | _ \<Rightarrow>
                            let to_amount = (case amount of Amount x \<Rightarrow> x | _ \<Rightarrow> so_to_amount s);
                                (rows, t1) = complete_from_external to_amount None k (swap_orders d)
                            in if rows = 1
                               then (n\<lparr>pt_completed := pt_completed n + 1\<rparr>,
                                     d\<lparr>swap_orders := t1,
                                       balances := credit now (so_from_agent_id s) to_amount ''XMR'' (balances d)\<rparr>)
                               else (n\<lparr>pt_skipped := pt_skipped n + 1\<rparr>, d))
                     else if status = ExchangeFailed \<or> status = ExchangeExpired then
                       (let (rows, t1) = swap_expire k (swap_orders d)
                        in if rows = 1 then (n\<lparr>pt_expired := pt_expired n + 1\<rparr>, d\<lparr>swap_orders := t1\<rparr>)
                           else (n\<lparr>pt_skipped := pt_skipped n + 1\<rparr>, d))
                     else (n\<lparr>pt_skipped := pt_skipped n + 1\<rparr>, d))
         | _ \<Rightarrow> (n\<lparr>pt_skipped := pt_skipped n + 1\<rparr>, d))"

definition poll_external_orders ::
  "moment \<Rightarrow> exchange_setup \<Rightarrow> (string \<Rightarrow> string \<Rightarrow> status_reply) \<Rightarrow> db \<Rightarrow> poll_tally \<times> db"
where
  "poll_external_orders now cfg replies d =
     fold (poll_one now cfg replies) (get_pending_external (swap_orders d))
       (\<lparr>pt_completed = 0, pt_expired = 0, pt_errors = 0, pt_skipped = 0\<rparr>, d)"

definition expire_stale_swaps :: "moment \<Rightarrow> db \<Rightarrow> nat \<times> db" where
  "expire_stale_swaps now d =
     (let (rows, t1) = bulk_expire_stale now (swap_orders d) in (rows, d\<lparr>swap_orders := t1\<rparr>))"

end
