(* ===== verification/Swaps_Life.thy ===== *)
theory Swaps_Life
  imports Swaps
begin

text \<open>
  What the swap operations do: every order pays its agent at most once and a closed order stays as it
  is, whatever the providers answer; the secret kept with a hash-locked order opens it; and with the
  operations the application serves no order ever leaves its first state.
\<close>

section \<open>Transitions\<close>

interpretation sw_lock: guarded_transition "swap_lock h" "\<lambda>s. so_state s = SwapCreated"
  "\<lambda>s. s\<lparr>so_state := SwapLocked, so_btc_tx_hash := Some h\<rparr>" for h
  unfolding swap_lock_def by (rule update_row_guarded) simp

interpretation sw_complete: guarded_transition "swap_complete x h" "\<lambda>s. so_state s = SwapLocked"
  "\<lambda>s. s\<lparr>so_state := SwapCompleted, so_htlc_secret := Some x,
         so_xmr_tx_hash := (if h = None then so_xmr_tx_hash s else h)\<rparr>" for x h
  unfolding swap_complete_def by (rule update_row_guarded) simp

interpretation sw_refund: guarded_transition swap_refund "\<lambda>s. so_state s = SwapLocked"
  "\<lambda>s. s\<lparr>so_state := SwapRefunded\<rparr>"
  unfolding swap_refund_def by (rule update_row_guarded) simp

interpretation sw_expire: guarded_transition swap_expire "\<lambda>s. so_state s \<in> {SwapCreated, SwapLocked}"
  "\<lambda>s. s\<lparr>so_state := SwapExpired\<rparr>"
  unfolding swap_expire_def by (rule update_row_guarded) simp

interpretation sw_external: guarded_transition "complete_from_external x h" "\<lambda>s. so_state s = SwapCreated"
  "\<lambda>s. s\<lparr>so_state := SwapCompleted, so_to_amount := x,
         so_xmr_tx_hash := (if h = None then so_xmr_tx_hash s else h)\<rparr>" for x h
  unfolding complete_from_external_def by (rule update_row_guarded) simp

text \<open>Linking an order to its provider leaves the guard true.\<close>

lemma set_external_order_steps:
  assumes "table_ok t" and "row_of t k = Some s" and "so_state s = SwapCreated"
  shows "row_step k s (s\<lparr>so_external_order_id := Some e, so_deposit_address := Some b, so_provider_name := Some p\<rparr>)
    t (snd (set_external_order e b p k t))"
proof -
  let ?s = "s\<lparr>so_external_order_id := Some e, so_deposit_address := Some b, so_provider_name := Some p\<rparr>"
  have "snd (set_external_order e b p k t) = modify_row k (\<lambda>_. ?s) t"
  proof (rule table_eqI)
    show "row_of (snd (set_external_order e b p k t)) = row_of (modify_row k (\<lambda>_. ?s) t)"
    proof
      fix x
      show "row_of (snd (set_external_order e b p k t)) x = row_of (modify_row k (\<lambda>_. ?s) t) x"
        using assms by (cases "row_of t x") (auto simp: set_external_order_def row_of_update_row row_of_modify_row)
    qed
  qed (simp_all add: set_external_order_def assms(1))
  then show ?thesis using assms by (simp add: row_step_def)
qed

section \<open>The secret of an order\<close>

lemma hex_value_digit: "0 \<le> n \<Longrightarrow> n < 16 \<Longrightarrow> hex_value (digit n) = Some n"
proof -
  assume "0 \<le> n" "n < 16"
  then have "n \<in> set [0..15]" by simp
  also have "[0..15] = [0, 1, 2, 3, 4, 5, 6, 7, 8, 9, 10, 11, 12, 13, 14, 15 :: int]" by code_simp
  finally have "list_ex (\<lambda>m. n = m) [0, 1, 2, 3, 4, 5, 6, 7, 8, 9, 10, 11, 12, 13, 14, 15]" by simp
  moreover have "list_all (\<lambda>m. hex_value (digit m) = Some m) [0, 1, 2, 3, 4, 5, 6, 7, 8, 9, 10, 11, 12, 13, 14, 15]"
    by code_simp
  ultimately show ?thesis by (auto simp: list_ex_iff list_all_iff)
qed

lemma digit_no_space:
  assumes "0 \<le> n" and "n < 16"
  shows "digit n \<notin> {CHR '' '', CHR 0x09, CHR 0x0A, CHR 0x0B, CHR 0x0C, CHR 0x0D}"
proof -
  have "hex_value c = None" if "c \<in> {CHR '' '', CHR 0x09, CHR 0x0A, CHR 0x0B, CHR 0x0C, CHR 0x0D}" for c
  proof -
    have "list_all (\<lambda>c. hex_value c = None) [CHR '' '', CHR 0x09, CHR 0x0A, CHR 0x0B, CHR 0x0C, CHR 0x0D]"
      by code_simp
    with that show ?thesis by (auto simp: list_all_iff)
  qed
  then show ?thesis using hex_value_digit [OF assms] by fastforce
qed

definition is_byte :: "int \<Rightarrow> bool" where
  "is_byte b \<longleftrightarrow> 0 \<le> b \<and> b < 256"

lemma fromhex_bytes_hex:
  assumes "list_all is_byte bs"
  shows "bytes_fromhex (bytes_hex bs) = Some bs"
  using assms
proof (induction bs)
  case Nil
  then show ?case by (simp add: bytes_hex_def)
next
  case (Cons b bs)
  have byte: "is_byte b" and bs: "list_all is_byte bs" using Cons.prems by simp_all
  have b: "0 \<le> b div 16" "b div 16 < 16" "0 \<le> b mod 16" "b mod 16 < 16"
    using byte by (auto simp: is_byte_def)
  have "b div 16 mod 16 = b div 16" using b by simp
  then have step: "bytes_hex (b # bs) = digit (b div 16) # digit (b mod 16) # bytes_hex bs"
    by (simp add: bytes_hex_def hex_byte_def numeral_2_eq_2)
  have "16 * (b div 16) + b mod 16 = b" by simp
  then show ?case
    using Cons.IH [OF bs] digit_no_space [OF b(1,2)] hex_value_digit b
    by (simp add: step del: insert_iff)
qed

section \<open>What an order has paid\<close>

definition paid_by :: "ident \<Rightarrow> swap_order \<Rightarrow> decimal" where
  "paid_by a s = (if so_state s = SwapCompleted \<and> so_from_agent_id s = a then so_to_amount s else 0)"

definition swap_owed :: "ident \<Rightarrow> token \<Rightarrow> db \<Rightarrow> decimal" where
  "swap_owed a u d = available_of a u (balances d)
     - (if u = ''XMR'' then table_sum (\<lambda>_. paid_by a) (swap_orders d) else 0)"

definition closed_swap :: "swap_order \<Rightarrow> bool" where
  "closed_swap s \<longleftrightarrow> so_state s \<in> {SwapCompleted, SwapRefunded, SwapExpired}"

text \<open>An order keeps its agent, and everything once it is closed.\<close>

definition order_keeps :: "swap_order \<Rightarrow> swap_order \<Rightarrow> bool" where
  "order_keeps s s' \<longleftrightarrow> so_from_agent_id s' = so_from_agent_id s \<and> (closed_swap s \<longrightarrow> s' = s)"

definition swaps_keep :: "swap_table \<Rightarrow> swap_table \<Rightarrow> bool" where
  "swaps_keep t t' \<longleftrightarrow> (\<forall>k s. row_of t k = Some s \<longrightarrow> (\<exists>s'. row_of t' k = Some s' \<and> order_keeps s s'))"

definition swap_moves :: "db \<Rightarrow> db \<Rightarrow> bool" where
  "swap_moves d d' \<longleftrightarrow> table_ok (swap_orders d') \<and> swaps_keep (swap_orders d) (swap_orders d')
     \<and> (\<forall>a u. swap_owed a u d' = swap_owed a u d)"

lemma order_keeps_refl: "order_keeps s s"
  by (simp add: order_keeps_def)

lemma order_keeps_trans: "order_keeps s s1 \<Longrightarrow> order_keeps s1 s2 \<Longrightarrow> order_keeps s s2"
  by (auto simp: order_keeps_def)

lemma swaps_keep_trans: "swaps_keep t t1 \<Longrightarrow> swaps_keep t1 t2 \<Longrightarrow> swaps_keep t t2"
  unfolding swaps_keep_def by (metis order_keeps_trans)

lemma swap_moves_refl: "table_ok (swap_orders d) \<Longrightarrow> swap_moves d d"
  by (simp add: swap_moves_def swaps_keep_def order_keeps_refl)

lemma swap_moves_trans: "swap_moves d d1 \<Longrightarrow> swap_moves d1 d2 \<Longrightarrow> swap_moves d d2"
  by (auto simp: swap_moves_def elim: swaps_keep_trans)

lemma swap_moves_ok: "swap_moves d d' \<Longrightarrow> table_ok (swap_orders d')"
  by (simp add: swap_moves_def)

lemma swap_moves_row:
  "swap_moves d d' \<Longrightarrow> row_of (swap_orders d) k = Some s
     \<Longrightarrow> \<exists>s'. row_of (swap_orders d') k = Some s' \<and> order_keeps s s'"
  unfolding swap_moves_def swaps_keep_def by blast

lemma swaps_keep_step: "row_step k s s' t t' \<Longrightarrow> order_keeps s s' \<Longrightarrow> swaps_keep t t'"
  using order_keeps_refl by (fastforce simp: swaps_keep_def row_step_def row_of_modify_row)

text \<open>One order changed while it was open, and its agent credited with what it now has paid.\<close>

lemma swap_step_moves:
  assumes step: "row_step k s s' (swap_orders d) (swap_orders d')"
    and own: "so_from_agent_id s' = so_from_agent_id s" and open_swap: "\<not> closed_swap s"
    and funds: "\<And>b u. available_of b u (balances d') = available_of b u (balances d)
        + (if b = so_from_agent_id s \<and> u = ''XMR'' \<and> so_state s' = SwapCompleted then so_to_amount s' else 0)"
  shows "swap_moves d d'"
proof -
  have "swap_owed a u d' = swap_owed a u d" for a u
    using row_step_sum [OF step, of "\<lambda>_. paid_by a" "\<lambda>_. paid_by a"] funds [of a u] own open_swap
    by (auto simp: swap_owed_def paid_by_def closed_swap_def)
  moreover have "swaps_keep (swap_orders d) (swap_orders d')"
    by (rule swaps_keep_step [OF step]) (simp add: order_keeps_def own open_swap)
  ultimately show ?thesis using row_step_ok [OF step] by (simp add: swap_moves_def)
qed

section \<open>The operations\<close>

lemma create_swap_Inr:
  assumes "fst (create_swap sha256 now clock live cfg cn ss secret a f x t cache d) = Inr (d', k)"
  obtains s t1 where "k = new_id (swap_orders d)" and "t1 = add_row s (swap_orders d)"
    and "so_state s = SwapCreated" and "so_from_agent_id s = a" and "so_htlc_hash s = sha256 secret"
    and "provider_order cfg cn ss = None \<Longrightarrow>
          so_htlc_secret s = Some (bytes_hex secret) \<and> d' = d\<lparr>swap_orders := t1\<rparr>"
    and "d' = d\<lparr>swap_orders := t1\<rparr>
      \<or> (\<exists>e b p. d' = d\<lparr>swap_orders := snd (set_external_order e b p k t1)\<rparr>)"
proof -
  obtain q where q: "fst (get_quote clock live f x t cache) = Inr q"
    using assms by (auto simp: create_swap_def split_def Let_def and_then_Inr_iff)
  let ?s = "swap_create now a f x (q_to_currency q) (q_to_amount q) (q_rate q) (q_fee q) (sha256 secret)
      (now + seconds (60 * LOCK_EXPIRY_MINUTES))
      (if provider_order cfg cn ss = None then Some (bytes_hex secret) else None)"
  show thesis
  proof (rule that [of "add_row ?s (swap_orders d)" ?s])
    show "k = new_id (swap_orders d)"
      using assms q by (auto simp: create_swap_def split_def Let_def split: option.splits if_splits)
    show "d' = d\<lparr>swap_orders := add_row ?s (swap_orders d)\<rparr>
      \<or> (\<exists>e b p. d' = d\<lparr>swap_orders := snd (set_external_order e b p k (add_row ?s (swap_orders d)))\<rparr>)"
      using assms q by (auto simp: create_swap_def split_def Let_def split: option.splits if_splits)
    show "provider_order cfg cn ss = None \<Longrightarrow>
        so_htlc_secret ?s = Some (bytes_hex secret) \<and> d' = d\<lparr>swap_orders := add_row ?s (swap_orders d)\<rparr>"
      using assms q by (simp add: create_swap_def split_def Let_def swap_create_def)
  qed (simp_all add: swap_create_def)
qed

lemma swaps_keep_add: "swaps_keep t (add_row s t)"
  by (auto simp: swaps_keep_def row_of_add_row order_keeps_refl split: option.splits)

lemma create_swap_moves:
  assumes "fst (create_swap sha256 now clock live cfg cn ss secret a f x t cache d) = Inr (d', k)"
    and ok: "table_ok (swap_orders d)"
  shows "swap_moves d d'" and "balances d' = balances d"
    and "\<And>j s. row_of (swap_orders d') j = Some s \<Longrightarrow> row_of (swap_orders d) j = None \<Longrightarrow> so_state s = SwapCreated"
proof -
  obtain s t1 where k: "k = new_id (swap_orders d)" and t1: "t1 = add_row s (swap_orders d)"
    and st: "so_state s = SwapCreated"
    and d': "d' = d\<lparr>swap_orders := t1\<rparr> \<or> (\<exists>e b p. d' = d\<lparr>swap_orders := snd (set_external_order e b p k t1)\<rparr>)"
    by (rule create_swap_Inr [OF assms(1)]) (rule that)
  show "balances d' = balances d" using d' by auto
  have row: "row_of t1 k = Some s" by (simp add: t1 k)
  have okt: "table_ok t1" using ok by (simp add: t1)
  let ?d1 = "d\<lparr>swap_orders := t1\<rparr>"
  have added: "swap_moves d ?d1"
    using okt swaps_keep_add [of "swap_orders d" s]
    by (simp add: swap_moves_def t1 swap_owed_def table_sum_add_row paid_by_def st)
  have linked: "swap_moves ?d1 (d\<lparr>swap_orders := snd (set_external_order e b p k t1)\<rparr>)" for e b p
  proof -
    let ?s = "s\<lparr>so_external_order_id := Some e, so_deposit_address := Some b, so_provider_name := Some p\<rparr>"
    have "row_step k s ?s t1 (snd (set_external_order e b p k t1))"
      by (rule set_external_order_steps [OF okt row st])
    then show ?thesis
      by (intro swap_step_moves [of k s ?s]) (simp_all add: st closed_swap_def)
  qed
  show "swap_moves d d'" using d' added linked swap_moves_trans by blast
  show "so_state s' = SwapCreated" if "row_of (swap_orders d') j = Some s'" "row_of (swap_orders d) j = None" for j s'
  proof -
    have "row_of t1 j = Some s \<or> row_of t1 j = None"
      using that(2) by (simp add: t1 row_of_add_row)
    then show ?thesis
      using d' that(1) st by (auto simp: set_external_order_def row_of_update_row)
  qed
qed

lemma claim_swap_Inr:
  assumes "claim_swap sha256 now k a x d = Inr d'" and ok: "table_ok (swap_orders d)"
  obtains s bs where "row_of (swap_orders d) k = Some s" and "so_from_agent_id s = a"
    and "bytes_fromhex x = Some bs" and "sha256 bs = so_htlc_hash s" and "so_state s = SwapLocked"
    and "d' = d\<lparr>swap_orders := snd (swap_complete x None k (swap_orders d)),
              balances := credit now a (so_to_amount s) ''XMR'' (balances d)\<rparr>"
proof -
  obtain s bs where s: "row_of (swap_orders d) k = Some s" "so_from_agent_id s = a"
    and bs: "bytes_fromhex x = Some bs" "sha256 bs = so_htlc_hash s"
    and rows: "fst (swap_complete x None k (swap_orders d)) \<noteq> 0"
    and d': "d' = d\<lparr>swap_orders := snd (swap_complete x None k (swap_orders d)),
              balances := credit now a (so_to_amount s) ''XMR'' (balances d)\<rparr>"
    using assms(1) by (auto simp: claim_swap_def split_def Let_def split: option.splits if_splits)
  have "so_state s = SwapLocked"
    using rows s sw_complete.rows_zero_iff [OF ok, where x = x and h = None and k = k] by auto
  with s bs d' show thesis by (intro that)
qed

lemma claim_swap_moves:
  assumes "claim_swap sha256 now k a x d = Inr d'" and ok: "table_ok (swap_orders d)"
  shows "swap_moves d d'"
proof -
  obtain s where s: "row_of (swap_orders d) k = Some s" "so_from_agent_id s = a" "so_state s = SwapLocked"
    and d': "d' = d\<lparr>swap_orders := snd (swap_complete x None k (swap_orders d)),
              balances := credit now a (so_to_amount s) ''XMR'' (balances d)\<rparr>"
    by (rule claim_swap_Inr [OF assms]) (rule that)
  show ?thesis
    by (rule swap_step_moves [OF _ _ _ _, of k s "s\<lparr>so_state := SwapCompleted, so_htlc_secret := Some x,
         so_xmr_tx_hash := (if (None :: string option) = None then so_xmr_tx_hash s else None)\<rparr>"])
      (use sw_complete.hit_steps [OF ok s(1,3), where x = x and h = None] s in
        \<open>auto simp: d' closed_swap_def available_credit\<close>)
qed

text \<open>The poller acts on a snapshot of the open orders; what it needs of it is the agent.\<close>

definition snapshot :: "(ident \<times> swap_order) list \<Rightarrow> db \<Rightarrow> bool" where
  "snapshot q d \<longleftrightarrow> (\<forall>(k, s) \<in> set q. \<exists>s1. row_of (swap_orders d) k = Some s1
     \<and> so_from_agent_id s1 = so_from_agent_id s)"

lemma snapshot_moves:
  assumes "snapshot q d" and "swap_moves d d'"
  shows "snapshot q d'"
  unfolding snapshot_def
proof (intro ballI, clarify)
  fix k s
  assume "(k, s) \<in> set q"
  then obtain s1 where s1: "row_of (swap_orders d) k = Some s1" "so_from_agent_id s1 = so_from_agent_id s"
    using assms(1) by (auto simp: snapshot_def)
  then obtain s2 where "row_of (swap_orders d') k = Some s2" "order_keeps s1 s2"
    using swap_moves_row [OF assms(2)] by blast
  then show "\<exists>s2. row_of (swap_orders d') k = Some s2 \<and> so_from_agent_id s2 = so_from_agent_id s"
    using s1(2) by (simp add: order_keeps_def)
qed

lemma swap_credit_moves:
  assumes ok: "table_ok (swap_orders d)" and hit: "fst (complete_from_external x None k (swap_orders d)) = 1"
    and row: "row_of (swap_orders d) k = Some s1"
  shows "swap_moves d (d\<lparr>swap_orders := snd (complete_from_external x None k (swap_orders d)),
            balances := credit now (so_from_agent_id s1) x ''XMR'' (balances d)\<rparr>)"
proof -
  have st: "so_state s1 = SwapCreated"
    using hit row sw_external.rows_one_iff [OF ok, where x = x and h = None and k = k] by auto
  show ?thesis
    by (rule swap_step_moves [where k = k and s = s1 and s' = "s1\<lparr>so_state := SwapCompleted, so_to_amount := x,
         so_xmr_tx_hash := (if (None :: string option) = None then so_xmr_tx_hash s1 else None)\<rparr>"])
      (use sw_external.hit_steps [OF ok row st, where x = x and h = None] st in
        \<open>auto simp: closed_swap_def available_credit\<close>)
qed

text \<open>A guarded transition of open orders that does not complete them.\<close>

lemma guarded_swap_moves:
  assumes upd: "guarded_transition upd g f" and ok: "table_ok (swap_orders d)"
    and safe: "\<And>s. g s \<Longrightarrow> \<not> closed_swap s \<and> so_from_agent_id (f s) = so_from_agent_id s \<and> so_state (f s) \<noteq> SwapCompleted"
  shows "swap_moves d (d\<lparr>swap_orders := snd (upd k (swap_orders d))\<rparr>)"
proof (cases "\<exists>s. row_of (swap_orders d) k = Some s \<and> g s")
  case True
  then obtain s where s: "row_of (swap_orders d) k = Some s" "g s" by blast
  show ?thesis
    by (rule swap_step_moves [where k = k and s = s and s' = "f s"])
      (use guarded_transition.hit_steps [OF upd ok s] safe [OF s(2)] in simp_all)
next
  case False
  then have "fst (upd k (swap_orders d)) = 0" by (auto simp: guarded_transition.rows_zero_iff [OF upd ok])
  then show ?thesis using ok by (simp add: guarded_transition.miss_keeps_table [OF upd ok] swap_moves_refl)
qed

lemmas swap_expire_moves = guarded_swap_moves [OF sw_expire.guarded_transition_axioms]
  and swap_lock_moves = guarded_swap_moves [OF sw_lock.guarded_transition_axioms]
  and swap_refund_moves = guarded_swap_moves [OF sw_refund.guarded_transition_axioms]

lemma poll_one_moves:
  assumes ok: "table_ok (swap_orders d)" and snap: "snapshot [(k, s)] d"
  shows "swap_moves d (snd (poll_one now cfg replies (k, s) (n, d)))"
proof -
  obtain s1 where s1: "row_of (swap_orders d) k = Some s1" "so_from_agent_id s1 = so_from_agent_id s"
    using snap by (auto simp: snapshot_def)
  have credited: "fst (complete_from_external x None k (swap_orders d)) = 1 \<Longrightarrow>
      swap_moves d (d\<lparr>swap_orders := snd (complete_from_external x None k (swap_orders d)),
            balances := credit now (so_from_agent_id s) x ''XMR'' (balances d)\<rparr>)" for x
    using swap_credit_moves [OF ok _ s1(1)] s1(2) by simp
  have expired: "swap_moves d (d\<lparr>swap_orders := snd (swap_expire k (swap_orders d))\<rparr>)"
    by (rule swap_expire_moves [OF ok]) (auto simp: closed_swap_def)
  note cases = credited expired swap_moves_refl [OF ok]
  show ?thesis
    by (auto simp: poll_one_def split_def Let_def cases split: option.splits amount_text.splits)
qed

lemma poll_fold_moves:
  "table_ok (swap_orders (snd st)) \<Longrightarrow> snapshot q (snd st)
    \<Longrightarrow> swap_moves (snd st) (snd (fold (poll_one now cfg replies) q st))"
proof (induction q arbitrary: st)
  case (Cons p q)
  obtain k s where p: "p = (k, s)" by (cases p)
  obtain n d where st: "st = (n, d)" by (cases st)
  have step: "swap_moves d (snd (poll_one now cfg replies p st))"
    using poll_one_moves [of d k s now cfg replies n] Cons.prems by (simp add: p st snapshot_def)
  have "snapshot q d" using Cons.prems(2) by (simp add: st snapshot_def)
  then have "swap_moves (snd (poll_one now cfg replies p st)) (snd (fold (poll_one now cfg replies) q
      (poll_one now cfg replies p st)))"
    by (intro Cons.IH snapshot_moves [OF _ step] swap_moves_ok [OF step])
  with step show ?case using swap_moves_trans by (simp add: st)
qed (simp add: swap_moves_refl)

lemma snapshot_pending:
  assumes "table_ok (swap_orders d)"
  shows "snapshot (get_pending_external (swap_orders d)) d"
  using mem_row_of [OF assms] by (fastforce simp: snapshot_def get_pending_external_def select_where_def)

lemma poll_moves:
  assumes "table_ok (swap_orders d)"
  shows "swap_moves d (snd (poll_external_orders now cfg replies d))"
proof -
  let ?n = "\<lparr>pt_completed = 0, pt_expired = 0, pt_errors = 0, pt_skipped = 0\<rparr>"
  have "swap_moves (snd (?n, d)) (snd (fold (poll_one now cfg replies) (get_pending_external (swap_orders d)) (?n, d)))"
    by (rule poll_fold_moves) (simp_all add: assms snapshot_pending)
  then show ?thesis by (simp add: poll_external_orders_def)
qed

text \<open>The bulk expiry.\<close>

lemma bulk_expire_row:
  "row_of (snd (bulk_expire_stale now t)) k
     = map_option (\<lambda>s. if swap_stale now s then s\<lparr>so_state := SwapExpired\<rparr> else s) (row_of t k)"
  by (simp add: bulk_expire_stale_def row_of_update_where)

lemma bulk_expire_paid:
  "table_sum (\<lambda>_. paid_by a) (snd (bulk_expire_stale now t)) = table_sum (\<lambda>_. paid_by a) t"
  by (induction t) (auto simp: bulk_expire_stale_def update_where_def table_sum_def paid_by_def swap_stale_def)

lemma bulk_expire_moves:
  assumes "table_ok (swap_orders d)"
  shows "swap_moves d (snd (expire_stale_swaps now d))"
proof -
  have "swaps_keep (swap_orders d) (snd (bulk_expire_stale now (swap_orders d)))"
    unfolding swaps_keep_def
  proof (intro allI impI)
    fix k s
    assume "row_of (swap_orders d) k = Some s"
    then show "\<exists>s'. row_of (snd (bulk_expire_stale now (swap_orders d))) k = Some s' \<and> order_keeps s s'"
      by (auto simp: bulk_expire_row order_keeps_def closed_swap_def swap_stale_def)
  qed
  moreover have "table_ok (snd (bulk_expire_stale now (swap_orders d)))"
    using assms by (simp add: bulk_expire_stale_def)
  ultimately show ?thesis
    by (simp add: swap_moves_def expire_stale_swaps_def split_def Let_def swap_owed_def bulk_expire_paid)
qed

section \<open>Runs\<close>

datatype swap_op =
    CreateSwap rate_feed exchange_setup order_reply order_reply "int list" ident token decimal token
  | ClaimSwap ident ident string
  | PollOrders exchange_setup "string \<Rightarrow> string \<Rightarrow> status_reply"
  | ExpireStaleSwaps
  | LockSwap ident string
  | RefundSwap ident
  | ExpireSwap ident

definition served_swap_op :: "swap_op \<Rightarrow> bool" where
  "served_swap_op q \<longleftrightarrow> (case q of CreateSwap _ _ _ _ _ _ _ _ _ \<Rightarrow> True | ClaimSwap _ _ _ \<Rightarrow> True | _ \<Rightarrow> False)"

fun swap_exec ::
  "(int list \<Rightarrow> string) \<Rightarrow> moment \<Rightarrow> decimal \<Rightarrow> swap_op \<Rightarrow> rate_cache \<times> db \<Rightarrow> rate_cache \<times> db"
where
  "swap_exec sha256 now clock (CreateSwap live cfg cn ss secret a f x t) (cache, d) =
     (let (r, cache1) = create_swap sha256 now clock live cfg cn ss secret a f x t cache d
      in (cache1, case r of Inl e \<Rightarrow> d | Inr (d', k) \<Rightarrow> d'))"
| "swap_exec sha256 now clock (ClaimSwap k a secret) (cache, d) =
     (cache, case claim_swap sha256 now k a secret d of Inl e \<Rightarrow> d | Inr d' \<Rightarrow> d')"
| "swap_exec sha256 now clock (PollOrders cfg replies) (cache, d) =
     (cache, snd (poll_external_orders now cfg replies d))"
| "swap_exec sha256 now clock ExpireStaleSwaps (cache, d) = (cache, snd (expire_stale_swaps now d))"
| "swap_exec sha256 now clock (LockSwap k h) (cache, d) =
     (cache, d\<lparr>swap_orders := snd (swap_lock h k (swap_orders d))\<rparr>)"
| "swap_exec sha256 now clock (RefundSwap k) (cache, d) =
     (cache, d\<lparr>swap_orders := snd (swap_refund k (swap_orders d))\<rparr>)"
| "swap_exec sha256 now clock (ExpireSwap k) (cache, d) =
     (cache, d\<lparr>swap_orders := snd (swap_expire k (swap_orders d))\<rparr>)"

definition swap_run ::
  "(int list \<Rightarrow> string) \<Rightarrow> (moment \<times> decimal \<times> swap_op) list \<Rightarrow> rate_cache \<times> db \<Rightarrow> rate_cache \<times> db"
where
  "swap_run sha256 = fold (\<lambda>(now, clock, q). swap_exec sha256 now clock q)"

lemma swap_exec_moves:
  assumes "table_ok (swap_orders (snd st))"
  shows "swap_moves (snd st) (snd (swap_exec sha256 now clock q st))"
proof -
  obtain cache d where st: "st = (cache, d)" by (cases st)
  have ok: "table_ok (swap_orders d)" using assms by (simp add: st)
  note same = swap_moves_refl [OF ok]
  show ?thesis
  proof (cases q)
    case (CreateSwap live cfg cn ss secret a f x t)
    obtain r cache1 where run: "create_swap sha256 now clock live cfg cn ss secret a f x t cache d = (r, cache1)"
      by fastforce
    show ?thesis
    proof (cases r)
      case (Inr dk)
      obtain d' k where dk: "dk = (d', k)" by (cases dk)
      have created: "fst (create_swap sha256 now clock live cfg cn ss secret a f x t cache d) = Inr (d', k)"
        by (simp add: run Inr dk)
      have "swap_moves d d'" by (rule create_swap_moves(1) [OF created ok])
      then show ?thesis by (simp add: st CreateSwap run Inr dk)
    qed (simp add: st CreateSwap run same)
  next
    case (ClaimSwap k a secret)
    then show ?thesis
      by (cases "claim_swap sha256 now k a secret d") (simp_all add: st same claim_swap_moves [OF _ ok])
  next
    case (LockSwap k h)
    then show ?thesis by (simp add: st) (rule swap_lock_moves [OF ok], simp add: closed_swap_def)
  next
    case (RefundSwap k)
    then show ?thesis by (simp add: st) (rule swap_refund_moves [OF ok], simp add: closed_swap_def)
  next
    case (ExpireSwap k)
    then show ?thesis by (simp add: st) (rule swap_expire_moves [OF ok], auto simp: closed_swap_def)
  qed (simp_all add: st poll_moves [OF ok] bulk_expire_moves [OF ok])
qed

lemma swap_run_Cons:
  "swap_run sha256 ((now, clock, q) # qs) st = swap_run sha256 qs (swap_exec sha256 now clock q st)"
  by (simp add: swap_run_def)

lemma swap_run_moves:
  "table_ok (swap_orders (snd st)) \<Longrightarrow> swap_moves (snd st) (snd (swap_run sha256 qs st))"
proof (induction qs arbitrary: st)
  case (Cons p qs)
  obtain now clock q where p: "p = (now, clock, q)" by (cases p) auto
  have step: "swap_moves (snd st) (snd (swap_exec sha256 now clock q st))"
    by (rule swap_exec_moves [OF Cons.prems])
  from step Cons.IH [OF swap_moves_ok [OF step]] show ?case
    by (simp add: p swap_run_Cons swap_moves_trans)
qed (simp add: swap_run_def swap_moves_refl)

text \<open>A served request finds and leaves only orders in their first state.\<close>

definition swaps_idle :: "balance_table \<Rightarrow> db \<Rightarrow> bool" where
  "swaps_idle t e \<longleftrightarrow> table_ok (swap_orders e) \<and> balances e = t
     \<and> (\<forall>k s. row_of (swap_orders e) k = Some s \<longrightarrow> so_state s = SwapCreated)"

lemma create_swap_idle:
  assumes "fst (create_swap sha256 now clock live cfg cn ss secret a f x t cache d) = Inr (d', k)"
    and "swaps_idle b d"
  shows "swaps_idle b d'"
proof -
  have ok: "table_ok (swap_orders d)" and all: "\<And>k s. row_of (swap_orders d) k = Some s \<Longrightarrow> so_state s = SwapCreated"
    using assms(2) by (auto simp: swaps_idle_def)
  obtain s0 t1 where t1: "t1 = add_row s0 (swap_orders d)" and s0: "so_state s0 = SwapCreated"
    and d': "d' = d\<lparr>swap_orders := t1\<rparr> \<or> (\<exists>e b p. d' = d\<lparr>swap_orders := snd (set_external_order e b p k t1)\<rparr>)"
    by (rule create_swap_Inr [OF assms(1)]) (rule that)
  have rows: "so_state s = SwapCreated" if "row_of t1 j = Some s" for j s
    using that all s0 by (auto simp: t1 row_of_add_row split: option.splits if_splits)
  have "table_ok (swap_orders d')"
    using d' ok by (auto simp: t1 set_external_order_def)
  moreover have "so_state s = SwapCreated" if "row_of (swap_orders d') j = Some s" for j s
    using d' that rows by (auto simp: set_external_order_def row_of_update_row split: if_splits)
  ultimately show ?thesis
    using create_swap_moves(2) [OF assms(1) ok] assms(2) by (simp add: swaps_idle_def)
qed

lemma swap_exec_idle:
  assumes idle: "swaps_idle b (snd st)" and served: "served_swap_op q"
  shows "swaps_idle b (snd (swap_exec sha256 now clock q st))"
proof -
  obtain cache d where st: "st = (cache, d)" by (cases st)
  have ok: "table_ok (swap_orders d)" using idle by (simp add: st swaps_idle_def)
  show ?thesis
  proof (cases q)
    case (CreateSwap live cfg cn ss secret a f x t)
    obtain r cache1 where run: "create_swap sha256 now clock live cfg cn ss secret a f x t cache d = (r, cache1)"
      by fastforce
    show ?thesis
    proof (cases r)
      case (Inr dk)
      obtain d' k where dk: "dk = (d', k)" by (cases dk)
      have created: "fst (create_swap sha256 now clock live cfg cn ss secret a f x t cache d) = Inr (d', k)"
        by (simp add: run Inr dk)
      have "swaps_idle b d'" by (rule create_swap_idle [OF created]) (use idle in \<open>simp add: st\<close>)
      then show ?thesis by (simp add: st CreateSwap run Inr dk)
    qed (use idle in \<open>simp add: st CreateSwap run\<close>)
  next
    case (ClaimSwap k a secret)
    have "claim_swap sha256 now k a secret d \<noteq> Inr d'" for d'
      using claim_swap_Inr [OF _ ok, of sha256 now k a secret d'] idle by (force simp: st swaps_idle_def)
    then show ?thesis
      using idle by (cases "claim_swap sha256 now k a secret d") (auto simp: st ClaimSwap)
  qed (use served in \<open>simp_all add: served_swap_op_def\<close>)
qed

section \<open>Properties\<close>

text \<open>C23. Over any sequence of swap operations, whatever the providers and the rate feed answer, what an
  agent's XMR balance gains is exactly the sum of the amounts of its orders that were completed
  meanwhile; other tokens do not move; and a completed, refunded or expired order never changes
  again, so none is paid twice.\<close>

theorem swaps_pay_once:
  assumes "table_ok (swap_orders d)" and "snd (swap_run sha256 qs (cache, d)) = d'"
  shows "available_of a u (balances d') - available_of a u (balances d)
      = (if u = ''XMR'' then
           table_sum (\<lambda>_ s. if so_state s = SwapCompleted \<and> so_from_agent_id s = a then so_to_amount s else 0) (swap_orders d')
         - table_sum (\<lambda>_ s. if so_state s = SwapCompleted \<and> so_from_agent_id s = a then so_to_amount s else 0) (swap_orders d)
         else 0)
    \<and> (row_of (swap_orders d) k = Some s \<and> so_state s \<in> {SwapCompleted, SwapRefunded, SwapExpired}
      \<longrightarrow> row_of (swap_orders d') k = Some s)"
proof -
  have moves: "swap_moves d d'" using swap_run_moves [of "(cache, d)" sha256 qs] assms by simp
  then have "swap_owed a u d' = swap_owed a u d" by (simp add: swap_moves_def)
  then have "available_of a u (balances d') - available_of a u (balances d)
      = (if u = ''XMR'' then
           table_sum (\<lambda>_ s. if so_state s = SwapCompleted \<and> so_from_agent_id s = a then so_to_amount s else 0) (swap_orders d')
         - table_sum (\<lambda>_ s. if so_state s = SwapCompleted \<and> so_from_agent_id s = a then so_to_amount s else 0) (swap_orders d)
         else 0)"
    by (simp add: swap_owed_def paid_by_def [abs_def] split: if_splits)
  moreover have "row_of (swap_orders d') k = Some s"
    if "row_of (swap_orders d) k = Some s" "so_state s \<in> {SwapCompleted, SwapRefunded, SwapExpired}"
    using swap_moves_row [OF moves that(1)] that(2) by (auto simp: order_keeps_def closed_swap_def)
  ultimately show ?thesis by blast
qed

text \<open>The secret a hash-locked order keeps opens it: created without a provider and then locked, the
  order is paid out to its agent when it presents the stored secret, and the hexadecimal text of any
  bytes reads back as those bytes.\<close>

lemma stored_secret_claims:
  assumes "table_ok (swap_orders d)" and "list_all is_byte secret"
    and "provider_order cfg cn ss = None"
    and "fst (create_swap sha256 now clock live cfg cn ss secret a f x t cache d) = Inr (d1, k)"
    and "row_of (swap_orders d1) k = Some s"
    and "d2 = d1\<lparr>swap_orders := snd (swap_lock tx k (swap_orders d1))\<rparr>"
  shows "\<exists>text d3. so_htlc_secret s = Some text \<and> bytes_fromhex text = Some secret
    \<and> claim_swap sha256 later k a text d2 = Inr d3
    \<and> available_of a ''XMR'' (balances d3) = available_of a ''XMR'' (balances d) + so_to_amount s"
proof -
  obtain s0 t1 where k: "k = new_id (swap_orders d)" and t1: "t1 = add_row s0 (swap_orders d)"
    and s0: "so_state s0 = SwapCreated" "so_from_agent_id s0 = a" "so_htlc_hash s0 = sha256 secret"
    and kept: "so_htlc_secret s0 = Some (bytes_hex secret) \<and> d1 = d\<lparr>swap_orders := t1\<rparr>"
    by (rule create_swap_Inr [OF assms(4)]) (use assms(3) in blast)
  have row: "row_of t1 k = Some s0" by (simp add: t1 k)
  with assms(5) kept have s: "s = s0" by simp
  have ok: "table_ok t1" using assms(1) by (simp add: t1)
  let ?l = "s0\<lparr>so_state := SwapLocked, so_btc_tx_hash := Some tx\<rparr>"
  note locked = sw_lock.hit_steps [OF ok row s0(1), of tx]
  have okl: "table_ok (snd (swap_lock tx k t1))" by (rule row_step_ok [OF locked])
  have rowl: "row_of (snd (swap_lock tx k t1)) k = Some ?l" by (simp add: row_step_row_of [OF locked])
  have hit: "fst (swap_complete (bytes_hex secret) None k (snd (swap_lock tx k t1))) = 1"
    by (rule sw_complete.hit_rows [OF okl rowl]) simp
  have "claim_swap sha256 later k a (bytes_hex secret) d2
      = Inr (d2\<lparr>swap_orders := snd (swap_complete (bytes_hex secret) None k (snd (swap_lock tx k t1))),
               balances := credit later a (so_to_amount s0) ''XMR'' (balances d2)\<rparr>)"
    using hit s0 kept rowl
    by (simp add: claim_swap_def assms(6) fromhex_bytes_hex [OF assms(2)] split_def Let_def)
  then show ?thesis
    using kept fromhex_bytes_hex [OF assms(2)]
    by (simp add: s assms(6) available_credit)
qed

text \<open>With the requests the application serves, creation and claim, no order ever leaves its first
  state and no balance moves, whatever the providers answer: nothing locks an order, polls a
  provider or expires what is overdue.\<close>

lemma served_swaps_never_settle:
  assumes "swap_orders d = []" and "list_all (\<lambda>(now, clock, q). served_swap_op q) qs"
    and "snd (swap_run sha256 qs (cache, d)) = d'"
  shows "balances d' = balances d" and "row_of (swap_orders d') k = Some s \<Longrightarrow> so_state s = SwapCreated"
proof -
  have "swaps_idle (balances d) (snd (swap_run sha256 qs st))" if "swaps_idle (balances d) (snd st)" for st
    using that assms(2)
  proof (induction qs arbitrary: st)
    case (Cons p qs)
    obtain now clock q where p: "p = (now, clock, q)" by (cases p) auto
    have "swaps_idle (balances d) (snd (swap_exec sha256 now clock q st))"
      using swap_exec_idle [OF Cons.prems(1)] Cons.prems(2) by (simp add: p)
    then show ?case using Cons.IH Cons.prems(2) by (simp add: p swap_run_Cons)
  qed (simp add: swap_run_def)
  moreover have "swaps_idle (balances d) (snd (cache, d))" using assms(1) by (simp add: swaps_idle_def)
  ultimately have "swaps_idle (balances d) d'" using assms(3) by blast
  then show "balances d' = balances d" and "row_of (swap_orders d') k = Some s \<Longrightarrow> so_state s = SwapCreated"
    by (simp_all add: swaps_idle_def)
qed

section \<open>Witnesses\<close>

definition demo_digest :: "int list \<Rightarrow> string" where
  "demo_digest bs = bytes_hex (rev bs)"

definition demo_exchange :: exchange_setup where
  "demo_exchange = \<lparr>ex_changenow_key = ''key'', ex_hub_address = ''hub''\<rparr>"

definition demo_hash_only :: exchange_setup where
  "demo_hash_only = \<lparr>ex_changenow_key = '''', ex_hub_address = ''''\<rparr>"

definition demo_swap_ops :: "(moment \<times> decimal \<times> swap_op) list" where
  "demo_swap_ops =
     [(0, 0, CreateSwap None demo_exchange (Some \<lparr>oa_id = ''x-1'', oa_deposit_address = ''btc''\<rparr>) None [1, 2] 4 ''BTC'' 1 ''XMR''),
      (9, 9, PollOrders demo_exchange (\<lambda>p x. Some (''sending'', NoAmount))),
      (9, 9, PollOrders demo_exchange (\<lambda>p x. Some (''finished'', Amount 148))),
      (9, 9, PollOrders demo_exchange (\<lambda>p x. Some (''finished'', Amount 148)))]"

lemma demo_swap_result:
  "table_sum (\<lambda>_ s. if so_state s = SwapCompleted \<and> so_from_agent_id s = 4 then so_to_amount s else 0)
     (swap_orders (snd (swap_run demo_digest demo_swap_ops (\<lambda>_. None, empty_db)))) = 148"
  by code_simp

theorem swaps_pay_once_witness:
  "available_of 4 ''XMR'' (balances (snd (swap_run demo_digest demo_swap_ops (\<lambda>_. None, empty_db)))) = 148"
proof -
  have fact: "table_ok (swap_orders empty_db)" "balances empty_db = []" "swap_orders empty_db = []"
    by (simp_all add: empty_db_def)
  note paid = swaps_pay_once [OF fact(1) refl, of 4 "''XMR''" demo_digest demo_swap_ops "\<lambda>_. None"]
  show ?thesis using paid by (simp add: demo_swap_result fact)
qed

definition demo_created :: "db \<times> ident" where
  "demo_created = (case fst (create_swap demo_digest 0 0 None demo_hash_only None None [16, 255] 4 ''BTC'' 1 ''XMR''
     (\<lambda>_. None) empty_db) of Inr x \<Rightarrow> x | Inl e \<Rightarrow> (empty_db, 0))"

definition demo_order :: swap_order where
  "demo_order = the (row_of (swap_orders (fst demo_created)) (snd demo_created))"

lemma demo_created_result:
  "fst (create_swap demo_digest 0 0 None demo_hash_only None None [16, 255] 4 ''BTC'' 1 ''XMR'' (\<lambda>_. None) empty_db)
     = Inr (fst demo_created, snd demo_created)"
  by code_simp

lemma demo_order_row: "row_of (swap_orders (fst demo_created)) (snd demo_created) = Some demo_order"
proof -
  have "row_of (swap_orders (fst demo_created)) (snd demo_created) \<noteq> None" by code_simp
  then show ?thesis by (auto simp: demo_order_def)
qed

lemma demo_order_amount: "so_to_amount demo_order = 297 / 2" "so_htlc_secret demo_order = Some ''10ff''"
  by code_simp+

lemma stored_secret_claims_witness:
  "\<exists>d3. claim_swap demo_digest 7 (snd demo_created) 4 ''10ff''
      (fst demo_created\<lparr>swap_orders := snd (swap_lock ''tx'' (snd demo_created) (swap_orders (fst demo_created)))\<rparr>)
     = Inr d3 \<and> available_of 4 ''XMR'' (balances d3) = 297 / 2"
proof -
  have "table_ok (swap_orders empty_db)" by (simp add: empty_db_def)
  moreover have "list_all is_byte [16, 255]" by (simp add: is_byte_def)
  moreover have "provider_order demo_hash_only None None = None" by code_simp
  ultimately show ?thesis
    using stored_secret_claims [OF _ _ _ demo_created_result demo_order_row refl, of 7 "''tx''"]
    by (simp add: demo_order_amount empty_db_def)
qed

definition demo_served_ops :: "(moment \<times> decimal \<times> swap_op) list" where
  "demo_served_ops =
     [(0, 0, CreateSwap None demo_exchange (Some \<lparr>oa_id = ''x-1'', oa_deposit_address = ''btc''\<rparr>) None [1, 2] 4 ''BTC'' 1 ''XMR''),
      (9, 9, ClaimSwap 0 4 ''0102'')]"

lemma served_swaps_never_settle_witness:
  "balances (snd (swap_run demo_digest demo_served_ops (\<lambda>_. None, empty_db))) = []"
proof -
  have fact: "swap_orders empty_db = []" "balances empty_db = []" by (simp_all add: empty_db_def)
  have "list_all (\<lambda>(now, clock, q). served_swap_op q) demo_served_ops"
    by (simp add: demo_served_ops_def served_swap_op_def)
  then show ?thesis
    using served_swaps_never_settle(1) [OF fact(1) _ refl] fact(2) by metis
qed

end
