(* ===== verification/Deposits.thy ===== *)
theory Deposits
  imports Balance_Routes Proof_Of_Work
begin

text \<open>
  Money in and interrupted money out: the deposit monitor (\<open>sthrip/services/deposit_monitor.py\<close>,
  \<open>sthrip/db/system_state_repo.py\<close>, the transfer queries of \<open>sthrip/services/wallet_service.py\<close>) and the
  reconciliation of withdrawals (\<open>sthrip/services/withdrawal_recovery.py\<close>).

  The wallet is behind RPC: what it answers is a parameter, \<open>None\<close> for a failed call. One poll runs at a
  time (the distributed lock); a second worker that records the same transaction hash is outside the
  session, and \<open>insert_transaction\<close> keeps the uniqueness check it would run into.
\<close>

section \<open>The wallet\<close>

definition PICONERO :: decimal where
  "PICONERO = 10 ^ 12"

definition piconero_to_xmr :: "int \<Rightarrow> decimal" where
  "piconero_to_xmr n = of_int n / PICONERO"

record raw_output =
  ro_tx_hash :: string
  ro_amount :: int
  ro_block_height :: int
  ro_minor :: int

text \<open>The answers of the three calls of one query: the outputs, the height and the subaddresses.\<close>

record wallet_view =
  wv_outputs :: "raw_output list"
  wv_height :: int
  wv_addresses :: "(int \<times> string) list"

record incoming =
  in_txid :: string
  in_amount :: decimal
  in_confirmations :: int
  in_height :: int
  in_address :: string

definition read_output :: "int \<Rightarrow> wallet_view \<Rightarrow> raw_output \<Rightarrow> incoming option" where
  "read_output min_height w output =
     (let height = ro_block_height output;
          confirmations = (if height > 0 then wv_height w - height else 0)
      in if min_height > 0 \<and> height < min_height then None
         else if ro_minor output = 0 then None
         else case map_of (rev (wv_addresses w)) (ro_minor output) of
                None \<Rightarrow> None
              | Some address \<Rightarrow>
                  if address = '''' then None
                  else Some \<lparr>in_txid = ro_tx_hash output, in_amount = piconero_to_xmr (ro_amount output),
                             in_confirmations = confirmations, in_height = height, in_address = address\<rparr>)"

definition get_incoming_transfers :: "int \<Rightarrow> wallet_view \<Rightarrow> incoming list" where
  "get_incoming_transfers min_height w = List.map_filter (read_output min_height w) (wv_outputs w)"

definition get_or_create_deposit_address :: "moment \<Rightarrow> (ident \<Rightarrow> string) \<Rightarrow> ident \<Rightarrow> db \<Rightarrow> db \<times> string" where
  "get_or_create_deposit_address now create_address a d =
     (let t = get_or_create now a ''XMR'' (balances d)
      in case (case row_of t (a, ''XMR'') of None \<Rightarrow> None | Some b \<Rightarrow> bal_deposit_address b) of
           Some x \<Rightarrow> if x \<noteq> '''' then (d\<lparr>balances := t\<rparr>, x)
             else (d\<lparr>balances := set_deposit_address now a (create_address a) ''XMR'' t\<rparr>, create_address a)
         | None \<Rightarrow> (d\<lparr>balances := set_deposit_address now a (create_address a) ''XMR'' t\<rparr>, create_address a))"

section \<open>System state\<close>

record state_entry =
  se_value :: string
  se_updated_at :: moment

type_synonym state_table = "(string, state_entry) table"

definition state_get :: "string \<Rightarrow> state_table \<Rightarrow> string option" where
  "state_get key t = map_option se_value (row_of t key)"

definition state_set :: "moment \<Rightarrow> string \<Rightarrow> string \<Rightarrow> state_table \<Rightarrow> state_table" where
  "state_set now key v t =
     (case row_of t key of
        None \<Rightarrow> insert_row key \<lparr>se_value = v, se_updated_at = now\<rparr> t
      | Some r \<Rightarrow> modify_row key (\<lambda>r. r\<lparr>se_value := v, se_updated_at := now\<rparr>) t)"

section \<open>The deposit monitor\<close>

definition HEIGHT_KEY :: string where
  "HEIGHT_KEY = ''last_scanned_height''"

record monitor_config =
  mc_min_confirmations :: int
  mc_network :: string

record monitor =
  mn_db :: db
  mn_state :: state_table
  mn_last_height :: int

type_synonym deposit_notice = "ident \<times> string \<times> decimal"

definition load_persisted_height :: "monitor \<Rightarrow> monitor" where
  "load_persisted_height m =
     (case state_get HEIGHT_KEY (mn_state m) of
        None \<Rightarrow> m
      | Some saved \<Rightarrow> (case py_int saved of None \<Rightarrow> m | Some h \<Rightarrow> m\<lparr>mn_last_height := h\<rparr>))"

definition match_subaddress_to_agent :: "string \<Rightarrow> db \<Rightarrow> ident option" where
  "match_subaddress_to_agent address d =
     map_option (\<lambda>(k, b). fst k) (first_row (\<lambda>b. bal_deposit_address b = Some address) (balances d))"

definition handle_new_transfer ::
  "moment \<Rightarrow> monitor_config \<Rightarrow> ident \<Rightarrow> string \<Rightarrow> decimal \<Rightarrow> int \<Rightarrow> db \<Rightarrow> db \<times> deposit_notice option"
where
  "handle_new_transfer now mc a txid amount confirmations d =
     (let is_confirmed = confirmations \<ge> mc_min_confirmations mc;
          tx = create_transaction now txid (mc_network mc) None (Some a) amount ''XMR'' PtDeposit
            (if is_confirmed then TxConfirmed else TxPending) 0 0
      in case insert_transaction tx d of
           Inl e \<Rightarrow> (d, None)
         | Inr d1 \<Rightarrow>
             if is_confirmed
             then (d1\<lparr>balances := deposit now a amount ''XMR'' (balances d1)\<rparr>, Some (a, txid, amount))
             else (d1\<lparr>balances := add_pending now a amount ''XMR'' (balances d1)\<rparr>, None))"

definition handle_existing_transfer ::
  "moment \<Rightarrow> monitor_config \<Rightarrow> ident \<Rightarrow> ident \<Rightarrow> transaction \<Rightarrow> int \<Rightarrow> int \<Rightarrow> db \<Rightarrow> db \<times> deposit_notice option"
where
  "handle_existing_transfer now mc a k tx confirmations height d =
     (let seen = (\<lambda>t. t\<lparr>tx_confirmations := confirmations,
                        tx_block_number := (if height \<noteq> 0 then Some height else tx_block_number t)\<rparr>)
      in if tx_status tx = TxPending \<and> confirmations \<ge> mc_min_confirmations mc
         then let amount = tx_amount tx;
                  t1 = deposit now a amount ''XMR'' (balances d);
                  t2 = clear_pending_on_confirm now a amount ''XMR'' t1
              in (d\<lparr>transactions := modify_row k (\<lambda>t. (seen t)\<lparr>tx_status := TxConfirmed, tx_confirmed_at := Some now\<rparr>)
                      (transactions d),
                    balances := t2\<rparr>, Some (a, tx_hash tx, amount))
         else (d\<lparr>transactions := modify_row k seen (transactions d)\<rparr>, None))"

definition process_transfer ::
  "moment \<Rightarrow> monitor_config \<Rightarrow> incoming \<Rightarrow> db \<times> int \<times> deposit_notice list \<Rightarrow> db \<times> int \<times> deposit_notice list"
where
  "process_transfer now mc x st =
     (let (d, max_height, notices) = st;
          max_height1 = (if in_height x > max_height then in_height x else max_height)
      in case match_subaddress_to_agent (in_address x) d of
           None \<Rightarrow> (d, max_height1, notices)
         | Some a \<Rightarrow>
             let (d1, notice) = (case get_by_hash (in_txid x) d of
                   None \<Rightarrow> handle_new_transfer now mc a (in_txid x) (in_amount x) (in_confirmations x) d
                 | Some (k, tx) \<Rightarrow> handle_existing_transfer now mc a k tx (in_confirmations x) (in_height x) d)
             in (d1, max_height1, case notice of None \<Rightarrow> notices | Some n \<Rightarrow> notices @ [n]))"

definition process_transfers ::
  "moment \<Rightarrow> monitor_config \<Rightarrow> incoming list \<Rightarrow> monitor \<Rightarrow> monitor \<times> int \<times> deposit_notice list"
where
  "process_transfers now mc xs m =
     (let (d, max_height, notices) = fold (process_transfer now mc) xs (mn_db m, mn_last_height m, []);
          m1 = m\<lparr>mn_db := d\<rparr>;
          m2 = (if max_height > 0
                then m1\<lparr>mn_state := state_set now HEIGHT_KEY (int_text max_height) (mn_state m1)\<rparr> else m1)
      in (m2, max_height, notices))"

text \<open>One poll: nothing happens when the wallet fails or has no transfers; the notices go out after the commit.\<close>

definition poll_once :: "moment \<Rightarrow> monitor_config \<Rightarrow> wallet_view option \<Rightarrow> monitor \<Rightarrow> monitor \<times> deposit_notice list" where
  "poll_once now mc view m =
     (case view of
        None \<Rightarrow> (m, [])
      | Some w \<Rightarrow>
          let xs = get_incoming_transfers (mn_last_height m) w
          in if xs = [] then (m, [])
             else let (m1, new_height, notices) = process_transfers now mc xs m
                  in (if new_height > mn_last_height m1 then m1\<lparr>mn_last_height := new_height\<rparr> else m1, notices))"

text \<open>A new process starts at height zero and reads what was saved.\<close>

definition restart_monitor :: "monitor \<Rightarrow> monitor" where
  "restart_monitor m = load_persisted_height (m\<lparr>mn_last_height := 0\<rparr>)"

section \<open>Withdrawal recovery\<close>

record raw_transfer =
  rt_tx_hash :: string
  rt_amount :: int
  rt_address :: string
  rt_timestamp :: int

record outgoing =
  og_tx_hash :: string
  og_amount :: decimal
  og_address :: string
  og_timestamp :: "moment option"

text \<open>Mined transfers with their time, if they have one, then those still pending without.\<close>

definition get_outgoing_transfers :: "raw_transfer list \<Rightarrow> raw_transfer list \<Rightarrow> outgoing list" where
  "get_outgoing_transfers out pool =
     map (\<lambda>r. \<lparr>og_tx_hash = rt_tx_hash r, og_amount = piconero_to_xmr (rt_amount r), og_address = rt_address r,
            og_timestamp = (if rt_timestamp r \<noteq> 0 then Some (seconds (rt_timestamp r)) else None)\<rparr>) out
     @ map (\<lambda>r. \<lparr>og_tx_hash = rt_tx_hash r, og_amount = piconero_to_xmr (rt_amount r), og_address = rt_address r,
            og_timestamp = None\<rparr>) pool"

definition transfer_matches :: "pending_withdrawal \<Rightarrow> outgoing \<Rightarrow> bool" where
  "transfer_matches p x \<longleftrightarrow> og_address x = pw_address p
     \<and> \<bar>og_amount x - pw_amount p\<bar> < 1 / 10 ^ 12
     \<and> (case og_timestamp x of None \<Rightarrow> True | Some t \<Rightarrow> \<bar>t - pw_created_at p\<bar> \<le> seconds (30 * 60))"

definition find_matching_transfer :: "pending_withdrawal \<Rightarrow> outgoing list \<Rightarrow> outgoing option" where
  "find_matching_transfer p = find (transfer_matches p)"

fun recover_each :: "moment \<Rightarrow> outgoing list \<Rightarrow> (ident \<times> pending_withdrawal) list \<Rightarrow> pending_table \<Rightarrow> (pending_table \<times> nat) outcome" where
  "recover_each now xs [] t = Inr (t, 0)"
| "recover_each now xs ((k, p) # q) t =
     and_then (case find_matching_transfer p xs of
         Some x \<Rightarrow> mark_completed now k (og_tx_hash x) t
       | None \<Rightarrow> mark_needs_review k ''No matching on-chain tx after max_age_minutes'' t) (\<lambda>t1.
     and_then (recover_each now xs q t1) (\<lambda>(t2, n). Inr (t2, Suc n)))"

text \<open>The wallet: absent, failing, or its answer.\<close>

definition recover_pending_withdrawals ::
  "moment \<Rightarrow> int \<Rightarrow> outgoing list option option \<Rightarrow> pending_table \<Rightarrow> (pending_table \<times> nat) outcome"
where
  "recover_pending_withdrawals now max_age_minutes wallet t =
     (let stale = get_stale_pending now max_age_minutes t
      in if stale = [] then Inr (t, 0)
         else case wallet of
                None \<Rightarrow> recover_each now [] stale t
              | Some None \<Rightarrow> Inr (t, 0)
              | Some (Some xs) \<Rightarrow> recover_each now xs stale t)"

end
