(* ===== verification/Deposits_Life.thy ===== *)
theory Deposits_Life
  imports Deposits Ledger
begin

text \<open>
  What the deposit monitor does over any sequence of polls and restarts: every recorded transaction is
  credited at most once, a sufficiently confirmed transfer is credited by the poll that sees it, and a
  deposit whose block lies below the last scanned height is never looked at again. Withdrawal recovery
  settles every stale withdrawal without touching a balance.
\<close>

section \<open>Lookups that an update does not disturb\<close>

lemma first_row_modify_key:
  assumes "\<And>v. P (f v) = P v"
  shows "map_option fst (first_row P (modify_row k f t)) = map_option fst (first_row P t)"
  by (induction t) (auto simp: first_row_def modify_row_def update_where_def assms split: if_split_asm)

lemma first_row_append_miss: "\<not> P v \<Longrightarrow> first_row P (t @ [(k, v)]) = first_row P t"
  by (induction t) (auto simp: first_row_def)

lemma first_row_append_hit: "first_row P t = None \<Longrightarrow> P v \<Longrightarrow> first_row P (t @ [(k, v)]) = Some (k, v)"
  by (induction t) (auto simp: first_row_def split: if_splits)

lemma first_row_modify_miss:
  "table_ok t \<Longrightarrow> row_of t k = Some v \<Longrightarrow> \<not> P v \<Longrightarrow> \<not> P (f v) \<Longrightarrow> first_row P (modify_row k f t) = first_row P t"
proof (induction t)
  case Nil
  then show ?case by simp
next
  case (Cons kv t)
  obtain k0 v0 where kv: "kv = (k0, v0)" by (cases kv)
  from Cons.prems have ok: "table_ok t" and fresh: "row_of t k0 = None"
    by (auto simp: kv table_ok_def keys_of_def row_of_None_iff)
  show ?case
  proof (cases "k0 = k")
    case True
    have "modify_row k f t = t"
      using fresh True by (simp add: modify_row_is_update update_row_id [OF _ ok])
    with True Cons.prems show ?thesis
      by (simp add: kv first_row_def modify_row_def update_where_def)
  next
    case False
    with Cons show ?thesis by (auto simp: kv first_row_def modify_row_def update_where_def ok)
  qed
qed

section \<open>One transfer\<close>

definition confirmed_total :: "db \<Rightarrow> decimal" where
  "confirmed_total d = table_sum (\<lambda>_ t. if tx_status t = TxConfirmed then tx_amount t else 0) (transactions d)"

definition deposit_books :: "db \<Rightarrow> bool" where
  "deposit_books d \<longleftrightarrow> table_ok (balances d) \<and> table_ok (transactions d)
     \<and> distinct (map (\<lambda>(k, t). tx_hash t) (transactions d))"

text \<open>A recorded transaction keeps its hash, parties and amount; its status only goes from pending to confirmed.\<close>

definition tx_keeps :: "transaction \<Rightarrow> transaction \<Rightarrow> bool" where
  "tx_keeps t t' \<longleftrightarrow> tx_hash t' = tx_hash t \<and> tx_amount t' = tx_amount t
     \<and> tx_from_agent_id t' = tx_from_agent_id t \<and> tx_to_agent_id t' = tx_to_agent_id t
     \<and> (tx_status t' = tx_status t \<or> tx_status t = TxPending \<and> tx_status t' = TxConfirmed)"

definition txs_keep :: "(ident, transaction) table \<Rightarrow> (ident, transaction) table \<Rightarrow> bool" where
  "txs_keep t t' \<longleftrightarrow> (\<forall>k r. row_of t k = Some r \<longrightarrow> (\<exists>r'. row_of t' k = Some r' \<and> tx_keeps r r'))"

definition paid_out :: "ident \<Rightarrow> deposit_notice list \<Rightarrow> decimal" where
  "paid_out b ns = sum_list (map (\<lambda>(a, h, x). if a = b then x else 0) ns)"

definition hash_confirmed :: "string \<Rightarrow> (ident, transaction) table \<Rightarrow> bool" where
  "hash_confirmed h t \<longleftrightarrow> (\<exists>k r. row_of t k = Some r \<and> tx_hash r = h \<and> tx_status r = TxConfirmed)"

text \<open>Each notice is about another transaction, confirmed now and not before.\<close>

definition notices_fresh :: "(ident, transaction) table \<Rightarrow> (ident, transaction) table \<Rightarrow> deposit_notice list \<Rightarrow> bool" where
  "notices_fresh t t' ns \<longleftrightarrow> distinct (map (\<lambda>(a, h, x). h) ns)
     \<and> (\<forall>(a, h, x) \<in> set ns. \<not> hash_confirmed h t \<and> hash_confirmed h t')"

text \<open>One transfer handled, with the notices it gives rise to.\<close>

definition deposit_moves :: "db \<Rightarrow> db \<Rightarrow> deposit_notice list \<Rightarrow> bool" where
  "deposit_moves d d' ns \<longleftrightarrow> deposit_books d' \<and> txs_keep (transactions d) (transactions d')
     \<and> notices_fresh (transactions d) (transactions d') ns
     \<and> (\<forall>u. token_total u (balances d') - token_total u (balances d)
          = (if u = ''XMR'' then confirmed_total d' - confirmed_total d else 0))
     \<and> (\<forall>b u. available_of b u (balances d') = available_of b u (balances d) + (if u = ''XMR'' then paid_out b ns else 0))
     \<and> (\<forall>x. match_subaddress_to_agent x d' = match_subaddress_to_agent x d)"

lemma tx_keeps_trans: "tx_keeps r r1 \<Longrightarrow> tx_keeps r1 r2 \<Longrightarrow> tx_keeps r r2"
  by (auto simp: tx_keeps_def)

lemma txs_keep_refl: "txs_keep t t"
  by (simp add: txs_keep_def tx_keeps_def)

lemma txs_keep_trans: "txs_keep t t1 \<Longrightarrow> txs_keep t1 t2 \<Longrightarrow> txs_keep t t2"
  unfolding txs_keep_def by (metis tx_keeps_trans)

lemma txs_keep_confirmed: "txs_keep t t' \<Longrightarrow> hash_confirmed h t \<Longrightarrow> hash_confirmed h t'"
  unfolding txs_keep_def hash_confirmed_def tx_keeps_def by (metis transaction_status.distinct)

lemma notices_fresh_Nil [simp]: "notices_fresh t t' []"
  by (simp add: notices_fresh_def)

lemma notices_fresh_trans:
  assumes "notices_fresh t t1 ns" "notices_fresh t1 t2 ms" "txs_keep t t1" "txs_keep t1 t2"
  shows "notices_fresh t t2 (ns @ ms)"
  using assms(1,2) txs_keep_confirmed [OF assms(3)] txs_keep_confirmed [OF assms(4)]
  by (fastforce simp: notices_fresh_def)

lemma notices_fresh_row:
  assumes "row_of t' k = Some r" "tx_hash r = h" "tx_status r = TxConfirmed" "\<not> hash_confirmed h t"
  shows "notices_fresh t t' [(a, h, x)]"
  using assms by (auto simp: notices_fresh_def hash_confirmed_def)

lemma paid_out_simps [simp]: "paid_out b [] = 0" "paid_out b (ns @ ms) = paid_out b ns + paid_out b ms"
  "paid_out b [(a, h, x)] = (if a = b then x else 0)"
  by (simp_all add: paid_out_def)

lemma deposit_moves_refl: "deposit_books d \<Longrightarrow> deposit_moves d d []"
  by (simp add: deposit_moves_def txs_keep_refl)

lemma deposit_moves_trans:
  assumes "deposit_moves d d1 ns" and "deposit_moves d1 d2 ms"
  shows "deposit_moves d d2 (ns @ ms)"
proof -
  have "txs_keep (transactions d) (transactions d2)"
    using assms txs_keep_trans by (auto simp: deposit_moves_def)
  moreover have "token_total u (balances d2) - token_total u (balances d)
      = (if u = ''XMR'' then confirmed_total d2 - confirmed_total d else 0)" for u
  proof -
    have "token_total u (balances d1) - token_total u (balances d)
        = (if u = ''XMR'' then confirmed_total d1 - confirmed_total d else 0)"
      and "token_total u (balances d2) - token_total u (balances d1)
        = (if u = ''XMR'' then confirmed_total d2 - confirmed_total d1 else 0)"
      using assms by (simp_all add: deposit_moves_def)
    then show ?thesis by (simp split: if_splits)
  qed
  ultimately show ?thesis
    using assms notices_fresh_trans by (auto simp: deposit_moves_def)
qed

lemma match_row_edit:
  assumes "row_edit t t' a tok f now" and "\<And>b. bal_deposit_address (f b) = bal_deposit_address b"
  shows "map_option fst (first_row (\<lambda>b. bal_deposit_address b = Some x) t')
    = map_option fst (first_row (\<lambda>b. bal_deposit_address b = Some x) t)"
proof -
  have "first_row (\<lambda>b. bal_deposit_address b = Some x) (get_or_create now a tok t)
      = first_row (\<lambda>b. bal_deposit_address b = Some x) t"
    by (simp add: get_or_create_def insert_row_def first_row_append_miss new_balance_def split: option.splits)
  then show ?thesis
    using assms first_row_modify_key [of "\<lambda>b. bal_deposit_address b = Some x" f "(a, tok)" "get_or_create now a tok t"]
    by (simp add: row_edit_def)
qed

lemma match_agent_eq:
  "match_subaddress_to_agent x d = map_option fst (map_option fst (first_row (\<lambda>b. bal_deposit_address b = Some x) (balances d)))"
  by (simp add: match_subaddress_to_agent_def option.map_comp comp_def split_def)

text \<open>An edit of one balance row by the monitor.\<close>

lemma row_edit_moves:
  assumes "row_edit (balances d) t' a ''XMR'' f now" and "\<And>b. bal_available (f b) = bal_available b + x"
    and "\<And>b. bal_deposit_address (f b) = bal_deposit_address b" and "table_ok (balances d)"
  shows "table_ok t'" and "token_total u t' = token_total u (balances d) + (if u = ''XMR'' then x else 0)"
    and "available_of b u t' = available_of b u (balances d) + (if b = a \<and> u = ''XMR'' then x else 0)"
    and "match_subaddress_to_agent y (d1\<lparr>balances := t'\<rparr>) = match_subaddress_to_agent y d"
  using row_edit_ok [OF assms(1)] row_edit_total [OF assms(1,2,4)] row_edit_available [OF assms(1,2)]
    match_row_edit [OF assms(1,3)] assms(4)
  by (simp_all add: match_agent_eq)


lemma hashes_modify_row:
  assumes "\<And>t. tx_hash (f t) = tx_hash t"
  shows "map (\<lambda>(k, t). tx_hash t) (modify_row k f ts) = map (\<lambda>(k, t). tx_hash t) ts"
  by (simp add: modify_row_def update_where_def assms split_def)

lemma txs_keep_add_row: "txs_keep t (add_row tx t)"
proof -
  have "row_of (add_row tx t) k = Some r" if "row_of t k = Some r" for k r
    using that by (auto simp: row_of_add_row)
  then show ?thesis by (simp add: txs_keep_def tx_keeps_def)
qed

lemma txs_keep_modify_row:
  assumes "row_of t k = Some r" and "tx_keeps r (f r)"
  shows "txs_keep t (modify_row k f t)"
  using assms by (auto simp: txs_keep_def row_of_modify_row tx_keeps_def)

text \<open>One balance edit beside a change of the transactions.\<close>

lemma deposit_step:
  assumes ok: "deposit_books d" and edit: "row_edit (balances d) t a ''XMR'' f now"
    and f: "\<And>b. bal_available (f b) = bal_available b + x" "\<And>b. bal_deposit_address (f b) = bal_deposit_address b"
    and ts: "table_ok ts" "distinct (map (\<lambda>(k, t). tx_hash t) ts)" "txs_keep (transactions d) ts"
    and booked: "table_sum (\<lambda>_ t. if tx_status t = TxConfirmed then tx_amount t else 0) ts = confirmed_total d + x"
    and ns: "\<And>b. paid_out b ns = (if b = a then x else 0)" "notices_fresh (transactions d) ts ns"
  shows "deposit_moves d (d\<lparr>transactions := ts, balances := t\<rparr>) ns"
proof -
  have tok: "table_ok (balances d)" using ok by (simp add: deposit_books_def)
  show ?thesis
    using row_edit_moves [OF edit f tok] ts booked ns
    by (simp add: deposit_moves_def deposit_books_def confirmed_total_def)
qed

lemma handle_new_moves:
  assumes ok: "deposit_books d" and run: "handle_new_transfer now mc a h x c d = (d', n)"
  shows "deposit_moves d d' (case n of None \<Rightarrow> [] | Some m \<Rightarrow> [m])"
proof -
  define tx where "tx = create_transaction now h (mc_network mc) None (Some a) x ''XMR'' PtDeposit
      (if mc_min_confirmations mc \<le> c then TxConfirmed else TxPending) 0 0"
  have run': "(case insert_transaction tx d of Inl e \<Rightarrow> (d, None)
      | Inr d1 \<Rightarrow> if mc_min_confirmations mc \<le> c
          then (d1\<lparr>balances := deposit now a x ''XMR'' (balances d1)\<rparr>, Some (a, h, x))
          else (d1\<lparr>balances := add_pending now a x ''XMR'' (balances d1)\<rparr>, None)) = (d', n)"
    using run by (simp only: handle_new_transfer_def Let_def tx_def)
  let ?ts = "add_row tx (transactions d)"
  have tx: "tx_hash tx = h" "tx_amount tx = x" "tx_status tx = (if mc_min_confirmations mc \<le> c then TxConfirmed else TxPending)"
    by (simp_all add: tx_def create_transaction_def)
  show ?thesis
  proof (cases "insert_transaction tx d")
    case (Inl e)
    with run' ok show ?thesis by (auto simp: deposit_moves_refl)
  next
    case (Inr d1)
    then have d1: "d1 = d\<lparr>transactions := ?ts\<rparr>" and fresh: "first_row (\<lambda>t. tx_hash t = h) (transactions d) = None"
      by (auto simp: insert_transaction_def tx split: option.splits)
    have ts: "table_ok ?ts" using ok by (simp add: deposit_books_def)
    have hashes: "distinct (map (\<lambda>(k, t). tx_hash t) ?ts)"
      using ok fresh by (auto simp: deposit_books_def add_row_def insert_row_def tx first_row_None)
    have booked: "table_sum (\<lambda>_ t. if tx_status t = TxConfirmed then tx_amount t else 0) ?ts
        = confirmed_total d + (if mc_min_confirmations mc \<le> c then x else 0)"
      by (simp add: confirmed_total_def table_sum_add_row tx)
    show ?thesis
    proof (cases "mc_min_confirmations mc \<le> c")
      case True
      with run' Inr have "d' = d\<lparr>transactions := ?ts, balances := deposit now a x ''XMR'' (balances d)\<rparr>" "n = Some (a, h, x)"
        by (simp_all add: d1)
      moreover have "\<not> hash_confirmed h (transactions d)"
        using fresh by (auto simp: hash_confirmed_def first_row_None dest!: row_of_Some_mem)
      then have "notices_fresh (transactions d) ?ts [(a, h, x)]"
        using True by (intro notices_fresh_row [of _ "new_id (transactions d)" tx]) (simp_all add: tx)
      ultimately show ?thesis
        using deposit_step [OF ok deposit_edit _ _ ts hashes txs_keep_add_row, where x = x and ns = "[(a, h, x)]"
            and a = a and now = now] booked True by simp
    next
      case False
      with run' Inr have "d' = d\<lparr>transactions := ?ts, balances := add_pending now a x ''XMR'' (balances d)\<rparr>" "n = None"
        by (simp_all add: d1)
      then show ?thesis
        using deposit_step [OF ok add_pending_edit _ _ ts hashes txs_keep_add_row, where x = 0 and ns = "[]"] booked False by simp
    qed
  qed
qed

lemma same_hash_row:
  assumes "table_ok t" "distinct (map (\<lambda>(k, r). tx_hash r) t)" "row_of t k' = Some r'" "row_of t k = Some r" "tx_hash r' = tx_hash r"
  shows "k' = k \<and> r' = r"
  using assms row_of_Some_mem [OF assms(3)] row_of_Some_mem [OF assms(4)]
  by (auto simp: distinct_map inj_on_def)

lemma handle_existing_moves:
  assumes ok: "deposit_books d" and row: "row_of (transactions d) k = Some tx"
    and run: "handle_existing_transfer now mc a k tx c height d = (d', n)"
  shows "deposit_moves d d' (case n of None \<Rightarrow> [] | Some m \<Rightarrow> [m])"
proof -
  define seen where "seen = (\<lambda>t :: transaction. t\<lparr>tx_confirmations := c, tx_block_number := (if height \<noteq> 0 then Some height else tx_block_number t)\<rparr>)"
  have tok: "table_ok (transactions d)" "distinct (map (\<lambda>(k, t). tx_hash t) (transactions d))" "table_ok (balances d)"
    using ok by (simp_all add: deposit_books_def)
  have moves: "deposit_moves d (d\<lparr>transactions := modify_row k f (transactions d), balances := t\<rparr>) ns"
    if "row_edit (balances d) t a ''XMR'' g now" "\<And>b. bal_available (g b) = bal_available b + x"
      "\<And>b. bal_deposit_address (g b) = bal_deposit_address b" "\<And>b. paid_out b ns = (if b = a then x else 0)"
      "\<And>t. tx_hash (f t) = tx_hash t" "tx_keeps tx (f tx)"
      "notices_fresh (transactions d) (modify_row k f (transactions d)) ns"
      "(if tx_status (f tx) = TxConfirmed then tx_amount tx else 0)
         = (if tx_status tx = TxConfirmed then tx_amount tx else 0) + x"
    for f t ns g x
    using that tok
    by (intro deposit_step [OF ok that(1-3)])
      (auto simp: hashes_modify_row txs_keep_modify_row [OF row] table_sum_modify_row [OF tok(1) row] confirmed_total_def tx_keeps_def)
  show ?thesis
  proof (cases "tx_status tx = TxPending \<and> mc_min_confirmations mc \<le> c")
    case True
    let ?f = "\<lambda>t :: transaction. (seen t)\<lparr>tx_status := TxConfirmed, tx_confirmed_at := Some now\<rparr>"
    let ?t1 = "deposit now a (tx_amount tx) ''XMR'' (balances d)"
    let ?d1 = "d\<lparr>transactions := modify_row k ?f (transactions d), balances := ?t1\<rparr>"
    let ?d2 = "?d1\<lparr>transactions := transactions ?d1, balances := clear_pending_on_confirm now a (tx_amount tx) ''XMR'' ?t1\<rparr>"
    have d': "d' = ?d2" "n = Some (a, tx_hash tx, tx_amount tx)"
      using run True by (auto simp: handle_existing_transfer_def Let_def seen_def)
    have "\<not> hash_confirmed (tx_hash tx) (transactions d)"
      using True same_hash_row [OF tok(1,2) _ row] by (metis hash_confirmed_def transaction_status.distinct)
    then have fresh: "notices_fresh (transactions d) (modify_row k ?f (transactions d)) [(a, tx_hash tx, tx_amount tx)]"
      by (intro notices_fresh_row [of _ k "?f tx"]) (simp_all add: row_of_modify_row row seen_def)
    have one: "deposit_moves d ?d1 [(a, tx_hash tx, tx_amount tx)]"
      using True fresh by (intro moves [OF deposit_edit]) (auto simp: tx_keeps_def seen_def)
    then have ok1: "deposit_books ?d1" by (simp add: deposit_moves_def)
    have "deposit_moves ?d1 ?d2 []"
      using ok1 deposit_step [of ?d1 "balances ?d2" a _ now 0 "transactions ?d1" "[]", OF ok1]
        clear_pending_edit [of ?t1 now a "tx_amount tx" "''XMR''"]
      by (simp add: confirmed_total_def deposit_books_def txs_keep_refl)
    from deposit_moves_trans [OF one this] show ?thesis by (simp add: d')
  next
    case False
    then have d': "d' = d\<lparr>transactions := modify_row k seen (transactions d)\<rparr>" "n = None"
      using run by (auto simp: handle_existing_transfer_def Let_def seen_def)
    have "txs_keep (transactions d) (modify_row k seen (transactions d))"
      by (rule txs_keep_modify_row [OF row]) (simp add: tx_keeps_def seen_def)
    then show ?thesis
      using tok by (simp add: d' deposit_moves_def deposit_books_def confirmed_total_def hashes_modify_row
          table_sum_modify_row [OF tok(1) row] match_agent_eq seen_def)
  qed
qed

lemma get_by_hash_row:
  "deposit_books d \<Longrightarrow> get_by_hash h d = Some (k, tx) \<Longrightarrow> row_of (transactions d) k = Some tx \<and> tx_hash tx = h"
  using first_row_Some [of "transactions d" "\<lambda>t. tx_hash t = h" k tx] by (simp add: get_by_hash_def deposit_books_def)

lemma process_transfer_moves:
  assumes ok: "deposit_books d"
  obtains d' ms where "process_transfer now mc x (d, h, ns)
      = (d', if in_height x > h then in_height x else h, ns @ ms)" and "deposit_moves d d' ms"
proof (cases "match_subaddress_to_agent (in_address x) d")
  case None
  with deposit_moves_refl [OF ok] show ?thesis by (intro that [of d "[]"]) (simp_all add: process_transfer_def Let_def)
next
  case (Some a)
  obtain d' n where run: "(case get_by_hash (in_txid x) d of
        None \<Rightarrow> handle_new_transfer now mc a (in_txid x) (in_amount x) (in_confirmations x) d
      | Some (k, tx) \<Rightarrow> handle_existing_transfer now mc a k tx (in_confirmations x) (in_height x) d) = (d', n)"
    by (rule prod.exhaust)
  have "deposit_moves d d' (case n of None \<Rightarrow> [] | Some m \<Rightarrow> [m])"
  proof (cases "get_by_hash (in_txid x) d")
    case None
    with run show ?thesis by (intro handle_new_moves [OF ok]) simp
  next
    case (Some ktx)
    obtain k tx where ktx: "ktx = (k, tx)" by (rule prod.exhaust)
    with run Some get_by_hash_row [OF ok Some [unfolded ktx]] show ?thesis
      by (intro handle_existing_moves [OF ok, of k tx]) simp_all
  qed
  moreover have "process_transfer now mc x (d, h, ns)
      = (d', if in_height x > h then in_height x else h, ns @ (case n of None \<Rightarrow> [] | Some m \<Rightarrow> [m]))"
    by (simp add: process_transfer_def Some run Let_def split: option.splits)
  ultimately show ?thesis using that by blast
qed

lemma process_fold_moves:
  assumes "deposit_books d"
  shows "\<exists>d' h' ms. fold (process_transfer now mc) xs (d, h, ns) = (d', h', ns @ ms)
    \<and> deposit_moves d d' ms \<and> h \<le> h' \<and> (\<forall>x \<in> set xs. in_height x \<le> h') \<and> (h' = h \<or> h' \<in> in_height ` set xs)"
  using assms
proof (induction xs arbitrary: d h ns)
  case Nil
  then show ?case by (simp add: deposit_moves_refl)
next
  case (Cons x xs)
  obtain d1 ms where one: "process_transfer now mc x (d, h, ns)
      = (d1, if in_height x > h then in_height x else h, ns @ ms)" "deposit_moves d d1 ms"
    by (rule process_transfer_moves [OF Cons.prems])
  let ?h = "if in_height x > h then in_height x else h"
  have "deposit_books d1" using one(2) by (simp add: deposit_moves_def)
  from Cons.IH [OF this, of ?h "ns @ ms"] obtain d2 h2 ms2 where
    rest: "fold (process_transfer now mc) xs (d1, ?h, ns @ ms) = (d2, h2, (ns @ ms) @ ms2)"
      "deposit_moves d1 d2 ms2" "?h \<le> h2" "\<forall>x \<in> set xs. in_height x \<le> h2" "h2 = ?h \<or> h2 \<in> in_height ` set xs"
    by blast
  have "fold (process_transfer now mc) (x # xs) (d, h, ns) = (d2, h2, ns @ (ms @ ms2))"
    using one(1) rest(1) by simp
  moreover have "h \<le> h2" "in_height x \<le> h2" using rest(3) by (simp_all split: if_splits)
  ultimately show ?case
    using deposit_moves_trans [OF one(2) rest(2)] rest(4,5) by (auto split: if_splits)
qed

section \<open>Polls and restarts\<close>

datatype monitor_op = Poll "wallet_view option" | Restart

fun monitor_step :: "monitor_config \<Rightarrow> moment \<Rightarrow> monitor_op \<Rightarrow> monitor \<Rightarrow> monitor \<times> deposit_notice list" where
  "monitor_step mc now (Poll view) m = poll_once now mc view m"
| "monitor_step mc now Restart m = (restart_monitor m, [])"

text \<open>The monitor after a sequence of timed operations, and the notices sent on the way.\<close>

fun monitor_run :: "monitor_config \<Rightarrow> (moment \<times> monitor_op) list \<Rightarrow> monitor \<Rightarrow> monitor \<times> deposit_notice list" where
  "monitor_run mc [] m = (m, [])"
| "monitor_run mc ((now, p) # ps) m =
     (let (m1, ns) = monitor_step mc now p m; (m2, ms) = monitor_run mc ps m1 in (m2, ns @ ms))"

text \<open>What one poll that found transfers does: the batch, the persisted height and the height in memory.\<close>

lemma poll_cases:
  obtains (idle) "poll_once now mc view m = (m, [])"
      "\<And>w. view = Some w \<Longrightarrow> get_incoming_transfers (mn_last_height m) w = []"
  | (batch) w xs d' h ns where "view = Some w" "xs = get_incoming_transfers (mn_last_height m) w" "xs \<noteq> []"
      "fold (process_transfer now mc) xs (mn_db m, mn_last_height m, []) = (d', h, ns)"
      "poll_once now mc view m =
         (m\<lparr>mn_db := d',
            mn_state := (if h > 0 then state_set now HEIGHT_KEY (int_text h) (mn_state m) else mn_state m),
            mn_last_height := max h (mn_last_height m)\<rparr>, ns)"
proof (cases "case view of None \<Rightarrow> True | Some w \<Rightarrow> get_incoming_transfers (mn_last_height m) w = []")
  case True
  then show ?thesis by (intro idle) (auto simp: poll_once_def split: option.splits)
next
  case False
  then obtain w where w: "view = Some w" and xs: "get_incoming_transfers (mn_last_height m) w \<noteq> []"
    by (auto split: option.splits)
  obtain d' h ns where run: "fold (process_transfer now mc) (get_incoming_transfers (mn_last_height m) w)
      (mn_db m, mn_last_height m, []) = (d', h, ns)"
    by (metis prod.exhaust)
  have "max h (mn_last_height m) = (if h > mn_last_height m then h else mn_last_height m)" by simp
  then show ?thesis
    using xs run by (intro batch [OF w refl xs run]) (simp add: w poll_once_def process_transfers_def Let_def)
qed

lemma monitor_poll_moves:
  assumes ok: "deposit_books (mn_db m)" and run: "poll_once now mc view m = (m', ns)"
  shows "deposit_moves (mn_db m) (mn_db m') ns"
proof (cases rule: poll_cases [of now mc view m])
  case idle
  with run ok show ?thesis by (simp add: deposit_moves_refl)
next
  case (batch w xs d' h ns')
  with run process_fold_moves [OF ok, of now mc xs "mn_last_height m" "[]"] show ?thesis by auto
qed

lemma restart_db [simp]: "mn_db (restart_monitor m) = mn_db m" "mn_state (restart_monitor m) = mn_state m"
  by (simp_all add: restart_monitor_def load_persisted_height_def split: option.splits)

lemma monitor_step_moves:
  "deposit_books (mn_db m) \<Longrightarrow> monitor_step mc now p m = (m', ns) \<Longrightarrow> deposit_moves (mn_db m) (mn_db m') ns"
  by (cases p) (auto intro: monitor_poll_moves simp: deposit_moves_refl)

lemma monitor_run_moves:
  "deposit_books (mn_db m) \<Longrightarrow> monitor_run mc ps m = (m', ns) \<Longrightarrow> deposit_moves (mn_db m) (mn_db m') ns"
proof (induction ps arbitrary: m ns)
  case Nil
  then show ?case by (auto simp: deposit_moves_refl)
next
  case (Cons q ps)
  obtain now p where q: "q = (now, p)" by (rule prod.exhaust)
  obtain m1 ns1 where one: "monitor_step mc now p m = (m1, ns1)" by (rule prod.exhaust)
  obtain m2 ns2 where rest: "monitor_run mc ps m1 = (m2, ns2)" by (rule prod.exhaust)
  have first: "deposit_moves (mn_db m) (mn_db m1) ns1" using Cons.prems(1) one by (rule monitor_step_moves)
  then have ok1: "deposit_books (mn_db m1)" by (simp add: deposit_moves_def)
  have ends: "m2 = m'" "ns = ns1 @ ns2" using Cons.prems(2) by (auto simp: q one rest)
  have "deposit_moves (mn_db m1) (mn_db m') ns2" by (rule Cons.IH [OF ok1 rest [unfolded ends(1)]])
  from deposit_moves_trans [OF first this] show ?case by (simp add: ends(2))
qed

definition height_saved :: "monitor \<Rightarrow> bool" where
  "height_saved m \<longleftrightarrow> 0 < mn_last_height m \<and> state_get HEIGHT_KEY (mn_state m) = Some (int_text (mn_last_height m))"

section \<open>An example\<close>

text \<open>Two deposits in blocks 100 and 105, first seen at height 106 and again at height 200.\<close>

definition demo_config :: monitor_config where
  "demo_config = \<lparr>mc_min_confirmations = 10, mc_network = ''stagenet''\<rparr>"

definition demo_outputs :: "raw_output list" where
  "demo_outputs = [\<lparr>ro_tx_hash = ''t1'', ro_amount = 3000000000000, ro_block_height = 100, ro_minor = 2\<rparr>,
     \<lparr>ro_tx_hash = ''t2'', ro_amount = 2000000000000, ro_block_height = 105, ro_minor = 3\<rparr>]"

definition demo_view :: "int \<Rightarrow> wallet_view" where
  "demo_view height = \<lparr>wv_outputs = demo_outputs, wv_height = height, wv_addresses = [(0, ''hub''), (2, ''s2''), (3, ''s3'')]\<rparr>"

definition demo_monitor :: monitor where
  "demo_monitor = \<lparr>mn_db = fst (get_or_create_deposit_address 0 (\<lambda>_. ''s3'') 5
       (fst (get_or_create_deposit_address 0 (\<lambda>_. ''s2'') 4 empty_db))), mn_state = [], mn_last_height = 0\<rparr>"

definition demo_polled :: monitor where
  "demo_polled = fst (poll_once 1 demo_config (Some (demo_view 106)) demo_monitor)"

definition demo_later :: "(moment \<times> monitor_op) list" where
  "demo_later = [(2, Restart), (3, Poll None), (4, Poll (Some (demo_view 200)))]"

lemma demo_monitor_books: "deposit_books (mn_db demo_monitor)" "deposit_books (mn_db demo_polled)"
  unfolding deposit_books_def table_ok_def by code_simp+

lemma demo_polled_state: "height_saved demo_polled" "mn_last_height demo_polled = 105"
  "available_of 5 ''XMR'' (balances (mn_db demo_polled)) = 0"
  "map (\<lambda>(k, t). (k, tx_hash t, tx_status t)) (transactions (mn_db demo_polled)) = [(1, ''t1'', TxPending), (2, ''t2'', TxPending)]"
  by code_simp+

lemma demo_later_notices: "snd (monitor_run demo_config demo_later demo_polled) = [(5, ''t2'', 2)]"
  by code_simp

text \<open>C24. Deposits are credited once: whatever the wallet reports over any polls, failures and restarts,
  in any order, what an agent's XMR balance gained is the sum of its notices, no two notices are about
  the same transaction, none about one already confirmed, and the XMR on all balances grew by exactly
  the amounts of the transactions that became confirmed; other tokens and recorded amounts stay.\<close>

theorem deposits_credited_once:
  assumes "deposit_books (mn_db m)" and "monitor_run mc ps m = (m', ns)"
  shows "(\<forall>b u. available_of b u (balances (mn_db m')) = available_of b u (balances (mn_db m))
        + (if u = ''XMR'' then sum_list (map (\<lambda>(a, h, x). if a = b then x else 0) ns) else 0))
    \<and> token_total ''XMR'' (balances (mn_db m')) - token_total ''XMR'' (balances (mn_db m))
      = confirmed_total (mn_db m') - confirmed_total (mn_db m)
    \<and> distinct (map (\<lambda>(a, h, x). h) ns)
    \<and> list_all (\<lambda>(a, h, x). \<not> hash_confirmed h (transactions (mn_db m))) ns
    \<and> txs_keep (transactions (mn_db m)) (transactions (mn_db m'))"
  using monitor_run_moves [OF assms] by (auto simp: deposit_moves_def notices_fresh_def paid_out_def list_all_iff)

theorem deposits_credited_once_witness:
  "available_of 5 ''XMR'' (balances (mn_db (fst (monitor_run demo_config demo_later demo_polled)))) = 2"
proof -
  have "monitor_run demo_config demo_later demo_polled = (fst (monitor_run demo_config demo_later demo_polled), [(5, ''t2'', 2)])"
    using demo_later_notices by (metis prod.collapse)
  from deposits_credited_once [OF demo_monitor_books(2) this] show ?thesis by (simp add: demo_polled_state)
qed

section \<open>Which transfers a poll handles\<close>

lemma get_by_hash_iff:
  assumes "deposit_books d" and "row_of (transactions d) k = Some tx"
  shows "get_by_hash (tx_hash tx) d = Some (k, tx)"
proof -
  have "get_by_hash (tx_hash tx) d \<noteq> None"
    using row_of_Some_mem [OF assms(2)] by (auto simp: get_by_hash_def first_row_None)
  then obtain k' tx' where found: "get_by_hash (tx_hash tx) d = Some (k', tx')" by auto
  with get_by_hash_row [OF assms(1) found] same_hash_row [of "transactions d" k' tx' k tx] assms show ?thesis
    by (simp add: deposit_books_def)
qed

lemma handle_new_other:
  assumes "h' \<noteq> h" and "handle_new_transfer now mc a h' x c d = (d', n)"
  shows "get_by_hash h d' = get_by_hash h d"
  using assms by (auto simp: handle_new_transfer_def Let_def insert_transaction_def get_by_hash_def add_row_def
      insert_row_def first_row_append_miss create_transaction_def split: option.splits if_splits)

lemma handle_existing_other:
  assumes "deposit_books d" and "row_of (transactions d) k = Some tx" and "tx_hash tx \<noteq> h"
    and "handle_existing_transfer now mc a k tx c height d = (d', n)"
  shows "get_by_hash h d' = get_by_hash h d"
proof -
  have "table_ok (transactions d)" using assms(1) by (simp add: deposit_books_def)
  note same = first_row_modify_miss [OF this assms(2), where P = "\<lambda>t. tx_hash t = h", OF assms(3)]
  show ?thesis
    using assms(3,4) by (auto simp: handle_existing_transfer_def Let_def get_by_hash_def same split: if_splits)
qed

lemma process_other:
  assumes "deposit_books d" and "in_txid x \<noteq> h"
    and "process_transfer now mc x (d, height, ns) = (d', height', ns')"
  shows "get_by_hash h d' = get_by_hash h d"
proof (cases "match_subaddress_to_agent (in_address x) d")
  case None
  with assms(3) show ?thesis by (simp add: process_transfer_def Let_def)
next
  case (Some a)
  show ?thesis
  proof (cases "get_by_hash (in_txid x) d")
    case None
    obtain n where "handle_new_transfer now mc a (in_txid x) (in_amount x) (in_confirmations x) d = (d', n)"
      using assms(3) Some None by (auto simp: process_transfer_def Let_def split: prod.splits)
    then show ?thesis by (rule handle_new_other [OF assms(2)])
  next
    case found: (Some ktx)
    obtain k tx where ktx: "ktx = (k, tx)" by (rule prod.exhaust)
    obtain n where "handle_existing_transfer now mc a k tx (in_confirmations x) (in_height x) d = (d', n)"
      using assms(3) Some found ktx by (auto simp: process_transfer_def Let_def split: prod.splits)
    with get_by_hash_row [OF assms(1) found [unfolded ktx]] assms(1,2) show ?thesis
      by (intro handle_existing_other [of d k tx]) simp_all
  qed
qed

lemma process_fold_other:
  assumes "deposit_books d" and "h \<notin> in_txid ` set xs"
    and "fold (process_transfer now mc) xs (d, height, ns) = (d', height', ns')"
  shows "get_by_hash h d' = get_by_hash h d"
  using assms
proof (induction xs arbitrary: d height ns)
  case Nil
  then show ?case by simp
next
  case (Cons x xs)
  obtain d1 ms where one: "process_transfer now mc x (d, height, ns)
      = (d1, if in_height x > height then in_height x else height, ns @ ms)" "deposit_moves d d1 ms"
    by (rule process_transfer_moves [OF Cons.prems(1)])
  have "get_by_hash h d1 = get_by_hash h d"
    using Cons.prems(2) by (intro process_other [OF Cons.prems(1) _ one(1)]) auto
  moreover have "get_by_hash h d' = get_by_hash h d1"
    using Cons.prems one by (intro Cons.IH) (auto simp: deposit_moves_def)
  ultimately show ?case by simp
qed

lemma process_confirmed:
  assumes ok: "deposit_books d" and agent: "match_subaddress_to_agent (in_address x) d = Some a"
    and conf: "mc_min_confirmations mc \<le> in_confirmations x"
    and known: "(case get_by_hash (in_txid x) d of None \<Rightarrow> y = in_amount x
      | Some (k, tx) \<Rightarrow> tx_status tx = TxPending \<and> tx_amount tx = y)"
  shows "\<exists>d'. process_transfer now mc x (d, h, ns)
      = (d', if in_height x > h then in_height x else h, ns @ [(a, in_txid x, y)])"
proof (cases "get_by_hash (in_txid x) d")
  case None
  then show ?thesis
    using agent conf known
    by (simp add: process_transfer_def handle_new_transfer_def insert_transaction_def get_by_hash_def
        create_transaction_def Let_def)
next
  case (Some ktx)
  obtain k tx where ktx: "ktx = (k, tx)" by (rule prod.exhaust)
  with get_by_hash_row [OF ok Some [unfolded ktx]] show ?thesis
    using agent conf known Some by (simp add: process_transfer_def handle_existing_transfer_def Let_def)
qed

text \<open>C25. A confirmed transfer is credited by the poll that sees it: if a transfer to a known deposit
  address has the confirmations required, is alone in the batch with its hash, and is new or recorded as
  pending, the poll sends its notice, the transaction is confirmed afterwards and the agent's balance
  grew by the amounts of all its notices, this one among them.\<close>

theorem confirmed_transfer_credited:
  assumes "deposit_books (mn_db m)" and "poll_once now mc (Some w) m = (m', ns)"
    and "get_incoming_transfers (mn_last_height m) w = ys @ x # zs"
    and "in_txid x \<notin> in_txid ` set (ys @ zs)"
    and "match_subaddress_to_agent (in_address x) (mn_db m) = Some a"
    and "mc_min_confirmations mc \<le> in_confirmations x"
    and "case get_by_hash (in_txid x) (mn_db m) of None \<Rightarrow> y = in_amount x
      | Some (k, tx) \<Rightarrow> tx_status tx = TxPending \<and> tx_amount tx = y"
  shows "(a, in_txid x, y) \<in> set ns \<and> hash_confirmed (in_txid x) (transactions (mn_db m'))
    \<and> available_of a ''XMR'' (balances (mn_db m'))
      = available_of a ''XMR'' (balances (mn_db m)) + sum_list (map (\<lambda>(b, h, x). if b = a then x else 0) ns)"
proof -
  have moves: "deposit_moves (mn_db m) (mn_db m') ns" by (rule monitor_poll_moves [OF assms(1,2)])
  obtain d1 h1 ns1 where before: "fold (process_transfer now mc) ys (mn_db m, mn_last_height m, []) = (d1, h1, ns1)"
    "deposit_moves (mn_db m) d1 ns1"
    using process_fold_moves [OF assms(1), of now mc ys "mn_last_height m" "[]"] by auto
  have "get_by_hash (in_txid x) d1 = get_by_hash (in_txid x) (mn_db m)"
    by (rule process_fold_other [OF assms(1) _ before(1)]) (use assms(4) in auto)
  then have "\<exists>d2. process_transfer now mc x (d1, h1, ns1)
      = (d2, if in_height x > h1 then in_height x else h1, ns1 @ [(a, in_txid x, y)])"
    using assms(5-7) before(2) by (intro process_confirmed) (simp_all add: deposit_moves_def)
  then obtain d2 where step: "process_transfer now mc x (d1, h1, ns1)
      = (d2, if in_height x > h1 then in_height x else h1, ns1 @ [(a, in_txid x, y)])"
    by blast
  have ok1: "deposit_books d1" using before(2) by (simp add: deposit_moves_def)
  obtain e ms where "process_transfer now mc x (d1, h1, ns1)
      = (e, if in_height x > h1 then in_height x else h1, ns1 @ ms)" "deposit_moves d1 e ms"
    by (rule process_transfer_moves [OF ok1])
  then have ok2: "deposit_books d2" using step by (simp add: deposit_moves_def)
  obtain d3 h3 ns3 where "fold (process_transfer now mc) zs
      (d2, if in_height x > h1 then in_height x else h1, ns1 @ [(a, in_txid x, y)])
      = (d3, h3, (ns1 @ [(a, in_txid x, y)]) @ ns3)"
    using process_fold_moves [OF ok2] by metis
  then have "fold (process_transfer now mc) (ys @ x # zs) (mn_db m, mn_last_height m, [])
      = (d3, h3, (ns1 @ [(a, in_txid x, y)]) @ ns3)"
    by (simp add: before(1) step)
  then have "ns = (ns1 @ [(a, in_txid x, y)]) @ ns3"
    using assms(2,3) by (cases rule: poll_cases [of now mc "Some w" m]) auto
  with moves show ?thesis by (auto simp: deposit_moves_def notices_fresh_def paid_out_def)
qed

definition demo_incoming :: incoming where
  "demo_incoming = \<lparr>in_txid = ''t2'', in_amount = 2, in_confirmations = 95, in_height = 105, in_address = ''s3''\<rparr>"

lemma demo_incoming_list: "get_incoming_transfers (mn_last_height demo_polled) (demo_view 200) = [] @ demo_incoming # []"
  by code_simp

lemma demo_incoming_known: "match_subaddress_to_agent (in_address demo_incoming) (mn_db demo_polled) = Some 5"
  "case get_by_hash (in_txid demo_incoming) (mn_db demo_polled) of None \<Rightarrow> 2 = in_amount demo_incoming
     | Some (k, tx) \<Rightarrow> tx_status tx = TxPending \<and> tx_amount tx = 2"
  "mc_min_confirmations demo_config \<le> in_confirmations demo_incoming"
  by code_simp+

theorem confirmed_transfer_credited_witness:
  "(5, ''t2'', 2) \<in> set (snd (poll_once 4 demo_config (Some (demo_view 200)) demo_polled))"
  using confirmed_transfer_credited [OF demo_monitor_books(2) prod.collapse [symmetric] demo_incoming_list _
      demo_incoming_known(1,3,2), of 4]
  by (simp add: demo_incoming_def)

section \<open>The height that is remembered\<close>

lemma state_get_set: "state_get key (state_set now key v t) = Some v"
  by (auto simp: state_get_def state_set_def row_of_insert row_of_modify_row split: option.splits)

lemma restart_saved: "height_saved m \<Longrightarrow> restart_monitor m = m"
  by (simp add: height_saved_def restart_monitor_def load_persisted_height_def py_int_text)

lemma poll_saved:
  assumes "deposit_books (mn_db m)" and "height_saved m" and "poll_once now mc view m = (m', ns)"
  shows "height_saved m' \<and> mn_last_height m \<le> mn_last_height m'"
proof (cases rule: poll_cases [of now mc view m])
  case idle
  with assms(2,3) show ?thesis by simp
next
  case (batch w xs d' h ns')
  with process_fold_moves [OF assms(1), of now mc xs "mn_last_height m" "[]"] have "mn_last_height m \<le> h" by auto
  with batch(5) assms(2,3) show ?thesis by (auto simp: height_saved_def state_get_set)
qed

lemma in_filtered:
  assumes "x \<in> set (get_incoming_transfers min_height w)" and "0 < min_height"
  obtains out where "out \<in> set (wv_outputs w)" and "min_height \<le> ro_block_height out" and "in_txid x = ro_tx_hash out"
    and "in_height x = ro_block_height out"
proof -
  from assms(1) obtain out where "out \<in> set (wv_outputs w)" and "read_output min_height w out = Some x"
    by (auto simp: get_incoming_transfers_def map_filter_def)
  with assms(2) show ?thesis
    by (intro that [of out]) (auto simp: read_output_def Let_def split: if_splits option.splits)
qed

text \<open>Every report of the transaction lies in a block below the height.\<close>

definition seen_below :: "int \<Rightarrow> string \<Rightarrow> monitor_op \<Rightarrow> bool" where
  "seen_below height h p \<longleftrightarrow> (case p of
     Poll (Some w) \<Rightarrow> list_all (\<lambda>out. ro_tx_hash out = h \<longrightarrow> ro_block_height out < height) (wv_outputs w)
   | _ \<Rightarrow> True)"

lemma seen_below_mono: "seen_below height h p \<Longrightarrow> height \<le> height' \<Longrightarrow> seen_below height' h p"
  by (cases p) (auto simp: seen_below_def list_all_iff split: option.splits)

lemma monitor_run_below:
  assumes "deposit_books (mn_db m)" and "height_saved m" and "list_all (seen_below (mn_last_height m) h) (map snd ps)"
    and "monitor_run mc ps m = (m', ns)"
  shows "get_by_hash h (mn_db m') = get_by_hash h (mn_db m)"
  using assms
proof (induction ps arbitrary: m ns)
  case Nil
  then show ?case by simp
next
  case (Cons q ps)
  obtain now p where q: "q = (now, p)" by (rule prod.exhaust)
  obtain m1 ns1 where one: "monitor_step mc now p m = (m1, ns1)" by (rule prod.exhaust)
  obtain m2 ns2 where rest: "monitor_run mc ps m1 = (m2, ns2)" by (rule prod.exhaust)
  have ends: "m2 = m'" using Cons.prems(4) by (auto simp: q one rest)
  have ok1: "deposit_books (mn_db m1)"
    using monitor_step_moves [OF Cons.prems(1) one] by (simp add: deposit_moves_def)
  have "height_saved m1 \<and> mn_last_height m \<le> mn_last_height m1 \<and> get_by_hash h (mn_db m1) = get_by_hash h (mn_db m)"
  proof (cases p)
    case Restart
    with one Cons.prems(2) show ?thesis by (auto simp: restart_saved)
  next
    case (Poll view)
    have run: "poll_once now mc view m = (m1, ns1)" using one Poll by simp
    have "get_by_hash h (mn_db m1) = get_by_hash h (mn_db m)"
    proof (cases rule: poll_cases [of now mc view m])
      case idle
      with run show ?thesis by simp
    next
      case (batch w xs d' height ns')
      have "in_txid x \<noteq> h" if x: "x \<in> set xs" for x
      proof -
        have pos: "0 < mn_last_height m" using Cons.prems(2) by (simp add: height_saved_def)
        obtain out where "out \<in> set (wv_outputs w)" "mn_last_height m \<le> ro_block_height out" "in_txid x = ro_tx_hash out"
          by (rule in_filtered [OF x [unfolded batch(2)] pos]) (rule that)
        with Cons.prems(3) show ?thesis
          by (auto simp: q Poll batch(1) seen_below_def list_all_iff)
      qed
      then have "get_by_hash h d' = get_by_hash h (mn_db m)"
        by (intro process_fold_other [OF Cons.prems(1) _ batch(4)]) auto
      with run batch(5) show ?thesis by auto
    qed
    with poll_saved [OF Cons.prems(1,2) run] show ?thesis by simp
  qed
  moreover have "list_all (seen_below (mn_last_height m1) h) (map snd ps)"
    using Cons.prems(3) calculation by (auto simp: q list_all_iff intro: seen_below_mono)
  ultimately show ?case using Cons.IH [OF ok1 _ _ rest [unfolded ends]] by simp
qed

text \<open>A pending deposit whose block lies below the last height scanned is never completed: whatever
  else the wallet reports, through any polls and restarts, its transaction stays exactly as it was,
  pending, however many confirmations it gets.\<close>

lemma pending_deposit_stuck:
  assumes "deposit_books (mn_db m)" and "height_saved m"
    and "row_of (transactions (mn_db m)) k = Some tx"
    and "list_all (seen_below (mn_last_height m) (tx_hash tx)) (map snd ps)"
    and "monitor_run mc ps m = (m', ns)"
  shows "row_of (transactions (mn_db m')) k = Some tx"
proof -
  have "get_by_hash (tx_hash tx) (mn_db m') = Some (k, tx)"
    by (simp add: monitor_run_below [OF assms(1,2,4,5)] get_by_hash_iff [OF assms(1,3)])
  moreover have "deposit_books (mn_db m')"
    using monitor_run_moves [OF assms(1,5)] by (simp add: deposit_moves_def)
  ultimately show ?thesis using get_by_hash_row by blast
qed

text \<open>The deposit in block 100 of the example: seen by the first poll, it is still pending at height 200,
  where its 100 confirmations are ten times those required.\<close>

definition demo_stuck :: transaction where
  "demo_stuck = the (row_of (transactions (mn_db demo_polled)) 1)"

lemma demo_stuck_row: "row_of (transactions (mn_db demo_polled)) 1 = Some demo_stuck"
  "tx_hash demo_stuck = ''t1''" "tx_status demo_stuck = TxPending"
proof -
  have "row_of (transactions (mn_db demo_polled)) 1 \<noteq> None" by code_simp
  then show "row_of (transactions (mn_db demo_polled)) 1 = Some demo_stuck" by (auto simp: demo_stuck_def)
qed code_simp+

lemma pending_deposit_stuck_witness:
  "map_option tx_status (row_of (transactions (mn_db (fst (monitor_run demo_config demo_later demo_polled)))) 1)
     = Some TxPending"
proof -
  have "list_all (seen_below (mn_last_height demo_polled) (tx_hash demo_stuck)) (map snd demo_later)"
    by (simp add: demo_polled_state demo_stuck_row demo_later_def seen_below_def demo_view_def demo_outputs_def)
  from pending_deposit_stuck [OF demo_monitor_books(2) demo_polled_state(1) demo_stuck_row(1) this prod.collapse [symmetric]]
  show ?thesis by (simp add: demo_stuck_row)
qed

section \<open>Withdrawal recovery\<close>

definition settled :: "moment \<Rightarrow> outgoing list \<Rightarrow> pending_withdrawal \<Rightarrow> pending_withdrawal" where
  "settled now xs p = (case find_matching_transfer p xs of
     Some x \<Rightarrow> p\<lparr>pw_status := WdCompleted, pw_tx_hash := Some (og_tx_hash x), pw_completed_at := Some now\<rparr>
   | None \<Rightarrow> p\<lparr>pw_status := WdNeedsReview, pw_error := Some ''No matching on-chain tx after max_age_minutes''\<rparr>)"

lemma recover_one:
  assumes "table_ok t" and "row_of t k = Some p"
  shows "(case find_matching_transfer p xs of
      Some x \<Rightarrow> mark_completed now k (og_tx_hash x) t
    | None \<Rightarrow> mark_needs_review k ''No matching on-chain tx after max_age_minutes'' t)
    = Inr (modify_row k (\<lambda>_. settled now xs p) t)"
proof -
  have "fst (update_row (\<lambda>_. True) f k t) = 1" for f using assms by (simp add: rows_update_row)
  moreover have "modify_row k f t = modify_row k (\<lambda>_. f p) t" for f
    by (rule modify_row_cong) (simp_all add: assms)
  ultimately show ?thesis
    by (auto simp: mark_completed_def mark_needs_review_def settled_def Let_def split_def
        simp flip: modify_row_is_update split: option.split)
qed

lemma recover_each_settles:
  assumes "table_ok t" and "\<forall>(k, p) \<in> set q. row_of t k = Some p" and "distinct (map fst q)"
  shows "\<exists>t'. recover_each now xs q t = Inr (t', length q) \<and> keys_of t' = keys_of t
    \<and> (\<forall>k. row_of t' k = (case map_of q k of Some p \<Rightarrow> Some (settled now xs p) | None \<Rightarrow> row_of t k))"
  using assms
proof (induction q arbitrary: t)
  case Nil
  then show ?case by simp
next
  case (Cons kp q)
  obtain k p where kp: "kp = (k, p)" by (rule prod.exhaust)
  let ?t = "modify_row k (\<lambda>_. settled now xs p) t"
  have row: "row_of t k = Some p" and fresh: "k \<notin> fst ` set q" using Cons.prems(2,3) by (auto simp: kp)
  have "table_ok ?t" using Cons.prems(1) by simp
  moreover have "\<forall>(k', p') \<in> set q. row_of ?t k' = Some p'"
    using Cons.prems(2) fresh by (force simp: row_of_modify_row)
  moreover have "distinct (map fst q)" using Cons.prems(3) by (simp add: kp)
  ultimately have "\<exists>t'. recover_each now xs q ?t = Inr (t', length q) \<and> keys_of t' = keys_of ?t
      \<and> (\<forall>k. row_of t' k = (case map_of q k of Some p \<Rightarrow> Some (settled now xs p) | None \<Rightarrow> row_of ?t k))"
    by (rule Cons.IH)
  then obtain t' where rest: "recover_each now xs q ?t = Inr (t', length q)" "keys_of t' = keys_of ?t"
    "\<And>k. row_of t' k = (case map_of q k of Some p \<Rightarrow> Some (settled now xs p) | None \<Rightarrow> row_of ?t k)"
    by blast
  have "row_of t' k' = (case map_of (kp # q) k' of Some p \<Rightarrow> Some (settled now xs p) | None \<Rightarrow> row_of t k')" for k'
  proof (cases "k' = k")
    case True
    have "map_of q k = None" using fresh by (simp add: map_of_eq_None_iff)
    with True show ?thesis using rest(3) [of k] by (simp add: kp row_of_modify_row row)
  next
    case False
    then have "row_of ?t k' = row_of t k'" by (cases "row_of t k'") (simp_all add: row_of_modify_row)
    with False show ?thesis using rest(3) [of k'] by (cases "map_of q k'") (simp_all add: kp)
  qed
  then show ?case
    using rest(1,2) by (auto simp: kp recover_one [OF Cons.prems(1) row])
qed

abbreviation stale :: "moment \<Rightarrow> int \<Rightarrow> pending_withdrawal \<Rightarrow> bool" where
  "stale now age p \<equiv> pw_status p = WdPending \<and> pw_created_at p < now - seconds (60 * age)"

lemma map_of_filter_row:
  "table_ok t \<Longrightarrow> map_of (filter (\<lambda>(k, p). P p) t) k
    = (case row_of t k of Some p \<Rightarrow> if P p then Some p else None | None \<Rightarrow> None)"
proof (induction t)
  case Nil
  then show ?case by simp
next
  case (Cons kv t)
  obtain k0 p0 where kv: "kv = (k0, p0)" by (rule prod.exhaust)
  have "table_ok t" and "row_of t k0 = None" using Cons.prems by (auto simp: kv table_ok_def keys_of_def row_of_None_iff)
  with Cons.IH show ?case by (cases "k0 = k") (simp_all add: kv)
qed

lemma recover_each_stale:
  assumes ok: "table_ok t"
  shows "recover_each now xs (get_stale_pending now age t) t
    = Inr (update_where (\<lambda>_. stale now age) (settled now xs) t, length (get_stale_pending now age t))"
proof -
  let ?q = "get_stale_pending now age t"
  have q: "?q = filter (\<lambda>(k, p). stale now age p) t" by (simp add: get_stale_pending_def select_where_def)
  have rows: "\<forall>(k, p) \<in> set ?q. row_of t k = Some p" using mem_row_of [OF ok] by (auto simp: q)
  have "distinct (map fst ?q)" using ok by (simp add: q table_ok_def keys_of_def distinct_map_filter)
  from recover_each_settles [OF ok rows this] obtain t' where
    t': "recover_each now xs ?q t = Inr (t', length ?q)" "keys_of t' = keys_of t"
      "\<And>k. row_of t' k = (case map_of ?q k of Some p \<Rightarrow> Some (settled now xs p) | None \<Rightarrow> row_of t k)"
    by blast
  have "row_of t' k = row_of (update_where (\<lambda>_. stale now age) (settled now xs) t) k" for k
    unfolding t'(3) q map_of_filter_row [OF ok] row_of_update_where by (cases "row_of t k") simp_all
  then have "t' = update_where (\<lambda>_. stale now age) (settled now xs) t"
    using ok t'(2) by (intro table_eqI ext) (simp_all add: table_ok_def)
  with t'(1) show ?thesis by simp
qed

text \<open>C26. Recovery settles every stale withdrawal and nothing else: with a wallet that answers, or none,
  it is one update of the rows that are pending and too old, which completes those with a matching
  transfer under its hash and hands the others to review, and it reports how many; a wallet that fails
  leaves the table alone. No balance is in its reach.\<close>

theorem recovery_settles_stale:
  assumes "table_ok t"
  shows "recover_pending_withdrawals now age wallet t =
    (if wallet = Some None then Inr (t, 0)
     else Inr (update_where (\<lambda>_ p. pw_status p = WdPending \<and> pw_created_at p < now - seconds (60 * age))
                 (settled now (case wallet of Some (Some xs) \<Rightarrow> xs | _ \<Rightarrow> [])) t,
               length (get_stale_pending now age t)))"
proof (cases "get_stale_pending now age t = []")
  case True
  then have "update_where (\<lambda>_. stale now age) f t = t" for f
    by (auto simp: get_stale_pending_def select_where_def update_where_def filter_empty_conv intro!: map_idI)
  with True show ?thesis by (simp add: recover_pending_withdrawals_def)
next
  case False
  then show ?thesis
    by (simp add: recover_pending_withdrawals_def recover_each_stale [OF assms] split: option.split)
qed

text \<open>One transfer on the chain completes two equal withdrawals to one address.\<close>

definition demo_withdrawal :: pending_withdrawal where
  "demo_withdrawal = \<lparr>pw_agent_id = 4, pw_amount = 2, pw_address = ''w'', pw_status = WdPending, pw_tx_hash = None,
     pw_error = None, pw_created_at = 0, pw_completed_at = None\<rparr>"

definition demo_transfers :: "outgoing list" where
  "demo_transfers = get_outgoing_transfers
     [\<lparr>rt_tx_hash = ''t'', rt_amount = 2000000000000, rt_address = ''w'', rt_timestamp = 60\<rparr>] []"

theorem recovery_settles_stale_witness:
  "map_option (\<lambda>p. (pw_status p, pw_tx_hash p))
     (case recover_pending_withdrawals (seconds 600) 5 (Some (Some demo_transfers)) [(1, demo_withdrawal), (2, demo_withdrawal)]
      of Inl _ \<Rightarrow> None | Inr (t, n) \<Rightarrow> row_of t 2) = Some (WdCompleted, Some ''t'')"
proof -
  have "table_ok [(1 :: ident, demo_withdrawal), (2, demo_withdrawal)]" by (simp add: table_ok_def keys_of_def)
  note rule = recovery_settles_stale [OF this, of "seconds 600" 5 "Some (Some demo_transfers)"]
  have "stale (seconds 600) 5 demo_withdrawal" by code_simp
  moreover have "settled (seconds 600) demo_transfers demo_withdrawal = demo_withdrawal\<lparr>pw_status := WdCompleted,
      pw_tx_hash := Some ''t'', pw_completed_at := Some (seconds 600)\<rparr>"
    by code_simp
  ultimately show ?thesis unfolding rule by (simp add: row_of_update_where)
qed

end
