(* ===== verification/Webhooks.thy ===== *)
theory Webhooks
  imports Balance_Routes Glob
begin

text \<open>
  Webhook delivery (\<open>sthrip/services/webhook_service.py\<close>, \<open>sthrip/db/webhook_repo.py\<close>), the endpoints agents
  register (\<open>sthrip/db/webhook_endpoint_repo.py\<close>, \<open>api/routers/webhook_endpoints.py\<close>) and the manual retry
  (\<open>api/routers/webhooks.py\<close>).

  An event is delivered in three phases with the session closed between them: reading the event and its
  targets, the HTTP calls, writing the result. Each phase is atomic; other requests and the workers of other
  processes run in between, so delivery is a machine whose moves are the phases of any number of workers. The
  HTTP calls answer with a parameter, one per target, \<open>None\<close> for an exception. Encryption at rest is a pair of parameters, \<open>enc\<close> and \<open>dec\<close>, which may
  fail; in a run \<open>enc\<close> also takes the randomness of the request.
\<close>

section \<open>Rows\<close>

datatype webhook_status = HookPending | HookDelivered | HookFailed | HookRetrying

record queued_event =
  qe_agent_id :: ident
  qe_event_type :: string
  qe_payload :: string
  qe_status :: webhook_status
  qe_attempt_count :: nat
  qe_max_attempts :: nat
  qe_last_response_code :: "int option"
  qe_last_response_body :: "string option"
  qe_last_error :: "string option"
  qe_next_attempt_at :: moment
  qe_delivered_at :: "moment option"
  qe_created_at :: moment

type_synonym event_table = "(ident, queued_event) table"

record endpoint =
  ep_agent_id :: ident
  ep_url_encrypted :: string
  ep_secret_encrypted :: string
  ep_description :: "string option"
  ep_event_filters :: "string list option"
  ep_is_active :: bool
  ep_failure_count :: nat
  ep_disabled_at :: "moment option"
  ep_created_at :: moment

type_synonym endpoint_table = "(ident, endpoint) table"

record hooks =
  hk_events :: event_table
  hk_endpoints :: endpoint_table

section \<open>The event repository\<close>

definition create_event :: "moment \<Rightarrow> ident \<Rightarrow> string \<Rightarrow> string \<Rightarrow> event_table \<Rightarrow> event_table" where
  "create_event now a typ payload =
     add_row \<lparr>qe_agent_id = a, qe_event_type = typ, qe_payload = payload, qe_status = HookPending, qe_attempt_count = 0,
       qe_max_attempts = 5, qe_last_response_code = None, qe_last_response_body = None, qe_last_error = None,
       qe_next_attempt_at = now, qe_delivered_at = None, qe_created_at = now\<rparr>"

definition hook_active :: "webhook_status \<Rightarrow> bool" where
  "hook_active s \<longleftrightarrow> s = HookPending \<or> s = HookRetrying"

definition deliverable :: "moment \<Rightarrow> queued_event \<Rightarrow> bool" where
  "deliverable now e \<longleftrightarrow> hook_active (qe_status e) \<and> qe_next_attempt_at e \<le> now
     \<and> qe_attempt_count e < qe_max_attempts e"

definition get_pending_events :: "moment \<Rightarrow> nat \<Rightarrow> event_table \<Rightarrow> (ident \<times> queued_event) list" where
  "get_pending_events now limit t =
     take (min limit MAX_QUERY_LIMIT) (sort_key (\<lambda>(k, e). qe_created_at e) (select_where (deliverable now) t))"

definition mark_delivered :: "moment \<Rightarrow> ident \<Rightarrow> int \<Rightarrow> event_table \<Rightarrow> event_table" where
  "mark_delivered now eid code =
     modify_row eid (\<lambda>e. e\<lparr>qe_status := HookDelivered, qe_last_response_code := Some code,
       qe_last_response_body := Some (''status='' @ int_text code), qe_delivered_at := Some now\<rparr>)"

definition mark_event_failed :: "ident \<Rightarrow> string \<Rightarrow> event_table \<Rightarrow> event_table" where
  "mark_event_failed eid err =
     modify_row eid (\<lambda>e. e\<lparr>qe_status := HookFailed, qe_last_error := Some (take 1000 err)\<rparr>)"

definition RETRY_DELAYS :: "int list" where
  "RETRY_DELAYS = [60, 300, 900, 1800, 3600]"

definition schedule_retry :: "moment \<Rightarrow> ident \<Rightarrow> string \<Rightarrow> event_table \<Rightarrow> event_table" where
  "schedule_retry now eid err t =
     (case row_of t eid of
        None \<Rightarrow> t
      | Some e \<Rightarrow>
          let attempt = qe_attempt_count e + 1;
              delay = RETRY_DELAYS ! min (attempt - 1) (length RETRY_DELAYS - 1)
          in modify_row eid (\<lambda>e. e\<lparr>qe_status := HookRetrying, qe_attempt_count := attempt,
               qe_last_error := (if err \<noteq> '''' then Some (take 1000 err) else None),
               qe_next_attempt_at := now + seconds delay\<rparr>) t)"

section \<open>The endpoint repository\<close>

definition endpoint_create ::
  "moment \<Rightarrow> ident \<Rightarrow> string \<Rightarrow> string \<Rightarrow> string option \<Rightarrow> string list option \<Rightarrow> endpoint_table \<Rightarrow> endpoint_table"
where
  "endpoint_create now a url_encrypted secret_encrypted description event_filters =
     add_row \<lparr>ep_agent_id = a, ep_url_encrypted = url_encrypted, ep_secret_encrypted = secret_encrypted,
       ep_description = description, ep_event_filters = event_filters, ep_is_active = True, ep_failure_count = 0,
       ep_disabled_at = None, ep_created_at = now\<rparr>"

definition endpoints_by_agent :: "ident \<Rightarrow> endpoint_table \<Rightarrow> (ident \<times> endpoint) list" where
  "endpoints_by_agent a t = sort_key (\<lambda>(k, p). - ep_created_at p) (select_where (\<lambda>p. ep_agent_id p = a) t)"

definition endpoint_of :: "ident \<Rightarrow> ident \<Rightarrow> endpoint_table \<Rightarrow> endpoint option" where
  "endpoint_of wid a t =
     (case row_of t wid of None \<Rightarrow> None | Some p \<Rightarrow> if ep_agent_id p = a then Some p else None)"

definition endpoint_delete :: "ident \<Rightarrow> ident \<Rightarrow> endpoint_table \<Rightarrow> bool \<times> endpoint_table" where
  "endpoint_delete wid a t =
     (endpoint_of wid a t \<noteq> None, delete_where (\<lambda>k p. k = wid \<and> ep_agent_id p = a) t)"

definition count_endpoints :: "ident \<Rightarrow> endpoint_table \<Rightarrow> nat" where
  "count_endpoints a t = length (select_where (\<lambda>p. ep_agent_id p = a) t)"

definition update_secret :: "ident \<Rightarrow> ident \<Rightarrow> string \<Rightarrow> endpoint_table \<Rightarrow> endpoint_table option" where
  "update_secret wid a secret_encrypted t =
     (case endpoint_of wid a t of
        None \<Rightarrow> None
      | Some _ \<Rightarrow> Some (modify_row wid (\<lambda>p. p\<lparr>ep_secret_encrypted := secret_encrypted\<rparr>) t))"

definition get_url :: "(string \<Rightarrow> string option) \<Rightarrow> endpoint \<Rightarrow> string option" where
  "get_url dec p = (if ep_url_encrypted p = '''' then None else dec (ep_url_encrypted p))"

definition find_by_agent_and_url ::
  "(string \<Rightarrow> string option) \<Rightarrow> ident \<Rightarrow> string \<Rightarrow> endpoint_table \<Rightarrow> (ident \<times> endpoint) option"
where
  "find_by_agent_and_url dec a url t = find (\<lambda>(k, p). get_url dec p = Some url) (endpoints_by_agent a t)"

definition upsert_by_url ::
  "moment \<Rightarrow> (string \<Rightarrow> string) \<Rightarrow> (string \<Rightarrow> string option) \<Rightarrow> ident \<Rightarrow> string \<Rightarrow> string \<Rightarrow> string option
    \<Rightarrow> string list option \<Rightarrow> endpoint_table \<Rightarrow> endpoint_table"
where
  "upsert_by_url now enc dec a url secret_encrypted description event_filters t =
     (case find_by_agent_and_url dec a url t of
        Some _ \<Rightarrow> t
      | None \<Rightarrow> endpoint_create now a (enc url) secret_encrypted description event_filters t)"

section \<open>Delivery\<close>

record hook_target =
  ht_endpoint_id :: ident
  ht_url :: string
  ht_secret :: string

record webhook_result =
  wr_success :: bool
  wr_error :: "string option"

definition MAX_ENDPOINT_FAILURES :: nat where
  "MAX_ENDPOINT_FAILURES = 10"

definition matches_event_filter :: "string \<Rightarrow> string list option \<Rightarrow> bool" where
  "matches_event_filter event_type filters \<longleftrightarrow>
     (case filters of None \<Rightarrow> True | Some ps \<Rightarrow> ps = [] \<or> list_ex (fnmatch event_type) ps)"

text \<open>The targets of an event; an endpoint whose URL does not decrypt is disabled on the way.\<close>

fun collect_targets ::
  "moment \<Rightarrow> (string \<Rightarrow> string option) \<Rightarrow> string \<Rightarrow> (ident \<times> endpoint) list \<Rightarrow> endpoint_table \<Rightarrow> endpoint_table \<times> hook_target list"
where
  "collect_targets now dec event_type [] t = (t, [])"
| "collect_targets now dec event_type ((k, p) # q) t =
     (if \<not> ep_is_active p \<or> ep_failure_count p \<ge> MAX_ENDPOINT_FAILURES
         \<or> \<not> matches_event_filter event_type (ep_event_filters p)
      then collect_targets now dec event_type q t
      else case get_url dec p of
        None \<Rightarrow> collect_targets now dec event_type q
                  (modify_row k (\<lambda>p. p\<lparr>ep_is_active := False, ep_disabled_at := Some now\<rparr>) t)
      | Some url \<Rightarrow>
          if url = '''' then collect_targets now dec event_type q
                  (modify_row k (\<lambda>p. p\<lparr>ep_is_active := False, ep_disabled_at := Some now\<rparr>) t)
          else case dec (ep_secret_encrypted p) of
            None \<Rightarrow> collect_targets now dec event_type q t
          | Some secret \<Rightarrow>
              let (t1, ts) = collect_targets now dec event_type q t
              in (t1, \<lparr>ht_endpoint_id = k, ht_url = url, ht_secret = secret\<rparr> # ts))"

datatype hook_begun = HookEnded bool | HookSending string "hook_target list"

text \<open>Phase 1. Whether the owner of the event still exists is the argument \<open>known\<close>.\<close>

definition begin_event ::
  "moment \<Rightarrow> (ident \<Rightarrow> bool) \<Rightarrow> (string \<Rightarrow> string option) \<Rightarrow> ident \<Rightarrow> hooks \<Rightarrow> hooks \<times> hook_begun"
where
  "begin_event now known dec eid h =
     (case row_of (hk_events h) eid of
        None \<Rightarrow> (h, HookEnded False)
      | Some e \<Rightarrow>
          if \<not> known (qe_agent_id e)
          then (h\<lparr>hk_events := mark_delivered now eid 0 (hk_events h)\<rparr>, HookEnded True)
          else let (eps, ts) = collect_targets now dec (qe_event_type e)
                     (endpoints_by_agent (qe_agent_id e) (hk_endpoints h)) (hk_endpoints h);
                   h1 = h\<lparr>hk_endpoints := eps\<rparr>
               in if ts = [] then (h1\<lparr>hk_events := mark_delivered now eid 0 (hk_events h1)\<rparr>, HookEnded True)
                  else (h1, HookSending (qe_payload e) ts))"

text \<open>The counters of the endpoints after the calls.\<close>

fun count_outcomes ::
  "moment \<Rightarrow> ident \<Rightarrow> (hook_target \<times> webhook_result option) list \<Rightarrow> endpoint_table \<Rightarrow> endpoint_table"
where
  "count_outcomes now a [] t = t"
| "count_outcomes now a ((target, None) # q) t = count_outcomes now a q t"
| "count_outcomes now a ((target, Some r) # q) t =
     count_outcomes now a q
       (case endpoint_of (ht_endpoint_id target) a t of
          None \<Rightarrow> t
        | Some p \<Rightarrow> modify_row (ht_endpoint_id target)
            (\<lambda>p. if wr_success r then p\<lparr>ep_failure_count := 0\<rparr>
                 else let n = ep_failure_count p + 1
                      in if n \<ge> MAX_ENDPOINT_FAILURES
                         then p\<lparr>ep_failure_count := n, ep_is_active := False, ep_disabled_at := Some now\<rparr>
                         else p\<lparr>ep_failure_count := n\<rparr>) t)"

definition first_error :: "webhook_result option list \<Rightarrow> string" where
  "first_error rs =
     (case find (\<lambda>r. case r of None \<Rightarrow> False | Some r \<Rightarrow> wr_error r \<noteq> None \<and> wr_error r \<noteq> Some '''') rs of
        Some (Some r) \<Rightarrow> the (wr_error r)
      | _ \<Rightarrow> ''All endpoints failed'')"

definition any_success :: "webhook_result option list \<Rightarrow> bool" where
  "any_success rs = list_ex (\<lambda>r. case r of None \<Rightarrow> False | Some r \<Rightarrow> wr_success r) rs"

text \<open>Phase 3.\<close>

definition finish_event ::
  "moment \<Rightarrow> ident \<Rightarrow> hook_target list \<Rightarrow> webhook_result option list \<Rightarrow> hooks \<Rightarrow> hooks \<times> bool"
where
  "finish_event now eid targets rs h =
     (case row_of (hk_events h) eid of
        None \<Rightarrow> (h, any_success rs)
      | Some e \<Rightarrow>
          if \<not> hook_active (qe_status e) then (h, any_success rs)
          else (h\<lparr>hk_events := (if any_success rs then mark_delivered now eid 200 (hk_events h)
                                else schedule_retry now eid (first_error rs) (hk_events h)),
                  hk_endpoints := count_outcomes now (qe_agent_id e) (zip targets rs) (hk_endpoints h)\<rparr>,
                any_success rs))"

text \<open>The three phases in one go: \<open>send\<close> gives the answer of a call.\<close>

definition process_event ::
  "moment \<Rightarrow> moment \<Rightarrow> (ident \<Rightarrow> bool) \<Rightarrow> (string \<Rightarrow> string option) \<Rightarrow> (string \<Rightarrow> hook_target \<Rightarrow> webhook_result option)
    \<Rightarrow> ident \<Rightarrow> hooks \<Rightarrow> hooks \<times> bool"
where
  "process_event now later known dec send eid h =
     (case begin_event now known dec eid h of
        (h1, HookEnded ok) \<Rightarrow> (h1, ok)
      | (h1, HookSending payload ts) \<Rightarrow> finish_event later eid ts (map (send payload) ts) h1)"

section \<open>Requests\<close>

definition queue_event :: "moment \<Rightarrow> ident \<Rightarrow> string \<Rightarrow> string \<Rightarrow> hooks \<Rightarrow> hooks" where
  "queue_event now a typ payload h = h\<lparr>hk_events := create_event now a typ payload (hk_events h)\<rparr>"

definition retry_webhook_event :: "moment \<Rightarrow> ident \<Rightarrow> ident \<Rightarrow> hooks \<Rightarrow> http_error + hooks" where
  "retry_webhook_event now a eid h =
     (case row_of (hk_events h) eid of
        None \<Rightarrow> Inl (HTTPException 404 ''Webhook event not found'')
      | Some e \<Rightarrow>
          if qe_agent_id e \<noteq> a then Inl (HTTPException 404 ''Webhook event not found'')
          else if qe_status e \<noteq> HookFailed \<and> qe_status e \<noteq> HookRetrying
          then Inl (HTTPException 400 ''Cannot retry event'')
          else Inr (h\<lparr>hk_events := modify_row eid
                 (\<lambda>e. e\<lparr>qe_status := HookPending, qe_attempt_count := 0, qe_next_attempt_at := now\<rparr>) (hk_events h)\<rparr>))"

definition MAX_ENDPOINTS_PER_AGENT :: nat where
  "MAX_ENDPOINTS_PER_AGENT = 10"

definition register_webhook ::
  "moment \<Rightarrow> (string \<Rightarrow> string) \<Rightarrow> (string \<Rightarrow> string option) \<Rightarrow> string \<Rightarrow> ident \<Rightarrow> string \<Rightarrow> string option
    \<Rightarrow> string list option \<Rightarrow> hooks \<Rightarrow> http_error + hooks"
where
  "register_webhook now enc dec secret a url description event_filters h =
     (if count_endpoints a (hk_endpoints h) \<ge> MAX_ENDPOINTS_PER_AGENT
      then Inl (HTTPException 400 ''Maximum webhook endpoints per agent'')
      else if find_by_agent_and_url dec a url (hk_endpoints h) \<noteq> None
      then Inl (HTTPException 409 ''Webhook endpoint with this URL already exists for this agent'')
      else Inr (h\<lparr>hk_endpoints :=
             endpoint_create now a (enc url) (enc secret) description event_filters (hk_endpoints h)\<rparr>))"

definition delete_webhook :: "ident \<Rightarrow> ident \<Rightarrow> hooks \<Rightarrow> http_error + hooks" where
  "delete_webhook a wid h =
     (let (deleted, t) = endpoint_delete wid a (hk_endpoints h)
      in if \<not> deleted then Inl (HTTPException 404 ''Webhook endpoint not found'') else Inr (h\<lparr>hk_endpoints := t\<rparr>))"

definition rotate_secret :: "(string \<Rightarrow> string) \<Rightarrow> string \<Rightarrow> ident \<Rightarrow> ident \<Rightarrow> hooks \<Rightarrow> http_error + hooks" where
  "rotate_secret enc secret a wid h =
     (case update_secret wid a (enc secret) (hk_endpoints h) of
        None \<Rightarrow> Inl (HTTPException 404 ''Webhook endpoint not found'')
      | Some t \<Rightarrow> Inr (h\<lparr>hk_endpoints := t\<rparr>))"

text \<open>The test of an endpoint answers that an event was queued; it changes nothing.\<close>

definition test_webhook :: "ident \<Rightarrow> ident \<Rightarrow> hooks \<Rightarrow> http_error + hooks" where
  "test_webhook a wid h =
     (case endpoint_of wid a (hk_endpoints h) of
        None \<Rightarrow> Inl (HTTPException 404 ''Webhook endpoint not found'')
      | Some _ \<Rightarrow> Inr h)"

text \<open>The deprecated field \<open>webhook_url\<close> of the settings; \<open>secret\<close> is the ciphertext the agent has or gets.\<close>

definition legacy_webhook_url ::
  "moment \<Rightarrow> (string \<Rightarrow> string) \<Rightarrow> (string \<Rightarrow> string option) \<Rightarrow> string \<Rightarrow> ident \<Rightarrow> string \<Rightarrow> hooks \<Rightarrow> hooks"
where
  "legacy_webhook_url now enc dec secret a url h =
     h\<lparr>hk_endpoints := upsert_by_url now enc dec a url secret (Some ''legacy-patch'') None (hk_endpoints h)\<rparr>"

section \<open>Statistics\<close>

record delivery_stats =
  ds_total :: nat
  ds_delivered :: nat
  ds_failed :: nat
  ds_pending :: nat

definition get_delivery_stats :: "moment \<Rightarrow> int \<Rightarrow> event_table \<Rightarrow> delivery_stats" where
  "get_delivery_stats now period t =
     (let recent = select_where (\<lambda>e. now - seconds (86400 * period) \<le> qe_created_at e) t;
          having = (\<lambda>ok. length (filter (\<lambda>(k, e). ok (qe_status e)) recent))
      in \<lparr>ds_total = length recent, ds_delivered = having (\<lambda>s. s = HookDelivered),
          ds_failed = having (\<lambda>s. s = HookFailed), ds_pending = having hook_active\<rparr>)"

section \<open>The workers\<close>

text \<open>
  Every process of the service runs a worker, known here by a number. A worker takes a batch when its last one is
  done, without the rows other sessions hold locked at that moment (\<open>busy\<close>), and runs its events concurrently: an
  event of the batch waits for its first phase, then is in flight until its last one. An exception of a phase
  loses the one event; a process that dies loses all it had in hand.
\<close>

record fleet =
  wk_hooks :: hooks
  wk_waiting :: "nat \<Rightarrow> ident list"
  wk_flight :: "nat \<Rightarrow> (ident \<times> hook_target list) list"

datatype worker_op =
    Pick nat moment nat "ident list"
  | Begin nat moment ident
  | Finish nat moment ident "webhook_result option list"
  | Abort nat ident
  | Crash nat
  | Queue moment ident string string
  | RetryEvent moment ident ident
  | Register moment nat string ident string "string option" "string list option"
  | Legacy moment nat string ident string
  | Remove ident ident
  | Rotate nat string ident ident

definition served :: "(http_error + hooks) \<Rightarrow> fleet \<Rightarrow> fleet" where
  "served r w = (case r of Inl _ \<Rightarrow> w | Inr h \<Rightarrow> w\<lparr>wk_hooks := h\<rparr>)"

text \<open>What a worker has in hand after a step.\<close>

definition set_tasks :: "nat \<Rightarrow> ident list \<Rightarrow> (ident \<times> hook_target list) list \<Rightarrow> fleet \<Rightarrow> fleet" where
  "set_tasks n waiting flight w =
     w\<lparr>wk_waiting := (wk_waiting w)(n := waiting), wk_flight := (wk_flight w)(n := flight)\<rparr>"

text \<open>A move of a worker or a request between two moves, and the event a call went out for.\<close>

fun worker_step ::
  "(ident \<Rightarrow> bool) \<Rightarrow> (nat \<Rightarrow> string \<Rightarrow> string) \<Rightarrow> (string \<Rightarrow> string option) \<Rightarrow> worker_op \<Rightarrow> fleet \<Rightarrow> fleet \<times> ident option"
where
  "worker_step known enc dec (Pick n now limit busy) w =
     (if wk_waiting w n = [] \<and> wk_flight w n = []
      then (set_tasks n (map fst (get_pending_events now limit (filter (\<lambda>(k, e). k \<notin> set busy) (hk_events (wk_hooks w))))) [] w, None)
      else (w, None))"
| "worker_step known enc dec (Begin n now eid) w =
     (if eid \<in> set (wk_waiting w n)
      then (case begin_event now known dec eid (wk_hooks w) of
          (h, HookEnded ok) \<Rightarrow>
            (set_tasks n (remove1 eid (wk_waiting w n)) (wk_flight w n) (w\<lparr>wk_hooks := h\<rparr>), None)
        | (h, HookSending payload ts) \<Rightarrow>
            (set_tasks n (remove1 eid (wk_waiting w n)) ((eid, ts) # wk_flight w n) (w\<lparr>wk_hooks := h\<rparr>), Some eid))
      else (w, None))"
| "worker_step known enc dec (Finish n now eid rs) w =
     (case map_of (wk_flight w n) eid of
        None \<Rightarrow> (w, None)
      | Some ts \<Rightarrow> (set_tasks n (wk_waiting w n) (filter (\<lambda>(k, ts). k \<noteq> eid) (wk_flight w n))
                      (w\<lparr>wk_hooks := fst (finish_event now eid ts rs (wk_hooks w))\<rparr>), None))"
| "worker_step known enc dec (Abort n eid) w =
     (set_tasks n (filter (\<lambda>k. k \<noteq> eid) (wk_waiting w n)) (filter (\<lambda>(k, ts). k \<noteq> eid) (wk_flight w n)) w, None)"
| "worker_step known enc dec (Crash n) w = (set_tasks n [] [] w, None)"
| "worker_step known enc dec (Queue now a typ payload) w =
     (w\<lparr>wk_hooks := queue_event now a typ payload (wk_hooks w)\<rparr>, None)"
| "worker_step known enc dec (RetryEvent now a eid) w = (served (retry_webhook_event now a eid (wk_hooks w)) w, None)"
| "worker_step known enc dec (Register now r secret a url description filters) w =
     (served (register_webhook now (enc r) dec secret a url description filters (wk_hooks w)) w, None)"
| "worker_step known enc dec (Legacy now r secret a url) w =
     (w\<lparr>wk_hooks := legacy_webhook_url now (enc r) dec secret a url (wk_hooks w)\<rparr>, None)"
| "worker_step known enc dec (Remove a wid) w = (served (delete_webhook a wid (wk_hooks w)) w, None)"
| "worker_step known enc dec (Rotate r secret a wid) w = (served (rotate_secret (enc r) secret a wid (wk_hooks w)) w, None)"

text \<open>A run, with the events calls went out for, in order.\<close>

fun worker_run ::
  "(ident \<Rightarrow> bool) \<Rightarrow> (nat \<Rightarrow> string \<Rightarrow> string) \<Rightarrow> (string \<Rightarrow> string option) \<Rightarrow> worker_op list \<Rightarrow> fleet \<Rightarrow> fleet \<times> ident list"
where
  "worker_run known enc dec [] w = (w, [])"
| "worker_run known enc dec (p # ps) w =
     (let (w1, sent) = worker_step known enc dec p w;
          (w2, rest) = worker_run known enc dec ps w1
      in (w2, (case sent of None \<Rightarrow> rest | Some eid \<Rightarrow> eid # rest)))"

end
