(* ===== verification/Webhooks_Life.thy ===== *)
theory Webhooks_Life
  imports Webhooks "HOL-Library.Multiset"
begin

text \<open>
  What delivery guarantees: with any number of workers an event goes out at most five times, once more for each
  further worker and each crash, whatever requests come in between, and no event is ever recorded as failed; the
  first phase leaves no mark, so a second worker sends again. Endpoints of one agent have distinct URLs, and a
  disabled one is never called.
\<close>

section \<open>The life of an event\<close>

definition event_ok :: "queued_event \<Rightarrow> bool" where
  "event_ok e \<longleftrightarrow> qe_max_attempts e = 5 \<and> qe_status e \<noteq> HookFailed"

definition in_hand :: "fleet \<Rightarrow> nat \<Rightarrow> ident list" where
  "in_hand w n = wk_waiting w n @ map fst (wk_flight w n)"

definition events_ok :: "event_table \<Rightarrow> bool" where
  "events_ok t \<longleftrightarrow> table_ok t \<and> (\<forall>k e. row_of t k = Some e \<longrightarrow> event_ok e)"

text \<open>A worker has an event in hand once, and the event exists.\<close>

definition hand_ok :: "event_table \<Rightarrow> ident list \<Rightarrow> bool" where
  "hand_ok t q \<longleftrightarrow> distinct q \<and> list_all (\<lambda>k. row_of t k \<noteq> None) q"

definition fleet_ok :: "fleet \<Rightarrow> bool" where
  "fleet_ok w \<longleftrightarrow> events_ok (hk_events (wk_hooks w)) \<and> (\<forall>n. hand_ok (hk_events (wk_hooks w)) (in_hand w n))"

text \<open>The attempts an event has left: none once it is delivered.\<close>

definition attempts_left :: "event_table \<Rightarrow> ident \<Rightarrow> nat" where
  "attempts_left t k = (case row_of t k of
     None \<Rightarrow> 5 | Some e \<Rightarrow> if hook_active (qe_status e) then 5 - qe_attempt_count e else 0)"

text \<open>How many of \<open>N\<close> workers are in some condition.\<close>

definition tally :: "nat \<Rightarrow> (nat \<Rightarrow> bool) \<Rightarrow> nat" where
  "tally N p = card {n. n < N \<and> p n}"

definition waits :: "fleet \<Rightarrow> ident \<Rightarrow> nat \<Rightarrow> bool" where
  "waits w k n \<longleftrightarrow> k \<in> set (wk_waiting w n)"

definition flies :: "fleet \<Rightarrow> ident \<Rightarrow> nat \<Rightarrow> bool" where
  "flies w k n \<longleftrightarrow> k \<in> fst ` set (wk_flight w n)"

text \<open>
  How often an event can still go out. While it has attempts left, every worker that is not sending it may; each
  attempt written costs one. Without attempts only the workers that took it before send it.
\<close>

definition send_bound :: "nat \<Rightarrow> nat \<Rightarrow> nat \<Rightarrow> nat \<Rightarrow> nat" where
  "send_bound N a h f = (if a = 0 then h else a + N - 1 - f)"

definition sends_left :: "nat \<Rightarrow> fleet \<Rightarrow> ident \<Rightarrow> nat" where
  "sends_left N w k = send_bound N (attempts_left (hk_events (wk_hooks w)) k) (tally N (waits w k)) (tally N (flies w k))"

subsection \<open>Counting workers\<close>

lemma tally_le: "tally N p \<le> N"
proof -
  have "card {n. n < N \<and> p n} \<le> card {n. n < N}" by (rule card_mono) auto
  then show ?thesis by (simp add: tally_def)
qed

lemma tally_disjoint:
  assumes "\<And>n. \<not> (p n \<and> q n)"
  shows "tally N p + tally N q \<le> N"
proof -
  have "card {n. n < N \<and> p n} + card {n. n < N \<and> q n} = card ({n. n < N \<and> p n} \<union> {n. n < N \<and> q n})"
    using assms by (intro card_Un_disjoint [symmetric]) auto
  also have "\<dots> \<le> card {n. n < N}" by (rule card_mono) auto
  finally show ?thesis by (simp add: tally_def)
qed

lemma tally_change:
  assumes "\<And>n. n \<noteq> i \<Longrightarrow> p' n = p n" and "i < N"
  shows "tally N p' + (if p i then 1 else 0) = tally N p + (if p' i then 1 else 0)"
proof -
  have split: "tally N q = card {n. n < N \<and> n \<noteq> i \<and> q n} + (if q i then 1 else 0)" for q
  proof -
    have "{n. n < N \<and> q n} = {n. n < N \<and> n \<noteq> i \<and> q n} \<union> (if q i then {i} else {})" using assms(2) by auto
    then show ?thesis by (simp add: tally_def card_insert_disjoint)
  qed
  have "{n. n < N \<and> n \<noteq> i \<and> p' n} = {n. n < N \<and> n \<noteq> i \<and> p n}" using assms(1) by auto
  then show ?thesis by (simp add: split [of p'] split [of p])
qed

lemma tasks_set [simp]:
  "wk_hooks (set_tasks n q fl w) = wk_hooks w"
  "wk_waiting (set_tasks n q fl w) = (wk_waiting w)(n := q)" "wk_flight (set_tasks n q fl w) = (wk_flight w)(n := fl)"
  by (simp_all add: set_tasks_def)

lemma waits_set: "waits (set_tasks n q fl w) k m = (if m = n then k \<in> set q else waits w k m)"
  and flies_set: "flies (set_tasks n q fl w) k m = (if m = n then k \<in> fst ` set fl else flies w k m)"
  by (simp_all add: waits_def flies_def)

lemma in_hand_set: "in_hand (set_tasks n q fl w) m = (if m = n then q @ map fst fl else in_hand w m)"
  by (simp add: in_hand_def)

lemma hand_disjoint: "fleet_ok w \<Longrightarrow> \<not> (waits w k n \<and> flies w k n)"
  by (auto simp: fleet_ok_def hand_ok_def in_hand_def waits_def flies_def dest!: spec [of _ n])

lemma hands_within: "fleet_ok w \<Longrightarrow> tally N (waits w k) + tally N (flies w k) \<le> N"
  by (rule tally_disjoint) (rule hand_disjoint)

subsection \<open>Rows\<close>

lemma events_ok_row: "events_ok t \<Longrightarrow> row_of t k = Some e \<Longrightarrow> event_ok e"
  by (simp add: events_ok_def)

lemma events_ok_modify:
  assumes "events_ok t" and "\<And>e. row_of t k = Some e \<Longrightarrow> event_ok e \<Longrightarrow> event_ok (f e)"
  shows "events_ok (modify_row k f t)"
  using assms by (auto simp: events_ok_def row_of_modify_row)

lemma row_modify_other: "k' \<noteq> k \<Longrightarrow> row_of (modify_row k f t) k' = row_of t k'"
  by (cases "row_of t k'") (simp_all add: row_of_modify_row)

lemma mark_delivered_ok: "events_ok t \<Longrightarrow> events_ok (mark_delivered now k code t)"
  unfolding mark_delivered_def by (rule events_ok_modify) (simp_all add: event_ok_def)

lemma mark_delivered_row:
  "row_of t k = Some e \<Longrightarrow> map_option qe_status (row_of (mark_delivered now k code t) k) = Some HookDelivered"
  by (simp add: mark_delivered_def row_of_modify_row)

lemma mark_delivered_other: "k' \<noteq> k \<Longrightarrow> row_of (mark_delivered now k code t) k' = row_of t k'"
  by (simp add: mark_delivered_def row_modify_other)

lemma schedule_retry_eq:
  assumes "table_ok t" and "row_of t k = Some e"
  obtains e' where "row_of (schedule_retry now k err t) k = Some e'" and "qe_status e' = HookRetrying"
    and "qe_attempt_count e' = qe_attempt_count e + 1" and "qe_max_attempts e' = qe_max_attempts e"
    and "schedule_retry now k err t = modify_row k (\<lambda>_. e') t"
proof -
  let ?f = "\<lambda>e :: queued_event. e\<lparr>qe_status := HookRetrying, qe_attempt_count := qe_attempt_count (the (row_of t k)) + 1,
      qe_last_error := (if err \<noteq> '''' then Some (take 1000 err) else None),
      qe_next_attempt_at := now + seconds (RETRY_DELAYS ! min (qe_attempt_count e) (length RETRY_DELAYS - 1))\<rparr>"
  have "schedule_retry now k err t = modify_row k (\<lambda>_. ?f e) t"
    using assms by (auto simp: schedule_retry_def Let_def intro!: modify_row_cong)
  then show ?thesis using assms by (intro that [of "?f e"]) (simp_all add: row_of_modify_row)
qed

text \<open>The phases on the table of events.\<close>

lemma begin_event_events:
  obtains (marked) e code where "row_of (hk_events h) eid = Some e" "snd (begin_event now known dec eid h) = HookEnded True"
      "hk_events (fst (begin_event now known dec eid h)) = mark_delivered now eid code (hk_events h)"
  | (missing) "row_of (hk_events h) eid = None" "begin_event now known dec eid h = (h, HookEnded False)"
  | (sending) ts payload where "snd (begin_event now known dec eid h) = HookSending payload ts"
      "hk_events (fst (begin_event now known dec eid h)) = hk_events h"
proof (cases "row_of (hk_events h) eid")
  case None
  then show ?thesis by (intro missing) (simp_all add: begin_event_def)
next
  case (Some e)
  obtain eps ts where c: "collect_targets now dec (qe_event_type e)
      (endpoints_by_agent (qe_agent_id e) (hk_endpoints h)) (hk_endpoints h) = (eps, ts)"
    by (rule prod.exhaust)
  show ?thesis
  proof (cases "known (qe_agent_id e) \<and> ts \<noteq> []")
    case True
    with Some c show ?thesis by (intro sending) (auto simp: begin_event_def)
  next
    case False
    with Some c show ?thesis by (intro marked [of e 0]) (auto simp: begin_event_def)
  qed
qed

lemma finish_event_events:
  assumes "row_of (hk_events h) eid = Some e"
  obtains (inactive) "\<not> hook_active (qe_status e)" "hk_events (fst (finish_event now eid ts rs h)) = hk_events h"
  | (delivered) "hk_events (fst (finish_event now eid ts rs h)) = mark_delivered now eid 200 (hk_events h)"
  | (retried) err where "hook_active (qe_status e)"
      "hk_events (fst (finish_event now eid ts rs h)) = schedule_retry now eid err (hk_events h)"
  using assms by (cases "hook_active (qe_status e)"; cases "any_success rs") (auto simp: finish_event_def)

lemma queue_event_rows:
  "row_of (hk_events (queue_event now a typ payload h)) k =
     (if k = new_id (hk_events h) then Some \<lparr>qe_agent_id = a, qe_event_type = typ, qe_payload = payload,
       qe_status = HookPending, qe_attempt_count = 0, qe_max_attempts = 5, qe_last_response_code = None,
       qe_last_response_body = None, qe_last_error = None, qe_next_attempt_at = now, qe_delivered_at = None,
       qe_created_at = now\<rparr> else row_of (hk_events h) k)"
  by (simp add: queue_event_def create_event_def row_of_add_row)

text \<open>The requests about endpoints leave the events alone.\<close>

lemma requests_keep_events [simp]:
  "hk_events (wk_hooks (served (register_webhook now enc dec secret a url desc fs (wk_hooks w)) w)) = hk_events (wk_hooks w)"
  "hk_events (wk_hooks (served (delete_webhook a wid (wk_hooks w)) w)) = hk_events (wk_hooks w)"
  "hk_events (wk_hooks (served (rotate_secret enc secret a wid (wk_hooks w)) w)) = hk_events (wk_hooks w)"
  "hk_events (legacy_webhook_url now enc dec secret a url h) = hk_events h"
  by (auto simp: served_def register_webhook_def delete_webhook_def rotate_secret_def legacy_webhook_url_def Let_def
      split: option.splits prod.splits)

lemma served_tasks [simp]: "wk_waiting (served r w) = wk_waiting w" "wk_flight (served r w) = wk_flight w"
  by (simp_all add: served_def split: sum.splits)

section \<open>One move\<close>

text \<open>What the moves do to an event: its attempts do not grow.\<close>

lemma attempts_delivered: "attempts_left (mark_delivered now k code t) k = (if row_of t k = None then 5 else 0)"
  by (cases "row_of t k") (simp_all add: attempts_left_def mark_delivered_def row_of_modify_row hook_active_def)

lemma attempts_cong: "row_of t' k = row_of t k \<Longrightarrow> attempts_left t' k = attempts_left t k"
  by (simp add: attempts_left_def)

lemma rows_kept: "row_of (mark_delivered now k code t) x = None \<longleftrightarrow> row_of t x = None"
  by (simp add: mark_delivered_def row_of_modify_row)

lemma finish_effect:
  assumes "events_ok (hk_events h)" and "row_of (hk_events h) eid \<noteq> None"
    and t_def: "t = hk_events (fst (finish_event now eid ts rs h))"
  shows "events_ok t" and "\<And>x. row_of t x = None \<longleftrightarrow> row_of (hk_events h) x = None"
    and "\<And>x. x \<noteq> eid \<Longrightarrow> row_of t x = row_of (hk_events h) x"
    and "attempts_left t eid = attempts_left (hk_events h) eid - 1 \<or> attempts_left t eid = 0"
proof -
  obtain e where e: "row_of (hk_events h) eid = Some e" using assms(2) by blast
  have "events_ok t \<and> (\<forall>x. row_of t x = None \<longleftrightarrow> row_of (hk_events h) x = None)
      \<and> (\<forall>x. x \<noteq> eid \<longrightarrow> row_of t x = row_of (hk_events h) x)
      \<and> (attempts_left t eid = attempts_left (hk_events h) eid - 1 \<or> attempts_left t eid = 0)"
    using e
  proof (cases rule: finish_event_events [of h eid e now ts rs])
    case inactive
    then show ?thesis using assms(1) e by (simp add: t_def attempts_left_def)
  next
    case delivered
    then show ?thesis
      using assms(1) e by (simp add: t_def mark_delivered_ok rows_kept mark_delivered_other attempts_delivered)
  next
    case (retried err)
    have "table_ok (hk_events h)" using assms(1) by (simp add: events_ok_def)
    from schedule_retry_eq [OF this e, of now err] obtain e' where
      e': "qe_status e' = HookRetrying" "qe_attempt_count e' = qe_attempt_count e + 1" "qe_max_attempts e' = qe_max_attempts e"
        "schedule_retry now eid err (hk_events h) = modify_row eid (\<lambda>_. e') (hk_events h)"
      by metis
    have t: "t = modify_row eid (\<lambda>_. e') (hk_events h)" unfolding t_def retried(2) e'(4) ..
    have "events_ok t"
      using events_ok_row [OF assms(1) e] e' unfolding t by (intro events_ok_modify assms(1)) (simp add: event_ok_def)
    then show ?thesis
      using e e' retried(1) by (simp add: t row_of_modify_row row_modify_other attempts_left_def hook_active_def option.map_ident)
  qed
  note all = this
  show "events_ok t" by (rule conjunct1 [OF all])
  show "row_of t x = None \<longleftrightarrow> row_of (hk_events h) x = None" for x using all by (elim conjE) (rule spec)
  show "x \<noteq> eid \<Longrightarrow> row_of t x = row_of (hk_events h) x" for x using all by (elim conjE) blast
  show "attempts_left t eid = attempts_left (hk_events h) eid - 1 \<or> attempts_left t eid = 0" using all by (elim conjE) assumption
qed

lemma begin_effect:
  assumes "events_ok (hk_events h)" and "row_of (hk_events h) eid \<noteq> None"
    and "begin_event now known dec eid h = (h', r)"
  shows "events_ok (hk_events h')" and "\<And>x. row_of (hk_events h') x = None \<longleftrightarrow> row_of (hk_events h) x = None"
    and "\<And>x. x \<noteq> eid \<Longrightarrow> row_of (hk_events h') x = row_of (hk_events h) x"
    and "case r of HookEnded ok \<Rightarrow> attempts_left (hk_events h') eid = 0 | HookSending p ts \<Rightarrow> hk_events h' = hk_events h"
  using assms
  by (cases rule: begin_event_events [of h eid now known dec];
      auto simp: mark_delivered_ok rows_kept mark_delivered_other attempts_delivered)+

text \<open>Fleets after a change of the tasks of one worker.\<close>

lemma fleet_ok_tasks:
  assumes "fleet_ok w" and "events_ok (hk_events h)"
    and "\<And>x. row_of (hk_events (wk_hooks w)) x \<noteq> None \<Longrightarrow> row_of (hk_events h) x \<noteq> None"
    and "hand_ok (hk_events h) (q @ map fst fl)"
  shows "fleet_ok (set_tasks n q fl (w\<lparr>wk_hooks := h\<rparr>))"
  using assms by (auto simp: fleet_ok_def in_hand_set hand_ok_def in_hand_def list_all_iff)

text \<open>The arithmetic of the bound.\<close>

lemma send_bound_steps:
  assumes "h + f \<le> N" and "0 < N"
  shows "0 < h \<Longrightarrow> Suc (send_bound N a (h - 1) (Suc f)) \<le> send_bound N a h f"
    and "0 < h \<Longrightarrow> send_bound N 0 (h - 1) f \<le> send_bound N a h f"
    and "0 < f \<Longrightarrow> a' = a - 1 \<or> a' = 0 \<Longrightarrow> send_bound N a' h (f - 1) \<le> send_bound N a h f"
    and "h' \<le> h \<Longrightarrow> f \<le> Suc f' \<Longrightarrow> f' \<le> f \<Longrightarrow> send_bound N a h' f' \<le> Suc (send_bound N a h f)"
  using assms by (auto simp: send_bound_def)

lemma tally_tasks:
  assumes "n < N"
  shows "tally N (waits (set_tasks n q fl w) k) + (if waits w k n then 1 else 0) = tally N (waits w k) + (if k \<in> set q then 1 else 0)"
    and "tally N (flies (set_tasks n q fl w) k) + (if flies w k n then 1 else 0)
      = tally N (flies w k) + (if k \<in> fst ` set fl then 1 else 0)"
  using tally_change [of n "waits (set_tasks n q fl w) k" "waits w k", OF _ assms]
    tally_change [of n "flies (set_tasks n q fl w) k" "flies w k", OF _ assms]
  by (simp_all add: waits_set flies_set)

lemma tally_hooks [simp]:
  "waits (w\<lparr>wk_hooks := h\<rparr>) k = waits w k" "flies (w\<lparr>wk_hooks := h\<rparr>) k = flies w k"
  by (simp_all add: waits_def flies_def fun_eq_iff)

lemma hand_ok_sub:
  "hand_ok t q \<Longrightarrow> distinct q' \<Longrightarrow> set q' \<subseteq> set q \<Longrightarrow> (\<And>x. row_of t x \<noteq> None \<Longrightarrow> row_of t' x \<noteq> None) \<Longrightarrow> hand_ok t' q'"
  by (auto simp: hand_ok_def list_all_iff)

lemma distinct_fst_sort_key: "distinct (map fst (sort_key f xs)) = distinct (map fst xs)"
proof (rule mset_eq_imp_distinct_iff)
  show "mset (map fst (sort_key f xs)) = mset (map fst xs)" by simp
qed

lemma batch_ok:
  assumes "events_ok t"
  shows "hand_ok t (map fst (get_pending_events now limit (filter (\<lambda>(k, e). k \<notin> set busy) t)))"
    and "k \<in> fst ` set (get_pending_events now limit (filter (\<lambda>(k, e). k \<notin> set busy) t)) \<Longrightarrow> 0 < attempts_left t k"
proof -
  let ?q = "select_where (deliverable now) (filter (\<lambda>(k, e). k \<notin> set busy) t)"
  let ?b = "get_pending_events now limit (filter (\<lambda>(k, e). k \<notin> set busy) t)"
  have ok: "table_ok t" using assms by (simp add: events_ok_def)
  have "distinct (map fst (sort_key (\<lambda>(k, e). qe_created_at e) ?q))"
    using ok by (simp add: distinct_fst_sort_key select_where_def table_ok_def keys_of_def distinct_map_filter)
  then have "distinct (map fst ?b)" by (simp add: get_pending_events_def take_map flip: take_map)
  moreover have mem: "row_of t x = Some e \<and> deliverable now e" if "(x, e) \<in> set ?b" for x e
    using that set_take_subset [of _ "sort_key (\<lambda>(k, e). qe_created_at e) ?q"] mem_row_of [OF ok]
    by (auto simp: get_pending_events_def select_where_def)
  ultimately show "hand_ok t (map fst ?b)" by (force simp: hand_ok_def list_all_iff)
  assume "k \<in> fst ` set ?b"
  then obtain e where "row_of t k = Some e" "deliverable now e" using mem by force
  with events_ok_row [OF assms] show "0 < attempts_left t k" by (auto simp: attempts_left_def deliverable_def event_ok_def)
qed

text \<open>The workers of the fleet, the requests that leave an event its attempts, and the moves that lose a call.\<close>

definition of_fleet :: "nat \<Rightarrow> worker_op \<Rightarrow> bool" where
  "of_fleet N p \<longleftrightarrow> (case p of Pick n now limit busy \<Rightarrow> n < N | Begin n now k \<Rightarrow> n < N | Finish n now k rs \<Rightarrow> n < N
     | Abort n k \<Rightarrow> n < N | Crash n \<Rightarrow> n < N | _ \<Rightarrow> True)"

definition leaves_attempts :: "ident \<Rightarrow> worker_op \<Rightarrow> bool" where
  "leaves_attempts eid p \<longleftrightarrow> (case p of RetryEvent now a k \<Rightarrow> k \<noteq> eid | _ \<Rightarrow> True)"

definition loses_call :: "worker_op \<Rightarrow> bool" where
  "loses_call p \<longleftrightarrow> (case p of Abort n k \<Rightarrow> True | Crash n \<Rightarrow> True | _ \<Rightarrow> False)"

definition step_bounded :: "nat \<Rightarrow> ident \<Rightarrow> worker_op \<Rightarrow> fleet \<Rightarrow> fleet \<Rightarrow> ident option \<Rightarrow> bool" where
  "step_bounded N k p w w' sent \<longleftrightarrow>
     sends_left N w' k + (if sent = Some k then 1 else 0) \<le> sends_left N w k + (if loses_call p then 1 else 0)"

lemma pick_step:
  assumes "fleet_ok w" and "worker_step known enc dec (Pick n now limit busy) w = (w', sent)" and "n < N"
  shows "fleet_ok w' \<and> step_bounded N k (Pick n now limit busy) w w' sent"
proof (cases "wk_waiting w n = [] \<and> wk_flight w n = []")
  case False
  with assms show ?thesis by (auto simp: step_bounded_def)
next
  case True
  let ?t = "hk_events (wk_hooks w)"
  let ?b = "map fst (get_pending_events now limit (filter (\<lambda>(k, e). k \<notin> set busy) ?t))"
  have ok: "events_ok ?t" using assms(1) by (simp add: fleet_ok_def)
  have w': "w' = set_tasks n ?b [] w" "sent = None" using assms(2) True by auto
  have "fleet_ok (set_tasks n ?b [] (w\<lparr>wk_hooks := wk_hooks w\<rparr>))"
    using batch_ok(1) [OF ok] by (intro fleet_ok_tasks [OF assms(1) ok]) simp_all
  moreover have "step_bounded N k (Pick n now limit busy) w w' sent"
    using tally_tasks [OF assms(3), of ?b "[]" w k] True batch_ok(2) [OF ok, of k now limit busy]
    by (auto simp: step_bounded_def sends_left_def w' send_bound_def waits_def flies_def split: if_split_asm)
  ultimately show ?thesis by (simp add: w')
qed

lemma begin_step:
  assumes "fleet_ok w" and "worker_step known enc dec (Begin n now eid) w = (w', sent)" and "n < N"
  shows "fleet_ok w' \<and> step_bounded N k (Begin n now eid) w w' sent"
proof (cases "eid \<in> set (wk_waiting w n)")
  case False
  with assms show ?thesis by (auto simp: step_bounded_def)
next
  case True
  let ?h = "wk_hooks w"
  obtain h r where b: "begin_event now known dec eid ?h = (h, r)" by (rule prod.exhaust)
  have hand: "hand_ok (hk_events ?h) (in_hand w n)" "events_ok (hk_events ?h)" using assms(1) by (simp_all add: fleet_ok_def)
  then have row: "row_of (hk_events ?h) eid \<noteq> None" and wait: "distinct (wk_waiting w n)" "eid \<notin> fst ` set (wk_flight w n)"
    using True by (auto simp: hand_ok_def in_hand_def list_all_iff)
  note eff = begin_effect [OF hand(2) row b]
  define fl where "fl = (case r of HookEnded ok \<Rightarrow> wk_flight w n | HookSending p ts \<Rightarrow> (eid, ts) # wk_flight w n)"
  let ?q = "remove1 eid (wk_waiting w n)"
  have w': "w' = set_tasks n ?q fl (w\<lparr>wk_hooks := h\<rparr>)" "sent = (case r of HookEnded ok \<Rightarrow> None | HookSending p ts \<Rightarrow> Some eid)"
    using assms(2) True b by (auto simp: fl_def split: hook_begun.splits)
  have "hand_ok (hk_events h) (?q @ map fst fl)"
    using hand(1) True wait eff(2)
    by (intro hand_ok_sub [OF hand(1)]) (auto simp: fl_def in_hand_def hand_ok_def split: hook_begun.splits)
  then have ok: "fleet_ok w'" unfolding w' by (intro fleet_ok_tasks [OF assms(1) eff(1)]) (simp add: eff(2))
  have within: "tally N (waits w k) + tally N (flies w k) \<le> N" by (rule hands_within [OF assms(1)])
  note tally = tally_tasks [OF assms(3), of ?q fl "w\<lparr>wk_hooks := h\<rparr>" k, simplified]
  have "step_bounded N k (Begin n now eid) w w' sent"
  proof (cases "k = eid")
    case False
    have "k \<in> set ?q \<longleftrightarrow> waits w k n" "k \<in> fst ` set fl \<longleftrightarrow> flies w k n"
      using False by (auto simp: waits_def flies_def fl_def split: hook_begun.splits)
    then have "tally N (waits w' k) = tally N (waits w k)" "tally N (flies w' k) = tally N (flies w k)"
      using tally by (simp_all add: w' split: if_split_asm)
    moreover have "attempts_left (hk_events h) k = attempts_left (hk_events ?h) k"
      using eff(3) False by (intro attempts_cong) blast
    ultimately show ?thesis
      using False by (auto simp: step_bounded_def sends_left_def loses_call_def w' split: hook_begun.splits)
  next
    case True
    have "k \<notin> set ?q" "waits w k n" "\<not> flies w k n"
      using True wait \<open>eid \<in> set (wk_waiting w n)\<close> by (auto simp: waits_def flies_def)
    then have h: "tally N (waits w' k) = tally N (waits w k) - 1" "0 < tally N (waits w k)"
      using tally(1) by (simp_all add: w')
    show ?thesis
    proof (cases r)
      case (HookEnded ok)
      then have "tally N (flies w' k) = tally N (flies w k)" using tally(2) \<open>\<not> flies w k n\<close> by (simp add: w' fl_def flies_def)
      then show ?thesis
        using send_bound_steps(2) [OF within _ h(2)] eff(4) True HookEnded assms(3) h(1)
        by (simp add: step_bounded_def sends_left_def loses_call_def w')
    next
      case (HookSending p ts)
      then have "tally N (flies w' k) = Suc (tally N (flies w k))" using tally(2) \<open>\<not> flies w k n\<close> True by (simp add: w' fl_def)
      then show ?thesis
        using send_bound_steps(1) [OF within _ h(2)] eff(4) True HookSending assms(3) h(1)
        by (simp add: step_bounded_def sends_left_def loses_call_def w')
    qed
  qed
  with ok show ?thesis by blast
qed

lemma finish_step:
  assumes "fleet_ok w" and "worker_step known enc dec (Finish n now eid rs) w = (w', sent)" and "n < N"
  shows "fleet_ok w' \<and> step_bounded N k (Finish n now eid rs) w w' sent"
proof (cases "map_of (wk_flight w n) eid")
  case None
  with assms show ?thesis by (auto simp: step_bounded_def)
next
  case (Some ts)
  let ?h = "wk_hooks w"
  let ?fl = "filter (\<lambda>(k, ts). k \<noteq> eid) (wk_flight w n)"
  define h where "h = fst (finish_event now eid ts rs ?h)"
  have w': "w' = set_tasks n (wk_waiting w n) ?fl (w\<lparr>wk_hooks := h\<rparr>)" "sent = None"
    using assms(2) Some by (auto simp: h_def)
  have flying: "eid \<in> fst ` set (wk_flight w n)" using map_of_SomeD [OF Some] by force
  have hand: "hand_ok (hk_events ?h) (in_hand w n)" "events_ok (hk_events ?h)" using assms(1) by (simp_all add: fleet_ok_def)
  then have row: "row_of (hk_events ?h) eid \<noteq> None" using flying by (auto simp: hand_ok_def in_hand_def list_all_iff)
  have events: "hk_events h = hk_events (fst (finish_event now eid ts rs ?h))" by (simp add: h_def)
  note eff = finish_effect [OF hand(2) row events]
  have "hand_ok (hk_events h) (wk_waiting w n @ map fst ?fl)"
    using hand(1) eff(2)
    by (intro hand_ok_sub [OF hand(1)]) (auto simp: in_hand_def hand_ok_def distinct_map_filter)
  then have ok: "fleet_ok w'" unfolding w' by (intro fleet_ok_tasks [OF assms(1) eff(1)]) (simp add: eff(2))
  have within: "tally N (waits w k) + tally N (flies w k) \<le> N" by (rule hands_within [OF assms(1)])
  note tally = tally_tasks [OF assms(3), of "wk_waiting w n" ?fl "w\<lparr>wk_hooks := h\<rparr>" k, simplified]
  have waits: "tally N (waits w' k) = tally N (waits w k)"
    using tally(1) by (simp add: w' waits_def split: if_split_asm)
  have "step_bounded N k (Finish n now eid rs) w w' sent"
  proof (cases "k = eid")
    case False
    then have "k \<in> fst ` set ?fl \<longleftrightarrow> flies w k n" by (force simp: flies_def)
    then have "tally N (flies w' k) = tally N (flies w k)" using tally(2) by (simp add: w' split: if_split_asm)
    moreover have "attempts_left (hk_events h) k = attempts_left (hk_events ?h) k"
      using eff(3) False by (intro attempts_cong) blast
    ultimately show ?thesis using waits by (simp add: step_bounded_def sends_left_def loses_call_def w')
  next
    case True
    have "k \<notin> fst ` set ?fl" "flies w k n" using True flying by (auto simp: flies_def)
    then have f: "tally N (flies w' k) = tally N (flies w k) - 1" "0 < tally N (flies w k)"
      using tally(2) by (simp_all add: w')
    show ?thesis
      using send_bound_steps(3) [OF within _ f(2), of "attempts_left (hk_events h) k" "attempts_left (hk_events ?h) k"]
        eff(4) True assms(3) f(1) waits
      by (simp add: step_bounded_def sends_left_def loses_call_def w')
  qed
  with ok show ?thesis by blast
qed

text \<open>A worker that drops some of its tasks.\<close>

lemma drop_step:
  assumes "fleet_ok w" and "w' = set_tasks n q fl w" and "n < N"
    and "distinct (q @ map fst fl)" and "set q \<subseteq> set (wk_waiting w n)" and "fst ` set fl \<subseteq> fst ` set (wk_flight w n)"
  shows "fleet_ok w' \<and> sends_left N w' k \<le> Suc (sends_left N w k)"
proof
  have hand: "hand_ok (hk_events (wk_hooks w)) (in_hand w n)" "events_ok (hk_events (wk_hooks w))"
    using assms(1) by (simp_all add: fleet_ok_def)
  have "hand_ok (hk_events (wk_hooks w)) (q @ map fst fl)"
    using assms(5,6) by (intro hand_ok_sub [OF hand(1) assms(4)]) (auto simp: in_hand_def)
  then show "fleet_ok w'" using fleet_ok_tasks [OF assms(1) hand(2), of q fl n] by (simp add: assms(2))
  have "k \<in> set q \<longrightarrow> waits w k n" "k \<in> fst ` set fl \<longrightarrow> flies w k n" using assms(5,6) by (auto simp: waits_def flies_def)
  then have "tally N (waits w' k) \<le> tally N (waits w k)" "tally N (flies w k) \<le> Suc (tally N (flies w' k))"
    "tally N (flies w' k) \<le> tally N (flies w k)"
    using tally_tasks [OF assms(3), of q fl w k] by (auto simp: assms(2) split: if_split_asm)
  then show "sends_left N w' k \<le> Suc (sends_left N w k)"
    using send_bound_steps(4) [OF hands_within [OF assms(1)]] assms(3) by (simp add: sends_left_def assms(2))
qed

lemma abort_step:
  assumes "fleet_ok w" and "worker_step known enc dec (Abort n eid) w = (w', sent)" and "n < N"
  shows "fleet_ok w' \<and> step_bounded N k (Abort n eid) w w' sent"
proof -
  have "distinct (in_hand w n)" using assms(1) by (simp add: fleet_ok_def hand_ok_def)
  then have "distinct (filter (\<lambda>k. k \<noteq> eid) (wk_waiting w n) @ map fst (filter (\<lambda>(k, ts). k \<noteq> eid) (wk_flight w n)))"
    by (auto simp: in_hand_def distinct_map_filter)
  from drop_step [OF assms(1) refl assms(3) this, of k] assms(2) show ?thesis
    by (auto simp: step_bounded_def loses_call_def)
qed

lemma crash_step:
  assumes "fleet_ok w" and "worker_step known enc dec (Crash n) w = (w', sent)" and "n < N"
  shows "fleet_ok w' \<and> step_bounded N k (Crash n) w w' sent"
  using drop_step [OF assms(1) refl assms(3), of "[]" "[]" k] assms(2) by (simp add: step_bounded_def loses_call_def)

text \<open>A change of the rows that spares the tasks.\<close>

lemma same_tasks:
  "wk_waiting w' = wk_waiting w \<Longrightarrow> waits w' k = waits w k" "wk_flight w' = wk_flight w \<Longrightarrow> flies w' k = flies w k"
  by (simp_all add: waits_def flies_def fun_eq_iff)

lemma rows_step:
  assumes "fleet_ok w" and "wk_waiting w' = wk_waiting w" and "wk_flight w' = wk_flight w"
    and "events_ok (hk_events (wk_hooks w'))"
    and "\<And>x. row_of (hk_events (wk_hooks w)) x \<noteq> None \<Longrightarrow> row_of (hk_events (wk_hooks w')) x \<noteq> None"
  shows "fleet_ok w'"
    and "attempts_left (hk_events (wk_hooks w')) k = attempts_left (hk_events (wk_hooks w)) k
      \<Longrightarrow> sends_left N w' k = sends_left N w k"
  using assms by (auto simp: fleet_ok_def hand_ok_def in_hand_def list_all_iff sends_left_def same_tasks [of w' w])

lemma queue_step:
  assumes "fleet_ok w" and "worker_step known enc dec (Queue now a kind payload) w = (w', sent)"
  shows "fleet_ok w' \<and> step_bounded N k (Queue now a kind payload) w w' sent"
proof -
  have w': "w' = w\<lparr>wk_hooks := queue_event now a kind payload (wk_hooks w)\<rparr>" "sent = None" using assms(2) by auto
  have ev: "events_ok (hk_events (wk_hooks w))" using assms(1) by (simp add: fleet_ok_def)
  then have "table_ok (hk_events (wk_hooks w'))" by (simp add: w' queue_event_def create_event_def events_ok_def)
  moreover have "event_ok e" if "row_of (hk_events (wk_hooks w')) x = Some e" for x e
    using that ev by (auto simp: w' queue_event_rows events_ok_def event_ok_def split: if_splits)
  ultimately have ok: "events_ok (hk_events (wk_hooks w'))" by (simp add: events_ok_def)
  have rows: "row_of (hk_events (wk_hooks w')) x \<noteq> None" if "row_of (hk_events (wk_hooks w)) x \<noteq> None" for x
    using that by (simp add: w' queue_event_rows)
  have tasks: "wk_waiting w' = wk_waiting w" "wk_flight w' = wk_flight w" by (simp_all add: w')
  have "attempts_left (hk_events (wk_hooks w')) k = attempts_left (hk_events (wk_hooks w)) k"
    by (simp add: attempts_left_def w' queue_event_rows hook_active_def)
  then show ?thesis
    using rows_step [OF assms(1) tasks ok rows] w'(2) by (simp add: step_bounded_def loses_call_def)
qed

lemma retry_step:
  assumes "fleet_ok w" and "worker_step known enc dec (RetryEvent now a eid) w = (w', sent)"
  shows "fleet_ok w' \<and> (k \<noteq> eid \<longrightarrow> step_bounded N k (RetryEvent now a eid) w w' sent)"
proof (cases "retry_webhook_event now a eid (wk_hooks w)")
  case (Inl e)
  with assms show ?thesis by (auto simp: served_def step_bounded_def)
next
  case (Inr h)
  let ?f = "\<lambda>e :: queued_event. e\<lparr>qe_status := HookPending, qe_attempt_count := 0, qe_next_attempt_at := now\<rparr>"
  have w': "w' = w\<lparr>wk_hooks := h\<rparr>" "sent = None" and h: "hk_events h = modify_row eid ?f (hk_events (wk_hooks w))"
    using assms(2) Inr by (auto simp: served_def retry_webhook_event_def split: option.splits if_splits)
  have ok: "events_ok (hk_events (wk_hooks w'))"
    using assms(1) by (auto simp: w' h fleet_ok_def event_ok_def intro!: events_ok_modify)
  have rows: "row_of (hk_events (wk_hooks w')) x \<noteq> None" if "row_of (hk_events (wk_hooks w)) x \<noteq> None" for x
    using that by (simp add: w' h row_of_modify_row)
  have tasks: "wk_waiting w' = wk_waiting w" "wk_flight w' = wk_flight w" by (simp_all add: w')
  have "attempts_left (hk_events (wk_hooks w')) k = attempts_left (hk_events (wk_hooks w)) k" if "k \<noteq> eid"
    using that by (intro attempts_cong) (simp add: w' h row_modify_other)
  then show ?thesis
    using rows_step(1) [OF assms(1) tasks ok rows] rows_step(2) [OF assms(1) tasks ok rows, of k N] w'(2) by (auto simp: step_bounded_def loses_call_def)
qed

lemma endpoint_requests_keep:
  assumes "fleet_ok w" and "hk_events (wk_hooks w') = hk_events (wk_hooks w)" and "wk_waiting w' = wk_waiting w"
    and "wk_flight w' = wk_flight w"
  shows "fleet_ok w' \<and> step_bounded N k p w w' None"
  using assms by (simp add: fleet_ok_def in_hand_def sends_left_def step_bounded_def same_tasks [of w' w])

section \<open>Runs\<close>

lemma worker_step_left:
  assumes "fleet_ok w" and "worker_step known enc dec p w = (w', sent)" and "of_fleet N p"
  shows "fleet_ok w' \<and> (leaves_attempts k p \<longrightarrow> step_bounded N k p w w' sent)"
proof (cases p)
  case (Pick n now limit busy)
  with pick_step [OF assms(1) assms(2) [unfolded Pick], of N k] assms(3) show ?thesis by (simp add: of_fleet_def)
next
  case (Begin n now eid)
  with begin_step [OF assms(1) assms(2) [unfolded Begin], of N k] assms(3) show ?thesis by (simp add: of_fleet_def)
next
  case (Finish n now eid rs)
  with finish_step [OF assms(1) assms(2) [unfolded Finish], of N k] assms(3) show ?thesis by (simp add: of_fleet_def)
next
  case (Abort n eid)
  with abort_step [OF assms(1) assms(2) [unfolded Abort], of N k] assms(3) show ?thesis by (simp add: of_fleet_def)
next
  case (Crash n)
  with crash_step [OF assms(1) assms(2) [unfolded Crash], of N k] assms(3) show ?thesis by (simp add: of_fleet_def)
next
  case (Queue now a kind payload)
  with queue_step [OF assms(1) assms(2) [unfolded Queue]] show ?thesis by simp
next
  case (RetryEvent now a eid)
  with retry_step [OF assms(1) assms(2) [unfolded RetryEvent], of k] show ?thesis by (simp add: leaves_attempts_def)
qed (use assms endpoint_requests_keep [of w w'] in auto)

lemma worker_run_left:
  assumes "fleet_ok w" and "worker_run known enc dec ps w = (w', sent)" and "list_all (of_fleet N) ps"
  shows "fleet_ok w' \<and> (list_all (leaves_attempts k) ps
    \<longrightarrow> sends_left N w' k + count_list sent k \<le> sends_left N w k + length (filter loses_call ps))"
  using assms
proof (induction ps arbitrary: w sent)
  case Nil
  then show ?case by simp
next
  case (Cons p ps)
  obtain w1 out where one: "worker_step known enc dec p w = (w1, out)" by (rule prod.exhaust)
  obtain w2 rest where run: "worker_run known enc dec ps w1 = (w2, rest)" by (rule prod.exhaust)
  have ends: "w2 = w'" "sent = (case out of None \<Rightarrow> rest | Some eid \<Rightarrow> eid # rest)"
    using Cons.prems(2) by (auto simp: one run)
  have step: "fleet_ok w1 \<and> (leaves_attempts k p \<longrightarrow> step_bounded N k p w w1 out)"
    using worker_step_left [OF Cons.prems(1) one, of N k] Cons.prems(3) by simp
  have IH: "fleet_ok w' \<and> (list_all (leaves_attempts k) ps
      \<longrightarrow> sends_left N w' k + count_list rest k \<le> sends_left N w1 k + length (filter loses_call ps))"
    using Cons.IH [OF conjunct1 [OF step] run [unfolded ends(1)]] Cons.prems(3) by simp
  have "count_list sent k = count_list rest k + (if out = Some k then 1 else 0)"
    by (auto simp: ends(2) split: option.split)
  with step IH show ?case by (auto simp: step_bounded_def split: if_split_asm)
qed

text \<open>No event and no task yet.\<close>

definition idle_start :: "fleet \<Rightarrow> bool" where
  "idle_start w \<longleftrightarrow> hk_events (wk_hooks w) = [] \<and> wk_waiting w = (\<lambda>_. []) \<and> wk_flight w = (\<lambda>_. [])"

lemma idle_start_ok: "idle_start w \<Longrightarrow> fleet_ok w"
  by (simp add: idle_start_def fleet_ok_def events_ok_def in_hand_def hand_ok_def table_ok_def keys_of_def)


section \<open>Endpoints\<close>

definition endpoint_ok :: "endpoint \<Rightarrow> bool" where
  "endpoint_ok p \<longleftrightarrow> (ep_is_active p \<longrightarrow> ep_failure_count p < MAX_ENDPOINT_FAILURES)"

definition endpoints_ok :: "(string \<Rightarrow> string option) \<Rightarrow> endpoint_table \<Rightarrow> bool" where
  "endpoints_ok dec t \<longleftrightarrow> table_ok t \<and> (\<forall>k p. row_of t k = Some p \<longrightarrow> endpoint_ok p)
     \<and> (\<forall>k p k' p' u. row_of t k = Some p \<and> row_of t k' = Some p' \<and> ep_agent_id p = ep_agent_id p'
          \<and> get_url dec p = Some u \<and> get_url dec p' = Some u \<longrightarrow> k = k')"

text \<open>An edit that keeps the owner and the URL and does not switch an endpoint on.\<close>

definition endpoint_keeps :: "endpoint \<Rightarrow> endpoint \<Rightarrow> bool" where
  "endpoint_keeps p p' \<longleftrightarrow> ep_agent_id p' = ep_agent_id p \<and> ep_url_encrypted p' = ep_url_encrypted p
     \<and> (endpoint_ok p \<longrightarrow> endpoint_ok p') \<and> (ep_is_active p' \<longrightarrow> ep_is_active p)"

definition endpoints_keep :: "endpoint_table \<Rightarrow> endpoint_table \<Rightarrow> bool" where
  "endpoints_keep t t' \<longleftrightarrow> keys_of t' = keys_of t
     \<and> (\<forall>k p. row_of t k = Some p \<longrightarrow> (\<exists>p'. row_of t' k = Some p' \<and> endpoint_keeps p p'))"

lemma endpoints_keep_refl: "endpoints_keep t t"
  by (simp add: endpoints_keep_def endpoint_keeps_def)

lemma endpoints_keep_trans: "endpoints_keep t t1 \<Longrightarrow> endpoints_keep t1 t2 \<Longrightarrow> endpoints_keep t t2"
  unfolding endpoints_keep_def endpoint_keeps_def by metis

lemma endpoints_keep_modify:
  assumes "\<And>p. row_of t k = Some p \<Longrightarrow> endpoint_keeps p (f p)"
  shows "endpoints_keep t (modify_row k f t)"
  using assms by (auto simp: endpoints_keep_def row_of_modify_row endpoint_keeps_def)

lemma row_of_keys: "keys_of t' = keys_of t \<Longrightarrow> row_of t k = None \<Longrightarrow> row_of t' k = None"
  by (simp add: row_of_None_iff)

lemma endpoints_keep_ok:
  assumes "endpoints_keep t t'" and "endpoints_ok dec t"
  shows "endpoints_ok dec t'"
proof -
  have origin: "\<exists>p. row_of t k = Some p \<and> endpoint_keeps p p'" if found: "row_of t' k = Some p'" for k p'
  proof -
    obtain p where p: "row_of t k = Some p"
    proof (cases "row_of t k")
      case None
      with assms(1) row_of_keys [of t' t k] found show ?thesis by (simp add: endpoints_keep_def)
    qed
    then obtain p'' where "row_of t' k = Some p''" "endpoint_keeps p p''" using assms(1) by (auto simp: endpoints_keep_def)
    with p found show ?thesis by simp
  qed
  have same: "get_url dec p' = get_url dec p" if "endpoint_keeps p p'" for p p'
    using that by (simp add: endpoint_keeps_def get_url_def)
  show ?thesis
    unfolding endpoints_ok_def
  proof (intro conjI allI impI)
    show "table_ok t'" using assms by (simp add: endpoints_keep_def endpoints_ok_def table_ok_def)
    show "endpoint_ok p'" if "row_of t' k = Some p'" for k p'
      using origin [OF that] assms(2) by (auto simp: endpoint_keeps_def endpoints_ok_def)
    show "k = k'" if both: "row_of t' k = Some p1 \<and> row_of t' k' = Some p2 \<and> ep_agent_id p1 = ep_agent_id p2
        \<and> get_url dec p1 = Some u \<and> get_url dec p2 = Some u" for k k' p1 p2 u
    proof -
      obtain q1 q2 where q: "row_of t k = Some q1" "endpoint_keeps q1 p1" "row_of t k' = Some q2" "endpoint_keeps q2 p2"
        using both origin by blast
      with both same [OF q(2)] same [OF q(4)] have "ep_agent_id q1 = ep_agent_id q2" "get_url dec q1 = Some u" "get_url dec q2 = Some u"
        by (simp_all add: endpoint_keeps_def)
      with q(1,3) assms(2) show ?thesis unfolding endpoints_ok_def by blast
    qed
  qed
qed

lemma collect_targets_keep:
  "endpoints_keep t (fst (collect_targets now dec ty q t))"
proof (induction q arbitrary: t)
  case Nil
  then show ?case by (simp add: endpoints_keep_refl)
next
  case (Cons kp q)
  obtain k p where kp: "kp = (k, p)" by (rule prod.exhaust)
  let ?t = "modify_row k (\<lambda>p. p\<lparr>ep_is_active := False, ep_disabled_at := Some now\<rparr>) t"
  have "endpoints_keep t ?t" by (rule endpoints_keep_modify) (simp add: endpoint_keeps_def endpoint_ok_def)
  with Cons.IH [of ?t] have "endpoints_keep t (fst (collect_targets now dec ty q ?t))" by (blast intro: endpoints_keep_trans)
  with Cons.IH [of t] show ?case by (simp add: kp split_def Let_def split: option.split)
qed

lemma count_outcomes_keep: "endpoints_keep t (count_outcomes now a q t)"
proof (induction q arbitrary: t)
  case Nil
  then show ?case by (simp add: endpoints_keep_refl)
next
  case (Cons x q)
  obtain target r where x: "x = (target, r)" by (rule prod.exhaust)
  show ?case
  proof (cases r)
    case None
    with Cons.IH show ?thesis by (simp add: x)
  next
    case (Some res)
    show ?thesis
    proof (cases "endpoint_of (ht_endpoint_id target) a t")
      case None
      with Some Cons.IH show ?thesis by (simp add: x)
    next
      case found: (Some p)
      then have row: "row_of t (ht_endpoint_id target) = Some p" by (auto simp: endpoint_of_def split: option.splits if_splits)
      let ?t = "modify_row (ht_endpoint_id target)
            (\<lambda>p :: endpoint. if wr_success res then p\<lparr>ep_failure_count := 0\<rparr>
                 else let n = ep_failure_count p + 1
                      in if n \<ge> MAX_ENDPOINT_FAILURES
                         then p\<lparr>ep_failure_count := n, ep_is_active := False, ep_disabled_at := Some now\<rparr>
                         else p\<lparr>ep_failure_count := n\<rparr>) t"
      have "endpoints_keep t ?t"
        using row by (intro endpoints_keep_modify)
          (auto simp: endpoint_keeps_def endpoint_ok_def MAX_ENDPOINT_FAILURES_def Let_def)
      moreover have "count_outcomes now a (x # q) t = count_outcomes now a q ?t"
        using found by (simp add: x Some)
      ultimately show ?thesis using Cons.IH [of ?t] by (auto intro: endpoints_keep_trans)
    qed
  qed
qed

text \<open>Encryption at rest as the repositories rely on it: what was encrypted is not empty and decrypts to itself.\<close>

definition encryption_ok :: "(nat \<Rightarrow> string \<Rightarrow> string) \<Rightarrow> (string \<Rightarrow> string option) \<Rightarrow> bool" where
  "encryption_ok enc dec \<longleftrightarrow> (\<forall>r x. enc r x \<noteq> '''' \<and> dec (enc r x) = Some x)"

lemma find_url_None:
  assumes "table_ok t" and "find_by_agent_and_url dec a url t = None" and "row_of t k = Some p" and "ep_agent_id p = a"
  shows "get_url dec p \<noteq> Some url"
  using assms row_of_Some_mem [OF assms(3)]
  by (auto simp: find_by_agent_and_url_def find_None_iff endpoints_by_agent_def select_where_def)

lemma endpoint_create_ok:
  assumes "endpoints_ok dec t" and "find_by_agent_and_url dec a url t = None" and "cipher \<noteq> ''''" and "dec cipher = Some url"
  shows "endpoints_ok dec (endpoint_create now a cipher secret desc fs t)"
proof -
  define p where "p = \<lparr>ep_agent_id = a, ep_url_encrypted = cipher, ep_secret_encrypted = secret, ep_description = desc,
       ep_event_filters = fs, ep_is_active = True, ep_failure_count = 0, ep_disabled_at = None, ep_created_at = now\<rparr>"
  have p: "ep_agent_id p = a" "get_url dec p = Some url" "endpoint_ok p"
    using assms(3,4) by (simp_all add: p_def get_url_def endpoint_ok_def MAX_ENDPOINT_FAILURES_def)
  have t': "endpoint_create now a cipher secret desc fs t = add_row p t" by (simp add: endpoint_create_def p_def)
  have ok: "table_ok t" using assms(1) by (simp add: endpoints_ok_def)
  note fresh = find_url_None [OF ok assms(2)]
  show ?thesis
    unfolding t' endpoints_ok_def row_of_add_row
    using assms(1) p fresh by (auto simp: endpoints_ok_def split: if_splits)
qed

lemma endpoints_delete_ok: "endpoints_ok dec t \<Longrightarrow> endpoints_ok dec (delete_where P t)"
proof -
  assume ok: "endpoints_ok dec t"
  then have tok: "table_ok t" by (simp add: endpoints_ok_def)
  then have "table_ok (delete_where P t)" by (simp add: table_ok_def keys_of_def delete_where_def distinct_map_filter)
  moreover have "row_of t k = Some p" if "row_of (delete_where P t) k = Some p" for k p
    using that row_of_delete_where [OF tok, of P k] by (auto split: option.splits if_splits)
  ultimately show ?thesis using ok unfolding endpoints_ok_def by blast
qed

lemma worker_endpoints_ok:
  assumes "encryption_ok enc dec" and "endpoints_ok dec (hk_endpoints (wk_hooks w))"
  shows "endpoints_ok dec (hk_endpoints (wk_hooks (fst (worker_step known enc dec p w))))"
proof (cases p)
  case (Begin n now eid)
  have "endpoints_keep (hk_endpoints (wk_hooks w)) (hk_endpoints (fst (begin_event now known dec eid (wk_hooks w))))"
    using collect_targets_keep [of "hk_endpoints (wk_hooks w)" now dec]
    by (auto simp: begin_event_def endpoints_keep_refl split_def Let_def split: option.split)
  with assms(2) endpoints_keep_ok show ?thesis by (auto simp: Begin split_def split: hook_begun.split)
next
  case (Finish n now eid rs)
  have "endpoints_keep (hk_endpoints (wk_hooks w)) (hk_endpoints (fst (finish_event now eid ts rs (wk_hooks w))))" for ts
    by (auto simp: finish_event_def endpoints_keep_refl count_outcomes_keep split: option.split)
  with assms(2) endpoints_keep_ok show ?thesis by (auto simp: Finish split: option.split)
next
  case (Register now r secret a url description filters)
  with assms show ?thesis
    by (auto simp: served_def register_webhook_def encryption_ok_def simp del: not_None_eq intro!: endpoint_create_ok [where url = url] split: if_splits)
next
  case (Legacy now r secret a url)
  with assms show ?thesis
    by (auto simp: legacy_webhook_url_def upsert_by_url_def encryption_ok_def intro!: endpoint_create_ok [where url = url] split: option.split)
next
  case (Remove a wid)
  with assms(2) show ?thesis
    by (auto simp: served_def delete_webhook_def endpoint_delete_def intro: endpoints_delete_ok split: if_splits)
next
  case (Rotate r secret a wid)
  have "endpoints_keep t (modify_row wid (\<lambda>p. p\<lparr>ep_secret_encrypted := x\<rparr>) t)" for t x
    by (rule endpoints_keep_modify) (simp add: endpoint_keeps_def endpoint_ok_def)
  from endpoints_keep_ok [OF this assms(2)] assms(2) show ?thesis
    by (auto simp: Rotate served_def rotate_secret_def update_secret_def split: option.splits)
qed (use assms in \<open>auto simp: queue_event_def served_def retry_webhook_event_def split: option.splits if_splits\<close>)

lemma worker_run_endpoints:
  assumes "encryption_ok enc dec" and "endpoints_ok dec (hk_endpoints (wk_hooks w))"
  shows "endpoints_ok dec (hk_endpoints (wk_hooks (fst (worker_run known enc dec ps w))))"
  using assms(2)
proof (induction ps arbitrary: w)
  case Nil
  then show ?case by simp
next
  case (Cons p ps)
  from Cons.IH [OF worker_endpoints_ok [OF assms(1) Cons.prems, of known p]] show ?case by (simp add: split_def Let_def)
qed

section \<open>Properties\<close>

text \<open>Two endpoints, the second listening to payments only, and two events.\<close>

definition demo_enc :: "nat \<Rightarrow> string \<Rightarrow> string" where
  "demo_enc r x = CHR ''k'' # x"

definition demo_dec :: "string \<Rightarrow> string option" where
  "demo_dec x = (case x of [] \<Rightarrow> None | c # y \<Rightarrow> Some y)"

definition demo_idle :: fleet where
  "demo_idle = \<lparr>wk_hooks = \<lparr>hk_events = [], hk_endpoints = []\<rparr>, wk_waiting = (\<lambda>_. []), wk_flight = (\<lambda>_. [])\<rparr>"

definition demo_hook_ops :: "worker_op list" where
  "demo_hook_ops = [Register 0 7 ''s1'' 4 ''https://a'' None None, Register 1 8 ''s2'' 4 ''https://b'' None (Some [''payment.*'']),
     Queue 2 4 ''escrow.created'' ''{}'', Pick 0 3 100 [], Pick 1 3 100 [1], Pick 1 3 100 [], Begin 0 4 1, Begin 1 4 1,
     Finish 0 5 1 [Some \<lparr>wr_success = False, wr_error = Some ''HTTP 500''\<rparr>], Crash 1,
     Pick 0 (seconds 61) 100 [], Begin 0 (seconds 61) 1, Finish 0 (seconds 62) 1 [None]]"

definition demo_worked :: fleet where
  "demo_worked = fst (worker_run (\<lambda>_. True) demo_enc demo_dec demo_hook_ops demo_idle)"

lemma demo_idle_start: "idle_start demo_idle"
  by (simp add: idle_start_def demo_idle_def)

lemma demo_encryption: "encryption_ok demo_enc demo_dec"
  by (simp add: encryption_ok_def demo_enc_def demo_dec_def)



text \<open>The bound is reached: two workers hold the event when its last attempt is written, and both have sent it.\<close>

definition demo_attempt :: "moment \<Rightarrow> worker_op list" where
  "demo_attempt now = [Pick 0 now 100 [], Begin 0 now 1, Finish 0 now 1 [None]]"

definition demo_six_ops :: "worker_op list" where
  "demo_six_ops = take 3 demo_hook_ops @ concat (map (\<lambda>n. demo_attempt (seconds (7200 * n))) [1, 2, 3, 4])
     @ [Pick 0 (seconds 36000) 100 [], Pick 1 (seconds 36000) 100 [], Begin 0 (seconds 36000) 1, Begin 1 (seconds 36000) 1,
        Finish 0 (seconds 36001) 1 [None], Finish 1 (seconds 36001) 1 [None]]"

lemma two_workers_send_six_times:
  "list_all (of_fleet 2) demo_six_ops" "filter loses_call demo_six_ops = []"
  "count_list (snd (worker_run (\<lambda>_. True) demo_enc demo_dec demo_six_ops demo_idle)) 1 = 6"
  by code_simp+

text \<open>No event ever fails: after any run the statistics count no failed event, and an event that has
  used up its five attempts is not failed but still counted as pending, and no batch takes it again.\<close>

lemma events_never_fail:
  assumes "idle_start w" and "list_all (of_fleet N) ps" and "worker_run known enc dec ps w = (w', sent)"
  shows "ds_failed (get_delivery_stats now period (hk_events (wk_hooks w'))) = 0
    \<and> (row_of (hk_events (wk_hooks w')) k = Some e \<and> 5 \<le> qe_attempt_count e
       \<longrightarrow> k \<notin> fst ` set (get_pending_events now limit (hk_events (wk_hooks w')))
         \<and> (qe_status e = HookDelivered \<or> hook_active (qe_status e)))"
proof -
  let ?t = "hk_events (wk_hooks w')"
  have "fleet_ok w'" using worker_run_left [OF idle_start_ok [OF assms(1)] assms(3,2)] by blast
  then have ok: "events_ok ?t" "table_ok ?t" by (simp_all add: fleet_ok_def events_ok_def)
  have "qe_status e \<noteq> HookFailed" if "(k, e) \<in> set ?t" for k e
    using events_ok_row [OF ok(1) mem_row_of [OF ok(2) that]] by (simp add: event_ok_def)
  then have "ds_failed (get_delivery_stats now period ?t) = 0"
    by (auto simp: get_delivery_stats_def Let_def select_where_def filter_empty_conv)
  moreover have "k \<notin> fst ` set (get_pending_events now limit ?t)"
    if "row_of ?t k = Some e" "5 \<le> qe_attempt_count e"
  proof
    assume "k \<in> fst ` set (get_pending_events now limit ?t)"
    then obtain e' where "(k, e') \<in> set ?t" "deliverable now e'"
      by (auto simp: get_pending_events_def select_where_def dest!: in_set_takeD)
    with mem_row_of [OF ok(2)] that events_ok_row [OF ok(1) that(1)] show False
      by (auto simp: deliverable_def event_ok_def)
  qed
  moreover have "qe_status e = HookDelivered \<or> hook_active (qe_status e)" if "row_of ?t k = Some e"
    using events_ok_row [OF ok(1) that] by (cases "qe_status e") (simp_all add: event_ok_def hook_active_def)
  ultimately show ?thesis by blast
qed

lemma events_never_fail_witness:
  "ds_failed (get_delivery_stats (seconds 100) 7 (hk_events (wk_hooks demo_worked))) = 0"
  unfolding demo_worked_def
  using events_never_fail [OF demo_idle_start _ prod.collapse [symmetric], of 2 demo_hook_ops] by (rule conjunct1) code_simp

text \<open>The first phase with readable URLs.\<close>

definition readable :: "(string \<Rightarrow> string option) \<Rightarrow> endpoint \<Rightarrow> bool" where
  "readable dec p \<longleftrightarrow> (case get_url dec p of None \<Rightarrow> False | Some url \<Rightarrow> url \<noteq> '''')"

lemma collect_readable:
  "list_all (\<lambda>(k, p). readable dec p) q \<Longrightarrow>
     fst (collect_targets now dec ty q t) = t \<and> snd (collect_targets now dec ty q t) = snd (collect_targets later dec ty q t)"
  by (induction q) (auto simp: readable_def Let_def split_def split: option.splits)

text \<open>The first phase claims nothing: it leaves the tables as they were, so a second worker that took
  the event in its own batch sends it to the same targets again, and does so even when the first one has
  marked it delivered in the meantime.\<close>

lemma delivery_not_exclusive:
  assumes "row_of (hk_events h) eid = Some e"
    and "list_all (\<lambda>(k, p). readable dec p) (endpoints_by_agent (qe_agent_id e) (hk_endpoints h))"
    and "begin_event now known dec eid h = (h', HookSending payload ts)"
  shows "h' = h \<and> begin_event later known dec eid h = (h, HookSending payload ts)
    \<and> snd (begin_event later known dec eid (h\<lparr>hk_events := mark_delivered now eid 200 (hk_events h)\<rparr>)) = HookSending payload ts"
proof -
  let ?q = "endpoints_by_agent (qe_agent_id e) (hk_endpoints h)"
  let ?c = "\<lambda>t. collect_targets t dec (qe_event_type e) ?q (hk_endpoints h)"
  have c: "fst (?c t) = hk_endpoints h" "snd (?c t) = snd (?c now)" for t
    using collect_readable [OF assms(2), of t "qe_event_type e" "hk_endpoints h" now] by simp_all
  obtain eps where now: "?c now = (eps, snd (?c now))" by (cases "?c now") auto
  with c(1) [of now] have eps: "eps = hk_endpoints h" by (metis fst_conv)
  have later: "?c later = (hk_endpoints h, snd (?c now))" using c [of later] by (metis prod.collapse)
  have known: "known (qe_agent_id e)" "snd (?c now) \<noteq> []" "h' = h" "payload = qe_payload e" "ts = snd (?c now)"
    using assms(1,3) now by (auto simp: begin_event_def eps split: if_splits prod.splits)
  then show ?thesis
    using assms(1) later by (simp add: begin_event_def mark_delivered_def row_of_modify_row)
qed

definition demo_queued :: hooks where
  "demo_queued = wk_hooks (fst (worker_run (\<lambda>_. True) demo_enc demo_dec (take 3 demo_hook_ops) demo_idle))"

definition demo_event :: queued_event where
  "demo_event = the (row_of (hk_events demo_queued) 1)"

definition demo_targets :: "hook_target list" where
  "demo_targets = [\<lparr>ht_endpoint_id = 1, ht_url = ''https://a'', ht_secret = ''s1''\<rparr>]"

lemma delivery_not_exclusive_witness:
  "snd (begin_event 9 (\<lambda>_. True) demo_dec 1 (demo_queued\<lparr>hk_events := mark_delivered 8 1 200 (hk_events demo_queued)\<rparr>))
     = HookSending ''{}'' demo_targets"
proof -
  have row: "row_of (hk_events demo_queued) 1 = Some demo_event"
  proof -
    have "row_of (hk_events demo_queued) 1 \<noteq> None" by code_simp
    then show ?thesis by (auto simp: demo_event_def)
  qed
  have "list_all (\<lambda>(k, p). readable demo_dec p) (endpoints_by_agent (qe_agent_id demo_event) (hk_endpoints demo_queued))"
    by code_simp
  moreover have "begin_event 8 (\<lambda>_. True) demo_dec 1 demo_queued
      = (fst (begin_event 8 (\<lambda>_. True) demo_dec 1 demo_queued), HookSending ''{}'' demo_targets)"
  proof (rule prod_eqI)
    show "snd (begin_event 8 (\<lambda>_. True) demo_dec 1 demo_queued)
      = snd (fst (begin_event 8 (\<lambda>_. True) demo_dec 1 demo_queued), HookSending ''{}'' demo_targets)" by code_simp
  qed simp
  ultimately show ?thesis using delivery_not_exclusive [OF row] by blast
qed

text \<open>The endpoints of an agent have different URLs, and one that failed ten times in a row is off: after
  any run, with encryption that gives back what was encrypted, two endpoints of one agent with one URL are
  the same, and an endpoint that is still on has fewer than ten failures.\<close>

lemma endpoint_urls_distinct:
  assumes "encryption_ok enc dec" and "hk_endpoints (wk_hooks w) = []"
    and "hk_endpoints (wk_hooks (fst (worker_run known enc dec ps w))) = t"
    and "row_of t k = Some p" and "row_of t k' = Some p'"
    and "ep_agent_id p = ep_agent_id p'" and "get_url dec p = Some url" and "get_url dec p' = Some url"
  shows "k = k' \<and> (ep_is_active p \<longrightarrow> ep_failure_count p < 10)"
proof -
  have "endpoints_ok dec (hk_endpoints (wk_hooks w))" by (simp add: assms(2) endpoints_ok_def table_ok_def keys_of_def)
  from worker_run_endpoints [OF assms(1) this, of known ps] have ok: "endpoints_ok dec t" by (simp add: assms(3))
  then have "k = k'" using assms(4-8) unfolding endpoints_ok_def by blast
  moreover have "endpoint_ok p" using ok assms(4) by (simp add: endpoints_ok_def)
  ultimately show ?thesis by (simp add: endpoint_ok_def MAX_ENDPOINT_FAILURES_def)
qed

definition demo_endpoint :: endpoint where
  "demo_endpoint = the (row_of (hk_endpoints (wk_hooks demo_worked)) 1)"

lemma endpoint_urls_distinct_witness: "ep_failure_count demo_endpoint < 10"
proof -
  have row: "row_of (hk_endpoints (wk_hooks (fst (worker_run (\<lambda>_. True) demo_enc demo_dec demo_hook_ops demo_idle)))) 1
      = Some demo_endpoint"
  proof -
    have "row_of (hk_endpoints (wk_hooks demo_worked)) 1 \<noteq> None" by code_simp
    then show ?thesis by (auto simp: demo_endpoint_def demo_worked_def)
  qed
  have "get_url demo_dec demo_endpoint = Some ''https://a''" by code_simp
  moreover have "hk_endpoints (wk_hooks demo_idle) = []" by (simp add: demo_idle_def)
  moreover have "ep_is_active demo_endpoint" by code_simp
  ultimately show ?thesis using endpoint_urls_distinct [OF demo_encryption _ refl row row] by blast
qed

end
