(* ===== verification/Zk_Proofs.thy ===== *)
theory Zk_Proofs
  imports Balance_Routes
begin

text \<open>
  Proofs that a committed score reaches a threshold (\<open>sthrip/services/zk_reputation_service.py\<close>, the endpoint in
  \<open>api/routers/reputation.py\<close>), and the copy of the scheme for review statistics
  (\<open>sthrip/services/review_service.py\<close>): Pedersen commitments, a Sigma-OR proof per bit, and a Schnorr proof that
  links the bits to the commitment.

  The group is a record; the source's constants are the 2048-bit prime of RFC 3526 and its squares. Random
  scalars are arguments (\<open>coins\<close>), SHA-256 and SHA-512 on byte lists are parameters. Proofs are modelled as
  decoded: the texts of numbers, JSON and base64 around them are left out, \<open>None\<close> is a text that does not decode.
\<close>

section \<open>Arithmetic\<close>

record zk_group =
  zg_P :: int
  zg_Q :: int
  zg_G :: int
  zg_H :: int

definition RFC_P :: int where
  "RFC_P = 0xFFFFFFFFFFFFFFFFC90FDAA22168C234C4C6628B80DC1CD129024E088A67CC74020BBEA63B139B22514A08798E3404DDEF9519B3CD3A431B302B0A6DF25F14374FE1356D6D51C245E485B576625E7EC6F44C42E9A637ED6B0BFF5CB6F406B7EDEE386BFB5A899FA5AE9F24117C4B1FE649286651ECE45B3DC2007CB8A163BF0598DA48361C55D39A69163FA8FD24CF5F83655D23DCA3AD961C62F356208552BB9ED529077096966D670C354E4ABC9804F1746C08CA18217C32905E462E36CE3BE39E772C180E86039B2783A2EC07A28FB5C55DF06F4C52C9DE2BCBF6955817183995497CEA956AE515D2261898FA051015728E5A8AACAA68FFFFFFFFFFFFFFFF"

text \<open>\<open>int.to_bytes(n, "big")\<close> raises for a number that does not fit.\<close>

definition to_bytes :: "nat \<Rightarrow> int \<Rightarrow> int list option" where
  "to_bytes n e =
     (if 0 \<le> e \<and> e < 256 ^ n then Some (map (\<lambda>i. (e div 256 ^ (n - 1 - i)) mod 256) [0..<n]) else None)"

definition from_bytes :: "int list \<Rightarrow> int" where
  "from_bytes bs = foldl (\<lambda>n b. 256 * n + b) 0 bs"

text \<open>\<open>pow(b, e, m)\<close>: a negative exponent asks for an inverse and raises when there is none.\<close>

function egcd :: "int \<Rightarrow> int \<Rightarrow> int \<times> int \<times> int" where
  "egcd a b = (if b \<le> 0 then (a, 1, 0) else (case egcd b (a mod b) of (d, x, y) \<Rightarrow> (d, y, x - (a div b) * y)))"
  by pat_completeness auto

termination
  by (relation "measure (\<lambda>(a, b). nat b)") simp_all

definition mod_inverse :: "int \<Rightarrow> int \<Rightarrow> int option" where
  "mod_inverse a m = (case egcd (a mod m) m of (d, x, y) \<Rightarrow> if d = 1 then Some (x mod m) else None)"

definition py_pow :: "int \<Rightarrow> int \<Rightarrow> int \<Rightarrow> int option" where
  "py_pow b e m =
     (if 0 \<le> e then Some (b ^ nat e mod m)
      else map_option (\<lambda>i. i ^ nat (- e) mod m) (mod_inverse b m))"

definition mod_inv :: "int \<Rightarrow> int \<Rightarrow> int" where
  "mod_inv a m = a ^ nat (m - 2) mod m"

section \<open>The second generator\<close>

fun expand_block :: "(int list \<Rightarrow> int list) \<Rightarrow> nat \<Rightarrow> int list \<Rightarrow> int list" where
  "expand_block sha512 0 block = []"
| "expand_block sha512 (Suc n) block = (let block1 = sha512 block in block1 @ expand_block sha512 n block1)"

text \<open>Digests have 64 bytes: four make the 256 bytes of a candidate.\<close>

definition generator_candidate :: "(int list \<Rightarrow> int list) \<Rightarrow> int list \<Rightarrow> int \<Rightarrow> int \<Rightarrow> int" where
  "generator_candidate sha512 seed P counter =
     from_bytes (take 256 (expand_block sha512 4 (sha512 (seed @ the (to_bytes 4 counter))))) mod P"

partial_function (option) derive_from :: "(int list \<Rightarrow> int list) \<Rightarrow> int list \<Rightarrow> int \<Rightarrow> int \<Rightarrow> int option" where
  "derive_from sha512 seed P counter =
     (let candidate = generator_candidate sha512 seed P counter;
          h = candidate ^ 2 mod P
      in if candidate \<le> 1 then derive_from sha512 seed P (counter + 1)
         else if h \<noteq> 1 then Some h
         else derive_from sha512 seed P (counter + 1))"

definition derive_second_generator :: "(int list \<Rightarrow> int list) \<Rightarrow> int list \<Rightarrow> int \<Rightarrow> int option" where
  "derive_second_generator sha512 seed P = derive_from sha512 seed P 0"

section \<open>Commitments and challenges\<close>

definition pedersen_commit :: "zk_group \<Rightarrow> int \<Rightarrow> int \<Rightarrow> int" where
  "pedersen_commit g v r = (zg_G g ^ nat v mod zg_P g) * (zg_H g ^ nat r mod zg_P g) mod zg_P g"

text \<open>The hash is given the label and the encoded elements.\<close>

definition fiat_shamir :: "zk_group \<Rightarrow> (string \<Rightarrow> int list \<Rightarrow> int list) \<Rightarrow> string \<Rightarrow> int list \<Rightarrow> int option" where
  "fiat_shamir g sha label elements =
     (if list_all (\<lambda>e. to_bytes 256 e \<noteq> None) elements
      then Some (from_bytes (sha label (concat (map (\<lambda>e. the (to_bytes 256 e)) elements))) mod zg_Q g) else None)"

definition bits_of :: "int \<Rightarrow> nat \<Rightarrow> int list" where
  "bits_of v n = map (\<lambda>i. (v div 2 ^ i) mod 2) [0..<n]"

section \<open>The proof of a bit\<close>

record sigma_proof =
  sp_D :: int
  sp_A0 :: int
  sp_A1 :: int
  sp_c0 :: int
  sp_c1 :: int
  sp_s0 :: int
  sp_s1 :: int

definition sigma_or_prove ::
  "zk_group \<Rightarrow> (string \<Rightarrow> int list \<Rightarrow> int list) \<Rightarrow> string \<Rightarrow> int \<Rightarrow> int \<Rightarrow> int \<Rightarrow> int \<times> int \<times> int \<Rightarrow> sigma_proof option"
where
  "sigma_or_prove g sha label b blinding d coins =
     (let (c_sim, s_sim, k) = coins;
          t0 = d mod zg_P g;
          t1 = d * mod_inv (zg_G g) (zg_P g) mod zg_P g;
          t_sim = (if b = 0 then t1 else t0);
          a_sim = (zg_H g ^ nat s_sim mod zg_P g) * (t_sim ^ nat (zg_Q g - c_sim) mod zg_P g) mod zg_P g;
          a_real = zg_H g ^ nat k mod zg_P g;
          a0 = (if b = 0 then a_real else a_sim);
          a1 = (if b = 0 then a_sim else a_real)
      in case fiat_shamir g sha label [d, a0, a1] of
           None \<Rightarrow> None
         | Some c \<Rightarrow>
             let c_real = (c - c_sim) mod zg_Q g;
                 s_real = (k + c_real * blinding) mod zg_Q g
             in Some (if b = 0
                  then \<lparr>sp_D = d, sp_A0 = a0, sp_A1 = a1, sp_c0 = c_real, sp_c1 = c_sim, sp_s0 = s_real, sp_s1 = s_sim\<rparr>
                  else \<lparr>sp_D = d, sp_A0 = a0, sp_A1 = a1, sp_c0 = c_sim, sp_c1 = c_real, sp_s0 = s_sim, sp_s1 = s_real\<rparr>))"

text \<open>An exception ends the verification that calls this with the answer False.\<close>

definition schnorr_holds :: "zk_group \<Rightarrow> int \<Rightarrow> int \<Rightarrow> int \<Rightarrow> int \<Rightarrow> bool" where
  "schnorr_holds g t a c s =
     (case (py_pow (zg_H g) s (zg_P g), py_pow t c (zg_P g)) of
        (Some lhs, Some tc) \<Rightarrow> lhs = a * tc mod zg_P g
      | _ \<Rightarrow> False)"

definition sigma_or_verify :: "zk_group \<Rightarrow> (string \<Rightarrow> int list \<Rightarrow> int list) \<Rightarrow> string \<Rightarrow> sigma_proof \<Rightarrow> bool" where
  "sigma_or_verify g sha label p =
     (case fiat_shamir g sha label [sp_D p, sp_A0 p, sp_A1 p] of
        None \<Rightarrow> False
      | Some c \<Rightarrow> (sp_c0 p + sp_c1 p) mod zg_Q g = c
          \<and> schnorr_holds g (sp_D p mod zg_P g) (sp_A0 p) (sp_c0 p) (sp_s0 p)
          \<and> schnorr_holds g (sp_D p * mod_inv (zg_G g) (zg_P g) mod zg_P g) (sp_A1 p) (sp_c1 p) (sp_s1 p))"

section \<open>The link\<close>

record link_proof =
  lp_T :: int
  lp_A :: int
  lp_s :: int

definition linking_prove ::
  "zk_group \<Rightarrow> (string \<Rightarrow> int list \<Rightarrow> int list) \<Rightarrow> string \<Rightarrow> int \<Rightarrow> int \<Rightarrow> int \<Rightarrow> link_proof option"
where
  "linking_prove g sha label r_diff link_target k =
     (let announcement = zg_H g ^ nat k mod zg_P g
      in map_option (\<lambda>c. \<lparr>lp_T = link_target, lp_A = announcement, lp_s = (k + c * r_diff) mod zg_Q g\<rparr>)
           (fiat_shamir g sha label [link_target, announcement]))"

definition linking_verify :: "zk_group \<Rightarrow> (string \<Rightarrow> int list \<Rightarrow> int list) \<Rightarrow> string \<Rightarrow> link_proof \<Rightarrow> bool" where
  "linking_verify g sha label p =
     (case fiat_shamir g sha label [lp_T p, lp_A p] of
        None \<Rightarrow> False
      | Some c \<Rightarrow> schnorr_holds g (lp_T p) (lp_A p) c (lp_s p))"

section \<open>Range proofs\<close>

text \<open>The coins of one bit: its blinding and the three scalars of its proof.\<close>

type_synonym bit_coins = "int \<times> int \<times> int \<times> int"

fun prove_bits ::
  "zk_group \<Rightarrow> (string \<Rightarrow> int list \<Rightarrow> int list) \<Rightarrow> string \<Rightarrow> int list \<Rightarrow> bit_coins list \<Rightarrow> sigma_proof list option"
where
  "prove_bits g sha label (b # bs) ((r, coins) # q) =
     (case sigma_or_prove g sha label b r (pedersen_commit g b r) coins of
        None \<Rightarrow> None
      | Some p \<Rightarrow> map_option ((#) p) (prove_bits g sha label bs q))"
| "prove_bits g sha label _ _ = Some []"

text \<open>The blinding of the weighted product of the bit commitments.\<close>

definition link_blinding :: "zk_group \<Rightarrow> int list \<Rightarrow> int" where
  "link_blinding g rs =
     sum_list (map (\<lambda>(i, r). (r * (2 ^ i mod zg_Q g)) mod zg_Q g) (enumerate 0 rs)) mod zg_Q g"

definition prove_range ::
  "zk_group \<Rightarrow> (string \<Rightarrow> int list \<Rightarrow> int list) \<Rightarrow> string \<Rightarrow> string \<Rightarrow> int \<Rightarrow> int \<Rightarrow> nat \<Rightarrow> bit_coins list \<Rightarrow> int
    \<Rightarrow> (sigma_proof list \<times> link_proof) option"
where
  "prove_range g sha bit_label link_label r delta n coins k =
     (case prove_bits g sha bit_label (bits_of delta n) coins of
        None \<Rightarrow> None
      | Some bit_proofs \<Rightarrow>
          let r_diff = (r - link_blinding g (map fst (take n coins))) mod zg_Q g;
              link_target = zg_H g ^ nat r_diff mod zg_P g
          in map_option (Pair bit_proofs) (linking_prove g sha link_label r_diff link_target k))"

definition aggregate :: "zk_group \<Rightarrow> sigma_proof list \<Rightarrow> int" where
  "aggregate g ps =
     foldl (\<lambda>a (i, p). a * (sp_D p ^ (2 ^ i) mod zg_P g) mod zg_P g) 1 (enumerate 0 ps)"

definition expected_target :: "zk_group \<Rightarrow> int \<Rightarrow> int \<Rightarrow> sigma_proof list \<Rightarrow> int option" where
  "expected_target g c_val threshold ps =
     map_option (\<lambda>gt. c_val * mod_inv gt (zg_P g) mod zg_P g * mod_inv (aggregate g ps) (zg_P g) mod zg_P g)
       (py_pow (zg_G g) threshold (zg_P g))"

definition check_range ::
  "zk_group \<Rightarrow> (string \<Rightarrow> int list \<Rightarrow> int list) \<Rightarrow> string \<Rightarrow> string \<Rightarrow> int \<Rightarrow> int \<Rightarrow> sigma_proof list \<Rightarrow> link_proof \<Rightarrow> bool"
where
  "check_range g sha bit_label link_label c_val threshold bit_proofs link \<longleftrightarrow>
     list_all (sigma_or_verify g sha bit_label) bit_proofs
     \<and> expected_target g c_val threshold bit_proofs = Some (lp_T link)
     \<and> linking_verify g sha link_label link"

section \<open>Reputation proofs\<close>

definition NUM_BITS :: nat where
  "NUM_BITS = 7"

record reputation_proof =
  zp_version :: int
  zp_commitment :: int
  zp_threshold :: int
  zp_bit_proofs :: "sigma_proof list"
  zp_link_proof :: link_proof

definition create_commitment :: "zk_group \<Rightarrow> int \<Rightarrow> int \<Rightarrow> (int \<times> int) outcome" where
  "create_commitment g score r =
     (if score < 0 \<or> score > 100 then Inl (ValueError ''Score must be an integer between 0 and 100'')
      else Inr (pedersen_commit g score r, r))"

definition verify_commitment :: "zk_group \<Rightarrow> int \<Rightarrow> int \<Rightarrow> int \<Rightarrow> bool" where
  "verify_commitment g commitment score r \<longleftrightarrow> pedersen_commit g score r = commitment"

definition generate_proof ::
  "zk_group \<Rightarrow> (string \<Rightarrow> int list \<Rightarrow> int list) \<Rightarrow> int \<Rightarrow> int \<Rightarrow> int \<Rightarrow> bit_coins list \<Rightarrow> int \<Rightarrow> reputation_proof outcome"
where
  "generate_proof g sha score r threshold coins k =
     (if score < 0 \<or> score > 100 then Inl (ValueError ''Score must be an integer between 0 and 100'')
      else if threshold < 0 \<or> threshold > 100 then Inl (ValueError ''Threshold must be an integer between 0 and 100'')
      else if score < threshold then Inl (ValueError ''Score is below threshold'')
      else case prove_range g sha ''sigma-or-bit'' ''link-proof'' r (score - threshold) NUM_BITS coins k of
        None \<Rightarrow> Inl (RuntimeError ''OverflowError'')
      | Some (bit_proofs, link) \<Rightarrow>
          Inr \<lparr>zp_version = 2, zp_commitment = pedersen_commit g score r, zp_threshold = threshold,
               zp_bit_proofs = bit_proofs, zp_link_proof = link\<rparr>)"

definition verify_proof ::
  "zk_group \<Rightarrow> (string \<Rightarrow> int list \<Rightarrow> int list) \<Rightarrow> int \<Rightarrow> reputation_proof option \<Rightarrow> int \<Rightarrow> bool"
where
  "verify_proof g sha commitment proof threshold =
     (case proof of
        None \<Rightarrow> False
      | Some p \<Rightarrow>
          zp_version p = 2 \<and> zp_commitment p = commitment \<and> zp_threshold p = threshold
          \<and> length (zp_bit_proofs p) = NUM_BITS
          \<and> check_range g sha ''sigma-or-bit'' ''link-proof'' commitment threshold (zp_bit_proofs p) (zp_link_proof p))"

text \<open>
  The endpoint: a commitment is made when there is none or the stored one no longer opens to the score, and
  kept with its blinding; the proof is about the one kept.
\<close>

definition refresh_commitment ::
  "zk_group \<Rightarrow> int \<Rightarrow> int \<Rightarrow> (int \<times> int) option \<Rightarrow> (int \<times> int) outcome"
where
  "refresh_commitment g score r stored =
     (case stored of
        None \<Rightarrow> create_commitment g score r
      | Some (commitment, blinding) \<Rightarrow>
          if verify_commitment g commitment score blinding then Inr (commitment, blinding)
          else create_commitment g score r)"

definition generate_reputation_proof ::
  "zk_group \<Rightarrow> (string \<Rightarrow> int list \<Rightarrow> int list) \<Rightarrow> int \<Rightarrow> bit_coins list \<Rightarrow> int \<Rightarrow> int \<Rightarrow> agent_reputation option
    \<Rightarrow> (int \<times> int) option \<Rightarrow> (int \<times> int) option \<times> (http_error + int \<times> reputation_proof)"
where
  "generate_reputation_proof g sha r coins k threshold reputation stored =
     (case reputation of
        None \<Rightarrow> (stored, Inl (HTTPException 404 ''No reputation record found for this agent''))
      | Some rep \<Rightarrow>
          (case refresh_commitment g (rep_trust_score rep) r stored of
             Inl _ \<Rightarrow> (stored, Inl (HTTPException 500 ''Internal Server Error''))
           | Inr (commitment, blinding) \<Rightarrow>
               (Some (commitment, blinding),
                (case generate_proof g sha (rep_trust_score rep) blinding threshold coins k of
                   Inl (ValueError msg) \<Rightarrow> Inl (HTTPException 400 msg)
                 | Inl _ \<Rightarrow> Inl (HTTPException 500 ''Internal Server Error'')
                 | Inr p \<Rightarrow> Inr (commitment, p)))))"

end
