(* ===== verification/Rounding.thy ===== *)
theory Rounding
  imports Prelude
begin

text \<open>
  Rounding to the nearest integer with ties to the even neighbour: Python's \<open>round\<close>, and \<open>Decimal.quantize\<close> under
  the default context, which reviews and multisig escrows use.
\<close>

text \<open>Python's \<open>round\<close>: ties go to the even neighbour.\<close>

definition round_half_even :: "rat \<Rightarrow> int" where
  "round_half_even x =
     (let n = \<lfloor>x\<rfloor>; f = x - of_int n
      in if f < 1 / 2 then n else if 1 / 2 < f then n + 1 else if even n then n else n + 1)"

text \<open>\<open>quantize(Decimal("0.00000001"))\<close>.\<close>

definition quantize8 :: "decimal \<Rightarrow> decimal" where
  "quantize8 x = of_int (round_half_even (x * 10 ^ 8)) / 10 ^ 8"

lemma round_half_even_cases: "round_half_even x = \<lfloor>x\<rfloor> \<or> round_half_even x = \<lfloor>x\<rfloor> + 1"
  by (simp add: round_half_even_def Let_def)

lemma round_half_even_mono:
  assumes "x \<le> y"
  shows "round_half_even x \<le> round_half_even y"
proof (cases "\<lfloor>x\<rfloor> = \<lfloor>y\<rfloor>")
  case True
  with assms show ?thesis by (auto simp: round_half_even_def Let_def)
next
  case False
  with floor_mono [OF assms] have "\<lfloor>x\<rfloor> + 1 \<le> \<lfloor>y\<rfloor>" by simp
  with round_half_even_cases [of x] round_half_even_cases [of y] show ?thesis by linarith
qed

lemma round_half_even_of_int [simp]: "round_half_even (of_int n) = n"
  by (simp add: round_half_even_def)

lemma round_half_even_nonneg: "0 \<le> x \<Longrightarrow> 0 \<le> round_half_even x"
  using round_half_even_mono [of 0 x] round_half_even_of_int [of 0] by simp

lemma quantize8_nonneg: "0 \<le> x \<Longrightarrow> 0 \<le> quantize8 x"
  using round_half_even_nonneg [of "x * 10 ^ 8"] by (simp add: quantize8_def)

text \<open>Rounding keeps the order against what is already a multiple of the unit.\<close>

lemma quantize8_le:
  assumes "x \<le> of_int n / 10 ^ 8"
  shows "quantize8 x \<le> of_int n / 10 ^ 8"
proof -
  have "x * 10 ^ 8 \<le> of_int n" using assms by (simp add: field_simps)
  from round_half_even_mono [OF this] have "round_half_even (x * 10 ^ 8) \<le> n" by simp
  then have "(of_int (round_half_even (x * 10 ^ 8)) :: decimal) \<le> of_int n" by simp
  then show ?thesis by (simp add: quantize8_def divide_right_mono)
qed

end
