(* ===== verification/Reviews.thy ===== *)
theory Reviews
  imports Zk_Proofs Rounding
begin

text \<open>
  Reviews, rating summaries and proofs about them: \<open>sthrip/db/review_repo.py\<close>, \<open>sthrip/services/review_service.py\<close>
  and \<open>api/routers/reviews.py\<close>. A review names a transaction; the summary of the reviewed agent is recomputed
  with every review. A review proof consists of two range proofs of the scheme in \<open>Zk_Proofs\<close>, whose
  arithmetic the service repeats under labels and with a second generator of its own.

  An average is the exact quotient; \<open>column\<close> is the rounding of the database's \<open>Numeric(3, 2)\<close> columns. A float of a
  request is read as the rational it stands for. Comments decide nothing and are left out.
\<close>

section \<open>Rows\<close>

record agent_review =
  rv_reviewer_id :: ident
  rv_reviewed_id :: ident
  rv_transaction_id :: ident
  rv_transaction_type :: string
  rv_overall_rating :: int
  rv_speed_rating :: "int option"
  rv_quality_rating :: "int option"
  rv_reliability_rating :: "int option"
  rv_is_verified :: bool
  rv_created_at :: moment

record rating_summary =
  rs_total_reviews :: nat
  rs_avg_overall :: decimal
  rs_avg_speed :: decimal
  rs_avg_quality :: decimal
  rs_avg_reliability :: decimal
  rs_five_star_count :: nat
  rs_one_star_count :: nat
  rs_last_review_at :: "moment option"

type_synonym review_table = "(ident, agent_review) table"

record reviews =
  rw_reviews :: review_table
  rw_summaries :: "(ident, rating_summary) table"

section \<open>The repository\<close>

text \<open>One review per reviewer and transaction, an overall rating from 1 to 5, and foreign keys to the agents.\<close>

definition review_constraints :: "db \<Rightarrow> review_table \<Rightarrow> agent_review \<Rightarrow> bool" where
  "review_constraints d t v \<longleftrightarrow>
     row_of (agents d) (rv_reviewer_id v) \<noteq> None \<and> row_of (agents d) (rv_reviewed_id v) \<noteq> None
     \<and> 1 \<le> rv_overall_rating v \<and> rv_overall_rating v \<le> 5
     \<and> first_row (\<lambda>w. rv_reviewer_id w = rv_reviewer_id v \<and> rv_transaction_id w = rv_transaction_id v) t = None"

definition review_create :: "db \<Rightarrow> agent_review \<Rightarrow> review_table \<Rightarrow> review_table outcome" where
  "review_create d v t = (if review_constraints d t v then Inr (add_row v t) else Inl (RuntimeError ''IntegrityError''))"

definition get_by_transaction :: "ident \<Rightarrow> ident \<Rightarrow> review_table \<Rightarrow> (ident \<times> agent_review) option" where
  "get_by_transaction reviewer transaction_id =
     first_row (\<lambda>v. rv_reviewer_id v = reviewer \<and> rv_transaction_id v = transaction_id)"

definition list_by_reviewed :: "ident \<Rightarrow> nat \<Rightarrow> nat \<Rightarrow> review_table \<Rightarrow> (ident \<times> agent_review) list \<times> nat" where
  "list_by_reviewed a limit offset t =
     (let q = select_where (\<lambda>v. rv_reviewed_id v = a) t
      in (take (min limit MAX_QUERY_LIMIT) (drop offset (sort_key (\<lambda>(k, v). - rv_created_at v) q)), length q))"

definition mean :: "int list \<Rightarrow> decimal" where
  "mean xs = of_int (sum_list xs) / of_nat (length xs)"

text \<open>A rating that no review gives averages to 0.\<close>

definition mean_given :: "int option list \<Rightarrow> decimal" where
  "mean_given xs = (let given = List.map_filter id xs in if given = [] then 0 else mean given)"

definition reviews_of :: "ident \<Rightarrow> review_table \<Rightarrow> agent_review list" where
  "reviews_of a t = map snd (select_where (\<lambda>v. rv_reviewed_id v = a) t)"

definition summarise :: "(decimal \<Rightarrow> decimal) \<Rightarrow> agent_review list \<Rightarrow> rating_summary" where
  "summarise column vs =
     (if vs = []
      then \<lparr>rs_total_reviews = 0, rs_avg_overall = column 0, rs_avg_speed = column 0, rs_avg_quality = column 0,
            rs_avg_reliability = column 0, rs_five_star_count = 0, rs_one_star_count = 0, rs_last_review_at = None\<rparr>
      else \<lparr>rs_total_reviews = length vs, rs_avg_overall = column (mean (map rv_overall_rating vs)),
            rs_avg_speed = column (mean_given (map rv_speed_rating vs)),
            rs_avg_quality = column (mean_given (map rv_quality_rating vs)),
            rs_avg_reliability = column (mean_given (map rv_reliability_rating vs)),
            rs_five_star_count = length (filter (\<lambda>v. rv_overall_rating v = 5) vs),
            rs_one_star_count = length (filter (\<lambda>v. rv_overall_rating v = 1) vs),
            rs_last_review_at = Some (foldr max (map rv_created_at vs) (rv_created_at (hd vs)))\<rparr>)"

definition update_rating_summary :: "(decimal \<Rightarrow> decimal) \<Rightarrow> ident \<Rightarrow> reviews \<Rightarrow> reviews" where
  "update_rating_summary column a st =
     (let s = summarise column (reviews_of a (rw_reviews st))
      in st\<lparr>rw_summaries := (case row_of (rw_summaries st) a of
           None \<Rightarrow> insert_row a s (rw_summaries st)
         | Some _ \<Rightarrow> modify_row a (\<lambda>_. s) (rw_summaries st))\<rparr>)"

section \<open>The service\<close>

definition verify_transaction :: "db \<Rightarrow> ident \<Rightarrow> string \<Rightarrow> unit outcome" where
  "verify_transaction d transaction_id transaction_type =
     (if transaction_type \<notin> {''payment'', ''escrow'', ''sla''} then Inl (ValueError ''Invalid transaction_type'')
      else if transaction_type = ''payment'' \<and> row_of (hub_routes d) transaction_id = None
      then Inl (ValueError ''Payment transaction not found'')
      else if transaction_type = ''escrow'' \<and> row_of (escrow_deals d) transaction_id = None
      then Inl (ValueError ''Escrow deal not found'')
      else if transaction_type = ''sla'' \<and> row_of (sla_contracts d) transaction_id = None
      then Inl (ValueError ''SLA contract not found'')
      else Inr ())"

definition create_review ::
  "(decimal \<Rightarrow> decimal) \<Rightarrow> moment \<Rightarrow> db \<Rightarrow> ident \<Rightarrow> ident \<Rightarrow> ident \<Rightarrow> string \<Rightarrow> int \<Rightarrow> int option \<Rightarrow> int option \<Rightarrow> int option
    \<Rightarrow> reviews \<Rightarrow> reviews outcome"
where
  "create_review column now d reviewer_id reviewed_id transaction_id transaction_type overall speed quality reliability st =
     (if reviewer_id = reviewed_id then Inl (ValueError ''An agent cannot review itself'')
      else case verify_transaction d transaction_id transaction_type of
        Inl e \<Rightarrow> Inl e
      | Inr _ \<Rightarrow>
          map_sum id (\<lambda>t. update_rating_summary column reviewed_id (st\<lparr>rw_reviews := t\<rparr>))
            (review_create d
               \<lparr>rv_reviewer_id = reviewer_id, rv_reviewed_id = reviewed_id, rv_transaction_id = transaction_id,
                rv_transaction_type = transaction_type, rv_overall_rating = overall, rv_speed_rating = speed,
                rv_quality_rating = quality, rv_reliability_rating = reliability, rv_is_verified = True,
                rv_created_at = now\<rparr> (rw_reviews st)))"

text \<open>An agent without a summary has a zeroed one.\<close>

definition get_rating_summary :: "ident \<Rightarrow> reviews \<Rightarrow> rating_summary" where
  "get_rating_summary a st =
     (case row_of (rw_summaries st) a of
        None \<Rightarrow> \<lparr>rs_total_reviews = 0, rs_avg_overall = 0, rs_avg_speed = 0, rs_avg_quality = 0, rs_avg_reliability = 0,
                 rs_five_star_count = 0, rs_one_star_count = 0, rs_last_review_at = None\<rparr>
      | Some s \<Rightarrow> s)"

section \<open>The endpoint\<close>

record review_request =
  rq_transaction_id :: "ident option"
  rq_transaction_type :: string
  rq_overall_rating :: int
  rq_speed_rating :: "int option"
  rq_quality_rating :: "int option"
  rq_reliability_rating :: "int option"

definition rating_ok :: "int \<Rightarrow> bool" where
  "rating_ok n \<longleftrightarrow> 1 \<le> n \<and> n \<le> 5"

definition review_request_ok :: "review_request \<Rightarrow> bool" where
  "review_request_ok q \<longleftrightarrow> rq_transaction_type q \<in> {''payment'', ''escrow'', ''sla''} \<and> rating_ok (rq_overall_rating q)
     \<and> (case rq_speed_rating q of None \<Rightarrow> True | Some n \<Rightarrow> rating_ok n)
     \<and> (case rq_quality_rating q of None \<Rightarrow> True | Some n \<Rightarrow> rating_ok n)
     \<and> (case rq_reliability_rating q of None \<Rightarrow> True | Some n \<Rightarrow> rating_ok n)"

definition handle_service_error :: "py_error \<Rightarrow> http_error" where
  "handle_service_error e =
     (case e of
        LookupError m \<Rightarrow> HTTPException 404 m
      | PermissionError m \<Rightarrow> HTTPException 403 m
      | ValueError m \<Rightarrow> HTTPException 400 m
      | _ \<Rightarrow> HTTPException 500 ''Internal Server Error'')"

text \<open>A transaction id that is not a UUID raises \<open>ValueError\<close> before the service is called.\<close>

definition post_review ::
  "(decimal \<Rightarrow> decimal) \<Rightarrow> moment \<Rightarrow> db \<Rightarrow> ident \<Rightarrow> string \<Rightarrow> review_request \<Rightarrow> reviews \<Rightarrow> http_error + reviews"
where
  "post_review column now d current agent_name req st =
     (if \<not> review_request_ok req then Inl (HTTPException 422 ''Unprocessable Entity'')
      else case first_row (\<lambda>g. ag_name g = agent_name) (agents d) of
        None \<Rightarrow> Inl (HTTPException 404 ''Agent not found'')
      | Some (reviewed, _) \<Rightarrow>
          (case rq_transaction_id req of
             None \<Rightarrow> Inl (handle_service_error (ValueError ''badly formed hexadecimal UUID string''))
           | Some transaction_id \<Rightarrow>
               map_sum handle_service_error id
                 (create_review column now d current reviewed transaction_id (rq_transaction_type req)
                    (rq_overall_rating req) (rq_speed_rating req) (rq_quality_rating req) (rq_reliability_rating req) st)))"

section \<open>Review proofs\<close>

definition NUM_BITS_REVIEWS :: nat where
  "NUM_BITS_REVIEWS = 10"

definition NUM_BITS_AVG :: nat where
  "NUM_BITS_AVG = 10"

text \<open>A range proof carries its blinding and the threshold it was made for.\<close>

record range_proof =
  rg_blinding :: int
  rg_threshold :: int
  rg_bit_proofs :: "sigma_proof list"
  rg_link_proof :: link_proof

definition generate_range_proof ::
  "zk_group \<Rightarrow> (string \<Rightarrow> int list \<Rightarrow> int list) \<Rightarrow> int \<Rightarrow> int \<Rightarrow> nat \<Rightarrow> int \<Rightarrow> bit_coins list \<Rightarrow> int
    \<Rightarrow> (int \<times> range_proof) option"
where
  "generate_range_proof g sha val threshold num_bits r coins k =
     map_option (\<lambda>(ps, l). (pedersen_commit g val r,
         \<lparr>rg_blinding = r, rg_threshold = threshold, rg_bit_proofs = ps, rg_link_proof = l\<rparr>))
       (prove_range g sha ''review-sigma-or-bit'' ''review-link-proof'' r (val - threshold) num_bits coins k)"

definition verify_range_proof :: "zk_group \<Rightarrow> (string \<Rightarrow> int list \<Rightarrow> int list) \<Rightarrow> int \<Rightarrow> range_proof \<Rightarrow> bool" where
  "verify_range_proof g sha commitment q \<longleftrightarrow>
     check_range g sha ''review-sigma-or-bit'' ''review-link-proof'' commitment (rg_threshold q) (rg_bit_proofs q) (rg_link_proof q)"

record review_proof =
  vp_version :: int
  vp_proof_reviews :: range_proof
  vp_proof_avg :: range_proof
  vp_commitment_reviews :: int
  vp_commitment_avg :: int
  vp_min_reviews :: int
  vp_min_avg_scaled :: int

text \<open>The random scalars of one range proof.\<close>

type_synonym range_coins = "int \<times> bit_coins list \<times> int"

definition generate_review_proof ::
  "zk_group \<Rightarrow> (string \<Rightarrow> int list \<Rightarrow> int list) \<Rightarrow> range_coins \<Rightarrow> range_coins \<Rightarrow> ident \<Rightarrow> int \<Rightarrow> rat \<Rightarrow> reviews
    \<Rightarrow> ((int \<times> int) \<times> review_proof) outcome"
where
  "generate_review_proof g sha coins_reviews coins_avg a min_reviews min_avg st =
     (let s = get_rating_summary a st;
          total_reviews = int (rs_total_reviews s);
          (r, cs, k) = coins_reviews;
          (r', cs', k') = coins_avg
      in if total_reviews < min_reviews then Inl (ValueError ''Insufficient reviews'')
         else if rs_avg_overall s < min_avg then Inl (ValueError ''Average rating is below threshold'')
         else let avg_scaled = round_half_even (rs_avg_overall s * 100);
                  min_avg_scaled = round_half_even (min_avg * 100)
              in case (generate_range_proof g sha total_reviews min_reviews NUM_BITS_REVIEWS r cs k,
                       generate_range_proof g sha avg_scaled min_avg_scaled NUM_BITS_AVG r' cs' k') of
                (Some (c, q), Some (c', q')) \<Rightarrow>
                  Inr ((c, c'), \<lparr>vp_version = 1, vp_proof_reviews = q, vp_proof_avg = q', vp_commitment_reviews = c,
                     vp_commitment_avg = c', vp_min_reviews = min_reviews, vp_min_avg_scaled = min_avg_scaled\<rparr>)
              | _ \<Rightarrow> Inl (RuntimeError ''OverflowError''))"

definition verify_review_proof ::
  "zk_group \<Rightarrow> (string \<Rightarrow> int list \<Rightarrow> int list) \<Rightarrow> int \<times> int \<Rightarrow> review_proof option \<Rightarrow> int \<Rightarrow> rat \<Rightarrow> bool"
where
  "verify_review_proof g sha commitment payload min_reviews min_avg =
     (case payload of
        None \<Rightarrow> False
      | Some p \<Rightarrow>
          vp_version p = 1 \<and> vp_min_reviews p = min_reviews
          \<and> vp_min_avg_scaled p = round_half_even (min_avg * 100)
          \<and> (vp_commitment_reviews p, vp_commitment_avg p) = commitment
          \<and> verify_range_proof g sha (vp_commitment_reviews p) (vp_proof_reviews p)
          \<and> verify_range_proof g sha (vp_commitment_avg p) (vp_proof_avg p))"

end
