(* ===== verification/Zk_Life.thy ===== *)
theory Zk_Life
  imports Zk_Proofs
begin

text \<open>
  An honest proof is accepted, for every score, threshold and choice of coins; two accepted answers to
  different challenges give away the opening of a bit commitment, so a verified bit is a bit. The review
  proofs lack two checks of the reputation proofs, and anybody can forge them.
\<close>

section \<open>Powers modulo P\<close>

lemma mod_mult_both: "a mod p = a' mod p \<Longrightarrow> b mod p = b' mod p \<Longrightarrow> (a * b) mod p = (a' * b') mod (p :: int)"
  by (rule mod_mult_cong)

lemma mod_pow_both: "a mod p = a' mod p \<Longrightarrow> a ^ n mod p = a' ^ n mod (p :: int)"
  by (metis power_mod)

definition group_ok :: "zk_group \<Rightarrow> bool" where
  "group_ok g \<longleftrightarrow> 1 < zg_Q g \<and> zg_P g = 2 * zg_Q g + 1 \<and> zg_P g < 256 ^ 256
     \<and> zg_G g ^ nat (zg_Q g) mod zg_P g = 1 \<and> zg_H g ^ nat (zg_Q g) mod zg_P g = 1"

text \<open>The elements of the subgroup of order Q.\<close>

definition in_subgroup :: "zk_group \<Rightarrow> int \<Rightarrow> bool" where
  "in_subgroup g x \<longleftrightarrow> x ^ nat (zg_Q g) mod zg_P g = 1"

lemma group_okD:
  assumes "group_ok g"
  shows "1 < zg_Q g" "zg_P g = 2 * zg_Q g + 1" "zg_P g < 256 ^ 256" "1 < zg_P g" "0 < zg_P g" "0 < zg_Q g"
    "in_subgroup g (zg_G g)" "in_subgroup g (zg_H g)"
  using assms unfolding group_ok_def in_subgroup_def by linarith+

lemmas group_facts = group_okD(1,4-8)

lemma in_subgroup_mult: "in_subgroup g x \<Longrightarrow> in_subgroup g y \<Longrightarrow> 1 < zg_P g \<Longrightarrow> in_subgroup g (x * y)"
  using mod_mult_eq [of "x ^ nat (zg_Q g)" "zg_P g" "y ^ nat (zg_Q g)"] by (simp add: in_subgroup_def power_mult_distrib)

lemma in_subgroup_mod [simp]: "in_subgroup g (x mod zg_P g) = in_subgroup g x"
  by (simp add: in_subgroup_def power_mod)

lemma in_subgroup_power: "in_subgroup g x \<Longrightarrow> 1 < zg_P g \<Longrightarrow> in_subgroup g (x ^ n)"
proof -
  assume "in_subgroup g x" "1 < zg_P g"
  then have "(x ^ nat (zg_Q g)) ^ n mod zg_P g = 1 ^ n mod zg_P g"
    by (intro mod_pow_both) (simp add: in_subgroup_def)
  with \<open>1 < zg_P g\<close> show ?thesis by (simp add: in_subgroup_def mult.commute flip: power_mult)
qed

text \<open>Exponents count modulo Q.\<close>

lemma power_mod_Q:
  assumes "in_subgroup g x" and "1 < zg_P g" and "0 < zg_Q g" and "0 \<le> e"
  shows "x ^ nat (e mod zg_Q g) mod zg_P g = x ^ nat e mod zg_P g"
proof -
  let ?q = "nat (zg_Q g)"
  have e: "nat (e mod zg_Q g) = nat e mod ?q" using assms(3,4) by (simp add: nat_mod_distrib)
  have "x ^ nat e = (x ^ ?q) ^ (nat e div ?q) * x ^ (nat e mod ?q)"
    by (simp flip: power_mult power_add)
  also have "\<dots> mod zg_P g = (1 ^ (nat e div ?q) * x ^ (nat e mod ?q)) mod zg_P g"
    using assms(1,2) by (intro mod_mult_both mod_pow_both) (simp_all add: in_subgroup_def)
  finally show ?thesis by (simp add: e)
qed

lemma power_eq_mod_Q:
  assumes "in_subgroup g x" and "1 < zg_P g" and "0 < zg_Q g" and "0 \<le> e" and "0 \<le> e'"
    and "e mod zg_Q g = e' mod zg_Q g"
  shows "x ^ nat e mod zg_P g = x ^ nat e' mod zg_P g"
  using power_mod_Q [OF assms(1-3), of e] power_mod_Q [OF assms(1-3), of e'] assms(4-6) by simp

lemma power_add_nat: "0 \<le> a \<Longrightarrow> 0 \<le> b \<Longrightarrow> x ^ nat a * x ^ nat b = (x :: int) ^ nat (a + b)"
  by (simp add: nat_add_distrib power_add)

text \<open>\<open>pow(x, P - 2, P)\<close> inverts the elements of the subgroup.\<close>

lemma mod_inv_cancel:
  assumes "group_ok g" and "in_subgroup g x"
  shows "(x * mod_inv x (zg_P g)) mod zg_P g = 1"
proof -
  let ?q = "nat (zg_Q g)"
  have "Suc (nat (zg_P g - 2)) = ?q + ?q" using group_okD [OF assms(1)] by linarith
  then have "x * x ^ nat (zg_P g - 2) = x ^ ?q * x ^ ?q" by (metis power_Suc power_add)
  then have "(x * mod_inv x (zg_P g)) mod zg_P g = (x ^ ?q * x ^ ?q) mod zg_P g"
    by (simp add: mod_inv_def mod_mult_right_eq)
  also have "\<dots> = (1 * 1) mod zg_P g"
    using assms(2) group_okD(4) [OF assms(1)] by (intro mod_mult_both) (simp_all add: in_subgroup_def)
  finally show ?thesis using group_okD(4) [OF assms(1)] by simp
qed

lemma mod_inv_subgroup: "group_ok g \<Longrightarrow> in_subgroup g x \<Longrightarrow> in_subgroup g (mod_inv x (zg_P g))"
  by (simp add: mod_inv_def in_subgroup_power group_facts)

text \<open>An element of the subgroup can be cancelled.\<close>

lemma subgroup_cancel:
  assumes "group_ok g" and "in_subgroup g x" and "(x * a) mod zg_P g = (x * b) mod zg_P g"
  shows "a mod zg_P g = b mod zg_P g"
proof -
  let ?i = "mod_inv x (zg_P g)"
  have one: "(?i * x) mod zg_P g = 1 mod zg_P g"
    using mod_inv_cancel [OF assms(1,2)] group_okD(4) [OF assms(1)] by (simp add: mult.commute)
  have "(?i * (x * a)) mod zg_P g = (?i * (x * b)) mod zg_P g"
    by (rule mod_mult_both [OF refl assms(3)])
  moreover have "(?i * (x * y)) mod zg_P g = y mod zg_P g" for y
    using mod_mult_both [OF one refl [of "y mod zg_P g"]] by (simp add: mult.assoc mod_mult_right_eq)
  ultimately show ?thesis by simp
qed

lemma pedersen_subgroup: "group_ok g \<Longrightarrow> in_subgroup g (pedersen_commit g v r)"
  by (simp add: pedersen_commit_def mod_mult_eq in_subgroup_mult in_subgroup_power group_facts)

lemma pedersen_mod: "pedersen_commit g v r = (zg_G g ^ nat v * zg_H g ^ nat r) mod zg_P g"
  by (simp add: pedersen_commit_def mod_mult_eq)

section \<open>Schnorr proofs\<close>

lemma py_pow_nonneg: "0 \<le> e \<Longrightarrow> py_pow b e m = Some (b ^ nat e mod m)"
  by (simp add: py_pow_def)

lemma schnorr_honest:
  assumes ok: "group_ok g" and t: "t mod zg_P g = zg_H g ^ nat w mod zg_P g" and pos: "0 \<le> k" "0 \<le> c" "0 \<le> w"
    and s: "s = (k + c * w) mod zg_Q g"
  shows "schnorr_holds g t (zg_H g ^ nat k mod zg_P g) c s"
proof -
  let ?p = "zg_P g" and ?h = "zg_H g"
  have "?h ^ nat s mod ?p = ?h ^ nat (k + c * w) mod ?p"
    using pos unfolding s by (intro power_mod_Q) (simp_all add: group_facts [OF ok])
  also have "?h ^ nat (k + c * w) = ?h ^ nat k * (?h ^ nat w) ^ nat c"
    using pos by (simp add: nat_add_distrib nat_mult_distrib power_add mult.commute [of "nat c"] power_mult)
  also have "\<dots> mod ?p = (?h ^ nat k mod ?p * (t ^ nat c mod ?p)) mod ?p"
    by (rule mod_mult_both) (simp_all add: mod_pow_both [OF t])
  finally show ?thesis
    using pos group_facts [OF ok] by (simp add: schnorr_holds_def py_pow_nonneg s)
qed

lemma schnorr_simulated:
  assumes ok: "group_ok g" and t: "in_subgroup g t" and pos: "0 \<le> s" "0 \<le> c" "c \<le> zg_Q g"
  shows "schnorr_holds g t ((zg_H g ^ nat s mod zg_P g) * (t ^ nat (zg_Q g - c) mod zg_P g) mod zg_P g) c s"
proof -
  let ?p = "zg_P g" and ?h = "zg_H g"
  have "((?h ^ nat s mod ?p) * (t ^ nat (zg_Q g - c) mod ?p) mod ?p * (t ^ nat c mod ?p)) mod ?p
      = (?h ^ nat s * t ^ nat (zg_Q g - c) * t ^ nat c) mod ?p"
    by (intro mod_mult_both) (simp_all add: mod_mult_eq)
  also have "?h ^ nat s * t ^ nat (zg_Q g - c) * t ^ nat c = ?h ^ nat s * t ^ nat (zg_Q g)"
    using pos by (simp add: mult.assoc power_add_nat)
  also have "\<dots> mod ?p = (?h ^ nat s * 1) mod ?p"
    using t group_okD(4) [OF ok] by (intro mod_mult_both) (simp_all add: in_subgroup_def)
  finally show ?thesis using pos by (simp add: schnorr_holds_def py_pow_nonneg)
qed

section \<open>Completeness\<close>

lemma to_bytes_group: "group_ok g \<Longrightarrow> to_bytes 256 (x mod zg_P g) \<noteq> None"
  using pos_mod_bound [of "zg_P g" x] pos_mod_sign [of "zg_P g" x] group_okD [of g]
  unfolding to_bytes_def by (metis (no_types, lifting) dual_order.strict_trans option.distinct(1))

lemma fiat_shamir_group:
  assumes "group_ok g" and "list_all (\<lambda>e. e mod zg_P g = e) es"
  shows "\<exists>c. fiat_shamir g sha label es = Some c \<and> 0 \<le> c \<and> c < zg_Q g"
proof -
  have "list_all (\<lambda>e. to_bytes 256 e \<noteq> None) es"
    using assms(2) to_bytes_group [OF assms(1)] unfolding list_all_iff by metis
  then show ?thesis using group_facts [OF assms(1)] by (simp add: fiat_shamir_def)
qed

definition coins_ok :: "zk_group \<Rightarrow> bit_coins \<Rightarrow> bool" where
  "coins_ok g q \<longleftrightarrow> (case q of (r, c_sim, s_sim, k) \<Rightarrow> 0 \<le> r \<and> 0 \<le> c_sim \<and> c_sim < zg_Q g \<and> 0 \<le> s_sim \<and> 0 \<le> k)"

text \<open>The target of the true branch is the power of the second generator.\<close>

lemma bit_targets:
  assumes ok: "group_ok g"
  shows "pedersen_commit g 0 r mod zg_P g = zg_H g ^ nat r mod zg_P g"
    and "(pedersen_commit g 1 r * mod_inv (zg_G g) (zg_P g)) mod zg_P g = zg_H g ^ nat r mod zg_P g"
proof -
  let ?p = "zg_P g"
  show "pedersen_commit g 0 r mod ?p = zg_H g ^ nat r mod ?p" by (simp add: pedersen_mod)
  have "(pedersen_commit g 1 r * mod_inv (zg_G g) ?p) mod ?p = ((zg_G g * zg_H g ^ nat r) * mod_inv (zg_G g) ?p) mod ?p"
    by (simp add: pedersen_mod mod_mult_left_eq)
  also have "(zg_G g * zg_H g ^ nat r) * mod_inv (zg_G g) ?p = (zg_G g * mod_inv (zg_G g) ?p) * zg_H g ^ nat r"
    by simp
  also have "\<dots> mod ?p = (1 * zg_H g ^ nat r) mod ?p"
    using mod_inv_cancel [OF ok group_okD(7) [OF ok]] group_okD(4) [OF ok] by (intro mod_mult_both) simp_all
  finally show "(pedersen_commit g 1 r * mod_inv (zg_G g) ?p) mod ?p = zg_H g ^ nat r mod ?p" by simp
qed

lemma sigma_or_complete:
  assumes ok: "group_ok g" and b: "b = 0 \<or> b = 1" and coins: "coins_ok g (r, coins)"
  shows "\<exists>p. sigma_or_prove g sha label b r (pedersen_commit g b r) coins = Some p
    \<and> sp_D p = pedersen_commit g b r \<and> sigma_or_verify g sha label p"
proof -
  let ?p = "zg_P g" and ?d = "pedersen_commit g b r"
  obtain c_sim s_sim k where cs: "coins = (c_sim, s_sim, k)" by (cases coins)
  have rng: "0 \<le> r" "0 \<le> c_sim" "c_sim < zg_Q g" "0 \<le> s_sim" "0 \<le> k"
    using coins by (simp_all add: coins_ok_def cs)
  let ?t0 = "?d mod ?p" and ?t1 = "?d * mod_inv (zg_G g) ?p mod ?p"
  let ?ts = "if b = 0 then ?t1 else ?t0"
  let ?as = "(zg_H g ^ nat s_sim mod ?p) * (?ts ^ nat (zg_Q g - c_sim) mod ?p) mod ?p"
  let ?ar = "zg_H g ^ nat k mod ?p"
  let ?a0 = "if b = 0 then ?ar else ?as" and ?a1 = "if b = 0 then ?as else ?ar"
  have "list_all (\<lambda>e. e mod ?p = e) [?d, ?a0, ?a1]" by (cases "b = 0") (simp_all add: pedersen_mod)
  then obtain c where c: "fiat_shamir g sha label [?d, ?a0, ?a1] = Some c" "0 \<le> c" "c < zg_Q g"
    using fiat_shamir_group [OF ok, of "[?d, ?a0, ?a1]" sha label] by blast
  let ?cr = "(c - c_sim) mod zg_Q g"
  let ?sr = "(k + ?cr * r) mod zg_Q g"
  have sim: "schnorr_holds g ?ts ?as c_sim s_sim"
    using ok rng by (intro schnorr_simulated)
      (auto simp: pedersen_subgroup in_subgroup_mult mod_inv_subgroup group_facts)
  have true: "schnorr_holds g (if b = 0 then ?t0 else ?t1) ?ar ?cr ?sr"
    using ok rng b bit_targets [OF ok, of r] by (intro schnorr_honest [OF ok _ rng(5) _ rng(1)]) (auto simp: group_facts)
  have sum: "(?cr + c_sim) mod zg_Q g = c" "(c_sim + ?cr) mod zg_Q g = c"
    using c(2,3) by (simp_all add: mod_add_left_eq mod_add_right_eq)
  let ?pr = "if b = 0
      then \<lparr>sp_D = ?d, sp_A0 = ?a0, sp_A1 = ?a1, sp_c0 = ?cr, sp_c1 = c_sim, sp_s0 = ?sr, sp_s1 = s_sim\<rparr>
      else \<lparr>sp_D = ?d, sp_A0 = ?a0, sp_A1 = ?a1, sp_c0 = c_sim, sp_c1 = ?cr, sp_s0 = s_sim, sp_s1 = ?sr\<rparr>"
  have "sigma_or_prove g sha label b r ?d coins = Some ?pr"
    unfolding sigma_or_prove_def cs Let_def prod.case c(1) option.case by (rule refl)
  moreover have "sigma_or_verify g sha label ?pr"
    using c(1) sum sim true by (cases "b = 0") (simp_all add: sigma_or_verify_def)
  ultimately show ?thesis by (intro exI [of _ ?pr]) simp
qed

text \<open>A list of digits with weights from \<open>2 ^ j\<close> on.\<close>

fun weigh :: "nat \<Rightarrow> int list \<Rightarrow> int" where
  "weigh j [] = 0"
| "weigh j (x # xs) = x * 2 ^ j + weigh (Suc j) xs"

lemma weigh_nonneg: "list_all ((\<le>) 0) xs \<Longrightarrow> 0 \<le> weigh j xs"
  by (induction xs arbitrary: j) simp_all

lemma weigh_bits: "weigh j (map (\<lambda>i. (v div 2 ^ i) mod 2) [j..<j + n]) = (v div 2 ^ j mod 2 ^ n) * 2 ^ j"
proof (induction n arbitrary: j)
  case 0
  then show ?case by simp
next
  case (Suc n)
  have split: "(v div 2 ^ j) mod 2 ^ Suc n = 2 * ((v div 2 ^ Suc j) mod 2 ^ n) + v div 2 ^ j mod 2"
  proof -
    have "v div 2 ^ Suc j = v div 2 ^ j div 2" by (simp only: power_Suc2 zdiv_zmult2_eq)
    then show ?thesis using zmod_zmult2_eq [of "2 ^ n" "v div 2 ^ j" 2] by (simp only: power_Suc zero_le_numeral zero_le_power)
  qed
  have "[j..<j + Suc n] = j # [Suc j..<Suc j + n]" by (simp add: upt_conv_Cons)
  then have "weigh j (map (\<lambda>i. (v div 2 ^ i) mod 2) [j..<j + Suc n])
      = (v div 2 ^ j mod 2) * 2 ^ j + (v div 2 ^ Suc j mod 2 ^ n) * 2 ^ Suc j"
    using Suc.IH [of "Suc j"] by (simp only: list.map weigh.simps add_Suc add_Suc_right)
  then show ?case by (simp only: split) (simp add: algebra_simps)
qed

lemma weigh_bits_of: "weigh 0 (bits_of v n) = v mod 2 ^ n"
  using weigh_bits [of 0 v n] by (simp add: bits_of_def)

lemma bits_of_bits: "b \<in> set (bits_of v n) \<Longrightarrow> b = 0 \<or> b = 1"
  by (auto simp: bits_of_def)

lemma link_blinding_weigh:
  "link_blinding g rs mod zg_Q g = weigh 0 rs mod zg_Q g"
proof -
  have "sum_list (map (\<lambda>(i, r). (r * (2 ^ i mod zg_Q g)) mod zg_Q g) (enumerate j rs)) mod zg_Q g = weigh j rs mod zg_Q g" for j
  proof (induction rs arbitrary: j)
    case Nil
    then show ?case by simp
  next
    case (Cons r rs)
    have "(r * (2 ^ j mod zg_Q g) mod zg_Q g) mod zg_Q g = (r * 2 ^ j) mod zg_Q g" by (simp add: mod_mult_right_eq)
    from mod_add_cong [OF this Cons.IH [of "Suc j"]] show ?case by simp
  qed
  then show ?thesis by (simp add: link_blinding_def)
qed

text \<open>The weighted product of the bit commitments commits to the weighted sums.\<close>

lemma aggregate_step:
  "(pedersen_commit g b r ^ (2 ^ j)) mod zg_P g
    = (zg_G g ^ nat (b * 2 ^ j) * zg_H g ^ nat (r * 2 ^ j)) mod zg_P g" if "0 \<le> b" "0 \<le> r"
proof -
  have "(pedersen_commit g b r ^ (2 ^ j)) mod zg_P g = ((zg_G g ^ nat b * zg_H g ^ nat r) ^ (2 ^ j)) mod zg_P g"
    by (simp add: pedersen_mod power_mod)
  also have "(zg_G g ^ nat b * zg_H g ^ nat r) ^ (2 ^ j) = zg_G g ^ nat (b * 2 ^ j) * zg_H g ^ nat (r * 2 ^ j)"
    using that by (simp add: power_mult_distrib nat_mult_distrib nat_power_eq power_mult)
  finally show ?thesis .
qed

lemma aggregate_fold:
  assumes "map sp_D ps = map2 (pedersen_commit g) bs rs" and "length rs = length bs"
    and "list_all ((\<le>) 0) bs" and "list_all ((\<le>) 0) rs"
  shows "foldl (\<lambda>a (i, p). a * (sp_D p ^ (2 ^ i) mod zg_P g) mod zg_P g) acc (enumerate j ps) mod zg_P g
    = (acc * (zg_G g ^ nat (weigh j bs) * zg_H g ^ nat (weigh j rs))) mod zg_P g"
  using assms
proof (induction bs arbitrary: rs ps acc j)
  case Nil
  then show ?case by simp
next
  case (Cons b bs)
  obtain r rs' where rs: "rs = r # rs'" using Cons.prems(2) by (cases rs) simp_all
  obtain p ps' where ps: "ps = p # ps'" "sp_D p = pedersen_commit g b r" "map sp_D ps' = map2 (pedersen_commit g) bs rs'"
    using Cons.prems(1) by (cases ps) (simp_all add: rs)
  have pos: "0 \<le> b" "0 \<le> r" "list_all ((\<le>) 0) bs" "list_all ((\<le>) 0) rs'" using Cons.prems(3,4) by (simp_all add: rs)
  let ?acc = "acc * (sp_D p ^ (2 ^ j) mod zg_P g) mod zg_P g"
  let ?x = "zg_G g ^ nat (b * 2 ^ j) * zg_H g ^ nat (r * 2 ^ j)"
  let ?y = "zg_G g ^ nat (weigh (Suc j) bs) * zg_H g ^ nat (weigh (Suc j) rs')"
  have "foldl (\<lambda>a (i, p). a * (sp_D p ^ (2 ^ i) mod zg_P g) mod zg_P g) ?acc (enumerate (Suc j) ps') mod zg_P g
      = (?acc * ?y) mod zg_P g"
    using Cons.prems(2) pos ps(3) by (intro Cons.IH) (simp_all add: rs)
  also have "\<dots> = (acc * ?x * ?y) mod zg_P g"
  proof (rule mod_mult_both)
    show "?acc mod zg_P g = (acc * ?x) mod zg_P g"
      using aggregate_step [OF pos(1,2), of g j] mod_mult_both [of acc "zg_P g" acc "sp_D p ^ (2 ^ j)" ?x]
      by (simp add: ps(2) mod_mult_right_eq)
  qed simp
  also have "acc * ?x * ?y = acc * (zg_G g ^ nat (weigh j (b # bs)) * zg_H g ^ nat (weigh j rs))"
    using pos weigh_nonneg [of bs "Suc j"] weigh_nonneg [of rs' "Suc j"]
    by (simp add: rs nat_add_distrib power_add mult.assoc mult.left_commute)
  finally show ?case by (simp add: ps(1))
qed

lemma prove_bits_complete:
  assumes ok: "group_ok g" and "\<And>b. b \<in> set bs \<Longrightarrow> b = 0 \<or> b = 1" and "length coins = length bs" and "list_all (coins_ok g) coins"
  shows "\<exists>ps. prove_bits g sha label bs coins = Some ps \<and> length ps = length bs
    \<and> map sp_D ps = map2 (pedersen_commit g) bs (map fst coins) \<and> list_all (sigma_or_verify g sha label) ps"
  using assms(2-4)
proof (induction bs arbitrary: coins)
  case Nil
  then show ?case by simp
next
  case (Cons b bs)
  obtain r cs q where coins: "coins = (r, cs) # q" using Cons.prems(2) by (cases coins) auto
  obtain p where "sigma_or_prove g sha label b r (pedersen_commit g b r) cs = Some p"
    "sp_D p = pedersen_commit g b r" "sigma_or_verify g sha label p"
    using sigma_or_complete [OF ok, of b r cs sha label] Cons.prems(1) [of b] Cons.prems(3) by (auto simp: coins)
  moreover obtain ps where "prove_bits g sha label bs q = Some ps" "length ps = length bs"
    "map sp_D ps = map2 (pedersen_commit g) bs (map fst q)" "list_all (sigma_or_verify g sha label) ps"
    using Cons.IH [of q] Cons.prems by (auto simp: coins)
  ultimately show ?case by (simp add: coins)
qed

text \<open>What the verifier computes for the link: off by the part of the difference that the bits do not show.\<close>

lemma range_target:
  assumes ok: "group_ok g" and v: "0 \<le> delta" "0 \<le> threshold" and r: "0 \<le> r" "0 \<le> k"
    and coins: "length coins = n" "list_all (coins_ok g) coins"
  obtains ps l where "prove_range g sha bl ll r delta n coins k = Some (ps, l)" and "length ps = n"
    and "list_all (sigma_or_verify g sha bl) ps" and "linking_verify g sha ll l"
    and "lp_T l mod zg_P g = lp_T l" and "in_subgroup g (lp_T l)"
    and "expected_target g (pedersen_commit g (threshold + delta) r) threshold ps
      = Some ((zg_G g ^ nat (delta - delta mod 2 ^ n) * lp_T l) mod zg_P g)"
proof -
  let ?p = "zg_P g" and ?G = "zg_G g" and ?H = "zg_H g"
  let ?rs = "map fst coins" and ?bs = "bits_of delta n"
  note pos = group_facts [OF ok]
  obtain ps where ps: "prove_bits g sha bl ?bs coins = Some ps" "length ps = length ?bs"
    "map sp_D ps = map2 (pedersen_commit g) ?bs ?rs" "list_all (sigma_or_verify g sha bl) ps"
    using prove_bits_complete [OF ok, of ?bs coins sha bl] coins bits_of_bits by (auto simp: bits_of_def)
  have nonneg: "list_all ((\<le>) 0) ?bs" "list_all ((\<le>) 0) ?rs"
    using coins(2) by (auto simp: list_all_iff coins_ok_def bits_of_def)
  let ?lo = "delta mod 2 ^ n" and ?hi = "delta - delta mod 2 ^ n"
  have sums: "weigh 0 ?bs = ?lo" "0 \<le> weigh 0 ?rs"
    using weigh_nonneg [OF nonneg(2)] by (simp_all add: weigh_bits_of)
  have parts: "0 \<le> ?lo" "0 \<le> ?hi" using v by (simp_all add: zmod_le_nonneg_dividend)
  define rd where "rd = (r - link_blinding g ?rs) mod zg_Q g"
  let ?T = "?H ^ nat rd mod ?p"
  have rd: "0 \<le> rd" using pos by (simp add: rd_def)
  have agg: "aggregate g ps mod ?p = (?G ^ nat ?lo * ?H ^ nat (weigh 0 ?rs)) mod ?p"
    using aggregate_fold [OF ps(3) _ nonneg, of 1 0] coins(1) ps(2)
    by (simp add: aggregate_def sums(1) bits_of_def [THEN arg_cong [where f = length]])
  have sub: "in_subgroup g (aggregate g ps)" "in_subgroup g (?G ^ nat threshold)"
  proof -
    have "in_subgroup g (aggregate g ps mod ?p)"
      unfolding agg in_subgroup_mod by (intro in_subgroup_mult in_subgroup_power) (simp_all add: pos)
    then show "in_subgroup g (aggregate g ps)" by simp
  qed (simp add: in_subgroup_power pos)
  obtain c where c: "fiat_shamir g sha ll [?T, ?H ^ nat k mod ?p] = Some c" "0 \<le> c"
    using fiat_shamir_group [OF ok, of "[?T, ?H ^ nat k mod ?p]" sha ll] by auto
  define l where "l = \<lparr>lp_T = ?T, lp_A = ?H ^ nat k mod ?p, lp_s = (k + c * rd) mod zg_Q g\<rparr>"
  have proved: "prove_range g sha bl ll r delta n coins k = Some (ps, l)"
    using ps(1) c(1) coins(1) by (simp add: prove_range_def linking_prove_def Let_def l_def rd_def)
  have linked: "linking_verify g sha ll l"
    using schnorr_honest [OF ok, of ?T rd k c "(k + c * rd) mod zg_Q g"] c r(2) rd by (simp add: linking_verify_def l_def)
  have "(?G ^ nat ?hi * ?T * (?G ^ nat threshold * aggregate g ps)) mod ?p = pedersen_commit g (threshold + delta) r mod ?p"
  proof -
    have "(?G ^ nat ?hi * ?T * (?G ^ nat threshold * aggregate g ps)) mod ?p
        = (?G ^ nat ?hi * ?H ^ nat rd * (?G ^ nat threshold * (?G ^ nat ?lo * ?H ^ nat (weigh 0 ?rs)))) mod ?p"
      by (intro mod_mult_both agg) simp_all
    also have "?G ^ nat ?hi * ?H ^ nat rd * (?G ^ nat threshold * (?G ^ nat ?lo * ?H ^ nat (weigh 0 ?rs)))
        = ?G ^ nat (?hi + (threshold + ?lo)) * ?H ^ nat (rd + weigh 0 ?rs)"
      unfolding nat_add_distrib [OF parts(2) add_nonneg_nonneg [OF v(2) parts(1)]] nat_add_distrib [OF v(2) parts(1)]
        nat_add_distrib [OF rd sums(2)] power_add by (simp only: mult_ac)
    also have "?hi + (threshold + ?lo) = threshold + delta" by simp
    also have "(?G ^ nat (threshold + delta) * ?H ^ nat (rd + weigh 0 ?rs)) mod ?p = (?G ^ nat (threshold + delta) * ?H ^ nat r) mod ?p"
    proof (rule mod_mult_both [OF refl])
      have "(rd + weigh 0 ?rs) mod zg_Q g = (r - link_blinding g ?rs + link_blinding g ?rs) mod zg_Q g"
        unfolding rd_def by (intro mod_add_cong) (simp_all add: link_blinding_weigh)
      then show "?H ^ nat (rd + weigh 0 ?rs) mod ?p = ?H ^ nat r mod ?p"
        using rd sums(2) r(1) by (intro power_eq_mod_Q) (simp_all add: pos)
    qed
    finally show ?thesis by (simp add: pedersen_mod)
  qed
  note C = this
  let ?gt = "?G ^ nat threshold mod ?p"
  let ?U = "pedersen_commit g (threshold + delta) r * mod_inv ?gt ?p mod ?p * mod_inv (aggregate g ps) ?p mod ?p"
  have "?U = (?G ^ nat ?hi * ?T) mod ?p"
  proof -
    let ?X = "?gt * mod_inv ?gt ?p" and ?Y = "aggregate g ps * mod_inv (aggregate g ps) ?p"
    have one: "?X mod ?p = 1 mod ?p" "?Y mod ?p = 1 mod ?p"
      using mod_inv_cancel [OF ok sub(1)] mod_inv_cancel [OF ok, of ?gt] sub(2) pos by simp_all
    have "?U = ((?G ^ nat ?hi * ?T * (?G ^ nat threshold * aggregate g ps)) * (mod_inv ?gt ?p * mod_inv (aggregate g ps) ?p)) mod ?p"
      using mod_mult_both [OF C [symmetric] refl [of "(mod_inv ?gt ?p * mod_inv (aggregate g ps) ?p) mod ?p"]]
      by (simp add: mod_mult_left_eq mult.assoc)
    also have "\<dots> = ((?G ^ nat ?hi * ?T * (?gt * aggregate g ps)) * (mod_inv ?gt ?p * mod_inv (aggregate g ps) ?p)) mod ?p"
      by (intro mod_mult_both) simp_all
    also have "(?G ^ nat ?hi * ?T * (?gt * aggregate g ps)) * (mod_inv ?gt ?p * mod_inv (aggregate g ps) ?p) = ?G ^ nat ?hi * ?T * (?X * ?Y)"
      by (simp add: mult_ac)
    also have "\<dots> mod ?p = (?G ^ nat ?hi * ?T * (1 * 1)) mod ?p"
      by (intro mod_mult_both one refl)
    finally show ?thesis by simp
  qed
  then have "expected_target g (pedersen_commit g (threshold + delta) r) threshold ps = Some ((?G ^ nat ?hi * lp_T l) mod ?p)"
    using v(2) by (simp add: expected_target_def py_pow_nonneg l_def)
  moreover have "in_subgroup g (lp_T l)" by (simp add: l_def in_subgroup_power pos)
  ultimately show ?thesis using proved linked ps by (intro that [of ps l]) (simp_all add: l_def bits_of_def)
qed

lemma range_complete:
  assumes "group_ok g" and "0 \<le> delta" "delta < 2 ^ n" "0 \<le> threshold" and "0 \<le> r" "0 \<le> k"
    and "length coins = n" "list_all (coins_ok g) coins"
  shows "\<exists>ps l. prove_range g sha bl ll r delta n coins k = Some (ps, l) \<and> length ps = n
    \<and> check_range g sha bl ll (pedersen_commit g (threshold + delta) r) threshold ps l"
proof -
  obtain ps l where run: "prove_range g sha bl ll r delta n coins k = Some (ps, l)" "length ps = n"
    "list_all (sigma_or_verify g sha bl) ps" "linking_verify g sha ll l" "lp_T l mod zg_P g = lp_T l"
    "expected_target g (pedersen_commit g (threshold + delta) r) threshold ps
      = Some ((zg_G g ^ nat (delta - delta mod 2 ^ n) * lp_T l) mod zg_P g)"
    by (rule range_target [OF assms(1,2,4-8), of sha bl ll])
  have "delta - delta mod 2 ^ n = 0" using assms(2,3) by simp
  with run show ?thesis by (auto simp: check_range_def)
qed

text \<open>A difference with more bits than the proof has is refused.\<close>

lemma range_overflow:
  assumes "group_ok g" and "0 \<le> delta" "0 \<le> threshold" and "0 \<le> r" "0 \<le> k"
    and "length coins = n" "list_all (coins_ok g) coins"
    and order: "zg_G g ^ nat (delta - delta mod 2 ^ n) mod zg_P g \<noteq> 1"
  shows "\<exists>ps l. prove_range g sha bl ll r delta n coins k = Some (ps, l)
    \<and> \<not> check_range g sha bl ll (pedersen_commit g (threshold + delta) r) threshold ps l"
proof -
  obtain ps l where run: "prove_range g sha bl ll r delta n coins k = Some (ps, l)"
    "lp_T l mod zg_P g = lp_T l" "in_subgroup g (lp_T l)"
    "expected_target g (pedersen_commit g (threshold + delta) r) threshold ps
      = Some ((zg_G g ^ nat (delta - delta mod 2 ^ n) * lp_T l) mod zg_P g)"
    by (rule range_target [OF assms(1-7), of sha bl ll])
  have "(zg_G g ^ nat (delta - delta mod 2 ^ n) * lp_T l) mod zg_P g \<noteq> lp_T l"
  proof
    assume "(zg_G g ^ nat (delta - delta mod 2 ^ n) * lp_T l) mod zg_P g = lp_T l"
    then have "(lp_T l * zg_G g ^ nat (delta - delta mod 2 ^ n)) mod zg_P g = (lp_T l * 1) mod zg_P g"
      using run(2) by (simp add: mult.commute)
    from subgroup_cancel [OF assms(1) run(3) this] order group_okD(4) [OF assms(1)] show False by simp
  qed
  with run show ?thesis by (auto simp: check_range_def)
qed

section \<open>Soundness of a bit\<close>

declare egcd.simps [simp del]

lemma egcd_bezout: "egcd a b = (d, x, y) \<Longrightarrow> a * x + b * y = d"
proof (induction a b arbitrary: d x y rule: egcd.induct)
  case (1 a b)
  show ?case
  proof (cases "b \<le> 0")
    case True
    with "1.prems" show ?thesis by (simp add: egcd.simps [of a b])
  next
    case False
    obtain d' x' y' where rec: "egcd b (a mod b) = (d', x', y')" by (rule prod_cases3)
    have "b * x' + (a mod b) * y' = d'" by (rule "1.IH" [OF False rec])
    moreover have mod: "a mod b = a - b * (a div b)" by (simp add: minus_mult_div_eq_mod)
    moreover have out: "d = d'" "x = y'" "y = x' - a div b * y'"
      using "1.prems" False rec by (auto simp: egcd.simps [of a b])
    ultimately show ?thesis unfolding out mod by (simp only: algebra_simps)
  qed
qed

lemma mod_inverse_cancel: "mod_inverse b m = Some i \<Longrightarrow> (b * i) mod m = 1 mod m"
proof -
  assume inv: "mod_inverse b m = Some i"
  obtain d x y where e: "egcd (b mod m) m = (d, x, y)" by (rule prod_cases3)
  then have "d = 1" "i = x mod m" using inv by (simp_all add: mod_inverse_def split: if_splits)
  then have "b mod m * x = 1 - m * y" using egcd_bezout [OF e] by linarith
  then have "(b mod m * x) mod m = (1 - m * y) mod m" by simp
  also have "\<dots> = 1 mod m" by (metis mod_mult_self2 add.commute diff_add_cancel mult.commute)
  finally show ?thesis by (simp add: \<open>i = x mod m\<close> mod_mult_left_eq mod_mult_right_eq)
qed

text \<open>In the subgroup a power with any exponent is the power with its residue.\<close>

lemma py_pow_subgroup:
  assumes ok: "group_ok g" and b: "in_subgroup g b" and p: "py_pow b e (zg_P g) = Some x"
  shows "x mod zg_P g = b ^ nat (e mod zg_Q g) mod zg_P g"
proof (cases "0 \<le> e")
  case True
  with p show ?thesis by (auto simp: py_pow_nonneg power_mod_Q [OF b] group_facts [OF ok])
next
  case False
  then obtain i where i: "mod_inverse b (zg_P g) = Some i" "x = i ^ nat (- e) mod zg_P g"
    using p by (auto simp: py_pow_def)
  let ?n = "nat (- e)"
  have "(b ^ ?n * i ^ ?n) mod zg_P g = 1 ^ ?n mod zg_P g"
    using mod_pow_both [OF mod_inverse_cancel [OF i(1)], of ?n] by (simp add: power_mult_distrib)
  moreover have "(b ^ ?n * b ^ nat (e mod zg_Q g)) mod zg_P g = b ^ nat 0 mod zg_P g"
  proof -
    have "b ^ ?n * b ^ nat (e mod zg_Q g) = b ^ nat (- e + e mod zg_Q g)"
      using False group_facts [OF ok] by (intro power_add_nat) simp_all
    moreover have "(- e + e mod zg_Q g) mod zg_Q g = 0 mod zg_Q g"
      using mod_add_right_eq [of "- e" e "zg_Q g"] by simp
    moreover have "0 \<le> - e + e mod zg_Q g" using False pos_mod_sign [of "zg_Q g" e] group_facts [OF ok] by linarith
    ultimately show ?thesis
      using power_eq_mod_Q [OF b group_facts(2) [OF ok] group_facts(4) [OF ok], of "- e + e mod zg_Q g" 0] by simp
  qed
  ultimately have "(b ^ ?n * i ^ ?n) mod zg_P g = (b ^ ?n * b ^ nat (e mod zg_Q g)) mod zg_P g" by simp
  from subgroup_cancel [OF ok in_subgroup_power [OF b group_facts(2) [OF ok]] this] show ?thesis by (simp add: i(2))
qed

lemma schnorr_extract:
  assumes ok: "group_ok g" and t: "in_subgroup g t" and two: "schnorr_holds g t a c s" "schnorr_holds g t a c' s'"
  shows "t ^ nat ((c - c') mod zg_Q g) mod zg_P g = zg_H g ^ nat ((s - s') mod zg_Q g) mod zg_P g"
proof -
  let ?p = "zg_P g" and ?q = "zg_Q g" and ?h = "zg_H g"
  note pos = group_facts [OF ok]
  have power: "?h ^ nat (x mod ?q) mod ?p = (a * t ^ nat (y mod ?q)) mod ?p" if holds: "schnorr_holds g t a y x" for x y
  proof -
    obtain lhs tc where v: "py_pow ?h x ?p = Some lhs" "py_pow t y ?p = Some tc" "lhs = a * tc mod ?p"
      using holds by (auto simp: schnorr_holds_def split: option.splits)
    have "lhs mod ?p = (a * t ^ nat (y mod ?q)) mod ?p"
      unfolding v(3) mod_mod_trivial by (rule mod_mult_both [OF refl py_pow_subgroup [OF ok t v(2)]])
    then show ?thesis using py_pow_subgroup [OF ok pos(6) v(1)] by simp
  qed
  let ?c = "nat (c mod ?q)" and ?c' = "nat (c' mod ?q)" and ?s = "nat (s mod ?q)" and ?s' = "nat (s' mod ?q)"
  have cross: "(?h ^ ?s * t ^ ?c') mod ?p = (?h ^ ?s' * t ^ ?c) mod ?p"
  proof -
    have "(?h ^ ?s * t ^ ?c') mod ?p = (a * t ^ ?c * t ^ ?c') mod ?p" by (rule mod_mult_both [OF power [OF two(1)] refl])
    also have "a * t ^ ?c * t ^ ?c' = a * t ^ ?c' * t ^ ?c" by simp
    also have "\<dots> mod ?p = (?h ^ ?s' * t ^ ?c) mod ?p" by (rule mod_mult_both [OF power [OF two(2), symmetric] refl])
    finally show ?thesis .
  qed
  have shift: "(x ^ nat ((y - y') mod ?q) * x ^ nat (y' mod ?q)) mod ?p = x ^ nat (y mod ?q) mod ?p" if "in_subgroup g x" for x y y'
  proof -
    have "x ^ nat ((y - y') mod ?q) * x ^ nat (y' mod ?q) = x ^ nat ((y - y') mod ?q + y' mod ?q)"
      by (intro power_add_nat) (simp_all add: pos)
    moreover have "((y - y') mod ?q + y' mod ?q) mod ?q = (y mod ?q) mod ?q" by (simp add: mod_add_eq)
    ultimately show ?thesis using power_eq_mod_Q [OF that pos(2,4)] pos by simp
  qed
  have "((?h ^ ?s' * t ^ ?c') * t ^ nat ((c - c') mod ?q)) mod ?p = (?h ^ ?s' * (t ^ nat ((c - c') mod ?q) * t ^ ?c')) mod ?p"
    by (simp add: mult_ac)
  also have "\<dots> = (?h ^ ?s' * t ^ ?c) mod ?p" by (rule mod_mult_both [OF refl shift [OF t]])
  also have "\<dots> = (?h ^ ?s * t ^ ?c') mod ?p" by (rule cross [symmetric])
  also have "\<dots> = (?h ^ nat ((s - s') mod ?q) * ?h ^ ?s' * t ^ ?c') mod ?p"
    by (rule mod_mult_both [OF shift [OF pos(6), symmetric] refl])
  also have "?h ^ nat ((s - s') mod ?q) * ?h ^ ?s' * t ^ ?c' = (?h ^ ?s' * t ^ ?c') * ?h ^ nat ((s - s') mod ?q)"
    by (simp add: mult_ac)
  finally have eq: "((?h ^ ?s' * t ^ ?c') * t ^ nat ((c - c') mod ?q)) mod ?p
      = ((?h ^ ?s' * t ^ ?c') * ?h ^ nat ((s - s') mod ?q)) mod ?p" .
  have "in_subgroup g (?h ^ ?s' * t ^ ?c')"
    by (rule in_subgroup_mult [OF in_subgroup_power [OF pos(6) pos(2)] in_subgroup_power [OF t pos(2)] pos(2)])
  from subgroup_cancel [OF ok this eq] show ?thesis .
qed

lemma schnorr_opens:
  assumes ok: "group_ok g" and t: "in_subgroup g t" and two: "schnorr_holds g t a c s" "schnorr_holds g t a c' s'"
    and u: "0 \<le> u" "((c - c') * u) mod zg_Q g = 1"
  shows "\<exists>w \<ge> 0. t mod zg_P g = zg_H g ^ nat w mod zg_P g"
proof -
  let ?q = "zg_Q g" and ?x = "(c - c') mod zg_Q g" and ?y = "(s - s') mod zg_Q g"
  note pos = group_facts [OF ok]
  have pow: "b ^ nat (e * u) = (b ^ nat e) ^ nat u" if "0 \<le> e" for b :: int and e
    using that u(1) by (simp add: nat_mult_distrib power_mult)
  have "(?x * u) mod ?q = 1 mod ?q" using u(2) pos by (simp add: mod_mult_left_eq)
  then have "t ^ nat 1 mod zg_P g = t ^ nat (?x * u) mod zg_P g"
    using u(1) pos by (intro power_eq_mod_Q [OF t]) simp_all
  also have "\<dots> = zg_H g ^ nat (?y * u) mod zg_P g"
  proof -
    have "0 \<le> ?x" "0 \<le> ?y" using pos by simp_all
    then show ?thesis
      using mod_pow_both [OF schnorr_extract [OF ok t two], of "nat u"] by (simp only: pow)
  qed
  finally have "t mod zg_P g = zg_H g ^ nat (?y * u) mod zg_P g" by simp
  moreover have "0 \<le> ?y * u" using u(1) pos by simp
  ultimately show ?thesis by blast
qed

section \<open>Properties\<close>

text \<open>A group of 23 elements with subgroup of order 11, and a hash that counts.\<close>

definition demo_group :: zk_group where
  "demo_group = \<lparr>zg_P = 23, zg_Q = 11, zg_G = 2, zg_H = 3\<rparr>"

definition demo_sha :: "string \<Rightarrow> int list \<Rightarrow> int list" where
  "demo_sha label bs = [int (length label) + sum_list bs]"

definition demo_coins :: "bit_coins list" where
  "demo_coins = map (\<lambda>i. (int i + 1, 2, 3, int i + 4)) [0..<7]"

lemma demo_group_ok: "group_ok demo_group"
proof -
  have "(23 :: int) < 256 ^ 1" by simp
  also have "\<dots> \<le> 256 ^ 256" by (rule power_increasing) simp_all
  finally show ?thesis by (simp add: group_ok_def demo_group_def)
qed

lemma demo_coins_ok: "length demo_coins = 7" "list_all (coins_ok demo_group) demo_coins"
  by (simp_all add: demo_coins_def coins_ok_def demo_group_def list_all_iff)

definition demo_reputation :: agent_reputation where
  "demo_reputation = \<lparr>rep_trust_score = 80, rep_total_transactions = 0, rep_calculated_at = 0\<rparr>"

text \<open>C28. An agent's reputation proof is accepted: for any trust score up to 100, any threshold up to the score
  and any coins, the endpoint answers with a commitment and a proof that verify together for that threshold,
  and it keeps a commitment that opens to the score, whether it had one, a stale one or none.\<close>

theorem reputation_proof_accepted:
  assumes "group_ok g" and "rep_trust_score rep \<le> 100" and "0 \<le> threshold" and "threshold \<le> rep_trust_score rep"
    and "0 \<le> r" and "0 \<le> k" and "case stored of None \<Rightarrow> True | Some (c, b) \<Rightarrow> 0 \<le> b"
    and "length coins = 7" and "list_all (coins_ok g) coins"
    and "generate_reputation_proof g sha r coins k threshold (Some rep) stored = (kept, answer)"
  shows "\<exists>commitment blinding p. answer = Inr (commitment, p) \<and> kept = Some (commitment, blinding)
    \<and> verify_commitment g commitment (rep_trust_score rep) blinding
    \<and> verify_proof g sha commitment (Some p) threshold"
proof -
  let ?score = "rep_trust_score rep"
  have score: "0 \<le> ?score" "?score \<le> 100" using assms(2-4) by linarith+
  have "\<exists>b. refresh_commitment g ?score r stored = Inr (pedersen_commit g ?score b, b) \<and> 0 \<le> b"
    using score assms(5,7) by (auto simp: refresh_commitment_def create_commitment_def verify_commitment_def split: option.splits)
  then obtain b where b: "refresh_commitment g ?score r stored = Inr (pedersen_commit g ?score b, b)" "0 \<le> b" by blast
  have delta: "0 \<le> ?score - threshold" "?score - threshold < 2 ^ NUM_BITS" using assms(3,4) score by (simp_all add: NUM_BITS_def)
  obtain ps l where shown: "prove_range g sha ''sigma-or-bit'' ''link-proof'' b (?score - threshold) NUM_BITS coins k = Some (ps, l)"
    "length ps = NUM_BITS" "check_range g sha ''sigma-or-bit'' ''link-proof'' (pedersen_commit g ?score b) threshold ps l"
    using range_complete [OF assms(1) delta assms(3) b(2) assms(6) _ assms(9), of sha "''sigma-or-bit''" "''link-proof''"] assms(8)
    by (auto simp: NUM_BITS_def)
  have "generate_proof g sha ?score b threshold coins k = Inr \<lparr>zp_version = 2, zp_commitment = pedersen_commit g ?score b,
      zp_threshold = threshold, zp_bit_proofs = ps, zp_link_proof = l\<rparr>"
    using score assms(3,4) shown(1) by (simp add: generate_proof_def)
  then show ?thesis
    using assms(10) b(1) shown by (auto simp: generate_reputation_proof_def verify_proof_def verify_commitment_def)
qed

theorem reputation_proof_accepted_witness:
  "\<exists>commitment blinding p. snd (generate_reputation_proof demo_group demo_sha 9 demo_coins 5 60 (Some demo_reputation) None)
      = Inr (commitment, p) \<and> fst (generate_reputation_proof demo_group demo_sha 9 demo_coins 5 60 (Some demo_reputation) None)
      = Some (commitment, blinding) \<and> verify_commitment demo_group commitment 80 blinding
    \<and> verify_proof demo_group demo_sha commitment (Some p) 60"
  using reputation_proof_accepted [OF demo_group_ok _ _ _ _ _ _ demo_coins_ok prod.collapse [symmetric],
      where rep = demo_reputation and threshold = 60 and r = 9 and k = 5 and stored = None and sha = demo_sha]
  by (simp add: demo_reputation_def)

text \<open>C29. A verified bit is a bit: two accepted answers to different challenges for one commitment in the
  subgroup and one pair of announcements give away a blinding with which it commits to 0 or to 1 (Q being prime,
  so that what is not zero modulo Q has an inverse). Against a hash that cannot be foreseen, nobody can answer
  for anything else.\<close>

theorem bit_proof_extracts:
  assumes "group_ok g" and "in_subgroup g (sp_D p)"
    and prime: "\<And>x. x mod zg_Q g \<noteq> 0 \<Longrightarrow> \<exists>u \<ge> 0. (x * u) mod zg_Q g = 1"
    and "sigma_or_verify g sha label p" and "sigma_or_verify g sha' label p'"
    and same: "sp_D p' = sp_D p" "sp_A0 p' = sp_A0 p" "sp_A1 p' = sp_A1 p"
    and differ: "fiat_shamir g sha label [sp_D p, sp_A0 p, sp_A1 p] \<noteq> fiat_shamir g sha' label [sp_D p, sp_A0 p, sp_A1 p]"
  shows "\<exists>r \<ge> 0. sp_D p mod zg_P g \<in> {pedersen_commit g 0 r, pedersen_commit g 1 r}"
proof -
  let ?p = "zg_P g" and ?q = "zg_Q g" and ?D = "sp_D p"
  let ?D1 = "?D * mod_inv (zg_G g) ?p mod ?p"
  note pos = group_facts [OF assms(1)]
  have ok: "(sp_c0 p + sp_c1 p) mod ?q \<noteq> (sp_c0 p' + sp_c1 p') mod ?q"
    and zero: "schnorr_holds g (?D mod ?p) (sp_A0 p) (sp_c0 p) (sp_s0 p)" "schnorr_holds g (?D mod ?p) (sp_A0 p) (sp_c0 p') (sp_s0 p')"
    and one: "schnorr_holds g ?D1 (sp_A1 p) (sp_c1 p) (sp_s1 p)" "schnorr_holds g ?D1 (sp_A1 p) (sp_c1 p') (sp_s1 p')"
    using assms(4,5) same differ by (auto simp: sigma_or_verify_def split: option.splits)
  have inverse: "\<exists>u \<ge> 0. ((c - c') * u) mod ?q = 1" if "c mod ?q \<noteq> c' mod ?q" for c c'
    using that by (intro prime) (simp add: mod_eq_dvd_iff mod_eq_0_iff_dvd)
  have sub: "in_subgroup g (?D mod ?p)" "in_subgroup g ?D1"
    using assms(2) mod_inv_subgroup [OF assms(1) pos(5)] pos by (simp_all add: in_subgroup_mult)
  show ?thesis
  proof (cases "sp_c0 p mod ?q = sp_c0 p' mod ?q")
    case False
    from inverse [OF this] obtain u where "0 \<le> u" "((sp_c0 p - sp_c0 p') * u) mod ?q = 1" by blast
    from schnorr_opens [OF assms(1) sub(1) zero this] obtain w where "0 \<le> w" "?D mod ?p = zg_H g ^ nat w mod ?p" by auto
    then show ?thesis by (intro exI [of _ w]) (simp add: pedersen_mod)
  next
    case True
    with ok have "sp_c1 p mod ?q \<noteq> sp_c1 p' mod ?q" by (metis mod_add_cong)
    from inverse [OF this] obtain u where "0 \<le> u" "((sp_c1 p - sp_c1 p') * u) mod ?q = 1" by blast
    from schnorr_opens [OF assms(1) sub(2) one this] obtain w where w: "0 \<le> w" "?D1 mod ?p = zg_H g ^ nat w mod ?p" by blast
    have "?D mod ?p = (zg_G g * ?D1) mod ?p"
    proof -
      have "(zg_G g * ?D1) mod ?p = (zg_G g * mod_inv (zg_G g) ?p * ?D) mod ?p"
        by (simp add: mod_mult_right_eq mult_ac)
      also have "\<dots> = (1 * ?D) mod ?p"
        using mod_inv_cancel [OF assms(1) pos(5)] pos by (intro mod_mult_both) simp_all
      finally show ?thesis by simp
    qed
    also have "\<dots> = (zg_G g * zg_H g ^ nat w) mod ?p" using w(2) by (intro mod_mult_both) simp_all
    finally show ?thesis using w(1) by (intro exI [of _ w]) (simp add: pedersen_mod)
  qed
qed

lemma demo_prime:
  assumes "x mod zg_Q demo_group \<noteq> 0"
  shows "\<exists>u \<ge> 0. (x * u) mod zg_Q demo_group = 1"
proof -
  define c where "c = x mod 11"
  have "c \<in> {1, 2, 3, 4, 5, 6, 7, 8, 9, 10}"
    using assms pos_mod_bound [of 11 x] pos_mod_sign [of 11 x] by (simp add: demo_group_def c_def) presburger
  then have "0 \<le> c ^ 9" "(c * c ^ 9) mod 11 = 1" by auto
  then have "(x * c ^ 9) mod 11 = 1" unfolding c_def by (simp only: mod_mult_left_eq)
  with \<open>0 \<le> c ^ 9\<close> show ?thesis by (intro exI [of _ "c ^ 9"]) (simp add: demo_group_def)
qed

definition demo_answer :: "int \<Rightarrow> int \<Rightarrow> sigma_proof" where
  "demo_answer c0 s0 = \<lparr>sp_D = 3, sp_A0 = 3, sp_A1 = 6, sp_c0 = c0, sp_c1 = 1, sp_s0 = s0, sp_s1 = 2\<rparr>"

lemma demo_challenge: "fiat_shamir demo_group (\<lambda>_ _. [c]) label [3, 3, 6] = Some (c mod 11)"
  using to_bytes_group [OF demo_group_ok, of 3] to_bytes_group [OF demo_group_ok, of 6]
  by (simp add: fiat_shamir_def from_bytes_def demo_group_def)

theorem bit_proof_extracts_witness:
  "\<exists>r. 0 \<le> r \<and> (3 :: int) mod 23 \<in> {pedersen_commit demo_group 0 r, pedersen_commit demo_group 1 r}"
proof -
  have sub: "in_subgroup demo_group (sp_D (demo_answer 3 4))"
    by (simp add: in_subgroup_def demo_group_def demo_answer_def)
  have accepted: "sigma_or_verify demo_group (\<lambda>_ _. [4]) l (demo_answer 3 4)" "sigma_or_verify demo_group (\<lambda>_ _. [7]) l (demo_answer 6 7)" for l
    by (simp_all add: sigma_or_verify_def demo_answer_def demo_challenge schnorr_holds_def py_pow_def mod_inv_def)
      (simp_all add: demo_group_def)
  show ?thesis
    using bit_proof_extracts [OF demo_group_ok sub demo_prime accepted]
    by (simp add: demo_answer_def demo_challenge) (simp add: demo_group_def)
qed

end
