(* ===== verification/Reviews_Life.thy ===== *)
theory Reviews_Life
  imports Reviews Zk_Life
begin

text \<open>
  What reviews and the proofs about them guarantee: the summaries are those of the reviews, every honest proof
  within the ten bits is accepted, none beyond them is, and a proof shows nothing, since the thresholds inside
  it are not compared with the thresholds it claims.
\<close>

section \<open>Summaries\<close>

lemma mean_bounds:
  assumes "xs \<noteq> []" and "\<forall>x \<in> set xs. rating_ok x"
  shows "1 \<le> mean xs \<and> mean xs \<le> 5"
proof -
  have "int (length xs) \<le> sum_list xs \<and> sum_list xs \<le> 5 * int (length xs)"
    using assms(2) by (induction xs) (auto simp: rating_ok_def)
  then have "(of_int (int (length xs)) :: decimal) \<le> of_int (sum_list xs)"
    "(of_int (sum_list xs) :: decimal) \<le> of_int (5 * int (length xs))" by (simp_all only: of_int_le_iff)
  moreover have "0 < length xs" using assms(1) by simp
  ultimately show ?thesis by (simp add: mean_def field_simps)
qed

definition review_ok :: "agent_review \<Rightarrow> bool" where
  "review_ok v \<longleftrightarrow> rv_reviewer_id v \<noteq> rv_reviewed_id v \<and> rating_ok (rv_overall_rating v)"

definition review_key :: "ident \<times> agent_review \<Rightarrow> ident \<times> ident" where
  "review_key r = (rv_reviewer_id (snd r), rv_transaction_id (snd r))"

definition summary_for :: "(decimal \<Rightarrow> decimal) \<Rightarrow> agent_review list \<Rightarrow> rating_summary option" where
  "summary_for column vs = (if vs = [] then None else Some (summarise column vs))"

definition reviews_sound :: "(decimal \<Rightarrow> decimal) \<Rightarrow> reviews \<Rightarrow> bool" where
  "reviews_sound column st \<longleftrightarrow>
     distinct (map review_key (rw_reviews st)) \<and> list_all (\<lambda>(k, v). review_ok v) (rw_reviews st)
     \<and> (\<forall>a. row_of (rw_summaries st) a = summary_for column (reviews_of a (rw_reviews st)))"

lemma reviews_of_add: "reviews_of a (add_row v t) = reviews_of a t @ (if rv_reviewed_id v = a then [v] else [])"
  by (simp add: reviews_of_def select_where_def add_row_def insert_row_def)

lemma row_of_update_summary:
  "row_of (rw_summaries (update_rating_summary column a st)) b =
     (if b = a then Some (summarise column (reviews_of a (rw_reviews st))) else row_of (rw_summaries st) b)"
  by (auto simp: update_rating_summary_def Let_def row_of_insert row_of_modify_row split: option.splits)

lemma update_summary_reviews [simp]: "rw_reviews (update_rating_summary column a st) = rw_reviews st"
  by (simp add: update_rating_summary_def Let_def)

lemma review_stored:
  assumes "reviews_sound column st" and "review_create d v (rw_reviews st) = Inr t" and "rv_reviewer_id v \<noteq> rv_reviewed_id v"
  shows "reviews_sound column (update_rating_summary column (rv_reviewed_id v) (st\<lparr>rw_reviews := t\<rparr>))"
proof -
  have ok: "review_constraints d (rw_reviews st) v" and t: "t = add_row v (rw_reviews st)"
    using assms(2) by (simp_all add: review_create_def split: if_splits)
  have fresh: "review_key (new_id (rw_reviews st), v) \<noteq> review_key (k, w)" if "(k, w) \<in> set (rw_reviews st)" for k w
    using ok that unfolding review_constraints_def first_row_def find_None_iff review_key_def by fastforce
  have "distinct (map review_key t)"
    using assms(1) fresh by (auto simp: t add_row_def insert_row_def reviews_sound_def image_iff)
  moreover have "list_all (\<lambda>(k, v). review_ok v) t"
    using assms(1,3) ok by (auto simp: t add_row_def insert_row_def reviews_sound_def review_ok_def review_constraints_def rating_ok_def)
  moreover have "row_of (rw_summaries (update_rating_summary column (rv_reviewed_id v) (st\<lparr>rw_reviews := t\<rparr>))) a
      = summary_for column (reviews_of a t)" for a
    using assms(1) by (simp add: row_of_update_summary summary_for_def reviews_sound_def t reviews_of_add)
  ultimately show ?thesis by (simp add: reviews_sound_def)
qed

lemma create_review_sound:
  assumes "reviews_sound column st"
    and "create_review column now d reviewer a tx kind overall speed quality reliability st = Inr st'"
  shows "reviews_sound column st'"
proof -
  define v where "v = \<lparr>rv_reviewer_id = reviewer, rv_reviewed_id = a, rv_transaction_id = tx,
    rv_transaction_type = kind, rv_overall_rating = overall, rv_speed_rating = speed,
    rv_quality_rating = quality, rv_reliability_rating = reliability, rv_is_verified = True, rv_created_at = now\<rparr>"
  have other: "reviewer \<noteq> a" using assms(2) by (auto simp: create_review_def)
  obtain t where "review_create d v (rw_reviews st) = Inr t" and st': "st' = update_rating_summary column a (st\<lparr>rw_reviews := t\<rparr>)"
    using assms(2) other by (cases "review_create d v (rw_reviews st)") (auto simp: create_review_def v_def split: sum.splits)
  from review_stored [OF assms(1) this(1)] other show ?thesis by (simp add: st' v_def)
qed

definition post_reviews ::
  "(decimal \<Rightarrow> decimal) \<Rightarrow> (moment \<times> db \<times> ident \<times> string \<times> review_request) list \<Rightarrow> reviews \<Rightarrow> reviews"
where
  "post_reviews column reqs st =
     foldl (\<lambda>st (now, d, current, name, req).
       case post_review column now d current name req st of Inl _ \<Rightarrow> st | Inr st' \<Rightarrow> st') st reqs"

lemma post_review_sound: "reviews_sound column st \<Longrightarrow> post_review column now d a name req st = Inr st' \<Longrightarrow> reviews_sound column st'"
  by (auto simp: post_review_def map_sum_def split: if_splits option.splits sum.splits intro: create_review_sound)

lemma post_reviews_sound: "reviews_sound column st \<Longrightarrow> reviews_sound column (post_reviews column reqs st)"
proof (induction reqs arbitrary: st)
  case Nil
  then show ?case by (simp add: post_reviews_def)
next
  case (Cons r reqs)
  obtain now d a name req where r: "r = (now, d, a, name, req)" by (metis prod.collapse)
  have "reviews_sound column (case post_review column now d a name req st of Inl _ \<Rightarrow> st | Inr st' \<Rightarrow> st')"
    using Cons.prems post_review_sound by (auto split: sum.splits)
  from Cons.IH [OF this] show ?case by (simp add: post_reviews_def r)
qed

definition no_reviews :: reviews where
  "no_reviews = \<lparr>rw_reviews = [], rw_summaries = []\<rparr>"

lemma no_reviews_sound: "reviews_sound column no_reviews"
  by (simp add: reviews_sound_def no_reviews_def summary_for_def reviews_of_def select_where_def)

lemma review_of_ok: "reviews_sound column st \<Longrightarrow> v \<in> set (reviews_of a (rw_reviews st)) \<Longrightarrow> review_ok v"
  by (auto simp: reviews_sound_def reviews_of_def select_where_def list_all_iff)

lemma summary_bounds:
  assumes column: "\<And>x. 1 \<le> x \<Longrightarrow> x \<le> 5 \<Longrightarrow> 1 \<le> column x \<and> column x \<le> 5"
    and "vs \<noteq> []" and "\<forall>v \<in> set vs. review_ok v"
  shows "1 \<le> rs_avg_overall (summarise column vs) \<and> rs_avg_overall (summarise column vs) \<le> 5
    \<and> rs_five_star_count (summarise column vs) + rs_one_star_count (summarise column vs) \<le> rs_total_reviews (summarise column vs)"
proof -
  have "1 \<le> mean (map rv_overall_rating vs) \<and> mean (map rv_overall_rating vs) \<le> 5"
    using assms(2,3) by (intro mean_bounds) (auto simp: review_ok_def)
  moreover have "length (filter (\<lambda>v. rv_overall_rating v = 5) ws) + length (filter (\<lambda>v. rv_overall_rating v = 1) ws) \<le> length ws" for ws
    by (induction ws) auto
  ultimately show ?thesis using column assms(2) by (simp add: summarise_def)
qed

section \<open>Properties\<close>

text \<open>C30. Summaries are exact: after any sequence of requests, successful or not, every agent's summary is the one
  of the reviews it received, no agent reviewed itself or the same transaction twice, the average is between one
  and five stars, and the counts of best and worst ratings fit in the total.\<close>

theorem rating_summaries_exact:
  assumes "\<And>x. 1 \<le> x \<Longrightarrow> x \<le> 5 \<Longrightarrow> 1 \<le> column x \<and> column x \<le> 5"
    and "st = post_reviews column reqs no_reviews" and "row_of (rw_summaries st) a = Some s"
  shows "s = summarise column (reviews_of a (rw_reviews st)) \<and> 0 < rs_total_reviews s
    \<and> distinct (map review_key (rw_reviews st)) \<and> list_all (\<lambda>(k, v). review_ok v) (rw_reviews st)
    \<and> 1 \<le> rs_avg_overall s \<and> rs_avg_overall s \<le> 5 \<and> rs_five_star_count s + rs_one_star_count s \<le> rs_total_reviews s"
proof -
  have sound: "reviews_sound column st" unfolding assms(2) by (rule post_reviews_sound [OF no_reviews_sound])
  let ?vs = "reviews_of a (rw_reviews st)"
  have s: "?vs \<noteq> []" "s = summarise column ?vs"
    using sound assms(3) by (auto simp: reviews_sound_def summary_for_def split: if_split_asm)
  have ok: "\<forall>v \<in> set ?vs. review_ok v" using review_of_ok [OF sound] by blast
  have "rs_total_reviews s = length ?vs" using s by (simp add: summarise_def)
  with summary_bounds [where column = column, OF assms(1) s(1) ok] s(1) sound show ?thesis
    unfolding s(2) by (simp add: reviews_sound_def)
qed

definition demo_reviewers :: db where
  "demo_reviewers = empty_db\<lparr>agents :=
     [(2, \<lparr>ag_name = ''ann'', ag_is_active = True, ag_tier = TierFree, ag_tier_grace_until = None, ag_xmr_address = None, ag_created_at = 0\<rparr>),
      (3, \<lparr>ag_name = ''bob'', ag_is_active = True, ag_tier = TierFree, ag_tier_grace_until = None, ag_xmr_address = None, ag_created_at = 0\<rparr>)]\<rparr>"

definition demo_route :: hub_route where
  "demo_route = \<lparr>hr_payment_id = ''p'', hr_from_agent_id = 4, hr_to_agent_id = 5, hr_amount = 1, hr_token = ''XMR'', hr_fee_percent = 0,
     hr_fee_amount = 0, hr_fee_collected = False, hr_fee_collected_at = None, hr_instant_confirmation = True,
     hr_status = RouteConfirmed, hr_settlement_tx_hash = None, hr_created_at = 0, hr_confirmed_at = None, hr_settled_at = None\<rparr>"

definition demo_rating :: "int \<Rightarrow> review_request" where
  "demo_rating n = \<lparr>rq_transaction_id = Some 7, rq_transaction_type = ''payment'', rq_overall_rating = n,
     rq_speed_rating = None, rq_quality_rating = Some 4, rq_reliability_rating = None\<rparr>"

text \<open>Two agents that had no part in a payment review each other with it; a second review of one is refused.\<close>

definition demo_posts :: "(moment \<times> db \<times> ident \<times> string \<times> review_request) list" where
  "demo_posts = (let d = demo_reviewers\<lparr>hub_routes := [(7, demo_route)]\<rparr>
     in [(10, d, 2, ''bob'', demo_rating 5), (11, d, 3, ''ann'', demo_rating 2), (12, d, 2, ''bob'', demo_rating 5)])"

lemmas review_eval = post_review_def create_review_def review_create_def review_constraints_def verify_transaction_def
  review_request_ok_def rating_ok_def demo_rating_def demo_reviewers_def first_row_def add_row_def insert_row_def new_id_def
  update_rating_summary_def Let_def reviews_of_def select_where_def row_of_def modify_row_def update_where_def keys_of_def

lemma demo_posts_summary:
  "row_of (rw_summaries (post_reviews id demo_posts no_reviews)) 3 =
     Some \<lparr>rs_total_reviews = 1, rs_avg_overall = 5, rs_avg_speed = 0, rs_avg_quality = 4, rs_avg_reliability = 0,
       rs_five_star_count = 1, rs_one_star_count = 0, rs_last_review_at = Some 10\<rparr>"
  by (simp add: post_reviews_def demo_posts_def no_reviews_def review_eval summarise_def mean_def mean_given_def List.map_filter_def)

theorem rating_summaries_exact_witness:
  "distinct (map review_key (rw_reviews (post_reviews id demo_posts no_reviews)))
    \<and> list_all (\<lambda>(k, v). review_ok v) (rw_reviews (post_reviews id demo_posts no_reviews))"
  using rating_summaries_exact [where column = id, OF _ refl demo_posts_summary] by simp

section \<open>Proofs about reviews\<close>

text \<open>C31. A review proof shows nothing: for any claim and any honest-looking group, anybody can make, without a
  single review, a payload that is accepted. The thresholds inside the two range proofs are never compared with
  the claimed ones and the number of bits is not checked.\<close>

theorem forged_review_proof:
  assumes "group_ok g" and "0 \<le> r" and "0 \<le> k"
  shows "\<exists>c q. generate_range_proof g sha 0 0 0 r [] k = Some (c, q)
    \<and> verify_review_proof g sha (c, c)
        (Some \<lparr>vp_version = 1, vp_proof_reviews = q, vp_proof_avg = q, vp_commitment_reviews = c, vp_commitment_avg = c,
               vp_min_reviews = min_reviews, vp_min_avg_scaled = round_half_even (min_avg * 100)\<rparr>) min_reviews min_avg"
proof -
  obtain ps l where "prove_range g sha ''review-sigma-or-bit'' ''review-link-proof'' r 0 0 [] k = Some (ps, l)"
    "check_range g sha ''review-sigma-or-bit'' ''review-link-proof'' (pedersen_commit g 0 r) 0 ps l"
    using range_complete [OF assms(1) _ _ _ assms(2,3), of 0 0 0 "[]" sha "''review-sigma-or-bit''" "''review-link-proof''"] by auto
  then show ?thesis by (auto simp: generate_range_proof_def verify_review_proof_def verify_range_proof_def)
qed

theorem forged_review_proof_witness:
  "\<exists>c q. generate_range_proof demo_group demo_sha 0 0 0 2 [] 3 = Some (c, q)
    \<and> verify_review_proof demo_group demo_sha (c, c)
        (Some \<lparr>vp_version = 1, vp_proof_reviews = q, vp_proof_avg = q, vp_commitment_reviews = c, vp_commitment_avg = c,
               vp_min_reviews = 1000, vp_min_avg_scaled = round_half_even (5 * 100)\<rparr>) 1000 5"
  by (rule forged_review_proof [OF demo_group_ok]) simp_all

lemma review_proof_run:
  assumes "group_ok g" and "s = get_rating_summary a st" and "rs_avg_overall s \<le> 5" and "0 \<le> min_reviews" and "0 \<le> min_avg"
    and order: "\<And>n. 0 < n \<Longrightarrow> n \<le> rs_total_reviews s \<Longrightarrow> zg_G g ^ n mod zg_P g \<noteq> 1"
    and "0 \<le> r" "0 \<le> k" "length cs = 10" "list_all (coins_ok g) cs"
    and "0 \<le> r'" "0 \<le> k'" "length cs' = 10" "list_all (coins_ok g) cs'"
    and enough: "min_reviews \<le> int (rs_total_reviews s)" "min_avg \<le> rs_avg_overall s"
  shows "\<exists>c p. generate_review_proof g sha (r, cs, k) (r', cs', k') a min_reviews min_avg st = Inr (c, p)
    \<and> (verify_review_proof g sha c (Some p) min_reviews min_avg \<longleftrightarrow> int (rs_total_reviews s) - min_reviews < 1024)"
proof -
  let ?total = "int (rs_total_reviews s)" and ?avg = "round_half_even (rs_avg_overall s * 100)" and ?min = "round_half_even (min_avg * 100)"
  let ?bl = "''review-sigma-or-bit''" and ?ll = "''review-link-proof''"
  have "?min \<le> ?avg" "?avg \<le> round_half_even (of_int 500)" "round_half_even (of_int 0) \<le> ?min"
    using enough(2) assms(3,5) by (auto intro!: round_half_even_mono)
  then have avg: "0 \<le> ?avg - ?min" "?avg - ?min < 2 ^ 10" "0 \<le> ?min" by (simp_all del: of_int_numeral of_int_0)
  obtain ps' l' where second: "prove_range g sha ?bl ?ll r' (?avg - ?min) 10 cs' k' = Some (ps', l')"
    "check_range g sha ?bl ?ll (pedersen_commit g ?avg r') ?min ps' l'"
    using range_complete [OF assms(1) avg assms(11-14), of sha ?bl ?ll] by auto
  obtain ps l where first: "prove_range g sha ?bl ?ll r (?total - min_reviews) 10 cs k = Some (ps, l)"
    "check_range g sha ?bl ?ll (pedersen_commit g ?total r) min_reviews ps l \<longleftrightarrow> ?total - min_reviews < 1024"
  proof (cases "?total - min_reviews < 1024")
    case True
    with range_complete [OF assms(1) _ _ assms(4,7-10), of "?total - min_reviews" sha ?bl ?ll] enough(1) that show ?thesis by auto
  next
    case False
    let ?d = "?total - min_reviews"
    have "0 \<le> ?d mod 2 ^ 10" "?d mod 2 ^ 10 < 1024" by simp_all
    with False have "0 < ?d - ?d mod 2 ^ 10" "?d - ?d mod 2 ^ 10 \<le> ?total" using assms(4) by linarith+
    then have "zg_G g ^ nat (?d - ?d mod 2 ^ 10) mod zg_P g \<noteq> 1" by (intro order) simp_all
    from range_overflow [OF assms(1) _ assms(4,7-10) this, of sha ?bl ?ll] enough(1) False that show ?thesis by auto
  qed
  have "generate_review_proof g sha (r, cs, k) (r', cs', k') a min_reviews min_avg st =
    Inr ((pedersen_commit g ?total r, pedersen_commit g ?avg r'), \<lparr>vp_version = 1,
      vp_proof_reviews = \<lparr>rg_blinding = r, rg_threshold = min_reviews, rg_bit_proofs = ps, rg_link_proof = l\<rparr>,
      vp_proof_avg = \<lparr>rg_blinding = r', rg_threshold = ?min, rg_bit_proofs = ps', rg_link_proof = l'\<rparr>,
      vp_commitment_reviews = pedersen_commit g ?total r, vp_commitment_avg = pedersen_commit g ?avg r',
      vp_min_reviews = min_reviews, vp_min_avg_scaled = ?min\<rparr>)"
    using enough first(1) second(1)
    by (simp add: generate_review_proof_def Let_def generate_range_proof_def NUM_BITS_REVIEWS_def NUM_BITS_AVG_def assms(2))
  then show ?thesis using first(2) second(2) by (simp add: verify_review_proof_def verify_range_proof_def)
qed

text \<open>C32. Honest review proofs and the ten bits: a proof the endpoint makes is accepted exactly when the agent has
  fewer than 1024 reviews more than it claims; with more, the proof it is given never verifies (the powers of
  the generator up to the number of reviews being different from one, as for the group of the source).\<close>

theorem review_proof_valid_iff:
  assumes "group_ok g" and "s = get_rating_summary a st" and "rs_avg_overall s \<le> 5" and "0 \<le> min_reviews" and "0 \<le> min_avg"
    and order: "\<And>n. 0 < n \<Longrightarrow> n \<le> rs_total_reviews s \<Longrightarrow> zg_G g ^ n mod zg_P g \<noteq> 1"
    and "0 \<le> r" "0 \<le> k" "length cs = 10" "list_all (coins_ok g) cs"
    and "0 \<le> r'" "0 \<le> k'" "length cs' = 10" "list_all (coins_ok g) cs'"
    and "generate_review_proof g sha (r, cs, k) (r', cs', k') a min_reviews min_avg st = Inr (c, p)"
  shows "verify_review_proof g sha c (Some p) min_reviews min_avg \<longleftrightarrow> int (rs_total_reviews s) - min_reviews < 1024"
proof -
  have "min_reviews \<le> int (rs_total_reviews s)" "min_avg \<le> rs_avg_overall s"
    using assms(15) by (auto simp: generate_review_proof_def Let_def assms(2) split: if_split_asm)
  from review_proof_run [OF assms(1-14) this, of sha] assms(15) show ?thesis by auto
qed

definition demo_coins10 :: "bit_coins list" where
  "demo_coins10 = map (\<lambda>i. (int i + 1, 2, 3, int i + 4)) [0..<10]"

lemma demo_coins10_ok: "length demo_coins10 = 10" "list_all (coins_ok demo_group) demo_coins10"
  by (simp_all add: demo_coins10_def coins_ok_def demo_group_def list_all_iff)

definition demo_summary :: rating_summary where
  "demo_summary = get_rating_summary 3 (post_reviews id demo_posts no_reviews)"

lemma demo_summary_facts: "rs_total_reviews demo_summary = 1" "rs_avg_overall demo_summary = 5"
  by (simp_all add: demo_summary_def get_rating_summary_def demo_posts_summary)

lemma demo_order: "0 < n \<Longrightarrow> n \<le> rs_total_reviews demo_summary \<Longrightarrow> zg_G demo_group ^ n mod zg_P demo_group \<noteq> 1"
  by (cases n) (auto simp: demo_summary_facts demo_group_def)

theorem review_proof_valid_iff_witness:
  "\<exists>c p. generate_review_proof demo_group demo_sha (2, demo_coins10, 3) (4, demo_coins10, 5) 3 1 4
      (post_reviews id demo_posts no_reviews) = Inr (c, p)
    \<and> verify_review_proof demo_group demo_sha c (Some p) 1 4"
proof -
  let ?st = "post_reviews id demo_posts no_reviews"
  obtain c p where made: "generate_review_proof demo_group demo_sha (2, demo_coins10, 3) (4, demo_coins10, 5) 3 1 4 ?st = Inr (c, p)"
    using review_proof_run [OF demo_group_ok demo_summary_def _ _ _ demo_order _ _ demo_coins10_ok _ _ demo_coins10_ok,
        where sha = demo_sha and min_reviews = 1 and min_avg = 4 and r = 2 and k = 3 and r' = 4 and k' = 5]
    by (auto simp: demo_summary_facts)
  from review_proof_valid_iff [OF demo_group_ok demo_summary_def _ _ _ demo_order _ _ demo_coins10_ok _ _ demo_coins10_ok made]
  have "verify_review_proof demo_group demo_sha c (Some p) 1 4" by (simp add: demo_summary_facts)
  with made show ?thesis by blast
qed

end
