(* ===== verification/Multisig.thy ===== *)
theory Multisig
  imports Escrow_Life Proof_Of_Work Rounding
begin

text \<open>
  Multisig escrow: \<open>sthrip/services/multisig_coordinator.py\<close>, \<open>sthrip/db/multisig_repo.py\<close> and the endpoints in
  \<open>api/routers/multisig_escrow.py\<close>. A multisig escrow stands beside an ordinary escrow deal, which the operations of
  \<open>Escrow\<close> and its expiry go on treating like any other. The state is a text column.

  The wallet RPC is a parameter: \<open>None\<close> is the coordinator without a wallet, as the application creates it; each
  call of a wallet answers or fails with a \<open>MoneroRPCError\<close> (\<open>None\<close>). \<open>rnd\<close> is the random text of a request. The
  wallet id columns are never written and are left out.
\<close>

section \<open>Rows\<close>

record multisig_escrow =
  me_escrow_deal_id :: ident
  me_multisig_address :: "string option"
  me_state :: string
  me_fee_collected :: decimal
  me_funded_amount :: decimal
  me_funded_tx_hash :: "string option"
  me_release_tx_hex :: "string option"
  me_release_initiator :: "string option"
  me_dispute_reason :: "string option"
  me_disputed_by :: "string option"
  me_timeout_at :: moment

record multisig_round =
  mr_escrow_id :: ident
  mr_round_number :: int
  mr_participant :: string
  mr_multisig_info :: string

type_synonym msig_table = "(ident, multisig_escrow) table"
type_synonym round_table = "(ident, multisig_round) table"

record multisig_db =
  md_db :: db
  md_escrows :: msig_table
  md_rounds :: round_table

section \<open>The repository\<close>

definition VALID_PARTICIPANTS :: "string list" where
  "VALID_PARTICIPANTS = [''buyer'', ''hub'', ''seller'']"

definition msig_by_deal_id :: "ident \<Rightarrow> msig_table \<Rightarrow> (ident \<times> multisig_escrow) option" where
  "msig_by_deal_id k = first_row (\<lambda>e. me_escrow_deal_id e = k)"

text \<open>One submission per escrow, round and participant.\<close>

definition add_round :: "ident \<Rightarrow> int \<Rightarrow> string \<Rightarrow> string \<Rightarrow> round_table \<Rightarrow> round_table outcome" where
  "add_round k n participant info t =
     (if participant \<notin> set VALID_PARTICIPANTS then Inl (ValueError ''participant must be one of buyer, hub, seller'')
      else if first_row (\<lambda>r. mr_escrow_id r = k \<and> mr_round_number r = n \<and> mr_participant r = participant) t \<noteq> None
      then Inl (RuntimeError ''IntegrityError'')
      else Inr (add_row \<lparr>mr_escrow_id = k, mr_round_number = n, mr_participant = participant, mr_multisig_info = info\<rparr> t))"

definition count_round_submissions :: "ident \<Rightarrow> int \<Rightarrow> round_table \<Rightarrow> nat" where
  "count_round_submissions k n t = length (select_where (\<lambda>r. mr_escrow_id r = k \<and> mr_round_number r = n) t)"

text \<open>The order of the three names.\<close>

definition participant_rank :: "string \<Rightarrow> nat" where
  "participant_rank p = (if p = ''buyer'' then 0 else if p = ''hub'' then 1 else 2)"

definition get_rounds :: "ident \<Rightarrow> int \<Rightarrow> round_table \<Rightarrow> multisig_round list" where
  "get_rounds k n t =
     sort_key (\<lambda>r. participant_rank (mr_participant r))
       (map snd (select_where (\<lambda>r. mr_escrow_id r = k \<and> mr_round_number r = n) t))"

section \<open>The wallet\<close>

record msig_wallet =
  mw_prepare :: "string option"
  mw_make :: "string list \<Rightarrow> string option"
  mw_exchange_keys :: "string list \<Rightarrow> (string \<times> string) option"
  mw_finalize :: "string list \<Rightarrow> string option"
  mw_export :: "unit option"
  mw_transfer :: "string \<Rightarrow> decimal \<Rightarrow> string option"
  mw_submit :: "string \<Rightarrow> string option"

definition rpc :: "string \<Rightarrow> 'a option \<Rightarrow> 'a outcome" where
  "rpc msg answer = (case answer of None \<Rightarrow> Inl (RuntimeError msg) | Some x \<Rightarrow> Inr x)"

definition prepare_multisig_for_hub :: "msig_wallet option \<Rightarrow> string \<Rightarrow> string outcome" where
  "prepare_multisig_for_hub w rnd =
     (case w of
        None \<Rightarrow> Inr (''hub_multisig_info_'' @ rnd)
      | Some wallet \<Rightarrow> rpc ''Failed to prepare hub multisig wallet via RPC'' (mw_prepare wallet))"

definition process_hub_round :: "msig_wallet option \<Rightarrow> string \<Rightarrow> int \<Rightarrow> string list \<Rightarrow> string option outcome" where
  "process_hub_round w rnd n infos =
     (case w of
        None \<Rightarrow> Inr (if n = 1 then Some (''hub_round2_info_'' @ rnd)
                     else if n = 2 then Some (''hub_round3_info_'' @ rnd) else None)
      | Some wallet \<Rightarrow>
          if n = 1 then map_sum id Some (rpc ''Hub wallet RPC failed'' (mw_make wallet infos))
          else if n = 2 then map_sum id (\<lambda>(info, address). Some info) (rpc ''Hub wallet RPC failed'' (mw_exchange_keys wallet infos))
          else Inr None)"

definition finalize_multisig_address :: "msig_wallet option \<Rightarrow> string \<Rightarrow> string list \<Rightarrow> string outcome" where
  "finalize_multisig_address w rnd infos =
     (case w of
        None \<Rightarrow> Inr (''multisig_address_'' @ rnd)
      | Some wallet \<Rightarrow>
          and_then (rpc ''Failed to finalise multisig address via wallet RPC'' (mw_exchange_keys wallet infos)) (\<lambda>(info, address).
            if address \<noteq> '''' then Inr address
            else rpc ''Failed to finalise multisig address via wallet RPC'' (mw_finalize wallet infos)))"

definition create_partial_release_tx :: "msig_wallet option \<Rightarrow> string \<Rightarrow> db \<Rightarrow> multisig_escrow \<Rightarrow> string outcome" where
  "create_partial_release_tx w rnd d e =
     (case w of
        None \<Rightarrow> Inr (''partial_tx_'' @ rnd)
      | Some wallet \<Rightarrow>
          and_then (rpc ''Failed to create release transaction via wallet RPC'' (mw_export wallet)) (\<lambda>_.
            case Option.bind (row_of (escrow_deals d) (me_escrow_deal_id e))
                   (\<lambda>deal. Option.bind (row_of (agents d) (deal_seller_id deal)) ag_xmr_address) of
              None \<Rightarrow> Inl (ValueError ''Cannot create release TX: seller XMR address is missing'')
            | Some address \<Rightarrow>
                if address = '''' then Inl (ValueError ''Cannot create release TX: seller XMR address is missing'')
                else rpc ''Failed to create release transaction via wallet RPC'' (mw_transfer wallet address (me_funded_amount e))))"

definition broadcast_signed_tx :: "msig_wallet option \<Rightarrow> string \<Rightarrow> string \<Rightarrow> string outcome" where
  "broadcast_signed_tx w rnd signed_tx =
     (case w of
        None \<Rightarrow> Inr (''tx_hash_'' @ rnd)
      | Some wallet \<Rightarrow> rpc ''Failed to broadcast multisig transaction via wallet RPC'' (mw_submit wallet signed_tx))"

section \<open>The coordinator\<close>

definition FEE_PERCENT :: decimal where
  "FEE_PERCENT = 1 / 100"

definition SETUP_TIMEOUT_HOURS :: int where
  "SETUP_TIMEOUT_HOURS = 24"

definition PARTICIPANTS_PER_ROUND :: nat where
  "PARTICIPANTS_PER_ROUND = 3"

definition round_states :: "int \<Rightarrow> string \<times> string" where
  "round_states n =
     (if n = 1 then (''setup_round_1'', ''setup_round_2'')
      else if n = 2 then (''setup_round_2'', ''setup_round_3'')
      else (''setup_round_3'', ''funded''))"

definition multisig_fee_row :: "moment \<Rightarrow> ident \<Rightarrow> decimal \<Rightarrow> fee_collection" where
  "multisig_fee_row now k fee =
     \<lparr>fc_source_type = ''multisig_escrow'', fc_source_id = Some k, fc_amount = fee, fc_token = ''XMR'',
      fc_status = FeeCollected, fc_collection_tx_hash = None, fc_withdrawn_at = None,
      fc_created_at = now, fc_payer_agent_id = None, fc_amount_piconero = None,
      fc_rate_applied_bps = None, fc_transaction_ref = None, fc_collected_at = None\<rparr>"

definition multisig_create ::
  "msig_wallet option \<Rightarrow> string \<Rightarrow> moment \<Rightarrow> ident \<Rightarrow> ident \<Rightarrow> decimal \<Rightarrow> int \<Rightarrow> int \<Rightarrow> int \<Rightarrow> multisig_db
    \<Rightarrow> (multisig_db \<times> ident) outcome"
where
  "multisig_create w rnd now buyer_id seller_id amount accept_h delivery_h review_h st =
     (let d = md_db st
      in if buyer_id = seller_id then Inl (ValueError ''Buyer and seller must be different agents'')
         else if amount \<le> 0 then Inl (ValueError ''Amount must be positive'')
         else case row_of (agents d) seller_id of
           None \<Rightarrow> Inl (LookupError ''Seller not found'')
         | Some seller \<Rightarrow>
             if \<not> ag_is_active seller then Inl (ValueError ''Seller is not active'')
             else
               let fee = quantize8 (amount * FEE_PERCENT);
                   funded_amount = amount - fee
               in and_then (deduct now buyer_id amount ''XMR'' (balances d)) (\<lambda>t1.
                 let deal = escrow_create now buyer_id seller_id amount accept_h delivery_h review_h FEE_PERCENT;
                     deal_id = new_id (escrow_deals d);
                     k = new_id (md_escrows st);
                     d1 = d\<lparr>balances := t1, escrow_deals := add_row deal (escrow_deals d),
                            fee_collections := add_row (multisig_fee_row now k fee) (fee_collections d)\<rparr>;
                     e = \<lparr>me_escrow_deal_id = deal_id, me_multisig_address = None, me_state = ''setup_round_1'',
                          me_fee_collected = fee, me_funded_amount = funded_amount, me_funded_tx_hash = None,
                          me_release_tx_hex = None, me_release_initiator = None, me_dispute_reason = None,
                          me_disputed_by = None, me_timeout_at = now + hours SETUP_TIMEOUT_HOURS\<rparr>
                 in and_then (prepare_multisig_for_hub w rnd) (\<lambda>info.
                    and_then (add_round k 1 ''hub'' info (md_rounds st)) (\<lambda>rounds.
                    and_then (log_event 0 audit_kws_details
                       (audit_of ''multisig_escrow.created'' (Some buyer_id) ''multisig_escrow'' k) d1) (\<lambda>d2.
                      Inr (\<lparr>md_db = d2, md_escrows = add_row e (md_escrows st), md_rounds = rounds\<rparr>, k))))))"

definition next_hub_round :: "ident \<Rightarrow> int \<Rightarrow> string \<Rightarrow> string option \<Rightarrow> round_table \<Rightarrow> round_table outcome" where
  "next_hub_round k n next_state info t =
     (case info of
        Some i \<Rightarrow> if next_state \<in> {''setup_round_2'', ''setup_round_3''} \<and> i \<noteq> '''' then add_round k (n + 1) ''hub'' i t else Inr t
      | None \<Rightarrow> Inr t)"

text \<open>What follows the third submission of a round.\<close>

definition complete_round ::
  "msig_wallet option \<Rightarrow> string \<Rightarrow> ident \<Rightarrow> int \<Rightarrow> round_table \<Rightarrow> multisig_db \<Rightarrow> multisig_db outcome"
where
  "complete_round w rnd k n t st =
     (let next_state = snd (round_states n);
          infos = map mr_multisig_info (filter (\<lambda>r. mr_participant r \<noteq> ''hub'') (get_rounds k n t))
      in and_then (process_hub_round w rnd n infos) (\<lambda>hub_next_info.
         and_then (next_hub_round k n next_state hub_next_info t) (\<lambda>t'.
         let st' = st\<lparr>md_rounds := t', md_escrows := modify_row k (\<lambda>e. e\<lparr>me_state := next_state\<rparr>) (md_escrows st)\<rparr>
         in if next_state \<noteq> ''funded'' then Inr st'
            else map_sum id (\<lambda>address. st'\<lparr>md_escrows :=
                   modify_row k (\<lambda>e. e\<lparr>me_multisig_address := Some address\<rparr>) (md_escrows st')\<rparr>)
                   (finalize_multisig_address w rnd infos))))"

definition submit_round ::
  "msig_wallet option \<Rightarrow> string \<Rightarrow> ident \<Rightarrow> string \<Rightarrow> int \<Rightarrow> string \<Rightarrow> multisig_db \<Rightarrow> multisig_db outcome"
where
  "submit_round w rnd k participant n info st =
     (if participant \<notin> set VALID_PARTICIPANTS then Inl (ValueError ''participant must be one of buyer, hub, seller'')
      else if n \<notin> {1, 2, 3} then Inl (ValueError ''round_number must be 1, 2, or 3'')
      else case row_of (md_escrows st) k of
        None \<Rightarrow> Inl (LookupError ''Multisig escrow not found'')
      | Some e \<Rightarrow>
          if me_state e \<noteq> fst (round_states n) then Inl (ValueError ''Cannot submit round data in this state'')
          else and_then (add_round k n participant info (md_rounds st)) (\<lambda>t.
            if count_round_submissions k n t < PARTICIPANTS_PER_ROUND then Inr (st\<lparr>md_rounds := t\<rparr>)
            else complete_round w rnd k n t st))"

definition get_state :: "ident \<Rightarrow> multisig_db \<Rightarrow> multisig_escrow outcome" where
  "get_state k st =
     (case row_of (md_escrows st) k of
        None \<Rightarrow> Inl (LookupError ''Multisig escrow not found'')
      | Some e \<Rightarrow> Inr e)"

definition initiate_release :: "msig_wallet option \<Rightarrow> string \<Rightarrow> ident \<Rightarrow> string \<Rightarrow> multisig_db \<Rightarrow> multisig_db outcome" where
  "initiate_release w rnd k initiator st =
     (if initiator \<notin> set VALID_PARTICIPANTS then Inl (ValueError ''initiator must be one of buyer, hub, seller'')
      else case row_of (md_escrows st) k of
        None \<Rightarrow> Inl (LookupError ''Multisig escrow not found'')
      | Some e \<Rightarrow>
          if me_state e \<notin> {''active'', ''funded''} then Inl (ValueError ''Cannot initiate release in this state'')
          else map_sum id (\<lambda>tx. st\<lparr>md_escrows := modify_row k
                 (\<lambda>e. e\<lparr>me_state := ''releasing'', me_release_initiator := Some initiator, me_release_tx_hex := Some tx\<rparr>)
                 (md_escrows st)\<rparr>)
                 (create_partial_release_tx w rnd (md_db st) e))"

text \<open>The deal is marked completed whatever its status was; no balance moves.\<close>

definition cosign_release ::
  "msig_wallet option \<Rightarrow> string \<Rightarrow> moment \<Rightarrow> ident \<Rightarrow> string \<Rightarrow> string \<Rightarrow> multisig_db \<Rightarrow> multisig_db outcome"
where
  "cosign_release w rnd now k signer signed_tx st =
     (if signer \<notin> set VALID_PARTICIPANTS then Inl (ValueError ''signer must be one of buyer, hub, seller'')
      else case row_of (md_escrows st) k of
        None \<Rightarrow> Inl (LookupError ''Multisig escrow not found'')
      | Some e \<Rightarrow>
          if me_state e \<noteq> ''releasing'' then Inl (ValueError ''Cannot cosign in this state'')
          else if me_release_initiator e = Some signer
          then Inl (ValueError ''Cosigner must be different from the release initiator'')
          else map_sum id (\<lambda>tx_hash.
                 st\<lparr>md_escrows := modify_row k (\<lambda>e. e\<lparr>me_state := ''completed'', me_funded_tx_hash := Some tx_hash\<rparr>) (md_escrows st),
                    md_db := (md_db st)\<lparr>escrow_deals := snd (update_row (\<lambda>r. deal_status r \<noteq> EscrowCompleted)
                      (\<lambda>r. r\<lparr>deal_status := EscrowCompleted, deal_completed_at := Some now\<rparr>)
                      (me_escrow_deal_id e) (escrow_deals (md_db st)))\<rparr>\<rparr>)
                 (broadcast_signed_tx w rnd signed_tx))"

definition multisig_dispute :: "ident \<Rightarrow> string \<Rightarrow> string \<Rightarrow> multisig_db \<Rightarrow> multisig_db outcome" where
  "multisig_dispute k disputer reason st =
     (if disputer \<notin> set VALID_PARTICIPANTS then Inl (ValueError ''disputer must be one of buyer, hub, seller'')
      else if strip reason = '''' then Inl (ValueError ''Dispute reason must not be empty'')
      else case row_of (md_escrows st) k of
        None \<Rightarrow> Inl (LookupError ''Multisig escrow not found'')
      | Some e \<Rightarrow>
          if me_state e \<in> {''completed'', ''cancelled''} then Inl (ValueError ''Cannot dispute escrow in terminal state'')
          else and_then (log_event 0 audit_kws_system
                 (audit_of ''multisig_escrow.disputed'' None ''multisig_escrow'' k) (md_db st)) (\<lambda>d.
               Inr (st\<lparr>md_db := d, md_escrows := modify_row k
                 (\<lambda>e. e\<lparr>me_state := ''disputed'', me_disputed_by := Some disputer, me_dispute_reason := Some reason\<rparr>)
                 (md_escrows st)\<rparr>)))"

end
