(* ===== verification/Multisig_Life.thy ===== *)
theory Multisig_Life
  imports Multisig Escrow_Sweep
begin

text \<open>
  Runs of multisig escrows together with the ordinary escrow operations on the same deals: the rounds of the key
  exchange, and what the balances, the deals and the recorded fees make of the money.
\<close>

section \<open>Runs\<close>

datatype msig_op =
    MsDeal escrow_op
  | MsCreate ident ident decimal int int int
  | MsRound ident string int string
  | MsRelease ident string
  | MsCosign ident string string
  | MsDispute ident string string

definition on_deals :: "moment \<Rightarrow> escrow_op \<Rightarrow> multisig_db \<Rightarrow> multisig_db outcome" where
  "on_deals now op st = map_sum id (\<lambda>d. st\<lparr>md_db := d\<rparr>) (escrow_exec now op (md_db st))"

fun msig_exec :: "msig_wallet option \<Rightarrow> moment \<Rightarrow> string \<Rightarrow> msig_op \<Rightarrow> multisig_db \<Rightarrow> multisig_db outcome" where
  "msig_exec w now rnd (MsDeal op) st = on_deals now op st"
| "msig_exec w now rnd (MsCreate b s x ah dh rh) st = map_sum id fst (multisig_create w rnd now b s x ah dh rh st)"
| "msig_exec w now rnd (MsRound k p n info) st = submit_round w rnd k p n info st"
| "msig_exec w now rnd (MsRelease k p) st = initiate_release w rnd k p st"
| "msig_exec w now rnd (MsCosign k p tx) st = cosign_release w rnd now k p tx st"
| "msig_exec w now rnd (MsDispute k p reason) st = multisig_dispute k p reason st"

definition msig_step :: "msig_wallet option \<Rightarrow> moment \<Rightarrow> string \<Rightarrow> msig_op \<Rightarrow> multisig_db \<Rightarrow> multisig_db" where
  "msig_step w now rnd op st = (case msig_exec w now rnd op st of Inl e \<Rightarrow> st | Inr st' \<Rightarrow> st')"

fun msig_run :: "msig_wallet option \<Rightarrow> (moment \<times> string \<times> msig_op) list \<Rightarrow> multisig_db \<Rightarrow> multisig_db" where
  "msig_run w [] st = st"
| "msig_run w ((now, rnd, op) # ops) st = msig_run w ops (msig_step w now rnd op st)"

text \<open>What every operation of a run meets, and the invariants it keeps.\<close>

fun all_steps :: "msig_wallet option \<Rightarrow> (msig_op \<Rightarrow> multisig_db \<Rightarrow> bool) \<Rightarrow> (moment \<times> string \<times> msig_op) list \<Rightarrow> multisig_db \<Rightarrow> bool" where
  "all_steps w Q [] st = True"
| "all_steps w Q ((now, rnd, op) # ops) st = (Q op st \<and> all_steps w Q ops (msig_step w now rnd op st))"

lemma msig_run_invariant:
  assumes step: "\<And>now rnd op st st'. P st \<Longrightarrow> Q op st \<Longrightarrow> msig_exec w now rnd op st = Inr st' \<Longrightarrow> P st'"
    and "P st" and "all_steps w Q ops st"
  shows "P (msig_run w ops st)"
  using assms(2,3)
proof (induction ops arbitrary: st)
  case (Cons q ops)
  obtain now rnd op where q: "q = (now, rnd, op)" by (metis prod.collapse)
  have "P (msig_step w now rnd op st)"
    using Cons.prems step by (auto simp: msig_step_def q split: sum.splits)
  from Cons.IH [OF this] Cons.prems(2) show ?case by (simp add: q)
qed simp

lemma map_sum_Inr: "map_sum id f x = Inr y \<longleftrightarrow> (\<exists>z. x = Inr z \<and> f z = y)"
  by (cases x) auto

section \<open>Rounds\<close>

definition participants_of :: "ident \<Rightarrow> int \<Rightarrow> round_table \<Rightarrow> string list" where
  "participants_of k n t = map (\<lambda>r. mr_participant (snd r)) (select_where (\<lambda>r. mr_escrow_id r = k \<and> mr_round_number r = n) t)"

lemma participants_of_Nil [simp]: "participants_of k n [] = []"
  by (simp add: participants_of_def select_where_def)

lemma participants_of_add:
  "participants_of k n (add_row r t) =
     participants_of k n t @ (if mr_escrow_id r = k \<and> mr_round_number r = n then [mr_participant r] else [])"
  by (simp add: participants_of_def select_where_def add_row_def insert_row_def)

lemma count_participants: "count_round_submissions k n t = length (participants_of k n t)"
  by (simp add: count_round_submissions_def participants_of_def)

lemma first_row_participants:
  "first_row (\<lambda>r. mr_escrow_id r = k \<and> mr_round_number r = n \<and> mr_participant r = p) t = None \<longleftrightarrow> p \<notin> set (participants_of k n t)"
  by (induction t) (auto simp: first_row_def participants_of_def select_where_def)

lemma add_round_effect:
  assumes "add_round k n p info t = Inr t'"
  shows "p \<in> set VALID_PARTICIPANTS" and "p \<notin> set (participants_of k n t)"
    and "participants_of k' n' t' = participants_of k' n' t @ (if k' = k \<and> n' = n then [p] else [])"
  using assms by (auto simp: add_round_def first_row_participants participants_of_add split: if_splits)

definition submissions_ok :: "round_table \<Rightarrow> bool" where
  "submissions_ok t \<longleftrightarrow> (\<forall>k n. distinct (participants_of k n t) \<and> set (participants_of k n t) \<subseteq> set VALID_PARTICIPANTS)"

lemma submissions_ok_add: "submissions_ok t \<Longrightarrow> add_round k n p info t = Inr t' \<Longrightarrow> submissions_ok t'"
  using add_round_effect [of k n p info t t'] by (auto simp: submissions_ok_def)

lemma three_participants:
  assumes "submissions_ok t" and "3 \<le> length (participants_of k n t)"
  shows "set (participants_of k n t) = {''buyer'', ''hub'', ''seller''}"
proof (rule card_subset_eq)
  show "set (participants_of k n t) \<subseteq> {''buyer'', ''hub'', ''seller''}"
    using assms(1) by (auto simp: submissions_ok_def VALID_PARTICIPANTS_def)
  then have "card (set (participants_of k n t)) \<le> card {''buyer'', ''hub'', ''seller'' :: string}" by (intro card_mono) auto
  moreover have "card (set (participants_of k n t)) = length (participants_of k n t)"
    using assms(1) by (simp add: submissions_ok_def distinct_card)
  ultimately show "card (set (participants_of k n t)) = card {''buyer'', ''hub'', ''seller'' :: string}" using assms(2) by simp
qed simp

text \<open>The round a state waits for; four when the exchange is over.\<close>

definition round_of_state :: "string \<Rightarrow> int option" where
  "round_of_state s =
     (if s = ''setup_round_1'' then Some 1 else if s = ''setup_round_2'' then Some 2
      else if s = ''setup_round_3'' then Some 3
      else if s \<in> {''funded'', ''releasing'', ''completed''} then Some 4 else None)"

definition rounds_at :: "ident \<Rightarrow> int \<Rightarrow> round_table \<Rightarrow> bool" where
  "rounds_at k i t \<longleftrightarrow> (\<forall>n \<in> {1, 2, 3}. n < i \<longrightarrow> length (participants_of k n t) = 3)
     \<and> (i \<le> 3 \<longrightarrow> length (participants_of k i t) \<le> 2) \<and> (\<forall>n. i < n \<longrightarrow> participants_of k n t = [])"

lemma rounds_at_cong: "(\<And>n. participants_of k n t' = participants_of k n t) \<Longrightarrow> rounds_at k i t' = rounds_at k i t"
  by (simp add: rounds_at_def)

definition exchange_ok :: "multisig_db \<Rightarrow> bool" where
  "exchange_ok st \<longleftrightarrow> submissions_ok (md_rounds st)
     \<and> (\<forall>k n. row_of (md_escrows st) k = None \<longrightarrow> participants_of k n (md_rounds st) = [])
     \<and> (\<forall>k e. row_of (md_escrows st) k = Some e \<longrightarrow>
          me_state e \<noteq> ''active'' \<and> (case round_of_state (me_state e) of None \<Rightarrow> True | Some i \<Rightarrow> rounds_at k i (md_rounds st)))"

text \<open>Every change of an escrow sets its state and keeps its fee and its deal.\<close>

definition escrow_edit :: "ident \<Rightarrow> string \<Rightarrow> msig_table \<Rightarrow> msig_table \<Rightarrow> bool" where
  "escrow_edit k s t t' \<longleftrightarrow> (\<exists>f. t' = modify_row k f t
     \<and> (\<forall>e. me_state (f e) = s \<and> me_fee_collected (f e) = me_fee_collected e \<and> me_funded_amount (f e) = me_funded_amount e
          \<and> me_escrow_deal_id (f e) = me_escrow_deal_id e))"

lemma escrow_edit_row:
  "escrow_edit k s t t' \<Longrightarrow> row_of t' k' = Some e' \<Longrightarrow>
     \<exists>e. row_of t k' = Some e \<and> me_fee_collected e' = me_fee_collected e \<and> me_escrow_deal_id e' = me_escrow_deal_id e
       \<and> (if k' = k then me_state e' = s else e' = e)"
  by (cases "k' = k") (auto simp: escrow_edit_def row_of_modify_row split: if_split_asm)

lemma escrow_edit_None: "escrow_edit k s t t' \<Longrightarrow> row_of t' k' = None \<longleftrightarrow> row_of t k' = None"
  by (auto simp: escrow_edit_def row_of_modify_row)

lemma modify_row_compose: "modify_row k g (modify_row k f t) = modify_row k (g \<circ> f) t"
  by (induction t) (auto simp: modify_row_def update_where_def)

lemma complete_round_effect:
  assumes "complete_round w rnd k n t st = Inr st'"
  shows "md_db st' = md_db st" and "escrow_edit k (snd (round_states n)) (md_escrows st) (md_escrows st')"
    and "\<exists>i. next_hub_round k n (snd (round_states n)) i t = Inr (md_rounds st')"
proof -
  obtain i f where st': "next_hub_round k n (snd (round_states n)) i t = Inr (md_rounds st')" "md_db st' = md_db st"
    "md_escrows st' = modify_row k f (md_escrows st)"
    "f = (\<lambda>e. e\<lparr>me_state := snd (round_states n)\<rparr>)
      \<or> (\<exists>a. f = (\<lambda>e. e\<lparr>me_multisig_address := Some a\<rparr>) \<circ> (\<lambda>e. e\<lparr>me_state := snd (round_states n)\<rparr>))"
    using assms by (fastforce simp: complete_round_def Let_def and_then_Inr_iff map_sum_Inr modify_row_compose split: if_split_asm)
  then show "md_db st' = md_db st" "\<exists>i. next_hub_round k n (snd (round_states n)) i t = Inr (md_rounds st')" by blast+
  show "escrow_edit k (snd (round_states n)) (md_escrows st) (md_escrows st')"
    unfolding escrow_edit_def using st'(3,4) by (intro exI [of _ f]) auto
qed

lemma submit_round_effect:
  assumes "submit_round w rnd k p n info st = Inr st'"
  obtains e t where "row_of (md_escrows st) k = Some e" "n \<in> {1, 2, 3}" "me_state e = fst (round_states n)"
    "add_round k n p info (md_rounds st) = Inr t"
    "st' = st\<lparr>md_rounds := t\<rparr> \<and> length (participants_of k n t) \<le> 2
      \<or> complete_round w rnd k n t st = Inr st' \<and> 3 \<le> length (participants_of k n t)"
  using assms that
  by (fastforce simp: submit_round_def and_then_Inr_iff count_participants PARTICIPANTS_PER_ROUND_def
      split: if_split_asm option.splits)

lemma next_hub_round_effect:
  assumes "next_hub_round k n (snd (round_states n)) i t = Inr t'" and "n \<in> {1, 2, 3}"
  obtains xs where "length xs \<le> 1"
    "\<forall>k' m. participants_of k' m t' = participants_of k' m t @ (if k' = k \<and> m = n + 1 then xs else [])"
    "submissions_ok t \<longrightarrow> submissions_ok t'"
proof (cases "t' = t")
  case True
  then show ?thesis by (intro that [of "[]"]) simp_all
next
  case False
  then obtain info where add: "add_round k (n + 1) ''hub'' info t = Inr t'"
    using assms(1) by (auto simp: next_hub_round_def split: option.splits if_split_asm)
  from add_round_effect(3) [OF add] submissions_ok_add [OF _ add] show ?thesis by (intro that [of "[''hub'']"]) simp_all
qed

lemma round_of_states:
  assumes "n \<in> {1, 2, 3}"
  shows "round_of_state (fst (round_states n)) = Some n" and "round_of_state (snd (round_states n)) = Some (n + 1)"
    and "snd (round_states n) \<noteq> ''active''"
  using assms by (auto simp: round_of_state_def round_states_def)

lemma exchange_okD:
  assumes "exchange_ok st"
  shows "submissions_ok (md_rounds st)" and "row_of (md_escrows st) k = None \<Longrightarrow> participants_of k n (md_rounds st) = []"
    and "row_of (md_escrows st) k = Some e \<Longrightarrow> me_state e \<noteq> ''active''"
    and "row_of (md_escrows st) k = Some e \<Longrightarrow> round_of_state (me_state e) = Some i \<Longrightarrow> rounds_at k i (md_rounds st)"
  using assms unfolding exchange_ok_def by (blast, blast, blast, fastforce)

text \<open>An edit of one escrow, with the submissions of that escrow only.\<close>

lemma exchange_ok_edit:
  assumes "exchange_ok st" and "escrow_edit k s (md_escrows st) (md_escrows st')" and "submissions_ok (md_rounds st')"
    and "row_of (md_escrows st) k \<noteq> None"
    and others: "\<And>k' n. k' \<noteq> k \<Longrightarrow> participants_of k' n (md_rounds st') = participants_of k' n (md_rounds st)"
    and "s \<noteq> ''active''" and own: "\<And>i. round_of_state s = Some i \<Longrightarrow> rounds_at k i (md_rounds st')"
  shows "exchange_ok st'"
  unfolding exchange_ok_def
proof (intro conjI allI impI)
  show "submissions_ok (md_rounds st')" by fact
next
  fix k' n assume "row_of (md_escrows st') k' = None"
  then have "row_of (md_escrows st) k' = None" using escrow_edit_None [OF assms(2)] by simp
  with assms(4) have "k' \<noteq> k" by auto
  then show "participants_of k' n (md_rounds st') = []"
    using others exchange_okD(2) [OF assms(1)] \<open>row_of (md_escrows st) k' = None\<close> by simp
next
  fix k' e' assume "row_of (md_escrows st') k' = Some e'"
  from escrow_edit_row [OF assms(2) this] obtain e where e: "row_of (md_escrows st) k' = Some e" "if k' = k then me_state e' = s else e' = e" by blast
  show "me_state e' \<noteq> ''active''" using e assms(6) exchange_okD(3) [OF assms(1)] by (auto split: if_split_asm)
  show "case round_of_state (me_state e') of None \<Rightarrow> True | Some i \<Rightarrow> rounds_at k' i (md_rounds st')"
  proof (cases "k' = k")
    case True
    with e own show ?thesis by (auto split: option.splits)
  next
    case False
    then show ?thesis
      using e exchange_okD(4) [OF assms(1) e(1)] rounds_at_cong [of k' "md_rounds st'" "md_rounds st"] others
      by (auto split: option.splits)
  qed
qed

lemma submit_round_exchange:
  assumes "submit_round w rnd k p n info st = Inr st'" and ok: "exchange_ok st"
  shows "exchange_ok st'"
proof -
  obtain e t where e: "row_of (md_escrows st) k = Some e" "n \<in> {1, 2, 3}" "me_state e = fst (round_states n)"
    and t: "add_round k n p info (md_rounds st) = Inr t"
    and outcome: "st' = st\<lparr>md_rounds := t\<rparr> \<and> length (participants_of k n t) \<le> 2
      \<or> complete_round w rnd k n t st = Inr st' \<and> 3 \<le> length (participants_of k n t)"
    by (rule submit_round_effect [OF assms(1)])
  note added = add_round_effect(3) [OF t]
  have before: "rounds_at k n (md_rounds st)" using exchange_okD(4) [OF ok e(1)] round_of_states(1) [OF e(2)] e(3) by simp
  have sub: "submissions_ok t" using submissions_ok_add [OF exchange_okD(1) [OF ok] t] .
  show ?thesis
    using outcome
  proof
    assume wait: "st' = st\<lparr>md_rounds := t\<rparr> \<and> length (participants_of k n t) \<le> 2"
    have own: "rounds_at k n t" using before wait by (simp add: rounds_at_def added)
    have "rounds_at k' i t" if row: "row_of (md_escrows st) k' = Some e'" "round_of_state (me_state e') = Some i" for k' e' i
    proof (cases "k' = k")
      case True
      with own row e round_of_states(1) [OF e(2)] show ?thesis by simp
    next
      case False
      then have "rounds_at k' i t = rounds_at k' i (md_rounds st)" by (intro rounds_at_cong) (simp add: added)
      with exchange_okD(4) [OF ok row] show ?thesis by simp
    qed
    moreover have "participants_of k' m t = []" if "row_of (md_escrows st) k' = None" for k' m
      using that e(1) exchange_okD(2) [OF ok that] by (auto simp: added)
    ultimately show ?thesis
      using sub exchange_okD(3) [OF ok] wait unfolding exchange_ok_def by (auto split: option.splits)
  next
    assume adv: "complete_round w rnd k n t st = Inr st' \<and> 3 \<le> length (participants_of k n t)"
    then have run: "complete_round w rnd k n t st = Inr st'" by simp
    obtain i where hub: "next_hub_round k n (snd (round_states n)) i t = Inr (md_rounds st')"
      using complete_round_effect(3) [OF run] by blast
    obtain xs where xs: "length xs \<le> 1"
      "\<forall>k' m. participants_of k' m (md_rounds st') = participants_of k' m t @ (if k' = k \<and> m = n + 1 then xs else [])"
      "submissions_ok t \<longrightarrow> submissions_ok (md_rounds st')"
      by (rule next_hub_round_effect [OF hub e(2)])
    have "length (participants_of k n t) = 3"
      using adv before e(2) by (auto simp: rounds_at_def added)
    then have "rounds_at k (n + 1) (md_rounds st')"
      using before e(2) xs(1) by (auto simp: rounds_at_def added xs(2))
    then show ?thesis
      using round_of_states(2,3) [OF e(2)] xs(3) sub e(1)
      by (intro exchange_ok_edit [OF ok complete_round_effect(2) [OF run]]) (simp_all add: xs(2) added)
  qed
qed

section \<open>The other operations\<close>

lemma initiate_release_effect:
  assumes "initiate_release w rnd k p st = Inr st'"
  obtains e where "row_of (md_escrows st) k = Some e" "me_state e = ''funded'' \<or> me_state e = ''active''"
    "escrow_edit k ''releasing'' (md_escrows st) (md_escrows st')" "md_rounds st' = md_rounds st" "md_db st' = md_db st"
proof -
  obtain e tx where "row_of (md_escrows st) k = Some e" "me_state e = ''funded'' \<or> me_state e = ''active''"
    "st' = st\<lparr>md_escrows := modify_row k
       (\<lambda>e. e\<lparr>me_state := ''releasing'', me_release_initiator := Some p, me_release_tx_hex := Some tx\<rparr>) (md_escrows st)\<rparr>"
    using assms by (auto simp: initiate_release_def map_sum_Inr split: if_split_asm option.splits)
  then show ?thesis by (intro that) (auto simp: escrow_edit_def)
qed

lemma cosign_release_effect:
  assumes "cosign_release w rnd now k p tx st = Inr st'"
  obtains e where "row_of (md_escrows st) k = Some e" "me_state e = ''releasing''"
    "escrow_edit k ''completed'' (md_escrows st) (md_escrows st')" "md_rounds st' = md_rounds st"
proof -
  obtain e h where "row_of (md_escrows st) k = Some e" "me_state e = ''releasing''" "md_rounds st' = md_rounds st"
    "md_escrows st' = modify_row k (\<lambda>e. e\<lparr>me_state := ''completed'', me_funded_tx_hash := Some h\<rparr>) (md_escrows st)"
    using assms by (auto simp: cosign_release_def map_sum_Inr split: if_split_asm option.splits)
  then show ?thesis by (intro that) (auto simp: escrow_edit_def)
qed

lemma multisig_dispute_effect:
  assumes "multisig_dispute k p reason st = Inr st'"
  obtains e where "row_of (md_escrows st) k = Some e" "escrow_edit k ''disputed'' (md_escrows st) (md_escrows st')"
    "md_rounds st' = md_rounds st" "md_db st' = (md_db st)\<lparr>audit_log := audit_log (md_db st')\<rparr>"
proof -
  obtain e where "row_of (md_escrows st) k = Some e" "md_rounds st' = md_rounds st" "md_db st' = (md_db st)\<lparr>audit_log := audit_log (md_db st')\<rparr>"
    "md_escrows st' = modify_row k (\<lambda>e. e\<lparr>me_state := ''disputed'', me_disputed_by := Some p, me_dispute_reason := Some reason\<rparr>) (md_escrows st)"
    using assms by (auto simp: multisig_dispute_def escrow_frame split: if_split_asm option.splits)
  then show ?thesis by (intro that) (auto simp: escrow_edit_def)
qed

lemma multisig_create_effect:
  assumes "multisig_create w rnd now b s x ah dh rh st = Inr (st', k)"
  obtains e t info where "deduct now b x ''XMR'' (balances (md_db st)) = Inr t" "b \<noteq> s" "0 < x"
    "k = new_id (md_escrows st)" "md_escrows st' = add_row e (md_escrows st)"
    "add_round k 1 ''hub'' info (md_rounds st) = Inr (md_rounds st')" "me_state e = ''setup_round_1''"
    "me_fee_collected e = quantize8 (x * FEE_PERCENT)" "me_funded_amount e = x - me_fee_collected e"
    "me_escrow_deal_id e = new_id (escrow_deals (md_db st))" "balances (md_db st') = t"
    "escrow_deals (md_db st') = add_row (escrow_create now b s x ah dh rh FEE_PERCENT) (escrow_deals (md_db st))"
    "escrow_milestones (md_db st') = escrow_milestones (md_db st)"
    "fee_collections (md_db st') = add_row (multisig_fee_row now k (me_fee_collected e)) (fee_collections (md_db st))"
    "\<exists>d'. create_escrow now b s x ah dh rh ''free'' None (md_db st) = Inr (d', new_id (escrow_deals (md_db st)))"
proof -
  let ?fee = "quantize8 (x * FEE_PERCENT)"
  let ?e = "\<lparr>me_escrow_deal_id = new_id (escrow_deals (md_db st)), me_multisig_address = None, me_state = ''setup_round_1'',
    me_fee_collected = ?fee, me_funded_amount = x - ?fee, me_funded_tx_hash = None, me_release_tx_hex = None,
    me_release_initiator = None, me_dispute_reason = None, me_disputed_by = None, me_timeout_at = now + hours SETUP_TIMEOUT_HOURS\<rparr>"
  obtain seller t info rounds where *: "deduct now b x ''XMR'' (balances (md_db st)) = Inr t" "b \<noteq> s" "0 < x"
    "row_of (agents (md_db st)) s = Some seller" "ag_is_active seller" "k = new_id (md_escrows st)"
    "add_round k 1 ''hub'' info (md_rounds st) = Inr rounds"
    "st' = \<lparr>md_db = (md_db st)\<lparr>balances := t, escrow_deals := add_row (escrow_create now b s x ah dh rh FEE_PERCENT) (escrow_deals (md_db st)),
        fee_collections := add_row (multisig_fee_row now k ?fee) (fee_collections (md_db st)),
        audit_log := audit_log (md_db st) @ [audit_of ''multisig_escrow.created'' (Some b) ''multisig_escrow'' k]\<rparr>,
      md_escrows = add_row ?e (md_escrows st), md_rounds = rounds\<rparr>"
    using assms by (auto simp: multisig_create_def Let_def and_then_Inr_iff escrow_frame not_le split: if_split_asm option.splits)
  show ?thesis
    by (rule that [of t ?e info])
      (use * in \<open>auto simp: create_escrow_def escrow_frame Let_def\<close>)
qed

lemma multisig_create_exchange:
  assumes "multisig_create w rnd now b s x ah dh rh st = Inr (st', k)" and ok: "exchange_ok st"
  shows "exchange_ok st'"
proof -
  obtain e info where e: "k = new_id (md_escrows st)" "md_escrows st' = add_row e (md_escrows st)"
    "add_round k 1 ''hub'' info (md_rounds st) = Inr (md_rounds st')" "me_state e = ''setup_round_1''"
    by (rule multisig_create_effect [OF assms(1)]) blast
  note added = add_round_effect(3) [OF e(3)]
  have fresh: "participants_of k n (md_rounds st) = []" for n by (rule exchange_okD(2) [OF ok]) (simp add: e(1))
  have same: "participants_of k' n (md_rounds st') = participants_of k' n (md_rounds st)" if "k' \<noteq> k" for k' n
    using that by (simp add: added)
  have "submissions_ok (md_rounds st')" by (rule submissions_ok_add [OF exchange_okD(1) [OF ok] e(3)])
  moreover have "participants_of k' n (md_rounds st') = []" if "row_of (md_escrows st') k' = None" for k' n
    using that exchange_okD(2) [OF ok] by (auto simp: e(1,2) row_of_add_row same split: if_split_asm)
  moreover have "me_state e' \<noteq> ''active'' \<and> (case round_of_state (me_state e') of None \<Rightarrow> True | Some i \<Rightarrow> rounds_at k' i (md_rounds st'))"
    if row: "row_of (md_escrows st') k' = Some e'" for k' e'
  proof (cases "k' = k")
    case True
    then have "e' = e" using row by (simp add: e(1,2))
    then show ?thesis by (simp add: e(4) round_of_state_def rounds_at_def True added fresh)
  next
    case False
    then have old: "row_of (md_escrows st) k' = Some e'" using row by (simp add: e(1,2) row_of_add_row)
    have "rounds_at k' i (md_rounds st') = rounds_at k' i (md_rounds st)" for i
      using False by (intro rounds_at_cong same)
    then show ?thesis using exchange_okD(3,4) [OF ok old] by (auto split: option.splits)
  qed
  ultimately show ?thesis unfolding exchange_ok_def by blast
qed

lemma exchange_exec:
  assumes "exchange_ok st" and "msig_exec w now rnd op st = Inr st'"
  shows "exchange_ok st'"
proof (cases op)
  case (MsDeal dop)
  then obtain d where "st' = st\<lparr>md_db := d\<rparr>" using assms(2) by (auto simp: on_deals_def map_sum_Inr)
  then have same: "md_rounds st' = md_rounds st" "md_escrows st' = md_escrows st" by simp_all
  from assms(1) show ?thesis unfolding exchange_ok_def same .
next
  case (MsCreate b s x ah dh rh)
  then show ?thesis using assms by (auto simp: map_sum_fst_Inr intro: multisig_create_exchange)
next
  case (MsRound k p n info)
  then show ?thesis using assms by (auto intro: submit_round_exchange)
next
  case (MsRelease k p)
  then have "initiate_release w rnd k p st = Inr st'" using assms(2) by simp
  from initiate_release_effect [OF this] obtain e where e: "row_of (md_escrows st) k = Some e"
    "me_state e = ''funded'' \<or> me_state e = ''active''" "escrow_edit k ''releasing'' (md_escrows st) (md_escrows st')"
    "md_rounds st' = md_rounds st" by blast
  have "rounds_at k 4 (md_rounds st)"
    using e(2) exchange_okD(3,4) [OF assms(1) e(1)] by (auto simp: round_of_state_def)
  then show ?thesis
    using e exchange_okD(1) [OF assms(1)]
    by (intro exchange_ok_edit [OF assms(1) e(3)]) (auto simp: round_of_state_def)
next
  case (MsCosign k p tx)
  then have "cosign_release w rnd now k p tx st = Inr st'" using assms(2) by simp
  from cosign_release_effect [OF this] obtain e where e: "row_of (md_escrows st) k = Some e" "me_state e = ''releasing''"
    "escrow_edit k ''completed'' (md_escrows st) (md_escrows st')" "md_rounds st' = md_rounds st" by blast
  have "rounds_at k 4 (md_rounds st)" using exchange_okD(4) [OF assms(1) e(1)] e(2) by (simp add: round_of_state_def)
  then show ?thesis
    using e exchange_okD(1) [OF assms(1)]
    by (intro exchange_ok_edit [OF assms(1) e(3)]) (auto simp: round_of_state_def)
next
  case (MsDispute k p reason)
  then have "multisig_dispute k p reason st = Inr st'" using assms(2) by simp
  from multisig_dispute_effect [OF this] obtain e where e: "row_of (md_escrows st) k = Some e"
    "escrow_edit k ''disputed'' (md_escrows st) (md_escrows st')" "md_rounds st' = md_rounds st" by blast
  then show ?thesis
    using exchange_okD(1) [OF assms(1)]
    by (intro exchange_ok_edit [OF assms(1) e(2)]) (auto simp: round_of_state_def)
qed

lemma all_steps_True: "all_steps w (\<lambda>_ _. True) ops st"
  by (induction ops arbitrary: st) auto

section \<open>Money\<close>

definition msig_fees :: "multisig_db \<Rightarrow> decimal" where
  "msig_fees st = table_sum (\<lambda>k. me_fee_collected) (md_escrows st)"

definition books :: "token \<Rightarrow> multisig_db \<Rightarrow> decimal" where
  "books u st = escrow_wealth u (md_db st) - (if u = ''XMR'' then msig_fees st else 0)"

definition unreleased :: "msig_table \<Rightarrow> bool" where
  "unreleased t \<longleftrightarrow> list_all (\<lambda>(k, e). me_state e \<notin> {''releasing'', ''completed''}) t"

lemma edit_fees: "escrow_edit k s t t' \<Longrightarrow> table_sum (\<lambda>k. me_fee_collected) t' = table_sum (\<lambda>k. me_fee_collected) t"
proof -
  assume "escrow_edit k s t t'"
  then obtain f where "t' = modify_row k f t" and f: "\<forall>e. me_fee_collected (f e) = me_fee_collected e"
    by (auto simp: escrow_edit_def)
  moreover have "table_sum (\<lambda>k. me_fee_collected) (modify_row k f u) = table_sum (\<lambda>k. me_fee_collected) u" for u
    using f by (induction u) (auto simp: modify_row_def update_where_def)
  ultimately show ?thesis by simp
qed

lemma edit_unreleased:
  assumes "escrow_edit k s t t'" and "unreleased t" and "s \<noteq> ''releasing''" and "s \<noteq> ''completed''"
  shows "unreleased t'"
proof -
  obtain f where "t' = modify_row k f t" and f: "\<forall>e. me_state (f e) = s" using assms(1) by (auto simp: escrow_edit_def)
  moreover have "unreleased u \<Longrightarrow> unreleased (modify_row k f u)" for u
    using f assms(3,4) by (fastforce simp: unreleased_def modify_row_def update_where_def list_all_iff split: if_split_asm)
  ultimately show ?thesis using assms(2) by simp
qed

lemma escrow_ok_tables:
  "balances d' = balances d \<Longrightarrow> escrow_deals d' = escrow_deals d \<Longrightarrow> escrow_milestones d' = escrow_milestones d
    \<Longrightarrow> escrow_ok d' = escrow_ok d"
  by (simp add: escrow_ok_def)

lemma multisig_create_money:
  assumes "multisig_create w rnd now b s x ah dh rh st = Inr (st', k)" and "escrow_ok (md_db st)"
  shows "escrow_ok (md_db st')" and "books u st' = books u st" and "unreleased (md_escrows st) \<Longrightarrow> unreleased (md_escrows st')"
proof -
  obtain e t d' where e: "deduct now b x ''XMR'' (balances (md_db st)) = Inr t" "balances (md_db st') = t"
    "escrow_deals (md_db st') = add_row (escrow_create now b s x ah dh rh FEE_PERCENT) (escrow_deals (md_db st))"
    "escrow_milestones (md_db st') = escrow_milestones (md_db st)"
    "fee_collections (md_db st') = add_row (multisig_fee_row now k (me_fee_collected e)) (fee_collections (md_db st))"
    "md_escrows st' = add_row e (md_escrows st)" "me_state e = ''setup_round_1''"
    and run: "create_escrow now b s x ah dh rh ''free'' None (md_db st) = Inr (d', new_id (escrow_deals (md_db st)))"
    by (rule multisig_create_effect [OF assms(1)]) blast
  obtain t1 where "deduct now b x ''XMR'' (balances (md_db st)) = Inr t1" "balances d' = t1"
    "fee_collections d' = fee_collections (md_db st)" "escrow_milestones d' = escrow_milestones (md_db st)"
    "escrow_deals d' = add_row (escrow_create now b s x ah dh rh FEE_PERCENT) (escrow_deals (md_db st))"
    by (rule create_escrow_Inr [OF run]) (simp add: FEE_PERCENT_def)
  then have d': "balances (md_db st') = balances d'" "escrow_deals (md_db st') = escrow_deals d'"
    "escrow_milestones (md_db st') = escrow_milestones d'"
    "fee_collections (md_db st') = add_row (multisig_fee_row now k (me_fee_collected e)) (fee_collections d')"
    using e by simp_all
  have ok: "escrow_ok d'" and wealth: "escrow_wealth u d' = escrow_wealth u (md_db st)"
    using create_escrow_effect [OF run assms(2)] by auto
  show "escrow_ok (md_db st')" using ok escrow_ok_tables [OF d'(1-3)] by simp
  have "escrow_wealth u (md_db st') = escrow_wealth u d' + (if u = ''XMR'' then me_fee_collected e else 0)"
    by (simp add: escrow_wealth_def escrow_custody_def d' fee_total_def table_sum_add_row multisig_fee_row_def)
  then show "books u st' = books u st" by (simp add: books_def wealth msig_fees_def e(6) table_sum_add_row)
  show "unreleased (md_escrows st')" if "unreleased (md_escrows st)"
    using that by (simp add: unreleased_def e(6,7) add_row_def insert_row_def)
qed

text \<open>What the application serves: no release is ever initiated, and deals are handled as in \<open>Escrow_Life\<close>.\<close>

fun served_op :: "msig_op \<Rightarrow> multisig_db \<Rightarrow> bool" where
  "served_op (MsDeal op) st = (valid_op op \<and> \<not> irregular op (md_db st))"
| "served_op (MsRelease k p) st = False"
| "served_op op st = True"

definition books_ok :: "token \<Rightarrow> decimal \<Rightarrow> multisig_db \<Rightarrow> bool" where
  "books_ok u x st \<longleftrightarrow> escrow_ok (md_db st) \<and> unreleased (md_escrows st) \<and> books u st = x"

lemma edit_books:
  assumes "books_ok u x st" and "escrow_edit k s (md_escrows st) (md_escrows st')" and "s \<noteq> ''releasing''" "s \<noteq> ''completed''"
    and d: "md_db st' = (md_db st)\<lparr>audit_log := l\<rparr>"
  shows "books_ok u x st'"
proof -
  have "msig_fees st' = msig_fees st" using edit_fees [OF assms(2)] by (simp add: msig_fees_def)
  then show ?thesis
    using assms(1) edit_unreleased [OF assms(2) _ assms(3,4)] escrow_ok_tables [of "md_db st'" "md_db st"]
    by (cases "u = ''XMR''") (simp_all add: books_ok_def books_def d escrow_wealth_def escrow_custody_def)
qed

lemma served_books:
  assumes ok: "books_ok u x st" and "served_op op st" and "msig_exec w now rnd op st = Inr st'"
  shows "books_ok u x st'"
proof (cases op)
  case (MsDeal dop)
  then obtain d where d: "escrow_exec now dop (md_db st) = Inr d" "st' = st\<lparr>md_db := d\<rparr>" "valid_op dop" "\<not> irregular dop (md_db st)"
    using assms(2,3) by (auto simp: on_deals_def map_sum_Inr)
  have "deals_evolve (md_db st) d" "escrow_wealth u d = escrow_wealth u (md_db st)"
    using escrow_exec_ok [OF d(1) _ d(3)] ok d(4) by (auto simp: books_ok_def)
  moreover have "msig_fees st' = msig_fees st" by (simp add: d(2) msig_fees_def)
  ultimately show ?thesis using ok by (cases "u = ''XMR''") (simp_all add: d(2) books_ok_def books_def deals_evolve_def)
next
  case (MsCreate b s y ah dh rh)
  then obtain k where "multisig_create w rnd now b s y ah dh rh st = Inr (st', k)" using assms(3) by (auto simp: map_sum_fst_Inr)
  from multisig_create_money [OF this] ok show ?thesis by (simp add: books_ok_def)
next
  case (MsRound k p n info)
  then obtain t where "n \<in> {1, 2, 3}" and outcome: "st' = st\<lparr>md_rounds := t\<rparr> \<or> complete_round w rnd k n t st = Inr st'"
    using assms(3) by (auto elim!: submit_round_effect)
  from outcome show ?thesis
  proof
    assume "st' = st\<lparr>md_rounds := t\<rparr>"
    moreover from this have "msig_fees st' = msig_fees st" by (simp add: msig_fees_def)
    ultimately show ?thesis using ok by (cases "u = ''XMR''") (simp_all add: books_ok_def books_def)
  next
    assume run: "complete_round w rnd k n t st = Inr st'"
    have "md_db st' = (md_db st)\<lparr>audit_log := audit_log (md_db st)\<rparr>" using complete_round_effect(1) [OF run] by simp
    from edit_books [OF ok complete_round_effect(2) [OF run] _ _ this] show ?thesis by (simp add: round_states_def)
  qed
next
  case (MsRelease k p)
  with assms(2) show ?thesis by simp
next
  case (MsCosign k p tx)
  then have "cosign_release w rnd now k p tx st = Inr st'" using assms(3) by simp
  from cosign_release_effect [OF this] obtain e where "row_of (md_escrows st) k = Some e" "me_state e = ''releasing''" by blast
  with ok show ?thesis by (auto simp: books_ok_def unreleased_def list_all_iff dest!: row_of_Some_mem)
next
  case (MsDispute k p reason)
  then have "multisig_dispute k p reason st = Inr st'" using assms(3) by simp
  from multisig_dispute_effect [OF this] obtain l where
    "escrow_edit k ''disputed'' (md_escrows st) (md_escrows st')" "md_db st' = (md_db st)\<lparr>audit_log := l\<rparr>" by blast
  from edit_books [OF ok this(1) _ _ this(2)] show ?thesis by simp
qed

section \<open>Properties\<close>

text \<open>C33. The key exchange is complete when an address appears: in any run the rounds before the one a multisig
  escrow waits for have been submitted exactly once by each of buyer, hub and seller, that round by at most two
  of them, and no later round by anyone; a funded, releasing or completed escrow has all three rounds.\<close>

theorem exchange_rounds_complete:
  assumes "exchange_ok st" and "row_of (md_escrows (msig_run w ops st)) k = Some e" and "round_of_state (me_state e) = Some i"
    and "n \<in> {1, 2, 3}" and "ps = participants_of k n (md_rounds (msig_run w ops st))"
  shows "distinct ps \<and> (if n < i then set ps = {''buyer'', ''hub'', ''seller''} else if n = i then length ps \<le> 2 else ps = [])"
proof -
  let ?st = "msig_run w ops st"
  have ok: "exchange_ok ?st"
    by (rule msig_run_invariant [where P = exchange_ok and Q = "\<lambda>_ _. True", OF exchange_exec assms(1) all_steps_True])
  have rounds: "rounds_at k i (md_rounds ?st)" by (rule exchange_okD(4) [OF ok assms(2,3)])
  have sub: "submissions_ok (md_rounds ?st)" by (rule exchange_okD(1) [OF ok])
  then have "distinct ps" unfolding assms(5) submissions_ok_def by blast
  moreover have "set ps = {''buyer'', ''hub'', ''seller''}" if "n < i"
    using three_participants [OF sub, of k n] rounds assms(4) that by (auto simp: rounds_at_def assms(5))
  moreover have "length ps \<le> 2" if "n = i" using rounds assms(4) that by (auto simp: rounds_at_def assms(5))
  moreover have "ps = []" if "i < n" using rounds that by (simp add: rounds_at_def assms(5))
  ultimately show ?thesis by simp
qed

definition demo_st :: multisig_db where
  "demo_st = \<lparr>md_db = demo_db, md_escrows = [], md_rounds = []\<rparr>"

lemma demo_st_ok: "exchange_ok demo_st" "escrow_ok (md_db demo_st)" "unreleased (md_escrows demo_st)"
  by (simp_all add: exchange_ok_def submissions_ok_def demo_st_def demo_db_ok unreleased_def)

definition demo_rounds :: "(moment \<times> string \<times> msig_op) list" where
  "demo_rounds = [(1, ''r'', MsCreate 1 2 100 24 48 24), (2, ''s'', MsRound 1 ''seller'' 1 ''x''),
     (3, ''t'', MsRound 1 ''seller'' 1 ''y''), (4, ''u'', MsRound 1 ''buyer'' 1 ''z'')]"

lemmas msig_eval = msig_step_def multisig_create_def submit_round_def complete_round_def add_round_def next_hub_round_def
  process_hub_round_def prepare_multisig_for_hub_def round_states_def count_round_submissions_def VALID_PARTICIPANTS_def
  PARTICIPANTS_PER_ROUND_def escrow_frame first_row_def select_where_def demo_st_def demo_db_def deduct_def
  locked_row_def get_for_update_def get_or_create_def

lemma demo_exchange_row: "\<exists>e. row_of (md_escrows (msig_run None demo_rounds demo_st)) 1 = Some e \<and> me_state e = ''setup_round_2''"
  by (simp add: demo_rounds_def msig_eval row_of_def add_row_def insert_row_def new_id_def keys_of_def modify_row_def update_where_def Let_def)

theorem exchange_rounds_complete_witness:
  "set (participants_of 1 1 (md_rounds (msig_run None demo_rounds demo_st))) = {''buyer'', ''hub'', ''seller''}"
proof -
  obtain e where e: "row_of (md_escrows (msig_run None demo_rounds demo_st)) 1 = Some e" "me_state e = ''setup_round_2''"
    using demo_exchange_row by blast
  have "round_of_state (me_state e) = Some 2" by (simp add: e(2) round_of_state_def)
  from exchange_rounds_complete [OF demo_st_ok(1) e(1) this _ refl, of 1] show ?thesis by simp
qed

text \<open>C34. What multisig escrows do to the books: over any run of what the application serves, except an expiry of
  a deal with milestones that does not conserve money (the deal of a multisig escrow has none), each multisig escrow
  adds its one per cent to what the hub has promised (balances, deals in custody and recorded fees), for the fee
  is recorded as collected and the deal stays refundable in full; and none of them is ever released, since no
  endpoint starts a release.\<close>

theorem served_multisig_books:
  assumes "escrow_ok (md_db st)" and "unreleased (md_escrows st)" and "all_steps w served_op ops st"
  shows "escrow_wealth u (md_db (msig_run w ops st)) =
      escrow_wealth u (md_db st) + (if u = ''XMR'' then msig_fees (msig_run w ops st) - msig_fees st else 0)
    \<and> unreleased (md_escrows (msig_run w ops st))"
proof -
  have "books_ok u (books u st) (msig_run w ops st)"
    by (rule msig_run_invariant [where P = "books_ok u (books u st)" and Q = served_op, OF served_books _ assms(3)]) (use assms(1,2) in \<open>simp_all add: books_ok_def\<close>)
  then show ?thesis by (cases "u = ''XMR''") (auto simp: books_ok_def books_def)
qed

definition demo_books :: "(moment \<times> string \<times> msig_op) list" where
  "demo_books = [(1, ''r'', MsCreate 1 2 100 24 48 24), (2, ''s'', MsCosign 1 ''buyer'' ''tx''), (3, ''t'', MsDeal (OpAccept 1 2))]"

lemma demo_books_fees: "msig_fees (msig_run None demo_books demo_st) = 1" "msig_fees demo_st = 0"
  by (auto simp: demo_books_def msig_eval row_of_def add_row_def insert_row_def new_id_def keys_of_def Let_def map_sum_Inr
      cosign_release_def on_deals_def msig_fees_def table_sum_def quantize8_def FEE_PERCENT_def round_half_even_def
      split: sum.split)

theorem served_multisig_books_witness:
  "escrow_wealth ''XMR'' (md_db (msig_run None demo_books demo_st)) = escrow_wealth ''XMR'' demo_db + 1"
  using served_multisig_books [OF demo_st_ok(2,3), of None demo_books "''XMR''"]
  unfolding demo_books_fees by (simp add: demo_books_def demo_st_def)

text \<open>A refund keeps the fee and the escrow: when the deal of a multisig escrow expires before it is accepted,
  the buyer gets back all it paid, while the one per cent stays recorded as collected and the multisig escrow
  goes on, still counting the rest as funded.\<close>

lemma multisig_refund_keeps_fee:
  assumes "multisig_create w rnd now b s x ah dh rh st = Inr (st1, k)" and "escrow_ok (md_db st)"
    and "row_of (md_escrows st1) k = Some e"
    and "resolve_single now' (me_escrow_deal_id e) (md_db st1) = Inr (d2, expired)"
  shows "available_of b ''XMR'' (balances d2) = available_of b ''XMR'' (balances (md_db st)) \<and> expired
    \<and> (\<exists>f. row_of (fee_collections d2) f = Some (multisig_fee_row now k (quantize8 (x * FEE_PERCENT))))
    \<and> me_state e = ''setup_round_1'' \<and> me_funded_amount e = x - quantize8 (x * FEE_PERCENT)"
proof -
  obtain e' t where c: "deduct now b x ''XMR'' (balances (md_db st)) = Inr t" "balances (md_db st1) = t"
    "k = new_id (md_escrows st)" "md_escrows st1 = add_row e' (md_escrows st)" "me_state e' = ''setup_round_1''"
    "me_fee_collected e' = quantize8 (x * FEE_PERCENT)" "me_funded_amount e' = x - me_fee_collected e'"
    "me_escrow_deal_id e' = new_id (escrow_deals (md_db st))"
    "escrow_deals (md_db st1) = add_row (escrow_create now b s x ah dh rh FEE_PERCENT) (escrow_deals (md_db st))"
    "fee_collections (md_db st1) = add_row (multisig_fee_row now k (me_fee_collected e')) (fee_collections (md_db st))"
    by (rule multisig_create_effect [OF assms(1)]) blast
  have e: "e = e'" using assms(3) by (simp add: c(3,4))
  let ?r = "escrow_create now b s x ah dh rh FEE_PERCENT"
  have row: "row_of (escrow_deals (md_db st1)) (me_escrow_deal_id e) = Some ?r" by (simp add: e c(8,9))
  have "expire_not_accepted now' (me_escrow_deal_id e) ?r (md_db st1) = Inr (d2, expired)"
    using assms(4) row by (simp add: resolve_single_def escrow_create_def)
  moreover have "escrow_ok (md_db st1)" by (rule multisig_create_money(1) [OF assms(1,2)])
  ultimately obtain r' where "expired" "balances d2 = credit now' b x ''XMR'' t" "fee_collections d2 = fee_collections (md_db st1)"
    using row by (elim expire_not_accepted_effect) (simp_all add: escrow_create_def token_or_xmr_def c(2))
  moreover have "table_ok (balances (md_db st))" using escrow_okD(1) [OF assms(2)] .
  ultimately show ?thesis
    using deduct_Inr [OF c(1)] c(5-7) by (auto simp: available_credit e c(10) intro: row_of_add_row_new)
qed

lemma multisig_refund_keeps_fee_witness:
  "\<exists>st1 k e d2. multisig_create None ''r'' 1 1 2 100 24 48 24 demo_st = Inr (st1, k) \<and> row_of (md_escrows st1) k = Some e
    \<and> resolve_single 100 (me_escrow_deal_id e) (md_db st1) = Inr (d2, True) \<and> me_funded_amount e = 99
    \<and> available_of 1 ''XMR'' (balances d2) = available_of 1 ''XMR'' (balances (md_db demo_st))"
proof -
  obtain st1 k where c: "multisig_create None ''r'' 1 1 2 100 24 48 24 demo_st = Inr (st1, k)"
    by (simp add: msig_eval row_of_def add_row_def insert_row_def new_id_def keys_of_def Let_def)
  obtain e where "k = new_id (md_escrows demo_st)" "md_escrows st1 = add_row e (md_escrows demo_st)"
    by (rule multisig_create_effect [OF c]) blast
  then have e: "row_of (md_escrows st1) k = Some e" by simp
  obtain d2 b where r: "resolve_single 100 (me_escrow_deal_id e) (md_db st1) = Inr (d2, b)" using resolve_single_returns by blast
  have "quantize8 (100 * FEE_PERCENT) = 1" by (simp add: quantize8_def FEE_PERCENT_def round_half_even_def)
  with multisig_refund_keeps_fee [OF c demo_st_ok(2) e r] c e r show ?thesis by auto
qed

end
