(* ===== verification/Matchmaking.thy ===== *)
theory Matchmaking
  imports Sla_Life Reviews
begin

text \<open>
  Matchmaking: \<open>sthrip/services/matchmaking_service.py\<close>, \<open>sthrip/db/matchmaking_repo.py\<close> and the endpoints in
  \<open>api/routers/matchmaking.py\<close>. A request names capabilities, a budget, a deadline and a minimum rating; the best
  agent with a fitting template is matched, and the match is turned into a service level agreement of \<open>Sla\<close>.

  The capabilities of an agent and the time it was last seen are columns of its row that only this part reads;
  they are kept in a table of their own. Scores are computed with floats in the source and with exact rationals
  here. \<open>ORDER BY base_price\<close> leaves the order of equal prices to the database; here it is that of the table.
\<close>

section \<open>Rows\<close>

datatype match_status = MatchSearching | MatchMatched | MatchAssigned | MatchExpired

record match_request =
  mq_requester_id :: ident
  mq_required_capabilities :: "string list"
  mq_budget :: decimal
  mq_currency :: token
  mq_deadline_secs :: int
  mq_min_rating :: decimal
  mq_auto_assign :: bool
  mq_matched_agent_id :: "ident option"
  mq_sla_contract_id :: "ident option"
  mq_state :: match_status
  mq_created_at :: moment
  mq_expires_at :: moment

record agent_profile =
  pf_capabilities :: "string list"
  pf_last_seen_at :: "moment option"

type_synonym match_table = "(ident, match_request) table"

record match_db =
  mt_db :: db
  mt_requests :: match_table
  mt_summaries :: "(ident, rating_summary) table"
  mt_profiles :: "(ident, agent_profile) table"

definition profile_of :: "ident \<Rightarrow> match_db \<Rightarrow> agent_profile" where
  "profile_of a st = (case row_of (mt_profiles st) a of None \<Rightarrow> \<lparr>pf_capabilities = [], pf_last_seen_at = None\<rparr> | Some p \<Rightarrow> p)"

section \<open>The repository\<close>

definition match_create ::
  "moment \<Rightarrow> ident \<Rightarrow> string list \<Rightarrow> decimal \<Rightarrow> token \<Rightarrow> int \<Rightarrow> decimal \<Rightarrow> bool \<Rightarrow> moment \<Rightarrow> match_request"
where
  "match_create now a caps budget currency deadline min_rating auto_assign expires_at =
     \<lparr>mq_requester_id = a, mq_required_capabilities = caps, mq_budget = budget, mq_currency = currency,
      mq_deadline_secs = deadline, mq_min_rating = min_rating, mq_auto_assign = auto_assign,
      mq_matched_agent_id = None, mq_sla_contract_id = None, mq_state = MatchSearching,
      mq_created_at = now, mq_expires_at = expires_at\<rparr>"

text \<open>A \<open>None\<close> leaves the column as it is.\<close>

definition update_match :: "ident option \<Rightarrow> ident option \<Rightarrow> match_status \<Rightarrow> ident \<Rightarrow> match_table \<Rightarrow> match_table" where
  "update_match agent contract s k =
     modify_row k (\<lambda>q. q\<lparr>mq_state := s,
       mq_matched_agent_id := (if agent = None then mq_matched_agent_id q else agent),
       mq_sla_contract_id := (if contract = None then mq_sla_contract_id q else contract)\<rparr>)"

definition list_by_requester :: "ident \<Rightarrow> nat \<Rightarrow> nat \<Rightarrow> match_table \<Rightarrow> (ident \<times> match_request) list \<times> nat" where
  "list_by_requester a limit offset t =
     (let q = select_where (\<lambda>r. mq_requester_id r = a) t
      in (take (min limit MAX_QUERY_LIMIT) (drop offset (sort_key (\<lambda>(k, r). - mq_created_at r) q)), length q))"

definition get_expired_searching :: "moment \<Rightarrow> match_table \<Rightarrow> (ident \<times> match_request) list" where
  "get_expired_searching now = select_where (\<lambda>q. mq_state q = MatchSearching \<and> mq_expires_at q < now)"

section \<open>Scores\<close>

definition MATCH_REQUEST_TTL_MINUTES :: int where
  "MATCH_REQUEST_TTL_MINUTES = 5"

definition ACTIVE_THRESHOLD_MINUTES :: rat where
  "ACTIVE_THRESHOLD_MINUTES = 5"

definition availability_score :: "moment \<Rightarrow> agent_profile \<Rightarrow> rat" where
  "availability_score now p =
     (case pf_last_seen_at p of
        None \<Rightarrow> 0
      | Some seen \<Rightarrow>
          let age_minutes = total_seconds (now - seen) / 60
          in if age_minutes \<le> ACTIVE_THRESHOLD_MINUTES then 1
             else max 0 (1 - (age_minutes - ACTIVE_THRESHOLD_MINUTES) / 60))"

definition avg_overall_of :: "rating_summary option \<Rightarrow> rat" where
  "avg_overall_of s = (case s of None \<Rightarrow> 0 | Some r \<Rightarrow> rs_avg_overall r)"

definition compute_score ::
  "moment \<Rightarrow> agent_profile \<Rightarrow> rating_summary option \<Rightarrow> sla_template \<Rightarrow> decimal \<Rightarrow> int \<Rightarrow> rat"
where
  "compute_score now p summary template budget deadline_secs =
     (let rating_score = avg_overall_of summary / 5;
          price_score = (if 0 < budget then max 0 (1 - tpl_base_price template / budget) else 0);
          speed_score = (if 0 < deadline_secs
            then max 0 (1 - of_int (tpl_delivery_time_secs template) / of_int deadline_secs) else 0)
      in 4 / 10 * rating_score + 3 / 10 * price_score + 2 / 10 * speed_score + 1 / 10 * availability_score now p)"

section \<open>The best match\<close>

text \<open>The cheapest active template of a provider within the budget.\<close>

definition cheapest_template :: "ident \<Rightarrow> decimal \<Rightarrow> (ident, sla_template) table \<Rightarrow> (ident \<times> sla_template) option" where
  "cheapest_template a budget t =
     (case sort_key (\<lambda>(k, r). tpl_base_price r)
             (select_where (\<lambda>r. tpl_provider_id r = a \<and> tpl_is_active r \<and> tpl_base_price r \<le> budget) t) of
        [] \<Rightarrow> None | x # _ \<Rightarrow> Some x)"

text \<open>The score of a candidate that passes the filters.\<close>

definition candidate_score :: "moment \<Rightarrow> match_request \<Rightarrow> match_db \<Rightarrow> ident \<Rightarrow> rat option" where
  "candidate_score now q st a =
     (if \<not> set (mq_required_capabilities q) \<subseteq> set (pf_capabilities (profile_of a st)) then None
      else case cheapest_template a (mq_budget q) (sla_templates (mt_db st)) of
        None \<Rightarrow> None
      | Some (_, template) \<Rightarrow>
          let summary = row_of (mt_summaries st) a
          in if avg_overall_of summary < mq_min_rating q then None
             else Some (compute_score now (profile_of a st) summary template (mq_budget q) (mq_deadline_secs q)))"

fun best_of :: "(ident \<Rightarrow> rat option) \<Rightarrow> ident list \<Rightarrow> ident option \<Rightarrow> rat \<Rightarrow> (ident \<times> rat) option" where
  "best_of score [] best_agent best_score = map_option (\<lambda>a. (a, best_score)) best_agent"
| "best_of score (a # as) best_agent best_score =
     (case score a of
        None \<Rightarrow> best_of score as best_agent best_score
      | Some s \<Rightarrow> if best_score < s then best_of score as (Some a) s else best_of score as best_agent best_score)"

definition candidates :: "ident \<Rightarrow> db \<Rightarrow> ident list" where
  "candidates requester d = map fst (filter (\<lambda>(a, g). ag_is_active g \<and> a \<noteq> requester) (agents d))"

definition find_best_match :: "moment \<Rightarrow> match_request \<Rightarrow> match_db \<Rightarrow> (ident \<times> rat) option" where
  "find_best_match now q st = best_of (candidate_score now q st) (candidates (mq_requester_id q) (mt_db st)) None (- 1)"

section \<open>The service\<close>

text \<open>
  The exceptions of the contract are swallowed inside the session: what it wrote before stays. That is at most
  the empty balance rows it looked for.
\<close>

definition failed_contract :: "moment \<Rightarrow> ident \<Rightarrow> ident \<Rightarrow> decimal \<Rightarrow> token \<Rightarrow> db \<Rightarrow> db" where
  "failed_contract now consumer provider price currency d =
     (if consumer = provider then d
      else let (available, t) = get_available now consumer currency (balances d);
               seller_ok = (case row_of (agents d) provider of None \<Rightarrow> False | Some g \<Rightarrow> ag_is_active g)
           in if price \<le> available \<and> 0 < price \<and> seller_ok
              then d\<lparr>balances := get_or_create now consumer ''XMR'' t\<rparr> else d\<lparr>balances := t\<rparr>)"

definition create_sla_for_match :: "moment \<Rightarrow> match_request \<Rightarrow> ident \<Rightarrow> db \<Rightarrow> db \<times> ident option" where
  "create_sla_for_match now q matched d =
     (case cheapest_template matched (mq_budget q) (sla_templates d) of
        None \<Rightarrow> (d, None)
      | Some (tid, template) \<Rightarrow>
          (case create_contract now (mq_requester_id q) matched (tpl_response_time_secs template)
                  (tpl_delivery_time_secs template) (tpl_base_price template) (mq_currency q)
                  (tpl_penalty_percent template) (Some tid) d of
             Inl e \<Rightarrow> (failed_contract now (mq_requester_id q) matched (tpl_base_price template) (mq_currency q) d, None)
           | Inr (d', k) \<Rightarrow> (d', Some k)))"

definition create_request ::
  "moment \<Rightarrow> ident \<Rightarrow> string list \<Rightarrow> decimal \<Rightarrow> token \<Rightarrow> int \<Rightarrow> decimal \<Rightarrow> bool \<Rightarrow> match_db \<Rightarrow> match_db \<times> ident"
where
  "create_request now a caps budget currency deadline min_rating auto_assign st =
     (let q = match_create now a caps budget currency deadline min_rating auto_assign
            (now + seconds (60 * MATCH_REQUEST_TTL_MINUTES));
          k = new_id (mt_requests st);
          st1 = st\<lparr>mt_requests := add_row q (mt_requests st)\<rparr>
      in case find_best_match now q st1 of
           None \<Rightarrow> (st1, k)
         | Some (matched, _) \<Rightarrow>
             if auto_assign
             then let (d, contract) = create_sla_for_match now q matched (mt_db st1)
                  in (st1\<lparr>mt_db := d, mt_requests := update_match (Some matched) contract MatchAssigned k (mt_requests st1)\<rparr>, k)
             else (st1\<lparr>mt_requests := update_match (Some matched) None MatchMatched k (mt_requests st1)\<rparr>, k))"

definition accept_match :: "moment \<Rightarrow> ident \<Rightarrow> ident \<Rightarrow> match_db \<Rightarrow> match_db outcome" where
  "accept_match now k requester st =
     (case row_of (mt_requests st) k of
        None \<Rightarrow> Inl (LookupError ''Match request not found'')
      | Some q \<Rightarrow>
          if mq_requester_id q \<noteq> requester then Inl (PermissionError ''Only the requester may accept a match'')
          else case mq_matched_agent_id q of
            None \<Rightarrow> Inl (ValueError ''No matched agent on this request yet'')
          | Some matched \<Rightarrow>
              if row_of (agents (mt_db st)) matched = None then Inl (LookupError ''Matched agent no longer exists'')
              else let (d, contract) = create_sla_for_match now q matched (mt_db st)
                   in Inr (st\<lparr>mt_db := d, mt_requests := update_match (Some matched) contract MatchAssigned k (mt_requests st)\<rparr>))"

definition match_expire :: "ident \<Rightarrow> match_table \<Rightarrow> nat \<times> match_table" where
  "match_expire = update_row (\<lambda>q. mq_state q = MatchSearching) (\<lambda>q. q\<lparr>mq_state := MatchExpired\<rparr>)"

fun expire_matches :: "ident list \<Rightarrow> match_table \<Rightarrow> nat \<times> match_table" where
  "expire_matches [] t = (0, t)"
| "expire_matches (k # ks) t =
     (let (rows, t1) = match_expire k t; (count, t2) = expire_matches ks t1 in (rows + count, t2))"

definition match_expire_stale :: "moment \<Rightarrow> match_db \<Rightarrow> match_db \<times> nat" where
  "match_expire_stale now st =
     (let (count, t) = expire_matches (map fst (get_expired_searching now (mt_requests st))) (mt_requests st)
      in (st\<lparr>mt_requests := t\<rparr>, count))"

section \<open>The endpoints\<close>

definition match_request_ok :: "decimal \<Rightarrow> int \<Rightarrow> decimal \<Rightarrow> string list \<Rightarrow> bool" where
  "match_request_ok budget deadline min_rating caps \<longleftrightarrow>
     length caps \<le> 20 \<and> 0 < budget \<and> budget \<le> 10000 \<and> 1 \<le> deadline \<and> deadline \<le> 2592000 \<and> 0 \<le> min_rating \<and> min_rating \<le> 5"

definition get_match_result :: "ident \<Rightarrow> ident \<Rightarrow> match_db \<Rightarrow> http_error + match_request" where
  "get_match_result a k st =
     (case row_of (mt_requests st) k of
        None \<Rightarrow> Inl (HTTPException 404 ''Match request not found'')
      | Some q \<Rightarrow> if mq_requester_id q \<noteq> a then Inl (HTTPException 403 ''Access denied: not the requester'') else Inr q)"

end
