(* ===== verification/Matchmaking_Life.thy ===== *)
theory Matchmaking_Life
  imports Matchmaking
begin

text \<open>
  What matchmaking guarantees: the match found is the best of those that fit; and what it does not: an accepted
  request can be accepted again, and each time another contract is opened and paid for.
\<close>

section \<open>The best match\<close>

lemma best_of_Some:
  assumes "best_of score as best_agent x = Some (a, s)"
  shows "x \<le> s \<and> (best_agent = Some a \<and> s = x \<or> a \<in> set as \<and> score a = Some s)
    \<and> (\<forall>b \<in> set as. \<forall>s'. score b = Some s' \<longrightarrow> s' \<le> s)"
  using assms
proof (induction as arbitrary: best_agent x)
  case (Cons b bs)
  show ?case
  proof (cases "score b")
    case None
    with Cons show ?thesis by auto
  next
    case (Some y)
    with Cons.IH [of "Some b" y] Cons.IH [of best_agent x] Cons.prems show ?thesis by (auto split: if_split_asm)
  qed
qed auto

lemma best_of_None: "best_of score as best_agent x = None \<Longrightarrow> best_agent = None \<and> (\<forall>b \<in> set as. \<forall>s'. score b = Some s' \<longrightarrow> s' \<le> x)"
proof (induction as arbitrary: best_agent x)
  case (Cons b bs)
  show ?case
  proof (cases "score b")
    case None
    with Cons show ?thesis by auto
  next
    case (Some y)
    with Cons.IH [of "Some b" y] Cons.IH [of best_agent x] Cons.prems show ?thesis by (auto split: if_split_asm)
  qed
qed simp

lemma availability_range: "0 \<le> availability_score now p \<and> availability_score now p \<le> 1"
  by (auto simp: availability_score_def Let_def max_def split: option.split)

lemma compute_score_nonneg: "0 \<le> avg_overall_of s \<Longrightarrow> 0 \<le> compute_score now p s t budget deadline"
  using availability_range [of now p] by (simp add: compute_score_def Let_def)

lemma cheapest_template_Some:
  assumes "cheapest_template a budget t = Some (tid, r)"
  shows "(tid, r) \<in> set t \<and> tpl_provider_id r = a \<and> tpl_is_active r \<and> tpl_base_price r \<le> budget"
proof -
  let ?ys = "select_where (\<lambda>r. tpl_provider_id r = a \<and> tpl_is_active r \<and> tpl_base_price r \<le> budget) t"
  obtain zs where "sort_key (\<lambda>(k, r). tpl_base_price r) ?ys = (tid, r) # zs"
    using assms by (auto simp: cheapest_template_def split: list.splits)
  then have "(tid, r) \<in> set (sort_key (\<lambda>(k, r). tpl_base_price r) ?ys)" by simp
  then have "(tid, r) \<in> set ?ys" by (simp only: set_sort)
  then show ?thesis by (simp add: select_where_def)
qed

lemma candidate_score_Some:
  assumes "candidate_score now q st a = Some s"
  shows "set (mq_required_capabilities q) \<subseteq> set (pf_capabilities (profile_of a st))"
    and "\<exists>tid r. cheapest_template a (mq_budget q) (sla_templates (mt_db st)) = Some (tid, r)"
    and "mq_min_rating q \<le> avg_overall_of (row_of (mt_summaries st) a)"
  using assms by (auto simp: candidate_score_def Let_def not_less split: if_split_asm option.splits)

lemma candidate_score_nonneg:
  assumes "candidate_score now q st a = Some s" and "\<And>r. row_of (mt_summaries st) a = Some r \<Longrightarrow> 0 \<le> rs_avg_overall r"
  shows "0 \<le> s"
proof -
  have "0 \<le> avg_overall_of (row_of (mt_summaries st) a)" using assms(2) by (auto simp: avg_overall_of_def split: option.split)
  then show ?thesis
    using assms(1) by (auto simp: candidate_score_def Let_def intro!: compute_score_nonneg split: if_split_asm option.splits)
qed

section \<open>Accepting a match\<close>

text \<open>A request whose match can be turned into a contract at the price \<open>p\<close>; its state plays no part.\<close>

definition acceptable :: "ident \<Rightarrow> ident \<Rightarrow> decimal \<Rightarrow> match_db \<Rightarrow> bool" where
  "acceptable k a p st \<longleftrightarrow> 0 < p \<and> escrow_ok (mt_db st) \<and> table_ok (sla_contracts (mt_db st)) \<and>
     (case row_of (mt_requests st) k of
        None \<Rightarrow> False
      | Some q \<Rightarrow> mq_requester_id q = a \<and> mq_currency q = ''XMR'' \<and>
          (case mq_matched_agent_id q of
             None \<Rightarrow> False
           | Some m \<Rightarrow> m \<noteq> a
               \<and> (case row_of (agents (mt_db st)) m of None \<Rightarrow> False | Some g \<Rightarrow> ag_is_active g)
               \<and> (case cheapest_template m (mq_budget q) (sla_templates (mt_db st)) of None \<Rightarrow> False
                  | Some (tid, r) \<Rightarrow> tpl_base_price r = p)))"

lemma contract_opens:
  assumes "a \<noteq> m" and "0 < p" and "p \<le> available_of a ''XMR'' (balances d)" and "row_of (agents d) m = Some g" and "ag_is_active g"
    and ok: "escrow_ok d"
  obtains d' k c where "create_contract now a m rs ds p ''XMR'' pen tpl d = Inr (d', k)"
    "agents d' = agents d" "sla_templates d' = sla_templates d" "sla_contracts d' = add_row c (sla_contracts d)"
    "available_of a ''XMR'' (balances d') = available_of a ''XMR'' (balances d) - p" "escrow_ok d'"
proof -
  let ?d = "d\<lparr>balances := get_or_create now a ''XMR'' (balances d)\<rparr>"
  obtain t where t: "deduct now a p ''XMR'' (balances ?d) = Inr t"
    using assms(3) by (cases "deduct now a p ''XMR'' (balances ?d)") (auto simp: deduct_Inl_iff available_get_or_create)
  obtain e deal where esc: "create_escrow now a m p 24 48 24 ''free'' None ?d = Inr (e, deal)"
    and same: "agents e = agents d" "sla_templates e = sla_templates d" "sla_contracts e = sla_contracts d"
    using assms(1,2,4,5) t by (auto simp: create_escrow_def Let_def escrow_frame)
  let ?c = "contract_create now m a tpl rs ds p ''XMR'' pen (Some deal)"
  obtain l w where run: "create_contract now a m rs ds p ''XMR'' pen tpl d =
      Inr (e\<lparr>sla_contracts := add_row ?c (sla_contracts d), audit_log := l, webhook_events := w\<rparr>, new_id (sla_contracts d))"
    using assms(1,3) esc same by (auto simp: create_contract_def get_available_eq Let_def sla_notices_eq)
  have ok0: "escrow_ok ?d" by (rule escrow_ok_cong [OF ok]) (simp_all add: escrow_okD(1) [OF ok])
  have "escrow_ok e" by (rule create_escrow_effect(1) [OF esc ok0]) simp
  moreover have "balances e = t" using create_single_Inr [OF esc] t by simp
  ultimately show ?thesis
    using deduct_Inr(2) [OF t] escrow_okD(1) [of e]
    by (intro that [OF run]) (auto simp: same available_get_or_create intro: escrow_ok_cong [of e])
qed

lemma accept_match_again:
  assumes "acceptable k a p st" and "p \<le> available_of a ''XMR'' (balances (mt_db st))"
  obtains st' where "accept_match now k a st = Inr st'" "acceptable k a p st'"
    "available_of a ''XMR'' (balances (mt_db st')) = available_of a ''XMR'' (balances (mt_db st)) - p"
    "length (sla_contracts (mt_db st')) = Suc (length (sla_contracts (mt_db st)))"
proof -
  obtain q m g tid r where q: "row_of (mt_requests st) k = Some q" "mq_requester_id q = a" "mq_currency q = ''XMR''"
    "mq_matched_agent_id q = Some m" "m \<noteq> a" "row_of (agents (mt_db st)) m = Some g" "ag_is_active g"
    "cheapest_template m (mq_budget q) (sla_templates (mt_db st)) = Some (tid, r)" "tpl_base_price r = p"
    and ok: "0 < p" "escrow_ok (mt_db st)" "table_ok (sla_contracts (mt_db st))"
    using assms(1) by (auto simp: acceptable_def split: option.splits)
  obtain d c k' where c: "create_contract now a m (tpl_response_time_secs r) (tpl_delivery_time_secs r) p ''XMR''
      (tpl_penalty_percent r) (Some tid) (mt_db st) = Inr (d, k')"
    "agents d = agents (mt_db st)" "sla_templates d = sla_templates (mt_db st)" "sla_contracts d = add_row c (sla_contracts (mt_db st))"
    "available_of a ''XMR'' (balances d) = available_of a ''XMR'' (balances (mt_db st)) - p" "escrow_ok d"
    by (rule contract_opens [OF q(5) [symmetric] ok(1) assms(2) q(6,7) ok(2)])
  let ?st = "st\<lparr>mt_db := d, mt_requests := update_match (Some m) (Some k') MatchAssigned k (mt_requests st)\<rparr>"
  have "accept_match now k a st = Inr ?st"
    using q c(1) by (simp add: accept_match_def create_sla_for_match_def Let_def)
  moreover have "acceptable k a p ?st"
    using q ok c by (simp add: acceptable_def update_match_def row_of_modify_row)
  ultimately show ?thesis using that [of ?st] c by (simp add: add_row_def insert_row_def)
qed

text \<open>One request accepted at each of the given times.\<close>

fun accepts :: "moment list \<Rightarrow> ident \<Rightarrow> ident \<Rightarrow> match_db \<Rightarrow> match_db outcome" where
  "accepts [] k a st = Inr st"
| "accepts (now # moments) k a st = and_then (accept_match now k a st) (accepts moments k a)"

section \<open>Properties\<close>

text \<open>C35. The match is the best: the agent found is active, is not the requester, offers every required capability, has
  an active template within the budget and the rating asked for, and no candidate scores higher; nobody is
  found only when no candidate fits.\<close>

theorem best_match_optimal:
  assumes "\<And>a r. row_of (mt_summaries st) a = Some r \<Longrightarrow> 0 \<le> rs_avg_overall r"
  shows "case find_best_match now q st of
      None \<Rightarrow> list_all (\<lambda>b. candidate_score now q st b = None) (candidates (mq_requester_id q) (mt_db st))
    | Some (a, s) \<Rightarrow> (\<exists>g. (a, g) \<in> set (agents (mt_db st)) \<and> ag_is_active g) \<and> a \<noteq> mq_requester_id q
        \<and> set (mq_required_capabilities q) \<subseteq> set (pf_capabilities (profile_of a st))
        \<and> (\<exists>tid r. (tid, r) \<in> set (sla_templates (mt_db st)) \<and> tpl_provider_id r = a \<and> tpl_is_active r \<and> tpl_base_price r \<le> mq_budget q)
        \<and> mq_min_rating q \<le> avg_overall_of (row_of (mt_summaries st) a)
        \<and> list_all (\<lambda>b. case candidate_score now q st b of None \<Rightarrow> True | Some s' \<Rightarrow> s' \<le> s) (candidates (mq_requester_id q) (mt_db st))"
proof (cases "find_best_match now q st")
  case None
  have "candidate_score now q st b = None" if "b \<in> set (candidates (mq_requester_id q) (mt_db st))" for b
  proof (rule ccontr)
    assume "candidate_score now q st b \<noteq> None"
    then obtain s where s: "candidate_score now q st b = Some s" by auto
    then have "s \<le> - 1" using best_of_None [OF None [unfolded find_best_match_def]] that by auto
    moreover have "0 \<le> s" by (rule candidate_score_nonneg [OF s assms])
    ultimately show False by simp
  qed
  then show ?thesis using None by (simp add: list_all_iff)
next
  case (Some r)
  obtain a s where r: "r = (a, s)" by (cases r)
  note best = best_of_Some [OF Some [unfolded find_best_match_def r]]
  then have a: "a \<in> set (candidates (mq_requester_id q) (mt_db st))" and s: "candidate_score now q st a = Some s" by auto
  obtain tid t where "cheapest_template a (mq_budget q) (sla_templates (mt_db st)) = Some (tid, t)"
    using candidate_score_Some(2) [OF s] by blast
  from cheapest_template_Some [OF this] have "\<exists>tid r. (tid, r) \<in> set (sla_templates (mt_db st)) \<and> tpl_provider_id r = a \<and> tpl_is_active r
      \<and> tpl_base_price r \<le> mq_budget q" by blast
  moreover have "\<exists>g. (a, g) \<in> set (agents (mt_db st)) \<and> ag_is_active g" "a \<noteq> mq_requester_id q"
    using a by (auto simp: candidates_def)
  moreover have "list_all (\<lambda>b. case candidate_score now q st b of None \<Rightarrow> True | Some s' \<Rightarrow> s' \<le> s) (candidates (mq_requester_id q) (mt_db st))"
    using best by (auto simp: list_all_iff split: option.split)
  ultimately show ?thesis using candidate_score_Some(1,3) [OF s] by (simp add: Some r)
qed

definition demo_template :: sla_template where
  "demo_template = \<lparr>tpl_provider_id = 2, tpl_response_time_secs = 60, tpl_delivery_time_secs = 3600, tpl_base_price = 50,
     tpl_currency = ''XMR'', tpl_penalty_percent = 10, tpl_is_active = True, tpl_created_at = 0\<rparr>"

definition demo_match :: match_db where
  "demo_match = \<lparr>mt_db = demo_db\<lparr>sla_templates := [(4, demo_template)]\<rparr>,
     mt_requests = [(7, (match_create 0 1 [''ocr''] 80 ''XMR'' 7200 3 False 300)\<lparr>mq_state := MatchExpired, mq_matched_agent_id := Some 2\<rparr>)],
     mt_summaries = [(2, \<lparr>rs_total_reviews = 1, rs_avg_overall = 4, rs_avg_speed = 0, rs_avg_quality = 0, rs_avg_reliability = 0,
       rs_five_star_count = 0, rs_one_star_count = 0, rs_last_review_at = Some 0\<rparr>)],
     mt_profiles = [(2, \<lparr>pf_capabilities = [''ocr'', ''translate''], pf_last_seen_at = Some 0\<rparr>)]\<rparr>"

definition demo_wanted :: match_request where
  "demo_wanted = match_create 0 1 [''ocr''] 80 ''XMR'' 7200 3 False 300"

lemma demo_cheapest: "cheapest_template 2 80 [(4, demo_template)] = Some (4, demo_template)"
  by (simp add: cheapest_template_def select_where_def demo_template_def)

lemma demo_found: "\<exists>s. find_best_match 0 demo_wanted demo_match = Some (2, s)"
proof -
  have "candidates 1 (mt_db demo_match) = [2]" by (simp add: candidates_def demo_match_def demo_db_def)
  moreover have score: "candidate_score 0 demo_wanted demo_match 2 = Some (compute_score 0
      (profile_of 2 demo_match) (row_of (mt_summaries demo_match) 2) demo_template 80 7200)"
    by (simp add: candidate_score_def demo_wanted_def match_create_def demo_match_def demo_cheapest profile_of_def avg_overall_of_def)
  moreover have "0 \<le> compute_score 0 (profile_of 2 demo_match) (row_of (mt_summaries demo_match) 2) demo_template 80 7200"
    by (rule compute_score_nonneg) (simp add: demo_match_def avg_overall_of_def)
  ultimately show ?thesis by (simp add: find_best_match_def demo_wanted_def match_create_def)
qed

theorem best_match_optimal_witness:
  "\<exists>s. find_best_match 0 demo_wanted demo_match = Some (2, s)
    \<and> list_all (\<lambda>b. case candidate_score 0 demo_wanted demo_match b of None \<Rightarrow> True | Some s' \<Rightarrow> s' \<le> s)
        (candidates (mq_requester_id demo_wanted) (mt_db demo_match))"
proof -
  obtain s where s: "find_best_match 0 demo_wanted demo_match = Some (2, s)" using demo_found by blast
  have "0 \<le> rs_avg_overall r" if "row_of (mt_summaries demo_match) a = Some r" for a r
    using that by (auto simp: demo_match_def split: if_split_asm)
  from best_match_optimal [where st = demo_match and now = 0 and q = demo_wanted, OF this] s show ?thesis by simp
qed

text \<open>C36. An accepted match can be accepted again: whatever the state of the request, each acceptance the balance
  covers opens another contract and takes its price again, so that \<open>n\<close> acceptances of one request cost \<open>n\<close> times the
  price and open \<open>n\<close> contracts.\<close>

theorem every_acceptance_pays:
  assumes "acceptable k a p st" and "of_nat (length moments) * p \<le> available_of a ''XMR'' (balances (mt_db st))"
  shows "\<exists>st'. accepts moments k a st = Inr st'
    \<and> available_of a ''XMR'' (balances (mt_db st')) = available_of a ''XMR'' (balances (mt_db st)) - of_nat (length moments) * p
    \<and> length (sla_contracts (mt_db st')) = length (sla_contracts (mt_db st)) + length moments"
  using assms
proof (induction moments arbitrary: st)
  case (Cons now moments)
  have "0 < p" using Cons.prems(1) by (simp add: acceptable_def)
  then have "0 \<le> of_nat (length moments) * p" by simp
  then have enough: "p \<le> available_of a ''XMR'' (balances (mt_db st))" using Cons.prems(2) by (simp add: algebra_simps)
  obtain st1 where st1: "accept_match now k a st = Inr st1" "acceptable k a p st1"
    "available_of a ''XMR'' (balances (mt_db st1)) = available_of a ''XMR'' (balances (mt_db st)) - p"
    "length (sla_contracts (mt_db st1)) = Suc (length (sla_contracts (mt_db st)))"
    by (rule accept_match_again [OF Cons.prems(1) enough])
  with Cons.IH [OF st1(2)] Cons.prems(2) show ?case by (simp add: algebra_simps)
qed simp

lemma demo_acceptable: "acceptable 7 1 50 demo_match"
proof -
  have "escrow_ok (mt_db demo_match)"
    by (rule escrow_ok_cong [OF demo_db_ok]) (simp_all add: demo_match_def escrow_okD(1) [OF demo_db_ok])
  then show ?thesis
    by (simp add: acceptable_def) (simp add: demo_match_def match_create_def demo_cheapest demo_db_def empty_db_def table_ok_def keys_of_def,
        simp add: demo_template_def)
qed

theorem every_acceptance_pays_witness:
  "\<exists>st'. accepts [1, 2, 3] 7 1 demo_match = Inr st' \<and> available_of 1 ''XMR'' (balances (mt_db st')) = 850
    \<and> length (sla_contracts (mt_db st')) = 3"
proof -
  have start: "available_of 1 ''XMR'' (balances (mt_db demo_match)) = 1000" "sla_contracts (mt_db demo_match) = []"
    by (simp_all add: demo_match_def demo_db_def available_of_def empty_db_def)
  from every_acceptance_pays [OF demo_acceptable, of "[1, 2, 3]"] show ?thesis by (simp add: start numeral_3_eq_3 del: accepts.simps One_nat_def)
qed

end
