(* ===== verification/Billing.thy ===== *)
theory Billing
  imports Transfers Events Rate_Limiter Proof_Of_Work Rounding Idempotency
begin

text \<open>
  Subscription billing: \<open>sthrip/services/subscription_billing_service.py\<close>, the rate cache of
  \<open>sthrip/services/xmr_rate_service.py\<close>, the two billing loops of \<open>api/main_v2.py\<close> and the upgrade and downgrade
  endpoints of \<open>api/routers/agents.py\<close>. Paid tiers cost dollars, are paid in piconero at the rate of the day and are
  recorded in a history of billing events.

  The price feed is a parameter (\<open>None\<close> when the request fails). The rate cache is a variable of the process: a
  rolled back transaction leaves it. Divisions are exact. The lease that admits one replica is assumed to hold.
\<close>

section \<open>Exchange rate\<close>

record xmr_rate_entry =
  xr_rate :: decimal
  xr_fetched_at :: moment

definition RATE_CACHE_TTL :: int where
  "RATE_CACHE_TTL = seconds (5 * 60)"

definition RATE_STALE_LIMIT :: int where
  "RATE_STALE_LIMIT = hours 24"

definition get_xmr_usd_rate :: "moment \<Rightarrow> decimal option \<Rightarrow> xmr_rate_entry option \<Rightarrow> decimal outcome \<times> xmr_rate_entry option" where
  "get_xmr_usd_rate now feed entry =
     (let younger = (\<lambda>limit. case entry of None \<Rightarrow> False | Some e \<Rightarrow> now - xr_fetched_at e < limit)
      in if younger RATE_CACHE_TTL then (Inr (xr_rate (the entry)), entry)
         else case feed of
           Some rate \<Rightarrow> (Inr rate, Some \<lparr>xr_rate = rate, xr_fetched_at = now\<rparr>)
         | None \<Rightarrow>
             if younger RATE_STALE_LIMIT then (Inr (xr_rate (the entry)), entry)
             else (Inl (RuntimeError ''XMR/USD rate unavailable''), entry))"

definition usd_to_xmr_piconero :: "decimal \<Rightarrow> decimal \<Rightarrow> int outcome" where
  "usd_to_xmr_piconero usd rate =
     (if rate \<le> 0 then Inl (ValueError ''Invalid XMR/USD rate'') else Inr (round_half_even (usd / rate * PICO)))"

section \<open>Prices\<close>

definition tier_usd_price :: "agent_tier \<Rightarrow> decimal" where
  "tier_usd_price t = (case t of TierFree \<Rightarrow> 0 | TierVerified \<Rightarrow> 29 | TierPremium \<Rightarrow> 999 | TierEnterprise \<Rightarrow> 999)"

definition PAID_TIERS :: "agent_tier list" where
  "PAID_TIERS = [TierVerified, TierPremium, TierEnterprise]"

definition GRACE_PERIOD_DAYS :: int where
  "GRACE_PERIOD_DAYS = 7"

text \<open>\<open>quantize(Decimal("0.01"), rounding=ROUND_HALF_UP)\<close>.\<close>

definition cents :: "decimal \<Rightarrow> decimal" where
  "cents x = of_int (quantize_half_up (x * 100)) / 100"

definition prorate_charge :: "decimal \<Rightarrow> int \<Rightarrow> int \<Rightarrow> decimal outcome" where
  "prorate_charge monthly_cost_usd day_of_month month_days =
     (if day_of_month < 1 \<or> month_days < day_of_month then Inl (ValueError ''day_of_month out of range'')
      else Inr (cents (monthly_cost_usd * of_int (month_days - day_of_month + 1) / of_int month_days)))"

definition compute_refund :: "decimal \<Rightarrow> int \<Rightarrow> int \<Rightarrow> decimal outcome" where
  "compute_refund = prorate_charge"

section \<open>The history\<close>

record billing_row =
  bh_agent_id :: ident
  bh_month_start :: "int \<times> int"
  bh_amount_usd :: decimal
  bh_amount_piconero :: int
  bh_rate_applied :: decimal
  bh_status :: string
  bh_tier_at_event :: string
  bh_created_at :: moment

record billing_db =
  bl_db :: db
  bl_history :: "(ident, billing_row) table"

definition has_monthly_charge :: "billing_db \<Rightarrow> ident \<Rightarrow> int \<times> int \<Rightarrow> bool" where
  "has_monthly_charge st a ms \<longleftrightarrow>
     first_row (\<lambda>h. bh_agent_id h = a \<and> bh_month_start h = ms \<and> bh_status h = ''monthly_charge'') (bl_history st) \<noteq> None"

definition record_billing_event ::
  "ident \<Rightarrow> int \<times> int \<Rightarrow> decimal \<Rightarrow> int \<Rightarrow> decimal \<Rightarrow> string \<Rightarrow> agent_tier \<Rightarrow> moment \<Rightarrow> billing_db \<Rightarrow> billing_db"
where
  "record_billing_event a ms usd pico rate status tier now st =
     st\<lparr>bl_history := add_row \<lparr>bh_agent_id = a, bh_month_start = ms, bh_amount_usd = usd, bh_amount_piconero = pico,
        bh_rate_applied = rate, bh_status = status, bh_tier_at_event = tier_value tier, bh_created_at = now\<rparr> (bl_history st)\<rparr>"

text \<open>A failure of the audit is logged and ignored.\<close>

definition post_charge_audit :: "ident \<Rightarrow> billing_db \<Rightarrow> billing_db" where
  "post_charge_audit a st =
     (case log_event 1 [''agent_id'', ''details'', ''db'']
            \<lparr>au_action = ''subscription_billing'', au_agent_id = Some a, au_resource_type = None, au_resource_id = None\<rparr> (bl_db st) of
        Inl e \<Rightarrow> st
      | Inr d \<Rightarrow> st\<lparr>bl_db := d\<rparr>)"

definition set_agent :: "(agent \<Rightarrow> agent) \<Rightarrow> ident \<Rightarrow> billing_db \<Rightarrow> billing_db" where
  "set_agent f a st = st\<lparr>bl_db := (bl_db st)\<lparr>agents := modify_row a f (agents (bl_db st))\<rparr>\<rparr>"

definition set_balances :: "balance_table \<Rightarrow> billing_db \<Rightarrow> billing_db" where
  "set_balances t st = st\<lparr>bl_db := (bl_db st)\<lparr>balances := t\<rparr>\<rparr>"

definition start_grace_period ::
  "ident \<Rightarrow> moment \<Rightarrow> decimal \<Rightarrow> decimal \<Rightarrow> int \<Rightarrow> agent_tier \<Rightarrow> int \<times> int \<Rightarrow> billing_db \<Rightarrow> billing_db"
where
  "start_grace_period a now rate usd pico tier ms st =
     (if row_of (agents (bl_db st)) a = None then st
      else post_charge_audit a (record_billing_event a ms usd pico rate ''monthly_grace_started'' tier now
             (set_agent (\<lambda>g. g\<lparr>ag_tier_grace_until := Some (now + days GRACE_PERIOD_DAYS)\<rparr>) a st)))"

section \<open>Monthly billing\<close>

record bill_summary =
  bs_charged :: nat
  bs_grace_started :: nat
  bs_skipped :: nat

definition paid_agents :: "db \<Rightarrow> (ident \<times> agent) list" where
  "paid_agents d = select_where (\<lambda>g. ag_is_active g \<and> ag_tier g \<in> set PAID_TIERS) (agents d)"

text \<open>A balance that does not suffice raises after its row has been looked up, and created if there was none.\<close>

definition bill_agent ::
  "moment \<Rightarrow> decimal \<Rightarrow> int \<times> int \<Rightarrow> ident \<Rightarrow> agent \<Rightarrow> billing_db \<times> bill_summary \<Rightarrow> (billing_db \<times> bill_summary) outcome"
where
  "bill_agent now rate ms a g q =
     (let (st, s) = q; usd_price = tier_usd_price (ag_tier g)
      in if has_monthly_charge st a ms \<or> usd_price \<le> 0 then Inr (st, s\<lparr>bs_skipped := Suc (bs_skipped s)\<rparr>)
         else and_then (usd_to_xmr_piconero usd_price rate) (\<lambda>amount_pico.
           let amount_xmr = of_int amount_pico / PICO
           in case deduct now a amount_xmr ''XMR'' (balances (bl_db st)) of
                Inl _ \<Rightarrow>
                  Inr (start_grace_period a now rate usd_price amount_pico (ag_tier g) ms
                         (set_balances (get_or_create now a ''XMR'' (balances (bl_db st))) st),
                       s\<lparr>bs_grace_started := Suc (bs_grace_started s)\<rparr>)
              | Inr t \<Rightarrow>
                  Inr (post_charge_audit a (record_billing_event a ms (cents usd_price) amount_pico rate ''monthly_charge'' (ag_tier g) now
                         (set_agent (\<lambda>g. g\<lparr>ag_tier_grace_until := None\<rparr>) a (set_balances t st))),
                       s\<lparr>bs_charged := Suc (bs_charged s)\<rparr>)))"

fun bill_each ::
  "moment \<Rightarrow> decimal \<Rightarrow> int \<times> int \<Rightarrow> (ident \<times> agent) list \<Rightarrow> billing_db \<times> bill_summary \<Rightarrow> (billing_db \<times> bill_summary) outcome"
where
  "bill_each now rate ms [] q = Inr q"
| "bill_each now rate ms ((a, g) # gs) q = and_then (bill_agent now rate ms a g q) (bill_each now rate ms gs)"

text \<open>Billing at a known rate.\<close>

definition bill_at :: "moment \<Rightarrow> decimal \<Rightarrow> billing_db \<Rightarrow> (billing_db \<times> bill_summary) outcome" where
  "bill_at now rate st =
     bill_each now rate (month_of now) (paid_agents (bl_db st)) (st, \<lparr>bs_charged = 0, bs_grace_started = 0, bs_skipped = 0\<rparr>)"

definition bill_pro_subscriptions ::
  "moment \<Rightarrow> decimal option \<Rightarrow> xmr_rate_entry option \<Rightarrow> billing_db \<Rightarrow> (billing_db \<times> bill_summary) outcome \<times> xmr_rate_entry option"
where
  "bill_pro_subscriptions now feed entry st =
     (let (r, entry') = get_xmr_usd_rate now feed entry in (and_then r (\<lambda>rate. bill_at now rate st), entry'))"

definition expire_grace :: "moment \<Rightarrow> ident \<Rightarrow> agent \<Rightarrow> billing_db \<Rightarrow> billing_db" where
  "expire_grace now a g st =
     post_charge_audit a (record_billing_event a (month_of now) 0 0 0 ''monthly_grace_expired_downgrade'' (ag_tier g) now
       (set_agent (\<lambda>g. g\<lparr>ag_tier := TierFree, ag_tier_grace_until := None\<rparr>) a st))"

definition grace_over :: "moment \<Rightarrow> agent \<Rightarrow> bool" where
  "grace_over now g \<longleftrightarrow> ag_is_active g \<and> ag_tier g \<in> set PAID_TIERS
     \<and> (case ag_tier_grace_until g of None \<Rightarrow> False | Some t \<Rightarrow> t < now)"

definition handle_grace_expiry :: "moment \<Rightarrow> billing_db \<Rightarrow> billing_db \<times> nat" where
  "handle_grace_expiry now st =
     (let expired = select_where (grace_over now) (agents (bl_db st))
      in (foldl (\<lambda>st (a, g). expire_grace now a g st) st expired, length expired))"

section \<open>The loops\<close>

text \<open>A cycle that raises is rolled back and logged.\<close>

definition subscription_billing_cycle ::
  "moment \<Rightarrow> decimal option \<Rightarrow> xmr_rate_entry option \<times> billing_db \<Rightarrow> xmr_rate_entry option \<times> billing_db"
where
  "subscription_billing_cycle now feed q =
     (case q of (entry, st) \<Rightarrow>
        if snd (snd (date_of now)) \<noteq> 1 then (entry, st)
        else case bill_pro_subscriptions now feed entry st of
          (Inl e, entry') \<Rightarrow> (entry', st)
        | (Inr (st', s), entry') \<Rightarrow> (entry', st'))"

definition grace_expiry_cycle ::
  "moment \<Rightarrow> decimal option \<Rightarrow> xmr_rate_entry option \<times> billing_db \<Rightarrow> xmr_rate_entry option \<times> billing_db"
where
  "grace_expiry_cycle now feed q =
     (case q of (entry, st) \<Rightarrow>
        (case bill_pro_subscriptions now feed entry st of
           (Inl e, entry') \<Rightarrow> (entry', st)
         | (Inr (st', s), entry') \<Rightarrow> (entry', fst (handle_grace_expiry now st'))))"

section \<open>The endpoints\<close>

definition tier_rank :: "agent_tier \<Rightarrow> nat" where
  "tier_rank t = (case t of TierFree \<Rightarrow> 0 | TierVerified \<Rightarrow> 1 | TierPremium \<Rightarrow> 2 | TierEnterprise \<Rightarrow> 2)"

definition TIER_ALIAS_TO_ENUM :: "(string \<times> agent_tier) list" where
  "TIER_ALIAS_TO_ENUM = [(''free'', TierFree), (''pro'', TierVerified), (''verified'', TierVerified),
     (''enterprise'', TierPremium), (''premium'', TierPremium)]"

text \<open>\<open>None\<close> is a body whose tier is missing or not a text; surrounding blanks are assumed stripped.\<close>

definition parse_tier :: "string option \<Rightarrow> http_error + agent_tier" where
  "parse_tier raw =
     (case raw of
        None \<Rightarrow> Inl (HTTPException 400 ''tier is required'')
      | Some s \<Rightarrow>
          if strip s = '''' then Inl (HTTPException 400 ''tier is required'')
          else case map_of TIER_ALIAS_TO_ENUM (ascii_lower (strip s)) of
            None \<Rightarrow> Inl (HTTPException 400 ''Invalid tier'')
          | Some t \<Rightarrow> Inr t)"

definition route_audit :: "string \<Rightarrow> ident \<Rightarrow> billing_db \<Rightarrow> billing_db outcome" where
  "route_audit action a st =
     map_sum id (\<lambda>d. st\<lparr>bl_db := d\<rparr>)
       (log_event 1 [''agent_id'', ''ip_address'', ''request_method'', ''request_path'', ''details'', ''db'']
          \<lparr>au_action = action, au_agent_id = Some a, au_resource_type = None, au_resource_id = None\<rparr> (bl_db st))"

text \<open>Any other exception is answered with 500 and rolls the request back.\<close>

definition served_outcome :: "'a outcome \<Rightarrow> http_error + 'a" where
  "served_outcome r = (case r of Inl _ \<Rightarrow> Inl (HTTPException 500 ''Internal Server Error'') | Inr x \<Rightarrow> Inr x)"

definition upgrade_tier ::
  "moment \<Rightarrow> decimal option \<Rightarrow> xmr_rate_entry option \<Rightarrow> ident \<Rightarrow> string option \<Rightarrow> billing_db \<Rightarrow> (http_error + billing_db) \<times> xmr_rate_entry option"
where
  "upgrade_tier now feed entry a raw st =
     (case parse_tier raw of
        Inl e \<Rightarrow> (Inl e, entry)
      | Inr new_tier \<Rightarrow>
          (case row_of (agents (bl_db st)) a of
             None \<Rightarrow> (Inl (HTTPException 404 ''Agent not found''), entry)
           | Some g \<Rightarrow>
               if tier_rank new_tier < tier_rank (ag_tier g) then (Inl (HTTPException 400 ''Use POST /v2/me/downgrade''), entry)
               else if tier_rank new_tier = tier_rank (ag_tier g) then (Inr st, entry)
               else
                 let (y, m, d) = date_of now
                 in case prorate_charge (tier_usd_price new_tier) d (days_in_month y m) of
                      Inl e \<Rightarrow> (Inl (HTTPException 500 ''Internal Server Error''), entry)
                    | Inr charge_usd \<Rightarrow>
                        (case get_xmr_usd_rate now feed entry of
                           (Inl e, entry') \<Rightarrow> (Inl (HTTPException 503 ''XMR/USD rate unavailable''), entry')
                         | (Inr rate, entry') \<Rightarrow>
                             (case usd_to_xmr_piconero charge_usd rate of
                                Inl e \<Rightarrow> (Inl (HTTPException 500 ''Internal Server Error''), entry')
                              | Inr pico \<Rightarrow>
                                  (case deduct now a (of_int pico / PICO) ''XMR'' (balances (bl_db st)) of
                                     Inl e \<Rightarrow> (Inl (HTTPException 402 ''insufficient_balance''), entry')
                                   | Inr t \<Rightarrow>
                                       (served_outcome (route_audit ''tier_upgrade'' a
                                          (record_billing_event a (month_of now) (cents charge_usd) pico rate ''upgrade_charge'' new_tier now
                                            (set_agent (\<lambda>g. g\<lparr>ag_tier := new_tier, ag_tier_grace_until := None\<rparr>) a
                                              (set_balances t st)))), entry'))))))"

text \<open>The refund is of the month's price, whatever was charged for it.\<close>

definition downgrade_tier ::
  "moment \<Rightarrow> decimal option \<Rightarrow> xmr_rate_entry option \<Rightarrow> ident \<Rightarrow> string option \<Rightarrow> billing_db \<Rightarrow> (http_error + billing_db) \<times> xmr_rate_entry option"
where
  "downgrade_tier now feed entry a raw st =
     (case parse_tier raw of
        Inl e \<Rightarrow> (Inl e, entry)
      | Inr new_tier \<Rightarrow>
          (case row_of (agents (bl_db st)) a of
             None \<Rightarrow> (Inl (HTTPException 404 ''Agent not found''), entry)
           | Some g \<Rightarrow>
               if tier_rank (ag_tier g) \<le> tier_rank new_tier then (Inl (HTTPException 400 ''Target tier must be lower than current''), entry)
               else
                 let (y, m, d) = date_of now;
                     monthly_usd = tier_usd_price (ag_tier g)
                 in case (if 0 < monthly_usd then compute_refund monthly_usd d (days_in_month y m) else Inr 0) of
                      Inl e \<Rightarrow> (Inl (HTTPException 500 ''Internal Server Error''), entry)
                    | Inr computed \<Rightarrow>
                        let (answer, entry') = (if 0 < computed then get_xmr_usd_rate now feed entry else (Inr 0, entry));
                            rate_applied = (case answer of Inl _ \<Rightarrow> 0 | Inr r \<Rightarrow> r);
                            refund_usd = (case answer of Inl _ \<Rightarrow> 0 | Inr _ \<Rightarrow> computed);
                            refund_pico = (if 0 < rate_applied then round_half_even (refund_usd / rate_applied * PICO) else 0);
                            st1 = (if 0 < rate_applied
                              then set_balances (credit now a (of_int refund_pico / PICO) ''XMR'' (balances (bl_db st))) st else st)
                        in (served_outcome (route_audit ''tier_downgrade'' a
                              (record_billing_event a (month_of now) (cents refund_usd) refund_pico rate_applied ''downgrade_refund'' (ag_tier g) now
                                (set_agent (\<lambda>g. g\<lparr>ag_tier := new_tier, ag_tier_grace_until := None\<rparr>) a st1))), entry')))"

end
