(* ===== verification/Billing_Life.thy ===== *)
theory Billing_Life
  imports Billing
begin

text \<open>
  Runs of billing: the history explains every balance and a month is billed once; but a failed charge renews the
  grace period every day, and a downgrade reheld a month that was never paid.
\<close>

section \<open>Effects\<close>

lemma billing_audit [simp]:
  "bl_history (post_charge_audit a st) = bl_history st" "balances (bl_db (post_charge_audit a st)) = balances (bl_db st)"
  "agents (bl_db (post_charge_audit a st)) = agents (bl_db st)"
  by (simp_all add: post_charge_audit_def log_event_def split: sum.split)

lemma billing_frames [simp]:
  "balances (bl_db (set_agent f a st)) = balances (bl_db st)" "bl_history (set_agent f a st) = bl_history st"
  "agents (bl_db (set_agent f a st)) = modify_row a f (agents (bl_db st))"
  "balances (bl_db (set_balances t st)) = t" "bl_history (set_balances t st) = bl_history st"
  "agents (bl_db (set_balances t st)) = agents (bl_db st)"
  "bl_db (record_billing_event a ms usd pico rate status tier now st) = bl_db st"
  by (simp_all add: set_agent_def set_balances_def record_billing_event_def)

text \<open>What a row of the history took from its agent.\<close>

definition row_charge :: "ident \<Rightarrow> ident \<Rightarrow> billing_row \<Rightarrow> decimal" where
  "row_charge a k h =
     (if bh_agent_id h \<noteq> a then 0
      else if bh_status h \<in> {''monthly_charge'', ''upgrade_charge''} then of_int (bh_amount_piconero h) / PICO
      else if bh_status h = ''downgrade_refund'' then - (of_int (bh_amount_piconero h) / PICO) else 0)"

definition account :: "ident \<Rightarrow> billing_db \<Rightarrow> decimal" where
  "account a st = available_of a ''XMR'' (balances (bl_db st)) + table_sum (row_charge a) (bl_history st)"

definition monthly_charges :: "ident \<Rightarrow> int \<times> int \<Rightarrow> billing_db \<Rightarrow> nat" where
  "monthly_charges a ms st =
     length (select_where (\<lambda>h. bh_agent_id h = a \<and> bh_month_start h = ms \<and> bh_status h = ''monthly_charge'') (bl_history st))"

definition explained :: "billing_db \<Rightarrow> billing_db \<Rightarrow> bool" where
  "explained st st' \<longleftrightarrow> (\<forall>a. account a st' = account a st)
     \<and> (\<forall>a ms. monthly_charges a ms st' \<le> max 1 (monthly_charges a ms st))"

lemma explained_refl [simp]: "explained st st"
  by (simp add: explained_def)

lemma explained_trans: "explained st st1 \<Longrightarrow> explained st1 st2 \<Longrightarrow> explained st st2"
  unfolding explained_def by (metis (no_types, opaque_lifting) max.bounded_iff max.coboundedI1 max_def order_trans)

lemma no_monthly_charge: "\<not> has_monthly_charge st a ms \<longleftrightarrow> monthly_charges a ms st = 0"
  by (auto simp: has_monthly_charge_def monthly_charges_def first_row_def find_None_iff select_where_def filter_empty_conv)

lemma monthly_charges_record:
  "monthly_charges b ms' (record_billing_event a ms usd pico rate status tier now st) =
     monthly_charges b ms' st + (if b = a \<and> ms' = ms \<and> status = ''monthly_charge'' then 1 else 0)"
  by (simp add: monthly_charges_def record_billing_event_def add_row_def insert_row_def select_where_def)

lemma monthly_charges_cong: "bl_history st' = bl_history st \<Longrightarrow> monthly_charges a ms st' = monthly_charges a ms st"
  by (simp add: monthly_charges_def)

text \<open>A recorded event that goes with what it takes from the balance.\<close>

lemma explained_event:
  assumes "bl_history st' = bl_history (record_billing_event a ms usd pico rate status tier now st)"
    and "\<And>b. available_of b ''XMR'' (balances (bl_db st')) = available_of b ''XMR'' (balances (bl_db st))
      - (if b \<noteq> a then 0 else if status \<in> {''monthly_charge'', ''upgrade_charge''} then of_int pico / PICO
         else if status = ''downgrade_refund'' then - (of_int pico / PICO) else 0)"
    and "status = ''monthly_charge'' \<Longrightarrow> monthly_charges a ms st = 0"
  shows "explained st st'"
proof -
  have "account b st' = account b st" for b
    by (simp add: account_def assms(1,2)) (simp add: record_billing_event_def table_sum_add_row row_charge_def)
  moreover have "monthly_charges b ms' st' \<le> max 1 (monthly_charges b ms' st)" for b ms'
    using assms(3) by (auto simp: monthly_charges_cong [OF assms(1)] monthly_charges_record)
  ultimately show ?thesis by (simp add: explained_def)
qed

text \<open>What billing one agent does.\<close>

abbreviation month_paid ::
  "moment \<Rightarrow> decimal \<Rightarrow> int \<times> int \<Rightarrow> ident \<Rightarrow> agent \<Rightarrow> int \<Rightarrow> balance_table \<Rightarrow> billing_db \<Rightarrow> billing_db"
where
  "month_paid now rate ms a g pico t st \<equiv>
     post_charge_audit a (record_billing_event a ms (cents (tier_usd_price (ag_tier g))) pico rate ''monthly_charge'' (ag_tier g) now
       (set_agent (\<lambda>g. g\<lparr>ag_tier_grace_until := None\<rparr>) a (set_balances t st)))"

abbreviation month_unpaid ::
  "moment \<Rightarrow> decimal \<Rightarrow> int \<times> int \<Rightarrow> ident \<Rightarrow> agent \<Rightarrow> int \<Rightarrow> billing_db \<Rightarrow> billing_db"
where
  "month_unpaid now rate ms a g pico st \<equiv>
     start_grace_period a now rate (tier_usd_price (ag_tier g)) pico (ag_tier g) ms
       (set_balances (get_or_create now a ''XMR'' (balances (bl_db st))) st)"

lemma bill_agent_cases:
  assumes "bill_agent now rate ms a g (st, s) = Inr (st', s')"
  obtains (skipped) "st' = st" "has_monthly_charge st a ms \<or> tier_usd_price (ag_tier g) \<le> 0"
  | (paid) pico t where "\<not> has_monthly_charge st a ms" "usd_to_xmr_piconero (tier_usd_price (ag_tier g)) rate = Inr pico"
      "deduct now a (of_int pico / PICO) ''XMR'' (balances (bl_db st)) = Inr t" "st' = month_paid now rate ms a g pico t st"
  | (unpaid) pico e where "usd_to_xmr_piconero (tier_usd_price (ag_tier g)) rate = Inr pico"
      "deduct now a (of_int pico / PICO) ''XMR'' (balances (bl_db st)) = Inl e" "st' = month_unpaid now rate ms a g pico st"
proof (cases "has_monthly_charge st a ms \<or> tier_usd_price (ag_tier g) \<le> 0")
  case True
  with assms show thesis by (intro skipped) (simp_all add: bill_agent_def Let_def)
next
  case False
  then obtain pico where pico: "usd_to_xmr_piconero (tier_usd_price (ag_tier g)) rate = Inr pico"
    using assms by (auto simp: bill_agent_def Let_def and_then_Inr_iff)
  note unfolded = assms [unfolded bill_agent_def Let_def prod.case if_not_P [OF False] pico, simplified]
  show thesis
    using unfolded False pico by (cases "deduct now a (of_int pico / PICO) ''XMR'' (balances (bl_db st))") (auto intro: paid unpaid)
qed

lemma bill_agent_explained:
  assumes "bill_agent now rate ms a g (st, s) = Inr (st', s')"
  shows "explained st st'"
  using assms
proof (cases rule: bill_agent_cases)
  case (paid pico t)
  then show ?thesis
    using deduct_Inr(2) [OF paid(3)] no_monthly_charge
    by (intro explained_event [where status = "''monthly_charge''"]) (auto simp: record_billing_event_def)
next
  case (unpaid pico e)
  show ?thesis
  proof (cases "row_of (agents (bl_db st)) a")
    case None
    then show ?thesis
      by (simp add: unpaid(3) start_grace_period_def explained_def account_def available_get_or_create monthly_charges_def)
  next
    case (Some r)
    then show ?thesis
      by (intro explained_event [where status = "''monthly_grace_started''"])
        (auto simp: unpaid(3) start_grace_period_def record_billing_event_def available_get_or_create)
  qed
qed simp

lemma bill_each_explained: "bill_each now rate ms gs (st, s) = Inr (st', s') \<Longrightarrow> explained st st'"
proof (induction gs arbitrary: st s)
  case (Cons x gs)
  obtain a g where x: "x = (a, g)" by (cases x)
  from Cons.prems obtain st1 s1 where "bill_agent now rate ms a g (st, s) = Inr (st1, s1)"
    "bill_each now rate ms gs (st1, s1) = Inr (st', s')" by (auto simp: x and_then_Inr_iff)
  with Cons.IH show ?case using bill_agent_explained explained_trans by blast
qed simp

lemma bill_pro_explained:
  assumes "bill_pro_subscriptions now feed entry st = (Inr (st', s), entry')"
  shows "explained st st'"
  using assms by (auto simp: bill_pro_subscriptions_def bill_at_def and_then_Inr_iff split: prod.splits dest: bill_each_explained)

lemma expire_grace_explained: "explained st (expire_grace now a g st)"
  by (intro explained_event [where status = "''monthly_grace_expired_downgrade''"])
    (auto simp: expire_grace_def record_billing_event_def)

lemma grace_fold_explained: "explained st (foldl (\<lambda>st (a, g). expire_grace now a g st) st gs)"
proof (induction gs arbitrary: st)
  case (Cons x gs)
  obtain a g where x: "x = (a, g)" by (cases x)
  show ?case unfolding x using explained_trans [OF expire_grace_explained Cons.IH] by simp
qed simp

lemma route_audit_effect:
  assumes "served_outcome (route_audit action a st) = Inr st'"
  shows "bl_history st' = bl_history st" "balances (bl_db st') = balances (bl_db st)" "agents (bl_db st') = agents (bl_db st)"
  using assms by (auto simp: served_outcome_def route_audit_def log_event_def split: sum.splits if_split_asm)

lemma upgrade_explained:
  assumes "upgrade_tier now feed entry a raw st = (Inr st', entry')"
  shows "explained st st'"
proof -
  have "st' = st \<or> (\<exists>new_tier usd pico rate t. deduct now a (of_int pico / PICO) ''XMR'' (balances (bl_db st)) = Inr t
      \<and> served_outcome (route_audit ''tier_upgrade'' a (record_billing_event a (month_of now) usd pico rate ''upgrade_charge'' new_tier now
          (set_agent (\<lambda>g. g\<lparr>ag_tier := new_tier, ag_tier_grace_until := None\<rparr>) a (set_balances t st)))) = Inr st')"
    using assms unfolding upgrade_tier_def Let_def
    by (auto split: sum.split_asm option.split_asm if_split_asm prod.split_asm)
  then show ?thesis
  proof
    assume "\<exists>new_tier usd pico rate t. deduct now a (of_int pico / PICO) ''XMR'' (balances (bl_db st)) = Inr t
      \<and> served_outcome (route_audit ''tier_upgrade'' a (record_billing_event a (month_of now) usd pico rate ''upgrade_charge'' new_tier now
          (set_agent (\<lambda>g. g\<lparr>ag_tier := new_tier, ag_tier_grace_until := None\<rparr>) a (set_balances t st)))) = Inr st'"
    then obtain new_tier usd pico rate t where paid: "deduct now a (of_int pico / PICO) ''XMR'' (balances (bl_db st)) = Inr t"
      and st': "served_outcome (route_audit ''tier_upgrade'' a (record_billing_event a (month_of now) usd pico rate ''upgrade_charge'' new_tier now
          (set_agent (\<lambda>g. g\<lparr>ag_tier := new_tier, ag_tier_grace_until := None\<rparr>) a (set_balances t st)))) = Inr st'"
      by blast
    show ?thesis
      using route_audit_effect [OF st'] deduct_Inr(2) [OF paid]
      by (intro explained_event [where status = "''upgrade_charge''"]) (auto simp: record_billing_event_def)
  qed simp
qed

lemma downgrade_effect:
  assumes "downgrade_tier now feed entry a raw st = (Inr st', entry')"
  shows "\<exists>g new_tier usd pico rate st1. row_of (agents (bl_db st)) a = Some g
    \<and> served_outcome (route_audit ''tier_downgrade'' a (record_billing_event a (month_of now) usd pico rate ''downgrade_refund'' (ag_tier g) now
          (set_agent (\<lambda>g. g\<lparr>ag_tier := new_tier, ag_tier_grace_until := None\<rparr>) a st1))) = Inr st'
    \<and> st1 = (if 0 < rate then set_balances (credit now a (of_int pico / PICO) ''XMR'' (balances (bl_db st))) st else st)
    \<and> (0 < rate \<or> pico = 0)"
proof -
  obtain new_tier where new_tier: "parse_tier raw = Inr new_tier"
    using assms by (auto simp: downgrade_tier_def split: sum.split_asm)
  obtain g where g: "row_of (agents (bl_db st)) a = Some g"
    using assms new_tier by (auto simp: downgrade_tier_def split: option.split_asm)
  obtain y m d where date: "date_of now = (y, m, d)" by (cases "date_of now")
  have "\<not> tier_rank (ag_tier g) \<le> tier_rank new_tier"
    using assms by (auto simp: downgrade_tier_def new_tier g)
  note open_form = assms [unfolded downgrade_tier_def new_tier g sum.case option.case if_not_P [OF this] date prod.case Let_def]
  from open_form obtain computed where computed:
    "(if 0 < tier_usd_price (ag_tier g) then compute_refund (tier_usd_price (ag_tier g)) d (days_in_month y m) else Inr 0) = Inr computed"
    by (cases "if 0 < tier_usd_price (ag_tier g) then compute_refund (tier_usd_price (ag_tier g)) d (days_in_month y m) else Inr 0")
      simp_all
  obtain answer e1 where answer: "(if 0 < computed then get_xmr_usd_rate now feed entry else (Inr 0, entry)) = (answer, e1)"
    by (cases "if 0 < computed then get_xmr_usd_rate now feed entry else (Inr 0, entry)")
  define rate where "rate = (case answer of Inl _ \<Rightarrow> 0 | Inr r \<Rightarrow> r)"
  define usd where "usd = (case answer of Inl _ \<Rightarrow> 0 | Inr _ \<Rightarrow> computed)"
  define pico where "pico = (if 0 < rate then round_half_even (usd / rate * PICO) else 0)"
  define st1 where "st1 = (if 0 < rate then set_balances (credit now a (of_int pico / PICO) ''XMR'' (balances (bl_db st))) st else st)"
  note defs = rate_def usd_def pico_def st1_def
  have "served_outcome (route_audit ''tier_downgrade'' a (record_billing_event a (month_of now) (cents usd) pico rate ''downgrade_refund'' (ag_tier g) now
          (set_agent (\<lambda>g. g\<lparr>ag_tier := new_tier, ag_tier_grace_until := None\<rparr>) a st1))) = Inr st'"
    using open_form [unfolded computed sum.case answer prod.case, folded rate_def usd_def, folded pico_def, folded st1_def] by blast
  moreover have "0 < rate \<or> pico = 0" by (simp add: pico_def)
  ultimately show ?thesis using g st1_def by blast
qed

lemma downgrade_explained:
  assumes "downgrade_tier now feed entry a raw st = (Inr st', entry')"
  shows "explained st st'"
proof -
  obtain g new_tier usd pico rate st1 where "row_of (agents (bl_db st)) a = Some g" and
    st': "served_outcome (route_audit ''tier_downgrade'' a (record_billing_event a (month_of now) usd pico rate ''downgrade_refund'' (ag_tier g) now
          (set_agent (\<lambda>g. g\<lparr>ag_tier := new_tier, ag_tier_grace_until := None\<rparr>) a st1))) = Inr st'"
    and st1: "st1 = (if 0 < rate then set_balances (credit now a (of_int pico / PICO) ''XMR'' (balances (bl_db st))) st else st)"
    and pico: "0 < rate \<or> pico = 0"
    using downgrade_effect [OF assms] by blast
  show ?thesis
    using route_audit_effect [OF st'] pico
    by (intro explained_event [where status = "''downgrade_refund''"])
      (auto simp: record_billing_event_def st1 available_credit)
qed

section \<open>Runs\<close>

datatype bill_op =
    BillMonthly
  | BillDaily
  | BillUpgrade ident "string option"
  | BillDowngrade ident "string option"

text \<open>A refused request is rolled back; the cached rate is the process's and stays.\<close>

definition served_tier ::
  "(http_error + billing_db) \<times> xmr_rate_entry option \<Rightarrow> billing_db \<Rightarrow> xmr_rate_entry option \<times> billing_db"
where
  "served_tier r st = (case r of (Inl e, entry') \<Rightarrow> (entry', st) | (Inr st', entry') \<Rightarrow> (entry', st'))"

fun bill_step :: "moment \<times> decimal option \<times> bill_op \<Rightarrow> xmr_rate_entry option \<times> billing_db \<Rightarrow> xmr_rate_entry option \<times> billing_db" where
  "bill_step (now, feed, BillMonthly) q = subscription_billing_cycle now feed q"
| "bill_step (now, feed, BillDaily) q = grace_expiry_cycle now feed q"
| "bill_step (now, feed, BillUpgrade a raw) (entry, st) = served_tier (upgrade_tier now feed entry a raw st) st"
| "bill_step (now, feed, BillDowngrade a raw) (entry, st) = served_tier (downgrade_tier now feed entry a raw st) st"

fun bill_run :: "(moment \<times> decimal option \<times> bill_op) list \<Rightarrow> xmr_rate_entry option \<times> billing_db \<Rightarrow> xmr_rate_entry option \<times> billing_db" where
  "bill_run [] q = q"
| "bill_run (x # xs) q = bill_run xs (bill_step x q)"

lemma monthly_cycle_explained: "explained (snd q) (snd (subscription_billing_cycle now feed q))"
proof (cases q)
  case (Pair entry st)
  then show ?thesis
    by (cases "bill_pro_subscriptions now feed entry st")
      (auto simp: subscription_billing_cycle_def split: sum.split dest: bill_pro_explained)
qed

lemma daily_cycle_explained: "explained (snd q) (snd (grace_expiry_cycle now feed q))"
proof (cases q)
  case (Pair entry st)
  obtain r entry' where r: "bill_pro_subscriptions now feed entry st = (r, entry')" by (cases "bill_pro_subscriptions now feed entry st")
  show ?thesis
  proof (cases r)
    case (Inr ss)
    obtain st1 s where ss: "ss = (st1, s)" by (cases ss)
    have "explained st st1" using r by (auto simp: Inr ss dest: bill_pro_explained)
    then show ?thesis
      using explained_trans [OF _ grace_fold_explained]
      by (simp add: grace_expiry_cycle_def Pair r Inr ss handle_grace_expiry_def Let_def)
  qed (simp add: grace_expiry_cycle_def Pair r)
qed

lemma served_tier_explained:
  "(\<And>st' entry'. r = (Inr st', entry') \<Longrightarrow> explained st st') \<Longrightarrow> explained st (snd (served_tier r st))"
  by (cases r; cases "fst r") (auto simp: served_tier_def)

lemma bill_step_explained: "explained (snd q) (snd (bill_step x q))"
proof -
  obtain now feed b entry st where x: "x = (now, feed, b)" and q: "q = (entry, st)" by (cases x; cases q)
  show ?thesis
    by (cases b)
      (simp_all add: x q monthly_cycle_explained [of "(entry, st)", simplified] daily_cycle_explained [of "(entry, st)", simplified]
        served_tier_explained upgrade_explained downgrade_explained)
qed

lemma bill_run_explained: "explained (snd q) (snd (bill_run xs q))"
proof (induction xs arbitrary: q)
  case (Cons x xs)
  show ?case using explained_trans [OF bill_step_explained Cons.IH] by simp
qed simp

text \<open>A hub with one verified agent that holds 10 XMR; one XMR costs 29 dollars.\<close>

definition demo_client :: "agent_tier \<Rightarrow> agent" where
  "demo_client t = \<lparr>ag_name = ''client'', ag_is_active = True, ag_tier = t, ag_tier_grace_until = None,
     ag_xmr_address = None, ag_created_at = 0\<rparr>"

definition demo_billing :: "decimal \<Rightarrow> billing_db" where
  "demo_billing held = \<lparr>bl_db = empty_db\<lparr>agents := [(1, demo_client TierVerified)], balances := credit 0 1 held ''XMR'' []\<rparr>,
     bl_history = []\<rparr>"

definition demo_free :: billing_db where
  "demo_free = \<lparr>bl_db = empty_db\<lparr>agents := [(1, demo_client TierFree)], balances := credit 0 1 100 ''XMR'' []\<rparr>, bl_history = []\<rparr>"

definition june_first :: moment where
  "june_first = days 20605 + hours 4"

definition demo_billed :: "xmr_rate_entry option \<times> billing_db" where
  "demo_billed = bill_run [(june_first, Some 29, BillMonthly), (june_first, Some 29, BillDaily),
     (june_first, None, BillDowngrade 1 (Some ''free''))] (None, demo_billing 10)"

text \<open>C37. Every run of the billing loops and of the tier endpoints is explained by the history of billing events:
  the balance of every agent moves by exactly the charges and the refunds recorded for it, and the loops never bill a
  month twice to the same agent.\<close>

theorem billing_history_explains_balances:
  "available_of a ''XMR'' (balances (bl_db (snd (bill_run xs q)))) + table_sum (row_charge a) (bl_history (snd (bill_run xs q)))
     = available_of a ''XMR'' (balances (bl_db (snd q))) + table_sum (row_charge a) (bl_history (snd q))
   \<and> monthly_charges a ms (snd (bill_run xs q)) \<le> max 1 (monthly_charges a ms (snd q))"
  using bill_run_explained [of q xs] unfolding explained_def account_def by blast

lemma demo_billed_history:
  "map (bh_status \<circ> snd) (bl_history (snd demo_billed)) = [''monthly_charge'', ''downgrade_refund'']"
  unfolding demo_billed_def by code_simp

section \<open>A client that cannot pay\<close>

definition client_frame :: "ident \<Rightarrow> billing_db \<Rightarrow> billing_db \<Rightarrow> bool" where
  "client_frame a st st' \<longleftrightarrow> row_of (agents (bl_db st')) a = row_of (agents (bl_db st)) a
     \<and> table_ok (agents (bl_db st')) = table_ok (agents (bl_db st))
     \<and> available_of a ''XMR'' (balances (bl_db st')) = available_of a ''XMR'' (balances (bl_db st))
     \<and> (\<forall>ms. monthly_charges a ms st' = monthly_charges a ms st)"

lemma client_frame_refl [simp]: "client_frame a st st"
  by (simp add: client_frame_def)

lemma client_frame_trans: "client_frame a st st1 \<Longrightarrow> client_frame a st1 st2 \<Longrightarrow> client_frame a st st2"
  by (simp add: client_frame_def)

text \<open>An active client of a paid tier with \<open>held\<close> XMR that has never been billed.\<close>

definition unpaid_client :: "ident \<Rightarrow> agent_tier \<Rightarrow> decimal \<Rightarrow> billing_db \<Rightarrow> bool" where
  "unpaid_client a t held st \<longleftrightarrow> table_ok (agents (bl_db st)) \<and> t \<noteq> TierFree
     \<and> available_of a ''XMR'' (balances (bl_db st)) = held \<and> (\<forall>ms. monthly_charges a ms st = 0)
     \<and> (\<exists>g. row_of (agents (bl_db st)) a = Some g \<and> ag_is_active g \<and> ag_tier g = t)"

definition beyond_means :: "agent_tier \<Rightarrow> decimal \<Rightarrow> decimal \<Rightarrow> bool" where
  "beyond_means t held rate \<longleftrightarrow> 0 < rate \<and> held < of_int (round_half_even (tier_usd_price t / rate * PICO)) / PICO"

lemma monthly_charges_edits [simp]:
  "monthly_charges a ms (post_charge_audit k st) = monthly_charges a ms st"
  "monthly_charges a ms (set_agent f k st) = monthly_charges a ms st"
  "monthly_charges a ms (set_balances t st) = monthly_charges a ms st"
  by (simp_all add: monthly_charges_def)

lemma bill_agent_other:
  assumes "bill_agent now rate ms k g (st, s) = Inr (st', s')" and "k \<noteq> a"
  shows "client_frame a st st'"
  using assms(1)
proof (cases rule: bill_agent_cases)
  case (paid pico t)
  then show ?thesis
    using assms(2) deduct_Inr(2) [OF paid(3)]
    by (simp add: client_frame_def row_of_modify_row monthly_charges_record option.map_ident)
next
  case (unpaid pico e)
  then show ?thesis
    using assms(2)
    by (simp add: client_frame_def start_grace_period_def row_of_modify_row monthly_charges_record available_get_or_create option.map_ident)
qed simp

lemma bill_each_other:
  "bill_each now rate ms gs (st, s) = Inr (st', s') \<Longrightarrow> a \<notin> fst ` set gs \<Longrightarrow> client_frame a st st'"
proof (induction gs arbitrary: st s)
  case (Cons x gs)
  obtain k g where x: "x = (k, g)" by (cases x)
  from Cons.prems obtain st1 s1 where "bill_agent now rate ms k g (st, s) = Inr (st1, s1)"
    "bill_each now rate ms gs (st1, s1) = Inr (st', s')" "k \<noteq> a" "a \<notin> fst ` set gs" by (auto simp: x and_then_Inr_iff)
  with Cons.IH show ?case using bill_agent_other client_frame_trans by blast
qed simp

lemma bill_each_append:
  "bill_each now rate ms (gs @ gs') q = and_then (bill_each now rate ms gs q) (bill_each now rate ms gs')"
proof (induction gs arbitrary: q)
  case (Cons x gs)
  obtain k g where x: "x = (k, g)" by (cases x)
  show ?case using Cons.IH by (cases "bill_agent now rate ms k g q") (simp_all add: x)
qed simp

lemma unpaid_client_frame:
  "client_frame a st st' \<Longrightarrow> unpaid_client a t held st' = unpaid_client a t held st"
  by (simp add: client_frame_def unpaid_client_def)

text \<open>Its grace is renewed.\<close>

lemma bill_agent_unpaid:
  assumes "bill_agent now rate ms a g (st, s) = Inr (st', s')" and "unpaid_client a t held st"
    and "ag_tier g = t" and "beyond_means t held rate"
  shows "unpaid_client a t held st'
    \<and> map_option ag_tier_grace_until (row_of (agents (bl_db st')) a) = Some (Some (now + days GRACE_PERIOD_DAYS))"
  using assms(1)
proof (cases rule: bill_agent_cases)
  case skipped
  moreover have "0 < tier_usd_price t" using assms(2) by (cases t) (simp_all add: unpaid_client_def tier_usd_price_def)
  moreover have "\<not> has_monthly_charge st a ms" using assms(2) unfolding no_monthly_charge unpaid_client_def by blast
  ultimately show ?thesis using assms(3) by simp
next
  case (paid pico b)
  then have "of_int pico / PICO \<le> held" using deduct_Inr(1) [OF paid(3)] assms(2) by (simp add: unpaid_client_def)
  then show ?thesis using paid(2) assms(3,4) by (auto simp: beyond_means_def usd_to_xmr_piconero_def split: if_split_asm)
next
  case (unpaid pico e)
  then show ?thesis
    using assms(2)
    by (auto simp: unpaid_client_def start_grace_period_def row_of_modify_row monthly_charges_record available_get_or_create)
qed

lemma paid_agents_split:
  assumes "table_ok (agents d)" and "row_of (agents d) a = Some g" and "ag_is_active g" and "ag_tier g \<noteq> TierFree"
  obtains xs ys where "paid_agents d = xs @ (a, g) # ys" "a \<notin> fst ` set xs" "a \<notin> fst ` set ys"
proof -
  have "ag_tier g \<in> set PAID_TIERS" using assms(4) by (cases "ag_tier g") (simp_all add: PAID_TIERS_def)
  then have "(a, g) \<in> set (paid_agents d)"
    using row_of_Some_mem [OF assms(2)] assms(3) by (simp add: paid_agents_def select_where_def)
  then obtain xs ys where split: "paid_agents d = xs @ (a, g) # ys" using split_list by metis
  have "distinct (map fst (paid_agents d))"
    using assms(1) by (simp add: paid_agents_def select_where_def table_ok_def keys_of_def distinct_map_filter)
  then show thesis using that [OF split] by (simp add: split)
qed

text \<open>In the billing of everybody, what matters to one client is its own step.\<close>

lemma bill_each_client:
  assumes "bill_each now rate ms (paid_agents (bl_db st)) (st, s) = Inr (st', s')" and "table_ok (agents (bl_db st))"
    and "row_of (agents (bl_db st)) a = Some g" and "ag_is_active g" and "ag_tier g \<noteq> TierFree"
  obtains st1 s1 st2 s2 where "client_frame a st st1" "bill_agent now rate ms a g (st1, s1) = Inr (st2, s2)" "client_frame a st2 st'"
proof -
  obtain xs ys where split: "paid_agents (bl_db st) = xs @ (a, g) # ys" "a \<notin> fst ` set xs" "a \<notin> fst ` set ys"
    using paid_agents_split [OF assms(2-5)] by blast
  from assms(1) obtain st1 s1 st2 s2 where steps: "bill_each now rate ms xs (st, s) = Inr (st1, s1)"
    "bill_agent now rate ms a g (st1, s1) = Inr (st2, s2)" "bill_each now rate ms ys (st2, s2) = Inr (st', s')"
    by (auto simp: split(1) bill_each_append and_then_Inr_iff)
  show thesis using that [OF bill_each_other [OF steps(1) split(2)] steps(2) bill_each_other [OF steps(3) split(3)]] .
qed

lemma bill_each_unpaid:
  assumes "bill_each now rate ms (paid_agents (bl_db st)) (st, s) = Inr (st', s')"
    and "unpaid_client a t held st" and "beyond_means t held rate"
  shows "unpaid_client a t held st'
    \<and> map_option ag_tier_grace_until (row_of (agents (bl_db st')) a) = Some (Some (now + days GRACE_PERIOD_DAYS))"
proof -
  obtain g where g: "table_ok (agents (bl_db st))" "row_of (agents (bl_db st)) a = Some g" "ag_is_active g" "ag_tier g = t" "ag_tier g \<noteq> TierFree"
    using assms(2) by (auto simp: unpaid_client_def)
  obtain st1 s1 st2 s2 where steps: "client_frame a st st1" "bill_agent now rate ms a g (st1, s1) = Inr (st2, s2)" "client_frame a st2 st'"
    using bill_each_client [OF assms(1) g(1,2,3,5)] by blast
  have "unpaid_client a t held st1" using steps(1) assms(2) by (simp add: unpaid_client_frame)
  from bill_agent_unpaid [OF steps(2) this g(4) assms(3)] steps(3)
  show ?thesis by (simp add: unpaid_client_frame) (simp add: client_frame_def)
qed

lemma expire_fold_other:
  "a \<notin> fst ` set gs \<Longrightarrow> client_frame a st (foldl (\<lambda>st (k, g). expire_grace now k g st) st gs)"
proof (induction gs arbitrary: st)
  case (Cons x gs)
  obtain k g where x: "x = (k, g)" by (cases x)
  have "client_frame a st (expire_grace now k g st)"
    using Cons.prems
    by (auto simp: x client_frame_def expire_grace_def row_of_modify_row monthly_charges_record option.map_ident)
  with Cons show ?case using client_frame_trans by (simp add: x)
qed simp

lemma grace_not_over:
  assumes "table_ok (agents (bl_db st))" and "row_of (agents (bl_db st)) a = Some g" and "\<not> grace_over now g"
  shows "client_frame a st (fst (handle_grace_expiry now st))"
proof -
  have "a \<notin> fst ` set (select_where (grace_over now) (agents (bl_db st)))"
  proof
    assume "a \<in> fst ` set (select_where (grace_over now) (agents (bl_db st)))"
    then obtain g' where "(a, g') \<in> set (agents (bl_db st))" "grace_over now g'" by (auto simp: select_where_def)
    with mem_row_of [OF assms(1)] assms(2,3) show False by fastforce
  qed
  then show ?thesis by (simp add: handle_grace_expiry_def Let_def expire_fold_other)
qed

lemma served_rate_beyond:
  assumes "beyond_means t held rate" and "\<forall>e. entry = Some e \<longrightarrow> beyond_means t held (xr_rate e)"
  shows "\<exists>r entry'. get_xmr_usd_rate now (Some rate) entry = (Inr r, entry') \<and> beyond_means t held r
    \<and> (\<forall>e. entry' = Some e \<longrightarrow> beyond_means t held (xr_rate e))"
  using assms by (cases entry) (simp_all add: get_xmr_usd_rate_def Let_def)

lemma bill_agent_answers: "0 < rate \<Longrightarrow> \<exists>q'. bill_agent now rate ms a g q = Inr q'"
  by (cases q) (simp add: bill_agent_def Let_def usd_to_xmr_piconero_def split: sum.split)

lemma bill_each_answers: "0 < rate \<Longrightarrow> \<exists>q'. bill_each now rate ms gs q = Inr q'"
proof (induction gs arbitrary: q)
  case (Cons x gs)
  obtain a g q1 where x: "x = (a, g)" and "bill_agent now rate ms a g q = Inr q1"
    using bill_agent_answers [OF Cons.prems] by (cases x) blast
  with Cons show ?case by simp
qed simp

text \<open>One day.\<close>

lemma daily_cycle_unpaid:
  assumes "unpaid_client a t held st" and "beyond_means t held rate"
    and "\<forall>e. entry = Some e \<longrightarrow> beyond_means t held (xr_rate e)"
    and "grace_expiry_cycle now (Some rate) (entry, st) = (entry', st')"
  shows "unpaid_client a t held st' \<and> (\<forall>e. entry' = Some e \<longrightarrow> beyond_means t held (xr_rate e))
    \<and> map_option ag_tier_grace_until (row_of (agents (bl_db st')) a) = Some (Some (now + days GRACE_PERIOD_DAYS))"
proof -
  obtain r e1 where r: "get_xmr_usd_rate now (Some rate) entry = (Inr r, e1)" "beyond_means t held r"
    and e1: "\<forall>e. e1 = Some e \<longrightarrow> beyond_means t held (xr_rate e)"
    using served_rate_beyond [OF assms(2,3)] by blast
  have "0 < r" using r(2) by (simp add: beyond_means_def)
  then obtain st1 s where billed: "bill_at now r st = Inr (st1, s)"
    unfolding bill_at_def using bill_each_answers by (metis surj_pair)
  then have st1: "unpaid_client a t held st1
      \<and> map_option ag_tier_grace_until (row_of (agents (bl_db st1)) a) = Some (Some (now + days GRACE_PERIOD_DAYS))"
    unfolding bill_at_def by (rule bill_each_unpaid [OF _ assms(1) r(2)])
  have "now < now + days GRACE_PERIOD_DAYS" using days_pos [of GRACE_PERIOD_DAYS] by (simp add: GRACE_PERIOD_DAYS_def)
  with st1 have frame: "client_frame a st1 (fst (handle_grace_expiry now st1))"
    by (auto simp: unpaid_client_def grace_over_def intro: grace_not_over)
  have "entry' = e1" "st' = fst (handle_grace_expiry now st1)"
    using assms(4) by (simp_all add: grace_expiry_cycle_def bill_pro_subscriptions_def r(1) billed)
  with st1 frame e1 show ?thesis by (simp add: unpaid_client_frame) (simp add: client_frame_def)
qed

definition daily_runs :: "(moment \<times> decimal) list \<Rightarrow> (moment \<times> decimal option \<times> bill_op) list" where
  "daily_runs ds = map (\<lambda>(now, rate). (now, Some rate, BillDaily)) ds"

lemma daily_runs_unpaid:
  assumes "unpaid_client a t held st" and "\<forall>(now, rate) \<in> set (ds @ [(now, rate)]). beyond_means t held rate"
    and "\<forall>e. entry = Some e \<longrightarrow> beyond_means t held (xr_rate e)"
  shows "unpaid_client a t held (snd (bill_run (daily_runs (ds @ [(now, rate)])) (entry, st)))
    \<and> map_option ag_tier_grace_until (row_of (agents (bl_db (snd (bill_run (daily_runs (ds @ [(now, rate)])) (entry, st))))) a)
        = Some (Some (now + days GRACE_PERIOD_DAYS))"
  using assms
proof (induction ds arbitrary: entry st)
  case Nil
  obtain entry' st' where "grace_expiry_cycle now (Some rate) (entry, st) = (entry', st')" by fastforce
  with daily_cycle_unpaid [OF Nil.prems(1) _ Nil.prems(3) this] Nil.prems(2) show ?case by (simp add: daily_runs_def)
next
  case (Cons d ds)
  obtain n r where d: "d = (n, r)" by (cases d)
  obtain entry' st' where day: "grace_expiry_cycle n (Some r) (entry, st) = (entry', st')" by fastforce
  have "beyond_means t held r" using Cons.prems(2) by (simp add: d)
  from daily_cycle_unpaid [OF Cons.prems(1) this Cons.prems(3) day]
  have "unpaid_client a t held st'" "\<forall>e. entry' = Some e \<longrightarrow> beyond_means t held (xr_rate e)" by simp_all
  from Cons.IH [OF this(1) _ this(2)] Cons.prems(2) show ?case by (simp add: daily_runs_def d day)
qed

text \<open>C38. The grace period of seven days never ends. A client that was never billed and cannot pay is billed again by
  every daily run in which the price feed answers, and each attempt renews its grace before the expiry is looked at: after any number of daily runs it still has its paid
  tier, has paid nothing, and its grace lasts seven more days, in which it is served as a paying client.\<close>

theorem grace_never_expires:
  assumes "unpaid_client a t held st" and "list_all (\<lambda>(now, rate). beyond_means t held rate) (ds @ [(now, rate)])"
    and "\<not> now + days 7 \<le> later"
  shows "\<exists>g. row_of (agents (bl_db (snd (bill_run (daily_runs (ds @ [(now, rate)])) (None, st))))) a = Some g
    \<and> ag_tier g = t \<and> ag_tier_grace_until g = Some (now + days 7) \<and> \<not> effective_tier_is_free g later
    \<and> available_of a ''XMR'' (balances (bl_db (snd (bill_run (daily_runs (ds @ [(now, rate)])) (None, st))))) = held"
proof -
  let ?st = "snd (bill_run (daily_runs (ds @ [(now, rate)])) (None, st))"
  have "unpaid_client a t held ?st
      \<and> map_option ag_tier_grace_until (row_of (agents (bl_db ?st)) a) = Some (Some (now + days GRACE_PERIOD_DAYS))"
    by (rule daily_runs_unpaid) (use assms(1,2) in \<open>simp_all add: list_all_iff\<close>)
  with assms(3) show ?thesis
    by (auto simp: unpaid_client_def effective_tier_is_free_def GRACE_PERIOD_DAYS_def)
qed

definition demo_days :: "nat \<Rightarrow> (moment \<times> decimal) list" where
  "demo_days n = map (\<lambda>i. (june_first + days (int i), 29)) [0..<n]"

lemma demo_unpaid: "unpaid_client 1 TierVerified 0 (demo_billing 0)"
proof -
  have "available_of 1 ''XMR'' (credit 0 1 0 ''XMR'' []) = 0" by (simp add: available_credit)
  then show ?thesis
    by (simp add: unpaid_client_def demo_billing_def demo_client_def table_ok_def keys_of_def monthly_charges_def
      select_where_def)
qed

theorem grace_never_expires_witness:
  "\<exists>g. row_of (agents (bl_db (snd (bill_run (daily_runs (demo_days 365 @ [(june_first + days 365, 29)])) (None, demo_billing 0))))) 1 = Some g
    \<and> ag_tier g = TierVerified \<and> \<not> effective_tier_is_free g (june_first + days 371)"
proof -
  have means: "beyond_means TierVerified 0 29"
    by (simp add: beyond_means_def tier_usd_price_def PICO_def round_half_even_def)
  have "list_all (\<lambda>(now, rate). beyond_means TierVerified 0 rate) (demo_days 365 @ [(june_first + days 365, 29)])"
    using means by (simp add: demo_days_def list_all_iff)
  moreover have "\<not> june_first + days 365 + days 7 \<le> june_first + days 371"
    by (simp add: days_def hours_def microsecond_per_second_def)
  ultimately show ?thesis using grace_never_expires [OF demo_unpaid] by blast
qed

section \<open>A refund for a month that was not paid\<close>

lemma parse_free: "parse_tier (Some ''free'') = Inr TierFree"
  by code_simp

lemma route_audit_answers: "\<exists>st'. served_outcome (route_audit action a st) = Inr st'"
  by (simp add: served_outcome_def route_audit_def log_event_def py_bind_def log_event_params_def)

lemma half_june: "compute_refund (tier_usd_price TierVerified) 16 (days_in_month 2026 6) = Inr (29 / 2)"
proof -
  have "days_in_month 2026 6 = 30" by (simp add: days_in_month_def)
  then show ?thesis using floor_unique [of 1450 "2901 / 2 :: rat"]
    by (simp add: compute_refund_def prorate_charge_def tier_usd_price_def cents_def quantize_half_up_def)
qed

text \<open>C40. The refund of a downgrade is computed from the price of the tier and the day of the month; whether the month
  was paid is not asked. A client that never paid anything, kept on its tier by the grace period, is credited the rest
  of the month when it returns to the free tier, and no other account pays for it.\<close>

theorem unpaid_month_refunded:
  assumes "unpaid_client a t held st" and "0 < rate" and "date_of now = (y, m, d)"
    and "compute_refund (tier_usd_price t) d (days_in_month y m) = Inr usd" and "0 < usd"
  shows "\<exists>st'. downgrade_tier now (Some rate) None a (Some ''free'') st = (Inr st', Some \<lparr>xr_rate = rate, xr_fetched_at = now\<rparr>)
    \<and> available_of a ''XMR'' (balances (bl_db st')) = held + of_int (round_half_even (usd / rate * PICO)) / PICO
    \<and> (b = a \<or> available_of b ''XMR'' (balances (bl_db st')) = available_of b ''XMR'' (balances (bl_db st)))
    \<and> monthly_charges a ms st' = 0"
proof -
  obtain g where g: "row_of (agents (bl_db st)) a = Some g" "ag_tier g = t" "t \<noteq> TierFree"
    "available_of a ''XMR'' (balances (bl_db st)) = held"
    using assms(1) by (auto simp: unpaid_client_def)
  have t: "\<not> tier_rank t \<le> tier_rank TierFree" "0 < tier_usd_price t"
    using g(3) by (cases t; simp add: tier_rank_def tier_usd_price_def)+
  have fetched: "get_xmr_usd_rate now (Some rate) None = (Inr rate, Some \<lparr>xr_rate = rate, xr_fetched_at = now\<rparr>)"
    by (simp add: get_xmr_usd_rate_def)
  let ?pico = "round_half_even (usd / rate * PICO)"
  let ?st = "record_billing_event a (month_of now) (cents usd) ?pico rate ''downgrade_refund'' t now
    (set_agent (\<lambda>g. g\<lparr>ag_tier := TierFree, ag_tier_grace_until := None\<rparr>) a
      (set_balances (credit now a (of_int ?pico / PICO) ''XMR'' (balances (bl_db st))) st))"
  obtain st' where st': "served_outcome (route_audit ''tier_downgrade'' a ?st) = Inr st'" using route_audit_answers by blast
  have "downgrade_tier now (Some rate) None a (Some ''free'') st = (Inr st', Some \<lparr>xr_rate = rate, xr_fetched_at = now\<rparr>)"
    using t assms(2,5) unfolding downgrade_tier_def parse_free sum.case g(1) option.case g(2) assms(3) prod.case Let_def
    by (simp only: if_True if_False simp_thms assms(4) sum.case fetched prod.case st')
  moreover have "monthly_charges a ms st = 0" using assms(1) unfolding unpaid_client_def by blast
  ultimately show ?thesis
    using route_audit_effect [OF st'] g(4) by (simp add: available_credit monthly_charges_cong [OF route_audit_effect(1) [OF st']] monthly_charges_record)
qed

text \<open>On the 16th of June half of the month is refunded.\<close>

theorem unpaid_month_refunded_witness:
  "\<exists>st'. downgrade_tier (june_first + days 15) (Some 1) None 1 (Some ''free'') (demo_billing 0)
      = (Inr st', Some \<lparr>xr_rate = 1, xr_fetched_at = june_first + days 15\<rparr>)
    \<and> available_of 1 ''XMR'' (balances (bl_db st')) = 29 / 2"
proof -
  have date: "date_of (june_first + days 15) = (2026, 6, 16)" by code_simp
  have pico: "of_int (round_half_even (29 / 2 / 1 * PICO)) / PICO = (29 / 2 :: decimal)"
    by (simp add: PICO_def round_half_even_def)
  from unpaid_month_refunded [OF demo_unpaid _ date half_june, of 1] show ?thesis unfolding pico by fastforce
qed

section \<open>An upgraded month is billed again\<close>

text \<open>The price at a rate, in XMR.\<close>

definition xmr_price :: "decimal \<Rightarrow> decimal \<Rightarrow> decimal" where
  "xmr_price usd rate = of_int (round_half_even (usd / rate * PICO)) / PICO"

lemma upgrade_paid:
  assumes "parse_tier raw = Inr t" and "t \<noteq> TierFree" and "row_of (agents (bl_db st)) a = Some g" and "ag_tier g = TierFree"
    and "date_of now = (y, m, d)" and "prorate_charge (tier_usd_price t) d (days_in_month y m) = Inr usd" and "0 < rate"
    and "xmr_price usd rate \<le> available_of a ''XMR'' (balances (bl_db st))"
  shows "\<exists>st1. upgrade_tier now (Some rate) None a raw st = (Inr st1, Some \<lparr>xr_rate = rate, xr_fetched_at = now\<rparr>)
    \<and> agents (bl_db st1) = modify_row a (\<lambda>g. g\<lparr>ag_tier := t, ag_tier_grace_until := None\<rparr>) (agents (bl_db st))
    \<and> available_of a ''XMR'' (balances (bl_db st1)) = available_of a ''XMR'' (balances (bl_db st)) - xmr_price usd rate
    \<and> (\<forall>ms. monthly_charges a ms st1 = monthly_charges a ms st)"
proof -
  have rank: "\<not> tier_rank t < tier_rank TierFree" "\<not> tier_rank t = tier_rank TierFree"
    using assms(2) by (cases t; simp add: tier_rank_def)+
  have fetched: "get_xmr_usd_rate now (Some rate) None = (Inr rate, Some \<lparr>xr_rate = rate, xr_fetched_at = now\<rparr>)"
    by (simp add: get_xmr_usd_rate_def)
  let ?pico = "round_half_even (usd / rate * PICO)"
  have pico: "usd_to_xmr_piconero usd rate = Inr ?pico" using assms(7) by (simp add: usd_to_xmr_piconero_def)
  obtain b where b: "deduct now a (of_int ?pico / PICO) ''XMR'' (balances (bl_db st)) = Inr b"
    using assms(8) by (simp add: deduct_cases xmr_price_def)
  let ?st = "record_billing_event a (month_of now) (cents usd) ?pico rate ''upgrade_charge'' t now
    (set_agent (\<lambda>g. g\<lparr>ag_tier := t, ag_tier_grace_until := None\<rparr>) a (set_balances b st))"
  obtain st1 where st1: "served_outcome (route_audit ''tier_upgrade'' a ?st) = Inr st1" using route_audit_answers by blast
  have "upgrade_tier now (Some rate) None a raw st = (Inr st1, Some \<lparr>xr_rate = rate, xr_fetched_at = now\<rparr>)"
    unfolding upgrade_tier_def assms(1) sum.case assms(3) option.case assms(4) assms(5) prod.case Let_def
    by (simp only: rank if_False assms(6) sum.case fetched prod.case pico b st1)
  then show ?thesis
    using route_audit_effect [OF st1] deduct_Inr(2) [OF b]
    by (simp add: xmr_price_def monthly_charges_cong [OF route_audit_effect(1) [OF st1]] monthly_charges_record)
qed

lemma bill_agent_able:
  assumes "bill_agent now rate ms a g (st, s) = Inr (st', s')" and "monthly_charges a ms st = 0" and "ag_tier g \<noteq> TierFree"
    and "xmr_price (tier_usd_price (ag_tier g)) rate \<le> available_of a ''XMR'' (balances (bl_db st))"
  shows "agents (bl_db st') = modify_row a (\<lambda>g. g\<lparr>ag_tier_grace_until := None\<rparr>) (agents (bl_db st))
    \<and> available_of a ''XMR'' (balances (bl_db st'))
        = available_of a ''XMR'' (balances (bl_db st)) - xmr_price (tier_usd_price (ag_tier g)) rate
    \<and> monthly_charges a ms st' = 1"
  using assms(1)
proof (cases rule: bill_agent_cases)
  case skipped
  moreover have "0 < tier_usd_price (ag_tier g)" using assms(3) by (cases "ag_tier g") (simp_all add: tier_usd_price_def)
  moreover have "\<not> has_monthly_charge st a ms" using assms(2) unfolding no_monthly_charge .
  ultimately show ?thesis by simp
next
  case (paid pico t)
  then show ?thesis
    using deduct_Inr(2) [OF paid(3)] assms(2)
    by (simp add: xmr_price_def usd_to_xmr_piconero_def monthly_charges_record split: if_split_asm)
next
  case (unpaid pico e)
  then show ?thesis using assms(4) by (auto simp: xmr_price_def usd_to_xmr_piconero_def deduct_Inl_iff split: if_split_asm)
qed

lemma daily_cycle_able:
  assumes "table_ok (agents (bl_db st))" and "row_of (agents (bl_db st)) a = Some g" and "ag_is_active g" and "ag_tier g \<noteq> TierFree"
    and "monthly_charges a (month_of now) st = 0" and "0 < rate"
    and "get_xmr_usd_rate now feed entry = (Inr rate, entry')"
    and "xmr_price (tier_usd_price (ag_tier g)) rate \<le> available_of a ''XMR'' (balances (bl_db st))"
  shows "\<exists>st'. grace_expiry_cycle now feed (entry, st) = (entry', st')
    \<and> available_of a ''XMR'' (balances (bl_db st'))
        = available_of a ''XMR'' (balances (bl_db st)) - xmr_price (tier_usd_price (ag_tier g)) rate
    \<and> monthly_charges a (month_of now) st' = 1"
proof -
  obtain st1 s where billed: "bill_at now rate st = Inr (st1, s)"
    unfolding bill_at_def using bill_each_answers [OF assms(6)] by (metis surj_pair)
  obtain q1 s1 q2 s2 where steps: "client_frame a st q1" "bill_agent now rate (month_of now) a g (q1, s1) = Inr (q2, s2)"
    "client_frame a q2 st1"
    using bill_each_client [OF billed [unfolded bill_at_def] assms(1-4)] by blast
  from steps(1) assms have q1: "table_ok (agents (bl_db q1))" "row_of (agents (bl_db q1)) a = Some g"
    "monthly_charges a (month_of now) q1 = 0"
    "available_of a ''XMR'' (balances (bl_db q1)) = available_of a ''XMR'' (balances (bl_db st))"
    unfolding client_frame_def by metis+
  have q2: "agents (bl_db q2) = modify_row a (\<lambda>g. g\<lparr>ag_tier_grace_until := None\<rparr>) (agents (bl_db q1))"
    "available_of a ''XMR'' (balances (bl_db q2))
       = available_of a ''XMR'' (balances (bl_db st)) - xmr_price (tier_usd_price (ag_tier g)) rate"
    "monthly_charges a (month_of now) q2 = 1"
    using bill_agent_able [OF steps(2) q1(3) assms(4)] assms(8) q1(4) by auto
  have "table_ok (agents (bl_db st1))" "row_of (agents (bl_db st1)) a = Some (g\<lparr>ag_tier_grace_until := None\<rparr>)"
    using steps(3) q1(1,2) q2(1) unfolding client_frame_def by (simp_all add: row_of_modify_row)
  then have frame: "client_frame a st1 (fst (handle_grace_expiry now st1))"
    by (rule grace_not_over) (simp add: grace_over_def)
  have "grace_expiry_cycle now feed (entry, st) = (entry', fst (handle_grace_expiry now st1))"
    by (simp add: grace_expiry_cycle_def bill_pro_subscriptions_def assms(7) billed)
  moreover have "monthly_charges a (month_of now) (fst (handle_grace_expiry now st1)) = 1"
    using frame steps(3) q2(3) unfolding client_frame_def by metis
  moreover have "available_of a ''XMR'' (balances (bl_db (fst (handle_grace_expiry now st1))))
      = available_of a ''XMR'' (balances (bl_db st)) - xmr_price (tier_usd_price (ag_tier g)) rate"
    using frame steps(3) q2(2) unfolding client_frame_def by simp
  ultimately show ?thesis by blast
qed

text \<open>C39. A client that upgrades in the middle of a month pays the rest of the month, recorded as an upgrade and not as
  the charge of the month; the next daily run, meant to retry failed charges, finds no charge of the month and takes
  the price of the whole month once more.\<close>

theorem upgraded_month_billed_again:
  assumes "table_ok (agents (bl_db st))" and "row_of (agents (bl_db st)) a = Some g" and "ag_is_active g" and "ag_tier g = TierFree"
    and "monthly_charges a (y, m) st = 0" and "parse_tier raw = Inr t" and "t \<noteq> TierFree"
    and "date_of now = (y, m, d)" and "date_of later = (y, m, d')" and "now + RATE_CACHE_TTL \<le> later"
    and "prorate_charge (tier_usd_price t) d (days_in_month y m) = Inr usd" and "0 < rate" and "0 < rate'"
    and "xmr_price usd rate + xmr_price (tier_usd_price t) rate' \<le> available_of a ''XMR'' (balances (bl_db st))"
  shows "\<exists>entry st1 entry' st2. upgrade_tier now (Some rate) None a raw st = (Inr st1, entry)
    \<and> grace_expiry_cycle later (Some rate') (entry, st1) = (entry', st2)
    \<and> available_of a ''XMR'' (balances (bl_db st2))
        = available_of a ''XMR'' (balances (bl_db st)) - xmr_price usd rate - xmr_price (tier_usd_price t) rate'"
proof -
  have "0 \<le> tier_usd_price t" by (cases t) (simp_all add: tier_usd_price_def)
  then have "0 \<le> xmr_price (tier_usd_price t) rate'"
    using assms(13) by (simp add: xmr_price_def PICO_def round_half_even_nonneg)
  with assms(14) have "xmr_price usd rate \<le> available_of a ''XMR'' (balances (bl_db st))" by simp
  from upgrade_paid [OF assms(6,7,2,4,8,11,12) this]
  obtain st1 where st1: "upgrade_tier now (Some rate) None a raw st = (Inr st1, Some \<lparr>xr_rate = rate, xr_fetched_at = now\<rparr>)"
    "agents (bl_db st1) = modify_row a (\<lambda>g. g\<lparr>ag_tier := t, ag_tier_grace_until := None\<rparr>) (agents (bl_db st))"
    "available_of a ''XMR'' (balances (bl_db st1)) = available_of a ''XMR'' (balances (bl_db st)) - xmr_price usd rate"
    "\<forall>ms. monthly_charges a ms st1 = monthly_charges a ms st"
    by blast
  let ?g = "g\<lparr>ag_tier := t, ag_tier_grace_until := None\<rparr>"
  have client: "table_ok (agents (bl_db st1))" "row_of (agents (bl_db st1)) a = Some ?g" "ag_is_active ?g" "ag_tier ?g \<noteq> TierFree"
    "monthly_charges a (month_of later) st1 = 0"
    using st1(2,4) assms(1-5,7,9) by (simp_all add: row_of_modify_row month_of_def)
  have "get_xmr_usd_rate later (Some rate') (Some \<lparr>xr_rate = rate, xr_fetched_at = now\<rparr>)
      = (Inr rate', Some \<lparr>xr_rate = rate', xr_fetched_at = later\<rparr>)"
    using assms(10) by (simp add: get_xmr_usd_rate_def)
  from daily_cycle_able [OF client assms(13) this] st1(1,3) assms(14) show ?thesis by auto
qed

text \<open>Upgraded on the 16th of June for 14.5 XMR, billed 29 XMR on the 17th.\<close>

theorem upgraded_month_billed_again_witness:
  "\<exists>entry st1 entry' st2. upgrade_tier (june_first + days 15) (Some 1) None 1 (Some ''pro'') demo_free = (Inr st1, entry)
    \<and> grace_expiry_cycle (june_first + days 16) (Some 1) (entry, st1) = (entry', st2)
    \<and> available_of 1 ''XMR'' (balances (bl_db st2)) = 113 / 2"
proof -
  have date: "date_of (june_first + days 15) = (2026, 6, 16)" "date_of (june_first + days 16) = (2026, 6, 17)" by code_simp+
  have table: "table_ok (agents (bl_db demo_free))" "row_of (agents (bl_db demo_free)) 1 = Some (demo_client TierFree)"
    by (simp_all add: demo_free_def table_ok_def keys_of_def)
  have raw: "parse_tier (Some ''pro'') = Inr TierVerified" by code_simp
  have part: "prorate_charge (tier_usd_price TierVerified) 16 (days_in_month 2026 6) = Inr (29 / 2)"
    using half_june by (simp add: compute_refund_def)
  have price: "xmr_price (29 / 2) 1 = 29 / 2" "xmr_price (tier_usd_price TierVerified) 1 = 29"
    by (simp_all add: xmr_price_def tier_usd_price_def PICO_def round_half_even_def)
  have funds: "available_of 1 ''XMR'' (balances (bl_db demo_free)) = 100"
    by (simp add: demo_free_def available_credit)
  have "june_first + days 15 + RATE_CACHE_TTL \<le> june_first + days 16" by code_simp
  moreover have "monthly_charges 1 (2026, 6) demo_free = 0" by (simp add: demo_free_def monthly_charges_def select_where_def)
  moreover have "xmr_price (29 / 2) 1 + xmr_price (tier_usd_price TierVerified) 1 \<le> available_of 1 ''XMR'' (balances (bl_db demo_free))"
    unfolding price funds by simp
  ultimately have "\<exists>entry st1 entry' st2. upgrade_tier (june_first + days 15) (Some 1) None 1 (Some ''pro'') demo_free = (Inr st1, entry)
      \<and> grace_expiry_cycle (june_first + days 16) (Some 1) (entry, st1) = (entry', st2)
      \<and> available_of 1 ''XMR'' (balances (bl_db st2))
          = available_of 1 ''XMR'' (balances (bl_db demo_free)) - xmr_price (29 / 2) 1 - xmr_price (tier_usd_price TierVerified) 1"
    by (intro upgraded_month_billed_again [OF table _ _ _ raw _ date _ part]) (simp_all add: demo_client_def)
  then show ?thesis unfolding price funds by simp
qed

end
