(* ===== verification/Spec2Isabelle.thy ===== *)
theory Spec2Isabelle
  imports Hub_Routes Escrow_Sweep Channel_Life Audit_Proofs Proof_Of_Work Withdraw_Once Rate_Limiter
    Spending_Limits Hub_Payment_Proofs Conditional_Life Multi_Party_Life Streams Split_Payments
    Sla_Life Recurring_Life Lending_Life Treasury_Life Swaps_Life Deposits_Life Webhooks_Life
    Reviews_Life Multisig_Life Matchmaking_Life Billing_Life
begin

text \<open>
  A model of the financial core of sthrip, a payment hub for software agents, and what makes it
  correct. The program is a web service: an endpoint under \<open>src/api/routers\<close> opens a database session,
  calls a service of \<open>src/sthrip/services\<close>, which works through the repositories of
  \<open>src/sthrip/db\<close>; \<open>get_db\<close> commits when the handler returns and rolls back when it raises. Background
  loops of \<open>src/api/main_v2.py\<close> call the same services.

  \<^bold>\<open>Shape of the model.\<close> A session is the record \<open>db\<close> of \<open>Schema\<close>, one table per model class; a table is
  the list of its rows with their keys in insertion order (\<open>Prelude\<close>). A handler is a function from the
  session (and the time, where it reads the clock) to \<open>py_error + result\<close>: \<open>Inl\<close> is the exception it
  raises, so the session it would have left is dropped, as the roll-back does. Side calls whose
  argument lists Python checks when they run are bound explicitly (\<open>Events\<close>). A \<open>Decimal\<close> is a rational,
  a time an integer number of microseconds, a UUID a natural number. New keys are keys the table does
  not hold. One request runs at a time: the row locks and conditional updates the program uses against
  concurrent requests are kept as guards of the updates, and retried or interleaved requests are
  sequences of requests.

  \<^bold>\<open>Interfaces.\<close> \<open>guarded_transition\<close> (\<open>Prelude\<close>) is the contract of every status change of a repository:
  a conditional UPDATE that leaves its own guard, hence fires once; each repository's transitions
  interpret it. \<open>funds\<close> (\<open>Balances\<close>) is what the services rely on when they move money; the balance
  repository interprets it as \<open>bank\<close>.

  \<^bold>\<open>Parts.\<close>
  \<^item> Balances: \<open>Balances\<close> (\<open>balance_repo.py\<close>), \<open>Ledger\<close> (sequences of operations: no overdraft, totals).
  \<^item> Fees and hub routes: \<open>Fees\<close>, \<open>Hub_Routes\<close> (\<open>fee_calculator.py\<close>, \<open>fee_collector.py\<close>): the commission,
    routes as a state machine, fees recorded and withdrawn once.
  \<^item> Transfers and the free tier: \<open>Calendar\<close>, \<open>Transfers\<close> (\<open>transaction_repo.py\<close>, \<open>agent_stats_service.py\<close>,
    \<open>tier_cache.py\<close>, the tier middleware): what a transfer moves, its replay, the monthly cap.
  \<^item> Escrow: \<open>Escrow_Repo\<close>, \<open>Escrow\<close>, \<open>Milestones\<close> model \<open>escrow_repo.py\<close>, \<open>milestone_repo.py\<close> and
    \<open>escrow_service.py\<close>; \<open>Escrow_Custody\<close>, \<open>Milestone_Custody\<close> account for the money a deal holds, step by
    step; \<open>Escrow_Life\<close> has runs, the status machine, authorisation, and the two expiries that do not
    conserve money; \<open>Escrow_Sweep\<close> the background sweep and the trust scores.
  \<^item> Payment channels: \<open>Channel\<close> (\<open>channel_repo.py\<close>, \<open>channel_service.py\<close>), \<open>Channel_Life\<close>: no channel ever
    opens as the audit calls stand; custody, nonces and statuses of what the handlers write.
  \<^item> Payment streams: \<open>Streams\<close> (\<open>stream_repo.py\<close>, \<open>stream_service.py\<close>): what a stream bills.
  \<^item> Conditional payments: \<open>Conditional\<close>, \<open>Conditional_Life\<close> (\<open>conditional_payment_service.py\<close>, its
    repository, and the loop that evaluates and expires): per-agent accounts; the condition that stops
    the loop.
  \<^item> Multi-party payments: \<open>Multi_Party\<close>, \<open>Multi_Party_Life\<close> (\<open>multi_party_service.py\<close> and its
    repository): per-agent accounts with the fate of every share; all or nothing.
  \<^item> Split payments: \<open>Split_Payments\<close> (\<open>split_payment_service.py\<close>).
  \<^item> Service level agreements: \<open>Sla\<close>, \<open>Sla_Life\<close> (\<open>sla_service.py\<close>, \<open>sla_repo.py\<close>), which open escrow deals:
    contract states, the verdict, the enforcement cycle, and that none of them moves the escrowed money.
  \<^item> Recurring payments: \<open>Recurring\<close>, \<open>Recurring_Life\<close> (\<open>recurring_service.py\<close>, \<open>recurring_repo.py\<close>).
  \<^item> Lending: \<open>Lending\<close>, \<open>Lending_Life\<close> (\<open>credit_service.py\<close>, \<open>loan_repo.py\<close>, \<open>credit_repo.py\<close>): the score and
    its bounds, loans and their collateral, defaults. \<open>Apart_Log\<close> is what these services and the
    recurring payments share: audit calls with a transaction of their own; \<open>Durations\<close> their time spans.
  \<^item> Conversion and treasury: \<open>Conversion\<close> (\<open>rate_service.py\<close>, \<open>conversion_service.py\<close>, its repository),
    \<open>Treasury\<close>, \<open>Treasury_Life\<close> (\<open>treasury_service.py\<close>, \<open>treasury_repo.py\<close>): policies, rebalancing, the
    value of a portfolio over conversions, in exact arithmetic.
  \<^item> Cross-chain swaps: \<open>Swaps\<close>, \<open>Swaps_Life\<close> (\<open>swap_service.py\<close>, \<open>swap_repo.py\<close>, \<open>exchange_providers.py\<close>).
  \<^item> Audit: \<open>Text_Encoding\<close> (JSON, UUID and time texts), \<open>Audit_Chain\<close> (\<open>audit_logger.py\<close>: redaction and
    the HMAC chain), \<open>Audit_Proofs\<close>: a written log verifies, its head commits to what was hashed.
  \<^item> Idempotency and balance endpoints: \<open>Idempotency\<close> (\<open>idempotency.py\<close>, \<open>idempotency_repo.py\<close>),
    \<open>Balance_Routes\<close> (\<open>routers/balance.py\<close>, the withdrawal saga), \<open>Keys\<close> (the life of one key, shared by
    the endpoints), \<open>Withdraw_Once\<close>: one debit per key.
  \<^item> Hub payments: \<open>Glob\<close> and \<open>Spending_Policy\<close>, \<open>Spending_Limits\<close> (\<open>spending_policy_service.py\<close>),
    \<open>Hub_Payment\<close>, \<open>Hub_Payment_Proofs\<close> (\<open>routers/payments.py\<close>, \<open>payment_dispatch.py\<close>,
    \<open>payment_tee_client.py\<close>, \<open>gcp/payment_tee_deploy/payment_service.py\<close>): the composition of policy, idempotency,
    transfer, fee and route in one endpoint, with the remote payment service and its own transaction on the same
    database; what holds while its replies arrive, and what a lost reply or a shared key does.
  \<^item> Deposits: \<open>Deposits\<close>, \<open>Deposits_Life\<close> (\<open>deposit_monitor.py\<close>, \<open>wallet_service.py\<close>,
    \<open>withdrawal_recovery.py\<close>): polls and restarts credit every transaction once, the deposits that a later
    block makes unreachable, and the reconciliation of interrupted withdrawals.
  \<^item> Webhooks: \<open>Webhooks\<close>, \<open>Webhooks_Life\<close> (\<open>webhook_service.py\<close>, \<open>webhook_repo.py\<close>, the endpoints of agents): the
    queue as a machine whose moves are the phases of a delivery, run by any number of workers, with lost deliveries
    and crashed processes as moves; the bound on how often an event goes out grows with both.
  \<^item> Reputation proofs and reviews: \<open>Zk_Proofs\<close>, \<open>Zk_Life\<close> (\<open>zk_reputation_service.py\<close>, \<open>routers/reputation.py\<close>):
    commitments, the proof of a bit and the range proof, complete and sound over a group of any size;
    \<open>Reviews\<close>, \<open>Reviews_Life\<close> (\<open>review_service.py\<close>, \<open>review_repo.py\<close>): rating summaries, and the review
    proofs that show nothing.
  \<^item> Multisig escrow: \<open>Multisig\<close>, \<open>Multisig_Life\<close> (\<open>multisig_coordinator.py\<close>, \<open>multisig_repo.py\<close>): the three
    rounds of the key exchange, and the money of an escrow that is also an ordinary deal.
  \<^item> Matchmaking: \<open>Matchmaking\<close>, \<open>Matchmaking_Life\<close> (\<open>matchmaking_service.py\<close>, \<open>matchmaking_repo.py\<close>): scores, the
    best match, and the contracts an accepted match opens.
  \<^item> Subscription billing: \<open>Billing\<close>, \<open>Billing_Life\<close> (\<open>subscription_billing_service.py\<close>, \<open>xmr_rate_service.py\<close>, the
    tier endpoints of \<open>routers/agents.py\<close>, two loops of \<open>main_v2.py\<close>): runs of the loops and endpoints, the
    grace period, refunds. \<open>Rounding\<close> is what these and the reviews share: ties to even.
  \<^item> Proof of work and rate limits: \<open>Proof_Of_Work\<close> (\<open>pow_service.py\<close>, the registration check),
    \<open>Rate_Limiter\<close> (\<open>rate_limiter.py\<close>): termination of the search, the limiter as one counter per key.

  \<^bold>\<open>Parameters.\<close> What is not under \<open>src/\<close> is an argument: SHA-256, SHA-512 and the HMAC, random scalars, the
  encryption of webhook secrets and the answers to HTTP calls, the wallet RPC, what the connection to the payment
  service does at a moment (the service itself is modelled), the rate feeds, the wallet of the multisig coordinator and the answers of the exchange providers, the Redis commands of the spending limits (with their documented laws as
  hypotheses, discharged for a concrete store in the witnesses), random hashes, and for conditional
  payments the library readers of times, UUIDs and decimals (any functions: nothing is assumed of
  them). \<open>audit_head_commits\<close> assumes a MAC without collisions, as any statement about a hash chain must.

  \<^bold>\<open>Loops and fuel.\<close> Loops over rows are structural. The search of \<open>solve\<close> may not end: it is
  \<open>partial_function (option)\<close>, and \<open>solve_terminates\<close> proves that it returns the least solution when there
  is one. No other definition uses fuel.

  \<^bold>\<open>How the lemmas are grouped.\<close> Each \<open>..._Life\<close> or \<open>..._Proofs\<close> theory has: the effect of each handler on
  the tables (\<open>..._effect\<close>, \<open>..._Inr\<close>), a step relation on sessions that the handlers satisfy and that
  composes (\<open>row_step\<close>, \<open>deal_step\<close>, \<open>cond_step\<close>, \<open>multi_step\<close>), runs of requests, and at the end the
  properties with a concrete run as witness of each. Accounts are stated per agent and token where the
  code allows it: the balance of an agent minus what its rows account for is constant.

  \<^bold>\<open>Not modelled.\<close> Columns no modelled operation decides on (descriptions, encrypted envelopes, metadata,
  response dictionaries beyond their values), foreign keys, the digits a quotient loses (28 are kept) and the rounding
  of a value when a column stores it, so that statements about conversions and fees hold up to these roundings, failures of the database itself, the Redis paths of the rate limiter and the idempotency store,
  and true concurrency beyond the moves of the webhook workers. The older on-chain operations of the channel repository, which no service calls.
  The filters of the list queries by the text of a state. Whole subsystems: messaging, the agent registry; the bridge, the atomic swap library, envelope cryptography, client SDK,
  integrations and administration pages, which are external protocols, input and output, or
  forwarding.
\<close>

end
